(* ===== verification/JsPrelude.thy ===== *)
theory JsPrelude
  imports Complex_Main "HOL-Library.AList" "HOL-Library.Sublist"
begin

section \<open>Strings, numbers and maps of the JavaScript runtime\<close>

text \<open>
  The part of the ECMAScript standard library that the modelled sources use, and the
  generic lemmas every component shares.

  Strings are lists of characters; all claims are about strings whose code units are
  below 256, and case mapping acts on ASCII letters. Numbers that the sources read from text
  are exact rationals: the rounding of binary doubles and the overflow to Infinity of literals
  above 1.8e308 are not modelled. A JavaScript \<open>Map\<close>, or an object used as a
  dictionary, is an association list in insertion order; setting an existing key keeps its
  place, as \<open>AList.update\<close> does.
\<close>

named_theorems js_text \<open>simplification rules for the string operations\<close>
named_theorems js_map \<open>simplification rules for insertion-ordered maps\<close>

subsection \<open>Characters and strings\<close>

definition is_ws :: "char \<Rightarrow> bool" where
  "is_ws c \<longleftrightarrow> (let n = of_char c :: nat in (9 \<le> n \<and> n \<le> 13) \<or> n = 32 \<or> n = 160)"

definition is_digit :: "char \<Rightarrow> bool" where
  "is_digit c \<longleftrightarrow> (let n = of_char c :: nat in 48 \<le> n \<and> n \<le> 57)"

definition digit_val :: "char \<Rightarrow> nat" where
  "digit_val c = of_char c - 48"

definition lower_char :: "char \<Rightarrow> char" where
  "lower_char c = (let n = of_char c :: nat in if 65 \<le> n \<and> n \<le> 90 then char_of (n + 32) else c)"

definition upper_char :: "char \<Rightarrow> char" where
  "upper_char c = (let n = of_char c :: nat in if 97 \<le> n \<and> n \<le> 122 then char_of (n - 32) else c)"

definition js_lower :: "string \<Rightarrow> string" where
  "js_lower = map lower_char"

definition js_upper :: "string \<Rightarrow> string" where
  "js_upper = map upper_char"

definition trim_left :: "string \<Rightarrow> string" where
  "trim_left = dropWhile is_ws"

definition js_trim :: "string \<Rightarrow> string" where
  "js_trim s = rev (trim_left (rev (trim_left s)))"

fun str_contains :: "string \<Rightarrow> string \<Rightarrow> bool" where
  "str_contains [] t = (t = [])"
| "str_contains (c # s) t = (prefix t (c # s) \<or> str_contains s t)"

abbreviation starts_with :: "string \<Rightarrow> string \<Rightarrow> bool" where
  "starts_with s p \<equiv> prefix p s"

abbreviation ends_with :: "string \<Rightarrow> string \<Rightarrow> bool" where
  "ends_with s p \<equiv> suffix p s"

fun split_on :: "char \<Rightarrow> string \<Rightarrow> string list" where
  "split_on d [] = [[]]"
| "split_on d (c # s) =
     (if c = d then [] # split_on d s
      else (case split_on d s of [] \<Rightarrow> [[c]] | w # ws \<Rightarrow> (c # w) # ws))"

fun join :: "string \<Rightarrow> string list \<Rightarrow> string" where
  "join sep [] = []"
| "join sep [x] = x"
| "join sep (x # y # xs) = x @ sep @ join sep (y # xs)"

lemma includes_iff: "str_contains s t \<longleftrightarrow> (\<exists>a b. s = a @ t @ b)"
proof (induction s)
  case Nil
  show ?case by auto
next
  case (Cons c s)
  show ?case
  proof
    assume "str_contains (c # s) t"
    then consider "prefix t (c # s)" | "str_contains s t" by auto
    then show "\<exists>a b. c # s = a @ t @ b"
    proof cases
      case 1
      then show ?thesis by (metis append_Nil prefixE)
    next
      case 2
      with Cons.IH obtain a b where "s = a @ t @ b" by blast
      then have "c # s = (c # a) @ t @ b" by simp
      then show ?thesis by blast
    qed
  next
    assume "\<exists>a b. c # s = a @ t @ b"
    then obtain a b where eq: "c # s = a @ t @ b" by blast
    show "str_contains (c # s) t"
    proof (cases a)
      case Nil
      with eq have "prefix t (c # s)" by (auto simp: prefix_def)
      then show ?thesis by simp
    next
      case (Cons x a')
      with eq have "s = a' @ t @ b" by simp
      with Cons.IH show ?thesis by auto
    qed
  qed
qed

lemma includes_empty [simp, js_text]: "str_contains s []"
  by (cases s) auto

lemma includes_append [intro, js_text]: "str_contains t u \<Longrightarrow> str_contains (s @ t @ r) u"
  by (metis append.assoc includes_iff)

lemma split_on_nonempty [simp]: "split_on d s \<noteq> []"
  by (induction s) (auto split: list.splits)

lemma split_on_no_sep [simp, js_text]: "d \<notin> set s \<Longrightarrow> split_on d s = [s]"
  by (induction s) auto

lemma split_on_snoc [js_text]:
  "d \<notin> set s \<Longrightarrow> split_on d (s @ d # r) = s # split_on d r"
  by (induction s) auto

lemma join_split_on [simp, js_text]: "join [d] (split_on d s) = s"
proof (induction s)
  case Nil
  show ?case by simp
next
  case (Cons c s)
  obtain w ws where "split_on d s = w # ws"
    by (meson split_on_nonempty neq_Nil_conv)
  with Cons.IH show ?case by (cases ws) auto
qed

lemma trim_left_idem [simp]: "trim_left (trim_left s) = trim_left s"
  by (induction s) (auto simp: trim_left_def)

lemma trim_left_eq_Nil [simp]: "trim_left s = [] \<longleftrightarrow> (\<forall>c\<in>set s. is_ws c)"
  by (simp add: trim_left_def)

lemma trim_left_clean [simp]: "\<forall>c\<in>set s. \<not> is_ws c \<Longrightarrow> trim_left s = s"
  by (cases s) (auto simp: trim_left_def)

lemma trim_left_snoc [simp]: "\<not> is_ws c \<Longrightarrow> trim_left (s @ [c]) = trim_left s @ [c]"
  by (induction s) (auto simp: trim_left_def)

lemma js_trim_clean [simp, js_text]: "\<forall>c\<in>set s. \<not> is_ws c \<Longrightarrow> js_trim s = s"
  by (simp add: js_trim_def)

lemma js_trim_eq_Nil [js_text]: "js_trim s = [] \<longleftrightarrow> (\<forall>c\<in>set s. is_ws c)"
proof -
  have "js_trim s = [] \<longleftrightarrow> (\<forall>c\<in>set (trim_left s). is_ws c)"
    by (simp add: js_trim_def)
  also have "\<dots> \<longleftrightarrow> (\<forall>c\<in>set s. is_ws c)"
    by (induction s) (auto simp: trim_left_def)
  finally show ?thesis .
qed

lemma js_trim_Nil [simp]: "js_trim [] = []"
  by (simp add: js_trim_def trim_left_def)

lemma trim_left_rev_trim_left:
  "trim_left (rev (trim_left (rev (trim_left s)))) = rev (trim_left (rev (trim_left s)))"
proof -
  let ?t = "trim_left s"
  have hd: "?t = [] \<or> \<not> is_ws (hd ?t)"
    by (induction s) (auto simp: trim_left_def)
  show ?thesis
  proof (cases ?t)
    case Nil
    have "trim_left [] = []" by (simp add: trim_left_def)
    with Nil show ?thesis by (simp del: trim_left_eq_Nil)
  next
    case (Cons c r)
    with hd have c: "\<not> is_ws c" by simp
    then have "rev (trim_left (rev ?t)) = c # rev (trim_left (rev r))"
      by (simp add: Cons)
    with c show ?thesis by (simp add: trim_left_def)
  qed
qed

lemma js_trim_idem [simp, js_text]: "js_trim (js_trim s) = js_trim s"
  by (simp add: js_trim_def trim_left_rev_trim_left)

lemma length_js_trim: "length (js_trim s) \<le> length s"
proof -
  have "length (trim_left t) \<le> length t" for t
    by (simp add: trim_left_def length_dropWhile_le)
  from this [of s] this [of "rev (trim_left s)"] show ?thesis
    by (simp add: js_trim_def)
qed

lemma lower_char_idem [simp]: "lower_char (lower_char c) = lower_char c"
proof -
  define n where "n = (of_char c :: nat)"
  have lt: "n < 256" by (simp add: n_def)
  show ?thesis
  proof (cases "65 \<le> n \<and> n \<le> 90")
    case True
    then have "of_char (char_of (n + 32) :: char) = n + 32" by simp
    with True show ?thesis by (simp add: lower_char_def Let_def n_def [symmetric])
  next
    case False
    then have "lower_char c = c" by (auto simp: lower_char_def Let_def n_def)
    then show ?thesis by simp
  qed
qed

lemma js_lower_idem [simp, js_text]: "js_lower (js_lower s) = js_lower s"
  by (simp add: js_lower_def comp_def)

lemma js_lower_append [simp, js_text]: "js_lower (s @ t) = js_lower s @ js_lower t"
  by (simp add: js_lower_def)

lemma js_lower_Nil [simp, js_text]: "js_lower [] = []"
  by (simp add: js_lower_def)

lemma js_lower_eq_Nil [simp, js_text]: "js_lower s = [] \<longleftrightarrow> s = []"
  by (simp add: js_lower_def)

subsection \<open>Numbers read from text\<close>

definition digits_val :: "string \<Rightarrow> nat" where
  "digits_val s = foldl (\<lambda>a c. 10 * a + digit_val c) 0 s"

fun nat_str :: "nat \<Rightarrow> string" where
  "nat_str n = (if n < 10 then [char_of (48 + n)] else nat_str (n div 10) @ [char_of (48 + n mod 10)])"

declare nat_str.simps [simp del]

definition int_str :: "int \<Rightarrow> string" where
  "int_str i = (if i < 0 then CHR ''-'' # nat_str (nat (- i)) else nat_str (nat i))"

datatype js_number = NaN | Fin rat | Infinite bool

text \<open>
  A decimal literal without a sign: digits, an optional fraction, an optional exponent.
  JavaScript's grammar also accepts \<open>5.\<close> and \<open>.5\<close>.
\<close>

definition parse_exponent :: "string \<Rightarrow> int option" where
  "parse_exponent s =
     (case s of
        [] \<Rightarrow> Some 0
      | c # r \<Rightarrow>
          if c \<noteq> CHR ''e'' \<and> c \<noteq> CHR ''E'' then None
          else (let (neg, ds) = (case r of
                     [] \<Rightarrow> (False, [])
                   | x # r' \<Rightarrow> if x = CHR ''-'' then (True, r')
                                else if x = CHR ''+'' then (False, r') else (False, r))
                in if ds = [] \<or> \<not> list_all is_digit ds then None
                   else Some (if neg then - int (digits_val ds) else int (digits_val ds))))"

definition scale10 :: "rat \<Rightarrow> int \<Rightarrow> rat" where
  "scale10 m e = (if 0 \<le> e then m * 10 ^ nat e else m / 10 ^ nat (- e))"

definition parse_decimal :: "string \<Rightarrow> rat option" where
  "parse_decimal s =
     (let ip = takeWhile is_digit s; r1 = dropWhile is_digit s;
          (fp, r2) = (case r1 of
              [] \<Rightarrow> ([], [])
            | c # r \<Rightarrow> if c = CHR ''.'' then (takeWhile is_digit r, dropWhile is_digit r) else ([], r1))
      in if ip = [] \<and> fp = [] then None
         else (case parse_exponent r2 of
             None \<Rightarrow> None
           | Some e \<Rightarrow> Some (scale10 (of_nat (digits_val (ip @ fp))) (e - int (length fp)))))"

definition radix_digit :: "nat \<Rightarrow> char \<Rightarrow> nat option" where
  "radix_digit b c =
     (let n = of_char (lower_char c) :: nat;
          v = (if 48 \<le> n \<and> n \<le> 57 then n - 48 else if 97 \<le> n \<and> n \<le> 102 then n - 87 else b)
      in if v < b then Some v else None)"

fun radix_val :: "nat \<Rightarrow> nat \<Rightarrow> string \<Rightarrow> nat option" where
  "radix_val b acc [] = Some acc"
| "radix_val b acc (c # s) =
     (case radix_digit b c of None \<Rightarrow> None | Some d \<Rightarrow> radix_val b (b * acc + d) s)"

text \<open>\<open>Number(text)\<close>, the conversion of a string to a number.\<close>

definition js_number_of :: "string \<Rightarrow> js_number" where
  "js_number_of text =
     (let s = js_trim text;
          radix = (\<lambda>b r. case r of [] \<Rightarrow> NaN
             | _ \<Rightarrow> (case radix_val b 0 r of None \<Rightarrow> NaN | Some n \<Rightarrow> Fin (of_nat n)));
          unsigned = (\<lambda>r. if r = ''Infinity'' then Infinite False
             else (case parse_decimal r of None \<Rightarrow> NaN | Some q \<Rightarrow> Fin q))
      in if s = [] then Fin 0
         else if starts_with (js_lower s) ''0x'' then radix 16 (drop 2 s)
         else if starts_with (js_lower s) ''0o'' then radix 8 (drop 2 s)
         else if starts_with (js_lower s) ''0b'' then radix 2 (drop 2 s)
         else if hd s = CHR ''+'' then unsigned (tl s)
         else if hd s = CHR ''-'' then
           (case unsigned (tl s) of NaN \<Rightarrow> NaN | Fin q \<Rightarrow> Fin (- q) | Infinite n \<Rightarrow> Infinite (\<not> n))
         else unsigned s)"

lemma of_char_digit [simp]: "n < 10 \<Longrightarrow> of_char (char_of (48 + n) :: char) = 48 + (n::nat)"
  by simp

lemma digit_val_digit [simp]: "n < 10 \<Longrightarrow> digit_val (char_of (48 + n)) = n"
  by (simp add: digit_val_def)

lemma is_digit_digit [simp]: "n < 10 \<Longrightarrow> is_digit (char_of (48 + n :: nat))"
  by (simp add: is_digit_def Let_def)

lemma digits_val_Nil [simp]: "digits_val [] = 0"
  by (simp add: digits_val_def)

lemma digits_val_snoc [simp]: "digits_val (s @ [c]) = 10 * digits_val s + digit_val c"
  by (simp add: digits_val_def)

lemma nat_str_digits: "c \<in> set (nat_str n) \<Longrightarrow> is_digit c"
proof (induction n rule: nat_str.induct)
  case (1 n)
  show ?case
  proof (cases "n < 10")
    case True
    with "1.prems" show ?thesis by (subst (asm) nat_str.simps) simp
  next
    case False
    then have "nat_str n = nat_str (n div 10) @ [char_of (48 + n mod 10)]"
      by (subst nat_str.simps) simp
    moreover have "is_digit (char_of (48 + n mod 10))"
      by (rule is_digit_digit) simp
    ultimately show ?thesis using "1.prems" "1.IH" [OF False] by auto
  qed
qed

lemma nat_str_nonempty [simp]: "nat_str n \<noteq> []"
  by (subst nat_str.simps) simp

lemma digits_val_nat_str [simp]: "digits_val (nat_str n) = n"
proof (induction n rule: nat_str.induct)
  case (1 n)
  show ?case
  proof (cases "n < 10")
    case True
    then have "nat_str n = [] @ [char_of (48 + n)]" by (subst nat_str.simps) simp
    with True show ?thesis by (simp only: digits_val_snoc digit_val_digit) simp
  next
    case False
    then have "nat_str n = nat_str (n div 10) @ [char_of (48 + n mod 10)]"
      by (subst nat_str.simps) simp
    moreover have "digit_val (char_of (48 + n mod 10)) = n mod 10"
      by (rule digit_val_digit) simp
    ultimately show ?thesis using "1.IH" False by simp
  qed
qed

lemma is_digit_not_ws: "is_digit c \<Longrightarrow> \<not> is_ws c"
  by (auto simp: is_digit_def is_ws_def Let_def)

lemma lower_char_digit [simp]: "is_digit c \<Longrightarrow> lower_char c = c"
  by (auto simp: is_digit_def lower_char_def Let_def)

lemma js_lower_digits: "\<forall>c\<in>set s. is_digit c \<Longrightarrow> js_lower s = s"
  by (induction s) (auto simp: js_lower_def)

lemma parse_decimal_digits:
  assumes "\<forall>c\<in>set s. is_digit c" "s \<noteq> []"
  shows "parse_decimal s = Some (of_nat (digits_val s))"
proof -
  have "takeWhile is_digit s = s" "dropWhile is_digit s = []" using assms(1) by auto
  with assms(2) show ?thesis by (simp add: parse_decimal_def parse_exponent_def scale10_def
        del: takeWhile_eq_all_conv dropWhile_eq_Nil_conv)
qed

lemma js_number_of_digits:
  assumes d: "\<forall>c\<in>set s. is_digit c" and ne: "s \<noteq> []"
  shows "js_number_of s = Fin (of_nat (digits_val s))"
proof -
  have tr: "js_trim s = s" using d is_digit_not_ws by (simp)
  have nl: "x \<notin> set s" if "\<not> is_digit x" for x using d that by blast
  have "CHR ''x'' \<notin> set s" "CHR ''o'' \<notin> set s" "CHR ''b'' \<notin> set s" "CHR ''I'' \<notin> set s"
    "CHR ''+'' \<notin> set s" "CHR ''-'' \<notin> set s"
    by (rule nl, simp add: is_digit_def)+
  note nm = this
  have "CHR ''x'' \<in> set s" if "starts_with s ''0x''" using set_mono_prefix [OF that] by simp
  moreover have "CHR ''o'' \<in> set s" if "starts_with s ''0o''" using set_mono_prefix [OF that] by simp
  moreover have "CHR ''b'' \<in> set s" if "starts_with s ''0b''" using set_mono_prefix [OF that] by simp
  ultimately have np: "\<not> starts_with s ''0x''" "\<not> starts_with s ''0o''" "\<not> starts_with s ''0b''"
    using nm by blast+
  have "hd s \<noteq> CHR ''+''" "hd s \<noteq> CHR ''-''" "s \<noteq> ''Infinity''"
    using nm hd_in_set [OF ne] by (metis, metis, metis list.set_intros(1))
  with np show ?thesis
    using parse_decimal_digits [OF d ne] ne
    by (simp add: js_number_of_def Let_def tr js_lower_digits [OF d])
qed

lemma js_number_of_nat_str [simp]: "js_number_of (nat_str n) = Fin (of_nat n)"
  using js_number_of_digits [of "nat_str n"] nat_str_digits by auto

subsection \<open>Insertion-ordered maps\<close>

text \<open>
  The interface the components rely on: what a lookup returns after a write or a deletion,
  and that the keys stay distinct. Everything proved from it holds for the association
  lists below, which model the sources' \<open>Map\<close> objects.
\<close>

locale keyed_store =
  fixes get :: "'m \<Rightarrow> 'k \<Rightarrow> 'v option"
    and put :: "'k \<Rightarrow> 'v \<Rightarrow> 'm \<Rightarrow> 'm"
    and del :: "'k \<Rightarrow> 'm \<Rightarrow> 'm"
    and sel :: "('k \<Rightarrow> 'v \<Rightarrow> bool) \<Rightarrow> 'm \<Rightarrow> 'm"
    and ok :: "'m \<Rightarrow> bool"
  assumes get_put: "get (put k v m) k' = (if k' = k then Some v else get m k')"
    and get_del: "get (del k m) k' = (if k' = k then None else get m k')"
    and get_sel: "ok m \<Longrightarrow>
      get (sel P m) k = (case get m k of None \<Rightarrow> None | Some v \<Rightarrow> if P k v then Some v else None)"
    and ok_put: "ok m \<Longrightarrow> ok (put k v m)"
    and ok_del: "ok m \<Longrightarrow> ok (del k m)"
    and ok_sel: "ok m \<Longrightarrow> ok (sel P m)"
begin

lemma get_put_same [simp]: "get (put k v m) k = Some v"
  by (simp add: get_put)

lemma get_put_other: "k' \<noteq> k \<Longrightarrow> get (put k v m) k' = get m k'"
  by (simp add: get_put)

lemma get_del_same [simp]: "get (del k m) k = None"
  by (simp add: get_del)

lemma get_del_other: "k' \<noteq> k \<Longrightarrow> get (del k m) k' = get m k'"
  by (simp add: get_del)

lemma get_sel_Some: "ok m \<Longrightarrow> get (sel P m) k = Some v \<longleftrightarrow> get m k = Some v \<and> P k v"
  by (auto simp: get_sel split: option.splits)

lemma get_sel_keep: "ok m \<Longrightarrow> (\<And>v. get m k = Some v \<Longrightarrow> P k v) \<Longrightarrow> get (sel P m) k = get m k"
  by (auto simp: get_sel split: option.splits)

lemma get_fold_put_other:
  "k \<notin> fst ` set kvs \<Longrightarrow> get (fold (\<lambda>(a, v). put a v) kvs m) k = get m k"
  by (induction kvs arbitrary: m) (auto simp: get_put)

lemma ok_fold_put: "ok m \<Longrightarrow> ok (fold (\<lambda>(a, v). put a v) kvs m)"
  by (induction kvs arbitrary: m) (auto intro: ok_put)

end

type_synonym 'v js_map = "(string \<times> 'v) list"

definition map_keys_ok :: "('k \<times> 'v) list \<Rightarrow> bool" where
  "map_keys_ok m \<longleftrightarrow> distinct (map fst m)"

definition map_select :: "('k \<Rightarrow> 'v \<Rightarrow> bool) \<Rightarrow> ('k \<times> 'v) list \<Rightarrow> ('k \<times> 'v) list" where
  "map_select P m = filter (\<lambda>(k, v). P k v) m"

lemma map_of_map_select:
  "map_keys_ok m \<Longrightarrow>
   map_of (map_select P m) k =
     (case map_of m k of None \<Rightarrow> None | Some v \<Rightarrow> if P k v then Some v else None)"
proof (induction m)
  case Nil
  show ?case by (simp add: map_select_def)
next
  case (Cons kv m)
  obtain a v where kv: "kv = (a, v)" by (cases kv)
  from Cons.prems kv have a: "a \<notin> fst ` set m" and ok: "map_keys_ok m"
    by (auto simp: map_keys_ok_def)
  then have "map_of m a = None" by (simp add: map_of_eq_None_iff)
  with Cons.IH [OF ok] kv show ?case
    by (auto simp: map_select_def split: option.splits)
qed

interpretation js_map: keyed_store map_of AList.update AList.delete map_select map_keys_ok
proof unfold_locales
  fix m :: "('a \<times> 'b) list" and k k' v P
  show "map_of (AList.update k v m) k' = (if k' = k then Some v else map_of m k')"
    by (simp add: update_conv')
  show "map_of (AList.delete k m) k' = (if k' = k then None else map_of m k')"
    by (simp add: delete_conv')
  assume ok: "map_keys_ok m"
  show "map_of (map_select P m) k =
      (case map_of m k of None \<Rightarrow> None | Some v \<Rightarrow> if P k v then Some v else None)"
    by (rule map_of_map_select [OF ok])
  show "map_keys_ok (AList.update k v m)"
    using ok by (simp add: map_keys_ok_def distinct_update)
  show "map_keys_ok (AList.delete k m)"
    using ok by (simp add: map_keys_ok_def distinct_delete)
  show "map_keys_ok (map_select P m)"
    using ok by (simp add: map_keys_ok_def map_select_def distinct_map_filter)
qed

lemma map_keys_ok_Nil [simp, intro]: "map_keys_ok []"
  by (simp add: map_keys_ok_def)

declare js_map.get_put [js_map] js_map.get_del [js_map]

lemmas map_ok_intros = js_map.ok_put js_map.ok_del js_map.ok_sel

subsection \<open>Truthiness of optional strings\<close>

definition str_truthy :: "string option \<Rightarrow> bool" where
  "str_truthy s \<longleftrightarrow> (case s of None \<Rightarrow> False | Some t \<Rightarrow> t \<noteq> [])"

lemma str_truthy_simps [simp]: "str_truthy None = False" "str_truthy (Some s) = (s \<noteq> [])"
  by (simp_all add: str_truthy_def)

end
