(* ===== verification/AccountLock.thy ===== *)
theory AccountLock
  imports JsPrelude
begin

section \<open>One flight per account\<close>

text \<open>
  Model of \<open>runAccountLock\<close> in \<open>token-manager.service.ts\<close>, the lock under which tokens are
  refreshed and project ids are resolved. Requests interleave at awaits, so the three pieces of the
  function between awaits are the steps of a relation: a call either joins the promise stored for the
  account or creates one and stores it; a promise settles at any later time; and the creator's
  \<open>finally\<close> removes the entry it stored. A promise is a number and the account it works for.
\<close>

record lock_state =
  ls_locks :: "(string \<times> nat) list"
  ls_running :: "(nat \<times> string) list"
  ls_settled :: "(nat \<times> string) list"
  ls_next :: nat
  ls_joined :: "(nat \<times> string) list"

definition no_locks :: lock_state where
  "no_locks = \<lparr>ls_locks = [], ls_running = [], ls_settled = [], ls_next = 0, ls_joined = []\<rparr>"

definition lock_call :: "string \<Rightarrow> lock_state \<Rightarrow> lock_state" where
  "lock_call accountId s =
     (case map_of (ls_locks s) accountId of
        Some p \<Rightarrow> s\<lparr>ls_joined := (p, accountId) # ls_joined s\<rparr>
      | None \<Rightarrow> s\<lparr>ls_locks := AList.update accountId (ls_next s) (ls_locks s),
                  ls_running := (ls_next s, accountId) # ls_running s,
                  ls_next := Suc (ls_next s)\<rparr>)"

definition lock_settle :: "nat \<times> string \<Rightarrow> lock_state \<Rightarrow> lock_state" where
  "lock_settle pr s = s\<lparr>ls_running := filter (\<lambda>x. x \<noteq> pr) (ls_running s), ls_settled := pr # ls_settled s\<rparr>"

definition lock_finally :: "nat \<times> string \<Rightarrow> lock_state \<Rightarrow> lock_state" where
  "lock_finally pr s =
     (let s' = s\<lparr>ls_settled := filter (\<lambda>x. x \<noteq> pr) (ls_settled s)\<rparr>
      in if map_of (ls_locks s) (snd pr) = Some (fst pr)
         then s'\<lparr>ls_locks := AList.delete (snd pr) (ls_locks s')\<rparr> else s')"

inductive lock_step :: "lock_state \<Rightarrow> lock_state \<Rightarrow> bool" where
  call: "lock_step s (lock_call a s)"
| settle: "pr \<in> set (ls_running s) \<Longrightarrow> lock_step s (lock_settle pr s)"
| finish: "pr \<in> set (ls_settled s) \<Longrightarrow> lock_step s (lock_finally pr s)"

inductive_cases lock_stepE: "lock_step s s'"

text \<open>Every unsettled or unfinished promise is the one stored for its account, and numbers are fresh.\<close>

definition lock_ok :: "lock_state \<Rightarrow> bool" where
  "lock_ok s \<longleftrightarrow>
     (\<forall>p a. (p, a) \<in> set (ls_running s) \<union> set (ls_settled s) \<longrightarrow> map_of (ls_locks s) a = Some p) \<and>
     (\<forall>a p. map_of (ls_locks s) a = Some p \<longrightarrow>
        p < ls_next s \<and> (p, a) \<in> set (ls_running s) \<union> set (ls_settled s)) \<and>
     set (ls_running s) \<inter> set (ls_settled s) = {}"

lemma lock_ok_step:
  assumes "lock_ok s" "lock_step s s'"
  shows "lock_ok s'"
  using assms(2)
proof cases
  case (call a)
  show ?thesis
  proof (cases "map_of (ls_locks s) a")
    case None
    have fresh: "(ls_next s, a) \<notin> set (ls_running s) \<union> set (ls_settled s)"
      using assms(1) None by (auto simp: lock_ok_def)
    show ?thesis
      using assms(1) fresh None unfolding call(1)
      by (auto simp: lock_ok_def lock_call_def js_map.get_put less_Suc_eq)
  qed (use assms(1) in \<open>auto simp: call lock_ok_def lock_call_def\<close>)
next
  case (settle pr)
  with assms(1) show ?thesis by (auto simp: lock_ok_def lock_settle_def)
next
  case (finish pr)
  obtain p a where pr: "pr = (p, a)" by fastforce
  have here: "map_of (ls_locks s) a = Some p"
    using assms(1) finish(2) by (auto simp: lock_ok_def pr)
  have others: "b \<noteq> a" if "(q, b) \<in> set (ls_running s) \<union> set (ls_settled s)" "(q, b) \<noteq> pr" for q b
    using that assms(1) here by (auto simp: lock_ok_def pr)
  have notrun: "pr \<notin> set (ls_running s)" using assms(1) finish(2) by (auto simp: lock_ok_def)
  show ?thesis
    using assms(1) here others notrun unfolding finish(1)
    by (auto simp: lock_ok_def lock_finally_def Let_def pr js_map.get_del)
qed

lemma lock_ok_reachable: "lock_step\<^sup>*\<^sup>* no_locks s \<Longrightarrow> lock_ok s"
proof (induction rule: rtranclp_induct)
  case base
  show ?case by (simp add: no_locks_def lock_ok_def)
next
  case (step s s')
  from step.IH step.hyps(2) show ?case by (rule lock_ok_step)
qed

text \<open>C14: However calls, completions and clean-ups interleave, at most one promise per account is in
  flight, every caller that joined while it runs shares that one, and a stored lock always belongs
  to a promise that is still running or about to be cleaned up: no account stays locked.\<close>

theorem one_flight_per_account:
  assumes "lock_step\<^sup>*\<^sup>* no_locks s"
  shows "((p, a) \<in> set (ls_running s) \<and> (q, a) \<in> set (ls_running s) \<longrightarrow> p = q) \<and>
    ((p, a) \<in> set (ls_running s) \<longrightarrow>
      ls_joined (lock_call a s) = (p, a) # ls_joined s \<and> ls_running (lock_call a s) = ls_running s) \<and>
    (ls_running s = [] \<and> ls_settled s = [] \<longrightarrow> ls_locks s = [])"
proof -
  have ok: "lock_ok s" by (rule lock_ok_reachable [OF assms])
  have "ls_locks s = []" if "ls_running s = []" "ls_settled s = []"
  proof (cases "ls_locks s")
    case (Cons x xs)
    then have "map_of (ls_locks s) (fst x) = Some (snd x)" by (cases x) simp
    with ok that show ?thesis by (auto simp: lock_ok_def)
  qed
  moreover have run: "map_of (ls_locks s) a = Some x" if "(x, a) \<in> set (ls_running s)" for x
    using ok that by (simp add: lock_ok_def)
  have "p = q" if "(p, a) \<in> set (ls_running s)" "(q, a) \<in> set (ls_running s)"
    using run [OF that(1)] run [OF that(2)] by simp
  ultimately show ?thesis using run [of p] by (auto simp: lock_call_def)
qed

theorem one_flight_per_account_witness:
  "ls_joined (lock_call ''a'' (lock_call ''a'' no_locks)) = [(0, ''a'')]"
proof -
  have "lock_step\<^sup>*\<^sup>* no_locks (lock_call ''a'' no_locks)"
    by (rule r_into_rtranclp) (rule lock_step.call)
  from one_flight_per_account [OF this, of 0 "''a''" 0] show ?thesis
    by (simp add: lock_call_def no_locks_def)
qed

end
