(* ===== verification/Json.thy ===== *)
theory Json
  imports JsPrelude
begin

section \<open>JSON values, JSON.parse and JSON.stringify\<close>

text \<open>
  The value type that the sources pass around as \<open>unknown\<close> or \<open>Record<string, unknown>\<close>,
  with the two conversions of the standard library. Objects are lists of members in
  insertion order (the reordering of keys that look like array indices is not modelled).
  An escape \<open>\uXXXX\<close> above code unit 255 is read as the substitute character 0x1A.
\<close>

datatype json =
    JNull
  | JBool bool
  | JNum rat
  | JStr string
  | JArr "json list"
  | JObj "(string \<times> json) list"

text \<open>Property access \<open>v?.k\<close>; None is \<open>undefined\<close>.\<close>

definition jget :: "json \<Rightarrow> string \<Rightarrow> json option" where
  "jget v k = (case v of JObj m \<Rightarrow> map_of m k | _ \<Rightarrow> None)"

definition jget_opt :: "json option \<Rightarrow> string \<Rightarrow> json option" where
  "jget_opt v k = (case v of None \<Rightarrow> None | Some w \<Rightarrow> jget w k)"

definition truthy :: "json \<Rightarrow> bool" where
  "truthy v = (case v of JNull \<Rightarrow> False | JBool b \<Rightarrow> b | JNum n \<Rightarrow> n \<noteq> 0 | JStr s \<Rightarrow> s \<noteq> []
     | JArr _ \<Rightarrow> True | JObj _ \<Rightarrow> True)"

definition truthy_opt :: "json option \<Rightarrow> bool" where
  "truthy_opt v = (case v of None \<Rightarrow> False | Some w \<Rightarrow> truthy w)"

definition is_object_like :: "json \<Rightarrow> bool" where
  "is_object_like v = (case v of JArr _ \<Rightarrow> True | JObj _ \<Rightarrow> True | _ \<Rightarrow> False)"

definition is_array :: "json \<Rightarrow> bool" where
  "is_array v = (case v of JArr _ \<Rightarrow> True | _ \<Rightarrow> False)"

definition as_string :: "json option \<Rightarrow> string option" where
  "as_string v = (case v of Some (JStr s) \<Rightarrow> Some s | _ \<Rightarrow> None)"

definition as_array :: "json option \<Rightarrow> json list option" where
  "as_array v = (case v of Some (JArr xs) \<Rightarrow> Some xs | _ \<Rightarrow> None)"

lemma jget_simps [simp]:
  "jget (JObj m) k = map_of m k" "jget JNull k = None" "jget (JBool b) k = None"
  "jget (JNum n) k = None" "jget (JStr s) k = None" "jget (JArr xs) k = None"
  by (simp_all add: jget_def)

lemma jget_opt_simps [simp]: "jget_opt None k = None" "jget_opt (Some v) k = jget v k"
  by (simp_all add: jget_opt_def)

lemma truthy_simps [simp]:
  "truthy JNull = False" "truthy (JBool b) = b" "truthy (JNum n) = (n \<noteq> 0)"
  "truthy (JStr s) = (s \<noteq> [])" "truthy (JArr xs) = True" "truthy (JObj m) = True"
  by (simp_all add: truthy_def)

lemma truthy_opt_simps [simp]: "truthy_opt None = False" "truthy_opt (Some v) = truthy v"
  by (simp_all add: truthy_opt_def)

lemma is_object_like_simps [simp]:
  "is_object_like JNull = False" "is_object_like (JBool b) = False"
  "is_object_like (JNum n) = False" "is_object_like (JStr s) = False"
  "is_object_like (JArr xs) = True" "is_object_like (JObj m) = True"
  by (simp_all add: is_object_like_def)

lemma is_array_simps [simp]:
  "is_array JNull = False" "is_array (JBool b) = False" "is_array (JNum n) = False"
  "is_array (JStr s) = False" "is_array (JArr xs) = True" "is_array (JObj m) = False"
  by (simp_all add: is_array_def)

lemma as_string_simps [simp]: "as_string None = None" "as_string (Some (JStr s)) = Some s"
  by (simp_all add: as_string_def)

lemma as_array_simps [simp]: "as_array None = None" "as_array (Some (JArr xs)) = Some xs"
  by (simp_all add: as_array_def)

subsection \<open>Parsing\<close>

definition json_ws :: "char \<Rightarrow> bool" where
  "json_ws c \<longleftrightarrow> (let n = of_char c :: nat in n = 9 \<or> n = 10 \<or> n = 13 \<or> n = 32)"

definition skip_ws :: "string \<Rightarrow> string" where
  "skip_ws = dropWhile json_ws"

lemma length_skip_ws: "length (skip_ws s) \<le> length s"
  by (simp add: skip_ws_def length_dropWhile_le)

definition escape_char :: "char \<Rightarrow> char option" where
  "escape_char c = map_of
     [(CHR 0x22, CHR 0x22), (CHR 0x5C, CHR 0x5C), (CHR ''/'', CHR ''/''), (CHR ''b'', CHR 0x08),
      (CHR ''f'', CHR 0x0C), (CHR ''n'', CHR 0x0A), (CHR ''r'', CHR 0x0D), (CHR ''t'', CHR 0x09)] c"

fun parse_string_body :: "string \<Rightarrow> (string \<times> string) option" where
  "parse_string_body [] = None"
| "parse_string_body (c # s) =
     (if c = CHR 0x22 then Some ([], s)
      else if (of_char c :: nat) < 32 then None
      else if c \<noteq> CHR 0x5C then map_option (apfst ((#) c)) (parse_string_body s)
      else (case s of
          [] \<Rightarrow> None
        | e # s1 \<Rightarrow>
            if e = CHR ''u'' then
              (case s1 of
                 d1 # d2 # d3 # d4 # s2 \<Rightarrow>
                   (case radix_val 16 0 [d1, d2, d3, d4] of
                      None \<Rightarrow> None
                    | Some n \<Rightarrow> map_option (apfst ((#) (if n < 256 then char_of n else CHR 0x1A)))
                        (parse_string_body s2))
               | _ \<Rightarrow> None)
            else (case escape_char e of
                None \<Rightarrow> None
              | Some x \<Rightarrow> map_option (apfst ((#) x)) (parse_string_body s1))))"

text \<open>A JSON number: no leading zeros, digits around the point, no plus sign in front.\<close>

definition is_number_char :: "char \<Rightarrow> bool" where
  "is_number_char c \<longleftrightarrow> is_digit c \<or> c \<in> {CHR ''-'', CHR ''+'', CHR ''.'', CHR ''e'', CHR ''E''}"

definition parse_json_number :: "string \<Rightarrow> rat option" where
  "parse_json_number tok =
     (let neg = (tok \<noteq> [] \<and> hd tok = CHR ''-''); u = (if neg then tl tok else tok);
          ip = takeWhile is_digit u; r = dropWhile is_digit u;
          frac_ok = (r = [] \<or> hd r \<noteq> CHR ''.'' \<or> (tl r \<noteq> [] \<and> is_digit (hd (tl r))))
      in if ip = [] \<or> (length ip > 1 \<and> hd ip = CHR ''0'') \<or> \<not> frac_ok then None
         else (case parse_decimal u of None \<Rightarrow> None | Some q \<Rightarrow> Some (if neg then - q else q)))"

fun strip_lit :: "string \<Rightarrow> string \<Rightarrow> string option" where
  "strip_lit [] s = Some s"
| "strip_lit (c # l) s =
     (case s of [] \<Rightarrow> None | x # r \<Rightarrow> if x = c then strip_lit l r else None)"

text \<open>Recursive descent; the fuel bounds the number of values opened, which the length of the
  text bounds.\<close>

fun parse_value :: "nat \<Rightarrow> string \<Rightarrow> (json \<times> string) option"
and parse_elems :: "nat \<Rightarrow> string \<Rightarrow> (json list \<times> string) option"
and parse_members :: "nat \<Rightarrow> (string \<times> json) list \<Rightarrow> string \<Rightarrow> ((string \<times> json) list \<times> string) option"
where
  "parse_value 0 s = None"
| "parse_value (Suc f) s =
     (case skip_ws s of
        [] \<Rightarrow> None
      | c # r \<Rightarrow>
          if c = CHR 0x22 then map_option (apfst JStr) (parse_string_body r)
          else if c = CHR 0x5B then
            (case skip_ws r of
               [] \<Rightarrow> None
             | d # r' \<Rightarrow> if d = CHR 0x5D then Some (JArr [], r')
                 else map_option (apfst JArr) (parse_elems f r))
          else if c = CHR 0x7B then
            (case skip_ws r of
               [] \<Rightarrow> None
             | d # r' \<Rightarrow> if d = CHR 0x7D then Some (JObj [], r')
                 else map_option (apfst JObj) (parse_members f [] r))
          else if c = CHR ''n'' then map_option (\<lambda>t. (JNull, t)) (strip_lit ''ull'' r)
          else if c = CHR ''t'' then map_option (\<lambda>t. (JBool True, t)) (strip_lit ''rue'' r)
          else if c = CHR ''f'' then map_option (\<lambda>t. (JBool False, t)) (strip_lit ''alse'' r)
          else (let tok = takeWhile is_number_char (c # r)
                in map_option (\<lambda>q. (JNum q, dropWhile is_number_char (c # r)))
                     (parse_json_number tok)))"
| "parse_elems 0 s = None"
| "parse_elems (Suc f) s =
     (case parse_value f s of
        None \<Rightarrow> None
      | Some (v, r) \<Rightarrow>
          (case skip_ws r of
             [] \<Rightarrow> None
           | c # r' \<Rightarrow> if c = CHR 0x5D then Some ([v], r')
               else if c = CHR '','' then map_option (apfst ((#) v)) (parse_elems f r')
               else None))"
| "parse_members 0 m s = None"
| "parse_members (Suc f) m s =
     (case skip_ws s of
        [] \<Rightarrow> None
      | c # r \<Rightarrow>
          if c \<noteq> CHR 0x22 then None
          else (case parse_string_body r of
              None \<Rightarrow> None
            | Some (k, r1) \<Rightarrow>
                (case skip_ws r1 of
                   [] \<Rightarrow> None
                 | d # r2 \<Rightarrow>
                     if d \<noteq> CHR '':'' then None
                     else (case parse_value f r2 of
                         None \<Rightarrow> None
                       | Some (v, r3) \<Rightarrow>
                           (case skip_ws r3 of
                              [] \<Rightarrow> None
                            | e # r4 \<Rightarrow>
                                if e = CHR 0x7D then Some (AList.update k v m, r4)
                                else if e = CHR '','' then parse_members f (AList.update k v m) r4
                                else None)))))"

definition json_parse :: "string \<Rightarrow> json option" where
  "json_parse s =
     (case parse_value (2 * length s + 2) s of
        None \<Rightarrow> None
      | Some (v, r) \<Rightarrow> if skip_ws r = [] then Some v else None)"

subsection \<open>Printing\<close>

definition hex_digit :: "nat \<Rightarrow> char" where
  "hex_digit n = (if n < 10 then char_of (48 + n) else char_of (87 + n))"

definition escape_out :: "char \<Rightarrow> string" where
  "escape_out c =
     (let n = of_char c :: nat
      in if n = 34 then [CHR 0x5C, CHR 0x22] else if n = 92 then [CHR 0x5C, CHR 0x5C]
         else if n = 8 then [CHR 0x5C, CHR ''b''] else if n = 12 then [CHR 0x5C, CHR ''f'']
         else if n = 10 then [CHR 0x5C, CHR ''n''] else if n = 13 then [CHR 0x5C, CHR ''r'']
         else if n = 9 then [CHR 0x5C, CHR ''t'']
         else if n < 32 then [CHR 0x5C, CHR ''u'', CHR ''0'', CHR ''0'', hex_digit (n div 16), hex_digit (n mod 16)]
         else [c])"

definition quote :: "string \<Rightarrow> string" where
  "quote s = CHR 0x22 # concat (map escape_out s) @ [CHR 0x22]"

text \<open>
  A number prints as an integer, or with the fewest decimals that are exact. The search for
  the number of decimals stops at 30, beyond any decimal literal the sources handle.
\<close>

fun decimals_needed :: "nat \<Rightarrow> rat \<Rightarrow> nat" where
  "decimals_needed 0 q = 0"
| "decimals_needed (Suc f) q =
     (if of_int \<lfloor>q\<rfloor> = q then 0 else Suc (decimals_needed f (10 * q)))"

definition num_str :: "rat \<Rightarrow> string" where
  "num_str q =
     (let k = decimals_needed 30 q; n = \<lfloor>abs q * 10 ^ k\<rfloor>;
          ip = nat_str (nat n div 10 ^ k); fp = nat_str (nat n mod 10 ^ k)
      in (if q < 0 then ''-'' else '''') @ ip @
         (if k = 0 then '''' else CHR ''.'' # replicate (k - length fp) (CHR ''0'') @ fp))"

fun json_stringify :: "json \<Rightarrow> string" where
  "json_stringify JNull = ''null''"
| "json_stringify (JBool b) = (if b then ''true'' else ''false'')"
| "json_stringify (JNum q) = num_str q"
| "json_stringify (JStr s) = quote s"
| "json_stringify (JArr xs) = CHR 0x5B # join '','' (map json_stringify xs) @ [CHR 0x5D]"
| "json_stringify (JObj m) =
     CHR 0x7B # join '','' (map (\<lambda>kv. quote (fst kv) @ [CHR '':''] @ json_stringify (snd kv)) m)
       @ [CHR 0x7D]"

end
