(* ===== verification/RateLimit.thy ===== *)
theory RateLimit
  imports Json "HOL-Library.Monad_Syntax"
begin

section \<open>The upstream rate-limit tracker\<close>

text \<open>
  Model of \<open>src/modules/proxy-gateway/server/rate-limit-tracker.ts\<close>: the parsing of
  retry hints out of upstream error bodies, and the class \<open>RateLimitTracker\<close> with its two
  maps, the lockouts by key and the failure counts by account. Every operation takes the
  clock value \<open>now\<close> it reads with \<open>Date.now()\<close>, in milliseconds; the operations are
  synchronous, so one value per call is enough. \<open>Date.parse\<close> is implementation-defined
  outside one format, so it is the argument \<open>date_parse\<close>. A property read on null, or a call
  of a missing method, throws: those runs end in \<open>Inl TypeError\<close>.
\<close>

subsection \<open>Arithmetic on numbers that may be NaN or infinite\<close>

fun num_add :: "js_number \<Rightarrow> js_number \<Rightarrow> js_number" where
  "num_add (Fin a) (Fin b) = Fin (a + b)"
| "num_add (Infinite m) (Infinite n) = (if m = n then Infinite m else NaN)"
| "num_add (Infinite m) (Fin b) = Infinite m"
| "num_add (Fin a) (Infinite n) = Infinite n"
| "num_add _ _ = NaN"

text \<open>Multiplication by a positive constant.\<close>

fun num_scale :: "rat \<Rightarrow> js_number \<Rightarrow> js_number" where
  "num_scale c (Fin a) = Fin (c * a)"
| "num_scale c x = x"

fun num_gt :: "js_number \<Rightarrow> js_number \<Rightarrow> bool" where
  "num_gt (Fin a) (Fin b) = (a > b)"
| "num_gt (Infinite m) (Infinite n) = (\<not> m \<and> n)"
| "num_gt (Infinite m) (Fin b) = (\<not> m)"
| "num_gt (Fin a) (Infinite n) = n"
| "num_gt _ _ = False"

fun num_ge :: "js_number \<Rightarrow> js_number \<Rightarrow> bool" where
  "num_ge NaN b = False"
| "num_ge a NaN = False"
| "num_ge a b = (\<not> num_gt b a)"

definition num_max :: "js_number \<Rightarrow> js_number \<Rightarrow> js_number" where
  "num_max a b = (if a = NaN \<or> b = NaN then NaN else if num_gt b a then b else a)"

fun num_ceil :: "js_number \<Rightarrow> js_number" where
  "num_ceil (Fin a) = Fin (of_int \<lceil>a\<rceil>)"
| "num_ceil x = x"

fun num_round :: "js_number \<Rightarrow> js_number" where
  "num_round (Fin a) = Fin (of_int \<lfloor>a + 1 / 2\<rfloor>)"
| "num_round x = x"

definition is_finite :: "js_number \<Rightarrow> bool" where
  "is_finite x = (case x of Fin _ \<Rightarrow> True | _ \<Rightarrow> False)"

lemma is_finite_simps [simp]:
  "is_finite (Fin a)" "\<not> is_finite NaN" "\<not> is_finite (Infinite b)"
  by (simp_all add: is_finite_def)

lemma num_max_Fin [simp]: "num_max (Fin a) (Fin b) = Fin (max a b)"
  by (auto simp: num_max_def max_def)

lemma num_max_NaN [simp]: "num_max a NaN = NaN" "num_max NaN b = NaN"
  by (simp_all add: num_max_def)

lemma num_gt_NaN [simp]: "\<not> num_gt NaN b" "\<not> num_gt b NaN"
  by (cases b; simp)+

lemma num_ge_NaN [simp]: "\<not> num_ge b NaN"
  by (cases b) auto

lemma num_ge_Fin [simp]: "num_ge (Fin a) (Fin b) \<longleftrightarrow> b \<le> a"
  by auto

lemma num_gt_trans_ge: "num_gt x (Fin a) \<Longrightarrow> b \<le> a \<Longrightarrow> num_gt x (Fin b)"
  by (cases x) auto

subsection \<open>Durations in text\<close>

definition dur_char :: "char \<Rightarrow> bool" where
  "dur_char c \<longleftrightarrow> is_digit c \<or> c = CHR ''.''"

text \<open>The unit \<open>ms|s|m|h\<close>, case-insensitive, with its factor in milliseconds.\<close>

definition duration_unit :: "string \<Rightarrow> (rat \<times> string) option" where
  "duration_unit s =
     (case s of
        [] \<Rightarrow> None
      | c # r \<Rightarrow>
          (let l = lower_char c
           in if l = CHR ''m'' then
                (case r of
                   [] \<Rightarrow> Some (60 * 1000, r)
                 | d # r' \<Rightarrow> if lower_char d = CHR ''s'' then Some (1, r') else Some (60 * 1000, r))
              else if l = CHR ''s'' then Some (1000, r)
              else if l = CHR ''h'' then Some (60 * 60 * 1000, r)
              else None))"

lemma duration_unit_shorter: "duration_unit s = Some (u, r) \<Longrightarrow> length r < length s"
  by (auto simp: duration_unit_def Let_def split: list.splits if_splits)

lemma duration_rest_shorter:
  assumes "duration_unit (trim_left (dropWhile dur_char (c # s))) = Some (u, r)"
  shows "length r < length (c # s)"
proof -
  have "length (trim_left (dropWhile dur_char (c # s))) \<le> length (c # s)"
    using length_dropWhile_le [of is_ws "dropWhile dur_char (c # s)"]
      length_dropWhile_le [of dur_char "c # s"]
    by (simp add: trim_left_def del: dropWhile.simps)
  with duration_unit_shorter [OF assms] show ?thesis by simp
qed

text \<open>All matches of \<open>/([\d.]+)\s*(ms|s|m|h)/gi\<close>, left to right: the numeral and its factor.\<close>

function duration_matches :: "string \<Rightarrow> (string \<times> rat) list" where
  "duration_matches [] = []"
| "duration_matches (c # s) =
     (if dur_char c then
        (case duration_unit (trim_left (dropWhile dur_char (c # s))) of
           None \<Rightarrow> duration_matches s
         | Some (u, r) \<Rightarrow> (takeWhile dur_char (c # s), u) # duration_matches r)
      else duration_matches s)"
  by pat_completeness auto
termination
  by (relation "measure length") (auto dest: duration_rest_shorter simp del: dropWhile.simps)

fun sum_durations :: "rat \<Rightarrow> (string \<times> rat) list \<Rightarrow> rat option" where
  "sum_durations totalMs [] = Some totalMs"
| "sum_durations totalMs ((t, u) # ms) =
     (case js_number_of t of
        Fin v \<Rightarrow> sum_durations (totalMs + v * u) ms
      | _ \<Rightarrow> None)"

definition parseDurationToMilliseconds :: "string \<Rightarrow> rat option" where
  "parseDurationToMilliseconds text =
     (let ms = duration_matches text
      in case sum_durations 0 ms of
           None \<Rightarrow> None
         | Some totalMs \<Rightarrow> if ms = [] then None else Some (of_int \<lfloor>totalMs + 1 / 2\<rfloor>))"

definition parseDurationToSeconds :: "string \<Rightarrow> rat option" where
  "parseDurationToSeconds text =
     (case parseDurationToMilliseconds text of
        None \<Rightarrow> None
      | Some ms \<Rightarrow> if ms \<le> 0 then None else Some (of_int \<lceil>ms / 1000\<rceil>))"

subsection \<open>Google error bodies\<close>

datatype rate_limit_reason =
    QuotaExhausted | RateLimitExceeded | ModelCapacityExhausted | ServerError | Unknown

datatype js_error = TypeError

definition tryParseGoogleErrorBody :: "string option \<Rightarrow> json option" where
  "tryParseGoogleErrorBody body =
     (let trimmed = js_trim (case body of None \<Rightarrow> [] | Some b \<Rightarrow> b)
      in if \<not> starts_with trimmed [CHR 0x7B] \<and> \<not> starts_with trimmed [CHR 0x5B] then None
         else (case json_parse trimmed of
             None \<Rightarrow> None
           | Some v \<Rightarrow> if is_object_like v then Some v else None))"

definition mapGoogleReasonToTrackerReason :: "string \<Rightarrow> rate_limit_reason option" where
  "mapGoogleReasonToTrackerReason reason =
     (let r = js_upper (js_trim reason)
      in if r = ''QUOTA_EXHAUSTED'' then Some QuotaExhausted
         else if r = ''RATE_LIMIT_EXCEEDED'' then Some RateLimitExceeded
         else if r = ''MODEL_CAPACITY_EXHAUSTED'' then Some ModelCapacityExhausted
         else None)"

definition normalizeRetryHintKey :: "string \<Rightarrow> string" where
  "normalizeRetryHintKey key = filter (\<lambda>c. c \<noteq> CHR ''-'' \<and> c \<noteq> CHR ''_'') (js_lower key)"

definition retry_hint_keys :: "string list" where
  "retry_hint_keys = [''retryafter'', ''retrydelay'', ''quotaresetdelay'', ''backofflimit'']"

text \<open>String and number conversion of an arbitrary value (\<open>String(v)\<close>, \<open>Number(v)\<close>).\<close>

fun js_to_string :: "json \<Rightarrow> string" where
  "js_to_string JNull = ''null''"
| "js_to_string (JBool b) = (if b then ''true'' else ''false'')"
| "js_to_string (JNum q) = num_str q"
| "js_to_string (JStr s) = s"
| "js_to_string (JArr xs) =
     join '','' (map (\<lambda>x. case x of JNull \<Rightarrow> '''' | _ \<Rightarrow> js_to_string x) xs)"
| "js_to_string (JObj m) = ''[object Object]''"

definition js_to_number :: "json \<Rightarrow> js_number" where
  "js_to_number v = (case v of JNull \<Rightarrow> Fin 0 | JBool b \<Rightarrow> Fin (if b then 1 else 0) | JNum q \<Rightarrow> Fin q
     | JStr s \<Rightarrow> js_number_of s | JArr xs \<Rightarrow> js_number_of (js_to_string v) | JObj _ \<Rightarrow> NaN)"

text \<open>\<open>obj.a ?? obj.b ?? 0\<close>: null and undefined fall through.\<close>

definition number_member :: "json \<Rightarrow> string \<Rightarrow> string \<Rightarrow> js_number" where
  "number_member v a b =
     (let nullish = (\<lambda>x. x = None \<or> x = Some JNull)
      in if \<not> nullish (jget v a) then js_to_number (the (jget v a))
         else if \<not> nullish (jget v b) then js_to_number (the (jget v b))
         else Fin 0)"

definition parseStructuredDurationObject :: "json \<Rightarrow> js_number option" where
  "parseStructuredDurationObject v =
     (if \<not> is_object_like v then None
      else (let seconds = number_member v ''seconds'' ''Seconds'';
                nanos = number_member v ''nanos'' ''Nanos''
            in if (\<not> is_finite seconds \<or> num_ge (Fin 0) seconds) \<and> (\<not> is_finite nanos \<or> num_ge (Fin 0) nanos)
               then None
               else Some (num_round (num_add (num_scale 1000 (num_max (Fin 0) seconds))
                      (num_scale (1 / 1000000) (num_max (Fin 0) nanos))))))"

definition parseStructuredDurationValue :: "json \<Rightarrow> js_number option" where
  "parseStructuredDurationValue v =
     (case v of
        JStr s \<Rightarrow> map_option Fin (parseDurationToMilliseconds s)
      | JNum q \<Rightarrow> if q > 0 then Some (Fin (of_int \<lfloor>q * 1000 + 1 / 2\<rfloor>))
                  else parseStructuredDurationObject v
      | _ \<Rightarrow> parseStructuredDurationObject v)"

text \<open>The first defined result over a list, as the loops that return early compute it.\<close>

fun first_some :: "('a \<Rightarrow> 'b option) \<Rightarrow> 'a list \<Rightarrow> 'b option" where
  "first_some f [] = None"
| "first_some f (x # xs) = (case f x of None \<Rightarrow> first_some f xs | Some y \<Rightarrow> Some y)"

text \<open>
  The argument is the number of levels still allowed: the source counts \<open>depth\<close> up from 0
  and stops above \<open>MAX_RETRY_DELAY_SEARCH_DEPTH\<close> = 8, so a call at depth \<open>k\<close> has
  \<open>9 - k\<close> levels left.
\<close>

primrec extractStructuredDelayRecursive :: "nat \<Rightarrow> json \<Rightarrow> js_number option" where
  "extractStructuredDelayRecursive 0 v = None"
| "extractStructuredDelayRecursive (Suc d) v =
     (case v of
        JStr s \<Rightarrow> map_option Fin (parseDurationToMilliseconds s)
      | JArr xs \<Rightarrow> first_some (extractStructuredDelayRecursive d) xs
      | JObj m \<Rightarrow>
          (case parseStructuredDurationObject v of
             Some x \<Rightarrow> Some x
           | None \<Rightarrow>
               first_some (\<lambda>(key, child).
                  case (if normalizeRetryHintKey key \<in> set retry_hint_keys
                        then parseStructuredDurationValue child else None) of
                    Some x \<Rightarrow> Some x
                  | None \<Rightarrow> extractStructuredDelayRecursive d child) m)
      | _ \<Rightarrow> None)"

definition MAX_RETRY_DELAY_SEARCH_DEPTH :: nat where
  "MAX_RETRY_DELAY_SEARCH_DEPTH = 8"

subsection \<open>Retry hints in free text\<close>

text \<open>A regular expression without anchors: try a matcher at every position, leftmost first.\<close>

fun scan_text :: "(string \<Rightarrow> 'a option) \<Rightarrow> string \<Rightarrow> 'a option" where
  "scan_text f [] = f []"
| "scan_text f (c # s) = (case f (c # s) of None \<Rightarrow> scan_text f s | Some y \<Rightarrow> Some y)"

definition strip_lit_ci :: "string \<Rightarrow> string \<Rightarrow> string option" where
  "strip_lit_ci l s = (if starts_with (js_lower s) (js_lower l) then Some (drop (length l) s) else None)"

definition capture1 :: "(char \<Rightarrow> bool) \<Rightarrow> string \<Rightarrow> string option" where
  "capture1 p s = (let t = takeWhile p s in if t = [] then None else Some t)"

definition take_digits :: "string \<Rightarrow> (nat \<times> string) option" where
  "take_digits s = (let t = takeWhile is_digit s in
     if t = [] then None else Some (digits_val t, dropWhile is_digit s))"

definition hint_char :: "char \<Rightarrow> bool" where
  "hint_char c \<longleftrightarrow> c \<notin> {CHR ''.'', CHR '','', CHR '';'', CHR 0x5D, CHR 0x0A}"

definition delay_sep :: "char \<Rightarrow> bool" where
  "delay_sep c \<longleftrightarrow> c \<in> {CHR 0x22, CHR 0x27, CHR ''='', CHR '':''} \<or> is_ws c"

definition delay_char :: "char \<Rightarrow> bool" where
  "delay_char c \<longleftrightarrow> \<not> is_ws c \<and> c \<notin> {CHR '','', CHR 0x22, CHR 0x7D, CHR 0x5D}"

text \<open>
  \<open>["'=:\s]+([^\s,"}\]]+)\<close>: the separator run is greedy and gives characters back until the
  capture group matches.
\<close>

fun sep_then_capture :: "nat \<Rightarrow> string \<Rightarrow> string option" where
  "sep_then_capture 0 s = None"
| "sep_then_capture (Suc k) s =
     (case capture1 delay_char (drop (Suc k) s) of
        Some t \<Rightarrow> Some t
      | None \<Rightarrow> sep_then_capture k s)"

definition quota_retry_matches :: "string \<Rightarrow> string option list" where
  "quota_retry_matches text =
     [scan_text (\<lambda>s. Option.bind (strip_lit_ci ''quota will reset after '' s) (capture1 hint_char)) text,
      scan_text (\<lambda>s. Option.bind (strip_lit_ci ''retry after '' s) (capture1 hint_char)) text,
      scan_text (\<lambda>s. Option.bind (strip_lit_ci ''quotaResetDelay'' s)
         (\<lambda>r. sep_then_capture (length (takeWhile delay_sep r)) r)) text]"

definition parseRetryDelayMilliseconds :: "string option \<Rightarrow> js_number option" where
  "parseRetryDelayMilliseconds errorText =
     (if \<not> str_truthy errorText then None
      else (let text = the errorText
            in case first_some (\<lambda>m. Option.bind m parseDurationToMilliseconds) (quota_retry_matches text) of
                 Some delay \<Rightarrow> Some (Fin delay)
               | None \<Rightarrow>
                   Option.bind (tryParseGoogleErrorBody (Some text))
                     (extractStructuredDelayRecursive (Suc MAX_RETRY_DELAY_SEARCH_DEPTH))))"

definition GRACE_RETRY_WINDOW_MS :: rat where
  "GRACE_RETRY_WINDOW_MS = 2000"

definition GRACE_RETRY_BUFFER_MS :: rat where
  "GRACE_RETRY_BUFFER_MS = 1500"

definition shouldGraceRetry :: "js_number \<Rightarrow> bool" where
  "shouldGraceRetry delayMs \<longleftrightarrow>
     num_gt delayMs (Fin 0) \<and> num_ge (Fin GRACE_RETRY_WINDOW_MS) delayMs"

subsection \<open>Reading back a printed duration\<close>

lemma duration_matches_unit:
  assumes "\<not> dur_char u" "duration_unit (u # r) = Some (f, r')" "\<not> is_ws u"
  shows "duration_matches (nat_str n @ u # r) = (nat_str n, f) # duration_matches r'"
proof -
  have d: "\<forall>c\<in>set (nat_str n). dur_char c" using nat_str_digits by (auto simp: dur_char_def)
  obtain c s where cs: "nat_str n = c # s" by (cases "nat_str n") (auto)
  have "takeWhile dur_char (nat_str n @ u # r) = nat_str n" "dropWhile dur_char (nat_str n @ u # r) = u # r"
    using d assms(1) by (auto simp: takeWhile_append dropWhile_append)
  moreover have "trim_left (u # r) = u # r" using assms(3) by (simp add: trim_left_def)
  moreover have "dur_char c" using d cs by simp
  ultimately show ?thesis using assms(2) by (simp add: cs del: dropWhile.simps takeWhile.simps)
qed

lemma not_dur_chars [simp]: "\<not> dur_char CHR ''h''" "\<not> dur_char CHR ''m''" "\<not> dur_char CHR ''s''"
  "\<not> is_ws CHR ''h''" "\<not> is_ws CHR ''m''" "\<not> is_ws CHR ''s''"
  by (simp_all add: dur_char_def is_digit_def is_ws_def)

lemma lower_hms [simp]: "lower_char CHR ''h'' = CHR ''h''" "lower_char CHR ''m'' = CHR ''m''"
  "lower_char CHR ''s'' = CHR ''s''"
  by (simp_all add: lower_char_def)

lemma digit_not_s: "is_digit c \<Longrightarrow> lower_char c \<noteq> CHR ''s''"
  by (auto simp: is_digit_def)

lemma duration_unit_hms [simp]:
  "duration_unit (CHR ''h'' # r) = Some (3600000, r)"
  "duration_unit (CHR ''s'' # r) = Some (1000, r)"
  "duration_unit (CHR ''m'' # CHR ''s'' # r) = Some (1, r)"
  "duration_unit (CHR ''m'' # nat_str n @ r) = Some (60000, nat_str n @ r)"
proof -
  obtain c s where cs: "nat_str n = c # s" by (cases "nat_str n") auto
  then have "is_digit c" using nat_str_digits [of c n] by simp
  from digit_not_s [OF this] cs show "duration_unit (CHR ''m'' # nat_str n @ r) = Some (60000, nat_str n @ r)"
    by (simp add: duration_unit_def Let_def)
qed (simp_all add: duration_unit_def Let_def)

text \<open>Every duration printed as hours, minutes and seconds, or as milliseconds, is read back
  by \<open>parseDurationToMilliseconds\<close> as exactly its number of milliseconds.\<close>

lemma duration_roundtrip:
  "parseDurationToMilliseconds (nat_str h @ ''h'' @ nat_str m @ ''m'' @ nat_str s @ ''s'') =
     Some (of_nat (3600000 * h + 60000 * m + 1000 * s)) \<and>
   parseDurationToMilliseconds (nat_str s @ ''ms'') = Some (of_nat s)"
proof -
  have f: "\<lfloor>of_nat n + (1 / 2 :: rat)\<rfloor> = int n" for n :: nat
    by linarith
  have "\<lfloor>of_nat (3600000 * h + 60000 * m + 1000 * s) + (1 / 2 :: rat)\<rfloor> = int (3600000 * h + 60000 * m + 1000 * s)"
    by (rule f)
  then show ?thesis
    using f [of s]
    by (simp add: parseDurationToMilliseconds_def duration_matches_unit Let_def algebra_simps)
qed
end
