(* ===== verification/Tracker.thy ===== *)
theory Tracker
  imports RateLimit
begin

section \<open>The class RateLimitTracker\<close>

text \<open>
  The two private maps of the class as a record, one definition per method, and the
  properties of the lockouts: what a recorded error locks and for how long, that
  cleaning up expired entries is invisible, that accounts do not disturb each other, and
  how the failure count drives the back-off steps.
\<close>

record rate_limit_info =
  resetTimeMs :: js_number
  retryAfterSec :: js_number
  li_reason :: rate_limit_reason
  li_model :: "string option"

record failure_count_entry =
  fc_count :: nat
  lastFailureMs :: rat

record tracker =
  lockoutByKey :: "rate_limit_info js_map"
  failureCounts :: "failure_count_entry js_map"

definition new_tracker :: tracker where
  "new_tracker = \<lparr>lockoutByKey = [], failureCounts = []\<rparr>"

definition FAILURE_COUNT_EXPIRY_MS :: rat where
  "FAILURE_COUNT_EXPIRY_MS = 60 * 60 * 1000"

text \<open>\<open>!isEmpty(model?.trim() ?? '')\<close>\<close>

definition model_nonblank :: "string option \<Rightarrow> bool" where
  "model_nonblank m \<longleftrightarrow> js_trim (case m of None \<Rightarrow> [] | Some s \<Rightarrow> s) \<noteq> []"

definition buildLockoutKey :: "string \<Rightarrow> string option \<Rightarrow> string" where
  "buildLockoutKey accountId model =
     (if model_nonblank model then accountId @ '':'' @ the model else accountId)"

definition wait_of :: "rat \<Rightarrow> rate_limit_info option \<Rightarrow> js_number option" where
  "wait_of now lock =
     (case lock of
        None \<Rightarrow> None
      | Some info \<Rightarrow>
          if num_gt (resetTimeMs info) (Fin now)
          then Some (num_max (Fin 0)
                 (num_ceil (num_scale (1 / 1000) (num_add (resetTimeMs info) (Fin (- now))))))
          else None)"

definition getRemainingWaitSeconds :: "rat \<Rightarrow> tracker \<Rightarrow> string \<Rightarrow> string option \<Rightarrow> js_number" where
  "getRemainingWaitSeconds now t accountId model =
     (case wait_of now (map_of (lockoutByKey t) accountId) of
        Some w \<Rightarrow> w
      | None \<Rightarrow>
          if str_truthy model then
            (case wait_of now (map_of (lockoutByKey t) (buildLockoutKey accountId model)) of
               Some w \<Rightarrow> w
             | None \<Rightarrow> Fin 0)
          else Fin 0)"

definition tracker_isRateLimited :: "rat \<Rightarrow> tracker \<Rightarrow> string \<Rightarrow> string option \<Rightarrow> bool" where
  "tracker_isRateLimited now t accountId model \<longleftrightarrow>
     num_gt (getRemainingWaitSeconds now t accountId model) (Fin 0)"

definition setLockoutUntil ::
  "rat \<Rightarrow> string \<Rightarrow> js_number \<Rightarrow> rate_limit_reason \<Rightarrow> string option \<Rightarrow> tracker \<Rightarrow> tracker" where
  "setLockoutUntil now accountId resetMs reason model t =
     (let sec = num_max (Fin 2) (num_ceil (num_scale (1 / 1000) (num_add resetMs (Fin (- now)))));
          key = (if model_nonblank model then buildLockoutKey accountId model else accountId)
      in t\<lparr>lockoutByKey := AList.update key
             \<lparr>resetTimeMs = resetMs, retryAfterSec = sec, li_reason = reason, li_model = model\<rparr>
             (lockoutByKey t)\<rparr>)"

definition setLockoutUntilIso ::
  "(string \<Rightarrow> js_number) \<Rightarrow> rat \<Rightarrow> string \<Rightarrow> string \<Rightarrow> rate_limit_reason \<Rightarrow> string option
     \<Rightarrow> tracker \<Rightarrow> bool \<times> tracker" where
  "setLockoutUntilIso date_parse now accountId resetTimeIso reason model t =
     (let timestamp = date_parse resetTimeIso
      in if \<not> is_finite timestamp then (False, t)
         else (True, setLockoutUntil now accountId timestamp reason model t))"

definition tracker_clear :: "string \<Rightarrow> tracker \<Rightarrow> bool \<times> tracker" where
  "tracker_clear accountId t =
     (map_of (lockoutByKey t) accountId \<noteq> None,
      t\<lparr>lockoutByKey := AList.delete accountId (lockoutByKey t)\<rparr>)"

definition tracker_clearAll :: "tracker \<Rightarrow> nat \<times> tracker" where
  "tracker_clearAll t = (length (lockoutByKey t), t\<lparr>lockoutByKey := []\<rparr>)"

definition lock_expired :: "rat \<Rightarrow> rate_limit_info \<Rightarrow> bool" where
  "lock_expired now info \<longleftrightarrow> num_ge (Fin now) (resetTimeMs info)"

definition cleanupExpired :: "rat \<Rightarrow> tracker \<Rightarrow> nat \<times> tracker" where
  "cleanupExpired now t =
     (length (filter (\<lambda>(k, info). lock_expired now info) (lockoutByKey t)),
      t\<lparr>lockoutByKey := map_select (\<lambda>k info. \<not> lock_expired now info) (lockoutByKey t)\<rparr>)"

definition markSuccess :: "string \<Rightarrow> tracker \<Rightarrow> tracker" where
  "markSuccess accountId t =
     t\<lparr>failureCounts := AList.delete accountId (failureCounts t),
       lockoutByKey := AList.delete accountId (lockoutByKey t)\<rparr>"

definition incrementFailureCount :: "rat \<Rightarrow> string \<Rightarrow> tracker \<Rightarrow> nat \<times> tracker" where
  "incrementFailureCount now accountId t =
     (let n = (case map_of (failureCounts t) accountId of
                 None \<Rightarrow> 1
               | Some e \<Rightarrow> if now - lastFailureMs e > FAILURE_COUNT_EXPIRY_MS then 1 else Suc (fc_count e))
      in (n, t\<lparr>failureCounts := AList.update accountId \<lparr>fc_count = n, lastFailureMs = now\<rparr>
               (failureCounts t)\<rparr>))"

subsection \<open>Reading reason and wait out of an upstream error\<close>

record upstream_params =
  up_accountId :: string
  up_status :: "rat option"
  up_retryAfter :: "string option"
  up_body :: "string option"
  up_model :: "string option"
  up_backoffSteps :: "rat list"

definition error_details :: "json option \<Rightarrow> json list" where
  "error_details parsed =
     (case as_array (jget_opt (jget_opt parsed ''error'') ''details'') of
        None \<Rightarrow> [] | Some ds \<Rightarrow> ds)"

fun first_mapped_reason :: "json list \<Rightarrow> js_error + rate_limit_reason option" where
  "first_mapped_reason [] = Inr None"
| "first_mapped_reason (d # ds) =
     (if d = JNull then Inl TypeError
      else (case as_string (jget d ''reason'') of
          None \<Rightarrow> first_mapped_reason ds
        | Some r \<Rightarrow>
            if js_trim r = [] then first_mapped_reason ds
            else (case mapGoogleReasonToTrackerReason r of
                None \<Rightarrow> first_mapped_reason ds
              | Some x \<Rightarrow> Inr (Some x))))"

text \<open>\<open>parsedBody?.error?.status?.trim().toUpperCase()\<close>: a status that is neither a string
  nor null or undefined has no \<open>trim\<close>.\<close>

definition status_from_body :: "json option \<Rightarrow> js_error + string option" where
  "status_from_body parsed =
     (case jget_opt (jget_opt parsed ''error'') ''status'' of
        None \<Rightarrow> Inr None
      | Some JNull \<Rightarrow> Inr None
      | Some (JStr s) \<Rightarrow> Inr (Some (js_upper (js_trim s)))
      | Some _ \<Rightarrow> Inl TypeError)"

definition reason_from_text :: "string \<Rightarrow> rate_limit_reason" where
  "reason_from_text lowerBody =
     (if str_contains lowerBody ''per minute'' \<or> str_contains lowerBody ''rate limit''
         \<or> str_contains lowerBody ''rate_limit'' \<or> str_contains lowerBody ''too many requests''
      then RateLimitExceeded
      else if str_contains lowerBody ''model capacity exhausted''
         \<or> str_contains lowerBody ''no capacity available''
      then ModelCapacityExhausted
      else if str_contains lowerBody ''quota'' \<or> str_contains lowerBody ''exhausted''
      then QuotaExhausted
      else Unknown)"

definition toLowerText :: "string option \<Rightarrow> string" where
  "toLowerText v = js_lower (case v of None \<Rightarrow> [] | Some s \<Rightarrow> s)"

definition detectRateLimitReason :: "rat \<Rightarrow> string option \<Rightarrow> js_error + rate_limit_reason" where
  "detectRateLimitReason status body =
     (let parsed = tryParseGoogleErrorBody body; lowered = toLowerText body
      in case first_mapped_reason (error_details parsed) of
           Inl e \<Rightarrow> Inl e
         | Inr (Some r) \<Rightarrow> Inr r
         | Inr None \<Rightarrow>
             (case status_from_body parsed of
                Inl e \<Rightarrow> Inl e
              | Inr st \<Rightarrow>
                  if st = Some ''RESOURCE_EXHAUSTED'' then Inr QuotaExhausted
                  else if st = Some ''UNAVAILABLE'' \<and>
                     (str_contains lowered ''no capacity available'' \<or> str_contains lowered ''model capacity'')
                  then Inr ModelCapacityExhausted
                  else if status \<noteq> 429 then Inr ServerError
                  else Inr (reason_from_text lowered)))"

definition detail_delay :: "json option \<Rightarrow> rat option" where
  "detail_delay v =
     (case as_string v of
        None \<Rightarrow> None
      | Some s \<Rightarrow> if js_trim s = [] then None else parseDurationToSeconds s)"

fun first_detail_delay :: "json list \<Rightarrow> js_error + rat option" where
  "first_detail_delay [] = Inr None"
| "first_detail_delay (d # ds) =
     (if d = JNull then Inl TypeError
      else (case first_some detail_delay
              [jget d ''retryDelay'', jget_opt (jget d ''metadata'') ''retryDelay'',
               jget_opt (jget d ''metadata'') ''quotaResetDelay''] of
          Some s \<Rightarrow> Inr (Some s)
        | None \<Rightarrow> first_detail_delay ds))"

text \<open>The three regular expressions over the lowered body, in the source's order.\<close>

definition text_delays :: "string \<Rightarrow> rat option list" where
  "text_delays lowerBody =
     [scan_text (\<lambda>s. do { r \<leftarrow> strip_lit ''try again in'' s;
                          _ \<leftarrow> capture1 is_ws r;
                          (m, r) \<leftarrow> take_digits (trim_left r);
                          r \<leftarrow> strip_lit ''m'' r;
                          (n, r) \<leftarrow> take_digits (trim_left r);
                          r \<leftarrow> strip_lit ''s'' r;
                          Some (of_nat m * 60 + of_nat n) }) lowerBody,
      scan_text (\<lambda>s. do { r \<leftarrow> first_some (\<lambda>l. strip_lit l s) [''try again in'', ''backoff for'', ''wait''];
                          (n, r) \<leftarrow> take_digits (trim_left r);
                          r \<leftarrow> strip_lit ''s'' r;
                          Some (of_nat n) }) lowerBody,
      scan_text (\<lambda>s. do { r \<leftarrow> strip_lit ''quota will reset in'' s;
                          (n, r) \<leftarrow> take_digits (trim_left r);
                          r \<leftarrow> strip_lit ''second'' (trim_left r);
                          Some (of_nat n) }) lowerBody]"

definition parseRetryAfterSecondsFromBody :: "string option \<Rightarrow> js_error + js_number option" where
  "parseRetryAfterSecondsFromBody body =
     (if \<not> str_truthy body then Inr None
      else (case parseRetryDelayMilliseconds body of
          Some ms \<Rightarrow> Inr (Some (num_ceil (num_scale (1 / 1000) (num_add ms (Fin GRACE_RETRY_BUFFER_MS)))))
        | None \<Rightarrow>
            (let parsed = tryParseGoogleErrorBody body
             in case first_detail_delay (error_details parsed) of
                  Inl e \<Rightarrow> Inl e
                | Inr (Some s) \<Rightarrow> Inr (Some (Fin s))
                | Inr None \<Rightarrow>
                    (case jget_opt (jget_opt parsed ''error'') ''retry_after'' of
                       Some (JNum q) \<Rightarrow>
                         if q > 0 then Inr (Some (Fin (of_int \<lceil>q\<rceil>)))
                         else Inr (map_option Fin (first_some id (text_delays (toLowerText body))))
                     | _ \<Rightarrow> Inr (map_option Fin (first_some id (text_delays (toLowerText body))))))))"

text \<open>The \<open>Retry-After\<close> header: a number of seconds or a date.\<close>

definition header_retry :: "(string \<Rightarrow> js_number) \<Rightarrow> rat \<Rightarrow> string option \<Rightarrow> js_number option" where
  "header_retry date_parse now retryAfter =
     (let raw = js_trim (case retryAfter of None \<Rightarrow> [] | Some s \<Rightarrow> s);
          at_date = (case date_parse raw of
              Fin t \<Rightarrow> (let sec = \<lceil>(t - now) / 1000\<rceil>
                        in if sec > 0 then Some (Fin (max 2 (of_int sec))) else None)
            | _ \<Rightarrow> None)
      in if raw = [] then None
         else (case js_number_of raw of
             Fin q \<Rightarrow> if q > 0 then Some (Fin (max 2 (of_int \<lceil>q\<rceil>))) else at_date
           | _ \<Rightarrow> at_date))"

definition default_backoff_steps :: "rat list" where
  "default_backoff_steps = [60, 300, 1800, 7200]"

definition backoff_step :: "rat list \<Rightarrow> nat \<Rightarrow> rat" where
  "backoff_step configured failureCount =
     (let steps = (if configured \<noteq> [] then configured else default_backoff_steps)
      in steps ! min (failureCount - 1) (length steps - 1))"

definition fallback_retry :: "rate_limit_reason \<Rightarrow> rat \<Rightarrow> rat list \<Rightarrow> nat \<Rightarrow> rat" where
  "fallback_retry reason status steps failureCount =
     (case reason of
        QuotaExhausted \<Rightarrow> backoff_step steps failureCount
      | RateLimitExceeded \<Rightarrow> 5
      | ModelCapacityExhausted \<Rightarrow>
          if failureCount \<le> 1 then 5 else if failureCount = 2 then 10 else 15
      | ServerError \<Rightarrow> if status = 404 then 5 else 8
      | Unknown \<Rightarrow> 60)"

definition computeRetryAfterSeconds ::
  "(string \<Rightarrow> js_number) \<Rightarrow> rat \<Rightarrow> rate_limit_reason \<Rightarrow> rat \<Rightarrow> upstream_params \<Rightarrow> tracker
     \<Rightarrow> js_error + js_number \<times> tracker" where
  "computeRetryAfterSeconds date_parse now reason status p t =
     (case header_retry date_parse now (up_retryAfter p) of
        Some s \<Rightarrow> Inr (s, t)
      | None \<Rightarrow>
          (case parseRetryAfterSecondsFromBody (up_body p) of
             Inl e \<Rightarrow> Inl e
           | Inr (Some s) \<Rightarrow> Inr (num_max (Fin 2) (num_ceil s), t)
           | Inr None \<Rightarrow>
               (let (failureCount, t') = (if reason \<noteq> ServerError
                      then incrementFailureCount now (up_accountId p) t else (1, t))
                in Inr (Fin (fallback_retry reason status (up_backoffSteps p) failureCount), t'))))"

definition tracked_statuses :: "rat list" where
  "tracked_statuses = [404, 429, 500, 503, 529]"

definition trackFromUpstreamError ::
  "(string \<Rightarrow> js_number) \<Rightarrow> rat \<Rightarrow> upstream_params \<Rightarrow> tracker
     \<Rightarrow> js_error + rate_limit_info option \<times> tracker" where
  "trackFromUpstreamError date_parse now p t =
     (let status = (case up_status p of None \<Rightarrow> 0 | Some s \<Rightarrow> s)
      in if status \<notin> set tracked_statuses then Inr (None, t)
         else (case detectRateLimitReason status (up_body p) of
             Inl e \<Rightarrow> Inl e
           | Inr reason \<Rightarrow>
               (case computeRetryAfterSeconds date_parse now reason status p t of
                  Inl e \<Rightarrow> Inl e
                | Inr (sec, t') \<Rightarrow>
                    (let info = \<lparr>resetTimeMs = num_add (Fin now) (num_scale 1000 sec),
                                 retryAfterSec = sec, li_reason = reason, li_model = up_model p\<rparr>;
                         key = (if reason = QuotaExhausted \<and> str_truthy (up_model p)
                                then buildLockoutKey (up_accountId p) (up_model p)
                                else up_accountId p)
                     in Inr (Some info, t'\<lparr>lockoutByKey := AList.update key info (lockoutByKey t')\<rparr>)))))"

subsection \<open>The state invariant\<close>

definition tracker_ok :: "tracker \<Rightarrow> bool" where
  "tracker_ok t \<longleftrightarrow> map_keys_ok (lockoutByKey t) \<and> map_keys_ok (failureCounts t)"

lemma tracker_ok_new [intro, simp]: "tracker_ok new_tracker"
  by (simp add: tracker_ok_def new_tracker_def map_keys_ok_def)

lemma incrementFailureCount_frame:
  assumes "incrementFailureCount now a t = (n, t')"
  shows "lockoutByKey t' = lockoutByKey t"
    and "map_of (failureCounts t') a = Some \<lparr>fc_count = n, lastFailureMs = now\<rparr>"
    and "b \<noteq> a \<Longrightarrow> map_of (failureCounts t') b = map_of (failureCounts t) b"
    and "tracker_ok t \<Longrightarrow> tracker_ok t'"
    and "0 < n"
  using assms
  by (auto simp: incrementFailureCount_def Let_def tracker_ok_def update_conv' map_ok_intros
      split: option.splits)

lemma computeRetryAfterSeconds_frame:
  assumes "computeRetryAfterSeconds dp now reason st p t = Inr (s, t')"
  shows "lockoutByKey t' = lockoutByKey t"
    and "b \<noteq> up_accountId p \<Longrightarrow> map_of (failureCounts t') b = map_of (failureCounts t) b"
    and "tracker_ok t \<Longrightarrow> tracker_ok t'"
proof -
  obtain n t'' where inc: "incrementFailureCount now (up_accountId p) t = (n, t'')" by fastforce
  note fr = incrementFailureCount_frame [OF inc]
  from assms inc fr show "lockoutByKey t' = lockoutByKey t"
    by (auto simp: computeRetryAfterSeconds_def split: option.splits sum.splits if_splits)
  from assms inc fr show "b \<noteq> up_accountId p \<Longrightarrow> map_of (failureCounts t') b = map_of (failureCounts t) b"
    by (auto simp: computeRetryAfterSeconds_def split: option.splits sum.splits if_splits)
  from assms inc fr show "tracker_ok t \<Longrightarrow> tracker_ok t'"
    by (auto simp: computeRetryAfterSeconds_def split: option.splits sum.splits if_splits)
qed

lemma backoff_step_pos:
  assumes "\<forall>b\<in>set steps. 0 < b"
  shows "0 < backoff_step steps n"
proof -
  let ?s = "if steps \<noteq> [] then steps else default_backoff_steps"
  have ne: "?s \<noteq> []" and pos: "\<forall>b\<in>set ?s. 0 < b"
    using assms by (auto simp: default_backoff_steps_def)
  then have "?s ! min (n - 1) (length ?s - 1) \<in> set ?s"
    by (intro nth_mem) (cases ?s; simp)
  with pos show ?thesis by (simp only: backoff_step_def Let_def)
qed

lemma fallback_retry_pos: "\<forall>b\<in>set steps. 0 < b \<Longrightarrow> 0 < fallback_retry r st steps n"
  by (auto simp: fallback_retry_def backoff_step_pos split: rate_limit_reason.splits)

lemma header_retry_ge: "header_retry dp now h = Some s \<Longrightarrow> \<exists>q. s = Fin q \<and> 2 \<le> q"
  by (auto simp: header_retry_def Let_def split: if_splits js_number.splits)

lemma num_max_2: "num_max (Fin 2) x = NaN \<or> num_gt (num_max (Fin 2) x) (Fin 0)"
  by (cases x) (auto simp: num_max_def)

lemma computeRetryAfterSeconds_pos:
  assumes "computeRetryAfterSeconds dp now reason st p t = Inr (s, t')"
    and "\<forall>b\<in>set (up_backoffSteps p). 0 < b"
  shows "s = NaN \<or> num_gt s (Fin 0)"
  using assms fallback_retry_pos num_max_2 header_retry_ge
  by (fastforce simp: computeRetryAfterSeconds_def split: option.splits sum.splits prod.splits)

lemmas track_splits = option.splits sum.splits prod.splits if_splits

lemma trackFromUpstreamError_SomeE:
  assumes "trackFromUpstreamError dp now p t = Inr (Some info, t')"
  obtains reason sec t1 where
    "detectRateLimitReason (case up_status p of None \<Rightarrow> 0 | Some s \<Rightarrow> s) (up_body p) = Inr reason"
    "computeRetryAfterSeconds dp now reason (case up_status p of None \<Rightarrow> 0 | Some s \<Rightarrow> s) p t = Inr (sec, t1)"
    "info = \<lparr>resetTimeMs = num_add (Fin now) (num_scale 1000 sec), retryAfterSec = sec,
       li_reason = reason, li_model = up_model p\<rparr>"
    "t' = t1\<lparr>lockoutByKey := AList.update
        (if reason = QuotaExhausted \<and> str_truthy (up_model p)
         then buildLockoutKey (up_accountId p) (up_model p) else up_accountId p) info (lockoutByKey t1)\<rparr>"
  using assms that
  by (auto simp: trackFromUpstreamError_def Let_def split: option.splits sum.splits prod.splits if_split_asm)

lemma trackFromUpstreamError_ok:
  assumes "trackFromUpstreamError dp now p t = Inr (r, t')" and ok: "tracker_ok t"
  shows "tracker_ok t'"
proof (cases r)
  case None
  with assms show ?thesis
    by (auto simp: trackFromUpstreamError_def Let_def split: sum.splits prod.splits if_split_asm)
next
  case (Some info)
  from assms(1) show ?thesis unfolding Some
  proof (rule trackFromUpstreamError_SomeE)
    fix reason sec t1
    assume c: "computeRetryAfterSeconds dp now reason
        (case up_status p of None \<Rightarrow> 0 | Some s \<Rightarrow> s) p t = Inr (sec, t1)"
      and t': "t' = t1\<lparr>lockoutByKey := AList.update
        (if reason = QuotaExhausted \<and> str_truthy (up_model p)
         then buildLockoutKey (up_accountId p) (up_model p) else up_accountId p) info (lockoutByKey t1)\<rparr>"
    from computeRetryAfterSeconds_frame(3) [OF c ok] show ?thesis
      unfolding t' by (simp add: tracker_ok_def map_ok_intros)
  qed
qed

lemma tracker_ok_ops:
  assumes "tracker_ok t"
  shows "tracker_ok (setLockoutUntil now a r reason m t)"
    and "tracker_ok (snd (setLockoutUntilIso dp now a tm reason m t))"
    and "tracker_ok (snd (tracker_clear a t))"
    and "tracker_ok (snd (tracker_clearAll t))"
    and "tracker_ok (snd (cleanupExpired now t))"
    and "tracker_ok (markSuccess a t)"
  using assms
  by (simp_all add: tracker_ok_def setLockoutUntil_def setLockoutUntilIso_def tracker_clear_def
      tracker_clearAll_def cleanupExpired_def markSuccess_def Let_def map_ok_intros)

subsection \<open>Waits\<close>

lemma num_wait_pos:
  "num_gt x (Fin now) \<Longrightarrow>
   num_gt (num_max (Fin 0) (num_ceil (num_scale (1 / 1000) (num_add x (Fin (- now)))))) (Fin 0)"
  by (cases x) (auto simp: num_max_def max_def less_ceiling_iff)

lemma wait_of_limited: "wait_of now (Some i) = Some w \<Longrightarrow> num_gt w (Fin 0)"
  by (auto simp: wait_of_def num_wait_pos split: if_splits)

lemma wait_of_None_iff: "wait_of now (Some i) = None \<longleftrightarrow> \<not> num_gt (resetTimeMs i) (Fin now)"
  by (simp add: wait_of_def)

lemma limited_iff:
  "tracker_isRateLimited now t a m \<longleftrightarrow>
     wait_of now (map_of (lockoutByKey t) a) \<noteq> None \<or>
     (str_truthy m \<and> wait_of now (map_of (lockoutByKey t) (buildLockoutKey a m)) \<noteq> None)"
proof -
  have pos: "num_gt w (Fin 0)" if "wait_of now l = Some w" for l w
    using that wait_of_limited by (cases l) (simp add: wait_of_def, blast)
  show ?thesis
    by (auto simp: tracker_isRateLimited_def getRemainingWaitSeconds_def pos split: option.splits)
qed

lemma limited_by_account_lock:
  "map_of (lockoutByKey t) a = Some i \<Longrightarrow> num_gt (resetTimeMs i) (Fin now) \<Longrightarrow>
   tracker_isRateLimited now t a m"
  by (simp add: limited_iff wait_of_def)

lemma limited_by_model_lock:
  "map_of (lockoutByKey t) (buildLockoutKey a m) = Some i \<Longrightarrow> str_truthy m \<Longrightarrow>
   num_gt (resetTimeMs i) (Fin now) \<Longrightarrow> tracker_isRateLimited now t a m"
  by (simp add: limited_iff wait_of_def)

lemma num_add_pos_gt: "num_gt s (Fin 0) \<Longrightarrow> num_gt (num_add (Fin now) (num_scale 1000 s)) (Fin now)"
  by (cases s) auto

lemma track_locks:
  assumes "trackFromUpstreamError dp now p t = Inr (Some info, t')"
    and "\<forall>b\<in>set (up_backoffSteps p). 0 < b"
    and "retryAfterSec info \<noteq> NaN"
  shows "tracker_isRateLimited now t' (up_accountId p) (up_model p)"
    and "num_gt (resetTimeMs info) (Fin now') \<Longrightarrow>
         tracker_isRateLimited now' t' (up_accountId p) (up_model p)"
proof -
  have "num_gt (resetTimeMs info) (Fin now) \<and>
      (\<forall>now'. num_gt (resetTimeMs info) (Fin now') \<longrightarrow>
         tracker_isRateLimited now' t' (up_accountId p) (up_model p))"
    using assms(1)
  proof (rule trackFromUpstreamError_SomeE)
    fix reason sec t1
    assume c: "computeRetryAfterSeconds dp now reason
        (case up_status p of None \<Rightarrow> 0 | Some s \<Rightarrow> s) p t = Inr (sec, t1)"
      and info: "info = \<lparr>resetTimeMs = num_add (Fin now) (num_scale 1000 sec), retryAfterSec = sec,
         li_reason = reason, li_model = up_model p\<rparr>"
      and t': "t' = t1\<lparr>lockoutByKey := AList.update
        (if reason = QuotaExhausted \<and> str_truthy (up_model p)
         then buildLockoutKey (up_accountId p) (up_model p) else up_accountId p) info (lockoutByKey t1)\<rparr>"
    from computeRetryAfterSeconds_pos [OF c assms(2)] assms(3) info
    have gt: "num_gt (resetTimeMs info) (Fin now)" by (simp add: num_add_pos_gt)
    show ?thesis
    proof (cases "reason = QuotaExhausted \<and> str_truthy (up_model p)")
      case True
      then have "map_of (lockoutByKey t') (buildLockoutKey (up_accountId p) (up_model p)) = Some info"
        by (simp add: t' js_map)
      with True gt show ?thesis by (blast intro: limited_by_model_lock)
    next
      case False
      then have "map_of (lockoutByKey t') (up_accountId p) = Some info"
        by (auto simp: t' js_map)
      with gt show ?thesis by (blast intro: limited_by_account_lock)
    qed
  qed
  then show "tracker_isRateLimited now t' (up_accountId p) (up_model p)"
    and "num_gt (resetTimeMs info) (Fin now') \<Longrightarrow>
         tracker_isRateLimited now' t' (up_accountId p) (up_model p)" by auto
qed

subsection \<open>Clean-up\<close>

lemma wait_of_cleanup:
  assumes "map_keys_ok m" "now \<le> now'"
  shows "wait_of now' (map_of (map_select (\<lambda>k info. \<not> lock_expired now info) m) k) =
         wait_of now' (map_of m k)"
proof (cases "map_of m k")
  case None
  then show ?thesis by (simp add: js_map.get_sel assms)
next
  case (Some i)
  show ?thesis
  proof (cases "lock_expired now i")
    case True
    then have "wait_of now' (Some i) = None"
      using assms(2) by (cases "resetTimeMs i") (auto simp: lock_expired_def wait_of_def)
    then show ?thesis by (simp add: js_map.get_sel assms Some True wait_of_def)
  qed (simp add: js_map.get_sel assms Some)
qed

lemma cleanup_invisible:
  assumes "tracker_ok t" "now \<le> now'"
  shows "getRemainingWaitSeconds now' (snd (cleanupExpired now t)) a m = getRemainingWaitSeconds now' t a m"
proof -
  have ok: "map_keys_ok (lockoutByKey t)" using assms(1) by (simp add: tracker_ok_def)
  have "wait_of now' (map_of (lockoutByKey (snd (cleanupExpired now t))) k) =
      wait_of now' (map_of (lockoutByKey t) k)" for k
    using wait_of_cleanup [OF ok assms(2)] by (simp add: cleanupExpired_def)
  then show ?thesis by (simp only: getRemainingWaitSeconds_def)
qed

lemma cleanup_count:
  "fst (cleanupExpired now t) + length (lockoutByKey (snd (cleanupExpired now t))) = length (lockoutByKey t)"
  by (simp add: cleanupExpired_def map_select_def case_prod_unfold sum_length_filter_compl)

subsection \<open>Keys and accounts\<close>

lemma buildLockoutKey_cases: "buildLockoutKey a m = a \<or> (\<exists>s. m = Some s \<and> buildLockoutKey a m = a @ CHR '':'' # s)"
  by (cases m) (auto simp: buildLockoutKey_def model_nonblank_def)

lemma append_sep_inj:
  assumes "c \<notin> set a" "c \<notin> set b" "a @ c # s = b @ c # t"
  shows "a = b"
proof -
  have "takeWhile (\<lambda>x. x \<noteq> c) (u @ c # v) = u" if "c \<notin> set u" for u v
    using that by (induction u) auto
  with assms show ?thesis by metis
qed

lemma buildLockoutKey_account:
  assumes "CHR '':'' \<notin> set a" "CHR '':'' \<notin> set b" "buildLockoutKey a m = buildLockoutKey b n"
  shows "a = b"
  using assms buildLockoutKey_cases [of a m] buildLockoutKey_cases [of b n]
  by (metis append_sep_inj in_set_conv_decomp)

lemma track_other_account:
  assumes tr: "trackFromUpstreamError dp now p t = Inr (r, t')"
    and a: "CHR '':'' \<notin> set (up_accountId p)" and b: "CHR '':'' \<notin> set b" and ne: "b \<noteq> up_accountId p"
  shows "map_of (failureCounts t') b = map_of (failureCounts t) b"
    and "map_of (lockoutByKey t') (buildLockoutKey b m) = map_of (lockoutByKey t) (buildLockoutKey b m)"
proof -
  let ?b = "buildLockoutKey b m"
  have k1: "?b \<noteq> buildLockoutKey (up_accountId p) n" for n
    using buildLockoutKey_account [OF b a] ne by blast
  from k1 [of None] have k2: "?b \<noteq> up_accountId p"
    by (simp add: buildLockoutKey_def model_nonblank_def)
  have "map_of (failureCounts t') b = map_of (failureCounts t) b \<and>
      map_of (lockoutByKey t') ?b = map_of (lockoutByKey t) ?b"
  proof (cases r)
    case None
    with tr show ?thesis
      by (auto simp: trackFromUpstreamError_def Let_def split: sum.splits prod.splits if_split_asm)
  next
    case (Some info)
    from tr show ?thesis unfolding Some
    proof (rule trackFromUpstreamError_SomeE)
      fix reason sec t1
      assume c: "computeRetryAfterSeconds dp now reason
          (case up_status p of None \<Rightarrow> 0 | Some s \<Rightarrow> s) p t = Inr (sec, t1)"
        and t': "t' = t1\<lparr>lockoutByKey := AList.update
          (if reason = QuotaExhausted \<and> str_truthy (up_model p)
           then buildLockoutKey (up_accountId p) (up_model p) else up_accountId p) info (lockoutByKey t1)\<rparr>"
      from computeRetryAfterSeconds_frame(1,2) [OF c] ne k1 k2 show ?thesis
        unfolding t' by (simp add: js_map.get_put)
    qed
  qed
  then show "map_of (failureCounts t') b = map_of (failureCounts t) b"
    and "map_of (lockoutByKey t') ?b = map_of (lockoutByKey t) ?b" by auto
qed

lemma wait_cong:
  assumes "\<And>n. map_of (lockoutByKey t') (buildLockoutKey a n) = map_of (lockoutByKey t) (buildLockoutKey a n)"
  shows "getRemainingWaitSeconds now t' a m = getRemainingWaitSeconds now t a m"
proof -
  have "map_of (lockoutByKey t') a = map_of (lockoutByKey t) a"
    using assms [of None] by (simp add: buildLockoutKey_def model_nonblank_def)
  with assms [of m] show ?thesis unfolding getRemainingWaitSeconds_def by (simp only:)
qed

subsection \<open>Back-off\<close>

text \<open>The same error reported at each of the given times.\<close>

fun track_repeatedly ::
  "(string \<Rightarrow> js_number) \<Rightarrow> upstream_params \<Rightarrow> rat list \<Rightarrow> tracker \<Rightarrow> js_error + js_number list \<times> tracker" where
  "track_repeatedly dp p [] t = Inr ([], t)"
| "track_repeatedly dp p (now # ts) t =
     (case trackFromUpstreamError dp now p t of
        Inl e \<Rightarrow> Inl e
      | Inr (r, t') \<Rightarrow>
          (case track_repeatedly dp p ts t' of
             Inl e \<Rightarrow> Inl e
           | Inr (ws, t'') \<Rightarrow> Inr ((case r of None \<Rightarrow> [] | Some i \<Rightarrow> [retryAfterSec i]) @ ws, t'')))"

definition unhinted_quota_error :: "upstream_params \<Rightarrow> bool" where
  "unhinted_quota_error p \<longleftrightarrow>
     (\<exists>st. up_status p = Some st \<and> st \<in> set tracked_statuses \<and>
        detectRateLimitReason st (up_body p) = Inr QuotaExhausted) \<and>
     up_retryAfter p = None \<and> parseRetryAfterSecondsFromBody (up_body p) = Inr None"

lemma track_quota_step:
  assumes "unhinted_quota_error p" "incrementFailureCount now (up_accountId p) t = (n, t1)"
  obtains info key where
    "trackFromUpstreamError dp now p t =
       Inr (Some info, t1\<lparr>lockoutByKey := AList.update key info (lockoutByKey t1)\<rparr>)"
    "retryAfterSec info = Fin (backoff_step (up_backoffSteps p) n)"
proof -
  from assms(1) obtain st where p: "up_status p = Some st" "st \<in> set tracked_statuses"
    "detectRateLimitReason st (up_body p) = Inr QuotaExhausted" "up_retryAfter p = None"
    "parseRetryAfterSecondsFromBody (up_body p) = Inr None"
    by (auto simp: unhinted_quota_error_def)
  have c: "computeRetryAfterSeconds dp now QuotaExhausted st p t =
      Inr (Fin (backoff_step (up_backoffSteps p) n), t1)"
    by (simp add: computeRetryAfterSeconds_def header_retry_def p assms(2) fallback_retry_def)
  let ?info = "\<lparr>resetTimeMs = num_add (Fin now) (num_scale 1000 (Fin (backoff_step (up_backoffSteps p) n))),
    retryAfterSec = Fin (backoff_step (up_backoffSteps p) n),
    li_reason = QuotaExhausted, li_model = up_model p\<rparr>"
  show thesis
    by (rule that [of ?info "if str_truthy (up_model p) then buildLockoutKey (up_accountId p) (up_model p)
         else up_accountId p"])
       (simp_all add: trackFromUpstreamError_def Let_def p c)
qed

lemma track_repeatedly_quota:
  assumes "unhinted_quota_error p"
    and "successively (\<lambda>a b. b - a \<le> FAILURE_COUNT_EXPIRY_MS) (last_ms # ts)"
    and "map_of (failureCounts t) (up_accountId p) = Some \<lparr>fc_count = n, lastFailureMs = last_ms\<rparr>"
  shows "\<exists>t'. track_repeatedly dp p ts t =
    Inr (map (\<lambda>i. Fin (backoff_step (up_backoffSteps p) (n + Suc i))) [0..<length ts], t')"
  using assms(2,3)
proof (induction ts arbitrary: t n last_ms)
  case Nil
  show ?case by simp
next
  case (Cons now ts)
  obtain t1 where inc: "incrementFailureCount now (up_accountId p) t = (Suc n, t1)"
    using Cons.prems by (auto simp: incrementFailureCount_def Let_def)
  from assms(1) inc obtain info key where
    tr: "trackFromUpstreamError dp now p t =
       Inr (Some info, t1\<lparr>lockoutByKey := AList.update key info (lockoutByKey t1)\<rparr>)"
    and w: "retryAfterSec info = Fin (backoff_step (up_backoffSteps p) (Suc n))"
    by (rule track_quota_step)
  from Cons.prems(1) have "successively (\<lambda>a b. b - a \<le> FAILURE_COUNT_EXPIRY_MS) (now # ts)"
    by (cases ts) auto
  from Cons.IH [OF this, of "t1\<lparr>lockoutByKey := AList.update key info (lockoutByKey t1)\<rparr>" "Suc n"]
    incrementFailureCount_frame(2) [OF inc]
  obtain t'' where "track_repeatedly dp p ts (t1\<lparr>lockoutByKey := AList.update key info (lockoutByKey t1)\<rparr>) =
      Inr (map (\<lambda>i. Fin (backoff_step (up_backoffSteps p) (Suc n + Suc i))) [0..<length ts], t'')"
    by auto
  moreover have "[0..<length (now # ts)] = 0 # map Suc [0..<length ts]"
    by (simp add: upt_conv_Cons map_Suc_upt del: upt_Suc)
  ultimately show ?case by (simp add: tr w del: upt_Suc)
qed

subsection \<open>The interface the scheduler relies on\<close>

text \<open>What a scheduler may assume of a rate limiter: time only opens an account, and cleaning up
  cannot be observed later.\<close>

locale rate_limiter =
  fixes limited :: "rat \<Rightarrow> 't \<Rightarrow> string \<Rightarrow> string option \<Rightarrow> bool"
    and clean :: "rat \<Rightarrow> 't \<Rightarrow> 't"
    and ok :: "'t \<Rightarrow> bool"
  assumes limited_antimono: "now \<le> later \<Longrightarrow> limited later t a m \<Longrightarrow> limited now t a m"
    and limited_clean: "ok t \<Longrightarrow> now \<le> later \<Longrightarrow> limited later (clean now t) a m = limited later t a m"
    and ok_clean: "ok t \<Longrightarrow> ok (clean now t)"
begin

lemma open_stays_open: "now \<le> later \<Longrightarrow> \<not> limited now t a m \<Longrightarrow> \<not> limited later t a m"
  using limited_antimono by blast

lemma open_accounts_grow:
  "now \<le> later \<Longrightarrow> a \<in> set (filter (\<lambda>a. \<not> limited now t a m) as) \<Longrightarrow>
   a \<in> set (filter (\<lambda>a. \<not> limited later t a m) as)"
  using open_stays_open by auto

lemma open_accounts_clean:
  "ok t \<Longrightarrow> now \<le> later \<Longrightarrow>
   filter (\<lambda>a. \<not> limited later (clean now t) a m) as = filter (\<lambda>a. \<not> limited later t a m) as"
  by (simp add: limited_clean)

end

interpretation rl: rate_limiter tracker_isRateLimited "\<lambda>now t. snd (cleanupExpired now t)" tracker_ok
proof unfold_locales
  fix now later :: rat and t a m
  assume le: "now \<le> later"
  have w: "wait_of now l = None \<Longrightarrow> wait_of later l = None" for l
    using num_gt_trans_ge [OF _ le] by (cases l) (auto simp: wait_of_None_iff wait_of_def split: if_splits)
  then show "tracker_isRateLimited later t a m \<Longrightarrow> tracker_isRateLimited now t a m"
    by (auto simp: limited_iff)
  assume "tracker_ok t"
  with le show "tracker_isRateLimited later (snd (cleanupExpired now t)) a m = tracker_isRateLimited later t a m"
    by (simp add: tracker_isRateLimited_def cleanup_invisible)
next
  fix t now
  assume "tracker_ok t"
  then show "tracker_ok (snd (cleanupExpired now t))" by (rule tracker_ok_ops(5))
qed

subsection \<open>Properties of the tracker\<close>

text \<open>Once an upstream error has been recorded with a usable wait, the account is rate limited for
  the model of the request, at that instant and at every later instant before the recorded reset
  time, whichever of the two lockout keys was used.\<close>

theorem tracked_error_limits:
  assumes "trackFromUpstreamError dp now p t = Inr (Some info, t')"
    and "\<forall>b\<in>set (up_backoffSteps p). 0 < b"
    and "retryAfterSec info \<noteq> NaN"
    and "now' = now \<or> num_gt (resetTimeMs info) (Fin now')"
  shows "tracker_isRateLimited now' t' (up_accountId p) (up_model p)"
  using assms track_locks [OF assms(1-3)] by blast

theorem tracked_error_limits_witness:
  "\<exists>info t'. trackFromUpstreamError (\<lambda>_. NaN) 1000
       \<lparr>up_accountId = ''a'', up_status = Some 429, up_retryAfter = Some ''30'', up_body = None,
         up_model = Some ''m'', up_backoffSteps = [60]\<rparr> new_tracker = Inr (Some info, t') \<and>
     tracker_isRateLimited 20000 t' ''a'' (Some ''m'')"
proof -
  let ?p = "\<lparr>up_accountId = ''a'', up_status = Some 429, up_retryAfter = Some ''30'', up_body = None,
         up_model = Some ''m'', up_backoffSteps = [60]\<rparr>"
  let ?i = "\<lparr>resetTimeMs = Fin 31000, retryAfterSec = Fin 30, li_reason = Unknown, li_model = Some ''m''\<rparr>"
  have tr: "trackFromUpstreamError (\<lambda>_. NaN) 1000 ?p new_tracker =
      Inr (Some ?i, \<lparr>lockoutByKey = [(''a'', ?i)], failureCounts = []\<rparr>)"
    by code_simp
  show ?thesis
    using tr tracked_error_limits [OF tr, of 20000] by simp
qed

text \<open>An error recorded for one account changes nothing another account can observe: neither its
  remaining waits, for any model at any time, nor its failure count. Account ids are assumed to
  contain no colon, the character that separates account and model in a lockout key.\<close>

theorem tracking_is_isolated:
  assumes "trackFromUpstreamError dp now p t = Inr (r, t')"
    and "CHR '':'' \<notin> set (up_accountId p)" "CHR '':'' \<notin> set b" "b \<noteq> up_accountId p"
  shows "getRemainingWaitSeconds now' t' b m = getRemainingWaitSeconds now' t b m \<and>
    map_of (failureCounts t') b = map_of (failureCounts t) b"
  using wait_cong [of t' b t] track_other_account [OF assms] by blast

theorem tracking_is_isolated_witness:
  "\<exists>r t'. trackFromUpstreamError (\<lambda>_. NaN) 1000
       \<lparr>up_accountId = ''a'', up_status = Some 503, up_retryAfter = None, up_body = None,
         up_model = None, up_backoffSteps = []\<rparr> new_tracker = Inr (r, t') \<and>
     getRemainingWaitSeconds 2000 t' ''b'' None = getRemainingWaitSeconds 2000 new_tracker ''b'' None"
proof -
  let ?p = "\<lparr>up_accountId = ''a'', up_status = Some 503, up_retryAfter = None, up_body = None,
         up_model = None, up_backoffSteps = []\<rparr>"
  let ?i = "\<lparr>resetTimeMs = Fin 9000, retryAfterSec = Fin 8, li_reason = ServerError, li_model = None\<rparr>"
  have tr: "trackFromUpstreamError (\<lambda>_. NaN) 1000 ?p new_tracker =
      Inr (Some ?i, \<lparr>lockoutByKey = [(''a'', ?i)], failureCounts = []\<rparr>)"
    by code_simp
  show ?thesis
    using tr tracking_is_isolated [OF tr, of "''b''" 2000 None] by simp
qed

text \<open>An account without a recorded failure that reports n quota errors in a row, none carrying a
  hint and each within an hour of the one before, is told to wait the configured back-off steps
  one after the other, and the last step from then on.\<close>

theorem quota_backoff_progression:
  assumes "unhinted_quota_error p"
    and "map_of (failureCounts t) (up_accountId p) = None"
    and "successively (\<lambda>a b. b - a \<le> FAILURE_COUNT_EXPIRY_MS) ts"
  shows "\<exists>t'. track_repeatedly dp p ts t =
    Inr (map (\<lambda>i. Fin (backoff_step (up_backoffSteps p) (Suc i))) [0..<length ts], t')"
proof (cases ts)
  case Nil
  then show ?thesis by simp
next
  case (Cons now ts')
  obtain t1 where inc: "incrementFailureCount now (up_accountId p) t = (Suc 0, t1)"
    using assms(2) by (auto simp: incrementFailureCount_def Let_def)
  from assms(1) inc obtain info key where
    tr: "trackFromUpstreamError dp now p t =
       Inr (Some info, t1\<lparr>lockoutByKey := AList.update key info (lockoutByKey t1)\<rparr>)"
    and w: "retryAfterSec info = Fin (backoff_step (up_backoffSteps p) (Suc 0))"
    by (rule track_quota_step)
  let ?t = "t1\<lparr>lockoutByKey := AList.update key info (lockoutByKey t1)\<rparr>"
  obtain t'' where "track_repeatedly dp p ts' ?t =
      Inr (map (\<lambda>i. Fin (backoff_step (up_backoffSteps p) (Suc 0 + Suc i))) [0..<length ts'], t'')"
    using track_repeatedly_quota [OF assms(1) assms(3) [unfolded Cons], of ?t "Suc 0" dp]
      incrementFailureCount_frame(2) [OF inc] by auto
  moreover have "[0..<length ts] = 0 # map Suc [0..<length ts']"
    by (simp add: Cons upt_conv_Cons map_Suc_upt del: upt_Suc)
  ultimately show ?thesis by (simp add: Cons tr w del: upt_Suc)
qed

theorem quota_backoff_progression_witness:
  "\<exists>t'. track_repeatedly (\<lambda>_. NaN)
       \<lparr>up_accountId = ''a'', up_status = Some 429, up_retryAfter = None, up_body = Some ''quota'',
         up_model = None, up_backoffSteps = [60, 300]\<rparr> [0, 1000, 2000] new_tracker =
     Inr ([Fin 60, Fin 300, Fin 300], t')"
proof -
  let ?p = "\<lparr>up_accountId = ''a'', up_status = Some 429, up_retryAfter = None, up_body = Some ''quota'',
         up_model = None, up_backoffSteps = [60, 300]\<rparr>"
  have "detectRateLimitReason 429 (Some ''quota'') = Inr QuotaExhausted" by code_simp
  moreover have "parseRetryAfterSecondsFromBody (Some ''quota'') = Inr None" by code_simp
  ultimately have "unhinted_quota_error ?p"
    by (simp add: unhinted_quota_error_def tracked_statuses_def)
  from quota_backoff_progression [OF this, of new_tracker "[0, 1000, 2000]" "\<lambda>_. NaN"]
  show ?thesis
    by (simp add: new_tracker_def FAILURE_COUNT_EXPIRY_MS_def backoff_step_def upt_rec)
qed

text \<open>Removing the expired lockouts at time \<open>now\<close> cannot be observed by any later query, removes no
  more than it reports, and leaves a well-formed tracker.\<close>

theorem cleanup_is_invisible:
  assumes "tracker_ok t" "now \<le> now'"
  shows "getRemainingWaitSeconds now' (snd (cleanupExpired now t)) a m = getRemainingWaitSeconds now' t a m \<and>
    fst (cleanupExpired now t) + length (lockoutByKey (snd (cleanupExpired now t))) =
      length (lockoutByKey t) \<and>
    tracker_ok (snd (cleanupExpired now t))"
  using cleanup_invisible [OF assms] cleanup_count tracker_ok_ops(5) [OF assms(1)] by blast

theorem cleanup_is_invisible_witness:
  "getRemainingWaitSeconds 9000
     (snd (cleanupExpired 9000 (setLockoutUntil 0 ''a'' (Fin 5000) ServerError None new_tracker))) ''a'' None =
   getRemainingWaitSeconds 9000 (setLockoutUntil 0 ''a'' (Fin 5000) ServerError None new_tracker) ''a'' None"
  by (rule conjunct1 [OF cleanup_is_invisible [OF tracker_ok_ops(1) [OF tracker_ok_new] order_refl]])

definition nan_hint_error :: upstream_params where
  "nan_hint_error = \<lparr>up_accountId = ''a'', up_status = Some 429, up_retryAfter = None,
     up_body = Some (CHR 0x7B # CHR 0x22 # ''seconds'' @ CHR 0x22 # '':5,'' @ CHR 0x22 # ''nanos'' @
       CHR 0x22 # CHR '':'' # CHR 0x22 # ''x'' @ [CHR 0x22, CHR 0x7D]),
     up_model = None, up_backoffSteps = []\<rparr>"

text \<open>A structured retry hint whose nanoseconds are not a number produces a NaN wait: the error is
  recorded, yet the account is not rate limited at any time, and no clean-up ever removes the
  entry.\<close>

theorem nan_hint_is_no_lock:
  "\<exists>info t'. trackFromUpstreamError dp 1000 nan_hint_error new_tracker = Inr (Some info, t') \<and>
     retryAfterSec info = NaN \<and>
     (\<forall>now. \<not> tracker_isRateLimited now t' ''a'' None \<and> cleanupExpired now t' = (0, t'))"
proof -
  let ?i = "\<lparr>resetTimeMs = NaN, retryAfterSec = NaN, li_reason = Unknown, li_model = None\<rparr>"
  have "trackFromUpstreamError dp 1000 nan_hint_error new_tracker =
      Inr (Some ?i, \<lparr>lockoutByKey = [(''a'', ?i)], failureCounts = []\<rparr>)"
    by code_simp
  then show ?thesis
    by (simp add: limited_iff wait_of_def cleanupExpired_def map_select_def lock_expired_def)
qed

end
