(* ===== verification/ModelMapping.thy ===== *)
theory ModelMapping
  imports RateLimit "HOL-Library.Char_ord" "HOL-Library.List_Lexorder"
begin

section \<open>Model names: aliases, routing and limits\<close>

text \<open>
  Model of \<open>src/modules/proxy-gateway/antigravity/ModelMapping.ts\<close>, \<open>ModelSpecs.ts\<close> and
  \<open>model-specs.ts\<close>. The tables are the sources' object literals in their order. A lookup
  \<open>table[name]\<close> is a lookup among the table's own keys: names of members that every
  JavaScript object inherits (\<open>constructor\<close>, \<open>toString\<close>, \<dots>) are outside the model. The
  module-wide \<open>Map\<close> of dynamic forwarding rules is passed as an argument and returned
  updated. Strings are ordered by their code units, as \<open>Array.prototype.sort\<close> orders them.
\<close>

definition PUBLIC_SUPPORTED_MODELS :: "string list" where
  "PUBLIC_SUPPORTED_MODELS =
     [''gemini-3.1-pro-low'', ''gemini-3-flash'', ''claude-sonnet-4-6'',
      ''claude-sonnet-4-6-thinking'', ''claude-opus-4-6-thinking'']"

definition CLAUDE_TO_GEMINI :: "string js_map" where
  "CLAUDE_TO_GEMINI =
     [(''claude-sonnet-4-6-thinking'', ''claude-sonnet-4-6-thinking''),
      (''claude-opus-4-6-thinking'', ''claude-opus-4-6-thinking''),
      (''gemini-3.1-pro-low'', ''gemini-3.1-pro-low''),
      (''gemini-3.1-pro-high'', ''gemini-3.1-pro-low''),
      (''gemini-3-flash'', ''gemini-3-flash''),
      (''claude-sonnet-4-6'', ''claude-sonnet-4-6''),
      (''claude-sonnet-4-6-20260219'', ''claude-sonnet-4-6''),
      (''claude-sonnet-4-5'', ''claude-sonnet-4-6-thinking''),
      (''claude-sonnet-4-5-thinking'', ''claude-sonnet-4-6-thinking''),
      (''claude-sonnet-4-5-20250929'', ''claude-sonnet-4-6-thinking''),
      (''claude-3-5-sonnet-20241022'', ''claude-sonnet-4-6-thinking''),
      (''claude-3-5-sonnet-20240620'', ''claude-sonnet-4-6-thinking''),
      (''claude-opus-4'', ''claude-opus-4-6-thinking''),
      (''claude-opus-4-5-thinking'', ''claude-opus-4-6-thinking''),
      (''claude-opus-4-5-20251101'', ''claude-opus-4-6-thinking''),
      (''claude-opus-4-6'', ''claude-opus-4-6-thinking''),
      (''claude-opus-4-6-20260201'', ''claude-opus-4-6-thinking''),
      (''claude-haiku-4'', ''claude-sonnet-4-6-thinking''),
      (''claude-3-haiku-20240307'', ''claude-sonnet-4-6-thinking''),
      (''claude-haiku-4-5-20251001'', ''claude-sonnet-4-6-thinking''),
      (''gpt-4'', ''gemini-3-flash''),
      (''gpt-4-turbo'', ''gemini-3-flash''),
      (''gpt-4-turbo-preview'', ''gemini-3-flash''),
      (''gpt-4-0125-preview'', ''gemini-3-flash''),
      (''gpt-4-1106-preview'', ''gemini-3-flash''),
      (''gpt-4-0613'', ''gemini-3-flash''),
      (''gpt-4o'', ''gemini-3-flash''),
      (''gpt-4o-2024-05-13'', ''gemini-3-flash''),
      (''gpt-4o-2024-08-06'', ''gemini-3-flash''),
      (''gpt-4o-mini'', ''gemini-3-flash''),
      (''gpt-4o-mini-2024-07-18'', ''gemini-3-flash''),
      (''gpt-3.5-turbo'', ''gemini-3-flash''),
      (''gpt-3.5-turbo-16k'', ''gemini-3-flash''),
      (''gpt-3.5-turbo-0125'', ''gemini-3-flash''),
      (''gpt-3.5-turbo-1106'', ''gemini-3-flash''),
      (''gpt-3.5-turbo-0613'', ''gemini-3-flash''),
      (''gemini-2.5-flash-lite'', ''gemini-3-flash''),
      (''gemini-3.1-pro-preview'', ''gemini-3.1-pro-low''),
      (''gemini-3.1-pro'', ''gemini-3.1-pro-low''),
      (''gemini-3.0-pro'', ''gemini-3.1-pro-low''),
      (''gemini-3-pro'', ''gemini-3-pro-preview''),
      (''gemini-3-pro-preview'', ''gemini-3-pro-preview''),
      (''gemini-3-pro-low'', ''gemini-3-pro-low''),
      (''gemini-3-pro-high'', ''gemini-3-pro-high''),
      (''gemini-2.5-flash'', ''gemini-3-flash''),
      (''gemini-2.5-pro'', ''gemini-3.1-pro-low''),
      (''gemini-2.0-flash'', ''gemini-3-flash''),
      (''gemini-2.0-flash-online'', ''gemini-3-flash''),
      (''gemini-3-pro-image'', ''gemini-3-pro-image''),
      (''internal-background-task'', ''gemini-3-flash'')]"

definition GEMINI_MODEL_ALIASES :: "string js_map" where
  "GEMINI_MODEL_ALIASES =
     [(''gemini-3-pro-image-preview'', ''gemini-3-pro-image''),
      (''gemini-3-flash-preview'', ''gemini-3-flash''),
      (''gemini-3.1-pro-preview'', ''gemini-3.1-pro-low''),
      (''gemini-3.1-pro'', ''gemini-3.1-pro-low'')]"

definition DYNAMIC_IMAGE_BASE_MODEL :: string where
  "DYNAMIC_IMAGE_BASE_MODEL = ''gemini-3-pro-image''"

definition DYNAMIC_IMAGE_RESOLUTIONS :: "string list" where
  "DYNAMIC_IMAGE_RESOLUTIONS = [[], ''-2k'', ''-4k'']"

definition DYNAMIC_IMAGE_RATIOS :: "string list" where
  "DYNAMIC_IMAGE_RATIOS = [[], ''-1x1'', ''-4x3'', ''-3x4'', ''-16x9'', ''-9x16'', ''-21x9'']"

definition EXTRA_DYNAMIC_MODELS :: "string list" where
  "EXTRA_DYNAMIC_MODELS = [''gemini-3-flash'', ''gemini-3.1-pro-low'']"

definition getSupportedModels :: "string list" where
  "getSupportedModels = PUBLIC_SUPPORTED_MODELS"

subsection \<open>Dynamic forwarding rules\<close>

definition updateDynamicForwardingRules :: "string \<Rightarrow> string \<Rightarrow> string js_map \<Rightarrow> string js_map" where
  "updateDynamicForwardingRules oldModel newModel rules =
     (let normalizedOld = js_trim oldModel; normalizedNew = js_trim newModel
      in if normalizedOld = [] \<or> normalizedNew = [] then rules
         else AList.update normalizedOld normalizedNew rules)"

definition getDynamicForwardingTarget :: "string js_map \<Rightarrow> string \<Rightarrow> string option" where
  "getDynamicForwardingTarget rules modelId = map_of rules modelId"

subsection \<open>The model list\<close>

definition dot_end_dash :: "string \<Rightarrow> bool" where
  "dot_end_dash r \<longleftrightarrow> r = [] \<or> hd r = CHR ''.'' \<or> hd r = CHR ''-''"

definition end_or_dash :: "string \<Rightarrow> bool" where
  "end_or_dash r \<longleftrightarrow> r = [] \<or> hd r = CHR ''-''"

definition after :: "string \<Rightarrow> string \<Rightarrow> (string \<Rightarrow> bool) \<Rightarrow> bool" where
  "after p s P \<longleftrightarrow> starts_with s p \<and> P (drop (length p) s)"

definition shouldHideDeprecatedModelFromList :: "string \<Rightarrow> bool" where
  "shouldHideDeprecatedModelFromList modelId =
     (let normalized = js_lower modelId
      in if after ''gemini-1'' normalized dot_end_dash \<or> after ''gemini-2'' normalized dot_end_dash
         then True
         else if normalized = ''gemini-3.1-pro'' \<or> normalized = ''gemini-3.1-pro-preview'' then True
         else if (after ''gemini-3-pro'' normalized end_or_dash \<or>
                  after ''gemini-3.0-pro'' normalized end_or_dash) \<and>
                 \<not> starts_with normalized ''gemini-3-pro-image'' then True
         else str_contains normalized ''claude-sonnet-4-5'' \<or>
              str_contains normalized ''claude-opus-4-5'' \<or>
              str_contains normalized ''claude-haiku-4-5'')"

definition set_add :: "'a \<Rightarrow> 'a list \<Rightarrow> 'a list" where
  "set_add x s = (if x \<in> set s then s else s @ [x])"

definition image_model_ids :: "string list" where
  "image_model_ids =
     concat (map (\<lambda>resolution. map (\<lambda>ratio. DYNAMIC_IMAGE_BASE_MODEL @ resolution @ ratio)
       DYNAMIC_IMAGE_RATIOS) DYNAMIC_IMAGE_RESOLUTIONS)"

definition getAllDynamicModels :: "string js_map \<Rightarrow> string list option \<Rightarrow> string list" where
  "getAllDynamicModels customMapping dynamicModelIds =
     (let s1 = fold set_add getSupportedModels [];
          s2 = fold set_add (map fst customMapping) s1;
          s3 = fold set_add image_model_ids s2;
          s4 = fold set_add EXTRA_DYNAMIC_MODELS s3;
          s5 = (case dynamicModelIds of
              None \<Rightarrow> s4
            | Some ids \<Rightarrow> fold (\<lambda>i s. if js_trim i \<noteq> [] then set_add (js_trim i) s else s) ids s4)
      in sort (filter (\<lambda>i. \<not> shouldHideDeprecatedModelFromList i) s5))"

subsection \<open>Routing\<close>

text \<open>\<open>if (table[k]) return table[k]\<close>: the empty string is falsy.\<close>

definition truthy_lookup :: "string js_map \<Rightarrow> string \<Rightarrow> string option" where
  "truthy_lookup m k = (case map_of m k of None \<Rightarrow> None | Some v \<Rightarrow> if v = [] then None else Some v)"

definition mapClaudeModelToGemini :: "string \<Rightarrow> string" where
  "mapClaudeModelToGemini input =
     (if input = [] then []
      else (case truthy_lookup CLAUDE_TO_GEMINI input of Some v \<Rightarrow> v | None \<Rightarrow> input))"

definition normalizeGeminiModelAlias :: "string \<Rightarrow> string" where
  "normalizeGeminiModelAlias modelId =
     (case map_of GEMINI_MODEL_ALIASES (js_lower (js_trim modelId)) of Some v \<Rightarrow> v | None \<Rightarrow> modelId)"

definition is_gpt4_series :: "string \<Rightarrow> bool" where
  "is_gpt4_series lowerModel \<longleftrightarrow>
     (starts_with lowerModel ''gpt-4'' \<and> \<not> str_contains lowerModel ''o'' \<and>
      \<not> str_contains lowerModel ''mini'' \<and> \<not> str_contains lowerModel ''turbo'') \<or>
     starts_with lowerModel ''o1-'' \<or> starts_with lowerModel ''o3-'' \<or> lowerModel = ''gpt-4''"

definition is_gpt4o_series :: "string \<Rightarrow> bool" where
  "is_gpt4o_series lowerModel \<longleftrightarrow>
     str_contains lowerModel ''4o'' \<or> starts_with lowerModel ''gpt-3.5'' \<or>
     (str_contains lowerModel ''mini'' \<and> \<not> str_contains lowerModel ''gemini'') \<or>
     str_contains lowerModel ''turbo''"

definition anthropic_family_key :: "string \<Rightarrow> string" where
  "anthropic_family_key lowerModel =
     (if str_contains lowerModel ''4-5'' \<or> str_contains lowerModel ''4.5'' then ''claude-4.5-series''
      else if str_contains lowerModel ''3-5'' \<or> str_contains lowerModel ''3.5'' then ''claude-3.5-series''
      else ''claude-default'')"

definition resolveModelRoute ::
  "string js_map \<Rightarrow> string \<Rightarrow> string js_map \<Rightarrow> string js_map \<Rightarrow> string js_map \<Rightarrow> string" where
  "resolveModelRoute rules originalModel customMapping openaiMapping anthropicMapping =
     (let dynamicForwarded = getDynamicForwardingTarget rules originalModel;
          lowerModel = js_lower originalModel;
          anthropic = (if starts_with lowerModel ''claude-'' then
              (case truthy_lookup anthropicMapping (anthropic_family_key lowerModel) of
                 Some v \<Rightarrow> Some v
               | None \<Rightarrow> truthy_lookup anthropicMapping originalModel)
            else None);
          system = (case anthropic of Some v \<Rightarrow> v | None \<Rightarrow> mapClaudeModelToGemini originalModel);
          gpt5 = (if starts_with lowerModel ''gpt-5'' then
              (case truthy_lookup openaiMapping ''gpt-5-series'' of
                 Some v \<Rightarrow> v
               | None \<Rightarrow> (case truthy_lookup openaiMapping ''gpt-4-series'' of Some v \<Rightarrow> v | None \<Rightarrow> system))
            else system);
          gpt4o = (case (if is_gpt4o_series lowerModel then truthy_lookup openaiMapping ''gpt-4o-series'' else None) of
              Some v \<Rightarrow> v | None \<Rightarrow> gpt5);
          gpt4 = (case (if is_gpt4_series lowerModel then truthy_lookup openaiMapping ''gpt-4-series'' else None) of
              Some v \<Rightarrow> v | None \<Rightarrow> gpt4o)
      in if str_truthy dynamicForwarded \<and> the dynamicForwarded \<in> set getSupportedModels
         then the dynamicForwarded
         else (case truthy_lookup customMapping originalModel of Some v \<Rightarrow> v | None \<Rightarrow> gpt4))"

subsection \<open>Limits per model\<close>

record model_spec =
  max_output_tokens :: "rat option"
  thinking_budget :: "rat option"
  is_thinking :: "bool option"

definition SPECS_models :: "model_spec js_map" where
  "SPECS_models =
     [(''gemini-3-flash'', \<lparr>max_output_tokens = Some 65536, thinking_budget = Some 32768, is_thinking = Some True\<rparr>),
      (''gemini-3.1-pro-low'', \<lparr>max_output_tokens = Some 65536, thinking_budget = Some 32768, is_thinking = Some True\<rparr>),
      (''gemini-3.1-pro-high'', \<lparr>max_output_tokens = Some 65536, thinking_budget = Some 49152, is_thinking = Some True\<rparr>),
      (''gemini-3-pro-image'', \<lparr>max_output_tokens = Some 65536, thinking_budget = Some 24576, is_thinking = Some True\<rparr>),
      (''claude-sonnet-4-6-thinking'', \<lparr>max_output_tokens = Some 64000, thinking_budget = Some 32768, is_thinking = Some True\<rparr>),
      (''claude-opus-4-6-thinking'', \<lparr>max_output_tokens = Some 64000, thinking_budget = Some 32768, is_thinking = Some True\<rparr>),
      (''gpt-oss-120b-medium'', \<lparr>max_output_tokens = Some 32768, thinking_budget = Some 0, is_thinking = Some False\<rparr>)]"

definition SPECS_aliases :: "string js_map" where
  "SPECS_aliases =
     [(''gpt-4o'', ''gemini-3-flash''),
      (''gpt-3.5-turbo'', ''gemini-3-flash''),
      (''gemini-2.0-flash'', ''gemini-3-flash''),
      (''gemini-2.5-flash'', ''gemini-3-flash''),
      (''gemini-3.1-pro'', ''gemini-3.1-pro-low''),
      (''gemini-3.1-pro-preview'', ''gemini-3.1-pro-low''),
      (''claude-sonnet-4-6'', ''claude-sonnet-4-6-thinking''),
      (''claude-sonnet-4-5'', ''claude-sonnet-4-6-thinking''),
      (''claude-3-5-sonnet'', ''claude-sonnet-4-6-thinking''),
      (''claude-3-7-sonnet'', ''claude-sonnet-4-6-thinking''),
      (''claude-opus-4-5-thinking'', ''claude-opus-4-6-thinking'')]"

definition DEFAULT_MAX_OUTPUT_TOKENS :: rat where
  "DEFAULT_MAX_OUTPUT_TOKENS = 65535"

definition DEFAULT_THINKING_BUDGET :: rat where
  "DEFAULT_THINKING_BUDGET = 24576"

definition resolveModelAlias :: "string \<Rightarrow> string" where
  "resolveModelAlias modelId =
     (let normalized = js_trim modelId
      in case map_of SPECS_aliases normalized of Some v \<Rightarrow> v | None \<Rightarrow> normalized)"

definition getMaxOutputTokens :: "string \<Rightarrow> rat" where
  "getMaxOutputTokens modelId =
     (case Option.bind (map_of SPECS_models (resolveModelAlias modelId)) max_output_tokens of
        Some q \<Rightarrow> if q > 0 then of_int \<lfloor>q\<rfloor> else DEFAULT_MAX_OUTPUT_TOKENS
      | None \<Rightarrow> DEFAULT_MAX_OUTPUT_TOKENS)"

definition getThinkingBudget :: "string \<Rightarrow> rat" where
  "getThinkingBudget modelId =
     (case Option.bind (map_of SPECS_models (resolveModelAlias modelId)) thinking_budget of
        Some q \<Rightarrow> if q \<ge> 0 then of_int \<lfloor>q\<rfloor> else DEFAULT_THINKING_BUDGET
      | None \<Rightarrow> DEFAULT_THINKING_BUDGET)"

subsection \<open>Properties\<close>

lemma set_add_set [simp]: "set (set_add x s) = insert x (set s)"
  by (auto simp: set_add_def)

lemma set_add_distinct [simp]: "distinct s \<Longrightarrow> distinct (set_add x s)"
  by (simp add: set_add_def)

lemma fold_set_add [simp]:
  "set (fold set_add xs s) = set xs \<union> set s"
  "distinct s \<Longrightarrow> distinct (fold set_add xs s)"
  by (induction xs arbitrary: s) auto

lemma fold_set_add_trim [simp]:
  "set (fold (\<lambda>i s. if js_trim i \<noteq> [] then set_add (js_trim i) s else s) xs s) =
     {js_trim i | i. i \<in> set xs \<and> js_trim i \<noteq> []} \<union> set s"
  "distinct s \<Longrightarrow> distinct (fold (\<lambda>i s. if js_trim i \<noteq> [] then set_add (js_trim i) s else s) xs s)"
  by (induction xs arbitrary: s) auto

lemma map_of_list_all: "map_of m k = Some v \<Longrightarrow> list_all (\<lambda>(k, v). P k v) m \<Longrightarrow> P k v"
  by (induction m) (auto split: if_splits)

lemma truthy_lookup_map_of: "truthy_lookup m k = Some v \<Longrightarrow> map_of m k = Some v \<and> v \<noteq> []"
  by (auto simp: truthy_lookup_def split: option.splits if_splits)

lemma claude_table_closed:
  "list_all (\<lambda>(k, v). mapClaudeModelToGemini v = v) CLAUDE_TO_GEMINI"
  by code_simp

text \<open>The built-in alias table is closed: what a model name is mapped to is mapped to itself,
  so resolving a name twice gives the same model as resolving it once, and with no configured
  mapping and no forwarding rule the router is exactly that idempotent map.\<close>

theorem builtin_routing_idempotent:
  "mapClaudeModelToGemini (mapClaudeModelToGemini m) = mapClaudeModelToGemini m \<and>
   resolveModelRoute [] (resolveModelRoute [] m [] [] []) [] [] [] = resolveModelRoute [] m [] [] []"
proof -
  have idem: "mapClaudeModelToGemini (mapClaudeModelToGemini x) = mapClaudeModelToGemini x" for x
  proof (cases "x = [] \<or> truthy_lookup CLAUDE_TO_GEMINI x = None")
    case True
    then show ?thesis by (auto simp: mapClaudeModelToGemini_def)
  next
    case False
    then obtain v where v: "truthy_lookup CLAUDE_TO_GEMINI x = Some v" "x \<noteq> []" by auto
    then have "mapClaudeModelToGemini v = v"
      using map_of_list_all [OF _ claude_table_closed] truthy_lookup_map_of by blast
    moreover have "mapClaudeModelToGemini x = v" using v by (simp add: mapClaudeModelToGemini_def)
    ultimately show ?thesis by simp
  qed
  have route: "resolveModelRoute [] x [] [] [] = mapClaudeModelToGemini x" for x
    by (simp add: resolveModelRoute_def getDynamicForwardingTarget_def truthy_lookup_def Let_def)
  show ?thesis by (simp only: route idem)
qed

text \<open>The published model list is sorted, free of duplicates and of deprecated names, and
  contains exactly the remaining ids of the four built-in groups, the custom mapping's keys and
  the trimmed non-blank ids reported by the accounts.\<close>

theorem model_list_spec:
  "sorted (getAllDynamicModels custom ids) \<and> distinct (getAllDynamicModels custom ids) \<and>
   set (getAllDynamicModels custom ids) =
     {i \<in> set PUBLIC_SUPPORTED_MODELS \<union> fst ` set custom \<union> set image_model_ids
        \<union> set EXTRA_DYNAMIC_MODELS
        \<union> (case ids of None \<Rightarrow> {} | Some xs \<Rightarrow> {js_trim x | x. x \<in> set xs \<and> js_trim x \<noteq> []}).
      \<not> shouldHideDeprecatedModelFromList i}"
  by (cases ids) (auto simp: getAllDynamicModels_def getSupportedModels_def Let_def)

lemma specs_table_budgets:
  "list_all (\<lambda>(k, s). case (thinking_budget s, max_output_tokens s) of
      (Some b, Some m) \<Rightarrow> 0 \<le> b \<and> of_int \<lfloor>b\<rfloor> < (of_int \<lfloor>m\<rfloor> :: rat) \<and> 0 < m | _ \<Rightarrow> False) SPECS_models"
  by code_simp

text \<open>For every model name, known or not, aliased or not, the thinking budget of the
  specification is a non-negative number strictly below the model's output limit.\<close>

theorem thinking_budget_below_output_limit:
  "0 \<le> getThinkingBudget m \<and> getThinkingBudget m < getMaxOutputTokens m"
proof (cases "map_of SPECS_models (resolveModelAlias m)")
  case None
  then show ?thesis
    by (simp add: getThinkingBudget_def getMaxOutputTokens_def DEFAULT_THINKING_BUDGET_def
        DEFAULT_MAX_OUTPUT_TOKENS_def)
next
  case (Some s)
  from map_of_list_all [OF Some specs_table_budgets] show ?thesis
    by (auto simp: getThinkingBudget_def getMaxOutputTokens_def Some split: option.splits)
qed

text \<open>A forwarding rule whose target is a supported model takes precedence over every
  configured mapping; without one a non-empty custom mapping of the exact name decides, whatever
  the family mappings say.\<close>

lemma routing_precedence:
  "resolveModelRoute rules m custom openai anthropic =
     (case map_of rules m of
        Some v \<Rightarrow> if v \<in> set PUBLIC_SUPPORTED_MODELS then v
          else (case truthy_lookup custom m of Some w \<Rightarrow> w
                | None \<Rightarrow> resolveModelRoute [] m [] openai anthropic)
      | None \<Rightarrow> (case truthy_lookup custom m of Some w \<Rightarrow> w
                | None \<Rightarrow> resolveModelRoute [] m [] openai anthropic))"
proof -
  have ne: "v \<noteq> []" if "v \<in> set PUBLIC_SUPPORTED_MODELS" for v
    using that by (auto simp: PUBLIC_SUPPORTED_MODELS_def)
  show ?thesis
    by (cases "map_of rules m"; cases "truthy_lookup custom m")
       (auto simp: resolveModelRoute_def getDynamicForwardingTarget_def getSupportedModels_def
         truthy_lookup_def Let_def dest: ne)
qed

end
