(* ===== verification/Accounts.thy ===== *)
theory Accounts
  imports Tracker ModelMapping
begin

section \<open>Accounts, credentials and quotas as the token manager stores them\<close>

text \<open>
  The data of \<open>token-manager.service.ts\<close> and the pure functions over it: the token record,
  normalisation of project and model ids, the reading of external credentials, and the snapshot
  taken from a quota report. Random numbers (\<open>Math.random\<close>), SHA-256 and \<open>Date.parse\<close> are
  arguments. Two objects a source shares (an entry of the token map and the variable that
  holds it) are one record here; operations that mutate such an object write it back to the map.
\<close>

subsection \<open>Records\<close>

record quota_model_info =
  qm_percentage :: js_number
  qm_resetTime :: "string option"
  qm_thinking_budget :: "js_number option"
  qm_max_tokens :: "js_number option"
  qm_max_output_tokens :: "js_number option"

record cloud_quota =
  cq_models :: "quota_model_info js_map"
  cq_forwarding_rules :: "string js_map"

record cloud_token =
  ct_access_token :: string
  ct_refresh_token :: string
  ct_id_token :: "string option"
  ct_token_type :: string
  ct_expires_in :: rat
  ct_expiry_timestamp :: rat
  ct_project_id :: "string option"
  ct_oauth_client_key :: "string option"
  ct_session_id :: "string option"
  ct_upstream_proxy_url :: "string option"

record cloud_account =
  ca_id :: string
  ca_email :: string
  ca_token :: "cloud_token option"
  ca_quota :: "cloud_quota option"
  ca_proxy_url :: "string option"
  ca_created_at :: rat
  ca_last_used :: rat

record token_data =
  td_email :: string
  td_account_id :: string
  td_access_token :: string
  td_refresh_token :: string
  td_id_token :: "string option"
  td_oauth_client_key :: "string option"
  td_token_type :: string
  td_expires_in :: rat
  td_expiry_timestamp :: rat
  td_project_id :: "string option"
  td_session_id :: "string option"
  td_upstream_proxy_url :: "string option"
  td_quota :: "cloud_quota option"
  td_model_quotas :: "rat js_map"
  td_model_limits :: "rat js_map"
  td_model_reset_times :: "string js_map"
  td_model_forwarding_rules :: "string js_map"
  td_source_scope :: "string option"

subsection \<open>Normalisation\<close>

text \<open>\<open>a || b\<close> and \<open>a || undefined\<close> on optional strings: the empty string falls through.\<close>

definition or_str :: "string option \<Rightarrow> string option \<Rightarrow> string option" where
  "or_str a b = (if str_truthy a then a else b)"

definition truthy_str :: "string option \<Rightarrow> string option" where
  "truthy_str a = (if str_truthy a then a else None)"

definition line_char :: "char \<Rightarrow> bool" where
  "line_char c \<longleftrightarrow> c \<noteq> CHR 0x0A \<and> c \<noteq> CHR 0x0D"

text \<open>\<open>/^cloud-code-\d+$/i\<close> and \<open>/^projects(?:\/.*)?$/i\<close>\<close>

definition is_cloud_code_id :: "string \<Rightarrow> bool" where
  "is_cloud_code_id s \<longleftrightarrow> starts_with (js_lower s) ''cloud-code-'' \<and>
     drop 11 s \<noteq> [] \<and> list_all is_digit (drop 11 s)"

definition is_projects_path :: "string \<Rightarrow> bool" where
  "is_projects_path s \<longleftrightarrow> starts_with (js_lower s) ''projects'' \<and>
     (drop 8 s = [] \<or> (hd (drop 8 s) = CHR ''/'' \<and> list_all line_char (drop 8 s)))"

definition normalizeProjectId :: "string option \<Rightarrow> string option" where
  "normalizeProjectId projectId =
     (case projectId of
        None \<Rightarrow> None
      | Some p \<Rightarrow>
          (let trimmed = js_trim p
           in if trimmed = [] \<or> is_cloud_code_id trimmed then None
              else if is_projects_path trimmed then None
              else Some trimmed))"

definition normalizeModelId :: "string option \<Rightarrow> string option" where
  "normalizeModelId modelId =
     (case modelId of
        None \<Rightarrow> None
      | Some m \<Rightarrow>
          (let normalized = js_trim (if starts_with (js_lower m) ''models/'' then drop 7 m else m)
           in if normalized \<noteq> [] then Some normalized else None))"

definition normalizeClientKey :: "string option \<Rightarrow> string option" where
  "normalizeClientKey clientKey =
     (case clientKey of
        None \<Rightarrow> None
      | Some k \<Rightarrow> (let n = js_lower (js_trim k) in if n \<noteq> [] then Some n else None))"

definition isGeneratedImageVariant :: "string \<Rightarrow> bool" where
  "isGeneratedImageVariant modelId =
     (let normalized = js_lower modelId
      in starts_with normalized ''gemini-3-pro-image'' \<or> str_contains normalized ''-image-'')"

text \<open>\<open>rand\<close> is the value of \<open>Math.floor(Math.random() * Number(range))\<close>.\<close>

definition generateSessionId :: "nat \<Rightarrow> string" where
  "generateSessionId rand = int_str (- (10 ^ 18 + int rand))"

subsection \<open>Quota snapshots\<close>

record quota_snapshot =
  qs_quotas :: "rat js_map"
  qs_limits :: "rat js_map"
  qs_reset_times :: "string js_map"
  qs_forwarding :: "string js_map"

definition snapshot_model :: "string \<times> quota_model_info \<Rightarrow> quota_snapshot \<Rightarrow> quota_snapshot" where
  "snapshot_model = (\<lambda>(modelName, info) s.
     (case normalizeModelId (Some modelName) of
        None \<Rightarrow> s
      | Some m \<Rightarrow>
          (let s1 = (case qm_percentage info of
               Fin p \<Rightarrow> s\<lparr>qs_quotas := AList.update m (of_int \<lfloor>p\<rfloor>) (qs_quotas s)\<rparr> | _ \<Rightarrow> s);
               limit = (case qm_max_output_tokens info of Some l \<Rightarrow> Some l | None \<Rightarrow> qm_max_tokens info);
               s2 = (case limit of
                   Some (Fin l) \<Rightarrow> if l > 0 then s1\<lparr>qs_limits := AList.update m (of_int \<lfloor>l\<rfloor>) (qs_limits s1)\<rparr> else s1
                 | _ \<Rightarrow> s1)
           in (case qm_resetTime info of
                 Some r \<Rightarrow> if js_trim r \<noteq> []
                   then s2\<lparr>qs_reset_times := AList.update m r (qs_reset_times s2)\<rparr> else s2
               | None \<Rightarrow> s2))))"

definition snapshot_rule ::
  "string \<times> string \<Rightarrow> quota_snapshot \<times> string js_map \<Rightarrow> quota_snapshot \<times> string js_map" where
  "snapshot_rule = (\<lambda>(oldModel, newModel) (s, rules).
     (case (normalizeModelId (Some oldModel), normalizeModelId (Some newModel)) of
        (Some old, Some new) \<Rightarrow>
          (s\<lparr>qs_forwarding := AList.update old new (qs_forwarding s)\<rparr>,
           updateDynamicForwardingRules old new rules)
      | _ \<Rightarrow> (s, rules)))"

text \<open>Returns the snapshot and the module-wide forwarding rules, which it extends.\<close>

definition extractQuotaSnapshot ::
  "cloud_quota option \<Rightarrow> string js_map \<Rightarrow> quota_snapshot \<times> string js_map" where
  "extractQuotaSnapshot quota rules =
     (let models = (case quota of None \<Rightarrow> [] | Some q \<Rightarrow> cq_models q);
          forwarding = (case quota of None \<Rightarrow> [] | Some q \<Rightarrow> cq_forwarding_rules q);
          s = fold snapshot_model models
            \<lparr>qs_quotas = [], qs_limits = [], qs_reset_times = [], qs_forwarding = []\<rparr>
      in fold snapshot_rule forwarding (s, rules))"

definition store_snapshot :: "cloud_quota \<Rightarrow> quota_snapshot \<Rightarrow> token_data \<Rightarrow> token_data" where
  "store_snapshot q s td = td\<lparr>td_quota := Some q, td_model_quotas := qs_quotas s,
     td_model_limits := qs_limits s, td_model_reset_times := qs_reset_times s,
     td_model_forwarding_rules := qs_forwarding s\<rparr>"

definition findEarliestQuotaResetTime :: "string js_map \<Rightarrow> string option" where
  "findEarliestQuotaResetTime modelResetTimes =
     (let validTimes = filter (\<lambda>v. js_trim v \<noteq> []) (map snd modelResetTimes)
      in if validTimes = [] then None else Some (hd (sort validTimes)))"

definition mapAccountToTokenData ::
  "nat \<Rightarrow> cloud_account \<Rightarrow> string js_map \<Rightarrow> token_data option \<times> string js_map" where
  "mapAccountToTokenData rand account rules =
     (case ca_token account of
        None \<Rightarrow> (None, rules)
      | Some t \<Rightarrow>
          (let (s, rules') = extractQuotaSnapshot (ca_quota account) rules
           in (Some \<lparr>td_email = ca_email account, td_account_id = ca_id account,
                 td_access_token = ct_access_token t, td_refresh_token = ct_refresh_token t,
                 td_id_token = ct_id_token t, td_oauth_client_key = normalizeClientKey (ct_oauth_client_key t),
                 td_token_type = (if ct_token_type t = [] then ''Bearer'' else ct_token_type t),
                 td_expires_in = ct_expires_in t, td_expiry_timestamp = ct_expiry_timestamp t,
                 td_project_id = truthy_str (ct_project_id t),
                 td_session_id = or_str (ct_session_id t) (Some (generateSessionId rand)),
                 td_upstream_proxy_url =
                   truthy_str (or_str (ct_upstream_proxy_url t) (ca_proxy_url account)),
                 td_quota = ca_quota account, td_model_quotas = qs_quotas s,
                 td_model_limits = qs_limits s, td_model_reset_times = qs_reset_times s,
                 td_model_forwarding_rules = qs_forwarding s, td_source_scope = None\<rparr>, rules')))"

subsection \<open>External credentials\<close>

definition isExternalCredentialObject :: "json \<Rightarrow> bool" where
  "isExternalCredentialObject v = (case v of JObj _ \<Rightarrow> True | _ \<Rightarrow> False)"

definition parseExternalCredentialPayload :: "string \<Rightarrow> json list" where
  "parseExternalCredentialPayload raw =
     (case json_parse raw of
        None \<Rightarrow> []
      | Some parsed \<Rightarrow>
          (case parsed of
             JArr xs \<Rightarrow> filter isExternalCredentialObject xs
           | JObj _ \<Rightarrow>
               (case jget parsed ''accounts'' of
                  Some (JArr xs) \<Rightarrow> filter isExternalCredentialObject xs
                | _ \<Rightarrow> [parsed])
           | _ \<Rightarrow> []))"

definition readString :: "json \<Rightarrow> string list \<Rightarrow> string option" where
  "readString source keys = first_some (\<lambda>key.
     case jget source key of
       Some (JStr s) \<Rightarrow> if js_trim s \<noteq> [] then Some (js_trim s) else None
     | _ \<Rightarrow> None) keys"

definition readNumber :: "json \<Rightarrow> string list \<Rightarrow> rat option" where
  "readNumber source keys = first_some (\<lambda>key.
     case jget source key of
       Some (JNum q) \<Rightarrow> Some (of_int \<lfloor>q\<rfloor>)
     | Some (JStr s) \<Rightarrow> (case js_number_of s of Fin q \<Rightarrow> Some (of_int \<lfloor>q\<rfloor>) | _ \<Rightarrow> None)
     | _ \<Rightarrow> None) keys"

definition now_seconds :: "rat \<Rightarrow> rat" where
  "now_seconds now = of_int \<lfloor>now / 1000\<rfloor>"

definition normalizeExternalExpiryTimestamp ::
  "(string \<Rightarrow> js_number) \<Rightarrow> rat \<Rightarrow> json \<Rightarrow> rat \<Rightarrow> rat option" where
  "normalizeExternalExpiryTimestamp date_parse now source expiresIn =
     (case (case readNumber source [''expiry_timestamp'', ''expiryTimestamp''] of
              Some n \<Rightarrow> if n > 0 then Some n else None | None \<Rightarrow> None) of
        Some n \<Rightarrow> Some (if n > 1000000000000 then of_int \<lfloor>n / 1000\<rfloor> else n)
      | None \<Rightarrow>
          (case readString source [''expiry'', ''expired''] of
             None \<Rightarrow> None
           | Some e \<Rightarrow>
               (case date_parse e of
                  Fin p \<Rightarrow> Some (of_int \<lfloor>p / 1000\<rfloor>)
                | _ \<Rightarrow> Some (now_seconds now + expiresIn))))"

record credential_env =
  ce_sha256_hex :: "string \<Rightarrow> string"
  ce_date_parse :: "string \<Rightarrow> js_number"
  ce_now :: rat

definition credential_token_object :: "json \<Rightarrow> json" where
  "credential_token_object item =
     (case jget item ''token'' of Some (JObj m) \<Rightarrow> JObj m | _ \<Rightarrow> item)"

text \<open>The token record built once both tokens are present.\<close>

definition external_token_data ::
  "credential_env \<Rightarrow> nat \<Rightarrow> json \<Rightarrow> json \<Rightarrow> string \<Rightarrow> string \<Rightarrow> token_data" where
  "external_token_data e rand item tokenObject accessToken refreshToken =
     (let fingerprint = take 16 (ce_sha256_hex e (accessToken @ '':'' @ refreshToken));
          email = (case or_str (readString tokenObject [''email'']) (readString item [''email'']) of
              Some m \<Rightarrow> m | None \<Rightarrow> ''newapi-'' @ fingerprint @ ''@external.local'');
          accountId = (case or_str (readString tokenObject [''account_id'', ''accountId''])
                (readString item [''account_id'', ''accountId'']) of
              Some a \<Rightarrow> a | None \<Rightarrow> ''external-'' @ fingerprint);
          expiresIn = (case readNumber tokenObject [''expires_in'', ''expiresIn''] of
              Some n \<Rightarrow> n | None \<Rightarrow> 3600);
          expiry = (case normalizeExternalExpiryTimestamp (ce_date_parse e) (ce_now e) tokenObject expiresIn of
              Some x \<Rightarrow> x | None \<Rightarrow> now_seconds (ce_now e) + expiresIn)
      in \<lparr>td_email = email, td_account_id = accountId,
           td_access_token = accessToken, td_refresh_token = refreshToken,
           td_id_token = readString tokenObject [''id_token'', ''idToken''],
           td_oauth_client_key =
             normalizeClientKey (readString tokenObject [''oauth_client_key'', ''oauthClientKey'']),
           td_token_type = (case readString tokenObject [''token_type'', ''tokenType''] of
               Some t \<Rightarrow> t | None \<Rightarrow> ''Bearer''),
           td_expires_in = expiresIn, td_expiry_timestamp = expiry,
           td_project_id = readString tokenObject [''project_id'', ''projectId''],
           td_session_id = (case readString tokenObject [''session_id'', ''sessionId''] of
               Some s \<Rightarrow> Some s | None \<Rightarrow> Some (generateSessionId rand)),
           td_upstream_proxy_url = readString tokenObject [''upstream_proxy_url'', ''upstreamProxyUrl''],
           td_quota = None, td_model_quotas = [], td_model_limits = [],
           td_model_reset_times = [], td_model_forwarding_rules = [], td_source_scope = None\<rparr>)"

definition mapExternalCredentialToTokenData ::
  "credential_env \<Rightarrow> nat \<Rightarrow> json \<Rightarrow> token_data option" where
  "mapExternalCredentialToTokenData e rand item =
     (let tokenObject = credential_token_object item
      in case (readString tokenObject [''access_token'', ''accessToken''],
               readString tokenObject [''refresh_token'', ''refreshToken'']) of
           (Some accessToken, Some refreshToken) \<Rightarrow>
             Some (external_token_data e rand item tokenObject accessToken refreshToken)
         | _ \<Rightarrow> None)"

end
