(* ===== verification/Scheduler.thy ===== *)
theory Scheduler
  imports Accounts
begin

section \<open>Selection of an account\<close>

text \<open>
  The selection half of the class \<open>TokenManagerService\<close>: its state as a record, the gates
  (cool-downs, rate limits, sessions), the two schedulers (legacy and parity) with the shadow
  comparison between them, and the no-go latch. The dynamic forwarding rules of
  \<open>ModelMapping.ts\<close> and the server configuration live in module variables of the
  program; they are fields of the state here. Each operation takes the clock values it reads.
  The service is asynchronous; an operation runs here without another request in between.
\<close>

record server_config =
  sc_parity_enabled :: bool
  sc_parity_shadow_enabled :: bool
  sc_parity_kill_switch :: bool
  sc_scheduling_mode :: "string option"
  sc_max_wait_seconds :: "rat option"
  sc_backoff_steps :: "js_number list option"
  sc_preferred_account_id :: "string option"
  sc_no_go_mismatch_rate :: "js_number option"
  sc_no_go_error_rate :: "js_number option"

record session_binding =
  sb_accountId :: string
  sb_expiresAt :: rat

record probe_entry =
  pe_ok :: bool
  pe_checkedAt :: rat

record manager =
  m_currentIndex :: nat
  m_tokens :: "token_data js_map"
  m_cooldowns :: "js_number js_map"
  m_sessions :: "session_binding js_map"
  m_tracker :: tracker
  m_credentials_mtime :: rat
  m_fingerprints :: "string js_map"
  m_shadowComparisons :: nat
  m_shadowMismatches :: nat
  m_parityRequests :: nat
  m_parityErrors :: nat
  m_noGo :: bool
  m_probeCache :: "probe_entry js_map"
  m_rules :: "string js_map"
  m_config :: "server_config option"

type_synonym token_entry = "string \<times> token_data"

definition new_manager :: "server_config option \<Rightarrow> manager" where
  "new_manager config =
     \<lparr>m_currentIndex = 0, m_tokens = [], m_cooldowns = [], m_sessions = [], m_tracker = new_tracker,
      m_credentials_mtime = 0, m_fingerprints = [], m_shadowComparisons = 0, m_shadowMismatches = 0,
      m_parityRequests = 0, m_parityErrors = 0, m_noGo = False, m_probeCache = [], m_rules = [],
      m_config = config\<rparr>"

definition stickySessionTtlMs :: rat where "stickySessionTtlMs = 10 * 60 * 1000"
definition rateLimitCooldownMs :: rat where "rateLimitCooldownMs = 5 * 60 * 1000"
definition forbiddenCooldownMs :: rat where "forbiddenCooldownMs = 30 * 60 * 1000"

subsection \<open>Configuration\<close>

definition isParitySchedulingEnabled :: "manager \<Rightarrow> bool" where
  "isParitySchedulingEnabled m =
     (case m_config m of
        None \<Rightarrow> False
      | Some c \<Rightarrow> if sc_parity_kill_switch c then False
                  else if m_noGo m then False
                  else sc_parity_enabled c)"

definition shouldExecuteShadowComparison :: "manager \<Rightarrow> bool" where
  "shouldExecuteShadowComparison m \<longleftrightarrow>
     (case m_config m of None \<Rightarrow> False | Some c \<Rightarrow> sc_parity_shadow_enabled c) \<and>
     \<not> isParitySchedulingEnabled m \<and> \<not> m_noGo m"

datatype scheduling_mode = CacheFirst | Balance | PerformanceFirst

definition getSchedulingMode :: "manager \<Rightarrow> scheduling_mode" where
  "getSchedulingMode m =
     (let mode = js_lower (case Option.bind (m_config m) sc_scheduling_mode of
            None \<Rightarrow> ''balance'' | Some s \<Rightarrow> s)
      in if mode = ''cache-first'' then CacheFirst
         else if mode = ''performance-first'' then PerformanceFirst
         else Balance)"

definition getMaxWaitDurationMs :: "manager \<Rightarrow> rat" where
  "getMaxWaitDurationMs m =
     max 0 (case Option.bind (m_config m) sc_max_wait_seconds of None \<Rightarrow> 60 | Some s \<Rightarrow> s) * 1000"

definition usable_step :: "js_number \<Rightarrow> rat option" where
  "usable_step v = (case v of Fin q \<Rightarrow> if q > 0 then Some (of_int \<lceil>q\<rceil>) else None | _ \<Rightarrow> None)"

definition getCircuitBreakerBackoffSteps :: "manager \<Rightarrow> rat list" where
  "getCircuitBreakerBackoffSteps m =
     (let configured = (case Option.bind (m_config m) sc_backoff_steps of
            None \<Rightarrow> map Fin default_backoff_steps | Some s \<Rightarrow> s);
          normalized = List.map_filter usable_step configured
      in if normalized \<noteq> [] then normalized else default_backoff_steps)"

definition getPreferredAccountId :: "manager \<Rightarrow> string option" where
  "getPreferredAccountId m =
     truthy_str (map_option js_trim (Option.bind (m_config m) sc_preferred_account_id))"

definition setPreferredAccount :: "string option \<Rightarrow> manager \<Rightarrow> manager" where
  "setPreferredAccount accountId m =
     (case m_config m of
        None \<Rightarrow> m
      | Some c \<Rightarrow> m\<lparr>m_config := Some (c\<lparr>sc_preferred_account_id :=
          Some (case accountId of None \<Rightarrow> [] | Some a \<Rightarrow> a)\<rparr>)\<rparr>)"

definition buildScopedSessionKey :: "string option \<Rightarrow> string option \<Rightarrow> string option" where
  "buildScopedSessionKey scopeKey sessionKey =
     (if \<not> str_truthy sessionKey then None
      else if \<not> str_truthy scopeKey then sessionKey
      else Some (the scopeKey @ '':'' @ the sessionKey))"

definition no_go_threshold :: "rat \<Rightarrow> js_number option \<Rightarrow> rat" where
  "no_go_threshold dflt configured =
     (case (case configured of None \<Rightarrow> Fin dflt | Some t \<Rightarrow> t) of
        Fin q \<Rightarrow> min 1 (max 0 q) | _ \<Rightarrow> dflt)"

definition getNoGoMismatchRateThreshold :: "manager \<Rightarrow> rat" where
  "getNoGoMismatchRateThreshold m =
     no_go_threshold (15 / 100) (Option.bind (m_config m) sc_no_go_mismatch_rate)"

definition getNoGoErrorRateThreshold :: "manager \<Rightarrow> rat" where
  "getNoGoErrorRateThreshold m =
     no_go_threshold (4 / 10) (Option.bind (m_config m) sc_no_go_error_rate)"

definition recordParityError :: "manager \<Rightarrow> manager" where
  "recordParityError m =
     (if \<not> isParitySchedulingEnabled m then m
      else (let m' = m\<lparr>m_parityErrors := Suc (m_parityErrors m)\<rparr>;
                errorRate = of_nat (m_parityErrors m') / of_nat (max 1 (m_parityRequests m'))
            in if errorRate > getNoGoErrorRateThreshold m' then m'\<lparr>m_noGo := True\<rparr> else m'))"

subsection \<open>Gates\<close>

text \<open>\<open>cooldownUntil && cooldownUntil > now\<close>: zero and NaN are falsy.\<close>

definition cooling_down :: "rat \<Rightarrow> manager \<Rightarrow> string \<Rightarrow> bool" where
  "cooling_down now m accountId =
     (case map_of (m_cooldowns m) accountId of
        None \<Rightarrow> False
      | Some c \<Rightarrow> c \<noteq> Fin 0 \<and> c \<noteq> NaN \<and> num_gt c (Fin now))"

definition collectEligibleTokens ::
  "manager \<Rightarrow> token_entry list \<Rightarrow> string option \<Rightarrow> rat \<Rightarrow> token_entry list" where
  "collectEligibleTokens m allTokens model now =
     filter (\<lambda>(accountId, _). if cooling_down now m accountId then False
        else \<not> tracker_isRateLimited now (m_tracker m) accountId model) allTokens"

definition getValidSessionBinding :: "manager \<Rightarrow> string option \<Rightarrow> rat \<Rightarrow> session_binding option" where
  "getValidSessionBinding m sessionKey now =
     (if \<not> str_truthy sessionKey then None
      else (case map_of (m_sessions m) (the sessionKey) of
          None \<Rightarrow> None
        | Some b \<Rightarrow> if sb_expiresAt b \<le> now then None else Some b))"

definition find_entry :: "string \<Rightarrow> token_entry list \<Rightarrow> token_entry option" where
  "find_entry accountId entries = List.find (\<lambda>(a, _). a = accountId) entries"

definition findStickySessionToken ::
  "manager \<Rightarrow> token_entry list \<Rightarrow> string option \<Rightarrow> rat \<Rightarrow> token_entry option" where
  "findStickySessionToken m candidates sessionKey now =
     (case getValidSessionBinding m sessionKey now of
        None \<Rightarrow> None
      | Some b \<Rightarrow> find_entry (sb_accountId b) candidates)"

definition resetSelectionState :: "manager \<Rightarrow> manager" where
  "resetSelectionState m = m\<lparr>m_currentIndex := 0\<rparr>"

definition pickRoundRobinEntry :: "manager \<Rightarrow> token_entry list \<Rightarrow> token_entry option \<times> manager" where
  "pickRoundRobinEntry m candidates =
     (if candidates = [] then (None, m)
      else (Some (candidates ! (m_currentIndex m mod length candidates)),
            m\<lparr>m_currentIndex := Suc (m_currentIndex m)\<rparr>))"

definition peekRoundRobinCandidateAccountId :: "manager \<Rightarrow> token_entry list \<Rightarrow> string option" where
  "peekRoundRobinCandidateAccountId m candidates =
     (if candidates = [] then None
      else Some (fst (candidates ! (m_currentIndex m mod length candidates))))"

subsection \<open>The two schedulers\<close>

definition legacy_pool :: "manager \<Rightarrow> token_entry list \<Rightarrow> rat \<Rightarrow> token_entry list" where
  "legacy_pool m allTokens now =
     (let availableByCooldown = filter (\<lambda>(accountId, _). \<not> cooling_down now m accountId) allTokens
      in if availableByCooldown \<noteq> [] then availableByCooldown else allTokens)"

definition selectLegacyTokenCandidate ::
  "manager \<Rightarrow> token_entry list \<Rightarrow> string option \<Rightarrow> rat \<Rightarrow> token_entry option \<times> manager" where
  "selectLegacyTokenCandidate m allTokens sessionKey now =
     (let pool = legacy_pool m allTokens now
      in if pool = [] then (None, m)
         else (case findStickySessionToken m pool sessionKey now of
             Some e \<Rightarrow> (Some e, m)
           | None \<Rightarrow> pickRoundRobinEntry m pool))"

definition find_preferred :: "manager \<Rightarrow> token_entry list \<Rightarrow> token_entry option" where
  "find_preferred m entries =
     (case getPreferredAccountId m of None \<Rightarrow> None | Some p \<Rightarrow> find_entry p entries)"

text \<open>\<open>later\<close> is the clock after the wait of the cache-first mode.\<close>

text \<open>The wait of \<open>cache-first\<close> for the account of a session: what is left of its lockout, if that is not too long.\<close>

definition cache_wait :: "manager \<Rightarrow> session_binding \<Rightarrow> string option \<Rightarrow> rat \<Rightarrow> js_number option" where
  "cache_wait m b model now =
     (let waitMs = num_scale 1000 (getRemainingWaitSeconds now (m_tracker m) (sb_accountId b) model)
      in if getSchedulingMode m = CacheFirst \<and> num_gt waitMs (Fin 0) \<and> num_ge (Fin (getMaxWaitDurationMs m)) waitMs
         then Some waitMs else None)"

definition selectParityTokenCandidate ::
  "manager \<Rightarrow> token_entry list \<Rightarrow> string option \<Rightarrow> string option \<Rightarrow> rat \<Rightarrow> rat
     \<Rightarrow> token_entry option \<times> manager" where
  "selectParityTokenCandidate m allTokens sessionKey model now later =
     (let availableTokens = collectEligibleTokens m allTokens model now
      in if availableTokens = [] then (None, m)
         else (case find_preferred m availableTokens of
             Some e \<Rightarrow> (Some e, m)
           | None \<Rightarrow>
               (case findStickySessionToken m availableTokens sessionKey now of
                  Some e \<Rightarrow> (Some e, m)
                | None \<Rightarrow>
                    (case getValidSessionBinding m sessionKey now of
                       Some b \<Rightarrow>
                         (case cache_wait m b model now of
                             Some waitMs \<Rightarrow>
                               (let refreshed = collectEligibleTokens m allTokens model later
                                in (case find_entry (sb_accountId b) refreshed of
                                      Some e \<Rightarrow> (Some e, m)
                                    | None \<Rightarrow> if refreshed \<noteq> [] then pickRoundRobinEntry m refreshed
                                              else pickRoundRobinEntry m availableTokens))
                           | None \<Rightarrow> pickRoundRobinEntry m availableTokens)
                     | None \<Rightarrow> pickRoundRobinEntry m availableTokens))))"

text \<open>What \<open>selectParityTokenCandidate\<close> awaits before it selects; None when it does not wait.\<close>

definition parity_wait :: "manager \<Rightarrow> token_entry list \<Rightarrow> string option \<Rightarrow> string option \<Rightarrow> rat \<Rightarrow> js_number option" where
  "parity_wait m allTokens sessionKey model now =
     (let availableTokens = collectEligibleTokens m allTokens model now
      in if availableTokens = [] \<or> find_preferred m availableTokens \<noteq> None \<or>
            findStickySessionToken m availableTokens sessionKey now \<noteq> None
         then None
         else Option.bind (getValidSessionBinding m sessionKey now) (\<lambda>b. cache_wait m b model now))"

definition predictLegacyAccountCandidateId ::
  "manager \<Rightarrow> token_entry list \<Rightarrow> string option \<Rightarrow> rat \<Rightarrow> string option" where
  "predictLegacyAccountCandidateId m allTokens sessionKey now =
     (let pool = legacy_pool m allTokens now
      in if pool = [] then None
         else (case findStickySessionToken m pool sessionKey now of
             Some e \<Rightarrow> Some (fst e)
           | None \<Rightarrow> peekRoundRobinCandidateAccountId m pool))"

definition predictParityAccountCandidateId ::
  "manager \<Rightarrow> token_entry list \<Rightarrow> string option \<Rightarrow> string option \<Rightarrow> rat \<Rightarrow> string option" where
  "predictParityAccountCandidateId m allTokens sessionKey model now =
     (let availableTokens = collectEligibleTokens m allTokens model now
      in if availableTokens = [] then None
         else (case find_preferred m availableTokens of
             Some e \<Rightarrow> Some (fst e)
           | None \<Rightarrow>
               (case findStickySessionToken m availableTokens sessionKey now of
                  Some e \<Rightarrow> Some (fst e)
                | None \<Rightarrow> peekRoundRobinCandidateAccountId m availableTokens)))"

definition updateShadowStats :: "string option \<Rightarrow> string option \<Rightarrow> manager \<Rightarrow> manager" where
  "updateShadowStats legacyId parityId m =
     (let m1 = m\<lparr>m_shadowComparisons := Suc (m_shadowComparisons m)\<rparr>;
          m2 = (if legacyId \<noteq> parityId then m1\<lparr>m_shadowMismatches := Suc (m_shadowMismatches m1)\<rparr> else m1);
          mismatchRate = of_nat (m_shadowMismatches m2) / of_nat (max 1 (m_shadowComparisons m2))
      in if mismatchRate > getNoGoMismatchRateThreshold m2 then m2\<lparr>m_noGo := True\<rparr> else m2)"

definition executeShadowComparison ::
  "manager \<Rightarrow> token_entry list \<Rightarrow> string option \<Rightarrow> string option \<Rightarrow> rat \<Rightarrow> manager" where
  "executeShadowComparison m allTokens sessionKey model now =
     updateShadowStats (predictLegacyAccountCandidateId m allTokens sessionKey now)
       (predictParityAccountCandidateId m allTokens sessionKey model now) m"

definition clearExpiredSessionBindings :: "rat \<Rightarrow> manager \<Rightarrow> manager" where
  "clearExpiredSessionBindings now m =
     m\<lparr>m_sessions := map_select (\<lambda>k b. \<not> sb_expiresAt b \<le> now) (m_sessions m)\<rparr>"

subsection \<open>Properties of the selection\<close>

lemma find_entry_Some: "find_entry a es = Some e \<Longrightarrow> e \<in> set es \<and> fst e = a"
  by (induction es) (auto simp: find_entry_def split: if_splits)

lemma find_entry_None: "find_entry a es = None \<longleftrightarrow> a \<notin> fst ` set es"
  by (induction es) (auto simp: find_entry_def split: if_splits)

lemma find_preferred_in: "find_preferred m es = Some e \<Longrightarrow> e \<in> set es"
  by (auto simp: find_preferred_def split: option.splits dest: find_entry_Some)

lemma findSticky_in: "findStickySessionToken m es sk now = Some e \<Longrightarrow> e \<in> set es"
  by (auto simp: findStickySessionToken_def split: option.splits dest: find_entry_Some)

lemma pick_in: "pickRoundRobinEntry m es = (Some e, m') \<Longrightarrow> e \<in> set es"
  by (auto simp: pickRoundRobinEntry_def split: if_splits)

lemma pick_frame:
  "snd (pickRoundRobinEntry m es) = m\<lparr>m_currentIndex := (if es = [] then m_currentIndex m else Suc (m_currentIndex m))\<rparr>"
  by (simp add: pickRoundRobinEntry_def)

lemma eligible_in:
  "e \<in> set (collectEligibleTokens m es model now) \<longleftrightarrow>
     e \<in> set es \<and> \<not> cooling_down now m (fst e) \<and> \<not> tracker_isRateLimited now (m_tracker m) (fst e) model"
  by (cases e) (auto simp: collectEligibleTokens_def)

lemma legacy_pool_in: "e \<in> set (legacy_pool m es now) \<Longrightarrow> e \<in> set es"
  by (auto simp: legacy_pool_def Let_def split: if_splits)

lemmas selection_splits = option.splits if_splits prod.splits

lemma selectLegacy_in:
  "selectLegacyTokenCandidate m es sk now = (Some e, m') \<Longrightarrow> e \<in> set (legacy_pool m es now)"
  by (auto simp: selectLegacyTokenCandidate_def Let_def split: selection_splits
      dest: findSticky_in pick_in)

lemma selectParity_in:
  assumes "selectParityTokenCandidate m es sk model now later = (Some e, m')"
  shows "e \<in> set (collectEligibleTokens m es model now) \<or> e \<in> set (collectEligibleTokens m es model later)"
  using assms
  by (auto simp: selectParityTokenCandidate_def Let_def split: selection_splits
      dest: findSticky_in pick_in find_preferred_in find_entry_Some)

lemma select_frame:
  "\<exists>i. snd (selectLegacyTokenCandidate m es sk now) = m\<lparr>m_currentIndex := i\<rparr>"
  "\<exists>i. snd (selectParityTokenCandidate m es sk model now later) = m\<lparr>m_currentIndex := i\<rparr>"
proof -
  have self: "\<exists>i. m = m\<lparr>m_currentIndex := i\<rparr>" by (metis manager.surjective manager.update_convs(1))
  show "\<exists>i. snd (selectLegacyTokenCandidate m es sk now) = m\<lparr>m_currentIndex := i\<rparr>"
    using self by (auto simp: selectLegacyTokenCandidate_def Let_def pick_frame split: selection_splits)
  show "\<exists>i. snd (selectParityTokenCandidate m es sk model now later) = m\<lparr>m_currentIndex := i\<rparr>"
    using self by (auto simp: selectParityTokenCandidate_def Let_def pick_frame split: selection_splits)
qed

definition sample_token :: "string \<Rightarrow> token_data" where
  "sample_token a = \<lparr>td_email = a @ ''@x'', td_account_id = a, td_access_token = ''t'',
     td_refresh_token = ''r'', td_id_token = None, td_oauth_client_key = None, td_token_type = ''Bearer'',
     td_expires_in = 3600, td_expiry_timestamp = 100000, td_project_id = Some ''p'',
     td_session_id = None, td_upstream_proxy_url = None, td_quota = None, td_model_quotas = [],
     td_model_limits = [], td_model_reset_times = [], td_model_forwarding_rules = [],
     td_source_scope = None\<rparr>"

lemma eligible_monotone:
  assumes "now \<le> later" "e \<in> set (collectEligibleTokens m es model now)"
  shows "e \<in> set (collectEligibleTokens m es model later)"
  using assms rl.open_stays_open [OF assms(1)] num_gt_trans_ge [OF _ assms(1)]
  by (auto simp: eligible_in cooling_down_def split: option.splits)

text \<open>The parity scheduler never hands out an account that is cooling down or rate limited for the
  requested model: the account it selects was offered, and it passes both gates at the time
  the selection is made, also when the request slept for its sticky session before.\<close>

theorem parity_selects_only_eligible:
  assumes "selectParityTokenCandidate m es sk model now later = (Some (a, td), m')" "now \<le> later"
  shows "(a, td) \<in> set es \<and> \<not> cooling_down later m a \<and>
    \<not> tracker_isRateLimited later (m_tracker m) a model"
  using selectParity_in [OF assms(1)] eligible_monotone [OF assms(2)] by (auto simp: eligible_in)

theorem parity_selects_only_eligible_witness:
  "\<not> tracker_isRateLimited 1000 new_tracker ''a'' None"
proof -
  let ?m = "new_manager None"
  have "selectParityTokenCandidate ?m [(''a'', sample_token ''a'')] None None 1000 1000 =
      (Some (''a'', sample_token ''a''), ?m\<lparr>m_currentIndex := 1\<rparr>)"
    by code_simp
  from parity_selects_only_eligible [OF this order_refl] show ?thesis
    by (simp add: new_manager_def)
qed

text \<open>Selection never fails while an account is usable: with at least one account that is neither
  cooling down nor rate limited the parity scheduler returns one, in every scheduling mode and
  also after sleeping; the legacy scheduler returns one whenever any account is offered.\<close>

theorem selection_is_available:
  assumes "es \<noteq> []"
  shows "fst (selectLegacyTokenCandidate m es sk now) \<noteq> None \<and>
    (collectEligibleTokens m es model now \<noteq> [] \<longrightarrow>
      fst (selectParityTokenCandidate m es sk model now later) \<noteq> None)"
  using assms
  by (auto simp: selectLegacyTokenCandidate_def selectParityTokenCandidate_def Let_def
      pickRoundRobinEntry_def legacy_pool_def split: option.splits)

theorem selection_is_available_witness:
  "fst (selectLegacyTokenCandidate (new_manager None) [(''a'', sample_token ''a'')] None 0) \<noteq> None"
  using selection_is_available [of "[(''a'', sample_token ''a'')]" "new_manager None" None 0] by simp

subsection \<open>Round robin\<close>

text \<open>The entries picked by \<open>n\<close> consecutive requests without a session, all at one time.\<close>

fun legacy_run :: "nat \<Rightarrow> manager \<Rightarrow> token_entry list \<Rightarrow> rat \<Rightarrow> token_entry option list" where
  "legacy_run 0 m es now = []"
| "legacy_run (Suc n) m es now =
     (case selectLegacyTokenCandidate m es None now of (r, m') \<Rightarrow> r # legacy_run n m' es now)"

lemma legacy_pool_index [simp]: "legacy_pool (m\<lparr>m_currentIndex := i\<rparr>) es now = legacy_pool m es now"
  by (simp add: legacy_pool_def cooling_down_def)

lemma legacy_pool_nonempty: "es \<noteq> [] \<Longrightarrow> legacy_pool m es now \<noteq> []"
  by (simp add: legacy_pool_def Let_def)

lemma legacy_select_no_session:
  assumes "es \<noteq> []"
  shows "selectLegacyTokenCandidate m es None now =
    (Some (legacy_pool m es now ! (m_currentIndex m mod length (legacy_pool m es now))),
     m\<lparr>m_currentIndex := Suc (m_currentIndex m)\<rparr>)"
  using legacy_pool_nonempty [OF assms]
  by (simp add: selectLegacyTokenCandidate_def findStickySessionToken_def getValidSessionBinding_def
      pickRoundRobinEntry_def Let_def)

lemma legacy_run_nth:
  assumes "es \<noteq> []"
  shows "legacy_run n m es now =
    map (\<lambda>i. Some (legacy_pool m es now ! ((m_currentIndex m + i) mod length (legacy_pool m es now)))) [0..<n]"
proof (induction n arbitrary: m)
  case 0
  show ?case by simp
next
  case (Suc n)
  have "[0..<Suc n] = 0 # map Suc [0..<n]"
    by (simp add: upt_conv_Cons map_Suc_upt del: upt_Suc)
  then show ?case
    by (simp add: legacy_select_no_session [OF assms] Suc.IH del: upt_Suc)
qed

text \<open>C15: The legacy scheduler is fair: as many consecutive sessionless requests as there are accounts
  past the cool-down gate serve each of those accounts exactly once, in the order of the map
  rotated to the current index.\<close>

theorem round_robin_fair:
  assumes "es \<noteq> []"
  shows "legacy_run (length (legacy_pool m es now)) m es now =
    map Some (rotate (m_currentIndex m) (legacy_pool m es now))"
  by (rule nth_equalityI) (simp_all add: legacy_run_nth [OF assms] nth_rotate add.commute)

theorem round_robin_fair_witness:
  "map (map_option fst) (legacy_run 3 ((new_manager None)\<lparr>m_currentIndex := 1\<rparr>)
     [(''a'', sample_token ''a''), (''b'', sample_token ''b''), (''c'', sample_token ''c'')] 0) =
   [Some ''b'', Some ''c'', Some ''a'']"
proof -
  let ?es = "[(''a'', sample_token ''a''), (''b'', sample_token ''b''), (''c'', sample_token ''c'')]"
  let ?m = "(new_manager None)\<lparr>m_currentIndex := 1\<rparr>"
  have pool: "legacy_pool ?m ?es 0 = ?es"
    by (simp add: legacy_pool_def cooling_down_def new_manager_def)
  show ?thesis
    using round_robin_fair [of ?es ?m 0] unfolding pool
    by (simp add: new_manager_def numeral_3_eq_3)
qed

subsection \<open>The shadow comparison\<close>

text \<open>The shadow comparison predicts what the schedulers would do: the legacy prediction is the
  account the legacy scheduler selects, and the parity prediction is the account the parity
  scheduler selects, except when the latter would sleep for a sticky session.\<close>

theorem predictions_agree:
  "predictLegacyAccountCandidateId m es sk now = map_option fst (fst (selectLegacyTokenCandidate m es sk now)) \<and>
   (getSchedulingMode m \<noteq> CacheFirst \<or> getValidSessionBinding m sk now = None \<longrightarrow>
     predictParityAccountCandidateId m es sk model now =
       map_option fst (fst (selectParityTokenCandidate m es sk model now later)))"
  by (auto simp: predictLegacyAccountCandidateId_def selectLegacyTokenCandidate_def
      predictParityAccountCandidateId_def selectParityTokenCandidate_def cache_wait_def Let_def
      peekRoundRobinCandidateAccountId_def pickRoundRobinEntry_def split: option.splits)

end
