(* ===== verification/TokenManager.thy ===== *)
theory TokenManager
  imports Scheduler
begin

section \<open>The token manager\<close>

text \<open>
  The operations of \<open>TokenManagerService\<close> that change its state: loading accounts and
  external credentials, cool-downs and upstream errors, token refresh, project resolution, and
  \<open>getNextToken\<close>, composed as the class composes them. The Google API, the database, the
  credentials file and the environment are fields of the record \<open>env\<close>: what a call would
  return, with None for a rejected promise. Writes to the database are collected in
  the state, in order. One request runs at a time, so the per-account promise locks
  (\<open>runAccountLock\<close>) are the theory AccountLock's subject.
\<close>

record refreshed_token =
  rt_access_token :: string
  rt_refresh_token :: "string option"
  rt_id_token :: "string option"
  rt_expires_in :: rat
  rt_oauth_client_key :: "string option"

record env =
  e_now :: rat
  e_later :: rat
  e_done :: rat
  e_date_parse :: "string \<Rightarrow> js_number"
  e_sha256_hex :: "string \<Rightarrow> string"
  e_random :: "nat \<Rightarrow> nat"
  e_accounts :: "cloud_account list option"
  e_credentials_file :: string
  e_file_mtime :: "rat option"
  e_file_content :: "string option"
  e_fetchQuota :: "string \<Rightarrow> string option \<Rightarrow> cloud_quota option"
  e_updateQuota_ok :: bool
  e_refreshAccessToken :: "string \<Rightarrow> string option \<Rightarrow> string option \<Rightarrow> refreshed_token option"
  e_fetchProjectId :: "string \<Rightarrow> string option option"
  e_persisted :: "string \<Rightarrow> cloud_token option"
  e_fallback_project :: "string option"

record service = manager +
  s_token_writes :: "(string \<times> cloud_token) list"

definition new_service :: "server_config option \<Rightarrow> service" where
  "new_service config = manager.extend (new_manager config) \<lparr>s_token_writes = []\<rparr>"

definition cred_env :: "env \<Rightarrow> credential_env" where
  "cred_env e = \<lparr>ce_sha256_hex = e_sha256_hex e, ce_date_parse = e_date_parse e, ce_now = e_now e\<rparr>"

subsection \<open>Loading accounts\<close>

text \<open>Each item is mapped with a random number of its own, its position in the load.\<close>

definition load_account :: "env \<Rightarrow> cloud_account \<Rightarrow> nat \<times> nat \<times> service \<Rightarrow> nat \<times> nat \<times> service" where
  "load_account e account = (\<lambda>(i, count, s).
     (case mapAccountToTokenData (e_random e i) account (m_rules s) of
        (None, rules) \<Rightarrow> (Suc i, count, s\<lparr>m_rules := rules\<rparr>)
      | (Some td, rules) \<Rightarrow>
          (Suc i, Suc count,
           s\<lparr>m_rules := rules, m_tokens := AList.update (ca_id account) td (m_tokens s)\<rparr>)))"

definition load_external :: "env \<Rightarrow> json \<Rightarrow> nat \<times> nat \<times> service \<Rightarrow> nat \<times> nat \<times> service" where
  "load_external e item = (\<lambda>(i, count, s).
     (case mapExternalCredentialToTokenData (cred_env e) (e_random e i) item of
        None \<Rightarrow> (Suc i, count, s)
      | Some td \<Rightarrow> (Suc i, Suc count, s\<lparr>m_tokens := AList.update (td_account_id td) td (m_tokens s)\<rparr>)))"

definition loadExternalCredentialAccounts :: "env \<Rightarrow> nat \<Rightarrow> service \<Rightarrow> nat \<times> service" where
  "loadExternalCredentialAccounts e i s =
     (if e_credentials_file e = [] then (0, s)
      else (case (e_file_mtime e, e_file_content e) of
          (Some mtime, Some raw) \<Rightarrow>
            (let s' = s\<lparr>m_credentials_mtime := mtime\<rparr>;
                 (_, count, s'') = fold (load_external e) (parseExternalCredentialPayload raw) (i, 0, s')
             in (count, s''))
        | _ \<Rightarrow> (0, s\<lparr>m_credentials_mtime := 0\<rparr>)))"

definition loadAccounts :: "env \<Rightarrow> service \<Rightarrow> nat \<times> service" where
  "loadAccounts e s =
     (case e_accounts e of
        None \<Rightarrow> (0, s)
      | Some accounts \<Rightarrow>
          (let (i, count, s1) = fold (load_account e) accounts
                 (0, 0, s\<lparr>m_tokens := [], m_probeCache := []\<rparr>);
               (external, s2) = loadExternalCredentialAccounts e i s1
           in (count + external, s2)))"

definition clearAllSessions :: "service \<Rightarrow> service" where
  "clearAllSessions s = s\<lparr>m_sessions := []\<rparr>"

definition clearAllRateLimits :: "service \<Rightarrow> service" where
  "clearAllRateLimits s = s\<lparr>m_cooldowns := [], m_tracker := snd (tracker_clearAll (m_tracker s))\<rparr>"

definition reloadAllAccounts :: "env \<Rightarrow> service \<Rightarrow> nat \<times> service" where
  "reloadAllAccounts e s =
     (let (count, s') = loadAccounts e s in (count, clearAllSessions (clearAllRateLimits s')))"

definition reloadExternalCredentialsIfChanged :: "env \<Rightarrow> service \<Rightarrow> service" where
  "reloadExternalCredentialsIfChanged e s =
     (if e_credentials_file e = [] then s
      else (case e_file_mtime e of
          None \<Rightarrow> if m_credentials_mtime s \<noteq> 0 then snd (loadAccounts e s) else s
        | Some mtime \<Rightarrow> if mtime \<noteq> m_credentials_mtime s then snd (loadAccounts e s) else s))"

subsection \<open>Scoped credentials\<close>

definition upsert_scoped ::
  "env \<Rightarrow> string \<Rightarrow> json \<Rightarrow> nat \<times> string list \<times> service \<Rightarrow> nat \<times> string list \<times> service" where
  "upsert_scoped e scope item = (\<lambda>(i, ids, s).
     (case mapExternalCredentialToTokenData (cred_env e) (e_random e i) item of
        None \<Rightarrow> (Suc i, ids, s)
      | Some td \<Rightarrow>
          (let scopedAccountId = scope @ '':'' @ td_account_id td;
               td' = td\<lparr>td_account_id := scopedAccountId, td_source_scope := Some scope\<rparr>
           in (Suc i, ids @ [scopedAccountId],
               s\<lparr>m_tokens := AList.update scopedAccountId td' (m_tokens s)\<rparr>))))"

definition stale_scoped :: "string \<Rightarrow> string list \<Rightarrow> service \<Rightarrow> string list" where
  "stale_scoped scope active s =
     map fst (filter (\<lambda>(a, td). td_source_scope td = Some scope \<and> a \<notin> set active) (m_tokens s))"

definition drop_account :: "string \<Rightarrow> service \<Rightarrow> service" where
  "drop_account a s = s\<lparr>m_tokens := AList.delete a (m_tokens s),
     m_cooldowns := AList.delete a (m_cooldowns s),
     m_tracker := snd (tracker_clear a (m_tracker s))\<rparr>"

definition upsertScopedExternalCredentials ::
  "env \<Rightarrow> string \<Rightarrow> json list \<Rightarrow> service \<Rightarrow> nat \<times> service" where
  "upsertScopedExternalCredentials e scopeKey credentials s =
     (let scope = js_trim scopeKey
      in if scope = [] \<or> credentials = [] then (0, s)
         else (let fingerprint = e_sha256_hex e (json_stringify (JArr credentials))
               in if map_of (m_fingerprints s) scope = Some fingerprint then (length credentials, s)
                  else (let (_, ids, s1) = fold (upsert_scoped e scope) credentials (0, [], s);
                            s2 = fold drop_account (stale_scoped scope ids s1) s1
                        in (length ids, s2\<lparr>m_fingerprints := AList.update scope fingerprint (m_fingerprints s2)\<rparr>))))"

subsection \<open>Cool-downs and upstream errors\<close>

definition resolveAccountId :: "string \<Rightarrow> service \<Rightarrow> string option" where
  "resolveAccountId accountIdOrEmail s =
     (if map_of (m_tokens s) accountIdOrEmail \<noteq> None then Some accountIdOrEmail
      else map_option fst (List.find (\<lambda>(_, td). td_email td = accountIdOrEmail) (m_tokens s)))"

definition resolved_id :: "string \<Rightarrow> service \<Rightarrow> string" where
  "resolved_id a s = (case resolveAccountId a s of Some i \<Rightarrow> i | None \<Rightarrow> a)"

definition isRateLimited :: "rat \<Rightarrow> string \<Rightarrow> string option \<Rightarrow> service \<Rightarrow> bool" where
  "isRateLimited now accountIdOrEmail model s =
     (let accountId = resolved_id accountIdOrEmail s
      in if cooling_down now (manager.truncate s) accountId then True
         else tracker_isRateLimited now (m_tracker s) accountId model)"

definition setAccountCooldown :: "rat \<Rightarrow> string \<Rightarrow> rat \<Rightarrow> service \<Rightarrow> service" where
  "setAccountCooldown now accountIdOrEmail durationMs s =
     s\<lparr>m_cooldowns := AList.update (resolved_id accountIdOrEmail s) (Fin (now + durationMs)) (m_cooldowns s)\<rparr>"

definition markAsRateLimited :: "rat \<Rightarrow> string \<Rightarrow> service \<Rightarrow> service" where
  "markAsRateLimited now a s = setAccountCooldown now a rateLimitCooldownMs s"

definition markAsForbidden :: "rat \<Rightarrow> string \<Rightarrow> service \<Rightarrow> service" where
  "markAsForbidden now a s = setAccountCooldown now a forbiddenCooldownMs s"

definition detectRateLimitReasonFromBody :: "string option \<Rightarrow> rate_limit_reason" where
  "detectRateLimitReasonFromBody body =
     (let lowerBody = toLowerText body
      in if str_contains lowerBody ''model_capacity'' then ModelCapacityExhausted
         else if str_contains lowerBody ''exhausted'' \<or> str_contains lowerBody ''quota'' then QuotaExhausted
         else if str_contains lowerBody ''per minute'' \<or> str_contains lowerBody ''rate limit'' \<or>
                 str_contains lowerBody ''rate_limit'' then RateLimitExceeded
         else Unknown)"

definition setPreciseLockoutFromCachedQuota ::
  "env \<Rightarrow> string \<Rightarrow> rate_limit_reason \<Rightarrow> string option \<Rightarrow> service \<Rightarrow> bool \<times> service" where
  "setPreciseLockoutFromCachedQuota e accountId reason model s =
     (case Option.bind (map_of (m_tokens s) accountId)
             (\<lambda>td. findEarliestQuotaResetTime (td_model_reset_times td)) of
        None \<Rightarrow> (False, s)
      | Some resetTime \<Rightarrow>
          (let (ok, t) = setLockoutUntilIso (e_date_parse e) (e_now e) accountId resetTime reason model (m_tracker s)
           in (ok, s\<lparr>m_tracker := t\<rparr>)))"

definition refreshRealtimeQuotaAndSetPreciseLockout ::
  "env \<Rightarrow> string \<Rightarrow> rate_limit_reason \<Rightarrow> string option \<Rightarrow> service \<Rightarrow> bool \<times> service" where
  "refreshRealtimeQuotaAndSetPreciseLockout e accountId reason model s =
     (case map_of (m_tokens s) accountId of
        None \<Rightarrow> (False, s)
      | Some td \<Rightarrow>
          (case e_fetchQuota e (td_access_token td) None of
             None \<Rightarrow> (False, s)
           | Some latestQuota \<Rightarrow>
               (let (snap, rules) = extractQuotaSnapshot (Some latestQuota) (m_rules s);
                    s1 = s\<lparr>m_rules := rules,
                           m_tokens := AList.update accountId (store_snapshot latestQuota snap td) (m_tokens s)\<rparr>
                in if \<not> e_updateQuota_ok e then (False, s1)
                   else (case findEarliestQuotaResetTime (qs_reset_times snap) of
                       None \<Rightarrow> (False, s1)
                     | Some resetTime \<Rightarrow>
                         (let (ok, t) = setLockoutUntilIso (e_date_parse e) (e_now e) accountId resetTime reason model (m_tracker s1)
                          in (ok, s1\<lparr>m_tracker := t\<rparr>))))))"

record upstream_error =
  ue_accountIdOrEmail :: string
  ue_status :: "rat option"
  ue_retryAfter :: "string option"
  ue_body :: "string option"
  ue_model :: "string option"

definition limits_whole_account :: "rate_limit_info \<Rightarrow> bool" where
  "limits_whole_account info \<longleftrightarrow>
     li_reason info \<noteq> QuotaExhausted \<or> \<not> str_truthy (li_model info) \<or> js_trim (the (li_model info)) = []"

text \<open>The tail both branches of \<open>markFromUpstreamError\<close> share: track, then cool the account down.\<close>

definition track_and_cool :: "env \<Rightarrow> string \<Rightarrow> upstream_error \<Rightarrow> service \<Rightarrow> js_error + service" where
  "track_and_cool e accountId p s =
     (case trackFromUpstreamError (e_date_parse e) (e_now e)
             \<lparr>up_accountId = accountId, up_status = ue_status p, up_retryAfter = ue_retryAfter p,
              up_body = ue_body p, up_model = normalizeModelId (ue_model p),
              up_backoffSteps = getCircuitBreakerBackoffSteps (manager.truncate s)\<rparr> (m_tracker s) of
        Inl err \<Rightarrow> Inl err
      | Inr (None, t) \<Rightarrow> Inr (s\<lparr>m_tracker := t\<rparr>)
      | Inr (Some info, t) \<Rightarrow>
          (let s' = s\<lparr>m_tracker := t\<rparr>
           in if limits_whole_account info
              then Inr (s'\<lparr>m_cooldowns := AList.update accountId
                     (num_add (Fin (e_now e)) (num_scale 1000 (retryAfterSec info))) (m_cooldowns s')\<rparr>)
              else Inr s'))"

definition has_explicit_retry_window :: "upstream_error \<Rightarrow> bool" where
  "has_explicit_retry_window p \<longleftrightarrow>
     (case ue_retryAfter p of None \<Rightarrow> False | Some r \<Rightarrow> js_trim r \<noteq> []) \<or>
     (str_truthy (ue_body p) \<and> str_contains (the (ue_body p)) ''quotaResetDelay'')"

text \<open>The result of \<open>track_and_cool\<close> as a value for the caller: when the tracker throws, it does
  so before it changes anything.\<close>

definition settle :: "service \<Rightarrow> js_error + service \<Rightarrow> js_error option \<times> service" where
  "settle s r = (case r of Inl err \<Rightarrow> (Some err, s) | Inr s' \<Rightarrow> (None, s'))"

definition markFromUpstreamError :: "env \<Rightarrow> upstream_error \<Rightarrow> service \<Rightarrow> js_error option \<times> service" where
  "markFromUpstreamError e p s =
     (let accountId = resolved_id (ue_accountIdOrEmail p) s;
          normalizedModel = normalizeModelId (ue_model p)
      in if \<not> has_explicit_retry_window p \<and> ue_status p = Some 429 then
           (let reason = detectRateLimitReasonFromBody (ue_body p)
            in if \<not> (reason = QuotaExhausted \<or> reason = Unknown)
               then settle s (track_and_cool e accountId p s)
               else (let (locked, s1) = refreshRealtimeQuotaAndSetPreciseLockout e accountId reason normalizedModel s
                     in if locked then (None, s1)
                        else (let (locked', s2) = setPreciseLockoutFromCachedQuota e accountId reason normalizedModel s1
                              in if locked' then (None, s2)
                                 else settle s2 (track_and_cool e accountId p s2))))
         else settle s (track_and_cool e accountId p s))"

subsection \<open>Finalising a selection\<close>

definition DEFAULT_OAUTH_CLIENT_KEY :: string where
  "DEFAULT_OAUTH_CLIENT_KEY = ''antigravity_enterprise''"

text \<open>\<open>GoogleAPIService.normalizeRefreshedOAuthClientKey\<close>\<close>

definition normalizeRefreshedOAuthClientKey :: "string option \<Rightarrow> string option \<Rightarrow> string option \<Rightarrow> string option" where
  "normalizeRefreshedOAuthClientKey currentKey currentProject refreshedClientKey =
     (let resolved = (case refreshedClientKey of Some k \<Rightarrow> Some k | None \<Rightarrow> currentKey);
          projectMissing = (case currentProject of None \<Rightarrow> True | Some p \<Rightarrow> js_trim p = [])
      in if currentKey = None \<and> projectMissing \<and> str_truthy resolved \<and>
            js_lower (js_trim (the resolved)) = DEFAULT_OAUTH_CLIENT_KEY
         then None
         else if str_truthy resolved then Some (js_lower (js_trim (the resolved))) else None)"

definition or_else :: "'a option \<Rightarrow> 'a option \<Rightarrow> 'a option" where
  "or_else a b = (case a of Some x \<Rightarrow> Some x | None \<Rightarrow> b)"

definition persistTokenState :: "env \<Rightarrow> string \<Rightarrow> token_data \<Rightarrow> service \<Rightarrow> service" where
  "persistTokenState e accountId td s =
     (if starts_with accountId ''external-'' then s
      else (case e_persisted e accountId of
          None \<Rightarrow> s
        | Some p \<Rightarrow> s\<lparr>s_token_writes := s_token_writes s @ [(accountId,
            p\<lparr>ct_access_token := td_access_token td, ct_refresh_token := td_refresh_token td,
              ct_id_token := or_else (td_id_token td) (ct_id_token p),
              ct_expires_in := td_expires_in td, ct_expiry_timestamp := td_expiry_timestamp td,
              ct_project_id := or_else (td_project_id td) (ct_project_id p),
              ct_oauth_client_key := or_else (td_oauth_client_key td)
                (or_else (normalizeClientKey (ct_oauth_client_key p)) (ct_oauth_client_key p)),
              ct_session_id := or_else (td_session_id td) (ct_session_id p),
              ct_upstream_proxy_url := or_else (td_upstream_proxy_url td) (ct_upstream_proxy_url p)\<rparr>)]\<rparr>))"

definition set_token :: "string \<Rightarrow> token_data \<Rightarrow> service \<Rightarrow> service" where
  "set_token accountId td s = s\<lparr>m_tokens := AList.update accountId td (m_tokens s)\<rparr>"

definition refreshSelectedTokenLocked ::
  "env \<Rightarrow> string \<Rightarrow> token_data \<Rightarrow> rat \<Rightarrow> service \<Rightarrow> token_data \<times> service" where
  "refreshSelectedTokenLocked e accountId td nowSeconds s =
     (let latest = map_of (m_tokens s) accountId;
          t = (case latest of Some l \<Rightarrow> l | None \<Rightarrow> td)
      in if latest \<noteq> None \<and> nowSeconds < td_expiry_timestamp t - 300 then (t, s)
         else (case e_refreshAccessToken e (td_refresh_token t) (td_upstream_proxy_url t) (td_oauth_client_key t) of
             None \<Rightarrow> (td, s)
           | Some r \<Rightarrow>
               (let t' = t\<lparr>td_access_token := rt_access_token r,
                      td_refresh_token := (case rt_refresh_token r of Some x \<Rightarrow> x | None \<Rightarrow> td_refresh_token t),
                      td_id_token := or_else (rt_id_token r) (td_id_token t),
                      td_expires_in := rt_expires_in r,
                      td_expiry_timestamp := nowSeconds + rt_expires_in r,
                      td_oauth_client_key := normalizeRefreshedOAuthClientKey (td_oauth_client_key t)
                        (td_project_id t) (rt_oauth_client_key r)\<rparr>
                in (t', set_token accountId t' (persistTokenState e accountId t' s)))))"

definition refreshSelectedTokenIfNeeded ::
  "env \<Rightarrow> string \<Rightarrow> token_data \<Rightarrow> rat \<Rightarrow> service \<Rightarrow> token_data \<times> service" where
  "refreshSelectedTokenIfNeeded e accountId td nowSeconds s =
     (if nowSeconds < td_expiry_timestamp td - 300 then (td, s)
      else (let (td', s') = refreshSelectedTokenLocked e accountId td nowSeconds s
            in (case map_of (m_tokens s') accountId of Some l \<Rightarrow> (l, s') | None \<Rightarrow> (td', s'))))"

definition refreshScopedQuotaSnapshotIfNeeded ::
  "env \<Rightarrow> string \<Rightarrow> token_data \<Rightarrow> service \<Rightarrow> token_data \<times> service" where
  "refreshScopedQuotaSnapshotIfNeeded e accountId td s =
     (if \<not> str_truthy (td_source_scope td) \<or> td_quota td \<noteq> None then (td, s)
      else (case e_fetchQuota e (td_access_token td) (td_upstream_proxy_url td) of
          None \<Rightarrow> (td, s)
        | Some q \<Rightarrow>
            (let (snap, rules) = extractQuotaSnapshot (Some q) (m_rules s);
                 td' = store_snapshot q snap td
             in (td', set_token accountId td' (s\<lparr>m_rules := rules\<rparr>)))))"

definition resolveProjectIdLocked ::
  "env \<Rightarrow> string \<Rightarrow> token_data \<Rightarrow> service \<Rightarrow> string option \<times> service" where
  "resolveProjectIdLocked e accountId td s =
     (let latest = (case map_of (m_tokens s) accountId of Some l \<Rightarrow> l | None \<Rightarrow> td)
      in case normalizeProjectId (td_project_id latest) of
           Some p \<Rightarrow> (Some p, s)
         | None \<Rightarrow>
             (case e_fetchProjectId e (td_access_token latest) of
                None \<Rightarrow> (None, s)
              | Some fetched \<Rightarrow>
                  (case normalizeProjectId fetched of
                     None \<Rightarrow> (None, s)
                   | Some p \<Rightarrow>
                       (let latest' = latest\<lparr>td_project_id := Some p\<rparr>
                        in (Some p, set_token accountId latest' (persistTokenState e accountId latest' s))))))"

definition resolveProjectIdWithLock ::
  "env \<Rightarrow> string \<Rightarrow> token_data \<Rightarrow> service \<Rightarrow> string option \<times> service" where
  "resolveProjectIdWithLock e accountId td s =
     (case normalizeProjectId (Option.bind (map_of (m_tokens s) accountId) td_project_id) of
        Some p \<Rightarrow> (Some p, set_token accountId ((the (map_of (m_tokens s) accountId))\<lparr>td_project_id := Some p\<rparr>) s)
      | None \<Rightarrow> resolveProjectIdLocked e accountId td s)"

definition defaultFallbackProjectId :: string where
  "defaultFallbackProjectId = ''silver-orbit-5m7qc''"

definition resolveFallbackProjectId :: "env \<Rightarrow> string" where
  "resolveFallbackProjectId e =
     (case normalizeProjectId (map_option js_trim (e_fallback_project e)) of
        Some p \<Rightarrow> p | None \<Rightarrow> defaultFallbackProjectId)"

definition finalizeSelectedToken ::
  "env \<Rightarrow> string \<Rightarrow> token_data \<Rightarrow> rat \<Rightarrow> string option \<Rightarrow> service \<Rightarrow> cloud_account option \<times> service" where
  "finalizeSelectedToken e accountId td nowSeconds sessionKey s =
     (let (td1, s1) = refreshSelectedTokenIfNeeded e accountId td nowSeconds s;
          (td2, s2) = refreshScopedQuotaSnapshotIfNeeded e accountId td1 s1;
          td3 = (if normalizeProjectId (td_project_id td2) = None then td2\<lparr>td_project_id := None\<rparr> else td2);
          s3 = set_token accountId td3 s2;
          (resolved, s4) = (if \<not> str_truthy (td_project_id td3)
             then resolveProjectIdWithLock e accountId td3 s3 else (td_project_id td3, s3));
          project = (if \<not> str_truthy resolved then resolveFallbackProjectId e else the resolved);
          s5 = s4\<lparr>m_tracker := markSuccess accountId (m_tracker s4)\<rparr>;
          s6 = (if str_truthy sessionKey
             then s5\<lparr>m_sessions := AList.update (the sessionKey)
                    \<lparr>sb_accountId = accountId, sb_expiresAt = e_done e + stickySessionTtlMs\<rparr> (m_sessions s5)\<rparr>
             else s5)
      in (Some \<lparr>ca_id = accountId, ca_email = td_email td3,
            ca_token = Some \<lparr>ct_access_token = td_access_token td3, ct_refresh_token = td_refresh_token td3,
              ct_id_token = td_id_token td3, ct_token_type = td_token_type td3,
              ct_expires_in = td_expires_in td3, ct_expiry_timestamp = td_expiry_timestamp td3,
              ct_project_id = Some project, ct_oauth_client_key = td_oauth_client_key td3,
              ct_session_id = td_session_id td3, ct_upstream_proxy_url = td_upstream_proxy_url td3\<rparr>,
            ca_quota = None, ca_proxy_url = None, ca_created_at = e_done e, ca_last_used = e_done e\<rparr>, s6))"

subsection \<open>The next token\<close>

record token_options =
  o_sessionKey :: "string option"
  o_excludeAccountIds :: "string list"
  o_model :: "string option"
  o_scopeKey :: "string option"

definition in_scope :: "string option \<Rightarrow> token_data \<Rightarrow> bool" where
  "in_scope scopeKey td \<longleftrightarrow>
     (if \<not> str_truthy scopeKey then td_source_scope td = None else td_source_scope td = scopeKey)"

definition candidate_pool :: "token_options \<Rightarrow> service \<Rightarrow> token_entry list" where
  "candidate_pool opts s =
     (let full = filter (\<lambda>(_, td). in_scope (map_option js_trim (o_scopeKey opts)) td) (m_tokens s);
          filtered = filter (\<lambda>(a, _). a \<notin> set (o_excludeAccountIds opts)) full
      in if filtered \<noteq> [] then filtered else full)"

definition with_manager :: "manager \<Rightarrow> service \<Rightarrow> service" where
  "with_manager m s = manager.extend m \<lparr>s_token_writes = s_token_writes s\<rparr>"

definition prepare_selection :: "env \<Rightarrow> token_options \<Rightarrow> service \<Rightarrow> service" where
  "prepare_selection e opts s =
     (let s1 = (if \<not> str_truthy (map_option js_trim (o_scopeKey opts))
                then reloadExternalCredentialsIfChanged e s else s)
      in if m_tokens s1 = [] then snd (loadAccounts e s1) else s1)"

definition housekeeping :: "rat \<Rightarrow> service \<Rightarrow> service" where
  "housekeeping now s =
     (let s1 = with_manager (clearExpiredSessionBindings now (manager.truncate s)) s
      in s1\<lparr>m_tracker := snd (cleanupExpired now (m_tracker s1))\<rparr>)"

definition getNextToken :: "env \<Rightarrow> token_options \<Rightarrow> service \<Rightarrow> cloud_account option \<times> service" where
  "getNextToken e opts s =
     (let s0 = prepare_selection e opts s
      in if m_tokens s0 = [] then (None, s0)
         else (let now = e_now e;
                   sessionKey = buildScopedSessionKey (map_option js_trim (o_scopeKey opts))
                     (map_option js_trim (o_sessionKey opts));
                   s1 = housekeeping now s0;
                   pool = candidate_pool opts s1
               in if pool = [] then (None, s1)
                  else (let m1 = manager.truncate s1;
                            m2 = (if shouldExecuteShadowComparison m1
                                  then executeShadowComparison m1 pool sessionKey (o_model opts) now else m1);
                            (selected, m3) = (if isParitySchedulingEnabled m2
                               then selectParityTokenCandidate m2 pool sessionKey (o_model opts) now (e_later e)
                               else selectLegacyTokenCandidate m2 pool sessionKey now)
                        in (case selected of
                              None \<Rightarrow> (None, with_manager m3 s1)
                            | Some (accountId, td) \<Rightarrow>
                                (let m4 = (if isParitySchedulingEnabled m3
                                     then m3\<lparr>m_parityRequests := Suc (m_parityRequests m3)\<rparr> else m3)
                                 in finalizeSelectedToken e accountId td (now_seconds now) sessionKey
                                      (with_manager m4 s1))))))"

text \<open>What a selection awaits; the function follows \<open>getNextToken\<close> up to the choice of the account.\<close>

definition getNextToken_wait :: "env \<Rightarrow> token_options \<Rightarrow> service \<Rightarrow> js_number option" where
  "getNextToken_wait e opts s =
     (let s0 = prepare_selection e opts s
      in if m_tokens s0 = [] then None
         else (let now = e_now e;
                   sessionKey = buildScopedSessionKey (map_option js_trim (o_scopeKey opts)) (map_option js_trim (o_sessionKey opts));
                   s1 = housekeeping now s0; pool = candidate_pool opts s1
               in if pool = [] then None
                  else (let m1 = manager.truncate s1;
                            m2 = (if shouldExecuteShadowComparison m1
                                  then executeShadowComparison m1 pool sessionKey (o_model opts) now else m1)
                        in if isParitySchedulingEnabled m2 then parity_wait m2 pool sessionKey (o_model opts) now else None)))"

end
