(* ===== verification/TokenManagerFacts.thy ===== *)
theory TokenManagerFacts
  imports TokenManager
begin

section \<open>Properties of the token manager\<close>

text \<open>
  The invariant of the service state, what each operation changes, and the properties of
  \<open>getNextToken\<close>, \<open>markFromUpstreamError\<close> and \<open>upsertScopedExternalCredentials\<close>; at the end
  the step relation of all operations, whose reachable states satisfy the invariant.
\<close>

subsection \<open>The state invariant\<close>

text \<open>Every key of the token map is the account id of its entry, and a scoped account carries its
  scope as a prefix of its id.\<close>

definition token_ok :: "string \<times> token_data \<Rightarrow> bool" where
  "token_ok = (\<lambda>(a, td). td_account_id td = a \<and>
     (\<forall>sc. td_source_scope td = Some sc \<longrightarrow> (\<exists>r. a = sc @ '':'' @ r)))"

definition tokens_ok :: "token_data js_map \<Rightarrow> bool" where
  "tokens_ok ts \<longleftrightarrow> map_keys_ok ts \<and> (\<forall>e\<in>set ts. token_ok e)"

definition service_ok :: "service \<Rightarrow> bool" where
  "service_ok s \<longleftrightarrow> tokens_ok (m_tokens s) \<and> tracker_ok (m_tracker s) \<and>
     map_keys_ok (m_sessions s) \<and> map_keys_ok (m_cooldowns s) \<and>
     m_shadowMismatches s \<le> m_shadowComparisons s"

lemma set_update_subset: "set (AList.update k v m) \<subseteq> insert (k, v) (set m)"
proof (induction m)
  case (Cons kv m)
  then show ?case by (cases kv) auto
qed simp

lemma tokens_ok_Nil [simp, intro]: "tokens_ok []"
  by (simp add: tokens_ok_def)

lemma tokens_ok_update: "tokens_ok ts \<Longrightarrow> token_ok (a, td) \<Longrightarrow> tokens_ok (AList.update a td ts)"
  using set_update_subset [of a td ts] by (auto simp: tokens_ok_def map_ok_intros)

lemma set_delete_subset: "set (AList.delete k m) \<subseteq> set m"
  by (auto simp: AList.delete_eq)

lemma tokens_ok_delete: "tokens_ok ts \<Longrightarrow> tokens_ok (AList.delete a ts)"
  using set_delete_subset [of a ts] by (auto simp: tokens_ok_def map_ok_intros)

lemma tokens_ok_lookup: "tokens_ok ts \<Longrightarrow> map_of ts a = Some td \<Longrightarrow> token_ok (a, td)"
  by (auto simp: tokens_ok_def dest: map_of_SomeD)

lemma token_ok_same:
  "token_ok (a, td) \<Longrightarrow> td_account_id td' = td_account_id td \<Longrightarrow> td_source_scope td' = td_source_scope td
     \<Longrightarrow> token_ok (a, td')"
  by (simp add: token_ok_def)

lemma in_tokens_map_of: "tokens_ok ts \<Longrightarrow> (a, td) \<in> set ts \<Longrightarrow> map_of ts a = Some td"
  by (auto simp: tokens_ok_def map_keys_ok_def)

lemma mapAccount_ids:
  "mapAccountToTokenData r acc rules = (Some td, rules') \<Longrightarrow> td_account_id td = ca_id acc \<and> td_source_scope td = None"
  by (auto simp: mapAccountToTokenData_def split: option.splits prod.splits)

lemma mapExternal_scope:
  "mapExternalCredentialToTokenData ce r item = Some td \<Longrightarrow> td_source_scope td = None"
  by (auto simp: mapExternalCredentialToTokenData_def external_token_data_def Let_def
      split: option.splits)

text \<open>The fields a load leaves alone.\<close>

definition same_but_tokens :: "service \<Rightarrow> service \<Rightarrow> bool" where
  "same_but_tokens s s' \<longleftrightarrow>
     m_currentIndex s' = m_currentIndex s \<and> m_cooldowns s' = m_cooldowns s \<and> m_sessions s' = m_sessions s \<and>
     m_tracker s' = m_tracker s \<and> m_shadowComparisons s' = m_shadowComparisons s \<and>
     m_shadowMismatches s' = m_shadowMismatches s \<and> m_parityRequests s' = m_parityRequests s \<and>
     m_parityErrors s' = m_parityErrors s \<and> m_noGo s' = m_noGo s \<and> m_config s' = m_config s \<and>
     m_fingerprints s' = m_fingerprints s \<and> s_token_writes s' = s_token_writes s"

lemma same_but_tokens_refl [simp]: "same_but_tokens s s"
  by (simp add: same_but_tokens_def)

lemma same_but_tokens_trans: "same_but_tokens s s' \<Longrightarrow> same_but_tokens s' s'' \<Longrightarrow> same_but_tokens s s''"
  by (simp add: same_but_tokens_def)

lemma load_account_step:
  assumes "load_account e acc (i, n, s) = (i', n', s')"
  shows "same_but_tokens s s' \<and> (tokens_ok (m_tokens s) \<longrightarrow> tokens_ok (m_tokens s'))"
proof (cases "mapAccountToTokenData (e_random e i) acc (m_rules s)")
  case (Pair r rules)
  show ?thesis
  proof (cases r)
    case None
    with assms Pair have "s' = s\<lparr>m_rules := rules\<rparr>" by (simp add: load_account_def)
    then show ?thesis by (simp add: same_but_tokens_def)
  next
    case (Some td)
    with assms Pair
    have "s' = s\<lparr>m_rules := rules, m_tokens := AList.update (ca_id acc) td (m_tokens s)\<rparr>"
      by (simp add: load_account_def)
    moreover have "token_ok (ca_id acc, td)"
      using mapAccount_ids Pair Some by (simp add: token_ok_def)
    ultimately show ?thesis by (simp add: same_but_tokens_def tokens_ok_update)
  qed
qed

lemma load_external_step:
  assumes "load_external e item (i, n, s) = (i', n', s')"
  shows "same_but_tokens s s' \<and> (tokens_ok (m_tokens s) \<longrightarrow> tokens_ok (m_tokens s'))"
proof (cases "mapExternalCredentialToTokenData (cred_env e) (e_random e i) item")
  case None
  with assms show ?thesis by (simp add: load_external_def)
next
  case (Some td)
  with assms have "s' = s\<lparr>m_tokens := AList.update (td_account_id td) td (m_tokens s)\<rparr>"
    by (simp add: load_external_def)
  moreover have "token_ok (td_account_id td, td)"
    using mapExternal_scope [OF Some] by (simp add: token_ok_def)
  ultimately show ?thesis by (simp add: same_but_tokens_def tokens_ok_update)
qed

lemma fold_load_account:
  "fold (load_account e) accs (i, n, s) = (i', n', s') \<Longrightarrow>
   same_but_tokens s s' \<and> (tokens_ok (m_tokens s) \<longrightarrow> tokens_ok (m_tokens s'))"
proof (induction accs arbitrary: i n s)
  case (Cons a accs)
  obtain i1 n1 s1 where st: "load_account e a (i, n, s) = (i1, n1, s1)" by (metis prod_cases3)
  with Cons.prems have "fold (load_account e) accs (i1, n1, s1) = (i', n', s')" by simp
  from Cons.IH [OF this] load_account_step [OF st] show ?case
    using same_but_tokens_trans by blast
qed simp

lemma fold_load_external:
  "fold (load_external e) items (i, n, s) = (i', n', s') \<Longrightarrow>
   same_but_tokens s s' \<and> (tokens_ok (m_tokens s) \<longrightarrow> tokens_ok (m_tokens s'))"
proof (induction items arbitrary: i n s)
  case (Cons a items)
  obtain i1 n1 s1 where st: "load_external e a (i, n, s) = (i1, n1, s1)" by (metis prod_cases3)
  with Cons.prems have "fold (load_external e) items (i1, n1, s1) = (i', n', s')" by simp
  from Cons.IH [OF this] load_external_step [OF st] show ?case
    using same_but_tokens_trans by blast
qed simp

lemma loadExternal_frame:
  assumes "loadExternalCredentialAccounts e i s = (n, s')"
  shows "same_but_tokens s s' \<and> (tokens_ok (m_tokens s) \<longrightarrow> tokens_ok (m_tokens s'))"
proof -
  have mt: "same_but_tokens s (s\<lparr>m_credentials_mtime := x\<rparr>)" for x by (simp add: same_but_tokens_def)
  consider "s' = s" | "s' = s\<lparr>m_credentials_mtime := 0\<rparr>"
    | x items i' k where "fold (load_external e) items (i, 0, s\<lparr>m_credentials_mtime := x\<rparr>) = (i', k, s')"
    using assms
    by (auto simp: loadExternalCredentialAccounts_def Let_def split: if_splits option.splits prod.splits)
  then show ?thesis
  proof cases
    case 3
    from fold_load_external [OF 3] mt same_but_tokens_trans show ?thesis by auto
  qed (simp_all add: mt)
qed

lemma loadAccounts_frame:
  assumes "tokens_ok (m_tokens s)"
  shows "same_but_tokens s (snd (loadAccounts e s)) \<and> tokens_ok (m_tokens (snd (loadAccounts e s)))"
proof (cases "e_accounts e")
  case None
  with assms show ?thesis by (simp add: loadAccounts_def)
next
  case (Some accs)
  let ?s = "s\<lparr>m_tokens := [], m_probeCache := []\<rparr>"
  obtain i n s1 where f: "fold (load_account e) accs (0, 0, ?s) = (i, n, s1)" by (metis prod_cases3)
  obtain k s2 where g: "loadExternalCredentialAccounts e i s1 = (k, s2)" by fastforce
  have "same_but_tokens s ?s" by (simp add: same_but_tokens_def)
  then have "same_but_tokens s s1" using fold_load_account [OF f] same_but_tokens_trans by blast
  then have "same_but_tokens s s2 \<and> tokens_ok (m_tokens s2)"
    using fold_load_account [OF f] loadExternal_frame [OF g] same_but_tokens_trans [of s s1 s2] by auto
  then show ?thesis by (simp add: loadAccounts_def Some f g)
qed

lemma prepare_frame:
  assumes "tokens_ok (m_tokens s)"
  shows "same_but_tokens s (prepare_selection e opts s) \<and> tokens_ok (m_tokens (prepare_selection e opts s))"
proof -
  define s1 where "s1 = (if \<not> str_truthy (map_option js_trim (o_scopeKey opts))
                then reloadExternalCredentialsIfChanged e s else s)"
  have s1: "same_but_tokens s s1 \<and> tokens_ok (m_tokens s1)"
    using loadAccounts_frame [OF assms] assms
    by (auto simp: s1_def reloadExternalCredentialsIfChanged_def split: option.splits)
  have "prepare_selection e opts s = (if m_tokens s1 = [] then snd (loadAccounts e s1) else s1)"
    by (simp add: prepare_selection_def s1_def)
  with s1 loadAccounts_frame [of s1 e] same_but_tokens_trans [of s s1] show ?thesis by simp
qed


subsection \<open>What the steps of a finalisation change\<close>

text \<open>Only the token map, the forwarding rules and the database writes change.\<close>

definition token_work :: "service \<Rightarrow> service \<Rightarrow> bool" where
  "token_work s s' \<longleftrightarrow>
     m_currentIndex s' = m_currentIndex s \<and> m_cooldowns s' = m_cooldowns s \<and> m_sessions s' = m_sessions s \<and>
     m_tracker s' = m_tracker s \<and> m_shadowComparisons s' = m_shadowComparisons s \<and>
     m_shadowMismatches s' = m_shadowMismatches s \<and> m_parityRequests s' = m_parityRequests s \<and>
     m_parityErrors s' = m_parityErrors s \<and> m_noGo s' = m_noGo s \<and> m_config s' = m_config s"

definition same_ids :: "token_data \<Rightarrow> token_data \<Rightarrow> bool" where
  "same_ids td td' \<longleftrightarrow> td_account_id td' = td_account_id td \<and> td_source_scope td' = td_source_scope td"

definition work_ok :: "string \<Rightarrow> token_data \<Rightarrow> service \<Rightarrow> token_data \<Rightarrow> service \<Rightarrow> bool" where
  "work_ok a td s td' s' \<longleftrightarrow> token_work s s' \<and>
     (tokens_ok (m_tokens s) \<and> token_ok (a, td) \<longrightarrow> tokens_ok (m_tokens s') \<and> token_ok (a, td'))"

lemma work_ok_refl [simp]: "work_ok a td s td s"
  by (simp add: work_ok_def token_work_def)

lemma work_ok_trans: "work_ok a td s td' s' \<Longrightarrow> work_ok a td' s' td'' s'' \<Longrightarrow> work_ok a td s td'' s''"
  by (auto simp: work_ok_def token_work_def)

lemma work_ok_set:
  assumes "same_ids t td'" "tokens_ok (m_tokens s) \<Longrightarrow> token_ok (a, td) \<Longrightarrow> token_ok (a, t)"
    and "token_work s s1" "m_tokens s1 = m_tokens s"
  shows "work_ok a td s td' (set_token a td' s1)"
  using assms by (auto simp: work_ok_def token_work_def set_token_def same_ids_def
      intro: tokens_ok_update token_ok_same)

lemma persist_work: "token_work s (persistTokenState e a td s)" "m_tokens (persistTokenState e a td s) = m_tokens s"
  by (auto simp: persistTokenState_def token_work_def split: option.splits)

lemma latest_ok:
  "tokens_ok (m_tokens s) \<Longrightarrow> token_ok (a, td) \<Longrightarrow>
   token_ok (a, case map_of (m_tokens s) a of Some l \<Rightarrow> l | None \<Rightarrow> td)"
  by (auto split: option.splits dest: tokens_ok_lookup)

lemma refreshLocked_work:
  assumes "refreshSelectedTokenLocked e a td ns s = (td', s')"
  shows "work_ok a td s td' s'"
proof -
  let ?t = "case map_of (m_tokens s) a of Some l \<Rightarrow> l | None \<Rightarrow> td"
  consider "td' = ?t" "s' = s" | "td' = td" "s' = s"
    | "same_ids ?t td'" "s' = set_token a td' (persistTokenState e a td' s)"
    using assms unfolding refreshSelectedTokenLocked_def Let_def
    by (auto simp: same_ids_def split: if_splits option.splits)
  then show ?thesis
  proof cases
    case 1
    then show ?thesis using latest_ok by (auto simp: work_ok_def token_work_def)
  next
    case 2
    then show ?thesis by simp
  next
    case 3
    show ?thesis unfolding 3(2)
      by (rule work_ok_set [OF 3(1) _ persist_work]) (rule latest_ok)
  qed
qed

lemma refreshIfNeeded_work:
  assumes "refreshSelectedTokenIfNeeded e a td ns s = (td', s')"
  shows "work_ok a td s td' s'"
proof (cases "ns < td_expiry_timestamp td - 300")
  case True
  with assms show ?thesis by (simp add: refreshSelectedTokenIfNeeded_def)
next
  case False
  obtain td1 s1 where r: "refreshSelectedTokenLocked e a td ns s = (td1, s1)" by fastforce
  with assms False have "s' = s1" "td' = (case map_of (m_tokens s1) a of Some l \<Rightarrow> l | None \<Rightarrow> td1)"
    by (auto simp: refreshSelectedTokenIfNeeded_def split: option.splits)
  with refreshLocked_work [OF r] latest_ok [of s1 a td1] show ?thesis
    by (auto simp: work_ok_def)
qed

lemma scopedQuota_work:
  assumes "refreshScopedQuotaSnapshotIfNeeded e a td s = (td', s')"
  shows "work_ok a td s td' s'"
proof -
  consider "td' = td" "s' = s"
    | rules where "same_ids td td'" "s' = set_token a td' (s\<lparr>m_rules := rules\<rparr>)"
    using assms unfolding refreshScopedQuotaSnapshotIfNeeded_def
    by (auto simp: same_ids_def store_snapshot_def Let_def split: if_splits option.splits prod.splits)
  then show ?thesis
  proof cases
    case (2 rules)
    have "token_work s (s\<lparr>m_rules := rules\<rparr>)" by (simp add: token_work_def)
    with 2 work_ok_set [of td td' s a td "s\<lparr>m_rules := rules\<rparr>"] show ?thesis by simp
  qed simp
qed

lemma resolveProject_work:
  assumes "resolveProjectIdWithLock e a td s = (p, s')"
  shows "work_ok a td s td s'"
proof -
  let ?t = "case map_of (m_tokens s) a of Some l \<Rightarrow> l | None \<Rightarrow> td"
  consider "s' = s"
    | q where "s' = set_token a (?t\<lparr>td_project_id := q\<rparr>) s"
    | q where "s' = set_token a (?t\<lparr>td_project_id := q\<rparr>) (persistTokenState e a (?t\<lparr>td_project_id := q\<rparr>) s)"
  proof (cases "normalizeProjectId (Option.bind (map_of (m_tokens s) a) td_project_id)")
    case None
    with assms have r: "resolveProjectIdLocked e a td s = (p, s')"
      by (simp add: resolveProjectIdWithLock_def)
    define t where "t = ?t"
    have "s' = s \<or> (\<exists>q. s' = set_token a (t\<lparr>td_project_id := q\<rparr>) (persistTokenState e a (t\<lparr>td_project_id := q\<rparr>) s))"
      using r unfolding resolveProjectIdLocked_def Let_def t_def [symmetric]
      by (auto split: option.splits)
    with that show thesis by (auto simp: t_def)
  next
    case (Some x)
    then obtain l where l: "map_of (m_tokens s) a = Some l"
      by (cases "map_of (m_tokens s) a") (auto simp: normalizeProjectId_def)
    with assms Some have "s' = set_token a (l\<lparr>td_project_id := Some x\<rparr>) s"
      unfolding resolveProjectIdWithLock_def Some by auto
    with that(2) l show thesis by simp
  qed
  then have "work_ok a td s td s' \<or> (\<exists>q. work_ok a td s (?t\<lparr>td_project_id := q\<rparr>) s')"
  proof cases
    case (2 q)
    have "work_ok a td s (?t\<lparr>td_project_id := q\<rparr>) (set_token a (?t\<lparr>td_project_id := q\<rparr>) s)"
      by (rule work_ok_set [where t = ?t]) (auto simp: same_ids_def token_work_def intro: latest_ok)
    with 2 show ?thesis by blast
  next
    case (3 q)
    have "work_ok a td s (?t\<lparr>td_project_id := q\<rparr>)
        (set_token a (?t\<lparr>td_project_id := q\<rparr>) (persistTokenState e a (?t\<lparr>td_project_id := q\<rparr>) s))"
      by (rule work_ok_set [where t = ?t]) (auto simp: same_ids_def persist_work intro: latest_ok)
    with 3 show ?thesis by blast
  qed simp
  then show ?thesis by (auto simp: work_ok_def)
qed

lemma finalize_result:
  assumes "finalizeSelectedToken e a td ns sk s = (r, s')"
  obtains acc s4 where "r = Some acc" "ca_id acc = a"
    "token_work s s4" "tokens_ok (m_tokens s) \<Longrightarrow> token_ok (a, td) \<Longrightarrow> tokens_ok (m_tokens s4)"
    "s' = s4\<lparr>m_tracker := markSuccess a (m_tracker s4),
             m_sessions := (if str_truthy sk then AList.update (the sk)
                \<lparr>sb_accountId = a, sb_expiresAt = e_done e + stickySessionTtlMs\<rparr> (m_sessions s4)
                else m_sessions s4)\<rparr>"
proof -
  obtain td1 s1 where r1: "refreshSelectedTokenIfNeeded e a td ns s = (td1, s1)" by fastforce
  obtain td2 s2 where r2: "refreshScopedQuotaSnapshotIfNeeded e a td1 s1 = (td2, s2)" by fastforce
  define td3 where "td3 = (if normalizeProjectId (td_project_id td2) = None then td2\<lparr>td_project_id := None\<rparr> else td2)"
  define s3 where "s3 = set_token a td3 s2"
  obtain p s4 where r4: "(if \<not> str_truthy (td_project_id td3)
             then resolveProjectIdWithLock e a td3 s3 else (td_project_id td3, s3)) = (p, s4)" by fastforce
  have w2: "work_ok a td s td2 s2"
    using work_ok_trans [OF refreshIfNeeded_work [OF r1] scopedQuota_work [OF r2]] .
  have w3: "work_ok a td2 s2 td3 s3" unfolding s3_def
    by (rule work_ok_set [where t = td2]) (auto simp: same_ids_def td3_def token_work_def)
  have w4: "work_ok a td3 s3 td3 s4"
    using r4 resolveProject_work by (auto split: if_splits)
  have w: "work_ok a td s td3 s4" using w2 w3 w4 work_ok_trans by blast
  note fin = assms [unfolded finalizeSelectedToken_def r1 r2 Let_def prod.case,
    folded td3_def, folded s3_def, unfolded r4 prod.case]
  from fin obtain acc where "r = Some acc" "ca_id acc = a"
    "s' = s4\<lparr>m_tracker := markSuccess a (m_tracker s4),
             m_sessions := (if str_truthy sk then AList.update (the sk)
                \<lparr>sb_accountId = a, sb_expiresAt = e_done e + stickySessionTtlMs\<rparr> (m_sessions s4)
                else m_sessions s4)\<rparr>"
    by (cases "str_truthy sk") auto
  with w that show thesis by (auto simp: work_ok_def)
qed


subsection \<open>Decomposing a successful selection\<close>

lemma with_manager_simps [simp]:
  "m_tokens (with_manager m s) = m_tokens m" "m_tracker (with_manager m s) = m_tracker m"
  "m_sessions (with_manager m s) = m_sessions m" "m_cooldowns (with_manager m s) = m_cooldowns m"
  "m_noGo (with_manager m s) = m_noGo m" "m_config (with_manager m s) = m_config m"
  "m_shadowComparisons (with_manager m s) = m_shadowComparisons m"
  "m_shadowMismatches (with_manager m s) = m_shadowMismatches m"
  "m_currentIndex (with_manager m s) = m_currentIndex m"
  by (simp_all add: with_manager_def manager.defs)

lemma truncate_simps [simp]:
  "m_tokens (manager.truncate s) = m_tokens s" "m_tracker (manager.truncate s) = m_tracker s"
  "m_sessions (manager.truncate s) = m_sessions s" "m_cooldowns (manager.truncate s) = m_cooldowns s"
  "m_noGo (manager.truncate s) = m_noGo s" "m_config (manager.truncate s) = m_config s"
  "m_shadowComparisons (manager.truncate s) = m_shadowComparisons s"
  "m_shadowMismatches (manager.truncate s) = m_shadowMismatches s"
  "m_currentIndex (manager.truncate s) = m_currentIndex s"
  by (simp_all add: manager.defs)

lemma housekeeping_simps [simp]:
  "m_tokens (housekeeping now s) = m_tokens s" "m_cooldowns (housekeeping now s) = m_cooldowns s"
  "m_tracker (housekeeping now s) = snd (cleanupExpired now (m_tracker s))"
  "m_sessions (housekeeping now s) = map_select (\<lambda>k b. \<not> sb_expiresAt b \<le> now) (m_sessions s)"
  "m_noGo (housekeeping now s) = m_noGo s" "m_config (housekeeping now s) = m_config s"
  "m_shadowComparisons (housekeeping now s) = m_shadowComparisons s"
  "m_shadowMismatches (housekeeping now s) = m_shadowMismatches s"
  by (simp_all add: housekeeping_def clearExpiredSessionBindings_def Let_def)

lemma shadow_frame:
  "m_tokens (executeShadowComparison m es sk model now) = m_tokens m"
  "m_tracker (executeShadowComparison m es sk model now) = m_tracker m"
  "m_sessions (executeShadowComparison m es sk model now) = m_sessions m"
  "m_cooldowns (executeShadowComparison m es sk model now) = m_cooldowns m"
  "m_config (executeShadowComparison m es sk model now) = m_config m"
  "m_noGo m \<Longrightarrow> m_noGo (executeShadowComparison m es sk model now)"
  "m_shadowMismatches m \<le> m_shadowComparisons m \<Longrightarrow>
     m_shadowMismatches (executeShadowComparison m es sk model now)
       \<le> m_shadowComparisons (executeShadowComparison m es sk model now)"
  by (auto simp: executeShadowComparison_def updateShadowStats_def Let_def)

definition selection_session :: "token_options \<Rightarrow> string option" where
  "selection_session opts = buildScopedSessionKey (map_option js_trim (o_scopeKey opts))
     (map_option js_trim (o_sessionKey opts))"

definition before_selection :: "env \<Rightarrow> token_options \<Rightarrow> service \<Rightarrow> service" where
  "before_selection e opts s = housekeeping (e_now e) (prepare_selection e opts s)"

definition shadowed :: "env \<Rightarrow> token_options \<Rightarrow> service \<Rightarrow> manager" where
  "shadowed e opts s1 = (if shouldExecuteShadowComparison (manager.truncate s1)
     then executeShadowComparison (manager.truncate s1) (candidate_pool opts s1) (selection_session opts)
       (o_model opts) (e_now e)
     else manager.truncate s1)"

lemma getNextToken_cases:
  assumes "getNextToken e opts s = (r, s')"
  obtains (empty) "r = None" "s' = prepare_selection e opts s" "m_tokens s' = []"
  | (no_pool) "r = None" "s' = before_selection e opts s" "candidate_pool opts (before_selection e opts s) = []"
  | (none) m3 where "r = None" "s' = with_manager m3 (before_selection e opts s)"
      "(if isParitySchedulingEnabled (shadowed e opts (before_selection e opts s))
        then selectParityTokenCandidate (shadowed e opts (before_selection e opts s))
          (candidate_pool opts (before_selection e opts s)) (selection_session opts) (o_model opts) (e_now e) (e_later e)
        else selectLegacyTokenCandidate (shadowed e opts (before_selection e opts s))
          (candidate_pool opts (before_selection e opts s)) (selection_session opts) (e_now e)) = (None, m3)"
  | (selected) a td m3 n where
      "(if isParitySchedulingEnabled (shadowed e opts (before_selection e opts s))
        then selectParityTokenCandidate (shadowed e opts (before_selection e opts s))
          (candidate_pool opts (before_selection e opts s)) (selection_session opts) (o_model opts) (e_now e) (e_later e)
        else selectLegacyTokenCandidate (shadowed e opts (before_selection e opts s))
          (candidate_pool opts (before_selection e opts s)) (selection_session opts) (e_now e)) = (Some (a, td), m3)"
      "finalizeSelectedToken e a td (now_seconds (e_now e)) (selection_session opts)
         (with_manager (m3\<lparr>m_parityRequests := n\<rparr>) (before_selection e opts s)) = (r, s')"
proof -
  let ?s0 = "prepare_selection e opts s" and ?s1 = "before_selection e opts s"
  let ?pool = "candidate_pool opts ?s1" and ?m2 = "shadowed e opts ?s1"
  define sel where "sel = (if isParitySchedulingEnabled ?m2
        then selectParityTokenCandidate ?m2 ?pool (selection_session opts) (o_model opts) (e_now e) (e_later e)
        else selectLegacyTokenCandidate ?m2 ?pool (selection_session opts) (e_now e))"
  obtain c m3 where sel: "sel = (c, m3)" by fastforce
  have eq: "getNextToken e opts s =
     (if m_tokens ?s0 = [] then (None, ?s0)
      else if ?pool = [] then (None, ?s1)
      else (case sel of (c, m3) \<Rightarrow> case c of None \<Rightarrow> (None, with_manager m3 ?s1)
          | Some (a, td) \<Rightarrow> finalizeSelectedToken e a td (now_seconds (e_now e)) (selection_session opts)
              (with_manager (if isParitySchedulingEnabled m3
                 then m3\<lparr>m_parityRequests := Suc (m_parityRequests m3)\<rparr> else m3) ?s1)))"
    by (simp only: getNextToken_def Let_def before_selection_def selection_session_def shadowed_def sel_def)
  have n: "\<exists>n. (if isParitySchedulingEnabled m3
       then m3\<lparr>m_parityRequests := Suc (m_parityRequests m3)\<rparr> else m3) = m3\<lparr>m_parityRequests := n\<rparr>"
    by (metis (no_types, lifting) manager.surjective manager.update_convs(10))
  note go = assms [unfolded eq sel prod.case]
  show thesis
  proof (cases "m_tokens ?s0 = [] \<or> ?pool = []")
    case True
    with go empty no_pool show thesis by (auto split: if_splits)
  next
    case False
    show thesis
    proof (cases c)
      case None
      with False go have "r = None" "s' = with_manager m3 ?s1" by auto
      with none [of m3] sel None show thesis by (simp add: sel_def)
    next
      case (Some ct)
      obtain a td where ct: "ct = (a, td)" by fastforce
      from n obtain k where k: "(if isParitySchedulingEnabled m3
       then m3\<lparr>m_parityRequests := Suc (m_parityRequests m3)\<rparr> else m3) = m3\<lparr>m_parityRequests := k\<rparr>" by blast
      from False go have "finalizeSelectedToken e a td (now_seconds (e_now e)) (selection_session opts)
         (with_manager (m3\<lparr>m_parityRequests := k\<rparr>) ?s1) = (r, s')"
        by (simp add: Some ct k)
      with selected [of a td m3 k] sel Some ct show thesis by (simp add: sel_def)
    qed
  qed
qed

lemma shadowed_simps [simp]:
  "m_tokens (shadowed e opts s) = m_tokens s" "m_tracker (shadowed e opts s) = m_tracker s"
  "m_sessions (shadowed e opts s) = m_sessions s" "m_cooldowns (shadowed e opts s) = m_cooldowns s"
  "m_config (shadowed e opts s) = m_config s"
  by (simp_all add: shadowed_def shadow_frame)

lemma cooling_down_cong: "m_cooldowns m = m_cooldowns m' \<Longrightarrow> cooling_down now m a = cooling_down now m' a"
  by (simp add: cooling_down_def)

lemma selection_in_pool:
  assumes "(if isParitySchedulingEnabled m
        then selectParityTokenCandidate m es sk model now later
        else selectLegacyTokenCandidate m es sk now) = (Some (a, td), m3)"
  shows "(a, td) \<in> set es"
  using assms selectParity_in selectLegacy_in legacy_pool_in
  by (fastforce simp: eligible_in split: if_splits)

lemma selection_index:
  assumes "(if isParitySchedulingEnabled m
        then selectParityTokenCandidate m es sk model now later
        else selectLegacyTokenCandidate m es sk now) = (c, m3)"
  shows "\<exists>i. m3 = m\<lparr>m_currentIndex := i\<rparr>"
  using assms select_frame(1) [of m es sk now] select_frame(2) [of m es sk model now later] by (metis snd_conv)

subsection \<open>Properties\<close>

lemma before_selection_tokens [simp]:
  "m_tokens (before_selection e opts s) = m_tokens (prepare_selection e opts s)"
  by (simp add: before_selection_def)

lemma candidate_pool_in: "e \<in> set (candidate_pool opts s) \<Longrightarrow> e \<in> set (m_tokens s)"
  by (auto simp: candidate_pool_def Let_def split: if_splits)

text \<open>C6: A request only ever receives an account of its own scope: unscoped requests get
  accounts of the shared pool, a scoped request gets credentials uploaded under exactly that
  scope. An account the caller excludes is handed out only when every account of the scope
  is excluded.\<close>

theorem token_scope_and_exclusion:
  assumes "getNextToken e opts s = (Some acc, s')"
  shows "\<exists>td. (ca_id acc, td) \<in> set (m_tokens (prepare_selection e opts s)) \<and>
    in_scope (map_option js_trim (o_scopeKey opts)) td \<and>
    (ca_id acc \<in> set (o_excludeAccountIds opts) \<longrightarrow>
      (\<forall>(b, tb) \<in> set (m_tokens (prepare_selection e opts s)).
         in_scope (map_option js_trim (o_scopeKey opts)) tb \<longrightarrow> b \<in> set (o_excludeAccountIds opts)))"
  using assms
proof (cases rule: getNextToken_cases)
  case (selected a td m3 n)
  from selection_in_pool [OF selected(1)]
  have p: "(a, td) \<in> set (candidate_pool opts (before_selection e opts s))" .
  from selected(2) have "ca_id acc = a" by (rule finalize_result) simp
  with p show ?thesis
    by (fastforce simp: candidate_pool_def Let_def filter_empty_conv split: if_splits)
qed simp_all


definition sample_env :: env where
  "sample_env = \<lparr>e_now = 1000, e_later = 1000, e_done = 1500, e_date_parse = (\<lambda>_. NaN),
     e_sha256_hex = (\<lambda>x. x), e_random = (\<lambda>i. i), e_accounts = Some [], e_credentials_file = [],
     e_file_mtime = None, e_file_content = None, e_fetchQuota = (\<lambda>_ _. None), e_updateQuota_ok = True,
     e_refreshAccessToken = (\<lambda>_ _ _. None), e_fetchProjectId = (\<lambda>_. None), e_persisted = (\<lambda>_. None),
     e_fallback_project = None\<rparr>"

definition sample_service :: service where
  "sample_service = (new_service None)\<lparr>m_tokens :=
     [(''a'', sample_token ''a''), (''b'', sample_token ''b'')]\<rparr>"

definition sample_options :: token_options where
  "sample_options = \<lparr>o_sessionKey = Some ''k'', o_excludeAccountIds = [''a''], o_model = None, o_scopeKey = None\<rparr>"

lemma sample_selection:
  "\<exists>acc s'. getNextToken sample_env sample_options sample_service = (Some acc, s') \<and> ca_id acc = ''b''"
proof -
  have "map_option ca_id (fst (getNextToken sample_env sample_options sample_service)) = Some ''b''"
    by code_simp
  then show ?thesis
    by (cases "getNextToken sample_env sample_options sample_service") auto
qed

theorem token_scope_and_exclusion_witness:
  "\<exists>td. (''b'', td) \<in> set (m_tokens (prepare_selection sample_env sample_options sample_service)) \<and>
     in_scope None td"
proof -
  from sample_selection obtain acc s' where
    "getNextToken sample_env sample_options sample_service = (Some acc, s')" "ca_id acc = ''b''" by blast
  from token_scope_and_exclusion [OF this(1)] this(2) show ?thesis
    by (auto simp: sample_options_def)
qed


subsection \<open>The invariant is kept\<close>

lemma markSuccess_failures [simp]: "map_of (failureCounts (markSuccess a t)) a = None"
  by (simp add: markSuccess_def js_map)

lemma before_selection_ok:
  assumes "service_ok s"
  shows "service_ok (before_selection e opts s)"
  using assms prepare_frame [of s e opts] tracker_ok_ops(5)
  by (simp add: service_ok_def before_selection_def same_but_tokens_def map_ok_intros)

lemma finalize_ok:
  assumes "finalizeSelectedToken e a td ns sk s = (r, s')" "service_ok s" "token_ok (a, td)"
  shows "service_ok s'"
  using assms(1)
proof (rule finalize_result)
  fix acc s4
  assume w: "token_work s s4" and t: "tokens_ok (m_tokens s) \<Longrightarrow> token_ok (a, td) \<Longrightarrow> tokens_ok (m_tokens s4)"
    and s': "s' = s4\<lparr>m_tracker := markSuccess a (m_tracker s4),
             m_sessions := (if str_truthy sk then AList.update (the sk)
                \<lparr>sb_accountId = a, sb_expiresAt = e_done e + stickySessionTtlMs\<rparr> (m_sessions s4)
                else m_sessions s4)\<rparr>"
  show ?thesis
    using w t assms(2,3) tracker_ok_ops(6) unfolding s'
    by (auto simp: service_ok_def token_work_def intro: js_map.ok_put)
qed

lemma with_manager_ok:
  assumes "service_ok s1" "m_tokens m = m_tokens s1" "m_tracker m = m_tracker s1" "m_sessions m = m_sessions s1"
    "m_cooldowns m = m_cooldowns s1" "m_shadowMismatches m \<le> m_shadowComparisons m"
  shows "service_ok (with_manager m s1)"
  using assms by (simp add: service_ok_def)

lemma shadowed_counts:
  "m_shadowMismatches s \<le> m_shadowComparisons s \<Longrightarrow>
   m_shadowMismatches (shadowed e opts s) \<le> m_shadowComparisons (shadowed e opts s)"
  by (simp add: shadowed_def shadow_frame)

lemma getNextToken_ok:
  assumes "service_ok s" "getNextToken e opts s = (r, s')"
  shows "service_ok s'"
  using assms(2)
proof (cases rule: getNextToken_cases)
  case empty
  with assms(1) prepare_frame [of s e opts] show ?thesis
    by (simp add: service_ok_def same_but_tokens_def)
next
  case no_pool
  with assms(1) before_selection_ok show ?thesis by simp
next
  case (none m3)
  let ?s1 = "before_selection e opts s"
  have ok: "service_ok ?s1" by (rule before_selection_ok [OF assms(1)])
  obtain i where m3: "m3 = (shadowed e opts ?s1)\<lparr>m_currentIndex := i\<rparr>"
    using selection_index [OF none(3)] by blast
  have "service_ok (with_manager m3 ?s1)"
    by (rule with_manager_ok [OF ok])
       (use ok shadowed_counts in \<open>simp_all add: m3 service_ok_def del: before_selection_tokens\<close>)
  with none(2) show ?thesis by simp
next
  case (selected a td m3 n)
  let ?s1 = "before_selection e opts s"
  have ok: "service_ok ?s1" by (rule before_selection_ok [OF assms(1)])
  obtain i where m3: "m3 = (shadowed e opts ?s1)\<lparr>m_currentIndex := i\<rparr>"
    using selection_index [OF selected(1)] by blast
  have "service_ok (with_manager (m3\<lparr>m_parityRequests := n\<rparr>) ?s1)"
    by (rule with_manager_ok [OF ok])
       (use ok shadowed_counts in \<open>simp_all add: m3 service_ok_def del: before_selection_tokens\<close>)
  moreover have "token_ok (a, td)"
    using candidate_pool_in [OF selection_in_pool [OF selected(1)]] ok
    by (auto simp: service_ok_def tokens_ok_def)
  ultimately show ?thesis using finalize_ok [OF selected(2)] by blast
qed

lemma getNextToken_binds:
  assumes "getNextToken e opts s = (Some acc, s')" "str_truthy (selection_session opts)"
  shows "map_of (m_sessions s') (the (selection_session opts)) =
    Some \<lparr>sb_accountId = ca_id acc, sb_expiresAt = e_done e + stickySessionTtlMs\<rparr>"
  using assms(1)
proof (cases rule: getNextToken_cases)
  case (selected a td m3 n)
  from selected(2) show ?thesis
    by (rule finalize_result) (use assms(2) in \<open>simp add: js_map.get_put\<close>)
qed simp_all

text \<open>A session sticks to its account: after a request with a session key was served, the next
  request of the same session, within ten minutes and under legacy scheduling, is served by
  the same account, as long as that account is still offered and is not cooling down while another
  offered account is not.\<close>

theorem session_is_sticky:
  assumes "service_ok s"
    and "getNextToken e opts s = (Some acc, s')"
    and "selection_session opts2 = selection_session opts" "str_truthy (selection_session opts)"
    and "e_now e2 < e_done e + stickySessionTtlMs"
    and "\<not> isParitySchedulingEnabled (shadowed e2 opts2 (before_selection e2 opts2 s'))"
    and "ca_id acc \<in> fst ` set (legacy_pool (manager.truncate (before_selection e2 opts2 s'))
       (candidate_pool opts2 (before_selection e2 opts2 s')) (e_now e2))"
    and "getNextToken e2 opts2 s' = (r, s'')"
  shows "\<exists>acc2. r = Some acc2 \<and> ca_id acc2 = ca_id acc"
proof -
  let ?sk = "selection_session opts" and ?s1 = "before_selection e2 opts2 s'"
  let ?b = "\<lparr>sb_accountId = ca_id acc, sb_expiresAt = e_done e + stickySessionTtlMs\<rparr>"
  have ok': "service_ok s'" and b: "map_of (m_sessions s') (the ?sk) = Some ?b"
    using getNextToken_ok [OF assms(1,2)] getNextToken_binds [OF assms(2,4)] by auto
  have "map_of (m_sessions ?s1) (the ?sk) = Some ?b"
    using ok' b assms(5) prepare_frame [of s' e2 opts2]
    by (simp add: before_selection_def service_ok_def same_but_tokens_def js_map.get_sel)
  then have valid: "getValidSessionBinding (shadowed e2 opts2 ?s1) ?sk (e_now e2) = Some ?b"
    using assms(4,5) by (simp add: getValidSessionBinding_def)
  have pool: "legacy_pool (shadowed e2 opts2 ?s1) es now = legacy_pool (manager.truncate ?s1) es now" for es now
    by (simp add: legacy_pool_def cooling_down_def)
  let ?P = "legacy_pool (shadowed e2 opts2 ?s1) (candidate_pool opts2 ?s1) (e_now e2)"
  from assms(7) find_entry_None [of "ca_id acc" ?P] obtain x where x: "find_entry (ca_id acc) ?P = Some x"
    unfolding pool by auto
  with find_entry_Some obtain td where "x = (ca_id acc, td)" by (cases x) fastforce
  with x have f: "findStickySessionToken (shadowed e2 opts2 ?s1) ?P ?sk (e_now e2) = Some (ca_id acc, td)"
    by (simp add: findStickySessionToken_def valid)
  from assms(7) have ne: "legacy_pool (shadowed e2 opts2 ?s1) (candidate_pool opts2 ?s1) (e_now e2) \<noteq> []"
    unfolding pool by auto
  have sel: "selectLegacyTokenCandidate (shadowed e2 opts2 ?s1) (candidate_pool opts2 ?s1) ?sk (e_now e2) =
      (Some (ca_id acc, td), shadowed e2 opts2 ?s1)"
    using ne by (simp add: selectLegacyTokenCandidate_def Let_def f)
  from assms(7) have "candidate_pool opts2 ?s1 \<noteq> []" "m_tokens (prepare_selection e2 opts2 s') \<noteq> []"
    using legacy_pool_in candidate_pool_in by fastforce+
  with assms(8) show ?thesis
  proof (cases rule: getNextToken_cases)
    case (selected a td' m3 n)
    from selected(1) sel assms(3,6) have "a = ca_id acc" by simp
    with selected(2) show ?thesis by (auto elim: finalize_result)
  next
    case (none m3)
    with sel assms(3,6) show ?thesis by simp
  qed auto
qed


definition sample_after :: service where
  "sample_after = snd (getNextToken sample_env sample_options sample_service)"

lemma sample_service_ok: "service_ok sample_service"
  by (simp add: sample_service_def new_service_def new_manager_def manager.defs service_ok_def tokens_ok_def
      token_ok_def sample_token_def map_keys_ok_def tracker_ok_def new_tracker_def)

theorem session_is_sticky_witness:
  "\<exists>acc2. fst (getNextToken (sample_env\<lparr>e_now := 2000\<rparr>) (sample_options\<lparr>o_excludeAccountIds := []\<rparr>) sample_after)
     = Some acc2 \<and> ca_id acc2 = ''b''"
proof -
  let ?e2 = "sample_env\<lparr>e_now := 2000\<rparr>" and ?o2 = "sample_options\<lparr>o_excludeAccountIds := []\<rparr>"
  obtain acc where n: "getNextToken sample_env sample_options sample_service = (Some acc, sample_after)"
    and id: "ca_id acc = ''b''"
    using sample_selection unfolding sample_after_def by auto
  have p: "\<not> isParitySchedulingEnabled (shadowed ?e2 ?o2 (before_selection ?e2 ?o2 sample_after))"
    by code_simp
  have l: "''b'' \<in> fst ` set (legacy_pool (manager.truncate (before_selection ?e2 ?o2 sample_after))
       (candidate_pool ?o2 (before_selection ?e2 ?o2 sample_after)) (e_now ?e2))"
    by code_simp
  have k: "selection_session ?o2 = selection_session sample_options" "str_truthy (selection_session sample_options)"
    by code_simp+
  obtain r s'' where r: "getNextToken ?e2 ?o2 sample_after = (r, s'')" by fastforce
  from session_is_sticky [OF sample_service_ok n k _ p _ r] l id r show ?thesis
    by (simp add: sample_env_def stickySessionTtlMs_def)
qed

text \<open>Handing an account out already forgets its failures: after a successful selection the account
  has no failure count, so the next unhinted quota error of that account waits the first back-off step
  again, however many errors were recorded before the selection.\<close>

theorem backoff_restarts_at_selection:
  assumes "getNextToken e opts s = (Some acc, s')"
    and "unhinted_quota_error p" "up_accountId p = ca_id acc"
  shows "\<exists>t' info. trackFromUpstreamError dp now p (m_tracker s') = Inr (Some info, t') \<and>
    retryAfterSec info = Fin (backoff_step (up_backoffSteps p) 1)"
proof -
  have none: "map_of (failureCounts (m_tracker s')) (ca_id acc) = None"
    using assms(1)
  proof (cases rule: getNextToken_cases)
    case (selected a td m3 n)
    from selected(2) show ?thesis by (rule finalize_result) simp
  qed simp_all
  then obtain t1 where "incrementFailureCount now (up_accountId p) (m_tracker s') = (1, t1)"
    using assms(3) by (simp add: incrementFailureCount_def Let_def)
  from track_quota_step [OF assms(2) this] show ?thesis by blast
qed

theorem backoff_restarts_at_selection_witness:
  "\<exists>t' info. trackFromUpstreamError (\<lambda>_. NaN) 2000
      \<lparr>up_accountId = ''b'', up_status = Some 429, up_retryAfter = None, up_body = Some ''quota'',
         up_model = None, up_backoffSteps = [60, 300]\<rparr> (m_tracker sample_after) = Inr (Some info, t') \<and>
    retryAfterSec info = Fin 60"
proof -
  let ?p = "\<lparr>up_accountId = ''b'', up_status = Some 429, up_retryAfter = None, up_body = Some ''quota'',
         up_model = None, up_backoffSteps = [60, 300]\<rparr>"
  obtain acc where n: "getNextToken sample_env sample_options sample_service = (Some acc, sample_after)"
    and id: "ca_id acc = ''b''"
    using sample_selection unfolding sample_after_def by auto
  have "detectRateLimitReason 429 (Some ''quota'') = Inr QuotaExhausted" by code_simp
  moreover have "parseRetryAfterSecondsFromBody (Some ''quota'') = Inr None" by code_simp
  ultimately have "unhinted_quota_error ?p"
    by (simp add: unhinted_quota_error_def tracked_statuses_def)
  from backoff_restarts_at_selection [OF n this, of "\<lambda>_. NaN" 2000] id show ?thesis
    by (simp add: backoff_step_def)
qed

subsection \<open>Reported errors\<close>

lemma steps_positive: "\<forall>b\<in>set (getCircuitBreakerBackoffSteps m). 0 < b"
proof -
  have "0 < b" if "usable_step x = Some b" for x b
    using that by (auto simp: usable_step_def less_ceiling_iff split: js_number.splits if_splits)
  then have "\<forall>b\<in>set (List.map_filter usable_step xs). 0 < b" for xs
    by (induction xs) (auto simp: List.map_filter_simps split: option.splits)
  then show ?thesis by (auto simp: getCircuitBreakerBackoffSteps_def default_backoff_steps_def Let_def)
qed

lemma body_wait_not_NaN:
  assumes "parseRetryAfterSecondsFromBody b = Inr (Some s)" "parseRetryDelayMilliseconds b \<noteq> Some NaN"
  shows "s \<noteq> NaN"
proof (cases "parseRetryDelayMilliseconds b")
  case None
  with assms(1) show ?thesis
    by (auto simp: parseRetryAfterSecondsFromBody_def Let_def split: if_splits sum.splits option.splits json.splits)
next
  case (Some ms)
  with assms have "s = num_ceil (num_scale (1 / 1000) (num_add ms (Fin GRACE_RETRY_BUFFER_MS)))" "ms \<noteq> NaN"
    by (auto simp: parseRetryAfterSecondsFromBody_def split: if_splits)
  then show ?thesis by (cases ms) auto
qed

lemma retry_not_NaN:
  assumes "computeRetryAfterSeconds dp now r st p t = Inr (s, t')" "parseRetryDelayMilliseconds (up_body p) \<noteq> Some NaN"
  shows "s \<noteq> NaN"
proof -
  have "num_max (Fin 2) (num_ceil x) \<noteq> NaN" if "x \<noteq> NaN" for x
    using that by (cases x) (auto simp: num_max_def)
  with assms body_wait_not_NaN header_retry_ge show ?thesis
    by (fastforce simp: computeRetryAfterSeconds_def split: option.splits sum.splits prod.splits)
qed

lemma tracked_Some:
  assumes "trackFromUpstreamError dp now p t = Inr (r, t')" "up_status p = Some st" "st \<in> set tracked_statuses"
  shows "\<exists>info. r = Some info"
  using assms by (auto simp: trackFromUpstreamError_def Let_def split: sum.splits prod.splits)

lemma track_and_cool_limits:
  assumes "track_and_cool e a p s = Inr s'" "ue_status p = Some st" "st \<in> set tracked_statuses"
    and "parseRetryDelayMilliseconds (ue_body p) \<noteq> Some NaN"
  shows "tracker_isRateLimited (e_now e) (m_tracker s') a (normalizeModelId (ue_model p))"
    and "m_tokens s' = m_tokens s"
proof -
  define q where "q = \<lparr>up_accountId = a, up_status = ue_status p, up_retryAfter = ue_retryAfter p,
              up_body = ue_body p, up_model = normalizeModelId (ue_model p),
              up_backoffSteps = getCircuitBreakerBackoffSteps (manager.truncate s)\<rparr>"
  from assms(1) obtain r t where tr: "trackFromUpstreamError (e_date_parse e) (e_now e) q (m_tracker s) = Inr (r, t)"
    and s': "m_tracker s' = t" "m_tokens s' = m_tokens s"
    by (auto simp: track_and_cool_def q_def [symmetric] Let_def split: sum.splits option.splits if_splits)
  from tracked_Some [OF tr] assms(2,3) obtain info where info: "r = Some info" by (auto simp: q_def)
  have "retryAfterSec info \<noteq> NaN"
    using tr unfolding info
    by (rule trackFromUpstreamError_SomeE) (use assms(4) retry_not_NaN in \<open>auto simp: q_def\<close>)
  with track_locks(1) [OF tr [unfolded info]] steps_positive s'
  show "tracker_isRateLimited (e_now e) (m_tracker s') a (normalizeModelId (ue_model p))"
    and "m_tokens s' = m_tokens s" by (auto simp: q_def)
qed

lemma resolved_id_cong: "m_tokens s = m_tokens s' \<Longrightarrow> resolved_id a s = resolved_id a s'"
  by (simp add: resolved_id_def resolveAccountId_def)

text \<open>An account whose upstream call failed with a tracked status is taken out of rotation: right
  after the error is reported the manager calls the account rate limited for the requested
  model, under the id or the e-mail address it was reported with, and the parity scheduler's gate
  drops it. This covers every status except an unhinted 429 whose body reads as a quota error
  (there the reset times of the quota report decide).\<close>

theorem reported_error_takes_account_out:
  assumes "markFromUpstreamError e p s = (None, s')"
    and "ue_status p = Some st" "st \<in> set tracked_statuses"
    and "st \<noteq> 429 \<or> has_explicit_retry_window p \<or>
      detectRateLimitReasonFromBody (ue_body p) \<in> {RateLimitExceeded, ModelCapacityExhausted}"
    and "parseRetryDelayMilliseconds (ue_body p) \<noteq> Some NaN"
  shows "isRateLimited (e_now e) (ue_accountIdOrEmail p) (normalizeModelId (ue_model p)) s' \<and>
    (\<forall>td. (resolved_id (ue_accountIdOrEmail p) s, td)
       \<notin> set (collectEligibleTokens (manager.truncate s') (m_tokens s') (normalizeModelId (ue_model p)) (e_now e)))"
proof -
  let ?a = "resolved_id (ue_accountIdOrEmail p) s"
  have tc: "track_and_cool e ?a p s = Inr s'"
    using assms(1,2,4) by (auto simp: markFromUpstreamError_def settle_def Let_def split: if_splits sum.splits)
  from track_and_cool_limits [OF tc assms(2,3,5)] resolved_id_cong [of s s']
  show ?thesis by (auto simp: isRateLimited_def eligible_in Let_def)
qed

theorem reported_error_takes_account_out_witness:
  "\<exists>s'. markFromUpstreamError sample_env \<lparr>ue_accountIdOrEmail = ''a@x'', ue_status = Some 503, ue_retryAfter = None,
       ue_body = None, ue_model = None\<rparr> sample_service = (None, s') \<and> isRateLimited 1000 ''a@x'' None s'"
proof -
  let ?p = "\<lparr>ue_accountIdOrEmail = ''a@x'', ue_status = Some 503, ue_retryAfter = None,
       ue_body = None, ue_model = None\<rparr>"
  have "fst (markFromUpstreamError sample_env ?p sample_service) = None" by code_simp
  then obtain s' where m: "markFromUpstreamError sample_env ?p sample_service = (None, s')"
    by (cases "markFromUpstreamError sample_env ?p sample_service") auto
  have "normalizeModelId None = None" by (simp add: normalizeModelId_def)
  with m reported_error_takes_account_out [OF m, of 503] show ?thesis
    by (auto simp: tracked_statuses_def parseRetryDelayMilliseconds_def sample_env_def)
qed


lemma expired_lock_is_no_lock:
  assumes "t \<le> now" "\<not> tracker_isRateLimited now tr a m"
  shows "\<not> tracker_isRateLimited now (setLockoutUntil now0 b (Fin t) reason m' tr) a m"
  using assms by (auto simp: limited_iff setLockoutUntil_def Let_def js_map.get_put wait_of_def)

text \<open>The reset time of a cached quota report is trusted even when it has passed: if the live quota
  cannot be fetched and the earliest cached reset time of the account (of any of its models)
  lies in the past, an unhinted 429 quota error counts as handled, yet the account is not rate
  limited and has no cool-down, so it stays in rotation.\<close>

theorem stale_reset_time_leaves_account_usable:
  assumes "map_of (m_tokens s) a = Some td" "ue_accountIdOrEmail p = a"
    and "ue_status p = Some 429" "\<not> has_explicit_retry_window p"
    and "detectRateLimitReasonFromBody (ue_body p) = QuotaExhausted"
    and "e_fetchQuota e (td_access_token td) None = None"
    and "findEarliestQuotaResetTime (td_model_reset_times td) = Some reset"
    and "e_date_parse e reset = Fin t" "t \<le> e_now e"
    and "\<not> isRateLimited (e_now e) a (normalizeModelId (ue_model p)) s"
  shows "\<exists>s'. markFromUpstreamError e p s = (None, s') \<and>
    \<not> isRateLimited (e_now e) a (normalizeModelId (ue_model p)) s'"
proof -
  have a: "resolved_id a s = a" using assms(1) by (simp add: resolved_id_def resolveAccountId_def)
  let ?t = "setLockoutUntil (e_now e) a (Fin t) QuotaExhausted (normalizeModelId (ue_model p)) (m_tracker s)"
  have "markFromUpstreamError e p s = (None, s\<lparr>m_tracker := ?t\<rparr>)"
    using assms(1-8) a
    by (simp add: markFromUpstreamError_def refreshRealtimeQuotaAndSetPreciseLockout_def
        setPreciseLockoutFromCachedQuota_def setLockoutUntilIso_def Let_def)
  moreover have "\<not> isRateLimited (e_now e) a (normalizeModelId (ue_model p)) (s\<lparr>m_tracker := ?t\<rparr>)"
    using assms(9,10) expired_lock_is_no_lock resolved_id_cong [of "s\<lparr>m_tracker := ?t\<rparr>" s]
    by (auto simp: isRateLimited_def Let_def cooling_down_def a)
  ultimately show ?thesis by blast
qed

theorem stale_reset_time_leaves_account_usable_witness:
  "\<exists>s'. markFromUpstreamError (sample_env\<lparr>e_date_parse := \<lambda>_. Fin 500\<rparr>)
       \<lparr>ue_accountIdOrEmail = ''a'', ue_status = Some 429, ue_retryAfter = None, ue_body = Some ''quota'', ue_model = None\<rparr>
       (sample_service\<lparr>m_tokens := [(''a'', (sample_token ''a'')\<lparr>td_model_reset_times := [(''m'', ''2020'')]\<rparr>)]\<rparr>)
     = (None, s') \<and> \<not> isRateLimited 1000 ''a'' None s'"
proof -
  let ?td = "(sample_token ''a'')\<lparr>td_model_reset_times := [(''m'', ''2020'')]\<rparr>"
  let ?s = "sample_service\<lparr>m_tokens := [(''a'', ?td)]\<rparr>" and ?e = "sample_env\<lparr>e_date_parse := \<lambda>_. Fin 500\<rparr>"
  let ?p = "\<lparr>ue_accountIdOrEmail = ''a'', ue_status = Some 429, ue_retryAfter = None,
    ue_body = Some ''quota'', ue_model = None\<rparr>"
  have 1: "detectRateLimitReasonFromBody (ue_body ?p) = QuotaExhausted" by code_simp
  have 2: "findEarliestQuotaResetTime (td_model_reset_times ?td) = Some ''2020''" by code_simp
  have 3: "\<not> has_explicit_retry_window ?p" by code_simp
  have 4: "\<not> isRateLimited (e_now ?e) ''a'' (normalizeModelId (ue_model ?p)) ?s" by code_simp
  show ?thesis
    using stale_reset_time_leaves_account_usable [OF _ _ _ 3 1 _ 2 _ _ 4]
    by (simp add: sample_env_def normalizeModelId_def)
qed


subsection \<open>Scoped uploads\<close>

text \<open>The ids under which an upload stores its valid credentials, in order.\<close>

fun uploaded_ids :: "env \<Rightarrow> string \<Rightarrow> nat \<Rightarrow> json list \<Rightarrow> string list" where
  "uploaded_ids e scope i [] = []"
| "uploaded_ids e scope i (c # cs) =
     (case mapExternalCredentialToTokenData (cred_env e) (e_random e i) c of
        None \<Rightarrow> uploaded_ids e scope (Suc i) cs
      | Some td \<Rightarrow> (scope @ '':'' @ td_account_id td) # uploaded_ids e scope (Suc i) cs)"

definition of_scope :: "string \<Rightarrow> string \<Rightarrow> token_data option \<Rightarrow> bool" where
  "of_scope scope a r \<longleftrightarrow> (\<exists>td. r = Some td \<and> td_source_scope td = Some scope \<and> td_account_id td = a)"

lemma upsert_scoped_None:
  "mapExternalCredentialToTokenData (cred_env e) (e_random e i) c = None \<Longrightarrow>
   upsert_scoped e scope c (i, ids, s) = (Suc i, ids, s)"
  by (simp add: upsert_scoped_def)

lemma upsert_scoped_Some:
  "mapExternalCredentialToTokenData (cred_env e) (e_random e i) c = Some td \<Longrightarrow>
   upsert_scoped e scope c (i, ids, s) = (Suc i, ids @ [scope @ '':'' @ td_account_id td],
     s\<lparr>m_tokens := AList.update (scope @ '':'' @ td_account_id td)
        (td\<lparr>td_account_id := scope @ '':'' @ td_account_id td, td_source_scope := Some scope\<rparr>) (m_tokens s)\<rparr>)"
  by (simp add: upsert_scoped_def Let_def)

lemma fold_upsert_scoped:
  assumes "fold (upsert_scoped e scope) cs (i, ids, s) = (j, ids', s')"
  shows "ids' = ids @ uploaded_ids e scope i cs \<and>
    (\<forall>x. x \<in> set (uploaded_ids e scope i cs) \<longrightarrow> of_scope scope x (map_of (m_tokens s') x)) \<and>
    (\<forall>x. x \<notin> set (uploaded_ids e scope i cs) \<longrightarrow> map_of (m_tokens s') x = map_of (m_tokens s) x) \<and>
    (\<exists>ts. s' = s\<lparr>m_tokens := ts\<rparr>) \<and> (tokens_ok (m_tokens s) \<longrightarrow> tokens_ok (m_tokens s'))"
  using assms
proof (induction cs arbitrary: i ids s)
  case Nil
  have "\<exists>ts. s = s\<lparr>m_tokens := ts\<rparr>" by (rule exI [of _ "m_tokens s"]) simp
  with Nil show ?case by simp
next
  case (Cons c cs)
  show ?case
  proof (cases "mapExternalCredentialToTokenData (cred_env e) (e_random e i) c")
    case None
    with Cons.prems have "fold (upsert_scoped e scope) cs (Suc i, ids, s) = (j, ids', s')"
      by (simp add: upsert_scoped_None)
    from Cons.IH [OF this] show ?thesis by (simp add: None)
  next
    case (Some td)
    let ?a = "scope @ '':'' @ td_account_id td"
    let ?td = "td\<lparr>td_account_id := ?a, td_source_scope := Some scope\<rparr>"
    let ?s = "s\<lparr>m_tokens := AList.update ?a ?td (m_tokens s)\<rparr>"
    from Cons.prems Some have "fold (upsert_scoped e scope) cs (Suc i, ids @ [?a], ?s) = (j, ids', s')"
      by (simp add: upsert_scoped_Some)
    note ih = Cons.IH [OF this]
    have "of_scope scope ?a (Some ?td)" by (simp add: of_scope_def)
    moreover have "token_ok (?a, ?td)" by (simp add: token_ok_def)
    ultimately show ?thesis
      using ih tokens_ok_update [of "m_tokens s" ?a ?td] by (fastforce simp: Some js_map.get_put)
  qed
qed

lemma fold_drop_account:
  "map_of (m_tokens (fold drop_account as s)) x = (if x \<in> set as then None else map_of (m_tokens s) x)"
  "tokens_ok (m_tokens s) \<Longrightarrow> tokens_ok (m_tokens (fold drop_account as s))"
  "m_fingerprints (fold drop_account as s) = m_fingerprints s"
  by (induction as arbitrary: s) (auto simp: drop_account_def js_map.get_del tokens_ok_delete)

lemma stale_scoped_iff:
  assumes "tokens_ok (m_tokens s)"
  shows "a \<in> set (stale_scoped scope ids s) \<longleftrightarrow> of_scope scope a (map_of (m_tokens s) a) \<and> a \<notin> set ids"
proof
  assume "a \<in> set (stale_scoped scope ids s)"
  then obtain td where "(a, td) \<in> set (m_tokens s)" "td_source_scope td = Some scope" "a \<notin> set ids"
    by (auto simp: stale_scoped_def)
  with in_tokens_map_of [OF assms this(1)] tokens_ok_lookup [OF assms]
  show "of_scope scope a (map_of (m_tokens s) a) \<and> a \<notin> set ids"
    by (auto simp: of_scope_def token_ok_def)
next
  assume "of_scope scope a (map_of (m_tokens s) a) \<and> a \<notin> set ids"
  then obtain td where "(a, td) \<in> set (m_tokens s)" "td_source_scope td = Some scope" "a \<notin> set ids"
    by (auto simp: of_scope_def dest: map_of_SomeD)
  then have "(a, td) \<in> set (filter (\<lambda>(a, td). td_source_scope td = Some scope \<and> a \<notin> set ids) (m_tokens s))"
    by simp
  then show "a \<in> set (stale_scoped scope ids s)"
    unfolding stale_scoped_def by (metis fst_conv image_eqI list.set_map)
qed

lemma upsert_changed:
  assumes "js_trim k \<noteq> []" "cs \<noteq> []"
    and "map_of (m_fingerprints s) (js_trim k) \<noteq> Some (e_sha256_hex e (json_stringify (JArr cs)))"
    and "tokens_ok (m_tokens s)" "upsertScopedExternalCredentials e k cs s = (n, s')"
  shows "n = length (uploaded_ids e (js_trim k) 0 cs)"
    and "x \<in> set (uploaded_ids e (js_trim k) 0 cs) \<Longrightarrow> of_scope (js_trim k) x (map_of (m_tokens s') x)"
    and "x \<notin> set (uploaded_ids e (js_trim k) 0 cs) \<Longrightarrow> map_of (m_tokens s') x =
      (if of_scope (js_trim k) x (map_of (m_tokens s) x) then None else map_of (m_tokens s) x)"
    and "map_of (m_fingerprints s') (js_trim k) = Some (e_sha256_hex e (json_stringify (JArr cs)))"
    and "tokens_ok (m_tokens s')"
proof -
  obtain i ids s1 where f: "fold (upsert_scoped e (js_trim k)) cs (0, [], s) = (i, ids, s1)"
    by (metis prod_cases3)
  note f' = fold_upsert_scoped [OF f]
  let ?s2 = "fold drop_account (stale_scoped (js_trim k) ids s1) s1"
  have s': "n = length ids" "m_tokens s' = m_tokens ?s2"
    "map_of (m_fingerprints s') (js_trim k) = Some (e_sha256_hex e (json_stringify (JArr cs)))"
    using assms(1,2,3,5) by (auto simp: upsertScopedExternalCredentials_def Let_def f js_map.get_put)
  have ok1: "tokens_ok (m_tokens s1)" using f' assms(4) by blast
  show "n = length (uploaded_ids e (js_trim k) 0 cs)" using s' f' by simp
  show "tokens_ok (m_tokens s')" using s'(2) fold_drop_account(2) [OF ok1] by simp
  show "map_of (m_fingerprints s') (js_trim k) = Some (e_sha256_hex e (json_stringify (JArr cs)))" by (rule s'(3))
  show "x \<in> set (uploaded_ids e (js_trim k) 0 cs) \<Longrightarrow> of_scope (js_trim k) x (map_of (m_tokens s') x)"
    using s'(2) f' stale_scoped_iff [OF ok1] by (simp add: fold_drop_account(1))
  show "x \<notin> set (uploaded_ids e (js_trim k) 0 cs) \<Longrightarrow> map_of (m_tokens s') x =
      (if of_scope (js_trim k) x (map_of (m_tokens s) x) then None else map_of (m_tokens s) x)"
    using s'(2) f' stale_scoped_iff [OF ok1] by (simp add: fold_drop_account(1))
qed

text \<open>Uploading credentials for a scope replaces that scope and nothing else: afterwards the
  accounts of the scope are exactly those of the valid uploaded credentials, every account of
  another scope or of the shared pool that is not overwritten is as before, the result is the number
  of valid credentials, and repeating the same upload changes nothing.\<close>

theorem scoped_upload_replaces_scope:
  assumes "js_trim k \<noteq> []" "cs \<noteq> []"
    and "map_of (m_fingerprints s) (js_trim k) \<noteq> Some (e_sha256_hex e (json_stringify (JArr cs)))"
    and "tokens_ok (m_tokens s)" "upsertScopedExternalCredentials e k cs s = (n, s')"
  shows "{a. of_scope (js_trim k) a (map_of (m_tokens s') a)} = set (uploaded_ids e (js_trim k) 0 cs) \<and>
    n = length (uploaded_ids e (js_trim k) 0 cs) \<and>
    (\<forall>a. \<not> of_scope (js_trim k) a (map_of (m_tokens s) a) \<and> a \<notin> set (uploaded_ids e (js_trim k) 0 cs) \<longrightarrow>
       map_of (m_tokens s') a = map_of (m_tokens s) a) \<and>
    upsertScopedExternalCredentials e k cs s' = (length cs, s')"
proof (intro conjI)
  note u = upsert_changed [OF assms]
  have "of_scope (js_trim k) a (map_of (m_tokens s') a) \<longleftrightarrow> a \<in> set (uploaded_ids e (js_trim k) 0 cs)" for a
  proof (cases "a \<in> set (uploaded_ids e (js_trim k) 0 cs)")
    case True
    with u(2) show ?thesis by simp
  next
    case False
    from u(3) [OF False] False show ?thesis by (auto simp: of_scope_def)
  qed
  then show "{a. of_scope (js_trim k) a (map_of (m_tokens s') a)} = set (uploaded_ids e (js_trim k) 0 cs)"
    by blast
  show "n = length (uploaded_ids e (js_trim k) 0 cs)" by (rule u(1))
  show "\<forall>a. \<not> of_scope (js_trim k) a (map_of (m_tokens s) a) \<and> a \<notin> set (uploaded_ids e (js_trim k) 0 cs) \<longrightarrow>
       map_of (m_tokens s') a = map_of (m_tokens s) a"
    using u(3) by simp
  show "upsertScopedExternalCredentials e k cs s' = (length cs, s')"
    using assms(1,2) u(4) by (simp add: upsertScopedExternalCredentials_def Let_def)
qed

definition sample_credentials :: "json list" where
  "sample_credentials = [JObj [(''access_token'', JStr ''t''), (''refresh_token'', JStr ''r''), (''account_id'', JStr ''1''),
       (''email'', JStr ''e''), (''session_id'', JStr ''2''), (''expiry_timestamp'', JNum 9)],
     JObj [(''access_token'', JStr ''t'')]]"

theorem scoped_upload_replaces_scope_witness:
  "{a. of_scope ''s'' a (map_of (m_tokens (snd (upsertScopedExternalCredentials sample_env '' s '' sample_credentials
       sample_service))) a)} = {''s:1''}"
proof -
  have t: "js_trim '' s '' = ''s''" by code_simp
  have u: "uploaded_ids sample_env ''s'' 0 sample_credentials = [''s:1'']" by code_simp
  obtain n s' where s': "upsertScopedExternalCredentials sample_env '' s '' sample_credentials sample_service = (n, s')"
    by fastforce
  have "tokens_ok (m_tokens sample_service)" using sample_service_ok by (simp add: service_ok_def)
  moreover have "m_fingerprints sample_service = []"
    by (simp add: sample_service_def new_service_def new_manager_def manager.defs)
  moreover have "sample_credentials \<noteq> []" by (simp add: sample_credentials_def)
  ultimately show ?thesis
    using scoped_upload_replaces_scope [OF _ _ _ _ s', unfolded t u] by (simp add: s')
qed

subsection \<open>All operations\<close>

text \<open>One operation of the service, with any environment and any arguments.\<close>

inductive service_step :: "service \<Rightarrow> service \<Rightarrow> bool" where
  step_next: "getNextToken e opts s = (r, s') \<Longrightarrow> service_step s s'"
| step_error: "markFromUpstreamError e p s = (x, s') \<Longrightarrow> service_step s s'"
| step_limited: "service_step s (markAsRateLimited now a s)"
| step_forbidden: "service_step s (markAsForbidden now a s)"
| step_load: "loadAccounts e s = (n, s') \<Longrightarrow> service_step s s'"
| step_reload: "reloadAllAccounts e s = (n, s') \<Longrightarrow> service_step s s'"
| step_upload: "upsertScopedExternalCredentials e k cs s = (n, s') \<Longrightarrow> service_step s s'"
| step_sessions: "service_step s (clearAllSessions s)"
| step_limits: "service_step s (clearAllRateLimits s)"
| step_parity: "service_step s (with_manager (recordParityError (manager.truncate s)) s)"
| step_prefer: "service_step s (with_manager (setPreferredAccount a (manager.truncate s)) s)"
| step_reset: "service_step s (with_manager (resetSelectionState (manager.truncate s)) s)"

lemma cooldown_frame:
  "m_tokens (setAccountCooldown now a d s) = m_tokens s" "m_tracker (setAccountCooldown now a d s) = m_tracker s"
  "m_sessions (setAccountCooldown now a d s) = m_sessions s" "m_noGo (setAccountCooldown now a d s) = m_noGo s"
  "map_keys_ok (m_cooldowns s) \<Longrightarrow> map_keys_ok (m_cooldowns (setAccountCooldown now a d s))"
  "m_shadowComparisons (setAccountCooldown now a d s) = m_shadowComparisons s"
  "m_shadowMismatches (setAccountCooldown now a d s) = m_shadowMismatches s"
  "m_config (setAccountCooldown now a d s) = m_config s"
  by (simp_all add: setAccountCooldown_def map_ok_intros)

text \<open>What every step keeps: the invariant, the no-go latch, and the configured longest wait.\<close>

definition max_wait :: "service \<Rightarrow> rat option" where
  "max_wait s = Option.bind (m_config s) sc_max_wait_seconds"

definition kept :: "service \<Rightarrow> service \<Rightarrow> bool" where
  "kept s s' \<longleftrightarrow> (service_ok s \<longrightarrow> service_ok s' \<and> (m_noGo s \<longrightarrow> m_noGo s') \<and> max_wait s' = max_wait s)"

lemma kept_refl [simp]: "kept s s"
  by (simp add: kept_def)

lemma kept_trans: "kept s s' \<Longrightarrow> kept s' s'' \<Longrightarrow> kept s s''"
  by (auto simp: kept_def)

lemma track_and_cool_kept: "track_and_cool e a p s = Inr s' \<Longrightarrow> kept s s'"
  using trackFromUpstreamError_ok
  by (auto simp: track_and_cool_def kept_def max_wait_def service_ok_def Let_def map_ok_intros
      split: sum.splits option.splits if_splits)

lemma settle_kept: "settle s (track_and_cool e a p s) = (x, s') \<Longrightarrow> kept s s'"
  by (auto simp: settle_def split: sum.splits dest: track_and_cool_kept)

lemma relock_kept:
  "kept s (s\<lparr>m_tracker := snd (setLockoutUntilIso dp now a reset r m (m_tracker s))\<rparr>)"
  using tracker_ok_ops(2) by (simp add: kept_def max_wait_def service_ok_def)

lemma cached_kept:
  assumes "setPreciseLockoutFromCachedQuota e a r m s = (b, s')"
  shows "kept s s'"
proof -
  have "s' = s \<or> (\<exists>reset. s' = s\<lparr>m_tracker := snd (setLockoutUntilIso (e_date_parse e) (e_now e) a reset r m (m_tracker s))\<rparr>)"
    using assms unfolding setPreciseLockoutFromCachedQuota_def
    by (auto split: option.splits prod.splits) (metis snd_conv)
  then show ?thesis using relock_kept by auto
qed

lemma realtime_kept:
  assumes "refreshRealtimeQuotaAndSetPreciseLockout e a r m s = (b, s')"
  shows "kept s s'"
proof (cases "map_of (m_tokens s) a")
  case None
  with assms show ?thesis by (simp add: refreshRealtimeQuotaAndSetPreciseLockout_def)
next
  case (Some td)
  show ?thesis
  proof (cases "e_fetchQuota e (td_access_token td) None")
    case None
    with Some assms show ?thesis by (simp add: refreshRealtimeQuotaAndSetPreciseLockout_def)
  next
    case q: (Some q)
    obtain snap rules where x: "extractQuotaSnapshot (Some q) (m_rules s) = (snap, rules)" by fastforce
    let ?s1 = "s\<lparr>m_rules := rules, m_tokens := AList.update a (store_snapshot q snap td) (m_tokens s)\<rparr>"
    have tok: "tokens_ok (m_tokens s) \<Longrightarrow> token_ok (a, store_snapshot q snap td)"
      using tokens_ok_lookup Some by (fastforce simp: token_ok_def store_snapshot_def)
    have k1: "kept s ?s1"
      using tok tokens_ok_update by (auto simp: kept_def max_wait_def service_ok_def)
    show ?thesis
    proof (cases "findEarliestQuotaResetTime (qs_reset_times snap)")
      case None
      with assms have "s' = ?s1"
        by (auto simp: refreshRealtimeQuotaAndSetPreciseLockout_def Some q x Let_def split: if_splits)
      with k1 show ?thesis by simp
    next
      case w: (Some reset)
      let ?s2 = "?s1\<lparr>m_tracker := snd (setLockoutUntilIso (e_date_parse e) (e_now e) a reset r m (m_tracker ?s1))\<rparr>"
      have "s' = ?s1 \<or> s' = ?s2"
        using assms by (auto simp: refreshRealtimeQuotaAndSetPreciseLockout_def Some q x w Let_def
          split: if_splits prod.splits)
      with k1 kept_trans [OF k1 relock_kept] show ?thesis by blast
    qed
  qed
qed

lemma mark_kept: "markFromUpstreamError e p s = (x, s') \<Longrightarrow> kept s s'"
  by (auto simp: markFromUpstreamError_def Let_def split: if_splits prod.splits
      dest!: settle_kept cached_kept realtime_kept intro: kept_trans)

lemma next_kept:
  assumes "getNextToken e opts s = (r, s')"
  shows "kept s s'"
proof -
  have "(m_noGo s \<longrightarrow> m_noGo s') \<and> m_config s' = m_config s" if ok: "service_ok s"
  proof -
    have p: "m_noGo (prepare_selection e opts s) = m_noGo s" "m_config (prepare_selection e opts s) = m_config s"
      using prepare_frame [of s e opts] ok by (simp_all add: service_ok_def same_but_tokens_def)
    then have b: "m_noGo (before_selection e opts s) = m_noGo s" "m_config (before_selection e opts s) = m_config s"
      by (simp_all add: before_selection_def)
    then have sh: "m_noGo s \<longrightarrow> m_noGo (shadowed e opts (before_selection e opts s))"
      "m_config (shadowed e opts (before_selection e opts s)) = m_config s"
      by (auto simp: shadowed_def shadow_frame(6) shadow_frame)
    show ?thesis
      using assms
    proof (cases rule: getNextToken_cases)
      case (none m3)
      with selection_index [OF none(3)] sh show ?thesis by auto
    next
      case (selected a td m3 n)
      from selection_index [OF selected(1)] sh
      have "m_noGo s \<longrightarrow> m_noGo (with_manager (m3\<lparr>m_parityRequests := n\<rparr>) (before_selection e opts s))"
        "m_config (with_manager (m3\<lparr>m_parityRequests := n\<rparr>) (before_selection e opts s)) = m_config s" by auto
      with selected(2) show ?thesis by (auto elim!: finalize_result simp: token_work_def)
    qed (use p b in auto)
  qed
  then show ?thesis using getNextToken_ok [OF _ assms] by (auto simp: kept_def max_wait_def)
qed

text \<open>The wait for the account of a session is at most the configured one, a minute unless it says otherwise.\<close>

definition session_wait :: "rat option \<Rightarrow> js_number \<Rightarrow> bool" where
  "session_wait limit w \<longleftrightarrow>
     (case w of Fin q \<Rightarrow> 0 < q \<and> q \<le> max 0 (case limit of None \<Rightarrow> 60 | Some s \<Rightarrow> s) * 1000 | _ \<Rightarrow> False)"

lemma cache_wait_bounded: "cache_wait m b model now = Some w \<Longrightarrow> session_wait (Option.bind (m_config m) sc_max_wait_seconds) w"
  by (auto simp: cache_wait_def session_wait_def getMaxWaitDurationMs_def Let_def split: if_splits js_number.splits)

lemma selection_wait_bounded:
  assumes "getNextToken_wait e opts s = Some w" "service_ok s"
  shows "session_wait (max_wait s) w"
proof -
  have "m_config (prepare_selection e opts s) = m_config s"
    using prepare_frame [of s e opts] assms(2) by (simp add: service_ok_def same_but_tokens_def)
  then have c: "m_config (shadowed e opts (before_selection e opts s)) = m_config s" by (simp add: before_selection_def)
  have "\<exists>es sk model now. parity_wait (shadowed e opts (before_selection e opts s)) es sk model now = Some w"
    using assms(1) by (auto simp: getNextToken_wait_def shadowed_def before_selection_def selection_session_def Let_def split: if_splits)
  then have "\<exists>b model now. cache_wait (shadowed e opts (before_selection e opts s)) b model now = Some w"
    by (auto simp: parity_wait_def bind_eq_Some_conv Let_def split: if_splits)
  with cache_wait_bounded c show ?thesis by (fastforce simp: max_wait_def)
qed

lemma load_kept: "loadAccounts e s = (n, s') \<Longrightarrow> kept s s'"
  using loadAccounts_frame [of s e] by (auto simp: kept_def max_wait_def service_ok_def same_but_tokens_def)

lemma clear_kept: "kept s (clearAllSessions s)" "kept s (clearAllRateLimits s)"
  using tracker_ok_ops(4)
  by (auto simp: kept_def max_wait_def service_ok_def clearAllSessions_def clearAllRateLimits_def)

lemma drop_kept: "kept s (drop_account a s)"
  using tracker_ok_ops(3) tokens_ok_delete
  by (auto simp: kept_def max_wait_def service_ok_def drop_account_def map_ok_intros)

lemma fold_drop_kept: "kept s (fold drop_account as s)"
  by (induction as arbitrary: s) (auto intro: kept_trans drop_kept)

lemma upload_kept:
  assumes "upsertScopedExternalCredentials e k cs s = (n, s')"
  shows "kept s s'"
proof -
  obtain i ids s1 where f: "fold (upsert_scoped e (js_trim k)) cs (0, [], s) = (i, ids, s1)"
    by (metis prod_cases3)
  let ?s2 = "fold drop_account (stale_scoped (js_trim k) ids s1) s1"
  from fold_upsert_scoped [OF f] have k1: "kept s s1" by (auto simp: kept_def max_wait_def service_ok_def)
  have fp: "kept t (t\<lparr>m_fingerprints := x\<rparr>)" for t x by (simp add: kept_def max_wait_def service_ok_def)
  have "s' = s \<or> (\<exists>x. s' = ?s2\<lparr>m_fingerprints := x\<rparr>)"
    using assms by (auto simp: upsertScopedExternalCredentials_def Let_def f split: if_splits)
  with kept_trans [OF k1 kept_trans [OF fold_drop_kept fp]] show ?thesis by auto
qed

lemma cooldown_kept: "kept s (markAsRateLimited now a s)" "kept s (markAsForbidden now a s)"
  by (simp_all add: kept_def max_wait_def service_ok_def markAsRateLimited_def markAsForbidden_def cooldown_frame)

lemma manager_kept:
  "kept s (with_manager (recordParityError (manager.truncate s)) s)"
  "kept s (with_manager (setPreferredAccount a (manager.truncate s)) s)"
  "kept s (with_manager (resetSelectionState (manager.truncate s)) s)"
  by (auto simp: kept_def max_wait_def service_ok_def recordParityError_def setPreferredAccount_def
      resetSelectionState_def Let_def split: option.splits)

lemma reload_kept: "reloadAllAccounts e s = (n, s') \<Longrightarrow> kept s s'"
  by (auto simp: reloadAllAccounts_def split: prod.splits
      intro: kept_trans [OF load_kept kept_trans [OF clear_kept(2) clear_kept(1)]])

lemma step_kept: "service_step s s' \<Longrightarrow> kept s s'"
  by (induction rule: service_step.induct)
     (blast intro: next_kept mark_kept load_kept reload_kept upload_kept clear_kept cooldown_kept manager_kept)+

text \<open>C7: Whatever sequence of operations runs, from a fresh manager: account ids stay unique and equal the
  id stored in their entry, scoped credentials keep their scope as a prefix of their id, lockouts,
  sessions and cool-downs have one entry per key, and the shadow comparison never counts more
  mismatches than comparisons.\<close>

theorem reachable_states_well_formed:
  assumes "service_step\<^sup>*\<^sup>* (new_service config) s"
  shows "service_ok s"
  using assms
proof (induction rule: rtranclp_induct)
  case base
  show ?case
    by (simp add: new_service_def new_manager_def manager.defs service_ok_def)
next
  case (step s s')
  with step_kept show ?case by (auto simp: kept_def max_wait_def)
qed

theorem reachable_states_well_formed_witness:
  "service_ok (markAsForbidden 0 ''a'' (new_service None))"
  by (rule reachable_states_well_formed [of None]) (rule r_into_rtranclp, rule step_forbidden)

text \<open>The no-go latch is one-way: once the parity scheduler has been blocked, no sequence of
  operations unblocks it, and parity scheduling and its shadow comparison stay off.\<close>

theorem no_go_is_permanent:
  assumes "service_step\<^sup>*\<^sup>* s s'" "service_ok s" "m_noGo s"
  shows "m_noGo s' \<and> \<not> isParitySchedulingEnabled (manager.truncate s') \<and>
    \<not> shouldExecuteShadowComparison (manager.truncate s')"
proof -
  have "service_ok s' \<and> m_noGo s'"
    using assms
  proof (induction rule: rtranclp_induct)
    case (step t u)
    with step_kept [OF step.hyps(2)] show ?case by (auto simp: kept_def max_wait_def)
  qed simp
  then show ?thesis
    by (simp add: isParitySchedulingEnabled_def shouldExecuteShadowComparison_def split: option.splits)
qed

theorem no_go_is_permanent_witness:
  "m_noGo (markAsForbidden 0 ''a'' ((new_service None)\<lparr>m_noGo := True\<rparr>))"
proof -
  let ?s = "(new_service None)\<lparr>m_noGo := True\<rparr>"
  have "service_ok ?s" by (simp add: new_service_def new_manager_def manager.defs service_ok_def)
  have st: "service_step\<^sup>*\<^sup>* ?s (markAsForbidden 0 ''a'' ?s)"
    by (rule r_into_rtranclp) (rule step_forbidden)
  from no_go_is_permanent [OF st \<open>service_ok ?s\<close>] show ?thesis by simp
qed

end
