(* ===== verification/AccountModels.thy ===== *)
theory AccountModels
  imports TokenManagerFacts
begin

section \<open>Models of an account\<close>

text \<open>
  The queries of \<open>TokenManagerService\<close> about models: which candidates a requested model may be
  rewritten to for an account, the limits an account reports, and the probing of models
  with its cache. The outcome of a probe call to the upstream is the argument \<open>probe\<close>.
\<close>

definition lower_model :: "string option \<Rightarrow> string option" where
  "lower_model modelId = map_option js_lower (normalizeModelId modelId)"

definition getAvailableModelsFromToken :: "token_data \<Rightarrow> string list" where
  "getAvailableModelsFromToken td =
     fold (\<lambda>k s. case lower_model (Some k) of Some n \<Rightarrow> set_add n s | None \<Rightarrow> s)
       (map fst (td_model_quotas td) @ (case td_quota td of None \<Rightarrow> [] | Some q \<Rightarrow> map fst (cq_models q))) []"

definition proFamily :: "string list" where
  "proFamily = [''gemini-3-pro'', ''gemini-3-pro-preview'', ''gemini-3-pro-high'', ''gemini-3-pro-low'',
     ''gemini-3.1-pro'', ''gemini-3.1-pro-preview'', ''gemini-3.1-pro-high'', ''gemini-3.1-pro-low'']"

definition pushCandidate :: "string \<Rightarrow> string list \<Rightarrow> string list" where
  "pushCandidate candidate candidates =
     (case lower_model (Some candidate) of None \<Rightarrow> candidates | Some n \<Rightarrow> set_add n candidates)"

definition buildDynamicModelCandidates :: "string \<Rightarrow> token_data \<Rightarrow> string list option" where
  "buildDynamicModelCandidates modelName td =
     (case lower_model (Some modelName) of
        None \<Rightarrow> None
      | Some normalizedModel \<Rightarrow>
          (let c1 = (case truthy_lookup (td_model_forwarding_rules td) normalizedModel of
                 Some target \<Rightarrow> pushCandidate target [] | None \<Rightarrow> []);
               c2 = (if normalizedModel \<in> set proFamily then
                   fold pushCandidate
                     [if normalizedModel = ''gemini-3.1-pro-high'' \<or> normalizedModel = ''gemini-3.1-pro'' \<or>
                         normalizedModel = ''gemini-3.1-pro-preview'' then ''gemini-3.1-pro-low'' else normalizedModel,
                      ''gemini-3-pro-preview'', ''gemini-3-pro-high'', ''gemini-3.1-pro-low'', ''gemini-3-pro-low''] c1
                 else c1);
               c3 = (if normalizedModel = ''claude-sonnet-4-6-thinking'' \<or> normalizedModel = ''claude-sonnet-4-6''
                   then fold pushCandidate [''claude-sonnet-4-6'', ''claude-sonnet-4-6-thinking''] c2 else c2);
               c4 = (if normalizedModel = ''claude-opus-4-6-thinking'' \<or> normalizedModel = ''claude-opus-4-6''
                   then pushCandidate ''claude-opus-4-6-thinking'' c3 else c3)
           in if c4 \<noteq> [] then Some c4 else None))"

definition resolveDynamicModelForAccount :: "string \<Rightarrow> string \<Rightarrow> service \<Rightarrow> string" where
  "resolveDynamicModelForAccount accountId mappedModel s =
     (case map_of (m_tokens s) accountId of
        None \<Rightarrow> mappedModel
      | Some td \<Rightarrow>
          (case buildDynamicModelCandidates mappedModel td of
             None \<Rightarrow> mappedModel
           | Some candidates \<Rightarrow>
               (let availableModels = getAvailableModelsFromToken td
                in if availableModels = [] then hd candidates
                   else (case List.find (\<lambda>c. c \<in> set availableModels) candidates of
                       Some c \<Rightarrow> c | None \<Rightarrow> mappedModel))))"

definition getModelOutputLimitForAccount :: "string \<Rightarrow> string \<Rightarrow> service \<Rightarrow> rat option" where
  "getModelOutputLimitForAccount accountId modelName s =
     (case (map_of (m_tokens s) accountId, normalizeModelId (Some modelName)) of
        (Some td, Some m) \<Rightarrow> map_of (td_model_limits td) m
      | _ \<Rightarrow> None)"

definition budget_of :: "quota_model_info \<Rightarrow> rat option" where
  "budget_of info = (case qm_thinking_budget info of
     Some (Fin b) \<Rightarrow> if b \<ge> 0 then Some (of_int \<lfloor>b\<rfloor>) else None | _ \<Rightarrow> None)"

definition getModelThinkingBudgetForAccount :: "string \<Rightarrow> string \<Rightarrow> service \<Rightarrow> rat option" where
  "getModelThinkingBudgetForAccount accountId modelName s =
     (case (map_of (m_tokens s) accountId, normalizeModelId (Some modelName)) of
        (Some td, Some m) \<Rightarrow>
          first_some (\<lambda>(quotaModelName, info).
              if normalizeModelId (Some quotaModelName) \<noteq> Some m then None else budget_of info)
            (case td_quota td of None \<Rightarrow> [] | Some q \<Rightarrow> cq_models q)
      | _ \<Rightarrow> None)"

definition getAllCollectedModels :: "service \<Rightarrow> string list" where
  "getAllCollectedModels s =
     fold (\<lambda>(_, td). fold set_add (map fst (td_model_quotas td))) (m_tokens s) []"

subsection \<open>Probing\<close>

definition modelProbeCacheTtlMs :: rat where "modelProbeCacheTtlMs = 60 * 60 * 1000"

text \<open>\<open>probe\<close> is the state the probe leaves, and whether the model answered.\<close>

definition canTokenUseModel ::
  "(string \<Rightarrow> string \<Rightarrow> service \<Rightarrow> bool \<times> service) \<Rightarrow> rat \<Rightarrow> rat \<Rightarrow> string \<Rightarrow> string \<Rightarrow> service \<Rightarrow> bool \<times> service" where
  "canTokenUseModel probe now later accountId modelId s =
     (case normalizeModelId (Some modelId) of
        None \<Rightarrow> (False, s)
      | Some m \<Rightarrow>
          (let cacheKey = accountId @ '':'' @ m
           in case map_of (m_probeCache s) cacheKey of
                Some c \<Rightarrow>
                  if now - pe_checkedAt c < modelProbeCacheTtlMs then (pe_ok c, s)
                  else (let (ok, s') = probe accountId m s
                        in (ok, s'\<lparr>m_probeCache := AList.update cacheKey \<lparr>pe_ok = ok, pe_checkedAt = later\<rparr> (m_probeCache s')\<rparr>))
              | None \<Rightarrow>
                  (let (ok, s') = probe accountId m s
                   in (ok, s'\<lparr>m_probeCache := AList.update cacheKey \<lparr>pe_ok = ok, pe_checkedAt = later\<rparr> (m_probeCache s')\<rparr>))))"

fun any_account_can ::
  "(string \<Rightarrow> string \<Rightarrow> service \<Rightarrow> bool \<times> service) \<Rightarrow> rat \<Rightarrow> rat \<Rightarrow> string list \<Rightarrow> string \<Rightarrow> service \<Rightarrow> bool \<times> service" where
  "any_account_can probe now later [] modelId s = (False, s)"
| "any_account_can probe now later (a # as) modelId s =
     (case canTokenUseModel probe now later a modelId s of
        (True, s') \<Rightarrow> (True, s')
      | (False, s') \<Rightarrow> any_account_can probe now later as modelId s')"

definition canAnyAccountUseModel ::
  "(string \<Rightarrow> string \<Rightarrow> service \<Rightarrow> bool \<times> service) \<Rightarrow> rat \<Rightarrow> rat \<Rightarrow> string \<Rightarrow> service \<Rightarrow> bool \<times> service" where
  "canAnyAccountUseModel probe now later modelId s =
     any_account_can probe now later (map fst (m_tokens s)) modelId s"

definition usable_candidates :: "string list \<Rightarrow> service \<Rightarrow> string list" where
  "usable_candidates candidateModels s =
     (let collected = List.map_filter (\<lambda>m. lower_model (Some m)) (getAllCollectedModels s);
          normalized = fold set_add (List.map_filter (\<lambda>m. normalizeModelId (Some m)) candidateModels) []
      in sort (filter (\<lambda>m. \<not> isGeneratedImageVariant m \<or> js_lower m \<in> set collected) normalized))"

fun usable_models ::
  "(string \<Rightarrow> string \<Rightarrow> service \<Rightarrow> bool \<times> service) \<Rightarrow> rat \<Rightarrow> rat \<Rightarrow> string list \<Rightarrow> service \<Rightarrow> string list \<times> service" where
  "usable_models probe now later [] s = ([], s)"
| "usable_models probe now later (m # ms) s =
     (let (ok, s1) = canAnyAccountUseModel probe now later m s;
          (rest, s2) = usable_models probe now later ms s1
      in (if ok then m # rest else rest, s2))"

definition getUsableModelIds ::
  "(string \<Rightarrow> string \<Rightarrow> service \<Rightarrow> bool \<times> service) \<Rightarrow> rat \<Rightarrow> rat \<Rightarrow> string list \<Rightarrow> service \<Rightarrow> string list \<times> service" where
  "getUsableModelIds probe now later candidateModels s =
     usable_models probe now later (usable_candidates candidateModels s) s"

subsection \<open>Properties\<close>

text \<open>A request is only rewritten to a model the account can serve: once the account has reported
  any model, the model chosen for it is the requested one or a candidate the account reports, and a
  reported candidate is chosen whenever there is one.\<close>

theorem dynamic_rewrite_is_available:
  assumes "map_of (m_tokens s) a = Some td" "getAvailableModelsFromToken td \<noteq> []"
    and "buildDynamicModelCandidates m td = Some cs"
  shows "(\<exists>c \<in> set cs. c \<in> set (getAvailableModelsFromToken td)) \<and>
      resolveDynamicModelForAccount a m s \<in> set cs \<inter> set (getAvailableModelsFromToken td)
    \<or> (\<forall>c \<in> set cs. c \<notin> set (getAvailableModelsFromToken td)) \<and> resolveDynamicModelForAccount a m s = m"
proof (cases "List.find (\<lambda>c. c \<in> set (getAvailableModelsFromToken td)) cs")
  case None
  with assms have "resolveDynamicModelForAccount a m s = m"
    by (simp add: resolveDynamicModelForAccount_def Let_def)
  with None show ?thesis by (auto simp: find_None_iff)
next
  case (Some c)
  then have "c \<in> set cs" "c \<in> set (getAvailableModelsFromToken td)"
    by (auto simp: find_Some_iff)
  with Some assms show ?thesis
    by (auto simp: resolveDynamicModelForAccount_def Let_def)
qed

definition image_token :: token_data where
  "image_token = (sample_token ''a'')\<lparr>td_model_quotas := [(''gemini-3-pro-high'', 50)]\<rparr>"

theorem dynamic_rewrite_is_available_witness:
  "resolveDynamicModelForAccount ''a'' ''gemini-3.1-pro'' (sample_service\<lparr>m_tokens := [(''a'', image_token)]\<rparr>)
     = ''gemini-3-pro-high''"
proof -
  let ?s = "sample_service\<lparr>m_tokens := [(''a'', image_token)]\<rparr>"
  have a: "getAvailableModelsFromToken image_token = [''gemini-3-pro-high'']" by code_simp
  have c: "buildDynamicModelCandidates ''gemini-3.1-pro'' image_token =
      Some [''gemini-3.1-pro-low'', ''gemini-3-pro-preview'', ''gemini-3-pro-high'', ''gemini-3-pro-low'']"
    by code_simp
  show ?thesis
    using dynamic_rewrite_is_available [of ?s "''a''" image_token "''gemini-3.1-pro''"] a c by simp
qed

lemma any_account_can_probed:
  "any_account_can probe now later as m s = (True, s') \<Longrightarrow>
   \<exists>a\<in>set as. \<exists>t. fst (canTokenUseModel probe now later a m t)"
proof (induction as arbitrary: s)
  case (Cons a as)
  show ?case
  proof (cases "canTokenUseModel probe now later a m s")
    case (Pair ok s1)
    with Cons show ?thesis by (cases ok) (auto, metis fst_conv)
  qed
qed simp

lemma usable_models_subset: "usable_models probe now later ms s = (r, s') \<Longrightarrow> subseq r ms"
  by (induction ms arbitrary: s r s') (auto simp: Let_def split: prod.splits if_splits)

lemma subseq_keeps:
  "subseq xs ys \<Longrightarrow> set xs \<subseteq> set ys \<and> (distinct ys \<longrightarrow> distinct xs) \<and> (sorted ys \<longrightarrow> sorted xs)"
  by (induction rule: list_emb.induct) auto

text \<open>The list of usable models is sorted and free of duplicates, contains only requested models, and
  an image variant appears only when some account reports it.\<close>

theorem usable_models_are_requested:
  "sorted (fst (getUsableModelIds probe now later ms s)) \<and> distinct (fst (getUsableModelIds probe now later ms s)) \<and>
   (\<forall>m \<in> set (fst (getUsableModelIds probe now later ms s)).
      Some m \<in> (\<lambda>x. normalizeModelId (Some x)) ` set ms \<and>
      (isGeneratedImageVariant m \<longrightarrow>
        Some (js_lower m) \<in> (\<lambda>x. lower_model (Some x)) ` set (getAllCollectedModels s)))"
proof -
  let ?r = "fst (getUsableModelIds probe now later ms s)"
  have sub: "subseq ?r (usable_candidates ms s)"
    using usable_models_subset by (metis getUsableModelIds_def prod.collapse)
  have sd: "sorted (usable_candidates ms s)" "distinct (usable_candidates ms s)"
    by (simp_all add: usable_candidates_def Let_def)
  have mf: "x \<in> set (List.map_filter f xs) \<longleftrightarrow> Some x \<in> f ` set xs" for x f and xs :: "string list"
    by (induction xs) (auto simp: List.map_filter_simps split: option.splits)
  have "set ?r \<subseteq> set (usable_candidates ms s)" "sorted ?r" "distinct ?r"
    using sd subseq_keeps [OF sub] by auto
  then show ?thesis
    by (auto simp: usable_candidates_def Let_def mf dest!: subsetD)
qed

end
