(* ===== verification/UpstreamErrors.thy ===== *)
theory UpstreamErrors
  imports AccountModels
begin

section \<open>Upstream failures and their penalties\<close>

text \<open>
  \<open>server/clients/upstream-error.ts\<close> and the part of \<open>server/proxy.service.ts\<close> that decides
  what a failed upstream call means for the account: the grace retry, the classification of plain error messages,
  the project-context errors and \<open>applyUpstreamPenalty\<close>, on the token manager of TokenManager.
\<close>

subsection \<open>The error values\<close>

text \<open>\<open>InternalTypeError\<close> stands for an exception of the JavaScript runtime, whose message has none of the
  signals below.\<close>

datatype upstream_failure =
    UpstreamRequestError (uf_message: string) (uf_status: "rat option") (uf_retryAfter: "string option")
      (uf_body: "string option")
  | PlainError (uf_message: string)
  | InternalTypeError

text \<open>\<open>replace(/<[^>]*>?/gm, '')\<close>: a tag, or an opening bracket and all that follows it.\<close>

function strip_tags :: "string \<Rightarrow> string" where
  "strip_tags [] = []"
| "strip_tags (c # s) =
     (if c = CHR ''<'' then strip_tags (drop 1 (dropWhile (\<lambda>x. x \<noteq> CHR ''>'') s)) else c # strip_tags s)"
  by pat_completeness auto

termination strip_tags
proof (relation "measure length")
  fix c :: char and s :: string
  have "length (dropWhile (\<lambda>x. x \<noteq> CHR ''>'') s) \<le> length s" by (rule length_dropWhile_le)
  then show "(drop 1 (dropWhile (\<lambda>x. x \<noteq> CHR ''>'') s), c # s) \<in> measure length" by simp
qed simp_all

definition MAX_BODY :: nat where "MAX_BODY = 1000"

definition new_upstream_error :: "string \<Rightarrow> rat option \<Rightarrow> string option \<Rightarrow> string option \<Rightarrow> upstream_failure" where
  "new_upstream_error message status retryAfter body =
     UpstreamRequestError message status retryAfter (map_option (\<lambda>b. take MAX_BODY (strip_tags b)) body)"

subsection \<open>Grace retries\<close>

definition error_text :: "upstream_failure \<Rightarrow> string" where
  "error_text err =
     (case err of
        UpstreamRequestError message status retryAfter body \<Rightarrow>
          join [CHR 0x0A] ((case body of None \<Rightarrow> [] | Some b \<Rightarrow> [b]) @ [message])
      | PlainError message \<Rightarrow> message
      | InternalTypeError \<Rightarrow> [])"

definition resolveGraceRetryDelay :: "upstream_failure \<Rightarrow> js_number option" where
  "resolveGraceRetryDelay err =
     (case err of
        UpstreamRequestError message status retryAfter body \<Rightarrow>
          if status \<noteq> Some 429 then None
          else (case parseRetryDelayMilliseconds (Some (error_text err)) of
              None \<Rightarrow> None
            | Some delay \<Rightarrow> if shouldGraceRetry delay then Some (num_add delay (Fin GRACE_RETRY_BUFFER_MS)) else None)
      | _ \<Rightarrow> None)"

subsection \<open>Classification of messages\<close>

record penalty_decision =
  pd_retry :: bool
  pd_markAsForbidden :: bool
  pd_markAsRateLimited :: bool

definition mentions :: "string \<Rightarrow> string list \<Rightarrow> bool" where
  "mentions text words \<longleftrightarrow> list_ex (str_contains text) words"

definition forbidden_signals :: "string list" where
  "forbidden_signals = [''401'', ''unauthorized'', ''invalid_grant'', ''403'', ''permission_denied'', ''forbidden'']"

definition rate_limit_signals :: "string list" where
  "rate_limit_signals = [''429'', ''resource_exhausted'', ''quota'', ''rate_limit'', ''rate limit'']"

definition retry_statuses :: "string list" where
  "retry_statuses = [''408'', ''429'', ''500'', ''502'', ''503'', ''504'']"

definition retry_keywords :: "string list" where
  "retry_keywords = [''resource_exhausted'', ''quota'', ''rate_limit'', ''timeout'', ''socket hang up'',
     ''empty response stream'', ''connection reset'']"

definition classifyUpstreamFailure :: "string \<Rightarrow> penalty_decision" where
  "classifyUpstreamFailure errorMessage =
     (let m = js_lower errorMessage
      in if mentions m forbidden_signals then
           \<lparr>pd_retry = True, pd_markAsForbidden = True, pd_markAsRateLimited = False\<rparr>
         else if mentions m retry_statuses \<or> mentions m retry_keywords then
           \<lparr>pd_retry = True, pd_markAsForbidden = False, pd_markAsRateLimited = mentions m rate_limit_signals\<rparr>
         else \<lparr>pd_retry = False, pd_markAsForbidden = False, pd_markAsRateLimited = False\<rparr>)"

definition isProjectLicenseError :: "string \<Rightarrow> bool" where
  "isProjectLicenseError errorMessage =
     (let msg = js_lower errorMessage
      in str_contains msg ''#3501'' \<or>
         (str_contains msg ''google cloud project'' \<and> str_contains msg ''code assist license''))"

definition isProjectNotFoundError :: "string \<Rightarrow> bool" where
  "isProjectNotFoundError errorMessage =
     (let msg = js_lower errorMessage
      in str_contains msg ''invalid project resource name projects/'' \<or>
         (str_contains msg ''resource projects/'' \<and> str_contains msg ''could not be found'') \<or>
         (str_contains msg ''project'' \<and> str_contains msg ''not found''))"

definition isProjectContextError :: "string \<Rightarrow> bool" where
  "isProjectContextError errorMessage \<longleftrightarrow> isProjectLicenseError errorMessage \<or> isProjectNotFoundError errorMessage"

definition isQuotaExhaustedError :: "string \<Rightarrow> bool" where
  "isQuotaExhaustedError errorMessage =
     (let msg = js_lower errorMessage
      in str_contains msg ''resource has been exhausted'' \<or> str_contains msg ''resource_exhausted'' \<or>
         str_contains msg ''quota'')"

subsection \<open>Penalties\<close>

text \<open>\<open>recordParityError\<close> on the service, then the penalty. The first component is an exception thrown by
  the tracker.\<close>

definition service_recordParityError :: "service \<Rightarrow> service" where
  "service_recordParityError s = with_manager (recordParityError (manager.truncate s)) s"

definition applyUpstreamPenalty ::
    "env \<Rightarrow> string \<Rightarrow> string \<Rightarrow> upstream_failure \<Rightarrow> service \<Rightarrow> js_error option \<times> service" where
  "applyUpstreamPenalty e accountId model err s =
     (let s1 = service_recordParityError s
      in case err of
           UpstreamRequestError message status retryAfter body \<Rightarrow>
             if status = Some 401 \<or> status = Some 403 then (None, markAsForbidden (e_now e) accountId s1)
             else markFromUpstreamError e \<lparr>ue_accountIdOrEmail = accountId, ue_status = status,
                    ue_retryAfter = retryAfter, ue_body = body, ue_model = Some model\<rparr> s1
         | PlainError message \<Rightarrow>
             (let d = classifyUpstreamFailure message
              in if \<not> pd_retry d then (None, s1)
                 else if pd_markAsForbidden d then (None, markAsForbidden (e_now e) accountId s1)
                 else if pd_markAsRateLimited d then (None, markAsRateLimited (e_now e) accountId s1)
                 else (None, s1))
         | InternalTypeError \<Rightarrow> (None, s1))"

end
