(* ===== verification/Protobuf.thy ===== *)
theory Protobuf
  imports JsPrelude "HOL-Library.Word"
begin

unbundle bit_operations_syntax

section \<open>The protobuf reader and writer\<close>

text \<open>
  Model of \<open>src/shared/serialization/protobuf.ts\<close> (class \<open>ProtobufUtils\<close>): variable-length
  integers, length-delimited fields, lookup and removal of fields, and the OAuth token entry that
  is exchanged with the editor's state database. A \<open>Uint8Array\<close> is a list of 8-bit words. A
  string is the list of its code points, without lone surrogates. Thrown errors are None.
  \<open>TextEncoder\<close>, \<open>TextDecoder\<close> (with its byte order mark and replacement rules) and Node's base64
  \<open>Buffer\<close> conversions are modelled from their specifications.
\<close>

type_synonym byte = "8 word"
type_synonym bytes = "8 word list"
type_synonym codepoints = "nat list"

subsection \<open>Varints\<close>

function encode_nat :: "nat \<Rightarrow> bytes" where
  "encode_nat val = (if val \<ge> 128 then of_nat ((val AND 127) OR 128) # encode_nat (drop_bit 7 val)
                     else [of_nat val])"
  by pat_completeness auto
termination by (relation "measure id") (auto simp: drop_bit_eq_div)

declare encode_nat.simps [simp del]

text \<open>\<open>BigInt(value)\<close> of an integer; a negative one is below 128 and becomes one byte.\<close>

definition encodeVarint :: "int \<Rightarrow> bytes" where
  "encodeVarint value = (if value < 0 then [of_int value] else encode_nat (nat value))"

function read_varint :: "bytes \<Rightarrow> nat \<Rightarrow> nat \<Rightarrow> nat \<Rightarrow> (nat \<times> nat) option" where
  "read_varint data result shift pos =
     (if pos < length data then
        (let b = unat (data ! pos); result' = result OR push_bit shift (b AND 127)
         in if b AND 128 = 0 then Some (result', Suc pos)
            else read_varint data result' (shift + 7) (Suc pos))
      else None)"
  by pat_completeness auto
termination by (relation "measure (\<lambda>(d, r, s, p). length d - p)") auto

declare read_varint.simps [simp del]

definition readVarint :: "bytes \<Rightarrow> nat \<Rightarrow> (nat \<times> nat) option" where
  "readVarint data offset = read_varint data 0 0 offset"

lemma read_varint_forward: "read_varint d r s p = Some (v, p') \<Longrightarrow> p < p'"
proof (induction d r s p rule: read_varint.induct)
  case (1 d r s p)
  have p: "p < length d" using "1.prems" by (subst (asm) read_varint.simps) (simp split: if_splits)
  show ?case
  proof (cases "unat (d ! p) AND 128 = 0")
    case True
    with p "1.prems" show ?thesis by (subst (asm) read_varint.simps) (simp add: Let_def)
  next
    case False
    with p "1.prems"
    have "read_varint d (r OR push_bit s (unat (d ! p) AND 127)) (s + 7) (Suc p) = Some (v, p')"
      by (subst (asm) read_varint.simps) (simp add: Let_def)
    from "1.IH" [OF p refl refl False this] show ?thesis by simp
  qed
qed

lemma readVarint_forward: "readVarint d p = Some (v, p') \<Longrightarrow> p < p'"
  by (simp add: readVarint_def read_varint_forward)

subsection \<open>Fields\<close>

definition skipField :: "bytes \<Rightarrow> nat \<Rightarrow> nat \<Rightarrow> nat option" where
  "skipField data offset wireType =
     (if wireType = 0 then map_option snd (readVarint data offset)
      else if wireType = 1 then Some (offset + 8)
      else if wireType = 2 then
        (case readVarint data offset of None \<Rightarrow> None | Some (len, nxt) \<Rightarrow> Some (nxt + len))
      else if wireType = 5 then Some (offset + 4)
      else None)"

lemma skipField_forward: "skipField d p w = Some p' \<Longrightarrow> p \<le> p'"
  by (auto simp: skipField_def split: if_splits option.splits dest!: readVarint_forward)

text \<open>The copy loop reads past the end of a truncated message: \<open>undefined\<close> becomes a zero byte.\<close>

definition copy_range :: "bytes \<Rightarrow> nat \<Rightarrow> nat \<Rightarrow> bytes" where
  "copy_range data a b = map (\<lambda>i. if i < length data then data ! i else 0) [a..<b]"

function remove_from :: "bytes \<Rightarrow> nat \<Rightarrow> nat \<Rightarrow> bytes option" where
  "remove_from data fieldNum offset =
     (if offset < length data then
        (case readVarint data offset of
           None \<Rightarrow> None
         | Some (tag, nxt) \<Rightarrow>
             (case skipField data nxt (tag AND 7) of
                None \<Rightarrow> None
              | Some endOffset \<Rightarrow>
                  (case remove_from data fieldNum endOffset of
                     None \<Rightarrow> None
                   | Some r \<Rightarrow> Some (if drop_bit 3 tag = fieldNum then r
                                     else copy_range data offset endOffset @ r))))
      else Some [])"
  by pat_completeness auto
termination
proof (relation "measure (\<lambda>(d, f, p). length d - p)", goal_cases)
  case (2 data fieldNum offset pair tag nxt endOffset)
  then have "offset < nxt" "nxt \<le> endOffset"
    using readVarint_forward skipField_forward by auto
  with 2(1) show ?case by simp
qed simp

declare remove_from.simps [simp del]

definition removeField :: "bytes \<Rightarrow> nat \<Rightarrow> bytes option" where
  "removeField data fieldNum = remove_from data fieldNum 0"

text \<open>\<open>(fieldNum << 3) | wireType\<close> on 32-bit integers.\<close>

definition tag_of :: "nat \<Rightarrow> nat \<Rightarrow> int" where
  "tag_of fieldNum wireType = sint ((push_bit 3 (of_nat fieldNum) OR of_nat wireType) :: 32 word)"

definition encodeLenDelimField :: "nat \<Rightarrow> bytes \<Rightarrow> bytes" where
  "encodeLenDelimField fieldNum data =
     encodeVarint (tag_of fieldNum 2) @ encodeVarint (int (length data)) @ data"

definition encodeVarintField :: "nat \<Rightarrow> int \<Rightarrow> bytes" where
  "encodeVarintField fieldNum value = encodeVarint (tag_of fieldNum 0) @ encodeVarint value"

definition createTimestampField :: "nat \<Rightarrow> int \<Rightarrow> bytes" where
  "createTimestampField fieldNum seconds =
     (let innerMsg = encodeVarint (tag_of 1 0) @ encodeVarint seconds
      in encodeVarint (tag_of fieldNum 2) @ encodeVarint (int (length innerMsg)) @ innerMsg)"

text \<open>The two levels of the result: None is a thrown error, \<open>Some None\<close> the value null.\<close>

function get_from :: "bytes \<Rightarrow> nat \<Rightarrow> nat \<Rightarrow> bytes option option" where
  "get_from data fieldNum offset =
     (if offset < length data then
        (case readVarint data offset of
           None \<Rightarrow> None
         | Some (tag, nxt) \<Rightarrow>
             if drop_bit 3 tag = fieldNum then
               (if tag AND 7 = 2 then
                  (case readVarint data nxt of
                     None \<Rightarrow> None
                   | Some (len, dataStart) \<Rightarrow> Some (Some (take len (drop dataStart data))))
                else Some None)
             else
               (case skipField data nxt (tag AND 7) of
                  None \<Rightarrow> None
                | Some offset' \<Rightarrow> get_from data fieldNum offset'))
      else Some None)"
  by pat_completeness auto
termination
proof (relation "measure (\<lambda>(d, f, p). length d - p)", goal_cases)
  case (2 data fieldNum offset pair tag nxt offset')
  then have "offset < nxt" "nxt \<le> offset'"
    using readVarint_forward skipField_forward by auto
  with 2(1) show ?case by simp
qed simp

declare get_from.simps [simp del]

definition getField :: "bytes \<Rightarrow> nat \<Rightarrow> bytes option option" where
  "getField data fieldNum = get_from data fieldNum 0"

function find_varint_from :: "bytes \<Rightarrow> nat \<Rightarrow> nat \<Rightarrow> nat option option" where
  "find_varint_from data targetField offset =
     (if offset < length data then
        (case readVarint data offset of
           None \<Rightarrow> None
         | Some (tag, nxt) \<Rightarrow>
             if drop_bit 3 tag = targetField \<and> tag AND 7 = 0 then
               (case readVarint data nxt of None \<Rightarrow> None | Some (v, _) \<Rightarrow> Some (Some v))
             else
               (case skipField data nxt (tag AND 7) of
                  None \<Rightarrow> None
                | Some offset' \<Rightarrow> find_varint_from data targetField offset'))
      else Some None)"
  by pat_completeness auto
termination
proof (relation "measure (\<lambda>(d, f, p). length d - p)", goal_cases)
  case (2 data targetField offset pair tag nxt offset')
  then have "offset < nxt" "nxt \<le> offset'"
    using readVarint_forward skipField_forward by auto
  with 2(1) show ?case by simp
qed simp

declare find_varint_from.simps [simp del]

definition findVarintField :: "bytes \<Rightarrow> nat \<Rightarrow> nat option option" where
  "findVarintField data targetField = find_varint_from data targetField 0"

subsection \<open>UTF-8\<close>

definition is_surrogate :: "nat \<Rightarrow> bool" where
  "is_surrogate c \<longleftrightarrow> 0xD800 \<le> c \<and> c \<le> 0xDFFF"

definition utf8_char :: "nat \<Rightarrow> bytes" where
  "utf8_char c0 =
     (let c = (if is_surrogate c0 then 0xFFFD else c0)
      in if c < 0x80 then [of_nat c]
         else if c < 0x800 then [of_nat (0xC0 + c div 64), of_nat (0x80 + c mod 64)]
         else if c < 0x10000 then
           [of_nat (0xE0 + c div 4096), of_nat (0x80 + c div 64 mod 64), of_nat (0x80 + c mod 64)]
         else [of_nat (0xF0 + c div 262144), of_nat (0x80 + c div 4096 mod 64),
               of_nat (0x80 + c div 64 mod 64), of_nat (0x80 + c mod 64)])"

definition utf8_encode :: "codepoints \<Rightarrow> bytes" where
  "utf8_encode s = concat (map utf8_char s)"

text \<open>The decoder of the Encoding standard: a lead byte fixes how many bytes follow and the range of the
  first of them; a byte out of range ends the sequence with U+FFFD and is read again.\<close>

definition lead_byte :: "nat \<Rightarrow> (nat \<times> nat \<times> nat \<times> nat) option" where
  "lead_byte b =
     (if 0xC2 \<le> b \<and> b \<le> 0xDF then Some (1, b - 0xC0, 0x80, 0xBF)
      else if 0xE0 \<le> b \<and> b \<le> 0xEF then
        Some (2, b - 0xE0, (if b = 0xE0 then 0xA0 else 0x80), (if b = 0xED then 0x9F else 0xBF))
      else if 0xF0 \<le> b \<and> b \<le> 0xF4 then
        Some (3, b - 0xF0, (if b = 0xF0 then 0x90 else 0x80), (if b = 0xF4 then 0x8F else 0xBF))
      else None)"

text \<open>Continuation bytes: \<open>n\<close> still needed, value so far, allowed range of the next byte.\<close>

fun utf8_cont :: "nat \<Rightarrow> nat \<Rightarrow> nat \<Rightarrow> nat \<Rightarrow> bytes \<Rightarrow> nat \<times> bytes" where
  "utf8_cont 0 v lo hi bs = (v, bs)"
| "utf8_cont (Suc n) v lo hi [] = (0xFFFD, [])"
| "utf8_cont (Suc n) v lo hi (b # bs) =
     (if lo \<le> unat b \<and> unat b \<le> hi then utf8_cont n (v * 64 + (unat b - 0x80)) 0x80 0xBF bs
      else (0xFFFD, b # bs))"

lemma utf8_cont_shorter: "length (snd (utf8_cont n v lo hi bs)) \<le> length bs"
  by (induction n v lo hi bs rule: utf8_cont.induct) auto

function utf8_decode :: "bytes \<Rightarrow> codepoints" where
  "utf8_decode [] = []"
| "utf8_decode (b # bs) =
     (if unat b < 0x80 then unat b # utf8_decode bs
      else (case lead_byte (unat b) of
          None \<Rightarrow> 0xFFFD # utf8_decode bs
        | Some (n, v, lo, hi) \<Rightarrow>
            fst (utf8_cont n v lo hi bs) # utf8_decode (snd (utf8_cont n v lo hi bs))))"
  by pat_completeness auto
termination
  by (relation "measure length") (auto simp: less_Suc_eq_le utf8_cont_shorter)

text \<open>\<open>new TextDecoder().decode(data)\<close> drops a leading byte order mark.\<close>

definition readString_bytes :: "bytes \<Rightarrow> codepoints" where
  "readString_bytes data = utf8_decode (if take 3 data = [0xEF, 0xBB, 0xBF] then drop 3 data else data)"

definition encodeStringField :: "nat \<Rightarrow> codepoints \<Rightarrow> bytes" where
  "encodeStringField fieldNum value = encodeLenDelimField fieldNum (utf8_encode value)"

definition createStringField :: "nat \<Rightarrow> codepoints \<Rightarrow> bytes" where
  "createStringField fieldNum value =
     (let b = utf8_encode value
      in encodeVarint (tag_of fieldNum 2) @ encodeVarint (int (length b)) @ b)"

subsection \<open>Base64\<close>

definition b64_char :: "nat \<Rightarrow> nat" where
  "b64_char v = (if v < 26 then 65 + v else if v < 52 then 71 + v else if v < 62 then v - 4
                 else if v = 62 then 43 else 47)"

text \<open>Node's decoder also accepts the URL-safe alphabet.\<close>

definition b64_val :: "nat \<Rightarrow> nat option" where
  "b64_val c =
     (if 65 \<le> c \<and> c \<le> 90 then Some (c - 65)
      else if 97 \<le> c \<and> c \<le> 122 then Some (c - 71)
      else if 48 \<le> c \<and> c \<le> 57 then Some (c + 4)
      else if c = 43 \<or> c = 45 then Some 62
      else if c = 47 \<or> c = 95 then Some 63
      else None)"

fun b64_encode :: "bytes \<Rightarrow> codepoints" where
  "b64_encode [] = []"
| "b64_encode [a] = [b64_char (unat a div 4), b64_char (unat a mod 4 * 16), 61, 61]"
| "b64_encode [a, b] =
     [b64_char (unat a div 4), b64_char (unat a mod 4 * 16 + unat b div 16), b64_char (unat b mod 16 * 4), 61]"
| "b64_encode (a # b # c # r) =
     b64_char (unat a div 4) # b64_char (unat a mod 4 * 16 + unat b div 16) #
     b64_char (unat b mod 16 * 4 + unat c div 64) # b64_char (unat c mod 64) # b64_encode r"

fun b64_groups :: "nat list \<Rightarrow> bytes" where
  "b64_groups (w # x # y # z # r) =
     of_nat (w * 4 + x div 16) # of_nat (x mod 16 * 16 + y div 4) # of_nat (y mod 4 * 64 + z) # b64_groups r"
| "b64_groups [w, x, y] = [of_nat (w * 4 + x div 16), of_nat (x mod 16 * 16 + y div 4)]"
| "b64_groups [w, x] = [of_nat (w * 4 + x div 16)]"
| "b64_groups [w] = []"
| "b64_groups [] = []"

text \<open>\<open>Buffer.from(s, 'base64')\<close>: reads up to the first \<open>=\<close>, skipping characters that are not base64
  (the model is for text whose \<open>=\<close> signs are at its end, the padding).\<close>

definition b64_decode :: "codepoints \<Rightarrow> bytes" where
  "b64_decode s = b64_groups (List.map_filter b64_val (takeWhile (\<lambda>c. c \<noteq> 61) s))"

subsection \<open>OAuth tokens and state entries\<close>

definition codes :: "string \<Rightarrow> codepoints" where
  "codes = map of_char"

record oauth_info =
  oi_accessToken :: codepoints
  oi_refreshToken :: codepoints
  oi_idToken :: "codepoints option"

record oauth_details = oauth_info +
  oi_expiryTimestamp :: nat

definition lower_code :: "nat \<Rightarrow> nat" where
  "lower_code n = (if 65 \<le> n \<and> n \<le> 90 then n + 32 else n)"

definition isPersonalAccountEmail :: "codepoints \<Rightarrow> bool" where
  "isPersonalAccountEmail email =
     (let lowerEmail = map lower_code email
      in suffix (codes ''@gmail.com'') lowerEmail \<or> suffix (codes ''@outlook.com'') lowerEmail \<or>
         suffix (codes ''@hotmail.com'') lowerEmail \<or> suffix (codes ''@qq.com'') lowerEmail \<or>
         suffix (codes ''@163.com'') lowerEmail)"

definition nonempty :: "codepoints option \<Rightarrow> bool" where
  "nonempty s \<longleftrightarrow> (case s of None \<Rightarrow> False | Some t \<Rightarrow> t \<noteq> [])"

definition createOAuthTokenInfo :: "codepoints \<Rightarrow> codepoints \<Rightarrow> int \<Rightarrow> bytes" where
  "createOAuthTokenInfo accessToken refreshToken expiry =
     (let payload = createStringField 1 accessToken @ createStringField 2 (codes ''Bearer'') @
            createStringField 3 refreshToken @ createTimestampField 4 expiry
      in encodeVarint (tag_of 6 2) @ encodeVarint (int (length payload)) @ payload)"

definition createOAuthInfo ::
  "codepoints \<Rightarrow> codepoints \<Rightarrow> int \<Rightarrow> bool \<Rightarrow> codepoints option \<Rightarrow> codepoints option \<Rightarrow> bytes" where
  "createOAuthInfo accessToken refreshToken expiry isGcpTos idToken email =
     (let tos = (if nonempty email \<and> isPersonalAccountEmail (the email) \<and> isGcpTos then False else isGcpTos);
          timestampMsg = encodeVarintField 1 expiry @ encodeVarintField 2 0
      in encodeStringField 1 accessToken @ encodeStringField 2 (codes ''Bearer'') @
         encodeStringField 3 refreshToken @ encodeLenDelimField 4 timestampMsg @
         (if nonempty idToken then encodeStringField 5 (the idToken) else []) @
         (if tos then encodeVarintField 6 1 else []))"

definition createUnifiedStateEntry :: "codepoints \<Rightarrow> bytes \<Rightarrow> codepoints" where
  "createUnifiedStateEntry sentinelKey payload =
     (let row = encodeStringField 1 (b64_encode payload);
          dataEntry = encodeStringField 1 sentinelKey @ encodeLenDelimField 2 row
      in b64_encode (encodeLenDelimField 1 dataEntry))"

definition oauth_sentinel :: codepoints where
  "oauth_sentinel = codes ''oauthTokenInfoSentinelKey''"

definition createUnifiedOAuthToken ::
  "codepoints \<Rightarrow> codepoints \<Rightarrow> int \<Rightarrow> bool \<Rightarrow> codepoints option \<Rightarrow> codepoints option \<Rightarrow> codepoints" where
  "createUnifiedOAuthToken accessToken refreshToken expiry isGcpTos idToken email =
     createUnifiedStateEntry oauth_sentinel
       (createOAuthInfo accessToken refreshToken expiry isGcpTos idToken email)"

definition extractOAuthTokenInfoFromOAuthInfo :: "bytes \<Rightarrow> oauth_info option option" where
  "extractOAuthTokenInfoFromOAuthInfo data =
     (case (getField data 1, getField data 3, getField data 5) of
        (Some a, Some r, Some i) \<Rightarrow>
          Some (case (a, r) of
             (Some a, Some r) \<Rightarrow> Some \<lparr>oi_accessToken = readString_bytes a, oi_refreshToken = readString_bytes r,
                 oi_idToken = map_option readString_bytes i\<rparr>
           | _ \<Rightarrow> None)
      | _ \<Rightarrow> None)"

definition extractOAuthTokenInfo :: "bytes \<Rightarrow> oauth_info option option" where
  "extractOAuthTokenInfo data =
     (case getField data 6 of
        None \<Rightarrow> None
      | Some None \<Rightarrow> Some None
      | Some (Some d) \<Rightarrow> extractOAuthTokenInfoFromOAuthInfo d)"

definition extractOAuthTokenDetailsFromOAuthInfo :: "bytes \<Rightarrow> oauth_details option option" where
  "extractOAuthTokenDetailsFromOAuthInfo data =
     (case (getField data 1, getField data 3, getField data 4, getField data 5) of
        (Some a, Some r, Some e, Some i) \<Rightarrow>
          (case (a, r, e) of
             (Some a, Some r, Some e) \<Rightarrow>
               (case findVarintField e 1 of
                  None \<Rightarrow> None
                | Some t \<Rightarrow>
                    Some (case t of
                        None \<Rightarrow> None
                      | Some t \<Rightarrow> if t = 0 then None
                          else Some \<lparr>oi_accessToken = readString_bytes a, oi_refreshToken = readString_bytes r,
                                 oi_idToken = map_option readString_bytes i, oi_expiryTimestamp = t\<rparr>))
           | _ \<Rightarrow> Some None)
      | _ \<Rightarrow> None)"

text \<open>The decoders that throw when a field is missing; their result is the key and the payload.\<close>

definition require_field :: "bytes \<Rightarrow> nat \<Rightarrow> bytes option" where
  "require_field data n = (case getField data n of Some (Some b) \<Rightarrow> Some b | _ \<Rightarrow> None)"

definition decodeTopicRowPayload :: "bytes \<Rightarrow> (codepoints \<times> bytes) option" where
  "decodeTopicRowPayload topicBlob =
     (case require_field topicBlob 1 of None \<Rightarrow> None | Some dataEntry \<Rightarrow>
      (case require_field dataEntry 1 of None \<Rightarrow> None | Some sentinelKeyBytes \<Rightarrow>
       (case require_field dataEntry 2 of None \<Rightarrow> None | Some rowBlob \<Rightarrow>
        (case require_field rowBlob 1 of None \<Rightarrow> None | Some encodedPayloadBytes \<Rightarrow>
           Some (readString_bytes sentinelKeyBytes, b64_decode (readString_bytes encodedPayloadBytes))))))"

definition is_base64_byte :: "byte \<Rightarrow> bool" where
  "is_base64_byte b = (let n = unat b in (65 \<le> n \<and> n \<le> 90) \<or> (97 \<le> n \<and> n \<le> 122) \<or>
     (48 \<le> n \<and> n \<le> 57) \<or> n = 43 \<or> n = 47 \<or> n = 61)"

definition decodeLegacyBase64PayloadIfNeeded :: "bytes \<Rightarrow> bytes" where
  "decodeLegacyBase64PayloadIfNeeded payload =
     (if payload = [] \<or> length payload mod 4 \<noteq> 0 then payload
      else if \<not> list_all is_base64_byte payload then payload
      else (let decoded = b64_decode (utf8_decode payload)
            in if decoded = [] then payload else decoded))"

definition decodeLegacyUnifiedStateEntry :: "bytes \<Rightarrow> (codepoints \<times> bytes) option" where
  "decodeLegacyUnifiedStateEntry outerBlob =
     (case require_field outerBlob 1 of None \<Rightarrow> None | Some innerBlob \<Rightarrow>
      (case require_field innerBlob 1 of None \<Rightarrow> None | Some sentinelKeyBytes \<Rightarrow>
       (case require_field innerBlob 2 of None \<Rightarrow> None | Some payload \<Rightarrow>
          Some (readString_bytes sentinelKeyBytes, decodeLegacyBase64PayloadIfNeeded payload))))"

definition decode_entry :: "bytes \<Rightarrow> (codepoints \<times> bytes) option" where
  "decode_entry blob =
     (case decodeTopicRowPayload blob of Some d \<Rightarrow> Some d | None \<Rightarrow> decodeLegacyUnifiedStateEntry blob)"

definition decodeUnifiedStateEntry :: "codepoints \<Rightarrow> (codepoints \<times> bytes) option" where
  "decodeUnifiedStateEntry outerB64 = decode_entry (b64_decode outerB64)"

text \<open>The direct payload first, then a base64 string nested in its field 1. Errors of the direct parse
  escape; those of the nested one are caught.\<close>

definition extract_entry ::
  "(bytes \<Rightarrow> 'a option option) \<Rightarrow> bytes \<Rightarrow> 'a option option" where
  "extract_entry parse payload =
     (case parse payload of
        None \<Rightarrow> None
      | Some (Some r) \<Rightarrow> Some (Some r)
      | Some None \<Rightarrow>
          (case getField payload 1 of
             None \<Rightarrow> None
           | Some None \<Rightarrow> Some None
           | Some (Some nested) \<Rightarrow>
               (case parse (b64_decode (readString_bytes nested)) of
                  None \<Rightarrow> Some None | Some r \<Rightarrow> Some r)))"

definition extractOAuthTokenInfoFromUnifiedState :: "bytes \<Rightarrow> oauth_info option option" where
  "extractOAuthTokenInfoFromUnifiedState data =
     (case decode_entry data of
        None \<Rightarrow> Some None
      | Some (key, payload) \<Rightarrow>
          if key \<noteq> oauth_sentinel then Some None
          else extract_entry extractOAuthTokenInfoFromOAuthInfo payload)"

definition extractOAuthTokenInfoFromUnifiedStateEntry :: "codepoints \<Rightarrow> oauth_info option option" where
  "extractOAuthTokenInfoFromUnifiedStateEntry outerB64 =
     extractOAuthTokenInfoFromUnifiedState (b64_decode outerB64)"

definition extractOAuthTokenDetailsFromUnifiedStateEntry :: "codepoints \<Rightarrow> oauth_details option option" where
  "extractOAuthTokenDetailsFromUnifiedStateEntry outerB64 =
     (case decodeUnifiedStateEntry outerB64 of
        None \<Rightarrow> Some None
      | Some (key, payload) \<Rightarrow>
          if key \<noteq> oauth_sentinel then Some None
          else extract_entry extractOAuthTokenDetailsFromOAuthInfo payload)"

definition createStringValuePayload :: "codepoints \<Rightarrow> bytes" where
  "createStringValuePayload value = encodeStringField 3 value"

definition createMinimalUserStatusPayload :: "codepoints \<Rightarrow> bytes" where
  "createMinimalUserStatusPayload email = encodeStringField 3 email @ encodeStringField 7 email"

subsection \<open>Varints are read back\<close>

lemma and_127: "(x::nat) AND 127 = x mod 128"
  using take_bit_eq_mask [of 7 x] by (simp add: take_bit_eq_mod mask_eq_exp_minus_1)

lemma and_128_0: "(x::nat) AND 128 = 0 \<longleftrightarrow> even (x div 128)"
  using and_exp_eq_0_iff_not_bit [of x 7] by (simp add: bit_iff_odd)

lemma or_push: 
  assumes "(r::nat) < 2 ^ s"
  shows "r OR push_bit s x = r + x * 2 ^ s"
proof -
  have "take_bit s r = r" using assms by (rule take_bit_nat_eq_self)
  then have "r AND push_bit s x = 0"
    by (metis (no_types, lifting) bit_eqI bit_0_eq bit_and_iff bit_push_bit_iff bit_take_bit_iff bot_apply bot_bool_def linorder_not_less)
  then show ?thesis by (simp add: disjunctive_add_eq_or [symmetric] push_bit_eq_mult)
qed

lemma or_128: "m < 128 \<Longrightarrow> (m::nat) OR 128 = m + 128"
  using or_push [of m 7 1] by (simp add: push_bit_eq_mult)

lemma encode_nat_small: "n < 128 \<Longrightarrow> encode_nat n = [of_nat n]"
  by (subst encode_nat.simps) simp

lemma encode_nat_big: "128 \<le> n \<Longrightarrow> encode_nat n = of_nat (n mod 128 + 128) # encode_nat (n div 128)"
  by (subst encode_nat.simps) (simp add: and_127 or_128 drop_bit_eq_div)

lemma unat_byte: "n < 256 \<Longrightarrow> unat (of_nat n :: byte) = n"
  by (simp add: unat_of_nat take_bit_nat_eq_self)

lemma nth_append_here: "i = length pre \<Longrightarrow> (pre @ x # post) ! i = x"
  by simp

lemma read_varint_encode:
  assumes "r < 2 ^ s"
  shows "read_varint (pre @ encode_nat n @ post) r s (length pre) =
    Some (r + n * 2 ^ s, length pre + length (encode_nat n))"
  using assms
proof (induction n arbitrary: pre r s rule: less_induct)
  case (less n)
  show ?case
  proof (cases "n < 128")
    case True
    then show ?thesis using less.prems
      by (subst read_varint.simps)
         (simp add: encode_nat_small unat_byte and_128_0 and_127 or_push Let_def)
  next
    case False
    define b where "b = (of_nat (n mod 128 + 128) :: byte)"
    have b: "unat b = n mod 128 + 128" unfolding b_def by (rule unat_byte) simp
    have enc: "encode_nat n = b # encode_nat (n div 128)" using False by (simp add: encode_nat_big b_def)
    have acc: "r OR push_bit s (n mod 128) = r + (n mod 128) * 2 ^ s" by (rule or_push [OF less.prems])
    have "n mod 128 + 1 \<le> 128" using mod_less_divisor [of 128 n] by linarith
    then have "(n mod 128 + 1) * 2 ^ s \<le> 128 * 2 ^ s" by (rule mult_le_mono1)
    then have "(n mod 128) * 2 ^ s + 2 ^ s \<le> 128 * 2 ^ s" by (simp only: add_mult_distrib nat_mult_1)
    moreover have "(2::nat) ^ (s + 7) = 128 * 2 ^ s" by (simp add: power_add)
    ultimately have lt: "r + (n mod 128) * 2 ^ s < 2 ^ (s + 7)"
      using less.prems by linarith
    have ih: "read_varint ((pre @ [b]) @ encode_nat (n div 128) @ post) (r + (n mod 128) * 2 ^ s) (s + 7) (length (pre @ [b])) =
        Some (r + (n mod 128) * 2 ^ s + n div 128 * 2 ^ (s + 7), length (pre @ [b]) + length (encode_nat (n div 128)))"
      by (rule less.IH [OF _ lt]) (use False in auto)
    have val: "r + (n mod 128) * 2 ^ s + n div 128 * 2 ^ (s + 7) = r + n * 2 ^ s"
    proof -
      have "n * 2 ^ s = (n div 128 * 128 + n mod 128) * 2 ^ s" by (simp only: div_mult_mod_eq)
      also have "\<dots> = n div 128 * (128 * 2 ^ s) + n mod 128 * 2 ^ s" by (simp only: add_mult_distrib mult.assoc)
      also have "128 * 2 ^ s = (2::nat) ^ (s + 7)" by (simp add: power_add)
      finally show ?thesis by linarith
    qed
    have "\<not> even ((n mod 128 + 128) div 128)" by simp
    then show ?thesis
      using ih val by (subst read_varint.simps) (simp add: enc b and_128_0 and_127 acc Let_def)
  qed
qed

lemma readVarint_encode:
  "readVarint (pre @ encode_nat n @ post) (length pre) = Some (n, length pre + length (encode_nat n))"
  using read_varint_encode [of 0 0] by (simp add: readVarint_def)

lemma encode_nat_nonempty [simp]: "encode_nat n \<noteq> []"
  by (subst encode_nat.simps) simp

lemma encodeVarint_nat [simp]: "encodeVarint (int n) = encode_nat n"
  by (simp add: encodeVarint_def)

subsection \<open>Messages\<close>

text \<open>The abstract message a byte sequence stands for: a list of numbered fields.\<close>

datatype wire = Varint nat | Fixed64 bytes | Delimited bytes | Fixed32 bytes

fun wire_type :: "wire \<Rightarrow> nat" where
  "wire_type (Varint _) = 0" | "wire_type (Fixed64 _) = 1" | "wire_type (Delimited _) = 2" | "wire_type (Fixed32 _) = 5"

fun wire_ok :: "wire \<Rightarrow> bool" where
  "wire_ok (Fixed64 b) = (length b = 8)" | "wire_ok (Fixed32 b) = (length b = 4)" | "wire_ok _ = True"

fun wire_bytes :: "wire \<Rightarrow> bytes" where
  "wire_bytes (Varint n) = encode_nat n" | "wire_bytes (Fixed64 b) = b" | "wire_bytes (Fixed32 b) = b"
| "wire_bytes (Delimited b) = encode_nat (length b) @ b"

definition field_bytes :: "nat \<times> wire \<Rightarrow> bytes" where
  "field_bytes = (\<lambda>(n, w). encode_nat (8 * n + wire_type w) @ wire_bytes w)"

definition message_bytes :: "(nat \<times> wire) list \<Rightarrow> bytes" where
  "message_bytes fs = concat (map field_bytes fs)"

lemma field_bytes_nonempty [simp]: "field_bytes f \<noteq> []"
  by (cases f) (simp add: field_bytes_def)

lemma wire_type_lt: "wire_type w < 8"
  by (cases w) auto

lemma tag_and_7: "(8 * n + wire_type w) AND 7 = wire_type w"
  using take_bit_eq_mask [of 3 "8 * n + wire_type w"] wire_type_lt [of w]
  by (simp add: take_bit_eq_mod mask_eq_exp_minus_1)

lemma tag_drop: "drop_bit 3 (8 * n + wire_type w) = n"
  using wire_type_lt [of w] by (simp add: drop_bit_eq_div)

lemma skip_wire:
  assumes "wire_ok w"
  shows "skipField (pre @ wire_bytes w @ post) (length pre) (wire_type w) = Some (length pre + length (wire_bytes w))"
proof (cases w)
  case (Delimited b)
  then show ?thesis
    using readVarint_encode [of pre "length b" "b @ post"] by (simp add: skipField_def)
next
  case (Varint n)
  then show ?thesis using readVarint_encode [of pre n post] by (simp add: skipField_def)
qed (use assms in \<open>auto simp: skipField_def\<close>)

lemma read_field:
  "readVarint (pre @ field_bytes (n, w) @ post) (length pre) =
     Some (8 * n + wire_type w, length pre + length (encode_nat (8 * n + wire_type w)))"
  using readVarint_encode [of pre "8 * n + wire_type w" "wire_bytes w @ post"] by (simp add: field_bytes_def)

lemma skip_field:
  assumes "wire_ok w"
  shows "skipField (pre @ field_bytes (n, w) @ post)
      (length pre + length (encode_nat (8 * n + wire_type w))) ((8 * n + wire_type w) AND 7) =
    Some (length pre + length (field_bytes (n, w)))"
  using skip_wire [OF assms, of "pre @ encode_nat (8 * n + wire_type w)" post]
  by (simp add: field_bytes_def tag_and_7)

fun first_field :: "nat \<Rightarrow> (nat \<times> wire) list \<Rightarrow> bytes option" where
  "first_field n [] = None"
| "first_field n ((k, w) # fs) =
     (if k = n then (case w of Delimited b \<Rightarrow> Some b | _ \<Rightarrow> None) else first_field n fs)"

fun first_varint :: "nat \<Rightarrow> (nat \<times> wire) list \<Rightarrow> nat option" where
  "first_varint n [] = None"
| "first_varint n ((k, w) # fs) =
     (case w of Varint v \<Rightarrow> if k = n then Some v else first_varint n fs | _ \<Rightarrow> first_varint n fs)"

lemma message_Cons [simp]: "message_bytes (f # fs) = field_bytes f @ message_bytes fs"
  by (simp add: message_bytes_def)

lemma message_Nil [simp]: "message_bytes [] = []"
  by (simp add: message_bytes_def)

lemma get_from_message:
  assumes "\<forall>(n, w) \<in> set fs. wire_ok w"
  shows "get_from (pre @ message_bytes fs) n (length pre) = Some (first_field n fs)"
  using assms
proof (induction fs arbitrary: pre)
  case Nil
  show ?case by (subst get_from.simps) simp
next
  case (Cons f fs)
  obtain k w where f: "f = (k, w)" by fastforce
  have ih: "get_from ((pre @ field_bytes f) @ message_bytes fs) n (length (pre @ field_bytes f)) = Some (first_field n fs)"
    by (rule Cons.IH) (use Cons.prems in auto)
  have rd: "readVarint (pre @ field_bytes f @ message_bytes fs) (length pre) =
     Some (8 * k + wire_type w, length pre + length (encode_nat (8 * k + wire_type w)))"
    unfolding f by (rule read_field)
  have sk: "skipField (pre @ field_bytes f @ message_bytes fs)
      (length pre + length (encode_nat (8 * k + wire_type w))) ((8 * k + wire_type w) AND 7) =
    Some (length pre + length (field_bytes f))"
    unfolding f by (rule skip_field) (use Cons.prems f in auto)
  show ?case
  proof (cases "k = n")
    case False
    with ih rd sk show ?thesis
      by (subst get_from.simps) (simp add: f tag_drop)
  next
    case True
    show ?thesis
    proof (cases w)
      case (Delimited b)
      have "readVarint (pre @ field_bytes f @ message_bytes fs)
          (length pre + length (encode_nat (8 * k + wire_type w))) =
          Some (length b, length pre + length (encode_nat (8 * k + 2)) + length (encode_nat (length b)))"
        using readVarint_encode [of "pre @ encode_nat (8 * k + 2)" "length b" "b @ message_bytes fs"]
        by (simp add: f Delimited field_bytes_def)
      with rd True show ?thesis
        using tag_and_7 [of k w] tag_drop [of k w]
        by (subst get_from.simps) (simp add: f Delimited field_bytes_def)
    qed (use rd True tag_and_7 [of k w] tag_drop [of k w] in \<open>(subst get_from.simps, simp add: f)+\<close>)
  qed
qed

lemma copy_range_field: "copy_range (pre @ x @ post) (length pre) (length pre + length x) = x"
proof (rule nth_equalityI)
  show "length (copy_range (pre @ x @ post) (length pre) (length pre + length x)) = length x"
    by (simp add: copy_range_def)
  fix i
  assume "i < length (copy_range (pre @ x @ post) (length pre) (length pre + length x))"
  then have "i < length x" by (simp add: copy_range_def)
  then show "copy_range (pre @ x @ post) (length pre) (length pre + length x) ! i = x ! i"
    by (simp add: copy_range_def nth_append)
qed

lemma remove_from_message:
  assumes "\<forall>(n, w) \<in> set fs. wire_ok w"
  shows "remove_from (pre @ message_bytes fs) n (length pre) =
    Some (message_bytes (filter (\<lambda>(k, w). k \<noteq> n) fs))"
  using assms
proof (induction fs arbitrary: pre)
  case Nil
  show ?case by (subst remove_from.simps) simp
next
  case (Cons f fs)
  obtain k w where f: "f = (k, w)" by fastforce
  have ih: "remove_from ((pre @ field_bytes f) @ message_bytes fs) n (length (pre @ field_bytes f)) =
      Some (message_bytes (filter (\<lambda>(k, w). k \<noteq> n) fs))"
    by (rule Cons.IH) (use Cons.prems in auto)
  have rd: "readVarint (pre @ field_bytes f @ message_bytes fs) (length pre) =
     Some (8 * k + wire_type w, length pre + length (encode_nat (8 * k + wire_type w)))"
    unfolding f by (rule read_field)
  have sk: "skipField (pre @ field_bytes f @ message_bytes fs)
      (length pre + length (encode_nat (8 * k + wire_type w))) ((8 * k + wire_type w) AND 7) =
    Some (length pre + length (field_bytes f))"
    unfolding f by (rule skip_field) (use Cons.prems f in auto)
  from ih rd sk show ?case
    by (subst remove_from.simps) (auto simp: f tag_drop copy_range_field)
qed

lemma find_varint_from_message:
  assumes "\<forall>(n, w) \<in> set fs. wire_ok w"
  shows "find_varint_from (pre @ message_bytes fs) n (length pre) = Some (first_varint n fs)"
  using assms
proof (induction fs arbitrary: pre)
  case Nil
  show ?case by (subst find_varint_from.simps) simp
next
  case (Cons f fs)
  obtain k w where f: "f = (k, w)" by fastforce
  have ih: "find_varint_from ((pre @ field_bytes f) @ message_bytes fs) n (length (pre @ field_bytes f)) =
      Some (first_varint n fs)"
    by (rule Cons.IH) (use Cons.prems in auto)
  have rd: "readVarint (pre @ field_bytes f @ message_bytes fs) (length pre) =
     Some (8 * k + wire_type w, length pre + length (encode_nat (8 * k + wire_type w)))"
    unfolding f by (rule read_field)
  have sk: "skipField (pre @ field_bytes f @ message_bytes fs)
      (length pre + length (encode_nat (8 * k + wire_type w))) ((8 * k + wire_type w) AND 7) =
    Some (length pre + length (field_bytes f))"
    unfolding f by (rule skip_field) (use Cons.prems f in auto)
  have step: "find_varint_from (pre @ field_bytes f @ message_bytes fs) n (length pre) =
      (if k = n \<and> wire_type w = 0 then
         (case readVarint (pre @ field_bytes f @ message_bytes fs) (length pre + length (encode_nat (8 * k + wire_type w))) of
            None \<Rightarrow> None | Some (v, _) \<Rightarrow> Some (Some v))
       else Some (first_varint n fs))"
    using ih rd sk tag_and_7 [of k w] by (subst find_varint_from.simps) (simp add: f tag_drop)
  show ?case
  proof (cases w)
    case (Varint v)
    have "readVarint (pre @ field_bytes f @ message_bytes fs) (length pre + length (encode_nat (8 * k + wire_type w))) =
        Some (v, length pre + length (encode_nat (8 * k)) + length (encode_nat v))"
      using readVarint_encode [of "pre @ encode_nat (8 * k)" v "message_bytes fs"]
      by (simp add: f Varint field_bytes_def)
    with step show ?thesis by (auto simp: f Varint)
  qed (use step in \<open>simp_all add: f\<close>)
qed

text \<open>On the bytes of any well-formed message the byte-level operations are the operations on its
  fields: \<open>getField\<close> returns the first field with the number when it is length-delimited and null
  otherwise, \<open>removeField\<close> removes exactly the fields with the number and keeps the others
  byte for byte, and \<open>findVarintField\<close> finds the first varint with the number.\<close>

theorem message_operations_refine:
  assumes "\<forall>(n, w) \<in> set fs. wire_ok w"
  shows "getField (message_bytes fs) n = Some (first_field n fs) \<and>
    removeField (message_bytes fs) n = Some (message_bytes (filter (\<lambda>(k, w). k \<noteq> n) fs)) \<and>
    findVarintField (message_bytes fs) n = Some (first_varint n fs)"
  using get_from_message [OF assms, of "[]" n] remove_from_message [OF assms, of "[]" n]
    find_varint_from_message [OF assms, of "[]" n]
  by (simp add: getField_def removeField_def findVarintField_def)

theorem message_operations_refine_witness:
  "removeField (message_bytes [(1, Varint 300), (2, Delimited [7]), (1, Fixed32 [1, 2, 3, 4])]) 1 =
     Some (message_bytes [(2, Delimited [7])])"
  using message_operations_refine [of "[(1, Varint 300), (2, Delimited [7]), (1, Fixed32 [1, 2, 3, 4])]" 1] by simp

subsection \<open>UTF-8\<close>

definition code_ok :: "nat \<Rightarrow> bool" where
  "code_ok c \<longleftrightarrow> c \<le> 0x10FFFF \<and> \<not> is_surrogate c"

lemma utf8_decode_char:
  assumes "code_ok c"
  shows "utf8_decode (utf8_char c @ r) = c # utf8_decode r"
proof -
  have s: "\<not> is_surrogate c" and le: "c \<le> 0x10FFFF" using assms by (auto simp: code_ok_def)
  consider "c < 0x80" | "0x80 \<le> c" "c < 0x800" | "0x800 \<le> c" "c < 0x10000" | "0x10000 \<le> c" by linarith
  then show ?thesis
  proof cases
    case 1
    then show ?thesis using s by (simp add: utf8_char_def unat_byte)
  next
    case 2
    define a where "a = (of_nat (0xC0 + c div 64) :: byte)"
    define b where "b = (of_nat (0x80 + c mod 64) :: byte)"
    have a: "unat a = 0xC0 + c div 64" unfolding a_def by (rule unat_byte) (use 2 in linarith)
    have b: "unat b = 0x80 + c mod 64" unfolding b_def by (rule unat_byte) simp
    have u: "utf8_char c = [a, b]" using s 2 by (simp add: utf8_char_def a_def b_def)
    have "2 \<le> c div 64" "c div 64 < 32" using 2 by linarith+
    moreover have "c mod 64 < 64" "c div 64 * 64 + c mod 64 = c" by simp_all
    ultimately show ?thesis
      by (simp add: u a lead_byte_def b numeral_eq_Suc [of "num.One"])
  next
    case 3
    define a where "a = (of_nat (0xE0 + c div 4096) :: byte)"
    define b where "b = (of_nat (0x80 + c div 64 mod 64) :: byte)"
    define d where "d = (of_nat (0x80 + c mod 64) :: byte)"
    have a: "unat a = 0xE0 + c div 4096" unfolding a_def by (rule unat_byte) (use 3 in linarith)
    have b: "unat b = 0x80 + c div 64 mod 64" unfolding b_def by (rule unat_byte) simp
    have d: "unat d = 0x80 + c mod 64" unfolding d_def by (rule unat_byte) simp
    have u: "utf8_char c = [a, b, d]" using s 3 by (simp add: utf8_char_def a_def b_def d_def)
    define h where "h = c div 4096"
    define m where "m = c div 64 mod 64"
    define l where "l = c mod 64"
    have c: "c = (h * 64 + m) * 64 + l"
      using div_mult_mod_eq [of c 64] div_mult_mod_eq [of "c div 64" 64] div_mult2_eq [of c 64 64]
      unfolding h_def m_def l_def by simp
    have lt: "h < 16" "m < 64" "l < 64" using 3 unfolding h_def m_def l_def by auto
    have lo: "h = 0 \<Longrightarrow> 32 \<le> m" using 3 lt c by auto
    have hi: "h = 13 \<Longrightarrow> m < 32" using s lt c unfolding is_surrogate_def by auto
    have lead: "lead_byte (unat a) = Some (2, h, (if h = 0 then 0xA0 else 0x80), (if h = 13 then 0x9F else 0xBF))"
      using lt by (simp add: a lead_byte_def h_def [symmetric])
    have "utf8_cont 2 h (if h = 0 then 0xA0 else 0x80) (if h = 13 then 0x9F else 0xBF) (b # d # r) =
        ((h * 64 + m) * 64 + l, r)"
      using lt lo hi b [folded m_def] d [folded l_def] by (auto simp: numeral_2_eq_2)
    note v = this [folded c]
    have "\<not> unat a < 0x80" by (simp add: a)
    with v show ?thesis by (simp add: u lead)
  next
    case 4
    define a where "a = (of_nat (0xF0 + c div 262144) :: byte)"
    define b where "b = (of_nat (0x80 + c div 4096 mod 64) :: byte)"
    define d where "d = (of_nat (0x80 + c div 64 mod 64) :: byte)"
    define e where "e = (of_nat (0x80 + c mod 64) :: byte)"
    have a: "unat a = 0xF0 + c div 262144" unfolding a_def by (rule unat_byte) (use le in linarith)
    have b: "unat b = 0x80 + c div 4096 mod 64" unfolding b_def by (rule unat_byte) simp
    have d: "unat d = 0x80 + c div 64 mod 64" unfolding d_def by (rule unat_byte) simp
    have e: "unat e = 0x80 + c mod 64" unfolding e_def by (rule unat_byte) simp
    have u: "utf8_char c = [a, b, d, e]" using s 4 by (simp add: utf8_char_def a_def b_def d_def e_def)
    define h where "h = c div 262144"
    define n where "n = c div 4096 mod 64"
    define m where "m = c div 64 mod 64"
    define l where "l = c mod 64"
    have c: "c = ((h * 64 + n) * 64 + m) * 64 + l"
      using div_mult_mod_eq [of c 64] div_mult_mod_eq [of "c div 64" 64] div_mult_mod_eq [of "c div 4096" 64]
        div_mult2_eq [of c 64 64] div_mult2_eq [of c 4096 64]
      unfolding h_def n_def m_def l_def by simp
    have lt: "h < 5" "n < 64" "m < 64" "l < 64" using le unfolding h_def n_def m_def l_def by auto
    have lo: "h = 0 \<Longrightarrow> 16 \<le> n" using 4 lt c by auto
    have hi: "h = 4 \<Longrightarrow> n < 16" using le lt c by auto
    have lead: "lead_byte (unat a) = Some (3, h, (if h = 0 then 0x90 else 0x80), (if h = 4 then 0x8F else 0xBF))"
      using lt by (simp add: a lead_byte_def h_def [symmetric])
    have "utf8_cont 3 h (if h = 0 then 0x90 else 0x80) (if h = 4 then 0x8F else 0xBF) (b # d # e # r) =
        (((h * 64 + n) * 64 + m) * 64 + l, r)"
      using lt lo hi b [folded n_def] d [folded m_def] e [folded l_def] by (auto simp: numeral_3_eq_3)
    note v = this [folded c]
    have "\<not> unat a < 0x80" by (simp add: a)
    with v show ?thesis by (simp add: u lead)
  qed
qed

lemma utf8_decode_encode: "\<forall>c\<in>set s. code_ok c \<Longrightarrow> utf8_decode (utf8_encode s) = s"
  by (induction s) (auto simp: utf8_encode_def utf8_decode_char)

text \<open>Text that survives encoding and decoding: no surrogates, and no byte order mark in front.\<close>

definition text_ok :: "codepoints \<Rightarrow> bool" where
  "text_ok s \<longleftrightarrow> (\<forall>c\<in>set s. code_ok c) \<and> (s = [] \<or> hd s \<noteq> 0xFEFF)"

lemma bom_ok: "code_ok 0xFEFF"
  by (simp add: code_ok_def is_surrogate_def)

lemma readString_bytes_encode:
  assumes "text_ok s"
  shows "readString_bytes (utf8_encode s) = s"
proof -
  have dec: "utf8_decode (utf8_encode s) = s" using assms by (simp add: text_ok_def utf8_decode_encode)
  have "take 3 (utf8_encode s) \<noteq> [0xEF, 0xBB, 0xBF]"
  proof
    assume bom: "take 3 (utf8_encode s) = [0xEF, 0xBB, 0xBF]"
    have "utf8_char 0xFEFF = [0xEF, 0xBB, 0xBF]" by (simp add: utf8_char_def is_surrogate_def)
    with bom have "utf8_encode s = utf8_char 0xFEFF @ drop 3 (utf8_encode s)"
      by (metis append_take_drop_id)
    then have "utf8_decode (utf8_encode s) = 0xFEFF # utf8_decode (drop 3 (utf8_encode s))"
      by (metis utf8_decode_char bom_ok)
    with dec have "s = 0xFEFF # utf8_decode (drop 3 (utf8_encode s))" by simp
    then have "s \<noteq> []" "hd s = 0xFEFF" by (metis list.distinct(1), metis list.sel(1))
    with assms show False by (simp add: text_ok_def)
  qed
  with dec show ?thesis by (simp add: readString_bytes_def)
qed

subsection \<open>Base64\<close>

lemma b64_char_val: "v < 64 \<Longrightarrow> b64_val (b64_char v) = Some v"
  by (auto simp: b64_val_def b64_char_def)

lemma b64_char_not_pad: "v < 64 \<Longrightarrow> b64_char v \<noteq> 61"
  by (auto simp: b64_char_def)

lemma byte_eqI: "n = unat b \<Longrightarrow> of_nat n = (b :: byte)"
  by simp

lemma unat_byte_lt: "unat (b :: byte) < 256"
  using unsigned_less [of b] by simp

lemma pack_div: "y < k \<Longrightarrow> (x * k + y) div k = x \<and> (x * k + y) mod k = (y::nat)"
  by simp

lemma b64_decode_encode: "b64_decode (b64_encode bs) = bs"
proof (induction bs rule: b64_encode.induct)
  case 1
  show ?case by (simp add: b64_decode_def)
next
  case (2 a)
  have "unat a div 4 < 64" "unat a mod 4 * 16 < 64" using unat_byte_lt [of a] by auto
  then show ?case
    by (simp add: b64_decode_def b64_char_val b64_char_not_pad List.map_filter_simps)
next
  case (3 a b)
  have l: "unat a div 4 < 64" "unat a mod 4 * 16 + unat b div 16 < 64" "unat b mod 16 * 4 < 64"
    using unat_byte_lt [of a] unat_byte_lt [of b] by auto
  have "unat a div 4 * 4 + (unat a mod 4 * 16 + unat b div 16) div 16 = unat a"
    "(unat a mod 4 * 16 + unat b div 16) mod 16 * 16 + unat b mod 16 * 4 div 4 = unat b"
    using pack_div [of "unat b div 16" 16 "unat a mod 4"] unat_byte_lt [of b]
      div_mult_mod_eq [of "unat a" 4] div_mult_mod_eq [of "unat b" 16] by auto
  with l show ?case
    by (simp add: b64_decode_def b64_char_val b64_char_not_pad List.map_filter_simps byte_eqI del: of_nat_add of_nat_mult)
next
  case (4 a b c r)
  have l: "unat a div 4 < 64" "unat a mod 4 * 16 + unat b div 16 < 64"
    "unat b mod 16 * 4 + unat c div 64 < 64" "unat c mod 64 < 64"
    using unat_byte_lt [of a] unat_byte_lt [of b] unat_byte_lt [of c] by auto
  have e: "unat a div 4 * 4 + (unat a mod 4 * 16 + unat b div 16) div 16 = unat a"
    "(unat a mod 4 * 16 + unat b div 16) mod 16 * 16 + (unat b mod 16 * 4 + unat c div 64) div 4 = unat b"
    "(unat b mod 16 * 4 + unat c div 64) mod 4 * 64 + unat c mod 64 = unat c"
    using pack_div [of "unat b div 16" 16 "unat a mod 4"] pack_div [of "unat c div 64" 4 "unat b mod 16"]
      unat_byte_lt [of b] unat_byte_lt [of c] div_mult_mod_eq [of "unat a" 4] div_mult_mod_eq [of "unat b" 16]
      div_mult_mod_eq [of "unat c" 64] by auto
  from 4 l e show ?case
    by (simp add: b64_decode_def b64_char_val b64_char_not_pad List.map_filter_simps byte_eqI del: of_nat_add of_nat_mult)
qed

subsection \<open>The OAuth state entry\<close>

lemma tags:
  "tag_of 1 2 = int 10" "tag_of 2 2 = int 18" "tag_of 3 2 = int 26" "tag_of 4 2 = int 34" "tag_of 5 2 = int 42"
  "tag_of 6 2 = int 50" "tag_of 7 2 = int 58" "tag_of 1 0 = int 8" "tag_of 2 0 = int 16" "tag_of 6 0 = int 48"
  by code_simp+

lemma delim_fields:
  "encodeLenDelimField 1 d = field_bytes (1, Delimited d)" "encodeLenDelimField 2 d = field_bytes (2, Delimited d)"
  "encodeLenDelimField 3 d = field_bytes (3, Delimited d)" "encodeLenDelimField 4 d = field_bytes (4, Delimited d)"
  "encodeLenDelimField 5 d = field_bytes (5, Delimited d)"
  "encodeVarintField 1 (int n) = field_bytes (1, Varint n)" "encodeVarintField 2 (int n) = field_bytes (2, Varint n)"
  "encodeVarintField 6 (int n) = field_bytes (6, Varint n)"
  by (simp_all only: encodeLenDelimField_def encodeVarintField_def tags encodeVarint_nat field_bytes_def)
     simp_all

lemma getField_message:
  "\<forall>(n, w) \<in> set fs. wire_ok w \<Longrightarrow> getField (message_bytes fs) n = Some (first_field n fs)"
  using get_from_message [of fs "[]" n] by (simp add: getField_def)

lemma findVarintField_message:
  "\<forall>(n, w) \<in> set fs. wire_ok w \<Longrightarrow> findVarintField (message_bytes fs) n = Some (first_varint n fs)"
  using find_varint_from_message [of fs "[]" n] by (simp add: findVarintField_def)

definition oauth_fields ::
  "codepoints \<Rightarrow> codepoints \<Rightarrow> nat \<Rightarrow> bool \<Rightarrow> codepoints option \<Rightarrow> (nat \<times> wire) list" where
  "oauth_fields a r e tos i =
     [(1, Delimited (utf8_encode a)), (2, Delimited (utf8_encode (codes ''Bearer''))),
      (3, Delimited (utf8_encode r)), (4, Delimited (message_bytes [(1, Varint e), (2, Varint 0)]))]
     @ (if nonempty i then [(5, Delimited (utf8_encode (the i)))] else [])
     @ (if tos then [(6, Varint 1)] else [])"

lemma message_append: "message_bytes (fs @ gs) = message_bytes fs @ message_bytes gs"
  by (simp add: message_bytes_def)

lemma createOAuthInfo_fields:
  "createOAuthInfo a r (int e) tos i email =
     message_bytes (oauth_fields a r e
       (if nonempty email \<and> isPersonalAccountEmail (the email) \<and> tos then False else tos) i)"
proof -
  have z: "encodeVarintField 2 0 = field_bytes (2, Varint 0)" "encodeVarintField 6 1 = field_bytes (6, Varint 1)"
    using delim_fields(7) [of 0] delim_fields(8) [of 1] by simp_all
  show ?thesis
    by (simp add: createOAuthInfo_def oauth_fields_def encodeStringField_def delim_fields z message_append Let_def del: One_nat_def)
qed

lemma oauth_fields_ok: "\<forall>(n, w) \<in> set (oauth_fields a r e tos i). wire_ok w"
  by (auto simp: oauth_fields_def)

lemma oauth_get:
  "getField (message_bytes (oauth_fields a r e tos i)) 1 = Some (Some (utf8_encode a))"
  "getField (message_bytes (oauth_fields a r e tos i)) 3 = Some (Some (utf8_encode r))"
  "getField (message_bytes (oauth_fields a r e tos i)) 4 = Some (Some (message_bytes [(1, Varint e), (2, Varint 0)]))"
  "getField (message_bytes (oauth_fields a r e tos i)) 5 =
     Some (if nonempty i then Some (utf8_encode (the i)) else None)"
  by (simp_all only: getField_message [OF oauth_fields_ok])
     (simp_all add: oauth_fields_def)

lemma expiry_find: "findVarintField (message_bytes [(1, Varint e), (2, Varint 0)]) 1 = Some (Some e)"
  using findVarintField_message [of "[(1, Varint e), (2, Varint 0)]" 1] by (simp del: message_Cons)

lemma ascii_text: "\<forall>c\<in>set s. c < 128 \<Longrightarrow> text_ok s"
  by (cases s) (auto simp: text_ok_def code_ok_def is_surrogate_def)

lemma b64_ascii: "c \<in> set (b64_encode bs) \<Longrightarrow> c < 128"
proof (induction bs rule: b64_encode.induct)
  have v: "b64_char v < 128" if "v < 64" for v
    unfolding b64_char_def using that by (auto split: if_splits)
  have m: "unat (a :: byte) div 4 < 64" "unat a mod 4 * 16 < 64" "unat a mod 16 * 4 < 64" "unat a mod 64 < 64"
    "unat a mod 4 * 16 + unat b div 16 < 64" "unat a mod 16 * 4 + unat b div 64 < 64" for a b :: byte
    using unat_byte_lt [of a] unat_byte_lt [of b] by auto
  note vm = m [THEN v]
  {
    case 1
    then show ?case by simp
  next
    case (2 a)
    then show ?case using vm by auto
  next
    case (3 a b)
    then show ?case using vm by auto
  next
    case (4 a b c r)
    then show ?case using vm by auto
  }
qed

lemma decode_created_entry:
  assumes "text_ok key"
  shows "decode_entry (b64_decode (createUnifiedStateEntry key payload)) = Some (key, payload)"
proof -
  let ?row = "message_bytes [(1, Delimited (utf8_encode (b64_encode payload)))]"
  let ?data = "message_bytes [(1, Delimited (utf8_encode key)), (2, Delimited ?row)]"
  have b: "b64_decode (createUnifiedStateEntry key payload) = message_bytes [(1, Delimited ?data)]"
    by (simp add: createUnifiedStateEntry_def Let_def b64_decode_encode encodeStringField_def delim_fields del: One_nat_def)
  have "readString_bytes (utf8_encode (b64_encode payload)) = b64_encode payload"
    by (rule readString_bytes_encode [OF ascii_text]) (simp add: b64_ascii)
  moreover have "readString_bytes (utf8_encode key) = key" by (rule readString_bytes_encode [OF assms])
  moreover have "require_field (message_bytes [(1, Delimited ?data)]) 1 = Some ?data"
    "require_field ?data 1 = Some (utf8_encode key)" "require_field ?data 2 = Some ?row"
    "require_field ?row 1 = Some (utf8_encode (b64_encode payload))"
    unfolding require_field_def by (subst getField_message; simp)+
  ultimately have "decodeTopicRowPayload (message_bytes [(1, Delimited ?data)]) = Some (key, payload)"
    unfolding decodeTopicRowPayload_def by (simp add: b64_decode_encode del: message_Cons)
  then show ?thesis by (simp add: decode_entry_def b del: message_Cons)
qed

lemma sentinel_ok: "text_ok oauth_sentinel"
proof -
  have "list_all (\<lambda>c. c < 128) oauth_sentinel" by code_simp
  then show ?thesis by (intro ascii_text) (simp add: list_all_iff)
qed

text \<open>C24: A token entry written for the editor is read back unchanged: the access token, the refresh token,
  the optional non-empty id token and a positive expiry come back from
  \<open>createUnifiedOAuthToken\<close> through base64, two levels of nested messages, base64 again and
  UTF-8, whatever the terms-of-service flag and the e-mail address were, for any text
  without a byte order mark in front.\<close>

theorem oauth_entry_roundtrip:
  assumes "text_ok a" "text_ok r" "0 < e"
    and "case i of None \<Rightarrow> True | Some t \<Rightarrow> text_ok t \<and> t \<noteq> []"
  shows "extractOAuthTokenDetailsFromUnifiedStateEntry (createUnifiedOAuthToken a r (int e) tos i email) =
      Some (Some \<lparr>oi_accessToken = a, oi_refreshToken = r, oi_idToken = i, oi_expiryTimestamp = e\<rparr>) \<and>
    extractOAuthTokenInfoFromUnifiedStateEntry (createUnifiedOAuthToken a r (int e) tos i email) =
      Some (Some \<lparr>oi_accessToken = a, oi_refreshToken = r, oi_idToken = i\<rparr>)"
proof -
  let ?tos = "if nonempty email \<and> isPersonalAccountEmail (the email) \<and> tos then False else tos"
  let ?p = "message_bytes (oauth_fields a r e ?tos i)"
  have d: "decode_entry (b64_decode (createUnifiedOAuthToken a r (int e) tos i email)) = Some (oauth_sentinel, ?p)"
    unfolding createUnifiedOAuthToken_def createOAuthInfo_fields by (rule decode_created_entry [OF sentinel_ok])
  have i: "map_option readString_bytes (if nonempty i then Some (utf8_encode (the i)) else None) = i"
    using assms(4) readString_bytes_encode by (auto simp: nonempty_def split: option.splits)
  have "extractOAuthTokenDetailsFromOAuthInfo ?p =
      Some (Some \<lparr>oi_accessToken = a, oi_refreshToken = r, oi_idToken = i, oi_expiryTimestamp = e\<rparr>)"
    unfolding extractOAuthTokenDetailsFromOAuthInfo_def oauth_get prod.case option.case expiry_find i
    using assms(3) readString_bytes_encode [OF assms(1)] readString_bytes_encode [OF assms(2)] by simp
  moreover have "extractOAuthTokenInfoFromOAuthInfo ?p =
      Some (Some \<lparr>oi_accessToken = a, oi_refreshToken = r, oi_idToken = i\<rparr>)"
    unfolding extractOAuthTokenInfoFromOAuthInfo_def oauth_get prod.case option.case i
    using readString_bytes_encode [OF assms(1)] readString_bytes_encode [OF assms(2)] by simp
  ultimately show ?thesis
    by (simp only: extractOAuthTokenDetailsFromUnifiedStateEntry_def extractOAuthTokenInfoFromUnifiedStateEntry_def
        extractOAuthTokenInfoFromUnifiedState_def decodeUnifiedStateEntry_def d extract_entry_def
        option.case prod.case simp_thms if_False)
qed

theorem oauth_entry_roundtrip_witness:
  "extractOAuthTokenInfoFromUnifiedStateEntry (createUnifiedOAuthToken [97] [8364, 98] 1700000000 True None None) =
     Some (Some \<lparr>oi_accessToken = [97], oi_refreshToken = [8364, 98], oi_idToken = None\<rparr>)"
proof -
  have "text_ok [97]" "text_ok [8364, 98]" by (simp_all add: text_ok_def code_ok_def is_surrogate_def)
  from oauth_entry_roundtrip [OF this, of 1700000000 None] show ?thesis by simp
qed

text \<open>A token that starts with U+FEFF is not read back unchanged: the decoder takes the character for a
  byte order mark and drops it.\<close>

lemma byte_order_mark_is_lost:
  assumes "\<forall>c\<in>set s. code_ok c"
  shows "readString_bytes (utf8_encode (0xFEFF # s)) = s"
proof -
  have "utf8_char 0xFEFF = [0xEF, 0xBB, 0xBF]" by (simp add: utf8_char_def is_surrogate_def)
  then show ?thesis using utf8_decode_encode [OF assms] by (simp add: readString_bytes_def utf8_encode_def)
qed
end
