(* ===== verification/GeminiParts.thy ===== *)
theory GeminiParts
  imports Json Protobuf
begin

section \<open>Parts of a Gemini answer, signatures, thinking blocks and retry delays\<close>

text \<open>
  The typed data shared by the two response mappers (\<open>antigravity/types.ts\<close>), and the small modules
  around them: \<open>signature-utils.ts\<close>, \<open>SignatureStore.ts\<close>, \<open>thinking-utils.ts\<close>,
  \<open>stream-error-utils.ts\<close> and \<open>retry-utils.ts\<close>. Two captions of the grounding text contain
  characters above U+00FF; they are the arguments \<open>searched\<close> and \<open>citations\<close>.
\<close>

record function_call =
  fc_name :: string
  fc_args :: "json option"
  fc_id :: "string option"

record gemini_part =
  gp_text :: "string option"
  gp_thought :: bool
  gp_thoughtSignature :: "string option"
  gp_functionCall :: "function_call option"
  gp_inlineData :: "(string \<times> string) option"

record grounding_chunk =
  gc_web :: "(string option \<times> string option) option"

subsection \<open>Signatures\<close>

definition string_of_codes :: "codepoints \<Rightarrow> string option" where
  "string_of_codes cs = (if list_all (\<lambda>c. c < 256) cs then Some (map char_of cs) else None)"

text \<open>
  A signature is decoded when it is the base64 form of a valid UTF-8 text, and kept as it is otherwise.
  A decoded text with characters above U+00FF is outside the model's strings and is kept undecoded.
\<close>

definition decodeSignature :: "string option \<Rightarrow> string option" where
  "decodeSignature signature =
     (if \<not> str_truthy signature then None
      else (let s = the signature; decoded = utf8_decode (b64_decode (codes s))
            in if decoded \<noteq> [] \<and> 0xFFFD \<notin> set decoded \<and> b64_encode (utf8_encode decoded) = codes s
               then (case string_of_codes decoded of Some t \<Rightarrow> Some t | None \<Rightarrow> Some s)
               else Some s))"

text \<open>The process-wide \<open>SignatureStore\<close>: the longest signature seen.\<close>

definition store_signature :: "string \<Rightarrow> string option \<Rightarrow> string option" where
  "store_signature sig stored =
     (if sig = [] then stored
      else (let existingLen = (case stored of None \<Rightarrow> 0 | Some s \<Rightarrow> length s)
            in if length sig > existingLen then Some sig else stored))"

definition take_signature :: "string option \<Rightarrow> string option \<times> string option" where
  "take_signature stored = (stored, None)"

subsection \<open>Markdown\<close>

definition markdown_image :: "string \<Rightarrow> string \<Rightarrow> string" where
  "markdown_image mimeType data = ''![image](data:'' @ mimeType @ '';base64,'' @ data @ '')''"

definition newline :: string where "newline = [CHR 0x0A]"

fun citation_links :: "nat \<Rightarrow> grounding_chunk list \<Rightarrow> string list" where
  "citation_links i [] = []"
| "citation_links i (c # cs) =
     (case gc_web c of
        None \<Rightarrow> citation_links (Suc i) cs
      | Some (title, uri) \<Rightarrow>
          (''['' @ nat_str (Suc i) @ ''] ['' @ (if str_truthy title then the title else ''Web source'') @ '']('' @
             (if str_truthy uri then the uri else ''#'') @ '')'') # citation_links (Suc i) cs)"

subsection \<open>Thinking blocks of a request\<close>

text \<open>A content block as \<open>thinking-utils.ts\<close> sees it.\<close>

datatype content_block =
    ThinkingBlock (tb_thinking: "string option") (tb_signature: "string option")
  | TextBlock string
  | OtherBlock json

definition MIN_SIGNATURE_LENGTH :: nat where "MIN_SIGNATURE_LENGTH = 10"

definition hasValidSignature :: "content_block \<Rightarrow> bool" where
  "hasValidSignature block =
     (case block of
        ThinkingBlock thinking signature \<Rightarrow>
          if \<not> str_truthy thinking
          then (case signature of None \<Rightarrow> False | Some s \<Rightarrow> length s \<ge> MIN_SIGNATURE_LENGTH)
          else (case signature of None \<Rightarrow> False | Some s \<Rightarrow> length s \<ge> MIN_SIGNATURE_LENGTH)
      | _ \<Rightarrow> True)"

definition gracefulDegradeThinking :: "content_block \<Rightarrow> content_block option" where
  "gracefulDegradeThinking block =
     (case block of
        ThinkingBlock thinking signature \<Rightarrow>
          if hasValidSignature block then Some block
          else if str_truthy thinking then Some (TextBlock (the thinking))
          else None
      | _ \<Rightarrow> Some block)"

definition processThinkingBlocks :: "content_block list \<Rightarrow> content_block list" where
  "processThinkingBlocks blocks = List.map_filter gracefulDegradeThinking blocks"

subsection \<open>Values with a default\<close>

text \<open>\<open>v || d\<close> on values.\<close>

definition json_or :: "json option \<Rightarrow> json \<Rightarrow> json" where
  "json_or v d = (case v of None \<Rightarrow> d | Some w \<Rightarrow> if truthy w then w else d)"

definition string_or :: "string option \<Rightarrow> string \<Rightarrow> string" where
  "string_or v d = (case v of None \<Rightarrow> d | Some s \<Rightarrow> if s = [] then d else s)"

subsection \<open>Stream errors and retry delays\<close>

record classified_error =
  ce_type :: string
  ce_message :: string

definition classifyStreamError :: "string \<Rightarrow> classified_error" where
  "classifyStreamError message =
     (let msg = js_lower message
      in if str_contains msg ''timeout'' \<or> str_contains msg ''timedout'' then
           \<lparr>ce_type = ''timeout_error'',
            ce_message = ''Request timed out. Please check your network connection or try again later.''\<rparr>
         else if str_contains msg ''econnrefused'' \<or> str_contains msg ''connect'' then
           \<lparr>ce_type = ''connection_error'',
            ce_message = ''Unable to connect to server. Please check your network.''\<rparr>
         else if str_contains msg ''enotfound'' \<or> str_contains msg ''network'' \<or> str_contains msg ''dns'' then
           \<lparr>ce_type = ''network_error'',
            ce_message = ''Network connection failed. Please check your network settings.''\<rparr>
         else if str_contains msg ''socket'' \<or> str_contains msg ''aborted'' \<or> str_contains msg ''reset'' then
           \<lparr>ce_type = ''stream_error'', ce_message = ''Data transfer interrupted. Please try again later.''\<rparr>
         else \<lparr>ce_type = ''unknown_error'', ce_message = ''Unknown error occurred: '' @ take 100 message\<rparr>)"

text \<open>A server-sent event: its name and the JSON value of its data line.\<close>

datatype sse = Sse (sse_event: string) (sse_data: json)

definition emit :: "sse \<Rightarrow> string" where
  "emit e = ''event: '' @ sse_event e @ newline @ ''data: '' @ json_stringify (sse_data e) @ newline @ newline"

definition formatErrorForSSE :: "string \<Rightarrow> string \<Rightarrow> sse" where
  "formatErrorForSSE errorType message =
     Sse ''error'' (JObj [(''type'', JStr ''error''),
       (''error'', JObj [(''type'', JStr errorType), (''message'', JStr message), (''code'', JStr ''stream_error'')])])"

definition JITTER_FACTOR :: rat where "JITTER_FACTOR = 2 / 10"
definition MAX_DELAY_MS :: rat where "MAX_DELAY_MS = 30000"

text \<open>\<open>random\<close> is the value of \<open>Math.random()\<close>.\<close>

definition applyJitter :: "rat \<Rightarrow> rat \<Rightarrow> rat" where
  "applyJitter random delayMs =
     (if delayMs \<le> 0 then 1
      else (let jitterRange = delayMs * JITTER_FACTOR; jitter = (random * 2 - 1) * jitterRange
            in max 1 (of_int \<lfloor>delayMs + jitter + 1 / 2\<rfloor>)))"

definition calculateRetryDelay :: "rat \<Rightarrow> nat \<Rightarrow> rat \<Rightarrow> rat" where
  "calculateRetryDelay random attempt baseMs =
     (let exponentialDelay = baseMs * 2 ^ attempt; cappedDelay = min exponentialDelay MAX_DELAY_MS
      in applyJitter random cappedDelay)"

subsection \<open>Properties\<close>

lemma jitter_rounding:
  fixes d x :: rat
  assumes "0 < d" "d * (4 / 5) \<le> x" "x \<le> d * (6 / 5)" "d \<le> 30000"
  shows "max 1 (of_int \<lfloor>x + 1 / 2\<rfloor>) \<le> (36000 :: rat)"
    and "2 \<le> d \<Longrightarrow> \<bar>max 1 (of_int \<lfloor>x + 1 / 2\<rfloor>) - d\<bar> \<le> d / 5 + 1 / 2"
proof -
  have "\<lfloor>x + 1 / 2\<rfloor> \<le> 36000" using assms by linarith
  then show "max 1 (of_int \<lfloor>x + 1 / 2\<rfloor>) \<le> (36000 :: rat)" by (simp add: max_def)
  define z :: rat where "z = of_int \<lfloor>x + 1 / 2\<rfloor>"
  have "z \<le> x + 1 / 2" "x - 1 / 2 < z" unfolding z_def by linarith+
  moreover assume "2 \<le> d"
  ultimately show "\<bar>max 1 (of_int \<lfloor>x + 1 / 2\<rfloor>) - d\<bar> \<le> d / 5 + 1 / 2"
    unfolding z_def [symmetric] using assms by (auto simp: max_def abs_le_iff)
qed

lemma calculateRetryDelay_near:
  assumes r: "0 \<le> random" "random < 1"
  shows "1 \<le> calculateRetryDelay random attempt baseMs \<and> calculateRetryDelay random attempt baseMs \<le> 36000 \<and>
    (2 \<le> baseMs \<longrightarrow>
      \<bar>calculateRetryDelay random attempt baseMs - min (baseMs * 2 ^ attempt) MAX_DELAY_MS\<bar>
        \<le> min (baseMs * 2 ^ attempt) MAX_DELAY_MS / 5 + 1 / 2)"
proof -
  define d where "d = min (baseMs * 2 ^ attempt) MAX_DELAY_MS"
  define x where "x = d + (random * 2 - 1) * (d * JITTER_FACTOR)"
  have m: "d \<le> 30000" by (simp add: d_def MAX_DELAY_MS_def)
  have two: "2 \<le> d" if "2 \<le> baseMs"
  proof -
    have "2 * 1 \<le> baseMs * 2 ^ attempt" by (rule mult_mono) (use that in auto)
    then show ?thesis by (simp add: d_def MAX_DELAY_MS_def)
  qed
  have eq: "calculateRetryDelay random attempt baseMs =
      (if d \<le> 0 then 1 else max 1 (of_int \<lfloor>x + 1 / 2\<rfloor>))"
    by (simp only: calculateRetryDelay_def applyJitter_def Let_def d_def x_def)
  show ?thesis
  proof (cases "d \<le> 0")
    case True
    with two have "\<not> 2 \<le> baseMs" by fastforce
    with True show ?thesis by (simp add: eq)
  next
    case False
    have "(- 1) * (d * JITTER_FACTOR) \<le> (random * 2 - 1) * (d * JITTER_FACTOR)"
         "(random * 2 - 1) * (d * JITTER_FACTOR) \<le> 1 * (d * JITTER_FACTOR)"
      by (rule mult_right_mono; use r False in \<open>simp add: JITTER_FACTOR_def\<close>)+
    then have lo: "d * (4 / 5) \<le> x" and hi: "x \<le> d * (6 / 5)"
      by (simp_all add: x_def JITTER_FACTOR_def)
    from False have pos: "0 < d" by simp
    note rounding = jitter_rounding [OF pos lo hi m]
    show ?thesis
      using False two rounding by (auto simp: eq d_def [symmetric])
  qed
qed

text \<open>A retry delay is always between one millisecond and 36 seconds, and for a base delay of at least
  two milliseconds it stays within twenty percent (and the rounding) of the capped exponential
  delay, whatever the random number.\<close>

theorem retry_delay_bounds:
  assumes r: "0 \<le> random" "random < 1"
  shows "1 \<le> calculateRetryDelay random attempt baseMs \<and> calculateRetryDelay random attempt baseMs \<le> 36000 \<and>
    (2 \<le> baseMs \<longrightarrow>
      \<bar>calculateRetryDelay random attempt baseMs - min (baseMs * 2 ^ attempt) MAX_DELAY_MS\<bar>
        \<le> min (baseMs * 2 ^ attempt) MAX_DELAY_MS / 5 + 1 / 2)"
  using calculateRetryDelay_near [OF assms] .

theorem retry_delay_bounds_witness: "1 \<le> calculateRetryDelay (1 / 2) 7 1000"
  using retry_delay_bounds [of "1 / 2" 7 1000] by simp

fun block_content :: "content_block \<Rightarrow> string" where
  "block_content (ThinkingBlock t s) = (case t of None \<Rightarrow> [] | Some x \<Rightarrow> x)"
| "block_content (TextBlock t) = t"
| "block_content (OtherBlock j) = []"

lemma degrade_content:
  "(case gracefulDegradeThinking b of None \<Rightarrow> [] | Some c \<Rightarrow> block_content c) = block_content b"
  by (cases b) (auto simp: gracefulDegradeThinking_def str_truthy_def split: option.splits)

lemma degrade_signed:
  "gracefulDegradeThinking b = Some (ThinkingBlock t s) \<Longrightarrow> \<exists>sig. s = Some sig \<and> 10 \<le> length sig"
  by (cases b) (auto simp: gracefulDegradeThinking_def hasValidSignature_def MIN_SIGNATURE_LENGTH_def
      split: if_splits option.splits)

lemma processThinkingBlocks_simps [simp]:
  "processThinkingBlocks [] = []"
  "processThinkingBlocks (b # bs) = (case gracefulDegradeThinking b of None \<Rightarrow> processThinkingBlocks bs
     | Some c \<Rightarrow> c # processThinkingBlocks bs)"
  by (simp_all add: processThinkingBlocks_def List.map_filter_simps split: option.splits)

definition well_signed :: "content_block \<Rightarrow> bool" where
  "well_signed b = (case b of ThinkingBlock t s \<Rightarrow> (case s of None \<Rightarrow> False | Some x \<Rightarrow> length x \<ge> 10) | _ \<Rightarrow> True)"

text \<open>Degrading the thinking blocks of a message never loses content and keeps only well-signed
  thinking: the visible text of the blocks (thinking and text together) is unchanged, every thinking block
  that remains has a signature of at least ten characters, and a second pass changes nothing.\<close>

theorem degrading_preserves_content:
  "concat (map block_content (processThinkingBlocks bs)) = concat (map block_content bs) \<and>
   list_all well_signed (processThinkingBlocks bs) \<and>
   processThinkingBlocks (processThinkingBlocks bs) = processThinkingBlocks bs"
proof (induction bs)
  case Nil
  show ?case by simp
next
  case (Cons b bs)
  show ?case
  proof (cases "gracefulDegradeThinking b")
    case None
    with Cons.IH degrade_content [of b] show ?thesis by simp
  next
    case (Some c)
    have w: "well_signed c" using Some degrade_signed [of b]
      by (cases c) (auto simp: well_signed_def)
    then have "gracefulDegradeThinking c = Some c"
      by (cases c) (auto simp: well_signed_def gracefulDegradeThinking_def hasValidSignature_def
          MIN_SIGNATURE_LENGTH_def split: option.splits)
    with Some w Cons.IH degrade_content [of b] show ?thesis by simp
  qed
qed

text \<open>The comment of \<open>hasValidSignature\<close> accepts any signature of an empty thinking block; the code
  demands ten characters and the block is dropped.\<close>

lemma short_signature_of_empty_thinking_is_dropped:
  "gracefulDegradeThinking (ThinkingBlock (Some []) (Some ''sig'')) = None"
  by code_simp

end
