(* ===== verification/RetryLoop.thy ===== *)
theory RetryLoop
  imports UpstreamErrors TokenManagerFacts GeminiParts
begin

section \<open>The retry loop of the request handlers\<close>

text \<open>
  The four handlers of \<open>server/proxy.service.ts\<close> share one loop: at most three attempts, each with an
  account of its own from the token manager (which may wait for the account of a session), a second call without the project when the project is
  the problem, a short wait on the same account when the upstream announces one, and otherwise a penalty
  and the next account. The body of an attempt is the argument \<open>send\<close>: what the call of attempt \<open>i\<close> with an
  account, a model and a project (None for the call without it) returns, in the state of the token manager and in a state \<open>'x\<close> of its own (the shared
  objects a handler mutates, the posts made so far). \<open>envs\<close> gives the environment of each step of the token
  manager (time goes on between attempts), \<open>random\<close> the random number of each wait. The waits and
  the calls are logged in the state.
\<close>

record handler =
  h_no_account :: string
  h_failed :: string
  h_keeps_original :: bool
  h_sessionKey :: "string option"
  h_scopeKey :: "string option"
  h_model :: string

text \<open>A call in the log: account, attempt, with the project or without, and whether it succeeded.\<close>

record call =
  cl_account :: string
  cl_attempt :: nat
  cl_with_project :: bool
  cl_ok :: bool

record 'x retry_state =
  r_service :: service
  attemptedAccountIds :: "string list"
  graceRetryToken :: "cloud_account option"
  lastError :: "upstream_failure option"
  r_waits :: "js_number list"
  r_session_waits :: "js_number list"
  r_calls :: "call list"
  r_local :: 'x

type_synonym ('x, 'r) upstream =
  "service \<Rightarrow> nat \<Rightarrow> cloud_account \<Rightarrow> string \<Rightarrow> string option \<Rightarrow> 'x \<Rightarrow> (upstream_failure + 'r) \<times> 'x"

definition createTokenRetryState :: "'x \<Rightarrow> service \<Rightarrow> 'x retry_state" where
  "createTokenRetryState x s =
     \<lparr>r_service = s, attemptedAccountIds = [], graceRetryToken = None, lastError = None, r_waits = [], r_session_waits = [], r_calls = [],
      r_local = x\<rparr>"

fun option_list :: "'a option \<Rightarrow> 'a list" where
  "option_list None = []"
| "option_list (Some x) = [x]"

definition waitBeforeRetry :: "(nat \<Rightarrow> rat) \<Rightarrow> nat \<Rightarrow> 'x retry_state \<Rightarrow> 'x retry_state" where
  "waitBeforeRetry random attemptIndex st =
     (if attemptIndex = 0 \<or> graceRetryToken st \<noteq> None then st
      else st\<lparr>r_waits := r_waits st @ [Fin (calculateRetryDelay (random attemptIndex) (attemptIndex - 1) 1000)]\<rparr>)"

definition selectRetryToken :: "env \<Rightarrow> handler \<Rightarrow> 'x retry_state \<Rightarrow> cloud_account option \<times> 'x retry_state" where
  "selectRetryToken e h st =
     (let st1 = st\<lparr>graceRetryToken := None\<rparr>
      in case graceRetryToken st of
           Some token \<Rightarrow> (Some token, st1)
         | None \<Rightarrow>
             (let opts = \<lparr>o_sessionKey = h_sessionKey h, o_excludeAccountIds = attemptedAccountIds st,
                    o_model = Some (h_model h), o_scopeKey = h_scopeKey h\<rparr>;
                  st2 = st1\<lparr>r_session_waits := r_session_waits st @ option_list (getNextToken_wait e opts (r_service st))\<rparr>
              in case getNextToken e opts (r_service st) of
                   (None, s) \<Rightarrow> (None, st2\<lparr>r_service := s\<rparr>)
                 | (Some token, s) \<Rightarrow>
                     (Some token, st2\<lparr>r_service := s,
                        attemptedAccountIds := set_add (ca_id token) (attemptedAccountIds st)\<rparr>)))"

definition prepareGraceRetry :: "cloud_account \<Rightarrow> upstream_failure \<Rightarrow> 'x retry_state \<Rightarrow> bool \<times> 'x retry_state" where
  "prepareGraceRetry token err st =
     (case resolveGraceRetryDelay err of
        None \<Rightarrow> (False, st)
      | Some delay \<Rightarrow> (True, st\<lparr>r_waits := r_waits st @ [delay], graceRetryToken := Some token\<rparr>))"

definition token_project :: "cloud_account \<Rightarrow> string" where
  "token_project token = (case Option.bind (ca_token token) ct_project_id of None \<Rightarrow> [] | Some p \<Rightarrow> p)"

definition log_call :: "cloud_account \<Rightarrow> nat \<Rightarrow> bool \<Rightarrow> upstream_failure + 'r \<Rightarrow> 'x retry_state \<Rightarrow> 'x retry_state" where
  "log_call token i project r st =
     st\<lparr>r_calls := r_calls st @ [\<lparr>cl_account = ca_id token, cl_attempt = i, cl_with_project = project,
          cl_ok = (case r of Inl _ \<Rightarrow> False | Inr _ \<Rightarrow> True)\<rparr>]\<rparr>"

text \<open>
  One attempt's calls: with the project, and after a project-context error once more without it. The failure
  that counts is that of the second call, except in the Anthropic handler, where it is the first.
\<close>

definition call_upstream ::
    "bool \<Rightarrow> ('x, 'r) upstream \<Rightarrow> nat \<Rightarrow> cloud_account \<Rightarrow> string \<Rightarrow> 'x retry_state \<Rightarrow> (upstream_failure + 'r) \<times> 'x retry_state" where
  "call_upstream keeps_original send i token model st =
     (let (r, x1) = send (r_service st) i token model (Some (token_project token)) (r_local st);
          st1 = (log_call token i True r st)\<lparr>r_local := x1\<rparr>
      in case r of
           Inr v \<Rightarrow> (Inr v, st1)
         | Inl err \<Rightarrow>
             if err \<noteq> InternalTypeError \<and> isProjectContextError (uf_message err)
             then (let (r2, x2) = send (r_service st) i token model None x1;
                       st2 = (log_call token i False r2 st1)\<lparr>r_local := x2\<rparr>
                   in case r2 of
                        Inr v \<Rightarrow> (Inr v, st2)
                      | Inl err2 \<Rightarrow> (Inl (if keeps_original then err else err2), st2))
             else (Inl err, st1))"

text \<open>What an attempt's calls leave in the state: its log, its own state, and nothing else.\<close>

lemma call_upstream_log:
  assumes "call_upstream k send i token model st = (c, st')"
  shows "\<exists>cs y. st' = st\<lparr>r_calls := r_calls st @ cs, r_local := y\<rparr> \<and> cs \<noteq> [] \<and> length cs \<le> 2 \<and>
    (case c of Inl _ \<Rightarrow> list_all (\<lambda>x. \<not> cl_ok x) cs
     | Inr _ \<Rightarrow> list_all (\<lambda>x. \<not> cl_ok x) (butlast cs) \<and> cl_ok (last cs)) \<and>
    list_all (\<lambda>x. cl_account x = ca_id token \<and> cl_attempt x = i) cs"
proof -
  obtain r x1 where 1: "send (r_service st) i token model (Some (token_project token)) (r_local st) = (r, x1)" by fastforce
  obtain r2 x2 where 2: "send (r_service st) i token model None x1 = (r2, x2)" by fastforce
  from assms show ?thesis
    by (cases r; cases r2) (auto simp: call_upstream_def 1 2 Let_def log_call_def split: if_splits)
qed

text \<open>A quantity that each call raises by at most \<open>b\<close> is raised by at most \<open>b\<close> times the number of calls.\<close>

definition call_cost :: "('x \<Rightarrow> nat) \<Rightarrow> nat \<Rightarrow> ('x, 'r) upstream \<Rightarrow> bool" where
  "call_cost f b send \<longleftrightarrow> (\<forall>s i t m p x. f (snd (send s i t m p x)) \<le> f x + b)"

lemma call_cost_step: "call_cost f b send \<Longrightarrow> send s i t m p x = (r, x') \<Longrightarrow> f x' \<le> f x + b"
  by (metis call_cost_def snd_conv)

lemma call_upstream_cost:
  assumes "call_cost f b send" "call_upstream k send i token model st = (c, st')"
  shows "f (r_local st') + b * length (r_calls st) \<le> f (r_local st) + b * length (r_calls st')"
proof -
  obtain r x1 where 1: "send (r_service st) i token model (Some (token_project token)) (r_local st) = (r, x1)" by fastforce
  obtain r2 x2 where 2: "send (r_service st) i token model None x1 = (r2, x2)" by fastforce
  note call_cost_step [OF assms(1) 1] call_cost_step [OF assms(1) 2]
  with assms(2) show ?thesis
    by (cases r; cases r2) (auto simp: call_upstream_def 1 2 Let_def log_call_def algebra_simps split: if_splits)
qed

definition maxRetries :: nat where "maxRetries = 3"

text \<open>\<open>remaining\<close> attempts are left of \<open>maxRetries\<close>.\<close>

fun attempts ::
    "(nat \<Rightarrow> env) \<Rightarrow> (nat \<Rightarrow> rat) \<Rightarrow> ('x, 'r) upstream \<Rightarrow> handler \<Rightarrow> nat \<Rightarrow> 'x retry_state \<Rightarrow> (upstream_failure + 'r) \<times> 'x retry_state" where
  "attempts envs random send h 0 st =
     (Inl (case lastError st of Some err \<Rightarrow> err | None \<Rightarrow> PlainError (h_failed h)), st)"
| "attempts envs random send h (Suc remaining) st =
     (let i = maxRetries - Suc remaining; st1 = waitBeforeRetry random i st
      in case selectRetryToken (envs (2 * i)) h st1 of
           (None, st2) \<Rightarrow> (Inl (PlainError (h_no_account h)), st2)
         | (Some token, st2) \<Rightarrow>
             (let model = resolveDynamicModelForAccount (ca_id token) (h_model h) (r_service st2)
              in case call_upstream (h_keeps_original h) send i token model st2 of
                   (Inr v, st3) \<Rightarrow> (Inr v, st3)
                 | (Inl err, st3) \<Rightarrow>
                     (let st4 = st3\<lparr>lastError := Some err\<rparr>
                      in case prepareGraceRetry token err st4 of
                           (True, st5) \<Rightarrow> attempts envs random send h remaining st5
                         | (False, st5) \<Rightarrow>
                             (case applyUpstreamPenalty (envs (2 * i + 1)) (ca_id token) model err (r_service st5) of
                                (Some thrown, s) \<Rightarrow> (Inl InternalTypeError, st5\<lparr>r_service := s\<rparr>)
                              | (None, s) \<Rightarrow> attempts envs random send h remaining (st5\<lparr>r_service := s\<rparr>)))))"

definition prepareScopedCredentials :: "env \<Rightarrow> (string \<times> json list) option \<Rightarrow> service \<Rightarrow> service" where
  "prepareScopedCredentials e credentialScope s =
     (case credentialScope of
        None \<Rightarrow> s
      | Some (key, credentials) \<Rightarrow> snd (upsertScopedExternalCredentials e key credentials s))"

definition run_handler ::
    "env \<Rightarrow> (nat \<Rightarrow> env) \<Rightarrow> (nat \<Rightarrow> rat) \<Rightarrow> ('x, 'r) upstream \<Rightarrow> (string \<times> json list) option \<Rightarrow> handler \<Rightarrow> 'x
      \<Rightarrow> service \<Rightarrow> (upstream_failure + 'r) \<times> 'x retry_state" where
  "run_handler e envs random send credentialScope h x s =
     attempts envs random send h maxRetries (createTokenRetryState x (prepareScopedCredentials e credentialScope s))"


subsection \<open>The waits\<close>

definition short_wait :: "js_number \<Rightarrow> bool" where
  "short_wait w \<longleftrightarrow> (case w of Fin q \<Rightarrow> 0 < q \<and> q \<le> 3500 | _ \<Rightarrow> False)"

lemma grace_wait_short: "resolveGraceRetryDelay err = Some d \<Longrightarrow> short_wait d"
  by (auto simp: resolveGraceRetryDelay_def shouldGraceRetry_def GRACE_RETRY_WINDOW_MS_def GRACE_RETRY_BUFFER_MS_def
      short_wait_def split: upstream_failure.splits option.splits if_splits js_number.splits elim!: num_add.elims)

lemma backoff_wait_short:
  assumes "0 \<le> r" "r < 1" "a \<le> 1"
  shows "short_wait (Fin (calculateRetryDelay r a 1000))"
proof -
  have "min (1000 * 2 ^ a) MAX_DELAY_MS \<le> 2000"
    using assms(3) by (cases a) (simp_all add: MAX_DELAY_MS_def)
  with calculateRetryDelay_near [OF assms(1,2), of a 1000]
  have "1 \<le> calculateRetryDelay r a 1000" "calculateRetryDelay r a 1000 \<le> 2401" by linarith+
  then show ?thesis by (simp add: short_wait_def)
qed

subsection \<open>What the loop does to the state\<close>

text \<open>One step of the loop from \<open>st\<close> to \<open>st'\<close>: the service keeps its invariant, and at most \<open>c\<close> calls,
  \<open>w\<close> short waits and \<open>n\<close> waits for the account of a session are logged.\<close>

definition loop_step :: "nat \<Rightarrow> nat \<Rightarrow> nat \<Rightarrow> 'x retry_state \<Rightarrow> 'x retry_state \<Rightarrow> bool" where
  "loop_step c w n st st' \<longleftrightarrow>
     kept (r_service st) (r_service st') \<and>
     (\<exists>cs. r_calls st' = r_calls st @ cs \<and> length cs \<le> c) \<and>
     (\<exists>ws. r_waits st' = r_waits st @ ws \<and> length ws \<le> w \<and> list_all short_wait ws) \<and>
     (\<exists>us. r_session_waits st' = r_session_waits st @ us \<and> length us \<le> n \<and>
        (service_ok (r_service st) \<longrightarrow> list_all (session_wait (max_wait (r_service st))) us))"

lemma loop_step_refl [simp]: "loop_step c w n st st"
  by (simp add: loop_step_def)

lemma loop_step_trans:
  assumes "loop_step c w n s0 s1" "loop_step c' w' n' s1 s2" "c + c' \<le> c''" "w + w' \<le> w''" "n + n' \<le> n''"
  shows "loop_step c'' w'' n'' s0 s2"
proof -
  from assms(1) obtain cs ws us where 1: "kept (r_service s0) (r_service s1)" "r_calls s1 = r_calls s0 @ cs"
    "length cs \<le> c" "r_waits s1 = r_waits s0 @ ws" "length ws \<le> w" "list_all short_wait ws"
    "r_session_waits s1 = r_session_waits s0 @ us" "length us \<le> n"
    "service_ok (r_service s0) \<longrightarrow> list_all (session_wait (max_wait (r_service s0))) us"
    by (auto simp: loop_step_def)
  from assms(2) obtain cs' ws' us' where 2: "kept (r_service s1) (r_service s2)" "r_calls s2 = r_calls s1 @ cs'"
    "length cs' \<le> c'" "r_waits s2 = r_waits s1 @ ws'" "length ws' \<le> w'" "list_all short_wait ws'"
    "r_session_waits s2 = r_session_waits s1 @ us'" "length us' \<le> n'"
    "service_ok (r_service s1) \<longrightarrow> list_all (session_wait (max_wait (r_service s1))) us'"
    by (auto simp: loop_step_def)
  have "r_calls s2 = r_calls s0 @ (cs @ cs')" "length (cs @ cs') \<le> c''"
    "r_waits s2 = r_waits s0 @ (ws @ ws')" "length (ws @ ws') \<le> w''" "list_all short_wait (ws @ ws')"
    "r_session_waits s2 = r_session_waits s0 @ (us @ us')" "length (us @ us') \<le> n''"
    using 1 2 assms(3,4,5) by simp_all
  moreover have "service_ok (r_service s0) \<longrightarrow> list_all (session_wait (max_wait (r_service s0))) (us @ us')"
    using 1(1,9) 2(9) by (auto simp: kept_def)
  ultimately show ?thesis using kept_trans [OF 1(1) 2(1)] unfolding loop_step_def by blast
qed

lemma loop_step_mono: "loop_step c w n s t \<Longrightarrow> c \<le> c' \<Longrightarrow> w \<le> w' \<Longrightarrow> n \<le> n' \<Longrightarrow> loop_step c' w' n' s t"
  using loop_step_trans [OF _ loop_step_refl [of 0 0 0]] by auto

definition valid_random :: "(nat \<Rightarrow> rat) \<Rightarrow> bool" where
  "valid_random random \<longleftrightarrow> (\<forall>i. 0 \<le> random i \<and> random i < 1)"

lemma wait_step:
  assumes "valid_random random" "i \<le> 2"
  shows "loop_step 0 (if i = 0 \<or> graceRetryToken st \<noteq> None then 0 else 1) 0 st (waitBeforeRetry random i st)"
    "graceRetryToken (waitBeforeRetry random i st) = graceRetryToken st"
proof -
  have "short_wait (Fin (calculateRetryDelay (random i) (i - 1) 1000))"
    using assms by (intro backoff_wait_short) (auto simp: valid_random_def)
  then show "loop_step 0 (if i = 0 \<or> graceRetryToken st \<noteq> None then 0 else 1) 0 st (waitBeforeRetry random i st)"
    by (simp add: waitBeforeRetry_def loop_step_def)
  show "graceRetryToken (waitBeforeRetry random i st) = graceRetryToken st"
    by (simp add: waitBeforeRetry_def)
qed

lemma option_list_all: "list_all P (option_list x) \<longleftrightarrow> (\<forall>y. x = Some y \<longrightarrow> P y)" "length (option_list x) \<le> Suc 0"
  by (cases x; simp)+

lemma select_step:
  assumes "selectRetryToken e h st = (t, st')"
  shows "loop_step 0 0 1 st st' \<and> graceRetryToken st' = None"
proof (cases "graceRetryToken st")
  case (Some token)
  with assms show ?thesis by (auto simp: selectRetryToken_def loop_step_def)
next
  case None
  define opts where "opts = \<lparr>o_sessionKey = h_sessionKey h, o_excludeAccountIds = attemptedAccountIds st,
    o_model = Some (h_model h), o_scopeKey = h_scopeKey h\<rparr>"
  define us where "us = option_list (getNextToken_wait e opts (r_service st))"
  obtain r s where n: "getNextToken e opts (r_service st) = (r, s)" by fastforce
  have us: "length us \<le> Suc 0" "service_ok (r_service st) \<longrightarrow> list_all (session_wait (max_wait (r_service st))) us"
    using selection_wait_bounded by (auto simp: us_def option_list_all)
  have "r_service st' = s \<and> r_calls st' = r_calls st \<and> r_waits st' = r_waits st \<and> r_session_waits st' = r_session_waits st @ us \<and>
      graceRetryToken st' = None"
    using assms None n by (cases r) (auto simp: selectRetryToken_def Let_def us_def simp flip: opts_def)
  with us next_kept [OF n] show ?thesis by (simp add: loop_step_def)
qed

lemma call_step:
  "call_upstream k send i token model st = (r, st') \<Longrightarrow> loop_step 2 0 0 st st' \<and> graceRetryToken st' = graceRetryToken st"
  by (drule call_upstream_log) (auto simp: loop_step_def)

lemma grace_step:
  "prepareGraceRetry token err st = (b, st') \<Longrightarrow>
   loop_step 0 (if b then 1 else 0) 0 st st' \<and>
   (b \<longrightarrow> graceRetryToken st' \<noteq> None) \<and> (\<not> b \<longrightarrow> st' = st)"
  using grace_wait_short by (auto simp: prepareGraceRetry_def loop_step_def split: option.splits)

lemma penalty_kept: "applyUpstreamPenalty e a m err s = (x, s') \<Longrightarrow> kept s s'"
proof -
  assume p: "applyUpstreamPenalty e a m err s = (x, s')"
  have 1: "kept s (service_recordParityError s)"
    unfolding service_recordParityError_def by (rule manager_kept(1))
  have "kept (service_recordParityError s) s'"
    using p by (auto simp: applyUpstreamPenalty_def Let_def cooldown_kept split: upstream_failure.splits if_splits
        dest: mark_kept)
  with 1 show ?thesis by (rule kept_trans)
qed

lemma service_update_step: "kept (r_service st) s \<Longrightarrow> loop_step 0 0 0 st (st\<lparr>r_service := s\<rparr>)"
  by (simp add: loop_step_def)

lemma lastError_step [simp]: "loop_step 0 0 0 st (st\<lparr>lastError := x\<rparr>)"
  by (simp add: loop_step_def)

definition waits_bound :: "nat \<Rightarrow> 'x retry_state \<Rightarrow> nat" where
  "waits_bound remaining st = remaining +
     (if graceRetryToken st = None \<and> remaining \<noteq> 0 \<and> remaining < maxRetries then 1 else 0)"

lemma attempts_step:
  assumes "valid_random random" "remaining \<le> maxRetries" "attempts envs random send h remaining st = (r, st')"
  shows "loop_step (2 * remaining) (waits_bound remaining st) remaining st st'"
  using assms
proof (induction remaining arbitrary: st)
  case 0
  then show ?case by simp
next
  case (Suc n)
  let ?i = "maxRetries - Suc n"
  let ?w = "if ?i = 0 \<or> graceRetryToken st \<noteq> None then 0 else 1 :: nat"
  have i: "?i \<le> 2" "?i = 0 \<longleftrightarrow> n = 2" using Suc.prems(2) by (auto simp: maxRetries_def)
  define st1 where "st1 = waitBeforeRetry random ?i st"
  note w = wait_step [OF Suc.prems(1) i(1), of st, folded st1_def]
  obtain t st2 where sel: "selectRetryToken (envs (2 * ?i)) h st1 = (t, st2)" by (rule prod.exhaust)
  note s2 = select_step [OF sel]
  have 12: "loop_step 0 ?w 1 st st2" by (rule loop_step_trans [OF w(1) s2 [THEN conjunct1]]) auto
  have wb: "?w \<le> waits_bound (Suc n) st" using Suc.prems(2) i(2) by (auto simp: waits_bound_def maxRetries_def)
  show ?case
  proof (cases t)
    case None
    with Suc.prems(3) sel have "st' = st2" by (simp add: Let_def st1_def)
    then show ?thesis using loop_step_mono [OF 12 _ wb, of _ "Suc n"] by simp
  next
    case (Some token)
    let ?m = "resolveDynamicModelForAccount (ca_id token) (h_model h) (r_service st2)"
    obtain c st3 where call: "call_upstream (h_keeps_original h) send ?i token ?m st2 = (c, st3)" by (rule prod.exhaust)
    note s3 = call_step [OF call]
    have 13: "loop_step 2 ?w 1 st st3" by (rule loop_step_trans [OF 12 s3 [THEN conjunct1]]) auto
    show ?thesis
    proof (cases c)
      case (Inr v)
      with Suc.prems(3) sel Some call have "st' = st3" by (simp add: Let_def st1_def)
      then show ?thesis using loop_step_mono [OF 13 _ wb, of _ "Suc n"] by simp
    next
      case (Inl err)
      obtain b st5 where g: "prepareGraceRetry token err (st3\<lparr>lastError := Some err\<rparr>) = (b, st5)" by (rule prod.exhaust)
      note s5 = grace_step [OF g]
      have 14: "loop_step 2 ?w 1 st (st3\<lparr>lastError := Some err\<rparr>)"
        by (rule loop_step_trans [OF 13 lastError_step]) auto
      have 15: "loop_step 2 (?w + (if b then 1 else 0)) 1 st st5"
        by (rule loop_step_trans [OF 14 s5 [THEN conjunct1]]) auto
      show ?thesis
      proof (cases b)
        case True
        with Suc.prems(3) sel Some call Inl g
        have a: "attempts envs random send h n st5 = (r, st')" by (simp add: Let_def st1_def)
        have n: "n \<le> maxRetries" using Suc.prems(2) by simp
        have "waits_bound n st5 = n" using s5 True by (simp add: waits_bound_def)
        with i(2) Suc.prems(2) True show ?thesis
          by (intro loop_step_trans [OF 15 Suc.IH [OF Suc.prems(1) n a]]) (auto simp: waits_bound_def maxRetries_def)
      next
        case False
        obtain x s where p: "applyUpstreamPenalty (envs (2 * ?i + 1)) (ca_id token) ?m err (r_service st5) = (x, s)"
          by (rule prod.exhaust)
        have 16: "loop_step 2 ?w 1 st (st5\<lparr>r_service := s\<rparr>)"
          by (rule loop_step_trans [OF 15 service_update_step [OF penalty_kept [OF p]]]) (auto simp: False)
        show ?thesis
        proof (cases x)
          case (Some thrown)
          with Suc.prems(3) sel \<open>t = Some token\<close> call Inl g False p
          have "st' = st5\<lparr>r_service := s\<rparr>" by (simp add: Let_def st1_def)
          then show ?thesis using loop_step_mono [OF 16 _ wb, of _ "Suc n"] by simp
        next
          case None
          with Suc.prems(3) sel Some call Inl g False p
          have a: "attempts envs random send h n (st5\<lparr>r_service := s\<rparr>) = (r, st')" by (simp add: Let_def st1_def)
          have n: "n \<le> maxRetries" using Suc.prems(2) by simp
          have "waits_bound n (st5\<lparr>r_service := s\<rparr>) \<le> n + (if n \<noteq> 0 then 1 else 0)"
            by (simp add: waits_bound_def)
          with i(2) Suc.prems(2) show ?thesis
            by (intro loop_step_trans [OF 16 Suc.IH [OF Suc.prems(1) n a]]) (auto simp: waits_bound_def maxRetries_def)
        qed
      qed
    qed
  qed
qed


text \<open>C5: A request ends after at most three attempts. Whatever the upstream answers, the handler runs the body of an
  attempt at most six times (what each posts is bounded separately) and waits at most three times for a retry, each time for at
  most three and a half seconds; the token manager waits for the account of a session at most three times, each time
  for at most the configured longest wait (a minute if none is configured); and the service is left in a well-formed state.\<close>

theorem requests_are_bounded:
  assumes "valid_random random" "run_handler e envs random send credentialScope h x s = (r, st)"
  shows "length (r_calls st) \<le> 6 \<and> length (r_waits st) \<le> 3 \<and> list_all short_wait (r_waits st) \<and>
    length (r_session_waits st) \<le> 3 \<and>
    (service_ok s \<longrightarrow> list_all (session_wait (max_wait s)) (r_session_waits st) \<and> service_ok (r_service st))"
proof -
  define s0 where "s0 = prepareScopedCredentials e credentialScope s"
  have k: "kept s s0"
    by (auto simp: s0_def prepareScopedCredentials_def split: option.split)
      (metis upload_kept prod.collapse)
  have "attempts envs random send h maxRetries (createTokenRetryState x s0) = (r, st)"
    using assms(2) by (simp add: run_handler_def s0_def)
  from attempts_step [OF assms(1) order_refl this]
  have l: "loop_step 6 3 3 (createTokenRetryState x s0) st" by (simp add: waits_bound_def maxRetries_def)
  with k show ?thesis
    by (auto simp: loop_step_def createTokenRetryState_def kept_def)
qed

subsection \<open>The outcome\<close>

lemma failed_call_log:
  assumes "call_upstream k send i token model st = (c, st')"
  shows "\<exists>cs. r_calls st' = r_calls st @ cs \<and> cs \<noteq> [] \<and>
    (case c of Inl _ \<Rightarrow> list_all (\<lambda>x. \<not> cl_ok x) cs
     | Inr _ \<Rightarrow> list_all (\<lambda>x. \<not> cl_ok x) (butlast cs) \<and> cl_ok (last cs)) \<and>
    list_all (\<lambda>x. cl_account x = ca_id token \<and> cl_attempt x = i) cs"
  using call_upstream_log [OF assms] by auto

text \<open>The waits, the selection, the grace retry and the penalty leave the log and the handler's own state alone. What is
left of an attempt: no account, a success, or failed calls and then either an exception or the next attempt.\<close>

lemma quiet_steps:
  "r_calls (waitBeforeRetry random i st) = r_calls st" "r_local (waitBeforeRetry random i st) = r_local st"
  "selectRetryToken e h st = (t, st') \<Longrightarrow> r_calls st' = r_calls st \<and> r_local st' = r_local st"
  "prepareGraceRetry token err st = (b, st') \<Longrightarrow> r_calls st' = r_calls st \<and> r_local st' = r_local st"
  by (auto simp: waitBeforeRetry_def selectRetryToken_def prepareGraceRetry_def Let_def
      split: option.splits prod.splits)

lemma attempt_cases:
  assumes "attempts envs random send h (Suc n) st = (r, st')"
  obtains
    (no_account) "r = Inl (PlainError (h_no_account h))" "r_calls st' = r_calls st" "r_local st' = r_local st"
  | (success) v token model st2 where "r = Inr v" "r_calls st2 = r_calls st" "r_local st2 = r_local st"
      "call_upstream (h_keeps_original h) send (maxRetries - Suc n) token model st2 = (Inr v, st')"
  | (failure) err token model st2 st3 st6 where "r_calls st2 = r_calls st" "r_local st2 = r_local st"
      "call_upstream (h_keeps_original h) send (maxRetries - Suc n) token model st2 = (Inl err, st3)"
      "r_calls st6 = r_calls st3" "r_local st6 = r_local st3"
      "(r = Inl InternalTypeError \<and> st' = st6) \<or> attempts envs random send h n st6 = (r, st')"
proof -
  let ?i = "maxRetries - Suc n"
  obtain t st2 where sel: "selectRetryToken (envs (2 * ?i)) h (waitBeforeRetry random ?i st) = (t, st2)" by (rule prod.exhaust)
  from quiet_steps(3) [OF sel] have 2: "r_calls st2 = r_calls st" "r_local st2 = r_local st"
    by (simp_all add: quiet_steps(1,2))
  show thesis
  proof (cases t)
    case None
    with assms sel 2 show thesis by (intro no_account) (auto simp: Let_def)
  next
    case (Some token)
    let ?m = "resolveDynamicModelForAccount (ca_id token) (h_model h) (r_service st2)"
    obtain c st3 where call: "call_upstream (h_keeps_original h) send ?i token ?m st2 = (c, st3)" by (rule prod.exhaust)
    show thesis
    proof (cases c)
      case (Inr v)
      with assms sel Some call have "st' = st3" "r = Inr v" by (simp_all add: Let_def)
      with success 2 call Inr show thesis by blast
    next
      case (Inl err)
      obtain b st5 where g: "prepareGraceRetry token err (st3\<lparr>lastError := Some err\<rparr>) = (b, st5)" by (rule prod.exhaust)
      from quiet_steps(4) [OF g] have 5: "r_calls st5 = r_calls st3" "r_local st5 = r_local st3" by simp_all
      obtain x s where p: "applyUpstreamPenalty (envs (2 * ?i + 1)) (ca_id token) ?m err (r_service st5) = (x, s)"
        by (rule prod.exhaust)
      from assms sel Some call Inl g p
      have "(r = Inl InternalTypeError \<and> st' = st5\<lparr>r_service := s\<rparr>) \<or> attempts envs random send h n st5 = (r, st') \<or>
          attempts envs random send h n (st5\<lparr>r_service := s\<rparr>) = (r, st')"
        by (auto simp: Let_def split: bool.splits option.splits)
      then obtain st6 where "r_calls st6 = r_calls st5" "r_local st6 = r_local st5"
        "(r = Inl InternalTypeError \<and> st' = st6) \<or> attempts envs random send h n st6 = (r, st')"
        by (metis select_convs(1) ext_inject surjective update_convs(1))
      with failure [OF 2 call [unfolded Inl]] 5 show thesis by simp
    qed
  qed
qed

text \<open>The log of a loop that ends with \<open>r\<close>: only failed calls before the end, and a success exactly
  when the loop returns a value.\<close>

definition log_fits :: "upstream_failure + 'r \<Rightarrow> call list \<Rightarrow> bool" where
  "log_fits r cs \<longleftrightarrow>
     (case r of
        Inl _ \<Rightarrow> list_all (\<lambda>x. \<not> cl_ok x) cs
      | Inr _ \<Rightarrow> cs \<noteq> [] \<and> list_all (\<lambda>x. \<not> cl_ok x) (butlast cs) \<and> cl_ok (last cs))"

lemma log_fits_append:
  "list_all (\<lambda>x. \<not> cl_ok x) xs \<Longrightarrow> log_fits r ys \<Longrightarrow> log_fits r (xs @ ys)"
  by (auto simp: log_fits_def butlast_append split: sum.splits)

lemma attempts_log:
  "attempts envs random send h remaining st = (r, st') \<Longrightarrow> \<exists>cs. r_calls st' = r_calls st @ cs \<and> log_fits r cs"
proof (induction remaining arbitrary: st)
  case 0
  then show ?case by (auto simp: log_fits_def)
next
  case (Suc n)
  from Suc.prems show ?case
  proof (cases rule: attempt_cases)
    case no_account
    then show ?thesis by (simp add: log_fits_def)
  next
    case success
    with failed_call_log [OF success(4)] show ?thesis by (auto simp: log_fits_def)
  next
    case (failure err token model st2 st3 st6)
    from failed_call_log [OF failure(3)] failure obtain cs where cs: "r_calls st6 = r_calls st @ cs" "list_all (\<lambda>x. \<not> cl_ok x) cs"
      by auto
    from failure(6) show ?thesis
    proof
      assume "r = Inl InternalTypeError \<and> st' = st6"
      with cs show ?thesis by (auto simp: log_fits_def)
    next
      assume "attempts envs random send h n st6 = (r, st')"
      from Suc.IH [OF this] obtain ds where "r_calls st' = r_calls st @ (cs @ ds)" "log_fits r ds" using cs by auto
      with log_fits_append [OF cs(2)] show ?thesis by blast
    qed
  qed
qed

lemma attempts_calls:
  "attempts envs random send h remaining st = (r, st') \<Longrightarrow> length (r_calls st') \<le> length (r_calls st) + 2 * remaining"
proof (induction remaining arbitrary: st)
  case 0
  then show ?case by auto
next
  case (Suc n)
  from Suc.prems show ?case
  proof (cases rule: attempt_cases)
    case no_account
    then show ?thesis by simp
  next
    case success
    with call_upstream_log [OF success(4)] show ?thesis by auto
  next
    case (failure err token model st2 st3 st6)
    with call_upstream_log [OF failure(3)] have "length (r_calls st6) \<le> length (r_calls st) + 2" by auto
    with failure(6) Suc.IH [of st6] show ?thesis by auto
  qed
qed

lemma run_handler_calls:
  "run_handler e envs random send credentialScope h x s = (r, st) \<Longrightarrow> length (r_calls st) \<le> 6"
  using attempts_calls by (fastforce simp: run_handler_def createTokenRetryState_def maxRetries_def)

text \<open>What the calls cost in the handler's own state.\<close>

lemma attempts_cost:
  assumes cost: "call_cost f b send"
  shows "attempts envs random send h remaining st = (r, st') \<Longrightarrow>
    f (r_local st') + b * length (r_calls st) \<le> f (r_local st) + b * length (r_calls st')"
proof (induction remaining arbitrary: st)
  case 0
  then show ?case by simp
next
  case (Suc n)
  from Suc.prems show ?case
  proof (cases rule: attempt_cases)
    case no_account
    then show ?thesis by simp
  next
    case success
    with call_upstream_cost [OF cost success(4)] show ?thesis by simp
  next
    case (failure err token model st2 st3 st6)
    with call_upstream_cost [OF cost failure(3)] show ?thesis using Suc.IH [of st6] by fastforce
  qed
qed

lemma run_handler_cost:
  assumes "call_cost f b send" "run_handler e envs random send credentialScope h x s = (r, st)"
  shows "f (r_local st) \<le> f x + b * length (r_calls st)"
  using attempts_cost [OF assms(1)] assms(2) by (fastforce simp: run_handler_def createTokenRetryState_def)

text \<open>An invariant of the handler's own state, and the call that brought the result.\<close>

definition call_keeps :: "('x \<Rightarrow> bool) \<Rightarrow> ('x, 'r) upstream \<Rightarrow> bool" where
  "call_keeps P send \<longleftrightarrow> (\<forall>s i t m p x. P x \<longrightarrow> P (snd (send s i t m p x)))"

lemma call_upstream_keeps:
  assumes "call_keeps P send" "call_upstream k send i token model st = (c, st')" "P (r_local st)"
  shows "P (r_local st')"
    and "c = Inr v \<Longrightarrow> \<exists>p x. P x \<and> send (r_service st) i token model p x = (Inr v, r_local st')"
proof -
  obtain r x1 where 1: "send (r_service st) i token model (Some (token_project token)) (r_local st) = (r, x1)" by fastforce
  obtain r2 x2 where 2: "send (r_service st) i token model None x1 = (r2, x2)" by fastforce
  have P: "P x1" "P x2" using assms(1,3) 1 2 by (metis call_keeps_def snd_conv)+
  show "P (r_local st')"
    using assms(2) P by (cases r; cases r2) (auto simp: call_upstream_def 1 2 Let_def log_call_def split: if_splits)
  show "\<exists>p x. P x \<and> send (r_service st) i token model p x = (Inr v, r_local st')" if "c = Inr v"
  proof (cases r)
    case (Inr w)
    with assms(2) that 1 have "send (r_service st) i token model (Some (token_project token)) (r_local st) = (Inr v, r_local st')"
      by (auto simp: call_upstream_def Let_def)
    with assms(3) show ?thesis by blast
  next
    case (Inl e)
    with assms(2) that 1 2 have "send (r_service st) i token model None x1 = (Inr v, r_local st')"
      by (cases r2) (auto simp: call_upstream_def Let_def split: if_splits)
    with P(1) show ?thesis by blast
  qed
qed

lemma attempts_keeps:
  assumes keeps: "call_keeps P send"
  shows "attempts envs random send h remaining st = (r, st') \<Longrightarrow> P (r_local st) \<Longrightarrow>
    P (r_local st') \<and> (\<forall>v. r = Inr v \<longrightarrow> (\<exists>s i t m p x. P x \<and> send s i t m p x = (Inr v, r_local st')))"
proof (induction remaining arbitrary: st)
  case 0
  then show ?case by auto
next
  case (Suc n)
  from Suc.prems(1) show ?case
  proof (cases rule: attempt_cases)
    case no_account
    with Suc.prems(2) show ?thesis by simp
  next
    case (success v token model st2)
    with Suc.prems(2) have "P (r_local st2)" by simp
    from call_upstream_keeps [OF keeps success(4) this] success(1) show ?thesis by (metis Inr_inject)
  next
    case (failure err token model st2 st3 st6)
    with call_upstream_keeps(1) [OF keeps failure(3)] Suc.prems(2) have "P (r_local st6)" by simp
    with failure(6) show ?thesis using Suc.IH [of st6] by auto
  qed
qed

lemma run_handler_keeps:
  assumes "run_handler e envs random send credentialScope h x s = (r, st)" "call_keeps P send" "P x"
  shows "P (r_local st)" and "r = Inr v \<Longrightarrow> \<exists>s i t m p x. P x \<and> send s i t m p x = (Inr v, r_local st)"
  using attempts_keeps [OF assms(2)] assms(1,3) by (fastforce simp: run_handler_def createTokenRetryState_def)+

text \<open>The handler stops at the first success and reports an error only when every call failed: the log
  of upstream calls holds failures only, followed by exactly one success when a value is returned.\<close>

theorem first_success_wins:
  "(case run_handler e envs random send credentialScope h x s of
      (Inl err, st) \<Rightarrow> list_all (\<lambda>x. \<not> cl_ok x) (r_calls st)
    | (Inr v, st) \<Rightarrow> r_calls st \<noteq> [] \<and> list_all (\<lambda>x. \<not> cl_ok x) (butlast (r_calls st)) \<and> cl_ok (last (r_calls st)))"
proof -
  obtain r st where rs: "run_handler e envs random send credentialScope h x s = (r, st)" by (rule prod.exhaust)
  then have "attempts envs random send h maxRetries
      (createTokenRetryState x (prepareScopedCredentials e credentialScope s)) = (r, st)"
    by (simp add: run_handler_def)
  from attempts_log [OF this] have "log_fits r (r_calls st)" by (auto simp: createTokenRetryState_def)
  then show ?thesis by (simp add: rs log_fits_def split: sum.splits)
qed


definition sample_handler :: handler where
  "sample_handler = \<lparr>h_no_account = ''No available accounts'', h_failed = ''Request failed after retries'',
     h_keeps_original = True, h_sessionKey = Some ''k'', h_scopeKey = None, h_model = ''m''\<rparr>"

theorem requests_are_bounded_witness:
  "length (r_calls (snd (run_handler sample_env (\<lambda>_. sample_env) (\<lambda>_. 1 / 2)
     (\<lambda>s i t m p x. (Inl (PlainError ''quota'') :: upstream_failure + nat, x)) None sample_handler () sample_service))) \<le> 6"
proof -
  let ?run = "run_handler sample_env (\<lambda>_. sample_env) (\<lambda>_. 1 / 2)
     (\<lambda>s i t m p x. (Inl (PlainError ''quota'') :: upstream_failure + nat, x)) None sample_handler () sample_service"
  have "valid_random (\<lambda>_. 1 / 2)" by (simp add: valid_random_def)
  moreover obtain r st where "?run = (r, st)" by fastforce
  ultimately show ?thesis using requests_are_bounded by (metis snd_conv)
qed

subsection \<open>Announced short waits and penalties\<close>

text \<open>An account that keeps announcing short waits is never penalised. When the upstream answers every call
  with a rate-limit error that announces a wait of at most two seconds, the handler spends all its attempts on
  the first account, also when others are available, and then fails without any penalty: the service is exactly as
  the selection left it, and the account stays selectable.\<close>

theorem short_waits_escape_penalty:
  assumes select: "getNextToken (envs 0) \<lparr>o_sessionKey = h_sessionKey h, o_excludeAccountIds = [],
      o_model = Some (h_model h), o_scopeKey = h_scopeKey h\<rparr> s = (Some token, s')"
    and fails: "\<And>s i t m p x. fst (send s i t m p x) = Inl err"
    and grace: "resolveGraceRetryDelay err = Some d" and ctx: "\<not> isProjectContextError (uf_message err)"
  shows "\<exists>st. run_handler e envs random send None h x s = (Inl err, st) \<and> r_service st = s' \<and>
    map cl_account (r_calls st) = [ca_id token, ca_id token, ca_id token] \<and> r_waits st = [d, d, d]"
proof -
  let ?m = "\<lambda>s. resolveDynamicModelForAccount (ca_id token) (h_model h) s"
  have call: "\<exists>x. call_upstream k send i token m st =
      (Inl err, (log_call token i True (Inl err :: upstream_failure + 'b) st)\<lparr>r_local := x\<rparr>)"
    for k i m st
    by (cases "send (r_service st) i token m (Some (token_project token)) (r_local st)")
      (use fails [of "r_service st" i token m "Some (token_project token)" "r_local st"] in \<open>auto simp: call_upstream_def Let_def ctx\<close>)
  have again: "selectRetryToken e' h (st\<lparr>graceRetryToken := Some token\<rparr>) = (Some token, st\<lparr>graceRetryToken := None\<rparr>)"
    for e' and st :: "'a retry_state" by (simp add: selectRetryToken_def)
  have wait: "waitBeforeRetry random i (st\<lparr>graceRetryToken := Some token\<rparr>) = st\<lparr>graceRetryToken := Some token\<rparr>"
    for i and st :: "'a retry_state" by (simp add: waitBeforeRetry_def)
  have prep: "prepareGraceRetry token err st =
      (True, (st\<lparr>r_waits := r_waits st @ [d]\<rparr>)\<lparr>graceRetryToken := Some token\<rparr>)" for st :: "'a retry_state"
    by (simp add: prepareGraceRetry_def grace)
  obtain us where first: "selectRetryToken (envs 0) h (createTokenRetryState x s) =
      (Some token, (createTokenRetryState x s)\<lparr>r_session_waits := us, r_service := s', attemptedAccountIds := [ca_id token]\<rparr>)"
    using select by (simp add: selectRetryToken_def createTokenRetryState_def set_add_def)
  have retry: "\<exists>st'. attempts envs random send h (Suc n) (st\<lparr>graceRetryToken := Some token\<rparr>) =
      attempts envs random send h n (st'\<lparr>graceRetryToken := Some token\<rparr>) \<and> r_service st' = r_service st \<and>
      r_waits st' = r_waits st @ [d] \<and> map cl_account (r_calls st') = map cl_account (r_calls st) @ [ca_id token] \<and>
      lastError st' = Some err" for n st
  proof -
    let ?st = "st\<lparr>graceRetryToken := None\<rparr>"
    obtain y where y: "call_upstream (h_keeps_original h) send (maxRetries - Suc n) token (?m (r_service st)) ?st =
        (Inl err, (log_call token (maxRetries - Suc n) True (Inl err :: upstream_failure + 'b) ?st)\<lparr>r_local := y\<rparr>)"
      using call by blast
    show ?thesis
      by (rule exI [of _ "(log_call token (maxRetries - Suc n) True (Inl err :: upstream_failure + 'b) ?st)
            \<lparr>r_local := y, lastError := Some err, r_waits := r_waits st @ [d]\<rparr>"])
        (simp add: Let_def wait again y prep log_call_def)
  qed
  let ?st1 = "(createTokenRetryState x s)\<lparr>r_session_waits := us, r_service := s', attemptedAccountIds := [ca_id token]\<rparr>"
  obtain y where y: "call_upstream (h_keeps_original h) send 0 token (?m s') ?st1 =
      (Inl err, (log_call token 0 True (Inl err :: upstream_failure + 'b) ?st1)\<lparr>r_local := y\<rparr>)"
    using call by blast
  define s1 where "s1 = (log_call token 0 True (Inl err :: upstream_failure + 'b) ?st1)
      \<lparr>r_local := y, lastError := Some err, r_waits := [d]\<rparr>"
  have s1: "r_service s1 = s'" "r_waits s1 = [d]" "map cl_account (r_calls s1) = [ca_id token]"
    by (simp_all add: s1_def log_call_def createTokenRetryState_def)
  have "run_handler e envs random send None h x s = attempts envs random send h (Suc (Suc (Suc 0))) (createTokenRetryState x s)"
    by (simp add: run_handler_def prepareScopedCredentials_def maxRetries_def numeral_3_eq_3)
  also have "\<dots> = attempts envs random send h (Suc (Suc 0)) (s1\<lparr>graceRetryToken := Some token\<rparr>)"
    by (subst attempts.simps(2))
      (simp add: Let_def maxRetries_def waitBeforeRetry_def first y prep log_call_def s1_def del: attempts.simps,
        simp add: createTokenRetryState_def)
  finally have "run_handler e envs random send None h x s =
      attempts envs random send h (Suc (Suc 0)) (s1\<lparr>graceRetryToken := Some token\<rparr>)" .
  moreover obtain s2 where s2: "attempts envs random send h (Suc (Suc 0)) (s1\<lparr>graceRetryToken := Some token\<rparr>) =
      attempts envs random send h (Suc 0) (s2\<lparr>graceRetryToken := Some token\<rparr>)" "r_service s2 = s'" "r_waits s2 = [d, d]"
      "map cl_account (r_calls s2) = [ca_id token, ca_id token]"
    using retry [of "Suc 0" s1] s1 by auto
  moreover obtain s3 where s3: "attempts envs random send h (Suc 0) (s2\<lparr>graceRetryToken := Some token\<rparr>) =
      attempts envs random send h 0 (s3\<lparr>graceRetryToken := Some token\<rparr>)" "r_service s3 = s'" "r_waits s3 = [d, d, d]"
      "map cl_account (r_calls s3) = [ca_id token, ca_id token, ca_id token]" "lastError s3 = Some err"
    using retry [of 0 s2] s2 by auto
  ultimately show ?thesis by simp
qed

definition sample_quota_error :: upstream_failure where
  "sample_quota_error = UpstreamRequestError ''retry after 1s'' (Some 429) None None"

theorem short_waits_escape_penalty_witness:
  "\<exists>st acc. getNextToken sample_env \<lparr>o_sessionKey = Some ''k'', o_excludeAccountIds = [], o_model = Some ''m'',
       o_scopeKey = None\<rparr> sample_service = (Some acc, r_service st) \<and>
     run_handler sample_env (\<lambda>_. sample_env) (\<lambda>_. 0) (\<lambda>s i t m p x. (Inl sample_quota_error :: upstream_failure + nat, x))
       None sample_handler () sample_service = (Inl sample_quota_error, st) \<and>
     map cl_account (r_calls st) = [ca_id acc, ca_id acc, ca_id acc]"
proof -
  let ?o = "\<lparr>o_sessionKey = Some ''k'', o_excludeAccountIds = [], o_model = Some ''m'', o_scopeKey = None\<rparr>"
  have "fst (getNextToken sample_env ?o sample_service) \<noteq> None" by code_simp
  then obtain acc s' where n: "getNextToken sample_env ?o sample_service = (Some acc, s')"
    by (cases "getNextToken sample_env ?o sample_service") auto
  have d: "resolveGraceRetryDelay sample_quota_error = Some (Fin 2500)"
    and c: "\<not> isProjectContextError (uf_message sample_quota_error)" by code_simp+
  have "getNextToken sample_env \<lparr>o_sessionKey = h_sessionKey sample_handler, o_excludeAccountIds = [],
      o_model = Some (h_model sample_handler), o_scopeKey = h_scopeKey sample_handler\<rparr> sample_service = (Some acc, s')"
    using n by (simp add: sample_handler_def)
  from short_waits_escape_penalty [where e = sample_env and envs = "\<lambda>_. sample_env" and random = "\<lambda>_. 0" and x = "()" and
      send = "\<lambda>s i t m p x. (Inl sample_quota_error :: upstream_failure + nat, x)", OF this _ d c]
  show ?thesis using n by auto
qed

end
