(* ===== verification/Generation.thy ===== *)
theory Generation
  imports AccountModels
begin

section \<open>Generation settings and their limits\<close>

text \<open>
  The generation settings of a Gemini request and \<open>ProxyService.applyInternalGenerationConstraints\<close>: thinking
  levels become budgets, sampling parameters are dropped when the model thinks, and the budget and the output
  limit are fitted into what the account's model allows.
\<close>

record thinking_config =
  tc_includeThoughts :: bool
  thinkingBudget :: "rat option"
  thinkingLevel :: "string option"

record image_config =
  aspectRatio :: string
  imageSize :: "string option"

text \<open>\<open>explicitMax\<close> is the marker \<open>__explicitMaxOutputTokens\<close>.\<close>

record generation_config =
  temperature :: "rat option"
  topP :: "rat option"
  topK :: "rat option"
  maxOutputTokens :: "rat option"
  stopSequences :: "string list option"
  thinkingConfig :: "thinking_config option"
  responseMimeType :: "string option"
  responseModalities :: "string list option"
  imageConfig :: "image_config option"
  explicitMax :: bool

definition no_config :: generation_config where
  "no_config = \<lparr>temperature = None, topP = None, topK = None, maxOutputTokens = None, stopSequences = None,
     thinkingConfig = None, responseMimeType = None, responseModalities = None, imageConfig = None,
     explicitMax = False\<rparr>"

definition strip_models_prefix :: "string \<Rightarrow> string" where
  "strip_models_prefix model = (if starts_with (js_lower model) ''models/'' then drop 7 model else model)"

definition normalizeGeminiModel :: "string \<Rightarrow> string" where
  "normalizeGeminiModel model = strip_models_prefix model"

definition normalizeModelIdentifier :: "string \<Rightarrow> string" where
  "normalizeModelIdentifier model = js_trim (strip_models_prefix model)"

definition resolveThinkingLevelBudget :: "string \<Rightarrow> rat option" where
  "resolveThinkingLevelBudget level =
     (let normalized = js_upper (js_trim level)
      in if normalized = ''NONE'' then Some 0
         else if normalized = ''LOW'' then Some 4096
         else if normalized = ''MEDIUM'' then Some 8192
         else if normalized = ''HIGH'' then Some 24576
         else None)"

definition getModelOutputCap :: "string \<Rightarrow> string \<Rightarrow> service \<Rightarrow> rat" where
  "getModelOutputCap accountId model s =
     (let normalizedModel = normalizeModelIdentifier model
      in case getModelOutputLimitForAccount accountId normalizedModel s of
           Some cap \<Rightarrow> if cap > 0 then of_int \<lfloor>cap\<rfloor> else getMaxOutputTokens normalizedModel
         | None \<Rightarrow> getMaxOutputTokens normalizedModel)"

definition getModelThinkingBudget :: "string \<Rightarrow> string \<Rightarrow> service \<Rightarrow> rat" where
  "getModelThinkingBudget accountId model s =
     (let normalizedModel = normalizeModelIdentifier model
      in case getModelThinkingBudgetForAccount accountId normalizedModel s of
           Some b \<Rightarrow> if b \<ge> 0 then of_int \<lfloor>b\<rfloor> else getThinkingBudget normalizedModel
         | None \<Rightarrow> getThinkingBudget normalizedModel)"

definition MAX_SAFE_INTEGER :: rat where "MAX_SAFE_INTEGER = 9007199254740991"

definition is_adaptive :: "thinking_config \<Rightarrow> bool" where
  "is_adaptive tc \<longleftrightarrow> thinkingLevel tc \<noteq> None \<or> thinkingBudget tc = Some (- 1) \<or> thinkingBudget tc = Some 32768"

definition drop_sampling :: "generation_config \<Rightarrow> generation_config" where
  "drop_sampling cfg = cfg\<lparr>temperature := None, topP := None, topK := None, stopSequences := None\<rparr>"

definition convert_level :: "bool \<Rightarrow> thinking_config \<Rightarrow> thinking_config" where
  "convert_level is_claude tc =
     (case thinkingLevel tc of
        Some level \<Rightarrow>
          if is_claude then tc
          else (case resolveThinkingLevelBudget level of
                  Some converted \<Rightarrow> tc\<lparr>thinkingBudget := Some converted, thinkingLevel := None\<rparr>
                | None \<Rightarrow> tc\<lparr>thinkingLevel := None\<rparr>)
      | None \<Rightarrow> tc)"

definition default_budget :: "rat \<Rightarrow> rat \<Rightarrow> rat" where
  "default_budget budgetCap b = (if b < 0 then min budgetCap 24576 else b)"

definition fit_budget :: "bool \<Rightarrow> rat option \<Rightarrow> rat \<Rightarrow> rat \<Rightarrow> rat \<Rightarrow> rat" where
  "fit_budget explicit maxTokens outputCap budgetCap b =
     Min {of_int \<lfloor>b\<rfloor>,
          (case maxTokens of Some m \<Rightarrow> if explicit then max 0 (of_int \<lfloor>m\<rfloor> - 1) else MAX_SAFE_INTEGER
           | None \<Rightarrow> MAX_SAFE_INTEGER),
          max 0 (outputCap - 1), budgetCap}"

text \<open>The output limit that goes with a budget \<open>b\<close>.\<close>

definition raise_output :: "bool \<Rightarrow> bool \<Rightarrow> rat \<Rightarrow> rat \<Rightarrow> rat option \<Rightarrow> rat option" where
  "raise_output explicit adaptive outputCap b maxTokens =
     (if adaptive then
        (if \<not> explicit \<and> (case maxTokens of None \<Rightarrow> True | Some m \<Rightarrow> m < 131072) then Some 131072 else maxTokens)
      else if \<not> explicit \<and> (case maxTokens of None \<Rightarrow> True | Some m \<Rightarrow> m \<le> b) then
        Some (min outputCap (b + (if maxTokens \<noteq> None then 8192 else 32768)))
      else maxTokens)"

definition cap_output :: "rat \<Rightarrow> generation_config \<Rightarrow> generation_config" where
  "cap_output outputCap cfg =
     (case maxOutputTokens cfg of
        None \<Rightarrow> cfg
      | Some m \<Rightarrow> cfg\<lparr>maxOutputTokens := Some (min (of_int \<lfloor>m\<rfloor>) outputCap)\<rparr>)"

definition is_small_explicit :: "bool \<Rightarrow> rat option \<Rightarrow> bool" where
  "is_small_explicit explicit maxTokens \<longleftrightarrow> explicit \<and> (case maxTokens of None \<Rightarrow> False | Some m \<Rightarrow> m \<le> 1024)"

definition constrain_thinking ::
    "bool \<Rightarrow> bool \<Rightarrow> rat \<Rightarrow> rat \<Rightarrow> thinking_config \<Rightarrow> generation_config \<Rightarrow> generation_config" where
  "constrain_thinking is_claude explicit outputCap budgetCap tc cfg =
     (let tc1 = convert_level is_claude tc
      in case thinkingBudget tc1 of
           None \<Rightarrow> cfg\<lparr>thinkingConfig := Some tc1\<rparr>
         | Some b0 \<Rightarrow>
             (let b = fit_budget explicit (maxOutputTokens cfg) outputCap budgetCap (default_budget budgetCap b0)
              in cfg\<lparr>thinkingConfig := Some (tc1\<lparr>thinkingBudget := Some b\<rparr>),
                     maxOutputTokens := raise_output explicit (is_adaptive tc) outputCap b (maxOutputTokens cfg)\<rparr>))"

text \<open>An emptied configuration is removed from the request (None).\<close>

definition constrain :: "bool \<Rightarrow> rat \<Rightarrow> rat \<Rightarrow> generation_config \<Rightarrow> generation_config option" where
  "constrain is_claude outputCap budgetCap cfg0 =
     (let explicit = explicitMax cfg0;
          cfg = cfg0\<lparr>explicitMax := False\<rparr>;
          finish = (\<lambda>c. if cap_output outputCap c = no_config then None else Some (cap_output outputCap c))
      in case thinkingConfig cfg of
           None \<Rightarrow> finish cfg
         | Some tc \<Rightarrow>
             if is_small_explicit explicit (maxOutputTokens cfg)
             then Some ((drop_sampling cfg)\<lparr>thinkingConfig := None\<rparr>)
             else finish (constrain_thinking is_claude explicit outputCap budgetCap tc (drop_sampling cfg)))"

definition applyInternalGenerationConstraints ::
    "service \<Rightarrow> string \<Rightarrow> string \<Rightarrow> generation_config option \<Rightarrow> generation_config option" where
  "applyInternalGenerationConstraints s model accountId generationConfig =
     (case generationConfig of
        None \<Rightarrow> None
      | Some cfg \<Rightarrow>
          constrain (str_contains (js_lower (normalizeModelIdentifier model)) ''claude'')
            (getModelOutputCap accountId model s) (getModelThinkingBudget accountId model s) cfg)"

subsection \<open>Properties\<close>

lemma fit_budget_bounds:
  assumes "0 \<le> b" "0 \<le> budgetCap" "1 \<le> outputCap"
  shows "0 \<le> fit_budget explicit mt outputCap budgetCap b" "fit_budget explicit mt outputCap budgetCap b \<le> budgetCap"
    "fit_budget explicit mt outputCap budgetCap b \<le> outputCap - 1"
    "explicit \<Longrightarrow> mt = Some m \<Longrightarrow> 1 \<le> m \<Longrightarrow> fit_budget explicit mt outputCap budgetCap b \<le> of_int \<lfloor>m\<rfloor> - 1"
  using assms by (auto simp: fit_budget_def MAX_SAFE_INTEGER_def split: option.splits)

lemma fit_budget_int:
  assumes "budgetCap \<in> \<int>" "outputCap \<in> \<int>"
  shows "fit_budget explicit mt outputCap budgetCap b \<in> \<int>"
proof -
  let ?S = "{of_int \<lfloor>b\<rfloor>, (case mt of Some m \<Rightarrow> if explicit then max 0 (of_int \<lfloor>m\<rfloor> - 1) else MAX_SAFE_INTEGER
           | None \<Rightarrow> MAX_SAFE_INTEGER), max 0 (outputCap - 1), budgetCap}"
  have "Min ?S \<in> ?S" by (rule Min_in) auto
  moreover have "?S \<subseteq> \<int>"
    using assms by (auto simp: max_def MAX_SAFE_INTEGER_def split: option.splits)
  ultimately show ?thesis unfolding fit_budget_def by blast
qed


lemma raise_output_above:
  assumes b: "0 \<le> b" "b \<le> budgetCap" "b \<le> outputCap - 1" "b \<in> \<int>" "budgetCap < 131072" "outputCap \<in> \<int>"
    and mt: "explicit \<Longrightarrow> \<exists>m. mt = Some m \<and> 1 \<le> m \<and> b \<le> of_int \<lfloor>m\<rfloor> - 1" "\<And>m. mt = Some m \<Longrightarrow> m \<in> \<int>"
  shows "\<exists>m. raise_output explicit adaptive outputCap b mt = Some m \<and> b < min (of_int \<lfloor>m\<rfloor>) outputCap"
proof -
  have int: "of_int \<lfloor>x\<rfloor> = x" if "x \<in> \<int>" for x :: rat using that by (auto elim: Ints_cases)
  have sum: "min outputCap (b + k) \<in> \<int>" if "k \<in> \<int>" for k
    using b(4,6) that by (simp add: min_def)
  show ?thesis
  proof (cases explicit)
    case True
    with mt(1) b(3) show ?thesis by (auto simp: raise_output_def)
  next
    case False
    show ?thesis
    proof (cases mt)
      case None
      with False b sum [of 32768] show ?thesis by (auto simp: raise_output_def int)
    next
      case (Some m)
      with mt(2) have m: "of_int \<lfloor>m\<rfloor> = m" by (simp add: int)
      show ?thesis
        using False Some m b sum [of 8192] by (auto simp: raise_output_def int)
    qed
  qed
qed

text \<open>The settings that reach the upstream when the model thinks with a budget.\<close>

lemma constrain_budget:
  assumes c: "constrain is_claude outputCap budgetCap cfg = Some c" "thinkingConfig c = Some tc" "thinkingBudget tc = Some b"
    and caps: "1 \<le> outputCap" "outputCap \<in> \<int>" "0 \<le> budgetCap" "budgetCap \<in> \<int>" "budgetCap < 131072"
    and mt: "explicitMax cfg \<Longrightarrow> maxOutputTokens cfg \<noteq> None" "\<And>m. maxOutputTokens cfg = Some m \<Longrightarrow> m \<in> \<int>"
  shows "0 \<le> b \<and> b \<le> budgetCap \<and> (\<exists>m. maxOutputTokens c = Some m \<and> b < m \<and> m \<le> outputCap) \<and>
    temperature c = None \<and> topP c = None \<and> topK c = None \<and> stopSequences c = None \<and> \<not> explicitMax c"
proof -
  obtain tc0 where t0: "thinkingConfig cfg = Some tc0"
    using c(1,2) by (cases "thinkingConfig cfg") (auto simp: constrain_def Let_def cap_output_def split: if_splits option.splits)
  have small: "\<not> is_small_explicit (explicitMax cfg) (maxOutputTokens cfg)"
    using c(1,2) t0 by (auto simp: constrain_def)
  let ?tc1 = "convert_level is_claude tc0" and ?cfg = "drop_sampling (cfg\<lparr>explicitMax := False\<rparr>)"
  let ?c0 = "constrain_thinking is_claude (explicitMax cfg) outputCap budgetCap tc0 ?cfg"
  have c0: "c = cap_output outputCap ?c0"
    using c(1) t0 small by (auto simp: constrain_def Let_def split: if_splits)
  have th: "thinkingConfig (cap_output outputCap x) = thinkingConfig x" for x
    by (simp add: cap_output_def split: option.split)
  show ?thesis
  proof (cases "thinkingBudget ?tc1")
    case None
    with c(2,3) c0 show ?thesis by (auto simp: constrain_thinking_def th Let_def)
  next
    case (Some b0)
    define fb where "fb = fit_budget (explicitMax cfg) (maxOutputTokens cfg) outputCap budgetCap (default_budget budgetCap b0)"
    have eq: "?c0 = ?cfg\<lparr>thinkingConfig := Some (?tc1\<lparr>thinkingBudget := Some fb\<rparr>), maxOutputTokens :=
        raise_output (explicitMax cfg) (is_adaptive tc0) outputCap fb (maxOutputTokens cfg)\<rparr>"
      by (simp add: constrain_thinking_def Let_def Some fb_def drop_sampling_def)
    have b: "b = fb" using c(2,3) c0 by (auto simp: th eq)
    have "0 \<le> default_budget budgetCap b0" using caps(3) by (simp add: default_budget_def)
    note bounds = fit_budget_bounds [OF this caps(3,1), of "explicitMax cfg" "maxOutputTokens cfg", folded fb_def]
    have "fb \<in> \<int>" unfolding fb_def by (rule fit_budget_int) (use caps in auto)
    moreover have "\<exists>m. maxOutputTokens cfg = Some m \<and> 1 \<le> m \<and> fb \<le> of_int \<lfloor>m\<rfloor> - 1" if e: "explicitMax cfg"
    proof -
      from mt(1) [OF e] obtain m where m: "maxOutputTokens cfg = Some m" by auto
      with small e have "1 \<le> m" by (simp add: is_small_explicit_def)
      with bounds(4) [OF e m] m show ?thesis by blast
    qed
    ultimately obtain m where m: "raise_output (explicitMax cfg) (is_adaptive tc0) outputCap fb (maxOutputTokens cfg) = Some m"
      "fb < min (of_int \<lfloor>m\<rfloor>) outputCap"
      using raise_output_above [OF bounds(1-3) _ caps(5,2) _ mt(2), of "explicitMax cfg"] by blast
    show ?thesis
      unfolding b c0 eq using bounds(1,2) m by (simp add: cap_output_def drop_sampling_def)
  qed
qed

lemma caps_are_integers: "getModelOutputCap a m s \<in> \<int>" "getModelThinkingBudget a m s \<in> \<int>" "0 \<le> getModelThinkingBudget a m s"
proof -
  have out: "getMaxOutputTokens x \<in> \<int>" "getThinkingBudget x \<in> \<int>" "0 \<le> getThinkingBudget x" for x
    by (auto simp: getMaxOutputTokens_def getThinkingBudget_def DEFAULT_MAX_OUTPUT_TOKENS_def DEFAULT_THINKING_BUDGET_def
        split: option.split)
  then show "getModelOutputCap a m s \<in> \<int>" "getModelThinkingBudget a m s \<in> \<int>" "0 \<le> getModelThinkingBudget a m s"
    by (auto simp: getModelOutputCap_def getModelThinkingBudget_def Let_def split: option.split)
qed

text \<open>The thinking budget that reaches the upstream always leaves room for an answer: for every account and
  model with an output limit of at least one token it is non-negative, within the model's budget, and strictly
  below the output limit of the request, which itself is within the model's limit; and no sampling parameter
  goes with it.\<close>

theorem thinking_leaves_room_to_answer:
  assumes "applyInternalGenerationConstraints s model accountId (Some cfg) = Some c"
    and "thinkingConfig c = Some tc" "thinkingBudget tc = Some b"
    and "1 \<le> getModelOutputCap accountId model s" "getModelThinkingBudget accountId model s < 131072"
    and "explicitMax cfg \<longrightarrow> maxOutputTokens cfg \<noteq> None" "\<forall>m. maxOutputTokens cfg = Some m \<longrightarrow> m \<in> \<int>"
  shows "0 \<le> b \<and> b \<le> getModelThinkingBudget accountId model s \<and>
    (\<exists>m. maxOutputTokens c = Some m \<and> b < m \<and> m \<le> getModelOutputCap accountId model s) \<and>
    temperature c = None \<and> topP c = None \<and> topK c = None \<and> stopSequences c = None \<and> \<not> explicitMax c"
  by (rule constrain_budget [OF _ assms(2,3,4) caps_are_integers(1,3,2) assms(5)])
    (use assms in \<open>auto simp: applyInternalGenerationConstraints_def\<close>)

definition sample_config :: generation_config where
  "sample_config = no_config\<lparr>temperature := Some 1, maxOutputTokens := Some 2000, explicitMax := True,
     thinkingConfig := Some \<lparr>tc_includeThoughts = True, thinkingBudget = Some 32768, thinkingLevel = None\<rparr>\<rparr>"

theorem thinking_leaves_room_to_answer_witness:
  "(case applyInternalGenerationConstraints (new_service None) ''gemini-3-flash'' ''a'' (Some sample_config) of
      None \<Rightarrow> False
    | Some c \<Rightarrow> (case thinkingConfig c of None \<Rightarrow> False
        | Some tc \<Rightarrow> thinkingBudget tc = Some 1999 \<and> maxOutputTokens c = Some 2000 \<and> temperature c = None))"
proof -
  let ?r = "applyInternalGenerationConstraints (new_service None) ''gemini-3-flash'' ''a'' (Some sample_config)"
  have v: "?r = Some (no_config\<lparr>maxOutputTokens := Some 2000, thinkingConfig := Some
      \<lparr>tc_includeThoughts = True, thinkingBudget = Some 1999, thinkingLevel = None\<rparr>\<rparr>)" by code_simp
  have caps: "getModelOutputCap ''a'' ''gemini-3-flash'' (new_service None) = 65536"
    "getModelThinkingBudget ''a'' ''gemini-3-flash'' (new_service None) = 32768" by code_simp+
  have "temperature (no_config\<lparr>maxOutputTokens := Some 2000, thinkingConfig := Some
      \<lparr>tc_includeThoughts = True, thinkingBudget = Some 1999, thinkingLevel = None\<rparr>\<rparr>) = None"
    using thinking_leaves_room_to_answer [OF v, of _ 1999] by (simp add: caps sample_config_def no_config_def)
  then show ?thesis by (simp add: v)
qed

text \<open>The early return for small explicit limits skips the cap of the model.\<close>

lemma small_explicit_limit_is_not_capped:
  "map_option maxOutputTokens (constrain False 500 100 (no_config\<lparr>maxOutputTokens := Some 1000, explicitMax := True,
     thinkingConfig := Some \<lparr>tc_includeThoughts = True, thinkingBudget = None, thinkingLevel = None\<rparr>\<rparr>)) = Some (Some 1000)"
  by code_simp

end
