(* ===== verification/JsonSchema.thy ===== *)
theory JsonSchema
  imports RateLimit "HOL-Library.Multiset_Order"
begin

section \<open>Cleaning JSON schemas for Gemini\<close>

text \<open>
  \<open>antigravity/JsonSchemaUtils.ts\<close>: references are expanded, constraints that Gemini does not know become hints
  in the description, unsupported keywords are removed and types are lowered. The source works in place on a tree
  of its own; here each function returns the new tree. \<open>flattenRefs\<close> recurses through the definitions without a
  guard: its first argument is the depth of calls the stack allows, and None is the overflow of that stack.
\<close>

type_synonym members = "(string \<times> json) list"

text \<open>\<open>Object.entries\<close>.\<close>

definition entries_of :: "json \<Rightarrow> members" where
  "entries_of v =
     (case v of
        JObj m \<Rightarrow> m
      | JArr xs \<Rightarrow> map (\<lambda>(i, x). (nat_str i, x)) (enumerate 0 xs)
      | JStr s \<Rightarrow> map (\<lambda>(i, c). (nat_str i, JStr [c])) (enumerate 0 s)
      | _ \<Rightarrow> [])"

subsection \<open>References\<close>

definition ref_name :: "string \<Rightarrow> string" where
  "ref_name refPath = (let l = last (split_on (CHR ''/'') refPath) in if l = [] then refPath else l)"

definition resolve_ref :: "members \<Rightarrow> members \<Rightarrow> json option" where
  "resolve_ref defs m =
     (case map_of m ''$ref'' of
        Some (JStr r) \<Rightarrow>
          (case map_of defs (ref_name r) of
             Some d \<Rightarrow> if truthy d then Some d else None
           | None \<Rightarrow> None)
      | _ \<Rightarrow> None)"

definition add_missing :: "string \<times> json \<Rightarrow> members \<Rightarrow> members" where
  "add_missing kv m = (if map_of m (fst kv) = None then m @ [kv] else m)"

definition merge_definition :: "json \<Rightarrow> members \<Rightarrow> members" where
  "merge_definition d m = fold add_missing (entries_of d) m"

fun all_some :: "'a option list \<Rightarrow> 'a list option" where
  "all_some [] = Some []"
| "all_some (x # xs) =
     (case x of None \<Rightarrow> None | Some y \<Rightarrow> (case all_some xs of None \<Rightarrow> None | Some ys \<Rightarrow> Some (y # ys)))"

definition map_members :: "(json \<Rightarrow> json option) \<Rightarrow> members \<Rightarrow> members option" where
  "map_members f m = map_option (zip (map fst m)) (all_some (map (\<lambda>kv. f (snd kv)) m))"

primrec flattenRefs :: "nat \<Rightarrow> members \<Rightarrow> json \<Rightarrow> json option" where
  "flattenRefs 0 defs v = (if is_object_like v then None else Some v)"
| "flattenRefs (Suc depth) defs v =
     (case v of
        JArr xs \<Rightarrow> map_option JArr (all_some (map (flattenRefs depth defs) xs))
      | JObj m \<Rightarrow>
          (case resolve_ref defs m of
             None \<Rightarrow> map_option JObj (map_members (flattenRefs depth defs) m)
           | Some d \<Rightarrow>
               (let m1 = AList.delete ''$ref'' m
                in if \<not> is_object_like d then map_option JObj (map_members (flattenRefs depth defs) m1)
                   else (case flattenRefs depth defs (JObj (merge_definition d m1)) of
                           Some (JObj m2) \<Rightarrow> map_option JObj (map_members (flattenRefs depth defs) m2)
                         | _ \<Rightarrow> None)))
      | _ \<Rightarrow> Some v)"

subsection \<open>Cleaning\<close>

definition validationFields :: "(string \<times> string) list" where
  "validationFields = [(''pattern'', ''pattern''), (''minLength'', ''minLen''), (''maxLength'', ''maxLen''),
     (''minimum'', ''min''), (''maximum'', ''max''), (''minItems'', ''minItems''), (''maxItems'', ''maxItems''),
     (''exclusiveMinimum'', ''exclMin''), (''exclusiveMaximum'', ''exclMax''), (''multipleOf'', ''multipleOf''),
     (''format'', ''format'')]"

definition hardRemoveFields :: "string list" where
  "hardRemoveFields = [''$schema'', ''additionalProperties'', ''enumCaseInsensitive'', ''enumNormalizeWhitespace'',
     ''uniqueItems'', ''default'', ''const'', ''examples'', ''propertyNames'', ''anyOf'', ''oneOf'', ''allOf'', ''not'',
     ''if'', ''then'', ''else'', ''dependencies'', ''dependentSchemas'', ''dependentRequired'', ''cache_control'']"

definition is_primitive :: "json \<Rightarrow> bool" where
  "is_primitive v = (case v of JStr _ \<Rightarrow> True | JNum _ \<Rightarrow> True | JBool _ \<Rightarrow> True | _ \<Rightarrow> False)"

definition constraint_of :: "members \<Rightarrow> string \<times> string \<Rightarrow> string option" where
  "constraint_of m fl =
     (case map_of m (fst fl) of
        Some v \<Rightarrow> if is_primitive v then Some (snd fl @ '': '' @ js_to_string v) else None
      | None \<Rightarrow> None)"

definition drop_constraint :: "string \<times> string \<Rightarrow> members \<Rightarrow> members" where
  "drop_constraint fl m =
     (case map_of m (fst fl) of
        Some v \<Rightarrow> if is_primitive v then AList.delete (fst fl) m else m
      | None \<Rightarrow> m)"

definition add_hint :: "string list \<Rightarrow> members \<Rightarrow> members" where
  "add_hint constraints m =
     (if constraints = [] then m
      else (let hint = '' [Constraint: '' @ join '', '' constraints @ '']'';
                old = (case map_of m ''description'' of Some v \<Rightarrow> if truthy v then js_to_string v else [] | None \<Rightarrow> [])
            in AList.update ''description'' (JStr (old @ hint)) m))"

definition selected_type :: "json list \<Rightarrow> string" where
  "selected_type items =
     (case List.find (\<lambda>v. case v of JStr s \<Rightarrow> s \<noteq> ''null'' | _ \<Rightarrow> False) items of
        Some (JStr s) \<Rightarrow> js_lower s
      | _ \<Rightarrow> ''string'')"

definition lower_type :: "members \<Rightarrow> members" where
  "lower_type m =
     (case map_of m ''type'' of
        Some (JStr s) \<Rightarrow> if s = [] then m else AList.update ''type'' (JStr (js_lower s)) m
      | Some (JArr items) \<Rightarrow> AList.update ''type'' (JStr (selected_type items)) m
      | _ \<Rightarrow> m)"

definition is_record :: "json option \<Rightarrow> bool" where
  "is_record v = (case v of Some (JObj _) \<Rightarrow> True | _ \<Rightarrow> False)"

definition default_items :: "members \<Rightarrow> members" where
  "default_items m =
     (if map_of m ''type'' = Some (JStr ''array'') \<and> \<not> is_record (map_of m ''items'')
      then AList.update ''items'' (JObj [(''type'', JStr ''string'')]) m else m)"

definition clean_object :: "members \<Rightarrow> members" where
  "clean_object m =
     (let constraints = List.map_filter (constraint_of m) validationFields;
          m1 = fold drop_constraint validationFields m;
          m2 = add_hint constraints m1;
          m3 = fold AList.delete hardRemoveFields m2
      in default_items (lower_type m3))"

fun cleanJsonSchemaRecursive :: "json \<Rightarrow> json" where
  "cleanJsonSchemaRecursive (JArr xs) = JArr (map cleanJsonSchemaRecursive xs)"
| "cleanJsonSchemaRecursive (JObj m) = JObj (clean_object (map (\<lambda>kv. (fst kv, cleanJsonSchemaRecursive (snd kv))) m))"
| "cleanJsonSchemaRecursive v = v"

definition take_defs :: "string \<Rightarrow> members \<times> members \<Rightarrow> members \<times> members" where
  "take_defs key = (\<lambda>(defs, m).
     (case map_of m key of
        Some v \<Rightarrow> if truthy v then (fold (\<lambda>(k, x). AList.update k x) (entries_of v) defs, AList.delete key m) else (defs, m)
      | None \<Rightarrow> (defs, m)))"

definition cleanJsonSchema :: "nat \<Rightarrow> json \<Rightarrow> json option" where
  "cleanJsonSchema depth v =
     (case v of
        JObj m \<Rightarrow>
          (let (defs, m1) = take_defs ''definitions'' (take_defs ''$defs'' ([], m))
           in map_option cleanJsonSchemaRecursive
                (if defs = [] then Some (JObj m1) else flattenRefs depth defs (JObj m1)))
      | _ \<Rightarrow> Some (cleanJsonSchemaRecursive v))"

definition normalizeObjectJsonSchema :: "nat \<Rightarrow> json option \<Rightarrow> json option" where
  "normalizeObjectJsonSchema depth schema =
     (case schema of
        Some (JObj m) \<Rightarrow>
          (case cleanJsonSchema depth (JObj m) of
             Some (JObj m1) \<Rightarrow>
               (let m2 = (case map_of m1 ''type'' of Some (JStr _) \<Rightarrow> m1
                          | _ \<Rightarrow> AList.update ''type'' (JStr ''object'') m1);
                    m3 = (if map_of m2 ''type'' = Some (JStr ''object'') \<and> \<not> is_record (map_of m2 ''properties'')
                          then AList.update ''properties'' (JObj []) m2 else m2)
                in Some (JObj m3))
           | _ \<Rightarrow> None)
      | _ \<Rightarrow> Some (JObj [(''type'', JStr ''object''), (''properties'', JObj [])]))"


subsection \<open>What cleaning guarantees\<close>

text \<open>
  What the comment on \<open>cleanJsonSchema\<close> promises of its result, in words of its own: no unsupported keyword, no
  constraint with a primitive value, types that are lower-case strings, and an item schema for every array. A constraint whose
  value is not primitive is a property that happens to have that name. Whether Gemini accepts the result is not claimed.
\<close>

definition constraint_words :: "string list" where
  "constraint_words = [''pattern'', ''format'', ''minLength'', ''maxLength'', ''minItems'', ''maxItems'', ''minimum'', ''maximum'',
     ''exclusiveMinimum'', ''exclusiveMaximum'', ''multipleOf'']"

definition unsupported_words :: "string list" where
  "unsupported_words = [''$schema'', ''additionalProperties'', ''uniqueItems'', ''default'', ''const'', ''examples'', ''propertyNames'',
     ''anyOf'', ''oneOf'', ''allOf'', ''not'', ''if'', ''then'', ''else'', ''dependencies'', ''dependentSchemas'', ''dependentRequired'',
     ''enumCaseInsensitive'', ''enumNormalizeWhitespace'', ''cache_control'']"

definition clean_members :: "members \<Rightarrow> bool" where
  "clean_members m \<longleftrightarrow>
     (\<forall>f\<in>set constraint_words. case map_of m f of Some v \<Rightarrow> \<not> is_primitive v | None \<Rightarrow> True) \<and>
     (\<forall>f\<in>set unsupported_words. map_of m f = None) \<and>
     (case map_of m ''type'' of Some (JStr s) \<Rightarrow> js_lower s = s | Some (JArr _) \<Rightarrow> False | _ \<Rightarrow> True) \<and>
     (map_of m ''type'' = Some (JStr ''array'') \<longrightarrow> is_record (map_of m ''items''))"

fun cleaned_schema :: "json \<Rightarrow> bool" where
  "cleaned_schema (JArr xs) = list_all cleaned_schema xs"
| "cleaned_schema (JObj m) = (clean_members m \<and> list_all (\<lambda>kv. cleaned_schema (snd kv)) m)"
| "cleaned_schema v = True"

lemma words_of_the_code: "fst ` set validationFields = set constraint_words" "set hardRemoveFields = set unsupported_words"
  by (auto simp: validationFields_def hardRemoveFields_def constraint_words_def unsupported_words_def)

lemma clean_members_alt:
  "clean_members m \<longleftrightarrow>
     (\<forall>f\<in>fst ` set validationFields. \<forall>v. map_of m f = Some v \<longrightarrow> \<not> is_primitive v) \<and>
     (\<forall>f\<in>set hardRemoveFields. map_of m f = None) \<and>
     (case map_of m ''type'' of Some (JStr s) \<Rightarrow> js_lower s = s | Some (JArr _) \<Rightarrow> False | _ \<Rightarrow> True) \<and>
     (map_of m ''type'' = Some (JStr ''array'') \<longrightarrow> is_record (map_of m ''items''))"
  unfolding clean_members_def words_of_the_code by (simp split: option.split)

lemma map_of_drops:
  "map_of (fold drop_constraint fls m) k =
     (if k \<in> fst ` set fls \<and> (\<exists>v. map_of m k = Some v \<and> is_primitive v) then None else map_of m k)"
proof (induction fls arbitrary: m)
  case Nil
  show ?case by simp
next
  case (Cons fl fls)
  have d: "map_of (drop_constraint fl m) k =
      (if k = fst fl \<and> (\<exists>v. map_of m k = Some v \<and> is_primitive v) then None else map_of m k)" for k
    by (auto simp: drop_constraint_def delete_conv' split: option.splits)
  show ?case by (auto simp: Cons.IH d)
qed

lemma map_of_deletes: "map_of (fold AList.delete ks m) k = (if k \<in> set ks then None else map_of m k)"
  by (induction ks arbitrary: m) (auto simp: delete_conv')

lemma set_delete: "set (AList.delete k m) \<subseteq> set m"
  by (auto simp: AList.delete_eq)

lemma set_drops: "set (fold drop_constraint fls m) \<subseteq> set m"
proof (induction fls arbitrary: m)
  case (Cons fl fls)
  have "set (drop_constraint fl m) \<subseteq> set m"
    using set_delete [of "fst fl" m] by (auto simp: drop_constraint_def split: option.splits)
  with Cons.IH [of "drop_constraint fl m"] show ?case by auto
qed simp

lemma set_deletes: "set (fold AList.delete ks m) \<subseteq> set m"
proof (induction ks arbitrary: m)
  case (Cons k ks)
  from Cons.IH [of "AList.delete k m"] set_delete [of k m] show ?case by auto
qed simp

lemma set_update: "set (AList.update k v m) \<subseteq> insert (k, v) (set m)"
  by (induction m) auto

lemma update_same: "map_of m k = Some v \<Longrightarrow> AList.update k v m = m"
  by (induction m) auto

lemma keys_apart:
  "''type'' \<notin> fst ` set validationFields" "''items'' \<notin> fst ` set validationFields"
  "''description'' \<notin> fst ` set validationFields" "''type'' \<notin> set hardRemoveFields"
  "''items'' \<notin> set hardRemoveFields" "''description'' \<notin> set hardRemoveFields"
  "''properties'' \<notin> fst ` set validationFields" "''properties'' \<notin> set hardRemoveFields"
  by (simp_all add: validationFields_def hardRemoveFields_def)

lemma selected_type_lower: "js_lower (selected_type items) = selected_type items"
proof -
  have "js_lower ''string'' = ''string''" by code_simp
  then show ?thesis by (simp add: selected_type_def split: option.split json.split)
qed

lemma lower_type_cases:
  obtains (same) "lower_type m = m" "case map_of m ''type'' of Some (JStr s) \<Rightarrow> s = [] | Some (JArr _) \<Rightarrow> False | _ \<Rightarrow> True"
  | (lowered) s where "lower_type m = AList.update ''type'' (JStr s) m" "js_lower s = s"
proof (cases "map_of m ''type''")
  case None
  then show thesis by (intro same) (simp_all add: lower_type_def)
next
  case (Some v)
  show thesis
  proof (cases v)
    case (JStr s)
    show thesis
    proof (cases "s = []")
      case True
      with Some JStr show thesis by (intro same) (simp_all add: lower_type_def)
    next
      case False
      with Some JStr show thesis by (intro lowered [of "js_lower s"]) (simp_all add: lower_type_def)
    qed
  next
    case (JArr xs)
    with Some show thesis
      by (intro lowered [of "selected_type xs"]) (simp_all add: lower_type_def selected_type_lower)
  qed (use Some in \<open>auto intro!: same simp: lower_type_def\<close>)
qed

lemma clean_object_map_of:
  assumes "k \<noteq> ''type''" "k \<noteq> ''items''" "k \<noteq> ''description''"
  shows "map_of (clean_object m) k =
    (if k \<in> set hardRemoveFields \<or> (k \<in> fst ` set validationFields \<and> (\<exists>v. map_of m k = Some v \<and> is_primitive v))
     then None else map_of m k)"
proof -
  have "map_of (default_items x) k = map_of x k" for x
    using assms by (simp add: default_items_def update_conv')
  moreover have "map_of (lower_type x) k = map_of x k" for x
    using assms by (auto simp: lower_type_def update_conv' split: option.split json.split)
  moreover have "map_of (add_hint c x) k = map_of x k" for c x
    using assms by (simp add: add_hint_def Let_def update_conv')
  ultimately show ?thesis by (simp only: clean_object_def Let_def map_of_deletes map_of_drops) auto
qed

lemma clean_object_clean: "clean_members (clean_object m)"
proof -
  define x where "x = fold AList.delete hardRemoveFields (add_hint (List.map_filter (constraint_of m) validationFields)
      (fold drop_constraint validationFields m))"
  have eq: "clean_object m = default_items (lower_type x)" by (simp add: clean_object_def Let_def x_def)
  have l: "case map_of (lower_type x) ''type'' of Some (JStr s) \<Rightarrow> js_lower s = s | Some (JArr _) \<Rightarrow> False | _ \<Rightarrow> True"
  proof (cases rule: lower_type_cases [of x])
    case same
    then show ?thesis by (auto split: option.splits json.splits)
  next
    case (lowered s)
    then show ?thesis by (simp add: update_conv')
  qed
  have t: "map_of (default_items y) ''type'' = map_of y ''type''" for y
    by (simp add: default_items_def update_conv')
  have i: "map_of (default_items y) ''type'' = Some (JStr ''array'') \<Longrightarrow> is_record (map_of (default_items y) ''items'')" for y
    by (auto simp: default_items_def update_conv' is_record_def split: if_splits)
  have v: "map_of (clean_object m) f = Some w \<Longrightarrow> f \<in> fst ` set validationFields \<Longrightarrow> \<not> is_primitive w" for f w
  proof -
    assume a: "map_of (clean_object m) f = Some w" and f: "f \<in> fst ` set validationFields"
    from f keys_apart have n: "f \<noteq> ''type''" "f \<noteq> ''items''" "f \<noteq> ''description''" by metis+
    show "\<not> is_primitive w" using a f by (simp add: clean_object_map_of [OF n] split: if_splits)
  qed
  have h: "f \<in> set hardRemoveFields \<Longrightarrow> map_of (clean_object m) f = None" for f
  proof -
    assume f: "f \<in> set hardRemoveFields"
    from f keys_apart have n: "f \<noteq> ''type''" "f \<noteq> ''items''" "f \<noteq> ''description''" by metis+
    show "map_of (clean_object m) f = None" using f by (simp add: clean_object_map_of [OF n])
  qed
  show ?thesis
    unfolding clean_members_alt
  proof (intro conjI ballI allI impI)
    show "case map_of (clean_object m) ''type'' of Some (JStr s) \<Rightarrow> js_lower s = s | Some (JArr _) \<Rightarrow> False | _ \<Rightarrow> True"
      using l by (simp add: eq t)
    show "is_record (map_of (clean_object m) ''items'')" if "map_of (clean_object m) ''type'' = Some (JStr ''array'')"
      using i [of "lower_type x"] that by (simp add: eq)
  qed (use v h in auto)
qed

lemma set_clean_object:
  "set (clean_object m) \<subseteq> set m \<union> {(k, v). (\<exists>s. v = JStr s) \<or> v = JObj [(''type'', JStr ''string'')]}"
proof -
  have a: "set (add_hint c x) \<subseteq> set x \<union> {(k, v). \<exists>s. v = JStr s}" for c x
  proof -
    have "\<exists>s. add_hint c x = x \<or> add_hint c x = AList.update ''description'' (JStr s) x"
      by (auto simp: add_hint_def Let_def)
    then obtain s where "add_hint c x = x \<or> add_hint c x = AList.update ''description'' (JStr s) x" by blast
    then show ?thesis using set_update [of "''description''" "JStr s" x] by auto
  qed
  have l: "set (lower_type x) \<subseteq> set x \<union> {(k, v). \<exists>s. v = JStr s}" for x
    by (cases rule: lower_type_cases [of x]) (use set_update [of "''type''" _ x] in fastforce)+
  have d: "set (default_items x) \<subseteq> insert (''items'', JObj [(''type'', JStr ''string'')]) (set x)" for x
    using set_update [of "''items''" _ x] by (auto simp: default_items_def)
  let ?x = "fold AList.delete hardRemoveFields (add_hint (List.map_filter (constraint_of m) validationFields)
      (fold drop_constraint validationFields m))"
  have "set ?x \<subseteq> set m \<union> {(k, v). \<exists>s. v = JStr s}"
    using subset_trans [OF set_deletes a] set_drops [of validationFields m] by blast
  then show ?thesis
    using d [of "lower_type ?x"] l [of ?x] by (fastforce simp: clean_object_def Let_def)
qed

lemma default_item_schema: "cleaned_schema (JObj [(''type'', JStr ''string'')])"
proof -
  have "clean_members [(''type'', JStr ''string'')]"
    by (simp add: clean_members_alt validationFields_def hardRemoveFields_def js_lower_def lower_char_def)
  then show ?thesis by simp
qed

lemma cleaning_yields_schema: "cleaned_schema (cleanJsonSchemaRecursive v)"
proof (induction v rule: cleanJsonSchemaRecursive.induct)
  case (1 xs)
  then show ?case by (auto simp: list_all_iff)
next
  case (2 m)
  have "cleaned_schema w" if "(k, w) \<in> set (clean_object (map (\<lambda>kv. (fst kv, cleanJsonSchemaRecursive (snd kv))) m))" for k w
    using subsetD [OF set_clean_object that] 2 default_item_schema by fastforce
  then show ?case using clean_object_clean by (auto simp: list_all_iff)
qed simp_all

lemma clean_object_id:
  assumes "clean_members m"
  shows "clean_object m = m"
proof -
  have prim: "map_of m f = Some v \<Longrightarrow> f \<in> fst ` set fls \<Longrightarrow> fls = validationFields \<Longrightarrow> \<not> is_primitive v" for f v fls
    using assms by (auto simp: clean_members_alt)
  have "constraint_of m fl = None" if "fl \<in> set validationFields" for fl
    using prim [of "fst fl"] that by (auto simp: constraint_of_def split: option.splits)
  then have c: "List.map_filter (constraint_of m) validationFields = []"
    by (simp add: List.map_filter_def filter_empty_conv)
  have "drop_constraint fl m = m" if "fl \<in> set validationFields" for fl
    using prim [of "fst fl"] that by (auto simp: drop_constraint_def split: option.splits)
  then have "fold drop_constraint fls m = m" if "set fls \<subseteq> set validationFields" for fls
    using that by (induction fls) auto
  then have d: "fold drop_constraint validationFields m = m" by simp
  have "AList.delete f m = m" if "f \<in> set hardRemoveFields" for f
    using assms that by (intro delete_id) (auto simp: clean_members_alt map_of_eq_None_iff)
  then have "fold AList.delete fs m = m" if "set fs \<subseteq> set hardRemoveFields" for fs
    using that by (induction fs) auto
  then have h: "fold AList.delete hardRemoveFields m = m" by simp
  have l: "lower_type m = m"
    using assms by (auto simp: clean_members_alt lower_type_def update_same split: option.splits json.splits)
  have i: "default_items m = m" using assms by (auto simp: clean_members_alt default_items_def)
  show ?thesis by (simp add: clean_object_def Let_def c d h l i add_hint_def)
qed

lemma cleaning_keeps_schema: "cleaned_schema v \<Longrightarrow> cleanJsonSchemaRecursive v = v"
proof (induction v rule: cleanJsonSchemaRecursive.induct)
  case (1 xs)
  then show ?case by (auto simp: list_all_iff intro: map_idI)
next
  case (2 m)
  have "map (\<lambda>kv. (fst kv, cleanJsonSchemaRecursive (snd kv))) m = m"
    using 2 by (intro map_idI) (auto simp: list_all_iff)
  with 2 clean_object_id show ?case by simp
qed simp_all


subsection \<open>What cleaning does to other values\<close>

text \<open>
  The arguments of earlier tool calls pass through the same cleaning. What is left of them, in words of its own: at
  every level the members whose name is no schema keyword are there in their order, with what is left of their
  values, and none is added; the rest is untouched. A value with no keyword to clean is sent as it is.
\<close>

definition altered_words :: "string list" where
  "altered_words = constraint_words @ unsupported_words @ [''type'', ''items'', ''description'']"

definition free_members :: "members \<Rightarrow> members" where
  "free_members = filter (\<lambda>kv. fst kv \<notin> set altered_words)"

fun survives :: "json \<Rightarrow> json \<Rightarrow> bool" where
  "survives (JArr xs) w = (\<exists>ys. w = JArr ys \<and> list_all2 survives xs ys)"
| "survives (JObj m) w = (\<exists>m'. w = JObj m' \<and>
     list_all2 (\<lambda>a b. fst b = fst a \<and> survives (snd a) (snd b)) (filter (\<lambda>kv. fst kv \<notin> set altered_words) m) (free_members m'))"
| "survives v w = (w = v)"

definition arguments_kept :: "json \<Rightarrow> json \<Rightarrow> bool" where
  "arguments_kept v w \<longleftrightarrow> survives v w \<and> (cleaned_schema v \<longrightarrow> w = v)"

lemma free_update: "k \<in> set altered_words \<Longrightarrow> free_members (AList.update k v m) = free_members m"
  by (induction m) (auto simp: free_members_def)

lemma free_delete: "k \<in> set altered_words \<Longrightarrow> free_members (AList.delete k m) = free_members m"
  by (induction m) (auto simp: free_members_def)

lemma altered_by_the_code:
  "fl \<in> set validationFields \<Longrightarrow> fst fl \<in> set altered_words" "k \<in> set hardRemoveFields \<Longrightarrow> k \<in> set altered_words"
  "''type'' \<in> set altered_words" "''items'' \<in> set altered_words" "''description'' \<in> set altered_words"
  using words_of_the_code by (auto simp: altered_words_def)

lemma free_fold:
  "(\<And>x y. x \<in> set xs \<Longrightarrow> free_members (f x y) = free_members y) \<Longrightarrow> free_members (fold f xs m) = free_members m"
  by (induction xs arbitrary: m) auto

lemma clean_object_free: "free_members (clean_object m) = free_members m"
proof -
  have "free_members (fold drop_constraint validationFields m) = free_members m"
    by (rule free_fold) (simp add: drop_constraint_def free_delete altered_by_the_code split: option.split)
  moreover have "free_members (fold AList.delete hardRemoveFields y) = free_members y" for y
    by (rule free_fold) (simp add: free_delete altered_by_the_code)
  moreover have "free_members (add_hint c y) = free_members y" for c y
    by (simp add: add_hint_def Let_def free_update altered_by_the_code)
  moreover have "free_members (lower_type y) = free_members y" for y
    by (simp add: lower_type_def free_update altered_by_the_code split: option.split json.split)
  moreover have "free_members (default_items y) = free_members y" for y
    by (simp add: default_items_def free_update altered_by_the_code)
  ultimately show ?thesis by (simp add: clean_object_def Let_def)
qed

lemma cleaning_survives: "survives v (cleanJsonSchemaRecursive v)"
proof (induction v rule: cleanJsonSchemaRecursive.induct)
  case (1 xs)
  then show ?case by (auto simp: list_all2_conv_all_nth)
next
  case (2 m)
  let ?f = "\<lambda>kv. (fst kv, cleanJsonSchemaRecursive (snd kv))"
  have "free_members (map ?f m) = map ?f (free_members m)"
    by (induction m) (auto simp: free_members_def)
  moreover have "list_all2 (\<lambda>a b. fst b = fst a \<and> survives (snd a) (snd b)) (free_members m) (map ?f (free_members m))"
    using 2 by (auto simp: list_all2_map2 free_members_def intro!: list.rel_refl_strong)
  ultimately show ?case by (simp add: clean_object_free) (simp add: free_members_def)
qed simp_all

lemma cleaning_keeps_arguments: "arguments_kept v (cleanJsonSchemaRecursive v)"
  using cleaning_survives cleaning_keeps_schema by (simp add: arguments_kept_def)


text \<open>What the update of a member does to a schema.\<close>

lemma schema_update:
  assumes "cleaned_schema (JObj m)" "cleaned_schema v" "clean_members (AList.update k v m)"
  shows "cleaned_schema (JObj (AList.update k v m))"
  using assms set_update [of k v m] by (auto simp: list_all_iff)

lemma clean_members_update:
  assumes "clean_members m" "k \<notin> fst ` set validationFields" "k \<notin> set hardRemoveFields" "k \<noteq> ''type''" "is_record (Some v)"
  shows "clean_members (AList.update k v m)"
  using assms by (auto simp: clean_members_alt update_conv' split: if_splits)

lemma clean_members_object: "clean_members m \<Longrightarrow> clean_members (AList.update ''type'' (JStr ''object'') m)"
proof -
  assume c: "clean_members m"
  have "js_lower ''object'' = ''object''" by code_simp
  moreover have "f \<noteq> ''type''" if "f \<in> fst ` set validationFields \<or> f \<in> set hardRemoveFields" for f
    using keys_apart that by metis
  ultimately show ?thesis
    using c by (simp add: clean_members_alt update_conv')
qed

lemma cleanJsonSchema_result: "cleanJsonSchema depth v = Some w \<Longrightarrow> \<exists>u. w = cleanJsonSchemaRecursive u"
  by (auto simp: cleanJsonSchema_def simp del: cleanJsonSchemaRecursive.simps split: json.splits prod.splits if_splits)

lemma normalized_schema:
  assumes "normalizeObjectJsonSchema depth schema = Some r"
  shows "\<exists>m t. r = JObj m \<and> cleaned_schema r \<and> map_of m ''type'' = Some (JStr t) \<and>
    (t = ''object'' \<longrightarrow> is_record (map_of m ''properties''))"
proof -
  have fallback: "clean_members [(''type'', JStr ''object''), (''properties'', JObj [])]" "clean_members []"
    by (simp_all add: clean_members_alt validationFields_def hardRemoveFields_def js_lower_def lower_char_def)
  show ?thesis
  proof (cases "\<exists>m. schema = Some (JObj m)")
    case False
    then have "r = JObj [(''type'', JStr ''object''), (''properties'', JObj [])]"
      using assms by (auto simp: normalizeObjectJsonSchema_def split: option.splits json.splits)
    then show ?thesis using fallback by (simp add: is_record_def)
  next
    case True
    then obtain m where m: "schema = Some (JObj m)" by blast
    with assms obtain m1 where c: "cleanJsonSchema depth (JObj m) = Some (JObj m1)"
      by (auto simp: normalizeObjectJsonSchema_def split: option.splits json.splits)
    define m2 where "m2 = (case map_of m1 ''type'' of Some (JStr _) \<Rightarrow> m1
                          | _ \<Rightarrow> AList.update ''type'' (JStr ''object'') m1)"
    define m3 where "m3 = (if map_of m2 ''type'' = Some (JStr ''object'') \<and> \<not> is_record (map_of m2 ''properties'')
                          then AList.update ''properties'' (JObj []) m2 else m2)"
    have r: "r = JObj m3" using assms c m
      by (simp only: normalizeObjectJsonSchema_def Let_def option.case json.case option.inject m2_def m3_def)
    have g1: "cleaned_schema (JObj m1)" using cleanJsonSchema_result [OF c] cleaning_yields_schema by metis
    have g2: "cleaned_schema (JObj m2)"
      using g1 schema_update [OF g1] clean_members_object [of m1]
      by (auto simp: m2_def split: option.split json.split)
    have t2: "\<exists>t. map_of m2 ''type'' = Some (JStr t)"
      by (auto simp: m2_def update_conv' split: option.split json.split)
    have g3: "cleaned_schema (JObj m3)"
      using g2 schema_update [OF g2, of "JObj []"] clean_members_update [of m2] keys_apart fallback
      by (simp add: m3_def is_record_def)
    have "\<exists>t. map_of m3 ''type'' = Some (JStr t) \<and> (t = ''object'' \<longrightarrow> is_record (map_of m3 ''properties''))"
      using t2 by (auto simp: m3_def update_conv' is_record_def)
    with r g3 show ?thesis by blast
  qed
qed

subsection \<open>Expanding references\<close>

text \<open>The references that resolve, at any depth of a value.\<close>

definition top_ref :: "members \<Rightarrow> members \<Rightarrow> string multiset" where
  "top_ref defs m =
     (case (resolve_ref defs m, map_of m ''$ref'') of
        (Some _, Some (JStr r)) \<Rightarrow> {#ref_name r#}
      | _ \<Rightarrow> {#})"

fun refs_of :: "members \<Rightarrow> json \<Rightarrow> string multiset" where
  "refs_of defs (JArr xs) = sum_list (map (refs_of defs) xs)"
| "refs_of defs (JObj m) = top_ref defs m + sum_list (map (\<lambda>kv. refs_of defs (snd kv)) m)"
| "refs_of defs v = {#}"

lemma top_ref_none: "resolve_ref defs m = None \<Longrightarrow> top_ref defs m = {#}"
  by (simp add: top_ref_def)

lemma resolve_refE:
  assumes "resolve_ref defs m = Some d"
  obtains r where "map_of m ''$ref'' = Some (JStr r)" "map_of defs (ref_name r) = Some d" "top_ref defs m = {#ref_name r#}"
  using assms by (auto simp: resolve_ref_def top_ref_def split: option.splits json.splits if_splits)

lemma top_ref_empty [simp]: "top_ref defs m = {#} \<longleftrightarrow> resolve_ref defs m = None"
proof (cases "resolve_ref defs m")
  case (Some d)
  from Some show ?thesis by (rule resolve_refE) (simp add: Some)
qed (simp add: top_ref_none)

lemma sum_list_empty [simp]: "sum_list (map f xs) = {#} \<longleftrightarrow> (\<forall>x\<in>set xs. f x = {#})"
  by (induction xs) auto

lemma all_some_rel: "all_some (map f xs) = Some ys \<longleftrightarrow> list_all2 (\<lambda>x y. f x = Some y) xs ys"
  by (induction xs arbitrary: ys) (auto simp: list_all2_Cons1 split: option.splits, (metis option.inject)+)

lemma map_members_Nil [simp]: "map_members f [] = Some []"
  by (simp add: map_members_def)

lemma map_members_Cons [simp]:
  "map_members f (kv # m) =
     (case f (snd kv) of None \<Rightarrow> None | Some w \<Rightarrow> map_option ((#) (fst kv, w)) (map_members f m))"
  by (auto simp: map_members_def split: option.splits)

lemma map_members_rel:
  "map_members f m = Some m' \<longleftrightarrow> list_all2 (\<lambda>a b. fst b = fst a \<and> f (snd a) = Some (snd b)) m m'"
  by (induction m arbitrary: m') (auto simp: list_all2_Cons1 split: option.splits)

lemma map_members_lookup:
  assumes "map_members f m = Some m'"
  shows "map_of m' k = Option.bind (map_of m k) f"
  using assms unfolding map_members_rel by (induction rule: list_all2_induct) auto

lemma list_all2_idI: "list_all2 P xs ys \<Longrightarrow> (\<And>x y. x \<in> set xs \<Longrightarrow> P x y \<Longrightarrow> y = x) \<Longrightarrow> ys = xs"
  by (induction rule: list_all2_induct) auto

text \<open>What \<open>flattenRefs\<close> returns when it returns has no reference left that a definition could replace.\<close>

lemma flatten_of_resolved:
  assumes "refs_of defs v = {#}" "flattenRefs n defs v = Some w"
  shows "w = v"
  using assms
proof (induction n arbitrary: v w)
  case 0
  then show ?case by (simp split: if_splits)
next
  case (Suc n)
  show ?case
  proof (cases v)
    case (JArr xs)
    with Suc.prems obtain ys where ys: "list_all2 (\<lambda>x y. flattenRefs n defs x = Some y) xs ys" "w = JArr ys"
      by (auto simp: all_some_rel)
    have "ys = xs" using ys(1) by (rule list_all2_idI) (use Suc JArr in auto)
    with ys JArr show ?thesis by simp
  next
    case (JObj m)
    with Suc.prems obtain m' where m': "map_members (flattenRefs n defs) m = Some m'" "w = JObj m'" by auto
    have "m' = m" using m'(1) unfolding map_members_rel
      by (rule list_all2_idI) (use Suc JObj in \<open>auto simp: prod_eq_iff\<close>)
    with m' JObj show ?thesis by simp
  qed (use Suc.prems in auto)
qed

lemma flatten_string: "flattenRefs n defs v = Some (JStr s) \<Longrightarrow> v = JStr s"
  by (cases n; cases v) (auto simp: Let_def split: if_splits option.splits json.splits)

lemma resolved_members:
  assumes "map_members (flattenRefs n defs) m = Some m'" "resolve_ref defs m = None"
    "\<And>v w. flattenRefs n defs v = Some w \<Longrightarrow> refs_of defs w = {#}"
  shows "refs_of defs (JObj m') = {#}"
proof -
  have "refs_of defs (snd kv) = {#}" if "kv \<in> set m'" for kv
    using assms(1) that assms(3) unfolding map_members_rel by (induction rule: list_all2_induct) auto
  moreover have "resolve_ref defs m' = None"
  proof (rule ccontr)
    assume "resolve_ref defs m' \<noteq> None"
    then obtain d where d: "resolve_ref defs m' = Some d" by blast
    then obtain r where r: "map_of m' ''$ref'' = Some (JStr r)" by (rule resolve_refE)
    then have "map_of m ''$ref'' = Some (JStr r)"
      unfolding map_members_lookup [OF assms(1)] by (auto simp: bind_eq_Some_conv dest: flatten_string)
    with r d assms(2) show False by (simp add: resolve_ref_def)
  qed
  ultimately show ?thesis by simp
qed

lemma flatten_resolves: "flattenRefs n defs v = Some w \<Longrightarrow> refs_of defs w = {#}"
proof (induction n arbitrary: v w)
  case 0
  then show ?case by (cases v) (auto simp: is_object_like_def)
next
  case (Suc n)
  show ?case
  proof (cases v)
    case (JArr xs)
    with Suc.prems obtain ys where ys: "list_all2 (\<lambda>x y. flattenRefs n defs x = Some y) xs ys" "w = JArr ys"
      by (auto simp: all_some_rel)
    have "refs_of defs y = {#}" if "y \<in> set ys" for y
      using ys(1) that Suc.IH by (induction rule: list_all2_induct) auto
    with ys JArr show ?thesis by simp
  next
    case (JObj m)
    show ?thesis
    proof (cases "resolve_ref defs m")
      case None
      with JObj Suc.prems obtain m' where "map_members (flattenRefs n defs) m = Some m'" "w = JObj m'" by auto
      with None Suc.IH resolved_members show ?thesis by blast
    next
      case (Some d)
      define m1 where "m1 = AList.delete ''$ref'' m"
      have no: "resolve_ref defs m1 = None" by (simp add: resolve_ref_def m1_def delete_conv')
      show ?thesis
      proof (cases "is_object_like d")
        case False
        with JObj Suc.prems Some obtain m' where "map_members (flattenRefs n defs) m1 = Some m'" "w = JObj m'"
          by (auto simp: Let_def m1_def)
        with no Suc.IH resolved_members show ?thesis by blast
      next
        case True
        with JObj Suc.prems Some obtain m2 m' where m2: "flattenRefs n defs (JObj (merge_definition d m1)) = Some (JObj m2)"
            and m': "map_members (flattenRefs n defs) m2 = Some m'" "w = JObj m'"
          by (auto simp: Let_def m1_def split: option.splits json.splits)
        from Suc.IH [OF m2] have "resolve_ref defs m2 = None" by simp
        with m' Suc.IH resolved_members show ?thesis by blast
      qed
    qed
  qed (use Suc.prems in auto)
qed

text \<open>No reference to a definition called \<open>k\<close> is left.\<close>

fun refers_to :: "string \<Rightarrow> json \<Rightarrow> bool" where
  "refers_to k (JArr xs) = list_ex (refers_to k) xs"
| "refers_to k (JObj m) =
     ((case map_of m ''$ref'' of Some (JStr r) \<Rightarrow> r = ''#/$defs/'' @ k \<or> r = ''#/definitions/'' @ k | _ \<Rightarrow> False) \<or>
      list_ex (\<lambda>kv. refers_to k (snd kv)) m)"
| "refers_to k v = False"

definition definitions_in :: "members \<Rightarrow> members" where
  "definitions_in m = concat (map (\<lambda>key. case map_of m key of Some v \<Rightarrow> if truthy v then entries_of v else [] | None \<Rightarrow> [])
     [''$defs'', ''definitions''])"

text \<open>The names a schema gives to objects only.\<close>

definition names_schema :: "members \<Rightarrow> string \<Rightarrow> bool" where
  "names_schema m k \<longleftrightarrow> k \<noteq> [] \<and> CHR ''/'' \<notin> set k \<and> k \<in> fst ` set (definitions_in m) \<and>
     (\<forall>d. (k, d) \<in> set (definitions_in m) \<longrightarrow> is_record (Some d))"

lemma named_refs:
  assumes "k \<noteq> []" "CHR ''/'' \<notin> set k"
  shows "ref_name (''#/$defs/'' @ k) = k" "ref_name (''#/definitions/'' @ k) = k"
proof -
  have "last (split_on (CHR ''/'') (p @ CHR ''/'' # k)) = k" if "CHR ''/'' \<notin> set p" for p
    using that assms split_on_snoc [of "CHR ''/''" p k] by simp
  from this [of "''$defs''"] this [of "''definitions''"] assms show "ref_name (''#/$defs/'' @ k) = k" "ref_name (''#/definitions/'' @ k) = k"
    using split_on_snoc [of "CHR ''/''" "''#''"] by (simp_all add: ref_name_def)
qed

lemma resolved_refers:
  assumes "map_of defs k = Some d" "truthy d" "k \<noteq> []" "CHR ''/'' \<notin> set k"
  shows "refs_of defs v = {#} \<Longrightarrow> \<not> refers_to k v"
proof (induction v)
  case (JObj m)
  have "resolve_ref defs m = None" using JObj.prems by simp
  then have "map_of m ''$ref'' \<noteq> Some (JStr r)" if "r = ''#/$defs/'' @ k \<or> r = ''#/definitions/'' @ k" for r
    using that named_refs [OF assms(3,4)] assms(1,2) by (auto simp: resolve_ref_def)
  moreover have "\<not> refers_to k (snd kv)" if "kv \<in> set m" for kv
    using JObj.IH [of kv "snd kv"] JObj.prems that by (cases kv) auto
  ultimately show ?case by (auto simp: list_ex_iff split: option.splits json.splits)
qed (auto simp: list_ex_iff)

lemma clean_string: "cleanJsonSchemaRecursive v = JStr s \<Longrightarrow> v = JStr s"
  by (cases v) simp_all

lemma map_of_map_snd: "map_of (map (\<lambda>kv. (fst kv, f (snd kv))) m) k = map_option f (map_of m k)"
  by (induction m) auto

lemma cleaning_adds_no_ref: "refers_to k (cleanJsonSchemaRecursive v) \<Longrightarrow> refers_to k v"
proof (induction v rule: cleanJsonSchemaRecursive.induct)
  case (1 xs)
  then show ?case by (auto simp: list_ex_iff)
next
  case (2 m)
  let ?m = "map (\<lambda>kv. (fst kv, cleanJsonSchemaRecursive (snd kv))) m"
  have ref: "map_of (clean_object ?m) ''$ref'' = map_option cleanJsonSchemaRecursive (map_of m ''$ref'')"
    by (simp add: clean_object_map_of hardRemoveFields_def validationFields_def map_of_map_snd)
  from 2(2) consider (top) r where "map_of (clean_object ?m) ''$ref'' = Some (JStr r)" "r = ''#/$defs/'' @ k \<or> r = ''#/definitions/'' @ k"
    | (below) kv where "kv \<in> set (clean_object ?m)" "refers_to k (snd kv)"
    by (auto simp: list_ex_iff split: option.splits json.splits)
  then show ?case
  proof cases
    case top
    then have "map_of m ''$ref'' = Some (JStr r)" unfolding ref by (auto dest: clean_string)
    with top(2) show ?thesis by auto
  next
    case below
    with set_clean_object [of ?m] have "kv \<in> set ?m" by (cases kv) auto
    with below(2) 2(1) obtain x where "x \<in> set m" "refers_to k (snd x)" by auto
    then have "list_ex (\<lambda>kv. refers_to k (snd kv)) m" by (auto simp: list_ex_iff)
    then show ?thesis by simp
  qed
qed simp_all

lemma taken_defs:
  "fst (take_defs ''definitions'' (take_defs ''$defs'' ([], m))) = fold (\<lambda>(k, x). AList.update k x) (definitions_in m) []"
  by (auto simp: take_defs_def definitions_in_def delete_conv' split: option.split)

lemma updates_lookup:
  "map_of (fold (\<lambda>(k, x). AList.update k x) es ds) k = Some x \<Longrightarrow> (k, x) \<in> set es \<or> map_of ds k = Some x"
  by (induction es arbitrary: ds) (fastforce simp: update_conv' split: if_splits)+

lemma updates_defined:
  "k \<in> fst ` set es \<or> map_of ds k \<noteq> None \<Longrightarrow> map_of (fold (\<lambda>(k, x). AList.update k x) es ds) k \<noteq> None"
  by (induction es arbitrary: ds) (auto simp: update_conv')

lemma named_definition:
  assumes "names_schema m k"
  shows "\<exists>d. map_of (fold (\<lambda>(k, x). AList.update k x) (definitions_in m) []) k = Some (JObj d)"
proof -
  from updates_defined [of k "definitions_in m" "[]"] assms
  obtain x where x: "map_of (fold (\<lambda>(k, x). AList.update k x) (definitions_in m) []) k = Some x" by (auto simp: names_schema_def)
  from updates_lookup [OF this] have "(k, x) \<in> set (definitions_in m)" by simp
  with assms have "is_record (Some x)" by (simp add: names_schema_def)
  with x show ?thesis by (cases x) (auto simp: is_record_def)
qed

lemma cleaned_has_no_ref:
  assumes "cleanJsonSchema depth (JObj m) = Some w" "names_schema m k"
  shows "\<not> refers_to k w"
proof -
  obtain defs m1 where t: "take_defs ''definitions'' (take_defs ''$defs'' ([], m)) = (defs, m1)" by fastforce
  have defs: "defs = fold (\<lambda>(k, x). AList.update k x) (definitions_in m) []" using taken_defs [of m] t by simp
  with named_definition [OF assms(2)] obtain d where d: "map_of defs k = Some (JObj d)" by auto
  then have "defs \<noteq> []" by auto
  with assms(1) t obtain u where u: "flattenRefs depth defs (JObj m1) = Some u" "w = cleanJsonSchemaRecursive u"
    by (auto simp: cleanJsonSchema_def simp del: cleanJsonSchemaRecursive.simps)
  from resolved_refers [OF d] assms(2) flatten_resolves [OF u(1)] have "\<not> refers_to k u" by (simp add: names_schema_def truthy_def)
  with cleaning_adds_no_ref u(2) show ?thesis by blast
qed

lemma update_adds_no_ref:
  "refers_to k (JObj (AList.update key v m)) \<Longrightarrow> key \<noteq> ''$ref'' \<Longrightarrow> \<not> refers_to k v \<Longrightarrow> refers_to k (JObj m)"
proof -
  assume r: "refers_to k (JObj (AList.update key v m))" and ne: "key \<noteq> ''$ref''" and v: "\<not> refers_to k v"
  have "map_of (AList.update key v m) ''$ref'' = map_of m ''$ref''" using ne by (simp add: update_conv')
  moreover have "list_ex (\<lambda>kv. refers_to k (snd kv)) (AList.update key v m) \<Longrightarrow> list_ex (\<lambda>kv. refers_to k (snd kv)) m"
    using v by (induction m) (auto split: if_splits)
  ultimately show "refers_to k (JObj m)" using r by (simp only: refers_to.simps) blast
qed

lemma normalized_has_no_ref:
  assumes "normalizeObjectJsonSchema depth (Some (JObj m)) = Some r" "names_schema m k"
  shows "\<not> refers_to k r"
proof -
  from assms(1) obtain m1 where c: "cleanJsonSchema depth (JObj m) = Some (JObj m1)"
    by (auto simp: normalizeObjectJsonSchema_def split: option.splits json.splits)
  define m2 where "m2 = (case map_of m1 ''type'' of Some (JStr _) \<Rightarrow> m1 | _ \<Rightarrow> AList.update ''type'' (JStr ''object'') m1)"
  define m3 where "m3 = (if map_of m2 ''type'' = Some (JStr ''object'') \<and> \<not> is_record (map_of m2 ''properties'')
      then AList.update ''properties'' (JObj []) m2 else m2)"
  have r: "r = JObj m3" using assms(1) c
    by (simp only: normalizeObjectJsonSchema_def Let_def option.case json.case option.inject m2_def m3_def)
  have "m2 = m1 \<or> m2 = AList.update ''type'' (JStr ''object'') m1" by (auto simp: m2_def split: option.split json.split)
  then have "refers_to k (JObj m2) \<Longrightarrow> refers_to k (JObj m1)"
    by (rule disjE) (auto dest: update_adds_no_ref simp del: refers_to.simps(2))
  moreover have "refers_to k r \<Longrightarrow> refers_to k (JObj m2)"
    by (cases "m3 = m2") (use update_adds_no_ref [of k "''properties''" "JObj []" m2] in
      \<open>simp_all add: r m3_def refers_to.simps(2) [of k "[]"] del: refers_to.simps(2) split: if_splits\<close>)
  ultimately show ?thesis using cleaned_has_no_ref [OF c assms(2)] by blast
qed

text \<open>C25: The schema of a tool's parameters is what the comment on its cleaning promises. \<open>normalizeObjectJsonSchema\<close>, when the
  stack suffices, returns an object whose type is a string, with a record of properties when that type is \<open>object\<close>, in which
  at every level no unsupported keyword is left, no constraint is left with a primitive value, a type is a lower-case
  string and an array has an item schema; and nowhere in it is a reference to a schema that the given one defines.\<close>

theorem normalized_schema_is_acceptable:
  assumes "normalizeObjectJsonSchema depth schema = Some r"
  shows "(\<exists>m t. r = JObj m \<and> cleaned_schema r \<and> map_of m ''type'' = Some (JStr t) \<and>
      (t = ''object'' \<longrightarrow> is_record (map_of m ''properties''))) \<and>
    (\<forall>sm k. schema = Some (JObj sm) \<and> names_schema sm k \<longrightarrow> \<not> refers_to k r)"
  using normalized_schema [OF assms] normalized_has_no_ref assms by blast

definition sample_schema :: members where
  "sample_schema = [(''type'', JArr [JStr ''Object'', JStr ''null'']), (''default'', JNull), (''$ref'', JStr ''#/$defs/A''),
     (''$defs'', JObj [(''A'', JObj [(''properties'', JObj [(''n'', JObj [(''type'', JStr ''Integer'')])])])])]"

lemma normalized_schema_is_acceptable_witness:
  "\<exists>r. normalizeObjectJsonSchema 9 (Some (JObj sample_schema)) = Some r \<and> cleaned_schema r \<and> \<not> refers_to ''A'' r \<and>
     r = JObj [(''type'', JStr ''object''), (''properties'', JObj [(''n'', JObj [(''type'', JStr ''integer'')])])]"
proof -
  let ?r = "JObj [(''type'', JStr ''object''), (''properties'', JObj [(''n'', JObj [(''type'', JStr ''integer'')])])]"
  have r: "normalizeObjectJsonSchema 9 (Some (JObj sample_schema)) = Some ?r" by code_simp
  have "names_schema sample_schema ''A''"
    by (auto simp: names_schema_def definitions_in_def sample_schema_def entries_of_def truthy_def is_record_def)
  with normalized_schema_is_acceptable [OF r] r show ?thesis by blast
qed

text \<open>More stack never changes a result.\<close>

lemma all_some_mono:
  "all_some (map f xs) = Some ys \<Longrightarrow> (\<And>x y. f x = Some y \<Longrightarrow> g x = Some y) \<Longrightarrow> all_some (map g xs) = Some ys"
  unfolding all_some_rel by (erule list_all2_mono)

lemma map_members_mono:
  "map_members f m = Some m' \<Longrightarrow> (\<And>x y. f x = Some y \<Longrightarrow> g x = Some y) \<Longrightarrow> map_members g m = Some m'"
  unfolding map_members_rel by (erule list_all2_mono) simp

lemma flatten_Suc: "flattenRefs n defs v = Some w \<Longrightarrow> flattenRefs (Suc n) defs v = Some w"
proof (induction n arbitrary: v w)
  case 0
  then show ?case by (cases v) (auto simp: is_object_like_def)
next
  case (Suc n)
  have mono: "all_some (map (flattenRefs n defs) xs) = Some ys \<Longrightarrow> all_some (map (flattenRefs (Suc n) defs) xs) = Some ys"
    "map_members (flattenRefs n defs) m = Some m' \<Longrightarrow> map_members (flattenRefs (Suc n) defs) m = Some m'" for xs ys m m'
    using all_some_mono [of "flattenRefs n defs"] map_members_mono [of "flattenRefs n defs"] Suc.IH by blast+
  show ?case
  proof (cases v)
    case (JArr xs)
    with Suc.prems obtain ys where "all_some (map (flattenRefs n defs) xs) = Some ys" "w = JArr ys" by auto
    with JArr mono(1) show ?thesis by (simp add: flattenRefs.simps(2) [of "Suc n"] del: flattenRefs.simps)
  next
    case (JObj m)
    let ?m1 = "AList.delete ''$ref'' m"
    have step: "flattenRefs (Suc (Suc n)) defs v =
        (case resolve_ref defs m of
           None \<Rightarrow> map_option JObj (map_members (flattenRefs (Suc n) defs) m)
         | Some d \<Rightarrow> if \<not> is_object_like d then map_option JObj (map_members (flattenRefs (Suc n) defs) ?m1)
                   else (case flattenRefs (Suc n) defs (JObj (merge_definition d ?m1)) of
                           Some (JObj m2) \<Rightarrow> map_option JObj (map_members (flattenRefs (Suc n) defs) m2)
                         | _ \<Rightarrow> None))"
      by (simp only: JObj flattenRefs.simps(2) [of "Suc n"] json.case Let_def)
    show ?thesis
    proof (cases "resolve_ref defs m")
      case None
      with JObj Suc.prems obtain m' where "map_members (flattenRefs n defs) m = Some m'" "w = JObj m'" by auto
      with None mono(2) [of m] show ?thesis unfolding step by (simp del: flattenRefs.simps)
    next
      case (Some d)
      show ?thesis
      proof (cases "is_object_like d")
        case False
        with JObj Suc.prems Some obtain m' where "map_members (flattenRefs n defs) ?m1 = Some m'" "w = JObj m'"
          by (auto simp: Let_def)
        with Some False mono(2) [of ?m1] show ?thesis unfolding step by (simp del: flattenRefs.simps)
      next
        case True
        with JObj Suc.prems Some obtain m2 m' where m2: "flattenRefs n defs (JObj (merge_definition d ?m1)) = Some (JObj m2)"
            and m': "map_members (flattenRefs n defs) m2 = Some m'" "w = JObj m'"
          by (auto simp: Let_def split: option.splits json.splits)
        from Some True Suc.IH [OF m2] m'(2) mono(2) [OF m'(1)] show ?thesis
          unfolding step by (simp del: flattenRefs.simps)
      qed
    qed
  qed (use Suc.prems in auto)
qed

lemma flatten_more: "n \<le> k \<Longrightarrow> flattenRefs n defs v = Some w \<Longrightarrow> flattenRefs k defs v = Some w"
  by (induction k rule: nat_induct_at_least) (simp, blast intro: flatten_Suc)

subsection \<open>Definitions without a cycle\<close>

definition flattens :: "members \<Rightarrow> json \<Rightarrow> bool" where
  "flattens defs v \<longleftrightarrow> (\<exists>depth w. flattenRefs depth defs v = Some w)"

lemma flattens_all: "(\<And>x. x \<in> set xs \<Longrightarrow> flattens defs x) \<Longrightarrow> \<exists>n ys. all_some (map (flattenRefs n defs) xs) = Some ys"
proof (induction xs)
  case (Cons x xs)
  then obtain n ys where "all_some (map (flattenRefs n defs) xs) = Some ys" by auto
  moreover from Cons.prems [of x] obtain k y where "flattenRefs k defs x = Some y" by (auto simp: flattens_def)
  ultimately have "all_some (map (flattenRefs (max n k) defs) xs) = Some ys" "flattenRefs (max n k) defs x = Some y"
    using all_some_mono [of "flattenRefs n defs" xs ys "flattenRefs (max n k) defs"] flatten_more [of n "max n k" defs]
      flatten_more [of k "max n k" defs] by auto
  then have "all_some (map (flattenRefs (max n k) defs) (x # xs)) = Some (y # ys)" by simp
  then show ?case by blast
qed simp

lemma flattens_members:
  assumes "\<And>kv. kv \<in> set m \<Longrightarrow> flattens defs (snd kv)"
  shows "\<exists>n m'. map_members (flattenRefs n defs) m = Some m'"
proof -
  have "\<exists>n ys. all_some (map (flattenRefs n defs) (map snd m)) = Some ys"
    by (rule flattens_all) (use assms in auto)
  then show ?thesis by (auto simp: map_members_def comp_def)
qed

lemma merged_lookup:
  "map_of (fold add_missing es m) k = (case map_of m k of Some v \<Rightarrow> Some v | None \<Rightarrow> map_of es k)"
  by (induction es arbitrary: m) (auto simp: add_missing_def split: option.splits)

lemma merged_refs:
  "sum_list (map (\<lambda>kv. refs_of defs (snd kv)) (fold add_missing es m)) \<subseteq>#
   sum_list (map (\<lambda>kv. refs_of defs (snd kv)) m) + sum_list (map (\<lambda>kv. refs_of defs (snd kv)) es)"
proof (induction es arbitrary: m)
  case (Cons e es)
  show ?case
    using Cons.IH [of "m @ [e]"] Cons.IH [of m]
    by (auto simp: add_missing_def ac_simps intro: subset_mset.order_trans)
qed simp

lemma entry_refs: "is_object_like d \<Longrightarrow> refs_of defs (JObj (entries_of d)) = refs_of defs d"
proof (cases d)
  case (JArr xs)
  have ne: "''$ref'' \<noteq> nat_str i" for i
  proof
    assume "''$ref'' = nat_str i"
    then have "CHR ''$'' \<in> set (nat_str i)" by (metis list.set_intros(1))
    then show False using nat_str_digits by (force simp: is_digit_def)
  qed
  have "map_of (map (\<lambda>(i, x). (nat_str i, x)) ixs) ''$ref'' = None" for ixs :: "(nat \<times> json) list"
    by (auto simp: map_of_eq_None_iff ne)
  then have "top_ref defs (entries_of d) = {#}"
    by (simp add: JArr entries_of_def resolve_ref_def)
  moreover have "sum_list (map (\<lambda>kv. refs_of defs (snd kv)) (map (\<lambda>(i, x). (nat_str i, x)) (enumerate k xs))) =
      sum_list (map (refs_of defs) xs)" for k
    by (induction xs arbitrary: k) auto
  ultimately show ?thesis by (simp add: JArr entries_of_def)
qed (auto simp: entries_of_def)

lemma merge_less:
  assumes "map_of defs (ref_name r) = Some d" "is_object_like d" "top_ref defs m = {#ref_name r#}"
    "\<And>q. q \<in># refs_of defs d \<Longrightarrow> rk q < rk (ref_name r)"
  shows "image_mset rk (refs_of defs (JObj (merge_definition d (AList.delete ''$ref'' m)))) <
         image_mset rk (refs_of defs (JObj m))"
proof -
  let ?m1 = "AList.delete ''$ref'' m" and ?sum = "\<lambda>m. sum_list (map (\<lambda>kv. refs_of defs (snd kv)) m)"
  let ?M = "merge_definition d ?m1"
  have "map_of ?M ''$ref'' = map_of (entries_of d) ''$ref''"
    by (simp add: merge_definition_def merged_lookup delete_conv')
  then have "top_ref defs ?M = top_ref defs (entries_of d)" by (simp add: top_ref_def resolve_ref_def)
  moreover have "?sum ?M \<subseteq># ?sum ?m1 + ?sum (entries_of d)"
    unfolding merge_definition_def by (rule merged_refs)
  ultimately have "refs_of defs (JObj ?M) \<subseteq># ?sum ?m1 + refs_of defs (JObj (entries_of d))"
    by (auto simp: ac_simps)
  then have sub: "refs_of defs (JObj ?M) \<subseteq># ?sum ?m1 + refs_of defs d"
    using entry_refs assms(2) by metis
  have del: "?sum ?m1 \<subseteq># ?sum m" by (induction m) (auto intro: subset_mset.order_trans)
  have "image_mset rk (refs_of defs (JObj ?M)) \<le> image_mset rk (?sum ?m1) + image_mset rk (refs_of defs d)"
    using sub by (metis image_mset_subseteq_mono image_mset_union subset_eq_imp_le_multiset)
  also have "\<dots> < image_mset rk (?sum ?m1) + {#rk (ref_name r)#}"
  proof -
    have "image_mset rk (refs_of defs d) < {#rk (ref_name r)#}"
      by (rule ex_gt_imp_less_multiset) (use assms(4) in auto)
    then show ?thesis by simp
  qed
  also have "\<dots> \<le> image_mset rk (?sum m) + {#rk (ref_name r)#}"
    using del by (simp add: image_mset_subseteq_mono subset_eq_imp_le_multiset)
  also have "\<dots> = image_mset rk (refs_of defs (JObj m))" by (simp add: assms(3))
  finally show ?thesis .
qed

lemma member_size: "kv \<in> set m \<Longrightarrow> size (snd kv) < size (JObj m)"
  by (induction m) auto

lemma element_size: "x \<in> set xs \<Longrightarrow> size x < size (JArr xs)"
  by (induction xs) auto

lemma sum_list_member: "x \<in> set xs \<Longrightarrow> f x \<subseteq># sum_list (map f xs)" for f :: "'a \<Rightarrow> 'b multiset"
  by (induction xs) (auto intro: subset_mset.order_trans)

text \<open>A rank of the definitions that falls along every reference: no definition reaches itself.\<close>

definition ranked :: "(string \<Rightarrow> nat) \<Rightarrow> members \<Rightarrow> bool" where
  "ranked rk defs \<longleftrightarrow> (\<forall>(name, d)\<in>set defs. \<forall>q\<in>#refs_of defs d. rk q < rk name)"

lemma flattens_objectI:
  assumes "resolve_ref defs m = Some d" "is_object_like d" "flattens defs (JObj (merge_definition d (AList.delete ''$ref'' m)))"
    "\<And>v. refs_of defs v = {#} \<Longrightarrow> flattens defs v"
  shows "flattens defs (JObj m)"
proof -
  let ?M = "JObj (merge_definition d (AList.delete ''$ref'' m))"
  from assms(3) obtain n w where n: "flattenRefs n defs ?M = Some w" by (auto simp: flattens_def)
  then obtain m2 where w: "w = JObj m2"
    by (cases n) (auto simp: Let_def split: option.splits json.splits if_splits)
  have "refs_of defs (JObj m2) = {#}" using flatten_resolves n w by blast
  then have "flattens defs (snd kv)" if "kv \<in> set m2" for kv using that assms(4) by simp
  then obtain k m' where k: "map_members (flattenRefs k defs) m2 = Some m'" using flattens_members [of m2 defs] by blast
  let ?l = "max n k"
  have "flattenRefs ?l defs ?M = Some (JObj m2)" using n w flatten_more [of n ?l] by simp
  moreover have "map_members (flattenRefs ?l defs) m2 = Some m'"
    by (rule map_members_mono [OF k]) (rule flatten_more [of k ?l], simp_all)
  ultimately have "flattenRefs (Suc ?l) defs (JObj m) = Some (JObj m')" using assms(1,2) by simp
  then show ?thesis unfolding flattens_def by blast
qed

lemma flattens_plain_object:
  assumes "\<And>kv. kv \<in> set m \<Longrightarrow> flattens defs (snd kv)"
    "resolve_ref defs m = None \<or> (\<exists>d. resolve_ref defs m = Some d \<and> \<not> is_object_like d)"
  shows "flattens defs (JObj m)"
proof -
  have sub: "\<exists>n m''. map_members (flattenRefs n defs) m' = Some m''" if "set m' \<subseteq> set m" for m'
    using that assms(1) by (intro flattens_members) auto
  show ?thesis
  proof (cases "resolve_ref defs m")
    case None
    from sub [of m] obtain n m' where "map_members (flattenRefs n defs) m = Some m'" by blast
    with None have "flattenRefs (Suc n) defs (JObj m) = Some (JObj m')" by simp
    then show ?thesis unfolding flattens_def by blast
  next
    case (Some d)
    from sub [OF set_delete] obtain n m' where "map_members (flattenRefs n defs) (AList.delete ''$ref'' m) = Some m'" by blast
    with Some assms(2) have "flattenRefs (Suc n) defs (JObj m) = Some (JObj m')" by simp
    then show ?thesis unfolding flattens_def by blast
  qed
qed

lemma ranked_flattens_below:
  assumes "ranked rk defs" "\<And>v. image_mset rk (refs_of defs v) < N \<Longrightarrow> flattens defs v"
  shows "image_mset rk (refs_of defs v) \<le> N \<Longrightarrow> flattens defs v"
proof (induction "size v" arbitrary: v rule: less_induct)
  case less
  have child: "flattens defs x" if "size x < size v" "refs_of defs x \<subseteq># refs_of defs v" for x
    using less.hyps [OF that(1)] order_trans [OF subset_eq_imp_le_multiset [OF image_mset_subseteq_mono [OF that(2)]] less.prems]
    by blast
  show ?case
  proof (cases v)
    case (JArr xs)
    then have "flattens defs x" if "x \<in> set xs" for x
      using that element_size [of x xs] sum_list_member [of x xs "refs_of defs"] by (intro child) auto
    then obtain n ys where "all_some (map (flattenRefs n defs) xs) = Some ys" using flattens_all [of xs defs] by blast
    then have "flattenRefs (Suc n) defs v = Some (JArr ys)" by (simp add: JArr)
    then show ?thesis unfolding flattens_def by blast
  next
    case (JObj m)
    have members: "flattens defs (snd kv)" if "kv \<in> set m" for kv
    proof (rule child)
      show "size (snd kv) < size v" using member_size [OF that] JObj by simp
      show "refs_of defs (snd kv) \<subseteq># refs_of defs v"
        using sum_list_member [OF that, of "\<lambda>kv. refs_of defs (snd kv)"] JObj by (auto intro: subset_mset.order_trans)
    qed
    show ?thesis
    proof (cases "\<exists>d. resolve_ref defs m = Some d \<and> is_object_like d")
      case False
      then show ?thesis using flattens_plain_object [OF members] JObj by (cases "resolve_ref defs m") auto
    next
      case True
      then obtain d where d: "resolve_ref defs m = Some d" "is_object_like d" by blast
      then obtain r where r: "map_of defs (ref_name r) = Some d" "top_ref defs m = {#ref_name r#}" by (auto elim: resolve_refE)
      have rank: "rk q < rk (ref_name r)" if "q \<in># refs_of defs d" for q
        using assms(1) map_of_SomeD [OF r(1)] that by (auto simp: ranked_def)
      have "flattens defs (JObj (merge_definition d (AList.delete ''$ref'' m)))"
        using merge_less [of defs r d m rk] r d(2) rank less.prems JObj by (intro assms(2)) auto
      moreover have "flattens defs x" if "refs_of defs x = {#}" for x
      proof (rule assms(2))
        have "image_mset rk (refs_of defs x) < image_mset rk (refs_of defs v)" using that JObj r(2) by simp
        then show "image_mset rk (refs_of defs x) < N" using less.prems by simp
      qed
      ultimately show ?thesis using flattens_objectI [OF d] JObj by blast
    qed
  qed (auto simp: flattens_def intro!: exI [of _ 0])
qed

text \<open>Expanding references ends and is complete when the definitions are not recursive: if some rank of the
  definitions falls along every reference inside them, then for every schema a finite stack is enough for
  \<open>flattenRefs\<close>, and no reference that a definition could replace is left in its result.\<close>

theorem acyclic_references_are_expanded:
  assumes "ranked rk defs"
  shows "\<exists>depth w. (\<forall>k\<ge>depth. flattenRefs k defs v = Some w) \<and> refs_of defs w = {#}"
proof -
  have "flattens defs u" if "image_mset rk (refs_of defs u) = N" for N u
    using that
  proof (induction N arbitrary: u rule: less_induct)
    case (less N)
    then show ?case using ranked_flattens_below [OF assms, of N u] by blast
  qed
  then have "flattens defs v" by blast
  then obtain n w where "flattenRefs n defs v = Some w" by (auto simp: flattens_def)
  then show ?thesis using flatten_more flatten_resolves by blast
qed

lemma acyclic_references_are_expanded_witness:
  "\<exists>depth w. (\<forall>k\<ge>depth. flattenRefs k
     [(''Node'', JObj [(''items'', JObj [(''$ref'', JStr ''#/$defs/Leaf'')])]), (''Leaf'', JObj [(''type'', JStr ''string'')])]
     (JObj [(''$ref'', JStr ''#/$defs/Node'')]) = Some w) \<and>
   refs_of [(''Node'', JObj [(''items'', JObj [(''$ref'', JStr ''#/$defs/Leaf'')])]), (''Leaf'', JObj [(''type'', JStr ''string'')])]
     w = {#}"
proof -
  have "ranked (\<lambda>n. if n = ''Node'' then 1 else 0)
     [(''Node'', JObj [(''items'', JObj [(''$ref'', JStr ''#/$defs/Leaf'')])]), (''Leaf'', JObj [(''type'', JStr ''string'')])]"
    by (simp add: ranked_def top_ref_def resolve_ref_def ref_name_def)
  then show ?thesis by (rule acyclic_references_are_expanded)
qed

subsection \<open>Recursive definitions\<close>

text \<open>A value that sits inside another, under objects that \<open>flattenRefs\<close> does not replace.\<close>

inductive inside :: "members \<Rightarrow> json \<Rightarrow> json \<Rightarrow> bool" for defs x where
  here: "inside defs x x"
| in_array: "\<lbrakk>v \<in> set xs; inside defs x v\<rbrakk> \<Longrightarrow> inside defs x (JArr xs)"
| in_object: "\<lbrakk>resolve_ref defs m = None; (k, v) \<in> set m; inside defs x v\<rbrakk> \<Longrightarrow> inside defs x (JObj m)"

lemma flattens_inside:
  assumes "inside defs x v" "flattenRefs n defs v = Some w"
  shows "\<exists>k\<le>n. \<exists>y. flattenRefs k defs x = Some y"
  using assms
proof (induction arbitrary: n w)
  case (in_array v xs)
  then obtain i where i: "n = Suc i" by (cases n) auto
  with in_array obtain ys where "all_some (map (flattenRefs i defs) xs) = Some ys" by auto
  with in_array.hyps(1) obtain y where "flattenRefs i defs v = Some y"
    by (fastforce simp: all_some_rel list_all2_conv_all_nth in_set_conv_nth)
  with in_array.IH i show ?case by (meson le_SucI)
next
  case (in_object m p v)
  then obtain i where i: "n = Suc i" by (cases n) auto
  with in_object obtain m' where "map_members (flattenRefs i defs) m = Some m'" by auto
  with in_object.hyps(2) obtain y where "flattenRefs i defs v = Some y"
    by (fastforce simp: map_members_rel list_all2_conv_all_nth in_set_conv_nth)
  with in_object.IH i show ?case by (meson le_SucI)
qed blast

lemma merge_into_empty: "distinct (map fst es) \<Longrightarrow> fold add_missing es [] = es"
proof -
  have "distinct (map fst (m @ es)) \<Longrightarrow> fold add_missing es m = m @ es" for m
  proof (induction es arbitrary: m)
    case (Cons e es)
    then have "map_of m (fst e) = None" by (auto simp: map_of_eq_None_iff)
    with Cons.IH [of "m @ [e]"] Cons.prems show ?case by (simp add: add_missing_def)
  qed simp
  from this [of "[]"] show "distinct (map fst es) \<Longrightarrow> fold add_missing es [] = es" by simp
qed

text \<open>A recursive definition exhausts the stack: when a definition contains a reference to itself, no depth of
  calls is enough for \<open>flattenRefs\<close> on any schema that refers to it.\<close>

theorem recursive_schema_overflows:
  assumes "map_of defs (ref_name r) = Some (JObj md)" "distinct (map fst md)"
    "inside defs (JObj [(''$ref'', JStr r)]) (JObj md)" "inside defs (JObj [(''$ref'', JStr r)]) v"
  shows "flattenRefs depth defs v = None"
proof -
  let ?x = "JObj [(''$ref'', JStr r)]"
  have no: "flattenRefs n defs ?x = None" for n
  proof (induction n rule: less_induct)
    case (less n)
    show ?case
    proof (rule ccontr)
      assume "flattenRefs n defs ?x \<noteq> None"
      then obtain i w where i: "n = Suc i" "flattenRefs n defs ?x = Some w" by (cases n) auto
      have "resolve_ref defs [(''$ref'', JStr r)] = Some (JObj md)" by (simp add: resolve_ref_def assms(1))
      with i obtain u where "flattenRefs i defs (JObj md) = Some u"
        by (auto simp: merge_definition_def entries_of_def merge_into_empty [OF assms(2)] split: option.splits)
      from flattens_inside [OF assms(3) this] obtain k y where "k \<le> i" "flattenRefs k defs ?x = Some y" by blast
      with less.IH [of k] i(1) show False by simp
    qed
  qed
  show ?thesis
  proof (rule ccontr)
    assume "flattenRefs depth defs v \<noteq> None"
    then obtain w where "flattenRefs depth defs v = Some w" by blast
    from flattens_inside [OF assms(4) this] no show False by simp
  qed
qed

lemma recursive_schema_overflows_witness:
  "flattenRefs 10000 [(''Node'', JObj [(''child'', JObj [(''$ref'', JStr ''#/$defs/Node'')])])]
     (JObj [(''root'', JObj [(''$ref'', JStr ''#/$defs/Node'')])]) = None"
proof (rule recursive_schema_overflows)
  let ?md = "[(''child'', JObj [(''$ref'', JStr ''#/$defs/Node'')])]"
  let ?defs = "[(''Node'', JObj ?md)]"
  show "map_of ?defs (ref_name ''#/$defs/Node'') = Some (JObj ?md)" by (simp add: ref_name_def)
  show "distinct (map fst ?md)" by simp
  show "inside ?defs (JObj [(''$ref'', JStr ''#/$defs/Node'')]) (JObj ?md)"
    by (rule in_object [of _ _ "''child''"]) (auto simp: resolve_ref_def intro: here)
  show "inside ?defs (JObj [(''$ref'', JStr ''#/$defs/Node'')]) (JObj [(''root'', JObj [(''$ref'', JStr ''#/$defs/Node'')])])"
    by (rule in_object [of _ _ "''root''"]) (auto simp: resolve_ref_def intro: here)
qed

text \<open>
  The removal of keywords does not tell a keyword from a parameter: a tool parameter named like one of them is
  dropped from \<open>properties\<close>, while \<open>required\<close> still lists it.
\<close>

lemma parameter_named_like_a_keyword_is_lost:
  "cleanJsonSchemaRecursive
     (JObj [(''properties'', JObj [(''default'', JObj [(''type'', JStr ''string'')])]), (''required'', JArr [JStr ''default''])]) =
   JObj [(''properties'', JObj []), (''required'', JArr [JStr ''default''])]"
  by code_simp

end
