(* ===== verification/ClaudeRequest.thy ===== *)
theory ClaudeRequest
  imports Generation GeminiParts JsonSchema
begin

section \<open>From a Claude request to a Gemini request\<close>

text \<open>
  \<open>antigravity/ClaudeRequestMapper.ts\<close> on the request types of \<open>antigravity/types.ts\<close>. Absent members are None,
  numbers are exact, a tool has the four members that \<open>toClaudeRequest\<close> and \<open>convertOpenAIToolsToAnthropicTools\<close>
  give it. The stored thought signature, the stack depth for schemas, the fresh request id and the default user agent
  are arguments; None as a result is the overflow of the stack by a recursive tool schema.
\<close>

subsection \<open>Requests\<close>

datatype 'b content = Plain string | Blocks "'b list"

datatype claude_part =
    TextPart string
  | ThinkingPart string "string option"
  | ImagePart string string string
  | ToolUsePart string string json "string option"
  | ToolResultPart string "claude_part content" bool
  | RedactedThinkingPart string
  | UnknownPart

record message =
  m_role :: string
  m_content :: "claude_part content"

record tool =
  t_name :: "string option"
  t_description :: "string option"
  t_input_schema :: "json option"
  t_type :: "string option"

record thinking_request =
  th_type :: string
  th_budget_tokens :: "rat option"
  th_effort :: "string option"

record claude_request =
  rq_model :: string
  rq_messages :: "message list"
  rq_system :: "(string \<times> string) content option"
  rq_tools :: "tool list option"
  rq_max_tokens :: "rat option"
  rq_stop_sequences :: "string list option"
  rq_temperature :: "rat option"
  rq_top_p :: "rat option"
  rq_top_k :: "rat option"
  rq_thinking :: "thinking_request option"
  rq_source :: "string option"

record function_response =
  fr_name :: string
  fr_result :: string
  fr_id :: string

record request_part = gemini_part +
  rp_functionResponse :: "function_response option"

record gemini_content =
  gc_role :: string
  gc_parts :: "request_part list"

record function_declaration =
  fd_name :: string
  fd_description :: "string option"
  fd_parameters :: json

datatype gemini_tool = FunctionDeclarations "function_declaration list" | GoogleSearch

record gemini_request =
  gr_contents :: "gemini_content list"
  gr_safetySettings :: "(string \<times> string) list"
  gr_systemInstruction :: "string list option"
  gr_generationConfig :: "generation_config option"
  gr_tools :: "gemini_tool list option"
  gr_toolConfig :: "string option"

record gemini_internal_request =
  gi_project :: "string option"
  gi_requestId :: string
  gi_request :: gemini_request
  gi_model :: string
  gi_userAgent :: string
  gi_requestType :: string
  gi_enabledCreditTypes :: "string list option"

subsection \<open>System instruction\<close>

definition assistantIdentityDirective :: string where
  "assistantIdentityDirective =
     ''You are Antigravity, a powerful agentic AI coding assistant designed by the Google Deepmind team working on Advanced Agentic Coding.'' @ newline @
     ''You are pair programming with a USER to solve their coding task. The task may require creating a new codebase, modifying or debugging an existing codebase, or simply answering a question.'' @ newline @
     ''**Absolute paths only**'' @ newline @ ''**Proactiveness**''"

definition identityMarker :: string where "identityMarker = ''You are Antigravity''"

definition exactOrPrefixMarkers :: "string list" where
  "exactOrPrefixMarkers = [''<system-reminder>'', ''x-anthropic-billing-header:'', ''# harness'', ''# memory'',
     ''# context management'', ''# vscode extension context'', ''# environment'', ''# session-specific guidance'']"

definition containsMarkers :: "string list" where
  "containsMarkers = [''you are claude code'', ''anthropic'' @ [CHR 0x27] @ ''s official cli'', ''claude agent sdk'',
     ''the following skills are available'', ''when using the agent tool'', ''user-invocable skills'',
     ''you have a persistent file-based memory'', ''code references in text'', ''github-flavored markdown in a terminal'']"

definition isDownstreamHarnessText :: "string \<Rightarrow> bool" where
  "isDownstreamHarnessText t =
     (let normalized = js_trim t; lower = js_lower normalized
      in normalized = [] \<or> list_ex (\<lambda>marker. starts_with lower marker) exactOrPrefixMarkers \<or>
         list_ex (\<lambda>marker. str_contains lower marker) containsMarkers)"

text \<open>A text that is forwarded: trimmed, and neither empty nor the harness's own.\<close>

definition forwarded_text :: "string \<Rightarrow> string option" where
  "forwarded_text t = (let s = js_trim t in if s \<noteq> [] \<and> \<not> isDownstreamHarnessText s then Some s else None)"

definition system_texts :: "(string \<times> string) content option \<Rightarrow> string list" where
  "system_texts system =
     (case system of
        None \<Rightarrow> []
      | Some (Plain s) \<Rightarrow> if s = [] then [] else [s]
      | Some (Blocks bs) \<Rightarrow> map snd (filter (\<lambda>(ty, _). ty = ''text'') bs))"

definition buildSystemInstruction :: "(string \<times> string) content option \<Rightarrow> string list option" where
  "buildSystemInstruction system =
     (let hasIdentityDirective = list_ex (\<lambda>t. str_contains t identityMarker) (system_texts system);
          parts = (if hasIdentityDirective then [] else [assistantIdentityDirective]) @
            List.map_filter forwarded_text (system_texts system)
      in if parts \<noteq> [] then Some parts else None)"

definition content_blocks :: "claude_part content \<Rightarrow> claude_part list" where
  "content_blocks c = (case c of Blocks bs \<Rightarrow> bs | Plain s \<Rightarrow> if s = [] then [] else [TextPart s])"

definition system_block_text :: "claude_part \<Rightarrow> string option" where
  "system_block_text b = (case b of TextPart t \<Rightarrow> if t = [] then None else forwarded_text t | _ \<Rightarrow> None)"

definition collectSystemMessageParts :: "message list \<Rightarrow> string list" where
  "collectSystemMessageParts messages =
     concat (map (\<lambda>m. if m_role m \<noteq> ''system'' then [] else List.map_filter system_block_text (content_blocks (m_content m)))
       messages)"

definition mergeSystemInstructionParts :: "string list option \<Rightarrow> string list \<Rightarrow> string list option" where
  "mergeSystemInstructionParts systemInstruction extraParts =
     (if extraParts = [] then systemInstruction
      else case systemInstruction of None \<Rightarrow> Some extraParts | Some parts \<Rightarrow> Some (parts @ extraParts))"

subsection \<open>Thought signatures\<close>

definition url_to_base64 :: "char \<Rightarrow> char" where
  "url_to_base64 c = (if c = CHR ''-'' then CHR ''+'' else if c = CHR ''_'' then CHR ''/'' else c)"

definition is_base64_char :: "char \<Rightarrow> bool" where
  "is_base64_char c \<longleftrightarrow> b64_val (of_char c) \<noteq> None \<and> c \<noteq> CHR ''-'' \<and> c \<noteq> CHR ''_''"

definition is_base64_text :: "string \<Rightarrow> bool" where
  "is_base64_text s =
     (let body = takeWhile (\<lambda>c. c \<noteq> CHR ''='') s; pad = dropWhile (\<lambda>c. c \<noteq> CHR ''='') s
      in body \<noteq> [] \<and> list_all is_base64_char body \<and> length pad \<le> 2 \<and> list_all (\<lambda>c. c = CHR ''='') pad)"

definition pad_base64 :: "string \<Rightarrow> string" where
  "pad_base64 s = s @ replicate ((4 - length s mod 4) mod 4) (CHR ''='')"

definition strip_padding :: "string \<Rightarrow> string" where
  "strip_padding s = rev (dropWhile (\<lambda>c. c = CHR ''='') (rev s))"

definition normalizeExistingBase64 :: "string \<Rightarrow> string option" where
  "normalizeExistingBase64 s =
     (let normalized = map url_to_base64 s
      in if \<not> is_base64_text normalized then None
         else (let padded = pad_base64 normalized; decoded = b64_decode (codes padded)
               in if decoded = [] then None
                  else (let canonical = map char_of (b64_encode decoded)
                        in if strip_padding canonical = strip_padding padded then Some canonical else None)))"

definition normalizeThoughtSignatureForGemini :: "string option \<Rightarrow> string option" where
  "normalizeThoughtSignatureForGemini signature =
     (case signature of
        None \<Rightarrow> None
      | Some s \<Rightarrow> (let trimmed = js_trim s in if length trimmed < MIN_SIGNATURE_LENGTH then None else normalizeExistingBase64 trimmed))"

definition valid_thinking :: "claude_part \<Rightarrow> bool" where
  "valid_thinking b = (case b of ThinkingPart _ sig \<Rightarrow> normalizeThoughtSignatureForGemini sig \<noteq> None | _ \<Rightarrow> False)"

definition block_list :: "message \<Rightarrow> claude_part list" where
  "block_list m = (case m_content m of Blocks bs \<Rightarrow> bs | Plain _ \<Rightarrow> [])"

definition hasValidSignatureForFunctionCalls :: "message list \<Rightarrow> string option \<Rightarrow> bool" where
  "hasValidSignatureForFunctionCalls messages globalSig \<longleftrightarrow>
     normalizeThoughtSignatureForGemini globalSig \<noteq> None \<or>
     list_ex (\<lambda>m. m_role m = ''assistant'' \<and> list_ex valid_thinking (block_list m)) messages"

definition has_function_calls :: "message list \<Rightarrow> bool" where
  "has_function_calls messages \<longleftrightarrow>
     list_ex (\<lambda>m. list_ex (\<lambda>b. case b of ToolUsePart _ _ _ _ \<Rightarrow> True | _ \<Rightarrow> False) (block_list m)) messages"

subsection \<open>Contents\<close>

definition text_part :: "string \<Rightarrow> request_part" where
  "text_part t = \<lparr>gp_text = Some t, gp_thought = False, gp_thoughtSignature = None, gp_functionCall = None,
     gp_inlineData = None, rp_functionResponse = None\<rparr>"

definition thought_part :: "string \<Rightarrow> string option \<Rightarrow> request_part" where
  "thought_part t signature = (text_part t)\<lparr>gp_thought := True, gp_thoughtSignature := signature\<rparr>"

definition image_part :: "string \<Rightarrow> string \<Rightarrow> request_part" where
  "image_part mimeType data = (text_part [])\<lparr>gp_text := None, gp_inlineData := Some (mimeType, data)\<rparr>"

text \<open>\<open>cleanJsonSchema\<close> is applied to the whole part, so to the arguments of the call as well (\<open>cleaned_call\<close> below).\<close>

definition call_part :: "string \<Rightarrow> string \<Rightarrow> json \<Rightarrow> string option \<Rightarrow> request_part" where
  "call_part callId toolName input signature =
     (text_part [])\<lparr>gp_text := None, gp_thoughtSignature := signature,
       gp_functionCall := Some \<lparr>fc_name = toolName, fc_args = Some (cleanJsonSchemaRecursive input), fc_id = Some callId\<rparr>\<rparr>"

definition result_part :: "string \<Rightarrow> string \<Rightarrow> string \<Rightarrow> string option \<Rightarrow> request_part" where
  "result_part callId funcName mergedContent signature =
     (text_part [])\<lparr>gp_text := None, gp_thoughtSignature := signature,
       rp_functionResponse := Some \<lparr>fr_name = funcName, fr_result = mergedContent, fr_id = callId\<rparr>\<rparr>"

definition merged_content :: "claude_part content \<Rightarrow> bool \<Rightarrow> string" where
  "merged_content content is_error =
     (let mergedContent = (case content of
            Plain s \<Rightarrow> s
          | Blocks bs \<Rightarrow> join newline (List.map_filter (\<lambda>b. case b of TextPart t \<Rightarrow> Some t | _ \<Rightarrow> None) bs))
      in if js_trim mergedContent = []
         then (if is_error then ''Tool execution failed with no output.'' else ''Command executed successfully.'')
         else mergedContent)"

definition first_truthy :: "string option list \<Rightarrow> string option" where
  "first_truthy xs = Option.bind (List.find str_truthy xs) (\<lambda>x. x)"

record contents_state =
  toolIdToName :: "string js_map"
  lastThoughtSignature :: "string option"

text \<open>The part one block becomes, if any.\<close>

definition block_part ::
    "string option \<Rightarrow> bool \<Rightarrow> claude_part \<Rightarrow> contents_state \<Rightarrow> request_part option \<times> contents_state" where
  "block_part globalSig isThinkingEnabled block st =
     (case block of
        TextPart t \<Rightarrow>
          (if t \<noteq> [] \<and> t \<noteq> ''(no content)'' \<and> js_trim t \<noteq> []
           then (map_option text_part (forwarded_text t), st) else (None, st))
      | ThinkingPart thinking signature \<Rightarrow>
          (let sig = normalizeThoughtSignatureForGemini signature
           in if \<not> str_truthy sig \<and> \<not> isThinkingEnabled then (None, st)
              else if str_truthy sig then (Some (thought_part thinking sig), st\<lparr>lastThoughtSignature := sig\<rparr>)
              else (Some (thought_part thinking None), st))
      | ImagePart source_type media_type data \<Rightarrow>
          (if source_type = ''base64'' then Some (image_part media_type data) else None, st)
      | ToolUsePart callId toolName input signature \<Rightarrow>
          (let finalSig = first_truthy [normalizeThoughtSignatureForGemini signature, lastThoughtSignature st,
                 normalizeThoughtSignatureForGemini globalSig]
           in (Some (call_part callId toolName input finalSig),
               st\<lparr>toolIdToName := AList.update callId toolName (toolIdToName st)\<rparr>))
      | ToolResultPart callId content is_error \<Rightarrow>
          (let funcName = (case truthy_lookup (toolIdToName st) callId of Some n \<Rightarrow> n | None \<Rightarrow> callId)
           in (Some (result_part callId funcName (merged_content content is_error)
                 (if str_truthy (lastThoughtSignature st) then lastThoughtSignature st else None)), st))
      | RedactedThinkingPart data \<Rightarrow> (Some (thought_part (''[Redacted Thinking: '' @ data @ '']'') None), st)
      | UnknownPart \<Rightarrow> (None, st))"

fun block_parts ::
    "string option \<Rightarrow> bool \<Rightarrow> claude_part list \<Rightarrow> contents_state \<Rightarrow> request_part list \<times> contents_state" where
  "block_parts globalSig thinking [] st = ([], st)"
| "block_parts globalSig thinking (b # bs) st =
     (case block_part globalSig thinking b st of
        (p, st1) \<Rightarrow> (case block_parts globalSig thinking bs st1 of
          (ps, st2) \<Rightarrow> ((case p of None \<Rightarrow> ps | Some q \<Rightarrow> q # ps), st2)))"

definition add_dummy_thought :: "bool \<Rightarrow> request_part list \<Rightarrow> request_part list" where
  "add_dummy_thought wanted parts =
     (if wanted \<and> \<not> list_ex gp_thought parts then thought_part ''Thinking...'' None # parts else parts)"

fun buildContents ::
    "string option \<Rightarrow> message list \<Rightarrow> contents_state \<Rightarrow> bool \<Rightarrow> bool \<Rightarrow> gemini_content list" where
  "buildContents globalSig [] st isThinkingEnabled allowDummyThought = []"
| "buildContents globalSig (msg # messages) st isThinkingEnabled allowDummyThought =
     (if m_role msg = ''system'' then buildContents globalSig messages st isThinkingEnabled allowDummyThought
      else (let role = (if m_role msg = ''assistant'' then ''model'' else ''user'')
            in case block_parts globalSig isThinkingEnabled (content_blocks (m_content msg)) st of
                 (ps, st1) \<Rightarrow>
                   (let parts = add_dummy_thought
                          (allowDummyThought \<and> role = ''model'' \<and> isThinkingEnabled \<and> messages = []) ps;
                        rest = buildContents globalSig messages st1 isThinkingEnabled allowDummyThought
                    in if parts \<noteq> [] then \<lparr>gc_role = role, gc_parts = parts\<rparr> # rest else rest)))"

subsection \<open>Tools\<close>

definition networking_keywords :: "string list" where
  "networking_keywords = [''web_search'', ''google_search'', ''web_search_20250305'', ''google_search_retrieval'',
     ''builtin_web_search'']"

definition detectsNetworkingTool :: "tool list option \<Rightarrow> bool" where
  "detectsNetworkingTool tools =
     (case tools of
        None \<Rightarrow> False
      | Some ts \<Rightarrow>
          list_ex (\<lambda>t. (case t_name t of Some n \<Rightarrow> n \<in> set networking_keywords | None \<Rightarrow> False) \<or>
            (case t_type t of Some ty \<Rightarrow> ty \<in> set networking_keywords | None \<Rightarrow> False)) ts)"

definition is_search_tool :: "tool \<Rightarrow> bool" where
  "is_search_tool t \<longleftrightarrow>
     t_name t \<in> {Some ''web_search'', Some ''google_search'', Some ''builtin_web_search''} \<or>
     t_type t \<in> {Some ''web_search_20250305'', Some ''builtin_web_search''}"

fun declare_tools :: "nat \<Rightarrow> tool list \<Rightarrow> function_declaration list option" where
  "declare_tools depth [] = Some []"
| "declare_tools depth (t # ts) =
     (if is_search_tool t \<or> \<not> str_truthy (t_name t) then declare_tools depth ts
      else (case normalizeObjectJsonSchema depth (t_input_schema t) of
              None \<Rightarrow> None
            | Some inputSchema \<Rightarrow>
                map_option ((#) \<lparr>fd_name = the (t_name t), fd_description = t_description t, fd_parameters = inputSchema\<rparr>)
                  (declare_tools depth ts)))"

definition buildTools :: "nat \<Rightarrow> tool list option \<Rightarrow> bool \<Rightarrow> gemini_tool list option option" where
  "buildTools depth tools hasWebSearch =
     (case tools of
        None \<Rightarrow> Some None
      | Some ts \<Rightarrow>
          (case declare_tools depth ts of
             None \<Rightarrow> None
           | Some functionDeclarations \<Rightarrow>
               (let hasGoogleSearch = (hasWebSearch \<or> list_ex is_search_tool ts)
                in Some (if functionDeclarations \<noteq> [] then Some [FunctionDeclarations functionDeclarations]
                         else if hasGoogleSearch then Some [GoogleSearch] else None))))"

definition injectGoogleSearchTool :: "gemini_tool list option \<Rightarrow> gemini_tool list option" where
  "injectGoogleSearchTool tools =
     (let toolsArr = (case tools of None \<Rightarrow> [] | Some ts \<Rightarrow> ts);
          is_functions = (\<lambda>t. case t of FunctionDeclarations _ \<Rightarrow> True | GoogleSearch \<Rightarrow> False)
      in if list_ex is_functions toolsArr then Some toolsArr
         else Some (filter is_functions toolsArr @ [GoogleSearch]))"

subsection \<open>Generation settings\<close>

definition isClaudeModel :: "string \<Rightarrow> bool" where
  "isClaudeModel modelName \<longleftrightarrow> str_contains (js_lower modelName) ''claude''"

definition isGeminiImageModel :: "string \<Rightarrow> bool" where
  "isGeminiImageModel modelName \<longleftrightarrow>
     starts_with (js_lower modelName) ''gemini-3-pro-image'' \<or> starts_with (js_lower modelName) ''gemini-3.1-pro-image''"

definition isGeminiFlashModel :: "string \<Rightarrow> bool" where
  "isGeminiFlashModel modelName \<longleftrightarrow>
     str_contains (js_lower modelName) ''gemini-3-flash'' \<or> str_contains (js_lower modelName) ''gemini-3.1-flash''"

definition shouldEnableThinkingByDefault :: "string \<Rightarrow> string \<Rightarrow> bool" where
  "shouldEnableThinkingByDefault mappedModel originalModel =
     (let mappedLower = js_lower mappedModel; originalLower = js_lower originalModel
      in \<not> (str_contains mappedLower ''gemini-3.1-pro-high'' \<or> str_contains mappedLower ''gemini-3.1-pro-low'') \<and>
         (str_contains originalLower ''claude-opus-4-5'' \<or> str_contains originalLower ''claude-opus-4-6'' \<or>
          str_contains mappedLower ''-thinking'' \<or> str_contains mappedLower ''gemini-3.1-pro'' \<or>
          str_contains mappedLower ''gemini-3-flash'' \<or> str_contains mappedLower ''gemini-3.1-flash''))"

definition resolveAdaptiveThinkingLevel :: "claude_request \<Rightarrow> string" where
  "resolveAdaptiveThinkingLevel r =
     (let effort = js_lower (case Option.bind (rq_thinking r) th_effort of Some e \<Rightarrow> e | None \<Rightarrow> [])
      in if effort = ''low'' then ''low'' else if effort = ''medium'' then ''medium'' else ''high'')"

definition thinking_type :: "claude_request \<Rightarrow> string" where
  "thinking_type r = js_lower (case rq_thinking r of Some t \<Rightarrow> th_type t | None \<Rightarrow> [])"

definition buildThinkingConfig :: "claude_request \<Rightarrow> bool \<Rightarrow> string \<Rightarrow> thinking_config" where
  "buildThinkingConfig r hasWebSearch mappedModel =
     (let base = \<lparr>tc_includeThoughts = True, thinkingBudget = None, thinkingLevel = None\<rparr>
      in if thinking_type r = ''adaptive''
         then (if isClaudeModel mappedModel then base\<lparr>thinkingLevel := Some (resolveAdaptiveThinkingLevel r)\<rparr>
               else base\<lparr>thinkingBudget := Some 24576\<rparr>)
         else (case Option.bind (rq_thinking r) th_budget_tokens of
                 Some b \<Rightarrow>
                   if b \<noteq> 0
                   then base\<lparr>thinkingBudget := Some (if hasWebSearch \<or> isGeminiFlashModel mappedModel then min b 24576 else b)\<rparr>
                   else base\<lparr>thinkingBudget := Some (getThinkingBudget mappedModel)\<rparr>
               | None \<Rightarrow> base\<lparr>thinkingBudget := Some (getThinkingBudget mappedModel)\<rparr>))"

definition protocolSentinels :: "string list" where
  "protocolSentinels = [''<|user|>'', ''<|assistant|>'', ''<|system|>'', ''<|endoftext|>'', ''<|end_of_turn|>'', ''[DONE]'',
     newline @ newline @ ''Human:'', newline @ newline @ ''Assistant:'']"

definition filterClaudeCodeStopSequences :: "string list option \<Rightarrow> string list" where
  "filterClaudeCodeStopSequences sequences =
     (case sequences of
        None \<Rightarrow> []
      | Some xs \<Rightarrow> filter (\<lambda>s. s \<notin> set protocolSentinels) (filter (\<lambda>s. s \<noteq> []) xs))"

definition nonempty_list :: "'a list \<Rightarrow> 'a list option" where
  "nonempty_list xs = (if xs = [] then None else Some xs)"

definition buildGenerationConfig :: "claude_request \<Rightarrow> bool \<Rightarrow> string \<Rightarrow> bool \<Rightarrow> generation_config" where
  "buildGenerationConfig r hasWebSearch mappedModel isThinkingEnabled =
     (let isOpenAIPath = (js_lower (case rq_source r of Some s \<Rightarrow> s | None \<Rightarrow> []) = ''openai'');
          stops = filterClaudeCodeStopSequences (rq_stop_sequences r);
          limited = (case rq_max_tokens r of
              Some m \<Rightarrow> no_config\<lparr>maxOutputTokens := Some m, explicitMax := True\<rparr>
            | None \<Rightarrow> if isOpenAIPath then no_config\<lparr>maxOutputTokens := Some (getMaxOutputTokens mappedModel)\<rparr> else no_config)
      in if isThinkingEnabled
         then limited\<lparr>thinkingConfig := Some (buildThinkingConfig r hasWebSearch mappedModel)\<rparr>
         else if isOpenAIPath
         then limited\<lparr>temperature := Some (case rq_temperature r of Some t \<Rightarrow> t | None \<Rightarrow> 1),
                topP := Some (case rq_top_p r of Some p \<Rightarrow> p | None \<Rightarrow> 95 / 100), stopSequences := nonempty_list stops\<rparr>
         else limited\<lparr>temperature := rq_temperature r, topP := rq_top_p r, topK := rq_top_k r,
                stopSequences := nonempty_list stops\<rparr>)"

subsection \<open>The request\<close>

record resolved_config =
  rc_requestType :: string
  rc_injectGoogleSearch :: bool
  rc_finalModel :: string
  rc_imageConfig :: "image_config option"

definition parseImageConfig :: "string \<Rightarrow> image_config \<times> string" where
  "parseImageConfig modelName =
     (let ratio = (if str_contains modelName ''-16x9'' then ''16:9''
                   else if str_contains modelName ''-9x16'' then ''9:16''
                   else if str_contains modelName ''-4x3'' then ''4:3''
                   else if str_contains modelName ''-3x4'' then ''3:4'' else ''1:1'');
          isHd = (str_contains modelName ''-4k'' \<or> str_contains modelName ''-hd'')
      in (\<lparr>aspectRatio = ratio, imageSize = (if isHd then Some ''4K'' else None)\<rparr>, ''gemini-3-pro-image''))"

definition drop_online :: "string \<Rightarrow> string" where
  "drop_online m = (if ends_with m ''-online'' then take (length m - 7) m else m)"

definition resolveRequestConfig :: "string \<Rightarrow> string \<Rightarrow> tool list option \<Rightarrow> resolved_config" where
  "resolveRequestConfig originalModel mappedModel tools =
     (if isGeminiImageModel mappedModel
      then (case parseImageConfig originalModel of
              (cfg, parsedBaseModel) \<Rightarrow>
                \<lparr>rc_requestType = ''image_gen'', rc_injectGoogleSearch = False, rc_finalModel = parsedBaseModel,
                 rc_imageConfig = Some cfg\<rparr>)
      else (let enableNetworking = (ends_with originalModel ''-online'' \<or> detectsNetworkingTool tools);
                finalModel = normalizeGeminiModelAlias (drop_online mappedModel)
            in \<lparr>rc_requestType = (if enableNetworking then ''web_search'' else ''agent''),
                rc_injectGoogleSearch = enableNetworking,
                rc_finalModel = (if enableNetworking then ''gemini-3-flash'' else finalModel),
                rc_imageConfig = None\<rparr>))"

definition SAFETY_SETTINGS :: "(string \<times> string) list" where
  "SAFETY_SETTINGS = [(''HARM_CATEGORY_HARASSMENT'', ''OFF''), (''HARM_CATEGORY_HATE_SPEECH'', ''OFF''),
     (''HARM_CATEGORY_SEXUALLY_EXPLICIT'', ''OFF''), (''HARM_CATEGORY_DANGEROUS_CONTENT'', ''OFF''),
     (''HARM_CATEGORY_CIVIC_INTEGRITY'', ''OFF'')]"

definition AGENT_CREDIT_TYPES :: "string list" where "AGENT_CREDIT_TYPES = [''GOOGLE_ONE_AI'']"

definition buildInternalRequestBody ::
    "string \<Rightarrow> string \<Rightarrow> resolved_config \<Rightarrow> gemini_request \<Rightarrow> string option \<Rightarrow> string option \<Rightarrow> gemini_internal_request" where
  "buildInternalRequestBody requestId defaultAgent requestConfig innerRequest projectId userAgent =
     (let normalizedProjectId = js_trim (case projectId of Some p \<Rightarrow> p | None \<Rightarrow> []);
          agent = js_trim (case userAgent of Some a \<Rightarrow> a | None \<Rightarrow> []);
          isAgentRequest = (rc_requestType requestConfig \<noteq> ''image_gen'')
      in \<lparr>gi_project = (if normalizedProjectId = [] then None else Some normalizedProjectId),
          gi_requestId = requestId, gi_request = innerRequest, gi_model = rc_finalModel requestConfig,
          gi_userAgent = (if agent = [] then defaultAgent else agent),
          gi_requestType = (if isAgentRequest then ''agent'' else ''image_gen''),
          gi_enabledCreditTypes = (if isAgentRequest then Some AGENT_CREDIT_TYPES else None)\<rparr>)"

definition thinking_enabled :: "string option \<Rightarrow> string \<Rightarrow> claude_request \<Rightarrow> bool" where
  "thinking_enabled globalSig finalModel r =
     (let autoThinkingEnabled = (rq_thinking r = None \<and> shouldEnableThinkingByDefault finalModel (rq_model r))
      in (thinking_type r = ''enabled'' \<or> thinking_type r = ''adaptive'' \<or> autoThinkingEnabled) \<and>
         \<not> (has_function_calls (rq_messages r) \<and> \<not> hasValidSignatureForFunctionCalls (rq_messages r) globalSig))"

definition apply_image_config :: "image_config \<Rightarrow> gemini_request \<Rightarrow> gemini_request" where
  "apply_image_config cfg g =
     g\<lparr>gr_tools := None, gr_systemInstruction := None,
       gr_generationConfig := Some ((case gr_generationConfig g of Some c \<Rightarrow> c | None \<Rightarrow> no_config)
         \<lparr>thinkingConfig := None, responseMimeType := None, responseModalities := None, imageConfig := Some cfg\<rparr>)\<rparr>"

definition transformClaudeRequestIn ::
    "nat \<Rightarrow> string option \<Rightarrow> string \<Rightarrow> string \<Rightarrow> claude_request \<Rightarrow> string option \<Rightarrow> string option \<Rightarrow> gemini_internal_request option" where
  "transformClaudeRequestIn depth globalSig requestId defaultAgent claudeReq projectId userAgent =
     (let hasWebSearchTool = detectsNetworkingTool (rq_tools claudeReq);
          systemInstruction = mergeSystemInstructionParts (buildSystemInstruction (rq_system claudeReq))
            (collectSystemMessageParts (rq_messages claudeReq));
          mappedModel = (if hasWebSearchTool then ''gemini-3-flash'' else mapClaudeModelToGemini (rq_model claudeReq));
          requestConfig = resolveRequestConfig (rq_model claudeReq) mappedModel (rq_tools claudeReq);
          isThinkingEnabled = thinking_enabled globalSig (rc_finalModel requestConfig) claudeReq;
          generationConfig = buildGenerationConfig claudeReq hasWebSearchTool (rc_finalModel requestConfig) isThinkingEnabled;
          contents = buildContents globalSig (rq_messages claudeReq) \<lparr>toolIdToName = [], lastThoughtSignature = None\<rparr>
            isThinkingEnabled False
      in case buildTools depth (rq_tools claudeReq) hasWebSearchTool of
           None \<Rightarrow> None
         | Some tools \<Rightarrow>
             (let inner = \<lparr>gr_contents = contents, gr_safetySettings = SAFETY_SETTINGS,
                    gr_systemInstruction = systemInstruction,
                    gr_generationConfig = (if generationConfig = no_config then None else Some generationConfig),
                    gr_tools = tools,
                    gr_toolConfig = (if tools = None then None else Some ''VALIDATED'')\<rparr>;
                  searched = (if rc_injectGoogleSearch requestConfig \<and> \<not> hasWebSearchTool
                    then inner\<lparr>gr_tools := injectGoogleSearchTool (gr_tools inner)\<rparr> else inner);
                  final = (case rc_imageConfig requestConfig of
                      Some cfg \<Rightarrow> apply_image_config cfg searched | None \<Rightarrow> searched)
              in Some (buildInternalRequestBody requestId defaultAgent requestConfig final projectId userAgent)))"

end
