(* ===== verification/ClaudeRequestFacts.thy ===== *)
theory ClaudeRequestFacts
  imports ClaudeRequest
begin

section \<open>What the converted request contains\<close>

text \<open>
  Properties of \<open>transformClaudeRequestIn\<close>. The blocks of all messages are converted one after the other
  (\<open>contents_parts\<close>), so what holds of the parts is proved once by induction on the blocks; the tools, the generation
  settings and the image settings follow by cases.
\<close>

subsection \<open>All blocks in one list\<close>

definition all_blocks :: "message list \<Rightarrow> claude_part list" where
  "all_blocks messages = concat (map (\<lambda>m. if m_role m = ''system'' then [] else content_blocks (m_content m)) messages)"

definition all_parts :: "gemini_content list \<Rightarrow> request_part list" where
  "all_parts contents = concat (map gc_parts contents)"

lemma block_parts_append:
  "block_parts sig think (xs @ ys) st =
     (fst (block_parts sig think xs st) @ fst (block_parts sig think ys (snd (block_parts sig think xs st))),
      snd (block_parts sig think ys (snd (block_parts sig think xs st))))"
  by (induction xs arbitrary: st) (auto split: prod.split option.split)

lemma contents_parts:
  "all_parts (buildContents sig ms st think False) = fst (block_parts sig think (all_blocks ms) st)"
proof (induction ms arbitrary: st)
  case Nil
  show ?case by (simp add: all_parts_def all_blocks_def)
next
  case (Cons m ms)
  show ?case
  proof (cases "m_role m = ''system''")
    case True
    then show ?thesis using Cons.IH [of st] by (simp add: all_blocks_def)
  next
    case False
    then have "all_blocks (m # ms) = content_blocks (m_content m) @ all_blocks ms" by (simp add: all_blocks_def)
    then show ?thesis
      using Cons.IH False by (auto simp: block_parts_append all_parts_def add_dummy_thought_def Let_def split: prod.split)
  qed
qed

lemma contents_shape:
  "c \<in> set (buildContents sig ms st think False) \<Longrightarrow> gc_role c \<in> {''user'', ''model''} \<and> gc_parts c \<noteq> []"
  by (induction sig ms st think False rule: buildContents.induct) (auto simp: Let_def split: prod.splits if_splits)

subsection \<open>Texts, calls and results\<close>

definition plain_text :: "request_part \<Rightarrow> string option" where
  "plain_text p = (if gp_thought p then None else gp_text p)"

definition visible_text :: "claude_part \<Rightarrow> string option" where
  "visible_text b = (case b of TextPart t \<Rightarrow> if t = ''(no content)'' then None else forwarded_text t | _ \<Rightarrow> None)"

definition part_call :: "request_part \<Rightarrow> function_call option" where
  "part_call = gp_functionCall"

definition block_call :: "claude_part \<Rightarrow> function_call option" where
  "block_call b = (case b of
      ToolUsePart callId toolName input _ \<Rightarrow> Some \<lparr>fc_name = toolName, fc_args = Some input, fc_id = Some callId\<rparr>
    | _ \<Rightarrow> None)"

text \<open>How a call in the request is the client's call: its name and id are the client's, and so is what \<open>survives\<close> of
  its arguments, all of them where no schema keyword is among them.\<close>

definition same_call :: "function_call \<Rightarrow> function_call \<Rightarrow> bool" where
  "same_call c f \<longleftrightarrow> fc_name f = fc_name c \<and> fc_id f = fc_id c \<and> rel_option arguments_kept (fc_args c) (fc_args f)"

definition block_image :: "claude_part \<Rightarrow> (string \<times> string) option" where
  "block_image b = (case b of ImagePart ty media data \<Rightarrow> if ty = ''base64'' then Some (media, data) else None | _ \<Rightarrow> None)"

text \<open>The name of the latest call with an id among the blocks seen, latest first.\<close>

definition use_names :: "string \<Rightarrow> claude_part list \<Rightarrow> string list" where
  "use_names i = List.map_filter (\<lambda>b. case b of ToolUsePart j n _ _ \<Rightarrow> if i = j then Some n else None | _ \<Rightarrow> None)"

definition called_name :: "claude_part list \<Rightarrow> string \<Rightarrow> string" where
  "called_name seen i = (case use_names i seen of n # _ \<Rightarrow> if n = [] then i else n | [] \<Rightarrow> i)"

fun named_results :: "claude_part list \<Rightarrow> claude_part list \<Rightarrow> function_response list" where
  "named_results seen [] = []"
| "named_results seen (b # bs) =
     (case b of
        ToolResultPart i content is_error \<Rightarrow>
          \<lparr>fr_name = called_name seen i, fr_result = merged_content content is_error, fr_id = i\<rparr> # named_results (b # seen) bs
      | _ \<Rightarrow> named_results (b # seen) bs)"

declare List.map_filter_simps [simp]

lemma in_map_filter: "y \<in> set (List.map_filter f xs) \<longleftrightarrow> (\<exists>x\<in>set xs. f x = Some y)"
  by (induction xs) (auto split: option.split)

lemma forwarded_text_Nil [simp]: "forwarded_text [] = None"
  by (simp add: forwarded_text_def js_trim_def trim_left_def)

lemma part_simps [simp]:
  "plain_text (text_part t) = Some t" "plain_text (thought_part t s) = None" "plain_text (image_part a b) = None"
  "plain_text (call_part i n j s) = None" "plain_text (result_part i n r s) = None"
  "gp_functionCall (text_part t) = None" "gp_functionCall (thought_part t s) = None" "gp_functionCall (image_part a b) = None"
  "gp_functionCall (result_part i n r s) = None"
  "gp_inlineData (text_part t) = None" "gp_inlineData (thought_part t s) = None" "gp_inlineData (image_part a b) = Some (a, b)"
  "gp_inlineData (call_part i n j s) = None" "gp_inlineData (result_part i n r s) = None"
  "rp_functionResponse (text_part t) = None" "rp_functionResponse (thought_part t s) = None"
  "rp_functionResponse (image_part a b) = None" "rp_functionResponse (call_part i n j s) = None"
  "gp_thoughtSignature (text_part t) = None" "gp_thoughtSignature (image_part a b) = None"
  "gp_thoughtSignature (thought_part t s) = s" "gp_thoughtSignature (call_part i n j s) = s"
  "gp_thoughtSignature (result_part i n r s) = s"
  by (simp_all add: text_part_def thought_part_def image_part_def call_part_def result_part_def plain_text_def)

lemma block_parts_Cons:
  "fst (block_parts sig think (b # bs) st) =
     (case fst (block_part sig think b st) of None \<Rightarrow> [] | Some p \<Rightarrow> [p]) @
     fst (block_parts sig think bs (snd (block_part sig think b st)))"
  "snd (block_parts sig think (b # bs) st) = snd (block_parts sig think bs (snd (block_part sig think b st)))"
  by (auto split: prod.split option.split)

text \<open>A view of the parts that each block determines by itself is the same view of the blocks.\<close>

lemma part_view:
  assumes "\<And>b st. (case fst (block_part sig think b st) of None \<Rightarrow> None | Some p \<Rightarrow> f p) = g b"
  shows "List.map_filter f (fst (block_parts sig think bs st)) = List.map_filter g bs"
proof (induction bs arbitrary: st)
  case (Cons b bs)
  have "g b = (case fst (block_part sig think b st) of None \<Rightarrow> None | Some p \<Rightarrow> f p)" using assms by simp
  then show ?case
    using Cons.IH by (auto simp: block_parts_Cons simp del: block_parts.simps split: option.split)
qed simp

lemma texts_view: "List.map_filter plain_text (fst (block_parts sig think bs st)) = List.map_filter visible_text bs"
  by (rule part_view) (auto simp: block_part_def visible_text_def Let_def forwarded_text_def split: claude_part.split)

definition sent_call :: "function_call \<Rightarrow> function_call" where
  "sent_call c = c\<lparr>fc_args := map_option cleanJsonSchemaRecursive (fc_args c)\<rparr>"

lemma sent_call_same: "same_call c (sent_call c)"
  by (cases "fc_args c") (simp_all add: same_call_def sent_call_def cleaning_keeps_arguments)

lemma part_call_view: "List.map_filter gp_functionCall (fst (block_parts sig think bs st)) = List.map_filter (map_option sent_call \<circ> block_call) bs"
  by (rule part_view) (auto simp: block_part_def block_call_def sent_call_def call_part_def text_part_def Let_def forwarded_text_def
      split: claude_part.split)

lemma calls_sent: "List.map_filter gp_functionCall (fst (block_parts sig think bs st)) = map sent_call (List.map_filter block_call bs)"
  unfolding part_call_view by (induction bs) (auto split: option.split)

lemma calls_view: "list_all2 same_call (List.map_filter block_call bs) (List.map_filter gp_functionCall (fst (block_parts sig think bs st)))"
  unfolding calls_sent by (simp add: list_all2_map2 list.rel_refl sent_call_same)

lemma images_view: "List.map_filter gp_inlineData (fst (block_parts sig think bs st)) = List.map_filter block_image bs"
  by (rule part_view) (auto simp: block_part_def block_image_def Let_def forwarded_text_def split: claude_part.split)

definition names_known :: "claude_part list \<Rightarrow> contents_state \<Rightarrow> bool" where
  "names_known seen st \<longleftrightarrow>
     (\<forall>i. map_of (toolIdToName st) i = (case use_names i seen of n # _ \<Rightarrow> Some n | [] \<Rightarrow> None))"

lemma names_known_step: "names_known seen st \<Longrightarrow> names_known (b # seen) (snd (block_part sig think b st))"
  by (auto simp: names_known_def use_names_def block_part_def Let_def update_conv' split: claude_part.split list.splits)

lemma called_name_lookup:
  "names_known seen st \<Longrightarrow> (case truthy_lookup (toolIdToName st) i of Some n \<Rightarrow> n | None \<Rightarrow> i) = called_name seen i"
  by (auto simp: names_known_def called_name_def truthy_lookup_def split: list.splits)

lemma results_view:
  "names_known seen st \<Longrightarrow>
   List.map_filter rp_functionResponse (fst (block_parts sig think bs st)) = named_results seen bs"
proof (induction bs arbitrary: seen st)
  case (Cons b bs)
  note step = names_known_step [OF Cons.prems, of b sig think]
  show ?case
  proof (cases b)
    case (ToolResultPart i content is_error)
    then show ?thesis
      using Cons.IH [OF step] called_name_lookup [OF Cons.prems, of i]
      by (simp add: block_parts_Cons del: block_parts.simps) (simp add: block_part_def result_part_def Let_def)
  qed (use Cons.IH [OF step] in \<open>auto simp: block_parts_Cons block_part_def Let_def forwarded_text_def
      simp del: block_parts.simps split: option.splits\<close>)
qed simp

definition sendable :: "string \<Rightarrow> bool" where
  "sendable t \<longleftrightarrow> js_trim t = t \<and> t \<noteq> [] \<and> \<not> isDownstreamHarnessText t"

lemma forwarded_text_clean: "forwarded_text t = Some s \<Longrightarrow> sendable s"
  by (auto simp: forwarded_text_def sendable_def Let_def split: if_splits)

lemma visible_text_clean: "visible_text b = Some s \<Longrightarrow> sendable s"
  by (cases b) (auto simp: visible_text_def split: if_splits dest: forwarded_text_clean)

lemma system_block_text_clean: "system_block_text b = Some s \<Longrightarrow> sendable s"
  by (cases b) (auto simp: system_block_text_def split: if_splits dest: forwarded_text_clean)

lemma system_message_clean: "t \<in> set (collectSystemMessageParts ms) \<Longrightarrow> sendable t"
  by (auto simp: collectSystemMessageParts_def in_map_filter split: if_splits dest: system_block_text_clean)

lemma system_instruction_clean:
  "buildSystemInstruction s = Some ts \<Longrightarrow> t \<in> set ts \<Longrightarrow> t = assistantIdentityDirective \<or> sendable t"
  by (auto simp: buildSystemInstruction_def Let_def in_map_filter split: if_splits dest: forwarded_text_clean)

lemma merged_system_clean:
  "mergeSystemInstructionParts (buildSystemInstruction s) (collectSystemMessageParts ms) = Some ts \<Longrightarrow> t \<in> set ts \<Longrightarrow>
   t = assistantIdentityDirective \<or> sendable t"
  by (auto simp: mergeSystemInstructionParts_def split: if_splits option.splits
      dest: system_instruction_clean system_message_clean)

text \<open>The members of a converted request, one by one.\<close>

lemma transform_request:
  assumes "transformClaudeRequestIn depth sig rid agent r project ua = Some g"
  obtains rc web think tools cfg where
    "web = detectsNetworkingTool (rq_tools r)"
    "rc = resolveRequestConfig (rq_model r)
       (if web then ''gemini-3-flash'' else mapClaudeModelToGemini (rq_model r)) (rq_tools r)"
    "think = thinking_enabled sig (rc_finalModel rc) r"
    "buildTools depth (rq_tools r) web = Some tools"
    "cfg = buildGenerationConfig r web (rc_finalModel rc) think"
    "gr_contents (gi_request g) =
       buildContents sig (rq_messages r) \<lparr>toolIdToName = [], lastThoughtSignature = None\<rparr> think False"
    "gr_systemInstruction (gi_request g) =
       (if rc_imageConfig rc = None
        then mergeSystemInstructionParts (buildSystemInstruction (rq_system r)) (collectSystemMessageParts (rq_messages r))
        else None)"
    "gr_tools (gi_request g) =
       (if rc_imageConfig rc \<noteq> None then None
        else if rc_injectGoogleSearch rc \<and> \<not> web then injectGoogleSearchTool tools else tools)"
    "gr_toolConfig (gi_request g) = (if tools = None then None else Some ''VALIDATED'')"
    "gr_generationConfig (gi_request g) =
       (case rc_imageConfig rc of
          None \<Rightarrow> if cfg = no_config then None else Some cfg
        | Some ic \<Rightarrow> Some (cfg\<lparr>thinkingConfig := None, responseMimeType := None, responseModalities := None,
            imageConfig := Some ic\<rparr>))"
    "gi_requestType g = (if rc_requestType rc = ''image_gen'' then ''image_gen'' else ''agent'')"
    "gi_model g = rc_finalModel rc"
proof -
  define web where "web = detectsNetworkingTool (rq_tools r)"
  define rc where "rc = resolveRequestConfig (rq_model r)
       (if web then ''gemini-3-flash'' else mapClaudeModelToGemini (rq_model r)) (rq_tools r)"
  define think where "think = thinking_enabled sig (rc_finalModel rc) r"
  define cfg where "cfg = buildGenerationConfig r web (rc_finalModel rc) think"
  note assms' = assms [unfolded transformClaudeRequestIn_def Let_def, folded web_def, folded rc_def, folded think_def,
      folded cfg_def]
  then obtain tools where tools: "buildTools depth (rq_tools r) web = Some tools" by (auto split: option.splits)
  define inner where "inner = \<lparr>gr_contents = buildContents sig (rq_messages r) \<lparr>toolIdToName = [], lastThoughtSignature = None\<rparr> think False,
      gr_safetySettings = SAFETY_SETTINGS,
      gr_systemInstruction = mergeSystemInstructionParts (buildSystemInstruction (rq_system r)) (collectSystemMessageParts (rq_messages r)),
      gr_generationConfig = (if cfg = no_config then None else Some cfg), gr_tools = tools,
      gr_toolConfig = (if tools = None then None else Some ''VALIDATED'')\<rparr>"
  define searched where "searched = (if rc_injectGoogleSearch rc \<and> \<not> web
      then inner\<lparr>gr_tools := injectGoogleSearchTool (gr_tools inner)\<rparr> else inner)"
  define final where "final = (case rc_imageConfig rc of Some ic \<Rightarrow> apply_image_config ic searched | None \<Rightarrow> searched)"
  have g: "g = buildInternalRequestBody rid agent rc final project ua"
    using assms' unfolding tools option.case inner_def [symmetric] searched_def [symmetric] final_def [symmetric] by simp
  have body: "gi_request g = final" "gi_model g = rc_finalModel rc"
    "gi_requestType g = (if rc_requestType rc = ''image_gen'' then ''image_gen'' else ''agent'')"
    by (simp_all add: g buildInternalRequestBody_def Let_def)
  have s: "gr_contents searched = gr_contents inner" "gr_systemInstruction searched = gr_systemInstruction inner"
    "gr_toolConfig searched = gr_toolConfig inner" "gr_generationConfig searched = gr_generationConfig inner"
    "gr_tools searched = (if rc_injectGoogleSearch rc \<and> \<not> web then injectGoogleSearchTool tools else tools)"
    by (simp_all add: searched_def inner_def)
  show thesis
    by (rule that [OF web_def rc_def think_def tools cfg_def])
      (simp_all add: body s final_def apply_image_config_def inner_def split: option.split)
qed

lemma names_known_start: "names_known [] \<lparr>toolIdToName = [], lastThoughtSignature = s\<rparr>"
  by (simp add: names_known_def use_names_def)


text \<open>No harness text of the downstream client reaches the model: every visible text of a request is trimmed, not
  blank and none of the texts \<open>isDownstreamHarnessText\<close> recognises, and neither is any system text, apart
  from the assistant's own identity.\<close>

theorem harness_text_is_withheld:
  assumes "transformClaudeRequestIn depth sig rid agent r project ua = Some g"
  shows "(\<forall>p\<in>set (all_parts (gr_contents (gi_request g))). \<forall>t. plain_text p = Some t \<longrightarrow> sendable t) \<and>
    (\<forall>ts. gr_systemInstruction (gi_request g) = Some ts \<longrightarrow> (\<forall>t\<in>set ts. t = assistantIdentityDirective \<or> sendable t))"
proof -
  obtain think where c: "gr_contents (gi_request g) =
      buildContents sig (rq_messages r) \<lparr>toolIdToName = [], lastThoughtSignature = None\<rparr> think False"
    by (rule transform_request [OF assms])
  have texts: "sendable t" if "p \<in> set (all_parts (gr_contents (gi_request g)))" "plain_text p = Some t" for p t
  proof -
    from that have "t \<in> set (List.map_filter plain_text (all_parts (gr_contents (gi_request g))))"
      by (auto simp: in_map_filter)
    then have "t \<in> set (List.map_filter visible_text (all_blocks (rq_messages r)))"
      by (simp only: c contents_parts texts_view)
    then show ?thesis by (auto simp: in_map_filter dest: visible_text_clean)
  qed
  have "gr_systemInstruction (gi_request g) = None \<or> gr_systemInstruction (gi_request g) =
      mergeSystemInstructionParts (buildSystemInstruction (rq_system r)) (collectSystemMessageParts (rq_messages r))"
    by (rule transform_request [OF assms]) auto
  with texts show ?thesis by (auto dest: merged_system_clean)
qed

subsection \<open>Signatures\<close>

lemma b64_codes_char: "codes (map char_of (b64_encode bs)) = b64_encode bs"
proof -
  have "of_char (char_of c :: char) = c" if "c \<in> set (b64_encode bs)" for c
    using b64_ascii [OF that] by simp
  then show ?thesis by (simp add: codes_def comp_def map_idI)
qed

definition canonical_base64 :: "string \<Rightarrow> bool" where
  "canonical_base64 t \<longleftrightarrow> t \<noteq> [] \<and> map char_of (b64_encode (b64_decode (codes t))) = t"

lemma normalized_canonical:
  assumes "normalizeThoughtSignatureForGemini s = Some t"
  shows "canonical_base64 t"
proof -
  from assms obtain u where u: "normalizeExistingBase64 u = Some t"
    by (auto simp: normalizeThoughtSignatureForGemini_def Let_def split: option.splits if_splits)
  define d where "d = b64_decode (codes (pad_base64 (map url_to_base64 u)))"
  from u have d: "d \<noteq> []" "t = map char_of (b64_encode d)"
    by (auto simp: normalizeExistingBase64_def Let_def d_def split: if_splits)
  have "b64_encode d \<noteq> []" using d(1) by (cases d rule: b64_encode.cases) auto
  with d show ?thesis by (simp add: canonical_base64_def b64_codes_char b64_decode_encode)
qed

text \<open>The signatures a request may carry.\<close>

definition block_signature :: "claude_part \<Rightarrow> string option" where
  "block_signature b = (case b of ThinkingPart _ s \<Rightarrow> s | ToolUsePart _ _ _ s \<Rightarrow> s | _ \<Rightarrow> None)"

definition known_signatures :: "string option \<Rightarrow> claude_part list \<Rightarrow> string set" where
  "known_signatures sig bs = {t. \<exists>s\<in>insert sig (block_signature ` set bs). normalizeThoughtSignatureForGemini s = Some t}"

lemma first_truthy_member: "first_truthy xs = Some t \<Longrightarrow> Some t \<in> set xs"
  by (auto simp: first_truthy_def find_Some_iff in_set_conv_nth bind_eq_Some_conv)

lemma known_signature:
  "normalizeThoughtSignatureForGemini s = Some t \<Longrightarrow> s = sig \<or> s \<in> block_signature ` set bs \<Longrightarrow> t \<in> known_signatures sig bs"
  by (auto simp: known_signatures_def)

lemma block_part_signature:
  assumes "b \<in> set bs" "set_option (lastThoughtSignature st) \<subseteq> known_signatures sig bs"
  shows "set_option (lastThoughtSignature (snd (block_part sig think b st))) \<subseteq> known_signatures sig bs"
    "fst (block_part sig think b st) = Some p \<Longrightarrow> gp_thoughtSignature p = Some t \<Longrightarrow> t \<in> known_signatures sig bs"
proof -
  have own: "t \<in> known_signatures sig bs" if "normalizeThoughtSignatureForGemini (block_signature b) = Some t" for t
    using that assms(1) by (intro known_signature) auto
  have last: "t \<in> known_signatures sig bs" if "Some t = lastThoughtSignature st \<or> lastThoughtSignature st = Some t" for t
    using assms(2) that by (metis option.set_intros subset_iff)
  have stored: "t \<in> known_signatures sig bs" if "normalizeThoughtSignatureForGemini sig = Some t" for t
    using that by (intro known_signature) auto
  show "set_option (lastThoughtSignature (snd (block_part sig think b st))) \<subseteq> known_signatures sig bs"
    using assms(2) own by (cases b) (auto simp: block_part_def block_signature_def Let_def)
  show "t \<in> known_signatures sig bs" if "fst (block_part sig think b st) = Some p" "gp_thoughtSignature p = Some t"
    using that own stored last
    by (cases b) (auto simp: block_part_def block_signature_def Let_def split: if_splits dest!: first_truthy_member)
qed

lemma parts_signatures:
  assumes "set xs \<subseteq> set bs" "set_option (lastThoughtSignature st) \<subseteq> known_signatures sig bs"
    "p \<in> set (fst (block_parts sig think xs st))" "gp_thoughtSignature p = Some t"
  shows "t \<in> known_signatures sig bs"
  using assms
proof (induction xs arbitrary: st)
  case (Cons b xs)
  let ?r = "block_part sig think b st"
  have b: "b \<in> set bs" using Cons.prems(1) by simp
  from Cons.prems(3) have "fst ?r = Some p \<or> p \<in> set (fst (block_parts sig think xs (snd ?r)))"
    by (auto simp: block_parts_Cons simp del: block_parts.simps split: option.splits)
  then show ?case
  proof
    assume "fst ?r = Some p"
    then show ?thesis using block_part_signature(2) [OF b Cons.prems(2)] Cons.prems(4) by blast
  next
    assume "p \<in> set (fst (block_parts sig think xs (snd ?r)))"
    then show ?thesis
      using Cons.IH [of "snd ?r"] Cons.prems(1,4) block_part_signature(1) [OF b Cons.prems(2)] by simp
  qed
qed simp

text \<open>No thought signature is made up: every signature in a converted request is canonical base64, and is the
  normal form of the signature of a thinking block or tool call of the conversation, or of the one stored from the
  upstream's last answer.\<close>

theorem signatures_are_not_fabricated:
  assumes "transformClaudeRequestIn depth sig rid agent r project ua = Some g"
    "p \<in> set (all_parts (gr_contents (gi_request g)))" "gp_thoughtSignature p = Some t"
  shows "canonical_base64 t \<and>
    (\<exists>s\<in>insert sig (block_signature ` set (all_blocks (rq_messages r))). normalizeThoughtSignatureForGemini s = Some t)"
proof -
  let ?bs = "all_blocks (rq_messages r)"
  obtain think where "gr_contents (gi_request g) =
      buildContents sig (rq_messages r) \<lparr>toolIdToName = [], lastThoughtSignature = None\<rparr> think False"
    by (rule transform_request [OF assms(1)])
  with assms(2) have "p \<in> set (fst (block_parts sig think ?bs \<lparr>toolIdToName = [], lastThoughtSignature = None\<rparr>))"
    by (simp add: contents_parts)
  then have "t \<in> known_signatures sig ?bs" using assms(3) by (intro parts_signatures) auto
  then show ?thesis using normalized_canonical by (auto simp: known_signatures_def)
qed

subsection \<open>Tools\<close>

lemma declared_tools:
  "declare_tools depth ts = Some ds \<Longrightarrow> d \<in> set ds \<Longrightarrow> fd_name d \<noteq> [] \<and> cleaned_schema (fd_parameters d)"
proof (induction ts arbitrary: ds)
  case (Cons t ts)
  show ?case
  proof (cases "is_search_tool t \<or> \<not> str_truthy (t_name t)")
    case True
    with Cons show ?thesis by simp
  next
    case False
    with Cons.prems obtain schema ds' where
        n: "normalizeObjectJsonSchema depth (t_input_schema t) = Some schema" "declare_tools depth ts = Some ds'"
        "ds = \<lparr>fd_name = the (t_name t), fd_description = t_description t, fd_parameters = schema\<rparr> # ds'"
      by (auto split: option.splits)
    moreover have "cleaned_schema schema" using normalized_schema [OF n(1)] by blast
    moreover have "the (t_name t) \<noteq> []" using False by (auto simp: str_truthy_def split: option.splits)
    ultimately show ?thesis using Cons.IH Cons.prems(2) by auto
  qed
qed simp

definition tools_ok :: "gemini_tool list \<Rightarrow> bool" where
  "tools_ok ts \<longleftrightarrow> ts = [GoogleSearch] \<or>
     (\<exists>ds. ts = [FunctionDeclarations ds] \<and> ds \<noteq> [] \<and>
        (\<forall>d\<in>set ds. fd_name d \<noteq> [] \<and> cleaned_schema (fd_parameters d)))"

lemma built_tools: "buildTools depth tools web = Some (Some ts) \<Longrightarrow> tools_ok ts"
  by (auto simp: buildTools_def tools_ok_def Let_def split: option.splits if_splits dest: declared_tools)

lemma injected_tools: "(\<forall>ts. tools = Some ts \<longrightarrow> tools_ok ts) \<Longrightarrow> injectGoogleSearchTool tools = Some ts \<Longrightarrow> tools_ok ts"
  by (auto simp: injectGoogleSearchTool_def tools_ok_def Let_def split: option.splits if_splits)

text \<open>C13: Tools the upstream would refuse together are never sent together: a converted request has either the Google
  search alone or one nonempty list of function declarations with acceptable schemas, never both; a request for an
  image has no tools, no system instruction and no thinking.\<close>

theorem tools_are_compatible:
  assumes "transformClaudeRequestIn depth sig rid agent r project ua = Some g"
  shows "(\<forall>ts. gr_tools (gi_request g) = Some ts \<longrightarrow> tools_ok ts) \<and>
    (gi_requestType g = ''image_gen'' \<longrightarrow> gr_tools (gi_request g) = None \<and> gr_systemInstruction (gi_request g) = None \<and>
      (\<exists>cfg. gr_generationConfig (gi_request g) = Some cfg \<and> imageConfig cfg \<noteq> None \<and> thinkingConfig cfg = None))"
proof (rule transform_request [OF assms], intro conjI allI impI)
  fix rc web think tools cfg ts
  assume b: "buildTools depth (rq_tools r) web = Some tools" and t: "gr_tools (gi_request g) =
       (if rc_imageConfig rc \<noteq> None then None
        else if rc_injectGoogleSearch rc \<and> \<not> web then injectGoogleSearchTool tools else tools)"
    and ts: "gr_tools (gi_request g) = Some ts"
  have "\<forall>ts. tools = Some ts \<longrightarrow> tools_ok ts" using built_tools b by blast
  then show "tools_ok ts" using t ts injected_tools by (auto split: if_splits)
next
  fix rc web think tools cfg
  assume rc: "rc = resolveRequestConfig (rq_model r) (if web then ''gemini-3-flash'' else mapClaudeModelToGemini (rq_model r)) (rq_tools r)"
    and ty: "gi_requestType g = (if rc_requestType rc = ''image_gen'' then ''image_gen'' else ''agent'')"
    and ty': "gi_requestType g = ''image_gen''"
  then have "rc_requestType rc = ''image_gen''" by (simp split: if_splits)
  then have i: "rc_imageConfig rc \<noteq> None"
    by (auto simp: rc resolveRequestConfig_def Let_def split: if_splits prod.splits)
  show "gr_tools (gi_request g) = None" if "gr_tools (gi_request g) =
       (if rc_imageConfig rc \<noteq> None then None
        else if rc_injectGoogleSearch rc \<and> \<not> web then injectGoogleSearchTool tools else tools)" using that i by simp
  show "gr_systemInstruction (gi_request g) = None" if "gr_systemInstruction (gi_request g) =
       (if rc_imageConfig rc = None
        then mergeSystemInstructionParts (buildSystemInstruction (rq_system r)) (collectSystemMessageParts (rq_messages r))
        else None)" using that i by simp
  show "\<exists>cfg. gr_generationConfig (gi_request g) = Some cfg \<and> imageConfig cfg \<noteq> None \<and> thinkingConfig cfg = None"
    if "gr_generationConfig (gi_request g) =
       (case rc_imageConfig rc of
          None \<Rightarrow> if cfg = no_config then None else Some cfg
        | Some ic \<Rightarrow> Some (cfg\<lparr>thinkingConfig := None, responseMimeType := None, responseModalities := None,
            imageConfig := Some ic\<rparr>))" using that i by auto
qed

subsection \<open>Thinking\<close>

lemma generation_config_thinking:
  "thinkingConfig (buildGenerationConfig r web m think) = (if think then Some (buildThinkingConfig r web m) else None)"
  "think \<Longrightarrow> temperature (buildGenerationConfig r web m think) = None \<and> topP (buildGenerationConfig r web m think) = None \<and>
     topK (buildGenerationConfig r web m think) = None \<and> stopSequences (buildGenerationConfig r web m think) = None"
  "explicitMax (buildGenerationConfig r web m think) \<longleftrightarrow> rq_max_tokens r \<noteq> None"
  by (auto simp: buildGenerationConfig_def no_config_def Let_def split: option.split)

lemma thinking_config_includes: "tc_includeThoughts (buildThinkingConfig r web m)"
  by (auto simp: buildThinkingConfig_def Let_def split: option.split)

text \<open>A converted request asks the model to think only when it may: when it carries a thinking configuration, that
  configuration includes the thoughts, no sampling parameter or stop sequence is sent beside it, and if the conversation
  contains tool calls, some valid thought signature is at hand.\<close>

theorem thinking_needs_a_signature:
  assumes "transformClaudeRequestIn depth sig rid agent r project ua = Some g"
    "gr_generationConfig (gi_request g) = Some c" "thinkingConfig c = Some tc"
  shows "tc_includeThoughts tc \<and> temperature c = None \<and> topP c = None \<and> topK c = None \<and> stopSequences c = None \<and>
    (has_function_calls (rq_messages r) \<longrightarrow> hasValidSignatureForFunctionCalls (rq_messages r) sig)"
proof (rule transform_request [OF assms(1)])
  fix rc web think tools cfg
  assume think: "think = thinking_enabled sig (rc_finalModel rc) r"
    and cfg: "cfg = buildGenerationConfig r web (rc_finalModel rc) think"
    and g: "gr_generationConfig (gi_request g) =
       (case rc_imageConfig rc of
          None \<Rightarrow> if cfg = no_config then None else Some cfg
        | Some ic \<Rightarrow> Some (cfg\<lparr>thinkingConfig := None, responseMimeType := None, responseModalities := None,
            imageConfig := Some ic\<rparr>))"
  have c: "c = cfg" using g assms(2,3) by (auto split: option.splits if_splits)
  then have t: "think" "tc = buildThinkingConfig r web (rc_finalModel rc)"
    using assms(3) by (simp_all add: cfg generation_config_thinking split: if_splits)
  have "has_function_calls (rq_messages r) \<longrightarrow> hasValidSignatureForFunctionCalls (rq_messages r) sig"
    using t(1) think by (simp add: thinking_enabled_def Let_def)
  with generation_config_thinking(2) [OF t(1)] t(2) show ?thesis by (simp add: c cfg thinking_config_includes)
qed

subsection \<open>Arguments of tool calls\<close>

text \<open>\<open>cleanJsonSchema\<close> on the part of a call cleans the arguments as if they were a schema, and nothing else.\<close>

lemma fixed_keys_clean:
  assumes "set (map fst m) \<subseteq> {''functionCall'', ''name'', ''args'', ''id'', ''text'', ''thought''}"
  shows "clean_object m = m"
proof -
  have "clean_members m"
  proof -
    have "map_of m k = None" if "k \<in> fst ` set validationFields \<or> k \<in> set hardRemoveFields \<or> k = ''type''" for k
      using that assms by (auto simp: map_of_eq_None_iff validationFields_def hardRemoveFields_def)
    then show ?thesis by (simp add: clean_members_alt)
  qed
  then show ?thesis by (rule clean_object_id)
qed

lemma cleaned_call:
  "cleanJsonSchema depth (JObj [(''functionCall'', JObj [(''name'', JStr n), (''args'', input), (''id'', JStr i)])]) =
   Some (JObj [(''functionCall'', JObj [(''name'', JStr n), (''args'', cleanJsonSchemaRecursive input), (''id'', JStr i)])])"
  by (simp add: cleanJsonSchema_def take_defs_def fixed_keys_clean)

lemma cleaned_thought:
  "cleanJsonSchema depth (JObj [(''text'', JStr t), (''thought'', JBool True)]) = Some (JObj [(''text'', JStr t), (''thought'', JBool True)])"
  by (simp add: cleanJsonSchema_def take_defs_def fixed_keys_clean)

text \<open>The arguments of an earlier tool call reach the model unchanged exactly when they happen to be an acceptable
  schema; all others are altered. The conversion is idempotent, so a second attempt with the same request does not
  alter them further.\<close>

theorem arguments_are_cleaned_as_schemas:
  "(map_option fc_args (gp_functionCall (call_part i n input s)) = Some (Some input) \<longleftrightarrow> cleaned_schema input) \<and>
   call_part i n (cleanJsonSchemaRecursive input) s = call_part i n input s"
proof -
  have "cleanJsonSchemaRecursive input = input \<longleftrightarrow> cleaned_schema input"
    using cleaning_yields_schema [of input] cleaning_keeps_schema [of input] by auto
  then show ?thesis
    using cleaning_keeps_schema [OF cleaning_yields_schema] by (simp add: call_part_def text_part_def)
qed

text \<open>A search call in the history loses its pattern.\<close>

lemma search_pattern_is_lost:
  "map_option fc_args (gp_functionCall (call_part i ''Grep'' (JObj [(''pattern'', JStr ''TODO''), (''path'', JStr ''src'')]) s)) =
   Some (Some (JObj [(''path'', JStr ''src''), (''description'', JStr '' [Constraint: pattern: TODO]'')]))"
proof -
  have "cleanJsonSchemaRecursive (JObj [(''pattern'', JStr ''TODO''), (''path'', JStr ''src'')]) =
      JObj [(''path'', JStr ''src''), (''description'', JStr '' [Constraint: pattern: TODO]'')]" by code_simp
  then show ?thesis by (simp add: call_part_def)
qed

text \<open>An image request whose tools were removed still carries the tool configuration.\<close>

lemma image_request_keeps_tool_config:
  assumes "transformClaudeRequestIn depth sig rid agent r project ua = Some g" "gi_requestType g = ''image_gen''"
    "declare_tools depth (the (rq_tools r)) = Some (d # ds)" "rq_tools r \<noteq> None"
  shows "gr_tools (gi_request g) = None \<and> gr_toolConfig (gi_request g) = Some ''VALIDATED''"
proof (rule transform_request [OF assms(1)])
  fix rc web think tools cfg
  assume "rc = resolveRequestConfig (rq_model r) (if web then ''gemini-3-flash'' else mapClaudeModelToGemini (rq_model r)) (rq_tools r)"
    "gi_requestType g = (if rc_requestType rc = ''image_gen'' then ''image_gen'' else ''agent'')"
    and b: "buildTools depth (rq_tools r) web = Some tools"
    and "gr_tools (gi_request g) = (if rc_imageConfig rc \<noteq> None then None
        else if rc_injectGoogleSearch rc \<and> \<not> web then injectGoogleSearchTool tools else tools)"
    and c: "gr_toolConfig (gi_request g) = (if tools = None then None else Some ''VALIDATED'')"
  moreover from this assms(2) have "rc_imageConfig rc \<noteq> None"
    by (auto simp: resolveRequestConfig_def Let_def split: if_splits prod.splits)
  moreover have "tools \<noteq> None" using assms(3,4) b by (auto simp: buildTools_def Let_def)
  ultimately show ?thesis by simp
qed

text \<open>A call that precedes the first signature is sent without one although the model is asked to think.\<close>

lemma unsigned_call_with_thinking:
  "thinking_enabled None m (r\<lparr>rq_thinking := Some \<lparr>th_type = ''enabled'', th_budget_tokens = None, th_effort = None\<rparr>,
     rq_messages := [\<lparr>m_role = ''assistant'', m_content = Blocks [ToolUsePart ''a'' ''Read'' JNull None]\<rparr>,
       \<lparr>m_role = ''assistant'', m_content = Blocks [ThinkingPart ''t'' (Some ''QUJDREVGR0hJ'')]\<rparr>]\<rparr>) \<and>
   map gp_thoughtSignature (fst (block_parts None True [ToolUsePart ''a'' ''Read'' JNull None] \<lparr>toolIdToName = [], lastThoughtSignature = None\<rparr>)) = [None]"
proof -
  have "normalizeThoughtSignatureForGemini (Some ''QUJDREVGR0hJ'') = Some ''QUJDREVGR0hJ''" by code_simp
  moreover have "js_lower ''enabled'' = ''enabled''" by code_simp
  moreover have "normalizeThoughtSignatureForGemini None = None" by (simp add: normalizeThoughtSignatureForGemini_def)
  ultimately show ?thesis
    by (simp add: thinking_enabled_def thinking_type_def has_function_calls_def hasValidSignatureForFunctionCalls_def
        block_list_def valid_thinking_def block_part_def first_truthy_def)
qed

subsection \<open>A sample request\<close>

definition sample_request :: claude_request where
  "sample_request = \<lparr>rq_model = ''claude-sonnet-4-6'',
     rq_messages = [\<lparr>m_role = ''user'', m_content = Plain ''find TODO''\<rparr>,
       \<lparr>m_role = ''assistant'', m_content = Blocks [ThinkingPart ''search'' (Some ''QUJDREVGR0hJ''),
         ToolUsePart ''t1'' ''Grep'' (JObj [(''glob'', JStr ''src'')]) None]\<rparr>,
       \<lparr>m_role = ''user'', m_content = Blocks [ToolResultPart ''t1'' (Plain []) False]\<rparr>],
     rq_system = None, rq_tools = None, rq_max_tokens = Some 1000, rq_stop_sequences = None, rq_temperature = Some 1,
     rq_top_p = None, rq_top_k = None,
     rq_thinking = Some \<lparr>th_type = ''enabled'', th_budget_tokens = Some 4000, th_effort = None\<rparr>, rq_source = None\<rparr>"

lemma sample_signature: "normalizeThoughtSignatureForGemini (Some ''QUJDREVGR0hJ'') = Some ''QUJDREVGR0hJ''"
  by code_simp

lemma sample_transform:
  obtains g where "transformClaudeRequestIn 10 None ''agent/1/ab'' ''ua'' sample_request (Some ''p'') None = Some g"
proof -
  have "buildTools 10 (rq_tools sample_request) web = Some None" for web by (simp add: buildTools_def sample_request_def)
  then show thesis using that by (simp add: transformClaudeRequestIn_def Let_def)
qed


lemma harness_text_is_withheld_witness:
  "\<exists>g. transformClaudeRequestIn 10 None ''agent/1/ab'' ''ua'' sample_request (Some ''p'') None = Some g \<and>
     (\<forall>p\<in>set (all_parts (gr_contents (gi_request g))). \<forall>t. plain_text p = Some t \<longrightarrow> sendable t)"
proof -
  obtain g where g: "transformClaudeRequestIn 10 None ''agent/1/ab'' ''ua'' sample_request (Some ''p'') None = Some g"
    by (rule sample_transform)
  show ?thesis using harness_text_is_withheld [OF g] g by blast
qed

lemma signatures_are_not_fabricated_witness:
  "\<exists>g p. transformClaudeRequestIn 10 None ''agent/1/ab'' ''ua'' sample_request (Some ''p'') None = Some g \<and>
     p \<in> set (all_parts (gr_contents (gi_request g))) \<and> gp_thoughtSignature p = Some ''QUJDREVGR0hJ'' \<and>
     canonical_base64 ''QUJDREVGR0hJ''"
proof -
  obtain g where g: "transformClaudeRequestIn 10 None ''agent/1/ab'' ''ua'' sample_request (Some ''p'') None = Some g"
    by (rule sample_transform)
  let ?p = "thought_part ''search'' (Some ''QUJDREVGR0hJ'')"
  obtain think where "gr_contents (gi_request g) =
      buildContents None (rq_messages sample_request) \<lparr>toolIdToName = [], lastThoughtSignature = None\<rparr> think False"
    by (rule transform_request [OF g])
  moreover have "?p \<in> set (fst (block_parts None think (all_blocks (rq_messages sample_request)) \<lparr>toolIdToName = [], lastThoughtSignature = None\<rparr>))"
    by (auto simp: all_blocks_def sample_request_def content_blocks_def block_parts_Cons block_part_def sample_signature Let_def
        simp del: block_parts.simps(2))
  ultimately have p: "?p \<in> set (all_parts (gr_contents (gi_request g)))" by (simp add: contents_parts)
  have t: "gp_thoughtSignature ?p = Some ''QUJDREVGR0hJ''" by simp
  show ?thesis using signatures_are_not_fabricated [OF g p t] g p t by blast
qed

lemma tools_are_compatible_witness:
  "\<exists>g. transformClaudeRequestIn 10 None ''agent/1/ab'' ''ua'' sample_request (Some ''p'') None = Some g \<and>
     (\<forall>ts. gr_tools (gi_request g) = Some ts \<longrightarrow> tools_ok ts)"
proof -
  obtain g where g: "transformClaudeRequestIn 10 None ''agent/1/ab'' ''ua'' sample_request (Some ''p'') None = Some g"
    by (rule sample_transform)
  show ?thesis using tools_are_compatible [OF g] g by blast
qed

lemma thinking_needs_a_signature_witness:
  "\<exists>g c tc. transformClaudeRequestIn 10 None ''agent/1/ab'' ''ua'' sample_request (Some ''p'') None = Some g \<and>
     gr_generationConfig (gi_request g) = Some c \<and> thinkingConfig c = Some tc \<and> temperature c = None"
proof -
  obtain g where g: "transformClaudeRequestIn 10 None ''agent/1/ab'' ''ua'' sample_request (Some ''p'') None = Some g"
    by (rule sample_transform)
  have think: "thinking_enabled None m sample_request" for m
    by (simp add: thinking_enabled_def sample_request_def, code_simp)
  obtain rc cfg web where rc: "rc = resolveRequestConfig (rq_model sample_request)
       (if web then ''gemini-3-flash'' else mapClaudeModelToGemini (rq_model sample_request)) (rq_tools sample_request)"
      "web = detectsNetworkingTool (rq_tools sample_request)"
    and cfg: "cfg = buildGenerationConfig sample_request web (rc_finalModel rc) True"
      "gr_generationConfig (gi_request g) =
       (case rc_imageConfig rc of
          None \<Rightarrow> if cfg = no_config then None else Some cfg
        | Some ic \<Rightarrow> Some (cfg\<lparr>thinkingConfig := None, responseMimeType := None, responseModalities := None,
            imageConfig := Some ic\<rparr>))"
    by (rule transform_request [OF g]) (simp add: think)
  have "web = False" by (simp add: rc(2) sample_request_def detectsNetworkingTool_def)
  moreover have "rc_imageConfig (resolveRequestConfig (rq_model sample_request) (mapClaudeModelToGemini (rq_model sample_request)) (rq_tools sample_request)) = None"
    by code_simp
  ultimately have i: "rc_imageConfig rc = None" using rc by simp
  have t: "thinkingConfig cfg = Some (buildThinkingConfig sample_request web (rc_finalModel rc))"
    by (simp add: cfg generation_config_thinking)
  then have "cfg \<noteq> no_config" by (auto simp: no_config_def)
  then have c: "gr_generationConfig (gi_request g) = Some cfg" using cfg i by simp
  show ?thesis using thinking_needs_a_signature [OF g c t] g c t by blast
qed

end
