(* ===== verification/OpenAiRequest.thy ===== *)
theory OpenAiRequest
  imports ClaudeRequestFacts
begin

section \<open>OpenAI requests\<close>

text \<open>
  The request side of the OpenAI interface in \<open>server/proxy.service.ts\<close>: the model a request is routed to
  (\<open>resolveTargetModel\<close>), the session it belongs to, and \<open>convertOpenAIToClaude\<close>, which turns it into the
  Claude request that \<open>transformClaudeRequestIn\<close> converts further. A member \<open>content\<close> that is null or absent is
  \<open>OMissing\<close>; iterating over it throws, which is the error \<open>TypeErrorThrown\<close>. \<open>fresh\<close> gives the random tool ids.
\<close>

subsection \<open>Routing\<close>

definition is_line_terminator :: "char \<Rightarrow> bool" where
  "is_line_terminator c \<longleftrightarrow> c = CHR 0x0A \<or> c = CHR 0x0D"

text \<open>\<open>new RegExp(`^${escaped}$`, 'i').test(s)\<close> for a key in which only the star is special.\<close>

function wildcard_test :: "string \<Rightarrow> string \<Rightarrow> bool" where
  "wildcard_test [] s = (s = [])"
| "wildcard_test (p # ps) s =
     (if p = CHR ''*''
      then wildcard_test ps s \<or> (case s of [] \<Rightarrow> False | c # cs \<Rightarrow> \<not> is_line_terminator c \<and> wildcard_test (p # ps) cs)
      else (case s of [] \<Rightarrow> False | c # cs \<Rightarrow> lower_char p = lower_char c \<and> wildcard_test ps cs))"
  by pat_completeness auto
termination by (relation "measure (\<lambda>(p, s). length p + length s)") auto

definition is_wildcard :: "string \<Rightarrow> bool" where
  "is_wildcard key \<longleftrightarrow> CHR ''*'' \<in> set key"

definition usable_rule :: "string \<times> string \<Rightarrow> bool" where
  "usable_rule kt \<longleftrightarrow> fst kt \<noteq> [] \<and> snd kt \<noteq> []"

definition configuredMapping :: "string js_map \<Rightarrow> string js_map \<Rightarrow> string js_map" where
  "configuredMapping custom_mapping anthropic_mapping = fold (\<lambda>(k, v). AList.update k v) anthropic_mapping custom_mapping"

definition resolveTargetModel :: "string js_map \<Rightarrow> string js_map \<Rightarrow> string js_map \<Rightarrow> string \<Rightarrow> string" where
  "resolveTargetModel rules custom_mapping anthropic_mapping model =
     (let normalizedModel = normalizeModelIdentifier model;
          rs = filter usable_rule (configuredMapping custom_mapping anthropic_mapping)
      in case List.find (\<lambda>(k, _). is_wildcard k \<and> wildcard_test k normalizedModel) rs of
           Some (_, target) \<Rightarrow> target
         | None \<Rightarrow> normalizeGeminiModelAlias
             (resolveModelRoute rules normalizedModel (filter (\<lambda>(k, _). \<not> is_wildcard k) rs) [] []))"

definition createModelSpecificHeaders :: "string option \<Rightarrow> string js_map" where
  "createModelSpecificHeaders model =
     (case model of
        Some m \<Rightarrow>
          if str_contains (js_lower m) ''claude''
          then [(''anthropic-beta'',
                 ''claude-code-20250219,interleaved-thinking-2025-05-14,fine-grained-tool-streaming-2025-05-14'')]
          else []
      | None \<Rightarrow> [])"

text \<open>\<open>a ?? b\<close>: null and absent members fall through.\<close>

definition coalesce :: "json option list \<Rightarrow> json option" where
  "coalesce vs = Option.bind (List.find (\<lambda>v. v \<noteq> None \<and> v \<noteq> Some JNull) vs) (\<lambda>v. v)"

definition session_key :: "string \<Rightarrow> json option \<Rightarrow> string option" where
  "session_key pre v =
     (case coalesce [jget_opt v ''session_id'', jget_opt v ''sessionId'', jget_opt v ''user_id'', jget_opt v ''userId''] of
        Some (JStr s) \<Rightarrow> if js_trim s = [] then None else Some (pre @ js_trim s)
      | _ \<Rightarrow> None)"

definition extractAnthropicSessionKey :: "json option \<Rightarrow> string option" where
  "extractAnthropicSessionKey metadata = session_key ''anthropic:'' metadata"

definition extractOpenAISessionKey :: "json option \<Rightarrow> string option" where
  "extractOpenAISessionKey extra = session_key ''openai:'' extra"

subsection \<open>The request\<close>

datatype openai_part = OTextPart "string option" | OImagePart "string option" | OOtherPart

datatype openai_content = OText string | OParts "openai_part list" | OMissing

record openai_tool_call =
  otc_id :: string
  otc_name :: string
  otc_arguments :: string

record openai_message =
  om_role :: string
  om_content :: openai_content
  om_name :: "string option"
  om_tool_calls :: "openai_tool_call list option"
  om_tool_call_id :: "string option"

record openai_function =
  ofn_name :: "string option"
  ofn_description :: "string option"
  ofn_parameters :: "json option"

record openai_tool =
  ot_type :: "string option"
  ot_function :: "openai_function option"

record openai_request =
  oq_model :: string
  oq_messages :: "openai_message list"
  oq_temperature :: "rat option"
  oq_top_p :: "rat option"
  oq_max_tokens :: "rat option"
  oq_tools :: "openai_tool option list option"
  oq_extra :: "json option"

datatype conversion_error = TypeErrorThrown | StackOverflow

definition extractOpenAITextContent :: "openai_content \<Rightarrow> string option" where
  "extractOpenAITextContent content =
     (case content of
        OText s \<Rightarrow> Some s
      | OParts ps \<Rightarrow> Some (join newline (List.map_filter
          (\<lambda>p. case p of OTextPart t \<Rightarrow> Some (case t of None \<Rightarrow> [] | Some s \<Rightarrow> s) | _ \<Rightarrow> None) ps))
      | OMissing \<Rightarrow> None)"

text \<open>The media type and the data of a base64 data URI, as the regular expression of the source takes it apart.\<close>

definition data_uri :: "string \<Rightarrow> (string \<times> string) option" where
  "data_uri url =
     (let r = drop 5 url; mime = takeWhile (\<lambda>c. c \<noteq> CHR '';'') r; rest = dropWhile (\<lambda>c. c \<noteq> CHR '';'') r; data = drop 8 rest
      in if starts_with url ''data:'' \<and> mime \<noteq> [] \<and> starts_with rest '';base64,'' \<and> data \<noteq> [] \<and>
            \<not> list_ex is_line_terminator data
         then Some (mime, data) else None)"

definition convert_part :: "openai_part \<Rightarrow> claude_part option" where
  "convert_part p =
     (case p of
        OTextPart (Some t) \<Rightarrow> if t = [] then None else Some (TextPart t)
      | OImagePart (Some url) \<Rightarrow>
          if url = [] then None
          else (case data_uri url of
                  Some (mime, data) \<Rightarrow> Some (ImagePart ''base64'' mime data)
                | None \<Rightarrow> Some (TextPart (''[image_url] '' @ url)))
      | _ \<Rightarrow> None)"

definition convertOpenAIPartsToAnthropicContent :: "openai_content \<Rightarrow> claude_part list option" where
  "convertOpenAIPartsToAnthropicContent content =
     (case content of
        OText s \<Rightarrow> Some (if js_trim s = [] then [] else [TextPart s])
      | OParts ps \<Rightarrow> Some (List.map_filter convert_part ps)
      | OMissing \<Rightarrow> None)"

definition parseOpenAIFunctionArguments :: "string \<Rightarrow> json" where
  "parseOpenAIFunctionArguments argumentsString =
     (if js_trim argumentsString = [] then JObj []
      else (case json_parse argumentsString of
              Some (JObj m) \<Rightarrow> JObj m
            | Some v \<Rightarrow> JObj [(''value'', v)]
            | None \<Rightarrow> JObj [(''raw'', JStr argumentsString)]))"

definition tool_use_of :: "openai_tool_call \<Rightarrow> claude_part" where
  "tool_use_of c = ToolUsePart (otc_id c) (otc_name c) (parseOpenAIFunctionArguments (otc_arguments c)) None"

definition first_nonempty :: "string option list \<Rightarrow> string \<Rightarrow> string" where
  "first_nonempty xs d = (case first_truthy xs of Some s \<Rightarrow> s | None \<Rightarrow> d)"

text \<open>A message contributes to the system prompt or becomes one Claude message.\<close>

definition convert_message :: "string \<Rightarrow> openai_message \<Rightarrow> (string list \<times> message list) option" where
  "convert_message freshId msg =
     (if om_role msg = ''system''
      then map_option (\<lambda>t. (if t = [] then [] else [t], [])) (extractOpenAITextContent (om_content msg))
      else if om_role msg = ''tool''
      then map_option (\<lambda>t. ([], [\<lparr>m_role = ''user'', m_content = Blocks
             [ToolResultPart (first_nonempty [om_tool_call_id msg, om_name msg] freshId) (Plain t) False]\<rparr>]))
           (extractOpenAITextContent (om_content msg))
      else map_option (\<lambda>blocks.
             (let calls = (if om_role msg = ''assistant'' then (case om_tool_calls msg of Some cs \<Rightarrow> map tool_use_of cs | None \<Rightarrow> []) else []);
                  contentBlocks = blocks @ calls
              in ([], [\<lparr>m_role = (if om_role msg = ''assistant'' then ''assistant'' else ''user''),
                    m_content = (if contentBlocks = [] then Plain [] else Blocks contentBlocks)\<rparr>])))
           (convertOpenAIPartsToAnthropicContent (om_content msg)))"

fun convert_messages :: "(nat \<Rightarrow> string) \<Rightarrow> nat \<Rightarrow> openai_message list \<Rightarrow> (string list \<times> message list) option" where
  "convert_messages fresh k [] = Some ([], [])"
| "convert_messages fresh k (msg # msgs) =
     (case convert_message (fresh k) msg of
        None \<Rightarrow> None
      | Some (sys, ms) \<Rightarrow> map_option (\<lambda>(sys', ms'). (sys @ sys', ms @ ms')) (convert_messages fresh (Suc k) msgs))"

definition searchToolTypes :: "string list" where
  "searchToolTypes = [''web_search_20250305'', ''google_search'', ''google_search_retrieval'', ''builtin_web_search'']"

definition convert_tool :: "nat \<Rightarrow> openai_tool \<Rightarrow> tool list option" where
  "convert_tool depth t =
     (let toolType = (case ot_type t of Some ty \<Rightarrow> js_lower ty | None \<Rightarrow> []);
          functionName = (case Option.bind (ot_function t) ofn_name of Some n \<Rightarrow> n | None \<Rightarrow> [])
      in if toolType \<in> set searchToolTypes \<or> js_lower functionName \<in> set searchToolTypes
         then Some [\<lparr>t_name = Some (if functionName = [] then ''builtin_web_search'' else functionName), t_description = None,
               t_input_schema = Some (JObj [(''type'', JStr ''object''), (''properties'', JObj [])]),
               t_type = Some ''web_search_20250305''\<rparr>]
         else (case ot_function t of
                 None \<Rightarrow> Some []
               | Some f \<Rightarrow>
                   if functionName = [] then Some []
                   else map_option (\<lambda>inputSchema. [\<lparr>t_name = Some functionName, t_description = ofn_description f,
                            t_input_schema = Some inputSchema, t_type = None\<rparr>])
                          (normalizeObjectJsonSchema depth (ofn_parameters f))))"

fun convert_tools :: "nat \<Rightarrow> openai_tool option list \<Rightarrow> tool list option" where
  "convert_tools depth [] = Some []"
| "convert_tools depth (t # ts) =
     (case (case t of None \<Rightarrow> Some [] | Some t' \<Rightarrow> convert_tool depth t') of
        None \<Rightarrow> None
      | Some xs \<Rightarrow> map_option ((@) xs) (convert_tools depth ts))"

definition convertOpenAIToolsToAnthropicTools :: "nat \<Rightarrow> openai_tool option list option \<Rightarrow> tool list option option" where
  "convertOpenAIToolsToAnthropicTools depth tools =
     (case tools of None \<Rightarrow> Some None | Some ts \<Rightarrow> map_option nonempty_list (convert_tools depth ts))"

definition convertOpenAIToClaude ::
    "nat \<Rightarrow> (nat \<Rightarrow> string) \<Rightarrow> openai_request \<Rightarrow> conversion_error + claude_request" where
  "convertOpenAIToClaude depth fresh request =
     (case convert_messages fresh 0 (oq_messages request) of
        None \<Rightarrow> Inl TypeErrorThrown
      | Some (systemPromptParts, anthropicMessages) \<Rightarrow>
          (case convertOpenAIToolsToAnthropicTools depth (oq_tools request) of
             None \<Rightarrow> Inl StackOverflow
           | Some tools \<Rightarrow>
               Inr \<lparr>rq_model = oq_model request, rq_messages = anthropicMessages,
                    rq_system = (if systemPromptParts = [] then None else Some (Plain (join newline systemPromptParts))),
                    rq_tools = tools, rq_max_tokens = oq_max_tokens request, rq_stop_sequences = None,
                    rq_temperature = oq_temperature request, rq_top_p = oq_top_p request, rq_top_k = None,
                    rq_thinking = None, rq_source = Some ''openai''\<rparr>))"

subsection \<open>Wildcard keys\<close>

lemma wildcard_literal: "CHR ''*'' \<notin> set p \<Longrightarrow> wildcard_test p s \<longleftrightarrow> js_lower p = js_lower s"
proof (induction p arbitrary: s)
  case Nil
  show ?case by (auto simp: js_lower_def)
next
  case (Cons a p)
  then show ?case by (cases s) (auto simp: js_lower_def)
qed

lemma wildcard_star:
  "wildcard_test (CHR ''*'' # q) s \<longleftrightarrow> (\<exists>x b. s = x @ b \<and> \<not> list_ex is_line_terminator x \<and> wildcard_test q b)"
proof (induction s)
  case Nil
  show ?case by auto
next
  case (Cons c s)
  show ?case
  proof
    assume "wildcard_test (CHR ''*'' # q) (c # s)"
    then consider "wildcard_test q (c # s)" | "\<not> is_line_terminator c" "wildcard_test (CHR ''*'' # q) s" by auto
    then show "\<exists>x b. c # s = x @ b \<and> \<not> list_ex is_line_terminator x \<and> wildcard_test q b"
    proof cases
      case 1
      then show ?thesis by (intro exI [of _ "[]"] exI [of _ "c # s"]) simp
    next
      case 2
      with Cons.IH obtain x b where "s = x @ b" "\<not> list_ex is_line_terminator x" "wildcard_test q b" by blast
      with 2 show ?thesis by (intro exI [of _ "c # x"] exI [of _ b]) simp
    qed
  next
    assume "\<exists>x b. c # s = x @ b \<and> \<not> list_ex is_line_terminator x \<and> wildcard_test q b"
    then obtain x b where x: "c # s = x @ b" "\<not> list_ex is_line_terminator x" "wildcard_test q b" by blast
    show "wildcard_test (CHR ''*'' # q) (c # s)"
    proof (cases x)
      case Nil
      with x show ?thesis by auto
    next
      case (Cons d y)
      with x Cons.IH have "wildcard_test (CHR ''*'' # q) s" "\<not> is_line_terminator c" by auto
      then show ?thesis by simp
    qed
  qed
qed

text \<open>A key with one star matches the names that begin and end like it, whatever the case of their letters.\<close>

lemma wildcard_one_star:
  assumes "CHR ''*'' \<notin> set p" "CHR ''*'' \<notin> set q"
  shows "wildcard_test (p @ CHR ''*'' # q) s \<longleftrightarrow>
    (\<exists>a x b. s = a @ x @ b \<and> js_lower a = js_lower p \<and> \<not> list_ex is_line_terminator x \<and> js_lower b = js_lower q)"
  using assms(1)
proof (induction p arbitrary: s)
  case Nil
  show ?case using wildcard_star [of q s] wildcard_literal [OF assms(2)] by (simp add: js_lower_def) metis
next
  case (Cons c p)
  show ?case
  proof (cases s)
    case Nil
    then show ?thesis using Cons.prems by (auto simp: js_lower_def)
  next
    case s: (Cons d s')
    have "(\<exists>a x b. d # s' = a @ x @ b \<and> js_lower a = js_lower (c # p) \<and> \<not> list_ex is_line_terminator x \<and> js_lower b = js_lower q)
        \<longleftrightarrow> lower_char c = lower_char d \<and>
          (\<exists>a x b. s' = a @ x @ b \<and> js_lower a = js_lower p \<and> \<not> list_ex is_line_terminator x \<and> js_lower b = js_lower q)"
      (is "?l \<longleftrightarrow> ?r")
    proof
      assume ?l
      then obtain a x b where a: "d # s' = a @ x @ b" "js_lower a = js_lower (c # p)" "\<not> list_ex is_line_terminator x"
          "js_lower b = js_lower q" by blast
      from a(2) obtain e a' where "a = e # a'" "lower_char e = lower_char c" "js_lower a' = js_lower p"
        by (cases a) (auto simp: js_lower_def)
      with a show ?r by auto
    next
      assume r: ?r
      then obtain a x b where "s' = a @ x @ b" "js_lower a = js_lower p" "\<not> list_ex is_line_terminator x" "js_lower b = js_lower q"
        by blast
      with r show ?l by (intro exI [of _ "d # a"] exI [of _ x] exI [of _ b]) (simp add: js_lower_def)
    qed
    moreover from Cons.prems have "c \<noteq> CHR ''*''" by auto
    ultimately show ?thesis using Cons.IH [of s'] Cons.prems s by simp
  qed
qed

text \<open>A wildcard key that matches wins over an exact key, whichever was configured.\<close>

lemma wildcard_shadows_exact:
  assumes "is_wildcard k" "wildcard_test k (normalizeModelIdentifier model)" "k \<noteq> []" "t \<noteq> []"
  shows "resolveTargetModel rules [(normalizeModelIdentifier model, exact), (k, t)] [] model \<in> {t, exact}"
    "\<not> is_wildcard (normalizeModelIdentifier model) \<Longrightarrow>
     resolveTargetModel rules [(normalizeModelIdentifier model, exact), (k, t)] [] model = t"
  using assms by (auto simp: resolveTargetModel_def configuredMapping_def usable_rule_def Let_def)

subsection \<open>What the conversion keeps\<close>

fun openai_blocks :: "(nat \<Rightarrow> string) \<Rightarrow> nat \<Rightarrow> openai_message list \<Rightarrow> claude_part list" where
  "openai_blocks fresh k [] = []"
| "openai_blocks fresh k (msg # msgs) =
     (case convert_message (fresh k) msg of Some (_, ms) \<Rightarrow> all_blocks ms | None \<Rightarrow> []) @ openai_blocks fresh (Suc k) msgs"

lemma all_blocks_append: "all_blocks (xs @ ys) = all_blocks xs @ all_blocks ys"
  by (simp add: all_blocks_def)

lemma converted_blocks: "convert_messages fresh k msgs = Some (sys, ms) \<Longrightarrow> all_blocks ms = openai_blocks fresh k msgs"
proof (induction msgs arbitrary: k sys ms)
  case Nil
  then show ?case by (simp add: all_blocks_def)
next
  case (Cons m msgs)
  then show ?case by (auto simp: all_blocks_append split: option.splits)
qed

definition message_calls :: "openai_message \<Rightarrow> openai_tool_call list" where
  "message_calls m = (if om_role m = ''assistant'' then (case om_tool_calls m of Some cs \<Rightarrow> cs | None \<Rightarrow> []) else [])"

definition message_texts :: "openai_message \<Rightarrow> string list" where
  "message_texts m =
     (if om_role m \<in> {''system'', ''tool''} then []
      else case om_content m of
        OText s \<Rightarrow> [s]
      | OParts ps \<Rightarrow> List.map_filter (\<lambda>p. case convert_part p of Some (TextPart t) \<Rightarrow> Some t | _ \<Rightarrow> None) ps
      | OMissing \<Rightarrow> [])"

definition sent_text :: "string \<Rightarrow> string option" where
  "sent_text t = (if t = ''(no content)'' then None else forwarded_text t)"

definition call_of :: "openai_tool_call \<Rightarrow> function_call" where
  "call_of c = \<lparr>fc_name = otc_name c, fc_args = Some (parseOpenAIFunctionArguments (otc_arguments c)), fc_id = Some (otc_id c)\<rparr>"

text \<open>
  How a call in a Gemini request is the call of an OpenAI message: the same name and id, and for arguments that are the
  text of an object what is left of that object. Other arguments are wrapped, and blank ones are no arguments.
\<close>

definition same_openai_call :: "openai_tool_call \<Rightarrow> function_call \<Rightarrow> bool" where
  "same_openai_call c f \<longleftrightarrow> fc_name f = otc_name c \<and> fc_id f = Some (otc_id c) \<and>
     (if js_trim (otc_arguments c) = [] then fc_args f = Some (JObj [])
      else case json_parse (otc_arguments c) of
        Some (JObj m) \<Rightarrow> (\<exists>v. fc_args f = Some v \<and> arguments_kept (JObj m) v)
      | Some w \<Rightarrow> (\<exists>v. fc_args f = Some v \<and> arguments_kept (JObj [(''value'', w)]) v)
      | None \<Rightarrow> fc_args f = Some (JObj [(''raw'', JStr (otc_arguments c))]))"

lemma small_arguments: "cleaned_schema (JObj [])" "cleaned_schema (JObj [(''raw'', JStr s)])"
  by (simp_all add: clean_members_def constraint_words_def unsupported_words_def)

lemma same_call_openai: "same_call (call_of c) f \<Longrightarrow> same_openai_call c f"
  using small_arguments
  by (auto simp: same_call_def same_openai_call_def call_of_def option_rel_Some1 parseOpenAIFunctionArguments_def
      arguments_kept_def simp del: survives.simps cleaned_schema.simps split: option.splits json.splits)

lemma same_calls_openai: "list_all2 same_call (map call_of cs) fs \<Longrightarrow> list_all2 same_openai_call cs fs"
  by (simp add: list_all2_map1 list_all2_mono [OF _ same_call_openai])

lemma map_filter_append [simp]: "List.map_filter f (xs @ ys) = List.map_filter f xs @ List.map_filter f ys"
  by (induction xs) (auto split: option.split)

lemma convert_part_view:
  "List.map_filter block_call (List.map_filter convert_part ps) = []"
  "List.map_filter visible_text (List.map_filter convert_part ps) =
     List.map_filter sent_text (List.map_filter (\<lambda>p. case convert_part p of Some (TextPart t) \<Rightarrow> Some t | _ \<Rightarrow> None) ps)"
  by (induction ps)
    (auto simp: convert_part_def block_call_def visible_text_def sent_text_def split: openai_part.split option.split)

lemma tool_uses_view:
  "List.map_filter block_call (map tool_use_of cs) = map call_of cs" "List.map_filter visible_text (map tool_use_of cs) = []"
  by (induction cs) (simp_all add: tool_use_of_def block_call_def call_of_def visible_text_def)

lemma blank_not_forwarded: "js_trim s = [] \<Longrightarrow> sent_text s = None"
  by (simp add: sent_text_def forwarded_text_def)

lemma message_view:
  assumes "convert_message i m = Some (sys, ms)"
  shows "List.map_filter block_call (all_blocks ms) = map call_of (message_calls m)"
    "List.map_filter visible_text (all_blocks ms) = List.map_filter sent_text (message_texts m)"
proof -
  let ?calls = "case om_tool_calls m of Some cs \<Rightarrow> map tool_use_of cs | None \<Rightarrow> []"
  consider (system) "om_role m = ''system''" "ms = []" | (tool) "om_role m = ''tool''"
      "\<exists>n c e. ms = [\<lparr>m_role = ''user'', m_content = Blocks [ToolResultPart n c e]\<rparr>]"
    | (chat) blocks where "om_role m \<notin> {''system'', ''tool''}" "convertOpenAIPartsToAnthropicContent (om_content m) = Some blocks"
      "all_blocks ms = blocks @ (if om_role m = ''assistant'' then ?calls else [])"
    using assms by (auto simp: convert_message_def all_blocks_def content_blocks_def Let_def split: if_splits)
  then have "List.map_filter block_call (all_blocks ms) = map call_of (message_calls m) \<and>
    List.map_filter visible_text (all_blocks ms) = List.map_filter sent_text (message_texts m)"
  proof cases
    case system
    then show ?thesis by (simp add: all_blocks_def message_calls_def message_texts_def)
  next
    case tool
    then show ?thesis by (auto simp: all_blocks_def content_blocks_def message_calls_def message_texts_def block_call_def visible_text_def)
  next
    case (chat blocks)
    have calls: "List.map_filter block_call (if om_role m = ''assistant'' then ?calls else []) = map call_of (message_calls m)"
      "List.map_filter visible_text (if om_role m = ''assistant'' then ?calls else []) = []"
      by (simp_all add: message_calls_def tool_uses_view split: option.split)
    have "List.map_filter block_call blocks = [] \<and> List.map_filter visible_text blocks = List.map_filter sent_text (message_texts m)"
      using chat(1,2) by (cases "om_content m")
        (auto simp: convertOpenAIPartsToAnthropicContent_def message_texts_def convert_part_view block_call_def visible_text_def
          sent_text_def [symmetric] blank_not_forwarded split: option.split)
    with calls show ?thesis by (simp only: chat(3) map_filter_append append_Nil append_Nil2)
  qed
  then show "List.map_filter block_call (all_blocks ms) = map call_of (message_calls m)"
    "List.map_filter visible_text (all_blocks ms) = List.map_filter sent_text (message_texts m)" by auto
qed

lemma conversation_view:
  assumes "convert_messages fresh k msgs = Some (sys, ms)"
  shows "List.map_filter block_call (all_blocks ms) = map call_of (concat (map message_calls msgs))"
    "List.map_filter visible_text (all_blocks ms) = List.map_filter sent_text (concat (map message_texts msgs))"
proof -
  have "List.map_filter block_call (all_blocks ms) = map call_of (concat (map message_calls msgs)) \<and>
    List.map_filter visible_text (all_blocks ms) = List.map_filter sent_text (concat (map message_texts msgs))"
    using assms
  proof (induction msgs arbitrary: k sys ms)
    case Nil
    then show ?case by (simp add: all_blocks_def)
  next
    case (Cons m msgs)
    then obtain s1 m1 s2 m2 where "convert_message (fresh k) m = Some (s1, m1)"
        "convert_messages fresh (Suc k) msgs = Some (s2, m2)" "ms = m1 @ m2"
      by (auto split: option.splits)
    with Cons.IH message_view show ?case by (simp add: all_blocks_append)
  qed
  then show "List.map_filter block_call (all_blocks ms) = map call_of (concat (map message_calls msgs))"
    "List.map_filter visible_text (all_blocks ms) = List.map_filter sent_text (concat (map message_texts msgs))" by auto
qed


lemma convert_message_fails: "convert_message i m = None \<longleftrightarrow> om_content m = OMissing"
  by (simp add: convert_message_def extractOpenAITextContent_def convertOpenAIPartsToAnthropicContent_def
      split: openai_content.split)

lemma convert_messages_fails: "convert_messages fresh k msgs = None \<longleftrightarrow> (\<exists>m\<in>set msgs. om_content m = OMissing)"
proof (induction msgs arbitrary: k)
  case (Cons m msgs)
  then show ?case using convert_message_fails [of "fresh k" m] by (cases "convert_message (fresh k) m") auto
qed simp

text \<open>One message without content makes the whole request fail: the conversion throws exactly when the content of
  some message is null or absent, as OpenAI clients send it with the tool calls of an assistant turn.\<close>

theorem message_without_content_fails:
  "convertOpenAIToClaude depth fresh q = Inl TypeErrorThrown \<longleftrightarrow> (\<exists>m\<in>set (oq_messages q). om_content m = OMissing)"
  using convert_messages_fails [of fresh 0 "oq_messages q"]
  by (auto simp: convertOpenAIToClaude_def split: option.splits)

definition sample_call :: openai_tool_call where
  "sample_call = \<lparr>otc_id = ''c1'', otc_name = ''read'',
     otc_arguments = [CHR ''{'', CHR 0x22] @ ''path'' @ [CHR 0x22, CHR '':'', CHR 0x22] @ ''src'' @ [CHR 0x22, CHR ''}'']\<rparr>"

definition sample_openai :: openai_request where
  "sample_openai = \<lparr>oq_model = ''gpt-4o'', oq_messages =
      [\<lparr>om_role = ''user'', om_content = OText '' hi '', om_name = None, om_tool_calls = None, om_tool_call_id = None\<rparr>,
       \<lparr>om_role = ''assistant'', om_content = OText [], om_name = None,
        om_tool_calls = Some [sample_call], om_tool_call_id = None\<rparr>],
      oq_temperature = None, oq_top_p = None, oq_max_tokens = None, oq_tools = None, oq_extra = None\<rparr>"


end
