(* ===== verification/SseLines.thy ===== *)
theory SseLines
  imports GeminiParts RateLimit
begin

section \<open>Reading server-sent events line by line\<close>

text \<open>
  The four stream consumers of \<open>server/proxy.service.ts\<close> read the upstream in the same way: the
  decoded text of a data chunk is appended to a buffer, complete lines are handled in order and the last,
  incomplete line stays in the buffer. \<open>line_reader\<close> is that contract; its consequence, that the
  result does not depend on how the text is cut into chunks, is proved once and used by every consumer.
  A chunk is the text that the streaming \<open>TextDecoder\<close> returns for the bytes of one data event.
\<close>

fun run_lines :: "(string \<Rightarrow> 's \<Rightarrow> 'o list \<times> 's) \<Rightarrow> string list \<Rightarrow> 's \<Rightarrow> 'o list \<times> 's" where
  "run_lines step [] s = ([], s)"
| "run_lines step (l # ls) s = (let (o1, s1) = step l s; (o2, s2) = run_lines step ls s1 in (o1 @ o2, s2))"

fun run_chunks :: "(string \<Rightarrow> string \<times> 's \<Rightarrow> 'o list \<times> (string \<times> 's)) \<Rightarrow> string list \<Rightarrow> string \<times> 's
    \<Rightarrow> 'o list \<times> (string \<times> 's)" where
  "run_chunks data [] s = ([], s)"
| "run_chunks data (c # cs) s = (let (o1, s1) = data c s; (o2, s2) = run_chunks data cs s1 in (o1 @ o2, s2))"

definition linefeed :: char where "linefeed = CHR 0x0A"

definition complete_lines :: "string \<Rightarrow> string list" where
  "complete_lines text = butlast (split_on linefeed text)"

definition open_line :: "string \<Rightarrow> string" where
  "open_line text = last (split_on linefeed text)"

lemma run_lines_append:
  "run_lines step (xs @ ys) s =
     (let (o1, s1) = run_lines step xs s; (o2, s2) = run_lines step ys s1 in (o1 @ o2, s2))"
  by (induction xs arbitrary: s) (auto simp: Let_def split: prod.splits)

lemma split_on_append:
  "split_on d (s @ t) = butlast (split_on d s) @ split_on d (last (split_on d s) @ t)"
proof (induction s)
  case Nil
  show ?case by simp
next
  case (Cons c s)
  obtain w ws where w: "split_on d s = w # ws" by (meson split_on_nonempty neq_Nil_conv)
  show ?case
  proof (cases "c = d")
    case True
    then show ?thesis using Cons.IH w by simp
  next
    case False
    obtain v vs where v: "split_on d (s @ t) = v # vs" by (meson split_on_nonempty neq_Nil_conv)
    show ?thesis
    proof (cases ws)
      case Nil
      with Cons.IH w have "split_on d (s @ t) = split_on d (w @ t)" by simp
      with Nil w False show ?thesis by simp
    next
      case (Cons x xs)
      with Cons.IH w v have "v = w" by simp
      with Cons Cons.IH w v False show ?thesis by simp
    qed
  qed
qed

lemma open_line_append: "open_line (s @ t) = open_line (open_line s @ t)"
  by (simp add: open_line_def split_on_append [of linefeed s t])

lemma complete_lines_append: "complete_lines (s @ t) = complete_lines s @ complete_lines (open_line s @ t)"
  by (simp add: complete_lines_def open_line_def split_on_append [of linefeed s t] butlast_append)

lemma line_no_sep: "w \<in> set (split_on d s) \<Longrightarrow> d \<notin> set w"
proof (induction s arbitrary: w)
  case Nil
  then show ?case by simp
next
  case (Cons c s)
  obtain v vs where v: "split_on d s = v # vs" by (meson split_on_nonempty neq_Nil_conv)
  with Cons show ?case by (auto split: if_splits)
qed

lemma split_open_line: "split_on linefeed (open_line s) = [open_line s]"
  by (rule split_on_no_sep) (simp add: open_line_def line_no_sep [OF last_in_set])

lemma open_line_simps [simp]: "open_line [] = []" "complete_lines [] = []"
  by (simp_all add: open_line_def complete_lines_def)

lemma complete_lines_open [simp]: "complete_lines (open_line s) = []" "open_line (open_line s) = open_line s"
  using split_open_line [of s] by (simp_all add: complete_lines_def open_line_def)

locale line_reader =
  fixes step :: "string \<Rightarrow> 's \<Rightarrow> 'o list \<times> 's"
    and data :: "string \<Rightarrow> string \<times> 's \<Rightarrow> 'o list \<times> (string \<times> 's)"
  assumes data_eq: "data chunk (buffer, s) =
    (let (os, s') = run_lines step (complete_lines (buffer @ chunk)) s in (os, (open_line (buffer @ chunk), s')))"
begin

lemma chunks_eq:
  assumes "open_line buffer = buffer" "complete_lines buffer = []"
  shows "run_chunks data chunks (buffer, s) =
    (let (os, s') = run_lines step (complete_lines (buffer @ concat chunks)) s
     in (os, (open_line (buffer @ concat chunks), s')))"
  using assms
proof (induction chunks arbitrary: buffer s)
  case Nil
  then show ?case by simp
next
  case (Cons c cs)
  obtain o1 s1 where l1: "run_lines step (complete_lines (buffer @ c)) s = (o1, s1)" by (rule prod.exhaust)
  obtain o2 s2 where l2: "run_lines step (complete_lines (open_line (buffer @ c) @ concat cs)) s1 = (o2, s2)"
    by (rule prod.exhaust)
  have "run_lines step (complete_lines (buffer @ c @ concat cs)) s = (o1 @ o2, s2)"
    using complete_lines_append [of "buffer @ c" "concat cs"] l1 l2 by (simp add: run_lines_append)
  moreover have "open_line (buffer @ c @ concat cs) = open_line (open_line (buffer @ c) @ concat cs)"
    using open_line_append [of "buffer @ c" "concat cs"] by simp
  ultimately show ?case
    using l1 l2 Cons.IH [of "open_line (buffer @ c)" s1] by (simp add: data_eq)
qed

lemma chunks_from_empty:
  "run_chunks data chunks ([], s) =
    (let (os, s') = run_lines step (complete_lines (concat chunks)) s in (os, (open_line (concat chunks), s')))"
  using chunks_eq [of "[]"] by simp

lemma chunking_is_irrelevant:
  "concat chunks = concat chunks' \<Longrightarrow> run_chunks data chunks ([], s) = run_chunks data chunks' ([], s)"
  by (simp add: chunks_from_empty)

end

subsection \<open>Data lines\<close>

text \<open>The payload of a line that the Claude, OpenAI and collecting consumers read.\<close>

definition data_payload :: "string \<Rightarrow> string option" where
  "data_payload line =
     (let trimmed = js_trim line
      in if \<not> starts_with trimmed ''data: '' then None
         else (let dataStr = drop 6 trimmed in if dataStr = ''[DONE]'' then None else Some dataStr))"

definition is_plain :: "json \<Rightarrow> bool" where
  "is_plain v = (case v of JObj _ \<Rightarrow> True | _ \<Rightarrow> False)"

text \<open>\<open>v?.[0]\<close>.\<close>

definition first_element :: "json option \<Rightarrow> json option" where
  "first_element v =
     (case v of
        Some (JArr (x # xs)) \<Rightarrow> Some x
      | Some (JObj m) \<Rightarrow> map_of m ''0''
      | Some (JStr (c # s)) \<Rightarrow> Some (JStr [c])
      | _ \<Rightarrow> None)"

definition candidate_of :: "json \<Rightarrow> json option" where
  "candidate_of v = first_element (jget v ''candidates'')"

definition parts_of :: "json option \<Rightarrow> json option" where
  "parts_of candidate = jget_opt (jget_opt candidate ''content'') ''parts''"

text \<open>
  A part as the typed code sees it. A member whose value does not have its declared type counts as absent.
\<close>

definition string_member :: "json \<Rightarrow> string \<Rightarrow> string \<Rightarrow> string" where
  "string_member v k d = (case jget v k of Some (JStr s) \<Rightarrow> s | _ \<Rightarrow> d)"

definition call_of_json :: "json \<Rightarrow> function_call" where
  "call_of_json v = \<lparr>fc_name = string_member v ''name'' ''undefined'', fc_args = jget v ''args'',
     fc_id = as_string (jget v ''id'')\<rparr>"

definition part_of_json :: "json \<Rightarrow> gemini_part" where
  "part_of_json v =
     \<lparr>gp_text = as_string (jget v ''text''),
      gp_thought = truthy_opt (jget v ''thought''),
      gp_thoughtSignature = as_string (jget v ''thoughtSignature''),
      gp_functionCall = (case jget v ''functionCall'' of
          Some (JObj m) \<Rightarrow> Some (call_of_json (JObj m)) | _ \<Rightarrow> None),
      gp_inlineData = (case jget v ''inlineData'' of
          Some (JObj m) \<Rightarrow> Some (string_member (JObj m) ''mimeType'' ''undefined'', string_member (JObj m) ''data'' [])
        | _ \<Rightarrow> None)\<rparr>"

text \<open>\<open>Array.isArray(parts)\<close>, then the plain objects of the array.\<close>

definition plain_parts :: "json option \<Rightarrow> json list" where
  "plain_parts parts = (case parts of Some (JArr ps) \<Rightarrow> filter is_plain ps | _ \<Rightarrow> [])"

subsection \<open>The Gemini stream, passed through\<close>

definition unwrapGeminiInternalResponsePayload :: "string \<Rightarrow> string" where
  "unwrapGeminiInternalResponsePayload payload =
     (case json_parse payload of
        None \<Rightarrow> payload
      | Some parsed \<Rightarrow>
          (case jget parsed ''response'' of
             Some r \<Rightarrow> if is_object_like r then json_stringify r else payload
           | None \<Rightarrow> payload))"

definition emitNormalizedGeminiSseLine :: "string \<Rightarrow> string list" where
  "emitNormalizedGeminiSseLine line =
     (let trimmed = js_trim line
      in if trimmed = [] then []
         else if \<not> starts_with trimmed ''data:'' then [line @ newline]
         else (let payload = js_trim (drop 5 trimmed)
               in if payload = [] \<or> payload = ''[DONE]'' then [''data: '' @ payload @ newline @ newline]
                  else [''data: '' @ unwrapGeminiInternalResponsePayload payload @ newline @ newline]))"

definition passthrough_line :: "string \<Rightarrow> unit \<Rightarrow> string list \<times> unit" where
  "passthrough_line line s = (emitNormalizedGeminiSseLine line, s)"

definition passthrough_data :: "string \<Rightarrow> string \<times> unit \<Rightarrow> string list \<times> (string \<times> unit)" where
  "passthrough_data chunk st =
     (let (buffer, s) = st; text = buffer @ chunk; (os, s') = run_lines passthrough_line (complete_lines text) s
      in (os, (open_line text, s')))"

definition empty_stream_error :: string where
  "empty_stream_error = ''Empty response stream''"

definition passthroughSseStream :: "string list \<Rightarrow> string + string list" where
  "passthroughSseStream chunks =
     (if chunks = [] then Inl empty_stream_error
      else (let (os, (buffer, s)) = run_chunks passthrough_data chunks ([], ());
                tail = js_trim buffer
            in Inr (os @ (if tail \<noteq> [] then emitNormalizedGeminiSseLine tail else []))))"

interpretation passthrough: line_reader passthrough_line passthrough_data
  by unfold_locales (simp add: passthrough_data_def Let_def)

lemma passthrough_lines: "run_lines passthrough_line ls () = (concat (map emitNormalizedGeminiSseLine ls), ())"
  by (induction ls) (simp_all add: passthrough_line_def)

subsection \<open>An error in the first chunk\<close>

record sse_error =
  se_message :: string
  se_status :: "rat option"
  se_body :: string

definition sse_payload :: "string \<Rightarrow> string option" where
  "sse_payload line =
     (let lineText = js_trim line
      in if \<not> starts_with lineText ''data:'' then None
         else (let payload = js_trim (drop 5 lineText)
               in if payload = [] \<or> payload = ''[DONE]'' then None else Some payload))"

definition error_in_payload :: "string \<Rightarrow> sse_error option" where
  "error_in_payload payload =
     (case json_parse payload of
        None \<Rightarrow> None
      | Some parsed \<Rightarrow>
          (let err = jget parsed ''error''
           in if \<not> truthy_opt err then None
              else Some \<lparr>se_message = (case jget_opt err ''message'' of
                      Some (JStr m) \<Rightarrow> if js_trim m \<noteq> [] then js_trim m else ''Gemini stream upstream error''
                    | _ \<Rightarrow> ''Gemini stream upstream error''),
                  se_status = (case jget_opt err ''code'' of Some (JNum n) \<Rightarrow> Some n | _ \<Rightarrow> None),
                  se_body = payload\<rparr>))"

definition extractGeminiSseError :: "string \<Rightarrow> sse_error option" where
  "extractGeminiSseError chunkText =
     (let trimmed = js_trim chunkText;
          whole = (if starts_with trimmed [CHR 0x7B] \<or> starts_with trimmed [CHR 0x5B] then [trimmed] else []);
          payloads = whole @ List.map_filter sse_payload (split_on linefeed chunkText)
      in first_some error_in_payload payloads)"

subsection \<open>Collecting a stream into one response\<close>

record collected =
  mergedParts :: "json list"
  co_finishReason :: "json option"
  co_usageMetadata :: "json option"

definition collect_frame :: "json \<Rightarrow> collected \<Rightarrow> collected" where
  "collect_frame parsed st =
     (let candidate = candidate_of parsed;
          reason = jget_opt candidate ''finishReason'';
          usage = jget parsed ''usageMetadata''
      in st\<lparr>mergedParts := mergedParts st @ plain_parts (parts_of candidate),
            co_finishReason := (if truthy_opt reason then reason else co_finishReason st),
            co_usageMetadata := (if truthy_opt usage then usage else co_usageMetadata st)\<rparr>)"

definition collect_line :: "string \<Rightarrow> collected \<Rightarrow> unit list \<times> collected" where
  "collect_line line st =
     (case data_payload line of
        None \<Rightarrow> ([], st)
      | Some dataStr \<Rightarrow>
          (case json_parse dataStr of
             None \<Rightarrow> ([], st)
           | Some parsed \<Rightarrow> ([], collect_frame parsed st)))"

definition collect_data :: "string \<Rightarrow> string \<times> collected \<Rightarrow> unit list \<times> (string \<times> collected)" where
  "collect_data chunk st =
     (let (buffer, s) = st; text = buffer @ chunk; (os, s') = run_lines collect_line (complete_lines text) s
      in (os, (open_line text, s')))"

definition opt_member :: "string \<Rightarrow> json option \<Rightarrow> (string \<times> json) list" where
  "opt_member k v = (case v of None \<Rightarrow> [] | Some x \<Rightarrow> [(k, x)])"

definition collected_response :: "collected \<Rightarrow> json" where
  "collected_response st =
     JObj ((''candidates'', JArr [JObj ((''content'', JObj [(''role'', JStr ''model''), (''parts'', JArr (mergedParts st))])
              # opt_member ''finishReason'' (co_finishReason st))])
           # opt_member ''usageMetadata'' (co_usageMetadata st))"

definition collectGeminiStreamAsResponse :: "string list \<Rightarrow> string + json" where
  "collectGeminiStreamAsResponse chunks =
     (if chunks = [] then Inl empty_stream_error
      else (let (os, (buffer, s)) = run_chunks collect_data chunks
                  ([], \<lparr>mergedParts = [], co_finishReason = None, co_usageMetadata = None\<rparr>)
            in Inr (collected_response s)))"

interpretation collect: line_reader collect_line collect_data
  by unfold_locales (simp add: collect_data_def Let_def)

definition hasUsableGeminiCandidate :: "json \<Rightarrow> bool" where
  "hasUsableGeminiCandidate response =
     (case jget response ''candidates'' of
        Some (JArr (c # cs)) \<Rightarrow> (case parts_of (Some c) of Some (JArr (p # ps)) \<Rightarrow> True | _ \<Rightarrow> False)
      | _ \<Rightarrow> False)"

text \<open>\<open>direct\<close> is the answer of the direct call, \<open>chunks\<close> what the stream call delivers.\<close>

definition generateInternalWithStreamFallback :: "json \<Rightarrow> string list \<Rightarrow> string + json" where
  "generateInternalWithStreamFallback direct chunks =
     (if hasUsableGeminiCandidate direct then Inr direct else collectGeminiStreamAsResponse chunks)"


subsection \<open>Properties\<close>

text \<open>The Gemini passthrough is a rewriting of lines: for every way of cutting the upstream text into
  chunks the client receives the rewriting of each complete line in order, and then that of the trimmed
  rest, so no line is lost or split, the last one without a line feed included. Only a stream without any
  data is an error.\<close>

theorem passthrough_is_linewise:
  "passthroughSseStream chunks =
     (if chunks = [] then Inl empty_stream_error
      else Inr (concat (map emitNormalizedGeminiSseLine
        (complete_lines (concat chunks) @ [js_trim (open_line (concat chunks))]))))"
  by (simp add: passthroughSseStream_def passthrough.chunks_from_empty passthrough_lines Let_def
      emitNormalizedGeminiSseLine_def [of "[]"])

text \<open>The JSON frames of a text, the unit in which the consumers handle it.\<close>

definition frames :: "string \<Rightarrow> json list" where
  "frames text = List.map_filter json_parse (List.map_filter data_payload (complete_lines text))"

fun last_truthy :: "json option list \<Rightarrow> json option" where
  "last_truthy [] = None"
| "last_truthy (x # xs) = (case last_truthy xs of None \<Rightarrow> if truthy_opt x then x else None | Some y \<Rightarrow> Some y)"

lemma last_truthy_is_truthy: "last_truthy xs = Some v \<Longrightarrow> truthy v"
  by (induction xs) (auto split: option.splits if_splits)

lemma collect_frames:
  "fold collect_frame fs st =
     \<lparr>mergedParts = mergedParts st @ concat (map (\<lambda>f. plain_parts (parts_of (candidate_of f))) fs),
      co_finishReason = (case last_truthy (map (\<lambda>f. jget_opt (candidate_of f) ''finishReason'') fs) of
          None \<Rightarrow> co_finishReason st | Some v \<Rightarrow> Some v),
      co_usageMetadata = (case last_truthy (map (\<lambda>f. jget f ''usageMetadata'') fs) of
          None \<Rightarrow> co_usageMetadata st | Some v \<Rightarrow> Some v)\<rparr>"
proof (induction fs arbitrary: st)
  case Nil
  show ?case by simp
next
  case (Cons f fs)
  have or: "truthy_opt v \<Longrightarrow> \<exists>w. v = Some w" for v :: "json option" by (cases v) auto
  show ?case by (auto simp: Cons.IH collect_frame_def [of f] Let_def dest: or split: option.splits)
qed

lemma collect_lines:
  "run_lines collect_line ls st =
     ([], fold collect_frame (List.map_filter json_parse (List.map_filter data_payload ls)) st)"
proof (induction ls arbitrary: st)
  case Nil
  show ?case by (simp add: List.map_filter_simps)
next
  case (Cons l ls)
  show ?case
    by (cases "data_payload l"; cases "Option.bind (data_payload l) json_parse")
      (auto simp: collect_line_def [of l] List.map_filter_simps Cons.IH)
qed

lemma collectGeminiStreamAsResponse_eq:
  "collectGeminiStreamAsResponse chunks =
     (if chunks = [] then Inl empty_stream_error
      else Inr (collected_response
        \<lparr>mergedParts = concat (map (\<lambda>f. plain_parts (parts_of (candidate_of f))) (frames (concat chunks))),
         co_finishReason = last_truthy (map (\<lambda>f. jget_opt (candidate_of f) ''finishReason'') (frames (concat chunks))),
         co_usageMetadata = last_truthy (map (\<lambda>f. jget f ''usageMetadata'') (frames (concat chunks)))\<rparr>))"
  by (simp add: collectGeminiStreamAsResponse_def collect.chunks_from_empty collect_lines collect_frames Let_def
      frames_def option.case_eq_if split: option.split)

text \<open>Collecting a stream loses nothing that arrived on a complete line: the aggregated response holds
  the parts of all frames in order, the last finish reason and the last usage, however the text was cut
  into chunks.\<close>

theorem collected_parts:
  "collectGeminiStreamAsResponse chunks =
     (if chunks = [] then Inl empty_stream_error
      else Inr (collected_response
        \<lparr>mergedParts = concat (map (\<lambda>f. plain_parts (parts_of (candidate_of f))) (frames (concat chunks))),
         co_finishReason = last_truthy (map (\<lambda>f. jget_opt (candidate_of f) ''finishReason'') (frames (concat chunks))),
         co_usageMetadata = last_truthy (map (\<lambda>f. jget f ''usageMetadata'') (frames (concat chunks)))\<rparr>))"
  by (rule collectGeminiStreamAsResponse_eq)

end
