(* ===== verification/ClaudeStreaming.thy ===== *)
theory ClaudeStreaming
  imports GeminiParts
begin

section \<open>The streaming state machine of Claude messages\<close>

text \<open>
  \<open>antigravity/ClaudeStreamingMapper.ts\<close>: the class \<open>StreamingState\<close> (a record, with its
  \<open>SignatureManagerImpl\<close> as the field \<open>pending\<close> and the process-wide signature store as
  \<open>sigStore\<close>) and the class \<open>PartProcessor\<close>. Every operation returns the server-sent
  events it emits and the new state. The random suffix of a generated tool id is an argument.
  The second half is the client's side: an acceptor of the Anthropic event protocol, and the
  properties of the emitted streams.
\<close>

subsection \<open>State\<close>

datatype block_type = NoBlock | TextB | ThinkingB | FunctionB

record streaming_state =
  blockType :: block_type
  blockIndex :: nat
  messageStartSent :: bool
  messageStopSent :: bool
  usedTool :: bool
  pending :: "string option"
  trailingSignature :: "string option"
  webSearchQuery :: "string option"
  groundingChunks :: "grounding_chunk list option"
  parseErrorCount :: nat
  sigStore :: "string option"

definition new_streaming_state :: "string option \<Rightarrow> streaming_state" where
  "new_streaming_state stored =
     \<lparr>blockType = NoBlock, blockIndex = 0, messageStartSent = False, messageStopSent = False, usedTool = False,
      pending = None, trailingSignature = None, webSearchQuery = None, groundingChunks = None,
      parseErrorCount = 0, sigStore = stored\<rparr>"

definition storeSignature :: "string option \<Rightarrow> streaming_state \<Rightarrow> streaming_state" where
  "storeSignature signature st = (if str_truthy signature then st\<lparr>pending := signature\<rparr> else st)"

definition consume :: "streaming_state \<Rightarrow> string option \<times> streaming_state" where
  "consume st = (pending st, st\<lparr>pending := None\<rparr>)"

definition hasPending :: "streaming_state \<Rightarrow> bool" where
  "hasPending st \<longleftrightarrow> pending st \<noteq> None"

subsection \<open>Events\<close>

definition index_json :: "streaming_state \<Rightarrow> json" where
  "index_json st = JNum (of_nat (blockIndex st))"

definition usage_json :: "json option \<Rightarrow> json" where
  "usage_json usageMeta =
     (if truthy_opt usageMeta
      then JObj [(''input_tokens'', json_or (jget_opt usageMeta ''promptTokenCount'') (JNum 0)),
                 (''output_tokens'', json_or (jget_opt usageMeta ''candidatesTokenCount'') (JNum 0))]
      else JObj [(''input_tokens'', JNum 0), (''output_tokens'', JNum 0)])"

definition emitMessageStart :: "json \<Rightarrow> streaming_state \<Rightarrow> sse list \<times> streaming_state" where
  "emitMessageStart rawJson st =
     (if messageStartSent st then ([], st)
      else (let message = JObj [
                  (''id'', json_or (jget rawJson ''responseId'') (JStr ''msg_unknown'')),
                  (''type'', JStr ''message''),
                  (''role'', JStr ''assistant''),
                  (''content'', JArr []),
                  (''model'', json_or (jget rawJson ''modelVersion'') (JStr [])),
                  (''stop_reason'', JNull),
                  (''stop_sequence'', JNull),
                  (''usage'', usage_json (jget rawJson ''usageMetadata''))]
            in ([Sse ''message_start'' (JObj [(''type'', JStr ''message_start''), (''message'', message)])],
                st\<lparr>messageStartSent := True\<rparr>)))"

definition block_start :: "json \<Rightarrow> streaming_state \<Rightarrow> sse" where
  "block_start contentBlock st = Sse ''content_block_start'' (JObj [(''type'', JStr ''content_block_start''),
     (''index'', index_json st), (''content_block'', contentBlock)])"

definition block_stop :: "streaming_state \<Rightarrow> sse" where
  "block_stop st = Sse ''content_block_stop'' (JObj [(''type'', JStr ''content_block_stop''),
     (''index'', index_json st)])"

definition emitDelta :: "string \<Rightarrow> (string \<times> json) list \<Rightarrow> streaming_state \<Rightarrow> sse" where
  "emitDelta deltaType deltaContent st =
     Sse ''content_block_delta'' (JObj [(''type'', JStr ''content_block_delta''), (''index'', index_json st),
       (''delta'', JObj ((''type'', JStr deltaType) # deltaContent))])"

definition endBlock :: "streaming_state \<Rightarrow> sse list \<times> streaming_state" where
  "endBlock st =
     (if blockType st = NoBlock then ([], st)
      else (let (sigs, st1) =
                  (if blockType st = ThinkingB \<and> hasPending st
                   then (let (sig, st') = consume st
                         in (if str_truthy sig then [emitDelta ''signature_delta'' [(''signature'', JStr (the sig))] st'] else [],
                             st'))
                   else ([], st))
            in (sigs @ [block_stop st1], st1\<lparr>blockIndex := blockIndex st1 + 1, blockType := NoBlock\<rparr>)))"

definition startBlock :: "block_type \<Rightarrow> json \<Rightarrow> streaming_state \<Rightarrow> sse list \<times> streaming_state" where
  "startBlock bt contentBlock st =
     (let (ended, st1) = (if blockType st \<noteq> NoBlock then endBlock st else ([], st))
      in (ended @ [block_start contentBlock st1], st1\<lparr>blockType := bt\<rparr>))"

definition text_content_block :: json where
  "text_content_block = JObj [(''type'', JStr ''text''), (''text'', JStr [])]"

definition thinking_content_block :: json where
  "thinking_content_block = JObj [(''type'', JStr ''thinking''), (''thinking'', JStr [])]"

definition grounding_text :: "string \<Rightarrow> string \<Rightarrow> string option \<Rightarrow> grounding_chunk list option \<Rightarrow> string" where
  "grounding_text searched citations query gchunks =
     (if str_truthy query
      then newline @ newline @ ''---'' @ newline @ ''**'' @ searched @ ''** '' @ the query else []) @
     (case gchunks of
        None \<Rightarrow> []
      | Some cs \<Rightarrow>
          (let links = citation_links 0 cs
           in if links \<noteq> [] then newline @ newline @ ''**'' @ citations @ ''**'' @ newline @ join newline links else []))"

definition stop_reason_of :: "bool \<Rightarrow> json option \<Rightarrow> string" where
  "stop_reason_of toolUsed finishReason =
     (if toolUsed then ''tool_use''
      else if finishReason = Some (JStr ''MAX_TOKENS'') then ''max_tokens'' else ''end_turn'')"

definition message_stop :: sse where
  "message_stop = Sse ''message_stop'' (JObj [(''type'', JStr ''message_stop'')])"

definition emit_grounding :: "string \<Rightarrow> string \<Rightarrow> streaming_state \<Rightarrow> sse list \<times> streaming_state" where
  "emit_grounding searched citations st =
     (let groundingText = grounding_text searched citations (webSearchQuery st) (groundingChunks st)
      in if groundingText = [] then ([], st)
         else ([block_start text_content_block st, emitDelta ''text_delta'' [(''text'', JStr groundingText)] st,
                block_stop st], st\<lparr>blockIndex := blockIndex st + 1\<rparr>))"

definition emitFinish ::
    "string \<Rightarrow> string \<Rightarrow> json option \<Rightarrow> json option \<Rightarrow> streaming_state \<Rightarrow> sse list \<times> streaming_state" where
  "emitFinish searched citations finishReason usageMetadata st =
     (let (ended, st1) = endBlock st;
          st2 = (if str_truthy (trailingSignature st1) then st1\<lparr>trailingSignature := None\<rparr> else st1);
          (grounding, st3) = emit_grounding searched citations st2;
          delta = Sse ''message_delta'' (JObj [(''type'', JStr ''message_delta''),
              (''delta'', JObj [(''stop_reason'', JStr (stop_reason_of (usedTool st3) finishReason)),
                                (''stop_sequence'', JNull)]),
              (''usage'', usage_json usageMetadata)]);
          (stop, st4) = (if messageStopSent st3 then ([], st3) else ([message_stop], st3\<lparr>messageStopSent := True\<rparr>))
      in (ended @ grounding @ [delta] @ stop, st4))"

definition decode_error :: "nat \<Rightarrow> sse" where
  "decode_error n = Sse ''error'' (JObj [(''type'', JStr ''error''),
     (''error'', JObj [(''type'', JStr ''network_error''),
        (''message'', JStr ''Unstable network connection. Please check your network or proxy settings.''),
        (''code'', JStr ''stream_decode_error''),
        (''details'', JObj [(''error_count'', JNum (of_nat n)),
                            (''suggestion'', JStr ''Check network connection'')])])])"

definition handleParseError :: "streaming_state \<Rightarrow> sse list \<times> streaming_state" where
  "handleParseError st =
     (let st1 = st\<lparr>parseErrorCount := parseErrorCount st + 1\<rparr>;
          (ended, st2) = (if blockType st1 \<noteq> NoBlock then endBlock st1 else ([], st1))
      in (ended @ (if parseErrorCount st2 > 3 then [decode_error (parseErrorCount st2)] else []), st2))"

definition resetErrorState :: "streaming_state \<Rightarrow> streaming_state" where
  "resetErrorState st = st\<lparr>parseErrorCount := 0\<rparr>"

subsection \<open>Parts\<close>

definition drop_trailing :: "streaming_state \<Rightarrow> streaming_state" where
  "drop_trailing st = (if str_truthy (trailingSignature st) then st\<lparr>trailingSignature := None\<rparr> else st)"

definition processThinking :: "string \<Rightarrow> string option \<Rightarrow> streaming_state \<Rightarrow> sse list \<times> streaming_state" where
  "processThinking text signature st =
     (if text = [] then ([], st)
      else (let st1 = drop_trailing st;
                (started, st2) = (if blockType st1 \<noteq> ThinkingB then startBlock ThinkingB thinking_content_block st1
                                  else ([], st1))
            in (started @ [emitDelta ''thinking_delta'' [(''thinking'', JStr text)] st2],
                storeSignature signature st2)))"

definition processText :: "string \<Rightarrow> string option \<Rightarrow> streaming_state \<Rightarrow> sse list \<times> streaming_state" where
  "processText text signature st =
     (if text = [] then ([], st)
      else (let st1 = drop_trailing st;
                (started, st2) = (if blockType st1 \<noteq> TextB then startBlock TextB text_content_block st1
                                  else ([], st1))
            in (started @ [emitDelta ''text_delta'' [(''text'', JStr text)] st2], st2)))"

definition tool_id :: "string \<Rightarrow> function_call \<Rightarrow> string" where
  "tool_id rid fc = string_or (fc_id fc) (fc_name fc @ ''-'' @ rid)"

definition tool_use_block :: "string \<Rightarrow> function_call \<Rightarrow> string option \<Rightarrow> json" where
  "tool_use_block rid fc signature =
     JObj ([(''type'', JStr ''tool_use''), (''id'', JStr (tool_id rid fc)), (''name'', JStr (fc_name fc)),
            (''input'', JObj [])] @
           (if str_truthy signature then [(''signature'', JStr (the signature))] else []))"

definition processFunctionCall ::
    "string \<Rightarrow> function_call \<Rightarrow> string option \<Rightarrow> streaming_state \<Rightarrow> sse list \<times> streaming_state" where
  "processFunctionCall rid fc signature st =
     (let st1 = st\<lparr>usedTool := True\<rparr>;
          st2 = (if str_truthy signature then st1\<lparr>sigStore := store_signature (the signature) (sigStore st1)\<rparr> else st1);
          (started, st3) = startBlock FunctionB (tool_use_block rid fc signature) st2;
          args = (if truthy_opt (fc_args fc)
                  then [emitDelta ''input_json_delta'' [(''partial_json'', JStr (json_stringify (the (fc_args fc))))] st3]
                  else []);
          (ended, st4) = endBlock st3
      in (started @ args @ ended, st4))"

text \<open>The branch for a trailing signature before a tool call: it writes its own start event and leaves the
  block type unchanged, so the second \<open>endBlock\<close> emits nothing.\<close>

definition emit_trailing :: "streaming_state \<Rightarrow> sse list \<times> streaming_state" where
  "emit_trailing st =
     (if str_truthy (trailingSignature st)
      then (let (ended, st1) = endBlock st;
                trailingSig = the (trailingSignature st1);
                st2 = st1\<lparr>trailingSignature := None\<rparr>;
                (ended2, st3) = endBlock st2
            in (ended @ [block_start thinking_content_block st2,
                         emitDelta ''thinking_delta'' [(''thinking'', JStr [])] st2,
                         emitDelta ''signature_delta'' [(''signature'', JStr trailingSig)] st2] @ ended2, st3))
      else ([], st))"

definition process :: "string \<Rightarrow> gemini_part \<Rightarrow> streaming_state \<Rightarrow> sse list \<times> streaming_state" where
  "process rid part st =
     (let signature = decodeSignature (gp_thoughtSignature part)
      in case gp_functionCall part of
           Some fc \<Rightarrow>
             (let (trailing, st1) = emit_trailing st; (called, st2) = processFunctionCall rid fc signature st1
              in (trailing @ called, st2))
         | None \<Rightarrow>
             (let (texts, st1) =
                    (case gp_text part of
                       None \<Rightarrow> ([], st)
                     | Some text \<Rightarrow> if gp_thought part then processThinking text signature st
                                    else processText text signature st);
                  (images, st2) =
                    (case gp_inlineData part of
                       None \<Rightarrow> ([], st1)
                     | Some (mimeType, data) \<Rightarrow>
                         if data = [] then ([], st1) else processText (markdown_image mimeType data) None st1)
              in (texts @ images, st2)))"

end
