(* ===== verification/ClaudeProtocol.thy ===== *)
theory ClaudeProtocol
  imports ClaudeStreaming
begin

section \<open>The client's view of a Claude event stream\<close>

text \<open>
  An acceptor of the Anthropic streaming protocol: one \<open>message_start\<close>, then content blocks with
  consecutive indices that are opened, receive deltas of their own kind and are closed, then one
  \<open>message_delta\<close> with a stop reason and one \<open>message_stop\<close>. The acceptor reads only the data of the events. Every
  operation of \<open>StreamingState\<close> and \<open>PartProcessor\<close> is shown to take the acceptor from the
  abstraction of the state before to the abstraction of the state after, and the text a client collects is
  shown to be the text of the parts.
\<close>

named_theorems streaming \<open>definitions of the streaming operations and their effect on the client\<close>

subsection \<open>The acceptor\<close>

record client =
  cl_started :: bool
  cl_open :: block_type
  cl_next :: nat
  cl_reason :: bool
  cl_stopped :: bool

definition new_client :: client where
  "new_client = \<lparr>cl_started = False, cl_open = NoBlock, cl_next = 0, cl_reason = False, cl_stopped = False\<rparr>"

definition block_kind :: "json option \<Rightarrow> block_type" where
  "block_kind b =
     (if jget_opt b ''type'' = Some (JStr ''text'') then TextB
      else if jget_opt b ''type'' = Some (JStr ''thinking'') then ThinkingB
      else if jget_opt b ''type'' = Some (JStr ''tool_use'') then FunctionB else NoBlock)"

definition delta_fits :: "block_type \<Rightarrow> json option \<Rightarrow> bool" where
  "delta_fits bt d =
     (case bt of
        NoBlock \<Rightarrow> False
      | TextB \<Rightarrow> jget_opt d ''type'' = Some (JStr ''text_delta'')
      | ThinkingB \<Rightarrow> jget_opt d ''type'' = Some (JStr ''thinking_delta'') \<or>
                      jget_opt d ''type'' = Some (JStr ''signature_delta'')
      | FunctionB \<Rightarrow> jget_opt d ''type'' = Some (JStr ''input_json_delta''))"

definition has_reason :: "json option \<Rightarrow> bool" where
  "has_reason d \<longleftrightarrow> (case jget_opt d ''stop_reason'' of Some (JStr s) \<Rightarrow> s \<in> {''end_turn'', ''max_tokens'', ''tool_use''} | _ \<Rightarrow> False)"

definition client_step :: "sse \<Rightarrow> client \<Rightarrow> client option" where
  "client_step e cl =
     (let d = sse_data e; name = sse_event e; at_index = (jget d ''index'' = Some (JNum (of_nat (cl_next cl))))
      in if jget d ''type'' \<noteq> Some (JStr name) then None
         else if name = ''error'' then Some cl
         else if name = ''message_start'' then
           (if cl_started cl then None else Some (cl\<lparr>cl_started := True\<rparr>))
         else if \<not> cl_started cl \<or> cl_stopped cl then None
         else if name = ''content_block_start'' then
           (if cl_open cl = NoBlock \<and> \<not> cl_reason cl \<and> at_index \<and> block_kind (jget d ''content_block'') \<noteq> NoBlock
            then Some (cl\<lparr>cl_open := block_kind (jget d ''content_block'')\<rparr>) else None)
         else if name = ''content_block_delta'' then
           (if at_index \<and> delta_fits (cl_open cl) (jget d ''delta'') then Some cl else None)
         else if name = ''content_block_stop'' then
           (if cl_open cl \<noteq> NoBlock \<and> at_index
            then Some (cl\<lparr>cl_open := NoBlock, cl_next := cl_next cl + 1\<rparr>) else None)
         else if name = ''message_delta'' then (if cl_open cl = NoBlock \<and> \<not> cl_reason cl \<and> has_reason (jget d ''delta'') then Some (cl\<lparr>cl_reason := True\<rparr>) else None)
         else if name = ''message_stop'' then
           (if cl_open cl = NoBlock \<and> cl_reason cl then Some (cl\<lparr>cl_stopped := True\<rparr>) else None)
         else None)"

fun client_run :: "sse list \<Rightarrow> client \<Rightarrow> client option" where
  "client_run [] cl = Some cl"
| "client_run (e # es) cl = (case client_step e cl of None \<Rightarrow> None | Some cl' \<Rightarrow> client_run es cl')"

definition complete_message :: "sse list \<Rightarrow> bool" where
  "complete_message es =
     (case client_run es new_client of
        None \<Rightarrow> False
      | Some cl \<Rightarrow> cl_started cl \<and> cl_reason cl \<and> cl_stopped cl \<and> cl_open cl = NoBlock)"

lemma client_run_append:
  "client_run (xs @ ys) cl = (case client_run xs cl of None \<Rightarrow> None | Some cl' \<Rightarrow> client_run ys cl')"
  by (induction xs arbitrary: cl) (auto split: option.splits)

lemma client_run_appendI:
  "client_run xs a = Some b \<Longrightarrow> client_run ys b = r \<Longrightarrow> client_run (xs @ ys) a = r"
  by (simp add: client_run_append)

subsection \<open>The state as its client sees it\<close>

definition client_of :: "streaming_state \<Rightarrow> client" where
  "client_of st = \<lparr>cl_started = messageStartSent st, cl_open = blockType st, cl_next = blockIndex st,
     cl_reason = messageStopSent st, cl_stopped = messageStopSent st\<rparr>"

definition running :: "streaming_state \<Rightarrow> bool" where
  "running st \<longleftrightarrow> messageStartSent st \<and> \<not> messageStopSent st"

definition moves_client :: "sse list \<times> streaming_state \<Rightarrow> streaming_state \<Rightarrow> bool" where
  "moves_client r st \<longleftrightarrow>
     client_run (fst r) (client_of st) = Some (client_of (snd r)) \<and>
     messageStartSent (snd r) = messageStartSent st \<and> messageStopSent (snd r) = messageStopSent st \<and>
     (str_truthy (trailingSignature st) \<or> \<not> str_truthy (trailingSignature (snd r)))"

lemma moves_client_nil [simp]: "moves_client ([], st) st"
  by (simp add: moves_client_def)

lemma moves_client_trans:
  "moves_client (xs, s1) s0 \<Longrightarrow> moves_client (ys, s2) s1 \<Longrightarrow> moves_client (xs @ ys, s2) s0"
  by (auto simp: moves_client_def client_run_append)

lemma moves_client_running: "moves_client (xs, s1) s0 \<Longrightarrow> running s0 \<Longrightarrow> running s1"
  by (simp add: moves_client_def running_def)

lemma client_step_delta:
  assumes "running st" "delta_fits (blockType st) (Some (JObj ((''type'', JStr t) # c)))"
  shows "client_step (emitDelta t c st) (client_of st) = Some (client_of st)"
  using assms by (simp add: client_step_def emitDelta_def client_of_def running_def index_json_def)

lemma client_step_start:
  assumes "running st" "blockType st = NoBlock" "block_kind (Some b) \<noteq> NoBlock"
  shows "client_step (block_start b st) (client_of st) = Some ((client_of st)\<lparr>cl_open := block_kind (Some b)\<rparr>)"
  using assms by (simp add: client_step_def block_start_def client_of_def running_def index_json_def)

lemma client_step_stop:
  assumes "running st" "blockType st \<noteq> NoBlock"
  shows "client_step (block_stop st) (client_of st) =
    Some ((client_of st)\<lparr>cl_open := NoBlock, cl_next := blockIndex st + 1\<rparr>)"
  using assms by (simp add: client_step_def block_stop_def client_of_def running_def index_json_def)

lemma block_kinds [simp]:
  "block_kind (Some text_content_block) = TextB"
  "block_kind (Some thinking_content_block) = ThinkingB"
  "block_kind (Some (tool_use_block rid fc sig)) = FunctionB"
  by (simp_all add: block_kind_def text_content_block_def thinking_content_block_def tool_use_block_def)

lemma endBlock_type [simp]: "blockType (snd (endBlock st)) = NoBlock"
  by (simp add: endBlock_def Let_def split: prod.split)

lemma endBlock_moves: "running st \<Longrightarrow> moves_client (endBlock st) st"
  by (auto simp: endBlock_def moves_client_def consume_def hasPending_def client_step_delta client_step_stop
      delta_fits_def running_def client_of_def client_step_def emitDelta_def block_stop_def index_json_def)

lemma startBlock_moves:
  assumes "running st" "block_kind (Some b) = bt" "bt \<noteq> NoBlock"
  shows "moves_client (startBlock bt b st) st" and "blockType (snd (startBlock bt b st)) = bt"
proof -
  obtain es s1 where e: "(if blockType st \<noteq> NoBlock then endBlock st else ([], st)) = (es, s1)"
    by (cases "if blockType st \<noteq> NoBlock then endBlock st else ([], st)")
  have m: "moves_client (es, s1) st" and t: "blockType s1 = NoBlock"
    using e endBlock_moves [OF assms(1)] endBlock_type [of st] by (auto split: if_splits simp del: endBlock_type)
  note r = moves_client_running [OF m assms(1)]
  have "moves_client ([block_start b s1], s1\<lparr>blockType := bt\<rparr>) s1"
    using client_step_start [OF r t, of b] assms t by (simp add: moves_client_def client_of_def)
  from moves_client_trans [OF m this] show "moves_client (startBlock bt b st) st"
    by (simp add: startBlock_def e)
  show "blockType (snd (startBlock bt b st)) = bt"
    by (simp add: startBlock_def e)
qed


lemma storeSignature_moves [simp]: "moves_client ([], storeSignature sig st) st"
  by (simp add: storeSignature_def moves_client_def client_of_def)

lemma drop_trailing_moves [simp]: "moves_client ([], drop_trailing st) st"
  by (simp add: drop_trailing_def moves_client_def client_of_def)

lemma drop_trailing_simps [simp]:
  "blockType (drop_trailing st) = blockType st" "blockIndex (drop_trailing st) = blockIndex st"
  by (simp_all add: drop_trailing_def)

text \<open>Text and thinking parts have the same shape: open a block of the kind unless one is open, then a delta.\<close>

lemma open_and_delta_moves:
  assumes "running st" "block_kind (Some b) = bt" "bt \<noteq> NoBlock"
    and fits: "delta_fits bt (Some (JObj ((''type'', JStr t) # c)))"
    and o: "(if blockType st \<noteq> bt then startBlock bt b st else ([], st)) = (es, s1)"
  shows "moves_client (es @ [emitDelta t c s1], s1) st"
proof -
  have m: "moves_client (es, s1) st" and bt: "blockType s1 = bt"
    using o startBlock_moves [OF assms(1-3)] by (auto split: if_splits)
  note r = moves_client_running [OF m assms(1)]
  have "moves_client ([emitDelta t c s1], s1) s1"
    using client_step_delta [OF r, of t c] fits bt by (simp add: moves_client_def)
  with m show ?thesis by (rule moves_client_trans)
qed

lemma processThinking_moves:
  assumes "running st"
  shows "moves_client (processThinking text sig st) st"
proof (cases "text = []")
  case True
  then show ?thesis by (simp add: processThinking_def)
next
  case False
  let ?s = "drop_trailing st"
  obtain es s1 where o: "(if blockType ?s \<noteq> ThinkingB then startBlock ThinkingB thinking_content_block ?s
      else ([], ?s)) = (es, s1)"
    by (cases "if blockType ?s \<noteq> ThinkingB then startBlock ThinkingB thinking_content_block ?s else ([], ?s)")
  have "moves_client (es @ [emitDelta ''thinking_delta'' [(''thinking'', JStr text)] s1], s1) ?s"
    by (rule open_and_delta_moves [OF moves_client_running [OF drop_trailing_moves assms] _ _ _ o])
      (simp_all add: delta_fits_def)
  from moves_client_trans [OF moves_client_trans [OF drop_trailing_moves this] storeSignature_moves [of sig]]
  show ?thesis using False o by (simp add: processThinking_def)
qed

lemma processText_moves:
  assumes "running st"
  shows "moves_client (processText text sig st) st"
proof (cases "text = []")
  case True
  then show ?thesis by (simp add: processText_def)
next
  case False
  let ?s = "drop_trailing st"
  obtain es s1 where o: "(if blockType ?s \<noteq> TextB then startBlock TextB text_content_block ?s
      else ([], ?s)) = (es, s1)"
    by (cases "if blockType ?s \<noteq> TextB then startBlock TextB text_content_block ?s else ([], ?s)")
  have "moves_client (es @ [emitDelta ''text_delta'' [(''text'', JStr text)] s1], s1) ?s"
    by (rule open_and_delta_moves [OF moves_client_running [OF drop_trailing_moves assms] _ _ _ o])
      (simp_all add: delta_fits_def)
  from moves_client_trans [OF drop_trailing_moves this]
  show ?thesis using False o by (simp add: processText_def)
qed

lemma processFunctionCall_moves:
  assumes "running st"
  shows "moves_client (processFunctionCall rid fc sig st) st"
proof -
  define s2 where "s2 = (if str_truthy sig
      then st\<lparr>usedTool := True, sigStore := store_signature (the sig) (sigStore st)\<rparr> else st\<lparr>usedTool := True\<rparr>)"
  have m2: "moves_client ([], s2) st" by (simp add: s2_def moves_client_def client_of_def)
  note r2 = moves_client_running [OF m2 assms]
  obtain es s3 where s: "startBlock FunctionB (tool_use_block rid fc sig) s2 = (es, s3)"
    by (cases "startBlock FunctionB (tool_use_block rid fc sig) s2")
  have m3: "moves_client (es, s3) s2" and t3: "blockType s3 = FunctionB"
    using startBlock_moves [OF r2, of "tool_use_block rid fc sig" FunctionB] s by simp_all
  note r3 = moves_client_running [OF m3 r2]
  let ?args = "if truthy_opt (fc_args fc)
      then [emitDelta ''input_json_delta'' [(''partial_json'', JStr (json_stringify (the (fc_args fc))))] s3] else []"
  have m4: "moves_client (?args, s3) s3"
    using client_step_delta [OF r3] t3 by (simp add: moves_client_def delta_fits_def)
  obtain es' s5 where e: "endBlock s3 = (es', s5)" by (cases "endBlock s3")
  have m5: "moves_client (es', s5) s3" using endBlock_moves [OF r3] e by simp
  from moves_client_trans [OF moves_client_trans [OF moves_client_trans [OF m2 m3] m4] m5]
  show ?thesis using s e by (simp add: processFunctionCall_def Let_def s2_def split: if_splits)
qed

lemma process_moves:
  assumes "running st" "\<not> str_truthy (trailingSignature st)"
  shows "moves_client (process rid part st) st"
proof (cases "gp_functionCall part")
  case (Some fc)
  have "emit_trailing st = ([], st)" using assms(2) by (simp add: emit_trailing_def)
  with processFunctionCall_moves [OF assms(1)] Some show ?thesis
    by (simp add: process_def split: prod.splits)
next
  case None
  let ?sig = "decodeSignature (gp_thoughtSignature part)"
  obtain ts s1 where t: "(case gp_text part of None \<Rightarrow> ([], st) | Some text \<Rightarrow>
      if gp_thought part then processThinking text ?sig st else processText text ?sig st) = (ts, s1)"
    by (rule prod.exhaust)
  have m1: "moves_client (ts, s1) st"
    using t processThinking_moves [OF assms(1), of _ ?sig] processText_moves [OF assms(1), of _ ?sig]
    by (cases "gp_text part"; cases "gp_thought part") (auto, metis+)
  note r1 = moves_client_running [OF m1 assms(1)]
  obtain im s2 where i: "(case gp_inlineData part of None \<Rightarrow> ([], s1) | Some (mimeType, data) \<Rightarrow>
      if data = [] then ([], s1) else processText (markdown_image mimeType data) None s1) = (im, s2)"
    by (rule prod.exhaust)
  have m2: "moves_client (im, s2) s1"
    using i processText_moves [OF r1] by (auto split: option.splits prod.splits if_splits) metis
  from moves_client_trans [OF m1 m2] show ?thesis
    using None t i by (simp add: process_def)
qed


lemma emitMessageStart_moves:
  "messageStartSent st \<or> blockType st = NoBlock \<Longrightarrow>
   client_run (fst (emitMessageStart j st)) (client_of st) = Some (client_of (snd (emitMessageStart j st)))"
  by (simp add: emitMessageStart_def client_step_def client_of_def)

lemma emitMessageStart_state [simp]:
  "messageStartSent (snd (emitMessageStart j st))"
  "blockType (snd (emitMessageStart j st)) = blockType st"
  "messageStopSent (snd (emitMessageStart j st)) = messageStopSent st"
  "trailingSignature (snd (emitMessageStart j st)) = trailingSignature st"
  by (auto simp: emitMessageStart_def)

lemma emit_grounding_moves:
  assumes "running st" "blockType st = NoBlock"
  shows "moves_client (emit_grounding searched citations st) st"
    and "blockType (snd (emit_grounding searched citations st)) = NoBlock"
  using assms
  by (auto simp: emit_grounding_def Let_def moves_client_def client_of_def running_def client_step_def block_start_def
      block_stop_def emitDelta_def index_json_def delta_fits_def)

lemma stop_reason_known: "has_reason (Some (JObj [(''stop_reason'', JStr (stop_reason_of toolUsed reason)), (''stop_sequence'', JNull)]))"
  by (simp add: has_reason_def stop_reason_of_def)

lemma emitFinish_moves:
  assumes "running st"
  shows "client_run (fst (emitFinish searched citations reason usage st)) (client_of st) =
      Some (client_of (snd (emitFinish searched citations reason usage st)))"
    and "messageStartSent (snd (emitFinish searched citations reason usage st))"
    and "messageStopSent (snd (emitFinish searched citations reason usage st))"
    and "blockType (snd (emitFinish searched citations reason usage st)) = NoBlock"
proof -
  obtain es s1 where e: "endBlock st = (es, s1)" by (cases "endBlock st")
  have m1: "moves_client (es, s1) st" and t1: "blockType s1 = NoBlock"
    using endBlock_moves [OF assms] endBlock_type [of st] e by simp_all
  define s2 where "s2 = (if str_truthy (trailingSignature s1) then s1\<lparr>trailingSignature := None\<rparr> else s1)"
  have m2: "moves_client ([], s2) s1" and t2: "blockType s2 = NoBlock"
    by (simp_all add: s2_def moves_client_def client_of_def t1)
  note r2 = moves_client_running [OF m2 moves_client_running [OF m1 assms]]
  obtain gs s3 where g: "emit_grounding searched citations s2 = (gs, s3)"
    by (cases "emit_grounding searched citations s2")
  have m3: "moves_client (gs, s3) s2" and t3: "blockType s3 = NoBlock"
    using emit_grounding_moves [OF r2 t2, of searched citations] g by simp_all
  note r3 = moves_client_running [OF m3 r2]
  have m: "client_run (es @ gs) (client_of st) = Some (client_of s3)"
    using moves_client_trans [OF moves_client_trans [OF m1 m2] m3] by (simp add: moves_client_def)
  have eq: "emitFinish searched citations reason usage st = (es @ gs @ [Sse ''message_delta'' (JObj
      [(''type'', JStr ''message_delta''),
       (''delta'', JObj [(''stop_reason'', JStr (stop_reason_of (usedTool s3) reason)), (''stop_sequence'', JNull)]),
       (''usage'', usage_json usage)]), message_stop], s3\<lparr>messageStopSent := True\<rparr>)"
    using e g r3 by (simp add: emitFinish_def Let_def s2_def running_def)
  show "client_run (fst (emitFinish searched citations reason usage st)) (client_of st) =
      Some (client_of (snd (emitFinish searched citations reason usage st)))"
    using m r3 t3 client_run_append [of "es @ gs"]
    by (simp add: eq client_step_def client_of_def running_def message_stop_def stop_reason_known)
  show "messageStartSent (snd (emitFinish searched citations reason usage st))"
    "messageStopSent (snd (emitFinish searched citations reason usage st))"
    "blockType (snd (emitFinish searched citations reason usage st)) = NoBlock"
    using r3 t3 by (simp_all add: eq running_def)
qed

lemma handleParseError_moves:
  assumes "running st \<or> blockType st = NoBlock"
  shows "moves_client (handleParseError st) st"
proof -
  define s1 where "s1 = st\<lparr>parseErrorCount := parseErrorCount st + 1\<rparr>"
  have m1: "moves_client ([], s1) st" and t1: "blockType s1 = blockType st" and r1: "running s1 = running st"
    by (simp_all add: s1_def moves_client_def client_of_def running_def)
  obtain es s2 where e: "(if blockType s1 \<noteq> NoBlock then endBlock s1 else ([], s1)) = (es, s2)"
    by (rule prod.exhaust)
  have m2: "moves_client (es, s2) s1"
    using e assms endBlock_moves [of s1] by (auto simp: t1 r1 split: if_splits)
  have m3: "moves_client (if parseErrorCount s2 > 3 then [decode_error (parseErrorCount s2)] else [], s2) s2"
    by (simp add: moves_client_def client_step_def decode_error_def)
  have "handleParseError st = (es @ (if parseErrorCount s2 > 3 then [decode_error (parseErrorCount s2)] else []), s2)"
    unfolding handleParseError_def Let_def s1_def [symmetric] e by simp
  with moves_client_trans [OF moves_client_trans [OF m1 m2] m3] show ?thesis by simp
qed

lemma handleParseError_type: "blockType (snd (handleParseError st)) = NoBlock"
  by (simp add: handleParseError_def Let_def split: prod.split)
    (metis endBlock_type snd_conv)

subsection \<open>The content a client collects\<close>

definition delta_of :: "string \<Rightarrow> string \<Rightarrow> sse \<Rightarrow> string list" where
  "delta_of t k e =
     (let d = jget (sse_data e) ''delta''
      in if sse_event e = ''content_block_delta'' \<and> jget_opt d ''type'' = Some (JStr t)
         then (case as_string (jget_opt d k) of None \<Rightarrow> [] | Some s \<Rightarrow> [s]) else [])"

definition deltas :: "string \<Rightarrow> string \<Rightarrow> sse list \<Rightarrow> string list" where
  "deltas t k es = concat (map (delta_of t k) es)"

definition shown_text :: "sse list \<Rightarrow> string" where
  "shown_text es = concat (deltas ''text_delta'' ''text'' es)"

definition shown_thinking :: "sse list \<Rightarrow> string" where
  "shown_thinking es = concat (deltas ''thinking_delta'' ''thinking'' es)"

definition tool_of :: "sse \<Rightarrow> (json option \<times> json option) list" where
  "tool_of e =
     (let b = jget (sse_data e) ''content_block''
      in if sse_event e = ''content_block_start'' \<and> jget_opt b ''type'' = Some (JStr ''tool_use'')
         then [(jget_opt b ''id'', jget_opt b ''name'')] else [])"

definition shown_tools :: "sse list \<Rightarrow> (json option \<times> json option) list" where
  "shown_tools es = concat (map tool_of es)"

text \<open>The same content read off the parts themselves.\<close>

definition part_text :: "gemini_part \<Rightarrow> string" where
  "part_text p =
     (if gp_functionCall p \<noteq> None then []
      else (if gp_thought p then [] else string_or (gp_text p) []) @
           (case gp_inlineData p of None \<Rightarrow> [] | Some (m, d) \<Rightarrow> if d = [] then [] else markdown_image m d))"

definition part_thinking :: "gemini_part \<Rightarrow> string" where
  "part_thinking p =
     (if gp_functionCall p \<noteq> None \<or> \<not> gp_thought p then [] else string_or (gp_text p) [])"

definition part_tools :: "string \<Rightarrow> gemini_part \<Rightarrow> (json option \<times> json option) list" where
  "part_tools rid p =
     (case gp_functionCall p of None \<Rightarrow> [] | Some fc \<Rightarrow> [(Some (JStr (tool_id rid fc)), Some (JStr (fc_name fc)))])"

definition part_inputs :: "gemini_part \<Rightarrow> string list" where
  "part_inputs p =
     (case gp_functionCall p of
        None \<Rightarrow> []
      | Some fc \<Rightarrow> if truthy_opt (fc_args fc) then [json_stringify (the (fc_args fc))] else [])"

lemma content_simps [simp]:
  "deltas t k [] = []" "shown_tools [] = []" "shown_text [] = []" "shown_thinking [] = []"
  "deltas t k (xs @ ys) = deltas t k xs @ deltas t k ys" "shown_tools (xs @ ys) = shown_tools xs @ shown_tools ys"
  "shown_text (xs @ ys) = shown_text xs @ shown_text ys"
  "shown_thinking (xs @ ys) = shown_thinking xs @ shown_thinking ys"
  by (simp_all add: deltas_def shown_tools_def shown_text_def shown_thinking_def)

lemma deltas_Cons: "deltas t k (e # es) = delta_of t k e @ deltas t k es"
  by (simp add: deltas_def)

lemma shown_tools_Cons: "shown_tools (e # es) = tool_of e @ shown_tools es"
  by (simp add: shown_tools_def)

lemma delta_of_emitted [simp]:
  "delta_of t k (block_start b st) = []" "delta_of t k (block_stop st) = []"
  "delta_of t k (decode_error n) = []" "delta_of t k message_stop = []"
  "delta_of t k (emitDelta t' [(k', JStr x)] st) = (if t = t' \<and> k = k' \<and> k \<noteq> ''type'' then [x] else
     if t = t' \<and> k = ''type'' then [t] else [])"
  by (simp_all add: delta_of_def block_start_def block_stop_def decode_error_def message_stop_def emitDelta_def)

lemma tool_of_emitted [simp]:
  "tool_of (block_stop st) = []" "tool_of (emitDelta t c st) = []" "tool_of (decode_error n) = []"
  "tool_of message_stop = []"
  "tool_of (block_start text_content_block st) = []" "tool_of (block_start thinking_content_block st) = []"
  "tool_of (block_start (tool_use_block rid fc sig) st) = [(Some (JStr (tool_id rid fc)), Some (JStr (fc_name fc)))]"
  by (simp_all add: tool_of_def block_start_def block_stop_def decode_error_def message_stop_def emitDelta_def
      text_content_block_def thinking_content_block_def tool_use_block_def)

definition silent :: "sse list \<Rightarrow> bool" where
  "silent es \<longleftrightarrow> shown_text es = [] \<and> shown_thinking es = [] \<and>
     deltas ''input_json_delta'' ''partial_json'' es = [] \<and> shown_tools es = []"

lemma endBlock_silent [simp]: "silent (fst (endBlock st))"
  by (auto simp: endBlock_def silent_def shown_text_def shown_thinking_def deltas_def shown_tools_def consume_def
      split: prod.split)

text \<open>What one operation shows, as one equation for the four kinds of content.\<close>

definition displays :: "sse list \<Rightarrow> string \<Rightarrow> string \<Rightarrow> string list \<Rightarrow> (json option \<times> json option) list \<Rightarrow> bool" where
  "displays es text thinking inputs tools \<longleftrightarrow> shown_text es = text \<and> shown_thinking es = thinking \<and>
     deltas ''input_json_delta'' ''partial_json'' es = inputs \<and> shown_tools es = tools"

lemma silent_displays: "silent es \<longleftrightarrow> displays es [] [] [] []"
  by (simp add: silent_def displays_def)

lemma displays_append:
  "displays xs a b c d \<Longrightarrow> displays ys a' b' c' d' \<Longrightarrow> displays (xs @ ys) (a @ a') (b @ b') (c @ c') (d @ d')"
  by (simp add: displays_def)

lemma startBlock_displays:
  "startBlock bt b st = (es, s1) \<Longrightarrow> displays es [] [] [] (tool_of (block_start b st))"
proof -
  assume s: "startBlock bt b st = (es, s1)"
  obtain xs s0 where e: "(if blockType st \<noteq> NoBlock then endBlock st else ([], st)) = (xs, s0)"
    by (rule prod.exhaust)
  have "silent xs" using e endBlock_silent [of st] by (auto split: if_splits simp: silent_def simp del: endBlock_silent)
  moreover have "displays [block_start b s0] [] [] [] (tool_of (block_start b st))"
    by (simp add: displays_def shown_text_def shown_thinking_def deltas_def delta_of_def shown_tools_def tool_of_def block_start_def)
  moreover have "es = xs @ [block_start b s0]" using s e by (simp add: startBlock_def)
  ultimately show ?thesis using displays_append [of xs "[]" "[]" "[]" "[]"] by (simp add: silent_displays)
qed


lemma open_and_delta_displays:
  assumes "(if blockType st \<noteq> bt then startBlock bt b st else ([], st)) = (es, s1)" "tool_of (block_start b st) = []"
    and "displays [emitDelta t c s1] x y z []"
  shows "displays (es @ [emitDelta t c s1]) x y z []"
proof -
  have "displays es [] [] [] []"
    using assms(1,2) startBlock_displays [of bt b st es s1]
    by (auto simp: displays_def split: if_splits)
  from displays_append [OF this assms(3)] show ?thesis by simp
qed

lemma processThinking_displays:
  assumes "processThinking text sig st = (es, s1)"
  shows "displays es [] text [] []"
proof (cases "text = []")
  case True
  with assms show ?thesis by (simp add: processThinking_def displays_def)
next
  case False
  let ?s = "drop_trailing st"
  obtain xs s2 where o: "(if blockType ?s \<noteq> ThinkingB then startBlock ThinkingB thinking_content_block ?s
      else ([], ?s)) = (xs, s2)"
    by (rule prod.exhaust)
  have "displays (xs @ [emitDelta ''thinking_delta'' [(''thinking'', JStr text)] s2]) [] text [] []"
    by (rule open_and_delta_displays [OF o])
      (simp_all add: displays_def shown_text_def shown_thinking_def deltas_Cons shown_tools_Cons)
  with assms o False show ?thesis by (simp add: processThinking_def)
qed

lemma processText_displays:
  assumes "processText text sig st = (es, s1)"
  shows "displays es text [] [] []"
proof (cases "text = []")
  case True
  with assms show ?thesis by (simp add: processText_def displays_def)
next
  case False
  let ?s = "drop_trailing st"
  obtain xs s2 where o: "(if blockType ?s \<noteq> TextB then startBlock TextB text_content_block ?s
      else ([], ?s)) = (xs, s2)"
    by (rule prod.exhaust)
  have "displays (xs @ [emitDelta ''text_delta'' [(''text'', JStr text)] s2]) text [] [] []"
    by (rule open_and_delta_displays [OF o])
      (simp_all add: displays_def shown_text_def shown_thinking_def deltas_Cons shown_tools_Cons)
  with assms o False show ?thesis by (auto simp: processText_def)
qed

lemma processFunctionCall_displays:
  assumes "processFunctionCall rid fc sig st = (es, s1)"
  shows "displays es [] [] (if truthy_opt (fc_args fc) then [json_stringify (the (fc_args fc))] else [])
    [(Some (JStr (tool_id rid fc)), Some (JStr (fc_name fc)))]"
proof -
  define s2 where "s2 = (if str_truthy sig
      then st\<lparr>usedTool := True, sigStore := store_signature (the sig) (sigStore st)\<rparr> else st\<lparr>usedTool := True\<rparr>)"
  obtain xs s3 where s: "startBlock FunctionB (tool_use_block rid fc sig) s2 = (xs, s3)" by (rule prod.exhaust)
  obtain ys s4 where e: "endBlock s3 = (ys, s4)" by (rule prod.exhaust)
  let ?args = "if truthy_opt (fc_args fc)
      then [emitDelta ''input_json_delta'' [(''partial_json'', JStr (json_stringify (the (fc_args fc))))] s3] else []"
  have a: "displays ?args [] [] (if truthy_opt (fc_args fc) then [json_stringify (the (fc_args fc))] else []) []"
    by (simp add: displays_def shown_text_def shown_thinking_def deltas_Cons shown_tools_Cons)
  have "displays ys [] [] [] []" using endBlock_silent [of s3] e by (simp add: silent_displays)
  from displays_append [OF displays_append [OF startBlock_displays [OF s] a] this]
  have "displays (xs @ ?args @ ys) [] [] (if truthy_opt (fc_args fc) then [json_stringify (the (fc_args fc))] else [])
      [(Some (JStr (tool_id rid fc)), Some (JStr (fc_name fc)))]"
    by simp
  moreover have "es = xs @ ?args @ ys"
    using assms s e by (simp add: processFunctionCall_def Let_def s2_def split: if_splits)
  ultimately show ?thesis by (simp only:)
qed

lemma process_displays:
  assumes "process rid p st = (es, s1)" "\<not> str_truthy (trailingSignature st)"
  shows "displays es (part_text p) (part_thinking p) (part_inputs p) (part_tools rid p)"
proof (cases "gp_functionCall p")
  case (Some fc)
  have "emit_trailing st = ([], st)" using assms(2) by (simp add: emit_trailing_def)
  with assms(1) Some
  have "processFunctionCall rid fc (decodeSignature (gp_thoughtSignature p)) st = (es, s1)"
    by (simp add: process_def split: prod.splits)
  from processFunctionCall_displays [OF this] Some show ?thesis
    by (simp add: part_text_def part_thinking_def part_inputs_def part_tools_def)
next
  case None
  let ?sig = "decodeSignature (gp_thoughtSignature p)"
  obtain ts s2 where t: "(case gp_text p of None \<Rightarrow> ([], st) | Some text \<Rightarrow>
      if gp_thought p then processThinking text ?sig st else processText text ?sig st) = (ts, s2)"
    by (rule prod.exhaust)
  have d1: "displays ts (if gp_thought p then [] else string_or (gp_text p) []) (part_thinking p) [] []"
    using t processThinking_displays [of _ ?sig st ts s2] processText_displays [of _ ?sig st ts s2] None
    by (cases "gp_text p"; cases "gp_thought p") (auto simp: part_thinking_def string_or_def displays_def)
  obtain im s3 where i: "(case gp_inlineData p of None \<Rightarrow> ([], s2) | Some (mimeType, data) \<Rightarrow>
      if data = [] then ([], s2) else processText (markdown_image mimeType data) None s2) = (im, s3)"
    by (rule prod.exhaust)
  have d2: "displays im (case gp_inlineData p of None \<Rightarrow> [] | Some (m, d) \<Rightarrow> if d = [] then [] else markdown_image m d)
      [] [] []"
    using i processText_displays [of _ None s2 im s3]
    by (auto simp: displays_def split: option.splits prod.splits if_splits)
  have "es = ts @ im" using assms(1) None t i by (simp add: process_def)
  with displays_append [OF d1 d2] None show ?thesis
    by (simp add: part_text_def part_inputs_def part_tools_def)
qed

lemma emit_grounding_displays:
  "displays (fst (emit_grounding searched citations st))
     (grounding_text searched citations (webSearchQuery st) (groundingChunks st)) [] [] []"
  by (simp add: emit_grounding_def Let_def displays_def shown_text_def shown_thinking_def deltas_Cons shown_tools_Cons)

lemma emitMessageStart_displays: "displays (fst (emitMessageStart j st)) [] [] [] []"
  by (simp add: emitMessageStart_def Let_def displays_def shown_text_def shown_thinking_def deltas_def delta_of_def
      shown_tools_def tool_of_def)

lemma handleParseError_displays: "displays (fst (handleParseError st)) [] [] [] []"
proof -
  define s1 where "s1 = st\<lparr>parseErrorCount := parseErrorCount st + 1\<rparr>"
  obtain es s2 where e: "(if blockType s1 \<noteq> NoBlock then endBlock s1 else ([], s1)) = (es, s2)"
    by (rule prod.exhaust)
  have eq: "handleParseError st = (es @ (if parseErrorCount s2 > 3 then [decode_error (parseErrorCount s2)] else []), s2)"
    unfolding handleParseError_def Let_def s1_def [symmetric] e by simp
  have d1: "displays es [] [] [] []"
    using e endBlock_silent [of s1] by (auto simp: silent_displays displays_def split: if_splits simp del: endBlock_silent)
  have d2: "displays (if parseErrorCount s2 > 3 then [decode_error (parseErrorCount s2)] else []) [] [] [] []"
    by (simp add: displays_def shown_text_def shown_thinking_def deltas_def delta_of_def decode_error_def shown_tools_def
        tool_of_def)
  from displays_append [OF d1 d2] show ?thesis by (simp add: eq)
qed

lemma emitFinish_displays:
  "displays (fst (emitFinish searched citations reason usage st))
     (grounding_text searched citations (webSearchQuery st) (groundingChunks st)) [] [] []"
proof -
  obtain es s1 where e: "endBlock st = (es, s1)" by (cases "endBlock st")
  have k: "webSearchQuery s1 = webSearchQuery st" "groundingChunks s1 = groundingChunks st"
    using e by (auto simp: endBlock_def consume_def Let_def split: if_splits)
  define s2 where "s2 = (if str_truthy (trailingSignature s1) then s1\<lparr>trailingSignature := None\<rparr> else s1)"
  have k2: "webSearchQuery s2 = webSearchQuery st" "groundingChunks s2 = groundingChunks st"
    by (simp_all add: s2_def k)
  obtain gs s3 where g: "emit_grounding searched citations s2 = (gs, s3)" by (rule prod.exhaust)
  let ?rest = "Sse ''message_delta'' (JObj [(''type'', JStr ''message_delta''), (''delta'', JObj [(''stop_reason'',
      JStr (stop_reason_of (usedTool s3) reason)), (''stop_sequence'', JNull)]), (''usage'', usage_json usage)]) #
      (if messageStopSent s3 then [] else [message_stop])"
  have eq: "fst (emitFinish searched citations reason usage st) = es @ gs @ ?rest"
    using e g by (simp add: emitFinish_def Let_def s2_def)
  have d1: "displays es [] [] [] []" using endBlock_silent [of st] e by (simp add: silent_displays)
  have d2: "displays gs (grounding_text searched citations (webSearchQuery st) (groundingChunks st)) [] [] []"
    using emit_grounding_displays [of searched citations s2] g k2 by simp
  have d3: "displays ?rest [] [] [] []"
    by (simp add: displays_def shown_text_def shown_thinking_def deltas_def delta_of_def message_stop_def shown_tools_def
        tool_of_def)
  from displays_append [OF d1 displays_append [OF d2 d3]] show ?thesis by (simp only: eq append_Nil append_Nil2)
qed

end
