(* ===== verification/AnthropicStream.thy ===== *)
theory AnthropicStream
  imports SseLines ClaudeProtocol
begin

section \<open>The Anthropic stream: from upstream frames to Claude events\<close>

text \<open>
  \<open>ProxyService.processAnthropicInternalStream\<close>: the line reader of \<open>SseLines\<close> drives the
  streaming state machine of \<open>ClaudeStreaming\<close>. \<open>rnd\<close> supplies the random suffixes of tool
  ids, one for each processed part. The properties are end to end: from the text of the upstream to the
  event list of the client.
\<close>

record anthropic_state =
  as_state :: streaming_state
  as_parts :: nat
  lastFinishReason :: "json option"
  lastUsageMetadata :: "json option"

definition new_anthropic_state :: "string option \<Rightarrow> anthropic_state" where
  "new_anthropic_state stored =
     \<lparr>as_state = new_streaming_state stored, as_parts = 0, lastFinishReason = None, lastUsageMetadata = None\<rparr>"

text \<open>\<open>rawJson.response\<close> when both are plain objects, else \<open>rawJson\<close>.\<close>

definition unwrap_response :: "json \<Rightarrow> json" where
  "unwrap_response rawJson =
     (case jget rawJson ''response'' of Some (JObj m) \<Rightarrow> JObj m | _ \<Rightarrow> rawJson)"

fun process_parts :: "(nat \<Rightarrow> string) \<Rightarrow> nat \<Rightarrow> json list \<Rightarrow> streaming_state \<Rightarrow> sse list \<times> streaming_state" where
  "process_parts rnd k [] st = ([], st)"
| "process_parts rnd k (p # ps) st =
     (let (es, st1) = process (rnd k) (part_of_json p) st; (fs, st2) = process_parts rnd (Suc k) ps st1
      in (es @ fs, st2))"

definition anthropic_frame :: "(nat \<Rightarrow> string) \<Rightarrow> json \<Rightarrow> anthropic_state \<Rightarrow> sse list \<times> anthropic_state" where
  "anthropic_frame rnd json st =
     (let (started, s1) = (if truthy json then emitMessageStart json (as_state st) else ([], as_state st));
          candidate = candidate_of json;
          reason = jget_opt candidate ''finishReason'';
          usage = jget json ''usageMetadata'';
          parts = plain_parts (parts_of candidate);
          (es, s2) = process_parts rnd (as_parts st) parts s1
      in (started @ es,
          \<lparr>as_state = resetErrorState s2, as_parts = as_parts st + length parts,
           lastFinishReason = (if truthy_opt reason then reason else lastFinishReason st),
           lastUsageMetadata = (if truthy_opt usage then usage else lastUsageMetadata st)\<rparr>))"

text \<open>A payload that does not parse, and \<open>null\<close> (reading a property of it throws), take the error path.\<close>

definition frame_of_payload :: "string \<Rightarrow> json option" where
  "frame_of_payload dataStr =
     (case json_parse dataStr of
        None \<Rightarrow> None
      | Some rawJson \<Rightarrow> if rawJson = JNull then None else Some (unwrap_response rawJson))"

definition anthropic_line :: "(nat \<Rightarrow> string) \<Rightarrow> string \<Rightarrow> anthropic_state \<Rightarrow> sse list \<times> anthropic_state" where
  "anthropic_line rnd line st =
     (case data_payload line of
        None \<Rightarrow> ([], st)
      | Some dataStr \<Rightarrow>
          (case frame_of_payload dataStr of
             Some json \<Rightarrow> anthropic_frame rnd json st
           | None \<Rightarrow> (let (es, s) = handleParseError (as_state st) in (es, st\<lparr>as_state := s\<rparr>))))"

definition anthropic_data ::
    "(nat \<Rightarrow> string) \<Rightarrow> string \<Rightarrow> string \<times> anthropic_state \<Rightarrow> sse list \<times> (string \<times> anthropic_state)" where
  "anthropic_data rnd chunk st =
     (let (buffer, s) = st; text = buffer @ chunk; (os, s') = run_lines (anthropic_line rnd) (complete_lines text) s
      in (os, (open_line text, s')))"

text \<open>The whole stream, up to its \<open>end\<close> event. An upstream \<open>error\<close> event ends the stream with that
  error after the events emitted so far.\<close>

definition processAnthropicInternalStream ::
    "(nat \<Rightarrow> string) \<Rightarrow> string \<Rightarrow> string \<Rightarrow> string option \<Rightarrow> string list \<Rightarrow> string + sse list" where
  "processAnthropicInternalStream rnd searched citations stored chunks =
     (if chunks = [] then Inl empty_stream_error
      else (let (es, (buffer, st)) = run_chunks (anthropic_data rnd) chunks ([], new_anthropic_state stored)
            in Inr (es @ fst (emitFinish searched citations (lastFinishReason st) (lastUsageMetadata st) (as_state st)))))"

text \<open>After 300 seconds without data the stream is closed by this text.\<close>

definition anthropic_idle :: string where
  "anthropic_idle = ''data: {'' @ [CHR 0x22] @ ''type'' @ [CHR 0x22] @ '': '' @ [CHR 0x22] @ ''message_stop'' @
     [CHR 0x22] @ ''}'' @ newline @ newline @ ''data: [DONE]'' @ newline @ newline"

interpretation anthropic: line_reader "anthropic_line rnd" "anthropic_data rnd" for rnd
  by unfold_locales (simp add: anthropic_data_def Let_def)

subsection \<open>The invariant of the stream\<close>

definition stream_ok :: "streaming_state \<Rightarrow> bool" where
  "stream_ok st \<longleftrightarrow> \<not> messageStopSent st \<and> \<not> str_truthy (trailingSignature st) \<and>
     webSearchQuery st = None \<and> groundingChunks st = None \<and>
     (messageStartSent st \<or> blockType st = NoBlock \<and> blockIndex st = 0)"

text \<open>One step of the stream: the client accepts the events, the invariant is kept, and the message has
  started afterwards iff it had before or a start event is among the events.\<close>

definition stream_step :: "sse list \<Rightarrow> streaming_state \<Rightarrow> streaming_state \<Rightarrow> bool" where
  "stream_step es st st' \<longleftrightarrow>
     client_run es (client_of st) = Some (client_of st') \<and> stream_ok st' \<and>
     (messageStartSent st' \<longleftrightarrow> messageStartSent st \<or> ''message_start'' \<in> sse_event ` set es)"

lemma stream_step_refl: "stream_ok st \<Longrightarrow> stream_step [] st st"
  by (simp add: stream_step_def)

lemma stream_step_trans:
  "stream_step xs s0 s1 \<Longrightarrow> stream_step ys s1 s2 \<Longrightarrow> stream_step (xs @ ys) s0 s2"
  by (auto simp: stream_step_def client_run_append)

lemma client_step_start_event:
  "client_step e cl = Some cl' \<Longrightarrow> sse_event e = ''message_start'' \<Longrightarrow> \<not> cl_started cl \<and> cl_started cl'"
  by (auto simp: client_step_def Let_def split: if_splits)

lemma client_step_started: "client_step e cl = Some cl' \<Longrightarrow> cl_started cl \<Longrightarrow> cl_started cl'"
  by (auto simp: client_step_def Let_def split: if_splits)

lemma client_run_no_second_start:
  "client_run es cl = Some cl' \<Longrightarrow> cl_started cl \<Longrightarrow> ''message_start'' \<notin> sse_event ` set es"
  by (induction es arbitrary: cl) (auto dest: client_step_start_event client_step_started split: option.splits)

lemma client_run_start:
  "client_run es cl = Some cl' \<Longrightarrow> cl_started cl' \<longleftrightarrow> cl_started cl \<or> ''message_start'' \<in> sse_event ` set es"
proof (induction es arbitrary: cl)
  case Nil
  then show ?case by simp
next
  case (Cons e es)
  then obtain c where c: "client_step e cl = Some c" and r: "client_run es c = Some cl'"
    by (auto split: option.splits)
  have "cl_started c \<longleftrightarrow> cl_started cl \<or> sse_event e = ''message_start''"
    using c by (auto simp: client_step_def Let_def split: if_splits)
  with Cons.IH [OF r] show ?case by auto
qed

lemma stream_stepI:
  "client_run es (client_of st) = Some (client_of st') \<Longrightarrow> stream_ok st' \<Longrightarrow> stream_step es st st'"
  using client_run_start [of es "client_of st" "client_of st'"] by (simp add: stream_step_def client_of_def)

lemma endBlock_search [simp]:
  "webSearchQuery (snd (endBlock st)) = webSearchQuery st" "groundingChunks (snd (endBlock st)) = groundingChunks st"
  by (auto simp: endBlock_def Let_def consume_def split: prod.split)

lemma startBlock_search [simp]:
  "webSearchQuery (snd (startBlock bt b st)) = webSearchQuery st"
  "groundingChunks (snd (startBlock bt b st)) = groundingChunks st"
  using endBlock_search [of st] by (auto simp: startBlock_def split: prod.split simp del: endBlock_search)

lemma text_search:
  "webSearchQuery (snd (processText t sig st)) = webSearchQuery st \<and>
   groundingChunks (snd (processText t sig st)) = groundingChunks st"
  "webSearchQuery (snd (processThinking t sig st)) = webSearchQuery st \<and>
   groundingChunks (snd (processThinking t sig st)) = groundingChunks st"
  using startBlock_search [of _ _ "drop_trailing st"]
  by (auto simp: processText_def processThinking_def storeSignature_def drop_trailing_def Let_def
      split: prod.split if_splits simp del: startBlock_search) (metis snd_conv)+


lemma call_search:
  "webSearchQuery (snd (processFunctionCall rid fc sig st)) = webSearchQuery st \<and>
   groundingChunks (snd (processFunctionCall rid fc sig st)) = groundingChunks st"
proof -
  define s2 where "s2 = (if str_truthy sig
      then st\<lparr>usedTool := True, sigStore := store_signature (the sig) (sigStore st)\<rparr> else st\<lparr>usedTool := True\<rparr>)"
  obtain xs s3 where s: "startBlock FunctionB (tool_use_block rid fc sig) s2 = (xs, s3)" by (rule prod.exhaust)
  obtain ys s4 where e: "endBlock s3 = (ys, s4)" by (rule prod.exhaust)
  have "snd (processFunctionCall rid fc sig st) = s4"
    using s e by (simp add: processFunctionCall_def Let_def s2_def split: if_splits)
  moreover have "webSearchQuery s3 = webSearchQuery s2 \<and> groundingChunks s3 = groundingChunks s2"
    using startBlock_search [of FunctionB "tool_use_block rid fc sig" s2] s by (simp del: startBlock_search)
  moreover have "webSearchQuery s4 = webSearchQuery s3 \<and> groundingChunks s4 = groundingChunks s3"
    using endBlock_search [of s3] e by (simp del: endBlock_search)
  ultimately show ?thesis by (simp add: s2_def)
qed

lemma process_search:
  assumes "\<not> str_truthy (trailingSignature st)"
  shows "webSearchQuery (snd (process rid p st)) = webSearchQuery st \<and>
    groundingChunks (snd (process rid p st)) = groundingChunks st"
proof (cases "gp_functionCall p")
  case (Some fc)
  have "emit_trailing st = ([], st)" using assms by (simp add: emit_trailing_def)
  with Some call_search [of rid fc "decodeSignature (gp_thoughtSignature p)" st] show ?thesis
    by (simp add: process_def split: prod.split)
next
  case None
  let ?sig = "decodeSignature (gp_thoughtSignature p)"
  let ?t = "case gp_text p of None \<Rightarrow> ([], st) | Some text \<Rightarrow>
      if gp_thought p then processThinking text ?sig st else processText text ?sig st"
  obtain ts s1 where t: "?t = (ts, s1)" by (rule prod.exhaust)
  let ?i = "case gp_inlineData p of None \<Rightarrow> ([], s1) | Some (mimeType, data) \<Rightarrow>
      if data = [] then ([], s1) else processText (markdown_image mimeType data) None s1"
  have "webSearchQuery (snd ?t) = webSearchQuery st \<and> groundingChunks (snd ?t) = groundingChunks st"
    using text_search [of _ ?sig st] by (auto split: option.split)
  moreover have "webSearchQuery (snd ?i) = webSearchQuery s1 \<and> groundingChunks (snd ?i) = groundingChunks s1"
    using text_search [of _ None s1] by (auto split: option.split)
  moreover have "snd (process rid p st) = snd ?i"
    using None t by (simp add: process_def split: prod.split)
  ultimately show ?thesis using t by simp
qed

lemma process_step:
  assumes "stream_ok st" "messageStartSent st"
  shows "stream_step (fst (process rid p st)) st (snd (process rid p st))"
    and "messageStartSent (snd (process rid p st))"
proof -
  from assms have r: "running st" and t: "\<not> str_truthy (trailingSignature st)"
    by (auto simp: stream_ok_def running_def)
  note m = process_moves [OF r t, of rid p] and k = process_search [OF t, of rid p]
  from m assms show "messageStartSent (snd (process rid p st))" by (simp add: moves_client_def)
  from m k assms show "stream_step (fst (process rid p st)) st (snd (process rid p st))"
    by (intro stream_stepI) (auto simp: moves_client_def stream_ok_def)
qed

lemma process_parts_step:
  assumes "stream_ok st" "messageStartSent st" "process_parts rnd k ps st = (es, st')"
  shows "stream_step es st st' \<and> messageStartSent st'"
  using assms
proof (induction ps arbitrary: k st es)
  case Nil
  then show ?case by (simp add: stream_step_refl)
next
  case (Cons p ps)
  obtain xs s1 where p: "process (rnd k) (part_of_json p) st = (xs, s1)" by (rule prod.exhaust)
  obtain ys where q: "process_parts rnd (Suc k) ps s1 = (ys, st')" and es: "es = xs @ ys"
    using Cons.prems(3) p by (auto split: prod.splits)
  have 1: "stream_step xs st s1" "messageStartSent s1"
    using process_step [OF Cons.prems(1,2), of "rnd k" "part_of_json p"] p by simp_all
  then have "stream_ok s1" by (simp add: stream_step_def)
  from Cons.IH [OF this 1(2) q] stream_step_trans [OF 1(1)] es show ?case by blast
qed

lemma no_parts_of_falsy: "\<not> truthy json \<Longrightarrow> plain_parts (parts_of (candidate_of json)) = []"
  by (cases json) (auto simp: candidate_of_def first_element_def parts_of_def plain_parts_def)

lemma emitMessageStart_step:
  assumes "stream_ok st"
  shows "stream_step (fst (emitMessageStart j st)) st (snd (emitMessageStart j st))"
proof (rule stream_stepI)
  show "client_run (fst (emitMessageStart j st)) (client_of st) = Some (client_of (snd (emitMessageStart j st)))"
    using assms by (intro emitMessageStart_moves) (auto simp: stream_ok_def)
  show "stream_ok (snd (emitMessageStart j st))"
    using assms by (auto simp: stream_ok_def emitMessageStart_def Let_def)
qed

lemma resetErrorState_step: "stream_ok st \<Longrightarrow> stream_step [] st (resetErrorState st)"
  by (rule stream_stepI) (simp_all add: resetErrorState_def client_of_def stream_ok_def)

lemma anthropic_frame_step:
  assumes "stream_ok (as_state st)"
  shows "stream_step (fst (anthropic_frame rnd json st)) (as_state st) (as_state (snd (anthropic_frame rnd json st)))"
proof -
  let ?parts = "plain_parts (parts_of (candidate_of json))"
  obtain xs s1 where x: "(if truthy json then emitMessageStart json (as_state st) else ([], as_state st)) = (xs, s1)"
    by (rule prod.exhaust)
  have m: "stream_step xs (as_state st) s1" and started: "truthy json \<Longrightarrow> messageStartSent s1"
    using x emitMessageStart_step [OF assms, of json] emitMessageStart_state(1) [of json "as_state st"]
      stream_step_refl [OF assms]
    by (auto split: if_splits simp del: emitMessageStart_state)
  then have ok: "stream_ok s1" by (simp add: stream_step_def)
  obtain ys s2 where y: "process_parts rnd (as_parts st) ?parts s1 = (ys, s2)" by (rule prod.exhaust)
  have p: "stream_step ys s1 s2"
  proof (cases "truthy json")
    case True
    from process_parts_step [OF ok started [OF True] y] show ?thesis ..
  next
    case False
    with y no_parts_of_falsy [OF False] ok show ?thesis by (simp add: stream_step_refl)
  qed
  then have "stream_ok s2" by (simp add: stream_step_def)
  from stream_step_trans [OF stream_step_trans [OF m p] resetErrorState_step [OF this]] show ?thesis
    using x y by (simp add: anthropic_frame_def Let_def)
qed

lemma anthropic_line_step:
  assumes "stream_ok (as_state st)"
  shows "stream_step (fst (anthropic_line rnd line st)) (as_state st) (as_state (snd (anthropic_line rnd line st)))"
proof (cases "data_payload line")
  case None
  with stream_step_refl [OF assms] show ?thesis by (simp add: anthropic_line_def)
next
  case (Some d)
  show ?thesis
  proof (cases "frame_of_payload d")
    case None
    obtain es s where h: "handleParseError (as_state st) = (es, s)" by (rule prod.exhaust)
    have "running (as_state st) \<or> blockType (as_state st) = NoBlock"
      using assms by (auto simp: stream_ok_def running_def)
    from handleParseError_moves [OF this] have m: "moves_client (es, s) (as_state st)" by (simp add: h)
    have "webSearchQuery s = webSearchQuery (as_state st) \<and> groundingChunks s = groundingChunks (as_state st) \<and>
        (blockType (as_state st) = NoBlock \<longrightarrow> blockIndex s = blockIndex (as_state st))"
      using h endBlock_search [of "(as_state st)\<lparr>parseErrorCount := parseErrorCount (as_state st) + 1\<rparr>"]
      by (auto simp: handleParseError_def Let_def split: if_splits prod.splits simp del: endBlock_search)
    with m assms handleParseError_type [of "as_state st"] h
    have "stream_step es (as_state st) s" by (intro stream_stepI) (auto simp: moves_client_def stream_ok_def)
    with Some None h show ?thesis by (simp add: anthropic_line_def)
  next
    case (Some j)
    with \<open>data_payload line = Some d\<close> anthropic_frame_step [OF assms] show ?thesis
      by (simp add: anthropic_line_def)
  qed
qed

lemma anthropic_lines_step:
  assumes "stream_ok (as_state st)" "run_lines (anthropic_line rnd) ls st = (es, st')"
  shows "stream_step es (as_state st) (as_state st')"
  using assms
proof (induction ls arbitrary: st es)
  case Nil
  then show ?case by (simp add: stream_step_refl)
next
  case (Cons l ls)
  obtain xs s1 where p: "anthropic_line rnd l st = (xs, s1)" by (rule prod.exhaust)
  obtain ys where q: "run_lines (anthropic_line rnd) ls s1 = (ys, st')" and es: "es = xs @ ys"
    using Cons.prems(2) p by (auto split: prod.splits)
  have 1: "stream_step xs (as_state st) (as_state s1)"
    using anthropic_line_step [OF Cons.prems(1), of rnd l] p by simp
  then have "stream_ok (as_state s1)" by (simp add: stream_step_def)
  from Cons.IH [OF this q] stream_step_trans [OF 1] es show ?case by blast
qed

lemma new_state_ok [simp]: "stream_ok (new_streaming_state stored)"
  by (simp add: stream_ok_def new_streaming_state_def)

lemma client_of_new [simp]: "client_of (new_streaming_state stored) = new_client"
  by (simp add: client_of_def new_streaming_state_def new_client_def)

text \<open>The stream as a function of the text.\<close>

lemma processAnthropicInternalStream_eq:
  "processAnthropicInternalStream rnd searched citations stored chunks =
     (if chunks = [] then Inl empty_stream_error
      else (let (es, st) = run_lines (anthropic_line rnd) (complete_lines (concat chunks)) (new_anthropic_state stored)
            in Inr (es @ fst (emitFinish searched citations (lastFinishReason st) (lastUsageMetadata st) (as_state st)))))"
  by (simp add: processAnthropicInternalStream_def anthropic.chunks_from_empty Let_def split: prod.split)

lemma stream_delivers:
  "chunks \<noteq> [] \<Longrightarrow> \<exists>es. processAnthropicInternalStream rnd searched citations stored chunks = Inr es"
  by (simp add: processAnthropicInternalStream_eq split: prod.split)

lemma emitFinish_before_start:
  assumes "stream_ok st" "\<not> messageStartSent st"
  shows "client_run (fst (emitFinish searched citations reason usage st)) (client_of st) = None \<and>
    ''message_start'' \<notin> sse_event ` set (fst (emitFinish searched citations reason usage st))"
  using assms
  by (auto simp: emitFinish_def endBlock_def emit_grounding_def Let_def stream_ok_def grounding_text_def client_step_def
      client_of_def message_stop_def)

text \<open>C3: The event stream a Claude client receives follows the protocol. Whatever text the upstream sends, in
  whatever chunks, with malformed frames anywhere: if a start event is emitted at all, the events form one
  complete message, that is one start, blocks with consecutive indices that are opened, filled with deltas of
  their own kind and closed, one stop reason and one stop; and only a stream that had no frame to start the
  message from fails to do so.\<close>

theorem anthropic_stream_follows_protocol:
  assumes "processAnthropicInternalStream rnd searched citations stored chunks = Inr es"
  shows "complete_message es \<longleftrightarrow> ''message_start'' \<in> sse_event ` set es"
proof -
  obtain xs st where r: "run_lines (anthropic_line rnd) (complete_lines (concat chunks)) (new_anthropic_state stored)
      = (xs, st)" by (rule prod.exhaust)
  let ?fin = "emitFinish searched citations (lastFinishReason st) (lastUsageMetadata st) (as_state st)"
  have es: "es = xs @ fst ?fin"
    using assms r by (simp add: processAnthropicInternalStream_eq split: if_splits)
  have "stream_step xs (as_state (new_anthropic_state stored)) (as_state st)"
    by (rule anthropic_lines_step [OF _ r]) (simp add: new_anthropic_state_def)
  then have run: "client_run xs new_client = Some (client_of (as_state st))" and ok: "stream_ok (as_state st)"
    and start: "messageStartSent (as_state st) \<longleftrightarrow> ''message_start'' \<in> sse_event ` set xs"
    by (simp_all add: stream_step_def new_anthropic_state_def) (simp add: new_streaming_state_def)
  show ?thesis
  proof (cases "messageStartSent (as_state st)")
    case True
    with ok have "running (as_state st)" by (simp add: stream_ok_def running_def)
    from emitFinish_moves [OF this] run start True es show ?thesis
      by (auto simp: complete_message_def client_run_append client_of_def)
  next
    case False
    have "client_run (fst ?fin) (client_of (as_state st)) = None" "''message_start'' \<notin> sse_event ` set (fst ?fin)"
      using emitFinish_before_start [OF ok False] by blast+
    with run start False es show ?thesis
      by (simp add: complete_message_def client_run_append image_Un)
  qed
qed


definition sample_line :: "json list \<Rightarrow> string" where
  "sample_line parts = ''data: '' @ json_stringify (JObj [(''candidates'', JArr [JObj
     [(''content'', JObj [(''parts'', JArr parts)]), (''finishReason'', JStr ''STOP'')]])]) @ newline"

definition sample_parts :: "json list" where
  "sample_parts = [JObj [(''text'', JStr ''why''), (''thought'', JBool True)], JObj [(''text'', JStr ''Hi'')],
     JObj [(''functionCall'', JObj [(''name'', JStr ''ls''), (''args'', JObj [(''p'', JNum 1)])])]]"

definition sample_stream :: "string + sse list" where
  "sample_stream = processAnthropicInternalStream (\<lambda>k. ''r'') [] [] None [sample_line sample_parts]"

theorem anthropic_stream_follows_protocol_witness:
  "case sample_stream of Inl _ \<Rightarrow> False | Inr es \<Rightarrow> complete_message es"
proof -
  obtain es where es: "sample_stream = Inr es"
    using stream_delivers unfolding sample_stream_def by blast
  have "case sample_stream of Inl _ \<Rightarrow> False | Inr es \<Rightarrow> list_ex (\<lambda>e. sse_event e = ''message_start'') es"
    by code_simp
  then have "\<exists>e\<in>set es. sse_event e = ''message_start''" unfolding es sum.case list_ex_iff .
  then have "''message_start'' \<in> sse_event ` set es" by (metis imageI)
  with anthropic_stream_follows_protocol [OF es [unfolded sample_stream_def]] have "complete_message es" ..
  then show ?thesis unfolding es sum.case .
qed

text \<open>The first events of the sample, and a stream without any frame: a stop without a start.\<close>

lemma sample_stream_events:
  "(case sample_stream of Inl _ \<Rightarrow> [] | Inr es \<Rightarrow> map sse_event es) =
   [''message_start'', ''content_block_start'', ''content_block_delta'', ''content_block_stop'',
    ''content_block_start'', ''content_block_delta'', ''content_block_stop'',
    ''content_block_start'', ''content_block_delta'', ''content_block_stop'', ''message_delta'', ''message_stop'']"
  by code_simp

lemma stop_without_start:
  "(case processAnthropicInternalStream rnd [] [] None [''data: oops'' @ newline] of
      Inl _ \<Rightarrow> [] | Inr es \<Rightarrow> map sse_event es) = [''message_delta'', ''message_stop'']"
  by code_simp

subsection \<open>Content\<close>

fun numbered_tools :: "(nat \<Rightarrow> string) \<Rightarrow> nat \<Rightarrow> gemini_part list \<Rightarrow> (json option \<times> json option) list" where
  "numbered_tools rnd k [] = []"
| "numbered_tools rnd k (p # ps) = part_tools (rnd k) p @ numbered_tools rnd (Suc k) ps"

lemma numbered_tools_append:
  "numbered_tools rnd k (ps @ qs) = numbered_tools rnd k ps @ numbered_tools rnd (k + length ps) qs"
  by (induction ps arbitrary: k) simp_all

text \<open>The events show exactly the content of a list of parts, the first of which has number \<open>k\<close>.\<close>

definition displays_parts :: "(nat \<Rightarrow> string) \<Rightarrow> nat \<Rightarrow> sse list \<Rightarrow> gemini_part list \<Rightarrow> bool" where
  "displays_parts rnd k es ps \<longleftrightarrow>
     displays es (concat (map part_text ps)) (concat (map part_thinking ps)) (concat (map part_inputs ps))
       (numbered_tools rnd k ps)"

lemma displays_parts_append:
  "displays_parts rnd k xs ps \<Longrightarrow> displays_parts rnd (k + length ps) ys qs \<Longrightarrow> displays_parts rnd k (xs @ ys) (ps @ qs)"
  by (simp add: displays_parts_def displays_def numbered_tools_append)

lemma displays_parts_none: "displays es [] [] [] [] \<Longrightarrow> displays_parts rnd k es []"
  by (simp add: displays_parts_def)

lemma process_parts_displays:
  assumes "stream_ok st" "messageStartSent st" "process_parts rnd k ps st = (es, st')"
  shows "displays_parts rnd k es (map part_of_json ps)"
  using assms
proof (induction ps arbitrary: k st es)
  case Nil
  then show ?case by (simp add: displays_parts_def displays_def)
next
  case (Cons p ps)
  obtain xs s1 where p: "process (rnd k) (part_of_json p) st = (xs, s1)" by (rule prod.exhaust)
  obtain ys where q: "process_parts rnd (Suc k) ps s1 = (ys, st')" and es: "es = xs @ ys"
    using Cons.prems(3) p by (auto split: prod.splits)
  have 1: "stream_ok s1" "messageStartSent s1"
    using process_step [OF Cons.prems(1,2), of "rnd k" "part_of_json p"] p by (simp_all add: stream_step_def)
  from Cons.prems(1) have "\<not> str_truthy (trailingSignature st)" by (simp add: stream_ok_def)
  from process_displays [OF p this] have "displays_parts rnd k xs [part_of_json p]"
    by (simp add: displays_parts_def)
  from displays_parts_append [OF this] Cons.IH [OF 1 q] es show ?case by fastforce
qed

definition frame_parts :: "json \<Rightarrow> gemini_part list" where
  "frame_parts json = map part_of_json (plain_parts (parts_of (candidate_of json)))"

lemma anthropic_frame_displays:
  assumes "stream_ok (as_state st)" "anthropic_frame rnd json st = (es, st')"
  shows "displays_parts rnd (as_parts st) es (frame_parts json) \<and> as_parts st' = as_parts st + length (frame_parts json)"
proof -
  let ?parts = "plain_parts (parts_of (candidate_of json))"
  obtain xs s1 where x: "(if truthy json then emitMessageStart json (as_state st) else ([], as_state st)) = (xs, s1)"
    by (rule prod.exhaust)
  have d: "displays xs [] [] [] []" and started: "truthy json \<Longrightarrow> messageStartSent s1" and ok: "stream_ok s1"
    using x emitMessageStart_step [OF assms(1), of json] emitMessageStart_displays [of json "as_state st"]
      emitMessageStart_state(1) [of json "as_state st"] assms(1)
    by (auto simp: displays_def stream_step_def split: if_splits simp del: emitMessageStart_state)
  obtain ys s2 where y: "process_parts rnd (as_parts st) ?parts s1 = (ys, s2)" by (rule prod.exhaust)
  have "displays_parts rnd (as_parts st) ys (frame_parts json)"
  proof (cases "truthy json")
    case True
    from process_parts_displays [OF ok started [OF True] y] show ?thesis by (simp add: frame_parts_def)
  next
    case False
    with y no_parts_of_falsy [OF False] show ?thesis
      by (simp add: frame_parts_def displays_parts_def displays_def)
  qed
  then have "displays_parts rnd (as_parts st) (xs @ ys) (frame_parts json)"
    using displays_parts_append [OF displays_parts_none [OF d], of rnd "as_parts st" ys] by simp
  then show ?thesis using assms(2) x y by (auto simp: anthropic_frame_def Let_def frame_parts_def)
qed

definition line_parts :: "string \<Rightarrow> gemini_part list" where
  "line_parts line =
     (case Option.bind (data_payload line) frame_of_payload of None \<Rightarrow> [] | Some json \<Rightarrow> frame_parts json)"

lemma anthropic_line_displays:
  assumes "stream_ok (as_state st)" "anthropic_line rnd line st = (es, st')"
  shows "displays_parts rnd (as_parts st) es (line_parts line) \<and> as_parts st' = as_parts st + length (line_parts line)"
proof (cases "Option.bind (data_payload line) frame_of_payload")
  case None
  with assms(2) handleParseError_displays [of "as_state st"] show ?thesis
    by (cases "data_payload line")
      (auto simp: anthropic_line_def line_parts_def displays_parts_def displays_def split: prod.splits)
next
  case (Some json)
  then obtain d where "data_payload line = Some d" "frame_of_payload d = Some json"
    by (auto split: bind_splits)
  with assms(2) have "anthropic_frame rnd json st = (es, st')" by (simp add: anthropic_line_def)
  from anthropic_frame_displays [OF assms(1) this] Some show ?thesis by (simp add: line_parts_def)
qed

lemma anthropic_lines_displays:
  assumes "stream_ok (as_state st)" "run_lines (anthropic_line rnd) ls st = (es, st')"
  shows "displays_parts rnd (as_parts st) es (concat (map line_parts ls))"
  using assms
proof (induction ls arbitrary: st es)
  case Nil
  then show ?case by (simp add: displays_parts_def displays_def)
next
  case (Cons l ls)
  obtain xs s1 where p: "anthropic_line rnd l st = (xs, s1)" by (rule prod.exhaust)
  obtain ys where q: "run_lines (anthropic_line rnd) ls s1 = (ys, st')" and es: "es = xs @ ys"
    using Cons.prems(2) p by (auto split: prod.splits)
  have ok: "stream_ok (as_state s1)"
    using anthropic_line_step [OF Cons.prems(1), of rnd l] p by (simp add: stream_step_def)
  note d = anthropic_line_displays [OF Cons.prems(1) p]
  from displays_parts_append [OF d [THEN conjunct1]] Cons.IH [OF ok q] d es show ?case by simp
qed

lemma anthropic_stream_displays:
  assumes "processAnthropicInternalStream rnd searched citations stored chunks = Inr es"
    and "parts = concat (map line_parts (complete_lines (concat chunks)))"
  shows "displays_parts rnd 0 es parts"
proof -
  obtain xs st where r: "run_lines (anthropic_line rnd) (complete_lines (concat chunks)) (new_anthropic_state stored)
      = (xs, st)" by (rule prod.exhaust)
  let ?fin = "emitFinish searched citations (lastFinishReason st) (lastUsageMetadata st) (as_state st)"
  have es: "es = xs @ fst ?fin"
    using assms(1) r by (simp add: processAnthropicInternalStream_eq split: if_splits)
  have new: "stream_ok (as_state (new_anthropic_state stored))" "as_parts (new_anthropic_state stored) = 0"
    by (simp_all add: new_anthropic_state_def)
  have "stream_ok (as_state st)"
    using anthropic_lines_step [OF new(1) r] by (simp add: stream_step_def)
  then have "displays (fst ?fin) [] [] [] []"
    using emitFinish_displays [of searched citations "lastFinishReason st" "lastUsageMetadata st" "as_state st"]
    by (simp add: stream_ok_def grounding_text_def)
  moreover have "displays_parts rnd 0 xs parts"
    using anthropic_lines_displays [OF new(1) r] new(2) assms(2) by simp
  ultimately show ?thesis
    using displays_parts_append [of rnd 0 xs parts "fst ?fin" "[]"] displays_parts_none es by simp
qed

text \<open>C4: What a Claude client sees of a stream is the content of its frames, no more and no less: the text
  deltas join to the text (and the images as markdown) of all answer parts, the thinking deltas to that of the
  thinking parts, and each function call becomes one tool block with its name, its id and its arguments, in
  order. Malformed frames in between and the way the text is cut change none of it.\<close>

theorem anthropic_stream_content:
  assumes "processAnthropicInternalStream rnd searched citations stored chunks = Inr es"
    and "parts = concat (map line_parts (complete_lines (concat chunks)))"
  shows "shown_text es = concat (map part_text parts) \<and>
    shown_thinking es = concat (map part_thinking parts) \<and>
    deltas ''input_json_delta'' ''partial_json'' es = concat (map part_inputs parts) \<and>
    shown_tools es = numbered_tools rnd 0 parts"
  using anthropic_stream_displays [OF assms] by (simp add: displays_parts_def displays_def)

theorem anthropic_stream_content_witness:
  "case sample_stream of Inl _ \<Rightarrow> False
   | Inr es \<Rightarrow> shown_text es = ''Hi'' \<and> shown_thinking es = ''why'' \<and>
       shown_tools es = [(Some (JStr ''ls-r''), Some (JStr ''ls''))]"
proof -
  let ?parts = "concat (map line_parts (complete_lines (concat [sample_line sample_parts])))"
  obtain es where es: "sample_stream = Inr es"
    using stream_delivers unfolding sample_stream_def by blast
  have p: "concat (map part_text ?parts) = ''Hi''" "concat (map part_thinking ?parts) = ''why''"
    "numbered_tools (\<lambda>k. ''r'') 0 ?parts = [(Some (JStr ''ls-r''), Some (JStr ''ls''))]"
    by code_simp+
  note content = anthropic_stream_content [OF es [unfolded sample_stream_def] refl]
  have "shown_text es = ''Hi''" using content p(1) by (elim conjE) (rule trans)
  moreover have "shown_thinking es = ''why''" using content p(2) by (elim conjE) (rule trans)
  moreover have "shown_tools es = [(Some (JStr ''ls-r''), Some (JStr ''ls''))]"
    using content p(3) by (elim conjE) (rule trans)
  ultimately show ?thesis unfolding es sum.case by (intro conjI)
qed

end
