(* ===== verification/ClaudeResponse.thy ===== *)
theory ClaudeResponse
  imports AnthropicStream Accounts
begin

section \<open>The non-streaming response\<close>

text \<open>
  \<open>antigravity/ClaudeResponseMapper.ts\<close>: the class \<open>NonStreamingProcessor\<close>, which turns the
  parts of one Gemini answer into the content blocks of one Claude message. The properties say that no
  content is lost and that the text agrees with what the streaming mapper shows for the same parts.
\<close>

datatype claude_block =
    CText (cb_text: string)
  | CThinking (cb_thinking: string) (cb_signature: "string option")
  | CToolUse (cb_id: string) (cb_name: string) (cb_input: json) (cb_tool_signature: "string option")

record processor =
  contentBlocks :: "claude_block list"
  textBuilder :: string
  thinkingBuilder :: string
  thinkingSignature :: "string option"
  pr_trailingSignature :: "string option"
  hasToolCall :: bool

definition new_processor :: processor where
  "new_processor = \<lparr>contentBlocks = [], textBuilder = [], thinkingBuilder = [], thinkingSignature = None,
     pr_trailingSignature = None, hasToolCall = False\<rparr>"

definition push_block :: "claude_block \<Rightarrow> processor \<Rightarrow> processor" where
  "push_block b pr = pr\<lparr>contentBlocks := contentBlocks pr @ [b]\<rparr>"

definition flushText :: "processor \<Rightarrow> processor" where
  "flushText pr = (if textBuilder pr = [] then pr
     else (push_block (CText (textBuilder pr)) pr)\<lparr>textBuilder := []\<rparr>)"

definition flushThinking :: "processor \<Rightarrow> processor" where
  "flushThinking pr = (if thinkingBuilder pr = [] \<and> \<not> str_truthy (thinkingSignature pr) then pr
     else (push_block (CThinking (thinkingBuilder pr) (truthy_str (thinkingSignature pr))) pr)
            \<lparr>thinkingBuilder := [], thinkingSignature := None\<rparr>)"


text \<open>An empty thinking block that carries a signature.\<close>

definition push_trailing :: "processor \<Rightarrow> processor" where
  "push_trailing pr = (push_block (CThinking [] (pr_trailingSignature pr)) pr)\<lparr>pr_trailingSignature := None\<rparr>"

definition processPart_call :: "string \<Rightarrow> function_call \<Rightarrow> string option \<Rightarrow> processor \<Rightarrow> processor" where
  "processPart_call uuid fc signature pr =
     (let pr1 = flushText (flushThinking pr);
          pr2 = (if str_truthy (pr_trailingSignature pr1) then push_trailing pr1 else pr1)
      in push_block (CToolUse (tool_id uuid fc) (fc_name fc) (json_or (fc_args fc) (JObj [])) (truthy_str signature))
           (pr2\<lparr>hasToolCall := True\<rparr>))"

definition processPart_thinking :: "string \<Rightarrow> string option \<Rightarrow> processor \<Rightarrow> processor" where
  "processPart_thinking text signature pr =
     (let pr1 = flushText pr;
          pr2 = (if str_truthy (pr_trailingSignature pr1) then push_trailing (flushThinking pr1) else pr1);
          pr3 = pr2\<lparr>thinkingBuilder := thinkingBuilder pr2 @ text\<rparr>
      in if str_truthy signature then pr3\<lparr>thinkingSignature := signature\<rparr> else pr3)"

definition processPart_text :: "string \<Rightarrow> string option \<Rightarrow> processor \<Rightarrow> processor" where
  "processPart_text text signature pr =
     (let pr1 = flushThinking pr;
          pr2 = (if str_truthy (pr_trailingSignature pr1) then push_trailing (flushText pr1) else pr1);
          pr3 = pr2\<lparr>textBuilder := textBuilder pr2 @ text\<rparr>
      in if str_truthy signature then push_block (CThinking [] signature) (flushText pr3) else pr3)"

definition processPart_image :: "(string \<times> string) option \<Rightarrow> processor \<Rightarrow> processor" where
  "processPart_image inlineData pr =
     (case inlineData of
        None \<Rightarrow> pr
      | Some (mimeType, data) \<Rightarrow>
          (let pr1 = flushThinking pr
           in if data = [] then pr1
              else flushText (pr1\<lparr>textBuilder := textBuilder pr1 @ markdown_image mimeType data\<rparr>)))"

text \<open>A part whose text is empty returns early: its signature is kept, an image in it is not looked at.\<close>

definition processPart :: "string \<Rightarrow> gemini_part \<Rightarrow> processor \<Rightarrow> processor" where
  "processPart uuid part pr =
     (let signature = truthy_str (decodeSignature (gp_thoughtSignature part))
      in case gp_functionCall part of
           Some fc \<Rightarrow> processPart_call uuid fc signature pr
         | None \<Rightarrow>
             (case gp_text part of
                None \<Rightarrow> processPart_image (gp_inlineData part) pr
              | Some text \<Rightarrow>
                  if gp_thought part
                  then processPart_image (gp_inlineData part) (processPart_thinking text signature pr)
                  else if text = []
                  then (if str_truthy signature then pr\<lparr>pr_trailingSignature := signature\<rparr> else pr)
                  else processPart_image (gp_inlineData part) (processPart_text text signature pr)))"

record grounding_metadata =
  webSearchQueries :: "string list option"
  gm_groundingChunks :: "grounding_chunk list option"

definition response_grounding :: "string \<Rightarrow> string \<Rightarrow> grounding_metadata \<Rightarrow> string" where
  "response_grounding searched citations g =
     (case webSearchQueries g of
        Some (q # qs) \<Rightarrow> newline @ newline @ ''---'' @ newline @ ''**'' @ searched @ ''** '' @ join '', '' (q # qs)
      | _ \<Rightarrow> []) @
     (case gm_groundingChunks g of
        None \<Rightarrow> []
      | Some cs \<Rightarrow>
          (let links = citation_links 0 cs
           in if links \<noteq> [] then newline @ newline @ ''**'' @ citations @ ''**'' @ newline @ join newline links else []))"

definition processGrounding :: "string \<Rightarrow> string \<Rightarrow> grounding_metadata \<Rightarrow> processor \<Rightarrow> processor" where
  "processGrounding searched citations g pr =
     (let groundingText = response_grounding searched citations g
      in if groundingText = [] then pr
         else (let pr1 = flushText (flushThinking pr)
               in flushText (pr1\<lparr>textBuilder := textBuilder pr1 @ groundingText\<rparr>)))"

fun processParts :: "(nat \<Rightarrow> string) \<Rightarrow> nat \<Rightarrow> gemini_part list \<Rightarrow> processor \<Rightarrow> processor" where
  "processParts uuids k [] pr = pr"
| "processParts uuids k (p # ps) pr = processParts uuids (Suc k) ps (processPart (uuids k) p pr)"

definition finish_blocks :: "processor \<Rightarrow> processor" where
  "finish_blocks pr =
     (let pr1 = flushText (flushThinking pr)
      in if str_truthy (pr_trailingSignature pr1) then push_trailing pr1 else pr1)"

record claude_response =
  cr_id :: json
  cr_model :: json
  cr_content :: "claude_block list"
  cr_stop_reason :: string
  cr_input_tokens :: json
  cr_output_tokens :: json

definition chunk_of_json :: "json \<Rightarrow> grounding_chunk" where
  "chunk_of_json v = \<lparr>gc_web = (case jget v ''web'' of
     Some (JObj m) \<Rightarrow> Some (as_string (map_of m ''title''), as_string (map_of m ''uri'')) | _ \<Rightarrow> None)\<rparr>"

definition grounding_of_json :: "json \<Rightarrow> grounding_metadata" where
  "grounding_of_json v =
     \<lparr>webSearchQueries = map_option (List.map_filter (\<lambda>x. as_string (Some x))) (as_array (jget v ''webSearchQueries'')),
      gm_groundingChunks = map_option (map chunk_of_json) (as_array (jget v ''groundingChunks''))\<rparr>"

definition buildResponse :: "string \<Rightarrow> json \<Rightarrow> processor \<Rightarrow> claude_response" where
  "buildResponse uuid geminiResponse pr =
     (let finishReason = jget_opt (candidate_of geminiResponse) ''finishReason'';
          usage = jget geminiResponse ''usageMetadata''
      in \<lparr>cr_id = json_or (jget geminiResponse ''responseId'') (JStr (''msg_'' @ uuid)),
          cr_model = json_or (jget geminiResponse ''modelVersion'') (JStr []),
          cr_content = contentBlocks pr,
          cr_stop_reason = stop_reason_of (hasToolCall pr) finishReason,
          cr_input_tokens = json_or (jget_opt usage ''promptTokenCount'') (JNum 0),
          cr_output_tokens = json_or (jget_opt usage ''candidatesTokenCount'') (JNum 0)\<rparr>)"

definition transformResponse :: "string \<Rightarrow> string \<Rightarrow> (nat \<Rightarrow> string) \<Rightarrow> string \<Rightarrow> json \<Rightarrow> claude_response" where
  "transformResponse searched citations uuids uuid geminiResponse =
     (let candidate = candidate_of geminiResponse;
          parts = map part_of_json (plain_parts (parts_of candidate));
          pr1 = processParts uuids 0 parts new_processor;
          pr2 = (case jget_opt candidate ''groundingMetadata'' of
              Some (JObj m) \<Rightarrow> processGrounding searched citations (grounding_of_json (JObj m)) pr1
            | _ \<Rightarrow> pr1)
      in buildResponse uuid geminiResponse (finish_blocks pr2))"

subsection \<open>Content\<close>

definition block_text :: "claude_block \<Rightarrow> string" where
  "block_text b = (case b of CText t \<Rightarrow> t | _ \<Rightarrow> [])"

definition block_thinking :: "claude_block \<Rightarrow> string" where
  "block_thinking b = (case b of CThinking t s \<Rightarrow> t | _ \<Rightarrow> [])"

definition block_tools :: "claude_block \<Rightarrow> (string \<times> string \<times> json) list" where
  "block_tools b = (case b of CToolUse i n j s \<Rightarrow> [(i, n, j)] | _ \<Rightarrow> [])"

definition blocks_text :: "claude_block list \<Rightarrow> string" where
  "blocks_text bs = concat (map block_text bs)"

definition blocks_thinking :: "claude_block list \<Rightarrow> string" where
  "blocks_thinking bs = concat (map block_thinking bs)"

definition blocks_tools :: "claude_block list \<Rightarrow> (string \<times> string \<times> json) list" where
  "blocks_tools bs = concat (map block_tools bs)"

text \<open>What a processor holds: the blocks and what is still in the builders.\<close>

definition holds :: "processor \<Rightarrow> string \<Rightarrow> string \<Rightarrow> (string \<times> string \<times> json) list \<Rightarrow> bool" where
  "holds pr text thinking tools \<longleftrightarrow>
     blocks_text (contentBlocks pr) @ textBuilder pr = text \<and>
     blocks_thinking (contentBlocks pr) @ thinkingBuilder pr = thinking \<and>
     blocks_tools (contentBlocks pr) = tools"

definition response_text :: "gemini_part \<Rightarrow> string" where
  "response_text p =
     (if gp_functionCall p = None \<and> gp_text p = Some [] \<and> \<not> gp_thought p then [] else part_text p)"

definition response_tools :: "string \<Rightarrow> gemini_part \<Rightarrow> (string \<times> string \<times> json) list" where
  "response_tools uuid p =
     (case gp_functionCall p of None \<Rightarrow> []
      | Some fc \<Rightarrow> [(tool_id uuid fc, fc_name fc, json_or (fc_args fc) (JObj []))])"

fun response_numbered :: "(nat \<Rightarrow> string) \<Rightarrow> nat \<Rightarrow> gemini_part list \<Rightarrow> (string \<times> string \<times> json) list" where
  "response_numbered uuids k [] = []"
| "response_numbered uuids k (p # ps) = response_tools (uuids k) p @ response_numbered uuids (Suc k) ps"

lemma blocks_simps [simp]:
  "blocks_text [] = []" "blocks_thinking [] = []" "blocks_tools [] = []"
  "blocks_text (xs @ ys) = blocks_text xs @ blocks_text ys"
  "blocks_thinking (xs @ ys) = blocks_thinking xs @ blocks_thinking ys"
  "blocks_tools (xs @ ys) = blocks_tools xs @ blocks_tools ys"
  "blocks_text [CText t] = t" "blocks_text [CThinking u s] = []" "blocks_text [CToolUse i n j s] = []"
  "blocks_thinking [CText t] = []" "blocks_thinking [CThinking u s] = u" "blocks_thinking [CToolUse i n j s] = []"
  "blocks_tools [CText t] = []" "blocks_tools [CThinking u s] = []" "blocks_tools [CToolUse i n j s] = [(i, n, j)]"
  by (simp_all add: blocks_text_def blocks_thinking_def blocks_tools_def block_text_def block_thinking_def
      block_tools_def)

lemma flush_holds [simp]:
  "holds (flushText pr) a b c = holds pr a b c" "textBuilder (flushText pr) = []"
  "thinkingBuilder (flushText pr) = thinkingBuilder pr"
  "holds (flushThinking pr) a b c = holds pr a b c" "thinkingBuilder (flushThinking pr) = []"
  "textBuilder (flushThinking pr) = textBuilder pr"
  by (auto simp: flushText_def flushThinking_def holds_def push_block_def)

lemma push_trailing_holds [simp]:
  "thinkingBuilder pr = [] \<Longrightarrow> holds (push_trailing pr) a b c = holds pr a b c"
  "thinkingBuilder (push_trailing pr) = thinkingBuilder pr" "textBuilder (push_trailing pr) = textBuilder pr"
  by (auto simp: push_trailing_def holds_def push_block_def)


text \<open>Flushing the builders before a block of another kind keeps their order, so each step appends its own
  content only.\<close>

lemma holds_append_text:
  "holds pr a b c \<Longrightarrow> holds (pr\<lparr>textBuilder := textBuilder pr @ t\<rparr>) (a @ t) b c"
  by (auto simp: holds_def)

lemma holds_append_thinking:
  "holds pr a b c \<Longrightarrow> holds (pr\<lparr>thinkingBuilder := thinkingBuilder pr @ t\<rparr>) a (b @ t) c"
  by (auto simp: holds_def)

lemma holds_update [simp]:
  "holds (pr\<lparr>hasToolCall := x\<rparr>) a b c = holds pr a b c"
  "holds (pr\<lparr>thinkingSignature := s\<rparr>) a b c = holds pr a b c"
  "holds (pr\<lparr>pr_trailingSignature := s\<rparr>) a b c = holds pr a b c"
  by (simp_all add: holds_def)

lemma processPart_call_holds:
  assumes "holds pr a b c"
  shows "holds (processPart_call uuid fc sig pr) a b (c @ [(tool_id uuid fc, fc_name fc, json_or (fc_args fc) (JObj []))])"
proof -
  let ?p = "flushText (flushThinking pr)"
  let ?q = "if str_truthy (pr_trailingSignature ?p) then push_trailing ?p else ?p"
  have "holds ?q a b c" "textBuilder ?q = []" "thinkingBuilder ?q = []" using assms by auto
  then show ?thesis by (simp add: processPart_call_def Let_def holds_def push_block_def)
qed

lemma processPart_thinking_holds:
  assumes "holds pr a b c"
  shows "holds (processPart_thinking text sig pr) a (b @ text) c"
proof -
  let ?p = "flushText pr"
  let ?q = "if str_truthy (pr_trailingSignature ?p) then push_trailing (flushThinking ?p) else ?p"
  have "holds ?q a b c" using assms by simp
  from holds_append_thinking [OF this, of "text"] show ?thesis
    by (simp only: processPart_thinking_def Let_def holds_update split: if_split) simp
qed

lemma processPart_text_holds:
  assumes "holds pr a b c"
  shows "holds (processPart_text text sig pr) (a @ text) b c" "thinkingBuilder (processPart_text text sig pr) = []"
proof -
  let ?p = "flushThinking pr"
  let ?q = "if str_truthy (pr_trailingSignature ?p) then push_trailing (flushText ?p) else ?p"
  let ?r = "?q\<lparr>textBuilder := textBuilder ?q @ text\<rparr>"
  have q: "holds ?q a b c" "thinkingBuilder ?q = []" using assms by simp_all
  from holds_append_text [OF q(1), of "text"] have r: "holds ?r (a @ text) b c" .
  then have f: "holds (flushText ?r) (a @ text) b c" by simp
  have g: "holds (push_block (CThinking [] sig) (flushText ?r)) (a @ text) b c"
    using f q(2) by (simp add: holds_def push_block_def)
  have eq: "processPart_text text sig pr = (if str_truthy sig then push_block (CThinking [] sig) (flushText ?r) else ?r)"
    by (simp add: processPart_text_def Let_def)
  show "holds (processPart_text text sig pr) (a @ text) b c" unfolding eq using r g by (simp split: if_split)
  show "thinkingBuilder (processPart_text text sig pr) = []"
    unfolding eq using q(2) by (simp add: push_block_def)
qed

lemma processPart_image_holds:
  assumes "holds pr a b c"
  shows "holds (processPart_image img pr)
    (a @ (case img of None \<Rightarrow> [] | Some (m, d) \<Rightarrow> if d = [] then [] else markdown_image m d)) b c"
  using assms holds_append_text [of "flushThinking pr" a b c]
  by (auto simp: processPart_image_def Let_def split: option.split)

lemma processPart_holds:
  assumes "holds pr a b c"
  shows "holds (processPart uuid p pr) (a @ response_text p) (b @ part_thinking p) (c @ response_tools uuid p)"
proof (cases "gp_functionCall p")
  case (Some fc)
  with processPart_call_holds [OF assms] show ?thesis
    by (simp add: processPart_def response_text_def part_text_def part_thinking_def response_tools_def)
next
  case None
  let ?sig = "truthy_str (decodeSignature (gp_thoughtSignature p))"
  show ?thesis
  proof (cases "gp_text p")
    case None
    with \<open>gp_functionCall p = None\<close> processPart_image_holds [OF assms, of "gp_inlineData p"] show ?thesis
      by (simp add: processPart_def response_text_def part_text_def part_thinking_def response_tools_def string_or_def)
  next
    case (Some tx)
    have th: "holds (processPart_image (gp_inlineData p) (processPart_thinking tx ?sig pr))
        (a @ (case gp_inlineData p of None \<Rightarrow> [] | Some (m, d) \<Rightarrow> if d = [] then [] else markdown_image m d)) (b @ tx) c"
      by (rule processPart_image_holds [OF processPart_thinking_holds [OF assms]])
    have te: "holds (processPart_image (gp_inlineData p) (processPart_text tx ?sig pr))
        ((a @ tx) @ (case gp_inlineData p of None \<Rightarrow> [] | Some (m, d) \<Rightarrow> if d = [] then [] else markdown_image m d)) b c"
      by (rule processPart_image_holds [OF processPart_text_holds(1) [OF assms]])
    show ?thesis
      using None Some th te assms
      by (cases "gp_thought p"; cases "tx = []")
        (simp_all add: processPart_def response_text_def part_text_def part_thinking_def response_tools_def
          string_or_def Let_def)
  qed
qed

lemma processParts_holds:
  "holds pr a b c \<Longrightarrow>
   holds (processParts uuids k ps pr) (a @ concat (map response_text ps)) (b @ concat (map part_thinking ps))
     (c @ response_numbered uuids k ps)"
proof (induction ps arbitrary: k pr a b c)
  case Nil
  then show ?case by simp
next
  case (Cons p ps)
  from Cons.IH [OF processPart_holds [OF Cons.prems, of "uuids k" p], of "Suc k"] show ?case by simp
qed

lemma finish_blocks_content:
  assumes "holds pr a b c"
  shows "blocks_text (contentBlocks (finish_blocks pr)) = a"
    "blocks_thinking (contentBlocks (finish_blocks pr)) = b" "blocks_tools (contentBlocks (finish_blocks pr)) = c"
proof -
  let ?p = "flushText (flushThinking pr)"
  have "holds (finish_blocks pr) a b c" "textBuilder (finish_blocks pr) = []" "thinkingBuilder (finish_blocks pr) = []"
    using assms by (auto simp: finish_blocks_def Let_def)
  then show "blocks_text (contentBlocks (finish_blocks pr)) = a"
    "blocks_thinking (contentBlocks (finish_blocks pr)) = b" "blocks_tools (contentBlocks (finish_blocks pr)) = c"
    by (simp_all add: holds_def)
qed

lemma new_processor_holds [simp]: "holds new_processor [] [] []"
  by (simp add: new_processor_def holds_def)

definition grounding_of :: "string \<Rightarrow> string \<Rightarrow> json \<Rightarrow> string" where
  "grounding_of searched citations r =
     (case jget_opt (candidate_of r) ''groundingMetadata'' of
        Some (JObj m) \<Rightarrow> response_grounding searched citations (grounding_of_json (JObj m))
      | _ \<Rightarrow> [])"

lemma transformResponse_content:
  "blocks_text (cr_content (transformResponse searched citations uuids uuid r)) =
      concat (map response_text (frame_parts r)) @ grounding_of searched citations r \<and>
    blocks_thinking (cr_content (transformResponse searched citations uuids uuid r)) =
      concat (map part_thinking (frame_parts r)) \<and>
    blocks_tools (cr_content (transformResponse searched citations uuids uuid r)) =
      response_numbered uuids 0 (frame_parts r)"
proof -
  define parts where "parts = frame_parts r"
  define pr1 where "pr1 = processParts uuids 0 parts new_processor"
  have h1: "holds pr1 (concat (map response_text parts)) (concat (map part_thinking parts)) (response_numbered uuids 0 parts)"
    using processParts_holds [of new_processor "[]" "[]" "[]" uuids 0 parts] by (simp add: pr1_def)
  define pr2 where "pr2 = (case jget_opt (candidate_of r) ''groundingMetadata'' of
      Some (JObj m) \<Rightarrow> processGrounding searched citations (grounding_of_json (JObj m)) pr1 | _ \<Rightarrow> pr1)"
  have g: "holds (processGrounding searched citations g pr1)
      (concat (map response_text parts) @ response_grounding searched citations g)
      (concat (map part_thinking parts)) (response_numbered uuids 0 parts)" for g
    using h1 holds_append_text [of "flushText (flushThinking pr1)"]
    by (simp add: processGrounding_def Let_def)
  have h2: "holds pr2 (concat (map response_text parts) @ grounding_of searched citations r)
      (concat (map part_thinking parts)) (response_numbered uuids 0 parts)"
    using h1 g by (simp add: pr2_def grounding_of_def split: option.split json.split)
  have "cr_content (transformResponse searched citations uuids uuid r) = contentBlocks (finish_blocks pr2)"
    unfolding transformResponse_def Let_def buildResponse_def pr2_def pr1_def parts_def frame_parts_def by simp
  with finish_blocks_content [OF h2] show ?thesis by (simp add: parts_def)
qed


text \<open>The non-streaming response keeps all content: the text blocks join to the text of the answer parts
  (images included) followed by the grounding, the thinking blocks to the thinking, and the tool blocks are the
  function calls in order. The one exception is an image in a part whose text is empty, which
  \<open>response_text\<close> leaves out.\<close>

theorem response_keeps_content:
  "blocks_text (cr_content (transformResponse searched citations uuids uuid r)) =
      concat (map response_text (frame_parts r)) @ grounding_of searched citations r \<and>
    blocks_thinking (cr_content (transformResponse searched citations uuids uuid r)) =
      concat (map part_thinking (frame_parts r)) \<and>
    blocks_tools (cr_content (transformResponse searched citations uuids uuid r)) =
      response_numbered uuids 0 (frame_parts r)"
  by (rule transformResponse_content)

text \<open>The early return on an empty text loses the image of the same part, which the stream shows.\<close>

lemma decodeSignature_None: "decodeSignature None = None"
  by (simp add: decodeSignature_def)

lemma image_after_empty_text_is_lost:
  "(let p = \<lparr>gp_text = Some [], gp_thought = False, gp_thoughtSignature = None, gp_functionCall = None,
            gp_inlineData = Some (''image/png'', ''AA'')\<rparr>
    in blocks_text (contentBlocks (finish_blocks (processPart uuid p new_processor))) = [] \<and>
       part_text p = markdown_image ''image/png'' ''AA'')"
  by (simp add: Let_def processPart_def finish_blocks_def flushText_def flushThinking_def new_processor_def
      truthy_str_def part_text_def string_or_def decodeSignature_None)

subsection \<open>Streaming and non-streaming agree\<close>

lemma collected_frame_parts:
  "frame_parts (collected_response st) = map part_of_json (filter is_plain (mergedParts st))"
  by (simp add: frame_parts_def candidate_of_def collected_response_def first_element_def parts_of_def plain_parts_def)

lemma collected_no_grounding: "grounding_of searched citations (collected_response st) = []"
  by (simp add: grounding_of_def candidate_of_def collected_response_def first_element_def opt_member_def
      split: option.split)

lemma plain_parts_plain: "filter is_plain (plain_parts x) = plain_parts x"
  by (auto simp: plain_parts_def filter_id_conv split: option.split json.split)

lemma line_parts_frames:
  assumes "\<forall>f\<in>set (List.map_filter json_parse (List.map_filter data_payload ls)). unwrap_response f = f"
  shows "concat (map line_parts ls) =
    concat (map frame_parts (List.map_filter json_parse (List.map_filter data_payload ls)))"
  using assms
proof (induction ls)
  case Nil
  show ?case by (simp add: List.map_filter_simps)
next
  case (Cons l ls)
  have null: "frame_parts JNull = []"
    by (simp add: frame_parts_def candidate_of_def first_element_def parts_of_def plain_parts_def)
  show ?case
    using Cons null
    by (cases "data_payload l"; cases "Option.bind (data_payload l) json_parse")
      (auto simp: line_parts_def frame_of_payload_def List.map_filter_simps)
qed

lemma numbered_ids:
  "numbered_tools rnd k ps = map (\<lambda>(i, n, j). (Some (JStr i), Some (JStr n))) (response_numbered rnd k ps)"
  by (induction ps arbitrary: k) (auto simp: part_tools_def response_tools_def split: option.split)

text \<open>Streamed inputs are those of the calls, in order; an input may only be left out when it is empty.\<close>

definition inputs_agree :: "string list \<Rightarrow> json list \<Rightarrow> bool" where
  "inputs_agree shown inputs \<longleftrightarrow>
     (\<exists>given. length given = length inputs \<and> shown = [json_stringify j. (b, j) \<leftarrow> zip given inputs, b] \<and>
        list_all2 (\<lambda>b j. b \<or> j = JObj []) given inputs)"

lemma inputs_agree_append:
  assumes "inputs_agree xs is" "inputs_agree ys js"
  shows "inputs_agree (xs @ ys) (is @ js)"
proof -
  from assms obtain g h where "length g = length is" "xs = [json_stringify j. (b, j) \<leftarrow> zip g is, b]"
    "list_all2 (\<lambda>b j. b \<or> j = JObj []) g is" "length h = length js" "ys = [json_stringify j. (b, j) \<leftarrow> zip h js, b]"
    "list_all2 (\<lambda>b j. b \<or> j = JObj []) h js"
    by (auto simp: inputs_agree_def)
  then show ?thesis
    unfolding inputs_agree_def by (intro exI [of _ "g @ h"]) (simp add: list_all2_appendI)
qed

lemma part_inputs_agree: "inputs_agree (part_inputs p) (map (snd \<circ> snd) (response_tools uuid p))"
proof (cases "gp_functionCall p")
  case None
  then show ?thesis by (simp add: part_inputs_def response_tools_def inputs_agree_def)
next
  case (Some fc)
  then show ?thesis
    unfolding inputs_agree_def
    by (intro exI [of _ "[truthy_opt (fc_args fc)]"])
      (auto simp: part_inputs_def response_tools_def json_or_def split: option.split)
qed

lemma numbered_inputs:
  "inputs_agree (concat (map part_inputs ps)) (map (snd \<circ> snd) (response_numbered uuids k ps))"
proof (induction ps arbitrary: k)
  case Nil
  show ?case by (simp add: inputs_agree_def)
next
  case (Cons p ps)
  from inputs_agree_append [OF part_inputs_agree [of p "uuids k"] Cons [of "Suc k"]] show ?case by (simp add: comp_def)
qed

text \<open>The one kind of part that shows an image in the stream and not in the response.\<close>

definition image_under_empty_text :: "gemini_part \<Rightarrow> bool" where
  "image_under_empty_text p \<longleftrightarrow>
     gp_functionCall p = None \<and> gp_text p = Some [] \<and> \<not> gp_thought p \<and> gp_inlineData p \<noteq> None"

lemma response_text_part_text: "\<not> image_under_empty_text p \<Longrightarrow> response_text p = part_text p"
  by (cases "gp_inlineData p") (auto simp: image_under_empty_text_def response_text_def part_text_def string_or_def)

text \<open>C12: A Claude client gets the same answer with and without streaming. For an upstream stream of frames that are not
  wrapped, and the same random identifiers, the event stream and the message built from the collected stream show the same
  thinking and call the same tools, in order, with the same identifiers, names and inputs (an empty input is not streamed), and
  show the same text, except that a part with an image next to an empty text is shown in the stream only.\<close>

theorem stream_and_response_agree:
  assumes "processAnthropicInternalStream rnd searched citations stored chunks = Inr es"
    and "collectGeminiStreamAsResponse chunks = Inr r"
    and "\<forall>f\<in>set (frames (concat chunks)). unwrap_response f = f"
  shows "shown_thinking es = blocks_thinking (cr_content (transformResponse searched citations rnd uuid r)) \<and>
    shown_tools es = map (\<lambda>(i, n, j). (Some (JStr i), Some (JStr n)))
      (blocks_tools (cr_content (transformResponse searched citations rnd uuid r))) \<and>
    inputs_agree (deltas ''input_json_delta'' ''partial_json'' es)
      (map (snd \<circ> snd) (blocks_tools (cr_content (transformResponse searched citations rnd uuid r)))) \<and>
    ((\<forall>f\<in>set (frames (concat chunks)). \<forall>p\<in>set (frame_parts f). \<not> image_under_empty_text p) \<longrightarrow>
       shown_text es = blocks_text (cr_content (transformResponse searched citations rnd uuid r)))"
proof -
  let ?ps = "concat (map frame_parts (frames (concat chunks)))"
  have lp: "concat (map line_parts (complete_lines (concat chunks))) = ?ps"
    unfolding frames_def by (rule line_parts_frames) (use assms(3) in \<open>simp add: frames_def\<close>)
  note content = anthropic_stream_displays [OF assms(1) refl, unfolded lp displays_parts_def displays_def]
  from assms(2) obtain st where r: "r = collected_response st"
    and st: "mergedParts st = concat (map (\<lambda>f. plain_parts (parts_of (candidate_of f))) (frames (concat chunks)))"
    by (auto simp: collectGeminiStreamAsResponse_eq split: if_splits)
  have "frame_parts r = map part_of_json (filter is_plain (mergedParts st))"
    by (simp only: r collected_frame_parts)
  also have "\<dots> = ?ps"
    by (simp add: st filter_concat plain_parts_plain comp_def map_concat frame_parts_def [abs_def])
  finally have parts: "frame_parts r = ?ps" .
  have joined: "concat (map response_text ?ps) = concat (map part_text ?ps)"
    if "\<forall>f\<in>set (frames (concat chunks)). \<forall>p\<in>set (frame_parts f). \<not> image_under_empty_text p"
    using that by (intro arg_cong [of _ _ concat] map_cong) (auto intro: response_text_part_text)
  note whole = transformResponse_content [of searched citations rnd uuid r, unfolded parts]
  have tools: "shown_tools es = map (\<lambda>(i, n, j). (Some (JStr i), Some (JStr n)))
      (blocks_tools (cr_content (transformResponse searched citations rnd uuid r)))"
    using whole content numbered_ids [of rnd 0 ?ps] by simp
  have inputs: "inputs_agree (deltas ''input_json_delta'' ''partial_json'' es)
      (map (snd \<circ> snd) (blocks_tools (cr_content (transformResponse searched citations rnd uuid r))))"
    using whole content numbered_inputs [of ?ps rnd 0] by simp
  show ?thesis
    using tools inputs whole content joined collected_no_grounding [of searched citations st] by (simp add: r)
qed

theorem stream_and_response_agree_witness:
  "\<exists>es r. processAnthropicInternalStream (\<lambda>k. ''r'') [] [] None [sample_line sample_parts] = Inr es \<and>
     collectGeminiStreamAsResponse [sample_line sample_parts] = Inr r \<and>
     shown_text es = blocks_text (cr_content (transformResponse [] [] (\<lambda>k. ''r'') ''u'' r))"
proof -
  let ?c = "[sample_line sample_parts]"
  obtain es where es: "processAnthropicInternalStream (\<lambda>k. ''r'') [] [] None ?c = Inr es"
    using stream_delivers by blast
  obtain r where r: "collectGeminiStreamAsResponse ?c = Inr r" by (simp add: collectGeminiStreamAsResponse_eq)
  have f: "list_all (\<lambda>f. unwrap_response f = f \<and> list_all (\<lambda>p. \<not> image_under_empty_text p) (frame_parts f))
      (frames (concat ?c))"
    by code_simp
  then have "\<forall>f\<in>set (frames (concat ?c)). unwrap_response f = f"
    and "\<forall>f\<in>set (frames (concat ?c)). \<forall>p\<in>set (frame_parts f). \<not> image_under_empty_text p"
    by (auto simp: list_all_iff)
  with stream_and_response_agree [OF es r] es r show ?thesis by blast
qed

end
