(* ===== verification/OpenAiStream.thy ===== *)
theory OpenAiStream
  imports ClaudeResponse
begin

section \<open>OpenAI answers\<close>

text \<open>
  The answer side of the OpenAI interface in \<open>server/proxy.service.ts\<close>: \<open>convertClaudeToOpenAIResponse\<close>,
  \<open>createSyntheticOpenAIStream\<close> and \<open>processStreamResponse\<close>, which reads the upstream with the line reader of
  \<open>SseLines\<close>. An event is a chunk, with its delta, its finish reason and its usage, or the end marker;
  \<open>event_text\<close> is what is written. After \<open>complete\<close> the subscriber takes no further events.
\<close>

datatype delta = DReasoning string | DContent string | DToolCall string string string | DEmpty

datatype openai_event = Chunk (ev_delta: delta) (ev_finish: "string option") (ev_usage: "json option") | DoneMarker | MetaChunk string

record stream_info =
  si_id :: string
  si_created :: rat
  si_model :: string

definition delta_json :: "delta \<Rightarrow> json" where
  "delta_json d =
     (case d of
        DReasoning t \<Rightarrow> JObj [(''reasoning_content'', JStr t)]
      | DContent t \<Rightarrow> JObj [(''content'', JStr t)]
      | DToolCall i n a \<Rightarrow> JObj [(''tool_calls'', JArr [JObj [(''index'', JNum 0), (''id'', JStr i), (''type'', JStr ''function''),
          (''function'', JObj [(''name'', JStr n), (''arguments'', JStr a)])]])]
      | DEmpty \<Rightarrow> JObj [])"

definition chunk_json :: "stream_info \<Rightarrow> delta \<Rightarrow> string option \<Rightarrow> json option \<Rightarrow> json" where
  "chunk_json info d finish usage =
     JObj ([(''id'', JStr (si_id info)), (''object'', JStr ''chat.completion.chunk''), (''created'', JNum (si_created info)),
        (''model'', JStr (si_model info)),
        (''choices'', JArr [JObj [(''index'', JNum 0), (''delta'', delta_json d),
           (''finish_reason'', case finish of Some r \<Rightarrow> JStr r | None \<Rightarrow> JNull)]])] @ opt_member ''usage'' usage)"

definition createCloudCodeMetaChunk :: "string \<Rightarrow> string" where
  "createCloudCodeMetaChunk traceId =
     ''data: '' @ json_stringify (JObj [(''__cloudCodeMeta'', JObj [(''traceId'', JStr traceId)])]) @ newline @ newline"

definition event_text :: "stream_info \<Rightarrow> openai_event \<Rightarrow> string" where
  "event_text info e =
     (case e of
        Chunk d finish usage \<Rightarrow> ''data: '' @ json_stringify (chunk_json info d finish usage) @ newline @ newline
      | DoneMarker \<Rightarrow> ''data: [DONE]'' @ newline @ newline
      | MetaChunk traceId \<Rightarrow> createCloudCodeMetaChunk traceId)"

definition meta_events :: "string option \<Rightarrow> openai_event list" where
  "meta_events meta = (case meta of Some t \<Rightarrow> [MetaChunk t] | None \<Rightarrow> [])"

subsection \<open>Finish reasons\<close>

definition mapGeminiFinishReasonToOpenAIFinishReason :: "string option \<Rightarrow> string option" where
  "mapGeminiFinishReasonToOpenAIFinishReason finishReason =
     (case finishReason of
        None \<Rightarrow> None
      | Some r \<Rightarrow>
          if r = [] then None
          else (let normalized = js_upper r
                in if normalized = ''STOP'' then Some ''stop''
                   else if normalized = ''MAX_TOKENS'' then Some ''length''
                   else if normalized = ''SAFETY'' \<or> normalized = ''RECITATION'' then Some ''content_filter''
                   else Some (js_lower r)))"

definition mapAnthropicStopReasonToOpenAIFinishReason :: "string option \<Rightarrow> string option" where
  "mapAnthropicStopReasonToOpenAIFinishReason stopReason =
     (case stopReason of
        None \<Rightarrow> None
      | Some r \<Rightarrow>
          if r = [] then None
          else if r = ''end_turn'' then Some ''stop''
          else if r = ''max_tokens'' then Some ''length''
          else if r = ''tool_use'' then Some ''tool_calls''
          else Some r)"

subsection \<open>The response\<close>

record openai_response =
  op_id :: string
  op_created :: rat
  op_model :: string
  op_content :: "string option"
  op_tool_calls :: "(string \<times> string \<times> string) list option"
  op_reasoning :: "string option"
  op_finish :: "string option"
  op_usage :: json

definition normalizeToolCallArguments :: "json \<Rightarrow> string" where
  "normalizeToolCallArguments input =
     (case input of JStr s \<Rightarrow> s | JNull \<Rightarrow> ''{}'' | _ \<Rightarrow> json_stringify input)"

definition number_or_zero :: "json \<Rightarrow> rat" where
  "number_or_zero v = (case v of JNum q \<Rightarrow> q | _ \<Rightarrow> 0)"

definition tool_call_entry :: "nat \<times> string \<times> string \<times> json \<Rightarrow> string \<times> string \<times> string" where
  "tool_call_entry = (\<lambda>(index, i, n, input).
     (if i = [] then ''tool-call-'' @ nat_str index else i, if n = [] then ''unknown_tool'' else n,
      normalizeToolCallArguments input))"

definition nonempty_string :: "string \<Rightarrow> string option" where
  "nonempty_string s = (if s = [] then None else Some s)"

definition convertClaudeToOpenAIResponse :: "string \<Rightarrow> rat \<Rightarrow> claude_response \<Rightarrow> string \<Rightarrow> openai_response" where
  "convertClaudeToOpenAIResponse uuid now r model =
     (let toolCalls = map tool_call_entry (enumerate 0 (blocks_tools (cr_content r)));
          prompt = number_or_zero (cr_input_tokens r); completion = number_or_zero (cr_output_tokens r)
      in \<lparr>op_id = ''chatcmpl-'' @ uuid, op_created = now, op_model = model,
          op_content = nonempty_string (blocks_text (cr_content r)),
          op_tool_calls = (if toolCalls = [] then None else Some toolCalls),
          op_reasoning = nonempty_string (blocks_thinking (cr_content r)),
          op_finish = mapAnthropicStopReasonToOpenAIFinishReason (Some (cr_stop_reason r)),
          op_usage = JObj [(''prompt_tokens'', JNum prompt), (''completion_tokens'', JNum completion),
             (''total_tokens'', JNum (prompt + completion))]\<rparr>)"

subsection \<open>A stream made of a response\<close>

definition chunkSize :: nat where "chunkSize = 80"

function pieces :: "string \<Rightarrow> string list" where
  "pieces s = (if length s \<le> chunkSize then [s] else take chunkSize s # pieces (drop chunkSize s))"
  by auto
termination by (relation "measure length") (auto simp: chunkSize_def)

declare pieces.simps [simp del]

definition no_usage :: json where
  "no_usage = JObj [(''prompt_tokens'', JNum 0), (''completion_tokens'', JNum 0), (''total_tokens'', JNum 0)]"

definition createSyntheticOpenAIStream :: "string option \<Rightarrow> openai_response \<Rightarrow> openai_event list" where
  "createSyntheticOpenAIStream meta r =
     (let finishReason = (case op_finish r of Some f \<Rightarrow> f | None \<Rightarrow> ''stop'');
          content = (case op_content r of Some c \<Rightarrow> c | None \<Rightarrow> [])
      in meta_events meta @
         (if content = [] then [Chunk DEmpty (Some finishReason) (Some (op_usage r))]
          else map (\<lambda>piece. Chunk (DContent piece) None (Some no_usage)) (butlast (pieces content)) @
               [Chunk (DContent (last (pieces content))) (Some finishReason) (Some (op_usage r))]) @ [DoneMarker])"

subsection \<open>The stream of the upstream\<close>

definition generated_image :: "string \<times> string \<Rightarrow> string" where
  "generated_image = (\<lambda>(mimeType, data). newline @ newline @ ''![Generated Image](data:'' @
     (if mimeType = [] \<or> mimeType = ''undefined'' then ''image/jpeg'' else mimeType) @ '';base64,'' @ data @ '')'' @ newline @ newline)"

definition args_text :: "json option \<Rightarrow> string" where
  "args_text args = json_stringify (json_or args (JObj []))"

definition openai_part_events :: "string \<Rightarrow> gemini_part \<Rightarrow> openai_event list" where
  "openai_part_events rid p =
     (if gp_thought p \<and> str_truthy (gp_text p) then [Chunk (DReasoning (the (gp_text p))) None None]
      else case gp_functionCall p of
        Some fc \<Rightarrow> [Chunk (DToolCall (if str_truthy (fc_id fc) then the (fc_id fc) else fc_name fc @ ''-'' @ rid) (fc_name fc)
            (args_text (fc_args fc))) None None]
      | None \<Rightarrow>
          (case gp_inlineData p of
             Some img \<Rightarrow> [Chunk (DContent (generated_image img)) None None]
           | None \<Rightarrow> if str_truthy (gp_text p) then [Chunk (DContent (the (gp_text p))) None None] else []))"

text \<open>The elements \<open>for (const part of parts || [])\<close> runs over; None when the value cannot be iterated.\<close>

definition iterated :: "json option \<Rightarrow> json list option" where
  "iterated v =
     (if \<not> truthy_opt v then Some []
      else case v of
        Some (JArr ps) \<Rightarrow> Some ps
      | Some (JStr s) \<Rightarrow> Some (map (\<lambda>c. JStr [c]) s)
      | _ \<Rightarrow> None)"

text \<open>A null among the parts throws, after the parts before it were written.\<close>

fun openai_parts :: "(nat \<Rightarrow> string) \<Rightarrow> nat \<Rightarrow> json list \<Rightarrow> openai_event list \<times> bool" where
  "openai_parts rnd k [] = ([], True)"
| "openai_parts rnd k (p # ps) =
     (if p = JNull then ([], False)
      else (let (es, ok) = openai_parts rnd (Suc k) ps in (openai_part_events (rnd k) (part_of_json p) @ es, ok)))"

definition openai_finish :: "json option \<Rightarrow> openai_event list" where
  "openai_finish candidate =
     (case jget_opt candidate ''finishReason'' of
        Some (JStr r) \<Rightarrow>
          if r = [] then []
          else [Chunk DEmpty (mapGeminiFinishReasonToOpenAIFinishReason (Some r)) None, DoneMarker]
      | _ \<Rightarrow> [])"

definition openai_frame :: "(nat \<Rightarrow> string) \<Rightarrow> nat \<Rightarrow> json \<Rightarrow> openai_event list" where
  "openai_frame rnd k json =
     (let candidate = candidate_of json
      in case iterated (parts_of candidate) of
           None \<Rightarrow> []
         | Some ps \<Rightarrow> (let (es, ok) = openai_parts rnd k ps in es @ (if ok then openai_finish candidate else [])))"

definition frame_size :: "json \<Rightarrow> nat" where
  "frame_size json = (case iterated (parts_of (candidate_of json)) of Some ps \<Rightarrow> length ps | None \<Rightarrow> 0)"

record openai_state =
  os_parts :: nat
  hasEmittedChunk :: bool
  hasSentDone :: bool

definition openai_line :: "(nat \<Rightarrow> string) \<Rightarrow> string \<Rightarrow> openai_state \<Rightarrow> openai_event list \<times> openai_state" where
  "openai_line rnd line st =
     (if hasSentDone st then ([], st)
      else case Option.bind (data_payload line) json_parse of
        None \<Rightarrow> ([], st)
      | Some json \<Rightarrow>
          (let es = openai_frame rnd (os_parts st) json
           in (es, st\<lparr>os_parts := os_parts st + frame_size json, hasEmittedChunk := (hasEmittedChunk st \<or> es \<noteq> []),
                 hasSentDone := (DoneMarker \<in> set es)\<rparr>)))"

definition openai_data :: "(nat \<Rightarrow> string) \<Rightarrow> string \<Rightarrow> string \<times> openai_state \<Rightarrow> openai_event list \<times> (string \<times> openai_state)" where
  "openai_data rnd chunk st =
     (let (buffer, s) = st; text = buffer @ chunk; (os, s') = run_lines (openai_line rnd) (complete_lines text) s
      in (os, (open_line text, s')))"

definition openai_end :: "openai_state \<Rightarrow> openai_event list" where
  "openai_end st =
     (if hasSentDone st then []
      else (if hasEmittedChunk st then [] else [Chunk (DContent []) None None]) @ [DoneMarker])"

text \<open>The whole stream, to its \<open>end\<close>; after 300 seconds without data \<open>openai_idle\<close> closes it instead.\<close>

definition processStreamResponse :: "string option \<Rightarrow> (nat \<Rightarrow> string) \<Rightarrow> string list \<Rightarrow> openai_event list" where
  "processStreamResponse meta rnd chunks =
     (let (es, (buffer, st)) = run_chunks (openai_data rnd) chunks
          ([], \<lparr>os_parts = 0, hasEmittedChunk = False, hasSentDone = False\<rparr>)
      in meta_events meta @ es @ openai_end st)"

definition openai_idle :: "openai_state \<Rightarrow> openai_event list" where
  "openai_idle st = (if hasSentDone st then [] else [DoneMarker])"

interpretation openai: line_reader "openai_line rnd" "openai_data rnd" for rnd
  by unfold_locales (simp add: openai_data_def Let_def)

subsection \<open>Shape of the stream\<close>

definition plain_chunk :: "openai_event \<Rightarrow> bool" where
  "plain_chunk e \<longleftrightarrow> (\<exists>d. e = Chunk d None None)"

lemma part_events_plain: "list_all plain_chunk (openai_part_events rid p)"
  by (simp add: openai_part_events_def plain_chunk_def split: option.split)

lemma parts_plain: "list_all plain_chunk (fst (openai_parts rnd k ps))"
  by (induction ps arbitrary: k) (auto simp: part_events_plain split: prod.split, metis fst_conv)

lemma frame_shape:
  "\<exists>cs fin. openai_frame rnd k j = cs @ fin \<and> list_all plain_chunk cs \<and>
     (fin = [] \<or> (\<exists>f. fin = [Chunk DEmpty f None, DoneMarker]))"
proof (cases "iterated (parts_of (candidate_of j))")
  case None
  then show ?thesis by (intro exI [of _ "[]"]) (simp add: openai_frame_def)
next
  case (Some ps)
  have fin: "openai_finish c = [] \<or> (\<exists>f. openai_finish c = [Chunk DEmpty f None, DoneMarker])" for c
    by (simp add: openai_finish_def split: option.split json.split)
  have "openai_frame rnd k j = fst (openai_parts rnd k ps) @
      (if snd (openai_parts rnd k ps) then openai_finish (candidate_of j) else [])"
    using Some by (simp add: openai_frame_def split: prod.split)
  then show ?thesis using parts_plain [of rnd k ps] fin [of "candidate_of j"]
    by (intro exI [of _ "fst (openai_parts rnd k ps)"]
        exI [of _ "if snd (openai_parts rnd k ps) then openai_finish (candidate_of j) else []"]) auto
qed

lemma plain_not_done: "list_all plain_chunk cs \<Longrightarrow> DoneMarker \<notin> set cs"
  by (auto simp: list_all_iff plain_chunk_def)

text \<open>What the events of a stream in progress look like: plain chunks, and once it is done a finish chunk and the marker.\<close>

definition stream_shape :: "openai_event list \<Rightarrow> openai_state \<Rightarrow> bool" where
  "stream_shape es st \<longleftrightarrow>
     (if hasSentDone st then (\<exists>cs f. es = cs @ [Chunk DEmpty f None, DoneMarker] \<and> list_all plain_chunk cs)
      else list_all plain_chunk es) \<and>
     (hasEmittedChunk st \<longleftrightarrow> es \<noteq> [])"

lemma line_shape:
  assumes "stream_shape es st" "openai_line rnd l st = (fs, st')"
  shows "stream_shape (es @ fs) st'"
proof (cases "hasSentDone st \<or> Option.bind (data_payload l) json_parse = None")
  case True
  with assms show ?thesis by (auto simp: openai_line_def split: if_splits)
next
  case False
  then obtain j where j: "Option.bind (data_payload l) json_parse = Some j" and running: "\<not> hasSentDone st" by auto
  have fs: "fs = openai_frame rnd (os_parts st) j"
    and st': "hasEmittedChunk st' \<longleftrightarrow> hasEmittedChunk st \<or> fs \<noteq> []" "hasSentDone st' \<longleftrightarrow> DoneMarker \<in> set fs"
    using assms(2) j running by (auto simp: openai_line_def Let_def)
  obtain cs fin where s: "fs = cs @ fin" "list_all plain_chunk cs" "fin = [] \<or> (\<exists>f. fin = [Chunk DEmpty f None, DoneMarker])"
    using frame_shape fs by metis
  have es: "list_all plain_chunk es" "hasEmittedChunk st \<longleftrightarrow> es \<noteq> []" using assms(1) running by (simp_all add: stream_shape_def)
  from s(3) show ?thesis
  proof
    assume "fin = []"
    with s st' es plain_not_done [OF s(2)] show ?thesis by (simp add: stream_shape_def)
  next
    assume "\<exists>f. fin = [Chunk DEmpty f None, DoneMarker]"
    then obtain f where "fin = [Chunk DEmpty f None, DoneMarker]" by blast
    with s es have "es @ fs = (es @ cs) @ [Chunk DEmpty f None, DoneMarker]" "list_all plain_chunk (es @ cs)" "DoneMarker \<in> set fs"
      by simp_all
    with st' show ?thesis unfolding stream_shape_def by auto
  qed
qed

lemma lines_shape: "stream_shape es st \<Longrightarrow> run_lines (openai_line rnd) ls st = (fs, st') \<Longrightarrow> stream_shape (es @ fs) st'"
proof (induction ls arbitrary: es st fs st')
  case (Cons l ls)
  obtain f1 s1 where l: "openai_line rnd l st = (f1, s1)" by (rule prod.exhaust)
  obtain f2 s2 where r: "run_lines (openai_line rnd) ls s1 = (f2, s2)" by (rule prod.exhaust)
  from Cons.IH [OF line_shape [OF Cons.prems(1) l] r] Cons.prems(2) l r show ?case by simp
qed simp

lemma stream_eq:
  "processStreamResponse meta rnd chunks =
     (let (es, st) = run_lines (openai_line rnd) (complete_lines (concat chunks))
          \<lparr>os_parts = 0, hasEmittedChunk = False, hasSentDone = False\<rparr>
      in meta_events meta @ es @ openai_end st)"
  by (simp add: processStreamResponse_def openai.chunks_from_empty Let_def split: prod.split)

lemma stream_shape_start: "stream_shape [] \<lparr>os_parts = 0, hasEmittedChunk = False, hasSentDone = False\<rparr>"
  by (simp add: stream_shape_def)

text \<open>An OpenAI stream is complete whatever the upstream sends and however it is cut: after the optional trace chunk
  come one or more chunks and then the end marker, exactly once and at the end; only the last chunk can have a finish
  reason, and nothing follows the frame that had one.\<close>

theorem openai_stream_is_terminated:
  "\<exists>cs c. processStreamResponse meta rnd chunks = meta_events meta @ cs @ [c, DoneMarker] \<and> list_all plain_chunk cs \<and>
     (\<exists>d f. c = Chunk d f None)"
proof -
  obtain es st where r: "run_lines (openai_line rnd) (complete_lines (concat chunks))
      \<lparr>os_parts = 0, hasEmittedChunk = False, hasSentDone = False\<rparr> = (es, st)" by (rule prod.exhaust)
  have eq: "processStreamResponse meta rnd chunks = meta_events meta @ es @ openai_end st" by (simp add: stream_eq r)
  have shape: "stream_shape es st" using lines_shape [OF stream_shape_start r] by simp
  show ?thesis
  proof (cases "hasSentDone st")
    case True
    with shape obtain cs f where "es = cs @ [Chunk DEmpty f None, DoneMarker]" "list_all plain_chunk cs"
      by (auto simp: stream_shape_def)
    with True eq show ?thesis by (intro exI [of _ cs] exI [of _ "Chunk DEmpty f None"]) (simp add: openai_end_def)
  next
    case False
    show ?thesis
    proof (cases "es = []")
      case True
      with False shape eq show ?thesis
        by (intro exI [of _ "[]"] exI [of _ "Chunk (DContent []) None None"]) (simp add: openai_end_def stream_shape_def)
    next
      case ne: False
      with False shape have p: "list_all plain_chunk es" "hasEmittedChunk st" by (simp_all add: stream_shape_def)
      have "es = butlast es @ [last es]" using ne by simp
      moreover have "list_all plain_chunk (butlast es)" "plain_chunk (last es)"
        using p(1) ne by (auto simp: list_all_iff dest: in_set_butlastD)
      ultimately show ?thesis using False p eq
        by (intro exI [of _ "butlast es"] exI [of _ "last es"]) (auto simp: openai_end_def plain_chunk_def)
    qed
  qed
qed

subsection \<open>Content of the stream\<close>

definition event_content :: "openai_event \<Rightarrow> string" where
  "event_content e = (case e of Chunk (DContent t) _ _ \<Rightarrow> t | _ \<Rightarrow> [])"

definition event_reasoning :: "openai_event \<Rightarrow> string" where
  "event_reasoning e = (case e of Chunk (DReasoning t) _ _ \<Rightarrow> t | _ \<Rightarrow> [])"

definition event_calls :: "openai_event \<Rightarrow> (string \<times> string) list" where
  "event_calls e = (case e of Chunk (DToolCall i n a) _ _ \<Rightarrow> [(n, a)] | _ \<Rightarrow> [])"

definition collect_events :: "(openai_event \<Rightarrow> 'a list) \<Rightarrow> openai_event list \<Rightarrow> 'a list" where
  "collect_events f es = concat (map f es)"

text \<open>What a part shows: a thought, else a call, else an image, else a text.\<close>

definition is_reasoning :: "gemini_part \<Rightarrow> bool" where
  "is_reasoning p \<longleftrightarrow> gp_thought p \<and> str_truthy (gp_text p)"

definition shown_text :: "gemini_part \<Rightarrow> string" where
  "shown_text p =
     (if is_reasoning p \<or> gp_functionCall p \<noteq> None then []
      else case gp_inlineData p of Some img \<Rightarrow> generated_image img | None \<Rightarrow> (case gp_text p of Some t \<Rightarrow> t | None \<Rightarrow> []))"

definition shown_reasoning :: "gemini_part \<Rightarrow> string" where
  "shown_reasoning p = (if is_reasoning p then the (gp_text p) else [])"

definition shown_calls :: "gemini_part \<Rightarrow> (string \<times> string) list" where
  "shown_calls p =
     (if is_reasoning p then []
      else case gp_functionCall p of Some fc \<Rightarrow> [(fc_name fc, args_text (fc_args fc))] | None \<Rightarrow> [])"

text \<open>The parts of a frame that are read, and whether the frame ends the stream.\<close>

definition read_parts :: "json \<Rightarrow> gemini_part list" where
  "read_parts j = (case iterated (parts_of (candidate_of j)) of
      Some ps \<Rightarrow> map part_of_json (takeWhile (\<lambda>p. p \<noteq> JNull) ps) | None \<Rightarrow> [])"

definition finishing :: "json \<Rightarrow> bool" where
  "finishing j \<longleftrightarrow> DoneMarker \<in> set (openai_frame nat_str 0 j)"

fun consumed :: "json list \<Rightarrow> json list" where
  "consumed [] = []"
| "consumed (f # fs) = f # (if finishing f then [] else consumed fs)"

lemma part_content:
  "collect_events event_content (openai_part_events rid p) = shown_text p"
  "collect_events event_reasoning (openai_part_events rid p) = shown_reasoning p"
  "collect_events event_calls (openai_part_events rid p) = shown_calls p"
  by (auto simp: collect_events_def openai_part_events_def event_content_def event_reasoning_def event_calls_def
      shown_text_def shown_reasoning_def shown_calls_def is_reasoning_def str_truthy_def split: option.split)

lemma collect_events_Nil [simp]: "collect_events f [] = []"
  by (simp add: collect_events_def)

lemma collect_events_append: "collect_events f (xs @ ys) = collect_events f xs @ collect_events f ys"
  by (simp add: collect_events_def)

lemma frame_eq:
  "openai_frame rnd k j =
     (case iterated (parts_of (candidate_of j)) of
        None \<Rightarrow> []
      | Some ps \<Rightarrow> fst (openai_parts rnd k ps) @ (if snd (openai_parts rnd k ps) then openai_finish (candidate_of j) else []))"
  by (simp add: openai_frame_def Let_def split: option.split prod.split)

text \<open>A view that sees nothing of finish and end events and is determined on the events of each part.\<close>

lemma frame_view:
  assumes "\<And>rid p. collect_events f (openai_part_events rid p) = g p"
    "\<And>r. f (Chunk DEmpty r None) = []" "f DoneMarker = []"
  shows "collect_events f (openai_frame rnd k j) = concat (map g (read_parts j))"
proof -
  have parts: "collect_events f (fst (openai_parts rnd k ps)) = concat (map g (map part_of_json (takeWhile (\<lambda>p. p \<noteq> JNull) ps)))" for k ps
  proof (induction ps arbitrary: k)
    case (Cons p ps)
    then show ?case by (auto simp: collect_events_append assms(1) split: prod.split) (metis fst_conv)
  qed (simp add: collect_events_def)
  have finish: "collect_events f (openai_finish c) = []" for c
    using assms(2,3) by (auto simp: openai_finish_def collect_events_def split: option.split json.split)
  show ?thesis
    using parts finish by (simp add: frame_eq read_parts_def collect_events_append split: option.split)
qed

lemma finishing_eq: "DoneMarker \<in> set (openai_frame rnd k j) \<longleftrightarrow> finishing j"
proof -
  have parts: "DoneMarker \<notin> set (fst (openai_parts rnd k ps))" for rnd k ps
    using plain_not_done [OF parts_plain] .
  have ok: "snd (openai_parts rnd k ps) = snd (openai_parts rnd' k' ps)" for rnd rnd' k k' ps
    by (induction ps arbitrary: k k') (auto split: prod.split, metis snd_conv, metis snd_conv)
  show ?thesis
  proof (cases "iterated (parts_of (candidate_of j))")
    case None
    then show ?thesis by (simp add: finishing_def frame_eq)
  next
    case (Some ps)
    then show ?thesis using parts [of rnd k ps] parts [of nat_str 0 ps] ok [of rnd k ps nat_str 0]
      by (simp add: finishing_def frame_eq)
  qed
qed

lemma lines_view:
  assumes "\<And>rid p. collect_events f (openai_part_events rid p) = g p"
    "\<And>r. f (Chunk DEmpty r None) = []" "f DoneMarker = []"
  shows "\<not> hasSentDone st \<Longrightarrow> run_lines (openai_line rnd) ls st = (es, st') \<Longrightarrow>
    collect_events f es =
      concat (map g (concat (map read_parts (consumed (List.map_filter json_parse (List.map_filter data_payload ls))))))"
proof (induction ls arbitrary: st es st')
  case Nil
  then show ?case by (simp add: collect_events_def List.map_filter_simps)
next
  case (Cons l ls)
  obtain f1 s1 where l: "openai_line rnd l st = (f1, s1)" by (rule prod.exhaust)
  obtain f2 s2 where r: "run_lines (openai_line rnd) ls s1 = (f2, s2)" by (rule prod.exhaust)
  have es: "es = f1 @ f2" using Cons.prems(2) l r by simp
  have stopped: "run_lines (openai_line rnd) ls s = ([], s)" if "hasSentDone s" for s
    using that by (induction ls) (auto simp: openai_line_def)
  show ?case
  proof (cases "Option.bind (data_payload l) json_parse")
    case None
    with l Cons.prems(1) have "f1 = []" "s1 = st" by (auto simp: openai_line_def split: if_splits)
    moreover have "List.map_filter json_parse (List.map_filter data_payload (l # ls)) =
        List.map_filter json_parse (List.map_filter data_payload ls)"
      using None by (auto simp: List.map_filter_simps split: option.split)
    ultimately show ?thesis using Cons.IH [OF Cons.prems(1)] r es by simp
  next
    case (Some j)
    with l Cons.prems(1) have f1: "f1 = openai_frame rnd (os_parts st) j" "hasSentDone s1 \<longleftrightarrow> finishing j"
      by (auto simp: openai_line_def Let_def finishing_eq split: if_splits)
    have fs: "List.map_filter json_parse (List.map_filter data_payload (l # ls)) =
        j # List.map_filter json_parse (List.map_filter data_payload ls)"
      using Some by (auto simp: List.map_filter_simps bind_eq_Some_conv)
    show ?thesis
    proof (cases "finishing j")
      case True
      with f1 stopped [of s1] r have "f2 = []" by simp
      with es f1 fs True frame_view [of f g, OF assms] show ?thesis by simp
    next
      case False
      with f1 fs es Cons.IH [OF _ r] frame_view [of f g, OF assms] show ?thesis by (simp add: collect_events_append)
    qed
  qed
qed

text \<open>An OpenAI client receives exactly what the upstream's frames show, up to the first frame with a finish reason:
  the content of the stream is the text of their parts, images as markdown, the reasoning is their thoughts, and the
  tool calls are their function calls, in order and independent of how the text was cut.\<close>

theorem openai_stream_content:
  "(let es = processStreamResponse meta rnd chunks; ps = concat (map read_parts (consumed (frames (concat chunks))))
    in collect_events event_content es = concat (map shown_text ps) \<and>
       collect_events event_reasoning es = concat (map shown_reasoning ps) \<and>
       collect_events event_calls es = concat (map shown_calls ps))"
proof -
  obtain es st where r: "run_lines (openai_line rnd) (complete_lines (concat chunks))
      \<lparr>os_parts = 0, hasEmittedChunk = False, hasSentDone = False\<rparr> = (es, st)" by (rule prod.exhaust)
  have eq: "processStreamResponse meta rnd chunks = meta_events meta @ es @ openai_end st" by (simp add: stream_eq r)
  have outer: "collect_events f (meta_events meta) = [] \<and> collect_events f (openai_end st) = []"
    if "f DoneMarker = []" "f (Chunk (DContent []) None None) = []" "\<And>t. f (MetaChunk t) = []" for f :: "openai_event \<Rightarrow> 'a list"
    using that by (auto simp: collect_events_def meta_events_def openai_end_def split: option.split)
  have view: "collect_events f (processStreamResponse meta rnd chunks) =
      concat (map g (concat (map read_parts (consumed (frames (concat chunks))))))"
    if "\<And>rid p. collect_events f (openai_part_events rid p) = g p" "\<And>r. f (Chunk DEmpty r None) = []" "f DoneMarker = []"
      "f (Chunk (DContent []) None None) = []" "\<And>t. f (MetaChunk t) = []" for f :: "openai_event \<Rightarrow> 'a list" and g
    unfolding eq collect_events_append using outer [of f] that lines_view [of f g, OF that(1-3) _ r] by (simp add: frames_def)
  show ?thesis
    unfolding Let_def
    by (intro conjI view part_content) (simp_all add: event_content_def event_reasoning_def event_calls_def)
qed

subsection \<open>Differences between the ways to answer\<close>

lemma wrapped_frame: "openai_frame rnd k (JObj [(''response'', r)]) = []"
  by (simp add: frame_eq candidate_of_def jget_def first_element_def parts_of_def jget_opt_def iterated_def truthy_opt_def openai_finish_def)

lemma wrapped_lines:
  assumes "\<And>f. f \<in> set (List.map_filter json_parse (List.map_filter data_payload ls)) \<Longrightarrow> \<exists>r. f = JObj [(''response'', r)]"
    "\<not> hasSentDone st" "\<not> hasEmittedChunk st"
  shows "\<exists>st'. run_lines (openai_line rnd) ls st = ([], st') \<and> \<not> hasSentDone st' \<and> \<not> hasEmittedChunk st'"
  using assms
proof (induction ls arbitrary: st)
  case (Cons l ls)
  have "\<exists>s1. openai_line rnd l st = ([], s1) \<and> \<not> hasSentDone s1 \<and> \<not> hasEmittedChunk s1"
  proof (cases "Option.bind (data_payload l) json_parse")
    case None
    with Cons.prems show ?thesis by (simp add: openai_line_def)
  next
    case (Some j)
    then have "j \<in> set (List.map_filter json_parse (List.map_filter data_payload (l # ls)))"
      by (auto simp: List.map_filter_simps bind_eq_Some_conv)
    with Cons.prems(1) obtain r where "j = JObj [(''response'', r)]" by blast
    with Some Cons.prems(2,3) show ?thesis by (simp add: openai_line_def wrapped_frame)
  qed
  then obtain s1 where s1: "openai_line rnd l st = ([], s1)" "\<not> hasSentDone s1" "\<not> hasEmittedChunk s1" by blast
  have "f \<in> set (List.map_filter json_parse (List.map_filter data_payload (l # ls)))"
    if "f \<in> set (List.map_filter json_parse (List.map_filter data_payload ls))" for f
    using that by (auto simp: List.map_filter_simps split: option.split)
  with Cons.IH [OF _ s1(2,3)] Cons.prems(1) s1(1) show ?case by auto
qed simp

text \<open>The OpenAI stream loses every answer that arrives in the envelope of the internal interface: when each frame is
  wrapped in a \<open>response\<close> member, which the Anthropic stream and the passthrough unwrap, the client receives one empty
  chunk and the end marker, whatever the frames hold.\<close>

theorem wrapped_frames_are_lost:
  assumes "\<And>f. f \<in> set (frames (concat chunks)) \<Longrightarrow> \<exists>r. f = JObj [(''response'', r)]"
  shows "processStreamResponse meta rnd chunks = meta_events meta @ [Chunk (DContent []) None None, DoneMarker]"
proof -
  obtain st where "run_lines (openai_line rnd) (complete_lines (concat chunks))
      \<lparr>os_parts = 0, hasEmittedChunk = False, hasSentDone = False\<rparr> = ([], st)" "\<not> hasSentDone st" "\<not> hasEmittedChunk st"
    using wrapped_lines [of "complete_lines (concat chunks)" "\<lparr>os_parts = 0, hasEmittedChunk = False, hasSentDone = False\<rparr>" rnd] assms
    by (auto simp: frames_def)
  then show ?thesis by (simp add: stream_eq openai_end_def)
qed

definition wrapped_sample :: "string list" where
  "wrapped_sample = [''data: {'' @ [CHR 0x22] @ ''response'' @ [CHR 0x22] @ '':1}'' @ [linefeed]]"

lemma wrapped_frames_are_lost_witness:
  "frames (concat wrapped_sample) = [JObj [(''response'', JNum 1)]] \<and>
   processStreamResponse None nat_str wrapped_sample = [Chunk (DContent []) None None, DoneMarker]"
proof -
  have f: "frames (concat wrapped_sample) = [JObj [(''response'', JNum 1)]]" by code_simp
  then have "processStreamResponse None nat_str wrapped_sample = meta_events None @ [Chunk (DContent []) None None, DoneMarker]"
    by (intro wrapped_frames_are_lost) auto
  with f show ?thesis by (simp add: meta_events_def)
qed

text \<open>A tool call ends the stream with the reason \<open>stop\<close>, the response to the same frame with \<open>tool_calls\<close>.\<close>

lemma finish_reasons_differ:
  "openai_frame rnd k (JObj [(''candidates'', JArr [JObj [(''content'', JObj [(''parts'', JArr
       [JObj [(''functionCall'', JObj [(''name'', JStr n)])]])]), (''finishReason'', JStr ''STOP'')]])]) =
     [Chunk (DToolCall (n @ ''-'' @ rnd k) n ''{}'') None None, Chunk DEmpty (Some ''stop'') None, DoneMarker] \<and>
   mapAnthropicStopReasonToOpenAIFinishReason (Some (stop_reason_of True (Some (JStr ''STOP'')))) = Some ''tool_calls''"
proof -
  have "js_upper ''STOP'' = ''STOP''" "json_stringify (JObj []) = ''{}''" by code_simp+
  then show ?thesis
    by (simp add: frame_eq candidate_of_def jget_def first_element_def parts_of_def jget_opt_def iterated_def truthy_opt_def
        openai_finish_def openai_part_events_def part_of_json_def call_of_json_def string_member_def as_string_def args_text_def
        json_or_def truthy_def mapGeminiFinishReasonToOpenAIFinishReason_def mapAnthropicStopReasonToOpenAIFinishReason_def
        stop_reason_of_def)
qed

subsection \<open>The synthetic stream\<close>

lemma pieces_concat: "concat (pieces s) = s"
  by (induction s rule: pieces.induct) (subst pieces.simps, simp)

lemma pieces_nonempty: "pieces s \<noteq> []"
  by (subst pieces.simps) simp

lemma pieces_size: "s \<noteq> [] \<Longrightarrow> list_all (\<lambda>p. p \<noteq> [] \<and> length p \<le> chunkSize) (pieces s)"
proof (induction s rule: pieces.induct)
  case (1 s)
  then show ?case by (subst pieces.simps) (auto simp: chunkSize_def)
qed

definition small_content :: "openai_event \<Rightarrow> bool" where
  "small_content e = (case e of
      Chunk (DContent t) _ _ \<Rightarrow> t \<noteq> [] \<and> length t \<le> chunkSize
    | Chunk DEmpty _ _ \<Rightarrow> True
    | Chunk _ _ _ \<Rightarrow> False
    | _ \<Rightarrow> True)"

text \<open>The stream made of a finished response has exactly its content, in nonempty pieces of at most eighty
  characters, ends with one chunk that carries the finish reason and the usage and then the end marker, and has
  neither reasoning nor tool calls, even when the response has them.\<close>

theorem synthetic_stream_has_the_content:
  "(let es = createSyntheticOpenAIStream meta r
    in collect_events event_content es = (case op_content r of Some c \<Rightarrow> c | None \<Rightarrow> []) \<and>
       list_all small_content es \<and>
       (\<exists>cs d. es = meta_events meta @ cs @
          [Chunk d (Some (case op_finish r of Some f \<Rightarrow> f | None \<Rightarrow> ''stop'')) (Some (op_usage r)), DoneMarker]))"
proof -
  define c where "c = (case op_content r of Some c \<Rightarrow> c | None \<Rightarrow> [])"
  define fin where "fin = (case op_finish r of Some f \<Rightarrow> f | None \<Rightarrow> ''stop'')"
  have meta: "collect_events event_content (meta_events meta) = []" "list_all small_content (meta_events meta)"
    by (cases meta; simp add: meta_events_def collect_events_def event_content_def small_content_def)+
  have marker: "collect_events event_content [DoneMarker] = []" "small_content DoneMarker"
    by (simp_all add: collect_events_def event_content_def small_content_def)
  show ?thesis
  proof (cases "c = []")
    case True
    then show ?thesis using meta marker
      by (simp add: createSyntheticOpenAIStream_def Let_def c_def [symmetric] fin_def [symmetric] collect_events_append)
        (simp add: collect_events_def event_content_def small_content_def)
  next
    case False
    define ps where "ps = pieces c"
    have ps: "concat ps = c" "ps \<noteq> []" "list_all (\<lambda>p. p \<noteq> [] \<and> length p \<le> chunkSize) ps"
      using pieces_concat pieces_nonempty pieces_size [OF False] by (simp_all add: ps_def)
    have "butlast ps @ [last ps] = ps" using ps(2) by simp
    then have split: "concat (butlast ps) @ last ps = c" using ps(1) by (metis concat.simps concat_append append_Nil2)
    have contents: "collect_events event_content (map (\<lambda>p. Chunk (DContent p) None (Some no_usage)) xs) = concat xs" for xs
      by (induction xs) (simp_all add: collect_events_def event_content_def)
    have small: "list_all small_content (map (\<lambda>p. Chunk (DContent p) None (Some no_usage)) (butlast ps))"
      "small_content (Chunk (DContent (last ps)) f u)" for f u
      using ps(2,3) by (auto simp: list_all_iff small_content_def dest: in_set_butlastD)
    have eq: "createSyntheticOpenAIStream meta r = meta_events meta @ map (\<lambda>p. Chunk (DContent p) None (Some no_usage)) (butlast ps) @
        [Chunk (DContent (last ps)) (Some fin) (Some (op_usage r)), DoneMarker]"
      using False by (simp add: createSyntheticOpenAIStream_def Let_def c_def [symmetric] fin_def [symmetric] ps_def)
    have "collect_events event_content [Chunk (DContent (last ps)) (Some fin) (Some (op_usage r)), DoneMarker] = last ps"
      by (simp add: collect_events_def event_content_def)
    with meta marker contents small split show ?thesis
      unfolding eq Let_def c_def [symmetric] fin_def [symmetric]
      by (auto simp: collect_events_append)
  qed
qed

text \<open>A non-streaming OpenAI answer keeps the content of the upstream's response: its content is the text of the
  answer parts followed by the grounding, its reasoning the thoughts, and its tool calls the function calls in
  order; empty content and empty reasoning are left out.\<close>

theorem openai_response_keeps_content:
  "(let r = convertClaudeToOpenAIResponse u now (transformResponse searched citations uuids uuid g) model
    in op_content r = nonempty_string (concat (map response_text (frame_parts g)) @ grounding_of searched citations g) \<and>
       op_reasoning r = nonempty_string (concat (map part_thinking (frame_parts g))) \<and>
       (case op_tool_calls r of None \<Rightarrow> [] | Some cs \<Rightarrow> cs) =
         map tool_call_entry (enumerate 0 (response_numbered uuids 0 (frame_parts g))))"
  using transformResponse_content [of searched citations uuids uuid g]
  by (simp add: convertClaudeToOpenAIResponse_def Let_def)

end
