(* ===== verification/GeminiClient.thy ===== *)
theory GeminiClient
  imports UpstreamErrors
begin

section \<open>The client of the upstream\<close>

text \<open>
  \<open>server/clients/gemini.client.ts\<close>: a call is posted to the configured endpoints in turn, once more without the
  project header when the upstream refuses it, and a failure becomes an \<open>UpstreamRequestError\<close>. What a post returns is
  the argument \<open>post\<close>, by the number of the post in the call, its address and its headers. The parsing of
  proxy addresses (\<open>new URL\<close>) and the capture of request bodies on disk are not modelled.
\<close>

subsection \<open>Failures of a post\<close>

text \<open>\<open>DataStream\<close> is the body of a streaming request, with the text it delivers unless reading it fails.\<close>

datatype response_data = NoData | DataText string | DataJson json | DataStream "string option"

record failed_response =
  fr_status :: rat
  fr_data :: response_data
  fr_retry_after :: "json option"

datatype post_error = AxiosError string "failed_response option" | OtherError string

definition nonblank :: "json option \<Rightarrow> string option" where
  "nonblank v = (case v of Some (JStr s) \<Rightarrow> if js_trim s = [] then None else Some (js_trim s) | _ \<Rightarrow> None)"

definition extractAxiosErrorMessageFromObject :: "json \<Rightarrow> string option" where
  "extractAxiosErrorMessageFromObject responseData =
     (if \<not> is_object_like responseData then None
      else case Option.bind (jget responseData ''error'') (\<lambda>e. nonblank (jget e ''message'')) of
        Some m \<Rightarrow> Some m
      | None \<Rightarrow> nonblank (jget responseData ''message''))"

definition tryParseJson :: "string \<Rightarrow> json" where
  "tryParseJson s = (case json_parse s of Some v \<Rightarrow> v | None \<Rightarrow> JNull)"

fun first_message :: "string list \<Rightarrow> string option" where
  "first_message [] = None"
| "first_message (line # ls) =
     (let payload = js_trim (drop 5 line)
      in if payload = [] \<or> payload = ''[DONE]'' then first_message ls
         else (case extractAxiosErrorMessageFromObject (tryParseJson payload) of
                 Some m \<Rightarrow> Some m
               | None \<Rightarrow> first_message ls))"

definition extractAxiosErrorMessageFromText :: "string \<Rightarrow> string option" where
  "extractAxiosErrorMessageFromText rawText =
     (let t = js_trim rawText
      in if t = [] then None
         else (case first_message (filter (\<lambda>line. starts_with line ''data:'') (map js_trim (split_on (CHR 0x0A) t))) of
                 Some m \<Rightarrow> Some m
               | None \<Rightarrow> extractAxiosErrorMessageFromObject (tryParseJson t)))"

definition MAX_STREAM_CHARS :: nat where "MAX_STREAM_CHARS = 512 * 1024"

definition readStreamAsText :: "string option \<Rightarrow> string option" where
  "readStreamAsText content = map_option (take MAX_STREAM_CHARS) content"

definition extractAxiosErrorMessage :: "response_data \<Rightarrow> string option" where
  "extractAxiosErrorMessage d =
     (case d of
        NoData \<Rightarrow> None
      | DataText s \<Rightarrow> extractAxiosErrorMessageFromText s
      | DataJson v \<Rightarrow> extractAxiosErrorMessageFromObject v
      | DataStream content \<Rightarrow>
          (case readStreamAsText content of
             None \<Rightarrow> None
           | Some s \<Rightarrow> if s = [] then None else extractAxiosErrorMessageFromText s))"

definition describeAxiosErrorData :: "response_data \<Rightarrow> string" where
  "describeAxiosErrorData d =
     (case d of
        NoData \<Rightarrow> ''undefined''
      | DataText s \<Rightarrow> json_stringify (JStr s)
      | DataJson v \<Rightarrow> (if v = JNull then ''null'' else json_stringify v)
      | DataStream _ \<Rightarrow> ''[stream]'')"

definition extractRetryAfterHeader :: "json option \<Rightarrow> string option" where
  "extractRetryAfterHeader retryAfter =
     (case nonblank retryAfter of
        Some s \<Rightarrow> Some s
      | None \<Rightarrow> (case retryAfter of Some (JArr (first # _)) \<Rightarrow> nonblank (Some first) | _ \<Rightarrow> None))"

definition throwUpstreamRequestError :: "post_error \<Rightarrow> upstream_failure" where
  "throwUpstreamRequestError err =
     (case err of
        OtherError message \<Rightarrow> PlainError message
      | AxiosError message response \<Rightarrow>
          (let d = (case response of Some r \<Rightarrow> fr_data r | None \<Rightarrow> NoData)
           in new_upstream_error (case extractAxiosErrorMessage d of Some m \<Rightarrow> m | None \<Rightarrow> message)
                (map_option fr_status response)
                (extractRetryAfterHeader (Option.bind response fr_retry_after))
                (Some (describeAxiosErrorData d))))"

subsection \<open>Endpoints\<close>

definition strip_slashes :: "string \<Rightarrow> string" where
  "strip_slashes url = rev (dropWhile (\<lambda>c. c = CHR ''/'') (rev url))"

definition defaultInternalBaseUrls :: "string list" where
  "defaultInternalBaseUrls =
     [''https://cloudcode-pa.googleapis.com/v1internal'', ''https://daily-cloudcode-pa.googleapis.com/v1internal'']"

definition getInternalBaseUrls :: "string option \<Rightarrow> string list" where
  "getInternalBaseUrls fromEnv =
     (let configured = (case fromEnv of None \<Rightarrow> [] | Some s \<Rightarrow> filter (\<lambda>u. u \<noteq> []) (map js_trim (split_on (CHR '','') s)))
      in map strip_slashes (if configured \<noteq> [] then configured else defaultInternalBaseUrls))"

definition getInternalTimeoutMs :: "rat option \<Rightarrow> rat" where
  "getInternalTimeoutMs request_timeout = max 1 (case request_timeout of Some t \<Rightarrow> t | None \<Rightarrow> 300) * 1000"

definition shouldFailoverToNextEndpoint :: "post_error \<Rightarrow> bool" where
  "shouldFailoverToNextEndpoint err =
     (case err of
        OtherError _ \<Rightarrow> False
      | AxiosError _ None \<Rightarrow> True
      | AxiosError _ (Some r) \<Rightarrow>
          if fr_status r = 401 \<or> fr_status r = 403 then False
          else fr_status r = 408 \<or> fr_status r = 429 \<or> fr_status r \<ge> 500)"

definition createProjectHeaders :: "string option \<Rightarrow> string js_map" where
  "createProjectHeaders project =
     (case project of
        None \<Rightarrow> []
      | Some p \<Rightarrow> if js_trim p = [] then [] else [(''x-goog-user-project'', js_trim p)])"

definition shouldRetryWithoutProjectHeader :: "post_error \<Rightarrow> string js_map \<Rightarrow> bool" where
  "shouldRetryWithoutProjectHeader err projectHeaders \<longleftrightarrow>
     (case err of AxiosError _ (Some r) \<Rightarrow> fr_status r = 403 | _ \<Rightarrow> False) \<and>
     str_truthy (map_of projectHeaders ''x-goog-user-project'')"

subsection \<open>Failover\<close>

datatype 'r pass = Answer 'r | Refused post_error | Downgrade post_error

text \<open>A post in the log: its address and project headers, and its result.\<close>

type_synonym 'r post_log = "(string \<times> string js_map \<times> (post_error + 'r)) list"

fun try_endpoints ::
    "(nat \<Rightarrow> string \<Rightarrow> string js_map \<Rightarrow> post_error + 'r) \<Rightarrow> string \<Rightarrow> string js_map \<Rightarrow> string list \<Rightarrow> 'r post_log
      \<Rightarrow> 'r pass \<times> 'r post_log" where
  "try_endpoints post path hdrs [] plog = (Refused (OtherError ''null''), plog)"
| "try_endpoints post path hdrs (baseUrl # urls) plog =
     (let res = post (length plog) (baseUrl @ path) hdrs; plog1 = plog @ [(baseUrl @ path, hdrs, res)]
      in case res of
           Inr r \<Rightarrow> (Answer r, plog1)
         | Inl err \<Rightarrow>
             if shouldRetryWithoutProjectHeader err hdrs then (Downgrade err, plog1)
             else if urls = [] \<or> \<not> shouldFailoverToNextEndpoint err then (Refused err, plog1)
             else try_endpoints post path hdrs urls plog1)"

text \<open>\<open>remaining\<close> passes are left of five.\<close>

fun header_attempts ::
    "(nat \<Rightarrow> string \<Rightarrow> string js_map \<Rightarrow> post_error + 'r) \<Rightarrow> string \<Rightarrow> string option \<Rightarrow> string list \<Rightarrow> nat \<Rightarrow> bool \<Rightarrow> post_error
      \<Rightarrow> 'r post_log \<Rightarrow> (upstream_failure + 'r) \<times> 'r post_log" where
  "header_attempts post path project urls 0 downgraded lastErr plog = (Inl (throwUpstreamRequestError lastErr), plog)"
| "header_attempts post path project urls (Suc remaining) downgraded lastErr plog =
     (case try_endpoints post path (if downgraded then [] else createProjectHeaders project) urls plog of
        (Answer r, plog1) \<Rightarrow> (Inr r, plog1)
      | (Refused err, plog1) \<Rightarrow> (Inl (throwUpstreamRequestError err), plog1)
      | (Downgrade err, plog1) \<Rightarrow> header_attempts post path project urls remaining True err plog1)"

definition executeRequestWithEndpointFailover ::
    "(nat \<Rightarrow> string \<Rightarrow> string js_map \<Rightarrow> post_error + 'r) \<Rightarrow> string list \<Rightarrow> string \<Rightarrow> string option
      \<Rightarrow> (upstream_failure + 'r) \<times> 'r post_log" where
  "executeRequestWithEndpointFailover post baseUrls path project =
     header_attempts post path project baseUrls 5 False (OtherError ''null'') []"

definition streamGenerateInternal ::
    "(nat \<Rightarrow> string \<Rightarrow> string js_map \<Rightarrow> post_error + string list) \<Rightarrow> string list \<Rightarrow> string option
      \<Rightarrow> (upstream_failure + string list) \<times> string list post_log" where
  "streamGenerateInternal post baseUrls project =
     executeRequestWithEndpointFailover post baseUrls '':streamGenerateContent?alt=sse'' project"

definition unwrap_payload :: "json \<Rightarrow> json" where
  "unwrap_payload payload = (case jget payload ''response'' of Some r \<Rightarrow> r | None \<Rightarrow> payload)"

definition generateInternal ::
    "(nat \<Rightarrow> string \<Rightarrow> string js_map \<Rightarrow> post_error + json) \<Rightarrow> string list \<Rightarrow> string option
      \<Rightarrow> (upstream_failure + json) \<times> json post_log" where
  "generateInternal post baseUrls project =
     (let (res, plog) = executeRequestWithEndpointFailover post baseUrls '':generateContent'' project
      in (map_sum id unwrap_payload res, plog))"

subsection \<open>Properties\<close>

text \<open>One pass over the endpoints: its posts go to the addresses in their order, with the pass's headers, and every one
but the last failed in a way that lets the next address be tried.\<close>

definition pass_posts :: "string \<Rightarrow> string js_map \<Rightarrow> string list \<Rightarrow> 'r post_log \<Rightarrow> bool" where
  "pass_posts path hdrs urls ps \<longleftrightarrow>
     map fst ps = take (length ps) (map (\<lambda>b. b @ path) urls) \<and> list_all (\<lambda>(u, h, r). h = hdrs) ps \<and>
     list_all (\<lambda>(u, h, r). \<exists>e. r = Inl e \<and> shouldFailoverToNextEndpoint e) (butlast ps)"

text \<open>What the log records is what the upstream answered, post by post.\<close>

definition answered :: "(nat \<Rightarrow> string \<Rightarrow> string js_map \<Rightarrow> post_error + 'r) \<Rightarrow> 'r post_log \<Rightarrow> bool" where
  "answered post ps \<longleftrightarrow> (\<forall>i < length ps. snd (snd (ps ! i)) = post i (fst (ps ! i)) (fst (snd (ps ! i))))"

lemma answered_step: "answered post ps \<Longrightarrow> answered post (ps @ [(u, h, post (length ps) u h)])"
  by (auto simp: answered_def nth_append less_Suc_eq)

lemma answered_nil [simp]: "answered post []" by (simp add: answered_def)

lemma try_endpoints_answered:
  "try_endpoints post path hdrs urls plog = (res, plog') \<Longrightarrow> answered post plog \<Longrightarrow> answered post plog'"
proof (induction urls arbitrary: plog)
  case Nil
  then show ?case by simp
next
  case (Cons b urls)
  have "answered post (plog @ [(b @ path, hdrs, post (length plog) (b @ path) hdrs)])" (is "answered post ?p")
    using Cons.prems(2) by (rule answered_step)
  with Cons.IH [of ?p] Cons.prems(1) show ?case
    by (cases "post (length plog) (b @ path) hdrs") (simp_all add: Let_def split: if_splits)
qed

lemma pass_posts_nil: "pass_posts path hdrs urls []" by (simp add: pass_posts_def)

lemma pass_posts_failed: "pass_posts path hdrs urls ps \<Longrightarrow> i < length ps - 1 \<Longrightarrow> \<exists>e. snd (snd (ps ! i)) = Inl e"
proof -
  assume p: "pass_posts path hdrs urls ps" and i: "i < length ps - 1"
  then have "case butlast ps ! i of (u, h, r) \<Rightarrow> \<exists>e. r = Inl e \<and> shouldFailoverToNextEndpoint e"
    by (simp add: pass_posts_def list_all_length)
  then have "\<exists>e. snd (snd (butlast ps ! i)) = Inl e" by (auto split: prod.splits)
  with i show ?thesis by (auto simp: nth_butlast)
qed

lemma pass_posts_length: "pass_posts path hdrs urls ps \<Longrightarrow> length ps \<le> length urls"
proof -
  assume "pass_posts path hdrs urls ps"
  then have "length (map fst ps) = length (take (length ps) (map (\<lambda>b. b @ path) urls))" by (simp add: pass_posts_def)
  then show ?thesis by simp
qed

lemma pass_posts_cons:
  "pass_posts path hdrs urls ps \<Longrightarrow> shouldFailoverToNextEndpoint e \<Longrightarrow>
   pass_posts path hdrs (b # urls) ((b @ path, hdrs, Inl e) # ps)"
  by (auto simp: pass_posts_def)

lemma try_endpoints_log:
  "try_endpoints post path hdrs urls plog = (res, plog') \<Longrightarrow>
   \<exists>ps. plog' = plog @ ps \<and> pass_posts path hdrs urls ps \<and> (urls \<noteq> [] \<longrightarrow> ps \<noteq> []) \<and>
     (case res of
        Answer v \<Rightarrow> ps \<noteq> [] \<and> snd (snd (last ps)) = Inr v
      | Refused e \<Rightarrow> urls \<noteq> [] \<longrightarrow> snd (snd (last ps)) = Inl e
      | Downgrade e \<Rightarrow> ps \<noteq> [] \<and> snd (snd (last ps)) = Inl e \<and> shouldRetryWithoutProjectHeader e hdrs)"
proof (induction urls arbitrary: plog)
  case Nil
  then show ?case by (auto simp: pass_posts_def)
next
  case (Cons b urls)
  let ?r = "post (length plog) (b @ path) hdrs"
  let ?p = "(b @ path, hdrs, ?r)"
  show ?case
  proof (cases "\<exists>e. ?r = Inl e \<and> \<not> shouldRetryWithoutProjectHeader e hdrs \<and> urls \<noteq> [] \<and> shouldFailoverToNextEndpoint e")
    case False
    then have "plog' = plog @ [?p] \<and> (case res of
        Answer v \<Rightarrow> ?r = Inr v | Refused e \<Rightarrow> ?r = Inl e | Downgrade e \<Rightarrow> ?r = Inl e \<and> shouldRetryWithoutProjectHeader e hdrs)"
      using Cons.prems by (auto simp: Let_def split: sum.splits if_splits)
    then show ?thesis by (intro exI [of _ "[?p]"]) (auto simp: pass_posts_def split: pass.splits)
  next
    case True
    then obtain e where e: "?r = Inl e" "\<not> shouldRetryWithoutProjectHeader e hdrs" "urls \<noteq> []" "shouldFailoverToNextEndpoint e"
      by blast
    with Cons.prems have "try_endpoints post path hdrs urls (plog @ [?p]) = (res, plog')" by (simp add: Let_def)
    from Cons.IH [OF this] obtain ps where ps: "plog' = (plog @ [?p]) @ ps" "pass_posts path hdrs urls ps" "ps \<noteq> []"
        "case res of
           Answer v \<Rightarrow> ps \<noteq> [] \<and> snd (snd (last ps)) = Inr v
         | Refused e \<Rightarrow> urls \<noteq> [] \<longrightarrow> snd (snd (last ps)) = Inl e
         | Downgrade e \<Rightarrow> ps \<noteq> [] \<and> snd (snd (last ps)) = Inl e \<and> shouldRetryWithoutProjectHeader e hdrs"
      using e by blast
    from ps(2) have "pass_posts path hdrs (b # urls) (?p # ps)" using e pass_posts_cons by metis
    then show ?thesis using ps(1,3,4) e(3) by (intro exI [of _ "?p # ps"]) (auto split: pass.splits)
  qed
qed

lemma no_header_no_downgrade [simp]: "\<not> shouldRetryWithoutProjectHeader e []"
  by (simp add: shouldRetryWithoutProjectHeader_def)

definition failover_result :: "(upstream_failure + 'r) \<Rightarrow> 'r post_log \<Rightarrow> bool" where
  "failover_result res ps \<longleftrightarrow>
     (case res of
        Inr v \<Rightarrow> snd (snd (last ps)) = Inr v
      | Inl f \<Rightarrow> \<exists>e. snd (snd (last ps)) = Inl e \<and> f = throwUpstreamRequestError e)"

lemma downgraded_attempt:
  assumes "header_attempts post path project urls (Suc n) True e0 plog = (res, posts)" "urls \<noteq> []"
  shows "\<exists>ps. posts = plog @ ps \<and> ps \<noteq> [] \<and> pass_posts path [] urls ps \<and> failover_result res ps"
proof -
  obtain r plog1 where t: "try_endpoints post path [] urls plog = (r, plog1)" by fastforce
  from try_endpoints_log [OF t] obtain ps where ps: "plog1 = plog @ ps" "pass_posts path [] urls ps" "urls \<noteq> [] \<longrightarrow> ps \<noteq> []"
    "case r of Answer v \<Rightarrow> ps \<noteq> [] \<and> snd (snd (last ps)) = Inr v | Refused e \<Rightarrow> urls \<noteq> [] \<longrightarrow> snd (snd (last ps)) = Inl e
     | Downgrade e \<Rightarrow> ps \<noteq> [] \<and> snd (snd (last ps)) = Inl e \<and> shouldRetryWithoutProjectHeader e []"
    by blast
  then show ?thesis using assms t
    by (intro exI [of _ ps]) (cases r; auto simp: failover_result_def)
qed

lemma failover_answered:
  assumes "executeRequestWithEndpointFailover post urls path project = (res, posts)"
  shows "answered post posts"
proof -
  have "header_attempts post path project urls n d e0 plog = (res, posts) \<Longrightarrow> answered post plog \<Longrightarrow> answered post posts"
    for n d e0 plog
  proof (induction n arbitrary: d e0 plog)
    case (Suc n)
    obtain r plog1 where t: "try_endpoints post path (if d then [] else createProjectHeaders project) urls plog = (r, plog1)"
      by fastforce
    from try_endpoints_answered [OF t Suc.prems(2)] have "answered post plog1" .
    with Suc.prems(1) t show ?case using Suc.IH by (auto split: pass.splits)
  qed simp
  with assms show ?thesis by (simp add: executeRequestWithEndpointFailover_def)
qed

lemma failover_passes:
  assumes run: "executeRequestWithEndpointFailover post urls path project = (res, posts)" and urls: "urls \<noteq> []"
  shows "\<exists>one two. posts = one @ two \<and> pass_posts path (createProjectHeaders project) urls one \<and>
     pass_posts path [] urls two \<and> one \<noteq> [] \<and>
     (two \<noteq> [] \<longrightarrow> (\<exists>e. snd (snd (last one)) = Inl e \<and> shouldRetryWithoutProjectHeader e (createProjectHeaders project))) \<and>
     failover_result res posts"
proof -
  let ?h = "createProjectHeaders project"
  obtain r plog1 where t: "try_endpoints post path ?h urls [] = (r, plog1)" by fastforce
  from try_endpoints_log [OF t] urls obtain one where one: "plog1 = one" "pass_posts path ?h urls one" "one \<noteq> []"
    "case r of Answer v \<Rightarrow> one \<noteq> [] \<and> snd (snd (last one)) = Inr v | Refused e \<Rightarrow> urls \<noteq> [] \<longrightarrow> snd (snd (last one)) = Inl e
     | Downgrade e \<Rightarrow> one \<noteq> [] \<and> snd (snd (last one)) = Inl e \<and> shouldRetryWithoutProjectHeader e ?h"
    by (metis append_Nil)
  have five: "(5::nat) = Suc 4" and four: "(4::nat) = Suc 3" by simp_all
  have run': "(case r of Answer v \<Rightarrow> (Inr v, one) | Refused e \<Rightarrow> (Inl (throwUpstreamRequestError e), one)
      | Downgrade e \<Rightarrow> header_attempts post path project urls (Suc 3) True e one) = (res, posts)"
    using run t one(1) unfolding executeRequestWithEndpointFailover_def five header_attempts.simps four by simp
  show ?thesis
  proof (cases r)
    case (Downgrade e)
    with run' have "header_attempts post path project urls (Suc 3) True e one = (res, posts)" by simp
    from downgraded_attempt [OF this urls] obtain two where two:
      "posts = one @ two" "two \<noteq> []" "pass_posts path [] urls two" "failover_result res two" by blast
    then have "last posts = last two" by simp
    with two(4) have "failover_result res posts" by (simp only: failover_result_def)
    then show ?thesis using one two Downgrade by auto
  next
    case (Answer v)
    with run' one urls have "failover_result res posts" "posts = one @ []" by (auto simp: failover_result_def)
    then show ?thesis using one pass_posts_nil by blast
  next
    case (Refused e)
    with run' one urls have "failover_result res posts" "posts = one @ []" by (auto simp: failover_result_def)
    then show ?thesis using one pass_posts_nil by blast
  qed
qed

lemma base_urls_nonempty: "getInternalBaseUrls fromEnv \<noteq> []"
  by (simp add: getInternalBaseUrls_def defaultInternalBaseUrls_def Let_def)

lemma failover_bound:
  assumes "executeRequestWithEndpointFailover post urls path project = (res, posts)" "urls \<noteq> []"
  shows "length posts \<le> 2 * length urls" and "posts \<noteq> []"
    and "res = Inr v \<Longrightarrow> \<exists>url hdrs. post (length posts - 1) url hdrs = Inr v"
proof -
  from failover_passes [OF assms] obtain one two where ot: "posts = one @ two"
    "pass_posts path (createProjectHeaders project) urls one" "pass_posts path [] urls two" "one \<noteq> []"
    "failover_result res posts" by blast
  show "length posts \<le> 2 * length urls"
    using ot(1) pass_posts_length [OF ot(2)] pass_posts_length [OF ot(3)] by simp
  show ne: "posts \<noteq> []" using ot by simp
  show "\<exists>url hdrs. post (length posts - 1) url hdrs = Inr v" if "res = Inr v"
  proof -
    have "snd (snd (posts ! (length posts - 1))) = Inr v"
      using ot(5) that ne by (simp add: failover_result_def last_conv_nth)
    moreover have "length posts - 1 < length posts" using ne by simp
    ultimately show ?thesis using failover_answered [OF assms(1)] unfolding answered_def by metis
  qed
qed

text \<open>A call to the upstream posts to the configured addresses in their order; it moves to the next one only after a
  network failure, a 408, a 429 or a server error, and starts again, once and without the project header, only after a
  403 answer to a post that carried it. So it posts at most twice to each address, its result is what the last post
  brought (the response, or the failure as an upstream error), and nothing is posted after a success.
\<close>

theorem endpoint_failover:
  fixes post :: "nat \<Rightarrow> string \<Rightarrow> string js_map \<Rightarrow> post_error + 'r"
  assumes "executeRequestWithEndpointFailover post (getInternalBaseUrls fromEnv) path project = (res, posts)"
  shows "(\<exists>one two. posts = one @ two \<and> one \<noteq> [] \<and>
       pass_posts path (createProjectHeaders project) (getInternalBaseUrls fromEnv) one \<and>
       pass_posts path [] (getInternalBaseUrls fromEnv) two \<and>
       (two \<noteq> [] \<longrightarrow> (\<exists>e. snd (snd (last one)) = Inl e \<and> shouldRetryWithoutProjectHeader e (createProjectHeaders project)))) \<and>
     length posts \<le> 2 * length (getInternalBaseUrls fromEnv) \<and> answered post posts \<and> failover_result res posts \<and>
     (\<forall>i < length posts. (\<exists>v. snd (snd (posts ! i)) = Inr v) \<longrightarrow> i = length posts - 1 \<and> (\<exists>v. res = Inr v))"
proof -
  let ?u = "getInternalBaseUrls fromEnv" and ?h = "createProjectHeaders project"
  have ne: "?u \<noteq> []" by (rule base_urls_nonempty)
  from failover_passes [OF assms ne] obtain one two where ot: "posts = one @ two" "pass_posts path ?h ?u one"
    "pass_posts path [] ?u two" "one \<noteq> []"
    "two \<noteq> [] \<longrightarrow> (\<exists>e. snd (snd (last one)) = Inl e \<and> shouldRetryWithoutProjectHeader e ?h)" "failover_result res posts"
    by blast
  note len = failover_bound(1) [OF assms ne]
  have last: "i = length posts - 1" if i: "i < length posts" and v: "snd (snd (posts ! i)) = Inr v" for i v
  proof (rule ccontr)
    assume "i \<noteq> length posts - 1"
    with i consider "i < length one - 1" | "i = length one - 1" "two \<noteq> []"
      | "length one \<le> i" "i - length one < length two - 1"
      using ot(1,4) by (cases two) (auto simp: neq_Nil_conv, linarith+)
    then show False
    proof cases
      case 1
      then have "i < length one" by linarith
      then have "posts ! i = one ! i" using ot(1) by (simp add: nth_append)
      with pass_posts_failed [OF ot(2) 1] v show False by auto
    next
      case 2
      with ot(5,4) v ot(1) show False by (auto simp: nth_append last_conv_nth)
    next
      case 3
      then have "posts ! i = two ! (i - length one)" using ot(1) by (simp add: nth_append)
      with pass_posts_failed [OF ot(3) 3(2)] v show False by auto
    qed
  qed
  have success: "\<exists>w. res = Inr w" if v: "i < length posts" "snd (snd (posts ! i)) = Inr v" for i v
  proof -
    have "last posts = posts ! i" using last [OF v] ot(1,4) by (simp add: last_conv_nth)
    with ot(6) v(2) show ?thesis by (auto simp: failover_result_def split: sum.splits)
  qed
  show ?thesis
  proof (intro conjI)
    show "\<exists>one two. posts = one @ two \<and> one \<noteq> [] \<and> pass_posts path ?h ?u one \<and> pass_posts path [] ?u two \<and>
       (two \<noteq> [] \<longrightarrow> (\<exists>e. snd (snd (last one)) = Inl e \<and> shouldRetryWithoutProjectHeader e ?h))"
      by (rule exI [of _ one], rule exI [of _ two]) (intro conjI ot)
    show "answered post posts" by (rule failover_answered [OF assms])
    show "\<forall>i < length posts. (\<exists>v. snd (snd (posts ! i)) = Inr v) \<longrightarrow> i = length posts - 1 \<and> (\<exists>v. res = Inr v)"
      using last success by metis
  qed (fact len, fact ot(6))
qed

text \<open>The first address refuses the project, then fails; the second one answers.\<close>

definition refused_then_failing :: "nat \<Rightarrow> string \<Rightarrow> string js_map \<Rightarrow> post_error + nat" where
  "refused_then_failing n url hdrs =
     (if hdrs \<noteq> [] then Inl (AxiosError ''403'' (Some \<lparr>fr_status = 403, fr_data = NoData, fr_retry_after = None\<rparr>))
      else if n < 2 then Inl (AxiosError ''503'' (Some \<lparr>fr_status = 503, fr_data = NoData, fr_retry_after = None\<rparr>))
      else Inr 7)"

lemma endpoint_failover_witness:
  "fst (executeRequestWithEndpointFailover refused_then_failing (getInternalBaseUrls (Some ''a/ ,b'')) ''/p'' (Some ''x'')) = Inr 7 \<and>
   length (snd (executeRequestWithEndpointFailover refused_then_failing (getInternalBaseUrls (Some ''a/ ,b'')) ''/p'' (Some ''x''))) = 3 \<and>
   answered refused_then_failing
     (snd (executeRequestWithEndpointFailover refused_then_failing (getInternalBaseUrls (Some ''a/ ,b'')) ''/p'' (Some ''x'')))"
proof (intro conjI)
  show "answered refused_then_failing
     (snd (executeRequestWithEndpointFailover refused_then_failing (getInternalBaseUrls (Some ''a/ ,b'')) ''/p'' (Some ''x'')))"
    using endpoint_failover [OF prod.collapse [symmetric]] by blast
qed code_simp+

subsection \<open>What is lost of a failed streaming request\<close>

text \<open>The body of the error of a streaming request is a constant, so the delays the upstream states in it are not found
when the retry is planned; a plain request keeps them.\<close>

lemma stream_error_body_is_lost:
  assumes "throwUpstreamRequestError (AxiosError m (Some \<lparr>fr_status = st, fr_data = DataStream content, fr_retry_after = ra\<rparr>)) = f"
  shows "\<exists>text. f = new_upstream_error text (Some st) (extractRetryAfterHeader ra) (Some ''[stream]'')"
  using assms by (auto simp: throwUpstreamRequestError_def describeAxiosErrorData_def Let_def)

text \<open>A streamed and a buffered error body of at most 512K characters give the client the same message.\<close>

lemma error_message_of_stream:
  assumes "length content \<le> MAX_STREAM_CHARS"
  shows "extractAxiosErrorMessage (DataStream (Some content)) = extractAxiosErrorMessage (DataText content)"
  using assms by (auto simp: extractAxiosErrorMessage_def readStreamAsText_def extractAxiosErrorMessageFromText_def
      js_trim_def Let_def)

end
