(* ===== verification/Handlers.thy ===== *)
theory Handlers
  imports RetryLoop GeminiClient OpenAiRequest OpenAiStream AnthropicStream ClaudeResponse SseLines
begin

section \<open>The request handlers\<close>

text \<open>
  The four handlers of \<open>server/proxy.service.ts\<close> as bodies of the shared retry loop: what one attempt sends with an
  account, through the client with its endpoint failover, and how the answer is converted. The state of a request is the
  number of posts made, the bodies handed to the client, and the generation settings of a Gemini request: all attempts
  of such a request change the one object the client sent. The upstream, the clock, the random strings and the
  configuration are the members of \<open>gateway_env\<close>; a random string is chosen by the number of bodies sent before.
  \<open>toAnthropicChatResponse\<close> copies a response member by member and is the identity on
  \<open>claude_response\<close>. The text of a body on the wire, the user agent's resolution and the timers of the streams are not modelled here.
\<close>

subsection \<open>Requests, bodies and the gateway's environment\<close>

record anthropic_request =
  aq_model :: string
  aq_messages :: "message list"
  aq_system :: "(string \<times> string) content option"
  aq_max_tokens :: "rat option"
  aq_tools :: "tool list option"
  aq_thinking :: "thinking_request option"
  aq_metadata :: "json option"
  aq_stop_sequences :: "string list option"
  aq_stream :: bool
  aq_temperature :: "rat option"
  aq_top_p :: "rat option"
  aq_top_k :: "rat option"

text \<open>The parts of the system instruction of a Gemini request are given by their texts, None for a part without one.\<close>

record gemini_client_request =
  gq_contents :: json
  gq_systemInstruction :: "string option list option"
  gq_generationConfig :: "generation_config option"

record gemini_body =
  gb_project :: "string option"
  gb_requestId :: string
  gb_contents :: json
  gb_generationConfig :: "generation_config option"
  gb_systemInstruction :: "string list option"
  gb_model :: string
  gb_userAgent :: string
  gb_requestType :: string
  gb_enabledCreditTypes :: "string list option"

datatype body = ClaudeBody (claude_body: gemini_internal_request) | GeminiBody (gemini_body: gemini_body)

definition body_project :: "body \<Rightarrow> string option" where
  "body_project b = (case b of ClaudeBody g \<Rightarrow> gi_project g | GeminiBody g \<Rightarrow> gb_project g)"

definition body_model :: "body \<Rightarrow> string" where
  "body_model b = (case b of ClaudeBody g \<Rightarrow> gi_model g | GeminiBody g \<Rightarrow> gb_model g)"

definition body_config :: "body \<Rightarrow> generation_config option" where
  "body_config b = (case b of ClaudeBody g \<Rightarrow> gr_generationConfig (gi_request g) | GeminiBody g \<Rightarrow> gb_generationConfig g)"

record gateway_env =
  ge_stream :: "nat \<Rightarrow> string \<Rightarrow> string js_map \<Rightarrow> cloud_account \<Rightarrow> body \<Rightarrow> post_error + string list"
  ge_generate :: "nat \<Rightarrow> string \<Rightarrow> string js_map \<Rightarrow> cloud_account \<Rightarrow> body \<Rightarrow> post_error + json"
  ge_base_urls :: "string option"
  ge_user_agent :: string
  ge_default_agent :: string
  ge_depth :: nat
  ge_signature :: "nat \<Rightarrow> string option"
  ge_request_id :: "nat \<Rightarrow> string"
  ge_fresh :: "nat \<Rightarrow> nat \<Rightarrow> string"
  ge_searched :: string
  ge_citations :: string
  ge_meta :: "string option"
  ge_clock :: rat
  ge_rules :: "string js_map"
  ge_custom_mapping :: "string js_map"
  ge_anthropic_mapping :: "string js_map"

record gateway =
  gw_posts :: nat
  gw_bodies :: "body list"
  gw_config :: "generation_config option"

definition new_gateway :: "generation_config option \<Rightarrow> gateway" where
  "new_gateway cfg = \<lparr>gw_posts = 0, gw_bodies = [], gw_config = cfg\<rparr>"

text \<open>A result with the routing \<open>attachModelRouting\<close> hangs on it.\<close>

record 'v routed =
  ro_value :: 'v
  ro_requestedModel :: string
  ro_mappedModel :: string
  ro_upstreamModel :: string
  ro_reason :: "string option"

definition attachModelRouting :: "'v \<Rightarrow> string \<Rightarrow> string \<Rightarrow> string \<Rightarrow> string option \<Rightarrow> 'v routed" where
  "attachModelRouting v requestedModel mappedModel upstreamModel reason =
     \<lparr>ro_value = v, ro_requestedModel = requestedModel, ro_mappedModel = mappedModel, ro_upstreamModel = upstreamModel,
      ro_reason = reason\<rparr>"

definition route_reason :: "string option \<Rightarrow> string option" where
  "route_reason project = (if project = None then Some ''project_context_retry'' else None)"

subsection \<open>Calls through the client\<close>

definition request_headers :: "string js_map \<Rightarrow> string js_map \<Rightarrow> string js_map" where
  "request_headers projectHeaders extraHeaders = fold (\<lambda>(k, v). AList.update k v) extraHeaders projectHeaders"

definition client_stream ::
    "gateway_env \<Rightarrow> string js_map \<Rightarrow> cloud_account \<Rightarrow> body \<Rightarrow> gateway \<Rightarrow> (upstream_failure + string list) \<times> gateway" where
  "client_stream ge extraHeaders token b gw =
     (let (r, posts) = streamGenerateInternal
            (\<lambda>n url hdrs. ge_stream ge (gw_posts gw + n) url (request_headers hdrs extraHeaders) token b)
            (getInternalBaseUrls (ge_base_urls ge)) (body_project b)
      in (r, gw\<lparr>gw_posts := gw_posts gw + length posts, gw_bodies := gw_bodies gw @ [b]\<rparr>))"

definition client_generate ::
    "gateway_env \<Rightarrow> string js_map \<Rightarrow> cloud_account \<Rightarrow> body \<Rightarrow> gateway \<Rightarrow> (upstream_failure + json) \<times> gateway" where
  "client_generate ge extraHeaders token b gw =
     (let (r, posts) = generateInternal
            (\<lambda>n url hdrs. ge_generate ge (gw_posts gw + n) url (request_headers hdrs extraHeaders) token b)
            (getInternalBaseUrls (ge_base_urls ge)) (body_project b)
      in (r, gw\<lparr>gw_posts := gw_posts gw + length posts, gw_bodies := gw_bodies gw @ [b]\<rparr>))"

text \<open>\<open>generateInternalWithStreamFallback\<close> with its calls.\<close>

definition generate_or_stream ::
    "gateway_env \<Rightarrow> string js_map \<Rightarrow> cloud_account \<Rightarrow> body \<Rightarrow> gateway \<Rightarrow> (upstream_failure + json) \<times> gateway" where
  "generate_or_stream ge extraHeaders token b gw =
     (case client_generate ge extraHeaders token b gw of
        (Inl err, gw1) \<Rightarrow> (Inl err, gw1)
      | (Inr direct, gw1) \<Rightarrow>
          if hasUsableGeminiCandidate direct then (Inr direct, gw1)
          else (case client_stream ge extraHeaders token b gw1 of
                  (Inl err, gw2) \<Rightarrow> (Inl err, gw2)
                | (Inr chunks, gw2) \<Rightarrow>
                    (case collectGeminiStreamAsResponse chunks of
                       Inl message \<Rightarrow> (Inl (PlainError message), gw2)
                     | Inr response \<Rightarrow> (Inr response, gw2))))"

text \<open>The first chunk decides whether the stream is an answer; it is replayed before the rest.\<close>

definition preflightGeminiSseStream :: "string list \<Rightarrow> upstream_failure + string list" where
  "preflightGeminiSseStream chunks =
     (case chunks of
        [] \<Rightarrow> Inl (PlainError ''Empty response stream'')
      | firstChunk # rest \<Rightarrow>
          (case extractGeminiSseError firstChunk of
             Some err \<Rightarrow> Inl (new_upstream_error (se_message err) (se_status err) None (Some (se_body err)))
           | None \<Rightarrow> Inr (firstChunk # rest)))"

subsection \<open>Claude requests\<close>

definition toClaudeRequest :: "anthropic_request \<Rightarrow> claude_request" where
  "toClaudeRequest q =
     \<lparr>rq_model = aq_model q, rq_messages = aq_messages q, rq_system = aq_system q, rq_tools = aq_tools q,
      rq_max_tokens = aq_max_tokens q, rq_stop_sequences = aq_stop_sequences q, rq_temperature = aq_temperature q,
      rq_top_p = aq_top_p q, rq_top_k = aq_top_k q, rq_thinking = aq_thinking q,
      rq_source = as_string (jget_opt (aq_metadata q) ''source'')\<rparr>"

text \<open>The body of an attempt: the converted request with the account's model and limits.\<close>

definition claude_body_for ::
    "gateway_env \<Rightarrow> service \<Rightarrow> cloud_account \<Rightarrow> string \<Rightarrow> string option \<Rightarrow> gateway \<Rightarrow> claude_request \<Rightarrow> gemini_internal_request option" where
  "claude_body_for ge s token model project gw c =
     (case transformClaudeRequestIn (ge_depth ge) (ge_signature ge (length (gw_bodies gw)))
         (ge_request_id ge (length (gw_bodies gw))) (ge_default_agent ge) c
         (Some (case project of Some p \<Rightarrow> p | None \<Rightarrow> [])) (Some (ge_user_agent ge)) of
        None \<Rightarrow> None
      | Some g \<Rightarrow> Some (g\<lparr>gi_model := model, gi_request := (gi_request g)\<lparr>gr_generationConfig :=
          applyInternalGenerationConstraints s model (ca_id token) (gr_generationConfig (gi_request g))\<rparr>\<rparr>))"

datatype anthropic_answer = AnthropicMessage claude_response | AnthropicEvents "string + sse list"

definition claude_answer :: "gateway_env \<Rightarrow> gateway \<Rightarrow> json \<Rightarrow> claude_response" where
  "claude_answer ge gw response =
     transformResponse (ge_searched ge) (ge_citations ge) (\<lambda>n. ge_fresh ge (length (gw_bodies gw)) (Suc n))
       (ge_fresh ge (length (gw_bodies gw)) 0) response"

definition anthropic_events :: "gateway_env \<Rightarrow> gateway \<Rightarrow> string list \<Rightarrow> string + sse list" where
  "anthropic_events ge gw chunks =
     processAnthropicInternalStream (ge_fresh ge (length (gw_bodies gw))) (ge_searched ge) (ge_citations ge)
       (ge_signature ge (length (gw_bodies gw))) chunks"

definition anthropic_attempt :: "gateway_env \<Rightarrow> anthropic_request \<Rightarrow> string \<Rightarrow> (gateway, anthropic_answer routed) upstream" where
  "anthropic_attempt ge q targetModel s i token model project gw =
     (case claude_body_for ge s token model project gw (toClaudeRequest q) of
        None \<Rightarrow> (Inl InternalTypeError, gw)
      | Some g \<Rightarrow>
          (let extra = createModelSpecificHeaders (Some (aq_model q));
               routed = (\<lambda>v. attachModelRouting v (aq_model q) targetModel (gi_model g) (route_reason project))
           in if aq_stream q
              then (case client_stream ge extra token (ClaudeBody g) gw of
                      (Inl err, gw1) \<Rightarrow> (Inl err, gw1)
                    | (Inr chunks, gw1) \<Rightarrow> (Inr (routed (AnthropicEvents (anthropic_events ge gw1 chunks))), gw1))
              else (case generate_or_stream ge extra token (ClaudeBody g) gw of
                      (Inl err, gw1) \<Rightarrow> (Inl err, gw1)
                    | (Inr response, gw1) \<Rightarrow> (Inr (routed (AnthropicMessage (claude_answer ge gw1 response))), gw1))))"

definition route_model :: "gateway_env \<Rightarrow> string \<Rightarrow> string" where
  "route_model ge model = resolveTargetModel (ge_rules ge) (ge_custom_mapping ge) (ge_anthropic_mapping ge) model"

text \<open>What a handler does before and around its attempts is the environment \<open>e\<close>, \<open>envs\<close> and \<open>random\<close> of the loop.\<close>

definition handleAnthropicMessages ::
    "gateway_env \<Rightarrow> env \<Rightarrow> (nat \<Rightarrow> env) \<Rightarrow> (nat \<Rightarrow> rat) \<Rightarrow> (string \<times> json list) option \<Rightarrow> anthropic_request \<Rightarrow> service
      \<Rightarrow> (upstream_failure + anthropic_answer routed) \<times> gateway retry_state" where
  "handleAnthropicMessages ge e envs random credentialScope q s =
     run_handler e envs random (anthropic_attempt ge q (route_model ge (aq_model q))) credentialScope
       \<lparr>h_no_account = ''No available accounts'', h_failed = ''Request failed after retries'', h_keeps_original = True,
        h_sessionKey = extractAnthropicSessionKey (aq_metadata q), h_scopeKey = map_option fst credentialScope,
        h_model = route_model ge (aq_model q)\<rparr>
       (new_gateway None) s"

subsection \<open>OpenAI requests\<close>

datatype openai_answer = OpenAiMessage openai_response | OpenAiEvents "openai_event list"

definition openai_answer_of :: "gateway_env \<Rightarrow> gateway \<Rightarrow> string \<Rightarrow> json \<Rightarrow> openai_response" where
  "openai_answer_of ge gw model response =
     convertClaudeToOpenAIResponse (ge_fresh ge (length (gw_bodies gw)) 0) (ge_clock ge) (claude_answer ge gw response) model"

definition chat_attempt ::
    "gateway_env \<Rightarrow> openai_request \<Rightarrow> bool \<Rightarrow> string \<Rightarrow> (gateway, openai_answer routed) upstream" where
  "chat_attempt ge q streaming targetModel s i token model project gw =
     (case convertOpenAIToClaude (ge_depth ge) (ge_fresh ge (length (gw_bodies gw))) q of
        Inl _ \<Rightarrow> (Inl InternalTypeError, gw)
      | Inr c \<Rightarrow>
          (case claude_body_for ge s token model project gw c of
             None \<Rightarrow> (Inl InternalTypeError, gw)
           | Some g \<Rightarrow>
               (let extra = createModelSpecificHeaders (Some (oq_model q));
                    routed = (\<lambda>v reason. attachModelRouting v (oq_model q) targetModel (gi_model g) reason)
                in if streaming
                   then (case client_stream ge extra token (ClaudeBody g) gw of
                           (Inr chunks, gw1) \<Rightarrow>
                             (Inr (routed (OpenAiEvents (processStreamResponse (ge_meta ge)
                                (ge_fresh ge (length (gw_bodies gw1))) chunks)) (route_reason project)), gw1)
                         | (Inl streamError, gw1) \<Rightarrow>
                             if project = None then (Inl streamError, gw1)
                             else (case generate_or_stream ge extra token (ClaudeBody g) gw1 of
                                     (Inl err, gw2) \<Rightarrow> (Inl err, gw2)
                                   | (Inr response, gw2) \<Rightarrow>
                                       (Inr (routed (OpenAiEvents (createSyntheticOpenAIStream (ge_meta ge)
                                          (openai_answer_of ge gw2 (oq_model q) response)))
                                          (Some ''stream_to_nonstream_fallback'')), gw2)))
                   else (case generate_or_stream ge extra token (ClaudeBody g) gw of
                           (Inl err, gw1) \<Rightarrow> (Inl err, gw1)
                         | (Inr response, gw1) \<Rightarrow>
                             (Inr (routed (OpenAiMessage (openai_answer_of ge gw1 (oq_model q) response))
                                (route_reason project)), gw1)))))"

definition handleChatCompletions ::
    "gateway_env \<Rightarrow> env \<Rightarrow> (nat \<Rightarrow> env) \<Rightarrow> (nat \<Rightarrow> rat) \<Rightarrow> (string \<times> json list) option \<Rightarrow> openai_request \<Rightarrow> bool \<Rightarrow> service
      \<Rightarrow> (upstream_failure + openai_answer routed) \<times> gateway retry_state" where
  "handleChatCompletions ge e envs random credentialScope q streaming s =
     run_handler e envs random (chat_attempt ge q streaming (route_model ge (oq_model q))) credentialScope
       \<lparr>h_no_account = ''No available accounts (all exhausted or rate limited)'', h_failed = ''Request failed after retries'',
        h_keeps_original = False, h_sessionKey = extractOpenAISessionKey (oq_extra q),
        h_scopeKey = map_option fst credentialScope, h_model = route_model ge (oq_model q)\<rparr>
       (new_gateway None) s"

subsection \<open>Gemini requests\<close>

definition toInternalGeminiRequest :: "gemini_client_request \<Rightarrow> json \<times> string list option" where
  "toInternalGeminiRequest q =
     (gq_contents q, map_option (\<lambda>parts. List.map_filter (\<lambda>t. t) parts) (gq_systemInstruction q))"

definition createGeminiInternalRequest ::
    "string \<Rightarrow> string \<Rightarrow> gemini_client_request \<Rightarrow> generation_config option \<Rightarrow> string \<Rightarrow> string \<Rightarrow> string \<Rightarrow> gemini_body" where
  "createGeminiInternalRequest requestId model q cfg projectId requestType requestUserAgent =
     (let (contents, system) = toInternalGeminiRequest q
      in \<lparr>gb_project = (if js_trim projectId = [] then None else Some (js_trim projectId)), gb_requestId = requestId,
          gb_contents = contents, gb_generationConfig = cfg, gb_systemInstruction = system, gb_model = model,
          gb_userAgent = requestUserAgent, gb_requestType = requestType,
          gb_enabledCreditTypes = (if requestType \<noteq> ''image_gen'' then Some [''GOOGLE_ONE_AI''] else None)\<rparr>)"

text \<open>What the constraints leave in the client's own settings object: an emptied object is only taken out of the body.\<close>

definition shared_config_after :: "generation_config option \<Rightarrow> generation_config option \<Rightarrow> generation_config option" where
  "shared_config_after original constrained =
     (case original of None \<Rightarrow> None | Some _ \<Rightarrow> Some (case constrained of Some c \<Rightarrow> c | None \<Rightarrow> no_config))"

definition gemini_body_for ::
    "gateway_env \<Rightarrow> service \<Rightarrow> cloud_account \<Rightarrow> string \<Rightarrow> string option \<Rightarrow> gateway \<Rightarrow> gemini_client_request
      \<Rightarrow> gemini_body \<times> gateway" where
  "gemini_body_for ge s token model project gw q =
     (let cfg = applyInternalGenerationConstraints s model (ca_id token) (gw_config gw)
      in (createGeminiInternalRequest (ge_request_id ge (length (gw_bodies gw))) model q cfg
            (case project of Some p \<Rightarrow> p | None \<Rightarrow> []) ''generate-content'' (ge_user_agent ge),
          gw\<lparr>gw_config := shared_config_after (gw_config gw) cfg\<rparr>))"

definition usage_members :: "string list" where
  "usage_members = [''promptTokenCount'', ''candidatesTokenCount'', ''totalTokenCount'', ''promptTokensDetails'',
     ''candidatesTokensDetails'', ''trafficType'']"

definition normalize_candidate :: "nat \<times> json \<Rightarrow> json" where
  "normalize_candidate ic =
     JObj (opt_member ''content'' (jget (snd ic) ''content'') @ opt_member ''finishReason'' (jget (snd ic) ''finishReason'') @
       [(''index'', case jget (snd ic) ''index'' of Some (JNum n) \<Rightarrow> JNum n | _ \<Rightarrow> JNum (of_nat (fst ic)))])"

definition normalizeGeminiGenerateResponse :: "json \<Rightarrow> json" where
  "normalizeGeminiGenerateResponse response =
     (let candidates = (case jget response ''candidates'' of Some (JArr cs) \<Rightarrow> map normalize_candidate (enumerate 0 cs) | _ \<Rightarrow> []);
          usage = concat (map (\<lambda>k. opt_member k (jget_opt (jget response ''usageMetadata'') k)) usage_members)
      in JObj ((''candidates'', JArr candidates) #
           (if truthy_opt (jget response ''usageMetadata'') \<and> usage \<noteq> [] then [(''usageMetadata'', JObj usage)] else [])))"

definition gemini_attempt ::
    "gateway_env \<Rightarrow> gemini_client_request \<Rightarrow> string \<Rightarrow> string \<Rightarrow> (gateway, json routed) upstream" where
  "gemini_attempt ge q normalizedModel targetModel s i token model project gw =
     (let (b, gw1) = gemini_body_for ge s token model project gw q
      in case generate_or_stream ge (createModelSpecificHeaders (Some normalizedModel)) token (GeminiBody b) gw1 of
           (Inl err, gw2) \<Rightarrow> (Inl err, gw2)
         | (Inr response, gw2) \<Rightarrow>
             (Inr (attachModelRouting (normalizeGeminiGenerateResponse response) normalizedModel targetModel model
                (route_reason project)), gw2))"

definition gemini_stream_attempt ::
    "gateway_env \<Rightarrow> gemini_client_request \<Rightarrow> string \<Rightarrow> string \<Rightarrow> (gateway, (string + string list) routed) upstream" where
  "gemini_stream_attempt ge q normalizedModel targetModel s i token model project gw =
     (let (b, gw1) = gemini_body_for ge s token model project gw q
      in case client_stream ge (createModelSpecificHeaders (Some normalizedModel)) token (GeminiBody b) gw1 of
           (Inl err, gw2) \<Rightarrow> (Inl err, gw2)
         | (Inr chunks, gw2) \<Rightarrow>
             (case preflightGeminiSseStream chunks of
                Inl err \<Rightarrow> (Inl err, gw2)
              | Inr stream \<Rightarrow>
                  (Inr (attachModelRouting (passthroughSseStream stream) normalizedModel targetModel model
                     (route_reason project)), gw2)))"

definition gemini_handler :: "gateway_env \<Rightarrow> string \<Rightarrow> (string \<times> json list) option \<Rightarrow> string \<Rightarrow> handler" where
  "gemini_handler ge failed credentialScope normalizedModel =
     \<lparr>h_no_account = ''No available accounts (all exhausted or rate limited)'', h_failed = failed, h_keeps_original = False,
      h_sessionKey = None, h_scopeKey = map_option fst credentialScope, h_model = route_model ge normalizedModel\<rparr>"

definition handleGeminiGenerateContent ::
    "gateway_env \<Rightarrow> env \<Rightarrow> (nat \<Rightarrow> env) \<Rightarrow> (nat \<Rightarrow> rat) \<Rightarrow> (string \<times> json list) option \<Rightarrow> string \<Rightarrow> gemini_client_request
      \<Rightarrow> service \<Rightarrow> (upstream_failure + json routed) \<times> gateway retry_state" where
  "handleGeminiGenerateContent ge e envs random credentialScope model q s =
     (let normalizedModel = normalizeGeminiModel model
      in run_handler e envs random (gemini_attempt ge q normalizedModel (route_model ge normalizedModel)) credentialScope
           (gemini_handler ge ''Gemini request failed after retries'' credentialScope normalizedModel)
           (new_gateway (gq_generationConfig q)) s)"

definition handleGeminiStreamGenerateContent ::
    "gateway_env \<Rightarrow> env \<Rightarrow> (nat \<Rightarrow> env) \<Rightarrow> (nat \<Rightarrow> rat) \<Rightarrow> (string \<times> json list) option \<Rightarrow> string \<Rightarrow> gemini_client_request
      \<Rightarrow> service \<Rightarrow> (upstream_failure + (string + string list) routed) \<times> gateway retry_state" where
  "handleGeminiStreamGenerateContent ge e envs random credentialScope model q s =
     (let normalizedModel = normalizeGeminiModel model
      in run_handler e envs random (gemini_stream_attempt ge q normalizedModel (route_model ge normalizedModel)) credentialScope
           (gemini_handler ge ''Gemini stream request failed after retries'' credentialScope normalizedModel)
           (new_gateway (gq_generationConfig q)) s)"

end
