(* ===== verification/HandlerFacts.thy ===== *)
theory HandlerFacts
  imports Handlers
begin

section \<open>What the request handlers promise\<close>

text \<open>
  Facts about whole requests, from the client's message to the answer it gets: the number of posts to the upstream, where
  an answer comes from and what was asked for it, the preflight of Gemini streams, and the shared settings of a Gemini
  request.
\<close>

subsection \<open>Calls\<close>

text \<open>A call appends its body, posts at most twice to each address, and its result is what the last post brought.\<close>

definition call_done :: "gateway_env \<Rightarrow> body \<Rightarrow> gateway \<Rightarrow> gateway \<Rightarrow> bool" where
  "call_done ge b gw gw' \<longleftrightarrow>
     gw_bodies gw' = gw_bodies gw @ [b] \<and> gw_config gw' = gw_config gw \<and> gw_posts gw < gw_posts gw' \<and>
     gw_posts gw' \<le> gw_posts gw + 2 * length (getInternalBaseUrls (ge_base_urls ge))"

lemma client_stream_done:
  assumes "client_stream ge extra token b gw = (r, gw')"
  shows "call_done ge b gw gw'"
    and "r = Inr chunks \<Longrightarrow> \<exists>url hdrs. ge_stream ge (gw_posts gw' - 1) url hdrs token b = Inr chunks"
proof -
  obtain posts where e: "executeRequestWithEndpointFailover
      (\<lambda>n url hdrs. ge_stream ge (gw_posts gw + n) url (request_headers hdrs extra) token b)
      (getInternalBaseUrls (ge_base_urls ge)) '':streamGenerateContent?alt=sse'' (body_project b) = (r, posts)"
    and gw: "gw' = gw\<lparr>gw_posts := gw_posts gw + length posts, gw_bodies := gw_bodies gw @ [b]\<rparr>"
    using assms by (auto simp: client_stream_def streamGenerateInternal_def split: prod.splits)
  note bound = failover_bound [OF e base_urls_nonempty]
  have n: "gw_posts gw' - 1 = gw_posts gw + (length posts - 1)" using bound(2) by (cases posts) (simp_all add: gw)
  show "call_done ge b gw gw'" using bound(1,2) by (simp add: call_done_def gw)
  show "\<exists>url hdrs. ge_stream ge (gw_posts gw' - 1) url hdrs token b = Inr chunks" if "r = Inr chunks"
    using bound(3) [OF that] unfolding n by blast
qed

lemma client_generate_done:
  assumes "client_generate ge extra token b gw = (r, gw')"
  shows "call_done ge b gw gw'"
    and "r = Inr v \<Longrightarrow> \<exists>url hdrs payload. ge_generate ge (gw_posts gw' - 1) url hdrs token b = Inr payload \<and>
      v = unwrap_payload payload"
proof -
  obtain r0 posts where e: "executeRequestWithEndpointFailover
      (\<lambda>n url hdrs. ge_generate ge (gw_posts gw + n) url (request_headers hdrs extra) token b)
      (getInternalBaseUrls (ge_base_urls ge)) '':generateContent'' (body_project b) = (r0, posts)"
    and r: "r = map_sum id unwrap_payload r0"
    and gw: "gw' = gw\<lparr>gw_posts := gw_posts gw + length posts, gw_bodies := gw_bodies gw @ [b]\<rparr>"
    using assms by (auto simp: client_generate_def generateInternal_def split: prod.splits)
  note bound = failover_bound [OF e base_urls_nonempty]
  have n: "gw_posts gw' - 1 = gw_posts gw + (length posts - 1)" using bound(2) by (cases posts) (simp_all add: gw)
  show "call_done ge b gw gw'" using bound(1,2) by (simp add: call_done_def gw)
  show "\<exists>url hdrs payload. ge_generate ge (gw_posts gw' - 1) url hdrs token b = Inr payload \<and> v = unwrap_payload payload"
    if "r = Inr v"
  proof -
    from that r obtain payload where "r0 = Inr payload" "v = unwrap_payload payload" by (cases r0) auto
    with bound(3) [of payload] show ?thesis unfolding n by blast
  qed
qed

text \<open>What the upstream said: the response of a plain call, or the one collected from a stream.\<close>

definition upstream_said :: "gateway_env \<Rightarrow> cloud_account \<Rightarrow> body \<Rightarrow> nat \<Rightarrow> json \<Rightarrow> bool" where
  "upstream_said ge token b n response \<longleftrightarrow>
     (\<exists>url hdrs payload. ge_generate ge n url hdrs token b = Inr payload \<and> response = unwrap_payload payload \<and>
        hasUsableGeminiCandidate response) \<or>
     (\<exists>url hdrs chunks. ge_stream ge n url hdrs token b = Inr chunks \<and> collectGeminiStreamAsResponse chunks = Inr response)"

text \<open>One or two calls with the same body.\<close>

definition calls_done :: "gateway_env \<Rightarrow> nat \<Rightarrow> body \<Rightarrow> gateway \<Rightarrow> gateway \<Rightarrow> bool" where
  "calls_done ge k b gw gw' \<longleftrightarrow>
     (\<exists>n. gw_bodies gw' = gw_bodies gw @ replicate (Suc n) b \<and> n < k \<and>
        gw_posts gw' \<le> gw_posts gw + 2 * length (getInternalBaseUrls (ge_base_urls ge)) * Suc n) \<and>
     gw_config gw' = gw_config gw \<and> gw_posts gw < gw_posts gw'"

lemma call_done_calls: "call_done ge b gw gw' \<Longrightarrow> 0 < k \<Longrightarrow> calls_done ge k b gw gw'"
  unfolding call_done_def calls_done_def by (auto intro!: exI [of _ 0])

lemma call_done_then:
  assumes "call_done ge b gw gw1" "calls_done ge k b gw1 gw2"
  shows "calls_done ge (Suc k) b gw gw2"
proof -
  from assms(2) obtain n where n: "gw_bodies gw2 = gw_bodies gw1 @ replicate (Suc n) b" "n < k"
    "gw_posts gw2 \<le> gw_posts gw1 + 2 * length (getInternalBaseUrls (ge_base_urls ge)) * Suc n"
    by (auto simp: calls_done_def)
  with assms show ?thesis unfolding calls_done_def call_done_def
    by (auto intro!: exI [of _ "Suc n"] simp: algebra_simps)
qed

lemma generate_or_stream_done:
  assumes "generate_or_stream ge extra token b gw = (r, gw')"
  shows "calls_done ge 2 b gw gw'"
    and "r = Inr v \<Longrightarrow> upstream_said ge token b (gw_posts gw' - 1) v"
proof -
  obtain r1 gw1 where 1: "client_generate ge extra token b gw = (r1, gw1)" by fastforce
  note d1 = client_generate_done [OF 1]
  obtain r2 gw2 where 2: "client_stream ge extra token b gw1 = (r2, gw2)" by fastforce
  note d2 = client_stream_done [OF 2]
  have two: "calls_done ge 2 b gw gw2"
    using call_done_then [OF d1(1) call_done_calls [OF d2(1), of 1]] by (simp add: numeral_2_eq_2)
  show "calls_done ge 2 b gw gw'"
    using assms 1 2 two call_done_calls [OF d1(1), of 2]
    by (auto simp: generate_or_stream_def split: sum.splits if_splits)
  show "upstream_said ge token b (gw_posts gw' - 1) v" if "r = Inr v"
    using assms 1 2 that d1(2) d2(2)
    by (auto simp: generate_or_stream_def upstream_said_def split: sum.splits if_splits)
qed


subsection \<open>Attempts\<close>

text \<open>An attempt of the handler of Claude requests.\<close>

lemma anthropic_attempt_done:
  assumes "anthropic_attempt ge q target s i token model project gw = (r, gw')"
  shows "gw' = gw \<and> r = Inl InternalTypeError \<or>
    (\<exists>g. claude_body_for ge s token model project gw (toClaudeRequest q) = Some g \<and> calls_done ge 2 (ClaudeBody g) gw gw' \<and>
       (\<forall>v. r = Inr v \<longrightarrow> (\<exists>a. v = attachModelRouting a (aq_model q) target (gi_model g) (route_reason project) \<and>
         (if aq_stream q
          then (\<exists>url hdrs chunks. ge_stream ge (gw_posts gw' - 1) url hdrs token (ClaudeBody g) = Inr chunks \<and>
                  a = AnthropicEvents (anthropic_events ge gw' chunks))
          else (\<exists>response. upstream_said ge token (ClaudeBody g) (gw_posts gw' - 1) response \<and>
                  a = AnthropicMessage (claude_answer ge gw' response))))))"
proof (cases "claude_body_for ge s token model project gw (toClaudeRequest q)")
  case None
  with assms show ?thesis by (simp add: anthropic_attempt_def)
next
  case (Some g)
  let ?extra = "createModelSpecificHeaders (Some (aq_model q))"
  show ?thesis
  proof (cases "aq_stream q")
    case True
    obtain r1 gw1 where c: "client_stream ge ?extra token (ClaudeBody g) gw = (r1, gw1)" by fastforce
    note d = client_stream_done [OF c]
    have "gw' = gw1" using assms Some True c by (auto simp: anthropic_attempt_def Let_def split: sum.splits)
    moreover have "calls_done ge 2 (ClaudeBody g) gw gw1" by (rule call_done_calls [OF d(1)]) simp
    ultimately show ?thesis using assms Some True c d(2)
      by (auto simp: anthropic_attempt_def Let_def split: sum.splits)
  next
    case False
    obtain r1 gw1 where c: "generate_or_stream ge ?extra token (ClaudeBody g) gw = (r1, gw1)" by fastforce
    note d = generate_or_stream_done [OF c]
    have "gw' = gw1" using assms Some False c by (auto simp: anthropic_attempt_def Let_def split: sum.splits)
    then show ?thesis using assms Some False c d
      by (auto simp: anthropic_attempt_def Let_def split: sum.splits)
  qed
qed


text \<open>An attempt of the handler of OpenAI requests; a failed stream is asked for once more without streaming.\<close>

definition chat_answer_from ::
    "gateway_env \<Rightarrow> openai_request \<Rightarrow> bool \<Rightarrow> cloud_account \<Rightarrow> body \<Rightarrow> gateway \<Rightarrow> openai_answer routed \<Rightarrow> bool" where
  "chat_answer_from ge q streaming token b gw v \<longleftrightarrow>
     (if streaming
      then (\<exists>url hdrs chunks. ge_stream ge (gw_posts gw - 1) url hdrs token b = Inr chunks \<and>
              ro_value v = OpenAiEvents (processStreamResponse (ge_meta ge) (ge_fresh ge (length (gw_bodies gw))) chunks)) \<or>
           ro_reason v = Some ''stream_to_nonstream_fallback'' \<and>
           (\<exists>response. upstream_said ge token b (gw_posts gw - 1) response \<and>
              ro_value v = OpenAiEvents (createSyntheticOpenAIStream (ge_meta ge) (openai_answer_of ge gw (oq_model q) response)))
      else (\<exists>response. upstream_said ge token b (gw_posts gw - 1) response \<and>
              ro_value v = OpenAiMessage (openai_answer_of ge gw (oq_model q) response)))"

lemma attachModelRouting_simps [simp]:
  "ro_value (attachModelRouting v a b c d) = v" "ro_requestedModel (attachModelRouting v a b c d) = a"
  "ro_mappedModel (attachModelRouting v a b c d) = b" "ro_upstreamModel (attachModelRouting v a b c d) = c"
  "ro_reason (attachModelRouting v a b c d) = d"
  by (simp_all add: attachModelRouting_def)

lemma chat_attempt_done:
  assumes "chat_attempt ge q streaming target s i token model project gw = (r, gw')"
  shows "gw' = gw \<and> r = Inl InternalTypeError \<or>
    (\<exists>c g. convertOpenAIToClaude (ge_depth ge) (ge_fresh ge (length (gw_bodies gw))) q = Inr c \<and>
       claude_body_for ge s token model project gw c = Some g \<and> calls_done ge 3 (ClaudeBody g) gw gw' \<and>
       (\<forall>v. r = Inr v \<longrightarrow> ro_requestedModel v = oq_model q \<and> ro_mappedModel v = target \<and> ro_upstreamModel v = gi_model g \<and>
          chat_answer_from ge q streaming token (ClaudeBody g) gw' v))"
proof (cases "\<exists>c g. convertOpenAIToClaude (ge_depth ge) (ge_fresh ge (length (gw_bodies gw))) q = Inr c \<and>
    claude_body_for ge s token model project gw c = Some g")
  case False
  with assms show ?thesis by (auto simp: chat_attempt_def split: sum.splits option.splits)
next
  case True
  then obtain c g where cg: "convertOpenAIToClaude (ge_depth ge) (ge_fresh ge (length (gw_bodies gw))) q = Inr c"
    "claude_body_for ge s token model project gw c = Some g" by blast
  let ?extra = "createModelSpecificHeaders (Some (oq_model q))" and ?b = "ClaudeBody g"
  have more: "calls_done ge k ?b gw gw' \<Longrightarrow> k \<le> 3 \<Longrightarrow> calls_done ge 3 ?b gw gw'" for k
    unfolding calls_done_def by fastforce
  show ?thesis
  proof (cases streaming)
    case False
    obtain r1 gw1 where 1: "generate_or_stream ge ?extra token ?b gw = (r1, gw1)" by fastforce
    note d = generate_or_stream_done [OF 1]
    have "gw' = gw1" using assms cg False 1 by (auto simp: chat_attempt_def Let_def split: sum.splits)
    moreover have "calls_done ge 3 ?b gw gw'" using more [of 2] d(1) calculation by simp
    ultimately show ?thesis using assms cg False 1 d(2)
      by (auto simp: chat_attempt_def Let_def chat_answer_from_def split: sum.splits)
  next
    case True
    obtain r1 gw1 where 1: "client_stream ge ?extra token ?b gw = (r1, gw1)" by fastforce
    note d1 = client_stream_done [OF 1]
    obtain r2 gw2 where 2: "generate_or_stream ge ?extra token ?b gw1 = (r2, gw2)" by fastforce
    note d2 = generate_or_stream_done [OF 2]
    have both: "calls_done ge 3 ?b gw gw2" using call_done_then [OF d1(1) d2(1)] by (simp add: numeral_3_eq_3 numeral_2_eq_2)
    have one: "calls_done ge 3 ?b gw gw1" by (rule call_done_calls [OF d1(1)]) simp
    have "gw' = gw1 \<or> gw' = gw2"
      using assms cg True 1 2 by (auto simp: chat_attempt_def Let_def split: sum.splits if_splits)
    then have done3: "calls_done ge 3 ?b gw gw'" using both one by blast
    have "ro_requestedModel v = oq_model q \<and> ro_mappedModel v = target \<and> ro_upstreamModel v = gi_model g \<and>
        chat_answer_from ge q streaming token ?b gw' v" if v: "r = Inr v" for v
    proof (cases r1)
      case (Inr chunks)
      with assms cg True 1 v have eq: "gw' = gw1" "v = attachModelRouting (OpenAiEvents (processStreamResponse (ge_meta ge)
          (ge_fresh ge (length (gw_bodies gw1))) chunks)) (oq_model q) target (gi_model g) (route_reason project)"
        by (auto simp: chat_attempt_def Let_def)
      from d1(2) [OF Inr] show ?thesis unfolding chat_answer_from_def eq using True by auto
    next
      case (Inl err)
      with assms cg True 1 2 v obtain response where response: "r2 = Inr response" "gw' = gw2"
        "v = attachModelRouting (OpenAiEvents (createSyntheticOpenAIStream (ge_meta ge) (openai_answer_of ge gw2 (oq_model q) response)))
          (oq_model q) target (gi_model g) (Some ''stream_to_nonstream_fallback'')"
        by (auto simp: chat_attempt_def Let_def split: sum.splits if_splits)
      from d2(2) [OF response(1)] show ?thesis unfolding chat_answer_from_def response(2,3) using True by auto
    qed
    with cg done3 show ?thesis by blast
  qed
qed

text \<open>The attempts of the handlers of Gemini requests.\<close>

lemma gemini_attempt_done:
  assumes "gemini_attempt ge q normalizedModel target s i token model project gw = (r, gw')"
    and b: "gemini_body_for ge s token model project gw q = (b, gw1)"
  shows "calls_done ge 2 (GeminiBody b) gw1 gw'"
    and "r = Inr v \<Longrightarrow> \<exists>response. upstream_said ge token (GeminiBody b) (gw_posts gw' - 1) response \<and>
      v = attachModelRouting (normalizeGeminiGenerateResponse response) normalizedModel target model (route_reason project)"
proof -
  obtain r2 gw2 where 2: "generate_or_stream ge (createModelSpecificHeaders (Some normalizedModel)) token (GeminiBody b) gw1 = (r2, gw2)"
    by fastforce
  have "gw' = gw2" using assms(1) b 2 by (auto simp: gemini_attempt_def split: sum.splits)
  with generate_or_stream_done(1) [OF 2] show "calls_done ge 2 (GeminiBody b) gw1 gw'" by simp
  show "r = Inr v \<Longrightarrow> \<exists>response. upstream_said ge token (GeminiBody b) (gw_posts gw' - 1) response \<and>
      v = attachModelRouting (normalizeGeminiGenerateResponse response) normalizedModel target model (route_reason project)"
    using assms(1) b 2 generate_or_stream_done(2) [OF 2] by (auto simp: gemini_attempt_def split: sum.splits)
qed

lemma gemini_stream_attempt_done:
  assumes "gemini_stream_attempt ge q normalizedModel target s i token model project gw = (r, gw')"
    and b: "gemini_body_for ge s token model project gw q = (b, gw1)"
  shows "calls_done ge 1 (GeminiBody b) gw1 gw'"
    and "r = Inr v \<Longrightarrow> \<exists>url hdrs chunk chunks. ge_stream ge (gw_posts gw' - 1) url hdrs token (GeminiBody b) = Inr (chunk # chunks) \<and>
      extractGeminiSseError chunk = None \<and>
      v = attachModelRouting (passthroughSseStream (chunk # chunks)) normalizedModel target model (route_reason project)"
proof -
  obtain r2 gw2 where 2: "client_stream ge (createModelSpecificHeaders (Some normalizedModel)) token (GeminiBody b) gw1 = (r2, gw2)"
    by fastforce
  have "gw' = gw2" using assms(1) b 2 by (auto simp: gemini_stream_attempt_def split: sum.splits)
  with call_done_calls [OF client_stream_done(1) [OF 2], of 1] show "calls_done ge 1 (GeminiBody b) gw1 gw'" by simp
  show "r = Inr v \<Longrightarrow> \<exists>url hdrs chunk chunks. ge_stream ge (gw_posts gw' - 1) url hdrs token (GeminiBody b) = Inr (chunk # chunks) \<and>
      extractGeminiSseError chunk = None \<and>
      v = attachModelRouting (passthroughSseStream (chunk # chunks)) normalizedModel target model (route_reason project)"
    using assms(1) b 2 client_stream_done(2) [OF 2]
    by (auto simp: gemini_stream_attempt_def preflightGeminiSseStream_def split: sum.splits list.splits option.splits)
qed


subsection \<open>The number of posts\<close>

definition addresses :: "gateway_env \<Rightarrow> nat" where
  "addresses ge = length (getInternalBaseUrls (ge_base_urls ge))"

lemma calls_done_bounds:
  assumes "calls_done ge k b gw gw'"
  shows "gw_posts gw' \<le> gw_posts gw + 2 * addresses ge * k" "length (gw_bodies gw') \<le> length (gw_bodies gw) + k"
proof -
  from assms obtain n where n: "gw_bodies gw' = gw_bodies gw @ replicate (Suc n) b" "n < k"
    "gw_posts gw' \<le> gw_posts gw + 2 * addresses ge * Suc n" by (auto simp: calls_done_def addresses_def)
  have "2 * addresses ge * Suc n \<le> 2 * addresses ge * k" using n(2) by (intro mult_le_mono2) simp
  with n show "gw_posts gw' \<le> gw_posts gw + 2 * addresses ge * k" "length (gw_bodies gw') \<le> length (gw_bodies gw) + k"
    by simp_all
qed

lemma attempt_costs:
  "call_cost gw_posts (2 * addresses ge * 2) (anthropic_attempt ge q t)"
  "call_cost gw_posts (2 * addresses ge * 3) (chat_attempt ge oq streaming t)"
  "call_cost gw_posts (2 * addresses ge * 2) (gemini_attempt ge gq m t)"
  "call_cost gw_posts (2 * addresses ge * 1) (gemini_stream_attempt ge gq m t)"
proof -
  have cost: "call_cost gw_posts b send"
    if "\<And>s i tk mo p x r x'. send s i tk mo p x = (r, x') \<Longrightarrow> gw_posts x' \<le> gw_posts x + b" for b and send :: "(gateway, 'b) upstream"
    unfolding call_cost_def using that by (metis prod.collapse)
  have shared: "gw_posts (snd (gemini_body_for ge s tk mo p x gq)) = gw_posts x" for s tk mo p x
    by (simp add: gemini_body_for_def Let_def)
  show "call_cost gw_posts (2 * addresses ge * 2) (anthropic_attempt ge q t)"
    by (rule cost, drule anthropic_attempt_done) (auto dest: calls_done_bounds)
  show "call_cost gw_posts (2 * addresses ge * 3) (chat_attempt ge oq streaming t)"
    unfolding call_cost_def using chat_attempt_done calls_done_bounds(1)
    by (metis (no_types, lifting) le_add1 prod.collapse)
  show "call_cost gw_posts (2 * addresses ge * 2) (gemini_attempt ge gq m t)"
    unfolding call_cost_def using gemini_attempt_done(1) calls_done_bounds(1) shared by (metis prod.collapse)
  show "call_cost gw_posts (2 * addresses ge * 1) (gemini_stream_attempt ge gq m t)"
    unfolding call_cost_def using gemini_stream_attempt_done(1) calls_done_bounds(1) shared by (metis prod.collapse)
qed


lemma run_handler_posts:
  assumes "call_cost gw_posts b send"
  shows "gw_posts (r_local (snd (run_handler e envs random send scope h (new_gateway cfg) s))) \<le> 6 * b"
proof -
  obtain r st where run: "run_handler e envs random send scope h (new_gateway cfg) s = (r, st)" by fastforce
  have "b * length (r_calls st) \<le> b * 6" using run_handler_calls [OF run] by (rule mult_le_mono2)
  moreover have "gw_posts (r_local st) \<le> b * length (r_calls st)"
    using run_handler_cost [OF assms run] by (simp add: new_gateway_def)
  ultimately show ?thesis by (simp only: run snd_conv mult.commute)
qed

text \<open>C10: A client's request costs the upstream a bounded number of posts, whatever it answers: with \<open>n\<close> configured
  addresses at most \<open>24 n\<close> for a Claude or a Gemini request, \<open>12 n\<close> for a streamed Gemini request and \<open>36 n\<close> for an
  OpenAI request, over all attempts, project retries, endpoint failovers and fallbacks between the two kinds of call.\<close>

theorem posts_are_bounded:
  "gw_posts (r_local (snd (handleAnthropicMessages ge e envs random scope q s))) \<le> 24 * addresses ge \<and>
   gw_posts (r_local (snd (handleChatCompletions ge e envs random scope oq streaming s))) \<le> 36 * addresses ge \<and>
   gw_posts (r_local (snd (handleGeminiGenerateContent ge e envs random scope model gq s))) \<le> 24 * addresses ge \<and>
   gw_posts (r_local (snd (handleGeminiStreamGenerateContent ge e envs random scope model gq s))) \<le> 12 * addresses ge"
proof (intro conjI)
  show "gw_posts (r_local (snd (handleAnthropicMessages ge e envs random scope q s))) \<le> 24 * addresses ge"
    unfolding handleAnthropicMessages_def by (rule order_trans [OF run_handler_posts [OF attempt_costs(1)]]) simp
  show "gw_posts (r_local (snd (handleChatCompletions ge e envs random scope oq streaming s))) \<le> 36 * addresses ge"
    unfolding handleChatCompletions_def by (rule order_trans [OF run_handler_posts [OF attempt_costs(2)]]) simp
  show "gw_posts (r_local (snd (handleGeminiGenerateContent ge e envs random scope model gq s))) \<le> 24 * addresses ge"
    unfolding handleGeminiGenerateContent_def Let_def by (rule order_trans [OF run_handler_posts [OF attempt_costs(3)]]) simp
  show "gw_posts (r_local (snd (handleGeminiStreamGenerateContent ge e envs random scope model gq s))) \<le> 12 * addresses ge"
    unfolding handleGeminiStreamGenerateContent_def Let_def
    by (rule order_trans [OF run_handler_posts [OF attempt_costs(4)]]) simp
qed

subsection \<open>Where an answer comes from\<close>

text \<open>The conversation of a Claude request in the body of an attempt.\<close>

definition same_conversation :: "message list \<Rightarrow> gemini_internal_request \<Rightarrow> bool" where
  "same_conversation ms g \<longleftrightarrow>
     List.map_filter plain_text (all_parts (gr_contents (gi_request g))) = List.map_filter visible_text (all_blocks ms) \<and>
     list_all2 same_call (List.map_filter block_call (all_blocks ms))
       (List.map_filter gp_functionCall (all_parts (gr_contents (gi_request g)))) \<and>
     List.map_filter gp_inlineData (all_parts (gr_contents (gi_request g))) = List.map_filter block_image (all_blocks ms) \<and>
     List.map_filter rp_functionResponse (all_parts (gr_contents (gi_request g))) = named_results [] (all_blocks ms)"

lemma claude_body_conversation:
  assumes "claude_body_for ge s token model project gw c = Some g"
  shows "same_conversation (rq_messages c) g" "gi_model g = model"
proof -
  from assms obtain g0 where g0: "transformClaudeRequestIn (ge_depth ge) (ge_signature ge (length (gw_bodies gw)))
        (ge_request_id ge (length (gw_bodies gw))) (ge_default_agent ge) c
        (Some (case project of Some p \<Rightarrow> p | None \<Rightarrow> [])) (Some (ge_user_agent ge)) = Some g0"
    "gr_contents (gi_request g) = gr_contents (gi_request g0)" "gi_model g = model"
    by (auto simp: claude_body_for_def split: option.splits)
  obtain think where "gr_contents (gi_request g0) = buildContents (ge_signature ge (length (gw_bodies gw))) (rq_messages c)
      \<lparr>toolIdToName = [], lastThoughtSignature = None\<rparr> think False"
    by (rule transform_request [OF g0(1)])
  then show "same_conversation (rq_messages c) g"
    unfolding same_conversation_def g0(2)
    by (simp add: contents_parts texts_view calls_view images_view results_view [OF names_known_start])
  show "gi_model g = model" by (rule g0(3))
qed





text \<open>C26: A Gemini stream is handed to the client only when its first chunk reports no error; the client then gets every
  chunk of it, the first one included. An error in the first chunk counts as a failed attempt.\<close>

theorem stream_errors_are_retried:
  assumes "handleGeminiStreamGenerateContent ge e envs random scope model q s = (Inr v, st)"
  shows "\<exists>b token url hdrs chunk chunks. last (gw_bodies (r_local st)) = GeminiBody b \<and>
    gb_contents b = gq_contents q \<and> gb_model b = ro_upstreamModel v \<and>
    ge_stream ge (gw_posts (r_local st) - 1) url hdrs token (GeminiBody b) = Inr (chunk # chunks) \<and>
    extractGeminiSseError chunk = None \<and> ro_value v = passthroughSseStream (chunk # chunks)"
proof -
  let ?m = "normalizeGeminiModel model" and ?t = "route_model ge (normalizeGeminiModel model)"
  have keeps: "call_keeps (\<lambda>_. True) (gemini_stream_attempt ge q ?m ?t)" by (simp add: call_keeps_def)
  obtain s' i token m project gw where last: "gemini_stream_attempt ge q ?m ?t s' i token m project gw = (Inr v, r_local st)"
    using run_handler_keeps(2) [OF assms [unfolded handleGeminiStreamGenerateContent_def Let_def] keeps] by blast
  obtain b gw1 where b: "gemini_body_for ge s' token m project gw q = (b, gw1)" by fastforce
  have shape: "gb_contents b = gq_contents q" "gb_model b = m"
    using b by (auto simp: gemini_body_for_def createGeminiInternalRequest_def toInternalGeminiRequest_def Let_def)
  from gemini_stream_attempt_done [OF last b] have "calls_done ge 1 (GeminiBody b) gw1 (r_local st)" by simp
  then have "last (gw_bodies (r_local st)) = GeminiBody b" by (auto simp: calls_done_def simp del: replicate_Suc)
  then show ?thesis using gemini_stream_attempt_done(2) [OF last b refl] shape by fastforce
qed


subsection \<open>The shared settings of a Gemini request\<close>

definition body_limit :: "body \<Rightarrow> rat option" where
  "body_limit b = Option.bind (body_config b) maxOutputTokens"

text \<open>Settings with an output limit and without thinking: the limit is cut to the account's, and stays cut.\<close>

lemma plain_config_constrained:
  assumes "thinkingConfig cfg = None" "maxOutputTokens cfg = Some m"
  obtains c where "applyInternalGenerationConstraints s model accountId (Some cfg) = Some c" "thinkingConfig c = None"
    "maxOutputTokens c = Some (min (of_int \<lfloor>m\<rfloor>) (getModelOutputCap accountId model s))"
proof -
  let ?c = "cap_output (getModelOutputCap accountId model s) (cfg\<lparr>explicitMax := False\<rparr>)"
  have c: "thinkingConfig ?c = None" "maxOutputTokens ?c = Some (min (of_int \<lfloor>m\<rfloor>) (getModelOutputCap accountId model s))"
    using assms by (simp_all add: cap_output_def)
  have "?c \<noteq> no_config" using c(2) by (auto simp: no_config_def)
  with assms have "applyInternalGenerationConstraints s model accountId (Some cfg) = Some ?c"
    by (simp add: applyInternalGenerationConstraints_def constrain_def Let_def)
  with c show thesis by (rule that [rotated])
qed

lemma gemini_body_limit:
  assumes "gemini_body_for ge s token model project gw q = (b, gw')"
    and "gw_config gw = Some cfg" "thinkingConfig cfg = None" "maxOutputTokens cfg = Some m"
  obtains c where "gw' = gw\<lparr>gw_config := Some c\<rparr>" "thinkingConfig c = None"
    "maxOutputTokens c = Some (min (of_int \<lfloor>m\<rfloor>) (getModelOutputCap (ca_id token) model s))"
    "body_limit (GeminiBody b) = maxOutputTokens c"
proof -
  obtain c where c: "applyInternalGenerationConstraints s model (ca_id token) (Some cfg) = Some c" "thinkingConfig c = None"
    "maxOutputTokens c = Some (min (of_int \<lfloor>m\<rfloor>) (getModelOutputCap (ca_id token) model s))"
    by (rule plain_config_constrained [OF assms(3,4)])
  show thesis
    by (rule that [OF _ c(2,3)])
      (use assms(1,2) c(1) in \<open>auto simp: gemini_body_for_def shared_config_after_def Let_def body_limit_def body_config_def
        createGeminiInternalRequest_def split: prod.splits\<close>)
qed

text \<open>The second attempt is cut to the limit of the first attempt's account too.\<close>

lemma retry_inherits_limit:
  assumes "gemini_body_for ge s1 token1 model1 project1 gw q = (b1, gw1)" "gemini_body_for ge s2 token2 model2 project2 gw1 q = (b2, gw2)"
    and "gw_config gw = Some cfg" "thinkingConfig cfg = None" "maxOutputTokens cfg = Some m"
  shows "body_limit (GeminiBody b2) = Some (min (min (of_int \<lfloor>m\<rfloor>) (getModelOutputCap (ca_id token1) model1 s1))
    (getModelOutputCap (ca_id token2) model2 s2))"
proof -
  let ?m1 = "min (of_int \<lfloor>m\<rfloor>) (getModelOutputCap (ca_id token1) model1 s1)"
  obtain c1 where c1: "gw1 = gw\<lparr>gw_config := Some c1\<rparr>" "thinkingConfig c1 = None" "maxOutputTokens c1 = Some ?m1"
    by (rule gemini_body_limit [OF assms(1,3-5)])
  have "gw_config gw1 = Some c1" using c1(1) by simp
  then have c2: "body_limit (GeminiBody b2) = Some (min (of_int \<lfloor>?m1\<rfloor>) (getModelOutputCap (ca_id token2) model2 s2))"
    by (rule gemini_body_limit [OF assms(2) _ c1(2,3)]) simp
  have "?m1 \<in> \<int>" using caps_are_integers(1) [of "ca_id token1" model1 s1] by (simp add: min_def)
  then have "of_int \<lfloor>?m1\<rfloor> = ?m1" by (metis Ints_cases floor_of_int)
  with c2 show ?thesis by simp
qed

text \<open>The limits of the bodies sent so far never rise, and the object the client sent holds the lowest of them.\<close>

definition falling_limits :: "rat \<Rightarrow> gateway \<Rightarrow> bool" where
  "falling_limits m gw \<longleftrightarrow>
     (\<exists>c l ls. gw_config gw = Some c \<and> thinkingConfig c = None \<and> maxOutputTokens c = Some l \<and> l \<le> m \<and>
        map body_limit (gw_bodies gw) = map Some ls \<and> sorted_wrt (\<ge>) ls \<and> (\<forall>x\<in>set ls. l \<le> x \<and> x \<le> m))"

lemma falling_limits_step:
  assumes "falling_limits m gw" "gemini_body_for ge s token model project gw q = (b, gw1)" "calls_done ge k (GeminiBody b) gw1 gw2"
  shows "falling_limits m gw2"
proof -
  from assms(1) obtain c l ls where c: "gw_config gw = Some c" "thinkingConfig c = None" "maxOutputTokens c = Some l" "l \<le> m"
    and ls: "map body_limit (gw_bodies gw) = map Some ls" "sorted_wrt (\<ge>) ls" "\<forall>x\<in>set ls. l \<le> x \<and> x \<le> m"
    by (auto simp: falling_limits_def)
  let ?l = "min (of_int \<lfloor>l\<rfloor>) (getModelOutputCap (ca_id token) model s)"
  obtain c1 where c1: "gw1 = gw\<lparr>gw_config := Some c1\<rparr>" "thinkingConfig c1 = None" "maxOutputTokens c1 = Some ?l"
    "body_limit (GeminiBody b) = Some ?l"
    by (rule gemini_body_limit [OF assms(2) c(1-3)]) simp
  from assms(3) obtain n where n: "gw_bodies gw2 = gw_bodies gw @ replicate n (GeminiBody b)" "gw_config gw2 = Some c1"
    using c1(1) by (auto simp: calls_done_def simp del: replicate_Suc)
  have le: "?l \<le> l" using of_int_floor_le [of l] by linarith
  have rep: "sorted_wrt (\<ge>) (replicate n ?l)" by (induction n) auto
  have limits: "map body_limit (gw_bodies gw2) = map Some (ls @ replicate n ?l)" using ls(1) c1(4) by (simp add: n(1))
  have sorted: "sorted_wrt (\<ge>) (ls @ replicate n ?l)" using ls(2,3) rep le by (auto simp: sorted_wrt_append intro: order_trans)
  have range: "\<forall>x\<in>set (ls @ replicate n ?l). ?l \<le> x \<and> x \<le> m" using ls(3) le c(4) by (auto intro: order_trans)
  have "?l \<le> m" using le c(4) by (rule order_trans)
  with n(2) c1(2,3) limits sorted range show ?thesis unfolding falling_limits_def by blast
qed

text \<open>The output limit of a Gemini request never rises from one attempt to the next: every attempt cuts the one settings
  object the client sent to the limit of its account's model, so later attempts, with whatever account, are sent with the
  lowest limit met before.\<close>

theorem gemini_limits_never_rise:
  assumes "gq_generationConfig q = Some cfg" "thinkingConfig cfg = None" "maxOutputTokens cfg = Some m"
    and "handleGeminiGenerateContent ge e envs random scope model q s = (r, st)"
  shows "\<exists>ls. map body_limit (gw_bodies (r_local st)) = map Some ls \<and> sorted_wrt (\<ge>) ls \<and> (\<forall>l\<in>set ls. l \<le> m)"
proof -
  let ?m = "normalizeGeminiModel model" and ?t = "route_model ge (normalizeGeminiModel model)"
  have keeps: "call_keeps (falling_limits m) (gemini_attempt ge q ?m ?t)"
    unfolding call_keeps_def using falling_limits_step gemini_attempt_done(1) by (metis prod.collapse)
  have "falling_limits m (new_gateway (gq_generationConfig q))"
    using assms(1-3) by (simp add: falling_limits_def new_gateway_def)
  from run_handler_keeps(1) [OF assms(4) [unfolded handleGeminiGenerateContent_def Let_def] keeps this]
  show ?thesis by (auto simp: falling_limits_def)
qed


subsection \<open>Sample requests\<close>

text \<open>A request whose first attempt succeeds.\<close>

lemma first_attempt_succeeds:
  assumes "getNextToken (envs 0) \<lparr>o_sessionKey = h_sessionKey h, o_excludeAccountIds = [], o_model = Some (h_model h),
      o_scopeKey = h_scopeKey h\<rparr> s = (Some token, s')"
    and "\<And>model p. \<exists>v x'. send s' 0 token model p x = (Inr v, x')"
  shows "\<exists>v st. run_handler e envs random send None h x s = (Inr v, st)"
proof -
  let ?m = "resolveDynamicModelForAccount (ca_id token) (h_model h) s'"
  obtain v x' where v: "send s' 0 token ?m (Some (token_project token)) x = (Inr v, x')" using assms(2) by blast
  obtain us where sel: "selectRetryToken (envs 0) h (createTokenRetryState x s) =
      (Some token, (createTokenRetryState x s)\<lparr>r_session_waits := us, r_service := s', attemptedAccountIds := [ca_id token]\<rparr>)"
    using assms(1) by (simp add: selectRetryToken_def createTokenRetryState_def set_add_def)
  let ?st = "(createTokenRetryState x s)\<lparr>r_session_waits := us, r_service := s', attemptedAccountIds := [ca_id token]\<rparr>"
  have "\<exists>st. call_upstream (h_keeps_original h) send 0 token ?m ?st = (Inr v, st)"
    using v by (simp add: call_upstream_def createTokenRetryState_def Let_def)
  then obtain st where "call_upstream (h_keeps_original h) send 0 token ?m ?st = (Inr v, st)" by blast
  then have "attempts envs random send h (Suc (Suc (Suc 0))) (createTokenRetryState x s) = (Inr v, st)"
    by (simp add: maxRetries_def waitBeforeRetry_def sel Let_def)
  then show ?thesis
    by (simp add: run_handler_def prepareScopedCredentials_def maxRetries_def numeral_3_eq_3)
qed

definition sample_answer :: json where
  "sample_answer = JObj [(''response'', JObj [(''candidates'', JArr [JObj [(''content'', JObj [(''parts'',
     JArr [JObj [(''text'', JStr ''hi'')]])])]])])]"

definition sample_chunk :: string where "sample_chunk = ''data: {}'' @ newline"

definition sample_gateway :: gateway_env where
  "sample_gateway = \<lparr>ge_stream = (\<lambda>n url hdrs token b. Inr [sample_chunk]),
     ge_generate = (\<lambda>n url hdrs token b. Inr sample_answer), ge_base_urls = None, ge_user_agent = ''ua'',
     ge_default_agent = ''ua'', ge_depth = 10, ge_signature = (\<lambda>_. None), ge_request_id = (\<lambda>_. ''id''),
     ge_fresh = (\<lambda>_ _. ''x''), ge_searched = ''s'', ge_citations = ''c'', ge_meta = None, ge_clock = 1, ge_rules = [],
     ge_custom_mapping = [], ge_anthropic_mapping = []\<rparr>"

definition sample_claude_message :: anthropic_request where
  "sample_claude_message = \<lparr>aq_model = ''claude-sonnet-4-5'', aq_messages = [\<lparr>m_role = ''user'', m_content = Plain ''hello''\<rparr>],
     aq_system = None, aq_max_tokens = None, aq_tools = None, aq_thinking = None, aq_metadata = None, aq_stop_sequences = None,
     aq_stream = False, aq_temperature = None, aq_top_p = None, aq_top_k = None\<rparr>"

definition sample_chat :: openai_request where
  "sample_chat = \<lparr>oq_model = ''gpt-4'', oq_messages = [], oq_temperature = None, oq_top_p = None, oq_max_tokens = None,
     oq_tools = None, oq_extra = None\<rparr>"

definition sample_gemini :: gemini_client_request where
  "sample_gemini = \<lparr>gq_contents = JArr [], gq_systemInstruction = None,
     gq_generationConfig = Some (no_config\<lparr>maxOutputTokens := Some 100000\<rparr>)\<rparr>"

lemma sample_urls: "getInternalBaseUrls None = defaultInternalBaseUrls"
  by code_simp

lemma sample_usable: "hasUsableGeminiCandidate (unwrap_payload sample_answer)"
  by code_simp

lemma sample_calls:
  "client_stream sample_gateway extra token b gw =
     (Inr [sample_chunk], gw\<lparr>gw_posts := Suc (gw_posts gw), gw_bodies := gw_bodies gw @ [b]\<rparr>)"
  "generate_or_stream sample_gateway extra token b gw =
     (Inr (unwrap_payload sample_answer), gw\<lparr>gw_posts := Suc (gw_posts gw), gw_bodies := gw_bodies gw @ [b]\<rparr>)"
proof -
  have one: "executeRequestWithEndpointFailover (\<lambda>n url hdrs. Inr v) (getInternalBaseUrls None) path project =
      (Inr v, [(hd defaultInternalBaseUrls @ path, createProjectHeaders project, Inr v)])" for v :: 'v and path project
    by (simp add: executeRequestWithEndpointFailover_def sample_urls defaultInternalBaseUrls_def Let_def eval_nat_numeral)
  show "client_stream sample_gateway extra token b gw =
     (Inr [sample_chunk], gw\<lparr>gw_posts := Suc (gw_posts gw), gw_bodies := gw_bodies gw @ [b]\<rparr>)"
    by (simp add: client_stream_def streamGenerateInternal_def sample_gateway_def one)
  have "client_generate sample_gateway extra token b gw =
     (Inr (unwrap_payload sample_answer), gw\<lparr>gw_posts := Suc (gw_posts gw), gw_bodies := gw_bodies gw @ [b]\<rparr>)"
    by (simp add: client_generate_def generateInternal_def sample_gateway_def one)
  then show "generate_or_stream sample_gateway extra token b gw =
     (Inr (unwrap_payload sample_answer), gw\<lparr>gw_posts := Suc (gw_posts gw), gw_bodies := gw_bodies gw @ [b]\<rparr>)"
    by (simp add: generate_or_stream_def sample_usable)
qed

lemma sample_body:
  "rq_tools c = None \<Longrightarrow> \<exists>g. claude_body_for sample_gateway s token model project gw c = Some g"
  by (auto simp: claude_body_for_def transformClaudeRequestIn_def Let_def buildTools_def split: option.splits)

lemma sample_token:
  assumes "model \<in> {''claude-sonnet-4-5'', ''gpt-4'', ''gemini-2.5-flash''}"
  obtains token s' where "getNextToken sample_env \<lparr>o_sessionKey = None, o_excludeAccountIds = [],
      o_model = Some (route_model sample_gateway model), o_scopeKey = None\<rparr> sample_service = (Some token, s')"
proof -
  have "fst (getNextToken sample_env \<lparr>o_sessionKey = None, o_excludeAccountIds = [],
      o_model = Some (route_model sample_gateway ''claude-sonnet-4-5''), o_scopeKey = None\<rparr> sample_service) \<noteq> None"
    "fst (getNextToken sample_env \<lparr>o_sessionKey = None, o_excludeAccountIds = [],
      o_model = Some (route_model sample_gateway ''gpt-4''), o_scopeKey = None\<rparr> sample_service) \<noteq> None"
    "fst (getNextToken sample_env \<lparr>o_sessionKey = None, o_excludeAccountIds = [],
      o_model = Some (route_model sample_gateway ''gemini-2.5-flash''), o_scopeKey = None\<rparr> sample_service) \<noteq> None"
    by code_simp+
  with assms have "fst (getNextToken sample_env \<lparr>o_sessionKey = None, o_excludeAccountIds = [],
      o_model = Some (route_model sample_gateway model), o_scopeKey = None\<rparr> sample_service) \<noteq> None" by blast
  then obtain token where "fst (getNextToken sample_env \<lparr>o_sessionKey = None, o_excludeAccountIds = [],
      o_model = Some (route_model sample_gateway model), o_scopeKey = None\<rparr> sample_service) = Some token" by blast
  then show thesis using that by (metis prod.collapse)
qed

abbreviation sample_claude_run :: "(upstream_failure + anthropic_answer routed) \<times> gateway retry_state" where
  "sample_claude_run \<equiv>
     handleAnthropicMessages sample_gateway sample_env (\<lambda>_. sample_env) (\<lambda>_. 0) None sample_claude_message sample_service"

abbreviation sample_chat_run :: "(upstream_failure + openai_answer routed) \<times> gateway retry_state" where
  "sample_chat_run \<equiv>
     handleChatCompletions sample_gateway sample_env (\<lambda>_. sample_env) (\<lambda>_. 0) None sample_chat True sample_service"

abbreviation sample_stream_run :: "(upstream_failure + (string + string list) routed) \<times> gateway retry_state" where
  "sample_stream_run \<equiv> handleGeminiStreamGenerateContent sample_gateway sample_env (\<lambda>_. sample_env) (\<lambda>_. 0) None
     ''models/gemini-2.5-flash'' sample_gemini sample_service"

abbreviation sample_gemini_run :: "(upstream_failure + json routed) \<times> gateway retry_state" where
  "sample_gemini_run \<equiv> handleGeminiGenerateContent sample_gateway sample_env (\<lambda>_. sample_env) (\<lambda>_. 0) None
     ''models/gemini-2.5-flash'' sample_gemini sample_service"



lemma stream_errors_are_retried_witness:
  "\<exists>v st chunk chunks. sample_stream_run = (Inr v, st) \<and> extractGeminiSseError chunk = None \<and>
     ro_value v = passthroughSseStream (chunk # chunks)"
proof -
  obtain token s' where t: "getNextToken sample_env \<lparr>o_sessionKey = None, o_excludeAccountIds = [],
      o_model = Some (route_model sample_gateway ''gemini-2.5-flash''), o_scopeKey = None\<rparr> sample_service = (Some token, s')"
    by (rule sample_token [of "''gemini-2.5-flash''"]) simp
  have m: "normalizeGeminiModel ''models/gemini-2.5-flash'' = ''gemini-2.5-flash''" by code_simp
  have "extractGeminiSseError sample_chunk = None" by code_simp
  then have "\<exists>v x'. gemini_stream_attempt sample_gateway sample_gemini n m s' 0 token model p x = (Inr v, x')" for n m model p x
    by (simp add: gemini_stream_attempt_def sample_calls preflightGeminiSseStream_def split: prod.split)
  then have "\<exists>v st. sample_stream_run = (Inr v, st)"
    unfolding handleGeminiStreamGenerateContent_def Let_def m
    by (intro first_attempt_succeeds [of _ _ _ token s']) (use t in \<open>simp_all add: gemini_handler_def\<close>)
  then show ?thesis using stream_errors_are_retried by blast
qed

lemma gemini_limits_never_rise_witness:
  "\<exists>ls. map body_limit (gw_bodies (r_local (snd sample_gemini_run))) = map Some ls \<and> sorted_wrt (\<ge>) ls \<and> (\<forall>l\<in>set ls. l \<le> 100000)"
  by (rule gemini_limits_never_rise [OF _ _ _ prod.collapse [symmetric], where cfg = "no_config\<lparr>maxOutputTokens := Some 100000\<rparr>"])
    (simp_all add: sample_gemini_def no_config_def)

end
