(* ===== verification/JsonText.thy ===== *)
theory JsonText
  imports Json
begin

section \<open>Reading back what was printed as JSON\<close>

text \<open>
  The columns and settings of the account store hold values as JSON text. \<open>JSON.parse\<close> returns what
  \<open>JSON.stringify\<close> printed, for values whose objects have distinct member names and whose numbers have at most 30
  decimals.
\<close>

subsection \<open>Numbers\<close>

definition num_ok :: "rat \<Rightarrow> bool" where
  "num_ok q \<longleftrightarrow> of_int \<lfloor>q * 10 ^ decimals_needed 30 q\<rfloor> = q * 10 ^ decimals_needed 30 q"

lemma decimals_needed_exact:
  "j \<le> f \<Longrightarrow> of_int \<lfloor>q * 10 ^ j\<rfloor> = q * 10 ^ j \<Longrightarrow>
   of_int \<lfloor>q * 10 ^ decimals_needed f q\<rfloor> = q * 10 ^ decimals_needed f q"
proof (induction f arbitrary: q j)
  case 0
  then show ?case by simp
next
  case (Suc f)
  show ?case
  proof (cases "of_int \<lfloor>q\<rfloor> = q")
    case True
    then show ?thesis by simp
  next
    case False
    with Suc.prems(2) obtain i where j: "j = Suc i" by (cases j) auto
    have "of_int \<lfloor>(10 * q) * 10 ^ i\<rfloor> = (10 * q) * 10 ^ i" using Suc.prems(2) unfolding j by (simp add: ac_simps)
    from Suc.IH [OF _ this] Suc.prems(1) j False show ?thesis by (simp add: ac_simps)
  qed
qed

lemma num_okI: "j \<le> 30 \<Longrightarrow> of_int \<lfloor>q * 10 ^ j\<rfloor> = q * 10 ^ j \<Longrightarrow> num_ok q"
  unfolding num_ok_def by (rule decimals_needed_exact)

lemma num_ok_int [simp]: "num_ok (of_int i)"
  by (rule num_okI [of 0]) simp_all

lemma num_ok_numeral [simp]: "num_ok (numeral k)" "num_ok 0" "num_ok 1"
  using num_ok_int [of "numeral k"] num_ok_int [of 0] num_ok_int [of 1] by simp_all

lemma abs_exact: "of_int \<lfloor>q * 10 ^ k\<rfloor> = q * 10 ^ k \<Longrightarrow> of_int \<lfloor>abs q * 10 ^ k\<rfloor> = abs q * (10 :: rat) ^ k"
  by (cases "0 \<le> q") (simp_all add: abs_if, metis of_int_minus floor_of_int)

lemma nat_str_small: "n < 10 \<Longrightarrow> nat_str n = [char_of (48 + n)]"
  by (subst nat_str.simps) simp

lemma nat_str_large: "10 \<le> n \<Longrightarrow> nat_str n = nat_str (n div 10) @ [char_of (48 + n mod 10)]"
  by (subst nat_str.simps) simp

lemma hd_nat_str: "n \<noteq> 0 \<Longrightarrow> hd (nat_str n) \<noteq> CHR ''0''"
proof (induction n rule: nat_str.induct)
  case (1 n)
  show ?case
  proof (cases "n < 10")
    case True
    have "(of_char (CHR ''0'') :: nat) = 48" by simp
    moreover have "(of_char (char_of (48 + n) :: char) :: nat) = 48 + n" using True by simp
    ultimately show ?thesis using 1(2) True by (metis nat_str_small list.sel(1) add_cancel_right_right)
  next
    case False
    with 1 show ?thesis by (simp add: nat_str_large)
  qed
qed

lemma length_nat_str: "n < 10 ^ k \<Longrightarrow> 0 < k \<Longrightarrow> length (nat_str n) \<le> k"
proof (induction k arbitrary: n)
  case 0
  then show ?case by simp
next
  case (Suc k)
  show ?case
  proof (cases "n < 10")
    case True
    then show ?thesis by (simp add: nat_str_small)
  next
    case False
    then have "0 < k" using Suc.prems by (cases k) auto
    moreover have "n div 10 < 10 ^ k" using Suc.prems(1) by (simp add: less_mult_imp_div_less mult.commute)
    ultimately show ?thesis using Suc.IH [of "n div 10"] False by (simp add: nat_str_large)
  qed
qed

lemma digits_val_append: "digits_val (s @ t) = digits_val s * 10 ^ length t + digits_val t"
proof (induction t rule: rev_induct)
  case Nil
  show ?case by simp
next
  case (snoc c t)
  have "digits_val (s @ t @ [c]) = 10 * digits_val (s @ t) + digit_val c" using digits_val_snoc [of "s @ t" c] by simp
  with snoc show ?case by (simp add: algebra_simps)
qed

lemma digits_val_zeros: "digits_val (replicate n (CHR ''0'')) = 0"
proof (induction n)
  case (Suc n)
  have "replicate (Suc n) (CHR ''0'') = replicate n (CHR ''0'') @ [CHR ''0'']" by (simp add: replicate_append_same)
  with Suc show ?case by (simp only: digits_val_snoc) (simp add: digit_val_def)
qed simp

lemma zero_digit: "is_digit (CHR ''0'')" by (simp add: is_digit_def)

definition fraction_str :: "nat \<Rightarrow> nat \<Rightarrow> string" where
  "fraction_str k m = replicate (k - length (nat_str m)) (CHR ''0'') @ nat_str m"

lemma fraction_str:
  assumes "m < 10 ^ k" "0 < k"
  shows "\<forall>c\<in>set (fraction_str k m). is_digit c" "length (fraction_str k m) = k" "digits_val (fraction_str k m) = m"
    "fraction_str k m \<noteq> []"
  using length_nat_str [OF assms] nat_str_digits zero_digit
  by (auto simp: fraction_str_def digits_val_append digits_val_zeros)

lemma digit_not_sign: "is_digit c \<Longrightarrow> c \<noteq> CHR ''-'' \<and> c \<noteq> CHR ''.'' \<and> c \<noteq> CHR ''e''"
  by (auto simp: is_digit_def)

lemma parse_json_number_num_str:
  assumes "num_ok q"
  shows "parse_json_number (num_str q) = Some q"
proof -
  define k where "k = decimals_needed 30 q"
  define n where "n = nat \<lfloor>abs q * 10 ^ k\<rfloor>"
  define ip where "ip = nat_str (n div 10 ^ k)"
  from abs_exact [OF assms [unfolded num_ok_def]] have "of_int \<lfloor>abs q * 10 ^ k\<rfloor> = abs q * (10 :: rat) ^ k"
    by (simp add: k_def)
  moreover have "0 \<le> \<lfloor>abs q * 10 ^ k\<rfloor>" by simp
  ultimately have n: "of_nat n = abs q * (10 :: rat) ^ k" unfolding n_def by (metis of_int_of_nat_eq nat_0_le)
  have ipd: "\<forall>c\<in>set ip. is_digit c" and ipn: "ip \<noteq> []" using nat_str_digits by (auto simp: ip_def)
  have lead: "(length ip > 1 \<and> hd ip = CHR ''0'') = False"
  proof (cases "n div 10 ^ k = 0")
    case True
    then show ?thesis by (simp add: ip_def nat_str_small)
  next
    case False
    then show ?thesis using hd_nat_str ip_def by blast
  qed
  define body where "body = ip @ (if k = 0 then [] else CHR ''.'' # fraction_str k (n mod 10 ^ k))"
  have str: "num_str q = (if q < 0 then ''-'' else '''') @ body"
    unfolding num_str_def Let_def body_def ip_def fraction_str_def k_def [symmetric] n_def by simp
  have hdb: "hd body \<noteq> CHR ''-''" "body \<noteq> []" using ipd ipn digit_not_sign by (auto simp: body_def hd_append)
  have tk: "takeWhile is_digit (ip @ r) = ip @ takeWhile is_digit r" "dropWhile is_digit (ip @ r) = dropWhile is_digit r" for r
    using ipd by (simp_all add: takeWhile_append dropWhile_append)
  have pd: "parse_decimal body = Some (abs q)"
  proof (cases "k = 0")
    case True
    then have "body = ip" by (simp add: body_def)
    with parse_decimal_digits [OF ipd ipn] n True show ?thesis by (simp add: ip_def)
  next
    case False
    have f: "n mod 10 ^ k < 10 ^ k" "0 < k" using False by simp_all
    note fs = fraction_str [OF f]
    have tf: "takeWhile is_digit (fraction_str k (n mod 10 ^ k)) = fraction_str k (n mod 10 ^ k)"
      "dropWhile is_digit (fraction_str k (n mod 10 ^ k)) = []" using fs(1) by auto
    have "digits_val (ip @ fraction_str k (n mod 10 ^ k)) = n"
      unfolding digits_val_append fs(2,3) ip_def digits_val_nat_str by (rule div_mult_mod_eq)
    moreover have "\<not> is_digit (CHR ''.'')" by (simp add: is_digit_def)
    ultimately show ?thesis
      using False ipn n unfolding parse_decimal_def Let_def body_def
      by (simp add: tk tf fs(2) parse_exponent_def scale10_def del: takeWhile_eq_all_conv dropWhile_eq_Nil_conv)
  qed
  have frac: "(dropWhile is_digit body = [] \<or> hd (dropWhile is_digit body) \<noteq> CHR ''.'' \<or>
      (tl (dropWhile is_digit body) \<noteq> [] \<and> is_digit (hd (tl (dropWhile is_digit body))))) = True"
  proof (cases "k = 0")
    case True
    then show ?thesis using ipd by (simp add: body_def)
  next
    case False
    have f: "n mod 10 ^ k < 10 ^ k" "0 < k" using False by simp_all
    have "\<not> is_digit (CHR ''.'')" by (simp add: is_digit_def)
    then have "tl (dropWhile is_digit body) = fraction_str k (n mod 10 ^ k)" using False by (simp add: body_def tk)
    with fraction_str(1,4) [OF f] show ?thesis by (metis hd_in_set)
  qed
  have ipb: "takeWhile is_digit body = ip"
  proof -
    have "\<not> is_digit (CHR ''.'')" by (simp add: is_digit_def)
    then show ?thesis using tk [of "[]"] by (cases "k = 0") (simp_all add: body_def tk)
  qed
  have ipf: "(takeWhile is_digit body = []) = False" "(length (takeWhile is_digit body) > 1 \<and> hd (takeWhile is_digit body) = CHR ''0'') = False"
    using ipn lead by (simp_all add: ipb)
  show ?thesis
  proof (cases "q < 0")
    case True
    have "num_str q = CHR ''-'' # body" using True str by simp
    then show ?thesis using True
      by (simp only: parse_json_number_def Let_def list.sel ipf frac pd simp_thms if_False if_True option.case list.distinct) simp
  next
    case False
    have "num_str q = body" "(body \<noteq> [] \<and> hd body = CHR ''-'') = False" using False str hdb by simp_all
    then show ?thesis using False
      by (simp only: parse_json_number_def Let_def ipf frac pd simp_thms if_False if_True option.case) simp
  qed
qed

subsection \<open>Strings\<close>

lemma hex_digit_val: "d < 16 \<Longrightarrow> radix_digit 16 (hex_digit d) = Some d"
proof (cases "d < 10")
  case True
  then have c: "of_char (char_of (48 + d) :: char) = 48 + d" by simp
  with True have "lower_char (char_of (48 + d)) = char_of (48 + d)" by (simp only: lower_char_def Let_def c) simp
  with True show ?thesis by (simp add: hex_digit_def radix_digit_def Let_def)
next
  case False
  assume d: "d < 16"
  then have c: "of_char (char_of (87 + d) :: char) = 87 + d" by simp
  with False have "lower_char (char_of (87 + d)) = char_of (87 + d)" by (simp only: lower_char_def Let_def c) simp
  with False d show ?thesis by (simp add: hex_digit_def radix_digit_def Let_def)
qed

lemma escape_read: "parse_string_body (escape_out c @ t) = map_option (apfst ((#) c)) (parse_string_body t)"
proof -
  define n where "n = (of_char c :: nat)"
  have c: "c = char_of n" and lt: "n < 256" by (simp_all add: n_def)
  have code: "n = of_char d \<Longrightarrow> c = d" for d by (simp add: n_def)
  have codes: "n = 34 \<Longrightarrow> c = CHR 0x22" "n = 92 \<Longrightarrow> c = CHR 0x5C" "n = 8 \<Longrightarrow> c = CHR 0x08" "n = 12 \<Longrightarrow> c = CHR 0x0C"
    "n = 10 \<Longrightarrow> c = CHR 0x0A" "n = 13 \<Longrightarrow> c = CHR 0x0D" "n = 9 \<Longrightarrow> c = CHR 0x09"
    by (rule code, simp)+
  consider "c = CHR 0x22" | "c = CHR 0x5C" | "c = CHR 0x08" | "c = CHR 0x0C" | "c = CHR 0x0A" | "c = CHR 0x0D" | "c = CHR 0x09"
    | "n < 32" "n \<notin> {8, 9, 10, 12, 13}" | "32 \<le> n" "n \<noteq> 34" "n \<noteq> 92"
    using codes by (cases "n < 32") (force, force)
  then show ?thesis
  proof cases
    case 8
    have "escape_out c = [CHR 0x5C, CHR ''u'', CHR ''0'', CHR ''0'', hex_digit (n div 16), hex_digit (n mod 16)]"
      using 8 by (auto simp: escape_out_def n_def [symmetric] Let_def)
    moreover have "radix_digit 16 (CHR ''0'') = Some 0" by (simp add: radix_digit_def lower_char_def)
    ultimately show ?thesis using 8 hex_digit_val [of "n div 16"] hex_digit_val [of "n mod 16"] lt
      by (simp add: c)
  next
    case 9
    have "escape_out c = [c]" using 9 by (simp add: escape_out_def n_def [symmetric] Let_def)
    moreover have "c \<noteq> CHR 0x22" "c \<noteq> CHR 0x5C" using 9 by (auto simp: n_def)
    ultimately show ?thesis using 9 by (simp add: n_def)
  qed (simp_all add: escape_out_def escape_char_def)
qed

lemma string_read: "parse_string_body (concat (map escape_out s) @ CHR 0x22 # r) = Some (s, r)"
  by (induction s) (simp_all add: escape_read)

lemma quote_read: "quote s = CHR 0x22 # t \<Longrightarrow> parse_string_body (t @ r) = Some (s, r)"
  using string_read [of s r] by (auto simp: quote_def)

subsection \<open>Values\<close>

fun json_ok :: "json \<Rightarrow> bool" where
  "json_ok (JNum q) = num_ok q"
| "json_ok (JArr xs) = (\<forall>x\<in>set xs. json_ok x)"
| "json_ok (JObj m) = (map_keys_ok m \<and> (\<forall>kv\<in>set m. json_ok (snd kv)))"
| "json_ok v = True"

definition follows :: "string \<Rightarrow> bool" where
  "follows r \<longleftrightarrow> r = [] \<or> \<not> is_number_char (hd r)"

lemma follows_simps [simp]: "follows []" "follows (CHR '','' # r)" "follows (CHR 0x5D # r)" "follows (CHR 0x7D # r)"
  by (simp_all add: follows_def is_number_char_def is_digit_def)

lemma num_str_chars: "\<forall>c\<in>set (num_str q). is_number_char c" "num_str q \<noteq> []"
  using nat_str_digits zero_digit by (auto simp: num_str_def Let_def is_number_char_def)

lemma number_char_cases:
  "is_number_char c \<Longrightarrow> \<not> json_ws c \<and> c \<noteq> CHR 0x22 \<and> c \<noteq> CHR 0x5B \<and> c \<noteq> CHR 0x5D \<and> c \<noteq> CHR 0x7B \<and>
    c \<noteq> CHR ''n'' \<and> c \<noteq> CHR ''t'' \<and> c \<noteq> CHR ''f''"
  by (auto simp: is_number_char_def is_digit_def json_ws_def Let_def)

lemma stringify_head: "\<exists>c t. json_stringify v = c # t \<and> \<not> json_ws c \<and> c \<noteq> CHR 0x5D"
proof (cases v)
  case (JNum q)
  then show ?thesis using num_str_chars [of q] number_char_cases by (cases "num_str q") auto
qed (simp_all add: quote_def json_ws_def)

lemma skip_ws_simp [simp]: "\<not> json_ws c \<Longrightarrow> skip_ws (c # t) = c # t"
  by (simp add: skip_ws_def)

lemma structure_no_ws [simp]: "\<not> json_ws (CHR 0x5D)" "\<not> json_ws (CHR 0x7D)" "\<not> json_ws (CHR '','')" "\<not> json_ws (CHR '':'')"
  "\<not> json_ws (CHR 0x22)" "\<not> json_ws (CHR 0x5B)" "\<not> json_ws (CHR 0x7B)" "\<not> json_ws (CHR ''n'')" "\<not> json_ws (CHR ''t'')"
  "\<not> json_ws (CHR ''f'')"
  by (simp_all add: json_ws_def)

definition reads :: "json \<Rightarrow> bool" where
  "reads v \<longleftrightarrow> (\<forall>f r. 2 * length (json_stringify v) \<le> f \<longrightarrow> follows r \<longrightarrow> parse_value f (json_stringify v @ r) = Some (v, r))"

lemma readsD: "reads v \<Longrightarrow> 2 * length (json_stringify v) \<le> f \<Longrightarrow> follows r \<Longrightarrow> parse_value f (json_stringify v @ r) = Some (v, r)"
  by (simp add: reads_def)

abbreviation elems_text :: "json list \<Rightarrow> string" where
  "elems_text xs \<equiv> join '','' (map json_stringify xs)"

abbreviation member_text :: "string \<times> json \<Rightarrow> string" where
  "member_text kv \<equiv> quote (fst kv) @ [CHR '':''] @ json_stringify (snd kv)"

abbreviation members_text :: "(string \<times> json) list \<Rightarrow> string" where
  "members_text m \<equiv> join '','' (map member_text m)"

lemma elems_read:
  "\<forall>x\<in>set xs. reads x \<Longrightarrow> xs \<noteq> [] \<Longrightarrow> 2 * length (elems_text xs) + 1 \<le> f \<Longrightarrow>
   parse_elems f (elems_text xs @ CHR 0x5D # r) = Some (xs, r)"
proof (induction xs arbitrary: f)
  case Nil
  then show ?case by simp
next
  case (Cons x xs)
  then obtain g where f: "f = Suc g" by (cases f) auto
  have x: "reads x" using Cons.prems(1) by simp
  show ?case
  proof (cases xs)
    case Nil
    then show ?thesis using readsD [OF x, of g "CHR 0x5D # r"] Cons.prems(3) by (simp add: f)
  next
    case (Cons y ys)
    have whole: "elems_text (x # xs) = json_stringify x @ CHR '','' # elems_text xs" using Cons by simp
    have "parse_elems g (elems_text xs @ CHR 0x5D # r) = Some (xs, r)"
      using Cons.prems Cons by (intro Cons.IH) (simp_all add: whole f)
    moreover have "parse_value g (json_stringify x @ CHR '','' # elems_text xs @ CHR 0x5D # r)
        = Some (x, CHR '','' # elems_text xs @ CHR 0x5D # r)"
      using Cons.prems(3) unfolding whole f by (intro readsD [OF x]) simp_all
    ultimately show ?thesis unfolding whole f append_assoc append_Cons by simp
  qed
qed

lemma update_new: "k \<notin> fst ` set acc \<Longrightarrow> AList.update k v acc = acc @ [(k, v)]"
  by (induction acc) auto

lemma members_read:
  "\<forall>kv\<in>set m. reads (snd kv) \<Longrightarrow> m \<noteq> [] \<Longrightarrow> map_keys_ok (acc @ m) \<Longrightarrow> 2 * length (members_text m) + 1 \<le> f \<Longrightarrow>
   parse_members f acc (members_text m @ CHR 0x7D # r) = Some (acc @ m, r)"
proof (induction m arbitrary: f acc)
  case Nil
  then show ?case by simp
next
  case (Cons kv m)
  obtain k v where kv: "kv = (k, v)" by (cases kv)
  from Cons.prems obtain g where f: "f = Suc g" by (cases f) auto
  have v: "reads v" using Cons.prems(1) kv by simp
  have new: "AList.update k v acc = acc @ [(k, v)]"
    using Cons.prems(3) by (intro update_new) (auto simp: map_keys_ok_def kv)
  have key: "parse_string_body (concat (map escape_out k) @ CHR 0x22 # t) = Some (k, t)" for t by (rule string_read)
  show ?case
  proof (cases m)
    case Nil
    have "parse_value g (json_stringify v @ CHR 0x7D # r) = Some (v, CHR 0x7D # r)"
      using Cons.prems(4) Nil by (intro readsD [OF v]) (simp_all add: f kv)
    then show ?thesis using Nil by (simp add: f kv quote_def key new)
  next
    case (Cons y ys)
    have whole: "members_text (kv # m) = quote k @ CHR '':'' # json_stringify v @ CHR '','' # members_text m"
      using Cons kv by simp
    have "parse_members g (acc @ [(k, v)]) (members_text m @ CHR 0x7D # r) = Some ((acc @ [(k, v)]) @ m, r)"
      using Cons.prems Cons by (intro Cons.IH) (simp_all add: whole f kv)
    moreover have "parse_value g (json_stringify v @ CHR '','' # members_text m @ CHR 0x7D # r)
        = Some (v, CHR '','' # members_text m @ CHR 0x7D # r)"
      using Cons.prems(4) unfolding whole f by (intro readsD [OF v]) simp_all
    ultimately show ?thesis unfolding whole f by (simp add: quote_def key new kv)
  qed
qed

lemma number_read:
  assumes "num_ok q"
  shows "reads (JNum q)"
  unfolding reads_def
proof (intro allI impI)
  fix f r assume "2 * length (json_stringify (JNum q)) \<le> f" and r: "follows r"
  then obtain g where f: "f = Suc g" using num_str_chars(2) [of q] by (cases f) auto
  obtain c t where ct: "num_str q = c # t" using num_str_chars(2) by (cases "num_str q") auto
  have all: "\<forall>c\<in>set (num_str q). is_number_char c" by (rule num_str_chars)
  have "takeWhile is_number_char (num_str q @ r) = num_str q" "dropWhile is_number_char (num_str q @ r) = r"
    using all r by (cases r; simp add: takeWhile_append dropWhile_append follows_def)+
  then have tok: "takeWhile is_number_char (c # t @ r) = num_str q" "dropWhile is_number_char (c # t @ r) = r"
    by (simp_all add: ct)
  have "is_number_char c" using all ct by simp
  note c = number_char_cases [OF this]
  show "parse_value f (json_stringify (JNum q) @ r) = Some (JNum q, r)"
    using c by (simp add: f ct tok parse_json_number_num_str [OF assms, unfolded ct] del: takeWhile.simps dropWhile.simps)
qed

lemma json_reads: "json_ok v \<Longrightarrow> reads v"
proof (induction v)
  case (JArr xs)
  show ?case
    unfolding reads_def
  proof (intro allI impI)
    fix f r assume len: "2 * length (json_stringify (JArr xs)) \<le> f" and r: "follows r"
    then obtain g where f: "f = Suc g" by (cases f) auto
    show "parse_value f (json_stringify (JArr xs) @ r) = Some (JArr xs, r)"
    proof (cases xs)
      case Nil
      then show ?thesis by (simp add: f)
    next
      case (Cons x ys)
      have "parse_elems g (elems_text xs @ CHR 0x5D # r) = Some (xs, r)"
        using JArr len f Cons by (intro elems_read) auto
      moreover obtain c t where "elems_text xs = c # t" "\<not> json_ws c" "c \<noteq> CHR 0x5D"
        using stringify_head [of x] Cons by (cases ys) auto
      ultimately show ?thesis by (simp add: f)
    qed
  qed
next
  case (JObj m)
  show ?case
    unfolding reads_def
  proof (intro allI impI)
    fix f r assume len: "2 * length (json_stringify (JObj m)) \<le> f" and r: "follows r"
    then obtain g where f: "f = Suc g" by (cases f) auto
    show "parse_value f (json_stringify (JObj m) @ r) = Some (JObj m, r)"
    proof (cases m)
      case Nil
      then show ?thesis by (simp add: f)
    next
      case (Cons kv ms)
      have "\<forall>kv\<in>set m. reads (snd kv)" using JObj by (auto simp: snds.simps)
      then have "parse_members g [] (members_text m @ CHR 0x7D # r) = Some ([] @ m, r)"
        using JObj(2) len f Cons by (intro members_read) auto
      moreover obtain t where "members_text m = CHR 0x22 # t" using Cons by (cases ms) (auto simp: quote_def)
      ultimately show ?thesis by (simp add: f)
    qed
  qed
next
  case (JNum q)
  then show ?case by (simp add: number_read)
next
  case (JStr s)
  show ?case
    unfolding reads_def
  proof (intro allI impI)
    fix f r assume "2 * length (json_stringify (JStr s)) \<le> f"
    then obtain g where "f = Suc g" by (cases f) (auto simp: quote_def)
    then show "parse_value f (json_stringify (JStr s) @ r) = Some (JStr s, r)" by (simp add: quote_def string_read)
  qed
next
  case JNull
  show ?case unfolding reads_def by (intro allI impI, case_tac f) simp_all
next
  case (JBool b)
  show ?case unfolding reads_def by (intro allI impI, case_tac f) (simp_all split: if_splits)
qed

lemma json_parse_stringify [simp]: "json_ok v \<Longrightarrow> json_parse (json_stringify v) = Some v"
  using readsD [OF json_reads, of v "2 * length (json_stringify v) + 2" "[]"]
  by (simp add: json_parse_def skip_ws_def)

end
