(* ===== verification/DeviceProfiles.thy ===== *)
theory DeviceProfiles
  imports JsonText
begin

section \<open>Device profiles bound to an account\<close>

text \<open>
  The device columns of \<open>cloud-account/persistence/cloudHandler.ts\<close>: a bound profile and a history of versions, both
  stored as versioned JSON text, and the operations that bind, restore and delete versions. New identifiers (\<open>uuidv4\<close>)
  and the time are arguments.
\<close>

subsection \<open>Profiles and their text\<close>

record device_profile =
  machineId :: string
  macMachineId :: string
  devDeviceId :: string
  sqmId :: string

record device_version =
  dv_id :: string
  dv_createdAt :: rat
  dv_label :: string
  dv_profile :: device_profile
  dv_isCurrent :: bool

type_synonym members = "(string \<times> json) list"

fun readStringCandidate :: "members \<Rightarrow> string list \<Rightarrow> string option" where
  "readStringCandidate source [] = None"
| "readStringCandidate source (key # keys) =
     (case map_of source key of
        Some (JStr candidate) \<Rightarrow> if candidate \<noteq> [] then Some candidate else readStringCandidate source keys
      | _ \<Rightarrow> readStringCandidate source keys)"

definition normalizeDeviceProfile :: "json option \<Rightarrow> device_profile option" where
  "normalizeDeviceProfile v =
     (case v of
        Some (JObj r) \<Rightarrow>
          (case (readStringCandidate r [''machineId'', ''machine_id''], readStringCandidate r [''macMachineId'', ''mac_machine_id''],
                 readStringCandidate r [''devDeviceId'', ''dev_device_id''], readStringCandidate r [''sqmId'', ''sqm_id'']) of
             (Some a, Some b, Some c, Some d) \<Rightarrow>
               Some \<lparr>machineId = a, macMachineId = b, devDeviceId = c, sqmId = d\<rparr>
           | _ \<Rightarrow> None)
      | _ \<Rightarrow> None)"

definition areDeviceProfilesEqual :: "device_profile \<Rightarrow> device_profile \<Rightarrow> bool" where
  "areDeviceProfilesEqual l r \<longleftrightarrow> machineId l = machineId r \<and> macMachineId l = macMachineId r \<and>
     devDeviceId l = devDeviceId r \<and> sqmId l = sqmId r"

text \<open>The two readers of versioned payloads differ in the member and the messages only.\<close>

definition read_versioned :: "string \<Rightarrow> string \<Rightarrow> json \<Rightarrow> string + json" where
  "read_versioned kind member v =
     (case v of
        JObj r \<Rightarrow>
          (case map_of r ''schemaVersion'' of
             None \<Rightarrow> Inr v
           | Some (JNum n) \<Rightarrow>
               if n \<noteq> 1 then Inl (''unsupported_device_'' @ kind @ ''_schema_version:'' @ num_str n)
               else (case map_of r member of
                       None \<Rightarrow> Inl (''invalid_device_'' @ kind @ ''_payload'')
                     | Some payload \<Rightarrow> Inr payload)
           | Some _ \<Rightarrow> Inl (''invalid_device_'' @ kind @ ''_schema_version''))
      | _ \<Rightarrow> Inr v)"

definition readVersionedProfilePayload :: "json \<Rightarrow> string + json" where
  "readVersionedProfilePayload = read_versioned ''profile'' ''profile''"

definition readVersionedHistoryPayload :: "json \<Rightarrow> string + json" where
  "readVersionedHistoryPayload = read_versioned ''history'' ''history''"

definition profile_json :: "device_profile \<Rightarrow> json" where
  "profile_json p = JObj [(''machineId'', JStr (machineId p)), (''macMachineId'', JStr (macMachineId p)),
     (''devDeviceId'', JStr (devDeviceId p)), (''sqmId'', JStr (sqmId p))]"

definition version_json :: "device_version \<Rightarrow> json" where
  "version_json d = JObj [(''id'', JStr (dv_id d)), (''createdAt'', JNum (dv_createdAt d)), (''label'', JStr (dv_label d)),
     (''profile'', profile_json (dv_profile d)), (''isCurrent'', JBool (dv_isCurrent d))]"

definition serializeDeviceProfile :: "device_profile option \<Rightarrow> string option" where
  "serializeDeviceProfile p =
     map_option (\<lambda>p. json_stringify (JObj [(''schemaVersion'', JNum 1), (''profile'', profile_json p)])) p"

definition serializeDeviceHistory :: "device_version list option \<Rightarrow> string option" where
  "serializeDeviceHistory h =
     (case h of
        Some (d # ds) \<Rightarrow>
          Some (json_stringify (JObj [(''schemaVersion'', JNum 1), (''history'', JArr (map version_json (d # ds)))]))
      | _ \<Rightarrow> None)"

text \<open>\<open>fresh\<close> is the identifier made for a version without one, \<open>now\<close> the time in milliseconds.\<close>

definition normalize_version :: "string \<Rightarrow> rat \<Rightarrow> json \<Rightarrow> device_version option" where
  "normalize_version fresh now item =
     (case item of
        JObj r \<Rightarrow>
          (case normalizeDeviceProfile (map_of r ''profile'') of
             None \<Rightarrow> None
           | Some p \<Rightarrow>
               Some \<lparr>dv_id = (case map_of r ''id'' of Some (JStr i) \<Rightarrow> if i \<noteq> [] then i else fresh | _ \<Rightarrow> fresh),
                     dv_createdAt = (case map_of r ''createdAt'' of
                        Some (JNum t) \<Rightarrow> of_int \<lfloor>t\<rfloor> | _ \<Rightarrow> of_int \<lfloor>now / 1000\<rfloor>),
                     dv_label = (case map_of r ''label'' of Some (JStr l) \<Rightarrow> if l \<noteq> [] then l else ''legacy'' | _ \<Rightarrow> ''legacy''),
                     dv_profile = p,
                     dv_isCurrent = (map_of r ''isCurrent'' = Some (JBool True))\<rparr>)
      | _ \<Rightarrow> None)"

definition normalizeDeviceHistory :: "(nat \<Rightarrow> string) \<Rightarrow> rat \<Rightarrow> json list \<Rightarrow> device_version list" where
  "normalizeDeviceHistory fresh now items =
     List.map_filter (\<lambda>(n, item). normalize_version (fresh n) now item) (enumerate 0 items)"

definition parseDeviceProfileColumn :: "string option \<Rightarrow> string + device_profile option" where
  "parseDeviceProfileColumn v =
     (if \<not> str_truthy v then Inr None
      else (case json_parse (the v) of
              None \<Rightarrow> Inl ''invalid_device_profile_json''
            | Some parsed \<Rightarrow>
                (case readVersionedProfilePayload parsed of
                   Inl e \<Rightarrow> Inl e
                 | Inr payload \<Rightarrow>
                     (case normalizeDeviceProfile (Some payload) of
                        None \<Rightarrow> Inl ''invalid_device_profile_json''
                      | Some p \<Rightarrow> Inr (Some p)))))"

definition parseDeviceHistoryColumn :: "(nat \<Rightarrow> string) \<Rightarrow> rat \<Rightarrow> string option \<Rightarrow> string + device_version list option" where
  "parseDeviceHistoryColumn fresh now v =
     (if \<not> str_truthy v then Inr None
      else (case json_parse (the v) of
              None \<Rightarrow> Inl ''invalid_device_history_json''
            | Some parsed \<Rightarrow>
                (case readVersionedHistoryPayload parsed of
                   Inl e \<Rightarrow> Inl e
                 | Inr (JArr payload) \<Rightarrow>
                     (let normalized = normalizeDeviceHistory fresh now payload
                      in if length normalized \<noteq> length payload then Inl ''invalid_device_history_entry''
                         else Inr (Some normalized))
                 | Inr _ \<Rightarrow> Inl ''invalid_device_history_json'')))"

subsection \<open>Columns are read back\<close>

definition profile_ok :: "device_profile \<Rightarrow> bool" where
  "profile_ok p \<longleftrightarrow> machineId p \<noteq> [] \<and> macMachineId p \<noteq> [] \<and> devDeviceId p \<noteq> [] \<and> sqmId p \<noteq> []"

definition version_ok :: "device_version \<Rightarrow> bool" where
  "version_ok d \<longleftrightarrow> dv_id d \<noteq> [] \<and> dv_label d \<noteq> [] \<and> profile_ok (dv_profile d) \<and> of_int \<lfloor>dv_createdAt d\<rfloor> = dv_createdAt d"

lemma normalize_profile_json: "normalizeDeviceProfile (Some (profile_json p)) = (if profile_ok p then Some p else None)"
  by (auto simp: normalizeDeviceProfile_def profile_json_def profile_ok_def)

lemma profile_json_ok [simp]: "json_ok (profile_json p)"
  by (simp add: profile_json_def map_keys_ok_def)

lemma profile_column_roundtrip:
  "parseDeviceProfileColumn (serializeDeviceProfile (Some p)) =
    (if profile_ok p then Inr (Some p) else Inl ''invalid_device_profile_json'')"
proof -
  let ?v = "JObj [(''schemaVersion'', JNum 1), (''profile'', profile_json p)]"
  have ok: "json_ok ?v" by (simp add: map_keys_ok_def)
  obtain c t where txt1: "json_stringify ?v = c # t" using stringify_head by blast
  have "str_truthy (Some (json_stringify ?v))" by (simp add: txt1 del: json_stringify.simps)
  moreover have "readVersionedProfilePayload ?v = Inr (profile_json p)"
    by (simp add: readVersionedProfilePayload_def read_versioned_def)
  ultimately show ?thesis
    unfolding parseDeviceProfileColumn_def serializeDeviceProfile_def option.map option.sel json_parse_stringify [OF ok]
    by (simp add: normalize_profile_json del: json_stringify.simps)
qed

lemma normalize_version_json:
  "normalize_version fresh now (version_json d) = (if profile_ok (dv_profile d) then
     Some \<lparr>dv_id = (if dv_id d \<noteq> [] then dv_id d else fresh), dv_createdAt = of_int \<lfloor>dv_createdAt d\<rfloor>,
       dv_label = (if dv_label d \<noteq> [] then dv_label d else ''legacy''), dv_profile = dv_profile d, dv_isCurrent = dv_isCurrent d\<rparr>
     else None)"
  by (simp add: normalize_version_def version_json_def normalize_profile_json)

lemma normalize_history_json:
  "\<forall>d\<in>set ds. version_ok d \<Longrightarrow>
   List.map_filter (\<lambda>(n, item). normalize_version (fresh n) now item) (enumerate i (map version_json ds)) = ds"
proof (induction ds arbitrary: i)
  case Nil
  show ?case by (simp add: List.map_filter_simps)
next
  case (Cons d ds)
  then have "version_ok d" by simp
  then have "normalize_version (fresh i) now (version_json d) = Some d"
    by (simp add: normalize_version_json version_ok_def)
  with Cons show ?case by (simp add: List.map_filter_simps)
qed

lemma version_json_ok: "version_ok d \<Longrightarrow> json_ok (version_json d)"
  by (auto simp: version_json_def version_ok_def map_keys_ok_def)

lemma history_column_roundtrip:
  assumes "\<forall>d\<in>set ds. version_ok d"
  shows "parseDeviceHistoryColumn fresh now (serializeDeviceHistory (Some ds)) = Inr (if ds = [] then None else Some ds)"
proof (cases ds)
  case Nil
  then show ?thesis by (simp add: parseDeviceHistoryColumn_def serializeDeviceHistory_def)
next
  case (Cons d es)
  let ?v = "JObj [(''schemaVersion'', JNum 1), (''history'', JArr (map version_json ds))]"
  have ok: "json_ok ?v" using assms version_json_ok by (auto simp: map_keys_ok_def)
  obtain c t where txt1: "json_stringify ?v = c # t" using stringify_head by blast
  have s: "serializeDeviceHistory (Some ds) = Some (json_stringify ?v)" using Cons by (simp add: serializeDeviceHistory_def)
  have "str_truthy (Some (json_stringify ?v))" by (simp add: txt1 del: json_stringify.simps)
  moreover have "readVersionedHistoryPayload ?v = Inr (JArr (map version_json ds))"
    by (simp add: readVersionedHistoryPayload_def read_versioned_def)
  moreover have "normalizeDeviceHistory fresh now (map version_json ds) = ds"
    unfolding normalizeDeviceHistory_def by (rule normalize_history_json [OF assms])
  ultimately show ?thesis
    unfolding s parseDeviceHistoryColumn_def option.sel json_parse_stringify [OF ok]
    using Cons by (simp add: Let_def del: json_stringify.simps)
qed

subsection \<open>Binding, restoring and deleting versions\<close>

text \<open>The bound profile and the history, as the operations read them from the columns.\<close>

record binding =
  bi_profile :: "device_profile option"
  bi_history :: "device_version list"

text \<open>None: the profile is bound already, and nothing is written.\<close>

definition bind_profile :: "string \<Rightarrow> rat \<Rightarrow> device_profile \<Rightarrow> string \<Rightarrow> binding \<Rightarrow> binding option" where
  "bind_profile uuid now profile label b =
     (let currentVersion = find dv_isCurrent (bi_history b);
          latestVersion = (if bi_history b = [] then None else Some (last (bi_history b)));
          equals = (\<lambda>v. case v of None \<Rightarrow> False | Some w \<Rightarrow> areDeviceProfilesEqual (dv_profile w) profile)
      in if (case bi_profile b of None \<Rightarrow> False | Some bound \<Rightarrow> areDeviceProfilesEqual bound profile) then None
         else if equals currentVersion then None
         else if currentVersion = None \<and> equals latestVersion then None
         else Some \<lparr>bi_profile = Some profile,
                bi_history = map (\<lambda>v. v\<lparr>dv_isCurrent := False\<rparr>) (bi_history b) @
                  [\<lparr>dv_id = uuid, dv_createdAt = of_int \<lfloor>now / 1000\<rfloor>, dv_label = label, dv_profile = profile, dv_isCurrent = True\<rparr>]\<rparr>)"

definition restore_version :: "string \<Rightarrow> device_profile option \<Rightarrow> binding \<Rightarrow> string + binding" where
  "restore_version versionId baseline b =
     (let target =
            (if versionId = ''baseline'' then
               (case baseline of None \<Rightarrow> Inl ''Global original profile not found'' | Some p \<Rightarrow> Inr p)
             else if versionId = ''current'' then
               (case bi_profile b of None \<Rightarrow> Inl ''No currently bound profile'' | Some p \<Rightarrow> Inr p)
             else (case find (\<lambda>v. dv_id v = versionId) (bi_history b) of
                     None \<Rightarrow> Inl ''Device profile version not found''
                   | Some v \<Rightarrow> Inr (dv_profile v)))
      in (case target of
            Inl e \<Rightarrow> Inl e
          | Inr p \<Rightarrow> Inr \<lparr>bi_profile = Some p,
              bi_history = map (\<lambda>v. v\<lparr>dv_isCurrent := (dv_id v = versionId)\<rparr>) (bi_history b)\<rparr>))"

definition delete_version :: "string \<Rightarrow> device_version list \<Rightarrow> string + device_version list" where
  "delete_version versionId history =
     (if list_ex (\<lambda>v. dv_id v = versionId \<and> dv_isCurrent v) history then Inl ''Currently bound profile cannot be deleted''
      else (let nextHistory = filter (\<lambda>v. dv_id v \<noteq> versionId) history
            in if length nextHistory = length history then Inl ''Historical device profile not found'' else Inr nextHistory))"

datatype binding_op =
    Bind string rat device_profile string
  | Restore string "device_profile option"
  | Delete string

definition binding_step :: "binding_op \<Rightarrow> binding \<Rightarrow> string + binding" where
  "binding_step op b =
     (case op of
        Bind uuid now p label \<Rightarrow> Inr (case bind_profile uuid now p label b of None \<Rightarrow> b | Some b' \<Rightarrow> b')
      | Restore versionId baseline \<Rightarrow> restore_version versionId baseline b
      | Delete versionId \<Rightarrow>
          if versionId = ''baseline'' then Inl ''Original profile cannot be deleted''
          else map_sum id (\<lambda>h. b\<lparr>bi_history := h\<rparr>) (delete_version versionId (bi_history b)))"

text \<open>What holds of a binding: versions have different names and usable contents, at most one is current, and that one is
  the bound profile.\<close>

definition binding_ok :: "binding \<Rightarrow> bool" where
  "binding_ok b \<longleftrightarrow> distinct (map dv_id (bi_history b)) \<and> (\<forall>v\<in>set (bi_history b). version_ok v) \<and>
     (\<forall>p. bi_profile b = Some p \<longrightarrow> profile_ok p) \<and>
     (\<forall>v\<in>set (bi_history b). dv_isCurrent v \<longrightarrow> bi_profile b = Some (dv_profile v)) \<and>
     (\<forall>v\<in>set (bi_history b). \<forall>w\<in>set (bi_history b). dv_isCurrent v \<longrightarrow> dv_isCurrent w \<longrightarrow> v = w)"

definition op_ok :: "binding_op \<Rightarrow> binding \<Rightarrow> bool" where
  "op_ok op b =
     (case op of
        Bind uuid now p label \<Rightarrow> uuid \<noteq> [] \<and> label \<noteq> [] \<and> profile_ok p \<and> uuid \<notin> dv_id ` set (bi_history b)
      | Restore versionId baseline \<Rightarrow> (case baseline of None \<Rightarrow> True | Some p \<Rightarrow> profile_ok p) \<and>
          (versionId \<in> {''baseline'', ''current''} \<longrightarrow> versionId \<notin> dv_id ` set (bi_history b))
      | Delete _ \<Rightarrow> True)"

lemma binding_okD:
  assumes "binding_ok b"
  shows "distinct (map dv_id (bi_history b))" "v \<in> set (bi_history b) \<Longrightarrow> version_ok v" "bi_profile b = Some p \<Longrightarrow> profile_ok p"
    "v \<in> set (bi_history b) \<Longrightarrow> dv_isCurrent v \<Longrightarrow> bi_profile b = Some (dv_profile v)"
    "v \<in> set (bi_history b) \<Longrightarrow> w \<in> set (bi_history b) \<Longrightarrow> dv_isCurrent v \<Longrightarrow> dv_isCurrent w \<Longrightarrow> v = w"
  using assms unfolding binding_ok_def by blast+

lemma areDeviceProfilesEqual_iff [simp]: "areDeviceProfilesEqual l r \<longleftrightarrow> l = r"
  by (cases l; cases r) (auto simp: areDeviceProfilesEqual_def)

lemma find_SomeD: "find P xs = Some v \<Longrightarrow> v \<in> set xs \<and> P v"
  by (auto simp: find_Some_iff)

lemma ids_of_updated [simp]: "dv_id \<circ> dv_isCurrent_update f = dv_id" "dv_profile \<circ> dv_isCurrent_update f = dv_profile"
  by (simp_all add: comp_def)

lemma bind_ok:
  assumes "binding_ok b" "op_ok (Bind uuid now p label) b" "bind_profile uuid now p label b = Some b'"
  shows "binding_ok b'"
proof -
  have b': "b' = \<lparr>bi_profile = Some p, bi_history = map (\<lambda>v. v\<lparr>dv_isCurrent := False\<rparr>) (bi_history b) @
      [\<lparr>dv_id = uuid, dv_createdAt = of_int \<lfloor>now / 1000\<rfloor>, dv_label = label, dv_profile = p, dv_isCurrent = True\<rparr>]\<rparr>"
    using assms(3) unfolding bind_profile_def Let_def by (metis option.distinct(1) option.inject)
  with binding_okD [OF assms(1)] assms(2) show ?thesis
    unfolding b' binding_ok_def by (auto simp: op_ok_def version_ok_def)
qed

lemma restore_ok:
  assumes "binding_ok b" "op_ok (Restore versionId baseline) b" "restore_version versionId baseline b = Inr b'"
  shows "binding_ok b'"
proof -
  note ok = binding_okD [OF assms(1)]
  obtain p where b': "b' = \<lparr>bi_profile = Some p, bi_history = map (\<lambda>v. v\<lparr>dv_isCurrent := (dv_id v = versionId)\<rparr>) (bi_history b)\<rparr>"
    using assms(3) by (auto simp: restore_version_def Let_def split: sum.splits)
  have ids: "map dv_id (bi_history b') = map dv_id (bi_history b)" unfolding b' by simp
  have uniq: "v = w" if "v \<in> set (bi_history b)" "w \<in> set (bi_history b)" "dv_id v = dv_id w" for v w
    using ok(1) that by (metis distinct_map inj_onD)
  have p: "profile_ok p \<and> (\<forall>v\<in>set (bi_history b). dv_id v = versionId \<longrightarrow> dv_profile v = p)"
  proof (cases "versionId = ''baseline'' \<or> versionId = ''current''")
    case True
    then have "versionId \<notin> dv_id ` set (bi_history b)" using assms(2) by (auto simp: op_ok_def)
    then have "\<forall>v\<in>set (bi_history b). dv_id v \<noteq> versionId" by auto
    moreover have "profile_ok p"
      using True assms(2,3) ok(3) unfolding b' by (auto simp: op_ok_def restore_version_def split: option.splits)
    ultimately show ?thesis by auto
  next
    case False
    then obtain v where v: "find (\<lambda>v. dv_id v = versionId) (bi_history b) = Some v" "p = dv_profile v"
      using assms(3) unfolding b' by (auto simp: restore_version_def split: option.splits)
    then have "v \<in> set (bi_history b)" "dv_id v = versionId" by (auto simp: find_Some_iff)
    with v(2) uniq ok(2) show ?thesis by (auto simp: version_ok_def)
  qed
  show ?thesis
    unfolding binding_ok_def ids
    using ok(1,2) p uniq unfolding b' by (auto simp: version_ok_def)
qed

lemma delete_ok:
  assumes "binding_ok b" "delete_version versionId (bi_history b) = Inr h"
  shows "binding_ok (b\<lparr>bi_history := h\<rparr>)"
proof -
  have "h = filter (\<lambda>v. dv_id v \<noteq> versionId) (bi_history b)"
    using assms(2) by (auto simp: delete_version_def Let_def split: if_splits)
  with binding_okD [OF assms(1)] show ?thesis
    unfolding binding_ok_def by (auto simp: distinct_map inj_on_def)
qed

text \<open>The device bindings of an account stay consistent under every operation: versions keep different names, at most one
  is current and it is the bound profile; binding binds the profile asked for, or finds it bound or latest already, and
  forgets no version; restoring binds the profile of the version asked for; deleting removes that version only, and never
  the current one.\<close>

theorem device_bindings_stay_consistent:
  assumes "binding_ok b" "op_ok op b" "binding_step op b = Inr b'"
  shows "binding_ok b' \<and>
    (case op of
       Bind uuid now p label \<Rightarrow>
         b' = b \<and> (bi_profile b = Some p \<or> (\<exists>v\<in>set (bi_history b). dv_profile v = p)) \<or>
         bi_profile b' = Some p \<and> map dv_profile (bi_history b') = map dv_profile (bi_history b) @ [p] \<and>
         map dv_isCurrent (bi_history b') = replicate (length (bi_history b)) False @ [True]
     | Restore versionId baseline \<Rightarrow>
         map dv_profile (bi_history b') = map dv_profile (bi_history b) \<and>
         (\<forall>v\<in>set (bi_history b). dv_id v = versionId \<longrightarrow> bi_profile b' = Some (dv_profile v)) \<and>
         (versionId = ''baseline'' \<longrightarrow> bi_profile b' = baseline)
     | Delete versionId \<Rightarrow>
         bi_profile b' = bi_profile b \<and> bi_history b' = filter (\<lambda>v. dv_id v \<noteq> versionId) (bi_history b) \<and>
         (\<forall>v\<in>set (bi_history b). dv_isCurrent v \<longrightarrow> v \<in> set (bi_history b')))"
proof (cases op)
  case (Bind uuid now p label)
  show ?thesis
  proof (cases "bind_profile uuid now p label b")
    case None
    then have "bi_profile b = Some p \<or> (\<exists>v\<in>set (bi_history b). dv_profile v = p)"
      by (auto simp: bind_profile_def Let_def last_in_set dest!: find_SomeD split: option.splits if_splits)
    with None assms Bind show ?thesis by (simp add: binding_step_def)
  next
    case (Some c)
    then have c: "c = \<lparr>bi_profile = Some p, bi_history = map (\<lambda>v. v\<lparr>dv_isCurrent := False\<rparr>) (bi_history b) @
      [\<lparr>dv_id = uuid, dv_createdAt = of_int \<lfloor>now / 1000\<rfloor>, dv_label = label, dv_profile = p, dv_isCurrent = True\<rparr>]\<rparr>"
      unfolding bind_profile_def Let_def by (metis option.distinct(1) option.inject)
    have "binding_ok c" using bind_ok [OF assms(1) _ Some] assms(2) Bind by simp
    moreover have "b' = c" using Some assms(3) Bind by (simp add: binding_step_def)
    moreover have "bi_profile c = Some p" "map dv_profile (bi_history c) = map dv_profile (bi_history b) @ [p]"
      "map dv_isCurrent (bi_history c) = replicate (length (bi_history b)) False @ [True]"
      unfolding c by (simp_all add: comp_def map_replicate_const)
    ultimately show ?thesis using Bind by simp
  qed
next
  case (Restore versionId baseline)
  then have r: "restore_version versionId baseline b = Inr b'" using assms(3) by (simp add: binding_step_def)
  have ok: "binding_ok b'" using restore_ok [OF assms(1) _ r] assms(2) Restore by simp
  have h: "bi_history b' = map (\<lambda>v. v\<lparr>dv_isCurrent := (dv_id v = versionId)\<rparr>) (bi_history b)"
    using r by (auto simp: restore_version_def Let_def split: sum.splits)
  have "bi_profile b' = Some (dv_profile v)" if "v \<in> set (bi_history b)" "dv_id v = versionId" for v
  proof -
    have "v\<lparr>dv_isCurrent := True\<rparr> \<in> set (bi_history b')" unfolding h using that by force
    from binding_okD(4) [OF ok this] show ?thesis by simp
  qed
  moreover have "bi_profile b' = baseline" if "versionId = ''baseline''"
    using r that by (auto simp: restore_version_def split: option.splits)
  ultimately show ?thesis using ok h Restore by (simp add: comp_def)
next
  case (Delete versionId)
  then obtain h where d: "delete_version versionId (bi_history b) = Inr h" "b' = b\<lparr>bi_history := h\<rparr>"
    using assms(3) by (auto simp: binding_step_def map_sum_def split: if_splits sum.splits)
  have h: "h = filter (\<lambda>v. dv_id v \<noteq> versionId) (bi_history b)" "\<forall>v\<in>set (bi_history b). dv_id v = versionId \<longrightarrow> \<not> dv_isCurrent v"
    using d(1) by (auto simp: delete_version_def Let_def list_ex_iff split: if_splits)
  show ?thesis using delete_ok [OF assms(1) d(1)] d(2) h Delete by auto
qed

lemma device_bindings_stay_consistent_witness:
  "\<exists>b. binding_step (Bind ''v1'' 5000 \<lparr>machineId = ''m'', macMachineId = ''n'', devDeviceId = ''d'', sqmId = ''s''\<rparr> ''generated'')
      \<lparr>bi_profile = None, bi_history = []\<rparr> = Inr b \<and> binding_ok b \<and> map dv_isCurrent (bi_history b) = [True]"
proof -
  let ?p = "\<lparr>machineId = ''m'', macMachineId = ''n'', devDeviceId = ''d'', sqmId = ''s''\<rparr>"
  let ?op = "Bind ''v1'' 5000 ?p ''generated''"
  let ?b = "\<lparr>bi_profile = None, bi_history = []\<rparr> :: binding"
  have ok: "binding_ok ?b" by (simp add: binding_ok_def)
  have op: "op_ok ?op ?b" by (simp add: op_ok_def profile_ok_def)
  obtain b where b: "binding_step ?op ?b = Inr b" by (simp add: binding_step_def)
  from device_bindings_stay_consistent [OF ok op b] b show ?thesis by auto
qed

text \<open>Restoring the bound profile under the name \<open>current\<close> leaves no version current, so the bound version can be deleted.\<close>

lemma restoring_current_unguards:
  assumes "restore_version ''current'' baseline b = Inr b'" "v \<in> set (bi_history b)" "''current'' \<notin> dv_id ` set (bi_history b)"
  shows "bi_profile b' = bi_profile b \<and> (\<exists>h. delete_version (dv_id v) (bi_history b') = Inr h)"
proof -
  have b': "bi_profile b' = bi_profile b" "bi_history b' = map (\<lambda>v. v\<lparr>dv_isCurrent := (dv_id v = ''current'')\<rparr>) (bi_history b)"
    using assms(1) by (auto simp: restore_version_def split: option.splits)
  have "\<forall>w\<in>set (bi_history b'). \<not> dv_isCurrent w" using assms(3) unfolding b'(2) by (auto simp: image_iff)
  moreover have "length (filter (\<lambda>w. dv_id w \<noteq> dv_id v) (bi_history b')) < length (bi_history b')"
    by (rule length_filter_less [of "v\<lparr>dv_isCurrent := (dv_id v = ''current'')\<rparr>"]) (use assms(2) b'(2) in auto)
  ultimately show ?thesis using b'(1) by (auto simp: delete_version_def Let_def list_ex_iff)
qed

end
