(* ===== verification/Security.thy ===== *)
theory Security
  imports JsPrelude "HOL-Library.Word"
begin

section \<open>The master key and the encryption of stored data\<close>

text \<open>
  \<open>shared/security/security.ts\<close>. The master key comes from the key file sealed by Electron's safeStorage, from the
  system keychain (keytar) or from a plain key file, in this order; the sealed and the plain key share one file. Data is
  stored as \<open>agm_enc_v1:iv:tag:ciphertext\<close> in hexadecimal; older forms are migrated when they are read.

  AES-256-GCM, safeStorage, keytar and the random numbers are arguments, the first as a record of two functions whose laws
  the locale \<open>aead\<close> states. Requests are sequential, so the promise that shares one key generation has no state here. A
  write of the key file fails as a whole: the file is written beside and renamed.
\<close>

type_synonym octets = "8 word list"

subsection \<open>Hexadecimal\<close>

definition hex_char :: "char \<Rightarrow> bool" where
  "hex_char c \<longleftrightarrow> radix_digit 16 c \<noteq> None"

text \<open>\<open>/^[a-f0-9]+$/i\<close>\<close>

definition is_hex :: "string \<Rightarrow> bool" where
  "is_hex s \<longleftrightarrow> s \<noteq> [] \<and> list_all hex_char s"

definition nibble :: "nat \<Rightarrow> char" where
  "nibble d = (if d < 10 then char_of (48 + d) else char_of (87 + d))"

text \<open>\<open>buffer.toString('hex')\<close> and \<open>Buffer.from(text, 'hex')\<close>, which stops at the first pair that is not hexadecimal.\<close>

definition hex_of :: "octets \<Rightarrow> string" where
  "hex_of bs = concat (map (\<lambda>b. [nibble (unat b div 16), nibble (unat b mod 16)]) bs)"

fun bytes_of_hex :: "string \<Rightarrow> octets" where
  "bytes_of_hex (c # d # s) =
     (case (radix_digit 16 c, radix_digit 16 d) of
        (Some x, Some y) \<Rightarrow> of_nat (16 * x + y) # bytes_of_hex s
      | _ \<Rightarrow> [])"
| "bytes_of_hex _ = []"

lemma nibble_val: "d < 16 \<Longrightarrow> radix_digit 16 (nibble d) = Some d"
proof (cases "d < 10")
  case True
  then have c: "of_char (char_of (48 + d) :: char) = 48 + d" by simp
  with True have "lower_char (char_of (48 + d)) = char_of (48 + d)" by (simp only: lower_char_def Let_def c) simp
  with True show ?thesis by (simp add: nibble_def radix_digit_def Let_def)
next
  case False
  assume d: "d < 16"
  then have c: "of_char (char_of (87 + d) :: char) = 87 + d" by simp
  with False have "lower_char (char_of (87 + d)) = char_of (87 + d)" by (simp only: lower_char_def Let_def c) simp
  with False d show ?thesis by (simp add: nibble_def radix_digit_def Let_def)
qed

lemma unat_octet_lt: "unat (b :: 8 word) < 256"
  using unsigned_less [of b] by simp

lemma unat_octet: "unat (b :: 8 word) div 16 < 16" "unat (b :: 8 word) mod 16 < 16"
  using unat_octet_lt [of b] by simp_all

lemma bytes_of_hex_of [simp]: "bytes_of_hex (hex_of bs) = bs"
  by (induction bs) (simp_all add: hex_of_def nibble_val unat_octet)

lemma hex_of_hex [simp]: "list_all hex_char (hex_of bs)"
  by (induction bs) (simp_all add: hex_of_def hex_char_def nibble_val unat_octet)

lemma length_hex_of [simp]: "length (hex_of bs) = 2 * length bs"
  by (induction bs) (simp_all add: hex_of_def)

lemma hex_of_eq_Nil [simp]: "hex_of bs = [] \<longleftrightarrow> bs = []"
  by (metis length_0_conv length_hex_of mult_eq_0_iff zero_neq_numeral)

lemma is_hex_of [simp]: "is_hex (hex_of bs) \<longleftrightarrow> bs \<noteq> []"
  by (simp add: is_hex_def)

lemma colon_not_hex: "\<not> hex_char (CHR '':'')"
  by (simp add: hex_char_def radix_digit_def lower_char_def)

lemma colon_not_in_hex: "CHR '':'' \<notin> set (hex_of bs)"
  using hex_of_hex [of bs] colon_not_hex by (auto simp: list_all_iff)

subsection \<open>What lies outside\<close>

datatype key_source = FromSafeStorage | FromKeytar | FromFile

text \<open>safeStorage seals and unseals strings; the keychain and the file system may fail, with a message.\<close>

record platform =
  pl_encryption_available :: bool
  pl_seal :: "string \<Rightarrow> string option"
  pl_unseal :: "string \<Rightarrow> string option"
  pl_keytar_works :: bool
  pl_get_password_fails :: bool
  pl_set_password_fails :: bool
  pl_read_error :: "string option"
  pl_write_error :: "string option"
  pl_random_key :: "nat \<Rightarrow> octets"
  pl_random_iv :: "nat \<Rightarrow> octets"
  pl_darwin :: bool
  pl_app_path :: string

record cipher =
  ci_encrypt :: "octets \<Rightarrow> octets \<Rightarrow> string \<Rightarrow> string + octets \<times> octets"
  ci_decrypt :: "octets \<Rightarrow> octets \<Rightarrow> octets \<Rightarrow> octets \<Rightarrow> string + string"

datatype key_hint = NoHint | HintTranslocation | HintKeychainDenied | HintSignNotarize

datatype sec_error = PlainError string | KeychainUnavailable key_hint | DataMigrationFailed

text \<open>The state: the cached key, the content of the key file, the keychain entry and the number of random draws.\<close>

record vault =
  va_cached :: "(octets \<times> key_source) option"
  va_file :: "string option"
  va_keychain :: "string option"
  va_draws :: nat

subsection \<open>Reading and creating keys\<close>

definition valid_hex_key :: "string \<Rightarrow> bool" where
  "valid_hex_key s \<longleftrightarrow> is_hex s \<and> length s = 64"

definition draw :: "vault \<Rightarrow> vault" where
  "draw v = v\<lparr>va_draws := va_draws v + 1\<rparr>"

definition readSafeStorageKey :: "platform \<Rightarrow> vault \<Rightarrow> string + octets option" where
  "readSafeStorageKey pl v =
     (if \<not> pl_encryption_available pl then Inr None
      else (case pl_read_error pl of
              Some e \<Rightarrow> Inl e
            | None \<Rightarrow>
                (case va_file v of
                   None \<Rightarrow> Inr None
                 | Some sealed \<Rightarrow>
                     (case pl_unseal pl sealed of
                        None \<Rightarrow> Inl ''Error while decrypting the ciphertext provided to safeStorage.decryptString.''
                      | Some hexKey \<Rightarrow> Inr (if valid_hex_key hexKey then Some (bytes_of_hex hexKey) else None)))))"

definition atomicWriteFile :: "platform \<Rightarrow> string \<Rightarrow> vault \<Rightarrow> (string + unit) \<times> vault" where
  "atomicWriteFile pl data v =
     (case pl_write_error pl of Some e \<Rightarrow> (Inl e, v) | None \<Rightarrow> (Inr (), v\<lparr>va_file := Some data\<rparr>))"

definition getOrCreateSafeStorageKey :: "platform \<Rightarrow> vault \<Rightarrow> (string + octets \<times> bool) \<times> vault" where
  "getOrCreateSafeStorageKey pl v =
     (case readSafeStorageKey pl v of
        Inl e \<Rightarrow> (Inl e, v)
      | Inr (Some existingKey) \<Rightarrow> (Inr (existingKey, False), v)
      | Inr None \<Rightarrow>
          (let buffer = pl_random_key pl (va_draws v); v1 = draw v
           in (case pl_seal pl (hex_of buffer) of
                 None \<Rightarrow> (Inl ''Error while encrypting the text provided to safeStorage.encryptString.'', v1)
               | Some sealed \<Rightarrow>
                   (case atomicWriteFile pl sealed v1 of
                      (Inl e, v2) \<Rightarrow> (Inl e, v2)
                    | (Inr _, v2) \<Rightarrow> (Inr (buffer, True), v2)))))"

definition readKeytarKey :: "platform \<Rightarrow> vault \<Rightarrow> string + octets option" where
  "readKeytarKey pl v =
     (if \<not> pl_keytar_works pl then Inr None
      else if pl_get_password_fails pl then Inl ''getPassword failed''
      else (case va_keychain v of
              None \<Rightarrow> Inr None
            | Some existingKey \<Rightarrow> Inr (if valid_hex_key existingKey then Some (bytes_of_hex existingKey) else None)))"

definition getOrCreateKeytarKey :: "platform \<Rightarrow> vault \<Rightarrow> (string + (octets \<times> bool) option) \<times> vault" where
  "getOrCreateKeytarKey pl v =
     (if \<not> pl_keytar_works pl then (Inr None, v)
      else if pl_get_password_fails pl then (Inl ''getPassword failed'', v)
      else if str_truthy (va_keychain v) then (Inr (Some (bytes_of_hex (the (va_keychain v)), False)), v)
      else (let buffer = pl_random_key pl (va_draws v); v1 = draw v
            in if pl_set_password_fails pl then (Inl ''setPassword failed'', v1)
               else (Inr (Some (buffer, True)), v1\<lparr>va_keychain := Some (hex_of buffer)\<rparr>)))"

definition readFileFallbackKey :: "platform \<Rightarrow> vault \<Rightarrow> string + octets option" where
  "readFileFallbackKey pl v =
     (case pl_read_error pl of
        Some e \<Rightarrow> Inl e
      | None \<Rightarrow>
          (case va_file v of
             None \<Rightarrow> Inr None
           | Some content \<Rightarrow> Inr (if valid_hex_key content then Some (bytes_of_hex content) else None)))"

definition getOrCreateFileFallbackKey :: "platform \<Rightarrow> vault \<Rightarrow> (string + octets \<times> bool) \<times> vault" where
  "getOrCreateFileFallbackKey pl v =
     (case readFileFallbackKey pl v of
        Inl e \<Rightarrow> (Inl e, v)
      | Inr (Some existingKey) \<Rightarrow> (Inr (existingKey, False), v)
      | Inr None \<Rightarrow>
          (let buffer = pl_random_key pl (va_draws v)
           in (case atomicWriteFile pl (hex_of buffer) (draw v) of
                 (Inl e, v2) \<Rightarrow> (Inl e, v2)
               | (Inr _, v2) \<Rightarrow> (Inr (buffer, True), v2))))"

definition buildKeychainAccessHint :: "platform \<Rightarrow> string \<Rightarrow> key_hint" where
  "buildKeychainAccessHint pl errorMessage =
     (if \<not> pl_darwin pl then NoHint
      else if str_contains (pl_app_path pl) ''/AppTranslocation/'' then HintTranslocation
      else if str_contains (js_lower errorMessage) ''keychain'' then HintKeychainDenied
      else HintSignNotarize)"

definition getKeychainDetailMessageKey :: "key_hint \<Rightarrow> string option" where
  "getKeychainDetailMessageKey hint =
     (case hint of
        HintTranslocation \<Rightarrow> Some ''error.keychainHint.translocation''
      | HintKeychainDenied \<Rightarrow> Some ''error.keychainHint.keychainDenied''
      | HintSignNotarize \<Rightarrow> Some ''error.keychainHint.signNotarize''
      | NoHint \<Rightarrow> None)"

definition cacheMasterKey :: "octets \<Rightarrow> key_source \<Rightarrow> vault \<Rightarrow> vault" where
  "cacheMasterKey key source v = v\<lparr>va_cached := Some (key, source)\<rparr>"

text \<open>The stages of \<open>generatePrimaryMasterKey\<close>, from the last to the first.\<close>

definition key_from_file :: "platform \<Rightarrow> vault \<Rightarrow> (sec_error + octets \<times> key_source) \<times> vault" where
  "key_from_file pl v =
     (case getOrCreateFileFallbackKey pl v of
        (Inr (key, _), v1) \<Rightarrow> (Inr (key, FromFile), cacheMasterKey key FromFile v1)
      | (Inl e, v1) \<Rightarrow> (Inl (KeychainUnavailable (buildKeychainAccessHint pl e)), v1))"

definition key_from_keytar :: "platform \<Rightarrow> vault \<Rightarrow> (sec_error + octets \<times> key_source) \<times> vault" where
  "key_from_keytar pl v =
     (case getOrCreateKeytarKey pl v of
        (Inr (Some (key, _)), v1) \<Rightarrow> (Inr (key, FromKeytar), cacheMasterKey key FromKeytar v1)
      | (_, v1) \<Rightarrow> key_from_file pl v1)"

definition generatePrimaryMasterKey :: "platform \<Rightarrow> vault \<Rightarrow> (sec_error + octets \<times> key_source) \<times> vault" where
  "generatePrimaryMasterKey pl v =
     (case va_cached v of
        Some cached \<Rightarrow> (Inr cached, v)
      | None \<Rightarrow>
          if pl_encryption_available pl
          then (case getOrCreateSafeStorageKey pl v of
                  (Inr (key, _), v1) \<Rightarrow> (Inr (key, FromSafeStorage), cacheMasterKey key FromSafeStorage v1)
                | (Inl e, v1) \<Rightarrow>
                    if va_file v1 \<noteq> None then (Inl (PlainError e), v1) else key_from_keytar pl v1)
          else key_from_keytar pl v)"

definition getPrimaryMasterKey :: "platform \<Rightarrow> vault \<Rightarrow> (sec_error + octets \<times> key_source) \<times> vault" where
  "getPrimaryMasterKey pl v =
     (case va_cached v of Some cached \<Rightarrow> (Inr cached, v) | None \<Rightarrow> generatePrimaryMasterKey pl v)"

text \<open>All keys are read before any is tried, so a source that cannot be read stops the search.\<close>

definition fallback_key :: "bool \<Rightarrow> key_source \<Rightarrow> string + octets option \<Rightarrow> string + (octets \<times> key_source) list" where
  "fallback_key wanted source r =
     (if \<not> wanted then Inr []
      else (case r of Inl e \<Rightarrow> Inl e | Inr None \<Rightarrow> Inr [] | Inr (Some key) \<Rightarrow> Inr [(key, source)]))"

definition getFallbackMasterKeys :: "platform \<Rightarrow> key_source \<Rightarrow> vault \<Rightarrow> string + (octets \<times> key_source) list" where
  "getFallbackMasterKeys pl primarySource v =
     (case fallback_key (primarySource \<noteq> FromKeytar) FromKeytar (readKeytarKey pl v) of
        Inl e \<Rightarrow> Inl e
      | Inr ks1 \<Rightarrow>
          (case fallback_key (primarySource \<noteq> FromFile) FromFile (readFileFallbackKey pl v) of
             Inl e \<Rightarrow> Inl e
           | Inr ks2 \<Rightarrow>
               (case fallback_key (primarySource \<noteq> FromSafeStorage) FromSafeStorage (readSafeStorageKey pl v) of
                  Inl e \<Rightarrow> Inl e
                | Inr ks3 \<Rightarrow> Inr (ks1 @ ks2 @ ks3))))"

subsection \<open>Encryption\<close>

definition ENCRYPTED_PAYLOAD_VERSION_PREFIX :: string where
  "ENCRYPTED_PAYLOAD_VERSION_PREFIX = ''agm_enc_v1:''"

definition encryptWithKey :: "cipher \<Rightarrow> platform \<Rightarrow> octets \<Rightarrow> string \<Rightarrow> vault \<Rightarrow> (string + string) \<times> vault" where
  "encryptWithKey ci pl key plain v =
     (let iv = pl_random_iv pl (va_draws v); v1 = draw v
      in (case ci_encrypt ci key iv plain of
            Inl e \<Rightarrow> (Inl e, v1)
          | Inr (authTag, encrypted) \<Rightarrow>
              (Inr (ENCRYPTED_PAYLOAD_VERSION_PREFIX @ hex_of iv @ '':'' @ hex_of authTag @ '':'' @ hex_of encrypted), v1)))"

definition encrypt_text :: "cipher \<Rightarrow> platform \<Rightarrow> string \<Rightarrow> vault \<Rightarrow> (sec_error + string) \<times> vault" where
  "encrypt_text ci pl plain v =
     (case getPrimaryMasterKey pl v of
        (Inl (PlainError _), v1) \<Rightarrow> (Inl (PlainError ''Encryption failed''), v1)
      | (Inl e, v1) \<Rightarrow> (Inl e, v1)
      | (Inr (key, _), v1) \<Rightarrow>
          (case encryptWithKey ci pl key plain v1 of
             (Inl _, v2) \<Rightarrow> (Inl (PlainError ''Encryption failed''), v2)
           | (Inr payload, v2) \<Rightarrow> (Inr payload, v2)))"

definition decryptWithKey :: "cipher \<Rightarrow> octets \<Rightarrow> string \<Rightarrow> string \<Rightarrow> string \<Rightarrow> string + string" where
  "decryptWithKey ci key ivHex authTagHex encryptedHex =
     ci_decrypt ci key (bytes_of_hex ivHex) (bytes_of_hex authTagHex) (bytes_of_hex encryptedHex)"

definition isAuthTagMismatchError :: "string \<Rightarrow> bool" where
  "isAuthTagMismatchError errorMessage =
     (let normalized = js_lower errorMessage
      in str_contains normalized ''unable to authenticate data'' \<or> str_contains normalized ''auth tag'' \<or>
         str_contains normalized ''bad decrypt'')"

record decrypted =
  de_value :: string
  de_reencrypted :: "string option"
  de_usedFallback :: "key_source option"

text \<open>The first fallback key that decrypts; a failed re-encryption is only logged.\<close>

fun try_fallbacks ::
    "cipher \<Rightarrow> platform \<Rightarrow> octets \<Rightarrow> string \<Rightarrow> string \<Rightarrow> string \<Rightarrow> (octets \<times> key_source) list \<Rightarrow> vault
      \<Rightarrow> (sec_error + decrypted) \<times> vault" where
  "try_fallbacks ci pl primary ivHex tagHex encHex [] v = (Inl DataMigrationFailed, v)"
| "try_fallbacks ci pl primary ivHex tagHex encHex ((key, source) # rest) v =
     (case decryptWithKey ci key ivHex tagHex encHex of
        Inl _ \<Rightarrow> try_fallbacks ci pl primary ivHex tagHex encHex rest v
      | Inr plain \<Rightarrow>
          (case encryptWithKey ci pl primary plain v of
             (r, v1) \<Rightarrow>
               (Inr \<lparr>de_value = plain, de_reencrypted = (case r of Inl _ \<Rightarrow> None | Inr payload \<Rightarrow> Some payload),
                     de_usedFallback = Some source\<rparr>, v1)))"

definition decrypt_failed ::
    "cipher \<Rightarrow> platform \<Rightarrow> octets \<times> key_source \<Rightarrow> string \<Rightarrow> string \<Rightarrow> string \<Rightarrow> string \<Rightarrow> vault
      \<Rightarrow> (sec_error + decrypted) \<times> vault" where
  "decrypt_failed ci pl primary errorMessage ivHex tagHex encHex v =
     (if str_contains errorMessage ''Invalid key length'' \<or> str_contains errorMessage ''Invalid IV length''
      then (Inl (PlainError ''Decryption failed: Corrupted encrypted data''), v)
      else if \<not> isAuthTagMismatchError errorMessage then (Inl (PlainError ''Decryption failed''), v)
      else (case getFallbackMasterKeys pl (snd primary) v of
              Inl e \<Rightarrow> (Inl (PlainError e), v)
            | Inr keys \<Rightarrow> try_fallbacks ci pl (fst primary) ivHex tagHex encHex keys v))"

definition decrypt_parts ::
    "cipher \<Rightarrow> platform \<Rightarrow> bool \<Rightarrow> string \<Rightarrow> string \<Rightarrow> string \<Rightarrow> vault \<Rightarrow> (sec_error + decrypted) \<times> vault" where
  "decrypt_parts ci pl isVersionedPayload ivHex tagHex encHex v =
     (case getPrimaryMasterKey pl v of
        (Inl e, v1) \<Rightarrow> (Inl e, v1)
      | (Inr primary, v1) \<Rightarrow>
          (case decryptWithKey ci (fst primary) ivHex tagHex encHex of
             Inl e \<Rightarrow> decrypt_failed ci pl primary e ivHex tagHex encHex v1
           | Inr plain \<Rightarrow>
               if isVersionedPayload
               then (Inr \<lparr>de_value = plain, de_reencrypted = None, de_usedFallback = None\<rparr>, v1)
               else (case encryptWithKey ci pl (fst primary) plain v1 of
                       (Inl e, v2) \<Rightarrow> decrypt_failed ci pl primary e ivHex tagHex encHex v2
                     | (Inr payload, v2) \<Rightarrow>
                         (Inr \<lparr>de_value = plain, de_reencrypted = Some payload, de_usedFallback = None\<rparr>, v2))))"

definition decryptWithMigration :: "cipher \<Rightarrow> platform \<Rightarrow> string \<Rightarrow> vault \<Rightarrow> (sec_error + decrypted) \<times> vault" where
  "decryptWithMigration ci pl stored v =
     (let as_is = (Inr \<lparr>de_value = stored, de_reencrypted = None, de_usedFallback = None\<rparr>, v)
      in if starts_with stored [CHR 0x7B] \<or> starts_with stored [CHR 0x5B] then as_is
         else
           (let isVersionedPayload = starts_with stored ENCRYPTED_PAYLOAD_VERSION_PREFIX;
                encryptedPayload = (if isVersionedPayload then drop (length ENCRYPTED_PAYLOAD_VERSION_PREFIX) stored else stored)
            in (case split_on (CHR '':'') encryptedPayload of
                  [ivHex, authTagHex, encryptedHex] \<Rightarrow>
                    if \<not> is_hex ivHex \<or> \<not> is_hex authTagHex \<or> \<not> is_hex encryptedHex
                    then (Inl (PlainError ''Invalid encrypted data format''), v)
                    else decrypt_parts ci pl isVersionedPayload ivHex authTagHex encryptedHex v
                | _ \<Rightarrow>
                    if isVersionedPayload then (Inl (PlainError ''Invalid encrypted data format''), v) else as_is)))"

definition decrypt_text :: "cipher \<Rightarrow> platform \<Rightarrow> string \<Rightarrow> vault \<Rightarrow> (sec_error + string) \<times> vault" where
  "decrypt_text ci pl stored v = apfst (map_sum id de_value) (decryptWithMigration ci pl stored v)"

subsection \<open>What the cipher and the platform promise\<close>

text \<open>AES-256-GCM takes keys of 32 bytes, decrypts what it encrypted, and refuses it under another key; a text that is not
  empty has a ciphertext that is not empty. safeStorage returns what it sealed.\<close>

definition aead_laws :: "cipher \<Rightarrow> bool" where
  "aead_laws ci \<longleftrightarrow>
     (\<forall>k iv t. length k = 32 \<longrightarrow> (\<exists>tag ct. ci_encrypt ci k iv t = Inr (tag, ct) \<and> tag \<noteq> [] \<and> (t \<noteq> [] \<longrightarrow> ct \<noteq> []))) \<and>
     (\<forall>k iv t. length k \<noteq> 32 \<longrightarrow> (\<exists>e. ci_encrypt ci k iv t = Inl e)) \<and>
     (\<forall>k iv t tag ct. ci_encrypt ci k iv t = Inr (tag, ct) \<longrightarrow> ci_decrypt ci k iv tag ct = Inr t) \<and>
     (\<forall>k k' iv t tag ct. ci_encrypt ci k iv t = Inr (tag, ct) \<longrightarrow> length k' = 32 \<longrightarrow> k' \<noteq> k \<longrightarrow>
        ci_decrypt ci k' iv tag ct = Inl ''Unsupported state or unable to authenticate data'')"

definition platform_laws :: "platform \<Rightarrow> bool" where
  "platform_laws pl \<longleftrightarrow>
     (\<forall>n. length (pl_random_key pl n) = 32 \<and> length (pl_random_iv pl n) = 16) \<and>
     (\<forall>plain sealed. pl_seal pl plain = Some sealed \<longrightarrow> pl_unseal pl sealed = Some plain) \<and>
     (\<forall>plain plain'. pl_seal pl plain = None \<longrightarrow> pl_seal pl plain' = None)"

definition restart :: "vault \<Rightarrow> vault" where
  "restart v = v\<lparr>va_cached := None\<rparr>"

lemma valid_hex_of [simp]: "length k = 32 \<Longrightarrow> valid_hex_key (hex_of k)"
  by (cases k) (simp_all add: valid_hex_key_def)

text \<open>The stored form is read back as the vector, the tag and the ciphertext.\<close>

lemma payload_parts:
  "split_on (CHR '':'') (hex_of iv @ '':'' @ hex_of tag @ '':'' @ hex_of ct) = [hex_of iv, hex_of tag, hex_of ct]"
  using split_on_snoc [OF colon_not_in_hex] by (simp add: colon_not_in_hex)

lemma decrypt_payload:
  assumes "iv \<noteq> []" "tag \<noteq> []" "ct \<noteq> []"
  shows "decryptWithMigration ci pl (ENCRYPTED_PAYLOAD_VERSION_PREFIX @ hex_of iv @ '':'' @ hex_of tag @ '':'' @ hex_of ct) v =
    decrypt_parts ci pl True (hex_of iv) (hex_of tag) (hex_of ct) v"
  using assms payload_parts [of iv tag ct]
  by (simp add: decryptWithMigration_def Let_def ENCRYPTED_PAYLOAD_VERSION_PREFIX_def)

lemma encryptWithKey_result:
  assumes "encryptWithKey ci pl key t v = (Inr payload, v1)"
  obtains tag ct where "ci_encrypt ci key (pl_random_iv pl (va_draws v)) t = Inr (tag, ct)" "v1 = draw v"
    "payload = ENCRYPTED_PAYLOAD_VERSION_PREFIX @ hex_of (pl_random_iv pl (va_draws v)) @ '':'' @ hex_of tag @ '':'' @ hex_of ct"
  using assms by (auto simp: encryptWithKey_def Let_def split: sum.splits)

lemma encrypted_parts:
  assumes "aead_laws ci" "platform_laws pl" "encryptWithKey ci pl key t v = (Inr payload, v1)" "t \<noteq> []"
  obtains iv tag ct where "ci_encrypt ci key iv t = Inr (tag, ct)" "v1 = draw v" "length key = 32"
    "\<And>pl w. decryptWithMigration ci pl payload w = decrypt_parts ci pl True (hex_of iv) (hex_of tag) (hex_of ct) w"
proof -
  define iv where "iv = pl_random_iv pl (va_draws v)"
  from encryptWithKey_result [OF assms(3)] obtain tag ct where e: "ci_encrypt ci key iv t = Inr (tag, ct)" "v1 = draw v"
    "payload = ENCRYPTED_PAYLOAD_VERSION_PREFIX @ hex_of iv @ '':'' @ hex_of tag @ '':'' @ hex_of ct"
    unfolding iv_def by metis
  have len: "length key = 32" using assms(1) e(1) unfolding aead_laws_def by (metis Inl_Inr_False)
  then have "tag \<noteq> []" "ct \<noteq> []" using assms(1,4) e(1) unfolding aead_laws_def by (metis prod.inject sum.inject(2))+
  moreover have "length iv = 16" using assms(2) by (simp add: platform_laws_def iv_def)
  then have "iv \<noteq> []" by auto
  ultimately show thesis using e len decrypt_payload by (intro that [of iv tag ct]) simp_all
qed

lemma decrypt_own:
  assumes "aead_laws ci" "ci_encrypt ci key iv t = Inr (tag, ct)" "getPrimaryMasterKey pl w = (Inr (key, source), w1)"
  shows "decrypt_parts ci pl True (hex_of iv) (hex_of tag) (hex_of ct) w =
    (Inr \<lparr>de_value = t, de_reencrypted = None, de_usedFallback = None\<rparr>, w1)"
proof -
  have "ci_decrypt ci key iv tag ct = Inr t" using assms(1,2) by (simp add: aead_laws_def)
  with assms(3) show ?thesis by (simp add: decrypt_parts_def decryptWithKey_def)
qed

subsection \<open>Keys are found again\<close>

lemma platform_lawsD:
  assumes "platform_laws pl"
  shows "length (pl_random_key pl n) = 32" "length (pl_random_iv pl n) = 16"
    "pl_seal pl plain = Some sealed \<Longrightarrow> pl_unseal pl sealed = Some plain"
    "pl_seal pl plain = None \<Longrightarrow> pl_seal pl plain' = None"
  using assms unfolding platform_laws_def by blast+

text \<open>Each stage returns the same key when it is asked again on the same file and keychain.\<close>

lemma readSafeStorageKey_file:
  assumes "va_file w = va_file v"
  shows "readSafeStorageKey pl w = readSafeStorageKey pl v"
  unfolding readSafeStorageKey_def assms ..

lemma safe_storage_creates:
  assumes "readSafeStorageKey pl v = Inr None" "getOrCreateSafeStorageKey pl v = (r, v1)"
  shows "r = Inr (key, created) \<Longrightarrow> key = pl_random_key pl (va_draws v) \<and> (\<exists>sealed. pl_seal pl (hex_of key) = Some sealed \<and> va_file v1 = Some sealed)"
    "r = Inl e \<Longrightarrow> va_file v1 = va_file v \<and> (pl_write_error pl \<noteq> None \<or> pl_seal pl (hex_of (pl_random_key pl (va_draws v))) = None)"
  using assms
  by (auto simp: getOrCreateSafeStorageKey_def atomicWriteFile_def Let_def draw_def split: option.splits)

lemma safe_storage_found: "readSafeStorageKey pl v = Inr (Some key) \<Longrightarrow> getOrCreateSafeStorageKey pl v = (Inr (key, False), v)"
  by (simp add: getOrCreateSafeStorageKey_def)

lemma safe_storage_again:
  assumes "platform_laws pl" "pl_encryption_available pl" "getOrCreateSafeStorageKey pl v = (Inr (key, created), v1)" "va_file w = va_file v1"
  shows "getOrCreateSafeStorageKey pl w = (Inr (key, False), w)"
proof (cases "readSafeStorageKey pl v")
  case (Inl e)
  with assms(3) show ?thesis by (simp add: getOrCreateSafeStorageKey_def)
next
  case (Inr k)
  have "readSafeStorageKey pl w = Inr (Some key)"
  proof (cases k)
    case None
    with safe_storage_creates(1) [OF _ assms(3) refl] Inr obtain sealed where
      f: "key = pl_random_key pl (va_draws v)" "pl_seal pl (hex_of key) = Some sealed" "va_file v1 = Some sealed" by auto
    have "pl_read_error pl = None" using Inr assms(2) by (simp add: readSafeStorageKey_def split: option.splits)
    with f assms(2,4) platform_lawsD(1,3) [OF assms(1)] show ?thesis by (simp add: readSafeStorageKey_def)
  next
    case (Some k')
    with safe_storage_found Inr assms(3) have "k' = key" "v1 = v" by (simp_all add: getOrCreateSafeStorageKey_def)
    with Some Inr readSafeStorageKey_file [of w v pl] assms(4) show ?thesis by simp
  qed
  then show ?thesis by (rule safe_storage_found)
qed

lemma safe_storage_fails_again:
  assumes "platform_laws pl" "getOrCreateSafeStorageKey pl v = (Inl e, v1)" "va_file v1 = None" "va_file w = None"
  shows "\<exists>e' w'. getOrCreateSafeStorageKey pl w = (Inl e', w') \<and> va_file w' = None \<and> va_keychain w' = va_keychain w"
proof -
  have read: "readSafeStorageKey pl w = readSafeStorageKey pl v"
  proof (cases "readSafeStorageKey pl v = Inr None")
    case True
    from safe_storage_creates(2) [OF True assms(2) refl] assms(3,4) show ?thesis by (intro readSafeStorageKey_file) simp
  next
    case False
    with assms(2) have "v1 = v" by (auto simp: getOrCreateSafeStorageKey_def split: sum.splits option.splits)
    with assms(3,4) show ?thesis by (intro readSafeStorageKey_file) simp
  qed
  show ?thesis
  proof (cases "readSafeStorageKey pl v = Inr None")
    case True
    from safe_storage_creates(2) [OF True assms(2) refl] platform_lawsD(4) [OF assms(1)] read True assms(4) show ?thesis
      by (auto simp: getOrCreateSafeStorageKey_def atomicWriteFile_def draw_def Let_def split: option.split)
  next
    case False
    with assms(2) read assms(4) show ?thesis by (auto simp: getOrCreateSafeStorageKey_def split: sum.splits option.splits)
  qed
qed

lemma safe_storage_keychain: "getOrCreateSafeStorageKey pl v = (r, v1) \<Longrightarrow> va_keychain v1 = va_keychain v \<and> va_cached v1 = va_cached v"
  by (auto simp: getOrCreateSafeStorageKey_def atomicWriteFile_def Let_def draw_def split: option.splits sum.splits prod.splits)

lemma keytar_again:
  assumes "platform_laws pl" "getOrCreateKeytarKey pl v = (Inr (Some (key, created)), v1)" "va_keychain w = va_keychain v1"
  shows "getOrCreateKeytarKey pl w = (Inr (Some (key, False)), w)"
proof -
  have "hex_of (pl_random_key pl n) \<noteq> []" for n using platform_lawsD(1) [OF assms(1), of n] by auto
  with assms(2,3) show ?thesis
    by (auto simp: getOrCreateKeytarKey_def Let_def draw_def split: if_splits)
qed

lemma keytar_fails_again:
  assumes "getOrCreateKeytarKey pl v = (r, v1)" "\<forall>kc. r \<noteq> Inr (Some kc)" "va_keychain w = va_keychain v1"
  shows "\<exists>r' w'. getOrCreateKeytarKey pl w = (r', w') \<and> (\<forall>kc. r' \<noteq> Inr (Some kc)) \<and> va_file w' = va_file w \<and> va_keychain w' = va_keychain w"
  using assms by (auto simp: getOrCreateKeytarKey_def Let_def draw_def split: if_splits)

lemma keytar_frame: "getOrCreateKeytarKey pl v = (r, v1) \<Longrightarrow> va_file v1 = va_file v \<and> va_cached v1 = va_cached v"
  by (auto simp: getOrCreateKeytarKey_def Let_def draw_def split: if_splits)

lemma file_again:
  assumes "platform_laws pl" "getOrCreateFileFallbackKey pl v = (Inr (key, created), v1)" "va_file w = va_file v1"
  shows "getOrCreateFileFallbackKey pl w = (Inr (key, False), w)"
  using assms(2,3) platform_lawsD(1) [OF assms(1)]
  by (auto simp: getOrCreateFileFallbackKey_def readFileFallbackKey_def atomicWriteFile_def Let_def draw_def
      split: option.splits if_splits sum.splits)

lemma file_keychain: "getOrCreateFileFallbackKey pl v = (r, v1) \<Longrightarrow> va_keychain v1 = va_keychain v"
  by (auto simp: getOrCreateFileFallbackKey_def atomicWriteFile_def Let_def draw_def split: option.splits sum.splits prod.splits)

lemma from_file_again:
  assumes "platform_laws pl" "key_from_file pl v = (Inr (key, source), v1)" "va_file w = va_file v1"
  shows "fst (key_from_file pl w) = Inr (key, source)"
proof -
  from assms(2) obtain c v2 where f: "getOrCreateFileFallbackKey pl v = (Inr (key, c), v2)" "source = FromFile" "va_file v1 = va_file v2"
    by (auto simp: key_from_file_def cacheMasterKey_def split: sum.splits prod.splits)
  from file_again [OF assms(1) f(1)] f assms(3) show ?thesis by (simp add: key_from_file_def)
qed

lemma from_keytar_again:
  assumes "platform_laws pl" "key_from_keytar pl v = (Inr (key, source), v1)" "va_file w = va_file v1" "va_keychain w = va_keychain v1"
  shows "fst (key_from_keytar pl w) = Inr (key, source)"
proof -
  obtain r v2 where k: "getOrCreateKeytarKey pl v = (r, v2)" by (metis prod.exhaust)
  show ?thesis
  proof (cases "\<exists>kc. r = Inr (Some kc)")
    case True
    then obtain k' c where r: "r = Inr (Some (k', c))" by auto
    with k assms(2) have eq: "k' = key" "source = FromKeytar" "v1 = cacheMasterKey key FromKeytar v2"
      by (auto simp: key_from_keytar_def)
    have "getOrCreateKeytarKey pl w = (Inr (Some (key, False)), w)"
      using keytar_again [OF assms(1) k [unfolded r eq(1)]] assms(4) eq(3) by (simp add: cacheMasterKey_def)
    with eq show ?thesis by (simp add: key_from_keytar_def)
  next
    case False
    then have "key_from_file pl v2 = (Inr (key, source), v1)"
      using assms(2) k by (auto simp: key_from_keytar_def split: sum.splits option.splits)
    moreover from this have "va_keychain v1 = va_keychain v2"
      using file_keychain by (auto simp: key_from_file_def cacheMasterKey_def split: sum.splits prod.splits)
    ultimately obtain r' w' where w: "getOrCreateKeytarKey pl w = (r', w')" "\<forall>kc. r' \<noteq> Inr (Some kc)" "va_file w' = va_file w"
      using keytar_fails_again [OF k, of w] False assms(4) by metis
    have "fst (key_from_file pl w') = Inr (key, source)"
      using from_file_again [OF assms(1) \<open>key_from_file pl v2 = _\<close>] w(3) assms(3) by simp
    with w(1,2) show ?thesis by (auto simp: key_from_keytar_def split: sum.splits option.splits)
  qed
qed

lemma key_cached:
  "getPrimaryMasterKey pl v = (Inr (key, source), v1) \<Longrightarrow> va_cached v1 = Some (key, source)"
  by (auto simp: getPrimaryMasterKey_def generatePrimaryMasterKey_def key_from_keytar_def key_from_file_def cacheMasterKey_def
      split: option.splits if_splits sum.splits prod.splits)

lemma key_cached_again: "va_cached v = Some ks \<Longrightarrow> getPrimaryMasterKey pl v = (Inr ks, v)"
  by (simp add: getPrimaryMasterKey_def)

lemma key_found_again:
  assumes "platform_laws pl" "getPrimaryMasterKey pl v = (Inr (key, source), v1)" "va_cached v = None"
    "\<not> (pl_encryption_available pl \<and> source = FromFile)" "va_file w = va_file v1" "va_keychain w = va_keychain v1"
    "va_cached w = None"
  shows "fst (getPrimaryMasterKey pl w) = Inr (key, source)"
proof (cases "pl_encryption_available pl")
  case False
  then have "key_from_keytar pl v = (Inr (key, source), v1)"
    using assms(2,3) by (simp add: getPrimaryMasterKey_def generatePrimaryMasterKey_def)
  from from_keytar_again [OF assms(1) this assms(5,6)] False assms(7) show ?thesis
    by (simp add: getPrimaryMasterKey_def generatePrimaryMasterKey_def)
next
  case True
  obtain r v2 where s: "getOrCreateSafeStorageKey pl v = (r, v2)" by (metis prod.exhaust)
  show ?thesis
  proof (cases r)
    case (Inr kc)
    obtain k c where kc: "kc = (k, c)" by (cases kc)
    have eq: "k = key" "source = FromSafeStorage" "va_file v1 = va_file v2"
      using assms(2,3) True s Inr kc by (auto simp: getPrimaryMasterKey_def generatePrimaryMasterKey_def cacheMasterKey_def)
    have "getOrCreateSafeStorageKey pl w = (Inr (key, False), w)"
      using safe_storage_again [OF assms(1) True s [unfolded Inr kc eq(1)]] assms(5) eq(3) by simp
    with True assms(7) eq(2) show ?thesis by (simp add: getPrimaryMasterKey_def generatePrimaryMasterKey_def)
  next
    case (Inl e)
    have n: "va_file v2 = None" and k: "key_from_keytar pl v2 = (Inr (key, source), v1)"
      using assms(2,3) True s Inl
      by (auto simp: getPrimaryMasterKey_def generatePrimaryMasterKey_def split: if_splits)
    have "source = FromKeytar" "va_file v1 = None"
      using k n assms(4) True keytar_frame
      by (auto simp: key_from_keytar_def key_from_file_def cacheMasterKey_def split: sum.splits option.splits prod.splits)
    then obtain e' w' where w: "getOrCreateSafeStorageKey pl w = (Inl e', w')" "va_file w' = None" "va_keychain w' = va_keychain w"
      using safe_storage_fails_again [OF assms(1) s [unfolded Inl] n, of w] assms(5) by auto
    have "fst (key_from_keytar pl w') = Inr (key, source)"
      using from_keytar_again [OF assms(1) k] w assms(5,6) \<open>va_file v1 = None\<close> by simp
    with w True assms(7) show ?thesis by (simp add: getPrimaryMasterKey_def generatePrimaryMasterKey_def)
  qed
qed

subsection \<open>The states of the program\<close>

text \<open>The program starts without a cached key, whatever the file and the keychain hold, and then encrypts and decrypts.\<close>

inductive vault_reachable :: "cipher \<Rightarrow> platform \<Rightarrow> vault \<Rightarrow> bool" for ci pl where
  start: "va_cached v = None \<Longrightarrow> vault_reachable ci pl v"
| encrypts: "vault_reachable ci pl v \<Longrightarrow> vault_reachable ci pl (snd (encrypt_text ci pl plain v))"
| decrypts: "vault_reachable ci pl v \<Longrightarrow> vault_reachable ci pl (snd (decryptWithMigration ci pl stored v))"

text \<open>A cached key is the one a restarted program finds, unless it was put into the plain file although safeStorage is there.\<close>

definition vault_ok :: "platform \<Rightarrow> vault \<Rightarrow> bool" where
  "vault_ok pl v \<longleftrightarrow>
     (\<forall>key source. va_cached v = Some (key, source) \<longrightarrow> (pl_encryption_available pl \<and> source = FromFile) \<or>
        (\<forall>w. va_file w = va_file v \<longrightarrow> va_keychain w = va_keychain v \<longrightarrow> va_cached w = None \<longrightarrow>
           fst (getPrimaryMasterKey pl w) = Inr (key, source)))"

definition same_keys :: "vault \<Rightarrow> vault \<Rightarrow> bool" where
  "same_keys v w \<longleftrightarrow> va_cached w = va_cached v \<and> va_file w = va_file v \<and> va_keychain w = va_keychain v"

lemma vault_ok_same: "vault_ok pl v \<Longrightarrow> same_keys v w \<Longrightarrow> vault_ok pl w"
  by (simp add: vault_ok_def same_keys_def)

lemma same_keys_refl [simp]: "same_keys v v" "same_keys v (draw w) = same_keys v w"
  by (simp_all add: same_keys_def draw_def)

lemma same_keys_trans: "same_keys u v \<Longrightarrow> same_keys v w \<Longrightarrow> same_keys u w"
  by (simp add: same_keys_def)

lemma encryptWithKey_keeps: "same_keys u v \<Longrightarrow> same_keys u (snd (encryptWithKey ci pl key t v))"
  by (simp add: encryptWithKey_def Let_def split: sum.split prod.split)

lemma encryptWithKey_same: "encryptWithKey ci pl key t v = (r, w) \<Longrightarrow> same_keys u v \<Longrightarrow> same_keys u w"
  using encryptWithKey_keeps [of u v ci pl key t] by simp

lemma try_fallbacks_keeps: "same_keys u v \<Longrightarrow> same_keys u (snd (try_fallbacks ci pl primary a b c keys v))"
proof (induction ci pl primary a b c keys v rule: try_fallbacks.induct)
  case (2 ci pl primary a b c key source rest v)
  then show ?case by (auto intro: encryptWithKey_same split: sum.split prod.split)
qed simp

lemma decrypt_failed_keeps: "same_keys u v \<Longrightarrow> same_keys u (snd (decrypt_failed ci pl primary e a b c v))"
  by (simp add: decrypt_failed_def try_fallbacks_keeps split: sum.split)

lemma key_not_cached:
  "getPrimaryMasterKey pl v = (Inl e, v1) \<Longrightarrow> va_cached v1 = None"
  by (auto simp: getPrimaryMasterKey_def generatePrimaryMasterKey_def key_from_keytar_def key_from_file_def
      getOrCreateFileFallbackKey_def atomicWriteFile_def Let_def draw_def dest!: keytar_frame safe_storage_keychain
      split: option.splits if_splits sum.splits prod.splits)

lemma vault_ok_primary:
  assumes "platform_laws pl" "vault_ok pl v"
  shows "vault_ok pl (snd (getPrimaryMasterKey pl v))"
proof (cases "va_cached v")
  case (Some ks)
  with assms(2) show ?thesis by (simp add: key_cached_again)
next
  case None
  obtain r v1 where p: "getPrimaryMasterKey pl v = (r, v1)" by (metis prod.exhaust)
  show ?thesis
  proof (cases r)
    case (Inl e)
    with p key_not_cached show ?thesis by (simp add: vault_ok_def)
  next
    case (Inr ks)
    obtain key source where ks: "ks = (key, source)" by (cases ks)
    have c: "va_cached v1 = Some (key, source)" using key_cached p Inr ks by blast
    show ?thesis
      unfolding vault_ok_def p snd_conv c
      using key_found_again [OF assms(1) p [unfolded Inr ks] None] by auto
  qed
qed

lemma encrypt_keys: "same_keys (snd (getPrimaryMasterKey pl v)) (snd (encrypt_text ci pl plain v))"
proof -
  obtain r v1 where p: "getPrimaryMasterKey pl v = (r, v1)" by (metis prod.exhaust)
  show ?thesis
  proof (cases r)
    case (Inl e)
    then show ?thesis using p by (cases e) (simp_all add: encrypt_text_def)
  next
    case (Inr ks)
    then show ?thesis using p encryptWithKey_keeps [of v1 v1 ci pl "fst ks" plain]
      by (cases ks) (auto simp: encrypt_text_def split: sum.split prod.split)
  qed
qed

lemma decrypt_parts_keys: "same_keys (snd (getPrimaryMasterKey pl v)) (snd (decrypt_parts ci pl b x y z v))"
proof -
  obtain r v1 where p: "getPrimaryMasterKey pl v = (r, v1)" by (metis prod.exhaust)
  show ?thesis
    using p by (auto simp: decrypt_parts_def intro!: decrypt_failed_keeps elim: encryptWithKey_same split: sum.split prod.split)
qed

lemma decrypt_keys:
  "same_keys v (snd (decryptWithMigration ci pl stored v)) \<or>
   same_keys (snd (getPrimaryMasterKey pl v)) (snd (decryptWithMigration ci pl stored v))"
  by (simp add: decryptWithMigration_def Let_def decrypt_parts_keys split: list.split)

lemma vault_reachable_ok: "vault_reachable ci pl v \<Longrightarrow> platform_laws pl \<Longrightarrow> vault_ok pl v"
proof (induction rule: vault_reachable.induct)
  case (start v)
  then show ?case by (simp add: vault_ok_def)
next
  case (encrypts v plain)
  then show ?case using vault_ok_same [OF vault_ok_primary encrypt_keys] by blast
next
  case (decrypts v stored)
  then show ?case using decrypt_keys [of v ci pl stored] vault_ok_same vault_ok_primary by metis
qed

text \<open>The cached key is in the store it came from.\<close>

definition key_stored :: "platform \<Rightarrow> vault \<Rightarrow> octets \<times> key_source \<Rightarrow> bool" where
  "key_stored pl v ks =
     (case snd ks of
        FromSafeStorage \<Rightarrow> pl_encryption_available pl \<and> readSafeStorageKey pl v = Inr (Some (fst ks))
      | FromKeytar \<Rightarrow> (\<exists>h. va_keychain v = Some h \<and> h \<noteq> [] \<and> bytes_of_hex h = fst ks)
      | FromFile \<Rightarrow> readFileFallbackKey pl v = Inr (Some (fst ks)))"

lemma readFileFallbackKey_file:
  assumes "va_file w = va_file v"
  shows "readFileFallbackKey pl w = readFileFallbackKey pl v"
  unfolding readFileFallbackKey_def assms ..

lemma key_stored_same: "key_stored pl v ks \<Longrightarrow> va_file w = va_file v \<Longrightarrow> va_keychain w = va_keychain v \<Longrightarrow> key_stored pl w ks"
  using readSafeStorageKey_file [of w v pl] readFileFallbackKey_file [of w v pl] by (cases "snd ks") (simp_all add: key_stored_def)

lemma from_file_stored: "platform_laws pl \<Longrightarrow> key_from_file pl v = (Inr ks, v1) \<Longrightarrow> key_stored pl v1 ks"
proof -
  assume l: "platform_laws pl" and k: "key_from_file pl v = (Inr ks, v1)"
  then obtain key c v2 where f: "getOrCreateFileFallbackKey pl v = (Inr (key, c), v2)" "ks = (key, FromFile)" "va_file v1 = va_file v2"
    by (auto simp: key_from_file_def cacheMasterKey_def split: sum.splits prod.splits)
  from file_again [OF l f(1) f(3)] have "readFileFallbackKey pl v1 = Inr (Some key)"
    by (auto simp: getOrCreateFileFallbackKey_def Let_def split: sum.splits option.splits prod.splits)
  with f(2) show ?thesis by (simp add: key_stored_def)
qed

lemma from_keytar_stored: "platform_laws pl \<Longrightarrow> key_from_keytar pl v = (Inr ks, v1) \<Longrightarrow> key_stored pl v1 ks"
proof -
  assume l: "platform_laws pl" and k: "key_from_keytar pl v = (Inr ks, v1)"
  obtain r v2 where t: "getOrCreateKeytarKey pl v = (r, v2)" by (metis prod.exhaust)
  show ?thesis
  proof (cases "\<exists>kc. r = Inr (Some kc)")
    case True
    then obtain key c where r: "r = Inr (Some (key, c))" by auto
    with k t have eq: "ks = (key, FromKeytar)" "va_keychain v1 = va_keychain v2" by (auto simp: key_from_keytar_def cacheMasterKey_def)
    have "getOrCreateKeytarKey pl v1 = (Inr (Some (key, False)), v1)" by (rule keytar_again [OF l t [unfolded r] eq(2)])
    with eq(1) show ?thesis
      by (auto simp: key_stored_def getOrCreateKeytarKey_def str_truthy_def Let_def split: if_splits option.splits)
  next
    case False
    then have "key_from_file pl v2 = (Inr ks, v1)"
      using k t by (auto simp: key_from_keytar_def split: sum.splits option.splits)
    with l show ?thesis by (rule from_file_stored)
  qed
qed

lemma primary_stored:
  assumes "platform_laws pl" "getPrimaryMasterKey pl v = (Inr ks, v1)" "va_cached v = None"
  shows "key_stored pl v1 ks"
proof (cases "key_from_keytar pl v = (Inr ks, v1) \<or> (\<exists>v2. key_from_keytar pl v2 = (Inr ks, v1))")
  case True
  with from_keytar_stored [OF assms(1)] show ?thesis by blast
next
  case False
  with assms(2,3) obtain key c v2 where s: "pl_encryption_available pl" "getOrCreateSafeStorageKey pl v = (Inr (key, c), v2)"
      "ks = (key, FromSafeStorage)" "va_file v1 = va_file v2"
    by (auto simp: getPrimaryMasterKey_def generatePrimaryMasterKey_def cacheMasterKey_def split: if_splits sum.splits prod.splits)
  from safe_storage_again [OF assms(1) s(1,2,4)] have "readSafeStorageKey pl v1 = Inr (Some key)"
    by (auto simp: getOrCreateSafeStorageKey_def Let_def split: sum.splits option.splits prod.splits)
  with s show ?thesis by (simp add: key_stored_def)
qed

definition keys_stored :: "platform \<Rightarrow> vault \<Rightarrow> bool" where
  "keys_stored pl v \<longleftrightarrow> (\<forall>ks. va_cached v = Some ks \<longrightarrow> key_stored pl v ks)"

lemma keys_stored_same: "keys_stored pl v \<Longrightarrow> same_keys v w \<Longrightarrow> keys_stored pl w"
  unfolding keys_stored_def same_keys_def by (metis key_stored_same)

lemma keys_stored_primary:
  assumes "platform_laws pl" "keys_stored pl v"
  shows "keys_stored pl (snd (getPrimaryMasterKey pl v))"
proof (cases "va_cached v")
  case (Some ks)
  with assms(2) show ?thesis by (simp add: key_cached_again)
next
  case None
  obtain r v1 where p: "getPrimaryMasterKey pl v = (r, v1)" by (metis prod.exhaust)
  show ?thesis
  proof (cases r)
    case (Inl e)
    with p key_not_cached show ?thesis by (simp add: keys_stored_def)
  next
    case (Inr ks)
    have "key_stored pl v1 ks" using primary_stored [OF assms(1) p [unfolded Inr] None] .
    moreover have "va_cached v1 = Some ks" using key_cached [of pl v "fst ks" "snd ks" v1] p Inr by simp
    ultimately show ?thesis using p by (simp add: keys_stored_def)
  qed
qed

lemma vault_reachable_stored: "vault_reachable ci pl v \<Longrightarrow> platform_laws pl \<Longrightarrow> keys_stored pl v"
proof (induction rule: vault_reachable.induct)
  case (start v)
  then show ?case by (simp add: keys_stored_def)
next
  case (encrypts v plain)
  then show ?case using keys_stored_same [OF keys_stored_primary encrypt_keys] by blast
next
  case (decrypts v stored)
  then show ?case using decrypt_keys [of v ci pl stored] keys_stored_same keys_stored_primary by metis
qed

text \<open>
  What a restart leaves of the platform. The store that holds the key answers as it did and no better one has come up:
  safeStorage unseals the same for a key it sealed; the keychain can be read and safeStorage is not there for a key of the
  keychain; neither is there for a key of the plain file. Everything else may differ: what can be written, the random
  draws, the path of the program. Or the platform is the same as before, unless a key was put into the plain file
  although safeStorage was there.
\<close>

definition key_survives :: "platform \<Rightarrow> platform \<Rightarrow> key_source \<Rightarrow> bool" where
  "key_survives pl pl2 source \<longleftrightarrow>
     (pl2 = pl \<and> \<not> (pl_encryption_available pl \<and> source = FromFile)) \<or>
     (case source of
        FromSafeStorage \<Rightarrow> pl_encryption_available pl2 \<and> pl_unseal pl2 = pl_unseal pl \<and> pl_read_error pl2 = None
      | FromKeytar \<Rightarrow> \<not> pl_encryption_available pl2 \<and> pl_keytar_works pl2 \<and> \<not> pl_get_password_fails pl2
      | FromFile \<Rightarrow> \<not> pl_encryption_available pl2 \<and> (\<not> pl_keytar_works pl2 \<or> pl_get_password_fails pl2) \<and> pl_read_error pl2 = None)"

lemma key_of_other_platform:
  assumes "key_stored pl w (key, source)" "va_cached w = None" "key_survives pl pl2 source" "pl2 \<noteq> pl"
  shows "fst (getPrimaryMasterKey pl2 w) = Inr (key, source)"
proof (cases source)
  case FromSafeStorage
  with assms(1,3,4) have a: "pl_encryption_available pl2" "pl_unseal pl2 = pl_unseal pl" "pl_read_error pl2 = None"
      "pl_encryption_available pl" "readSafeStorageKey pl w = Inr (Some key)"
    by (auto simp: key_survives_def key_stored_def)
  then have "readSafeStorageKey pl2 w = Inr (Some key)" by (auto simp: readSafeStorageKey_def split: option.splits)
  from safe_storage_found [OF this] a(1) assms(2) FromSafeStorage show ?thesis
    by (simp add: getPrimaryMasterKey_def generatePrimaryMasterKey_def)
next
  case FromKeytar
  with assms show ?thesis
    by (auto simp: key_survives_def key_stored_def getPrimaryMasterKey_def generatePrimaryMasterKey_def key_from_keytar_def
        getOrCreateKeytarKey_def str_truthy_def)
next
  case FromFile
  with assms(1,3,4) have a: "\<not> pl_encryption_available pl2" "\<not> pl_keytar_works pl2 \<or> pl_get_password_fails pl2" "pl_read_error pl2 = None"
      "readFileFallbackKey pl w = Inr (Some key)"
    by (auto simp: key_survives_def key_stored_def)
  then have "readFileFallbackKey pl2 w = Inr (Some key)" by (auto simp: readFileFallbackKey_def split: option.splits)
  then have "getOrCreateFileFallbackKey pl2 w = (Inr (key, False), w)" by (simp add: getOrCreateFileFallbackKey_def)
  with a(1,2) assms(2) FromFile show ?thesis
    by (auto simp: getPrimaryMasterKey_def generatePrimaryMasterKey_def key_from_keytar_def key_from_file_def getOrCreateKeytarKey_def)
qed

lemma key_after_restart:
  assumes "platform_laws pl" "vault_reachable ci pl v" "va_cached v = Some (key, source)" "key_survives pl pl2 source"
  obtains w where "getPrimaryMasterKey pl2 (restart v) = (Inr (key, source), w)"
proof -
  have r: "va_file (restart v) = va_file v" "va_keychain (restart v) = va_keychain v" "va_cached (restart v) = None"
    by (simp_all add: restart_def)
  have "fst (getPrimaryMasterKey pl2 (restart v)) = Inr (key, source)"
  proof (cases "pl2 = pl \<and> \<not> (pl_encryption_available pl \<and> source = FromFile)")
    case True
    with vault_reachable_ok [OF assms(2,1)] assms(3) r show ?thesis by (auto simp: vault_ok_def)
  next
    case False
    have "key_stored pl (restart v) (key, source)"
      using vault_reachable_stored [OF assms(2,1)] assms(3) r key_stored_same by (auto simp: keys_stored_def)
    with r(3) assms(4) False show ?thesis
      using key_of_other_platform [of pl "restart v" key source pl2] by (cases "pl2 = pl") (auto simp: key_survives_def split: key_source.splits)
  qed
  then show thesis using that by (metis prod.collapse)
qed

text \<open>C16: What was encrypted is read back unchanged, without migration, in the same run of the program, and after any restart
  at which the store that holds the key still answers and no better store has come up (\<open>key_survives\<close>), whatever else has
  changed; for a text that is not empty.\<close>

theorem stored_data_survives_restart:
  assumes "aead_laws ci" "platform_laws pl" "vault_reachable ci pl v" "encrypt_text ci pl plain v = (Inr payload, v1)" "plain \<noteq> []"
  shows "fst (decryptWithMigration ci pl payload v1) = Inr \<lparr>de_value = plain, de_reencrypted = None, de_usedFallback = None\<rparr> \<and>
    (\<exists>key source. va_cached v1 = Some (key, source) \<and>
       (\<forall>pl2. key_survives pl pl2 source \<longrightarrow>
          fst (decryptWithMigration ci pl2 payload (restart v1)) =
            Inr \<lparr>de_value = plain, de_reencrypted = None, de_usedFallback = None\<rparr>))"
proof -
  obtain r v0 where p: "getPrimaryMasterKey pl v = (r, v0)" by (metis prod.exhaust)
  with assms(4) obtain key source where r: "r = Inr (key, source)"
    by (cases r) (auto simp: encrypt_text_def split: sec_error.splits)
  have e: "encryptWithKey ci pl key plain v0 = (Inr payload, v1)"
    using assms(4) p r by (auto simp: encrypt_text_def split: sum.splits prod.splits)
  obtain iv tag ct where d: "ci_encrypt ci key iv plain = Inr (tag, ct)" "v1 = draw v0"
    "\<And>pl w. decryptWithMigration ci pl payload w = decrypt_parts ci pl True (hex_of iv) (hex_of tag) (hex_of ct) w"
    by (rule encrypted_parts [OF assms(1,2) e assms(5)], rule that, assumption+)
  have c: "va_cached v1 = Some (key, source)" using key_cached [OF p [unfolded r]] d(2) by (simp add: draw_def)
  have reach: "vault_reachable ci pl v1" using vault_reachable.encrypts [OF assms(3), of plain] assms(4) by simp
  have "fst (decryptWithMigration ci pl2 payload (restart v1)) = Inr \<lparr>de_value = plain, de_reencrypted = None, de_usedFallback = None\<rparr>"
    if k: "key_survives pl pl2 source" for pl2
  proof -
    obtain w where "getPrimaryMasterKey pl2 (restart v1) = (Inr (key, source), w)"
      by (rule key_after_restart [OF assms(2) reach c k])
    then show ?thesis by (simp add: d(3) decrypt_own [OF assms(1) d(1)])
  qed
  then show ?thesis using c by (simp add: d(3) decrypt_own [OF assms(1) d(1) key_cached_again [OF c]])
qed

subsection \<open>Migration between keys\<close>

lemma encrypt_total:
  assumes "aead_laws ci" "length key = 32"
  shows "\<exists>payload. encryptWithKey ci pl key t v = (Inr payload, draw v)"
proof -
  obtain tag ct where "ci_encrypt ci key (pl_random_iv pl (va_draws v)) t = Inr (tag, ct)"
    using assms unfolding aead_laws_def by metis
  then show ?thesis by (simp add: encryptWithKey_def Let_def)
qed

lemma wrong_key:
  assumes "aead_laws ci" "ci_encrypt ci old iv t = Inr (tag, ct)" "length k = 32" "k \<noteq> old"
  shows "decryptWithKey ci k (hex_of iv) (hex_of tag) (hex_of ct) = Inl ''Unsupported state or unable to authenticate data''"
  using assms by (simp add: aead_laws_def decryptWithKey_def)

lemma right_key:
  assumes "aead_laws ci" "ci_encrypt ci old iv t = Inr (tag, ct)"
  shows "decryptWithKey ci old (hex_of iv) (hex_of tag) (hex_of ct) = Inr t"
  using assms by (simp add: aead_laws_def decryptWithKey_def)

lemma auth_refused:
  "isAuthTagMismatchError ''Unsupported state or unable to authenticate data''"
  "\<not> str_contains ''Unsupported state or unable to authenticate data'' ''Invalid key length''"
  "\<not> str_contains ''Unsupported state or unable to authenticate data'' ''Invalid IV length''"
  by (simp_all add: isAuthTagMismatchError_def js_lower_def lower_char_def)

lemma try_fallbacks_result:
  assumes "aead_laws ci" "ci_encrypt ci old iv t = Inr (tag, ct)" "\<forall>(k, s)\<in>set keys. length k = 32"
    "encryptWithKey ci pl primary t v = (Inr payload, v')"
  shows "try_fallbacks ci pl primary (hex_of iv) (hex_of tag) (hex_of ct) keys v =
    (case find (\<lambda>(k, s). k = old) keys of
       None \<Rightarrow> (Inl DataMigrationFailed, v)
     | Some (k, s) \<Rightarrow> (Inr \<lparr>de_value = t, de_reencrypted = Some payload, de_usedFallback = Some s\<rparr>, v'))"
  using assms(3)
proof (induction keys)
  case (Cons ks keys)
  obtain k s where ks: "ks = (k, s)" by (cases ks)
  show ?case
  proof (cases "k = old")
    case True
    with ks assms(4) right_key [OF assms(1,2)] show ?thesis by simp
  next
    case False
    with ks wrong_key [OF assms(1,2) _ False] Cons show ?thesis by simp
  qed
qed simp

text \<open>Data encrypted under another key is migrated: when one of the fallback sources still has its key, the text is
  returned with a new form that is decrypted without migration from then on, and the first such source is named; when none
  has it, the failure asks for a new login, and nothing is changed.\<close>

theorem old_data_is_migrated:
  assumes "aead_laws ci" "platform_laws pl" "encryptWithKey ci pl old plain v0 = (Inr payload, v1)" "plain \<noteq> []"
    "va_cached v = Some (primary, source)" "length primary = 32" "primary \<noteq> old"
    "getFallbackMasterKeys pl source v = Inr keys" "\<forall>(k, s)\<in>set keys. length k = 32"
  shows "case decryptWithMigration ci pl payload v of
      (Inl e, v') \<Rightarrow> e = DataMigrationFailed \<and> v' = v \<and> old \<notin> fst ` set keys
    | (Inr d, v') \<Rightarrow> de_value d = plain \<and> same_keys v v' \<and>
        (\<exists>s. find (\<lambda>(k, s). k = old) keys = Some (old, s) \<and> de_usedFallback d = Some s) \<and>
        (\<exists>payload'. de_reencrypted d = Some payload' \<and>
           decryptWithMigration ci pl payload' v' = (Inr \<lparr>de_value = plain, de_reencrypted = None, de_usedFallback = None\<rparr>, v'))"
proof -
  obtain iv tag ct where e: "ci_encrypt ci old iv plain = Inr (tag, ct)"
    "\<And>w. decryptWithMigration ci pl payload w = decrypt_parts ci pl True (hex_of iv) (hex_of tag) (hex_of ct) w"
    by (rule encrypted_parts [OF assms(1-4)], rule that, assumption+)
  obtain payload' where p': "encryptWithKey ci pl primary plain v = (Inr payload', draw v)"
    using encrypt_total [OF assms(1,6)] by blast
  obtain iv' tag' ct' where e': "ci_encrypt ci primary iv' plain = Inr (tag', ct')"
    "\<And>w. decryptWithMigration ci pl payload' w = decrypt_parts ci pl True (hex_of iv') (hex_of tag') (hex_of ct') w"
    by (rule encrypted_parts [OF assms(1,2) p' assms(4)], rule that, assumption+)
  have r: "decryptWithMigration ci pl payload v =
      (case find (\<lambda>(k, s). k = old) keys of
         None \<Rightarrow> (Inl DataMigrationFailed, v)
       | Some (k, s) \<Rightarrow> (Inr \<lparr>de_value = plain, de_reencrypted = Some payload', de_usedFallback = Some s\<rparr>, draw v))"
  proof -
    have "decrypt_parts ci pl True (hex_of iv) (hex_of tag) (hex_of ct) v =
        try_fallbacks ci pl primary (hex_of iv) (hex_of tag) (hex_of ct) keys v"
      using wrong_key [OF assms(1) e(1) assms(6,7)] auth_refused assms(8)
      by (simp add: decrypt_parts_def key_cached_again [OF assms(5)] decrypt_failed_def)
    with e(2) show ?thesis by (simp only: try_fallbacks_result [OF assms(1) e(1) assms(9) p'])
  qed
  have again: "decryptWithMigration ci pl payload' (draw v) = (Inr \<lparr>de_value = plain, de_reencrypted = None, de_usedFallback = None\<rparr>, draw v)"
    unfolding e'(2) using decrypt_own [OF assms(1) e'(1) key_cached_again, of "draw v" source] assms(5) by (simp add: draw_def)
  show ?thesis
  proof (cases "find (\<lambda>(k, s). k = old) keys")
    case None
    then have "old \<notin> fst ` set keys" by (auto simp: find_None_iff)
    then show ?thesis unfolding r None by simp
  next
    case (Some ks)
    then have "fst ks = old" by (auto simp: find_Some_iff)
    then obtain s where "ks = (old, s)" by (cases ks) auto
    then show ?thesis unfolding r Some using again by simp
  qed
qed

subsection \<open>The laws can hold\<close>

definition sample_cipher :: cipher where
  "sample_cipher =
     \<lparr>ci_encrypt = (\<lambda>k iv t. if length k = 32 then Inr (1 # k, map (\<lambda>c. of_nat (of_char c)) t) else Inl ''Invalid key length''),
      ci_decrypt = (\<lambda>k iv tag ct. if tag = 1 # k then Inr (map (\<lambda>b. char_of (unat b)) ct)
        else Inl ''Unsupported state or unable to authenticate data'')\<rparr>"

definition sample_platform :: "bool \<Rightarrow> platform" where
  "sample_platform available =
     \<lparr>pl_encryption_available = available, pl_seal = (\<lambda>plain. Some (''v10'' @ plain)),
      pl_unseal = (\<lambda>sealed. if starts_with sealed ''v10'' then Some (drop 3 sealed) else None),
      pl_keytar_works = available, pl_get_password_fails = False, pl_set_password_fails = False, pl_read_error = None,
      pl_write_error = None, pl_random_key = (\<lambda>n. replicate 32 (of_nat n)), pl_random_iv = (\<lambda>n. replicate 16 (of_nat n)),
      pl_darwin = False, pl_app_path = []\<rparr>"

lemma sample_cipher_laws: "aead_laws sample_cipher"
proof -
  have "char_of (unat (of_nat (of_char c) :: 8 word)) = c" for c
    by (simp add: unat_of_nat)
  then show ?thesis by (auto simp: aead_laws_def sample_cipher_def comp_def)
qed

lemma sample_platform_laws: "platform_laws (sample_platform b)"
  by (simp add: platform_laws_def sample_platform_def)

definition sample_vault :: vault where
  "sample_vault = \<lparr>va_cached = None, va_file = None, va_keychain = Some (hex_of (replicate 32 1)), va_draws = 0\<rparr>"

lemma sample_key:
  "\<exists>v. getPrimaryMasterKey (sample_platform True) sample_vault = (Inr (replicate 32 0, FromSafeStorage), v) \<and>
     va_keychain v = va_keychain sample_vault \<and> va_file v = Some (''v10'' @ hex_of (replicate 32 0))"
  by (simp add: getPrimaryMasterKey_def generatePrimaryMasterKey_def sample_vault_def sample_platform_def
      getOrCreateSafeStorageKey_def readSafeStorageKey_def atomicWriteFile_def draw_def cacheMasterKey_def Let_def)

text \<open>The same platform, but nothing can be written any more and other numbers are drawn.\<close>

definition later_platform :: platform where
  "later_platform = (sample_platform True)\<lparr>pl_keytar_works := False, pl_write_error := Some ''ENOSPC'', pl_random_key := (\<lambda>n. replicate 32 7)\<rparr>"

lemma stored_data_survives_restart_witness:
  "\<exists>payload v1. encrypt_text sample_cipher (sample_platform True) ''secret'' sample_vault = (Inr payload, v1) \<and>
     fst (decryptWithMigration sample_cipher later_platform payload (restart v1)) =
       Inr \<lparr>de_value = ''secret'', de_reencrypted = None, de_usedFallback = None\<rparr>"
proof -
  obtain v where v: "getPrimaryMasterKey (sample_platform True) sample_vault = (Inr (replicate 32 0, FromSafeStorage), v)"
    using sample_key by blast
  obtain payload where p: "encryptWithKey sample_cipher (sample_platform True) (replicate 32 0) ''secret'' v = (Inr payload, draw v)"
    using encrypt_total [OF sample_cipher_laws] by (metis length_replicate)
  have e: "encrypt_text sample_cipher (sample_platform True) ''secret'' sample_vault = (Inr payload, draw v)"
    using v p by (simp add: encrypt_text_def)
  have "va_cached (draw v) = Some (replicate 32 0, FromSafeStorage)" using key_cached [OF v] by (simp add: draw_def)
  moreover have "vault_reachable sample_cipher (sample_platform True) sample_vault"
    by (rule vault_reachable.start) (simp add: sample_vault_def)
  moreover have "key_survives (sample_platform True) later_platform FromSafeStorage"
    by (simp add: key_survives_def later_platform_def sample_platform_def)
  ultimately show ?thesis
    using stored_data_survives_restart [OF sample_cipher_laws sample_platform_laws _ e] e by auto
qed

lemma old_data_is_migrated_witness:
  "\<exists>payload v. case decryptWithMigration sample_cipher (sample_platform True) payload v of
      (Inl e, v') \<Rightarrow> False
    | (Inr d, v') \<Rightarrow> de_value d = ''secret'' \<and> de_usedFallback d = Some FromKeytar"
proof -
  obtain v where v: "getPrimaryMasterKey (sample_platform True) sample_vault = (Inr (replicate 32 0, FromSafeStorage), v)"
    "va_keychain v = va_keychain sample_vault" "va_file v = Some (''v10'' @ hex_of (replicate 32 0))"
    using sample_key by blast
  obtain payload where p: "encryptWithKey sample_cipher (sample_platform True) (replicate 32 1) ''secret'' v = (Inr payload, draw v)"
    using encrypt_total [OF sample_cipher_laws] by (metis length_replicate)
  have "\<not> valid_hex_key (''v10'' @ hex_of (replicate 32 0))" by (simp add: valid_hex_key_def)
  then have k: "getFallbackMasterKeys (sample_platform True) FromSafeStorage v = Inr [(replicate 32 1, FromKeytar)]"
    using v(2,3) by (simp add: getFallbackMasterKeys_def fallback_key_def readKeytarKey_def readFileFallbackKey_def
        sample_platform_def sample_vault_def)
  have ne: "(replicate 32 0 :: octets) \<noteq> replicate 32 1" by (simp add: replicate_eq_replicate)
  have "case decryptWithMigration sample_cipher (sample_platform True) payload v of
      (Inl e, v') \<Rightarrow> e = DataMigrationFailed \<and> v' = v \<and> replicate 32 1 \<notin> fst ` set [(replicate 32 1 :: octets, FromKeytar)]
    | (Inr d, v') \<Rightarrow> de_value d = ''secret'' \<and> same_keys v v' \<and>
        (\<exists>s. find (\<lambda>(k, s). k = replicate 32 1) [(replicate 32 1 :: octets, FromKeytar)] = Some (replicate 32 1, s) \<and> de_usedFallback d = Some s) \<and>
        (\<exists>payload'. de_reencrypted d = Some payload' \<and>
           decryptWithMigration sample_cipher (sample_platform True) payload' v' = (Inr \<lparr>de_value = ''secret'', de_reencrypted = None, de_usedFallback = None\<rparr>, v'))"
    by (rule old_data_is_migrated [OF sample_cipher_laws sample_platform_laws p _ key_cached [OF v(1)] _ ne k]) simp_all
  then show ?thesis
    by (intro exI [of _ payload] exI [of _ v]) (auto split: prod.splits sum.splits)
qed

subsection \<open>Keys are not destroyed\<close>

lemma safe_storage_file:
  assumes "getOrCreateSafeStorageKey pl v = (r, v1)" "va_file v = Some content" "va_file v1 \<noteq> Some content" "pl_encryption_available pl"
  shows "\<exists>hexKey. pl_unseal pl content = Some hexKey \<and> \<not> valid_hex_key hexKey"
proof (cases "readSafeStorageKey pl v")
  case (Inl e)
  with assms(1,2,3) show ?thesis by (simp add: getOrCreateSafeStorageKey_def)
next
  case (Inr k)
  show ?thesis
  proof (cases k)
    case None
    with Inr assms(2,4) show ?thesis by (auto simp: readSafeStorageKey_def split: option.splits if_splits)
  next
    case (Some key)
    with Inr assms(1,2,3) show ?thesis by (simp add: getOrCreateSafeStorageKey_def)
  qed
qed

lemma plain_file:
  "getOrCreateFileFallbackKey pl v = (r, v1) \<Longrightarrow> va_file v = Some content \<Longrightarrow> valid_hex_key content \<Longrightarrow> va_file v1 = Some content"
  by (auto simp: getOrCreateFileFallbackKey_def readFileFallbackKey_def split: option.splits)

lemma keytar_stage_file:
  assumes "va_file v = Some content" "va_file (snd (key_from_keytar pl v)) \<noteq> Some content"
  shows "\<not> valid_hex_key content \<and> (\<forall>kc v'. getOrCreateKeytarKey pl v \<noteq> (Inr (Some kc), v'))"
proof -
  obtain r v1 where k: "getOrCreateKeytarKey pl v = (r, v1)" by (metis prod.exhaust)
  have f: "va_file v1 = Some content" using keytar_frame [OF k] assms(1) by simp
  have none: "r \<noteq> Inr (Some kc)" for kc
    using assms(2) k f by (cases kc) (auto simp: key_from_keytar_def cacheMasterKey_def)
  then have "va_file (snd (key_from_file pl v1)) \<noteq> Some content"
    using assms(2) k by (auto simp: key_from_keytar_def split: sum.splits option.splits)
  then have "\<not> valid_hex_key content"
    using plain_file [OF _ f] by (auto simp: key_from_file_def cacheMasterKey_def split: sum.splits prod.splits)
  with none k show ?thesis by simp
qed

text \<open>Asking for the master key changes the key file only when the file is missing, when safeStorage unseals it to
  something that is no key, or when safeStorage is not there, the keychain gives no key and the file is no plain key; an
  entry of the keychain is never changed.\<close>

theorem key_file_is_kept:
  assumes "va_file v = Some content" "va_file (snd (getPrimaryMasterKey pl v)) \<noteq> Some content"
  shows "if pl_encryption_available pl then \<exists>hexKey. pl_unseal pl content = Some hexKey \<and> \<not> valid_hex_key hexKey
    else \<not> valid_hex_key content \<and> (\<forall>kc v'. getOrCreateKeytarKey pl v \<noteq> (Inr (Some kc), v'))"
proof -
  have n: "va_cached v = None" using assms by (cases "va_cached v") (auto simp: key_cached_again)
  show ?thesis
  proof (cases "pl_encryption_available pl")
    case False
    with n assms keytar_stage_file show ?thesis by (simp add: getPrimaryMasterKey_def generatePrimaryMasterKey_def)
  next
    case True
    obtain r v1 where s: "getOrCreateSafeStorageKey pl v = (r, v1)" by (metis prod.exhaust)
    have "va_file v1 \<noteq> Some content"
    proof (cases r)
      case (Inl e)
      show ?thesis
      proof
        assume "va_file v1 = Some content"
        with assms(2) n True s Inl show False by (simp add: getPrimaryMasterKey_def generatePrimaryMasterKey_def)
      qed
    next
      case (Inr kc)
      then show ?thesis using assms(2) n True s
        by (cases kc) (simp add: getPrimaryMasterKey_def generatePrimaryMasterKey_def cacheMasterKey_def)
    qed
    with safe_storage_file [OF s assms(1) _ True] True show ?thesis by simp
  qed
qed

lemma key_file_is_kept_witness:
  "\<not> valid_hex_key ''v10'' \<and>
   va_file (snd (getPrimaryMasterKey (sample_platform False) (sample_vault\<lparr>va_file := Some ''v10''\<rparr>))) \<noteq> Some ''v10''"
proof -
  let ?v = "sample_vault\<lparr>va_file := Some ''v10''\<rparr>"
  have n: "\<not> valid_hex_key ''v10''" by (simp add: valid_hex_key_def)
  then have c: "va_file (snd (getPrimaryMasterKey (sample_platform False) ?v)) = Some (hex_of (replicate 32 0))"
    by (simp add: getPrimaryMasterKey_def generatePrimaryMasterKey_def key_from_keytar_def getOrCreateKeytarKey_def key_from_file_def
      getOrCreateFileFallbackKey_def readFileFallbackKey_def atomicWriteFile_def Let_def draw_def cacheMasterKey_def
      sample_platform_def sample_vault_def)
  have "hex_of (replicate 32 0) \<noteq> ''v10''"
  proof
    assume "hex_of (replicate 32 0) = ''v10''"
    then have "length (hex_of (replicate 32 0)) = length ''v10''" by (rule arg_cong)
    then show False by (simp only: length_hex_of length_replicate) simp
  qed
  with c have d: "va_file (snd (getPrimaryMasterKey (sample_platform False) ?v)) \<noteq> Some ''v10''" by auto
  from key_file_is_kept [OF _ d] d show ?thesis by (simp add: sample_platform_def)
qed

text \<open>A sealed key is lost when safeStorage is not there for one start and keytar is not installed.\<close>

lemma sealed_key_is_overwritten:
  assumes "\<not> pl_encryption_available pl" "\<not> pl_keytar_works pl" "pl_read_error pl = None" "pl_write_error pl = None"
    "va_cached v = None" "va_file v = Some sealed" "\<not> valid_hex_key sealed"
  shows "va_file (snd (getPrimaryMasterKey pl v)) = Some (hex_of (pl_random_key pl (va_draws v)))"
  using assms
  by (simp add: getPrimaryMasterKey_def generatePrimaryMasterKey_def key_from_keytar_def getOrCreateKeytarKey_def key_from_file_def
      getOrCreateFileFallbackKey_def readFileFallbackKey_def atomicWriteFile_def Let_def draw_def cacheMasterKey_def)

text \<open>A plain key file that safeStorage refuses stops all encryption, although the key is there.\<close>

lemma plain_key_file_blocks:
  assumes "pl_encryption_available pl" "pl_read_error pl = None" "va_cached v = None" "va_file v = Some plainKey"
    "pl_unseal pl plainKey = None"
  shows "encrypt_text ci pl t v = (Inl (PlainError ''Encryption failed''), v)"
  using assms
  by (simp add: encrypt_text_def getPrimaryMasterKey_def generatePrimaryMasterKey_def getOrCreateSafeStorageKey_def readSafeStorageKey_def)

text \<open>The empty text cannot be read back: its ciphertext is empty, and an empty part is refused.\<close>

lemma empty_text_is_lost:
  assumes "encryptWithKey ci pl key [] v = (Inr payload, v1)" "\<And>iv tag ct. ci_encrypt ci key iv [] = Inr (tag, ct) \<Longrightarrow> ct = []"
  shows "decryptWithMigration ci pl payload w = (Inl (PlainError ''Invalid encrypted data format''), w)"
proof -
  obtain tag ct where p: "ci_encrypt ci key (pl_random_iv pl (va_draws v)) [] = Inr (tag, ct)"
    "payload = ENCRYPTED_PAYLOAD_VERSION_PREFIX @ hex_of (pl_random_iv pl (va_draws v)) @ '':'' @ hex_of tag @ '':'' @ hex_of ct"
    by (rule encryptWithKey_result [OF assms(1)])
  have "hex_of ct = []" using assms(2) [OF p(1)] by simp
  then show ?thesis
    using payload_parts [of "pl_random_iv pl (va_draws v)" tag ct] unfolding p(2)
    by (simp add: decryptWithMigration_def Let_def ENCRYPTED_PAYLOAD_VERSION_PREFIX_def is_hex_def)
qed

end
