(* ===== verification/AccountRepo.thy ===== *)
theory AccountRepo
  imports DeviceProfiles Security
begin

section \<open>The store of cloud accounts\<close>

text \<open>
  Class \<open>CloudAccountRepo\<close> of \<open>cloud-account/persistence/cloudHandler.ts\<close>, the part on its own database: the table of
  accounts, with the token and the quota encrypted, and the table of settings. A table is the list of its rows in the
  order of insertion; an upsert keeps the place of the row. Rows of equal last use come in that order (SQLite promises
  none). Failures of SQLite itself are not modelled. The token and the quota of an account are JSON values here, as the store
  passes them through; the schemas of \<open>cloud-account/types.ts\<close> say which are accepted.
\<close>

subsection \<open>Schemas\<close>

fun is_str :: "json \<Rightarrow> bool" where
  "is_str (JStr _) = True"
| "is_str _ = False"

fun is_num :: "json \<Rightarrow> bool" where
  "is_num (JNum _) = True"
| "is_num _ = False"

fun is_bool :: "json \<Rightarrow> bool" where
  "is_bool (JBool _) = True"
| "is_bool _ = False"

definition required :: "(json \<Rightarrow> bool) \<Rightarrow> members \<Rightarrow> string \<Rightarrow> bool" where
  "required P m k = (case map_of m k of None \<Rightarrow> False | Some v \<Rightarrow> P v)"

definition optional :: "(json \<Rightarrow> bool) \<Rightarrow> members \<Rightarrow> string \<Rightarrow> bool" where
  "optional P m k = (case map_of m k of None \<Rightarrow> True | Some v \<Rightarrow> P v)"

definition object_with :: "(members \<Rightarrow> bool) \<Rightarrow> json \<Rightarrow> bool" where
  "object_with P v = (case v of JObj m \<Rightarrow> P m | _ \<Rightarrow> False)"

definition record_of :: "(json \<Rightarrow> bool) \<Rightarrow> json \<Rightarrow> bool" where
  "record_of P = object_with (list_all (P \<circ> snd))"

definition CloudTokenDataSchema :: "json \<Rightarrow> bool" where
  "CloudTokenDataSchema = object_with (\<lambda>m.
     list_all (required is_str m) [''access_token'', ''refresh_token'', ''token_type''] \<and>
     list_all (required is_num m) [''expires_in'', ''expiry_timestamp''] \<and>
     list_all (optional is_str m) [''email'', ''project_id'', ''oauth_client_key'', ''session_id'', ''id_token'', ''upstream_proxy_url''] \<and>
     optional is_bool m ''is_gcp_tos'')"

definition CloudQuotaWindowInfoSchema :: "json \<Rightarrow> bool" where
  "CloudQuotaWindowInfoSchema = object_with (\<lambda>m. required is_num m ''percentage'' \<and> required is_str m ''resetTime'')"

definition CloudQuotaModelInfoSchema :: "json \<Rightarrow> bool" where
  "CloudQuotaModelInfoSchema = object_with (\<lambda>m.
     required is_num m ''percentage'' \<and> required is_str m ''resetTime'' \<and>
     list_all (optional CloudQuotaWindowInfoSchema m) [''weekly'', ''five_hour''] \<and>
     optional (object_with (\<lambda>w. list_all (optional CloudQuotaWindowInfoSchema w) [''weekly'', ''five_hour''])) m ''quota_windows'' \<and>
     optional is_str m ''display_name'' \<and>
     list_all (optional is_bool m) [''supports_images'', ''supports_thinking'', ''recommended''] \<and>
     list_all (optional is_num m) [''thinking_budget'', ''max_tokens'', ''max_output_tokens''] \<and>
     optional (record_of is_bool) m ''supported_mime_types'')"

definition CloudQuotaDataSchema :: "json \<Rightarrow> bool" where
  "CloudQuotaDataSchema = object_with (\<lambda>m.
     required (record_of CloudQuotaModelInfoSchema) m ''models'' \<and>
     optional (record_of is_str) m ''model_forwarding_rules'' \<and>
     optional is_str m ''subscription_tier'' \<and>
     list_all (optional is_bool m) [''is_forbidden'', ''isForbidden''] \<and>
     optional (object_with (\<lambda>c. required is_num c ''credits'' \<and> required is_str c ''expiryDate'')) m ''ai_credits'')"

record stored_account =
  sa_id :: string
  sa_provider :: string
  sa_email :: string
  sa_name :: "string option"
  sa_avatar_url :: "string option"
  sa_token :: json
  sa_quota :: "json option"
  sa_device_profile :: "device_profile option"
  sa_device_history :: "device_version list option"
  sa_created_at :: rat
  sa_last_used :: rat
  sa_status :: "string option"
  sa_status_reason :: "string option"
  sa_is_active :: bool
  sa_proxy_url :: "string option"

definition CloudAccountSchema :: "stored_account \<Rightarrow> bool" where
  "CloudAccountSchema a \<longleftrightarrow> sa_provider a \<in> {''google'', ''anthropic''} \<and> CloudTokenDataSchema (sa_token a) \<and>
     (case sa_quota a of None \<Rightarrow> True | Some q \<Rightarrow> CloudQuotaDataSchema q) \<and>
     (case sa_status a of None \<Rightarrow> True | Some s \<Rightarrow> s \<in> {''active'', ''rate_limited'', ''expired''})"

subsection \<open>Rows and the database\<close>

record account_row =
  ar_id :: string
  ar_provider :: string
  ar_email :: string
  ar_name :: "string option"
  ar_avatarUrl :: "string option"
  ar_tokenJson :: string
  ar_quotaJson :: "string option"
  ar_deviceProfileJson :: "string option"
  ar_deviceHistoryJson :: "string option"
  ar_createdAt :: rat
  ar_lastUsed :: rat
  ar_status :: "string option"
  ar_statusReason :: "string option"
  ar_isActive :: bool
  ar_proxyUrl :: "string option"

record cloud_db =
  cd_accounts :: "account_row list"
  cd_settings :: "string js_map"
  cd_vault :: vault

text \<open>What an operation takes from outside: the cipher, the key platform, the time in milliseconds, an identifier for a new
  version and identifiers for versions that lack one.\<close>

record repo_env =
  re_cipher :: cipher
  re_platform :: platform
  re_now :: rat
  re_uuid :: string
  re_fresh :: "nat \<Rightarrow> string"

definition update_where :: "string \<Rightarrow> (account_row \<Rightarrow> account_row) \<Rightarrow> cloud_db \<Rightarrow> cloud_db" where
  "update_where i f db = db\<lparr>cd_accounts := map (\<lambda>r. if ar_id r = i then f r else r) (cd_accounts db)\<rparr>"

definition select_row :: "string \<Rightarrow> cloud_db \<Rightarrow> account_row option" where
  "select_row i db = find (\<lambda>r. ar_id r = i) (cd_accounts db)"

definition upsert_row :: "account_row \<Rightarrow> account_row list \<Rightarrow> account_row list" where
  "upsert_row row rows =
     (if list_ex (\<lambda>r. ar_id r = ar_id row) rows then map (\<lambda>r. if ar_id r = ar_id row then row else r) rows else rows @ [row])"

definition deactivate_all :: "account_row list \<Rightarrow> account_row list" where
  "deactivate_all = map (\<lambda>r. r\<lparr>ar_isActive := False\<rparr>)"

definition encrypt_db :: "repo_env \<Rightarrow> string \<Rightarrow> cloud_db \<Rightarrow> (sec_error + string) \<times> cloud_db" where
  "encrypt_db env plain db = apsnd (\<lambda>v. db\<lparr>cd_vault := v\<rparr>) (encrypt_text (re_cipher env) (re_platform env) plain (cd_vault db))"

subsection \<open>Adding an account\<close>

definition row_of :: "stored_account \<Rightarrow> string \<Rightarrow> string option \<Rightarrow> account_row" where
  "row_of a tokenEncrypted quotaEncrypted =
     \<lparr>ar_id = sa_id a, ar_provider = sa_provider a, ar_email = sa_email a, ar_name = sa_name a, ar_avatarUrl = sa_avatar_url a,
      ar_tokenJson = tokenEncrypted, ar_quotaJson = quotaEncrypted,
      ar_deviceProfileJson = serializeDeviceProfile (sa_device_profile a),
      ar_deviceHistoryJson = serializeDeviceHistory (sa_device_history a),
      ar_createdAt = sa_created_at a, ar_lastUsed = sa_last_used a,
      ar_status = Some (if str_truthy (sa_status a) then the (sa_status a) else ''active''),
      ar_statusReason = sa_status_reason a, ar_isActive = sa_is_active a, ar_proxyUrl = sa_proxy_url a\<rparr>"

definition store_row :: "bool \<Rightarrow> account_row \<Rightarrow> cloud_db \<Rightarrow> cloud_db" where
  "store_row active row db =
     db\<lparr>cd_accounts := upsert_row row (if active then deactivate_all (cd_accounts db) else cd_accounts db)\<rparr>"

definition addAccount :: "repo_env \<Rightarrow> stored_account \<Rightarrow> cloud_db \<Rightarrow> (sec_error + unit) \<times> cloud_db" where
  "addAccount env a db =
     (if \<not> CloudAccountSchema a then (Inl (PlainError ''ZodError''), db)
      else (case encrypt_db env (json_stringify (sa_token a)) db of
              (Inl e, db1) \<Rightarrow> (Inl e, db1)
            | (Inr tokenEncrypted, db1) \<Rightarrow>
                (case sa_quota a of
                   None \<Rightarrow> (Inr (), store_row (sa_is_active a) (row_of a tokenEncrypted None) db1)
                 | Some quota \<Rightarrow>
                     (case encrypt_db env (json_stringify quota) db1 of
                        (Inl e, db2) \<Rightarrow> (Inl e, db2)
                      | (Inr quotaEncrypted, db2) \<Rightarrow>
                          (Inr (), store_row (sa_is_active a) (row_of a tokenEncrypted (Some quotaEncrypted)) db2)))))"

subsection \<open>Reading accounts\<close>

datatype secret_column = TokenColumn | QuotaColumn

definition set_secret :: "secret_column \<Rightarrow> string \<Rightarrow> account_row \<Rightarrow> account_row" where
  "set_secret col text r = (case col of TokenColumn \<Rightarrow> r\<lparr>ar_tokenJson := text\<rparr> | QuotaColumn \<Rightarrow> r\<lparr>ar_quotaJson := Some text\<rparr>)"

definition decryptAndMigrateField ::
    "repo_env \<Rightarrow> string \<Rightarrow> secret_column \<Rightarrow> string option \<Rightarrow> cloud_db \<Rightarrow> (sec_error + string option) \<times> cloud_db" where
  "decryptAndMigrateField env accountId field v db =
     (if \<not> str_truthy v then (Inr None, db)
      else (case decryptWithMigration (re_cipher env) (re_platform env) (the v) (cd_vault db) of
              (Inl e, vault') \<Rightarrow> (Inl e, db\<lparr>cd_vault := vault'\<rparr>)
            | (Inr d, vault') \<Rightarrow>
                (let db1 = db\<lparr>cd_vault := vault'\<rparr>
                 in (Inr (Some (de_value d)),
                     (if str_truthy (de_reencrypted d) then update_where accountId (set_secret field (the (de_reencrypted d))) db1 else db1)))))"

text \<open>The decrypted token and quota of a row: an outer None when the account is to be skipped.\<close>

definition load_secrets :: "repo_env \<Rightarrow> account_row \<Rightarrow> cloud_db \<Rightarrow> (sec_error + (string \<times> string option) option) \<times> cloud_db" where
  "load_secrets env row db =
     (case decryptAndMigrateField env (ar_id row) TokenColumn (Some (ar_tokenJson row)) db of
        (Inl DataMigrationFailed, db1) \<Rightarrow> (Inl DataMigrationFailed, db1)
      | (Inl _, db1) \<Rightarrow> (Inr None, db1)
      | (Inr token, db1) \<Rightarrow>
          (case decryptAndMigrateField env (ar_id row) QuotaColumn (ar_quotaJson row) db1 of
             (Inl DataMigrationFailed, db2) \<Rightarrow> (Inl DataMigrationFailed, db2)
           | (quota, db2) \<Rightarrow>
               (Inr (if str_truthy token then Some (the token, (case quota of Inl _ \<Rightarrow> None | Inr q \<Rightarrow> q)) else None), db2)))"

definition parse_account :: "repo_env \<Rightarrow> account_row \<Rightarrow> string \<Rightarrow> string option \<Rightarrow> string + stored_account" where
  "parse_account env row tokenText quotaText =
     (case json_parse tokenText of
        None \<Rightarrow> Inl ''SyntaxError''
      | Some token \<Rightarrow>
          (case (if str_truthy quotaText then map_option Some (json_parse (the quotaText)) else Some None) of
             None \<Rightarrow> Inl ''SyntaxError''
           | Some quota \<Rightarrow>
               (case parseDeviceProfileColumn (ar_deviceProfileJson row) of
                  Inl e \<Rightarrow> Inl e
                | Inr profile \<Rightarrow>
                    (case parseDeviceHistoryColumn (re_fresh env) (re_now env) (ar_deviceHistoryJson row) of
                       Inl e \<Rightarrow> Inl e
                     | Inr history \<Rightarrow>
                         Inr \<lparr>sa_id = ar_id row, sa_provider = ar_provider row, sa_email = ar_email row, sa_name = ar_name row,
                           sa_avatar_url = ar_avatarUrl row, sa_token = token, sa_quota = quota, sa_device_profile = profile,
                           sa_device_history = history, sa_created_at = ar_createdAt row, sa_last_used = ar_lastUsed row,
                           sa_status = ar_status row, sa_status_reason = ar_statusReason row, sa_is_active = ar_isActive row,
                           sa_proxy_url = ar_proxyUrl row\<rparr>))))"

fun load_rows :: "repo_env \<Rightarrow> account_row list \<Rightarrow> cloud_db \<Rightarrow> (sec_error + stored_account list) \<times> cloud_db" where
  "load_rows env [] db = (Inr [], db)"
| "load_rows env (row # rows) db =
     (case load_secrets env row db of
        (Inl e, db1) \<Rightarrow> (Inl e, db1)
      | (Inr None, db1) \<Rightarrow> load_rows env rows db1
      | (Inr (Some (token, quota)), db1) \<Rightarrow>
          (case parse_account env row token quota of
             Inl _ \<Rightarrow> load_rows env rows db1
           | Inr a \<Rightarrow> apfst (map_sum id ((#) a)) (load_rows env rows db1)))"

definition getAccounts :: "repo_env \<Rightarrow> cloud_db \<Rightarrow> (sec_error + stored_account list) \<times> cloud_db" where
  "getAccounts env db = load_rows env (sort_key (\<lambda>r. - ar_lastUsed r) (cd_accounts db)) db"

definition getAccount :: "repo_env \<Rightarrow> string \<Rightarrow> cloud_db \<Rightarrow> (sec_error + stored_account option) \<times> cloud_db" where
  "getAccount env i db =
     (case select_row i db of
        None \<Rightarrow> (Inr None, db)
      | Some row \<Rightarrow>
          (case load_secrets env row db of
             (Inl e, db1) \<Rightarrow> (Inl e, db1)
           | (Inr None, db1) \<Rightarrow> (Inr None, db1)
           | (Inr (Some (token, quota)), db1) \<Rightarrow>
               (case parse_account env row token quota of
                  Inl e \<Rightarrow> (Inl (PlainError e), db1)
                | Inr a \<Rightarrow> (Inr (Some a), db1))))"

definition getAccountByEmail :: "repo_env \<Rightarrow> string \<Rightarrow> cloud_db \<Rightarrow> (sec_error + stored_account option) \<times> cloud_db" where
  "getAccountByEmail env email db =
     apfst (map_sum id (find (\<lambda>a. js_lower (sa_email a) = js_lower email))) (getAccounts env db)"

subsection \<open>Changing one account\<close>

definition removeAccount :: "string \<Rightarrow> cloud_db \<Rightarrow> cloud_db" where
  "removeAccount i db = db\<lparr>cd_accounts := filter (\<lambda>r. ar_id r \<noteq> i) (cd_accounts db)\<rparr>"

definition update_secret :: "repo_env \<Rightarrow> string \<Rightarrow> secret_column \<Rightarrow> json \<Rightarrow> cloud_db \<Rightarrow> (sec_error + unit) \<times> cloud_db" where
  "update_secret env i col v db =
     (case encrypt_db env (json_stringify v) db of
        (Inl e, db1) \<Rightarrow> (Inl e, db1)
      | (Inr encrypted, db1) \<Rightarrow> (Inr (), update_where i (set_secret col encrypted) db1))"

definition updateToken :: "repo_env \<Rightarrow> string \<Rightarrow> json \<Rightarrow> cloud_db \<Rightarrow> (sec_error + unit) \<times> cloud_db" where
  "updateToken env i token db =
     (if \<not> CloudTokenDataSchema token then (Inl (PlainError ''ZodError''), db) else update_secret env i TokenColumn token db)"

definition updateQuota :: "repo_env \<Rightarrow> string \<Rightarrow> json \<Rightarrow> cloud_db \<Rightarrow> (sec_error + unit) \<times> cloud_db" where
  "updateQuota env i quota db =
     (if \<not> CloudQuotaDataSchema quota then (Inl (PlainError ''ZodError''), db) else update_secret env i QuotaColumn quota db)"

definition updateLastUsed :: "repo_env \<Rightarrow> string \<Rightarrow> cloud_db \<Rightarrow> cloud_db" where
  "updateLastUsed env i = update_where i (\<lambda>r. r\<lparr>ar_lastUsed := of_int \<lfloor>re_now env / 1000\<rfloor>\<rparr>)"

definition setActive :: "string \<Rightarrow> cloud_db \<Rightarrow> cloud_db" where
  "setActive i db =
     update_where i (\<lambda>r. r\<lparr>ar_isActive := True\<rparr>) (db\<lparr>cd_accounts := deactivate_all (cd_accounts db)\<rparr>)"

definition setAccountProxy :: "string \<Rightarrow> string option \<Rightarrow> cloud_db \<Rightarrow> cloud_db" where
  "setAccountProxy i proxyUrl = update_where i (\<lambda>r. r\<lparr>ar_proxyUrl := proxyUrl\<rparr>)"

text \<open>An undefined status leaves the column; a blank reason clears it.\<close>

definition setAccountStatus :: "string \<Rightarrow> string option \<Rightarrow> string option \<Rightarrow> cloud_db \<Rightarrow> cloud_db" where
  "setAccountStatus i status reason =
     update_where i (\<lambda>r. r\<lparr>ar_status := (case status of None \<Rightarrow> ar_status r | Some s \<Rightarrow> Some s),
       ar_statusReason := (case reason of None \<Rightarrow> None | Some t \<Rightarrow> if js_trim t \<noteq> [] then Some (js_trim t) else None)\<rparr>)"

subsection \<open>Device bindings\<close>

definition not_found :: "string \<Rightarrow> sec_error" where
  "not_found i = PlainError (''Account not found: '' @ i)"

definition getDeviceBinding :: "repo_env \<Rightarrow> string \<Rightarrow> cloud_db \<Rightarrow> sec_error + binding" where
  "getDeviceBinding env i db =
     (case select_row i db of
        None \<Rightarrow> Inl (not_found i)
      | Some row \<Rightarrow>
          (case parseDeviceProfileColumn (ar_deviceProfileJson row) of
             Inl e \<Rightarrow> Inl (PlainError e)
           | Inr profile \<Rightarrow>
               (case parseDeviceHistoryColumn (re_fresh env) (re_now env) (ar_deviceHistoryJson row) of
                  Inl e \<Rightarrow> Inl (PlainError e)
                | Inr history \<Rightarrow> Inr \<lparr>bi_profile = profile, bi_history = (case history of None \<Rightarrow> [] | Some h \<Rightarrow> h)\<rparr>)))"

definition write_binding :: "string \<Rightarrow> binding \<Rightarrow> cloud_db \<Rightarrow> cloud_db" where
  "write_binding i b = update_where i (\<lambda>r. r\<lparr>ar_deviceProfileJson := serializeDeviceProfile (bi_profile b),
     ar_deviceHistoryJson := serializeDeviceHistory (Some (bi_history b))\<rparr>)"

text \<open>The bound profile is compared before the history is read.\<close>

definition setDeviceBinding :: "repo_env \<Rightarrow> string \<Rightarrow> device_profile \<Rightarrow> string \<Rightarrow> cloud_db \<Rightarrow> (sec_error + unit) \<times> cloud_db" where
  "setDeviceBinding env i profile label db =
     (case select_row i db of
        None \<Rightarrow> (Inl (not_found i), db)
      | Some row \<Rightarrow>
          (case parseDeviceProfileColumn (ar_deviceProfileJson row) of
             Inl e \<Rightarrow> (Inl (PlainError e), db)
           | Inr bound \<Rightarrow>
               if (case bound of None \<Rightarrow> False | Some b \<Rightarrow> areDeviceProfilesEqual b profile) then (Inr (), db)
               else (case parseDeviceHistoryColumn (re_fresh env) (re_now env) (ar_deviceHistoryJson row) of
                       Inl e \<Rightarrow> (Inl (PlainError e), db)
                     | Inr history \<Rightarrow>
                         (case bind_profile (re_uuid env) (re_now env) profile label
                                 \<lparr>bi_profile = bound, bi_history = (case history of None \<Rightarrow> [] | Some h \<Rightarrow> h)\<rparr> of
                            None \<Rightarrow> (Inr (), db)
                          | Some b' \<Rightarrow> (Inr (), write_binding i b' db)))))"

definition restoreDeviceVersion ::
    "repo_env \<Rightarrow> string \<Rightarrow> string \<Rightarrow> device_profile option \<Rightarrow> cloud_db \<Rightarrow> (sec_error + device_profile option) \<times> cloud_db" where
  "restoreDeviceVersion env i versionId baseline db =
     (case getDeviceBinding env i db of
        Inl e \<Rightarrow> (Inl e, db)
      | Inr b \<Rightarrow>
          (case restore_version versionId baseline b of
             Inl e \<Rightarrow> (Inl (PlainError e), db)
           | Inr b' \<Rightarrow> (Inr (bi_profile b'), write_binding i b' db)))"

definition deleteDeviceVersion :: "repo_env \<Rightarrow> string \<Rightarrow> string \<Rightarrow> cloud_db \<Rightarrow> (sec_error + unit) \<times> cloud_db" where
  "deleteDeviceVersion env i versionId db =
     (if versionId = ''baseline'' then (Inl (PlainError ''Original profile cannot be deleted''), db)
      else (case select_row i db of
              None \<Rightarrow> (Inl (not_found i), db)
            | Some row \<Rightarrow>
                (case parseDeviceHistoryColumn (re_fresh env) (re_now env) (ar_deviceHistoryJson row) of
                   Inl e \<Rightarrow> (Inl (PlainError e), db)
                 | Inr history \<Rightarrow>
                     (case delete_version versionId (case history of None \<Rightarrow> [] | Some h \<Rightarrow> h) of
                        Inl e \<Rightarrow> (Inl (PlainError e), db)
                      | Inr h \<Rightarrow>
                          (Inr (), update_where i (\<lambda>r. r\<lparr>ar_deviceHistoryJson := serializeDeviceHistory (Some h)\<rparr>) db)))))"

subsection \<open>Settings\<close>

definition getSetting :: "string \<Rightarrow> json \<Rightarrow> cloud_db \<Rightarrow> json" where
  "getSetting key fallback db =
     (case map_of (cd_settings db) key of
        None \<Rightarrow> fallback
      | Some text \<Rightarrow> (case json_parse text of None \<Rightarrow> fallback | Some v \<Rightarrow> v))"

definition setSetting :: "string \<Rightarrow> json \<Rightarrow> cloud_db \<Rightarrow> cloud_db" where
  "setSetting key v db = db\<lparr>cd_settings := AList.update key (json_stringify v) (cd_settings db)\<rparr>"

datatype app_target = Classic | Ide

definition resolveAntigravityAppTarget :: "app_target option \<Rightarrow> app_target" where
  "resolveAntigravityAppTarget t = (if t = Some Ide then Ide else Classic)"

definition active_setting :: "app_target option \<Rightarrow> string" where
  "active_setting t = ''active_cloud_account.'' @ (case resolveAntigravityAppTarget t of Ide \<Rightarrow> ''ide'' | Classic \<Rightarrow> ''classic'')"

definition setActiveForTarget :: "app_target option \<Rightarrow> string \<Rightarrow> cloud_db \<Rightarrow> cloud_db" where
  "setActiveForTarget t i = setSetting (active_setting t) (JStr i)"

definition getActiveAccountIdForTarget :: "app_target option \<Rightarrow> cloud_db \<Rightarrow> json" where
  "getActiveAccountIdForTarget t = getSetting (active_setting t) (JStr [])"

subsection \<open>Encrypting what was stored in the clear\<close>

definition migrate_field :: "repo_env \<Rightarrow> string option \<Rightarrow> cloud_db \<Rightarrow> (sec_error + string option \<times> bool) \<times> cloud_db" where
  "migrate_field env v db =
     (if str_truthy v \<and> starts_with (the v) [CHR 0x7B]
      then apfst (map_sum id (\<lambda>t. (Some t, True))) (encrypt_db env (the v) db)
      else (Inr (v, False), db))"

text \<open>A failure ends the migration and is only logged.\<close>

fun migrate_rows :: "repo_env \<Rightarrow> account_row list \<Rightarrow> cloud_db \<Rightarrow> cloud_db" where
  "migrate_rows env [] db = db"
| "migrate_rows env (row # rows) db =
     (case migrate_field env (Some (ar_tokenJson row)) db of
        (Inl _, db1) \<Rightarrow> db1
      | (Inr (token, changed1), db1) \<Rightarrow>
          (case migrate_field env (ar_quotaJson row) db1 of
             (Inl _, db2) \<Rightarrow> db2
           | (Inr (quota, changed2), db2) \<Rightarrow>
               migrate_rows env rows
                 (if changed1 \<or> changed2
                  then update_where (ar_id row) (\<lambda>r. r\<lparr>ar_tokenJson := the token, ar_quotaJson := quota\<rparr>) db2
                  else db2)))"

definition migrateToEncrypted :: "repo_env \<Rightarrow> cloud_db \<Rightarrow> cloud_db" where
  "migrateToEncrypted env db = migrate_rows env (cd_accounts db) db"

end
