(* ===== verification/IdeState.thy ===== *)
theory IdeState
  imports AccountRepo Protobuf
begin

section \<open>The state database of the editor\<close>

text \<open>
  The part of \<open>cloudHandler.ts\<close> that writes the tokens of an account into the editor's state database and reads
  them from there: the item table (a map from keys to text), the two formats of the token entry, the choice between
  them, and the retries when the database is busy. Which step of which attempt fails, and how, is an argument; a failed
  transaction changes nothing. The version of the editor is an argument too, and so are the functions of the \<open>semver\<close>
  package. Texts have characters below 256.
\<close>

type_synonym item_table = "string js_map"

definition text_of :: "codepoints \<Rightarrow> string" where
  "text_of = map char_of"

subsection \<open>Members of a token\<close>

definition token_opt :: "json \<Rightarrow> string \<Rightarrow> string option" where
  "token_opt tok k = as_string (jget tok k)"

definition token_str :: "json \<Rightarrow> string \<Rightarrow> string" where
  "token_str tok k = (case token_opt tok k of None \<Rightarrow> [] | Some s \<Rightarrow> s)"

text \<open>The expiry is written as a varint. \<open>BigInt\<close> throws for a number with a fraction, which is not modelled: such a number is
  rounded down here. Every writer of a token in the program makes it of whole seconds.\<close>

definition token_int :: "json \<Rightarrow> string \<Rightarrow> int" where
  "token_int tok k = (case jget tok k of Some (JNum q) \<Rightarrow> \<lfloor>q\<rfloor> | _ \<Rightarrow> 0)"

subsection \<open>Versions of the editor\<close>

record 'v semver =
  sv_parse :: "string \<Rightarrow> 'v option"
  sv_coerce :: "string \<Rightarrow> 'v option"
  sv_compare :: "'v \<Rightarrow> 'v \<Rightarrow> int"

definition compareVersion :: "'v semver \<Rightarrow> string \<Rightarrow> string \<Rightarrow> int" where
  "compareVersion sv v1 v2 =
     (let read = (\<lambda>v. case sv_parse sv (js_trim v) of Some p \<Rightarrow> Some p | None \<Rightarrow> sv_coerce sv v)
      in (case (read v1, read v2) of
            (None, None) \<Rightarrow> 0
          | (None, Some _) \<Rightarrow> - 1
          | (Some _, None) \<Rightarrow> 1
          | (Some p1, Some p2) \<Rightarrow> sv_compare sv p1 p2))"

definition isNewVersion :: "'v semver \<Rightarrow> string \<Rightarrow> bool" where
  "isNewVersion sv shortVersion \<longleftrightarrow> 0 \<le> compareVersion sv shortVersion ''1.16.5''"

definition isCredentialStoreVersion :: "'v semver \<Rightarrow> string \<Rightarrow> bool" where
  "isCredentialStoreVersion sv shortVersion \<longleftrightarrow> 0 \<le> compareVersion sv shortVersion ''2.0.0''"

text \<open>\<open>parseInt(text, 10)\<close>; None is NaN.\<close>

definition parse_int :: "string \<Rightarrow> int option" where
  "parse_int s =
     (let t = trim_left s; neg = (t \<noteq> [] \<and> hd t = CHR ''-'');
          u = (if t \<noteq> [] \<and> hd t \<in> {CHR ''-'', CHR ''+''} then tl t else t); ds = takeWhile is_digit u
      in if ds = [] then None else Some (if neg then - int (digits_val ds) else int (digits_val ds)))"

text \<open>\<open>version\<close> is None when the version cannot be found out.\<close>

definition shouldInjectTokenIntoCredentialStore :: "'v semver \<Rightarrow> string option \<Rightarrow> app_target option \<Rightarrow> bool" where
  "shouldInjectTokenIntoCredentialStore sv version target =
     (if resolveAntigravityAppTarget target = Ide then False
      else (case version of
              None \<Rightarrow> True
            | Some shortVersion \<Rightarrow>
                (case split_on (CHR ''.'') shortVersion of
                   _ # second # _ \<Rightarrow>
                     (case parse_int second of
                        Some n \<Rightarrow> n \<ge> 100 \<or> isCredentialStoreVersion sv shortVersion
                      | None \<Rightarrow> isCredentialStoreVersion sv shortVersion)
                 | _ \<Rightarrow> isCredentialStoreVersion sv shortVersion)))"

subsection \<open>The item table\<close>

definition oauth_key :: string where
  "oauth_key = ''antigravityUnifiedStateSync.oauthToken''"

definition status_key :: string where
  "status_key = ''antigravityUnifiedStateSync.userStatus''"

definition preferences_key :: string where
  "preferences_key = ''antigravityUnifiedStateSync.enterprisePreferences''"

definition agent_key :: string where
  "agent_key = ''jetskiStateSync.agentManagerInitState''"

definition upsertItemValue :: "string \<Rightarrow> string \<Rightarrow> item_table \<Rightarrow> item_table" where
  "upsertItemValue key v tbl = AList.update key v tbl"

definition getItemValue :: "item_table \<Rightarrow> string \<Rightarrow> string option" where
  "getItemValue tbl key = map_of tbl key"

definition writeAuthStatusAndCleanup :: "stored_account \<Rightarrow> item_table \<Rightarrow> item_table" where
  "writeAuthStatusAndCleanup a tbl =
     (let authStatus = JObj [(''name'', JStr (if str_truthy (sa_name a) then the (sa_name a) else sa_email a)),
            (''email'', JStr (sa_email a)), (''apiKey'', JStr (token_str (sa_token a) ''access_token''))]
      in AList.delete ''google.antigravity''
           (upsertItemValue ''antigravityOnboarding'' ''true''
             (upsertItemValue ''antigravityAuthStatus'' (json_stringify authStatus) tbl)))"

subsection \<open>Writing the token\<close>

definition shouldWriteGcpTos :: "stored_account \<Rightarrow> bool" where
  "shouldWriteGcpTos a =
     (if token_opt (sa_token a) ''oauth_client_key'' = Some ''antigravity_enterprise'' then False
      else jget (sa_token a) ''is_gcp_tos'' = Some (JBool True))"

definition injectNewFormat :: "stored_account \<Rightarrow> item_table \<Rightarrow> item_table" where
  "injectNewFormat a tbl =
     (let tok = sa_token a;
          oauthToken = createUnifiedOAuthToken (codes (token_str tok ''access_token'')) (codes (token_str tok ''refresh_token''))
            (token_int tok ''expiry_timestamp'') (shouldWriteGcpTos a) (map_option codes (token_opt tok ''id_token''))
            (Some (codes (sa_email a)));
          userStatusEntry = createUnifiedStateEntry (codes ''userStatusSentinelKey'')
            (createMinimalUserStatusPayload (codes (sa_email a)));
          normalizedProjectId = map_option js_trim (token_opt tok ''project_id'');
          tbl1 = upsertItemValue status_key (text_of userStatusEntry) (upsertItemValue oauth_key (text_of oauthToken) tbl);
          tbl2 = (if str_truthy normalizedProjectId
             then upsertItemValue preferences_key
               (text_of (createUnifiedStateEntry (codes ''enterpriseGcpProjectId'')
                  (createStringValuePayload (codes (the normalizedProjectId))))) tbl1
             else AList.delete preferences_key tbl1)
      in writeAuthStatusAndCleanup a tbl2)"

text \<open>None when the stored state cannot be parsed: the transaction is rolled back.\<close>

definition injectOldFormat :: "stored_account \<Rightarrow> item_table \<Rightarrow> item_table option" where
  "injectOldFormat a tbl =
     (let encodedAgentState = getItemValue tbl agent_key; tok = sa_token a
      in if \<not> str_truthy encodedAgentState then Some (writeAuthStatusAndCleanup a tbl)
         else (case removeField (b64_decode (codes (the encodedAgentState))) 6 of
                 None \<Rightarrow> None
               | Some stateWithoutPreviousToken \<Rightarrow>
                   (let oauthTokenField = createOAuthTokenInfo (codes (token_str tok ''access_token''))
                          (codes (token_str tok ''refresh_token'')) (token_int tok ''expiry_timestamp'')
                    in Some (writeAuthStatusAndCleanup a
                         (upsertItemValue agent_key (text_of (b64_encode (stateWithoutPreviousToken @ oauthTokenField))) tbl)))))"

datatype strategy = New | Old | Dual

definition detectFormatCapability :: "item_table \<Rightarrow> strategy option" where
  "detectFormatCapability tbl =
     (let unified = str_truthy (getItemValue tbl oauth_key); old = str_truthy (getItemValue tbl agent_key)
      in if unified \<and> old then Some Dual else if unified then Some New else if old then Some Old else None)"

definition resolveInjectionStrategy :: "'v semver \<Rightarrow> string option \<Rightarrow> item_table \<Rightarrow> strategy \<times> string" where
  "resolveInjectionStrategy sv version tbl =
     (case version of
        Some shortVersion \<Rightarrow> (if isNewVersion sv shortVersion then New else Old, ''version:'' @ shortVersion)
      | None \<Rightarrow>
          (case detectFormatCapability tbl of
             Some capability \<Rightarrow> (capability, ''capability'')
           | None \<Rightarrow> (Dual, ''fallback'')))"

subsection \<open>Attempts\<close>

record ide_error =
  ie_code :: "string option"
  ie_message :: string

definition plain_error :: "string \<Rightarrow> ide_error" where
  "plain_error m = \<lparr>ie_code = None, ie_message = m\<rparr>"

definition isSqliteBusyError :: "ide_error \<Rightarrow> bool" where
  "isSqliteBusyError e \<longleftrightarrow> ie_code e \<in> {Some ''SQLITE_BUSY'', Some ''SQLITE_LOCKED''} \<or>
     str_contains (ie_message e) ''SQLITE_BUSY'' \<or> str_contains (ie_message e) ''SQLITE_LOCKED''"

datatype ide_stage = Reading | WritingNew | WritingOld

text \<open>The fault of a step of an attempt, if any.\<close>

type_synonym faults = "nat \<Rightarrow> ide_stage \<Rightarrow> ide_error option"

definition inject_new :: "faults \<Rightarrow> nat \<Rightarrow> stored_account \<Rightarrow> item_table \<Rightarrow> ide_error + item_table" where
  "inject_new fl attempt a tbl = (case fl attempt WritingNew of Some e \<Rightarrow> Inl e | None \<Rightarrow> Inr (injectNewFormat a tbl))"

definition inject_old :: "faults \<Rightarrow> nat \<Rightarrow> stored_account \<Rightarrow> item_table \<Rightarrow> ide_error + item_table" where
  "inject_old fl attempt a tbl =
     (case fl attempt WritingOld of
        Some e \<Rightarrow> Inl e
      | None \<Rightarrow> (case injectOldFormat a tbl of None \<Rightarrow> Inl (plain_error ''Protobuf error'') | Some tbl' \<Rightarrow> Inr tbl'))"

definition inject_dual :: "faults \<Rightarrow> nat \<Rightarrow> stored_account \<Rightarrow> item_table \<Rightarrow> ide_error + item_table" where
  "inject_dual fl attempt a tbl =
     (case inject_new fl attempt a tbl of
        Inr tbl1 \<Rightarrow> (case inject_old fl attempt a tbl1 of Inl _ \<Rightarrow> Inr tbl1 | Inr tbl2 \<Rightarrow> Inr tbl2)
      | Inl _ \<Rightarrow>
          (case inject_old fl attempt a tbl of
             Inl _ \<Rightarrow> Inl (plain_error ''Token injection failed for both formats'')
           | Inr tbl2 \<Rightarrow> Inr tbl2))"

definition inject_once :: "'v semver \<Rightarrow> string option \<Rightarrow> faults \<Rightarrow> nat \<Rightarrow> stored_account \<Rightarrow> item_table \<Rightarrow> ide_error + strategy \<times> item_table" where
  "inject_once sv version fl attempt a tbl =
     (case (if version = None then fl attempt Reading else None) of
        Some e \<Rightarrow> Inl e
      | None \<Rightarrow>
          (case fst (resolveInjectionStrategy sv version tbl) of
             Dual \<Rightarrow> map_sum id (Pair Dual) (inject_dual fl attempt a tbl)
           | New \<Rightarrow> map_sum id (Pair New) (inject_new fl attempt a tbl)
           | Old \<Rightarrow> map_sum id (Pair Old) (inject_old fl attempt a tbl)))"

definition SQLITE_MAX_RETRIES :: nat where
  "SQLITE_MAX_RETRIES = 3"

fun inject_attempts ::
    "nat \<Rightarrow> 'v semver \<Rightarrow> string option \<Rightarrow> faults \<Rightarrow> stored_account \<Rightarrow> item_table \<Rightarrow> ide_error + (strategy \<times> nat) \<times> item_table" where
  "inject_attempts 0 sv version fl a tbl = Inl (plain_error [])"
| "inject_attempts (Suc left) sv version fl a tbl =
     (let attempt = SQLITE_MAX_RETRIES - left
      in (case inject_once sv version fl attempt a tbl of
            Inr (name, tbl') \<Rightarrow> Inr ((name, attempt), tbl')
          | Inl e \<Rightarrow>
              if isSqliteBusyError e \<and> attempt < SQLITE_MAX_RETRIES then inject_attempts left sv version fl a tbl else Inl e))"

definition injectWithRetry ::
    "'v semver \<Rightarrow> string option \<Rightarrow> faults \<Rightarrow> stored_account \<Rightarrow> item_table \<Rightarrow> ide_error + (strategy \<times> nat) \<times> item_table" where
  "injectWithRetry = inject_attempts SQLITE_MAX_RETRIES"

text \<open>The first existing database; \<open>dbs\<close> lists the paths, None when there is no file.\<close>

definition injectCloudToken ::
    "'v semver \<Rightarrow> string option \<Rightarrow> faults \<Rightarrow> stored_account \<Rightarrow> (string \<times> item_table option) list \<Rightarrow> ide_error + string \<times> item_table" where
  "injectCloudToken sv version fl a dbs =
     (case find (\<lambda>d. snd d \<noteq> None) dbs of
        Some (path, Some tbl) \<Rightarrow>
          (case injectWithRetry sv version fl a tbl of Inl e \<Rightarrow> Inl e | Inr (_, tbl') \<Rightarrow> Inr (path, tbl'))
      | _ \<Rightarrow> Inl (plain_error (''Antigravity database not found. Checked paths: '' @ join '', '' (map fst dbs))))"

subsection \<open>Reading the token\<close>

record ide_token_info =
  it_accessToken :: string
  it_refreshToken :: string
  it_idToken :: "string option"
  it_projectId :: "string option"

definition readEnterpriseProjectIdFromDb :: "item_table \<Rightarrow> string option" where
  "readEnterpriseProjectIdFromDb tbl =
     (let v = getItemValue tbl preferences_key
      in if \<not> str_truthy v then None
         else (case decodeUnifiedStateEntry (codes (the v)) of
                 None \<Rightarrow> None
               | Some (sentinelKey, payload) \<Rightarrow>
                   if sentinelKey \<noteq> codes ''enterpriseGcpProjectId'' then None
                   else (case getField payload 3 of
                           Some (Some projectBytes) \<Rightarrow>
                             (let projectId = js_trim (text_of (readString_bytes projectBytes))
                              in if projectId = [] then None else Some projectId)
                         | _ \<Rightarrow> None)))"

definition info_of :: "string option \<Rightarrow> oauth_info \<Rightarrow> ide_token_info" where
  "info_of project i = \<lparr>it_accessToken = text_of (oi_accessToken i), it_refreshToken = text_of (oi_refreshToken i),
     it_idToken = map_option text_of (oi_idToken i), it_projectId = project\<rparr>"

definition no_account_message :: string where
  "no_account_message = ''No cloud account found in IDE. Please login to a Google account in Antigravity IDE first.''"

definition no_token_message :: string where
  "no_token_message = ''No OAuth token found in IDE state. Please login to a Google account in Antigravity IDE first.''"

definition readTokenInfoFromDb :: "item_table \<Rightarrow> ide_error + ide_token_info" where
  "readTokenInfoFromDb tbl =
     (let project = readEnterpriseProjectIdFromDb tbl;
          unified = (let v = getItemValue tbl oauth_key
            in if str_truthy v
               then (case extractOAuthTokenInfoFromUnifiedState (b64_decode (codes (the v))) of Some (Some i) \<Rightarrow> Some i | _ \<Rightarrow> None)
               else None)
      in (case unified of
            Some i \<Rightarrow> Inr (info_of project i)
          | None \<Rightarrow>
              (let legacy = getItemValue tbl agent_key
               in if \<not> str_truthy legacy then Inl (plain_error no_account_message)
                  else (case extractOAuthTokenInfo (b64_decode (codes (the legacy))) of
                          None \<Rightarrow> Inl (plain_error ''Protobuf error'')
                        | Some None \<Rightarrow> Inl (plain_error no_token_message)
                        | Some (Some i) \<Rightarrow> Inr (info_of project i)))))"

fun read_attempts :: "nat \<Rightarrow> faults \<Rightarrow> item_table \<Rightarrow> ide_error + ide_token_info" where
  "read_attempts 0 fl tbl = Inl (plain_error [])"
| "read_attempts (Suc left) fl tbl =
     (let attempt = SQLITE_MAX_RETRIES - left
      in (case (case fl attempt Reading of Some e \<Rightarrow> Inl e | None \<Rightarrow> readTokenInfoFromDb tbl) of
            Inr i \<Rightarrow> Inr i
          | Inl e \<Rightarrow> if isSqliteBusyError e \<and> attempt < SQLITE_MAX_RETRIES then read_attempts left fl tbl else Inl e))"

definition readTokenInfoWithRetry :: "faults \<Rightarrow> item_table \<Rightarrow> ide_error + ide_token_info" where
  "readTokenInfoWithRetry = read_attempts SQLITE_MAX_RETRIES"

subsection \<open>Texts survive the table\<close>

lemma text_of_codes [simp]: "text_of (codes s) = s"
  by (simp add: text_of_def codes_def comp_def)

lemma codes_text_of: "\<forall>c\<in>set cs. c < 256 \<Longrightarrow> codes (text_of cs) = cs"
  by (induction cs) (simp_all add: text_of_def codes_def)

lemma codes_b64 [simp]: "codes (text_of (b64_encode bs)) = b64_encode bs"
  using b64_ascii by (intro codes_text_of) force

lemma entry_b64: "\<exists>bs. createUnifiedStateEntry key payload = b64_encode bs"
  by (auto simp: createUnifiedStateEntry_def Let_def)

lemma codes_entry [simp]: "codes (text_of (createUnifiedStateEntry key payload)) = createUnifiedStateEntry key payload"
  using entry_b64 [of key payload] by auto

lemma codes_ok: "text_ok (codes s)"
proof -
  have "of_char c \<noteq> (0xFEFF :: nat)" "of_char c \<le> (0x10FFFF :: nat)" "\<not> is_surrogate (of_char c)" for c :: char
  proof -
    have "of_char c < (256 :: nat)" by simp
    then show "of_char c \<noteq> (0xFEFF :: nat)" "of_char c \<le> (0x10FFFF :: nat)" "\<not> is_surrogate (of_char c)"
      unfolding is_surrogate_def by linarith+
  qed
  then show ?thesis by (cases s) (auto simp: text_ok_def codes_def code_ok_def)
qed

lemma codes_eq_Nil [simp]: "codes s = [] \<longleftrightarrow> s = []" by (simp add: codes_def)

lemma decoded_Nil: "b64_decode (codes []) = []"
  by (simp add: codes_def b64_decode_def List.map_filter_simps)

lemma entry_nonempty [simp]: "createUnifiedStateEntry key payload \<noteq> []"
proof
  assume "createUnifiedStateEntry key payload = []"
  then have "b64_decode (createUnifiedStateEntry key payload) = []" by (simp add: b64_decode_def List.map_filter_simps)
  then show False
    by (simp add: createUnifiedStateEntry_def Let_def b64_decode_encode delim_fields del: One_nat_def)
qed

lemma text_of_eq_Nil [simp]: "text_of cs = [] \<longleftrightarrow> cs = []" by (simp add: text_of_def)

subsection \<open>What is written is read back\<close>

lemma auth_status_frame:
  assumes "key \<notin> {''antigravityAuthStatus'', ''antigravityOnboarding'', ''google.antigravity''}"
  shows "getItemValue (writeAuthStatusAndCleanup a tbl) key = getItemValue tbl key"
  using assms by (simp add: getItemValue_def writeAuthStatusAndCleanup_def upsertItemValue_def Let_def delete_conv' update_conv')

lemma keys_differ:
  "k \<in> {oauth_key, status_key, preferences_key, agent_key} \<Longrightarrow>
   k \<notin> {''antigravityAuthStatus'', ''antigravityOnboarding'', ''google.antigravity''}"
  "oauth_key \<noteq> status_key" "oauth_key \<noteq> preferences_key" "status_key \<noteq> preferences_key" "agent_key \<noteq> oauth_key"
  "agent_key \<noteq> status_key" "agent_key \<noteq> preferences_key"
  by (auto simp: oauth_key_def status_key_def preferences_key_def agent_key_def)

lemma injected_oauth:
  "getItemValue (injectNewFormat a tbl) oauth_key = Some (text_of (createUnifiedOAuthToken (codes (token_str (sa_token a) ''access_token''))
     (codes (token_str (sa_token a) ''refresh_token'')) (token_int (sa_token a) ''expiry_timestamp'') (shouldWriteGcpTos a)
     (map_option codes (token_opt (sa_token a) ''id_token'')) (Some (codes (sa_email a)))))"
  unfolding injectNewFormat_def Let_def
  by (subst auth_status_frame [OF keys_differ(1)])
    (simp_all add: getItemValue_def upsertItemValue_def update_conv' delete_conv' keys_differ keys_differ(2-4) [symmetric])

lemma injected_preferences:
  "getItemValue (injectNewFormat a tbl) preferences_key =
    (let project = map_option js_trim (token_opt (sa_token a) ''project_id'')
     in if str_truthy project then Some (text_of (createUnifiedStateEntry (codes ''enterpriseGcpProjectId'')
          (createStringValuePayload (codes (the project))))) else None)"
  unfolding injectNewFormat_def Let_def
  by (subst auth_status_frame [OF keys_differ(1)])
    (simp_all add: getItemValue_def upsertItemValue_def update_conv' delete_conv' keys_differ)

lemma read_project:
  "readEnterpriseProjectIdFromDb (injectNewFormat a tbl) =
    (let project = map_option js_trim (token_opt (sa_token a) ''project_id'') in if str_truthy project then project else None)"
proof -
  define project where "project = map_option js_trim (token_opt (sa_token a) ''project_id'')"
  show ?thesis
  proof (cases "str_truthy project")
    case False
    then show ?thesis by (simp add: readEnterpriseProjectIdFromDb_def injected_preferences project_def [symmetric])
  next
    case True
    then obtain p where p: "project = Some p" "p \<noteq> []" by (cases project) auto
    then have trimmed: "js_trim p = p" unfolding project_def by auto
    let ?pay = "createStringValuePayload (codes p)"
    have pay: "?pay = message_bytes [(3, Delimited (utf8_encode (codes p)))]"
      by (simp add: createStringValuePayload_def encodeStringField_def delim_fields del: One_nat_def)
    have "getField ?pay 3 = Some (Some (utf8_encode (codes p)))" unfolding pay by (subst getField_message) simp_all
    moreover have "decodeUnifiedStateEntry (createUnifiedStateEntry (codes ''enterpriseGcpProjectId'') ?pay) =
        Some (codes ''enterpriseGcpProjectId'', ?pay)"
      unfolding decodeUnifiedStateEntry_def by (rule decode_created_entry [OF codes_ok])
    ultimately show ?thesis
      using p trimmed
      by (simp add: readEnterpriseProjectIdFromDb_def injected_preferences project_def [symmetric] readString_bytes_encode [OF codes_ok])
  qed
qed

lemma created_entry_info:
  assumes "text_ok a" "text_ok r" "case i of None \<Rightarrow> True | Some t \<Rightarrow> text_ok t"
  shows "extractOAuthTokenInfoFromUnifiedState (b64_decode (createUnifiedOAuthToken a r (int e) tos i email)) =
    Some (Some \<lparr>oi_accessToken = a, oi_refreshToken = r, oi_idToken = (if nonempty i then i else None)\<rparr>)"
proof -
  let ?tos = "if nonempty email \<and> isPersonalAccountEmail (the email) \<and> tos then False else tos"
  let ?p = "message_bytes (oauth_fields a r e ?tos i)"
  have d: "decode_entry (b64_decode (createUnifiedOAuthToken a r (int e) tos i email)) = Some (oauth_sentinel, ?p)"
    unfolding createUnifiedOAuthToken_def createOAuthInfo_fields by (rule decode_created_entry [OF sentinel_ok])
  have i: "map_option readString_bytes (if nonempty i then Some (utf8_encode (the i)) else None) = (if nonempty i then i else None)"
    using assms(3) readString_bytes_encode by (cases i) (auto simp: nonempty_def)
  have "extractOAuthTokenInfoFromOAuthInfo ?p =
      Some (Some \<lparr>oi_accessToken = a, oi_refreshToken = r, oi_idToken = (if nonempty i then i else None)\<rparr>)"
    unfolding extractOAuthTokenInfoFromOAuthInfo_def oauth_get prod.case option.case i
    using readString_bytes_encode [OF assms(1)] readString_bytes_encode [OF assms(2)] by simp
  then show ?thesis
    by (simp only: extractOAuthTokenInfoFromUnifiedState_def d extract_entry_def option.case prod.case simp_thms if_False)
qed

definition tokens_of :: "stored_account \<Rightarrow> string option \<Rightarrow> ide_token_info" where
  "tokens_of a project = \<lparr>it_accessToken = token_str (sa_token a) ''access_token'', it_refreshToken = token_str (sa_token a) ''refresh_token'',
     it_idToken = (if str_truthy (token_opt (sa_token a) ''id_token'') then token_opt (sa_token a) ''id_token'' else None),
     it_projectId = project\<rparr>"

lemma injected_tokens_read:
  assumes "0 \<le> token_int (sa_token a) ''expiry_timestamp''"
  shows "readTokenInfoFromDb (injectNewFormat a tbl) =
    Inr (tokens_of a (let project = map_option js_trim (token_opt (sa_token a) ''project_id'')
      in if str_truthy project then project else None))"
proof -
  let ?a = "codes (token_str (sa_token a) ''access_token'')" and ?r = "codes (token_str (sa_token a) ''refresh_token'')"
  let ?i = "map_option codes (token_opt (sa_token a) ''id_token'')"
  let ?entry = "createUnifiedOAuthToken ?a ?r (token_int (sa_token a) ''expiry_timestamp'') (shouldWriteGcpTos a) ?i (Some (codes (sa_email a)))"
  obtain e where e: "token_int (sa_token a) ''expiry_timestamp'' = int e" using assms nonneg_int_cases by blast
  have ne: "?entry \<noteq> []" and c: "codes (text_of ?entry) = ?entry" by (simp_all add: createUnifiedOAuthToken_def)
  have i: "case ?i of None \<Rightarrow> True | Some t \<Rightarrow> text_ok t" by (cases "token_opt (sa_token a) ''id_token''") (simp_all add: codes_ok)
  have x: "extractOAuthTokenInfoFromUnifiedState (b64_decode ?entry) =
      Some (Some \<lparr>oi_accessToken = ?a, oi_refreshToken = ?r, oi_idToken = (if nonempty ?i then ?i else None)\<rparr>)"
    unfolding e by (rule created_entry_info [OF codes_ok codes_ok i])
  have "info_of project \<lparr>oi_accessToken = ?a, oi_refreshToken = ?r, oi_idToken = (if nonempty ?i then ?i else None)\<rparr> = tokens_of a project" for project
    by (cases "token_opt (sa_token a) ''id_token''") (simp_all add: info_of_def tokens_of_def nonempty_def option.map_comp comp_def)
  then show ?thesis
    unfolding readTokenInfoFromDb_def Let_def injected_oauth option.sel c x read_project [unfolded Let_def]
    using ne by (simp add: str_truthy_def)
qed

text \<open>C37: Tokens written into the editor's database in the unified format are read back from it: access token, refresh
  token, id token and project of the account, whatever the table held before.\<close>

theorem injected_tokens_are_read_back:
  assumes "0 \<le> token_int (sa_token a) ''expiry_timestamp''"
  shows "readTokenInfoFromDb (injectNewFormat a tbl) =
    Inr (tokens_of a (let project = map_option js_trim (token_opt (sa_token a) ''project_id'')
      in if str_truthy project then project else None))"
  using injected_tokens_read [OF assms] .

lemma injected_tokens_are_read_back_witness:
  "\<exists>a. readTokenInfoFromDb (injectNewFormat a [(oauth_key, ''old'')]) =
     Inr \<lparr>it_accessToken = ''at'', it_refreshToken = ''rt'', it_idToken = None, it_projectId = Some ''p''\<rparr>"
proof -
  let ?a = "\<lparr>sa_id = ''a'', sa_provider = ''google'', sa_email = ''a@b.c'', sa_name = None, sa_avatar_url = None,
     sa_token = JObj [(''access_token'', JStr ''at''), (''refresh_token'', JStr ''rt''), (''token_type'', JStr ''Bearer''),
       (''expires_in'', JNum 3600), (''expiry_timestamp'', JNum 9), (''project_id'', JStr '' p '')], sa_quota = None,
     sa_device_profile = None, sa_device_history = None, sa_created_at = 1, sa_last_used = 2, sa_status = None,
     sa_status_reason = None, sa_is_active = True, sa_proxy_url = None\<rparr> :: stored_account"
  have "js_trim '' p '' = ''p''" by (simp add: js_trim_def trim_left_def is_ws_def)
  moreover have "0 \<le> token_int (sa_token ?a) ''expiry_timestamp''" by (simp add: token_int_def)
  note injected_tokens_are_read_back [OF this, of "[(oauth_key, ''old'')]"]
  ultimately show ?thesis
    by (intro exI [of _ ?a]) (simp add: tokens_of_def token_str_def token_opt_def)
qed

text \<open>The old format keeps the rest of the editor's state and is read back when there is no unified entry.\<close>

lemma created_fields:
  "createStringField n v = encodeLenDelimField n (utf8_encode v)"
  "createTimestampField n seconds = encodeLenDelimField n (encodeVarintField 1 seconds)"
  by (simp_all only: createStringField_def createTimestampField_def encodeLenDelimField_def encodeVarintField_def Let_def)

definition info_fields :: "codepoints \<Rightarrow> codepoints \<Rightarrow> nat \<Rightarrow> (nat \<times> wire) list" where
  "info_fields a r e = [(1, Delimited (utf8_encode a)), (2, Delimited (utf8_encode (codes ''Bearer''))),
     (3, Delimited (utf8_encode r)), (4, Delimited (message_bytes [(1, Varint e)]))]"

lemma token_info_field: "createOAuthTokenInfo a r (int e) = field_bytes (6, Delimited (message_bytes (info_fields a r e)))"
proof -
  have "encodeLenDelimField 6 d = field_bytes (6, Delimited d)" for d
    by (simp only: encodeLenDelimField_def tags encodeVarint_nat field_bytes_def) simp
  then have "encodeVarint (tag_of 6 2) @ encodeVarint (int (length d)) @ d = field_bytes (6, Delimited d)" for d
    by (simp add: encodeLenDelimField_def)
  then show ?thesis
    by (simp add: createOAuthTokenInfo_def created_fields delim_fields info_fields_def Let_def del: One_nat_def)
qed

lemma extract_info:
  assumes "text_ok a" "text_ok r"
  shows "extractOAuthTokenInfoFromOAuthInfo (message_bytes (info_fields a r e)) =
    Some (Some \<lparr>oi_accessToken = a, oi_refreshToken = r, oi_idToken = None\<rparr>)"
proof -
  have ok: "\<forall>(n, w) \<in> set (info_fields a r e). wire_ok w" by (simp add: info_fields_def)
  show ?thesis
    unfolding extractOAuthTokenInfoFromOAuthInfo_def getField_message [OF ok]
    using readString_bytes_encode [OF assms(1)] readString_bytes_encode [OF assms(2)] by (simp add: info_fields_def)
qed

lemma removeField_message:
  "\<forall>(n, w) \<in> set fs. wire_ok w \<Longrightarrow> removeField (message_bytes fs) n = Some (message_bytes (filter (\<lambda>(k, w). k \<noteq> n) fs))"
  using remove_from_message [of fs "[]" n] by (simp add: removeField_def)

lemma first_field_append:
  "n \<notin> fst ` set fs \<Longrightarrow> first_field n (fs @ gs) = first_field n gs"
  by (induction fs) auto

lemma first_field_filter: "k \<noteq> n \<Longrightarrow> first_field k (filter (\<lambda>(i, w). i \<noteq> n) fs @ [(n, w)]) = first_field k fs"
  by (induction fs) auto

text \<open>Written into the older format, the tokens replace the token field of the editor's state and leave every other field
  of it as it was; without a unified entry in the table they are read back from there.\<close>

theorem old_format_replaces_only_the_token:
  assumes "getItemValue tbl agent_key = Some v" "b64_decode (codes v) = message_bytes fs" "v \<noteq> []" "\<forall>(n, w) \<in> set fs. wire_ok w"
    "0 \<le> token_int (sa_token a) ''expiry_timestamp''"
  shows "\<exists>tbl' v'. injectOldFormat a tbl = Some tbl' \<and> getItemValue tbl' agent_key = Some v' \<and>
    (\<forall>n. n \<noteq> 6 \<longrightarrow> getField (b64_decode (codes v')) n = getField (b64_decode (codes v)) n) \<and>
    (getItemValue tbl oauth_key = None \<longrightarrow> readTokenInfoFromDb tbl' =
       Inr ((tokens_of a (readEnterpriseProjectIdFromDb tbl))\<lparr>it_idToken := None\<rparr>))"
proof -
  let ?a = "codes (token_str (sa_token a) ''access_token'')" and ?r = "codes (token_str (sa_token a) ''refresh_token'')"
  obtain e where e: "token_int (sa_token a) ''expiry_timestamp'' = int e" using assms(5) nonneg_int_cases by blast
  let ?f = "(6, Delimited (message_bytes (info_fields ?a ?r e)))"
  let ?gs = "filter (\<lambda>(k, w). k \<noteq> 6) fs @ [?f]"
  define v' where "v' = text_of (b64_encode (message_bytes ?gs))"
  define tbl' where "tbl' = writeAuthStatusAndCleanup a (upsertItemValue agent_key v' tbl)"
  have inj: "injectOldFormat a tbl = Some tbl'"
    using assms(1,3) unfolding injectOldFormat_def Let_def assms(1) option.sel assms(2) removeField_message [OF assms(4)] e token_info_field
    by (simp add: tbl'_def v'_def message_append)
  have ok: "\<forall>(n, w) \<in> set ?gs. wire_ok w" using assms(4) by auto
  have val: "getItemValue tbl' agent_key = Some v'"
    unfolding tbl'_def by (subst auth_status_frame [OF keys_differ(1)]) (simp_all add: getItemValue_def upsertItemValue_def update_conv')
  have other: "getItemValue tbl' k = getItemValue tbl k" if "k \<in> {oauth_key, preferences_key}" for k
    using that keys_differ(5,7) unfolding tbl'_def
    by (subst auth_status_frame [OF keys_differ(1)]) (auto simp: getItemValue_def upsertItemValue_def update_conv')
  have dec: "b64_decode (codes v') = message_bytes ?gs" by (simp add: v'_def b64_decode_encode del: message_Cons)
  have fields: "getField (b64_decode (codes v')) n = getField (b64_decode (codes v)) n" if "n \<noteq> 6" for n
    unfolding dec assms(2) getField_message [OF ok] getField_message [OF assms(4)] first_field_filter [OF that] ..
  have "getField (message_bytes ?gs) 6 = Some (Some (message_bytes (info_fields ?a ?r e)))"
    unfolding getField_message [OF ok] by (subst first_field_append) auto
  then have x: "extractOAuthTokenInfo (b64_decode (codes v')) = Some (Some \<lparr>oi_accessToken = ?a, oi_refreshToken = ?r, oi_idToken = None\<rparr>)"
    unfolding dec extractOAuthTokenInfo_def by (simp add: extract_info [OF codes_ok codes_ok] del: message_Cons)
  have ne: "v' \<noteq> []"
  proof
    assume "v' = []"
    then have "message_bytes ?gs = []" using dec by (simp add: codes_def b64_decode_def List.map_filter_simps)
    then show False by (simp add: message_append)
  qed
  have project: "readEnterpriseProjectIdFromDb tbl' = readEnterpriseProjectIdFromDb tbl"
    by (simp add: readEnterpriseProjectIdFromDb_def other)
  have "readTokenInfoFromDb tbl' = Inr ((tokens_of a (readEnterpriseProjectIdFromDb tbl))\<lparr>it_idToken := None\<rparr>)"
    if "getItemValue tbl oauth_key = None"
    using that x ne val other [of oauth_key] project
    by (simp add: readTokenInfoFromDb_def Let_def info_of_def tokens_of_def)
  note reads = this
  show ?thesis
    by (rule exI [of _ tbl'], rule exI [of _ v'], intro conjI allI impI) (rule inj val fields reads, assumption?)+
qed

lemma old_format_replaces_only_the_token_witness:
  "\<exists>a tbl'. injectOldFormat a [(agent_key, text_of (b64_encode (message_bytes [(2, Varint 7), (6, Varint 1)])))] = Some tbl' \<and>
     readTokenInfoFromDb tbl' = Inr \<lparr>it_accessToken = ''at'', it_refreshToken = ''rt'', it_idToken = None, it_projectId = None\<rparr>"
proof -
  let ?a = "\<lparr>sa_id = ''a'', sa_provider = ''google'', sa_email = ''a@b.c'', sa_name = None, sa_avatar_url = None,
     sa_token = JObj [(''access_token'', JStr ''at''), (''refresh_token'', JStr ''rt''), (''expiry_timestamp'', JNum 9)], sa_quota = None,
     sa_device_profile = None, sa_device_history = None, sa_created_at = 1, sa_last_used = 2, sa_status = None,
     sa_status_reason = None, sa_is_active = True, sa_proxy_url = None\<rparr> :: stored_account"
  let ?fs = "[(2, Varint 7), (6, Varint 1)] :: (nat \<times> wire) list"
  let ?v = "text_of (b64_encode (message_bytes ?fs))"
  let ?tbl = "[(agent_key, ?v)]"
  have v: "getItemValue ?tbl agent_key = Some ?v" by (simp add: getItemValue_def)
  have dec: "b64_decode (codes ?v) = message_bytes ?fs" by (simp add: b64_decode_encode del: message_Cons)
  have ne: "?v \<noteq> []"
  proof
    assume "?v = []"
    with dec have "b64_decode (codes []) = message_bytes ?fs" by (simp only:)
    then show False by (simp add: decoded_Nil)
  qed
  have ok: "\<forall>(n, w) \<in> set ?fs. wire_ok w" by simp
  have e: "0 \<le> token_int (sa_token ?a) ''expiry_timestamp''" by (simp add: token_int_def)
  have n: "getItemValue ?tbl oauth_key = None" "readEnterpriseProjectIdFromDb ?tbl = None"
    using keys_differ(5,7) by (auto simp: getItemValue_def readEnterpriseProjectIdFromDb_def Let_def)
  from old_format_replaces_only_the_token [OF v dec ne ok e] n show ?thesis
    by (intro exI [of _ ?a]) (auto simp: tokens_of_def token_str_def token_opt_def)
qed

subsection \<open>Attempts are bounded\<close>

definition busy_before :: "'v semver \<Rightarrow> string option \<Rightarrow> faults \<Rightarrow> stored_account \<Rightarrow> item_table \<Rightarrow> nat \<Rightarrow> nat \<Rightarrow> bool" where
  "busy_before sv version fl a tbl k n \<longleftrightarrow>
     (\<forall>j. k \<le> j \<and> j < n \<longrightarrow> (\<exists>e. inject_once sv version fl j a tbl = Inl e \<and> isSqliteBusyError e))"

lemma inject_attempts_result:
  "left \<le> 2 \<Longrightarrow>
   (case inject_attempts (Suc left) sv version fl a tbl of
      Inr ((name, n), tbl') \<Rightarrow> 3 - left \<le> n \<and> n \<le> 3 \<and> inject_once sv version fl n a tbl = Inr (name, tbl') \<and>
        busy_before sv version fl a tbl (3 - left) n
    | Inl e \<Rightarrow> \<exists>n. 3 - left \<le> n \<and> n \<le> 3 \<and> inject_once sv version fl n a tbl = Inl e \<and> (isSqliteBusyError e \<longrightarrow> n = 3) \<and>
        busy_before sv version fl a tbl (3 - left) n)"
proof (induction left)
  case 0
  show ?case
    by (cases "inject_once sv version fl 3 a tbl") (auto simp: SQLITE_MAX_RETRIES_def busy_before_def split: prod.split)
next
  case (Suc left)
  then have le: "left \<le> 2" "3 - left = Suc (3 - Suc left)" by simp_all
  note IH = Suc.IH [OF le(1), unfolded le(2)]
  let ?k = "3 - Suc left"
  show ?case
  proof (cases "inject_once sv version fl ?k a tbl")
    case (Inr r)
    then show ?thesis by (cases r) (auto simp: SQLITE_MAX_RETRIES_def busy_before_def)
  next
    case (Inl e)
    show ?thesis
    proof (cases "isSqliteBusyError e")
      case False
      with Inl show ?thesis by (auto simp: SQLITE_MAX_RETRIES_def busy_before_def intro!: exI [of _ ?k])
    next
      case True
      have r: "inject_attempts (Suc (Suc left)) sv version fl a tbl = inject_attempts (Suc left) sv version fl a tbl"
      proof -
        have "3 - Suc left < (3 :: nat)" by simp
        with Inl True show ?thesis
          by (subst inject_attempts.simps) (simp only: SQLITE_MAX_RETRIES_def Let_def sum.case if_True simp_thms)
      qed
      have more: "busy_before sv version fl a tbl (Suc ?k) n \<Longrightarrow> busy_before sv version fl a tbl ?k n" for n
        using Inl True unfolding busy_before_def by (metis Suc_leI le_neq_implies_less)
      show ?thesis
      proof (cases "inject_attempts (Suc left) sv version fl a tbl")
        case (Inl x)
        with IH obtain n where n: "Suc ?k \<le> n" "n \<le> 3" "inject_once sv version fl n a tbl = Inl x" "isSqliteBusyError x \<longrightarrow> n = 3"
          "busy_before sv version fl a tbl (Suc ?k) n" by auto
        show ?thesis unfolding r Inl sum.case
          by (rule exI [of _ n]) (use n more [OF n(5)] Suc_leD [OF n(1)] in blast)
      next
        case (Inr y)
        obtain name n tbl' where y: "y = ((name, n), tbl')" by (metis prod.exhaust)
        from IH [unfolded Inr y sum.case prod.case] show ?thesis unfolding r Inr y sum.case prod.case
          using more Suc_leD by blast
      qed
    qed
  qed
qed

text \<open>Writing the tokens of an account takes at most three attempts: another one is made only after the database was
  busy, success means the attempt reported wrote the new format, the old one or both, and otherwise the table is as it was.\<close>

theorem injection_attempts_are_bounded:
  "case injectWithRetry sv version fl a tbl of
     Inr ((name, n), tbl') \<Rightarrow> 1 \<le> n \<and> n \<le> 3 \<and> busy_before sv version fl a tbl 1 n \<and>
       (tbl' = injectNewFormat a tbl \<or> injectOldFormat a tbl = Some tbl' \<or> injectOldFormat a (injectNewFormat a tbl) = Some tbl')
   | Inl e \<Rightarrow> (\<exists>n. 1 \<le> n \<and> n \<le> 3 \<and> inject_once sv version fl n a tbl = Inl e \<and> (isSqliteBusyError e \<longrightarrow> n = 3) \<and>
       busy_before sv version fl a tbl 1 n)"
proof -
  have w: "tbl' = injectNewFormat a tbl \<or> injectOldFormat a tbl = Some tbl' \<or> injectOldFormat a (injectNewFormat a tbl) = Some tbl'"
    if "inject_once sv version fl n a tbl = Inr (name, tbl')" for n name tbl'
    using that by (auto simp: inject_once_def inject_dual_def inject_new_def inject_old_def
        split: option.splits if_splits strategy.splits sum.splits)
  have three: "SQLITE_MAX_RETRIES = Suc 2" by (simp add: SQLITE_MAX_RETRIES_def)
  show ?thesis
    using inject_attempts_result [of 2 sv version fl a tbl]
    unfolding injectWithRetry_def three by (auto split: sum.splits prod.splits simp del: inject_attempts.simps dest: w)
qed

lemma injection_attempts_are_bounded_witness:
  "\<forall>(sv :: nat semver) a tbl.
     (let busy = \<lparr>ie_code = Some ''SQLITE_BUSY'', ie_message = []\<rparr>; fl = \<lambda>_ _. Some busy
      in injectWithRetry sv None fl a tbl = Inl busy \<and> busy_before sv None fl a tbl 1 3)"
proof (intro allI)
  fix sv :: "nat semver" and a tbl
  let ?busy = "\<lparr>ie_code = Some ''SQLITE_BUSY'', ie_message = []\<rparr>" and ?fl = "\<lambda>_ _. Some \<lparr>ie_code = Some ''SQLITE_BUSY'', ie_message = []\<rparr>"
  have "inject_once sv None ?fl n a tbl = Inl ?busy" for n by (simp add: inject_once_def)
  then have r: "injectWithRetry sv None ?fl a tbl = Inl ?busy"
    by (simp add: injectWithRetry_def SQLITE_MAX_RETRIES_def numeral_3_eq_3 isSqliteBusyError_def)
  have b: "isSqliteBusyError ?busy" by (simp add: isSqliteBusyError_def)
  have "busy_before sv None ?fl a tbl 1 3"
    using injection_attempts_are_bounded [of sv None ?fl a tbl, unfolded r sum.case] b by blast
  with r show "let busy = ?busy; fl = \<lambda>_ _. Some busy in injectWithRetry sv None fl a tbl = Inl busy \<and> busy_before sv None fl a tbl 1 3"
    by (simp add: Let_def)
qed

text \<open>When the version is unknown both formats are tried, and a busy database is not tried again.\<close>

lemma dual_failure_is_not_retried:
  assumes "version = None" "detectFormatCapability tbl = Some Dual" "fl 1 Reading = None" "fl 1 WritingNew = Some e" "fl 1 WritingOld = Some e'"
  shows "injectWithRetry sv version fl a tbl = Inl (plain_error ''Token injection failed for both formats'')"
proof -
  have o: "inject_once sv version fl 1 a tbl = Inl (plain_error ''Token injection failed for both formats'')"
    using assms by (simp add: inject_once_def resolveInjectionStrategy_def inject_dual_def inject_new_def inject_old_def)
  have "\<not> isSqliteBusyError (plain_error ''Token injection failed for both formats'')"
    by (simp add: isSqliteBusyError_def plain_error_def)
  with o show ?thesis
    by (simp add: injectWithRetry_def SQLITE_MAX_RETRIES_def numeral_3_eq_3 Let_def)
qed

end
