(* ===== verification/AccountRepoFacts.thy ===== *)
theory AccountRepoFacts
  imports AccountRepo
begin

section \<open>What the account store guarantees\<close>

text \<open>
  The rows that each operation of \<open>AccountRepo\<close> changes, the encryption of their columns, the invariant of the store in all reachable
  states, reading back what was added, and the bindings of device profiles as an abstract specification that the columns refine.
\<close>

subsection \<open>Rows\<close>

named_theorems repo_defs \<open>definitions of the operations that only update rows\<close>

declare removeAccount_def [repo_defs] updateLastUsed_def [repo_defs] setActive_def [repo_defs] setAccountProxy_def [repo_defs]
  setAccountStatus_def [repo_defs]

lemma select_update: "(\<And>r. ar_id (f r) = ar_id r) \<Longrightarrow>
  select_row j (update_where i f db) = (if j = i then map_option f (select_row j db) else select_row j db)"
proof -
  assume f: "\<And>r. ar_id (f r) = ar_id r"
  have "find (\<lambda>r. ar_id r = j) (map (\<lambda>r. if ar_id r = i then f r else r) rows) =
      (if j = i then map_option f (find (\<lambda>r. ar_id r = j) rows) else find (\<lambda>r. ar_id r = j) rows)" for rows
    using f by (induction rows) auto
  then show ?thesis by (simp add: select_row_def update_where_def)
qed

lemma update_where_simps [simp]:
  "cd_settings (update_where i f db) = cd_settings db" "cd_vault (update_where i f db) = cd_vault db"
  by (simp_all add: update_where_def)

lemma select_other [simp]:
  "select_row i (db\<lparr>cd_vault := v\<rparr>) = select_row i db" "select_row i (db\<lparr>cd_settings := s\<rparr>) = select_row i db"
  by (simp_all add: select_row_def)

lemma select_id: "select_row i db = Some row \<Longrightarrow> ar_id row = i"
  by (auto simp: select_row_def find_Some_iff)

subsection \<open>Device bindings\<close>

definition store_step :: "repo_env \<Rightarrow> string \<Rightarrow> binding_op \<Rightarrow> cloud_db \<Rightarrow> (sec_error + unit) \<times> cloud_db" where
  "store_step env i op db =
     (case op of
        Bind uuid now p label \<Rightarrow> setDeviceBinding (env\<lparr>re_uuid := uuid, re_now := now\<rparr>) i p label db
      | Restore versionId baseline \<Rightarrow> apfst (map_sum id (\<lambda>_. ())) (restoreDeviceVersion env i versionId baseline db)
      | Delete versionId \<Rightarrow> deleteDeviceVersion env i versionId db)"

definition columns_hold :: "binding \<Rightarrow> account_row \<Rightarrow> bool" where
  "columns_hold b row \<longleftrightarrow> parseDeviceProfileColumn (ar_deviceProfileJson row) = Inr (bi_profile b) \<and>
     (\<forall>fresh now. parseDeviceHistoryColumn fresh now (ar_deviceHistoryJson row) = Inr (if bi_history b = [] then None else Some (bi_history b)))"

text \<open>A row holds a binding when its columns are what the operations write.\<close>

definition holds_binding :: "string \<Rightarrow> cloud_db \<Rightarrow> binding \<Rightarrow> bool" where
  "holds_binding i db b \<longleftrightarrow> (case select_row i db of None \<Rightarrow> False | Some row \<Rightarrow> columns_hold b row)"

lemma holds_bindingD:
  assumes "holds_binding i db b"
  obtains row where "select_row i db = Some row" "columns_hold b row"
  using assms by (auto simp: holds_binding_def split: option.splits)

lemma holds_binding_get: "holds_binding i db b \<Longrightarrow> getDeviceBinding env i db = Inr b"
  by (auto simp: getDeviceBinding_def columns_hold_def elim!: holds_bindingD)

lemma columns_written:
  assumes "binding_ok b"
  shows "columns_hold b (r\<lparr>ar_deviceProfileJson := serializeDeviceProfile (bi_profile b),
    ar_deviceHistoryJson := serializeDeviceHistory (Some (bi_history b))\<rparr>)"
proof -
  have "parseDeviceProfileColumn (serializeDeviceProfile (bi_profile b)) = Inr (bi_profile b)"
  proof (cases "bi_profile b")
    case None
    then show ?thesis by (simp add: serializeDeviceProfile_def parseDeviceProfileColumn_def)
  next
    case (Some p)
    with binding_okD(3) [OF assms] show ?thesis by (simp add: profile_column_roundtrip)
  qed
  moreover have "\<forall>v\<in>set (bi_history b). version_ok v" using binding_okD(2) [OF assms] by blast
  ultimately show ?thesis by (simp add: columns_hold_def history_column_roundtrip)
qed

lemma holds_written:
  assumes "binding_ok b" "select_row i db = Some row"
  shows "holds_binding i (write_binding i b db) b"
  using assms columns_written by (simp add: holds_binding_def write_binding_def select_update)

lemma write_binding_frame [simp]: "j \<noteq> i \<Longrightarrow> select_row j (write_binding i b db) = select_row j db"
  by (simp add: write_binding_def select_update)

text \<open>C32: The operations on the device columns of an account implement those on its binding: what is read after an operation
  is what the operation makes of what was read before, errors are the same and change nothing, and other accounts keep
  their rows.\<close>

theorem device_store_refines_bindings:
  assumes "holds_binding i db b" "binding_ok b" "op_ok op b"
  shows "case binding_step op b of
      Inl e \<Rightarrow> store_step env i op db = (Inl (PlainError e), db)
    | Inr b' \<Rightarrow> \<exists>db'. store_step env i op db = (Inr (), db') \<and> holds_binding i db' b' \<and>
        getDeviceBinding env' i db' = Inr b' \<and> (\<forall>j. j \<noteq> i \<longrightarrow> select_row j db' = select_row j db)"
proof -
  obtain row where row: "select_row i db = Some row" "columns_hold b row" by (rule holds_bindingD [OF assms(1)])
  have rec: "\<lparr>bi_profile = x, bi_history = bi_history b\<rparr> = b" if "bi_profile b = x" for x using that by (cases b) simp
  have hist: "(case (if bi_history b = [] then None else Some (bi_history b)) of None \<Rightarrow> [] | Some h \<Rightarrow> h) = bi_history b" by simp
  show ?thesis
  proof (cases op)
    case (Bind uuid now p label)
    let ?e = "env\<lparr>re_uuid := uuid, re_now := now\<rparr>"
    show ?thesis
    proof (cases "bind_profile uuid now p label b")
      case None
      then have "store_step env i op db = (Inr (), db)"
        using row hist Bind by (cases "bi_profile b") (simp_all add: store_step_def setDeviceBinding_def columns_hold_def rec)
      then show ?thesis using None Bind assms(1) by (simp add: binding_step_def holds_binding_get)
    next
      case (Some b')
      have "bi_profile b \<noteq> Some p" using Some by (auto simp: bind_profile_def)
      then have "store_step env i op db = (Inr (), write_binding i b' db)"
        using row hist Bind Some by (cases "bi_profile b") (simp_all add: store_step_def setDeviceBinding_def columns_hold_def rec)
      moreover have "holds_binding i (write_binding i b' db) b'"
        using bind_ok [OF assms(2) _ Some] assms(3) Bind row(1) holds_written by blast
      ultimately show ?thesis using Some Bind by (simp add: binding_step_def holds_binding_get)
    qed
  next
    case (Restore versionId baseline)
    show ?thesis
    proof (cases "restore_version versionId baseline b")
      case (Inl e)
      then show ?thesis
        using Restore holds_binding_get [OF assms(1), of env]
        by (simp add: binding_step_def store_step_def restoreDeviceVersion_def)
    next
      case (Inr b')
      have "holds_binding i (write_binding i b' db) b'"
        using restore_ok [OF assms(2) _ Inr] assms(3) Restore row(1) holds_written by blast
      then show ?thesis
        using Restore Inr holds_binding_get [OF assms(1), of env]
        by (simp add: binding_step_def store_step_def restoreDeviceVersion_def holds_binding_get)
    qed
  next
    case (Delete versionId)
    show ?thesis
    proof (cases "versionId = ''baseline''")
      case True
      then show ?thesis using Delete by (simp add: binding_step_def store_step_def deleteDeviceVersion_def)
    next
      case False
      show ?thesis
      proof (cases "delete_version versionId (bi_history b)")
        case (Inl e)
        then show ?thesis using Delete False row hist
          by (simp add: binding_step_def store_step_def deleteDeviceVersion_def columns_hold_def)
      next
        case (Inr h)
        let ?db = "update_where i (\<lambda>r. r\<lparr>ar_deviceHistoryJson := serializeDeviceHistory (Some h)\<rparr>) db"
        have ok: "binding_ok (b\<lparr>bi_history := h\<rparr>)" by (rule delete_ok [OF assms(2) Inr])
        have "holds_binding i ?db (b\<lparr>bi_history := h\<rparr>)"
          using row columns_written [OF ok, of row] by (simp add: holds_binding_def select_update columns_hold_def)
        moreover have "store_step env i op db = (Inr (), ?db)" using Delete False row hist Inr
          by (simp add: store_step_def deleteDeviceVersion_def columns_hold_def)
        ultimately show ?thesis using Delete False Inr
          by (simp add: binding_step_def holds_binding_get select_update)
      qed
    qed
  qed
qed

lemma device_store_refines_bindings_witness:
  "\<forall>env. \<exists>db db'. store_step env ''a'' (Bind ''v1'' 5000 \<lparr>machineId = ''m'', macMachineId = ''n'', devDeviceId = ''d'', sqmId = ''s''\<rparr> ''generated'') db
      = (Inr (), db') \<and> getDeviceBinding env ''a'' db' = Inr \<lparr>bi_profile = Some \<lparr>machineId = ''m'', macMachineId = ''n'', devDeviceId = ''d'', sqmId = ''s''\<rparr>,
        bi_history = [\<lparr>dv_id = ''v1'', dv_createdAt = 5, dv_label = ''generated'',
          dv_profile = \<lparr>machineId = ''m'', macMachineId = ''n'', devDeviceId = ''d'', sqmId = ''s''\<rparr>, dv_isCurrent = True\<rparr>]\<rparr>"
proof
  fix env
  let ?p = "\<lparr>machineId = ''m'', macMachineId = ''n'', devDeviceId = ''d'', sqmId = ''s''\<rparr>"
  let ?op = "Bind ''v1'' 5000 ?p ''generated''"
  let ?b = "\<lparr>bi_profile = None, bi_history = []\<rparr> :: binding"
  let ?db = "\<lparr>cd_accounts = [row_of \<lparr>sa_id = ''a'', sa_provider = ''google'', sa_email = ''e'', sa_name = None, sa_avatar_url = None,
    sa_token = JNull, sa_quota = None, sa_device_profile = None, sa_device_history = None, sa_created_at = 0, sa_last_used = 0,
    sa_status = None, sa_status_reason = None, sa_is_active = False, sa_proxy_url = None\<rparr> [] None], cd_settings = [], cd_vault = sample_vault\<rparr>"
  have h: "holds_binding ''a'' ?db ?b"
    by (simp add: holds_binding_def select_row_def row_of_def columns_hold_def serializeDeviceProfile_def serializeDeviceHistory_def
        parseDeviceProfileColumn_def parseDeviceHistoryColumn_def)
  have ok: "binding_ok ?b" by (simp add: binding_ok_def)
  have op: "op_ok ?op ?b" by (simp add: op_ok_def profile_ok_def)
  have "\<lfloor>(5000 :: rat) / 1000\<rfloor> = 5" by simp
  then have s: "binding_step ?op ?b = Inr \<lparr>bi_profile = Some ?p, bi_history = [\<lparr>dv_id = ''v1'', dv_createdAt = 5, dv_label = ''generated'',
      dv_profile = ?p, dv_isCurrent = True\<rparr>]\<rparr>" by (simp add: binding_step_def bind_profile_def)
  from device_store_refines_bindings [OF h ok op, of env env, unfolded s sum.case]
  show "\<exists>db db'. store_step env ''a'' (Bind ''v1'' 5000 ?p ''generated'') db = (Inr (), db') \<and>
      getDeviceBinding env ''a'' db' = Inr \<lparr>bi_profile = Some ?p, bi_history = [\<lparr>dv_id = ''v1'', dv_createdAt = 5,
        dv_label = ''generated'', dv_profile = ?p, dv_isCurrent = True\<rparr>]\<rparr>" by blast
qed

subsection \<open>All operations, and the states they reach\<close>

datatype repo_op =
    AddAccount stored_account
  | GetAccounts
  | GetAccount string
  | GetAccountByEmail string
  | RemoveAccount string
  | UpdateToken string json
  | UpdateQuota string json
  | UpdateLastUsed string
  | DeviceOp string binding_op
  | SetActive string
  | SetAccountProxy string "string option"
  | SetAccountStatus string "string option" "string option"
  | SetSetting string json
  | SetActiveForTarget "app_target option" string
  | MigrateToEncrypted
  | RestartProgram

definition repo_run :: "repo_env \<Rightarrow> repo_op \<Rightarrow> cloud_db \<Rightarrow> cloud_db" where
  "repo_run env op db =
     (case op of
        AddAccount a \<Rightarrow> snd (addAccount env a db)
      | GetAccounts \<Rightarrow> snd (getAccounts env db)
      | GetAccount i \<Rightarrow> snd (getAccount env i db)
      | GetAccountByEmail e \<Rightarrow> snd (getAccountByEmail env e db)
      | RemoveAccount i \<Rightarrow> removeAccount i db
      | UpdateToken i t \<Rightarrow> snd (updateToken env i t db)
      | UpdateQuota i q \<Rightarrow> snd (updateQuota env i q db)
      | UpdateLastUsed i \<Rightarrow> updateLastUsed env i db
      | DeviceOp i bop \<Rightarrow> snd (store_step env i bop db)
      | SetActive i \<Rightarrow> setActive i db
      | SetAccountProxy i p \<Rightarrow> setAccountProxy i p db
      | SetAccountStatus i st r \<Rightarrow> setAccountStatus i st r db
      | SetSetting k v \<Rightarrow> setSetting k v db
      | SetActiveForTarget t i \<Rightarrow> setActiveForTarget t i db
      | MigrateToEncrypted \<Rightarrow> migrateToEncrypted env db
      | RestartProgram \<Rightarrow> db\<lparr>cd_vault := restart (cd_vault db)\<rparr>)"

inductive repo_reachable :: "cipher \<Rightarrow> platform \<Rightarrow> cloud_db \<Rightarrow> bool" for ci pl where
  start: "cd_accounts db = [] \<Longrightarrow> va_cached (cd_vault db) = None \<Longrightarrow> repo_reachable ci pl db"
| run: "repo_reachable ci pl db \<Longrightarrow> re_cipher env = ci \<Longrightarrow> re_platform env = pl \<Longrightarrow> repo_reachable ci pl (repo_run env op db)"

definition sealed :: "string \<Rightarrow> bool" where
  "sealed t \<longleftrightarrow> starts_with t ENCRYPTED_PAYLOAD_VERSION_PREFIX"

definition row_sealed :: "account_row \<Rightarrow> bool" where
  "row_sealed r \<longleftrightarrow> sealed (ar_tokenJson r) \<and> (case ar_quotaJson r of None \<Rightarrow> True | Some q \<Rightarrow> sealed q)"

definition store_ok :: "cipher \<Rightarrow> platform \<Rightarrow> cloud_db \<Rightarrow> bool" where
  "store_ok ci pl db \<longleftrightarrow> distinct (map ar_id (cd_accounts db)) \<and>
     (\<forall>r\<in>set (cd_accounts db). \<forall>s\<in>set (cd_accounts db). ar_isActive r \<longrightarrow> ar_isActive s \<longrightarrow> ar_id r = ar_id s) \<and>
     (\<forall>r\<in>set (cd_accounts db). row_sealed r) \<and> vault_reachable ci pl (cd_vault db)"

lemma store_okD:
  assumes "store_ok ci pl db"
  shows "distinct (map ar_id (cd_accounts db))"
    "r \<in> set (cd_accounts db) \<Longrightarrow> s \<in> set (cd_accounts db) \<Longrightarrow> ar_isActive r \<Longrightarrow> ar_isActive s \<Longrightarrow> ar_id r = ar_id s"
    "r \<in> set (cd_accounts db) \<Longrightarrow> row_sealed r" "vault_reachable ci pl (cd_vault db)"
  using assms unfolding store_ok_def by blast+

lemma store_okI:
  assumes "distinct (map ar_id (cd_accounts db))"
    "\<And>r s. r \<in> set (cd_accounts db) \<Longrightarrow> s \<in> set (cd_accounts db) \<Longrightarrow> ar_isActive r \<Longrightarrow> ar_isActive s \<Longrightarrow> ar_id r = ar_id s"
    "\<And>r. r \<in> set (cd_accounts db) \<Longrightarrow> row_sealed r" "vault_reachable ci pl (cd_vault db)"
  shows "store_ok ci pl db"
  using assms unfolding store_ok_def by blast

text \<open>An update that keeps the identity and activity of a row and leaves its secrets sealed.\<close>

definition mild :: "(account_row \<Rightarrow> account_row) \<Rightarrow> bool" where
  "mild f \<longleftrightarrow> (\<forall>r. ar_id (f r) = ar_id r \<and> ar_isActive (f r) = ar_isActive r \<and> (row_sealed r \<longrightarrow> row_sealed (f r)))"

lemma update_store_ok: "mild f \<Longrightarrow> store_ok ci pl db \<Longrightarrow> store_ok ci pl (update_where i f db)"
proof (rule store_okI)
  assume f: "mild f" and ok: "store_ok ci pl db"
  have ids: "map ar_id (cd_accounts (update_where i f db)) = map ar_id (cd_accounts db)"
    using f by (auto simp: update_where_def mild_def)
  show "distinct (map ar_id (cd_accounts (update_where i f db)))" unfolding ids by (rule store_okD(1) [OF ok])
  show "vault_reachable ci pl (cd_vault (update_where i f db))" using store_okD(4) [OF ok] by simp
  fix r assume "r \<in> set (cd_accounts (update_where i f db))"
  then obtain r0 where r0: "r0 \<in> set (cd_accounts db)" "r = (if ar_id r0 = i then f r0 else r0)" by (auto simp: update_where_def)
  then show "row_sealed r" using store_okD(3) [OF ok r0(1)] f by (auto simp: mild_def)
  fix s assume "s \<in> set (cd_accounts (update_where i f db))" and act: "ar_isActive r" "ar_isActive s"
  then obtain s0 where s0: "s0 \<in> set (cd_accounts db)" "s = (if ar_id s0 = i then f s0 else s0)" by (auto simp: update_where_def)
  have "ar_isActive r0" "ar_isActive s0" "ar_id r = ar_id r0" "ar_id s = ar_id s0"
    using f act r0(2) s0(2) by (auto simp: mild_def split: if_splits)
  with store_okD(2) [OF ok r0(1) s0(1)] show "ar_id r = ar_id s" by simp
qed

lemma store_ok_cong:
  assumes "store_ok ci pl db" "cd_accounts db' = cd_accounts db" "vault_reachable ci pl (cd_vault db')"
  shows "store_ok ci pl db'"
  using assms(1,3) unfolding store_ok_def assms(2) by blast

lemma vault_store_ok: "store_ok ci pl db \<Longrightarrow> vault_reachable ci pl v \<Longrightarrow> store_ok ci pl (db\<lparr>cd_vault := v\<rparr>)"
  by (rule store_ok_cong) simp_all

lemma settings_store_ok: "store_ok ci pl db \<Longrightarrow> store_ok ci pl (db\<lparr>cd_settings := s\<rparr>)"
  by (rule store_ok_cong) (simp_all add: store_okD(4))

lemma restart_reachable: "vault_reachable ci pl (restart v)"
  by (rule vault_reachable.start) (simp add: restart_def)

lemma deactivate_all_ids [simp]: "map ar_id (deactivate_all rows) = map ar_id rows"
  by (simp add: deactivate_all_def)

lemma row_sealed_simps [simp]: "row_sealed (r\<lparr>ar_isActive := b\<rparr>) = row_sealed r"
  by (simp add: row_sealed_def)

lemma upsert_ids: "map ar_id (upsert_row row rows) =
    (if ar_id row \<in> ar_id ` set rows then map ar_id rows else map ar_id rows @ [ar_id row])"
proof -
  have "list_ex (\<lambda>r. ar_id r = ar_id row) rows \<longleftrightarrow> ar_id row \<in> ar_id ` set rows" by (auto simp: list_ex_iff image_iff intro: sym bexI [rotated])
  then show ?thesis by (simp add: upsert_row_def)
qed

lemma upsert_mem: "r \<in> set (upsert_row row rows) \<Longrightarrow> r = row \<or> (r \<in> set rows \<and> ar_id r \<noteq> ar_id row)"
  by (auto simp: upsert_row_def list_ex_iff split: if_splits)

lemma store_row_ok:
  assumes "store_ok ci pl db" "row_sealed row" "active = ar_isActive row"
  shows "store_ok ci pl (store_row active row db)"
proof (rule store_okI)
  note ok = store_okD [OF assms(1)]
  let ?rows = "if active then deactivate_all (cd_accounts db) else cd_accounts db"
  have rows: "cd_accounts (store_row active row db) = upsert_row row ?rows" by (simp add: store_row_def)
  have ids: "map ar_id ?rows = map ar_id (cd_accounts db)" by simp
  have d: "distinct (map ar_id ?rows)" unfolding ids by (rule ok(1))
  show "distinct (map ar_id (cd_accounts (store_row active row db)))"
    using d unfolding rows upsert_ids by auto
  show "vault_reachable ci pl (cd_vault (store_row active row db))" using ok(4) by (simp add: store_row_def)
  fix r assume r: "r \<in> set (cd_accounts (store_row active row db))"
  show "row_sealed r"
    using upsert_mem [OF r [unfolded rows]] ok(3) assms(2) by (auto simp: deactivate_all_def split: if_splits)
  fix s assume s: "s \<in> set (cd_accounts (store_row active row db))" and act: "ar_isActive r" "ar_isActive s"
  have "active \<Longrightarrow> t \<in> set ?rows \<Longrightarrow> \<not> ar_isActive t" for t by (auto simp: deactivate_all_def)
  then show "ar_id r = ar_id s"
    using upsert_mem [OF r [unfolded rows]] upsert_mem [OF s [unfolded rows]] act ok(2) assms(3) by (cases active) auto
qed

lemma sealed_encrypted: "encryptWithKey ci pl key t v = (Inr payload, v1) \<Longrightarrow> sealed payload"
  by (erule encryptWithKey_result) (simp add: sealed_def)

lemma encrypt_sealed: "encrypt_text ci pl t v = (Inr payload, v1) \<Longrightarrow> sealed payload"
  by (auto simp: encrypt_text_def split: sum.splits prod.splits sec_error.splits dest: sealed_encrypted)

lemma fallbacks_sealed:
  "try_fallbacks ci pl primary a b c keys v = (Inr d, v1) \<Longrightarrow> de_reencrypted d = Some t \<Longrightarrow> sealed t"
proof (induction ci pl primary a b c keys v rule: try_fallbacks.induct)
  case (2 ci pl primary a b c key source rest v)
  then show ?case by (auto split: sum.splits prod.splits dest: sealed_encrypted)
qed simp

lemma failed_sealed:
  "decrypt_failed ci pl primary e a b c v = (Inr d, v1) \<Longrightarrow> de_reencrypted d = Some t \<Longrightarrow> sealed t"
  by (auto simp: decrypt_failed_def split: if_splits sum.splits dest: fallbacks_sealed)

lemma parts_sealed:
  "decrypt_parts ci pl vers a b c v = (Inr d, v1) \<Longrightarrow> de_reencrypted d = Some t \<Longrightarrow> sealed t"
  by (auto simp: decrypt_parts_def split: if_splits sum.splits prod.splits dest: sealed_encrypted failed_sealed)

lemma migration_sealed:
  "decryptWithMigration ci pl stored v = (Inr d, v1) \<Longrightarrow> de_reencrypted d = Some t \<Longrightarrow> sealed t"
  by (auto simp: decryptWithMigration_def Let_def split: if_splits list.splits dest: parts_sealed)

text \<open>Every operation keeps the store in order.\<close>

lemma mild_secret: "sealed t \<Longrightarrow> mild (set_secret col t)"
  by (auto simp: mild_def set_secret_def row_sealed_def split: secret_column.split)

lemma decrypt_field_ok:
  assumes "store_ok (re_cipher env) (re_platform env) db" "decryptAndMigrateField env i col v db = (r, db1)"
  shows "store_ok (re_cipher env) (re_platform env) db1"
proof (cases "str_truthy v")
  case False
  with assms show ?thesis by (simp add: decryptAndMigrateField_def)
next
  case True
  obtain x vault' where d: "decryptWithMigration (re_cipher env) (re_platform env) (the v) (cd_vault db) = (x, vault')" by (metis prod.exhaust)
  have "vault_reachable (re_cipher env) (re_platform env) vault'"
    using vault_reachable.decrypts [OF store_okD(4) [OF assms(1)], of "the v"] d by simp
  note ok = vault_store_ok [OF assms(1) this]
  show ?thesis
  proof (cases x)
    case (Inl e)
    with d assms(2) True ok show ?thesis by (simp add: decryptAndMigrateField_def)
  next
    case (Inr y)
    show ?thesis
    proof (cases "str_truthy (de_reencrypted y)")
      case False
      with d assms(2) True ok Inr show ?thesis by (simp add: decryptAndMigrateField_def Let_def)
    next
      case re: True
      then obtain t where t: "de_reencrypted y = Some t" by (cases "de_reencrypted y") auto
      have "mild (set_secret col t)" using migration_sealed [OF d [unfolded Inr] t] by (rule mild_secret)
      from update_store_ok [OF this ok, of i] d assms(2) True Inr re t show ?thesis
        by (simp add: decryptAndMigrateField_def Let_def)
    qed
  qed
qed

lemma load_secrets_ok:
  assumes "store_ok (re_cipher env) (re_platform env) db" "load_secrets env row db = (r, db1)"
  shows "store_ok (re_cipher env) (re_platform env) db1"
proof -
  obtain x db2 where t: "decryptAndMigrateField env (ar_id row) TokenColumn (Some (ar_tokenJson row)) db = (x, db2)" by (metis prod.exhaust)
  obtain y db3 where q: "decryptAndMigrateField env (ar_id row) QuotaColumn (ar_quotaJson row) db2 = (y, db3)" by (metis prod.exhaust)
  note ok2 = decrypt_field_ok [OF assms(1) t]
  note ok3 = decrypt_field_ok [OF ok2 q]
  have "db1 = db2 \<or> db1 = db3" using assms(2) unfolding load_secrets_def t prod.case
    by (auto simp: q split: sum.splits sec_error.splits)
  with ok2 ok3 show ?thesis by blast
qed

lemma load_rows_ok:
  "store_ok (re_cipher env) (re_platform env) db \<Longrightarrow> store_ok (re_cipher env) (re_platform env) (snd (load_rows env rows db))"
proof (induction rows arbitrary: db)
  case Nil
  then show ?case by simp
next
  case (Cons row rows)
  obtain x db1 where l: "load_secrets env row db = (x, db1)" by (metis prod.exhaust)
  note ok = load_secrets_ok [OF Cons.prems l]
  show ?case using ok Cons.IH [OF ok] by (simp add: l split: sum.split option.split prod.split)
qed

lemma encrypt_db_ok:
  assumes "store_ok (re_cipher env) (re_platform env) db" "encrypt_db env t db = (r, db1)"
  shows "store_ok (re_cipher env) (re_platform env) db1" "r = Inr payload \<Longrightarrow> sealed payload"
proof -
  obtain x v where e: "encrypt_text (re_cipher env) (re_platform env) t (cd_vault db) = (x, v)" by (metis prod.exhaust)
  then have r: "r = x" "db1 = db\<lparr>cd_vault := v\<rparr>" using assms(2) by (simp_all add: encrypt_db_def)
  have "vault_reachable (re_cipher env) (re_platform env) v"
    using vault_reachable.encrypts [OF store_okD(4) [OF assms(1)], of t] e by simp
  then show "store_ok (re_cipher env) (re_platform env) db1" unfolding r(2) by (rule vault_store_ok [OF assms(1)])
  show "r = Inr payload \<Longrightarrow> sealed payload" using encrypt_sealed e r(1) by blast
qed

lemma add_account_ok:
  assumes "store_ok (re_cipher env) (re_platform env) db"
  shows "store_ok (re_cipher env) (re_platform env) (snd (addAccount env a db))"
proof (cases "CloudAccountSchema a")
  case False
  with assms show ?thesis by (simp add: addAccount_def)
next
  case True
  obtain x db1 where t: "encrypt_db env (json_stringify (sa_token a)) db = (x, db1)" by (metis prod.exhaust)
  note ok1 = encrypt_db_ok [OF assms t]
  show ?thesis
  proof (cases x)
    case (Inl e)
    with True t ok1(1) show ?thesis by (simp add: addAccount_def)
  next
    case (Inr tok)
    note tok = ok1(2) [OF Inr]
    show ?thesis
    proof (cases "sa_quota a")
      case None
      have "row_sealed (row_of a tok None)" using tok by (simp add: row_sealed_def row_of_def)
      from store_row_ok [OF ok1(1) this, of "sa_is_active a"] True t Inr None show ?thesis
        by (simp add: addAccount_def row_of_def)
    next
      case (Some q)
      obtain y db2 where q: "encrypt_db env (json_stringify q) db1 = (y, db2)" by (metis prod.exhaust)
      note ok2 = encrypt_db_ok [OF ok1(1) q]
      show ?thesis
      proof (cases y)
        case (Inl e)
        with True t Inr Some q ok2(1) show ?thesis by (simp add: addAccount_def)
      next
        case (Inr quo)
        have "row_sealed (row_of a tok (Some quo))" using tok ok2(2) [OF Inr] by (simp add: row_sealed_def row_of_def)
        from store_row_ok [OF ok2(1) this, of "sa_is_active a"] True t \<open>x = Inr tok\<close> Some q Inr show ?thesis
          by (simp add: addAccount_def row_of_def)
      qed
    qed
  qed
qed

lemma update_secret_ok:
  assumes "store_ok (re_cipher env) (re_platform env) db"
  shows "store_ok (re_cipher env) (re_platform env) (snd (update_secret env i col v db))"
proof -
  obtain x db1 where t: "encrypt_db env (json_stringify v) db = (x, db1)" by (metis prod.exhaust)
  note ok1 = encrypt_db_ok [OF assms t]
  show ?thesis using ok1(1) update_store_ok [OF mild_secret [OF ok1(2)] ok1(1)]
    by (cases x) (simp_all add: update_secret_def t)
qed

lemma set_active_ok:
  assumes "store_ok ci pl db"
  shows "store_ok ci pl (setActive i db)"
proof (rule store_okI)
  note ok = store_okD [OF assms]
  have rows: "cd_accounts (setActive i db) = map (\<lambda>r. r\<lparr>ar_isActive := (ar_id r = i)\<rparr>) (cd_accounts db)"
    by (simp add: setActive_def update_where_def deactivate_all_def)
  show "distinct (map ar_id (cd_accounts (setActive i db)))" using ok(1) by (simp add: rows comp_def)
  show "vault_reachable ci pl (cd_vault (setActive i db))" using ok(4) by (simp add: setActive_def)
  fix r assume r: "r \<in> set (cd_accounts (setActive i db))"
  then show "row_sealed r" using ok(3) by (auto simp: rows)
  fix s assume "s \<in> set (cd_accounts (setActive i db))" "ar_isActive r" "ar_isActive s"
  with r show "ar_id r = ar_id s" by (auto simp: rows)
qed

lemma remove_ok: "store_ok ci pl db \<Longrightarrow> store_ok ci pl (removeAccount i db)"
  by (rule store_okI) (auto simp: removeAccount_def distinct_map_filter dest: store_okD)

lemma write_binding_ok: "store_ok ci pl db \<Longrightarrow> store_ok ci pl (write_binding i b db)"
  unfolding write_binding_def by (rule update_store_ok) (simp_all add: mild_def row_sealed_def)

lemma store_step_ok: "store_ok ci pl db \<Longrightarrow> store_ok ci pl (snd (store_step env i op db))"
proof (cases op)
  case (Bind uuid now p label)
  assume ok: "store_ok ci pl db"
  have "snd (setDeviceBinding e i p label db) = db \<or> (\<exists>b. snd (setDeviceBinding e i p label db) = write_binding i b db)" for e
    by (auto simp: setDeviceBinding_def split: option.split sum.split)
  from this [of "env\<lparr>re_uuid := uuid, re_now := now\<rparr>"] ok Bind show ?thesis
    by (auto simp: store_step_def write_binding_ok)
next
  case (Restore versionId baseline)
  assume ok: "store_ok ci pl db"
  with Restore write_binding_ok show ?thesis
    by (auto simp: store_step_def restoreDeviceVersion_def split: sum.split)
next
  case (Delete versionId)
  assume ok: "store_ok ci pl db"
  have "mild (\<lambda>r. r\<lparr>ar_deviceHistoryJson := serializeDeviceHistory (Some h)\<rparr>)" for h by (simp add: mild_def row_sealed_def)
  from update_store_ok [OF this ok] ok Delete show ?thesis
    by (auto simp: store_step_def deleteDeviceVersion_def split: option.split sum.split)
qed

lemma migrate_sealed:
  assumes "\<forall>r\<in>set rows. row_sealed r"
  shows "migrate_rows env rows db = db"
  using assms
proof (induction rows)
  case (Cons row rows)
  have n: "\<not> starts_with t [CHR 0x7B]" if "sealed t" for t
    using that by (cases t) (auto simp: sealed_def ENCRYPTED_PAYLOAD_VERSION_PREFIX_def)
  have "migrate_field env (Some (ar_tokenJson row)) db = (Inr (Some (ar_tokenJson row), False), db)"
    "migrate_field env (ar_quotaJson row) db = (Inr (ar_quotaJson row, False), db)"
    using Cons.prems n by (auto simp: migrate_field_def row_sealed_def split: option.splits)
  with Cons show ?case by simp
qed simp

lemma repo_run_ok:
  assumes "store_ok (re_cipher env) (re_platform env) db"
  shows "store_ok (re_cipher env) (re_platform env) (repo_run env op db)"
proof (cases op)
  case (GetAccount i)
  have "store_ok (re_cipher env) (re_platform env) (snd (getAccount env i db))"
  proof (cases "select_row i db")
    case (Some row)
    obtain x db1 where l: "load_secrets env row db = (x, db1)" by (metis prod.exhaust)
    from load_secrets_ok [OF assms l] Some l show ?thesis
      by (auto simp: getAccount_def split: sum.split option.split)
  qed (simp add: getAccount_def assms)
  with GetAccount show ?thesis by (simp add: repo_run_def)
next
  case (UpdateLastUsed i)
  then show ?thesis using assms unfolding repo_run_def updateLastUsed_def
    by (auto intro!: update_store_ok simp: mild_def row_sealed_def)
next
  case (SetAccountProxy i p)
  then show ?thesis using assms unfolding repo_run_def setAccountProxy_def
    by (auto intro!: update_store_ok simp: mild_def row_sealed_def)
next
  case (SetAccountStatus i st r)
  then show ?thesis using assms unfolding repo_run_def setAccountStatus_def
    by (auto intro!: update_store_ok simp: mild_def row_sealed_def)
next
  case MigrateToEncrypted
  have "migrateToEncrypted env db = db"
    unfolding migrateToEncrypted_def by (rule migrate_sealed) (blast dest: store_okD(3) [OF assms])
  with MigrateToEncrypted assms show ?thesis by (simp add: repo_run_def)
qed (use assms in \<open>simp_all add: repo_run_def add_account_ok load_rows_ok getAccounts_def getAccountByEmail_def remove_ok updateToken_def
    updateQuota_def update_secret_ok store_step_ok set_active_ok setSetting_def setActiveForTarget_def settings_store_ok
    vault_store_ok restart_reachable\<close>)

lemma repo_reachable_ok: "repo_reachable ci pl db \<Longrightarrow> store_ok ci pl db"
proof (induction rule: repo_reachable.induct)
  case (start db)
  then show ?case by (intro store_okI) (simp_all add: vault_reachable.start)
next
  case (run db env op)
  then show ?case using repo_run_ok [of env db op] by simp
qed

text \<open>C9: Whatever is done with the store, from an empty one on and over restarts of the program: accounts have different
  names, at most one is active, and no token and no quota is stored in the clear.\<close>

theorem store_invariant:
  assumes "repo_reachable ci pl db"
  shows "distinct (map ar_id (cd_accounts db)) \<and> length (filter ar_isActive (cd_accounts db)) \<le> 1 \<and>
    (\<forall>r\<in>set (cd_accounts db). sealed (ar_tokenJson r) \<and> (\<forall>q. ar_quotaJson r = Some q \<longrightarrow> sealed q))"
proof -
  note ok = store_okD [OF repo_reachable_ok [OF assms]]
  have "length (filter ar_isActive (cd_accounts db)) \<le> 1"
  proof (rule ccontr)
    assume "\<not> ?thesis"
    then obtain r s rest where f: "filter ar_isActive (cd_accounts db) = r # s # rest"
      by (cases "filter ar_isActive (cd_accounts db)" rule: remdups_adj.cases) auto
    then have "r \<in> set (filter ar_isActive (cd_accounts db))" "s \<in> set (filter ar_isActive (cd_accounts db))" by simp_all
    then have "ar_id r = ar_id s" using ok(2) by auto
    moreover have "distinct (map ar_id (filter ar_isActive (cd_accounts db)))" using ok(1) by (rule distinct_map_filter)
    ultimately show False unfolding f by simp
  qed
  moreover have "sealed (ar_tokenJson r) \<and> (\<forall>q. ar_quotaJson r = Some q \<longrightarrow> sealed q)" if "r \<in> set (cd_accounts db)" for r
    using ok(3) [OF that] by (auto simp: row_sealed_def)
  ultimately show ?thesis using ok(1) by blast
qed

subsection \<open>Accounts are read back\<close>

definition readable :: "cipher \<Rightarrow> octets \<Rightarrow> string \<Rightarrow> string \<Rightarrow> bool" where
  "readable ci key payload plain \<longleftrightarrow> payload \<noteq> [] \<and>
     (\<forall>pl w w' source. getPrimaryMasterKey pl w = (Inr (key, source), w') \<longrightarrow>
        decryptWithMigration ci pl payload w = (Inr \<lparr>de_value = plain, de_reencrypted = None, de_usedFallback = None\<rparr>, w'))"

lemma readableD:
  "readable ci key payload plain \<Longrightarrow> getPrimaryMasterKey pl w = (Inr (key, source), w') \<Longrightarrow>
   decryptWithMigration ci pl payload w = (Inr \<lparr>de_value = plain, de_reencrypted = None, de_usedFallback = None\<rparr>, w')"
  by (auto simp: readable_def)

lemma encrypt_readable:
  assumes "aead_laws ci" "platform_laws pl" "encrypt_text ci pl plain v = (Inr payload, v1)" "plain \<noteq> []"
  obtains key source where "va_cached v1 = Some (key, source)" "readable ci key payload plain"
    "va_cached v = None \<or> va_cached v = Some (key, source)"
proof -
  obtain r v0 where p: "getPrimaryMasterKey pl v = (r, v0)" by (metis prod.exhaust)
  with assms(3) obtain key source where r: "r = Inr (key, source)"
    by (cases r) (auto simp: encrypt_text_def split: sec_error.splits)
  have e: "encryptWithKey ci pl key plain v0 = (Inr payload, v1)"
    using assms(3) p r by (auto simp: encrypt_text_def split: sum.splits prod.splits)
  obtain iv tag ct where d: "ci_encrypt ci key iv plain = Inr (tag, ct)" "v1 = draw v0"
    "\<And>pl w. decryptWithMigration ci pl payload w = decrypt_parts ci pl True (hex_of iv) (hex_of tag) (hex_of ct) w"
    by (rule encrypted_parts [OF assms(1,2) e assms(4)], rule that, assumption+)
  have "va_cached v1 = Some (key, source)" using key_cached [OF p [unfolded r]] d(2) by (simp add: draw_def)
  moreover have "payload \<noteq> []" using sealed_encrypted [OF e] by (auto simp: sealed_def ENCRYPTED_PAYLOAD_VERSION_PREFIX_def)
  then have "readable ci key payload plain"
    unfolding readable_def d(3) using decrypt_own [OF assms(1) d(1)] by blast
  moreover have "va_cached v = None \<or> va_cached v = Some (key, source)"
    using p r by (cases "va_cached v") (simp_all add: key_cached_again)
  ultimately show thesis using that by blast
qed

definition account_ok :: "stored_account \<Rightarrow> bool" where
  "account_ok a \<longleftrightarrow> json_ok (sa_token a) \<and> (\<forall>q. sa_quota a = Some q \<longrightarrow> json_ok q) \<and>
     (\<forall>p. sa_device_profile a = Some p \<longrightarrow> profile_ok p) \<and> (\<forall>h. sa_device_history a = Some h \<longrightarrow> (\<forall>v\<in>set h. version_ok v))"

text \<open>What the store makes of an account: the status defaults to active, and an empty history is none.\<close>

definition as_stored :: "stored_account \<Rightarrow> stored_account" where
  "as_stored a = a\<lparr>sa_status := Some (if str_truthy (sa_status a) then the (sa_status a) else ''active''),
     sa_device_history := (if sa_device_history a = Some [] then None else sa_device_history a)\<rparr>"

lemma parse_row_of:
  assumes "account_ok a"
  shows "parse_account env (row_of a tok quo) (json_stringify (sa_token a)) (map_option json_stringify (sa_quota a)) = Inr (as_stored a)"
proof -
  have p: "parseDeviceProfileColumn (serializeDeviceProfile (sa_device_profile a)) = Inr (sa_device_profile a)"
    using assms by (cases "sa_device_profile a")
      (simp_all add: serializeDeviceProfile_def [of None] parseDeviceProfileColumn_def [of None] profile_column_roundtrip account_ok_def)
  have h: "parseDeviceHistoryColumn (re_fresh env) (re_now env) (serializeDeviceHistory (sa_device_history a)) =
      Inr (if sa_device_history a = Some [] then None else sa_device_history a)"
    using assms by (cases "sa_device_history a")
      (simp_all add: serializeDeviceHistory_def [of None] parseDeviceHistoryColumn_def [of _ _ None] history_column_roundtrip account_ok_def)
  have t: "json_parse (json_stringify (sa_token a)) = Some (sa_token a)" using assms by (simp add: account_ok_def)
  have q: "(if str_truthy (map_option json_stringify (sa_quota a)) then map_option Some (json_parse (the (map_option json_stringify (sa_quota a))))
      else Some None) = Some (sa_quota a)"
  proof (cases "sa_quota a")
    case (Some q)
    obtain c u where "json_stringify q = c # u" using stringify_head by blast
    then have "str_truthy (Some (json_stringify q))" by simp
    moreover have "json_parse (json_stringify q) = Some q" using assms Some by (simp add: account_ok_def)
    ultimately show ?thesis using Some by simp
  qed simp
  show ?thesis
    unfolding parse_account_def t option.case q
    by (simp add: row_of_def p h as_stored_def)
qed

lemma select_upsert: "find (\<lambda>r. ar_id r = ar_id row) (upsert_row row rows) = Some row"
proof (cases "list_ex (\<lambda>r. ar_id r = ar_id row) rows")
  case True
  then have "find (\<lambda>r. ar_id r = ar_id row) (map (\<lambda>r. if ar_id r = ar_id row then row else r) rows) = Some row"
    by (induction rows) auto
  with True show ?thesis by (simp add: upsert_row_def)
next
  case False
  then have "find (\<lambda>r. ar_id r = ar_id row) (rows @ [row]) = Some row" by (induction rows) auto
  with False show ?thesis by (simp add: upsert_row_def)
qed

lemma select_stored: "select_row (ar_id row) (store_row active row db) = Some row"
  by (simp add: select_row_def store_row_def select_upsert)

lemma getAccount_readable:
  assumes "select_row i db = Some (row_of a tok quo)" "sa_id a = i"
    "readable (re_cipher env) key tok (json_stringify (sa_token a))"
    "case sa_quota a of None \<Rightarrow> quo = None
      | Some q \<Rightarrow> \<exists>p. quo = Some p \<and> readable (re_cipher env) key p (json_stringify q)"
    "getPrimaryMasterKey (re_platform env) (cd_vault db) = (Inr (key, source), w)" "account_ok a"
  shows "getAccount env i db = (Inr (Some (as_stored a)), db\<lparr>cd_vault := w\<rparr>)"
proof -
  let ?row = "row_of a tok quo"
  have tok: "tok \<noteq> []" "json_stringify (sa_token a) \<noteq> []"
    using assms(3) stringify_head [of "sa_token a"] by (auto simp: readable_def)
  have t: "decryptAndMigrateField env (ar_id ?row) TokenColumn (Some (ar_tokenJson ?row)) db =
      (Inr (Some (json_stringify (sa_token a))), db\<lparr>cd_vault := w\<rparr>)"
    using tok readableD [OF assms(3,5)] by (simp add: decryptAndMigrateField_def row_of_def Let_def)
  have w: "getPrimaryMasterKey (re_platform env) w = (Inr (key, source), w)" by (rule key_cached_again [OF key_cached [OF assms(5)]])
  have q: "decryptAndMigrateField env (ar_id ?row) QuotaColumn (ar_quotaJson ?row) (db\<lparr>cd_vault := w\<rparr>) =
      (Inr (map_option json_stringify (sa_quota a)), db\<lparr>cd_vault := w\<rparr>)"
  proof (cases "sa_quota a")
    case None
    with assms(4) show ?thesis by (simp add: decryptAndMigrateField_def row_of_def)
  next
    case (Some q)
    with assms(4) obtain p where p: "quo = Some p" "readable (re_cipher env) key p (json_stringify q)" by auto
    then have "p \<noteq> []" by (simp add: readable_def)
    with p readableD [OF p(2) w] Some show ?thesis by (simp add: decryptAndMigrateField_def row_of_def Let_def)
  qed
  have "load_secrets env ?row db =
      (Inr (Some (json_stringify (sa_token a), map_option json_stringify (sa_quota a))), db\<lparr>cd_vault := w\<rparr>)"
    using tok(2) by (simp add: load_secrets_def t q)
  then show ?thesis by (simp add: getAccount_def assms(1) parse_row_of [OF assms(6)])
qed

text \<open>What reads back the account \<open>a\<close> in the same run, and after a restart at which the key survives.\<close>

definition survives_restart :: "repo_env \<Rightarrow> stored_account \<Rightarrow> cloud_db \<Rightarrow> bool" where
  "survives_restart env a db \<longleftrightarrow>
     (\<exists>key source. va_cached (cd_vault db) = Some (key, source) \<and>
        (\<forall>env2. re_cipher env2 = re_cipher env \<longrightarrow> key_survives (re_platform env) (re_platform env2) source \<longrightarrow>
           fst (getAccount env2 (sa_id a) (db\<lparr>cd_vault := restart (cd_vault db)\<rparr>)) = Inr (Some (as_stored a))))"

lemma add_account_reads:
  assumes "aead_laws (re_cipher env)" "platform_laws (re_platform env)" "repo_reachable (re_cipher env) (re_platform env) db"
    "addAccount env a db = (Inr (), db1)" "account_ok a"
  shows "fst (getAccount env (sa_id a) db1) = Inr (Some (as_stored a)) \<and> survives_restart env a db1 \<and>
    (sa_is_active a \<longrightarrow> (\<forall>r\<in>set (cd_accounts db1). ar_isActive r \<longleftrightarrow> ar_id r = sa_id a))"
proof -
  let ?ci = "re_cipher env" and ?pl = "re_platform env"
  have schema: "CloudAccountSchema a" using assms(4) by (auto simp: addAccount_def split: if_splits)
  have ne: "json_stringify v \<noteq> []" for v using stringify_head [of v] by auto
  obtain x dbt where t: "encrypt_db env (json_stringify (sa_token a)) db = (x, dbt)" by (metis prod.exhaust)
  with assms(4) schema obtain tok where x: "x = Inr tok" by (cases x) (auto simp: addAccount_def)
  obtain vt where et: "encrypt_text ?ci ?pl (json_stringify (sa_token a)) (cd_vault db) = (Inr tok, vt)" "dbt = db\<lparr>cd_vault := vt\<rparr>"
    using t x by (cases "encrypt_text ?ci ?pl (json_stringify (sa_token a)) (cd_vault db)") (auto simp: encrypt_db_def)
  obtain key source where k: "va_cached vt = Some (key, source)" "readable ?ci key tok (json_stringify (sa_token a))"
    by (rule encrypt_readable [OF assms(1,2) et(1) ne])
  obtain quo where st: "cd_accounts db1 = cd_accounts (store_row (sa_is_active a) (row_of a tok quo) db)"
      "va_cached (cd_vault db1) = Some (key, source)"
      "case sa_quota a of None \<Rightarrow> quo = None | Some q \<Rightarrow> \<exists>p. quo = Some p \<and> readable ?ci key p (json_stringify q)"
  proof (cases "sa_quota a")
    case None
    with assms(4) schema t x et(2) k(1) show thesis by (intro that [of None]) (auto simp: addAccount_def store_row_def)
  next
    case (Some q)
    obtain y dbq where q: "encrypt_db env (json_stringify q) dbt = (y, dbq)" by (metis prod.exhaust)
    with assms(4) schema t x Some obtain quo where y: "y = Inr quo" by (cases y) (auto simp: addAccount_def)
    obtain vq where eq: "encrypt_text ?ci ?pl (json_stringify q) vt = (Inr quo, vq)" "dbq = db\<lparr>cd_vault := vq\<rparr>"
      using q y et(2) by (cases "encrypt_text ?ci ?pl (json_stringify q) vt") (auto simp: encrypt_db_def)
    obtain key' source' where k': "va_cached vq = Some (key', source')" "readable ?ci key' quo (json_stringify q)"
      "va_cached vt = None \<or> va_cached vt = Some (key', source')"
      by (rule encrypt_readable [OF assms(1,2) eq(1) ne])
    with k(1) have "key' = key" "source' = source" by auto
    moreover have "db1 = store_row (sa_is_active a) (row_of a tok (Some quo)) dbq"
      using assms(4) schema t x Some q y by (simp add: addAccount_def)
    ultimately show thesis using k' eq(2) Some by (intro that [of "Some quo"]) (auto simp: store_row_def)
  qed
  have sel: "select_row (sa_id a) (db1\<lparr>cd_vault := v\<rparr>) = Some (row_of a tok quo)" for v
    using select_stored [of "row_of a tok quo" "sa_is_active a" db] st(1) by (simp add: select_row_def row_of_def)
  have run: "repo_run env (AddAccount a) db = db1" using assms(4) by (simp add: repo_run_def)
  have ok: "store_ok ?ci ?pl db1" using repo_reachable_ok [OF repo_reachable.run [OF assms(3) refl refl, of "AddAccount a"]] run by simp
  have g1: "fst (getAccount env (sa_id a) db1) = Inr (Some (as_stored a))"
    using getAccount_readable [OF _ refl k(2) st(3) key_cached_again [OF st(2)] assms(5)] sel [of "cd_vault db1"] by simp
  have g2: "fst (getAccount env2 (sa_id a) (db1\<lparr>cd_vault := restart (cd_vault db1)\<rparr>)) = Inr (Some (as_stored a))"
    if e2: "re_cipher env2 = ?ci" "key_survives ?pl (re_platform env2) source" for env2
  proof -
    obtain w where "getPrimaryMasterKey (re_platform env2) (restart (cd_vault db1)) = (Inr (key, source), w)"
      by (rule key_after_restart [OF assms(2) store_okD(4) [OF ok] st(2) e2(2)])
    then show ?thesis
      using getAccount_readable [OF sel refl k(2) [folded e2(1)] st(3) [folded e2(1)] _ assms(5), of "restart (cd_vault db1)" source w]
      by simp
  qed
  then have "survives_restart env a db1" using st(2) unfolding survives_restart_def by blast
  moreover have "ar_isActive r \<longleftrightarrow> ar_id r = sa_id a" if act: "sa_is_active a" and r: "r \<in> set (cd_accounts db1)" for r
  proof -
    have "r \<in> set (upsert_row (row_of a tok quo) (deactivate_all (cd_accounts db)))" using r act st(1) by (simp add: store_row_def)
    from upsert_mem [OF this] act show ?thesis by (auto simp: row_of_def deactivate_all_def)
  qed
  ultimately show ?thesis using g1 by blast
qed

text \<open>C18: An account that was added is read back as it is stored, in the same run and after any restart at which the store of
  the master key still answers (\<open>key_survives\<close>), and is the active one alone when it was added as active. The account is one
  that can be read at all (\<open>account_ok\<close>): no member of its device profiles is empty, the objects in it have distinct member
  names and its numbers at most 30 decimals; an account with an empty profile member is stored but skipped by every reader
  (\<open>blank_profile_hides_account\<close>).\<close>

theorem added_account_is_read_back:
  assumes "aead_laws (re_cipher env)" "platform_laws (re_platform env)" "repo_reachable (re_cipher env) (re_platform env) db"
    "addAccount env a db = (Inr (), db1)" "account_ok a"
  shows "fst (getAccount env (sa_id a) db1) = Inr (Some (as_stored a)) \<and>
    (\<exists>key source. va_cached (cd_vault db1) = Some (key, source) \<and>
       (\<forall>env2. re_cipher env2 = re_cipher env \<longrightarrow> key_survives (re_platform env) (re_platform env2) source \<longrightarrow>
          fst (getAccount env2 (sa_id a) (db1\<lparr>cd_vault := restart (cd_vault db1)\<rparr>)) = Inr (Some (as_stored a)))) \<and>
    (sa_is_active a \<longrightarrow> (\<forall>r\<in>set (cd_accounts db1). ar_isActive r \<longleftrightarrow> ar_id r = sa_id a))"
  using add_account_reads [OF assms] unfolding survives_restart_def .

subsection \<open>A sample store\<close>

definition sample_env :: repo_env where
  "sample_env = \<lparr>re_cipher = sample_cipher, re_platform = sample_platform True, re_now = 5000, re_uuid = ''u'', re_fresh = (\<lambda>n. ''f'')\<rparr>"

definition sample_account :: stored_account where
  "sample_account = \<lparr>sa_id = ''a'', sa_provider = ''google'', sa_email = ''a@b.c'', sa_name = None, sa_avatar_url = None,
     sa_token = JObj [(''access_token'', JStr ''at''), (''refresh_token'', JStr ''rt''), (''token_type'', JStr ''Bearer''),
       (''expires_in'', JNum 3600), (''expiry_timestamp'', JNum 9000)], sa_quota = None,
     sa_device_profile = None, sa_device_history = None, sa_created_at = 1, sa_last_used = 2, sa_status = None,
     sa_status_reason = None, sa_is_active = True, sa_proxy_url = None\<rparr>"

definition empty_db :: cloud_db where
  "empty_db = \<lparr>cd_accounts = [], cd_settings = [], cd_vault = sample_vault\<rparr>"

lemma add_on_empty:
  assumes "CloudAccountSchema a" "sa_quota a = None"
  shows "\<exists>db1. addAccount sample_env a empty_db = (Inr (), db1) \<and>
    map_option snd (va_cached (cd_vault db1)) = Some FromSafeStorage \<and> cd_accounts db1 \<noteq> []"
proof -
  let ?t = "json_stringify (sa_token a)"
  obtain v where v: "getPrimaryMasterKey (sample_platform True) sample_vault = (Inr (replicate 32 0, FromSafeStorage), v)"
    using sample_key by blast
  obtain payload where p: "encryptWithKey sample_cipher (sample_platform True) (replicate 32 0) ?t v = (Inr payload, draw v)"
    using encrypt_total [OF sample_cipher_laws] by (metis length_replicate)
  have "encrypt_db sample_env ?t empty_db = (Inr payload, empty_db\<lparr>cd_vault := draw v\<rparr>)"
    unfolding encrypt_db_def sample_env_def empty_db_def using v p by (simp add: encrypt_text_def)
  moreover have "va_cached (draw v) = Some (replicate 32 0, FromSafeStorage)" using key_cached [OF v] by (simp add: draw_def)
  ultimately show ?thesis using assms by (auto simp: addAccount_def store_row_def upsert_row_def)
qed

lemma sample_add: "\<exists>db1. addAccount sample_env sample_account empty_db = (Inr (), db1) \<and>
    map_option snd (va_cached (cd_vault db1)) = Some FromSafeStorage \<and> cd_accounts db1 \<noteq> []"
  by (rule add_on_empty)
    (simp_all add: CloudAccountSchema_def sample_account_def CloudTokenDataSchema_def object_with_def required_def optional_def)

lemma sample_start: "repo_reachable sample_cipher (sample_platform True) empty_db"
  by (rule repo_reachable.start) (simp_all add: empty_db_def sample_vault_def)

lemma store_invariant_witness:
  "let db = repo_run sample_env (SetActive ''a'') (repo_run sample_env (AddAccount sample_account) empty_db)
   in cd_accounts db \<noteq> [] \<and> length (filter ar_isActive (cd_accounts db)) \<le> 1 \<and> (\<forall>r\<in>set (cd_accounts db). sealed (ar_tokenJson r))"
proof -
  obtain db1 where db1: "addAccount sample_env sample_account empty_db = (Inr (), db1)" "cd_accounts db1 \<noteq> []"
    using sample_add by blast
  have e: "re_cipher sample_env = sample_cipher" "re_platform sample_env = sample_platform True" by (simp_all add: sample_env_def)
  from store_invariant [OF repo_reachable.run [OF repo_reachable.run [OF sample_start e, of "AddAccount sample_account"] e, of "SetActive ''a''"]]
    db1 show ?thesis
    by (auto simp: Let_def repo_run_def setActive_def update_where_def deactivate_all_def)
qed

definition later_env :: repo_env where
  "later_env = sample_env\<lparr>re_platform := later_platform, re_now := 9000\<rparr>"

lemma added_account_is_read_back_witness:
  "\<exists>db1. addAccount sample_env sample_account empty_db = (Inr (), db1) \<and>
     fst (getAccount later_env ''a'' (db1\<lparr>cd_vault := restart (cd_vault db1)\<rparr>)) = Inr (Some (as_stored sample_account))"
proof -
  obtain db1 where db1: "addAccount sample_env sample_account empty_db = (Inr (), db1)"
    "map_option snd (va_cached (cd_vault db1)) = Some FromSafeStorage" using sample_add by blast
  have laws: "aead_laws (re_cipher sample_env)" "platform_laws (re_platform sample_env)"
    "repo_reachable (re_cipher sample_env) (re_platform sample_env) empty_db"
    using sample_cipher_laws sample_platform_laws sample_start by (simp_all add: sample_env_def)
  have ok: "account_ok sample_account" by (simp add: account_ok_def sample_account_def map_keys_ok_def)
  have i: "sa_id sample_account = ''a''" by (simp add: sample_account_def)
  have "re_cipher later_env = re_cipher sample_env" "key_survives (re_platform sample_env) (re_platform later_env) FromSafeStorage"
    by (simp_all add: later_env_def sample_env_def key_survives_def later_platform_def sample_platform_def)
  with added_account_is_read_back [OF laws db1(1) ok, unfolded i] db1 show ?thesis by auto
qed

subsection \<open>What surprises\<close>

text \<open>Activating an account that does not exist deactivates all.\<close>

lemma unknown_id_deactivates:
  assumes "i \<notin> ar_id ` set (cd_accounts db)"
  shows "\<forall>r\<in>set (cd_accounts (setActive i db)). \<not> ar_isActive r"
  using assms by (auto simp: setActive_def update_where_def deactivate_all_def)

text \<open>An account bound to a profile with an empty field is skipped whenever the accounts are read.\<close>

lemma blank_profile_hides_account:
  assumes "ar_deviceProfileJson row = serializeDeviceProfile (Some p)" "\<not> profile_ok p"
  shows "fst (load_rows env [row] db) = Inr [] \<or> (\<exists>e. fst (load_rows env [row] db) = Inl e)"
proof -
  have "parse_account env row token quota \<noteq> Inr a" for token quota a
    using assms by (auto simp: parse_account_def profile_column_roundtrip split: option.splits)
  then have "\<forall>tq. \<exists>e. parse_account env row (fst tq) (snd tq) = Inl e" by (metis sum.exhaust)
  then obtain e where "\<forall>tq. parse_account env row (fst tq) (snd tq) = Inl (e tq)" by metis
  then have "parse_account env row token quota = Inl (e (token, quota))" for token quota by (metis fst_conv snd_conv)
  then show ?thesis by (simp split: sum.split option.split prod.split)
qed

end
