(* ===== verification/IdeSync.thy ===== *)
theory IdeSync
  imports IdeState AccountRepoFacts
begin

section \<open>Taking the account over from the editor\<close>

text \<open>
  \<open>CloudAccountRepo.syncFromIde\<close>: the token is read from the first database of the editor that has one, checked
  against Google's user information (and refreshed when it was refused), and stored as the active account, over the account
  with the same e-mail address if there is one. Google's services are arguments: a failure with its message, or the answer.
\<close>

record user_info =
  ui_email :: string
  ui_name :: "string option"
  ui_picture :: "string option"

record refreshed =
  rf_access_token :: string
  rf_refresh_token :: "string option"
  rf_id_token :: "string option"

record google_api =
  ga_getUserInfo :: "string \<Rightarrow> string + user_info"
  ga_refreshAccessToken :: "string \<Rightarrow> string + refreshed"

definition shouldRefreshAccessTokenForUserInfo :: "string \<Rightarrow> string \<Rightarrow> bool" where
  "shouldRefreshAccessTokenForUserInfo message accessToken =
     (js_trim accessToken = [] \<or>
      (let m = js_lower message
       in str_contains m (CHR 0x22 # ''code'' @ CHR 0x22 # '':401'') \<or> str_contains m ''http 401'' \<or> str_contains m ''unauthenticated'' \<or>
          str_contains m ''unauthorized'' \<or> str_contains m ''missing required authentication credential''))"

definition isMissingIdeTokenError :: "string \<Rightarrow> bool" where
  "isMissingIdeTokenError message =
     (let m = js_lower message in str_contains m ''no cloud account found in ide'' \<or> str_contains m ''no oauth token found in ide state'')"

text \<open>The databases that exist, in order; the last error is thrown when none has a token.\<close>

fun find_token :: "(faults \<times> item_table) list \<Rightarrow> ide_error \<Rightarrow> ide_error + ide_token_info" where
  "find_token [] lastError = Inl lastError"
| "find_token ((fl, tbl) # dbs) lastError =
     (case readTokenInfoWithRetry fl tbl of
        Inr i \<Rightarrow> Inr i
      | Inl e \<Rightarrow> if isMissingIdeTokenError (ie_message e) then find_token dbs e else Inl e)"

definition first_user_info :: "google_api \<Rightarrow> string \<Rightarrow> string + user_info" where
  "first_user_info api accessToken =
     (if js_trim accessToken = [] then Inl ''IDE OAuth access token is empty'' else ga_getUserInfo api accessToken)"

definition refresh_failed :: "string \<Rightarrow> string" where
  "refresh_failed m = ''Failed to refresh IDE token with Google API. Please re-login in Antigravity IDE. Error: '' @ m"

definition validate_failed :: "string \<Rightarrow> string" where
  "validate_failed m =
     ''Failed to validate token with Google API. The token may be expired. Please re-login in Antigravity IDE. Error: '' @ m"

text \<open>The tokens that count and the user they belong to.\<close>

definition checked_tokens :: "google_api \<Rightarrow> ide_token_info \<Rightarrow> string + ide_token_info \<times> user_info" where
  "checked_tokens api info =
     (case first_user_info api (it_accessToken info) of
        Inr user \<Rightarrow> Inr (info, user)
      | Inl e \<Rightarrow>
          if \<not> shouldRefreshAccessTokenForUserInfo e (it_accessToken info) then Inl (validate_failed e)
          else (case ga_refreshAccessToken api (it_refreshToken info) of
                  Inl e' \<Rightarrow> Inl (refresh_failed e')
                | Inr r \<Rightarrow>
                    (let info' = info\<lparr>it_accessToken := rf_access_token r,
                           it_refreshToken := (if str_truthy (rf_refresh_token r) then the (rf_refresh_token r) else it_refreshToken info),
                           it_idToken := (case rf_id_token r of Some t \<Rightarrow> Some t | None \<Rightarrow> it_idToken info)\<rparr>
                     in (case ga_getUserInfo api (it_accessToken info') of
                           Inl e' \<Rightarrow> Inl (refresh_failed e')
                         | Inr user \<Rightarrow> Inr (info', user)))))"

text \<open>A member that is undefined is not stored.\<close>

definition set_opt :: "string \<Rightarrow> string option \<Rightarrow> members \<Rightarrow> members" where
  "set_opt k v m = (case v of None \<Rightarrow> AList.delete k m | Some s \<Rightarrow> AList.update k (JStr s) m)"

definition token_update :: "ide_token_info \<Rightarrow> user_info \<Rightarrow> rat \<Rightarrow> string \<Rightarrow> string option \<Rightarrow> json \<Rightarrow> string option \<Rightarrow> members \<Rightarrow> members" where
  "token_update info user now refreshToken project gcpTos idToken m =
     set_opt ''id_token'' idToken (AList.update ''is_gcp_tos'' gcpTos (set_opt ''project_id'' project
       (AList.update ''email'' (JStr (ui_email user)) (AList.update ''token_type'' (JStr ''Bearer'')
         (AList.update ''expiry_timestamp'' (JNum (now + 3600)) (AList.update ''expires_in'' (JNum 3600)
           (AList.update ''refresh_token'' (JStr refreshToken) (AList.update ''access_token'' (JStr (it_accessToken info)) m))))))))"

definition new_ide_account :: "string \<Rightarrow> rat \<Rightarrow> ide_token_info \<Rightarrow> user_info \<Rightarrow> stored_account" where
  "new_ide_account uuid now info user =
     \<lparr>sa_id = uuid, sa_provider = ''google'', sa_email = ui_email user, sa_name = ui_name user, sa_avatar_url = ui_picture user,
      sa_token = JObj (token_update info user now (it_refreshToken info) (it_projectId info) (JBool False) (it_idToken info) []),
      sa_quota = None, sa_device_profile = None, sa_device_history = None, sa_created_at = now, sa_last_used = now,
      sa_status = Some ''active'', sa_status_reason = None, sa_is_active = True, sa_proxy_url = None\<rparr>"

definition members_of :: "json \<Rightarrow> members" where
  "members_of v = (case v of JObj m \<Rightarrow> m | _ \<Rightarrow> [])"

definition merge_ide_account :: "rat \<Rightarrow> ide_token_info \<Rightarrow> user_info \<Rightarrow> stored_account \<Rightarrow> stored_account \<Rightarrow> stored_account" where
  "merge_ide_account now info user existing a =
     (let old = sa_token existing; existingProjectId = map_option js_trim (token_opt old ''project_id'')
      in a\<lparr>sa_id := sa_id existing, sa_created_at := sa_created_at existing,
           sa_name := (case sa_name a of Some n \<Rightarrow> Some n | None \<Rightarrow> sa_name existing),
           sa_avatar_url := (case sa_avatar_url a of Some u \<Rightarrow> Some u | None \<Rightarrow> sa_avatar_url existing),
           sa_proxy_url := sa_proxy_url existing, sa_device_profile := sa_device_profile existing,
           sa_device_history := sa_device_history existing, sa_status := Some ''active'', sa_status_reason := None,
           sa_token := JObj (token_update info user now
             (if it_refreshToken info \<noteq> [] then it_refreshToken info else token_str old ''refresh_token'')
             (if str_truthy existingProjectId then existingProjectId else it_projectId info)
             (case jget old ''is_gcp_tos'' of Some v \<Rightarrow> (if v = JNull then JBool False else v) | None \<Rightarrow> JBool False)
             (case it_idToken info of Some t \<Rightarrow> Some t | None \<Rightarrow> token_opt old ''id_token'')
             (members_of old))\<rparr>)"

definition ide_account :: "string \<Rightarrow> rat \<Rightarrow> ide_token_info \<Rightarrow> user_info \<Rightarrow> stored_account list \<Rightarrow> stored_account" where
  "ide_account uuid now info user accounts =
     (let a = new_ide_account uuid now info user
      in (case find (\<lambda>s. sa_email s = sa_email a) accounts of
            None \<Rightarrow> a
          | Some existing \<Rightarrow> merge_ide_account now info user existing a))"

definition syncFromIde ::
    "repo_env \<Rightarrow> google_api \<Rightarrow> (string \<times> (faults \<times> item_table) option) list \<Rightarrow> cloud_db \<Rightarrow> (sec_error + stored_account) \<times> cloud_db" where
  "syncFromIde env api dbPaths db =
     (let existing = List.map_filter snd dbPaths
      in if existing = []
         then (Inl (PlainError (''Antigravity database not found. Please ensure Antigravity IDE is installed. Checked paths: '' @
                 join '', '' (map fst dbPaths))), db)
         else (case find_token existing (plain_error []) of
                 Inl e \<Rightarrow> (Inl (PlainError (ie_message e)), db)
               | Inr tokenInfo \<Rightarrow>
                   (case checked_tokens api tokenInfo of
                      Inl m \<Rightarrow> (Inl (PlainError m), db)
                    | Inr (info, user) \<Rightarrow>
                        (case getAccounts env db of
                           (Inl e, db1) \<Rightarrow> (Inl e, db1)
                         | (Inr accounts, db1) \<Rightarrow>
                             (let a = ide_account (re_uuid env) (of_int \<lfloor>re_now env / 1000\<rfloor>) info user accounts
                              in (case addAccount env a db1 of
                                    (Inl e, db2) \<Rightarrow> (Inl e, db2)
                                  | (Inr _, db2) \<Rightarrow> (Inr a, db2)))))))"

subsection \<open>What is stored\<close>

lemma token_update_get:
  "map_of (token_update info user now refreshToken project gcpTos idToken m) ''access_token'' = Some (JStr (it_accessToken info))"
  "map_of (token_update info user now refreshToken project gcpTos idToken m) ''refresh_token'' = Some (JStr refreshToken)"
  "map_of (token_update info user now refreshToken project gcpTos idToken m) ''email'' = Some (JStr (ui_email user))"
  by (auto simp: token_update_def set_opt_def update_conv' delete_conv' split: option.split)

lemma ide_account_members:
  "sa_email (ide_account uuid now info user accounts) = ui_email user" "sa_is_active (ide_account uuid now info user accounts)"
  "token_opt (sa_token (ide_account uuid now info user accounts)) ''access_token'' = Some (it_accessToken info)"
  by (simp_all add: ide_account_def new_ide_account_def merge_ide_account_def Let_def token_opt_def token_update_get split: option.split)

lemma checked_tokens_owner:
  "checked_tokens api info = Inr (info', user) \<Longrightarrow> ga_getUserInfo api (it_accessToken info') = Inr user"
  by (auto simp: checked_tokens_def first_user_info_def Let_def split: sum.splits if_splits)

text \<open>C28: A synchronisation stores the account of the user that Google names for the stored access token. It is read back, in the
  same run and after any restart at which the store of the master key still answers (\<open>key_survives\<close>), provided it can be read at
  all (\<open>account_ok\<close>: no empty member in a device profile, distinct member names, numbers of at most 30 decimals). It is the only
  active account, and takes the place of the stored account with the same e-mail address, with its id, age, proxy and device
  bindings; its name and picture are the ones Google gives, and the old ones only where Google gives none.\<close>

theorem sync_stores_the_editor_account:
  assumes "aead_laws (re_cipher env)" "platform_laws (re_platform env)" "repo_reachable (re_cipher env) (re_platform env) db"
    "syncFromIde env api dbPaths db = (Inr a, db')" "account_ok a"
  shows "(\<exists>accounts user token. token_opt (sa_token a) ''access_token'' = Some token \<and> ga_getUserInfo api token = Inr user \<and>
       sa_email a = ui_email user \<and> fst (getAccounts env db) = Inr accounts \<and>
       (case find (\<lambda>s. sa_email s = ui_email user) accounts of
          None \<Rightarrow> sa_id a = re_uuid env \<and> sa_name a = ui_name user \<and> sa_avatar_url a = ui_picture user
        | Some old \<Rightarrow> sa_id a = sa_id old \<and> sa_created_at a = sa_created_at old \<and> sa_proxy_url a = sa_proxy_url old \<and>
            sa_device_profile a = sa_device_profile old \<and> sa_device_history a = sa_device_history old \<and>
            sa_name a = (if ui_name user = None then sa_name old else ui_name user) \<and>
            sa_avatar_url a = (if ui_picture user = None then sa_avatar_url old else ui_picture user))) \<and>
    fst (getAccount env (sa_id a) db') = Inr (Some (as_stored a)) \<and>
    (\<exists>key source. va_cached (cd_vault db') = Some (key, source) \<and>
       (\<forall>env2. re_cipher env2 = re_cipher env \<longrightarrow> key_survives (re_platform env) (re_platform env2) source \<longrightarrow>
          fst (getAccount env2 (sa_id a) (db'\<lparr>cd_vault := restart (cd_vault db')\<rparr>)) = Inr (Some (as_stored a)))) \<and>
    (\<forall>r\<in>set (cd_accounts db'). ar_isActive r \<longleftrightarrow> ar_id r = sa_id a)"
proof -
  from assms(4) obtain info0 info user accounts db1 where s: "checked_tokens api info0 = Inr (info, user)"
      "getAccounts env db = (Inr accounts, db1)" "a = ide_account (re_uuid env) (of_int \<lfloor>re_now env / 1000\<rfloor>) info user accounts"
      "addAccount env a db1 = (Inr (), db')"
    by (auto simp: syncFromIde_def Let_def split: if_splits sum.splits prod.splits)
  have "repo_run env GetAccounts db = db1" using s(2) by (simp add: repo_run_def)
  then have "repo_reachable (re_cipher env) (re_platform env) db1"
    using repo_reachable.run [OF assms(3) refl refl, of GetAccounts] by simp
  note added = add_account_reads [OF assms(1,2) this s(4) assms(5), unfolded survives_restart_def]
  have e: "sa_email a = ui_email user" "sa_is_active a" "token_opt (sa_token a) ''access_token'' = Some (it_accessToken info)"
    unfolding s(3) by (rule ide_account_members)+
  have "case find (\<lambda>s. sa_email s = ui_email user) accounts of
      None \<Rightarrow> sa_id a = re_uuid env \<and> sa_name a = ui_name user \<and> sa_avatar_url a = ui_picture user
    | Some old \<Rightarrow> sa_id a = sa_id old \<and> sa_created_at a = sa_created_at old \<and> sa_proxy_url a = sa_proxy_url old \<and>
        sa_device_profile a = sa_device_profile old \<and> sa_device_history a = sa_device_history old \<and>
        sa_name a = (if ui_name user = None then sa_name old else ui_name user) \<and>
        sa_avatar_url a = (if ui_picture user = None then sa_avatar_url old else ui_picture user)"
    unfolding s(3) ide_account_def Let_def
    by (auto simp: new_ide_account_def merge_ide_account_def Let_def split: option.split)
  then have "\<exists>accounts user token. token_opt (sa_token a) ''access_token'' = Some token \<and> ga_getUserInfo api token = Inr user \<and>
       sa_email a = ui_email user \<and> fst (getAccounts env db) = Inr accounts \<and>
       (case find (\<lambda>s. sa_email s = ui_email user) accounts of
          None \<Rightarrow> sa_id a = re_uuid env \<and> sa_name a = ui_name user \<and> sa_avatar_url a = ui_picture user
        | Some old \<Rightarrow> sa_id a = sa_id old \<and> sa_created_at a = sa_created_at old \<and> sa_proxy_url a = sa_proxy_url old \<and>
            sa_device_profile a = sa_device_profile old \<and> sa_device_history a = sa_device_history old \<and>
            sa_name a = (if ui_name user = None then sa_name old else ui_name user) \<and>
            sa_avatar_url a = (if ui_picture user = None then sa_avatar_url old else ui_picture user))"
    using e(1,3) s(2) checked_tokens_owner [OF s(1)]
    by (intro exI [of _ accounts] exI [of _ user] exI [of _ "it_accessToken info"]) simp
  then show ?thesis using added e(2) by blast
qed

text \<open>The quota of the account that is taken over is lost.\<close>

lemma sync_drops_quota: "sa_quota (ide_account uuid now info user accounts) = None"
  by (simp add: ide_account_def new_ide_account_def merge_ide_account_def Let_def split: option.split)

definition sample_google :: google_api where
  "sample_google = \<lparr>ga_getUserInfo = (\<lambda>t. if t = ''at'' then Inr \<lparr>ui_email = ''a@b.c'', ui_name = None, ui_picture = None\<rparr> else Inl ''HTTP 401''),
     ga_refreshAccessToken = (\<lambda>_. Inl ''no'')\<rparr>"

lemma sync_stores_the_editor_account_witness:
  "\<exists>a db'. syncFromIde sample_env sample_google [(''p'', None), (''q'', Some (\<lambda>_ _. None, injectNewFormat sample_account []))] empty_db = (Inr a, db') \<and>
     sa_id a = ''u'' \<and> fst (getAccount later_env ''u'' (db'\<lparr>cd_vault := restart (cd_vault db')\<rparr>)) = Inr (Some (as_stored a))"
proof -
  let ?dbs = "[(''p'', None), (''q'', Some (\<lambda>_ _. None, injectNewFormat sample_account []))] :: (string \<times> (faults \<times> item_table) option) list"
  let ?info = "\<lparr>it_accessToken = ''at'', it_refreshToken = ''rt'', it_idToken = None, it_projectId = None\<rparr>"
  let ?user = "\<lparr>ui_email = ''a@b.c'', ui_name = None, ui_picture = None\<rparr>"
  let ?a = "new_ide_account ''u'' 5 ?info ?user"
  have "0 \<le> token_int (sa_token sample_account) ''expiry_timestamp''" by (simp add: token_int_def sample_account_def)
  from injected_tokens_read [OF this, of "[]"] have "readTokenInfoFromDb (injectNewFormat sample_account []) = Inr ?info"
    by (simp add: tokens_of_def token_str_def token_opt_def sample_account_def)
  then have t: "readTokenInfoWithRetry (\<lambda>_ _. None) (injectNewFormat sample_account []) = Inr ?info"
    by (simp add: readTokenInfoWithRetry_def SQLITE_MAX_RETRIES_def numeral_3_eq_3)
  have c: "checked_tokens sample_google ?info = Inr (?info, ?user)"
    by (simp add: checked_tokens_def first_user_info_def sample_google_def js_trim_def trim_left_def is_ws_def)
  have g: "getAccounts sample_env empty_db = (Inr [], empty_db)" by (simp add: getAccounts_def empty_db_def)
  have five: "of_int \<lfloor>re_now sample_env / 1000\<rfloor> = (5 :: rat)" by (simp add: sample_env_def)
  obtain v where v: "getPrimaryMasterKey (sample_platform True) sample_vault = (Inr (replicate 32 0, FromSafeStorage), v)"
    using sample_key by blast
  obtain payload where p: "encryptWithKey sample_cipher (sample_platform True) (replicate 32 0) (json_stringify (sa_token ?a)) v = (Inr payload, draw v)"
    using encrypt_total [OF sample_cipher_laws] by (metis length_replicate)
  have enc: "encrypt_db sample_env (json_stringify (sa_token ?a)) empty_db = (Inr payload, empty_db\<lparr>cd_vault := draw v\<rparr>)"
    unfolding encrypt_db_def sample_env_def empty_db_def using v p by (simp add: encrypt_text_def)
  have tok: "sa_token ?a = JObj [(''access_token'', JStr ''at''), (''refresh_token'', JStr ''rt''), (''expires_in'', JNum 3600),
      (''expiry_timestamp'', JNum 3605), (''token_type'', JStr ''Bearer''), (''email'', JStr ''a@b.c''), (''is_gcp_tos'', JBool False)]"
    by (simp add: new_ide_account_def token_update_def set_opt_def)
  have "CloudAccountSchema ?a" unfolding CloudAccountSchema_def tok
    by (simp add: new_ide_account_def CloudTokenDataSchema_def object_with_def required_def optional_def)
  with enc obtain db' where a: "addAccount sample_env ?a empty_db = (Inr (), db')" "cd_vault db' = draw v"
    by (simp add: addAccount_def new_ide_account_def store_row_def)
  have s: "syncFromIde sample_env sample_google ?dbs empty_db = (Inr ?a, db')"
  proof -
    have u: "re_uuid sample_env = ''u''" by (simp add: sample_env_def)
    show ?thesis
      unfolding syncFromIde_def Let_def five u by (simp add: List.map_filter_simps t c g ide_account_def a(1) Let_def)
  qed
  have laws: "aead_laws (re_cipher sample_env)" "platform_laws (re_platform sample_env)"
    "repo_reachable (re_cipher sample_env) (re_platform sample_env) empty_db"
    using sample_cipher_laws sample_platform_laws sample_start by (simp_all add: sample_env_def)
  have ok: "account_ok ?a" unfolding account_ok_def tok by (simp add: new_ide_account_def map_keys_ok_def)
  have i: "sa_id ?a = ''u''" by (simp add: new_ide_account_def)
  have "va_cached (cd_vault db') = Some (replicate 32 0, FromSafeStorage)" using key_cached [OF v] a(2) by (simp add: draw_def)
  moreover have "re_cipher later_env = re_cipher sample_env" "key_survives (re_platform sample_env) (re_platform later_env) FromSafeStorage"
    by (simp_all add: later_env_def sample_env_def key_survives_def later_platform_def sample_platform_def)
  ultimately have "fst (getAccount later_env ''u'' (db'\<lparr>cd_vault := restart (cd_vault db')\<rparr>)) = Inr (Some (as_stored ?a))"
    using sync_stores_the_editor_account [OF laws s ok, THEN conjunct2, THEN conjunct2, THEN conjunct1, unfolded i] by auto
  with s i show ?thesis by (intro exI [of _ ?a] exI [of _ db'] conjI)
qed

end
