(* ===== verification/DeviceStorage.thy ===== *)
theory DeviceStorage
  imports IdeState
begin

section \<open>The device identity of the editor\<close>

text \<open>
  \<open>identity-profile/ipc/handler.ts\<close>: profiles are generated, read from the editor's \<open>storage.json\<close> and applied to it and to its
  state database, with a backup that is put back when a step fails, a snapshot of the last state that worked, and a safe
  mode after repeated failures. A JSON file is given by the value it parses to (an inner None when it is no JSON); the state
  database by its item table. Each access to the disk may fail with an error, and then has no effect; random bytes, the hash
  and the time are arguments. Removing a file (the backups, a new database) is taken to succeed, and the journal files beside the
  database are left out. The files of both applications have the same form; the paths are not modelled.
\<close>

subsection \<open>Generating a profile\<close>

definition machine_id_prefix :: string where "machine_id_prefix = ''auth0|user_''"

definition uuid_bytes :: "octets \<Rightarrow> octets" where
  "uuid_bytes digest =
     (let bs = take 16 digest
      in bs[6 := or (and (bs ! 6) 0x0F) 0x40, 8 := or (and (bs ! 8) 0x3F) 0x80])"

definition slice :: "nat \<Rightarrow> nat \<Rightarrow> string \<Rightarrow> string" where
  "slice i j s = drop i (take j s)"

definition deterministicUuidFromSeed :: "(string \<Rightarrow> octets) \<Rightarrow> string \<Rightarrow> string \<Rightarrow> string" where
  "deterministicUuidFromSeed sha256 seed namespace =
     (let hex = hex_of (uuid_bytes (sha256 (namespace @ '':'' @ seed)))
      in join ''-'' [slice 0 8 hex, slice 8 12 hex, slice 12 16 hex, slice 16 20 hex, slice 20 32 hex])"

definition lower_hex :: "char \<Rightarrow> bool" where
  "lower_hex c \<longleftrightarrow> c \<in> set ''0123456789abcdef''"

text \<open>The patterns of version 4 identifiers, character by character.\<close>

definition uuid_char :: "char \<Rightarrow> char \<Rightarrow> bool" where
  "uuid_char p c = (if p = CHR ''x'' then lower_hex c else if p = CHR ''y'' then c \<in> set ''89ab'' else c = p)"

definition uuid_pattern :: string where
  "uuid_pattern = ''xxxxxxxx-xxxx-4xxx-yxxx-xxxxxxxxxxxx''"

definition is_uuid_v4 :: "string \<Rightarrow> bool" where
  "is_uuid_v4 = list_all2 uuid_char uuid_pattern"

definition sqm_char :: "char \<Rightarrow> char \<Rightarrow> bool" where
  "sqm_char p c = (if p = CHR ''x'' then c \<in> set ''0123456789ABCDEF'' else if p = CHR ''y'' then c \<in> set ''89AB'' else c = p)"

definition is_sqm_id :: "string \<Rightarrow> bool" where
  "is_sqm_id = list_all2 sqm_char (CHR 0x7B # uuid_pattern @ [CHR 0x7D])"

definition ensureGeneratedProfile :: "device_profile \<Rightarrow> string option" where
  "ensureGeneratedProfile p =
     (let suffix = drop (length machine_id_prefix) (machineId p)
      in if \<not> starts_with (machineId p) machine_id_prefix then Some ''generated_profile_machine_id_prefix_invalid''
         else if length suffix \<noteq> 32 then Some ''generated_profile_machine_id_length_invalid''
         else if \<not> (suffix \<noteq> [] \<and> list_all lower_hex suffix) then Some ''generated_profile_machine_id_suffix_invalid''
         else if \<not> is_uuid_v4 (macMachineId p) then Some ''generated_profile_mac_machine_id_invalid''
         else if \<not> is_uuid_v4 (devDeviceId p) then Some ''generated_profile_dev_device_id_invalid''
         else if \<not> is_sqm_id (sqmId p) then Some ''generated_profile_sqm_id_invalid''
         else if macMachineId p = devDeviceId p then Some ''generated_profile_uuid_collision''
         else None)"

text \<open>The templates of all platforms are the same one, so the choice among them is left out.\<close>

definition generated_profile :: "(string \<Rightarrow> octets) \<Rightarrow> octets \<Rightarrow> device_profile" where
  "generated_profile sha256 random =
     (let seed = take 32 (hex_of random)
      in \<lparr>machineId = machine_id_prefix @ take 32 seed, macMachineId = deterministicUuidFromSeed sha256 seed ''mac'',
          devDeviceId = deterministicUuidFromSeed sha256 seed ''dev'',
          sqmId = CHR 0x7B # js_upper (deterministicUuidFromSeed sha256 seed ''sqm'') @ [CHR 0x7D]\<rparr>)"

definition generateDeviceProfile :: "(string \<Rightarrow> octets) \<Rightarrow> octets \<Rightarrow> string + device_profile" where
  "generateDeviceProfile sha256 random =
     (let p = generated_profile sha256 random
      in (case ensureGeneratedProfile p of Some e \<Rightarrow> Inl e | None \<Rightarrow> Inr p))"

subsection \<open>The files\<close>

record disk =
  dk_storage :: "json option option"
  dk_state :: "item_table option"
  dk_storage_backup :: "json option option"
  dk_state_backup :: "item_table option"
  dk_good_storage :: "json option option"
  dk_good_state :: "item_table option"
  dk_good_marker :: "bool option"
  dk_baseline :: "json option option"

datatype disk_op =
    BackUpStorage | BackUpState | LoadStorage | StoreStorage | OpenState nat | PutState nat string | CheckStorage | CheckState
  | SnapStorage | SnapState | SnapMarker | RestoreStorage | RestoreState | RestoreGoodStorage | RestoreGoodState

type_synonym disk_faults = "disk_op \<Rightarrow> ide_error option"

text \<open>A step gives the message of its error, if any, and the disk it leaves.\<close>

type_synonym disk_step = "disk \<Rightarrow> string option \<times> disk"

definition access :: "disk_faults \<Rightarrow> disk_op \<Rightarrow> (disk \<Rightarrow> disk) \<Rightarrow> disk_step" where
  "access fl acc f d = (case fl acc of Some e \<Rightarrow> (Some (ie_message e), d) | None \<Rightarrow> (None, f d))"

definition and_then :: "disk_step \<Rightarrow> disk_step \<Rightarrow> disk_step" where
  "and_then s t d = (case s d of (Some e, d') \<Rightarrow> (Some e, d') | (None, d') \<Rightarrow> t d')"

definition parseStorageJson :: "json option \<Rightarrow> string + members" where
  "parseStorageJson content =
     (case content of
        None \<Rightarrow> Inl ''SyntaxError''
      | Some (JObj m) \<Rightarrow> Inr m
      | Some _ \<Rightarrow> Inl ''storage.json top-level value must be an object'')"

definition nonempty_text :: "json option \<Rightarrow> string option" where
  "nonempty_text v = (case v of Some (JStr s) \<Rightarrow> if s \<noteq> [] then Some s else None | _ \<Rightarrow> None)"

definition getTelemetryField :: "members \<Rightarrow> string \<Rightarrow> string option" where
  "getTelemetryField storage key =
     (case (case map_of storage ''telemetry'' of Some (JObj t) \<Rightarrow> nonempty_text (map_of t key) | _ \<Rightarrow> None) of
        Some v \<Rightarrow> Some v
      | None \<Rightarrow> nonempty_text (map_of storage (''telemetry.'' @ key)))"

definition readCurrentDeviceProfile :: "json option \<Rightarrow> string + device_profile" where
  "readCurrentDeviceProfile content =
     (case parseStorageJson content of
        Inl e \<Rightarrow> Inl e
      | Inr s \<Rightarrow>
          (case (getTelemetryField s ''machineId'', getTelemetryField s ''macMachineId'', getTelemetryField s ''devDeviceId'',
                 getTelemetryField s ''sqmId'') of
             (Some a, Some b, Some c, Some d) \<Rightarrow> Inr \<lparr>machineId = a, macMachineId = b, devDeviceId = c, sqmId = d\<rparr>
           | _ \<Rightarrow> Inl ''missing_device_fingerprint_fields''))"

definition STATE_SERVICE_MACHINE_ID_KEYS :: "string list" where
  "STATE_SERVICE_MACHINE_ID_KEYS = [''storage.serviceMachineId'', ''telemetry.serviceMachineId'']"

definition readStateServiceMachineIdValue :: "disk_faults \<Rightarrow> disk \<Rightarrow> string option" where
  "readStateServiceMachineIdValue fl d =
     (if fl CheckState \<noteq> None then None
      else (case dk_state d of None \<Rightarrow> None | Some tbl \<Rightarrow>
              (let v = getItemValue tbl ''storage.serviceMachineId'' in if str_truthy v then v else None)))"

definition ensureStorageStateConsistency :: "disk_faults \<Rightarrow> bool \<Rightarrow> bool \<Rightarrow> disk \<Rightarrow> string option" where
  "ensureStorageStateConsistency fl expectedStateDb requireMatch d =
     (case (case dk_storage d of None \<Rightarrow> Inl ''ENOENT'' | Some content \<Rightarrow> readCurrentDeviceProfile content) of
        Inl e \<Rightarrow> Some e
      | Inr profile \<Rightarrow>
          (if dk_state d = None then (if expectedStateDb then Some ''state_vscdb_missing_after_restore'' else None)
           else (let stateValue = readStateServiceMachineIdValue fl d
                 in if \<not> requireMatch \<and> stateValue = None then None
                    else if stateValue \<noteq> Some (devDeviceId profile) then Some ''storage_state_service_machine_id_mismatch''
                    else None)))"

subsection \<open>Baseline\<close>

definition loadGlobalOriginalProfile :: "disk \<Rightarrow> json option" where
  "loadGlobalOriginalProfile d = (case dk_baseline d of Some (Some v) \<Rightarrow> Some v | _ \<Rightarrow> None)"

definition saveGlobalOriginalProfile :: "device_profile \<Rightarrow> disk \<Rightarrow> disk" where
  "saveGlobalOriginalProfile p d = (if dk_baseline d = None then d\<lparr>dk_baseline := Some (Some (profile_json p))\<rparr> else d)"

definition ensureGlobalOriginalFromCurrentStorage :: "disk \<Rightarrow> disk" where
  "ensureGlobalOriginalFromCurrentStorage d =
     (if truthy_opt (loadGlobalOriginalProfile d) then d
      else (case dk_storage d of
              None \<Rightarrow> d
            | Some content \<Rightarrow> (case readCurrentDeviceProfile content of Inl _ \<Rightarrow> d | Inr p \<Rightarrow> saveGlobalOriginalProfile p d)))"

subsection \<open>Applying a profile\<close>

datatype apply_stage = PrepareBackup | PrepareWriteStorage | PrepareSyncState | VerifyStorage | VerifyState

datatype apply_failure =
  BackupFailed | StorageWriteFailed | StateSyncFailed | VerifyStorageFailed | VerifyStateFailed | RollbackFailed

definition classifyApplyFailure :: "apply_stage \<Rightarrow> apply_failure" where
  "classifyApplyFailure stage =
     (case stage of
        PrepareBackup \<Rightarrow> BackupFailed
      | PrepareWriteStorage \<Rightarrow> StorageWriteFailed
      | PrepareSyncState \<Rightarrow> StateSyncFailed
      | VerifyStorage \<Rightarrow> VerifyStorageFailed
      | VerifyState \<Rightarrow> VerifyStateFailed)"

definition back_up :: "disk_faults \<Rightarrow> bool \<Rightarrow> disk_step" where
  "back_up fl hadStateDb =
     and_then (access fl BackUpStorage (\<lambda>d. d\<lparr>dk_storage_backup := dk_storage d\<rparr>))
       (if hadStateDb then access fl BackUpState (\<lambda>d. d\<lparr>dk_state_backup := dk_state d\<rparr>) else Pair None)"

definition telemetry_names :: "string list" where
  "telemetry_names = [''machineId'', ''macMachineId'', ''devDeviceId'', ''sqmId'']"

definition profile_field :: "device_profile \<Rightarrow> string \<Rightarrow> json" where
  "profile_field p name =
     JStr (if name = ''machineId'' then machineId p else if name = ''macMachineId'' then macMachineId p
           else if name = ''devDeviceId'' then devDeviceId p else sqmId p)"

definition ensureTelemetryObject :: "members \<Rightarrow> members" where
  "ensureTelemetryObject storage = (case map_of storage ''telemetry'' of Some (JObj t) \<Rightarrow> t | _ \<Rightarrow> [])"

definition apply_to_storage :: "device_profile \<Rightarrow> members \<Rightarrow> members" where
  "apply_to_storage p storage =
     (let telemetry = fold (\<lambda>n. AList.update n (profile_field p n)) telemetry_names (ensureTelemetryObject storage)
      in AList.update ''storage.serviceMachineId'' (JStr (devDeviceId p))
           (fold (\<lambda>n. AList.update (''telemetry.'' @ n) (profile_field p n)) telemetry_names
             (AList.update ''telemetry'' (JObj telemetry) storage)))"

definition write_storage :: "disk_faults \<Rightarrow> device_profile \<Rightarrow> disk_step" where
  "write_storage fl p =
     and_then (access fl LoadStorage id)
       (\<lambda>d. case parseStorageJson (case dk_storage d of Some c \<Rightarrow> c | None \<Rightarrow> None) of
          Inl e \<Rightarrow> (Some e, d)
        | Inr m \<Rightarrow> access fl StoreStorage (\<lambda>d. d\<lparr>dk_storage := Some (Some (JObj (apply_to_storage p m)))\<rparr>) d)"

fun put_keys :: "disk_faults \<Rightarrow> nat \<Rightarrow> string \<Rightarrow> string list \<Rightarrow> item_table \<Rightarrow> ide_error option \<times> item_table" where
  "put_keys fl attempt v [] tbl = (None, tbl)"
| "put_keys fl attempt v (k # ks) tbl =
     (case fl (PutState attempt k) of
        Some e \<Rightarrow> (Some e, tbl)
      | None \<Rightarrow> put_keys fl attempt v ks (upsertItemValue k v tbl))"

definition state_table :: "disk \<Rightarrow> item_table" where
  "state_table d = (case dk_state d of Some tbl \<Rightarrow> tbl | None \<Rightarrow> [])"

definition sync_once :: "disk_faults \<Rightarrow> nat \<Rightarrow> string \<Rightarrow> disk \<Rightarrow> ide_error option \<times> disk" where
  "sync_once fl attempt v d =
     (case fl (OpenState attempt) of
        Some e \<Rightarrow> (Some e, d)
      | None \<Rightarrow>
          (case put_keys fl attempt v STATE_SERVICE_MACHINE_ID_KEYS (state_table d) of
             (e, tbl) \<Rightarrow> (e, d\<lparr>dk_state := Some tbl\<rparr>)))"

definition SQLITE_RETRY_COUNT :: nat where "SQLITE_RETRY_COUNT = 3"

fun sync_attempts :: "nat \<Rightarrow> disk_faults \<Rightarrow> string \<Rightarrow> disk_step" where
  "sync_attempts 0 fl v d = (Some ''sync_state_service_machine_id_failed'', d)"
| "sync_attempts (Suc left) fl v d =
     (case sync_once fl (SQLITE_RETRY_COUNT - left) v d of
        (None, d') \<Rightarrow> (None, d')
      | (Some e, d') \<Rightarrow>
          if isSqliteBusyError e \<and> left > 0 then sync_attempts left fl v d' else (Some (ie_message e), d'))"

definition syncStateServiceMachineIdValue :: "disk_faults \<Rightarrow> string \<Rightarrow> disk_step" where
  "syncStateServiceMachineIdValue = sync_attempts SQLITE_RETRY_COUNT"

definition ensureStorageProfileApplied :: "disk_faults \<Rightarrow> device_profile \<Rightarrow> disk_step" where
  "ensureStorageProfileApplied fl p =
     and_then (access fl CheckStorage id)
       (\<lambda>d. (case readCurrentDeviceProfile (case dk_storage d of Some c \<Rightarrow> c | None \<Rightarrow> None) of
          Inl e \<Rightarrow> Some e
        | Inr q \<Rightarrow> if areDeviceProfilesEqual q p then None else Some ''device_profile_integrity_check_failed_for_storage'', d))"

definition ensureStateServiceMachineIdApplied :: "disk_faults \<Rightarrow> string \<Rightarrow> disk_step" where
  "ensureStateServiceMachineIdApplied fl v d =
     (if readStateServiceMachineIdValue fl d = Some v then None else Some ''device_profile_integrity_check_failed_for_state_db'', d)"

definition apply_stages :: "disk_faults \<Rightarrow> bool \<Rightarrow> device_profile \<Rightarrow> (apply_stage \<times> disk_step) list" where
  "apply_stages fl hadStateDb p =
     [(PrepareBackup, back_up fl hadStateDb), (PrepareWriteStorage, write_storage fl p),
      (PrepareSyncState, syncStateServiceMachineIdValue fl (devDeviceId p)),
      (VerifyStorage, ensureStorageProfileApplied fl p), (VerifyState, ensureStateServiceMachineIdApplied fl (devDeviceId p))]"

fun run_stages :: "(apply_stage \<times> disk_step) list \<Rightarrow> disk \<Rightarrow> (apply_stage \<times> string) option \<times> disk" where
  "run_stages [] d = (None, d)"
| "run_stages ((stage, step) # stages) d =
     (case step d of (Some e, d') \<Rightarrow> (Some (stage, e), d') | (None, d') \<Rightarrow> run_stages stages d')"

definition saveLastKnownGoodSnapshot :: "disk_faults \<Rightarrow> disk_step" where
  "saveLastKnownGoodSnapshot fl =
     and_then (access fl SnapStorage (\<lambda>d. d\<lparr>dk_good_storage := dk_storage d\<rparr>))
       (and_then (access fl SnapState (\<lambda>d. d\<lparr>dk_good_state := dk_state d\<rparr>))
         (access fl SnapMarker (\<lambda>d. d\<lparr>dk_good_marker := Some (dk_state d \<noteq> None)\<rparr>)))"

definition cleanup_backups :: "disk \<Rightarrow> disk" where
  "cleanup_backups d = d\<lparr>dk_storage_backup := None, dk_state_backup := None\<rparr>"

text \<open>Putting the backup back; the consistency is checked without requiring an identifier in the database.\<close>

definition restore_backup :: "disk_faults \<Rightarrow> bool \<Rightarrow> disk_step" where
  "restore_backup fl hadStateDb =
     and_then (\<lambda>d. if dk_storage_backup d \<noteq> None then access fl RestoreStorage (\<lambda>d. d\<lparr>dk_storage := dk_storage_backup d\<rparr>) d else (None, d))
       (and_then (\<lambda>d. if hadStateDb \<and> dk_state_backup d \<noteq> None then access fl RestoreState (\<lambda>d. d\<lparr>dk_state := dk_state_backup d\<rparr>) d else (None, d))
         (\<lambda>d. let d' = (if hadStateDb then d else d\<lparr>dk_state := None\<rparr>) in (ensureStorageStateConsistency fl hadStateDb False d', d')))"

definition restoreLastKnownGoodSnapshot :: "disk_faults \<Rightarrow> disk \<Rightarrow> bool \<times> disk" where
  "restoreLastKnownGoodSnapshot fl d =
     (case dk_good_marker d of
        None \<Rightarrow> (False, d)
      | Some hasStateDb \<Rightarrow>
          if dk_good_storage d = None then (False, d)
          else (case and_then (access fl RestoreGoodStorage (\<lambda>d. d\<lparr>dk_storage := dk_good_storage d\<rparr>))
                  (and_then (\<lambda>d. if hasStateDb \<and> dk_good_state d \<noteq> None then access fl RestoreGoodState (\<lambda>d. d\<lparr>dk_state := dk_good_state d\<rparr>) d
                                 else (None, d\<lparr>dk_state := None\<rparr>))
                    (\<lambda>d. (ensureStorageStateConsistency fl hasStateDb True d, d))) d of
                  (e, d') \<Rightarrow> (e = None, d')))"

subsection \<open>Safe mode\<close>

record hardening =
  consecutiveApplyFailures :: nat
  safeModeUntil :: "rat option"
  lastFailure :: "(apply_failure \<times> string \<times> rat) option"

definition new_hardening :: hardening where
  "new_hardening = \<lparr>consecutiveApplyFailures = 0, safeModeUntil = None, lastFailure = None\<rparr>"

definition SAFE_MODE_THRESHOLD :: nat where "SAFE_MODE_THRESHOLD = 3"

definition SAFE_MODE_DURATION_MS :: rat where "SAFE_MODE_DURATION_MS = 5 * 60 * 1000"

definition stage_name :: "apply_stage \<Rightarrow> string" where
  "stage_name stage =
     (case stage of PrepareBackup \<Rightarrow> ''prepare_backup'' | PrepareWriteStorage \<Rightarrow> ''prepare_write_storage''
        | PrepareSyncState \<Rightarrow> ''prepare_sync_state'' | VerifyStorage \<Rightarrow> ''verify_storage'' | VerifyState \<Rightarrow> ''verify_state'')"

definition failure_name :: "apply_failure \<Rightarrow> string" where
  "failure_name reason =
     (case reason of BackupFailed \<Rightarrow> ''backup_failed'' | StorageWriteFailed \<Rightarrow> ''storage_write_failed'' | StateSyncFailed \<Rightarrow> ''state_sync_failed''
        | VerifyStorageFailed \<Rightarrow> ''verify_storage_failed'' | VerifyStateFailed \<Rightarrow> ''verify_state_failed'' | RollbackFailed \<Rightarrow> ''rollback_failed'')"

definition markApplySuccess :: "hardening \<Rightarrow> hardening" where
  "markApplySuccess h = h\<lparr>consecutiveApplyFailures := 0, safeModeUntil := None\<rparr>"

definition markApplyFailure :: "rat \<Rightarrow> apply_failure \<Rightarrow> string \<Rightarrow> hardening \<Rightarrow> hardening" where
  "markApplyFailure now reason stage h =
     (let n = consecutiveApplyFailures h + 1
      in h\<lparr>consecutiveApplyFailures := n, lastFailure := Some (reason, stage, now),
           safeModeUntil := (if n \<ge> SAFE_MODE_THRESHOLD then Some (now + SAFE_MODE_DURATION_MS) else safeModeUntil h)\<rparr>)"

text \<open>A time of zero counts as none.\<close>

definition isSafeModeActiveNow :: "rat \<Rightarrow> hardening \<Rightarrow> bool \<times> hardening" where
  "isSafeModeActiveNow now h =
     (case safeModeUntil h of
        None \<Rightarrow> (False, h)
      | Some until \<Rightarrow>
          if until = 0 then (False, h) else if now < until then (True, h) else (False, h\<lparr>safeModeUntil := None\<rparr>))"

definition isIdentityProfileApplyEnabled :: "string option \<Rightarrow> string option \<Rightarrow> rat \<Rightarrow> hardening \<Rightarrow> bool \<times> hardening" where
  "isIdentityProfileApplyEnabled applyEnabled fingerprintEnabled now h =
     (let raw = (case applyEnabled of Some v \<Rightarrow> Some v | None \<Rightarrow> fingerprintEnabled)
      in if str_truthy raw \<and> js_lower (js_trim (the raw)) \<in> {''0'', ''false'', ''off'', ''no''} then (False, h)
         else (let (active, h') = isSafeModeActiveNow now h in (\<not> active, h')))"

definition getDeviceHardeningSnapshot :: "rat \<Rightarrow> hardening \<Rightarrow> (bool \<times> hardening) \<times> hardening" where
  "getDeviceHardeningSnapshot now h =
     (let (active, h') = isSafeModeActiveNow now h
      in ((active, if active then h' else h'\<lparr>safeModeUntil := None\<rparr>), h'))"

definition buildApplyError :: "apply_stage \<Rightarrow> string \<Rightarrow> string" where
  "buildApplyError stage message =
     ''device_apply_failed:'' @ failure_name (classifyApplyFailure stage) @ '':'' @ stage_name stage @ '':'' @ message"

text \<open>Undoing a failed application: the backup, else the snapshot; a failure of both counts once more.\<close>

definition roll_back :: "disk_faults \<Rightarrow> rat \<Rightarrow> bool \<Rightarrow> disk \<times> hardening \<Rightarrow> disk \<times> hardening" where
  "roll_back fl now hadStateDb dh =
     (case restore_backup fl hadStateDb (fst dh) of
        (None, d1) \<Rightarrow> (d1, snd dh)
      | (Some _, d1) \<Rightarrow>
          (case restoreLastKnownGoodSnapshot fl d1 of
             (True, d2) \<Rightarrow> (d2, snd dh)
           | (False, d2) \<Rightarrow> (d2, markApplyFailure now RollbackFailed ''rollback_last_known_good'' (snd dh))))"

definition applyDeviceProfile :: "disk_faults \<Rightarrow> rat \<Rightarrow> device_profile \<Rightarrow> disk \<times> hardening \<Rightarrow> (string + unit) \<times> disk \<times> hardening" where
  "applyDeviceProfile fl now p dh =
     (let d = fst dh; hadStateDb = (dk_state d \<noteq> None)
      in if dk_storage d = None then (Inl ''storage_json_not_found'', dh)
         else (case run_stages (apply_stages fl hadStateDb p) d of
                 (None, d1) \<Rightarrow> (Inr (), cleanup_backups (snd (saveLastKnownGoodSnapshot fl d1)), markApplySuccess (snd dh))
               | (Some (stage, message), d1) \<Rightarrow>
                   (let (d2, h2) = roll_back fl now hadStateDb (d1, markApplyFailure now (classifyApplyFailure stage) (stage_name stage) (snd dh))
                    in (Inl (buildApplyError stage message), cleanup_backups d2, h2))))"

subsection \<open>Generated profiles have their form\<close>

lemma lower_hex_nibble: "n < 16 \<Longrightarrow> lower_hex (nibble n)"
proof -
  have "\<forall>n\<in>set [0..<16]. lower_hex (nibble n)" by code_simp
  then show "n < 16 \<Longrightarrow> lower_hex (nibble n)" by simp
qed

lemma octet_cases:
  assumes "\<forall>n\<in>set [0..255]. P (word_of_int n)"
  shows "P (b :: 8 word)"
proof -
  have "uint b < 2 ^ LENGTH(8)" by (rule unsigned_less)
  then have "uint b < 256" by simp
  then have "uint b \<in> set [0..255]" by (simp add: uint_ge_0)
  with assms have "P (word_of_int (uint b))" by (rule bspec)
  then show ?thesis by simp
qed
lemma unat_div: "uint (w :: 8 word) div int k = int c \<Longrightarrow> unat w div k = c"
  by (metis of_nat_eq_iff of_nat_unat zdiv_int)
lemma version_octet: "unat (or (and b 0x0F) 0x40 :: 8 word) div 16 = 4"
proof (rule unat_div)
  show "uint (or (and b 0x0F) 0x40 :: 8 word) div int 16 = int 4"
    by (rule octet_cases) code_simp
qed

lemma variant_octet: "nibble (unat (or (and b 0x3F) 0x80 :: 8 word) div 16) \<in> set ''89ab''"
proof -
  have d: "unat (or (and b 0x3F) 0x80 :: 8 word) div 64 = 2"
  proof (rule unat_div)
    show "uint (or (and b 0x3F) 0x80 :: 8 word) div int 64 = int 2"
      by (rule octet_cases) code_simp
  qed
  have r: "8 \<le> n div 16 \<and> n div 16 \<le> 11" if "n div 64 = 2" for n :: nat
  proof -
    have "n div 16 div 4 = 2" using that by (simp add: div_mult2_eq [symmetric])
    then show ?thesis by linarith
  qed
  have "nibble 8 = CHR ''8''" "nibble 9 = CHR ''9''" "nibble 10 = CHR ''a''" "nibble 11 = CHR ''b''" by code_simp+
  then have c: "nibble n \<in> set ''89ab''" if "n = 8 \<or> n = 9 \<or> n = 10 \<or> n = 11" for n
    using that by auto
  have "n = 8 \<or> n = 9 \<or> n = 10 \<or> n = 11" if "8 \<le> n" "n \<le> 11" for n :: nat using that by presburger
  with r [OF d] have "nibble (unat (or (and b 0x3F) 0x80 :: 8 word) div 16) \<in> set ''89ab''" by (intro c) blast
  then show ?thesis .
qed

lemma list_16:
  assumes "length xs = 16"
  obtains a b c d e f g h i j k l m n p q where "xs = [a, b, c, d, e, f, g, h, i, j, k, l, m, n, p, q]"
proof -
  have u: "[0..<16] = [0, 1, 2, 3, 4, 5, 6, 7, 8, 9, 10, 11, 12, 13, 14, 15 :: nat]" by (simp add: upt_rec)
  have "map ((!) xs) [0..<16] = xs" using assms map_nth [of xs] by metis
  from this [symmetric, unfolded u list.map] show thesis by (rule that)
qed

lemma generated_uuid: "length (sha256 (namespace @ '':'' @ seed)) \<ge> 16 \<Longrightarrow> is_uuid_v4 (deterministicUuidFromSeed sha256 seed namespace)"
proof -
  assume "length (sha256 (namespace @ '':'' @ seed)) \<ge> 16"
  then have "length (take 16 (sha256 (namespace @ '':'' @ seed))) = 16" by simp
  then obtain a b c d e f g h i j k l m n p q where
    t: "take 16 (sha256 (namespace @ '':'' @ seed)) = [a, b, c, d, e, f, g, h, i, j, k, l, m, n, p, q]" by (rule list_16)
  have hexes: "lower_hex (nibble (unat (x :: 8 word) div 16))" "lower_hex (nibble (unat x mod 16))" for x
    by (simp_all add: lower_hex_nibble unat_octet)
  have four: "nibble 4 = CHR ''4''" by code_simp
  have "deterministicUuidFromSeed sha256 seed namespace =
      concat (map (\<lambda>x. [nibble (unat x div 16), nibble (unat x mod 16)]) [a, b, c, d]) @ ''-'' @
      concat (map (\<lambda>x. [nibble (unat x div 16), nibble (unat x mod 16)]) [e, f]) @ ''-'' @
      [CHR ''4'', nibble (unat (or (and g 0x0F) 0x40 :: 8 word) mod 16), nibble (unat h div 16), nibble (unat h mod 16)] @ ''-'' @
      [nibble (unat (or (and i 0x3F) 0x80 :: 8 word) div 16), nibble (unat (or (and i 0x3F) 0x80 :: 8 word) mod 16),
        nibble (unat j div 16), nibble (unat j mod 16)] @ ''-'' @
      concat (map (\<lambda>x. [nibble (unat x div 16), nibble (unat x mod 16)]) [k, l, m, n, p, q])"
    unfolding deterministicUuidFromSeed_def uuid_bytes_def t Let_def
    by (simp add: hex_of_def slice_def version_octet four)
  then show ?thesis
    using variant_octet [of i] by (simp add: is_uuid_v4_def uuid_pattern_def uuid_char_def hexes)
qed

lemma upper_uuid_char: "uuid_char p c \<Longrightarrow> p \<in> set uuid_pattern \<Longrightarrow> sqm_char p (upper_char c)"
proof -
  assume u: "uuid_char p c" "p \<in> set uuid_pattern"
  have "\<forall>p\<in>set ''xy4-''. \<forall>c\<in>set ''0123456789abcdef-''. uuid_char p c \<longrightarrow> sqm_char p (upper_char c)" by code_simp
  moreover have "p \<in> set ''xy4-''" using u(2) by (auto simp: uuid_pattern_def)
  moreover from this u(1) have "c \<in> set ''0123456789abcdef-''"
    unfolding uuid_char_def lower_hex_def by (cases "p = CHR ''x''"; cases "p = CHR ''y''") auto
  ultimately show "sqm_char p (upper_char c)" using u(1) by blast
qed

lemma upper_uuid: "is_uuid_v4 u \<Longrightarrow> is_sqm_id (CHR 0x7B # js_upper u @ [CHR 0x7D])"
proof -
  assume "is_uuid_v4 u"
  then have l: "list_all2 uuid_char uuid_pattern u" by (simp add: is_uuid_v4_def)
  have "list_all2 sqm_char uuid_pattern (js_upper u)"
    using l upper_uuid_char [OF _ nth_mem] by (simp add: js_upper_def list_all2_conv_all_nth)
  then have "list_all2 sqm_char (uuid_pattern @ [CHR 0x7D]) (js_upper u @ [CHR 0x7D])"
    by (intro list_all2_appendI) (simp_all add: sqm_char_def)
  then show ?thesis by (simp add: is_sqm_id_def sqm_char_def)
qed

text \<open>A generated profile passes every check of its form, whatever the random bytes and the hash are; the only profile that
  is refused is one whose two identifiers collide.\<close>

theorem generated_profiles_are_valid:
  assumes "length random = 16" "\<forall>x. 16 \<le> length (sha256 x)"
  shows "let p = generated_profile sha256 random
    in is_uuid_v4 (macMachineId p) \<and> is_uuid_v4 (devDeviceId p) \<and> is_sqm_id (sqmId p) \<and> profile_ok p \<and>
       generateDeviceProfile sha256 random =
         (if macMachineId p = devDeviceId p then Inl ''generated_profile_uuid_collision'' else Inr p)"
proof -
  let ?p = "generated_profile sha256 random"
  have hex: "list_all lower_hex (hex_of bs)" for bs
    by (induction bs) (simp_all add: hex_of_def lower_hex_nibble unat_octet)
  have l: "length (hex_of random) = 32" using assms(1) by simp
  then have m: "machineId ?p = machine_id_prefix @ hex_of random" by (simp add: generated_profile_def Let_def)
  have u: "is_uuid_v4 (deterministicUuidFromSeed sha256 seed namespace)" for seed namespace
    using generated_uuid assms(2) by blast
  have id: "is_uuid_v4 (macMachineId ?p)" "is_uuid_v4 (devDeviceId ?p)" "is_sqm_id (sqmId ?p)"
    by (simp_all add: generated_profile_def Let_def u upper_uuid)
  have ne: "is_uuid_v4 x \<Longrightarrow> x \<noteq> []" "is_sqm_id x \<Longrightarrow> x \<noteq> []" for x
    by (auto simp: is_uuid_v4_def is_sqm_id_def uuid_pattern_def)
  have "profile_ok ?p" using ne id m by (simp add: profile_ok_def machine_id_prefix_def)
  moreover have "generateDeviceProfile sha256 random =
      (if macMachineId ?p = devDeviceId ?p then Inl ''generated_profile_uuid_collision'' else Inr ?p)"
    using id m l hex [of random] by (auto simp: generateDeviceProfile_def ensureGeneratedProfile_def Let_def)
  ultimately show ?thesis using id by (simp add: Let_def)
qed

subsection \<open>A failed application is undone\<close>

definition same_rest :: "disk \<Rightarrow> disk \<Rightarrow> bool" where
  "same_rest d d' \<longleftrightarrow> dk_storage_backup d' = dk_storage_backup d \<and> dk_state_backup d' = dk_state_backup d \<and>
     dk_good_storage d' = dk_good_storage d \<and> dk_good_state d' = dk_good_state d \<and> dk_good_marker d' = dk_good_marker d \<and>
     dk_baseline d' = dk_baseline d"

lemma same_rest_refl [simp]: "same_rest d d"
  by (simp add: same_rest_def)

lemma same_rest_trans: "same_rest d1 d2 \<Longrightarrow> same_rest d2 d3 \<Longrightarrow> same_rest d1 d3"
  by (simp add: same_rest_def)

lemma write_storage_rest: "write_storage fl p d = (e, d') \<Longrightarrow> same_rest d d' \<and> dk_state d' = dk_state d"
  by (auto simp: write_storage_def and_then_def access_def same_rest_def split: option.splits sum.splits)

lemma sync_once_rest: "sync_once fl n v d = (e, d') \<Longrightarrow> same_rest d d' \<and> dk_storage d' = dk_storage d"
  by (auto simp: sync_once_def same_rest_def split: option.splits prod.splits)

lemma sync_attempts_rest: "sync_attempts k fl v d = (e, d') \<Longrightarrow> same_rest d d' \<and> dk_storage d' = dk_storage d"
proof (induction k arbitrary: d)
  case 0
  then show ?case by auto
next
  case (Suc k)
  obtain r d1 where o: "sync_once fl (SQLITE_RETRY_COUNT - k) v d = (r, d1)" by fastforce
  have d1: "same_rest d d1" "dk_storage d1 = dk_storage d" using sync_once_rest [OF o] by auto
  show ?case
  proof (cases "\<exists>x. r = Some x \<and> isSqliteBusyError x \<and> k > 0")
    case True
    with Suc.prems o have "sync_attempts k fl v d1 = (e, d')" by auto
    from Suc.IH [OF this] d1 same_rest_trans show ?thesis by metis
  next
    case False
    with Suc.prems o d1 show ?thesis by (auto split: option.splits if_splits)
  qed
qed

lemma storage_check_rest: "ensureStorageProfileApplied fl p d = (e, d') \<Longrightarrow> d' = d"
  by (auto simp: ensureStorageProfileApplied_def and_then_def access_def split: option.splits)

lemma state_check_rest: "ensureStateServiceMachineIdApplied fl v d = (e, d') \<Longrightarrow> d' = d"
  by (simp add: ensureStateServiceMachineIdApplied_def)

lemma run_stages_rest:
  "(\<And>stage step d e d'. (stage, step) \<in> set stages \<Longrightarrow> step d = (e, d') \<Longrightarrow> same_rest d d') \<Longrightarrow>
   run_stages stages d = (r, d') \<Longrightarrow> same_rest d d'"
proof (induction stages d rule: run_stages.induct)
  case (2 stage step stages d)
  obtain e d1 where s: "step d = (e, d1)" by fastforce
  have "same_rest d d1" using 2(2) s by (metis list.set_intros(1))
  moreover have "same_rest d1 d'" if "e = None"
    using 2(1) [OF s [symmetric] that] 2(2,3) s that by (metis (no_types, lifting) list.set_intros(2) option.simps(4) prod.simps(2) run_stages.simps(2))
  ultimately show ?case using 2(3) s same_rest_trans by (auto split: option.splits)
qed auto

text \<open>Where a failed application has left the disk: the backup is there, or nothing has been touched.\<close>

definition backed_up :: "bool \<Rightarrow> disk \<Rightarrow> disk \<Rightarrow> bool" where
  "backed_up hadStateDb d d1 \<longleftrightarrow>
     (dk_storage_backup d1 = dk_storage d \<or> dk_storage_backup d1 = None \<and> dk_storage d1 = dk_storage d) \<and>
     (hadStateDb \<longrightarrow> dk_state_backup d1 = dk_state d \<or> dk_state_backup d1 = None \<and> dk_state d1 = dk_state d) \<and>
     dk_good_storage d1 = dk_good_storage d \<and> dk_good_state d1 = dk_good_state d \<and> dk_good_marker d1 = dk_good_marker d"

lemma back_up_fails:
  assumes "back_up fl had d = (Some e, d1)" "dk_storage_backup d = None" "dk_state_backup d = None"
  shows "backed_up had d d1"
  using assms by (auto simp: back_up_def and_then_def access_def backed_up_def split: option.splits if_splits)

lemma back_up_works:
  assumes "back_up fl had d = (None, d1)" "dk_state_backup d = None"
  shows "dk_storage_backup d1 = dk_storage d \<and> (had \<longrightarrow> dk_state_backup d1 = dk_state d) \<and> dk_storage d1 = dk_storage d \<and> dk_state d1 = dk_state d \<and>
    dk_good_storage d1 = dk_good_storage d \<and> dk_good_state d1 = dk_good_state d \<and> dk_good_marker d1 = dk_good_marker d \<and>
    dk_baseline d1 = dk_baseline d"
  using assms by (auto simp: back_up_def and_then_def access_def split: option.splits if_splits)

lemma failed_stages_backed_up:
  assumes "run_stages (apply_stages fl had p) d = (Some r, d1)" "dk_storage_backup d = None" "dk_state_backup d = None"
  shows "backed_up had d d1"
proof -
  obtain e d0 where b: "back_up fl had d = (e, d0)" by fastforce
  show ?thesis
  proof (cases e)
    case None
    have "run_stages (tl (apply_stages fl had p)) d0 = (Some r, d1)"
      using assms(1) b None by (simp add: apply_stages_def)
    then have "same_rest d0 d1"
      by (rule run_stages_rest [rotated])
        (auto simp: apply_stages_def syncStateServiceMachineIdValue_def dest: write_storage_rest sync_attempts_rest storage_check_rest state_check_rest)
    with back_up_works [OF b [unfolded None] assms(3)] show ?thesis by (auto simp: same_rest_def backed_up_def)
  next
    case (Some m)
    with assms(1) b have "d1 = d0" by (simp add: apply_stages_def)
    with back_up_fails [OF b [unfolded Some] assms(2,3)] show ?thesis by simp
  qed
qed

lemma consistency_cong:
  "dk_storage d1 = dk_storage d \<Longrightarrow> dk_state d1 = dk_state d \<Longrightarrow>
   ensureStorageStateConsistency fl expected require d1 = ensureStorageStateConsistency fl expected require d"
  by (simp only: ensureStorageStateConsistency_def readStateServiceMachineIdValue_def)

lemma restore_gives_original:
  assumes "backed_up had d d1" "had \<longleftrightarrow> dk_state d \<noteq> None" "fl RestoreStorage = None" "fl RestoreState = None"
    "dk_storage d \<noteq> None"
  shows "\<exists>d2. restore_backup fl had d1 = (ensureStorageStateConsistency fl had False d, d2) \<and>
    dk_storage d2 = dk_storage d \<and> dk_state d2 = dk_state d \<and> dk_good_storage d2 = dk_good_storage d \<and>
    dk_good_state d2 = dk_good_state d \<and> dk_good_marker d2 = dk_good_marker d"
proof -
  define d2 where "d2 = (if dk_storage_backup d1 \<noteq> None then d1\<lparr>dk_storage := dk_storage_backup d1\<rparr> else d1)"
  define d3 where "d3 = (if had \<and> dk_state_backup d2 \<noteq> None then d2\<lparr>dk_state := dk_state_backup d2\<rparr> else d2)"
  define d4 where "d4 = (if had then d3 else d3\<lparr>dk_state := None\<rparr>)"
  have r: "restore_backup fl had d1 = (ensureStorageStateConsistency fl had False d4, d4)"
    using assms(3,4) by (simp add: restore_backup_def and_then_def access_def d2_def d3_def d4_def Let_def)
  have "dk_storage d4 = dk_storage d" using assms(1,5) by (auto simp: d4_def d3_def d2_def backed_up_def)
  moreover have "dk_state d4 = dk_state d"
    using assms(1,2) by (auto simp: d4_def d3_def d2_def backed_up_def)
  moreover have "dk_good_storage d4 = dk_good_storage d" "dk_good_state d4 = dk_good_state d" "dk_good_marker d4 = dk_good_marker d"
    using assms(1) by (auto simp: d4_def d3_def d2_def backed_up_def)
  ultimately show ?thesis using r consistency_cong by metis
qed

text \<open>C21: A failed application is undone: whichever step fails, and with whatever partial writes before it, the editor's storage file
  and state database are what they were (a database that was not there is removed again), provided they were consistent
  and the backup can be put back; the backups are removed (removing a file is taken to succeed), the snapshot of the last good state is kept, and one failure is
  counted.\<close>

theorem failed_application_is_undone:
  assumes "applyDeviceProfile fl now p (d, h) = (Inl message, d', h')" "dk_storage d \<noteq> None"
    "dk_storage_backup d = None" "dk_state_backup d = None" "fl RestoreStorage = None" "fl RestoreState = None"
    "ensureStorageStateConsistency fl (dk_state d \<noteq> None) False d = None"
  shows "dk_storage d' = dk_storage d \<and> dk_state d' = dk_state d \<and> dk_storage_backup d' = None \<and> dk_state_backup d' = None \<and>
    dk_good_storage d' = dk_good_storage d \<and> dk_good_state d' = dk_good_state d \<and> dk_good_marker d' = dk_good_marker d \<and>
    consecutiveApplyFailures h' = consecutiveApplyFailures h + 1"
proof -
  let ?had = "dk_state d \<noteq> None"
  from assms(1,2) obtain stage m d1 where f: "run_stages (apply_stages fl ?had p) d = (Some (stage, m), d1)"
    by (auto simp: applyDeviceProfile_def Let_def split: if_splits prod.splits option.splits)
  note b = failed_stages_backed_up [OF f assms(3,4)]
  from restore_gives_original [OF b refl assms(5,6,2)] assms(7) obtain d2 where r: "restore_backup fl ?had d1 = (None, d2)"
    "dk_storage d2 = dk_storage d" "dk_state d2 = dk_state d" "dk_good_storage d2 = dk_good_storage d"
    "dk_good_state d2 = dk_good_state d" "dk_good_marker d2 = dk_good_marker d" by auto
  have "d' = cleanup_backups d2" "h' = markApplyFailure now (classifyApplyFailure stage) (stage_name stage) h"
    using assms(1,2) f r(1) by (simp_all add: applyDeviceProfile_def roll_back_def Let_def)
  with r show ?thesis by (simp add: cleanup_backups_def markApplyFailure_def Let_def)
qed

text \<open>A consistent pair is required: otherwise the file that has just been put back is replaced by the snapshot, however old.\<close>

lemma inconsistent_original_is_replaced:
  assumes "applyDeviceProfile fl now p (d, h) = (Inl message, d', h')" "dk_storage d \<noteq> None"
    "dk_storage_backup d = None" "dk_state_backup d = None" "fl RestoreStorage = None" "fl RestoreState = None"
    "ensureStorageStateConsistency fl (dk_state d \<noteq> None) False d = Some e"
    "dk_good_marker d = Some hasState" "dk_good_storage d = Some old" "fl RestoreGoodStorage = None"
  shows "dk_storage d' = Some old"
proof -
  let ?had = "dk_state d \<noteq> None"
  from assms(1,2) obtain stage m d1 where f: "run_stages (apply_stages fl ?had p) d = (Some (stage, m), d1)"
    by (auto simp: applyDeviceProfile_def Let_def split: if_splits prod.splits option.splits)
  note b = failed_stages_backed_up [OF f assms(3,4)]
  from restore_gives_original [OF b refl assms(5,6,2)] assms(7) obtain d2 where r: "restore_backup fl ?had d1 = (Some e, d2)"
    "dk_good_storage d2 = Some old" "dk_good_marker d2 = Some hasState" using assms(8,9) by auto
  obtain ok d3 where g: "restoreLastKnownGoodSnapshot fl d2 = (ok, d3)" by fastforce
  have "dk_storage d3 = Some old"
    using g r assms(10) by (auto simp: restoreLastKnownGoodSnapshot_def and_then_def access_def split: option.splits if_splits)
  moreover have "d' = cleanup_backups d3"
    using assms(1,2) f r(1) g by (cases ok) (simp_all add: applyDeviceProfile_def roll_back_def Let_def)
  ultimately show ?thesis by (simp add: cleanup_backups_def)
qed

subsection \<open>A successful application\<close>

lemma put_keys_result:
  "put_keys fl n v ks tbl = (e, tbl') \<Longrightarrow>
   (\<forall>k. k \<notin> set ks \<longrightarrow> map_of tbl' k = map_of tbl k) \<and> (e = None \<longrightarrow> (\<forall>k\<in>set ks. map_of tbl' k = Some v))"
proof (induction ks arbitrary: tbl)
  case (Cons k ks)
  show ?case
  proof (cases "fl (PutState n k)")
    case None
    with Cons.prems have "put_keys fl n v ks (upsertItemValue k v tbl) = (e, tbl')" by simp
    from Cons.IH [OF this] show ?thesis by (auto simp: upsertItemValue_def update_conv')
  next
    case (Some x)
    with Cons.prems show ?thesis by auto
  qed
qed auto

lemma sync_once_result:
  assumes "sync_once fl n v d = (e, d')"
  shows "(\<forall>k. k \<notin> set STATE_SERVICE_MACHINE_ID_KEYS \<longrightarrow> map_of (state_table d') k = map_of (state_table d) k) \<and>
    (e = None \<longrightarrow> (\<forall>k\<in>set STATE_SERVICE_MACHINE_ID_KEYS. map_of (state_table d') k = Some v))"
proof (cases "fl (OpenState n)")
  case None
  obtain r tbl where r: "put_keys fl n v STATE_SERVICE_MACHINE_ID_KEYS (state_table d) = (r, tbl)" by fastforce
  with assms None have "e = r" "state_table d' = tbl" by (auto simp: sync_once_def state_table_def)
  with put_keys_result [OF r] show ?thesis by blast
next
  case (Some x)
  with assms show ?thesis by (auto simp: sync_once_def)
qed

lemma sync_attempts_result:
  "sync_attempts k fl v d = (e, d') \<Longrightarrow>
   (\<forall>k. k \<notin> set STATE_SERVICE_MACHINE_ID_KEYS \<longrightarrow> map_of (state_table d') k = map_of (state_table d) k) \<and>
   (e = None \<longrightarrow> (\<forall>k\<in>set STATE_SERVICE_MACHINE_ID_KEYS. map_of (state_table d') k = Some v))"
proof (induction k arbitrary: d)
  case (Suc k)
  obtain r d1 where o: "sync_once fl (SQLITE_RETRY_COUNT - k) v d = (r, d1)" by fastforce
  note d1 = sync_once_result [OF o]
  show ?case
  proof (cases "\<exists>x. r = Some x \<and> isSqliteBusyError x \<and> k > 0")
    case True
    with Suc.prems o have "sync_attempts k fl v d1 = (e, d')" by auto
    from Suc.IH [OF this] d1 show ?thesis by auto
  next
    case False
    with Suc.prems o d1 show ?thesis by (auto split: option.splits if_splits)
  qed
qed auto

lemma snapshot_rest:
  "dk_storage (snd (saveLastKnownGoodSnapshot fl d)) = dk_storage d" "dk_state (snd (saveLastKnownGoodSnapshot fl d)) = dk_state d"
  by (auto simp: saveLastKnownGoodSnapshot_def and_then_def access_def split: option.split)

text \<open>What becomes of the members of the storage file: the four of the profile are set inside the telemetry object and beside it,
  the identifier of the device is set, and every other member, of the telemetry object too, is as it was.\<close>

definition profile_members :: "device_profile \<Rightarrow> (string \<times> string) list" where
  "profile_members p = [(''machineId'', machineId p), (''macMachineId'', macMachineId p), (''devDeviceId'', devDeviceId p), (''sqmId'', sqmId p)]"

definition profile_put :: "device_profile \<Rightarrow> members \<Rightarrow> members \<Rightarrow> bool" where
  "profile_put p m m' \<longleftrightarrow>
     (\<exists>t'. map_of m' ''telemetry'' = Some (JObj t') \<and>
        (\<forall>n. map_of t' n =
           (case map_of (profile_members p) n of
              Some s \<Rightarrow> Some (JStr s)
            | None \<Rightarrow> (case map_of m ''telemetry'' of Some (JObj t) \<Rightarrow> map_of t n | _ \<Rightarrow> None)))) \<and>
     (\<forall>(n, s)\<in>set (profile_members p). map_of m' (''telemetry.'' @ n) = Some (JStr s)) \<and>
     map_of m' ''storage.serviceMachineId'' = Some (JStr (devDeviceId p)) \<and>
     (\<forall>k. k \<notin> {''telemetry'', ''storage.serviceMachineId'', ''telemetry.machineId'', ''telemetry.macMachineId'', ''telemetry.devDeviceId'',
        ''telemetry.sqmId''} \<longrightarrow> map_of m' k = map_of m k)"

lemma apply_to_storage_puts: "profile_put p m (apply_to_storage p m)"
proof -
  let ?t = "fold (\<lambda>n. AList.update n (profile_field p n)) telemetry_names (ensureTelemetryObject m)"
  have t: "map_of ?t n = (case map_of (profile_members p) n of
      Some s \<Rightarrow> Some (JStr s)
    | None \<Rightarrow> (case map_of m ''telemetry'' of Some (JObj t) \<Rightarrow> map_of t n | _ \<Rightarrow> None))" for n
    by (auto simp: telemetry_names_def profile_members_def profile_field_def ensureTelemetryObject_def update_conv'
        split: option.split json.split)
  have "map_of (apply_to_storage p m) ''telemetry'' = Some (JObj ?t)"
    by (simp add: apply_to_storage_def telemetry_names_def Let_def update_conv')
  with t show ?thesis
    unfolding profile_put_def
    by (auto simp: apply_to_storage_def profile_members_def profile_field_def telemetry_names_def Let_def update_conv')
qed

text \<open>C31: After a successful application the editor's storage file has the profile inside and beside the telemetry object and
  the identifier of the device, and is otherwise unchanged, every other member of the telemetry object included
  (\<open>profile_put\<close>); the profile is read back from it. The state database has the device's identifier under both keys and is
  otherwise unchanged, no backup is left, and the failures are forgotten.\<close>

theorem applied_profile_is_in_place:
  assumes "applyDeviceProfile fl now p (d, h) = (Inr (), d', h')" "dk_state_backup d = None"
  shows "(\<exists>m m'. dk_storage d = Some (Some (JObj m)) \<and> dk_storage d' = Some (Some (JObj m')) \<and> profile_put p m m' \<and>
      readCurrentDeviceProfile (Some (JObj m')) = Inr p) \<and>
    (\<forall>k. getItemValue (state_table d') k =
       (if k \<in> set STATE_SERVICE_MACHINE_ID_KEYS then Some (devDeviceId p) else getItemValue (state_table d) k)) \<and>
    dk_storage_backup d' = None \<and> dk_state_backup d' = None \<and> consecutiveApplyFailures h' = 0 \<and> safeModeUntil h' = None"
proof -
  let ?had = "dk_state d \<noteq> None"
  from assms(1) obtain d1 where r: "run_stages (apply_stages fl ?had p) d = (None, d1)"
    "d' = cleanup_backups (snd (saveLastKnownGoodSnapshot fl d1))" "h' = markApplySuccess h"
    by (auto simp: applyDeviceProfile_def Let_def split: if_splits prod.splits option.splits)
  obtain e0 d2 where s0: "back_up fl ?had d = (e0, d2)" by fastforce
  obtain e1 d3 where s1: "write_storage fl p d2 = (e1, d3)" by fastforce
  obtain e2 d4 where s2: "sync_attempts SQLITE_RETRY_COUNT fl (devDeviceId p) d3 = (e2, d4)" by fastforce
  obtain e3 d5 where s3: "ensureStorageProfileApplied fl p d4 = (e3, d5)" by fastforce
  obtain e4 d6 where s4: "ensureStateServiceMachineIdApplied fl (devDeviceId p) d5 = (e4, d6)" by fastforce
  have ok: "e0 = None" "e1 = None" "e2 = None" "e3 = None" "d6 = d1"
    using r(1) s0 s1 s2 s3 s4 by (auto simp: apply_stages_def syncStateServiceMachineIdValue_def split: option.splits)
  note b = back_up_works [OF s0 [unfolded ok] assms(2)]
  have d: "d5 = d4" "d1 = d4" using storage_check_rest [OF s3] state_check_rest [OF s4] ok(5) by simp_all
  have st: "dk_storage d1 = dk_storage d3" using sync_attempts_rest [OF s2] d by simp
  from s1 [unfolded ok] obtain m where m: "parseStorageJson (case dk_storage d2 of Some c \<Rightarrow> c | None \<Rightarrow> None) = Inr m"
    "dk_storage d3 = Some (Some (JObj (apply_to_storage p m)))" "dk_state d3 = dk_state d2"
    by (auto simp: write_storage_def and_then_def access_def split: option.splits sum.splits)
  have dm: "dk_storage d = Some (Some (JObj m))"
    using m(1) b by (auto simp: parseStorageJson_def split: option.splits json.splits)
  have rd: "readCurrentDeviceProfile (Some (JObj (apply_to_storage p m))) = Inr p"
    using s3 [unfolded ok] m(2) st d by (auto simp: ensureStorageProfileApplied_def and_then_def access_def split: option.splits sum.splits if_splits)
  have tbl: "state_table d' = state_table d4" "state_table d3 = state_table d"
    using r(2) d m(3) b by (simp_all add: state_table_def cleanup_backups_def snapshot_rest)
  note sync = sync_attempts_result [OF s2, unfolded ok tbl(2)]
  have t: "getItemValue (state_table d') k =
      (if k \<in> set STATE_SERVICE_MACHINE_ID_KEYS then Some (devDeviceId p) else getItemValue (state_table d) k)" for k
    using sync unfolding tbl(1) getItemValue_def by auto
  have s: "dk_storage d' = Some (Some (JObj (apply_to_storage p m)))" using r(2) st m(2) by (simp add: cleanup_backups_def snapshot_rest)
  have c: "dk_storage_backup d' = None" "dk_state_backup d' = None" "consecutiveApplyFailures h' = 0" "safeModeUntil h' = None"
    unfolding r(2,3) by (simp_all add: cleanup_backups_def markApplySuccess_def)
  show ?thesis
    by (intro conjI allI exI [of _ m] exI [of _ "apply_to_storage p m"]) (rule dm s rd apply_to_storage_puts t c)+
qed

text \<open>The third failed application in a row turns applying profiles off for five minutes, whatever the environment says; after
  that it is on again unless the environment turns it off, but one more failure turns it off at once.\<close>

theorem third_failure_turns_off:
  assumes "applyDeviceProfile fl now p (d, h) = (Inl message, d', h')" "dk_storage d \<noteq> None" "2 \<le> consecutiveApplyFailures h" "0 \<le> now"
  shows "(\<forall>a f t. fst (isIdentityProfileApplyEnabled a f t h') \<longrightarrow> now + 300000 \<le> t) \<and>
    (\<forall>t. now + 300000 \<le> t \<longrightarrow> fst (isIdentityProfileApplyEnabled None None t h') \<and>
       2 \<le> consecutiveApplyFailures (snd (isIdentityProfileApplyEnabled None None t h')))"
proof -
  have "safeModeUntil h' = Some (now + 300000) \<and> 3 \<le> consecutiveApplyFailures h'"
    using assms(1-3) by (auto simp: applyDeviceProfile_def roll_back_def markApplyFailure_def SAFE_MODE_THRESHOLD_def
        SAFE_MODE_DURATION_MS_def Let_def split: if_splits prod.splits option.splits bool.splits)
  then show ?thesis using assms(4)
    by (auto simp: isIdentityProfileApplyEnabled_def isSafeModeActiveNow_def Let_def split: if_splits)
qed

subsection \<open>Samples\<close>

definition sample_profile :: device_profile where
  "sample_profile = \<lparr>machineId = ''m'', macMachineId = ''n'', devDeviceId = ''d'', sqmId = ''s''\<rparr>"

definition old_profile :: device_profile where
  "old_profile = \<lparr>machineId = ''m0'', macMachineId = ''n0'', devDeviceId = ''d0'', sqmId = ''s0''\<rparr>"

definition sample_disk :: disk where
  "sample_disk = \<lparr>dk_storage = Some (Some (JObj [(''telemetry'', profile_json old_profile), (''theme'', JStr ''dark'')])),
     dk_state = Some [(''storage.serviceMachineId'', ''d0''), (''other'', ''x'')], dk_storage_backup = None, dk_state_backup = None,
     dk_good_storage = None, dk_good_state = None, dk_good_marker = None, dk_baseline = None\<rparr>"

text \<open>The second key cannot be written: by then the storage file and the first key have been changed.\<close>

definition second_key_fails :: disk_faults where
  "second_key_fails acc = (case acc of
     PutState n k \<Rightarrow> if k = ''telemetry.serviceMachineId'' then Some (plain_error ''disk full'') else None | _ \<Rightarrow> None)"

lemma generated_profiles_are_valid_witness:
  "is_uuid_v4 (macMachineId (generated_profile (\<lambda>_. replicate 32 0xFF) (replicate 16 7))) \<and>
   generateDeviceProfile (\<lambda>_. replicate 32 0xFF) (replicate 16 7) = Inl ''generated_profile_uuid_collision''"
proof -
  have l: "length (replicate 16 7 :: octets) = 16" "\<forall>x::string. 16 \<le> length (replicate 32 0xFF :: octets)" by simp_all
  have "macMachineId (generated_profile (\<lambda>_. replicate 32 0xFF) (replicate 16 7)) =
      devDeviceId (generated_profile (\<lambda>_. replicate 32 0xFF) (replicate 16 7))"
    by (simp add: generated_profile_def deterministicUuidFromSeed_def Let_def)
  with generated_profiles_are_valid [of "replicate 16 7" "\<lambda>_. replicate 32 0xFF", OF l] show ?thesis by (simp add: Let_def)
qed

lemma sample_consistent: "ensureStorageStateConsistency second_key_fails True False sample_disk = None"
  by code_simp

lemma sample_failure:
  "fst (applyDeviceProfile second_key_fails 5 sample_profile (sample_disk, new_hardening)) =
     Inl (buildApplyError PrepareSyncState ''disk full'')"
  by code_simp

lemma failed_application_is_undone_witness:
  "(case applyDeviceProfile second_key_fails 5 sample_profile (sample_disk, new_hardening) of
     (res, d', h') \<Rightarrow> res = Inl (buildApplyError PrepareSyncState ''disk full'') \<and> dk_storage d' = dk_storage sample_disk \<and>
       dk_state d' = dk_state sample_disk \<and> consecutiveApplyFailures h' = 1)"
proof -
  obtain res d' h' where r: "applyDeviceProfile second_key_fails 5 sample_profile (sample_disk, new_hardening) = (res, d', h')"
    by (metis prod_cases3)
  with sample_failure have res: "res = Inl (buildApplyError PrepareSyncState ''disk full'')" by simp
  have d: "dk_storage sample_disk \<noteq> None" "dk_storage_backup sample_disk = None" "dk_state_backup sample_disk = None"
    "second_key_fails RestoreStorage = None" "second_key_fails RestoreState = None"
    by (simp_all add: sample_disk_def second_key_fails_def)
  have c: "ensureStorageStateConsistency second_key_fails (dk_state sample_disk \<noteq> None) False sample_disk = None"
    using sample_consistent by (simp add: sample_disk_def)
  from failed_application_is_undone [OF r [unfolded res] d c] r res show ?thesis by (simp add: new_hardening_def)
qed

lemma applied_profile_is_in_place_witness:
  "(case applyDeviceProfile (\<lambda>_. None) 5 sample_profile (sample_disk, new_hardening) of
     (res, d', h') \<Rightarrow> res = Inr () \<and> getItemValue (state_table d') ''storage.serviceMachineId'' = Some ''d'' \<and>
       getItemValue (state_table d') ''other'' = Some ''x'')"
proof -
  have ok: "fst (applyDeviceProfile (\<lambda>_. None) 5 sample_profile (sample_disk, new_hardening)) = Inr ()" by code_simp
  obtain res d' h' where r: "applyDeviceProfile (\<lambda>_. None) 5 sample_profile (sample_disk, new_hardening) = (res, d', h')"
    by (metis prod_cases3)
  with ok have res: "res = Inr ()" by simp
  have b: "dk_state_backup sample_disk = None" by (simp add: sample_disk_def)
  note p = applied_profile_is_in_place [OF r [unfolded res] b, THEN conjunct2, THEN conjunct1, rule_format]
  show ?thesis using r res p [of "''storage.serviceMachineId''"] p [of "''other''"]
    by (simp add: STATE_SERVICE_MACHINE_ID_KEYS_def sample_profile_def sample_disk_def state_table_def getItemValue_def)
qed

lemma third_failure_turns_off_witness:
  "(case applyDeviceProfile second_key_fails 5 sample_profile (sample_disk, new_hardening\<lparr>consecutiveApplyFailures := 2\<rparr>) of
     (res, d', h') \<Rightarrow> \<not> fst (isIdentityProfileApplyEnabled (Some ''1'') None 300004 h') \<and>
       fst (isIdentityProfileApplyEnabled None None 300005 h'))"
proof -
  let ?h = "new_hardening\<lparr>consecutiveApplyFailures := 2\<rparr>"
  have f: "fst (applyDeviceProfile second_key_fails 5 sample_profile (sample_disk, ?h)) = Inl (buildApplyError PrepareSyncState ''disk full'')"
    by code_simp
  obtain res d' h' where r: "applyDeviceProfile second_key_fails 5 sample_profile (sample_disk, ?h) = (res, d', h')"
    by (metis prod_cases3)
  with f have res: "res = Inl (buildApplyError PrepareSyncState ''disk full'')" by simp
  have d: "dk_storage sample_disk \<noteq> None" "2 \<le> consecutiveApplyFailures ?h" "(0 :: rat) \<le> 5" by (simp_all add: sample_disk_def)
  from third_failure_turns_off [OF r [unfolded res] d] have
    off: "\<And>a f t. fst (isIdentityProfileApplyEnabled a f t h') \<Longrightarrow> 5 + 300000 \<le> t"
    and on: "\<And>t. 5 + 300000 \<le> t \<Longrightarrow> fst (isIdentityProfileApplyEnabled None None t h')" by blast+
  have "\<not> fst (isIdentityProfileApplyEnabled (Some ''1'') None 300004 h')" using off [of "Some ''1''" None 300004] by linarith
  moreover have "fst (isIdentityProfileApplyEnabled None None 300005 h')" by (rule on) simp
  ultimately show ?thesis by (simp add: r)
qed

end
