(* ===== verification/RequestUserAgent.thy ===== *)
theory RequestUserAgent
  imports Json
begin

section \<open>The User-Agent of upstream requests\<close>

text \<open>
  \<open>proxy-gateway/server/request-user-agent.ts\<close>: the header names the highest version among a built-in one, the installed
  one and one found on the network; a variable of the environment overrides them. The environment, the version of the
  installation and the pages are arguments. Version numbers are unbounded.
\<close>

record agent_env =
  ae_subclient :: "string option"
  ae_platform :: string
  ae_arch :: string
  ae_version :: "string option"
  ae_under_test :: bool
  ae_installed :: "string option"
  ae_page :: "string \<Rightarrow> string \<Rightarrow> json option"

definition REMOTE_VERSION_URL :: string where
  "REMOTE_VERSION_URL = ''https://antigravity-auto-updater-974169037036.us-central1.run.app''"

definition CHANGELOG_URL :: string where "CHANGELOG_URL = ''https://antigravity.google/changelog''"

definition FALLBACK_VERSION :: string where "FALLBACK_VERSION = ''2.0.3''"

definition normalizeNonEmptyString :: "string option \<Rightarrow> string option" where
  "normalizeNonEmptyString v =
     (case v of None \<Rightarrow> None | Some s \<Rightarrow> if js_trim s = [] then None else Some (js_trim s))"

definition getPlatformTag :: "agent_env \<Rightarrow> string" where
  "getPlatformTag e =
     (if ae_platform e = ''win32'' then ''windows'' else if ae_platform e = ''darwin'' then ''darwin'' else ''linux'')"

definition getArchTag :: "agent_env \<Rightarrow> string" where
  "getArchTag e = (if ae_arch e = ''x64'' then ''amd64'' else if ae_arch e = ''arm64'' then ''arm64'' else ae_arch e)"

definition buildUserAgent :: "agent_env \<Rightarrow> string \<Rightarrow> string" where
  "buildUserAgent e version =
     ''antigravity/'' @ (case normalizeNonEmptyString (ae_subclient e) of Some s \<Rightarrow> s | None \<Rightarrow> ''hub'') @ ''/'' @ version @ '' '' @
     getPlatformTag e @ ''/'' @ getArchTag e"

subsection \<open>Version numbers\<close>

text \<open>The parts of a version are digits where it is compared; a missing part counts as 0.\<close>

fun compare_parts :: "nat list \<Rightarrow> nat list \<Rightarrow> int" where
  "compare_parts [] [] = 0"
| "compare_parts (l # ls) [] = (if l > 0 then 1 else compare_parts ls [])"
| "compare_parts [] (r # rs) = (if r > 0 then -1 else compare_parts [] rs)"
| "compare_parts (l # ls) (r # rs) = (if l > r then 1 else if l < r then -1 else compare_parts ls rs)"

definition version_parts :: "string \<Rightarrow> nat list" where
  "version_parts v = map digits_val (split_on (CHR ''.'') v)"

definition compareSemverVersions :: "string \<Rightarrow> string \<Rightarrow> int" where
  "compareSemverVersions left right = compare_parts (version_parts left) (version_parts right)"

text \<open>A match of the pattern for versions at the start of a text, and what follows it.\<close>

definition semver_at :: "string \<Rightarrow> (string \<times> string) option" where
  "semver_at s =
     (let a = takeWhile is_digit s; s1 = dropWhile is_digit s; b = takeWhile is_digit (tl s1); s2 = dropWhile is_digit (tl s1);
          c = takeWhile is_digit (tl s2)
      in if a \<noteq> [] \<and> starts_with s1 ''.'' \<and> b \<noteq> [] \<and> starts_with s2 ''.'' \<and> c \<noteq> []
         then Some (a @ ''.'' @ b @ ''.'' @ c, dropWhile is_digit (tl s2)) else None)"

lemma semver_at_shorter: "semver_at s = Some (v, rest) \<Longrightarrow> length rest < length s"
proof -
  assume a: "semver_at s = Some (v, rest)"
  let ?s1 = "dropWhile is_digit s" and ?s2 = "dropWhile is_digit (tl (dropWhile is_digit s))"
  from a have r: "rest = dropWhile is_digit (tl ?s2)" and "starts_with ?s1 ''.''"
    by (simp_all add: semver_at_def Let_def split: if_splits)
  have "length rest \<le> length (tl ?s2)" unfolding r by (rule length_dropWhile_le)
  also have "\<dots> \<le> length ?s2" by simp
  also have "\<dots> \<le> length (tl ?s1)" by (rule length_dropWhile_le)
  also have "\<dots> < length ?s1" using \<open>starts_with ?s1 ''.''\<close> by (cases ?s1) simp_all
  also have "\<dots> \<le> length s" by (rule length_dropWhile_le)
  finally show ?thesis .
qed

function semver_matches :: "string \<Rightarrow> string list" where
  "semver_matches [] = []"
| "semver_matches (c # cs) =
     (case semver_at (c # cs) of Some (v, rest) \<Rightarrow> v # semver_matches rest | None \<Rightarrow> semver_matches cs)"
  by pat_completeness auto
termination by (relation "measure length") (auto dest: semver_at_shorter)

definition better_version :: "string \<Rightarrow> string \<Rightarrow> string" where
  "better_version candidate best = (if compareSemverVersions candidate best > 0 then candidate else best)"

definition extractHighestSemver :: "string \<Rightarrow> string option" where
  "extractHighestSemver t =
     (case semver_matches t of [] \<Rightarrow> None | v # vs \<Rightarrow> Some (fold better_version (v # vs) v))"

subsection \<open>Looking versions up\<close>

definition resolveLocalInstalledVersion :: "agent_env \<Rightarrow> string option" where
  "resolveLocalInstalledVersion e =
     (case normalizeNonEmptyString (ae_installed e) of None \<Rightarrow> None | Some _ \<Rightarrow> extractHighestSemver (the (ae_installed e)))"

definition discovery_agent :: "agent_env \<Rightarrow> string" where
  "discovery_agent e =
     buildUserAgent e (case resolveLocalInstalledVersion e of Some v \<Rightarrow> v | None \<Rightarrow> FALLBACK_VERSION)"

definition fetchTextPayload :: "agent_env \<Rightarrow> string \<Rightarrow> string option" where
  "fetchTextPayload e url =
     map_option (\<lambda>v. case v of JStr s \<Rightarrow> s | _ \<Rightarrow> json_stringify v) (ae_page e url (discovery_agent e))"

datatype agent_source = FromEnv | FromLocal | FromRemote | FromChangelog | FromFallback

definition page_version :: "agent_env \<Rightarrow> string \<Rightarrow> string option" where
  "page_version e url =
     (if str_truthy (fetchTextPayload e url) then extractHighestSemver (the (fetchTextPayload e url)) else None)"

definition resolveRemoteVersion :: "agent_env \<Rightarrow> (agent_source \<times> string) option" where
  "resolveRemoteVersion e =
     (if ae_under_test e then None
      else (case page_version e REMOTE_VERSION_URL of
              Some v \<Rightarrow> Some (FromRemote, v)
            | None \<Rightarrow> map_option (Pair FromChangelog) (page_version e CHANGELOG_URL)))"

definition raise_version :: "(agent_source \<times> string) option \<Rightarrow> agent_source \<times> string \<Rightarrow> agent_source \<times> string" where
  "raise_version found best =
     (case found of
        Some (source, v) \<Rightarrow> if compareSemverVersions v (snd best) > 0 then (source, v) else best
      | None \<Rightarrow> best)"

definition resolve_version :: "agent_env \<Rightarrow> agent_source \<times> string" where
  "resolve_version e =
     (case normalizeNonEmptyString (ae_version e) of
        Some v \<Rightarrow> (FromEnv, v)
      | None \<Rightarrow> raise_version (resolveRemoteVersion e)
          (raise_version (map_option (Pair FromLocal) (resolveLocalInstalledVersion e)) (FromFallback, FALLBACK_VERSION)))"

record agent_resolution =
  ag_source :: agent_source
  ag_userAgent :: string
  ag_version :: string

definition resolveDefaultUserAgentResolution :: "agent_env \<Rightarrow> agent_resolution" where
  "resolveDefaultUserAgentResolution e =
     (let (source, v) = resolve_version e in \<lparr>ag_source = source, ag_userAgent = buildUserAgent e v, ag_version = v\<rparr>)"

text \<open>The resolution is kept for the life of the process; calls meanwhile share the pending one.\<close>

definition resolveRequestUserAgent :: "agent_env \<Rightarrow> agent_resolution option \<Rightarrow> string \<times> agent_resolution option" where
  "resolveRequestUserAgent e cached =
     (let r = (case cached of Some r \<Rightarrow> r | None \<Rightarrow> resolveDefaultUserAgentResolution e) in (ag_userAgent r, Some r))"

subsection \<open>The highest version is announced\<close>

lemma compare_parts_swap: "compare_parts l r = - compare_parts r l"
  by (induction l r rule: compare_parts.induct) auto

lemma compare_parts_refl [simp]: "compare_parts l l = 0"
  by (induction l) auto

definition at_least :: "string \<Rightarrow> string \<Rightarrow> bool" where
  "at_least v w \<longleftrightarrow> compareSemverVersions v w \<ge> 0"

text \<open>A list of parts is the number sequence it starts; comparing is comparing the first difference.\<close>

definition part :: "nat list \<Rightarrow> nat \<Rightarrow> nat" where
  "part l i = (if i < length l then l ! i else 0)"

lemma version_part_simps [simp]: "part [] i = 0" "part (x # l) 0 = x" "part (x # l) (Suc i) = part l i"
  by (auto simp: part_def)

lemma first_difference:
  "(\<exists>i. (P :: nat \<Rightarrow> bool) i \<and> (\<forall>j<i. Q j)) \<longleftrightarrow> P 0 \<or> Q 0 \<and> (\<exists>i. P (Suc i) \<and> (\<forall>j<i. Q (Suc j)))"
proof
  assume "\<exists>i. P i \<and> (\<forall>j<i. Q j)"
  then obtain i where "P i" "\<forall>j<i. Q j" by blast
  then show "P 0 \<or> Q 0 \<and> (\<exists>i. P (Suc i) \<and> (\<forall>j<i. Q (Suc j)))" by (cases i) auto
next
  assume "P 0 \<or> Q 0 \<and> (\<exists>i. P (Suc i) \<and> (\<forall>j<i. Q (Suc j)))"
  then show "\<exists>i. P i \<and> (\<forall>j<i. Q j)" by (metis less_Suc_eq_0_disj not_less0)
qed

lemma compare_parts_pos: "compare_parts l r > 0 \<longleftrightarrow> (\<exists>i. part l i > part r i \<and> (\<forall>j<i. part l j = part r j))"
proof (induction l r rule: compare_parts.induct)
  case 1
  then show ?case by simp
next
  case (2 l ls)
  then show ?case by (subst first_difference) auto
next
  case (3 r rs)
  then show ?case by (subst first_difference) auto
next
  case (4 l ls r rs)
  then show ?case by (subst first_difference) auto
qed

lemma compare_parts_trans: "compare_parts a b \<ge> 0 \<Longrightarrow> compare_parts b c \<ge> 0 \<Longrightarrow> compare_parts a c \<ge> 0"
proof (rule ccontr)
  assume ab: "compare_parts a b \<ge> 0" and bc: "compare_parts b c \<ge> 0" and "\<not> compare_parts a c \<ge> 0"
  then have "compare_parts c a > 0" using compare_parts_swap [of a c] by simp
  then obtain i where i: "part c i > part a i" "\<And>j. j < i \<Longrightarrow> part c j = part a j" by (auto simp: compare_parts_pos)
  have "\<not> compare_parts b a > 0" "\<not> compare_parts c b > 0" using ab bc compare_parts_swap [of a b] compare_parts_swap [of b c] by simp_all
  note n = this [unfolded compare_parts_pos]
  have "part a i \<noteq> part b i \<or> part b i \<noteq> part c i" using i(1) by auto
  then obtain k where k: "part a k \<noteq> part b k \<or> part b k \<noteq> part c k" "k \<le> i"
    "\<And>j. j < k \<Longrightarrow> part a j = part b j \<and> part b j = part c j"
    using ex_least_nat_le [of "\<lambda>k. part a k \<noteq> part b k \<or> part b k \<noteq> part c k" i] by blast
  have "part a k \<ge> part b k" "part b k \<ge> part c k" using n k(3) by (metis not_le)+
  with k(1) have "part a k > part c k" by linarith
  moreover have "part a k \<le> part c k" using i k(2) by (cases "k = i") auto
  ultimately show False by simp
qed

lemma at_least_refl [simp]: "at_least v v"
  using compare_parts_swap [of "version_parts v" "version_parts v"] by (simp add: at_least_def compareSemverVersions_def)

lemma at_least_trans: "at_least u v \<Longrightarrow> at_least v w \<Longrightarrow> at_least u w"
  unfolding at_least_def compareSemverVersions_def by (rule compare_parts_trans)

lemma better_is_upper: "at_least (better_version c b) b" "at_least (better_version c b) c"
  using compare_parts_swap [of "version_parts b" "version_parts c"]
  by (auto simp: better_version_def at_least_def compareSemverVersions_def)

lemma fold_better: "at_least (fold better_version vs b) b \<and> (\<forall>v\<in>set vs. at_least (fold better_version vs b) v) \<and>
    fold better_version vs b \<in> insert b (set vs)"
proof (induction vs arbitrary: b)
  case (Cons c vs)
  from Cons.IH [of "better_version c b"] have IH: "at_least (fold better_version vs (better_version c b)) (better_version c b)"
    "\<And>v. v \<in> set vs \<Longrightarrow> at_least (fold better_version vs (better_version c b)) v"
    "fold better_version vs (better_version c b) \<in> insert (better_version c b) (set vs)" by blast+
  have "better_version c b \<in> {b, c}" by (simp add: better_version_def)
  with IH(3) have "fold better_version vs (better_version c b) \<in> insert b (insert c (set vs))" by auto
  with at_least_trans [OF IH(1) better_is_upper(1)] at_least_trans [OF IH(1) better_is_upper(2)] IH(2) show ?case by auto
qed simp

lemma highest_semver:
  "extractHighestSemver t = Some v \<Longrightarrow> v \<in> set (semver_matches t) \<and> (\<forall>w\<in>set (semver_matches t). at_least v w)"
  "extractHighestSemver t = None \<longleftrightarrow> semver_matches t = []"
  using fold_better [of "semver_matches t" "hd (semver_matches t)"]
  by (auto simp: extractHighestSemver_def split: list.splits)

lemma raise_version_upper:
  "at_least (snd (raise_version found best)) (snd best)"
  "found = Some (src, v) \<Longrightarrow> at_least (snd (raise_version found best)) v"
  "raise_version found best = best \<or> Some (raise_version found best) = found"
  using compare_parts_swap [of "version_parts (snd best)"]
  by (auto simp: raise_version_def at_least_def compareSemverVersions_def split: option.splits)

text \<open>Unless the environment names a version, the header announces the highest of the built-in version, the installed one
  and the one on the network: the resolved version is one of the three and at least each of them.\<close>

theorem announced_version_is_highest:
  assumes "normalizeNonEmptyString (ae_version e) = None"
  shows "let r = resolveDefaultUserAgentResolution e
    in (ag_source r, ag_version r) \<in> {(FromFallback, FALLBACK_VERSION)} \<union> set_option (map_option (Pair FromLocal) (resolveLocalInstalledVersion e)) \<union>
         set_option (resolveRemoteVersion e) \<and>
       at_least (ag_version r) FALLBACK_VERSION \<and>
       (\<forall>v\<in>set_option (resolveLocalInstalledVersion e). at_least (ag_version r) v) \<and>
       (\<forall>(source, v)\<in>set_option (resolveRemoteVersion e). at_least (ag_version r) v) \<and>
       ag_userAgent r = buildUserAgent e (ag_version r)"
proof -
  define local where "local = map_option (Pair FromLocal) (resolveLocalInstalledVersion e)"
  define b where "b = raise_version local (FromFallback, FALLBACK_VERSION)"
  define r where "r = raise_version (resolveRemoteVersion e) b"
  have r: "resolveDefaultUserAgentResolution e = \<lparr>ag_source = fst r, ag_userAgent = buildUserAgent e (snd r), ag_version = snd r\<rparr>"
    using assms by (simp add: resolveDefaultUserAgentResolution_def resolve_version_def r_def b_def local_def split_def Let_def)
  have b: "at_least (snd b) FALLBACK_VERSION" "\<And>v. v \<in> set_option (resolveLocalInstalledVersion e) \<Longrightarrow> at_least (snd b) v"
      "b = (FromFallback, FALLBACK_VERSION) \<or> Some b = local"
    using raise_version_upper [where found = local and best = "(FromFallback, FALLBACK_VERSION)"] by (auto simp: b_def local_def)
  have u: "at_least (snd r) (snd b)" "\<And>src v. resolveRemoteVersion e = Some (src, v) \<Longrightarrow> at_least (snd r) v"
      "r = b \<or> Some r = resolveRemoteVersion e"
    unfolding r_def by (rule raise_version_upper, erule raise_version_upper, rule raise_version_upper)
  have "r \<in> {(FromFallback, FALLBACK_VERSION)} \<union> set_option local \<union> set_option (resolveRemoteVersion e)"
    using b(3) u(3) by (metis Un_iff elem_set insertI1)
  with at_least_trans [OF u(1) b(1)] at_least_trans [OF u(1) b(2)] u(2) show ?thesis
    unfolding Let_def r local_def by (auto simp: elem_set)
qed

definition sample_agent :: agent_env where
  "sample_agent = \<lparr>ae_subclient = None, ae_platform = ''linux'', ae_arch = ''x64'', ae_version = Some '' '', ae_under_test = False,
     ae_installed = Some ''1.107.0'', ae_page = (\<lambda>url _. if url = CHANGELOG_URL then Some (JStr ''v2.0.10, v2.0.9'') else None)\<rparr>"

lemma announced_version_is_highest_witness:
  "ag_userAgent (resolveDefaultUserAgentResolution sample_agent) = ''antigravity/hub/2.0.10 linux/amd64'' \<and>
   at_least (ag_version (resolveDefaultUserAgentResolution sample_agent)) ''1.107.0''"
proof -
  have n: "normalizeNonEmptyString (ae_version sample_agent) = None"
    by (simp add: normalizeNonEmptyString_def sample_agent_def js_trim_def trim_left_def is_ws_def)
  have l: "resolveLocalInstalledVersion sample_agent = Some ''1.107.0''" by code_simp
  have u: "ag_userAgent (resolveDefaultUserAgentResolution sample_agent) = ''antigravity/hub/2.0.10 linux/amd64''" by code_simp
  show ?thesis using announced_version_is_highest [OF n] l u by (simp add: Let_def)
qed

end
