(* ===== verification/GoogleClients.thy ===== *)
theory GoogleClients
  imports RequestUserAgent TokenManager
begin

section \<open>OAuth clients and tokens\<close>

text \<open>
  \<open>cloud-account/services/GoogleAPIService.ts\<close>, first part: the registry of OAuth clients, the route of a request
  (proxies), and the calls that exchange a code for tokens, refresh a token and read the user information. The network is
  an argument: the reply to a request may depend on all requests before it. A request is logged when it is sent; a call
  gives the message of the error it throws, or its result.
\<close>

subsection \<open>Requests and replies\<close>

datatype request_body = NoBody | FormBody "string js_map" | JsonBody json

datatype route = DirectRoute | ProxyRoute string | EnvProxyRoute "string option" "string option" "string option"

record http_request =
  hr_url :: string
  hr_headers :: "string js_map"
  hr_body :: request_body
  hr_route :: route

text \<open>A rejected request has the name and the message of its error; a reply its status and its text.\<close>

datatype http_reply = Rejected string string | Reply nat string

type_synonym network = "http_request list \<Rightarrow> http_request \<Rightarrow> http_reply"

type_synonym 'a net_call = "http_request list \<Rightarrow> (string + 'a) \<times> http_request list"

definition reply_ok :: "nat \<Rightarrow> bool" where
  "reply_ok status \<longleftrightarrow> 200 \<le> status \<and> status < 300"

record google_env =
  gv_client_id :: string
  gv_client_secret :: string
  gv_clients :: "string option"
  gv_active :: "string option"
  gv_upstream_proxy :: "string + (bool \<times> string)"
  gv_http_proxy :: "string option \<times> string option"
  gv_https_proxy :: "string option \<times> string option"
  gv_no_proxy :: "string option \<times> string option"
  gv_electron_proxy :: "string option"
  gv_redirect_uri :: string
  gv_agent :: agent_env

subsection \<open>The registry of clients\<close>

record oauth_client =
  oc_key :: string
  oc_label :: string
  oc_client_id :: string
  oc_client_secret :: string
  oc_is_builtin :: bool

record oauth_registry =
  rg_clients :: "oauth_client list"
  rg_activeKey :: string

definition normal_client_key :: "string \<Rightarrow> string" where
  "normal_client_key key = js_lower (js_trim key)"

definition getClientByKey :: "oauth_client list \<Rightarrow> string option \<Rightarrow> oauth_client option" where
  "getClientByKey clients clientKey =
     (if str_truthy clientKey then find (\<lambda>c. oc_key c = normal_client_key (the clientKey)) clients else None)"

definition parse_client_entry :: "string \<Rightarrow> oauth_client option" where
  "parse_client_entry entry =
     (let parts = map js_trim (split_on (CHR 0x7C) (js_trim entry))
      in if js_trim entry = [] \<or> length parts < 3 then None
         else (let key = normal_client_key (parts ! 0)
               in if key = [] \<or> parts ! 1 = [] \<or> parts ! 2 = [] then None
                  else Some \<lparr>oc_key = key, oc_label = (if 3 < length parts \<and> parts ! 3 \<noteq> [] then parts ! 3 else key),
                    oc_client_id = parts ! 1, oc_client_secret = parts ! 2, oc_is_builtin = False\<rparr>))"

fun put_client :: "oauth_client \<Rightarrow> oauth_client list \<Rightarrow> oauth_client list" where
  "put_client c [] = [c]"
| "put_client c (d # ds) = (if oc_key d = oc_key c then c # ds else d # put_client c ds)"

definition builtin_client :: "google_env \<Rightarrow> oauth_client" where
  "builtin_client e =
     \<lparr>oc_key = normal_client_key DEFAULT_OAUTH_CLIENT_KEY, oc_label = ''Antigravity Enterprise'', oc_client_id = gv_client_id e,
      oc_client_secret = gv_client_secret e, oc_is_builtin = True\<rparr>"

definition configured_clients :: "google_env \<Rightarrow> oauth_client list" where
  "configured_clients e =
     fold put_client (List.map_filter parse_client_entry (case gv_clients e of None \<Rightarrow> [] | Some t \<Rightarrow> split_on (CHR '';'') t))
       [builtin_client e]"

definition buildOAuthClientRegistry :: "google_env \<Rightarrow> oauth_registry" where
  "buildOAuthClientRegistry e =
     (let clients = configured_clients e;
          activeKey = normal_client_key (if str_truthy (gv_active e) then the (gv_active e) else DEFAULT_OAUTH_CLIENT_KEY)
      in \<lparr>rg_clients = clients,
          rg_activeKey = (if list_ex (\<lambda>c. oc_key c = activeKey) clients then activeKey else oc_key (hd clients))\<rparr>)"

definition push_candidate :: "oauth_client option \<Rightarrow> oauth_client list \<Rightarrow> oauth_client list" where
  "push_candidate candidate cs =
     (case candidate of None \<Rightarrow> cs | Some c \<Rightarrow> if oc_key c \<in> oc_key ` set cs then cs else cs @ [c])"

definition getCandidateClients :: "oauth_registry \<Rightarrow> string option \<Rightarrow> oauth_client list" where
  "getCandidateClients reg preferred =
     fold (\<lambda>c. push_candidate (Some c)) (rg_clients reg)
       (push_candidate (getClientByKey (rg_clients reg) (Some (rg_activeKey reg)))
         (push_candidate (getClientByKey (rg_clients reg) preferred) []))"

definition selectAuthClient :: "oauth_registry \<Rightarrow> string option \<Rightarrow> string + oauth_client" where
  "selectAuthClient reg clientKey =
     (if rg_clients reg = [] then Inl ''No OAuth clients configured''
      else if clientKey \<noteq> None \<and> js_trim (the clientKey) \<noteq> [] then
        (case getClientByKey (rg_clients reg) clientKey of
           None \<Rightarrow> Inl (''Unknown OAuth client key: '' @ the clientKey)
         | Some c \<Rightarrow> Inr c)
      else Inr (case getClientByKey (rg_clients reg) (Some (rg_activeKey reg)) of Some c \<Rightarrow> c | None \<Rightarrow> hd (rg_clients reg)))"

definition setActiveOAuthClientKey :: "string \<Rightarrow> oauth_registry \<Rightarrow> string + oauth_registry" where
  "setActiveOAuthClientKey clientKey reg =
     (let normalized = normal_client_key clientKey
      in if list_ex (\<lambda>c. oc_key c = normalized) (rg_clients reg) then Inr (reg\<lparr>rg_activeKey := normalized\<rparr>)
         else Inl (''Unknown OAuth client key '' @ [CHR 0x27] @ clientKey @ [CHR 0x27] @ ''. Available: '' @ join '', '' (map oc_key (rg_clients reg))))"

record client_descriptor =
  cl_key :: string
  cl_label :: string
  cl_client_id :: string
  cl_is_active :: bool
  cl_is_builtin :: bool

definition listOAuthClients :: "oauth_registry \<Rightarrow> client_descriptor list" where
  "listOAuthClients reg =
     map (\<lambda>c. \<lparr>cl_key = oc_key c, cl_label = oc_label c, cl_client_id = oc_client_id c,
       cl_is_active = (oc_key c = rg_activeKey reg), cl_is_builtin = oc_is_builtin c\<rparr>) (rg_clients reg)"

subsection \<open>The route of a request\<close>

definition env_or :: "string option \<times> string option \<Rightarrow> string option" where
  "env_or v = (if str_truthy (map_option js_trim (fst v)) then map_option js_trim (fst v) else map_option js_trim (snd v))"

definition getFetchOptions :: "google_env \<Rightarrow> string option \<Rightarrow> string + route" where
  "getFetchOptions e proxyUrl =
     (if str_truthy proxyUrl then Inr (ProxyRoute (the proxyUrl))
      else (case gv_upstream_proxy e of
              Inl m \<Rightarrow> Inl m
            | Inr (True, url) \<Rightarrow>
                (if url = [] then Inl ''Upstream proxy is enabled but URL is not configured'' else Inr (ProxyRoute url))
            | Inr (False, _) \<Rightarrow>
                (let http = env_or (gv_http_proxy e); https = env_or (gv_https_proxy e)
                 in if str_truthy http \<or> str_truthy https then Inr (EnvProxyRoute http https (env_or (gv_no_proxy e)))
                    else if str_truthy (map_option js_trim (gv_electron_proxy e))
                    then Inr (ProxyRoute (js_trim (the (gv_electron_proxy e))))
                    else Inr DirectRoute)))"

subsection \<open>Tokens\<close>

definition isClientMismatchError :: "nat \<Rightarrow> string \<Rightarrow> bool" where
  "isClientMismatchError status errorText \<longleftrightarrow> status \<in> {400, 401, 403} \<or>
     str_contains (js_lower errorText) ''unauthorized_client'' \<or> str_contains (js_lower errorText) ''invalid_client''"

definition TOKEN_URL :: string where "TOKEN_URL = ''https://oauth2.googleapis.com/token''"

text \<open>The body of a successful reply; what is no object cannot take the key of the client.\<close>

definition token_response :: "oauth_client \<Rightarrow> string \<Rightarrow> string + json" where
  "token_response client body =
     (case json_parse body of
        None \<Rightarrow> Inl ''SyntaxError''
      | Some (JObj m) \<Rightarrow> Inr (JObj (AList.update ''oauth_client_key'' (JStr (oc_key client)) m))
      | Some (JArr _) \<Rightarrow> Inr (JObj [(''oauth_client_key'', JStr (oc_key client))])
      | Some _ \<Rightarrow> Inl ''TypeError'')"

definition timeout_message :: "string \<Rightarrow> string" where
  "timeout_message what = what @ '' timed out. Please check your network connection and try again.''"

definition send :: "network \<Rightarrow> http_request \<Rightarrow> http_request list \<Rightarrow> http_reply \<times> http_request list" where
  "send w rq sent = (w sent rq, sent @ [rq])"

fun token_attempts :: "network \<Rightarrow> string \<Rightarrow> (oauth_client \<Rightarrow> string js_map) \<Rightarrow> route \<Rightarrow> oauth_client list \<Rightarrow> string list \<Rightarrow> json net_call" where
  "token_attempts w what form via [] attemptErrors sent =
     (Inl (what @ '' failed for all OAuth clients: '' @ join '' | '' attemptErrors), sent)"
| "token_attempts w what form via (c # cs) attemptErrors sent =
     (case send w \<lparr>hr_url = TOKEN_URL, hr_headers = [(''Content-Type'', ''application/x-www-form-urlencoded'')],
             hr_body = FormBody (form c), hr_route = via\<rparr> sent of
        (Rejected name message, sent') \<Rightarrow> (Inl (if name = ''AbortError'' then timeout_message what else message), sent')
      | (Reply status body, sent') \<Rightarrow>
          (if reply_ok status then (token_response c body, sent')
           else if isClientMismatchError status body
           then token_attempts w what form via cs (attemptErrors @ [oc_key c @ '' => '' @ body]) sent'
           else (Inl (what @ '' failed for client ['' @ oc_key c @ '']: '' @ body), sent')))"

definition exchange_form :: "google_env \<Rightarrow> string \<Rightarrow> oauth_client \<Rightarrow> string js_map" where
  "exchange_form e code c = [(''client_id'', oc_client_id c), (''client_secret'', oc_client_secret c), (''code'', code),
     (''redirect_uri'', gv_redirect_uri e), (''grant_type'', ''authorization_code'')]"

definition refresh_form :: "string \<Rightarrow> oauth_client \<Rightarrow> string js_map" where
  "refresh_form refreshToken c = [(''client_id'', oc_client_id c), (''client_secret'', oc_client_secret c),
     (''refresh_token'', refreshToken), (''grant_type'', ''refresh_token'')]"

definition with_clients :: "google_env \<Rightarrow> oauth_registry \<Rightarrow> string option \<Rightarrow> string option \<Rightarrow> (route \<Rightarrow> oauth_client list \<Rightarrow> json net_call) \<Rightarrow> json net_call" where
  "with_clients e reg proxyUrl preferred f sent =
     (case getCandidateClients reg preferred of
        [] \<Rightarrow> (Inl ''No OAuth clients configured'', sent)
      | cs \<Rightarrow> (case getFetchOptions e proxyUrl of Inl m \<Rightarrow> (Inl m, sent) | Inr via \<Rightarrow> f via cs sent))"

definition exchangeCode :: "network \<Rightarrow> google_env \<Rightarrow> oauth_registry \<Rightarrow> string \<Rightarrow> string option \<Rightarrow> string option \<Rightarrow> json net_call" where
  "exchangeCode w e reg code proxyUrl preferred =
     with_clients e reg proxyUrl preferred (\<lambda>via cs. token_attempts w ''Token exchange'' (exchange_form e code) via cs [])"

definition refreshAccessToken :: "network \<Rightarrow> google_env \<Rightarrow> oauth_registry \<Rightarrow> string \<Rightarrow> string option \<Rightarrow> string option \<Rightarrow> json net_call" where
  "refreshAccessToken w e reg refreshToken proxyUrl preferred =
     with_clients e reg proxyUrl preferred (\<lambda>via cs. token_attempts w ''Token refresh'' (refresh_form refreshToken) via cs [])"

subsection \<open>User information\<close>

definition USER_INFO_URL :: string where "USER_INFO_URL = ''https://www.googleapis.com/oauth2/v2/userinfo''"

record google_user =
  gu_id :: string
  gu_email :: string
  gu_verified_email :: bool
  gu_name :: string
  gu_given_name :: "string option"
  gu_family_name :: "string option"
  gu_picture :: "string option"

text \<open>The schema of the reply: a member is absent, or has its type.\<close>

definition user_member :: "json \<Rightarrow> string \<Rightarrow> string option option" where
  "user_member v k = (case jget v k of None \<Rightarrow> Some None | Some (JStr s) \<Rightarrow> Some (Some s) | Some _ \<Rightarrow> None)"

definition parse_user :: "json \<Rightarrow> google_user option" where
  "parse_user v =
     (case (user_member v ''id'', user_member v ''email'', (case jget v ''verified_email'' of None \<Rightarrow> Some False | Some (JBool b) \<Rightarrow> Some b | _ \<Rightarrow> None),
            user_member v ''name'', user_member v ''given_name'', user_member v ''family_name'', user_member v ''picture'') of
        (Some (Some i), Some (Some email), Some verified, Some name, Some given, Some family, Some picture) \<Rightarrow>
          Some \<lparr>gu_id = i, gu_email = email, gu_verified_email = verified, gu_name = (case name of Some n \<Rightarrow> n | None \<Rightarrow> email),
            gu_given_name = given, gu_family_name = family, gu_picture = picture\<rparr>
      | _ \<Rightarrow> None)"

definition getUserInfo :: "network \<Rightarrow> google_env \<Rightarrow> string \<Rightarrow> string option \<Rightarrow> google_user net_call" where
  "getUserInfo w e accessToken proxyUrl sent =
     (case getFetchOptions e proxyUrl of
        Inl m \<Rightarrow> (Inl m, sent)
      | Inr via \<Rightarrow>
          (case send w \<lparr>hr_url = USER_INFO_URL, hr_headers = [(''Authorization'', ''Bearer '' @ accessToken)], hr_body = NoBody,
                  hr_route = via\<rparr> sent of
             (Rejected name message, sent') \<Rightarrow>
               (Inl (if name = ''AbortError'' then timeout_message ''User info request'' else message), sent')
           | (Reply status body, sent') \<Rightarrow>
               (if \<not> reply_ok status then Inl (''Failed to fetch user info: '' @ body)
                else (case json_parse body of
                        None \<Rightarrow> Inl ''SyntaxError''
                      | Some v \<Rightarrow>
                          (case parse_user v of None \<Rightarrow> Inl ''Received malformed user info from Google APIs'' | Some u \<Rightarrow> Inr u)),
                sent')))"

subsection \<open>The registry and its candidates\<close>

definition registry_ok :: "oauth_registry \<Rightarrow> bool" where
  "registry_ok reg \<longleftrightarrow> distinct (map oc_key (rg_clients reg)) \<and> rg_activeKey reg \<in> oc_key ` set (rg_clients reg)"

lemma put_client_keys: "set (map oc_key (put_client c cs)) = insert (oc_key c) (set (map oc_key cs))"
  by (induction c cs rule: put_client.induct) auto

lemma put_client_distinct: "distinct (map oc_key cs) \<Longrightarrow> distinct (map oc_key (put_client c cs))"
proof (induction c cs rule: put_client.induct)
  case (2 c d ds)
  then show ?case using put_client_keys [of c ds] by auto
qed simp

lemma configured_distinct: "distinct (map oc_key (configured_clients e))" "configured_clients e \<noteq> []"
proof -
  have "distinct (map oc_key (fold put_client ds cs)) \<and> fold put_client ds cs \<noteq> []" if "distinct (map oc_key cs)" "cs \<noteq> []" for ds cs
    using that
  proof (induction ds arbitrary: cs)
    case (Cons d ds)
    have "put_client d cs \<noteq> []" by (cases cs) auto
    with Cons put_client_distinct [of cs d] show ?case by simp
  qed simp
  then show "distinct (map oc_key (configured_clients e))" "configured_clients e \<noteq> []" by (simp_all add: configured_clients_def)
qed

lemma registry_built: "registry_ok (buildOAuthClientRegistry e)"
  using configured_distinct [of e]
  by (cases "configured_clients e") (auto simp: registry_ok_def buildOAuthClientRegistry_def Let_def list_ex_iff intro: rev_image_eqI)

lemma registry_set_active: "registry_ok reg \<Longrightarrow> setActiveOAuthClientKey k reg = Inr reg' \<Longrightarrow> registry_ok reg'"
  by (auto simp: registry_ok_def setActiveOAuthClientKey_def Let_def list_ex_iff intro: rev_image_eqI split: if_splits)

lemma push_candidate_keys: "distinct (map oc_key cs) \<Longrightarrow> distinct (map oc_key (push_candidate c cs))"
  by (auto simp: push_candidate_def split: option.splits)

lemma push_candidate_prefix: "\<exists>ds. push_candidate c cs = cs @ ds \<and> set ds \<subseteq> set_option c"
  by (auto simp: push_candidate_def split: option.splits)

lemma push_all:
  "distinct (map oc_key cs) \<Longrightarrow>
   (\<exists>ds. fold (\<lambda>c. push_candidate (Some c)) xs cs = cs @ ds \<and> set ds \<subseteq> set xs) \<and> distinct (map oc_key (fold (\<lambda>c. push_candidate (Some c)) xs cs)) \<and>
   oc_key ` set (fold (\<lambda>c. push_candidate (Some c)) xs cs) = oc_key ` (set cs \<union> set xs)"
proof (induction xs arbitrary: cs)
  case (Cons x xs)
  have k: "oc_key ` set (push_candidate (Some x) cs) = insert (oc_key x) (oc_key ` set cs)"
    by (auto simp: push_candidate_def)
  from push_candidate_prefix [of "Some x" cs] obtain ds where ds: "push_candidate (Some x) cs = cs @ ds" "set ds \<subseteq> {x}" by auto
  from Cons.IH [OF push_candidate_keys [OF Cons.prems, of "Some x"]] obtain es where es:
    "fold (\<lambda>c. push_candidate (Some c)) xs (push_candidate (Some x) cs) = push_candidate (Some x) cs @ es" "set es \<subseteq> set xs"
    "distinct (map oc_key (fold (\<lambda>c. push_candidate (Some c)) xs (push_candidate (Some x) cs)))"
    "oc_key ` set (fold (\<lambda>c. push_candidate (Some c)) xs (push_candidate (Some x) cs)) = oc_key ` (set (push_candidate (Some x) cs) \<union> set xs)"
    by blast
  have "fold (\<lambda>c. push_candidate (Some c)) (x # xs) cs = cs @ (ds @ es)" using es(1) ds(1) by simp
  moreover have "set (ds @ es) \<subseteq> set (x # xs)" using ds(2) es(2) by auto
  moreover have "oc_key ` set (fold (\<lambda>c. push_candidate (Some c)) (x # xs) cs) = oc_key ` (set cs \<union> set (x # xs))"
    unfolding fold_simps es(4) image_Un k by auto
  ultimately show ?case using es(3) by (intro conjI exI [of _ "ds @ es"]) simp_all
qed auto

lemma getClientByKey_mem: "getClientByKey cs k = Some c \<Longrightarrow> c \<in> set cs \<and> oc_key c = normal_client_key (the k)"
  by (auto simp: getClientByKey_def find_Some_iff split: if_splits)

lemma same_clients: "distinct (map oc_key cs) \<Longrightarrow> set ds \<subseteq> set cs \<Longrightarrow> oc_key ` set ds = oc_key ` set cs \<Longrightarrow> set ds = set cs"
  by (auto simp: distinct_map dest: inj_onD)

lemma candidates_are_all:
  assumes "registry_ok reg"
  shows "distinct (map oc_key (getCandidateClients reg preferred))" "set (getCandidateClients reg preferred) = set (rg_clients reg)"
    "getClientByKey (rg_clients reg) preferred = Some c \<Longrightarrow> hd (getCandidateClients reg preferred) = c"
proof -
  let ?a = "push_candidate (getClientByKey (rg_clients reg) preferred) []"
  let ?b = "push_candidate (getClientByKey (rg_clients reg) (Some (rg_activeKey reg))) ?a"
  have d: "distinct (map oc_key ?b)" by (intro push_candidate_keys) simp
  have sub: "set ?b \<subseteq> set (rg_clients reg)"
    by (auto simp: push_candidate_def elem_set dest: getClientByKey_mem getClientByKey_mem [OF sym] split: option.splits if_splits)
  from push_all [OF d, of "rg_clients reg"] obtain ds where ds: "getCandidateClients reg preferred = ?b @ ds"
      "set ds \<subseteq> set (rg_clients reg)"
    and dist: "distinct (map oc_key (getCandidateClients reg preferred))"
    and keys: "oc_key ` set (getCandidateClients reg preferred) = oc_key ` (set ?b \<union> set (rg_clients reg))"
    unfolding getCandidateClients_def by blast
  show "distinct (map oc_key (getCandidateClients reg preferred))" by (rule dist)
  have u: "set ?b \<union> set (rg_clients reg) = set (rg_clients reg)" using sub by blast
  have "set (getCandidateClients reg preferred) \<subseteq> set (rg_clients reg)" unfolding ds(1) using sub ds(2) by simp
  then show "set (getCandidateClients reg preferred) = set (rg_clients reg)"
    using same_clients assms keys unfolding u registry_ok_def by blast
  assume "getClientByKey (rg_clients reg) preferred = Some c"
  then have "?a = [c]" by (simp add: push_candidate_def)
  with push_candidate_prefix [of _ ?a] obtain es where "?b = c # es" by (metis append_Cons append_Nil)
  then show "hd (getCandidateClients reg preferred) = c" using ds(1) by simp
qed

text \<open>What a token call has asked, and what its outcome says about the replies.\<close>

lemma token_attempts_trace:
  "token_attempts w what form via cs errs sent = (res, sent') \<Longrightarrow>
   \<exists>n\<le>length cs. map hr_body sent' = map hr_body sent @ map (FormBody \<circ> form) (take n cs) \<and>
     (\<forall>t. res = Inr t \<longrightarrow> n > 0 \<and> jget t ''oauth_client_key'' = Some (JStr (oc_key (cs ! (n - 1)))))"
proof (induction w what form via cs errs sent rule: token_attempts.induct)
  case (1 w what form via errs sent)
  then show ?case by auto
next
  case (2 w what form via c cs errs sent)
  let ?rq = "\<lparr>hr_url = TOKEN_URL, hr_headers = [(''Content-Type'', ''application/x-www-form-urlencoded'')],
             hr_body = FormBody (form c), hr_route = via\<rparr>"
  show ?case
  proof (cases "w sent ?rq")
    case (Rejected name message)
    with 2(2) show ?thesis by (intro exI [of _ 1]) (auto simp: send_def)
  next
    case (Reply status body)
    show ?thesis
    proof (cases "\<not> reply_ok status \<and> isClientMismatchError status body")
      case True
      with 2(2) Reply have "token_attempts w what form via cs (errs @ [oc_key c @ '' => '' @ body]) (sent @ [?rq]) = (res, sent')"
        by (simp add: send_def)
      from 2(1) [OF _ Reply _ _ this] True obtain n where n: "n \<le> length cs"
        "map hr_body sent' = map hr_body (sent @ [?rq]) @ map (FormBody \<circ> form) (take n cs)"
        "\<And>t. res = Inr t \<Longrightarrow> n > 0 \<and> jget t ''oauth_client_key'' = Some (JStr (oc_key (cs ! (n - 1))))"
        by (auto simp: send_def)
      then show ?thesis by (intro exI [of _ "Suc n"]) auto
    next
      case False
      with 2(2) Reply show ?thesis
        by (intro exI [of _ 1]) (auto simp: send_def token_response_def update_conv' split: if_splits option.splits json.splits)
    qed
  qed
qed

text \<open>C33: Refreshing a token asks the OAuth clients one after the other, the one the account was made with first, each known client
  at most once and with the same refresh token; a success carries the key of the client that was asked last, and no
  client is left out when all of them are said to have failed.\<close>

theorem refresh_asks_each_client_once:
  assumes "registry_ok reg" "refreshAccessToken w e reg refreshToken proxyUrl preferred [] = (res, sent)"
  shows "\<exists>n. map hr_body sent = map (FormBody \<circ> refresh_form refreshToken) (take n (getCandidateClients reg preferred)) \<and>
    distinct (getCandidateClients reg preferred) \<and> set (getCandidateClients reg preferred) = set (rg_clients reg) \<and>
    (\<forall>c. getClientByKey (rg_clients reg) preferred = Some c \<longrightarrow> hd (getCandidateClients reg preferred) = c) \<and>
    (\<forall>t. res = Inr t \<longrightarrow> n > 0 \<and> jget t ''oauth_client_key'' = Some (JStr (oc_key (getCandidateClients reg preferred ! (n - 1)))))"
proof -
  note all = candidates_are_all [OF assms(1)]
  have "\<exists>n. map hr_body sent = map (FormBody \<circ> refresh_form refreshToken) (take n (getCandidateClients reg preferred)) \<and>
      (\<forall>t. res = Inr t \<longrightarrow> n > 0 \<and> jget t ''oauth_client_key'' = Some (JStr (oc_key (getCandidateClients reg preferred ! (n - 1)))))"
  proof (cases "(\<exists>c cs. getCandidateClients reg preferred = c # cs) \<and> (\<exists>via. getFetchOptions e proxyUrl = Inr via)")
    case True
    then obtain c cs via where "getCandidateClients reg preferred = c # cs" "getFetchOptions e proxyUrl = Inr via" by blast
    then have "token_attempts w ''Token refresh'' (refresh_form refreshToken) via (getCandidateClients reg preferred) [] [] = (res, sent)"
      using assms(2) by (simp add: refreshAccessToken_def with_clients_def)
    from token_attempts_trace [OF this] show ?thesis by auto
  next
    case False
    with assms(2) have "sent = []" "\<exists>m. res = Inl m"
      by (auto simp: refreshAccessToken_def with_clients_def split: list.splits sum.splits)
    then show ?thesis by (intro exI [of _ 0]) auto
  qed
  moreover have "distinct (getCandidateClients reg preferred)" using all(1) by (simp only: distinct_map)
  ultimately show ?thesis using all(2,3) by blast
qed

definition sample_google_env :: google_env where
  "sample_google_env = \<lparr>gv_client_id = ''i'', gv_client_secret = ''s'', gv_clients = Some ('' Own | i2|s2;;bad|x'' @ '';''), gv_active = None,
     gv_upstream_proxy = Inr (False, []), gv_http_proxy = (None, None), gv_https_proxy = (None, None), gv_no_proxy = (None, None),
     gv_electron_proxy = None, gv_redirect_uri = ''r'', gv_agent = sample_agent\<rparr>"

definition wrong_client_first :: network where
  "wrong_client_first sent rq =
     (if sent = [] then Reply 400 ''unauthorized_client'' else Reply 200 (CHR 0x7B # [CHR 0x7D]))"

lemma refresh_asks_each_client_once_witness:
  "\<exists>t sent. refreshAccessToken wrong_client_first sample_google_env (buildOAuthClientRegistry sample_google_env) ''rt'' None (Some '' OWN '') [] = (Inr t, sent) \<and>
     length sent = 2 \<and> jget t ''oauth_client_key'' = Some (JStr DEFAULT_OAUTH_CLIENT_KEY) \<and>
     set (getCandidateClients (buildOAuthClientRegistry sample_google_env) (Some '' OWN '')) =
       set (rg_clients (buildOAuthClientRegistry sample_google_env))"
proof -
  let ?reg = "buildOAuthClientRegistry sample_google_env"
  obtain t sent where r: "refreshAccessToken wrong_client_first sample_google_env ?reg ''rt'' None (Some '' OWN '') [] = (Inr t, sent)"
    "length sent = 2" "jget t ''oauth_client_key'' = Some (JStr DEFAULT_OAUTH_CLIENT_KEY)"
  proof -
    have "case refreshAccessToken wrong_client_first sample_google_env ?reg ''rt'' None (Some '' OWN '') [] of
        (Inr t, sent) \<Rightarrow> length sent = 2 \<and> jget t ''oauth_client_key'' = Some (JStr DEFAULT_OAUTH_CLIENT_KEY) | _ \<Rightarrow> False"
      by code_simp
    then show thesis by (auto split: prod.splits sum.splits intro: that)
  qed
  from refresh_asks_each_client_once [OF registry_built r(1)] r show ?thesis by blast
qed

end
