(* ===== verification/Doubles.thy ===== *)
theory Doubles
  imports JsPrelude
begin

section \<open>Rounding to double precision\<close>

text \<open>
  Numbers of the sources are doubles. Where a product is truncated its rounding matters: the percentage of a fraction is one
  such place. Here the rounding of an exact value to 53 significant bits, ties to even; overflow and the range of
  subnormal numbers are not modelled.
\<close>

fun bit_count :: "nat \<Rightarrow> nat" where
  "bit_count n = (if n = 0 then 0 else Suc (bit_count (n div 2)))"

declare bit_count.simps [simp del]

text \<open>The exponent \<open>k\<close> with \<open>2^k \<le> x < 2^(k+1)\<close>, for a positive number.\<close>

definition binade :: "rat \<Rightarrow> int" where
  "binade x = (if 1 \<le> x then int (bit_count (nat \<lfloor>x\<rfloor>)) - 1 else - int (bit_count (nat (\<lceil>1 / x\<rceil> - 1))))"

definition last_place :: "rat \<Rightarrow> rat" where
  "last_place x = (if binade x \<le> 52 then 1 / 2 ^ nat (52 - binade x) else 2 ^ nat (binade x - 52))"

definition round_half_even :: "rat \<Rightarrow> int" where
  "round_half_even y =
     (let f = \<lfloor>y\<rfloor>; d = y - of_int f in if d < 1 / 2 \<or> d = 1 / 2 \<and> even f then f else f + 1)"

definition to_double :: "rat \<Rightarrow> rat" where
  "to_double x = (if x = 0 then 0 else let u = last_place \<bar>x\<bar> in sgn x * (u * of_int (round_half_even (\<bar>x\<bar> / u))))"

lemma bit_count_bound: "n < 2 ^ k \<Longrightarrow> bit_count n \<le> k"
proof (induction k arbitrary: n)
  case 0
  then show ?case by (simp add: bit_count.simps)
next
  case (Suc k)
  then have "n div 2 < 2 ^ k" by simp
  from Suc.IH [OF this] show ?case by (subst bit_count.simps) simp
qed

lemma last_place_small:
  assumes "0 \<le> x" "x < 2 ^ 53"
  shows "\<exists>m. last_place x = 1 / 2 ^ m"
proof -
  have "binade x \<le> 52"
  proof (cases "1 \<le> x")
    case True
    have "\<lfloor>x\<rfloor> < 9007199254740992" using assms(2) by (simp add: floor_less_iff)
    then have "nat \<lfloor>x\<rfloor> < 9007199254740992" using True by linarith
    then have "nat \<lfloor>x\<rfloor> < 2 ^ 53" by simp
    from bit_count_bound [OF this] True show ?thesis by (simp add: binade_def)
  qed (simp add: binade_def)
  then show ?thesis by (auto simp: last_place_def)
qed

lemma round_half_even_mono: "of_int n \<le> y \<Longrightarrow> n \<le> round_half_even y" "y \<le> of_int n \<Longrightarrow> round_half_even y \<le> n"
proof -
  assume "of_int n \<le> y"
  then have "n \<le> \<lfloor>y\<rfloor>" by (simp add: le_floor_iff)
  then show "n \<le> round_half_even y" by (auto simp: round_half_even_def Let_def)
next
  assume y: "y \<le> of_int n"
  then have f: "\<lfloor>y\<rfloor> \<le> n" by linarith
  show "round_half_even y \<le> n"
  proof (cases "\<lfloor>y\<rfloor> = n")
    case True
    with y have "y = of_int n" by linarith
    then show ?thesis by (simp add: round_half_even_def)
  next
    case False
    with f show ?thesis by (auto simp: round_half_even_def Let_def)
  qed
qed

text \<open>Rounding does not pass a whole number.\<close>

lemma to_double_bounds:
  assumes "0 \<le> x" "x < 2 ^ 53"
  shows "of_nat n \<le> x \<Longrightarrow> of_nat n \<le> to_double x" "x \<le> of_nat n \<Longrightarrow> to_double x \<le> of_nat n"
proof -
  from last_place_small [OF assms] obtain m where m: "last_place x = 1 / 2 ^ m" by blast
  have d: "to_double x = of_int (round_half_even (x * 2 ^ m)) / 2 ^ m" if "x \<noteq> 0"
    using assms(1) that by (simp add: to_double_def m)
  have i: "of_nat n * 2 ^ m = (of_int (int n * 2 ^ m) :: rat)" by simp
  show "of_nat n \<le> to_double x" if "of_nat n \<le> x"
  proof (cases "x = 0")
    case False
    have "of_int (int n * 2 ^ m) \<le> x * 2 ^ m" unfolding i [symmetric] using that by (intro mult_right_mono) auto
    from round_half_even_mono(1) [OF this] have "(of_int (int n * 2 ^ m) :: rat) \<le> of_int (round_half_even (x * 2 ^ m))"
      by (simp only: of_int_le_iff)
    with False show ?thesis by (simp add: d field_simps)
  qed (use that in \<open>simp add: to_double_def\<close>)
  show "to_double x \<le> of_nat n" if "x \<le> of_nat n"
  proof (cases "x = 0")
    case False
    have "x * 2 ^ m \<le> of_int (int n * 2 ^ m)" unfolding i [symmetric] using that by (intro mult_right_mono) auto
    from round_half_even_mono(2) [OF this] have "of_int (round_half_even (x * 2 ^ m)) \<le> (of_int (int n * 2 ^ m) :: rat)"
      by (simp only: of_int_le_iff)
    with False show ?thesis by (simp add: d field_simps)
  qed (simp add: to_double_def)
qed

text \<open>Binary fractions of few bits are exact; most decimal ones are not.\<close>

lemma sample_doubles: "to_double (1 / 4) = 1 / 4" "\<lfloor>to_double (to_double (29 / 100) * 100)\<rfloor> = 28"
  by code_simp+

end
