(* ===== verification/GoogleQuota.thy ===== *)
theory GoogleQuota
  imports GoogleClients Doubles IdeState
begin

section \<open>Quotas from Google\<close>

text \<open>
  \<open>cloud-account/services/GoogleAPIService.ts\<close>, second part: the project and the tier of an account, its credits, and the
  quota of its models with the summary of the quota windows, from the replies of the internal API. Text members that are
  not texts count as absent; waiting between endpoints is not modelled.
\<close>

subsection \<open>Tiers\<close>

definition named :: "json option \<Rightarrow> string option" where
  "named v = (case as_string v of Some s \<Rightarrow> if js_trim s \<noteq> [] then Some s else None | None \<Rightarrow> None)"

text \<open>The name of a tier, or its id.\<close>

definition tier_name :: "json option \<Rightarrow> string option" where
  "tier_name tier = (case named (jget_opt tier ''name'') of Some n \<Rightarrow> Some n | None \<Rightarrow> named (jget_opt tier ''id''))"

fun find_default_tier :: "json list \<Rightarrow> string + json option" where
  "find_default_tier [] = Inr None"
| "find_default_tier (t # ts) =
     (if t = JNull then Inl ''TypeError'' else if jget t ''is_default'' = Some (JBool True) then Inr (Some t) else find_default_tier ts)"

definition allowed_tier :: "bool \<Rightarrow> json option \<Rightarrow> string + string option" where
  "allowed_tier ineligible tiers =
     (case as_array tiers of
        None \<Rightarrow> Inr None
      | Some ts \<Rightarrow>
          (case find_default_tier ts of
             Inl e \<Rightarrow> Inl e
           | Inr found \<Rightarrow>
               (let tier = (if found = None \<and> ts \<noteq> [] then Some (hd ts) else found)
                in Inr (map_option (\<lambda>n. if ineligible then n @ '' (Restricted)'' else n) (tier_name tier)))))"

definition resolveSubscriptionTier :: "json \<Rightarrow> string + string option" where
  "resolveSubscriptionTier payload =
     (let ineligible = (case as_array (jget payload ''ineligibleTiers'') of None \<Rightarrow> False | Some ts \<Rightarrow> ts \<noteq> [])
      in (case tier_name (jget payload ''paidTier'') of
            Some n \<Rightarrow> Inr (Some n)
          | None \<Rightarrow>
              (case (if ineligible then None else tier_name (jget payload ''currentTier'')) of
                 Some n \<Rightarrow> Inr (Some n)
               | None \<Rightarrow> allowed_tier ineligible (jget payload ''allowedTiers''))))"

subsection \<open>Quota windows\<close>

definition isTrackedModel :: "string \<Rightarrow> bool" where
  "isTrackedModel modelName =
     list_ex (starts_with (js_lower modelName)) [''gemini'', ''claude'', ''gpt'', ''image'', ''imagen'']"

record quota_window =
  qw_percentage :: rat
  qw_resetTime :: json

definition isRawQuotaInfo :: "json option \<Rightarrow> bool" where
  "isRawQuotaInfo v =
     (case v of None \<Rightarrow> False | Some q \<Rightarrow> jget q ''remainingFraction'' \<noteq> None \<or> jget q ''resetTime'' \<noteq> None)"

definition percentage_of :: "rat \<Rightarrow> rat" where
  "percentage_of fraction = of_int \<lfloor>to_double (to_double fraction * 100)\<rfloor>"

definition nullish :: "json option \<Rightarrow> bool" where
  "nullish v \<longleftrightarrow> v = None \<or> v = Some JNull"

definition normalizeQuotaWindow :: "json option \<Rightarrow> quota_window option" where
  "normalizeQuotaWindow v =
     (if \<not> isRawQuotaInfo v then None
      else (let f = jget_opt v ''remainingFraction''; t = jget_opt v ''resetTime''
            in Some \<lparr>qw_percentage = percentage_of (if nullish f then 0 else (case js_to_number (the f) of Fin q \<Rightarrow> q | _ \<Rightarrow> 0)),
                 qw_resetTime = (if truthy_opt t then the t else JStr [])\<rparr>))"

definition firstQuotaWindow :: "json option list \<Rightarrow> quota_window option" where
  "firstQuotaWindow vs = (case List.map_filter normalizeQuotaWindow vs of [] \<Rightarrow> None | w # _ \<Rightarrow> Some w)"

definition extractQuotaWindows :: "json \<Rightarrow> quota_window option \<times> quota_window option" where
  "extractQuotaWindows info =
     (let quotaInfo = jget info ''quotaInfo'';
          quotaInfos = (if nullish (jget info ''quotaInfos'') then jget_opt quotaInfo ''quotaInfos'' else jget info ''quotaInfos'')
      in (firstQuotaWindow (map (jget info) [''weeklyQuotaInfo'', ''weeklyQuota'', ''quotaInfoWeekly''] @
            map (jget_opt quotaInfos) [''weekly'', ''week'', ''weeklyQuota''] @ map (jget_opt quotaInfo) [''weekly'', ''weeklyQuota'']),
          firstQuotaWindow (map (jget info) [''fiveHourQuotaInfo'', ''fiveHourQuota'', ''quotaInfo5h''] @
            map (jget_opt quotaInfos) [''fiveHour'', ''five_hour'', ''5h''] @
            map (jget_opt quotaInfo) [''fiveHour'', ''five_hour'', ''5h''] @ [quotaInfo])))"

record model_quota =
  mq_percentage :: rat
  mq_resetTime :: json
  mq_weekly :: "quota_window option"
  mq_five_hour :: "quota_window option"
  mq_windows :: "quota_window option \<times> quota_window option"
  mq_details :: members

definition detail_names :: "(string \<times> string) list" where
  "detail_names = [(''display_name'', ''displayName''), (''supports_images'', ''supportsImages''), (''supports_thinking'', ''supportsThinking''),
     (''thinking_budget'', ''thinkingBudget''), (''recommended'', ''recommended''), (''max_tokens'', ''maxTokens''),
     (''max_output_tokens'', ''maxOutputTokens''), (''supported_mime_types'', ''supportedMimeTypes'')]"

definition model_details :: "json \<Rightarrow> members" where
  "model_details info = List.map_filter (\<lambda>(k, k'). map_option (Pair k) (jget info k')) detail_names"

definition toModelQuotaInfo :: "string \<Rightarrow> json \<Rightarrow> string + model_quota option" where
  "toModelQuotaInfo modelName info =
     (if \<not> isTrackedModel modelName then Inr None
      else if info = JNull then Inl ''TypeError''
      else (let (weekly, fiveHour) = extractQuotaWindows info
            in Inr (map_option (\<lambda>w. \<lparr>mq_percentage = qw_percentage w, mq_resetTime = qw_resetTime w, mq_weekly = weekly,
                 mq_five_hour = fiveHour, mq_windows = (weekly, fiveHour), mq_details = model_details info\<rparr>)
                 (case fiveHour of Some w \<Rightarrow> Some w | None \<Rightarrow> weekly))))"

text \<open>\<open>Object.entries\<close> of a value that is not falsy.\<close>

definition object_entries :: "json option \<Rightarrow> members" where
  "object_entries v =
     (case v of
        Some (JObj m) \<Rightarrow> m
      | Some (JArr xs) \<Rightarrow> zip (map nat_str [0..<length xs]) xs
      | Some (JStr s) \<Rightarrow> zip (map nat_str [0..<length s]) (map (\<lambda>c. JStr [c]) s)
      | _ \<Rightarrow> [])"

definition toModelForwardingRules :: "json option \<Rightarrow> string + string js_map option" where
  "toModelForwardingRules deprecatedModelIds =
     (let es = object_entries deprecatedModelIds;
          rules = List.map_filter (\<lambda>(k, v). case jget v ''newModelId'' of
            Some (JStr s) \<Rightarrow> if s \<noteq> [] then Some (k, s) else None | _ \<Rightarrow> None) es
      in if list_ex (\<lambda>(k, v). v = JNull) es then Inl ''TypeError'' else Inr (if rules = [] then None else Some rules))"

record quota_data =
  qd_models :: "model_quota js_map"
  qd_subscription_tier :: "string option"
  qd_rules :: "string js_map option"
  qd_ai_credits :: "json option"

fun quota_models :: "members \<Rightarrow> string + model_quota js_map" where
  "quota_models [] = Inr []"
| "quota_models ((name, info) # ms) =
     (case toModelQuotaInfo name info of
        Inl e \<Rightarrow> Inl e
      | Inr q \<Rightarrow> map_sum id (\<lambda>rest. (case q of Some m \<Rightarrow> [(name, m)] | None \<Rightarrow> []) @ rest) (quota_models ms))"

definition toQuotaData :: "json \<Rightarrow> string option \<Rightarrow> string + quota_data" where
  "toQuotaData data tier =
     (if data = JNull then Inl ''TypeError''
      else (case quota_models (object_entries (jget data ''models'')) of
              Inl e \<Rightarrow> Inl e
            | Inr models \<Rightarrow>
                (case toModelForwardingRules (jget data ''deprecatedModelIds'') of
                   Inl e \<Rightarrow> Inl e
                 | Inr rules \<Rightarrow> Inr \<lparr>qd_models = models, qd_subscription_tier = tier, qd_rules = rules, qd_ai_credits = None\<rparr>)))"

subsection \<open>The summary of the quota windows\<close>

definition text_member :: "json \<Rightarrow> string \<Rightarrow> string" where
  "text_member v k = (case as_string (jget v k) of Some s \<Rightarrow> s | None \<Rightarrow> [])"

definition bucket_text :: "json \<Rightarrow> string" where
  "bucket_text b = js_lower (text_member b ''window'' @ '' '' @ text_member b ''bucketId'' @ '' '' @ text_member b ''displayName'')"

definition isWeeklyQuotaBucket :: "json \<Rightarrow> bool" where
  "isWeeklyQuotaBucket b \<longleftrightarrow> str_contains (bucket_text b) ''weekly'' \<or> str_contains (bucket_text b) ''week''"

definition isFiveHourQuotaBucket :: "json \<Rightarrow> bool" where
  "isFiveHourQuotaBucket b \<longleftrightarrow>
     str_contains (bucket_text b) ''5h'' \<or> str_contains (bucket_text b) ''five hour'' \<or> str_contains (bucket_text b) ''five-hour''"

text \<open>A search that reads a member of each element it passes: a null among them is an error.\<close>

fun find_bucket :: "(json \<Rightarrow> bool) \<Rightarrow> json list \<Rightarrow> string + json option" where
  "find_bucket P [] = Inr None"
| "find_bucket P (b # bs) = (if b = JNull then Inl ''TypeError'' else if P b then Inr (Some b) else find_bucket P bs)"

definition normalizeSummaryBucket :: "json option \<Rightarrow> quota_window option" where
  "normalizeSummaryBucket bucket = (if truthy_opt bucket then normalizeQuotaWindow bucket else None)"

text \<open>The buckets of a group; what is neither absent nor a list has no \<open>find\<close>.\<close>

definition group_buckets :: "json \<Rightarrow> string + json list" where
  "group_buckets grp =
     (if grp = JNull then Inl ''TypeError''
      else (case jget grp ''buckets'' of
              None \<Rightarrow> Inr [] | Some JNull \<Rightarrow> Inr [] | Some (JArr bs) \<Rightarrow> Inr bs | Some _ \<Rightarrow> Inl ''TypeError''))"

definition quotaSummaryGroupMatchesModel :: "json \<Rightarrow> json list \<Rightarrow> string \<Rightarrow> bool" where
  "quotaSummaryGroupMatchesModel grp buckets modelName =
     (let model = js_lower modelName;
          t = js_lower (text_member grp ''displayName'' @ '' '' @ text_member grp ''description'' @ '' '' @
            join '' '' (map (\<lambda>b. text_member b ''bucketId'') buckets))
      in if str_contains model ''gemini'' then str_contains t ''gemini''
         else if str_contains model ''claude'' \<or> str_contains model ''gpt''
         then str_contains t ''claude'' \<or> str_contains t ''gpt'' \<or> str_contains t ''3p''
         else False)"

definition merge_windows :: "quota_window option \<Rightarrow> quota_window option \<Rightarrow> model_quota \<Rightarrow> model_quota" where
  "merge_windows weekly fiveHour q =
     (let w = (case weekly of Some x \<Rightarrow> Some x | None \<Rightarrow> mq_weekly q);
          f = (case mq_five_hour q of Some x \<Rightarrow> Some x | None \<Rightarrow> fiveHour)
      in q\<lparr>mq_weekly := w, mq_five_hour := f, mq_windows := (w, f)\<rparr>)"

definition merge_group :: "json \<Rightarrow> model_quota js_map \<Rightarrow> string + model_quota js_map" where
  "merge_group grp models =
     (case group_buckets grp of
        Inl e \<Rightarrow> Inl e
      | Inr buckets \<Rightarrow>
          (case find_bucket isWeeklyQuotaBucket buckets of
             Inl e \<Rightarrow> Inl e
           | Inr wb \<Rightarrow>
               (case find_bucket isFiveHourQuotaBucket buckets of
                  Inl e \<Rightarrow> Inl e
                | Inr fb \<Rightarrow>
                    (let weekly = normalizeSummaryBucket wb; fiveHour = normalizeSummaryBucket fb
                     in if weekly = None \<and> fiveHour = None \<or> models = [] then Inr models
                        else if JNull \<in> set buckets then Inl ''TypeError''
                        else Inr (map (\<lambda>(name, q). (name, if quotaSummaryGroupMatchesModel grp buckets name
                               then merge_windows weekly fiveHour q else q)) models)))))"

fun merge_groups :: "json list \<Rightarrow> model_quota js_map \<Rightarrow> string + model_quota js_map" where
  "merge_groups [] models = Inr models"
| "merge_groups (g # gs) models =
     (case merge_group g models of Inl e \<Rightarrow> Inl e | Inr models' \<Rightarrow> merge_groups gs models')"

definition mergeQuotaSummaryIntoQuotaData :: "json \<Rightarrow> quota_data \<Rightarrow> string + quota_data" where
  "mergeQuotaSummaryIntoQuotaData summary q =
     (case jget summary ''groups'' of
        Some (JArr gs) \<Rightarrow> map_sum id (\<lambda>models. q\<lparr>qd_models := models\<rparr>) (merge_groups gs (qd_models q))
      | Some (JObj m) \<Rightarrow> if truthy_opt (map_of m ''length'') then Inl ''TypeError'' else Inr q
      | _ \<Rightarrow> Inr q)"

subsection \<open>Calls\<close>

definition LOAD_PROJECT :: string where
  "LOAD_PROJECT = ''https://cloudcode-pa.googleapis.com/v1internal:loadCodeAssist''"

definition SANDBOX_LOAD_PROJECT :: string where
  "SANDBOX_LOAD_PROJECT = ''https://daily-cloudcode-pa.sandbox.googleapis.com/v1internal:loadCodeAssist''"

definition DAILY_LOAD_PROJECT :: string where
  "DAILY_LOAD_PROJECT = ''https://daily-cloudcode-pa.googleapis.com/v1internal:loadCodeAssist''"

definition QUOTA_API_ENDPOINTS :: "string list" where
  "QUOTA_API_ENDPOINTS =
     [''https://daily-cloudcode-pa.sandbox.googleapis.com/v1internal:fetchAvailableModels'',
      ''https://daily-cloudcode-pa.googleapis.com/v1internal:fetchAvailableModels'',
      ''https://cloudcode-pa.googleapis.com/v1internal:fetchAvailableModels'']"

definition QUOTA_SUMMARY_API_ENDPOINTS :: "string list" where
  "QUOTA_SUMMARY_API_ENDPOINTS =
     [''https://daily-cloudcode-pa.sandbox.googleapis.com/v1internal:retrieveUserQuotaSummary'',
      ''https://daily-cloudcode-pa.googleapis.com/v1internal:retrieveUserQuotaSummary'',
      ''https://cloudcode-pa.googleapis.com/v1internal:retrieveUserQuotaSummary'']"

definition buildInternalApiHeaders :: "google_env \<Rightarrow> string \<Rightarrow> string js_map" where
  "buildInternalApiHeaders e accessToken =
     [(''Authorization'', ''Bearer '' @ accessToken), (''User-Agent'', discovery_agent (gv_agent e)),
      (''Content-Type'', ''application/json'')]"

definition internal_request :: "google_env \<Rightarrow> string \<Rightarrow> route \<Rightarrow> string \<Rightarrow> json \<Rightarrow> http_request" where
  "internal_request e accessToken via url body =
     \<lparr>hr_url = url, hr_headers = buildInternalApiHeaders e accessToken, hr_body = JsonBody body, hr_route = via\<rparr>"

subsection \<open>Project and credits\<close>

type_synonym project_context = "string option \<times> string option"

definition metadata_body :: "members \<Rightarrow> json" where
  "metadata_body m = JObj [(''metadata'', JObj m)]"

text \<open>What a reply tells, and the error that reading it ends with.\<close>

definition read_context :: "string \<Rightarrow> project_context \<times> string option" where
  "read_context body =
     (case json_parse body of
        None \<Rightarrow> ((None, None), Some ''SyntaxError'')
      | Some JNull \<Rightarrow> ((None, None), Some ''TypeError'')
      | Some v \<Rightarrow>
          (case resolveSubscriptionTier v of
             Inl err \<Rightarrow> ((as_string (jget v ''cloudaicompanionProject''), None), Some err)
           | Inr tier \<Rightarrow> ((as_string (jget v ''cloudaicompanionProject''), tier), None)))"

definition known_context :: "project_context \<Rightarrow> bool" where
  "known_context c \<longleftrightarrow> str_truthy (fst c) \<or> str_truthy (snd c)"

definition http_error :: "string \<Rightarrow> nat \<Rightarrow> string \<Rightarrow> string" where
  "http_error sep status body = ''HTTP '' @ nat_str status @ sep @ body"

definition context_ask :: "network \<Rightarrow> google_env \<Rightarrow> string \<Rightarrow> string option \<Rightarrow> string \<Rightarrow> (nat \<times> string) net_call" where
  "context_ask w e accessToken proxyUrl endpoint sent =
     (case getFetchOptions e proxyUrl of
        Inl m \<Rightarrow> (Inl m, sent)
      | Inr via \<Rightarrow>
          (case send w (internal_request e accessToken via endpoint (metadata_body [(''ideType'', JStr ''ANTIGRAVITY'')])) sent of
             (Rejected _ m, sent') \<Rightarrow> (Inl m, sent')
           | (Reply status body, sent') \<Rightarrow> (Inr (status, body), sent')))"

text \<open>What an endpoint leaves: the context, the last error, and whether the loop is left at once.\<close>

definition context_step ::
    "string \<Rightarrow> string + nat \<times> string \<Rightarrow> project_context \<Rightarrow> string option \<Rightarrow> project_context \<times> string option \<times> bool" where
  "context_step endpoint reply c lastError =
     (case reply of
        Inl m \<Rightarrow> (c, Some m, False)
      | Inr (status, body) \<Rightarrow>
          (if reply_ok status then
             (case read_context body of
                (c', None) \<Rightarrow> ((if fst c' = None then fst c else fst c', snd c'), lastError, True)
              | (c', Some err) \<Rightarrow> ((if fst c' = None then fst c else fst c', snd c), Some err, False))
           else (c, Some (http_error '': '' status body), endpoint = LOAD_PROJECT \<and> status = 429)))"

fun context_loop :: "network \<Rightarrow> google_env \<Rightarrow> string \<Rightarrow> string option \<Rightarrow> string list \<Rightarrow> project_context \<Rightarrow> string option \<Rightarrow>
    http_request list \<Rightarrow> (project_context \<times> string option) \<times> http_request list" where
  "context_loop w e accessToken proxyUrl [] c lastError sent = ((c, lastError), sent)"
| "context_loop w e accessToken proxyUrl (endpoint # endpoints) c lastError sent =
     (let (reply, sent') = context_ask w e accessToken proxyUrl endpoint sent;
          (c', lastError', left) = context_step endpoint reply c lastError
      in if left \<or> known_context c' \<or> endpoint \<noteq> LOAD_PROJECT \<or>
            \<not> (case lastError' of None \<Rightarrow> False | Some m \<Rightarrow> starts_with m ''HTTP 429'')
         then ((c', lastError'), sent')
         else context_loop w e accessToken proxyUrl endpoints c' lastError' sent')"

definition fetchProjectContext :: "network \<Rightarrow> google_env \<Rightarrow> string \<Rightarrow> string option \<Rightarrow> project_context net_call" where
  "fetchProjectContext w e accessToken proxyUrl sent =
     (let ((c, lastError), sent') = context_loop w e accessToken proxyUrl [LOAD_PROJECT, SANDBOX_LOAD_PROJECT] (None, None) None sent
      in (if known_context c then Inr c
          else Inl (case lastError of Some m \<Rightarrow> m | None \<Rightarrow> ''Failed to fetch project context after multiple attempts.''), sent'))"

definition fetchProjectId :: "network \<Rightarrow> google_env \<Rightarrow> string \<Rightarrow> string option \<Rightarrow> string option net_call" where
  "fetchProjectId w e accessToken proxyUrl sent = apfst (map_sum id fst) (fetchProjectContext w e accessToken proxyUrl sent)"

definition parseCreditAmount :: "json option \<Rightarrow> rat" where
  "parseCreditAmount v =
     (case v of Some (JNum q) \<Rightarrow> q | Some (JStr s) \<Rightarrow> (case parse_int s of Some n \<Rightarrow> of_int n | None \<Rightarrow> 0) | _ \<Rightarrow> 0)"

text \<open>\<open>v[0]\<close>\<close>

definition index_0 :: "json option \<Rightarrow> json option" where
  "index_0 v = (case v of Some (JArr (x # _)) \<Rightarrow> Some x | Some (JStr (c # _)) \<Rightarrow> Some (JStr [c]) | Some (JObj m) \<Rightarrow> map_of m ''0'' | _ \<Rightarrow> None)"

definition extractAiCreditsFromProjectContext :: "json \<Rightarrow> json option" where
  "extractAiCreditsFromProjectContext payload =
     (let credit = index_0 (jget_opt (jget payload ''paidTier'') ''availableCredits'')
      in if truthy_opt credit
         then Some (JObj [(''credits'', JNum (parseCreditAmount (jget_opt credit ''creditAmount''))), (''expiryDate'', JStr [])])
         else None)"

text \<open>A failure of any kind means no credits.\<close>

definition fetchAICredits :: "network \<Rightarrow> google_env \<Rightarrow> string \<Rightarrow> string option \<Rightarrow> http_request list \<Rightarrow> json option \<times> http_request list" where
  "fetchAICredits w e accessToken proxyUrl sent =
     (case getFetchOptions e proxyUrl of
        Inl _ \<Rightarrow> (None, sent)
      | Inr via \<Rightarrow>
          (case send w (internal_request e accessToken via DAILY_LOAD_PROJECT (metadata_body
                  [(''ide_type'', JStr ''ANTIGRAVITY''),
                   (''ide_version'', JStr (case resolveLocalInstalledVersion (gv_agent e) of Some v \<Rightarrow> v | None \<Rightarrow> FALLBACK_VERSION)),
                   (''ide_name'', JStr ''antigravity'')])) sent of
             (Rejected _ _, sent') \<Rightarrow> (None, sent')
           | (Reply status body, sent') \<Rightarrow>
               (if reply_ok status then Option.bind (json_parse body) extractAiCreditsFromProjectContext else None, sent')))"

subsection \<open>The quota\<close>

fun summary_attempts :: "network \<Rightarrow> (string \<Rightarrow> http_request) \<Rightarrow> string list \<Rightarrow> http_request list \<Rightarrow> json \<times> http_request list" where
  "summary_attempts w rq [] sent = (JNull, sent)"
| "summary_attempts w rq (endpoint # endpoints) sent =
     (case send w (rq endpoint) sent of
        (Rejected _ _, sent') \<Rightarrow> summary_attempts w rq endpoints sent'
      | (Reply status body, sent') \<Rightarrow>
          (if \<not> reply_ok status then (if status \<in> {401, 403} then (JNull, sent') else summary_attempts w rq endpoints sent')
           else (case json_parse body of Some v \<Rightarrow> (v, sent') | None \<Rightarrow> summary_attempts w rq endpoints sent')))"

definition fetchQuotaSummary :: "network \<Rightarrow> google_env \<Rightarrow> string \<Rightarrow> string option \<Rightarrow> json net_call" where
  "fetchQuotaSummary w e accessToken proxyUrl sent =
     (case getFetchOptions e proxyUrl of
        Inl m \<Rightarrow> (Inl m, sent)
      | Inr via \<Rightarrow> apfst Inr (summary_attempts w (\<lambda>url. internal_request e accessToken via url (JObj [])) QUOTA_SUMMARY_API_ENDPOINTS sent))"

definition shouldFallbackQuotaEndpoint :: "nat \<Rightarrow> bool" where
  "shouldFallbackQuotaEndpoint status \<longleftrightarrow> status = 429 \<or> 500 \<le> status"

definition word_char :: "char \<Rightarrow> bool" where
  "word_char c \<longleftrightarrow> is_digit c \<or> c = CHR ''_'' \<or> ((97 :: nat) \<le> of_char (lower_char c) \<and> of_char (lower_char c) \<le> (122 :: nat))"

definition isPermanentQuotaHttp4xx :: "string \<Rightarrow> bool" where
  "isPermanentQuotaHttp4xx m \<longleftrightarrow>
     starts_with m ''HTTP 4'' \<and> 8 \<le> length m \<and> is_digit (m ! 6) \<and> is_digit (m ! 7) \<and> (8 < length m \<longrightarrow> \<not> word_char (m ! 8)) \<and>
     \<not> starts_with m ''HTTP 429''"

text \<open>How a request for the quota ends: with a result, with another try without the project, at the next endpoint, or with an error.\<close>

datatype quota_step = QuotaResult quota_data | WithoutProject | TryNext string | GiveUp string

definition after_error :: "bool \<Rightarrow> string \<Rightarrow> quota_step" where
  "after_error hasNext m =
     (if m = ''FORBIDDEN'' \<or> m = ''UNAUTHORIZED'' then GiveUp m
      else if hasNext \<and> \<not> isPermanentQuotaHttp4xx m then TryNext m else GiveUp m)"

definition quota_refused :: "bool \<Rightarrow> bool \<Rightarrow> nat \<Rightarrow> string \<Rightarrow> quota_step" where
  "quota_refused hasProject hasNext status body =
     (if status = 403 then (if hasProject then WithoutProject else after_error hasNext ''FORBIDDEN'')
      else if status = 401 then after_error hasNext ''UNAUTHORIZED''
      else if hasNext \<and> shouldFallbackQuotaEndpoint status then TryNext (http_error '' - '' status body)
      else after_error hasNext (http_error '' - '' status body))"

definition quota_answer ::
    "network \<Rightarrow> google_env \<Rightarrow> string \<Rightarrow> string option \<Rightarrow> string option \<Rightarrow> string \<Rightarrow> quota_data net_call" where
  "quota_answer w e accessToken proxyUrl tier body sent =
     (case json_parse body of
        None \<Rightarrow> (Inl ''SyntaxError'', sent)
      | Some data \<Rightarrow>
          (case toQuotaData data tier of
             Inl m \<Rightarrow> (Inl m, sent)
           | Inr q \<Rightarrow>
               (case fetchQuotaSummary w e accessToken proxyUrl sent of
                  (Inl m, sent') \<Rightarrow> (Inl m, sent')
                | (Inr summary, sent') \<Rightarrow> (mergeQuotaSummaryIntoQuotaData summary q, sent'))))"

definition quota_ask ::
    "network \<Rightarrow> google_env \<Rightarrow> string \<Rightarrow> string option \<Rightarrow> string option \<Rightarrow> route \<Rightarrow> string \<Rightarrow> bool \<Rightarrow> members \<Rightarrow>
     http_request list \<Rightarrow> quota_step \<times> http_request list" where
  "quota_ask w e accessToken proxyUrl tier via endpoint hasNext payload sent =
     (case send w (internal_request e accessToken via endpoint (JObj payload)) sent of
        (Rejected _ m, sent') \<Rightarrow> (after_error hasNext m, sent')
      | (Reply status body, sent') \<Rightarrow>
          (if \<not> reply_ok status then (quota_refused (payload \<noteq> []) hasNext status body, sent')
           else apfst (case_sum (after_error hasNext) QuotaResult) (quota_answer w e accessToken proxyUrl tier body sent')))"

text \<open>One endpoint is asked at most twice: the second time there is no project to leave out.\<close>

definition quota_endpoint ::
    "network \<Rightarrow> google_env \<Rightarrow> string \<Rightarrow> string option \<Rightarrow> string option \<Rightarrow> route \<Rightarrow> string \<Rightarrow> bool \<Rightarrow> members \<Rightarrow>
     http_request list \<Rightarrow> quota_step \<times> http_request list" where
  "quota_endpoint w e accessToken proxyUrl tier via endpoint hasNext payload sent =
     (case quota_ask w e accessToken proxyUrl tier via endpoint hasNext payload sent of
        (WithoutProject, sent') \<Rightarrow> quota_ask w e accessToken proxyUrl tier via endpoint hasNext [] sent'
      | r \<Rightarrow> r)"

fun quota_endpoints ::
    "network \<Rightarrow> google_env \<Rightarrow> string \<Rightarrow> string option \<Rightarrow> string option \<Rightarrow> route \<Rightarrow> members \<Rightarrow> string list \<Rightarrow> string option \<Rightarrow> quota_data net_call" where
  "quota_endpoints w e accessToken proxyUrl tier via payload [] lastError sent =
     (Inl (case lastError of Some m \<Rightarrow> m | None \<Rightarrow> ''Quota check failed''), sent)"
| "quota_endpoints w e accessToken proxyUrl tier via payload (endpoint # endpoints) lastError sent =
     (case quota_endpoint w e accessToken proxyUrl tier via endpoint (endpoints \<noteq> []) payload sent of
        (QuotaResult q, sent') \<Rightarrow> (Inr q, sent')
      | (GiveUp m, sent') \<Rightarrow> (Inl m, sent')
      | (TryNext m, sent') \<Rightarrow> quota_endpoints w e accessToken proxyUrl tier via payload endpoints (Some m) sent'
      | (WithoutProject, sent') \<Rightarrow> (Inl ''unreachable'', sent'))"

definition fetchQuota :: "network \<Rightarrow> google_env \<Rightarrow> string \<Rightarrow> string option \<Rightarrow> quota_data net_call" where
  "fetchQuota w e accessToken proxyUrl sent =
     (let (context, sent') = fetchProjectContext w e accessToken proxyUrl sent;
          (project, tier) = (case context of Inl _ \<Rightarrow> (None, None) | Inr c \<Rightarrow> c)
      in (case getFetchOptions e proxyUrl of
            Inl m \<Rightarrow> (Inl m, sent')
          | Inr via \<Rightarrow> quota_endpoints w e accessToken proxyUrl tier via
              (if str_truthy project then [(''project'', JStr (the project))] else []) QUOTA_API_ENDPOINTS None sent'))"

subsection \<open>The quota as it is stored\<close>

definition window_json :: "quota_window \<Rightarrow> json" where
  "window_json v = JObj [(''percentage'', JNum (qw_percentage v)), (''resetTime'', qw_resetTime v)]"

definition window_members :: "quota_window option \<times> quota_window option \<Rightarrow> members" where
  "window_members v =
     (case fst v of Some x \<Rightarrow> [(''weekly'', window_json x)] | None \<Rightarrow> []) @ (case snd v of Some x \<Rightarrow> [(''five_hour'', window_json x)] | None \<Rightarrow> [])"

definition model_quota_json :: "model_quota \<Rightarrow> json" where
  "model_quota_json q =
     JObj ([(''percentage'', JNum (mq_percentage q)), (''resetTime'', mq_resetTime q)] @ window_members (mq_weekly q, mq_five_hour q) @
       [(''quota_windows'', JObj (window_members (mq_windows q)))] @ mq_details q)"

definition quota_json :: "quota_data \<Rightarrow> json" where
  "quota_json q =
     JObj ([(''models'', JObj (map (apsnd model_quota_json) (qd_models q)))] @
       (case qd_subscription_tier q of Some t \<Rightarrow> [(''subscription_tier'', JStr t)] | None \<Rightarrow> []) @ [(''is_forbidden'', JBool False)] @
       (case qd_rules q of Some r \<Rightarrow> [(''model_forwarding_rules'', JObj (map (apsnd JStr) r))] | None \<Rightarrow> []) @
       (case qd_ai_credits q of Some c \<Rightarrow> [(''ai_credits'', c)] | None \<Rightarrow> []))"

subsection \<open>How many requests a quota costs\<close>

text \<open>A call only adds requests to the log, and at most so many.\<close>

definition adds :: "nat \<Rightarrow> http_request list \<Rightarrow> http_request list \<Rightarrow> bool" where
  "adds n sent sent' \<longleftrightarrow> (\<exists>more. sent' = sent @ more \<and> length more \<le> n)"

lemma adds_none [simp, intro]: "adds n sent sent"
  by (simp add: adds_def)

lemma adds_one [intro]: "adds (Suc n) sent (sent @ [rq])"
  by (simp add: adds_def)

lemma adds_trans: "adds m s1 s2 \<Longrightarrow> adds n s2 s3 \<Longrightarrow> adds (m + n) s1 s3"
  by (auto simp: adds_def)

lemma adds_mono: "adds m s1 s2 \<Longrightarrow> m \<le> n \<Longrightarrow> adds n s1 s2"
  by (auto simp: adds_def)

lemma context_ask_adds: "context_ask w e t p ep sent = (r, sent') \<Longrightarrow> adds 1 sent sent'"
  by (auto simp: context_ask_def send_def adds_def split: sum.splits http_reply.splits)

lemma context_loop_adds: "context_loop w e t p eps c err sent = (r, sent') \<Longrightarrow> adds (length eps) sent sent'"
proof (induction w e t p eps c err sent rule: context_loop.induct)
  case (2 w e t p ep eps c err sent)
  obtain reply sent1 where a: "context_ask w e t p ep sent = (reply, sent1)" by fastforce
  obtain c' err' left where b: "context_step ep reply c err = (c', err', left)" by (cases "context_step ep reply c err")
  note one = context_ask_adds [OF a]
  show ?case
  proof (cases "left \<or> known_context c' \<or> ep \<noteq> LOAD_PROJECT \<or> \<not> (case err' of None \<Rightarrow> False | Some m \<Rightarrow> starts_with m ''HTTP 429'')")
    case True
    with 2(2) a b have "sent' = sent1" by (simp add: Let_def split: if_splits)
    with one show ?thesis by (auto intro: adds_mono)
  next
    case False
    with 2(2) a b have r: "context_loop w e t p eps c' err' sent1 = (r, sent')" by simp
    have "adds (length eps) sent1 sent'" by (rule 2(1) [OF refl a [symmetric] refl b [symmetric] refl _ r]) (use False in blast)
    from adds_trans [OF one this] show ?thesis by simp
  qed
qed auto

lemma fetchProjectContext_adds: "fetchProjectContext w e t p sent = (r, sent') \<Longrightarrow> adds 2 sent sent'"
  using context_loop_adds [of w e t p "[LOAD_PROJECT, SANDBOX_LOAD_PROJECT]" "(None, None)" None sent]
  by (auto simp: fetchProjectContext_def Let_def eval_nat_numeral split: prod.splits if_splits)

lemma summary_attempts_adds: "summary_attempts w rq eps sent = (r, sent') \<Longrightarrow> adds (length eps) sent sent'"
proof (induction w rq eps sent rule: summary_attempts.induct)
  case (2 w rq ep eps sent)
  have next_ok: "adds (Suc (length eps)) sent sent'" if "adds (length eps) (sent @ [rq ep]) sent'"
    using adds_trans [OF adds_one [of 0] that] by simp
  show ?case
  proof (cases "w sent (rq ep)")
    case (Rejected n m)
    then show ?thesis using 2 by (auto simp: send_def intro!: next_ok)
  next
    case (Reply st body)
    then show ?thesis using 2 by (auto simp: send_def split: if_splits option.splits intro!: next_ok)
  qed
qed auto

lemma fetchQuotaSummary_adds: "fetchQuotaSummary w e t p sent = (r, sent') \<Longrightarrow> adds 3 sent sent'"
  using summary_attempts_adds [of w _ QUOTA_SUMMARY_API_ENDPOINTS sent]
  by (auto simp: fetchQuotaSummary_def apfst_def map_prod_def eval_nat_numeral QUOTA_SUMMARY_API_ENDPOINTS_def split: sum.splits prod.splits)

lemma quota_answer_adds: "quota_answer w e t p tier body sent = (r, sent') \<Longrightarrow> adds 3 sent sent'"
  by (auto simp: quota_answer_def dest: fetchQuotaSummary_adds split: option.splits sum.splits prod.splits)

lemma answer_is_no_retry: "case_sum (after_error hasNext) QuotaResult x \<noteq> WithoutProject"
  by (cases x) (auto simp: after_error_def)

lemma quota_ask_adds:
  assumes "quota_ask w e t p tier via ep hasNext payload sent = (r, sent')"
  shows "adds 4 sent sent'" "r = WithoutProject \<Longrightarrow> adds 1 sent sent' \<and> payload \<noteq> []"
proof -
  let ?rq = "internal_request e t via ep (JObj payload)"
  show "adds 4 sent sent'"
  proof (cases "w sent ?rq")
    case (Rejected n m)
    with assms show ?thesis by (auto simp: quota_ask_def send_def adds_def)
  next
    case (Reply st body)
    obtain a s where a: "quota_answer w e t p tier body (sent @ [?rq]) = (a, s)" by fastforce
    have "adds 4 sent s" using adds_trans [OF adds_one [of 0] quota_answer_adds [OF a]] by simp
    with assms Reply a show ?thesis by (auto simp: quota_ask_def send_def adds_def split: if_splits)
  qed
  assume "r = WithoutProject"
  with assms show "adds 1 sent sent' \<and> payload \<noteq> []"
    by (auto simp: quota_ask_def send_def adds_def after_error_def [of hasNext] quota_refused_def apfst_def map_prod_def answer_is_no_retry
        split: http_reply.splits if_splits prod.splits)
qed

lemma quota_endpoint_adds:
  assumes "quota_endpoint w e t p tier via ep hasNext payload sent = (r, sent')"
  shows "adds 5 sent sent'" "r \<noteq> WithoutProject"
proof -
  obtain r1 s1 where a: "quota_ask w e t p tier via ep hasNext payload sent = (r1, s1)" by fastforce
  obtain r2 s2 where b: "quota_ask w e t p tier via ep hasNext [] s1 = (r2, s2)" by fastforce
  have "adds 5 sent s1" using quota_ask_adds(1) [OF a] by (rule adds_mono) simp
  moreover have "adds 5 sent s2" if "r1 = WithoutProject"
    using adds_trans [OF quota_ask_adds(2) [OF a that, THEN conjunct1] quota_ask_adds(1) [OF b]] by simp
  moreover have "r2 \<noteq> WithoutProject" using quota_ask_adds(2) [OF b] by blast
  ultimately show "adds 5 sent sent'" "r \<noteq> WithoutProject"
    using assms a b by (auto simp: quota_endpoint_def split: quota_step.splits)
qed

lemma quota_endpoints_adds:
  "quota_endpoints w e t p tier via payload eps err sent = (r, sent') \<Longrightarrow> adds (5 * length eps) sent sent'"
proof (induction w e t p tier via payload eps err sent rule: quota_endpoints.induct)
  case (2 w e t p tier via payload ep eps err sent)
  obtain r1 s1 where a: "quota_endpoint w e t p tier via ep (eps \<noteq> []) payload sent = (r1, s1)" by fastforce
  note one = quota_endpoint_adds(1) [OF a]
  show ?case
  proof (cases "\<exists>m. r1 = TryNext m")
    case True
    then obtain m where m: "r1 = TryNext m" by blast
    with 2(2) a have r: "quota_endpoints w e t p tier via payload eps (Some m) s1 = (r, sent')" by simp
    from adds_trans [OF one 2(1) [OF a [symmetric] m r]] show ?thesis by simp
  next
    case False
    with 2(2) a have "sent' = s1" by (auto split: quota_step.splits)
    with one show ?thesis by (auto intro: adds_mono)
  qed
qed auto

lemma fetchQuota_adds:
  assumes "fetchQuota w e t p sent = (r, sent')"
  shows "adds 17 sent sent'"
proof -
  obtain c s1 where c: "fetchProjectContext w e t p sent = (c, s1)" by fastforce
  note two = fetchProjectContext_adds [OF c]
  show ?thesis
  proof (cases "getFetchOptions e p")
    case (Inl m)
    with assms c two show ?thesis by (auto simp: fetchQuota_def Let_def split: prod.splits intro: adds_mono)
  next
    case (Inr via)
    have "adds 15 s1 (snd (quota_endpoints w e t p tier via payload QUOTA_API_ENDPOINTS None s1))" for tier payload
      using quota_endpoints_adds [of w e t p tier via payload QUOTA_API_ENDPOINTS None s1]
      by (cases "quota_endpoints w e t p tier via payload QUOTA_API_ENDPOINTS None s1") (simp add: QUOTA_API_ENDPOINTS_def)
    from adds_trans [OF two this] have "adds 17 sent (snd (fetchQuota w e t p sent))"
      using c Inr by (auto simp: fetchQuota_def Let_def split: prod.split)
    with assms show ?thesis by simp
  qed
qed

text \<open>A quota costs at most 17 requests: two for the project, and for each of the three endpoints one with the project, one
  without it, and three for the summary; whatever the replies are, the call ends.\<close>

theorem quota_requests_are_bounded:
  "adds 17 sent (snd (fetchQuota w e t p sent))"
  by (rule fetchQuota_adds [OF surjective_pairing])

text \<open>The sandbox endpoint that the comment announces after a reply 429 is not asked.\<close>

lemma rate_limited_lookup_stops:
  assumes "getFetchOptions e p = Inr via" "rq = internal_request e t via LOAD_PROJECT (metadata_body [(''ideType'', JStr ''ANTIGRAVITY'')])"
    "w sent rq = Reply 429 body"
  shows "fetchProjectContext w e t p sent = (Inl (http_error '': '' 429 body), sent @ [rq])"
  using assms by (simp add: fetchProjectContext_def context_ask_def send_def context_step_def reply_ok_def known_context_def)

subsection \<open>What the quota says\<close>

definition primary_window :: "json \<Rightarrow> quota_window option" where
  "primary_window info = (case extractQuotaWindows info of (weekly, fiveHour) \<Rightarrow> (case fiveHour of Some w \<Rightarrow> Some w | None \<Rightarrow> weekly))"

definition listed_quotas :: "members \<Rightarrow> (string \<times> rat \<times> json) list" where
  "listed_quotas es = List.map_filter (\<lambda>(name, info).
     if isTrackedModel name then map_option (\<lambda>w. (name, qw_percentage w, qw_resetTime w)) (primary_window info) else None) es"

definition quota_head :: "string \<times> model_quota \<Rightarrow> string \<times> rat \<times> json" where
  "quota_head = (\<lambda>(name, q). (name, mq_percentage q, mq_resetTime q))"

lemma map_sum_Inr: "map_sum id f x = Inr y \<longleftrightarrow> (\<exists>z. x = Inr z \<and> y = f z)"
  by (cases x) auto

lemma quota_models_listed: "quota_models es = Inr ms \<Longrightarrow> map quota_head ms = listed_quotas es"
proof (induction es arbitrary: ms)
  case Nil
  then show ?case by (simp add: listed_quotas_def List.map_filter_simps)
next
  case (Cons a es)
  obtain name info where a: "a = (name, info)" by fastforce
  from Cons.prems obtain q rest where q: "toModelQuotaInfo name info = Inr q" "quota_models es = Inr rest"
    "ms = (case q of Some m \<Rightarrow> [(name, m)] | None \<Rightarrow> []) @ rest"
    by (auto simp: a map_sum_Inr split: sum.splits)
  have "map quota_head (case q of Some m \<Rightarrow> [(name, m)] | None \<Rightarrow> []) = listed_quotas [(name, info)]"
    using q(1) by (auto simp: toModelQuotaInfo_def primary_window_def listed_quotas_def quota_head_def List.map_filter_simps
        split: if_splits prod.splits option.splits)
  moreover have "listed_quotas (a # es) = listed_quotas [a] @ listed_quotas es"
    by (simp add: listed_quotas_def List.map_filter_simps split: option.split)
  ultimately show ?case using Cons.IH [OF q(2)] q(3) a by simp
qed

lemma merge_group_heads: "merge_group g ms = Inr ms' \<Longrightarrow> map quota_head ms' = map quota_head ms"
  by (auto simp: merge_group_def Let_def quota_head_def merge_windows_def split: sum.splits if_splits)

lemma merge_groups_heads: "merge_groups gs ms = Inr ms' \<Longrightarrow> map quota_head ms' = map quota_head ms"
  by (induction gs ms rule: merge_groups.induct) (auto split: sum.splits dest: merge_group_heads)

lemma quota_answer_listed:
  "quota_answer w e t p tier body sent = (Inr q, sent') \<Longrightarrow>
   \<exists>data. json_parse body = Some data \<and> map quota_head (qd_models q) = listed_quotas (object_entries (jget data ''models'')) \<and>
     qd_subscription_tier q = tier"
  by (auto simp: quota_answer_def mergeQuotaSummaryIntoQuotaData_def toQuotaData_def quota_models_listed map_sum_Inr
      dest!: merge_groups_heads split: option.splits sum.splits prod.splits json.splits if_splits)

text \<open>A quota that rests on a reply among the requests of a log.\<close>

definition from_reply :: "network \<Rightarrow> string \<Rightarrow> http_request list \<Rightarrow> quota_data \<Rightarrow> bool" where
  "from_reply w accessToken sent' q \<longleftrightarrow>
     (\<exists>pre rq post status body data. sent' = pre @ rq # post \<and> hr_url rq \<in> set QUOTA_API_ENDPOINTS \<and>
        map_of (hr_headers rq) ''Authorization'' = Some (''Bearer '' @ accessToken) \<and>
        w pre rq = Reply status body \<and> reply_ok status \<and> json_parse body = Some data \<and>
        map quota_head (qd_models q) = listed_quotas (object_entries (jget data ''models'')))"

lemma quota_ask_reply:
  assumes "quota_ask w e t p tier via ep hasNext payload sent = (QuotaResult q, sent')" "ep \<in> set QUOTA_API_ENDPOINTS"
  shows "from_reply w t sent' q"
proof -
  let ?rq = "internal_request e t via ep (JObj payload)"
  obtain status body where r: "w sent ?rq = Reply status body" "reply_ok status"
    "quota_answer w e t p tier body (sent @ [?rq]) = (Inr q, sent')"
  proof (cases "w sent ?rq")
    case (Rejected n m)
    with assms(1) have "after_error hasNext m = QuotaResult q" by (simp add: quota_ask_def send_def)
    then show thesis by (simp add: after_error_def split: if_splits)
  next
    case (Reply status body)
    obtain a s1 where a: "quota_answer w e t p tier body (sent @ [?rq]) = (a, s1)" by fastforce
    have q: "(if \<not> reply_ok status then quota_refused (payload \<noteq> []) hasNext status body else case_sum (after_error hasNext) QuotaResult a) = QuotaResult q"
      "reply_ok status \<Longrightarrow> s1 = sent'"
      using assms(1) Reply a by (cases "reply_ok status"; simp add: quota_ask_def send_def)+
    have "quota_refused hasProject hasNext status body \<noteq> QuotaResult q" for hasProject
      by (simp add: quota_refused_def after_error_def)
    with q(1) have ok: "reply_ok status" "case_sum (after_error hasNext) QuotaResult a = QuotaResult q" by metis+
    then have "a = Inr q" "s1 = sent'" using q(2) by (cases a; simp add: after_error_def split: if_splits)+
    with a \<open>s1 = sent'\<close> have "quota_answer w e t p tier body (sent @ [?rq]) = (Inr q, sent')" by simp
    with Reply ok(1) show thesis by (rule that)
  qed
  from quota_answer_listed [OF r(3)] obtain data where "json_parse body = Some data"
    "map quota_head (qd_models q) = listed_quotas (object_entries (jget data ''models''))" by blast
  moreover from quota_answer_adds [OF r(3)] obtain post where "sent' = sent @ ?rq # post" unfolding adds_def by force
  moreover have "hr_url ?rq = ep" "map_of (hr_headers ?rq) ''Authorization'' = Some (''Bearer '' @ t)"
    by (simp_all add: internal_request_def buildInternalApiHeaders_def)
  ultimately show ?thesis using r(1,2) assms(2) unfolding from_reply_def
    by (intro exI [of _ sent] exI [of _ ?rq] exI [of _ post] exI [of _ status] exI [of _ body] exI [of _ data]) simp
qed

lemma quota_endpoints_reply:
  "quota_endpoints w e t p tier via payload eps err sent = (Inr q, sent') \<Longrightarrow> set eps \<subseteq> set QUOTA_API_ENDPOINTS \<Longrightarrow> from_reply w t sent' q"
proof (induction w e t p tier via payload eps err sent rule: quota_endpoints.induct)
  case (2 w e t p tier via payload ep eps err sent)
  obtain r1 s1 where a: "quota_endpoint w e t p tier via ep (eps \<noteq> []) payload sent = (r1, s1)" by fastforce
  show ?case
  proof (cases r1)
    case (QuotaResult q')
    with 2(2) a have "quota_endpoint w e t p tier via ep (eps \<noteq> []) payload sent = (QuotaResult q, sent')" by simp
    then show ?thesis using 2(3)
      by (auto simp: quota_endpoint_def intro: quota_ask_reply split: prod.splits quota_step.splits)
  next
    case (TryNext m)
    with 2(2) a have "quota_endpoints w e t p tier via payload eps (Some m) s1 = (Inr q, sent')" by simp
    from 2(1) [OF a [symmetric] TryNext this] 2(3) show ?thesis by simp
  qed (use 2(2) a in auto)
qed auto

text \<open>C27: A quota is what Google answered for the account: there is a successful reply, to a request with the access token at one of
  the endpoints, such that the models are the tracked ones among those it names that have a quota window, in its order,
  each with the percentage and the reset time of its five-hour window, or of its weekly one; the summary only adds
  windows.\<close>

theorem quota_is_from_a_reply:
  assumes "fetchQuota w e t p sent = (Inr q, sent')"
  shows "from_reply w t sent' q"
proof -
  from assms obtain tier via payload s1 where "quota_endpoints w e t p tier via payload QUOTA_API_ENDPOINTS None s1 = (Inr q, sent')"
    by (auto simp: fetchQuota_def Let_def split: prod.splits sum.splits)
  from quota_endpoints_reply [OF this] show ?thesis by simp
qed

definition sample_models :: json where
  "sample_models = JObj [(''models'', JObj [(''gpt-9'', JObj [(''quotaInfo'', JObj [(''remainingFraction'', JNum (1 / 4))])]), (''other'', JNull)])]"

definition busy_first_endpoint :: network where
  "busy_first_endpoint sent rq =
     (if hr_url rq = QUOTA_API_ENDPOINTS ! 1 then Reply 200 (json_stringify sample_models)
      else if hr_url rq = QUOTA_API_ENDPOINTS ! 0 then Reply 429 []
      else Reply 500 [])"

lemma quota_is_from_a_reply_witness:
  "\<exists>q sent'. fetchQuota busy_first_endpoint sample_google_env ''at'' None [] = (Inr q, sent') \<and> length sent' = 6 \<and>
     from_reply busy_first_endpoint ''at'' sent' q \<and> map quota_head (qd_models q) = [(''gpt-9'', 25, JStr [])]"
proof -
  have "case fetchQuota busy_first_endpoint sample_google_env ''at'' None [] of
      (Inr q, sent') \<Rightarrow> length sent' = 6 \<and> map quota_head (qd_models q) = [(''gpt-9'', 25, JStr [])] | _ \<Rightarrow> False"
    by code_simp
  then obtain q sent' where "fetchQuota busy_first_endpoint sample_google_env ''at'' None [] = (Inr q, sent')"
    "length sent' = 6" "map quota_head (qd_models q) = [(''gpt-9'', 25, JStr [])]"
    by (auto split: prod.splits sum.splits)
  with quota_is_from_a_reply [OF this(1)] show ?thesis by (intro exI [of _ q] exI [of _ sent'] conjI)
qed

text \<open>A remaining fraction between 0 and 1 becomes a percentage between 0 and 100, and a window without one is empty; the
  fraction is multiplied as a double, so 0.29 becomes 28 percent.\<close>

theorem percentages_are_bounded:
  assumes "normalizeQuotaWindow (Some v) = Some qw"
  shows "(\<forall>f. jget v ''remainingFraction'' = Some (JNum f) \<and> 0 \<le> f \<and> f \<le> 1 \<longrightarrow>
      0 \<le> qw_percentage qw \<and> qw_percentage qw \<le> 100 \<and> qw_percentage qw \<in> \<int>) \<and>
    (jget v ''remainingFraction'' = None \<longrightarrow> qw_percentage qw = 0) \<and>
    (jget v ''remainingFraction'' = Some (JNum (29 / 100)) \<longrightarrow> qw_percentage qw = 28)"
proof -
  have e: "qw_percentage qw = percentage_of (let f = jget v ''remainingFraction'' in
      if nullish f then 0 else (case js_to_number (the f) of Fin q \<Rightarrow> q | _ \<Rightarrow> 0))"
    using assms by (auto simp: normalizeQuotaWindow_def Let_def split: if_splits)
  have b: "0 \<le> percentage_of f \<and> percentage_of f \<le> 100" if "0 \<le> f" "f \<le> 1" for f
  proof -
    have d: "0 \<le> to_double f" "to_double f \<le> 1"
      using to_double_bounds(1) [of f 0] to_double_bounds(2) [of f 1] that by simp_all
    have "0 \<le> to_double (to_double f * 100)" "to_double (to_double f * 100) \<le> 100"
      using to_double_bounds(1) [of "to_double f * 100" 0] to_double_bounds(2) [of "to_double f * 100" 100] d by simp_all
    then show ?thesis by (simp add: percentage_of_def floor_le_iff)
  qed
  have z: "percentage_of 0 = 0" by (simp add: percentage_of_def to_double_def)
  have n: "percentage_of (29 / 100) = 28" using sample_doubles(2) by (simp add: percentage_of_def)
  have i: "percentage_of f \<in> \<int>" for f by (simp add: percentage_of_def)
  show ?thesis unfolding e using b i z n by (auto simp: Let_def nullish_def js_to_number_def)
qed

lemma percentages_are_bounded_witness:
  "qw_percentage (the (normalizeQuotaWindow (Some (JObj [(''remainingFraction'', JNum (29 / 100))])))) = 28"
proof -
  let ?v = "JObj [(''remainingFraction'', JNum (29 / 100))]"
  obtain qw where n: "normalizeQuotaWindow (Some ?v) = Some qw"
    by (simp add: normalizeQuotaWindow_def isRawQuotaInfo_def Let_def)
  from percentages_are_bounded [OF n] n show ?thesis by simp
qed

end
