(* ===== verification/AccountHealth.thy ===== *)
theory AccountHealth
  imports GoogleQuota AccountRepoFacts
begin

section \<open>Status and quota of stored accounts\<close>

text \<open>
  \<open>cloud-account/utils/account-status.ts\<close> and the operations of \<open>cloud-account/ipc/handler.ts\<close> that keep the tokens, the quota and
  the status of the stored accounts up to date. The state is the store of accounts and the log of the requests to Google;
  an error is its message. The clock stands still during an operation.
\<close>

subsection \<open>Status from an error\<close>

definition RATE_LIMIT_HINTS :: "string list" where
  "RATE_LIMIT_HINTS = [''resource_exhausted'', ''too many requests'', ''429'', ''rate limit'', ''rate-limited'', ''risk control'',
     ''risk-controlled'', ''frozen'']"

definition OAUTH_HINTS :: "string list" where
  "OAUTH_HINTS = [''unauthorized_client'', ''invalid_client'', ''invalid_grant'', ''oauth client'', ''not authorized'', ''token expired'',
     ''reauth'', ''verify your account'', ''further action is required'', ''validation required'', ''validation_url'', ''appeal_url'']"

definition includesAny :: "string \<Rightarrow> string list \<Rightarrow> bool" where
  "includesAny t hints = list_ex (str_contains t) hints"

definition isRateLimitReason :: "string \<Rightarrow> bool" where
  "isRateLimitReason reason = includesAny (js_lower reason) RATE_LIMIT_HINTS"

definition isOAuthReauthReason :: "string \<Rightarrow> bool" where
  "isOAuthReauthReason reason = includesAny (js_lower reason) OAUTH_HINTS"

definition classifyAccountStatusFromError :: "string \<Rightarrow> (string \<times> string) option" where
  "classifyAccountStatusFromError message =
     (let reason = js_trim message; normalized = js_lower reason
      in if reason = [] then None
         else if isRateLimitReason normalized then Some (''rate_limited'', reason)
         else if isOAuthReauthReason normalized then Some (''expired'', reason)
         else if str_contains normalized ''forbidden'' then Some (''rate_limited'', reason)
         else if str_contains normalized ''unauthorized'' then Some (''expired'', reason)
         else None)"

subsection \<open>State and surroundings\<close>

record manager_env =
  me_repo :: repo_env
  me_net :: network
  me_google :: google_env
  me_registry :: oauth_registry

record account_manager =
  mg_db :: cloud_db
  mg_sent :: "http_request list"

fun error_message :: "sec_error \<Rightarrow> string" where
  "error_message (PlainError m) = m"
| "error_message (KeychainUnavailable _) = ''Keychain is unavailable''"
| "error_message DataMigrationFailed = ''Data migration failed''"

definition on_store :: "(cloud_db \<Rightarrow> (sec_error + 'a) \<times> cloud_db) \<Rightarrow> account_manager \<Rightarrow> (string + 'a) \<times> account_manager" where
  "on_store f mg = (let (r, db) = f (mg_db mg) in (map_sum error_message id r, mg\<lparr>mg_db := db\<rparr>))"

definition store_do :: "(cloud_db \<Rightarrow> cloud_db) \<Rightarrow> account_manager \<Rightarrow> account_manager" where
  "store_do f mg = mg\<lparr>mg_db := f (mg_db mg)\<rparr>"

definition on_net :: "(http_request list \<Rightarrow> 'a \<times> http_request list) \<Rightarrow> account_manager \<Rightarrow> 'a \<times> account_manager" where
  "on_net f mg = (let (r, sent) = f (mg_sent mg) in (r, mg\<lparr>mg_sent := sent\<rparr>))"

definition seconds_now :: "manager_env \<Rightarrow> rat" where
  "seconds_now env = of_int \<lfloor>re_now (me_repo env) / 1000\<rfloor>"

definition refresh_token_of :: "manager_env \<Rightarrow> stored_account \<Rightarrow> account_manager \<Rightarrow> (string + json) \<times> account_manager" where
  "refresh_token_of env a =
     on_net (refreshAccessToken (me_net env) (me_google env) (me_registry env) (token_str (sa_token a) ''refresh_token'')
       (sa_proxy_url a) (token_opt (sa_token a) ''oauth_client_key''))"

subsection \<open>Merging tokens\<close>

definition put_member :: "string \<Rightarrow> json option \<Rightarrow> members \<Rightarrow> members" where
  "put_member k v m = (case v of None \<Rightarrow> AList.delete k m | Some j \<Rightarrow> AList.update k j m)"

definition first_given :: "json option \<Rightarrow> json option \<Rightarrow> json option" where
  "first_given a b = (if nullish a then b else a)"

text \<open>The members that both versions of \<open>mergeRefreshedToken\<close> set; a lifetime that is no number gives no time of expiry.\<close>

definition refreshed_members :: "rat \<Rightarrow> json \<Rightarrow> json \<Rightarrow> members" where
  "refreshed_members now refreshed current =
     put_member ''oauth_client_key'' (map_option JStr (normalizeRefreshedOAuthClientKey (token_opt current ''oauth_client_key'')
         (token_opt current ''project_id'') (token_opt refreshed ''oauth_client_key'')))
       (put_member ''id_token'' (first_given (jget refreshed ''id_token'') (jget current ''id_token''))
         (AList.update ''expiry_timestamp'' (case jget refreshed ''expires_in'' of Some (JNum n) \<Rightarrow> JNum (now + n) | _ \<Rightarrow> JNull)
           (put_member ''expires_in'' (jget refreshed ''expires_in'')
             (put_member ''refresh_token'' (first_given (jget refreshed ''refresh_token'') (jget current ''refresh_token''))
               (put_member ''access_token'' (jget refreshed ''access_token'') (case current of JObj m \<Rightarrow> m | _ \<Rightarrow> []))))))"

definition mergeRefreshedToken :: "json \<Rightarrow> json \<Rightarrow> rat \<Rightarrow> json" where
  "mergeRefreshedToken current refreshed now =
     JObj (put_member ''token_type'' (jget refreshed ''token_type'') (refreshed_members now refreshed current))"

definition monitor_mergeRefreshedToken :: "json \<Rightarrow> json \<Rightarrow> rat \<Rightarrow> json" where
  "monitor_mergeRefreshedToken current refreshed now = JObj (refreshed_members now refreshed current)"

definition expires_before :: "rat \<Rightarrow> json \<Rightarrow> bool" where
  "expires_before t token = (case jget token ''expiry_timestamp'' of Some (JNum e) \<Rightarrow> e < t | _ \<Rightarrow> False)"

subsection \<open>Helpers of the handler\<close>

definition normalizeAccountEmail :: "string option \<Rightarrow> string" where
  "normalizeAccountEmail email = (case email of None \<Rightarrow> [] | Some e \<Rightarrow> js_lower (js_trim e))"

definition isEnterpriseClient :: "string option \<Rightarrow> bool" where
  "isEnterpriseClient clientKey \<longleftrightarrow> str_truthy clientKey \<and> js_lower (js_trim (the clientKey)) = DEFAULT_OAUTH_CLIENT_KEY"

definition trimmed_project :: "string option \<Rightarrow> string option" where
  "trimmed_project projectId = (case projectId of None \<Rightarrow> None | Some p \<Rightarrow> if js_trim p = [] then None else Some (js_trim p))"

definition has_models :: "json option \<Rightarrow> bool" where
  "has_models quota = (case jget_opt quota ''models'' of Some (JObj m) \<Rightarrow> m \<noteq> [] | _ \<Rightarrow> False)"

definition recoverCachedQuotaOnRateLimit :: "stored_account \<Rightarrow> string \<Rightarrow> json option" where
  "recoverCachedQuotaOnRateLimit a message =
     (case classifyAccountStatusFromError message of
        Some (status, _) \<Rightarrow> if status = ''rate_limited'' \<and> has_models (sa_quota a) then sa_quota a else None
      | None \<Rightarrow> None)"

definition formatSwitchRefreshError :: "string \<Rightarrow> string" where
  "formatSwitchRefreshError reason =
     (let m = js_lower reason
      in if includesAny m [''unauthorized_client'', ''invalid_client'', ''invalid_grant'']
         then ''Token refresh failed: OAuth client is not authorized for this account. Please re-login and complete authorization. Raw error: '' @ reason
         else if includesAny m [''verify your account'', ''further action is required'', ''validation required'', ''validation_url'', ''appeal_url'']
         then ''Token refresh failed: account requires additional verification. Please finish verification and retry. Raw error: '' @ reason
         else if includesAny m [''resource_exhausted'', ''resource has been exhausted'']
         then ''Token refresh failed: account is rate-limited or temporarily restricted (RESOURCE_EXHAUSTED). Please retry later. Raw error: '' @ reason
         else ''Token refresh failed: '' @ reason)"

definition markAccountStatusFromError :: "string \<Rightarrow> stored_account \<Rightarrow> account_manager \<Rightarrow> stored_account \<times> account_manager" where
  "markAccountStatusFromError message a mg =
     (case classifyAccountStatusFromError message of
        None \<Rightarrow> (a, mg)
      | Some (status, reason) \<Rightarrow>
          (a\<lparr>sa_status := Some status, sa_status_reason := Some reason\<rparr>, store_do (setAccountStatus (sa_id a) (Some status) (Some reason)) mg))"

definition clearAccountStatus :: "stored_account \<Rightarrow> account_manager \<Rightarrow> stored_account \<times> account_manager" where
  "clearAccountStatus a mg =
     (a\<lparr>sa_status := Some ''active'', sa_status_reason := None\<rparr>, store_do (setAccountStatus (sa_id a) (Some ''active'') None) mg)"

subsection \<open>Refreshing the quota of an account\<close>

text \<open>The quota with the credits, new ones if there are any, else the previous ones.\<close>

definition quota_with_credits :: "manager_env \<Rightarrow> string \<Rightarrow> string option \<Rightarrow> json option \<Rightarrow> account_manager \<Rightarrow> (string + quota_data) \<times> account_manager" where
  "quota_with_credits env accessToken proxyUrl previous mg =
     (case on_net (fetchQuota (me_net env) (me_google env) accessToken proxyUrl) mg of
        (Inl m, mg1) \<Rightarrow> (Inl m, mg1)
      | (Inr q, mg1) \<Rightarrow>
          (case on_net (fetchAICredits (me_net env) (me_google env) accessToken proxyUrl) mg1 of
             (credits, mg2) \<Rightarrow>
               (Inr (q\<lparr>qd_ai_credits := (if truthy_opt credits then credits else if truthy_opt previous then previous else None)\<rparr>), mg2)))"

text \<open>An attempt gives its error, if any, and the account as it has been changed so far.\<close>

definition quota_attempt :: "manager_env \<Rightarrow> stored_account \<Rightarrow> account_manager \<Rightarrow> string option \<times> stored_account \<times> account_manager" where
  "quota_attempt env a mg =
     (case quota_with_credits env (token_str (sa_token a) ''access_token'') (sa_proxy_url a) (jget_opt (sa_quota a) ''ai_credits'') mg of
        (Inl m, mg1) \<Rightarrow> (Some m, a, mg1)
      | (Inr q, mg1) \<Rightarrow>
          (let a1 = a\<lparr>sa_quota := Some (quota_json q)\<rparr>
           in (case on_store (updateQuota (me_repo env) (sa_id a) (quota_json q)) mg1 of
                 (Inl m, mg2) \<Rightarrow> (Some m, a1, mg2)
               | (Inr _, mg2) \<Rightarrow>
                   (None, clearAccountStatus (a1\<lparr>sa_last_used := seconds_now env\<rparr>) (store_do (updateLastUsed (me_repo env) (sa_id a)) mg2)))))"

text \<open>An error that stays: the account is returned with its cached quota when it is a rate limit, and it is thrown otherwise.\<close>

definition settle_quota_error :: "string \<Rightarrow> stored_account \<Rightarrow> account_manager \<Rightarrow> (string + stored_account) \<times> account_manager" where
  "settle_quota_error m a mg =
     (case markAccountStatusFromError m a mg of
        (a', mg') \<Rightarrow> (if recoverCachedQuotaOnRateLimit a m \<noteq> None then Inr a' else Inl m, mg'))"

definition store_refreshed :: "manager_env \<Rightarrow> stored_account \<Rightarrow> account_manager \<Rightarrow> string option \<times> stored_account \<times> account_manager" where
  "store_refreshed env a mg =
     (case refresh_token_of env a mg of
        (Inl m, mg1) \<Rightarrow> (Some m, a, mg1)
      | (Inr r, mg1) \<Rightarrow>
          (let a1 = a\<lparr>sa_token := mergeRefreshedToken (sa_token a) r (seconds_now env)\<rparr>
           in (case on_store (updateToken (me_repo env) (sa_id a) (sa_token a1)) mg1 of
                 (Inl m, mg2) \<Rightarrow> (Some m, a1, mg2)
               | (Inr _, mg2) \<Rightarrow> (None, a1, mg2))))"

definition forced_refresh :: "manager_env \<Rightarrow> stored_account \<Rightarrow> account_manager \<Rightarrow> (string + stored_account) \<times> account_manager" where
  "forced_refresh env a mg =
     (case store_refreshed env a mg of
        (Some m, a1, mg1) \<Rightarrow> settle_quota_error m a1 mg1
      | (None, a1, mg1) \<Rightarrow>
          (case quota_attempt env a1 mg1 of
             (Some m, a2, mg2) \<Rightarrow> settle_quota_error m a2 mg2
           | (None, a2, mg2) \<Rightarrow> (Inr a2, mg2)))"

definition refresh_known_account :: "manager_env \<Rightarrow> stored_account \<Rightarrow> account_manager \<Rightarrow> (string + stored_account) \<times> account_manager" where
  "refresh_known_account env a mg =
     (case (if expires_before (seconds_now env + 300) (sa_token a) then store_refreshed env a mg else (None, a, mg)) of
        (Some m, a1, mg1) \<Rightarrow> (Inl ''Cloud account login expired'', snd (markAccountStatusFromError m a1 mg1))
      | (None, a1, mg1) \<Rightarrow>
          (case quota_attempt env a1 mg1 of
             (None, a2, mg2) \<Rightarrow> (Inr a2, mg2)
           | (Some m, a2, mg2) \<Rightarrow>
               (if m = ''UNAUTHORIZED'' then forced_refresh env a2 mg2
                else if m = ''FORBIDDEN'' then (case markAccountStatusFromError m a2 mg2 of (a3, mg3) \<Rightarrow> (Inr a3, mg3))
                else settle_quota_error m a2 mg2)))"

definition account_missing :: "string \<Rightarrow> string" where
  "account_missing i = ''Account not found: '' @ i"

definition refreshAccountQuota :: "manager_env \<Rightarrow> string \<Rightarrow> account_manager \<Rightarrow> (string + stored_account) \<times> account_manager" where
  "refreshAccountQuota env i mg =
     (case on_store (getAccount (me_repo env) i) mg of
        (Inl m, mg1) \<Rightarrow> (Inl m, mg1)
      | (Inr None, mg1) \<Rightarrow> (Inl (account_missing i), mg1)
      | (Inr (Some a), mg1) \<Rightarrow> refresh_known_account env a mg1)"

text \<open>Any occurrence of 429 counts as a rate limit, also one inside another number.\<close>

lemma digits_look_like_a_rate_limit:
  "classifyAccountStatusFromError ''invalid_grant for client 104290'' = Some (''rate_limited'', ''invalid_grant for client 104290'')"
  by code_simp

subsection \<open>What a refresh leaves alone\<close>

text \<open>The columns of an account that keeping it up to date never changes.\<close>

definition fixed_columns ::
    "account_row \<Rightarrow> string \<times> string \<times> string option \<times> string option \<times> string option \<times> string option \<times> rat \<times> bool \<times> string option" where
  "fixed_columns r = (ar_provider r, ar_email r, ar_name r, ar_avatarUrl r, ar_deviceProfileJson r, ar_deviceHistoryJson r, ar_createdAt r, ar_isActive r, ar_proxyUrl r)"

definition kept_row :: "account_row \<Rightarrow> account_row \<Rightarrow> bool" where
  "kept_row r r' \<longleftrightarrow> ar_id r' = ar_id r \<and> fixed_columns r' = fixed_columns r \<and> (ar_quotaJson r \<noteq> None \<longrightarrow> ar_quotaJson r' \<noteq> None)"

definition touches_only :: "string \<Rightarrow> cloud_db \<Rightarrow> cloud_db \<Rightarrow> bool" where
  "touches_only i db db' \<longleftrightarrow> cd_settings db' = cd_settings db \<and>
     list_all2 (\<lambda>r r'. kept_row r r' \<and> (ar_id r \<noteq> i \<longrightarrow> r' = r)) (cd_accounts db) (cd_accounts db')"

lemma kept_row_refl [simp]: "kept_row r r"
  by (simp add: kept_row_def)

lemma touches_refl [simp]: "touches_only i db db"
  by (simp add: touches_only_def list_all2_refl)

lemma touches_trans:
  assumes "touches_only i d1 d2" "touches_only i d2 d3"
  shows "touches_only i d1 d3"
proof -
  let ?P = "\<lambda>r r'. kept_row r r' \<and> (ar_id r \<noteq> i \<longrightarrow> r' = r)"
  have "?P a c" if "?P a b" "?P b c" for a b c using that by (auto simp: kept_row_def)
  then have "list_all2 ?P (cd_accounts d1) (cd_accounts d3)"
    using assms list_all2_trans [of ?P ?P ?P] unfolding touches_only_def by blast
  then show ?thesis using assms by (simp add: touches_only_def)
qed

lemma update_touches: "(\<And>r. kept_row r (f r)) \<Longrightarrow> touches_only i db (update_where i f db)"
  by (auto simp: touches_only_def update_where_def list_all2_conv_all_nth)

lemma vault_touches [simp]: "touches_only i db (db\<lparr>cd_vault := v\<rparr>)"
  by (simp add: touches_only_def list_all2_refl)

lemma secret_kept [simp]: "kept_row r (set_secret col t r)"
  by (simp add: kept_row_def set_secret_def fixed_columns_def split: secret_column.split)

lemma encrypt_touches: "encrypt_db env t db = (r, db') \<Longrightarrow> touches_only i db db'"
  by (auto simp: encrypt_db_def apsnd_def map_prod_def split: prod.splits)

lemma update_secret_touches: "update_secret env i col v db = (r, db') \<Longrightarrow> touches_only i db db'"
proof -
  assume u: "update_secret env i col v db = (r, db')"
  obtain x db1 where e: "encrypt_db env (json_stringify v) db = (x, db1)" by fastforce
  note t = encrypt_touches [OF e, of i]
  show ?thesis
  proof (cases x)
    case (Inr y)
    with u e have "db' = update_where i (set_secret col y) db1" by (simp add: update_secret_def)
    then show ?thesis using touches_trans [OF t update_touches] by simp
  qed (use u e t in \<open>simp add: update_secret_def\<close>)
qed

lemma updateToken_touches: "updateToken env i v db = (r, db') \<Longrightarrow> touches_only i db db'"
  by (auto simp: updateToken_def dest: update_secret_touches split: if_splits)

lemma updateQuota_touches: "updateQuota env i v db = (r, db') \<Longrightarrow> touches_only i db db'"
  by (auto simp: updateQuota_def dest: update_secret_touches split: if_splits)

lemma status_touches [simp]: "touches_only i db (setAccountStatus i st re db)" "touches_only i db (updateLastUsed env i db)"
  unfolding setAccountStatus_def updateLastUsed_def by (rule update_touches; simp add: kept_row_def fixed_columns_def)+

lemma field_touches: "decryptAndMigrateField env i col v db = (r, db') \<Longrightarrow> touches_only i db db'"
proof -
  assume d: "decryptAndMigrateField env i col v db = (r, db')"
  show ?thesis
  proof (cases "str_truthy v")
    case True
    obtain x w where w: "decryptWithMigration (re_cipher env) (re_platform env) (the v) (cd_vault db) = (x, w)" by fastforce
    have "touches_only i db (update_where i (set_secret col t) (db\<lparr>cd_vault := w\<rparr>))" for t
      by (rule touches_trans [OF vault_touches update_touches]) simp
    with d True w show ?thesis by (cases x) (auto simp: decryptAndMigrateField_def Let_def split: if_splits)
  qed (use d in \<open>simp add: decryptAndMigrateField_def\<close>)
qed

lemma load_touches:
  assumes "load_secrets env row db = (r, db')" "ar_id row = i"
  shows "touches_only i db db'"
proof -
  obtain x db1 where x: "decryptAndMigrateField env (ar_id row) TokenColumn (Some (ar_tokenJson row)) db = (x, db1)" by fastforce
  obtain y db2 where y: "decryptAndMigrateField env (ar_id row) QuotaColumn (ar_quotaJson row) db1 = (y, db2)" by fastforce
  have "db' = db1 \<or> db' = db2"
    using assms(1) x y by (auto simp: load_secrets_def split: sum.splits sec_error.splits)
  then show ?thesis using touches_trans field_touches [OF x] field_touches [OF y] assms(2) by auto
qed

lemma getAccount_touches: "getAccount env i db = (r, db') \<Longrightarrow> touches_only i db db'"
proof -
  assume g: "getAccount env i db = (r, db')"
  show ?thesis
  proof (cases "select_row i db")
    case (Some row)
    obtain x db1 where x: "load_secrets env row db = (x, db1)" by fastforce
    have "db' = db1" using g Some x by (auto simp: getAccount_def split: sum.splits option.splits prod.splits)
    with load_touches [OF x select_id [OF Some]] show ?thesis by simp
  qed (use g in \<open>simp add: getAccount_def\<close>)
qed

text \<open>The same for the operations on the state of the manager.\<close>

definition tends :: "string \<Rightarrow> account_manager \<Rightarrow> account_manager \<Rightarrow> bool" where
  "tends i mg mg' \<longleftrightarrow> touches_only i (mg_db mg) (mg_db mg') \<and> (\<exists>more. mg_sent mg' = mg_sent mg @ more)"

lemma tends_refl [simp]: "tends i mg mg"
  by (simp add: tends_def)

lemma tends_trans: "tends i m1 m2 \<Longrightarrow> tends i m2 m3 \<Longrightarrow> tends i m1 m3"
  unfolding tends_def using touches_trans by fastforce

lemma store_tends: "(\<And>r db'. f (mg_db mg) = (r, db') \<Longrightarrow> touches_only i (mg_db mg) db') \<Longrightarrow> on_store f mg = (r, mg') \<Longrightarrow> tends i mg mg'"
  by (auto simp: on_store_def tends_def split: prod.splits)

lemma do_tends: "touches_only i (mg_db mg) (f (mg_db mg)) \<Longrightarrow> tends i mg (store_do f mg)"
  by (simp add: store_do_def tends_def)

lemma net_tends: "(\<And>r s. f (mg_sent mg) = (r, s) \<Longrightarrow> adds n (mg_sent mg) s) \<Longrightarrow> on_net f mg = (r, mg') \<Longrightarrow> tends i mg mg'"
  by (auto simp: on_net_def tends_def adds_def split: prod.splits)

lemma token_attempts_adds: "token_attempts w what form via cs errs sent = (r, sent') \<Longrightarrow> adds (length cs) sent sent'"
proof (induction w what form via cs errs sent rule: token_attempts.induct)
  case (2 w what form via c cs errs sent)
  let ?rq = "\<lparr>hr_url = TOKEN_URL, hr_headers = [(''Content-Type'', ''application/x-www-form-urlencoded'')],
             hr_body = FormBody (form c), hr_route = via\<rparr>"
  show ?case
  proof (cases "w sent ?rq")
    case (Reply status body)
    show ?thesis
    proof (cases "\<not> reply_ok status \<and> isClientMismatchError status body")
      case True
      with 2(2) Reply have "token_attempts w what form via cs (errs @ [oc_key c @ '' => '' @ body]) (sent @ [?rq]) = (r, sent')"
        by (simp add: send_def)
      from 2(1) [OF _ Reply _ _ this] True have "adds (length cs) (sent @ [?rq]) sent'" by (auto simp: send_def)
      from adds_trans [OF adds_one [of 0] this] show ?thesis by simp
    next
      case False
      with 2(2) Reply have "sent' = sent @ [?rq]" by (auto simp: send_def split: if_splits)
      then show ?thesis by (simp add: adds_one)
    qed
  qed (use 2(2) in \<open>auto simp: send_def adds_def\<close>)
qed auto

lemma refresh_adds: "refreshAccessToken w e reg t p k sent = (r, sent') \<Longrightarrow> \<exists>n. adds n sent sent'"
  by (auto simp: refreshAccessToken_def with_clients_def simp del: token_attempts.simps dest: token_attempts_adds
      split: list.splits sum.splits intro: adds_none)

lemma refresh_token_tends: "refresh_token_of env a mg = (r, mg') \<Longrightarrow> tends i mg mg'"
  unfolding refresh_token_of_def by (auto simp: on_net_def tends_def adds_def dest!: refresh_adds split: prod.splits)

lemma credits_adds: "fetchAICredits w e t p sent = (r, sent') \<Longrightarrow> adds 1 sent sent'"
  by (auto simp: fetchAICredits_def send_def adds_def split: sum.splits http_reply.splits)

lemma quota_credits_tends:
  assumes "quota_with_credits env t p prev mg = (r, mg')"
  shows "tends i mg mg'"
proof -
  obtain x mg1 where x: "on_net (fetchQuota (me_net env) (me_google env) t p) mg = (x, mg1)" by fastforce
  have one: "tends i mg mg1" by (rule net_tends [OF fetchQuota_adds x])
  show ?thesis
  proof (cases x)
    case (Inl m)
    with assms x one show ?thesis by (simp add: quota_with_credits_def)
  next
    case (Inr q)
    obtain y mg2 where y: "on_net (fetchAICredits (me_net env) (me_google env) t p) mg1 = (y, mg2)" by fastforce
    have "tends i mg1 mg2" by (rule net_tends [OF credits_adds y])
    with one have "tends i mg mg2" by (rule tends_trans)
    with assms x y Inr show ?thesis by (simp add: quota_with_credits_def)
  qed
qed

definition minds :: "stored_account \<Rightarrow> account_manager \<Rightarrow> stored_account \<Rightarrow> account_manager \<Rightarrow> bool" where
  "minds a mg a' mg' \<longleftrightarrow> sa_id a' = sa_id a \<and> tends (sa_id a) mg mg'"

lemma minds_trans: "minds a m1 b m2 \<Longrightarrow> minds b m2 c m3 \<Longrightarrow> minds a m1 c m3"
  by (auto simp: minds_def intro: tends_trans)

lemma mark_minds: "markAccountStatusFromError m a mg = (a', mg') \<Longrightarrow> minds a mg a' mg'"
  by (auto simp: markAccountStatusFromError_def minds_def intro: do_tends split: option.splits)

lemma clear_minds: "clearAccountStatus a mg = (a', mg') \<Longrightarrow> minds a mg a' mg'"
  by (auto simp: clearAccountStatus_def minds_def intro: do_tends)

lemma quota_attempt_minds:
  assumes "quota_attempt env a mg = (r, a', mg')"
  shows "minds a mg a' mg'"
proof -
  obtain x mg1 where x: "quota_with_credits env (token_str (sa_token a) ''access_token'') (sa_proxy_url a) (jget_opt (sa_quota a) ''ai_credits'') mg = (x, mg1)"
    by fastforce
  note one = quota_credits_tends [OF x, of "sa_id a"]
  show ?thesis
  proof (cases x)
    case (Inl m)
    with assms x one show ?thesis by (simp add: quota_attempt_def minds_def)
  next
    case (Inr q)
    obtain y mg2 where y: "on_store (updateQuota (me_repo env) (sa_id a) (quota_json q)) mg1 = (y, mg2)" by fastforce
    have two: "tends (sa_id a) mg mg2" by (rule tends_trans [OF one store_tends [OF updateQuota_touches y]])
    have three: "tends (sa_id a) mg (store_do (updateLastUsed (me_repo env) (sa_id a)) mg2)"
      by (rule tends_trans [OF two do_tends]) simp
    have "minds a mg b m'" if "clearAccountStatus b' (store_do (updateLastUsed (me_repo env) (sa_id a)) mg2) = (b, m')" "sa_id b' = sa_id a"
      for b b' m' using clear_minds [OF that(1)] that(2) three by (auto simp: minds_def intro: tends_trans)
    with assms x y Inr two show ?thesis by (auto simp: quota_attempt_def minds_def Let_def split: sum.splits)
  qed
qed

lemma store_refreshed_minds:
  assumes "store_refreshed env a mg = (r, a', mg')"
  shows "minds a mg a' mg'"
proof -
  obtain x mg1 where x: "refresh_token_of env a mg = (x, mg1)" by fastforce
  note one = refresh_token_tends [OF x, of "sa_id a"]
  show ?thesis
  proof (cases x)
    case (Inl m)
    with assms x one show ?thesis by (simp add: store_refreshed_def minds_def)
  next
    case (Inr t)
    obtain y mg2 where y: "on_store (updateToken (me_repo env) (sa_id a) (mergeRefreshedToken (sa_token a) t (seconds_now env))) mg1 = (y, mg2)"
      by fastforce
    have "tends (sa_id a) mg mg2" by (rule tends_trans [OF one store_tends [OF updateToken_touches y]])
    with assms x y Inr show ?thesis by (auto simp: store_refreshed_def minds_def Let_def split: sum.splits)
  qed
qed

text \<open>What a call gives, an account or an error, leaves the account that it was given.\<close>

definition cares :: "stored_account \<Rightarrow> account_manager \<Rightarrow> (string + stored_account) \<times> account_manager \<Rightarrow> bool" where
  "cares a mg out \<longleftrightarrow> tends (sa_id a) mg (snd out) \<and> (\<forall>a'. fst out = Inr a' \<longrightarrow> sa_id a' = sa_id a)"

lemma cares_trans: "minds a mg b mg1 \<Longrightarrow> cares b mg1 out \<Longrightarrow> cares a mg out"
  unfolding minds_def cares_def by (metis tends_trans)

lemma cares_minds: "minds a mg b mg1 \<Longrightarrow> cares a mg (Inr b, mg1)" "minds a mg b mg1 \<Longrightarrow> cares a mg (Inl m, mg1)"
  by (auto simp: minds_def cares_def)

lemma settle_cares: "cares a mg (settle_quota_error m a mg)"
  unfolding settle_quota_error_def
  by (cases "markAccountStatusFromError m a mg") (auto dest: mark_minds intro: cares_minds)

lemma forced_cares: "cares a mg (forced_refresh env a mg)"
proof -
  obtain x a1 mg1 where x: "store_refreshed env a mg = (x, a1, mg1)" by (metis prod_cases3)
  obtain y a2 mg2 where y: "quota_attempt env a1 mg1 = (y, a2, mg2)" by (metis prod_cases3)
  note one = store_refreshed_minds [OF x] and two = minds_trans [OF store_refreshed_minds [OF x] quota_attempt_minds [OF y]]
  show ?thesis
  proof (cases x)
    case (Some m)
    with x cares_trans [OF one settle_cares] show ?thesis by (simp add: forced_refresh_def)
  next
    case None
    with x y cares_trans [OF two settle_cares] cares_minds(1) [OF two] show ?thesis
      by (cases y) (simp_all add: forced_refresh_def)
  qed
qed

lemma refresh_known_cares: "cares a mg (refresh_known_account env a mg)"
proof -
  obtain x a1 mg1 where x: "(if expires_before (seconds_now env + 300) (sa_token a) then store_refreshed env a mg else (None, a, mg)) = (x, a1, mg1)"
    by (metis prod_cases3)
  obtain y a2 mg2 where y: "quota_attempt env a1 mg1 = (y, a2, mg2)" by (metis prod_cases3)
  have one: "minds a mg a1 mg1" using x by (auto simp: minds_def dest: store_refreshed_minds split: if_splits)
  note two = minds_trans [OF one quota_attempt_minds [OF y]]
  have marked: "cares a mg (Inl e, snd (markAccountStatusFromError m a1 mg1))" for m e
    by (cases "markAccountStatusFromError m a1 mg1") (auto intro: cares_minds minds_trans [OF one mark_minds])
  have kept: "cares a mg (case markAccountStatusFromError m a2 mg2 of (a3, mg3) \<Rightarrow> (Inr a3, mg3))" for m
    by (cases "markAccountStatusFromError m a2 mg2") (auto intro: cares_minds minds_trans [OF two mark_minds])
  show ?thesis
  proof (cases x)
    case (Some m)
    show ?thesis unfolding refresh_known_account_def x Some using marked by simp
  next
    case None
    show ?thesis
    proof (cases y)
      case (Some m)
      then show ?thesis
        unfolding refresh_known_account_def x None
        using y kept [of "''FORBIDDEN''"] cares_trans [OF two settle_cares [of a2 mg2 m]] cares_trans [OF two forced_cares [of a2 mg2 env]] by simp
    qed (use x y \<open>x = None\<close> cares_minds(1) [OF two] in \<open>simp add: refresh_known_account_def\<close>)
  qed
qed

lemma getAccount_id: "getAccount env i db = (Inr (Some a), db') \<Longrightarrow> sa_id a = i"
  by (auto simp: getAccount_def parse_account_def dest: select_id split: option.splits sum.splits prod.splits if_splits)

text \<open>C30: Refreshing the quota of an account, whatever Google answers and whatever fails, changes only that account: the other
  accounts, the settings, and its own identity, device columns, proxy and active mark are the same, no account appears or
  disappears, a stored quota is never lost, and requests are only added to the log.\<close>

theorem refresh_leaves_others_alone:
  "tends i mg (snd (refreshAccountQuota env i mg))"
proof -
  obtain x mg1 where x: "on_store (getAccount (me_repo env) i) mg = (x, mg1)" by fastforce
  have one: "tends i mg mg1" by (rule store_tends [OF getAccount_touches x])
  have two: "tends i mg (snd (refresh_known_account env a mg1))" if "x = Inr (Some a)" for a
  proof -
    obtain r db where r: "getAccount (me_repo env) i (mg_db mg) = (r, db)" by fastforce
    have "sa_id a = i" using x that r by (cases r) (auto simp: on_store_def dest: getAccount_id)
    with refresh_known_cares [of a mg1 env] one show ?thesis by (auto simp: cares_def intro: tends_trans)
  qed
  from one two x show ?thesis by (auto simp: refreshAccountQuota_def split: sum.split option.split)
qed

subsection \<open>What a refresh gives\<close>

definition present :: "string \<Rightarrow> account_manager \<Rightarrow> bool" where
  "present i mg \<longleftrightarrow> select_row i (mg_db mg) \<noteq> None"

lemma touches_select: "touches_only i db db' \<Longrightarrow> select_row j db' = None \<longleftrightarrow> select_row j db = None"
  by (auto simp: touches_only_def select_row_def find_None_iff list_all2_conv_all_nth kept_row_def in_set_conv_nth)

lemma tends_present: "tends i mg mg' \<Longrightarrow> present j mg' \<longleftrightarrow> present j mg"
  using touches_select [of i "mg_db mg" "mg_db mg'" j] by (simp add: tends_def present_def)

definition settled :: "manager_env \<Rightarrow> stored_account \<Rightarrow> account_manager \<Rightarrow> bool" where
  "settled env a mg \<longleftrightarrow> (\<exists>row. select_row (sa_id a) (mg_db mg) = Some row \<and> ar_status row = sa_status a) \<and>
     (sa_status a = Some ''active'' \<and> sa_status_reason a = None \<and>
        (\<exists>q sent more. sa_quota a = Some (quota_json q) \<and> mg_sent mg = sent @ more \<and>
           from_reply (me_net env) (token_str (sa_token a) ''access_token'') sent q) \<or>
      sa_status a = Some ''rate_limited'' \<and> sa_status_reason a \<noteq> None)"

lemma select_status: "present i mg \<Longrightarrow>
    \<exists>row. select_row i (mg_db (store_do (setAccountStatus i (Some s) re) mg)) = Some row \<and> ar_status row = Some s"
  by (auto simp: present_def store_do_def setAccountStatus_def select_update)

lemma mark_settled:
  assumes "markAccountStatusFromError m a mg = (a', mg')" "classifyAccountStatusFromError m = Some (''rate_limited'', re)"
    "present (sa_id a) mg"
  shows "settled env a' mg'"
  using assms select_status [OF assms(3)] by (auto simp: markAccountStatusFromError_def settled_def)

lemma settle_settled: "settle_quota_error m a mg = (Inr a', mg') \<Longrightarrow> present (sa_id a) mg \<Longrightarrow> settled env a' mg'"
  by (auto simp: settle_quota_error_def recoverCachedQuotaOnRateLimit_def intro: mark_settled split: prod.splits if_splits option.splits)

lemma forbidden_is_limited: "classifyAccountStatusFromError ''FORBIDDEN'' = Some (''rate_limited'', ''FORBIDDEN'')"
  by code_simp

lemma from_reply_credits [simp]: "from_reply w t s (q\<lparr>qd_ai_credits := c\<rparr>) \<longleftrightarrow> from_reply w t s q"
  by (simp add: from_reply_def)

lemma fetchQuota_reply: "fetchQuota w e t p sent = (Inr q, sent') \<Longrightarrow> from_reply w t sent' q"
  by (auto simp: fetchQuota_def Let_def intro: quota_endpoints_reply split: prod.splits sum.splits)

lemma credits_reply:
  assumes "quota_with_credits env t p prev mg = (Inr q, mg')"
  shows "\<exists>sent more. mg_sent mg' = sent @ more \<and> from_reply (me_net env) t sent q"
proof -
  obtain q1 mg1 where x: "on_net (fetchQuota (me_net env) (me_google env) t p) mg = (Inr q1, mg1)"
    using assms by (auto simp: quota_with_credits_def split: prod.splits sum.splits)
  obtain y mg2 where y: "on_net (fetchAICredits (me_net env) (me_google env) t p) mg1 = (y, mg2)" by fastforce
  have "tends [] mg1 mg2" by (rule net_tends [OF credits_adds y])
  then obtain more where "mg_sent mg2 = mg_sent mg1 @ more" by (auto simp: tends_def)
  moreover have "from_reply (me_net env) t (mg_sent mg1) q1"
    using x by (auto simp: on_net_def intro: fetchQuota_reply split: prod.splits)
  moreover from assms x y have "mg' = mg2" "q = q1\<lparr>qd_ai_credits := qd_ai_credits q\<rparr>" by (auto simp: quota_with_credits_def)
  ultimately show ?thesis by (metis from_reply_credits)
qed

lemma attempt_settled:
  assumes "quota_attempt env a mg = (None, a', mg')" "present (sa_id a) mg"
  shows "settled env a' mg'"
proof -
  let ?t = "token_str (sa_token a) ''access_token''"
  obtain q mg1 where x: "quota_with_credits env ?t (sa_proxy_url a) (jget_opt (sa_quota a) ''ai_credits'') mg = (Inr q, mg1)"
    using assms(1) by (auto simp: quota_attempt_def split: prod.splits sum.splits)
  obtain y mg2 where y: "on_store (updateQuota (me_repo env) (sa_id a) (quota_json q)) mg1 = (y, mg2)" by fastforce
  let ?mg3 = "store_do (updateLastUsed (me_repo env) (sa_id a)) mg2"
  have "tends (sa_id a) mg ?mg3"
    by (rule tends_trans [OF tends_trans [OF quota_credits_tends [OF x] store_tends [OF updateQuota_touches y]] do_tends]) (assumption, rule status_touches)
  with assms(2) have p: "present (sa_id a) ?mg3" using tends_present by blast
  obtain sent more where q: "mg_sent mg1 = sent @ more" "from_reply (me_net env) ?t sent q" using credits_reply [OF x] by blast
  have "mg_sent mg2 = mg_sent mg1" using y by (auto simp: on_store_def split: prod.splits)
  moreover from assms(1) x y have out: "mg_sent mg' = mg_sent mg2" "sa_quota a' = Some (quota_json q)" "sa_token a' = sa_token a"
      "sa_status a' = Some ''active''" "sa_status_reason a' = None" "sa_id a' = sa_id a"
      "mg' = store_do (setAccountStatus (sa_id a) (Some ''active'') None) ?mg3"
    by (auto simp: quota_attempt_def clearAccountStatus_def Let_def store_do_def split: sum.splits)
  ultimately have "mg_sent mg' = sent @ more" using q(1) by simp
  with q(2) out(2,3) have "\<exists>q sent more. sa_quota a' = Some (quota_json q) \<and> mg_sent mg' = sent @ more \<and>
      from_reply (me_net env) (token_str (sa_token a') ''access_token'') sent q" by auto
  moreover have "\<exists>row. select_row (sa_id a') (mg_db mg') = Some row \<and> ar_status row = sa_status a'"
    using select_status [OF p] out(4,6,7) by simp
  ultimately show ?thesis using out(4,5) by (simp add: settled_def)
qed

lemma forced_settled:
  assumes "forced_refresh env a mg = (Inr a', mg')" "present (sa_id a) mg"
  shows "settled env a' mg'"
proof -
  obtain x a1 mg1 where x: "store_refreshed env a mg = (x, a1, mg1)" by (metis prod_cases3)
  obtain y a2 mg2 where y: "quota_attempt env a1 mg1 = (y, a2, mg2)" by (metis prod_cases3)
  have one: "present (sa_id a1) mg1" using store_refreshed_minds [OF x] assms(2) unfolding minds_def using tends_present by metis
  then have two: "present (sa_id a2) mg2" using quota_attempt_minds [OF y] unfolding minds_def using tends_present by metis
  show ?thesis
  proof (cases x)
    case (Some m)
    with assms(1) x one show ?thesis by (auto simp: forced_refresh_def intro: settle_settled)
  next
    case None
    with assms(1) x y one two show ?thesis
      by (cases y) (auto simp: forced_refresh_def intro: settle_settled attempt_settled)
  qed
qed

lemma known_settled:
  assumes "refresh_known_account env a mg = (Inr a', mg')" "present (sa_id a) mg"
  shows "settled env a' mg'"
proof -
  obtain x a1 mg1 where x: "(if expires_before (seconds_now env + 300) (sa_token a) then store_refreshed env a mg else (None, a, mg)) = (x, a1, mg1)"
    by (metis prod_cases3)
  have n: "x = None" using assms(1) unfolding refresh_known_account_def x by (cases x) auto
  obtain y a2 mg2 where y: "quota_attempt env a1 mg1 = (y, a2, mg2)" by (metis prod_cases3)
  have "minds a mg a1 mg1" using x by (auto simp: minds_def dest: store_refreshed_minds split: if_splits)
  with assms(2) have one: "present (sa_id a1) mg1" unfolding minds_def using tends_present by metis
  then have two: "present (sa_id a2) mg2" using quota_attempt_minds [OF y] unfolding minds_def using tends_present by metis
  show ?thesis
  proof (cases y)
    case None
    with assms(1) n y one show ?thesis unfolding refresh_known_account_def x by (auto intro: attempt_settled)
  next
    case (Some m)
    have "(if m = ''UNAUTHORIZED'' then forced_refresh env a2 mg2
           else if m = ''FORBIDDEN'' then (case markAccountStatusFromError m a2 mg2 of (a3, mg3) \<Rightarrow> (Inr a3, mg3))
           else settle_quota_error m a2 mg2) = (Inr a', mg')"
      using assms(1) n y Some unfolding refresh_known_account_def x by simp
    then show ?thesis
      using two forced_settled settle_settled mark_settled [OF _ forbidden_is_limited]
      by (auto split: if_splits prod.splits)
  qed
qed

text \<open>C20: When refreshing the quota of an account gives an account, its status is the one stored, and it is either active, with the
  quota that Google answered to its current access token, or rate-limited with a reason; never an expired one.\<close>

theorem refreshed_account_is_settled:
  assumes "refreshAccountQuota env i mg = (Inr a, mg')"
  shows "sa_id a = i \<and> (\<exists>row. select_row i (mg_db mg') = Some row \<and> ar_status row = sa_status a) \<and>
    (sa_status a = Some ''active'' \<and> sa_status_reason a = None \<and>
        (\<exists>q sent more. sa_quota a = Some (quota_json q) \<and> mg_sent mg' = sent @ more \<and>
           from_reply (me_net env) (token_str (sa_token a) ''access_token'') sent q) \<or>
      sa_status a = Some ''rate_limited'' \<and> sa_status_reason a \<noteq> None)"
proof -
  obtain r db1 where r: "getAccount (me_repo env) i (mg_db mg) = (r, db1)" by fastforce
  with assms obtain b where b: "r = Inr (Some b)" "refresh_known_account env b (mg\<lparr>mg_db := db1\<rparr>) = (Inr a, mg')"
    by (cases r) (auto simp: refreshAccountQuota_def on_store_def split: option.splits)
  have i: "sa_id b = i" using r b(1) getAccount_id by simp
  have "select_row i (mg_db mg) \<noteq> None" using r b(1) by (auto simp: getAccount_def split: option.splits)
  then have "present i (mg\<lparr>mg_db := db1\<rparr>)" using touches_select [OF getAccount_touches [OF r]] by (simp add: present_def)
  with b(2) i have s: "settled env a mg'" by (auto intro: known_settled)
  moreover have "sa_id a = i" using refresh_known_cares [of b "mg\<lparr>mg_db := db1\<rparr>" env] b(2) i by (simp add: cares_def)
  ultimately show ?thesis by (simp add: settled_def)
qed

definition refusing_manager_env :: manager_env where
  "refusing_manager_env = \<lparr>me_repo = sample_env, me_net = (\<lambda>_ _. Reply 403 []), me_google = sample_google_env,
     me_registry = buildOAuthClientRegistry sample_google_env\<rparr>"

lemma refused_quota: "fst (fetchQuota (\<lambda>_ _. Reply 403 []) sample_google_env ''at'' None []) = Inl ''FORBIDDEN''"
  by code_simp

lemma refreshed_account_is_settled_witness:
  "\<exists>db1 a mg'. addAccount sample_env sample_account empty_db = (Inr (), db1) \<and>
     refreshAccountQuota refusing_manager_env ''a'' \<lparr>mg_db = db1, mg_sent = []\<rparr> = (Inr a, mg') \<and> sa_status a = Some ''rate_limited'' \<and>
     (\<exists>row. select_row ''a'' (mg_db mg') = Some row \<and> ar_status row = Some ''rate_limited'')"
proof -
  obtain db1 where db1: "addAccount sample_env sample_account empty_db = (Inr (), db1)"
    "map_option snd (va_cached (cd_vault db1)) = Some FromSafeStorage" using sample_add by blast
  have laws: "aead_laws (re_cipher sample_env)" "platform_laws (re_platform sample_env)"
    "repo_reachable (re_cipher sample_env) (re_platform sample_env) empty_db"
    using sample_cipher_laws sample_platform_laws sample_start by (simp_all add: sample_env_def)
  have ok: "account_ok sample_account" by (simp add: account_ok_def sample_account_def map_keys_ok_def)
  have i: "sa_id sample_account = ''a''" by (simp add: sample_account_def)
  have "fst (getAccount sample_env ''a'' db1) = Inr (Some (as_stored sample_account))"
    using add_account_reads [OF laws db1(1) ok, unfolded i] db1(2) by simp
  then obtain db2 where g: "getAccount sample_env ''a'' db1 = (Inr (Some (as_stored sample_account)), db2)" by (metis prod.collapse)
  let ?a = "as_stored sample_account" and ?mg1 = "\<lparr>mg_db = db2, mg_sent = []\<rparr>"
  have a: "sa_token ?a = sa_token sample_account" "sa_quota ?a = None" "sa_proxy_url ?a = None"
    by (simp_all add: as_stored_def sample_account_def)
  have t: "token_str (sa_token ?a) ''access_token'' = ''at''" "\<not> expires_before (seconds_now refusing_manager_env + 300) (sa_token ?a)"
    unfolding a by (simp_all add: token_str_def token_opt_def sample_account_def expires_before_def seconds_now_def refusing_manager_env_def sample_env_def)
  obtain s where "fetchQuota (\<lambda>_ _. Reply 403 []) sample_google_env ''at'' None [] = (Inl ''FORBIDDEN'', s)"
    using refused_quota by (metis prod.collapse)
  then have q: "quota_attempt refusing_manager_env ?a ?mg1 = (Some ''FORBIDDEN'', ?a, \<lparr>mg_db = db2, mg_sent = s\<rparr>)"
    unfolding quota_attempt_def t(1) by (simp add: a quota_with_credits_def on_net_def refusing_manager_env_def)
  have "\<exists>a' mg'. refresh_known_account refusing_manager_env ?a ?mg1 = (Inr a', mg') \<and> sa_status a' = Some ''rate_limited''"
    unfolding refresh_known_account_def if_not_P [OF t(2)] by (simp add: q markAccountStatusFromError_def forbidden_is_limited)
  moreover have "on_store (getAccount (me_repo refusing_manager_env) ''a'') \<lparr>mg_db = db1, mg_sent = []\<rparr> = (Inr (Some ?a), ?mg1)"
    by (simp add: on_store_def refusing_manager_env_def g)
  ultimately obtain a' mg' where r: "refreshAccountQuota refusing_manager_env ''a'' \<lparr>mg_db = db1, mg_sent = []\<rparr> = (Inr a', mg')"
    "sa_status a' = Some ''rate_limited''" by (auto simp: refreshAccountQuota_def)
  from refreshed_account_is_settled [OF r(1)] r db1(1) show ?thesis by auto
qed

end
