(* ===== verification/Switching.thy ===== *)
theory Switching
  imports JsPrelude
begin

section \<open>Switching the application to another account\<close>

text \<open>
  \<open>antigravity-runtime/switch\<close>: the guard that runs one switch at a time (\<open>switchGuard.ts\<close>), the counters
  (\<open>switchMetrics.ts\<close>) and the flow of a switch (\<open>switchFlow.ts\<close>). The guard is a step relation over its module
  state: a request is queued, the running action settles, and in a later turn of the event loop the guard is released
  and the next task starts; between the last two the caller that was waiting may already run and queue again. What the
  stages of a flow do outside (processes, profiles, files) is given by whether they fail, and with which message.
\<close>

subsection \<open>The guard\<close>

datatype switch_owner = LocalAccountSwitch | CloudAccountSwitch

text \<open>A task is its owner and the number of its request.\<close>

type_synonym switch_task = "switch_owner \<times> nat"

text \<open>\<open>sg_running\<close> is the task whose action has started and not settled; the last three members record the history.\<close>

record switch_guard =
  activeSwitchOwner :: "switch_owner option"
  pendingQueue :: "switch_task list"
  sg_processing :: bool
  sg_running :: "switch_task option"
  sg_requested :: "switch_task list"
  sg_started :: "switch_task list"
  sg_settled :: "(switch_task \<times> bool) list"

definition new_switch_guard :: switch_guard where
  "new_switch_guard = \<lparr>activeSwitchOwner = None, pendingQueue = [], sg_processing = False, sg_running = None,
     sg_requested = [], sg_started = [], sg_settled = []\<rparr>"

definition processQueue :: "switch_guard \<Rightarrow> switch_guard" where
  "processQueue g =
     (if sg_processing g then g
      else (case pendingQueue g of
              [] \<Rightarrow> g
            | task # rest \<Rightarrow>
                g\<lparr>pendingQueue := rest, sg_processing := True, activeSwitchOwner := Some (fst task),
                  sg_running := Some task, sg_started := sg_started g @ [task]\<rparr>))"

definition runWithSwitchGuard :: "switch_owner \<Rightarrow> switch_guard \<Rightarrow> switch_guard" where
  "runWithSwitchGuard owner g =
     (let task = (owner, length (sg_requested g))
      in processQueue (g\<lparr>pendingQueue := pendingQueue g @ [task], sg_requested := sg_requested g @ [task]\<rparr>))"

definition settle_task :: "bool \<Rightarrow> switch_task \<Rightarrow> switch_guard \<Rightarrow> switch_guard" where
  "settle_task ok task g = g\<lparr>sg_running := None, sg_settled := sg_settled g @ [(task, ok)]\<rparr>"

definition release_guard :: "switch_guard \<Rightarrow> switch_guard" where
  "release_guard g = processQueue (g\<lparr>activeSwitchOwner := None, sg_processing := False\<rparr>)"

inductive guard_step :: "switch_guard \<Rightarrow> switch_guard \<Rightarrow> bool" where
  request: "guard_step g (runWithSwitchGuard owner g)"
| settle: "sg_running g = Some task \<Longrightarrow> guard_step g (settle_task ok task g)"
| release: "sg_processing g \<Longrightarrow> sg_running g = None \<Longrightarrow> guard_step g (release_guard g)"

inductive guard_reachable :: "switch_guard \<Rightarrow> bool" where
  start: "guard_reachable new_switch_guard"
| step: "guard_reachable g \<Longrightarrow> guard_step g g' \<Longrightarrow> guard_reachable g'"

inductive_cases guard_stepE: "guard_step g g'"

record guard_snapshot =
  gs_activeOwner :: "switch_owner option"
  gs_pendingOwners :: "switch_owner list"
  gs_pendingCount :: nat

definition getSwitchGuardSnapshot :: "switch_guard \<Rightarrow> guard_snapshot" where
  "getSwitchGuardSnapshot g =
     \<lparr>gs_activeOwner = activeSwitchOwner g, gs_pendingOwners = map fst (pendingQueue g),
      gs_pendingCount = length (pendingQueue g)\<rparr>"

definition running_list :: "switch_guard \<Rightarrow> switch_task list" where
  "running_list g = (case sg_running g of Some t \<Rightarrow> [t] | None \<Rightarrow> [])"

definition guard_ok :: "switch_guard \<Rightarrow> bool" where
  "guard_ok g \<longleftrightarrow>
     (sg_processing g \<longleftrightarrow> activeSwitchOwner g \<noteq> None) \<and> (\<not> sg_processing g \<longrightarrow> pendingQueue g = [] \<and> sg_running g = None) \<and>
     (\<forall>t. sg_running g = Some t \<longrightarrow> activeSwitchOwner g = Some (fst t)) \<and>
     sg_started g @ pendingQueue g = sg_requested g \<and> map fst (sg_settled g) @ running_list g = sg_started g \<and>
     map snd (sg_requested g) = [0..<length (sg_requested g)]"

lemma guard_okD:
  assumes "guard_ok g"
  shows "sg_processing g \<longleftrightarrow> activeSwitchOwner g \<noteq> None" "\<not> sg_processing g \<Longrightarrow> pendingQueue g = [] \<and> sg_running g = None"
    "sg_running g = Some t \<Longrightarrow> activeSwitchOwner g = Some (fst t)" "sg_started g @ pendingQueue g = sg_requested g"
    "map fst (sg_settled g) @ running_list g = sg_started g" "map snd (sg_requested g) = [0..<length (sg_requested g)]"
  using assms [unfolded guard_ok_def] by blast+

lemma guard_ok_new: "guard_ok new_switch_guard"
  by (simp add: guard_ok_def new_switch_guard_def running_list_def)

text \<open>What remains of the invariant while the queue is being looked at.\<close>

lemma processQueue_ok:
  assumes "sg_processing g \<Longrightarrow> guard_ok g"
    and "\<not> sg_processing g \<Longrightarrow> activeSwitchOwner g = None \<and> sg_running g = None \<and>
      sg_started g @ pendingQueue g = sg_requested g \<and> map fst (sg_settled g) = sg_started g \<and>
      map snd (sg_requested g) = [0..<length (sg_requested g)]"
  shows "guard_ok (processQueue g)"
  using assms by (cases "sg_processing g") (auto simp: processQueue_def guard_ok_def running_list_def split: list.split)

lemma guard_ok_request:
  assumes "guard_ok g"
  shows "guard_ok (runWithSwitchGuard owner g)"
  unfolding runWithSwitchGuard_def Let_def
proof (rule processQueue_ok, goal_cases)
  case 1
  note ok = guard_okD [OF assms]
  show ?case
    unfolding guard_ok_def running_list_def
    using ok(1,2,4,6) ok(5) [unfolded running_list_def] ok(3) 1 by (auto simp: append_assoc [symmetric] simp del: append_assoc)
next
  case 2
  note ok = guard_okD [OF assms]
  have "sg_running g = None" "pendingQueue g = []" "activeSwitchOwner g = None" using 2 ok(1,2) by auto
  with ok(4,5,6) show ?case by (auto simp: running_list_def)
qed

lemma guard_ok_settle: "guard_ok g \<Longrightarrow> sg_running g = Some task \<Longrightarrow> guard_ok (settle_task ok task g)"
  by (auto simp: guard_ok_def settle_task_def running_list_def)

lemma guard_ok_release:
  assumes "guard_ok g" "sg_running g = None"
  shows "guard_ok (release_guard g)"
  unfolding release_guard_def
  by (rule processQueue_ok) (use assms in \<open>auto simp: guard_ok_def running_list_def\<close>)

lemma guard_ok_step: "guard_step g g' \<Longrightarrow> guard_ok g \<Longrightarrow> guard_ok g'"
  by (auto elim!: guard_stepE intro: guard_ok_request guard_ok_settle guard_ok_release)

lemma guard_ok_reachable: "guard_reachable g \<Longrightarrow> guard_ok g"
  by (induction rule: guard_reachable.induct) (auto intro: guard_ok_new guard_ok_step)

text \<open>C22: Switches exclude each other and run in the order they were asked for, whatever way requests, actions and releases
  interleave: at any time the settled tasks, the running one if there is one, and the waiting ones are the requested
  tasks in their order, so each starts once, after all earlier ones have settled, failed or not.\<close>

theorem switches_run_one_by_one:
  assumes "guard_reachable g"
  shows "sg_requested g = map fst (sg_settled g) @ running_list g @ pendingQueue g \<and> distinct (sg_requested g) \<and>
    (sg_running g \<noteq> None \<longrightarrow> activeSwitchOwner g = map_option fst (sg_running g)) \<and>
    (activeSwitchOwner g = None \<longrightarrow> pendingQueue g = [])"
proof -
  note ok = guard_okD [OF guard_ok_reachable [OF assms]]
  have "distinct (map snd (sg_requested g))" unfolding ok(6) by simp
  then have "distinct (sg_requested g)" by (simp only: distinct_map)
  moreover have "sg_requested g = map fst (sg_settled g) @ running_list g @ pendingQueue g"
    by (simp only: ok(4,5) append_assoc [symmetric])
  moreover have "sg_running g \<noteq> None \<longrightarrow> activeSwitchOwner g = map_option fst (sg_running g)"
    using ok(3) by (cases "sg_running g") simp_all
  moreover have "activeSwitchOwner g = None \<longrightarrow> pendingQueue g = []" using ok(1,2) by blast
  ultimately show ?thesis by blast
qed

lemma switches_run_one_by_one_witness:
  "(let g = release_guard (settle_task False (LocalAccountSwitch, 0)
       (runWithSwitchGuard CloudAccountSwitch (runWithSwitchGuard LocalAccountSwitch new_switch_guard)))
    in sg_requested g = map fst (sg_settled g) @ running_list g @ pendingQueue g \<and> sg_running g = Some (CloudAccountSwitch, 1))"
proof -
  let ?g1 = "runWithSwitchGuard CloudAccountSwitch (runWithSwitchGuard LocalAccountSwitch new_switch_guard)"
  let ?g2 = "settle_task False (LocalAccountSwitch, 0) ?g1"
  have 1: "sg_running ?g1 = Some (LocalAccountSwitch, 0)" and 2: "sg_processing ?g2" "sg_running ?g2 = None"
    and 3: "sg_running (release_guard ?g2) = Some (CloudAccountSwitch, 1)"
    by (simp_all add: runWithSwitchGuard_def processQueue_def new_switch_guard_def settle_task_def release_guard_def Let_def)
  have "guard_reachable ?g1" by (rule guard_reachable.step [OF guard_reachable.step [OF guard_reachable.start guard_step.request] guard_step.request])
  then have "guard_reachable ?g2" by (rule guard_reachable.step) (rule guard_step.settle [OF 1])
  then have "guard_reachable (release_guard ?g2)" by (rule guard_reachable.step) (rule guard_step.release [OF 2])
  from switches_run_one_by_one [OF this] 3 show ?thesis unfolding Let_def by blast
qed

text \<open>A busy guard can always come to its next task, or to rest.\<close>

lemma busy_guard_moves_on:
  assumes "guard_ok g" "sg_processing g"
  shows "\<exists>g'. guard_step\<^sup>*\<^sup>* g g' \<and> guard_ok g' \<and> sg_requested g' = sg_requested g \<and>
    pendingQueue g' = tl (pendingQueue g) \<and> (sg_processing g' \<longleftrightarrow> pendingQueue g \<noteq> [])"
proof -
  obtain g1 where s1: "guard_step\<^sup>*\<^sup>* g g1" "guard_ok g1" "sg_running g1 = None" "sg_processing g1"
    "pendingQueue g1 = pendingQueue g" "sg_requested g1 = sg_requested g"
  proof (cases "sg_running g")
    case None
    with assms show thesis by (intro that [of g]) simp_all
  next
    case (Some t)
    show thesis
      by (rule that [of "settle_task True t g"])
        (use guard_step.settle [OF Some] guard_ok_settle [OF assms(1) Some] assms(2) in
          \<open>auto simp: settle_task_def intro: r_into_rtranclp\<close>)
  qed
  have "guard_step g1 (release_guard g1)" using s1 by (intro guard_step.release)
  with s1(1) have "guard_step\<^sup>*\<^sup>* g (release_guard g1)" by (rule rtranclp.rtrancl_into_rtrancl)
  moreover have "guard_ok (release_guard g1)" using s1 by (intro guard_ok_release)
  ultimately show ?thesis
    using s1(5,6) by (intro exI [of _ "release_guard g1"]) (auto simp: release_guard_def processQueue_def split: list.split)
qed

lemma guard_comes_to_rest:
  "guard_ok g \<Longrightarrow> \<exists>g'. guard_step\<^sup>*\<^sup>* g g' \<and> sg_requested g' = sg_requested g \<and> \<not> sg_processing g' \<and> guard_ok g'"
proof (induction "length (pendingQueue g)" arbitrary: g rule: less_induct)
  case less
  show ?case
  proof (cases "sg_processing g")
    case False
    with less.prems show ?thesis by blast
  next
    case True
    from busy_guard_moves_on [OF less.prems True] obtain g1 where g1: "guard_step\<^sup>*\<^sup>* g g1" "guard_ok g1"
      "sg_requested g1 = sg_requested g" "pendingQueue g1 = tl (pendingQueue g)" "sg_processing g1 \<longleftrightarrow> pendingQueue g \<noteq> []"
      by blast
    show ?thesis
    proof (cases "pendingQueue g")
      case Nil
      with g1 show ?thesis by blast
    next
      case (Cons t ts)
      with g1(4) have "length (pendingQueue g1) < length (pendingQueue g)" by simp
      from less.hyps [OF this g1(2)] g1(1,3) show ?thesis by (metis rtranclp_trans)
    qed
  qed
qed

text \<open>C23: No switch waits for ever: from any reachable state, once the running actions settle, every requested task is
  settled and the guard is free, without any further request.\<close>

theorem every_switch_gets_its_turn:
  assumes "guard_reachable g"
  shows "\<exists>g'. guard_step\<^sup>*\<^sup>* g g' \<and> sg_requested g' = sg_requested g \<and> map fst (sg_settled g') = sg_requested g \<and>
    activeSwitchOwner g' = None \<and> pendingQueue g' = []"
proof -
  from guard_comes_to_rest [OF guard_ok_reachable [OF assms]] obtain g' where g': "guard_step\<^sup>*\<^sup>* g g'"
    "sg_requested g' = sg_requested g" "\<not> sg_processing g'" "guard_ok g'" by blast
  note ok = guard_okD [OF g'(4)]
  have "running_list g' = []" "pendingQueue g' = []" "activeSwitchOwner g' = None"
    using ok(1,2) g'(3) by (auto simp: running_list_def)
  moreover from this have "map fst (sg_settled g') = sg_requested g'" using ok(4,5) by simp
  ultimately show ?thesis using g'(1,2) by auto
qed

lemma every_switch_gets_its_turn_witness:
  "\<exists>g'. guard_step\<^sup>*\<^sup>* (runWithSwitchGuard CloudAccountSwitch (runWithSwitchGuard LocalAccountSwitch new_switch_guard)) g' \<and>
     map fst (sg_settled g') = [(LocalAccountSwitch, 0), (CloudAccountSwitch, 1)] \<and> activeSwitchOwner g' = None"
proof -
  let ?g = "runWithSwitchGuard CloudAccountSwitch (runWithSwitchGuard LocalAccountSwitch new_switch_guard)"
  have "guard_reachable ?g" by (rule guard_reachable.step [OF guard_reachable.step [OF guard_reachable.start guard_step.request] guard_step.request])
  from every_switch_gets_its_turn [OF this] obtain g' where "guard_step\<^sup>*\<^sup>* ?g g'" "map fst (sg_settled g') = sg_requested ?g"
    "activeSwitchOwner g' = None" by blast
  moreover have "sg_requested ?g = [(LocalAccountSwitch, 0), (CloudAccountSwitch, 1)]"
    by (simp add: runWithSwitchGuard_def processQueue_def new_switch_guard_def Let_def)
  ultimately show ?thesis by auto
qed

subsection \<open>Counters\<close>

datatype switch_scope = LocalScope | CloudScope

datatype switch_failure_reason =
  UnknownReason | ProcessCloseFailed | MissingBoundProfile | ApplyDeviceProfileFailed | PerformSwitchFailed | StartProcessFailed

record switch_metrics =
  switchSuccess :: nat
  switchFailure :: nat
  rollbackAttempt :: nat
  rollbackSuccess :: nat
  rollbackFailure :: nat
  failureReasons :: "switch_failure_reason \<Rightarrow> nat"
  lastFailure :: "(switch_failure_reason \<times> string \<times> rat) option"

definition new_switch_metrics :: switch_metrics where
  "new_switch_metrics = \<lparr>switchSuccess = 0, switchFailure = 0, rollbackAttempt = 0, rollbackSuccess = 0, rollbackFailure = 0,
     failureReasons = (\<lambda>_. 0), lastFailure = None\<rparr>"

type_synonym metrics_map = "switch_scope \<Rightarrow> switch_metrics"

definition recordSwitchSuccess :: "switch_scope \<Rightarrow> metrics_map \<Rightarrow> metrics_map" where
  "recordSwitchSuccess scope ms = ms(scope := (ms scope)\<lparr>switchSuccess := switchSuccess (ms scope) + 1\<rparr>)"

definition recordSwitchFailure :: "rat \<Rightarrow> switch_scope \<Rightarrow> switch_failure_reason \<Rightarrow> string \<Rightarrow> metrics_map \<Rightarrow> metrics_map" where
  "recordSwitchFailure now scope reason message ms =
     ms(scope := (ms scope)\<lparr>switchFailure := switchFailure (ms scope) + 1,
       failureReasons := (failureReasons (ms scope))(reason := failureReasons (ms scope) reason + 1),
       lastFailure := Some (reason, message, now)\<rparr>)"

definition recordSwitchRollback :: "switch_scope \<Rightarrow> bool \<Rightarrow> metrics_map \<Rightarrow> metrics_map" where
  "recordSwitchRollback scope success ms =
     (let m = (ms scope)\<lparr>rollbackAttempt := rollbackAttempt (ms scope) + 1\<rparr>
      in ms(scope := (if success then m\<lparr>rollbackSuccess := rollbackSuccess m + 1\<rparr>
                      else m\<lparr>rollbackFailure := rollbackFailure m + 1\<rparr>)))"

definition all_reasons :: "switch_failure_reason list" where
  "all_reasons = [UnknownReason, ProcessCloseFailed, MissingBoundProfile, ApplyDeviceProfileFailed, PerformSwitchFailed,
     StartProcessFailed]"

text \<open>The counters add up.\<close>

definition metrics_ok :: "switch_metrics \<Rightarrow> bool" where
  "metrics_ok m \<longleftrightarrow> switchFailure m = sum_list (map (failureReasons m) all_reasons) \<and>
     rollbackAttempt m = rollbackSuccess m + rollbackFailure m \<and> (lastFailure m = None \<longleftrightarrow> switchFailure m = 0)"

lemma metrics_ok_ops:
  assumes "\<And>s. metrics_ok (ms s)"
  shows "metrics_ok (recordSwitchSuccess scope ms s)" "metrics_ok (recordSwitchFailure now scope reason message ms s)"
    "metrics_ok (recordSwitchRollback scope success ms s)"
  using assms [of s]
  by (cases reason; auto simp: recordSwitchSuccess_def recordSwitchFailure_def recordSwitchRollback_def metrics_ok_def
      all_reasons_def Let_def)+

subsection \<open>The flow of a switch\<close>

text \<open>The actions of a flow, in the order they are taken. An action fails with a message, or does not.\<close>

datatype flow_action = RefreshProcessCache | CloseApp | WaitExit | ApplyProfile | PerformSwitch | StartApp

record flow_options =
  fo_scope :: switch_scope
  fo_has_profile :: bool
  fo_applyFingerprint :: bool
  fo_skipRefresh :: bool

datatype flow_stage = CloseStage | MissingProfileStage | ApplyStage | SwitchStage | StartStage

text \<open>The legacy texts in a message only matter for a stage without a reason of its own, and there is none.\<close>

definition toSwitchFailureReason :: "flow_stage \<Rightarrow> switch_failure_reason" where
  "toSwitchFailureReason stage =
     (case stage of
        CloseStage \<Rightarrow> ProcessCloseFailed
      | MissingProfileStage \<Rightarrow> MissingBoundProfile
      | ApplyStage \<Rightarrow> ApplyDeviceProfileFailed
      | SwitchStage \<Rightarrow> PerformSwitchFailed
      | StartStage \<Rightarrow> StartProcessFailed)"

text \<open>The plan of a flow: the stages with their actions. A failed wait for the exit is only logged.\<close>

definition missing_profile_message :: string where
  "missing_profile_message = ''Account has no bound identity profile''"

definition flow_plan :: "flow_options \<Rightarrow> (flow_stage \<times> flow_action) list" where
  "flow_plan opts =
     (if fo_skipRefresh opts then [] else [(CloseStage, RefreshProcessCache)]) @
     [(CloseStage, CloseApp), (CloseStage, WaitExit)] @
     (if fo_applyFingerprint opts then [(if fo_has_profile opts then ApplyStage else MissingProfileStage, ApplyProfile)] else []) @
     [(SwitchStage, PerformSwitch), (StartStage, StartApp)]"

text \<open>\<open>outcome\<close> tells how an action ends; the result is the actions taken and the failure, if any.\<close>

fun run_flow ::
    "(flow_action \<Rightarrow> string option) \<Rightarrow> (flow_stage \<times> flow_action) list \<Rightarrow> flow_action list \<times> (flow_stage \<times> string) option" where
  "run_flow outcome [] = ([], None)"
| "run_flow outcome ((stage, action) # plan) =
     (if stage = MissingProfileStage then ([], Some (stage, missing_profile_message))
      else (case outcome action of
              Some message \<Rightarrow>
                if action = WaitExit
                then (let (done_actions, failure) = run_flow outcome plan in (action # done_actions, failure))
                else ([action], Some (stage, message))
            | None \<Rightarrow> (let (done_actions, failure) = run_flow outcome plan in (action # done_actions, failure))))"

definition executeSwitchFlow ::
    "rat \<Rightarrow> (flow_action \<Rightarrow> string option) \<Rightarrow> flow_options \<Rightarrow> metrics_map \<Rightarrow> (string + unit) \<times> flow_action list \<times> metrics_map" where
  "executeSwitchFlow now outcome opts ms =
     (case run_flow outcome (flow_plan opts) of
        (acts, None) \<Rightarrow> (Inr (), acts, recordSwitchSuccess (fo_scope opts) ms)
      | (acts, Some (stage, message)) \<Rightarrow>
          (Inl message, acts, recordSwitchFailure now (fo_scope opts) (toSwitchFailureReason stage) message ms))"

lemma flow_cases:
  "(case executeSwitchFlow now outcome opts ms of (res, acts, ms') \<Rightarrow>
     (PerformSwitch \<in> set acts \<longrightarrow> CloseApp \<in> set acts \<and> outcome CloseApp = None \<and>
        (fo_applyFingerprint opts \<longrightarrow> fo_has_profile opts \<and> ApplyProfile \<in> set acts \<and> outcome ApplyProfile = None)) \<and>
     (StartApp \<in> set acts \<longrightarrow> PerformSwitch \<in> set acts \<and> outcome PerformSwitch = None) \<and>
     (case res of
        Inr _ \<Rightarrow> StartApp \<in> set acts \<and> outcome StartApp = None \<and> ms' = recordSwitchSuccess (fo_scope opts) ms
      | Inl message \<Rightarrow> \<exists>reason. ms' = recordSwitchFailure now (fo_scope opts) reason message ms))"
  by (cases "outcome RefreshProcessCache"; cases "outcome CloseApp"; cases "outcome WaitExit"; cases "outcome ApplyProfile";
      cases "outcome PerformSwitch"; cases "outcome StartApp";
      auto simp: executeSwitchFlow_def flow_plan_def)

text \<open>A switch of accounts is done in order and counted once: the account is only switched after the application was
  closed and, when a profile is to be applied, the account's profile was; the application is only started after the
  switch; success means the start succeeded, and exactly one success or one failure is added to the counters of the
  switch's scope, which keep adding up.\<close>

theorem switch_flow_is_ordered_and_counted:
  assumes "executeSwitchFlow now outcome opts ms = (res, acts, ms')" "\<forall>s. metrics_ok (ms s)"
  shows "(PerformSwitch \<in> set acts \<longrightarrow> CloseApp \<in> set acts \<and> outcome CloseApp = None \<and>
      (fo_applyFingerprint opts \<longrightarrow> fo_has_profile opts \<and> ApplyProfile \<in> set acts \<and> outcome ApplyProfile = None)) \<and>
    (StartApp \<in> set acts \<longrightarrow> PerformSwitch \<in> set acts \<and> outcome PerformSwitch = None) \<and>
    (res = Inr () \<longrightarrow> StartApp \<in> set acts \<and> outcome StartApp = None) \<and>
    switchSuccess (ms' (fo_scope opts)) + switchFailure (ms' (fo_scope opts)) =
      switchSuccess (ms (fo_scope opts)) + switchFailure (ms (fo_scope opts)) + 1 \<and>
    (res = Inr () \<longleftrightarrow> switchFailure (ms' (fo_scope opts)) = switchFailure (ms (fo_scope opts))) \<and>
    (\<forall>s. metrics_ok (ms' s)) \<and> (\<forall>s. s \<noteq> fo_scope opts \<longrightarrow> ms' s = ms s)"
proof -
  note flow = flow_cases [where now = now and outcome = outcome and opts = opts and ms = ms, unfolded assms(1) prod.case]
  have ok: "metrics_ok (ms' s)" for s
    using flow metrics_ok_ops(1,2) [of ms] assms(2) by (auto split: sum.splits)
  show ?thesis
    using flow ok by (cases res) (auto simp: recordSwitchSuccess_def recordSwitchFailure_def)
qed

lemma switch_flow_is_ordered_and_counted_witness:
  "(case executeSwitchFlow 5 (\<lambda>a. if a = PerformSwitch then Some ''locked'' else None)
      \<lparr>fo_scope = CloudScope, fo_has_profile = True, fo_applyFingerprint = True, fo_skipRefresh = False\<rparr> (\<lambda>_. new_switch_metrics)
    of (res, acts, ms') \<Rightarrow> res = Inl ''locked'' \<and> StartApp \<notin> set acts \<and> metrics_ok (ms' CloudScope) \<and>
      failureReasons (ms' CloudScope) PerformSwitchFailed = 1)"
proof -
  let ?o = "\<lparr>fo_scope = CloudScope, fo_has_profile = True, fo_applyFingerprint = True, fo_skipRefresh = False\<rparr>"
  let ?f = "\<lambda>a. if a = PerformSwitch then Some ''locked'' else None"
  obtain res acts ms' where r: "executeSwitchFlow 5 ?f ?o (\<lambda>_. new_switch_metrics) = (res, acts, ms')" by (metis prod_cases3)
  have "\<forall>s. metrics_ok ((\<lambda>_::switch_scope. new_switch_metrics) s)" by (simp add: metrics_ok_def new_switch_metrics_def all_reasons_def)
  from switch_flow_is_ordered_and_counted [OF r this] have "metrics_ok (ms' CloudScope)" "StartApp \<notin> set acts" by auto
  moreover have "res = Inl ''locked''" "failureReasons (ms' CloudScope) PerformSwitchFailed = 1"
    using r by (auto simp: executeSwitchFlow_def flow_plan_def recordSwitchFailure_def toSwitchFailureReason_def new_switch_metrics_def)
  ultimately show ?thesis by (simp add: r)
qed

end
