(* ===== verification/CloudSwitch.thy ===== *)
theory CloudSwitch
  imports DeviceStorage AccountHealth Switching
begin

section \<open>Switching the editor to another account\<close>

text \<open>
  \<open>switchCloudAccount\<close> of \<open>cloud-account/ipc/handler.ts\<close>: the account is prepared (device profile, token, enterprise project), then
  the switch flow closes the application, applies the profile, injects the token and marks the account as active. The state
  joins the store of accounts, the editor's files, the safe mode of the profiles, the counters of the switches and the token
  in the credential store of the system. The editor has one state database, the one beside its storage file; copying it to a
  backup before the injection has no effect on the rest and is left out. The four statements that mark the account after
  the injection may each fail in the database, as a busy or full one makes them; which do is an argument.
\<close>

record desk =
  de_manager :: account_manager
  de_disk :: disk
  de_hardening :: hardening
  de_metrics :: metrics_map
  de_credential :: "json option"

datatype mark_step = MarkLastUsed | MarkActive | MarkActiveForTarget | MarkStatus

text \<open>What the surroundings do: the application, the credential store and the marking fail with a message, or do not.\<close>

record 'v desk_env =
  se_manager :: manager_env
  se_disk_faults :: disk_faults
  se_ide_faults :: faults
  se_semver :: "'v semver"
  se_version :: "string option"
  se_process :: "flow_action \<Rightarrow> string option"
  se_write_credential :: "json \<Rightarrow> string option"
  se_mark_fault :: "mark_step \<Rightarrow> string option"
  se_sha256 :: "string \<Rightarrow> octets"
  se_random :: octets
  se_apply_enabled :: "string option"
  se_fingerprint_enabled :: "string option"

subsection \<open>Preparing the account\<close>

definition ensureEnterpriseProjectReady :: "manager_env \<Rightarrow> stored_account \<Rightarrow> account_manager \<Rightarrow> (string + stored_account) \<times> account_manager" where
  "ensureEnterpriseProjectReady env a mg =
     (if \<not> isEnterpriseClient (token_opt (sa_token a) ''oauth_client_key'') \<or> trimmed_project (token_opt (sa_token a) ''project_id'') \<noteq> None
      then (Inr a, mg)
      else (case on_net (fetchProjectId (me_net env) (me_google env) (token_str (sa_token a) ''access_token'') (sa_proxy_url a)) mg of
              (Inl m, mg1) \<Rightarrow>
                (Inl (''Account '' @ sa_email a @ '' cannot be switched safely: missing enterprise project_id and auto-resolve failed ('' @ m @
                   ''). Please re-login with a non-enterprise OAuth client or a project-enabled token.''), mg1)
            | (Inr p, mg1) \<Rightarrow>
                (case trimmed_project p of
                   None \<Rightarrow> (Inl (''Account '' @ sa_email a @ '' cannot be switched safely: enterprise OAuth requires a valid project_id.''), mg1)
                 | Some project \<Rightarrow>
                     (let a1 = a\<lparr>sa_token := JObj (AList.update ''project_id'' (JStr project) (case sa_token a of JObj m \<Rightarrow> m | _ \<Rightarrow> []))\<rparr>
                      in (case on_store (updateToken (me_repo env) (sa_id a) (sa_token a1)) mg1 of
                            (Inl m, mg2) \<Rightarrow> (Inl m, mg2)
                          | (Inr _, mg2) \<Rightarrow> (Inr a1, mg2))))))"

definition refresh_before_switch :: "manager_env \<Rightarrow> stored_account \<Rightarrow> account_manager \<Rightarrow> (string + stored_account) \<times> account_manager" where
  "refresh_before_switch env a mg =
     (if js_trim (token_str (sa_token a) ''refresh_token'') = [] then (Inr a, mg)
      else (case store_refreshed env a mg of
              (None, a1, mg1) \<Rightarrow> (Inr a1, mg1)
            | (Some m, _, mg1) \<Rightarrow> (Inl (formatSwitchRefreshError m), snd (markAccountStatusFromError m a mg1))))"

text \<open>An account without a profile gets a generated one.\<close>

definition set_up_profile :: "'v desk_env \<Rightarrow> stored_account \<Rightarrow> desk \<Rightarrow> (string + stored_account) \<times> desk" where
  "set_up_profile env a d =
     (let d1 = d\<lparr>de_disk := ensureGlobalOriginalFromCurrentStorage (de_disk d)\<rparr>
      in if sa_device_profile a \<noteq> None then (Inr a, d1)
         else (case generateDeviceProfile (se_sha256 env) (se_random env) of
                 Inl m \<Rightarrow> (Inl m, d1)
               | Inr p \<Rightarrow>
                   (case on_store (setDeviceBinding (me_repo (se_manager env)) (sa_id a) p ''auto_generated'') (de_manager d1) of
                      (Inl m, mg) \<Rightarrow> (Inl m, d1\<lparr>de_manager := mg\<rparr>)
                    | (Inr _, mg) \<Rightarrow>
                        (Inr (a\<lparr>sa_device_profile := Some p\<rparr>), d1\<lparr>de_manager := mg, de_disk := saveGlobalOriginalProfile p (de_disk d1)\<rparr>))))"

definition on_manager :: "(account_manager \<Rightarrow> 'a \<times> account_manager) \<Rightarrow> desk \<Rightarrow> 'a \<times> desk" where
  "on_manager f d = (let (r, mg) = f (de_manager d) in (r, d\<lparr>de_manager := mg\<rparr>))"

definition prepare_switch :: "'v desk_env \<Rightarrow> string \<Rightarrow> desk \<Rightarrow> (string + stored_account) \<times> desk" where
  "prepare_switch env i d =
     (case on_manager (on_store (getAccount (me_repo (se_manager env)) i)) d of
        (Inl m, d1) \<Rightarrow> (Inl m, d1)
      | (Inr None, d1) \<Rightarrow> (Inl (account_missing i), d1)
      | (Inr (Some a), d1) \<Rightarrow>
          (case set_up_profile env a d1 of
             (Inl m, d2) \<Rightarrow> (Inl m, d2)
           | (Inr a2, d2) \<Rightarrow>
               (case on_manager (refresh_before_switch (se_manager env) a2) d2 of
                  (Inl m, d3) \<Rightarrow> (Inl m, d3)
                | (Inr a3, d3) \<Rightarrow> on_manager (ensureEnterpriseProjectReady (se_manager env) a3) d3)))"

subsection \<open>The switch itself\<close>

definition injectCloudTokenWithStorageStrategy ::
    "'v desk_env \<Rightarrow> app_target option \<Rightarrow> stored_account \<Rightarrow> desk \<Rightarrow> string option \<times> desk" where
  "injectCloudTokenWithStorageStrategy env target a d =
     (if shouldInjectTokenIntoCredentialStore (se_semver env) (se_version env) target
      then (case se_write_credential env (sa_token a) of Some m \<Rightarrow> (Some m, d) | None \<Rightarrow> (None, d\<lparr>de_credential := Some (sa_token a)\<rparr>))
      else (case injectCloudToken (se_semver env) (se_version env) (se_ide_faults env) a [(''state.vscdb'', dk_state (de_disk d))] of
              Inl e \<Rightarrow> (Some (ie_message e), d)
            | Inr (_, tbl) \<Rightarrow> (None, d\<lparr>de_disk := (de_disk d)\<lparr>dk_state := Some tbl\<rparr>\<rparr>)))"

text \<open>The marks are set one by one, each in a transaction of its own; the first failure ends the switch.\<close>

fun run_marks :: "(mark_step \<Rightarrow> string option) \<Rightarrow> (mark_step \<times> (account_manager \<Rightarrow> account_manager)) list \<Rightarrow> account_manager
    \<Rightarrow> string option \<times> account_manager" where
  "run_marks fault [] mg = (None, mg)"
| "run_marks fault ((step, f) # steps) mg = (case fault step of Some m \<Rightarrow> (Some m, mg) | None \<Rightarrow> run_marks fault steps (f mg))"

definition mark_switched ::
    "(mark_step \<Rightarrow> string option) \<Rightarrow> repo_env \<Rightarrow> app_target option \<Rightarrow> stored_account \<Rightarrow> account_manager \<Rightarrow> string option \<times> account_manager" where
  "mark_switched fault env target a =
     run_marks fault [(MarkLastUsed, store_do (updateLastUsed env (sa_id a))), (MarkActive, store_do (setActive (sa_id a))),
       (MarkActiveForTarget, store_do (setActiveForTarget target (sa_id a))), (MarkStatus, \<lambda>mg. snd (clearAccountStatus a mg))]"

definition performSwitch :: "'v desk_env \<Rightarrow> app_target option \<Rightarrow> stored_account \<Rightarrow> desk \<Rightarrow> string option \<times> desk" where
  "performSwitch env target a d =
     (case injectCloudTokenWithStorageStrategy env target a d of
        (Some m, d1) \<Rightarrow> (Some m, d1)
      | (None, d1) \<Rightarrow> on_manager (mark_switched (se_mark_fault env) (me_repo (se_manager env)) target a) d1)"

definition apply_profile :: "'v desk_env \<Rightarrow> stored_account \<Rightarrow> desk \<Rightarrow> string option \<times> desk" where
  "apply_profile env a d =
     (case sa_device_profile a of
        None \<Rightarrow> (None, d)
      | Some p \<Rightarrow>
          (case applyDeviceProfile (se_disk_faults env) (re_now (me_repo (se_manager env))) p (de_disk d, de_hardening d) of
             (r, disk', h) \<Rightarrow> (case r of Inl m \<Rightarrow> Some m | Inr _ \<Rightarrow> None, d\<lparr>de_disk := disk', de_hardening := h\<rparr>)))"

text \<open>The flow with its actions: those on the application are the surroundings', the other two change the state.\<close>

definition switch_outcome :: "'v desk_env \<Rightarrow> app_target option \<Rightarrow> stored_account \<Rightarrow> bool \<Rightarrow> desk \<Rightarrow> flow_action \<Rightarrow> string option" where
  "switch_outcome env target a applied d action =
     (if action = ApplyProfile then fst (apply_profile env a d)
      else if action = PerformSwitch then fst (performSwitch env target a (if applied then snd (apply_profile env a d) else d))
      else se_process env action)"

definition switch_flow :: "'v desk_env \<Rightarrow> app_target option \<Rightarrow> stored_account \<Rightarrow> desk \<Rightarrow> (string + unit) \<times> desk" where
  "switch_flow env target a d =
     (let now = re_now (me_repo (se_manager env));
          (applied, h) = isIdentityProfileApplyEnabled (se_apply_enabled env) (se_fingerprint_enabled env) now (de_hardening d);
          d1 = d\<lparr>de_hardening := h\<rparr>;
          (r, acts, metrics) = executeSwitchFlow now (switch_outcome env target a applied d1)
            \<lparr>fo_scope = CloudScope, fo_has_profile = (sa_device_profile a \<noteq> None), fo_applyFingerprint = applied, fo_skipRefresh = True\<rparr> (de_metrics d1);
          d2 = (if ApplyProfile \<in> set acts then snd (apply_profile env a d1) else d1);
          d3 = (if PerformSwitch \<in> set acts then snd (performSwitch env target a d2) else d2)
      in (r, d3\<lparr>de_metrics := metrics\<rparr>))"

definition switchCloudAccount :: "'v desk_env \<Rightarrow> string \<Rightarrow> app_target option \<Rightarrow> desk \<Rightarrow> (string + unit) \<times> desk" where
  "switchCloudAccount env i target d =
     (case prepare_switch env i d of
        (Inl m, d1) \<Rightarrow> (Inl (''Switch failed: '' @ (if m = [] then ''Unknown error'' else m)), d1)
      | (Inr a, d1) \<Rightarrow>
          (case switch_flow env target a d1 of
             (Inl m, d2) \<Rightarrow> (Inl (''Switch failed: '' @ (if m = [] then ''Unknown error'' else m)), d2)
           | (Inr _, d2) \<Rightarrow> (Inr (), d2)))"

subsection \<open>What preparing leaves alone\<close>

definition same_active :: "desk \<Rightarrow> desk \<Rightarrow> bool" where
  "same_active d d' \<longleftrightarrow> de_credential d' = de_credential d \<and> de_metrics d' = de_metrics d \<and>
     cd_settings (mg_db (de_manager d')) = cd_settings (mg_db (de_manager d)) \<and>
     map (\<lambda>r. (ar_id r, ar_isActive r)) (cd_accounts (mg_db (de_manager d'))) = map (\<lambda>r. (ar_id r, ar_isActive r)) (cd_accounts (mg_db (de_manager d)))"

lemma same_active_refl [simp]: "same_active d d"
  by (simp add: same_active_def)

lemma same_active_trans: "same_active d1 d2 \<Longrightarrow> same_active d2 d3 \<Longrightarrow> same_active d1 d3"
  by (simp add: same_active_def)

lemma same_active_disk [simp]: "same_active d (d\<lparr>de_disk := x\<rparr>)" "same_active d (d\<lparr>de_hardening := h\<rparr>)"
  by (simp_all add: same_active_def)

lemma touches_active: "touches_only i db db' \<Longrightarrow>
    map (\<lambda>r. (ar_id r, ar_isActive r)) (cd_accounts db') = map (\<lambda>r. (ar_id r, ar_isActive r)) (cd_accounts db)"
  unfolding touches_only_def
  by (intro nth_equalityI) (auto simp: list_all2_conv_all_nth kept_row_def fixed_columns_def)

lemma tends_active: "tends i (de_manager d) mg \<Longrightarrow> same_active d (d\<lparr>de_manager := mg\<rparr>)"
  using touches_active [of i "mg_db (de_manager d)" "mg_db mg"] by (simp add: tends_def same_active_def touches_only_def)

lemma binding_active: "setDeviceBinding env i p label db = (r, db') \<Longrightarrow> cd_settings db' = cd_settings db \<and>
    map (\<lambda>r. (ar_id r, ar_isActive r)) (cd_accounts db') = map (\<lambda>r. (ar_id r, ar_isActive r)) (cd_accounts db)"
  by (auto simp: setDeviceBinding_def write_binding_def update_where_def split: option.splits sum.splits if_splits)

lemma project_tends: "ensureEnterpriseProjectReady env a mg = (r, mg') \<Longrightarrow> tends (sa_id a) mg mg' \<and> (\<forall>a'. r = Inr a' \<longrightarrow> sa_id a' = sa_id a)"
proof -
  assume e: "ensureEnterpriseProjectReady env a mg = (r, mg')"
  let ?call = "on_net (fetchProjectId (me_net env) (me_google env) (token_str (sa_token a) ''access_token'') (sa_proxy_url a)) mg"
  obtain x mg1 where x: "?call = (x, mg1)" by fastforce
  have one: "tends (sa_id a) mg mg1"
    using x by (auto simp: on_net_def tends_def fetchProjectId_def apfst_def map_prod_def adds_def dest!: fetchProjectContext_adds split: prod.splits)
  have two: "tends (sa_id a) mg mg2" if "on_store (updateToken (me_repo env) (sa_id a) t) mg1 = (y, mg2)" for t y mg2
    by (rule tends_trans [OF one store_tends [OF updateToken_touches that]])
  show ?thesis
    using e x one two unfolding ensureEnterpriseProjectReady_def Let_def
    by (auto split: if_splits sum.splits option.splits prod.splits)
qed

lemma refresh_before_tends: "refresh_before_switch env a mg = (r, mg') \<Longrightarrow> tends (sa_id a) mg mg' \<and> (\<forall>a'. r = Inr a' \<longrightarrow> sa_id a' = sa_id a)"
proof -
  assume e: "refresh_before_switch env a mg = (r, mg')"
  obtain x a1 mg1 where x: "store_refreshed env a mg = (x, a1, mg1)" by (metis prod_cases3)
  note one = store_refreshed_minds [OF x]
  have two: "tends (sa_id a) mg (snd (markAccountStatusFromError m a mg1))" for m
  proof -
    obtain b mg2 where b: "markAccountStatusFromError m a mg1 = (b, mg2)" by fastforce
    from one mark_minds [OF b] b show ?thesis by (auto simp: minds_def intro: tends_trans)
  qed
  show ?thesis using e x one two by (auto simp: refresh_before_switch_def minds_def split: if_splits option.splits)
qed

lemma set_up_active: "set_up_profile env a d = (r, d') \<Longrightarrow> same_active d d' \<and> (\<forall>a'. r = Inr a' \<longrightarrow> sa_id a' = sa_id a)"
  by (auto simp: set_up_profile_def Let_def on_store_def same_active_def dest: binding_active split: if_splits sum.splits prod.splits)

lemma prepare_active:
  assumes "prepare_switch env i d = (r, d')"
  shows "same_active d d'" "r = Inr a \<Longrightarrow> sa_id a = i"
proof -
  obtain x mg1 where x: "on_store (getAccount (me_repo (se_manager env)) i) (de_manager d) = (x, mg1)" by fastforce
  let ?d1 = "d\<lparr>de_manager := mg1\<rparr>"
  have one: "same_active d ?d1" by (rule tends_active [OF store_tends [OF getAccount_touches x]])
  have all: "same_active d d' \<and> (r = Inr a \<longrightarrow> sa_id a = i)" if b: "x = Inr (Some b)" for b
  proof -
    obtain g db where g: "getAccount (me_repo (se_manager env)) i (mg_db (de_manager d)) = (g, db)" by fastforce
    have i: "sa_id b = i" using x b g by (cases g) (auto simp: on_store_def dest: getAccount_id)
    obtain y d2 where y: "set_up_profile env b ?d1 = (y, d2)" by fastforce
    have two: "same_active d d2" using same_active_trans [OF one] set_up_active [OF y] by blast
    show ?thesis
    proof (cases y)
      case (Inl m)
      have "(Inl m, d2) = (r, d')" using assms by (simp add: prepare_switch_def on_manager_def x b y Inl)
      with two show ?thesis by auto
    next
      case (Inr a2)
      obtain z mg3 where z: "refresh_before_switch (se_manager env) a2 (de_manager d2) = (z, mg3)" by fastforce
      let ?d3 = "d2\<lparr>de_manager := mg3\<rparr>"
      have three: "same_active d ?d3" using refresh_before_tends [OF z] same_active_trans [OF two tends_active] by blast
      show ?thesis
      proof (cases z)
        case (Inl m)
        have "(Inl m, ?d3) = (r, d')" using assms by (simp add: prepare_switch_def on_manager_def x b y Inr z Inl)
        with three show ?thesis by auto
      next
        case a3: (Inr a3)
        obtain p mg4 where p: "ensureEnterpriseProjectReady (se_manager env) a3 mg3 = (p, mg4)" by fastforce
        have "same_active d (?d3\<lparr>de_manager := mg4\<rparr>)"
          using project_tends [OF p] same_active_trans [OF three tends_active [of "sa_id a3" ?d3 mg4]] by simp
        moreover have "(p, ?d3\<lparr>de_manager := mg4\<rparr>) = (r, d')"
          using assms by (simp add: prepare_switch_def on_manager_def x b y Inr z a3 p)
        moreover have "sa_id a3 = i" using refresh_before_tends [OF z] set_up_active [OF y] Inr a3 i by simp
        ultimately show ?thesis using project_tends [OF p] by auto
      qed
    qed
  qed
  have none: "same_active d d' \<and> (r = Inr a \<longrightarrow> sa_id a = i)" if "x = Inl m \<or> x = Inr None" for m
  proof -
    have "\<exists>e. (Inl e, ?d1) = (r, d')" using assms that by (auto simp: prepare_switch_def on_manager_def x)
    with one show ?thesis by auto
  qed
  have "same_active d d' \<and> (r = Inr a \<longrightarrow> sa_id a = i)"
  proof (cases x)
    case (Inr y)
    with all none show ?thesis by (cases y) blast+
  qed (use none in blast)
  then show "same_active d d'" "r = Inr a \<Longrightarrow> sa_id a = i" by blast+
qed

subsection \<open>The flow\<close>

lemma cloud_flow:
  assumes "executeSwitchFlow now outcome \<lparr>fo_scope = CloudScope, fo_has_profile = hp, fo_applyFingerprint = ap, fo_skipRefresh = True\<rparr> ms = (r, acts, ms')"
  shows "ApplyProfile \<in> set acts \<longleftrightarrow> outcome CloseApp = None \<and> ap \<and> hp"
    "PerformSwitch \<in> set acts \<longleftrightarrow> outcome CloseApp = None \<and> (ap \<longrightarrow> hp \<and> outcome ApplyProfile = None)"
    "isl r \<longleftrightarrow> \<not> (PerformSwitch \<in> set acts \<and> outcome PerformSwitch = None \<and> outcome StartApp = None)"
    "\<not> isl r \<Longrightarrow> ms' = recordSwitchSuccess CloudScope ms"
  using assms
  by (cases "outcome CloseApp"; cases "outcome WaitExit"; cases "outcome ApplyProfile"; cases "outcome PerformSwitch"; cases "outcome StartApp";
      auto simp: executeSwitchFlow_def flow_plan_def split: if_splits)+

lemma apply_active [simp]: "same_active d (snd (apply_profile env a d))" "de_manager (snd (apply_profile env a d)) = de_manager d"
  "de_metrics (snd (apply_profile env a d)) = de_metrics d" "de_credential (snd (apply_profile env a d)) = de_credential d"
  by (simp_all add: apply_profile_def same_active_def split: option.split prod.split)

lemma inject_manager: "injectCloudTokenWithStorageStrategy env t a d = (r, d') \<Longrightarrow>
    de_manager d' = de_manager d \<and> de_metrics d' = de_metrics d \<and> (r \<noteq> None \<longrightarrow> d' = d)"
  by (auto simp: injectCloudTokenWithStorageStrategy_def split: if_splits option.splits sum.splits)

lemma marks_done: "mark_switched fault env t a mg = (None, mg') \<Longrightarrow>
    mg' = snd (clearAccountStatus a (store_do (setActiveForTarget t (sa_id a)) (store_do (setActive (sa_id a))
      (store_do (updateLastUsed env (sa_id a)) mg))))"
  by (auto simp: mark_switched_def split: option.splits)

text \<open>How far the marking of \<open>i\<close> has come: not to the activity, to the activity of the rows, or also to the setting of the application.\<close>

definition same_marks :: "account_manager \<Rightarrow> account_manager \<Rightarrow> bool" where
  "same_marks mg mg' \<longleftrightarrow> map (\<lambda>r. (ar_id r, ar_isActive r)) (cd_accounts (mg_db mg')) = map (\<lambda>r. (ar_id r, ar_isActive r)) (cd_accounts (mg_db mg))"

definition only_active :: "string \<Rightarrow> account_manager \<Rightarrow> account_manager \<Rightarrow> bool" where
  "only_active i mg mg' \<longleftrightarrow> map (\<lambda>r. (ar_id r, ar_isActive r)) (cd_accounts (mg_db mg')) =
     map (\<lambda>r. (ar_id r, ar_id r = i)) (cd_accounts (mg_db mg))"

definition marked_so_far :: "app_target option \<Rightarrow> string \<Rightarrow> account_manager \<Rightarrow> account_manager \<Rightarrow> bool" where
  "marked_so_far t i mg mg' \<longleftrightarrow>
     (same_marks mg mg' \<and> cd_settings (mg_db mg') = cd_settings (mg_db mg)) \<or>
     (only_active i mg mg' \<and> (cd_settings (mg_db mg') = cd_settings (mg_db mg) \<or>
        cd_settings (mg_db mg') = cd_settings (setActiveForTarget t i (mg_db mg))))"

lemma mark_effects:
  "same_marks mg (store_do (updateLastUsed env i) mg)"
  "cd_settings (mg_db (store_do (updateLastUsed env i) mg)) = cd_settings (mg_db mg)"
  "only_active i mg (store_do (setActive i) mg)" "cd_settings (mg_db (store_do (setActive i) mg)) = cd_settings (mg_db mg)"
  "same_marks mg (store_do (setActiveForTarget t i) mg)"
  "same_marks mg (snd (clearAccountStatus a mg))" "cd_settings (mg_db (snd (clearAccountStatus a mg))) = cd_settings (mg_db mg)"
  by (simp_all add: same_marks_def only_active_def store_do_def updateLastUsed_def setActive_def setActiveForTarget_def setSetting_def
      clearAccountStatus_def setAccountStatus_def update_where_def deactivate_all_def comp_def cong: if_cong)

lemma marks_chain:
  "same_marks mg mg1 \<Longrightarrow> same_marks mg1 mg2 \<Longrightarrow> same_marks mg mg2"
  "same_marks mg mg1 \<Longrightarrow> only_active i mg1 mg2 \<Longrightarrow> only_active i mg mg2"
  "only_active i mg mg1 \<Longrightarrow> same_marks mg1 mg2 \<Longrightarrow> only_active i mg mg2"
proof -
  have ids: "map (\<lambda>r. (ar_id r, ar_id r = i)) rows = map (\<lambda>(k, _). (k, k = i)) (map (\<lambda>r. (ar_id r, ar_isActive r)) rows)" for rows
    by simp
  show "same_marks mg mg1 \<Longrightarrow> same_marks mg1 mg2 \<Longrightarrow> same_marks mg mg2" by (simp add: same_marks_def)
  show "same_marks mg mg1 \<Longrightarrow> only_active i mg1 mg2 \<Longrightarrow> only_active i mg mg2" unfolding same_marks_def only_active_def ids by simp
  show "only_active i mg mg1 \<Longrightarrow> same_marks mg1 mg2 \<Longrightarrow> only_active i mg mg2" by (simp add: same_marks_def only_active_def)
qed

lemma mark_settings: "cd_settings (mg_db mg1) = cd_settings (mg_db mg) \<Longrightarrow>
    cd_settings (mg_db (store_do (setActiveForTarget t i) mg1)) = cd_settings (setActiveForTarget t i (mg_db mg))"
  by (simp add: store_do_def setActiveForTarget_def setSetting_def)

lemma marking_stops:
  assumes "mark_switched fault env t a mg = (r, mg')"
  shows "marked_so_far t (sa_id a) mg mg'" "r = Some m \<Longrightarrow> \<exists>step. fault step = Some m"
proof -
  let ?i = "sa_id a"
  let ?mg1 = "store_do (updateLastUsed env ?i) mg"
  let ?mg2 = "store_do (setActive ?i) ?mg1"
  let ?mg3 = "store_do (setActiveForTarget t ?i) ?mg2"
  let ?mg4 = "snd (clearAccountStatus a ?mg3)"
  have one: "same_marks mg ?mg1" "cd_settings (mg_db ?mg1) = cd_settings (mg_db mg)" by (rule mark_effects)+
  have two: "only_active ?i mg ?mg2" "cd_settings (mg_db ?mg2) = cd_settings (mg_db mg)"
    using marks_chain(2) [OF one(1) mark_effects(3)] one(2) mark_effects(4) by simp_all
  have three: "only_active ?i mg ?mg3" "cd_settings (mg_db ?mg3) = cd_settings (setActiveForTarget t ?i (mg_db mg))"
    using marks_chain(3) [OF two(1) mark_effects(5)] mark_settings [OF two(2)] by simp_all
  have four: "only_active ?i mg ?mg4" "cd_settings (mg_db ?mg4) = cd_settings (setActiveForTarget t ?i (mg_db mg))"
    using marks_chain(3) [OF three(1) mark_effects(6)] three(2) mark_effects(7) by simp_all
  have "mg' \<in> {mg, ?mg1, ?mg2, ?mg3, ?mg4}"
    using assms by (auto simp: mark_switched_def split: option.splits)
  moreover have "same_marks mg mg" by (simp add: same_marks_def)
  ultimately show "marked_so_far t ?i mg mg'" using one two three four by (auto simp: marked_so_far_def)
  show "r = Some m \<Longrightarrow> \<exists>step. fault step = Some m" using assms by (auto simp: mark_switched_def split: option.splits)
qed

text \<open>A switch that was not performed changed nothing, or its token is in place and the marking failed.\<close>

lemma perform_failed:
  assumes "performSwitch env t a d = (Some m, d')"
  shows "d' = d \<or> (\<exists>d1. injectCloudTokenWithStorageStrategy env t a d = (None, d1) \<and> de_manager d1 = de_manager d \<and>
    (\<exists>step. se_mark_fault env step = Some m) \<and> d' = d1\<lparr>de_manager := de_manager d'\<rparr> \<and>
    marked_so_far t (sa_id a) (de_manager d) (de_manager d'))"
proof -
  obtain x d1 where x: "injectCloudTokenWithStorageStrategy env t a d = (x, d1)" by fastforce
  note inj = inject_manager [OF x]
  show ?thesis
  proof (cases x)
    case (Some e)
    then show ?thesis using assms x inj by (simp add: performSwitch_def)
  next
    case None
    obtain y mg where y: "mark_switched (se_mark_fault env) (me_repo (se_manager env)) t a (de_manager d1) = (y, mg)" by fastforce
    have "y = Some m" "d' = d1\<lparr>de_manager := mg\<rparr>" using assms x None y by (simp_all add: performSwitch_def on_manager_def)
    moreover have "\<exists>step. se_mark_fault env step = Some m" by (rule marking_stops(2) [OF y]) fact
    moreover have "marked_so_far t (sa_id a) (de_manager d) mg" using marking_stops(1) [OF y] inj by simp
    ultimately show ?thesis using x None inj by simp
  qed
qed

lemma perform_marks:
  assumes "performSwitch env t a d = (r, d')"
  shows "marked_so_far t (sa_id a) (de_manager d) (de_manager d')"
proof -
  obtain x d1 where x: "injectCloudTokenWithStorageStrategy env t a d = (x, d1)" by fastforce
  obtain y mg where y: "mark_switched (se_mark_fault env) (me_repo (se_manager env)) t a (de_manager d) = (y, mg)" by fastforce
  have "marked_so_far t (sa_id a) (de_manager d) (de_manager d)" by (simp add: marked_so_far_def same_marks_def)
  with assms x y inject_manager [OF x] marking_stops(1) [OF y] show ?thesis
    by (cases x) (auto simp: performSwitch_def on_manager_def)
qed

lemma perform_metrics: "performSwitch env t a d = (r, d') \<Longrightarrow> de_metrics d' = de_metrics d"
  using inject_manager [of env t a d] by (auto simp: performSwitch_def on_manager_def split: prod.splits option.splits)

lemma find_map_same: "(\<And>r. P (f r) = P r) \<Longrightarrow> find P (map f rows) = map_option f (find P rows)"
  by (induction rows) auto

lemma select_inactive [simp]: "select_row i (db\<lparr>cd_accounts := deactivate_all rows\<rparr>) =
    map_option (\<lambda>r. r\<lparr>ar_isActive := False\<rparr>) (find (\<lambda>r. ar_id r = i) rows)"
  by (simp add: select_row_def deactivate_all_def find_map_same)

lemma performed:
  assumes "performSwitch env t a d = (None, d')" "select_row (sa_id a) (mg_db (de_manager d)) = Some row"
  shows "\<forall>r\<in>set (cd_accounts (mg_db (de_manager d'))). ar_isActive r \<longleftrightarrow> ar_id r = sa_id a"
    "\<exists>row'. select_row (sa_id a) (mg_db (de_manager d')) = Some row' \<and> ar_status row' = Some ''active'' \<and> ar_isActive row'"
    "map_of (cd_settings (mg_db (de_manager d'))) (active_setting t) = Some (json_stringify (JStr (sa_id a)))"
proof -
  obtain x d1 where x: "injectCloudTokenWithStorageStrategy env t a d = (x, d1)" by fastforce
  let ?mg = "snd (clearAccountStatus a (store_do (setActiveForTarget t (sa_id a)) (store_do (setActive (sa_id a))
      (store_do (updateLastUsed (me_repo (se_manager env)) (sa_id a)) (de_manager d)))))"
  have db: "de_manager d' = ?mg"
    using assms(1) x inject_manager [OF x]
    by (auto simp: performSwitch_def on_manager_def dest!: marks_done split: option.splits prod.splits)
  show "\<forall>r\<in>set (cd_accounts (mg_db (de_manager d'))). ar_isActive r \<longleftrightarrow> ar_id r = sa_id a"
    unfolding db by (auto simp: clearAccountStatus_def store_do_def setActiveForTarget_def setSetting_def setActive_def
        setAccountStatus_def updateLastUsed_def update_where_def deactivate_all_def)
  show "map_of (cd_settings (mg_db (de_manager d'))) (active_setting t) = Some (json_stringify (JStr (sa_id a)))"
    unfolding db by (simp add: clearAccountStatus_def store_do_def setActiveForTarget_def setSetting_def setAccountStatus_def
        update_where_def update_conv')
  have sel: "find (\<lambda>r. ar_id r = sa_id a) (cd_accounts (updateLastUsed e (sa_id a) (mg_db (de_manager d)))) \<noteq> None" for e
    using assms(2) select_update [of "\<lambda>r. r\<lparr>ar_lastUsed := of_int \<lfloor>re_now e / 1000\<rfloor>\<rparr>" "sa_id a" "sa_id a" "mg_db (de_manager d)"]
    by (simp add: select_row_def updateLastUsed_def)
  then obtain y where "find (\<lambda>r. ar_id r = sa_id a) (cd_accounts (updateLastUsed (me_repo (se_manager env)) (sa_id a) (mg_db (de_manager d)))) = Some y"
    by blast
  then show "\<exists>row'. select_row (sa_id a) (mg_db (de_manager d')) = Some row' \<and> ar_status row' = Some ''active'' \<and> ar_isActive row'"
    unfolding db by (simp add: clearAccountStatus_def store_do_def setActiveForTarget_def setSetting_def setActive_def
        setAccountStatus_def select_update)
qed

definition bearer_of :: "'v desk_env \<Rightarrow> app_target option \<Rightarrow> stored_account \<Rightarrow> desk \<Rightarrow> bool" where
  "bearer_of env t a d \<longleftrightarrow>
     (if shouldInjectTokenIntoCredentialStore (se_semver env) (se_version env) t then de_credential d = Some (sa_token a)
      else (\<exists>tbl out. injectWithRetry (se_semver env) (se_version env) (se_ide_faults env) a tbl = Inr out \<and>
              dk_state (de_disk d) = Some (snd out)))"

lemma bearer_simps [simp]: "bearer_of env t a (d\<lparr>de_metrics := m\<rparr>) = bearer_of env t a d" "bearer_of env t a (d\<lparr>de_manager := mg\<rparr>) = bearer_of env t a d"
  by (simp_all add: bearer_of_def)

lemma inject_bearer:
  assumes "injectCloudTokenWithStorageStrategy env t a d = (None, d')"
  shows "bearer_of env t a d'"
proof (cases "shouldInjectTokenIntoCredentialStore (se_semver env) (se_version env) t")
  case True
  with assms show ?thesis by (auto simp: injectCloudTokenWithStorageStrategy_def bearer_of_def split: option.splits)
next
  case False
  with assms obtain p tbl' where r: "injectCloudToken (se_semver env) (se_version env) (se_ide_faults env) a [(''state.vscdb'', dk_state (de_disk d))] = Inr (p, tbl')"
    and d: "dk_state (de_disk d') = Some tbl'"
    by (auto simp: injectCloudTokenWithStorageStrategy_def split: sum.splits)
  from r obtain tbl how where "injectWithRetry (se_semver env) (se_version env) (se_ide_faults env) a tbl = Inr (how, tbl')"
    by (auto simp: injectCloudToken_def split: option.splits sum.splits if_splits)
  with False d show ?thesis unfolding bearer_of_def by (simp del: split_paired_Ex) (metis snd_conv)
qed

lemma perform_bearer: "performSwitch env t a d = (None, d') \<Longrightarrow> bearer_of env t a d'"
  by (auto simp: performSwitch_def on_manager_def dest!: inject_bearer split: prod.splits option.splits)

definition injected :: "'v desk_env \<Rightarrow> app_target option \<Rightarrow> stored_account \<Rightarrow> desk \<Rightarrow> desk \<Rightarrow> bool" where
  "injected env t a d d' \<longleftrightarrow> ((\<exists>step. se_mark_fault env step \<noteq> None) \<or> se_process env StartApp \<noteq> None) \<and>
     bearer_of env t a d' \<and> marked_so_far t (sa_id a) (de_manager d) (de_manager d')"

text \<open>What a flow leaves, in the two ways it can end.\<close>

lemma switch_flow_cases:
  assumes "switch_flow env t a d = (r, d')"
  shows "r = Inr u \<Longrightarrow> \<exists>d1. performSwitch env t a d1 = (None, d'\<lparr>de_metrics := de_metrics d\<rparr>) \<and> same_active d d1 \<and>
      de_manager d1 = de_manager d \<and> de_metrics d' = recordSwitchSuccess CloudScope (de_metrics d)"
    "r = Inl m \<Longrightarrow> same_active d (d'\<lparr>de_metrics := de_metrics d\<rparr>) \<or> injected env t a d d'"
proof -
  let ?now = "re_now (me_repo (se_manager env))"
  obtain applied h where h: "isIdentityProfileApplyEnabled (se_apply_enabled env) (se_fingerprint_enabled env) ?now (de_hardening d) = (applied, h)"
    by fastforce
  let ?d1 = "d\<lparr>de_hardening := h\<rparr>"
  let ?out = "switch_outcome env t a applied ?d1"
  obtain r' acts ms where e: "executeSwitchFlow ?now ?out
      \<lparr>fo_scope = CloudScope, fo_has_profile = (sa_device_profile a \<noteq> None), fo_applyFingerprint = applied, fo_skipRefresh = True\<rparr> (de_metrics ?d1) = (r', acts, ms)"
    by (metis prod_cases3)
  define d2 where "d2 = (if ApplyProfile \<in> set acts then snd (apply_profile env a ?d1) else ?d1)"
  define d3 where "d3 = (if PerformSwitch \<in> set acts then snd (performSwitch env t a d2) else d2)"
  note flow = cloud_flow [OF e]
  have "switch_flow env t a d = (r', d3\<lparr>de_metrics := ms\<rparr>)"
    unfolding switch_flow_def Let_def h prod.case e d3_def d2_def ..
  with assms(1) have d': "r = r'" "d' = d3\<lparr>de_metrics := ms\<rparr>" by auto
  have two: "same_active d d2" "de_manager d2 = de_manager d" "de_metrics d2 = de_metrics d"
    unfolding d2_def by (auto simp: same_active_def)
  obtain x y where p: "performSwitch env t a d2 = (x, y)" by fastforce
  have out: "?out PerformSwitch = x" if "PerformSwitch \<in> set acts"
  proof -
    have "ApplyProfile \<in> set acts \<longleftrightarrow> applied" using that flow(1,2) by blast
    then have "?out PerformSwitch = fst (performSwitch env t a d2)" by (simp add: switch_outcome_def d2_def)
    with p show ?thesis by simp
  qed
  show "\<exists>d1. performSwitch env t a d1 = (None, d'\<lparr>de_metrics := de_metrics d\<rparr>) \<and> same_active d d1 \<and>
      de_manager d1 = de_manager d \<and> de_metrics d' = recordSwitchSuccess CloudScope (de_metrics d)" if "r = Inr u"
  proof -
    have acts: "PerformSwitch \<in> set acts" "?out PerformSwitch = None" using flow(3) that d'(1) by auto
    have ms: "ms = recordSwitchSuccess CloudScope (de_metrics d)" using flow(4) that d'(1) by simp
    have y: "x = None" "d3 = y" "de_metrics y = de_metrics d"
      using out [OF acts(1)] acts p perform_metrics [OF p] two(3) by (simp_all add: d3_def)
    then have "d'\<lparr>de_metrics := de_metrics d\<rparr> = y" using d'(2) by simp
    with y(1) p two ms d'(2) show ?thesis by (intro exI [of _ d2]) simp
  qed
  show "same_active d (d'\<lparr>de_metrics := de_metrics d\<rparr>) \<or> injected env t a d d'" if r: "r = Inl m"
  proof (cases "d3 = d2")
    case True
    with d'(2) two show ?thesis by (simp add: same_active_def)
  next
    case False
    then have acts: "PerformSwitch \<in> set acts" and y: "d3 = y" "y \<noteq> d2" using p by (auto simp: d3_def split: if_splits)
    note x = out [OF acts]
    have b: "bearer_of env t a d' = bearer_of env t a y" "de_manager d' = de_manager y" using d'(2) y(1) by simp_all
    show ?thesis
    proof (cases x)
      case None
      have "isl r'" using r d'(1) by simp
      with flow(3) acts x None have "?out StartApp \<noteq> None" by simp
      then have "se_process env StartApp \<noteq> None" by (simp add: switch_outcome_def)
      moreover have "bearer_of env t a y" by (rule perform_bearer) (use p None in simp)
      moreover have "marked_so_far t (sa_id a) (de_manager d2) (de_manager y)" by (rule perform_marks [OF p])
      ultimately show ?thesis unfolding injected_def b two(2) by simp
    next
      case (Some e)
      with perform_failed [OF p [unfolded Some]] y(2) obtain d4 where "injectCloudTokenWithStorageStrategy env t a d2 = (None, d4)"
        "\<exists>step. se_mark_fault env step = Some e" "y = d4\<lparr>de_manager := de_manager y\<rparr>" "marked_so_far t (sa_id a) (de_manager d2) (de_manager y)"
        by blast
      moreover from this have "bearer_of env t a y" by (metis inject_bearer bearer_simps(2))
      ultimately show ?thesis unfolding injected_def b two(2) by auto
    qed
  qed
qed

lemma present_iff: "present i mg \<longleftrightarrow> i \<in> set (map ar_id (cd_accounts (mg_db mg)))"
  by (auto simp: present_def select_row_def find_None_iff)

lemma same_active_present: "same_active d d' \<Longrightarrow> present i (de_manager d') \<longleftrightarrow> present i (de_manager d)"
proof -
  assume s: "same_active d d'"
  have ids: "map ar_id rows = map fst (map (\<lambda>r. (ar_id r, ar_isActive r)) rows)" for rows :: "account_row list" by simp
  show ?thesis using s unfolding present_iff ids same_active_def by metis
qed

lemma prepared_present: "prepare_switch env i d = (Inr a, d1) \<Longrightarrow> present i (de_manager d1)"
proof -
  assume p: "prepare_switch env i d = (Inr a, d1)"
  have "select_row i (mg_db (de_manager d)) \<noteq> None"
  proof
    assume "select_row i (mg_db (de_manager d)) = None"
    with p show False by (simp add: prepare_switch_def on_manager_def on_store_def getAccount_def)
  qed
  then have "present i (de_manager d)" by (simp add: present_def)
  with same_active_present [OF prepare_active(1) [OF p]] show ?thesis by blast
qed

lemma switch_effect:
  assumes "switchCloudAccount env i t d = (Inr (), d')"
  shows "getActiveAccountIdForTarget t (mg_db (de_manager d')) = JStr i"
    "\<forall>r\<in>set (cd_accounts (mg_db (de_manager d'))). ar_isActive r \<longleftrightarrow> ar_id r = i"
    "\<exists>row. select_row i (mg_db (de_manager d')) = Some row \<and> ar_status row = Some ''active'' \<and> ar_isActive row"
    "\<exists>a d1. prepare_switch env i d = (Inr a, d1) \<and> sa_id a = i \<and> bearer_of env t a d'"
    "de_metrics d' = recordSwitchSuccess CloudScope (de_metrics d)"
proof -
  obtain a d1 where a: "prepare_switch env i d = (Inr a, d1)" "switch_flow env t a d1 = (Inr (), d')"
    using assms by (auto simp: switchCloudAccount_def split: prod.splits sum.splits if_splits)
  note prep = prepare_active [OF a(1)]
  from prep(2) have i: "sa_id a = i" by simp
  from switch_flow_cases(1) [OF a(2) refl] obtain d2 where d2: "performSwitch env t a d2 = (None, d'\<lparr>de_metrics := de_metrics d1\<rparr>)"
    "de_manager d2 = de_manager d1" "de_metrics d' = recordSwitchSuccess CloudScope (de_metrics d1)" by blast
  from prepared_present [OF a(1)] obtain row where "select_row (sa_id a) (mg_db (de_manager d2)) = Some row"
    using d2(2) i by (auto simp: present_def)
  note p = performed [OF d2(1) this, unfolded i]
  show "getActiveAccountIdForTarget t (mg_db (de_manager d')) = JStr i"
    using p(3) json_parse_stringify [of "JStr i"] by (simp add: getActiveAccountIdForTarget_def getSetting_def)
  show "\<forall>r\<in>set (cd_accounts (mg_db (de_manager d'))). ar_isActive r \<longleftrightarrow> ar_id r = i"
    "\<exists>row. select_row i (mg_db (de_manager d')) = Some row \<and> ar_status row = Some ''active'' \<and> ar_isActive row"
    using p(1,2) by simp_all
  have "bearer_of env t a d'" using perform_bearer [OF d2(1)] by simp
  with a(1) i show "\<exists>a d1. prepare_switch env i d = (Inr a, d1) \<and> sa_id a = i \<and> bearer_of env t a d'" by blast
  show "de_metrics d' = recordSwitchSuccess CloudScope (de_metrics d)" using d2(3) prep(1) by (simp add: same_active_def)
qed

text \<open>C8: After a successful switch the account is the active one of the application and the only account marked active, its
  status is active, the editor or the credential store of the system has the token of the prepared account, refreshed where
  it could be, and one success more is counted for the switches of stored accounts.\<close>

theorem switched_account_is_in_force:
  assumes "switchCloudAccount env i t d = (Inr (), d')"
  shows "getActiveAccountIdForTarget t (mg_db (de_manager d')) = JStr i \<and>
    (\<forall>r\<in>set (cd_accounts (mg_db (de_manager d'))). ar_isActive r \<longleftrightarrow> ar_id r = i) \<and>
    (\<exists>row. select_row i (mg_db (de_manager d')) = Some row \<and> ar_status row = Some ''active'' \<and> ar_isActive row) \<and>
    (\<exists>a d1. prepare_switch env i d = (Inr a, d1) \<and> sa_id a = i \<and> bearer_of env t a d') \<and>
    de_metrics d' = recordSwitchSuccess CloudScope (de_metrics d)"
  by (intro conjI switch_effect [OF assms])

text \<open>C29: A switch that fails never mixes accounts up. Either every account is as active or inactive as it was, with the
  settings, the active account of each application among them, and the credential store unchanged; or the token of the
  account was already in place when the database failed to mark it or the application did not start again. Then the marks of
  the accounts are the old ones or name this account alone, and the settings are the old ones or name it as the active
  account of the application, after it was marked.\<close>

theorem failed_switch_changes_no_active_account:
  assumes "switchCloudAccount env i t d = (Inl m, d')"
  shows "(map (\<lambda>r. (ar_id r, ar_isActive r)) (cd_accounts (mg_db (de_manager d'))) =
        map (\<lambda>r. (ar_id r, ar_isActive r)) (cd_accounts (mg_db (de_manager d))) \<and>
      cd_settings (mg_db (de_manager d')) = cd_settings (mg_db (de_manager d)) \<and> de_credential d' = de_credential d) \<or>
    (((\<exists>step. se_mark_fault env step \<noteq> None) \<or> se_process env StartApp \<noteq> None) \<and>
      (\<exists>a d1. prepare_switch env i d = (Inr a, d1) \<and> sa_id a = i \<and> bearer_of env t a d') \<and>
      ((map (\<lambda>r. (ar_id r, ar_isActive r)) (cd_accounts (mg_db (de_manager d'))) =
          map (\<lambda>r. (ar_id r, ar_isActive r)) (cd_accounts (mg_db (de_manager d))) \<and>
        cd_settings (mg_db (de_manager d')) = cd_settings (mg_db (de_manager d))) \<or>
       (map (\<lambda>r. (ar_id r, ar_isActive r)) (cd_accounts (mg_db (de_manager d'))) =
          map (\<lambda>r. (ar_id r, ar_id r = i)) (cd_accounts (mg_db (de_manager d))) \<and>
        cd_settings (mg_db (de_manager d')) \<in>
          {cd_settings (mg_db (de_manager d)), cd_settings (setActiveForTarget t i (mg_db (de_manager d)))})))"
proof -
  obtain r d1 where r: "prepare_switch env i d = (r, d1)" by fastforce
  note prep = prepare_active(1) [OF r]
  show ?thesis
  proof (cases r)
    case (Inl e)
    with assms r prep show ?thesis by (simp add: switchCloudAccount_def same_active_def)
  next
    case (Inr a)
    with r have a: "prepare_switch env i d = (Inr a, d1)" "sa_id a = i" using prepare_active(2) by auto
    obtain e where "switch_flow env t a d1 = (Inl e, d')"
      using assms r Inr by (auto simp: switchCloudAccount_def split: prod.splits sum.splits)
    from switch_flow_cases(2) [OF this refl] show ?thesis
    proof
      assume "same_active d1 (d'\<lparr>de_metrics := de_metrics d1\<rparr>)"
      with prep show ?thesis by (simp add: same_active_def)
    next
      assume inj: "injected env t a d1 d'"
      have s: "same_marks (de_manager d) (de_manager d1)" "cd_settings (mg_db (de_manager d1)) = cd_settings (mg_db (de_manager d))"
        using prep by (simp_all add: same_active_def same_marks_def)
      then have "cd_settings (setActiveForTarget t i (mg_db (de_manager d1))) = cd_settings (setActiveForTarget t i (mg_db (de_manager d)))"
        by (simp add: setActiveForTarget_def setSetting_def)
      with inj s a(2) have "marked_so_far t i (de_manager d) (de_manager d')"
        using marks_chain(1,2) [OF s(1)] unfolding injected_def marked_so_far_def by metis
      then show ?thesis
        using inj a unfolding injected_def marked_so_far_def same_marks_def only_active_def by blast
    qed
  qed
qed

subsection \<open>Two switches\<close>

text \<open>An account with a profile and without a refresh token, and an editor that takes its token from the credential store.\<close>

definition settled_account :: stored_account where
  "settled_account = sample_account\<lparr>sa_device_profile := Some sample_profile,
     sa_token := JObj [(''access_token'', JStr ''at''), (''refresh_token'', JStr []), (''token_type'', JStr ''Bearer''),
       (''expires_in'', JNum 3600), (''expiry_timestamp'', JNum 9000)]\<rparr>"

definition sample_desk :: "cloud_db \<Rightarrow> desk" where
  "sample_desk db = \<lparr>de_manager = \<lparr>mg_db = db, mg_sent = []\<rparr>, de_disk = sample_disk, de_hardening = new_hardening,
     de_metrics = (\<lambda>_. new_switch_metrics), de_credential = None\<rparr>"

definition sample_desk_env :: "string option \<Rightarrow> nat desk_env" where
  "sample_desk_env fails = \<lparr>se_manager = refusing_manager_env, se_disk_faults = (\<lambda>_. None), se_ide_faults = (\<lambda>_ _. None),
     se_semver = \<lparr>sv_parse = (\<lambda>_. None), sv_coerce = (\<lambda>_. None), sv_compare = (\<lambda>v w. int v - int w)\<rparr>, se_version = None, se_process = (\<lambda>_. None),
     se_write_credential = (\<lambda>_. fails), se_mark_fault = (\<lambda>_. None), se_sha256 = (\<lambda>_. []), se_random = [], se_apply_enabled = Some ''off'',
     se_fingerprint_enabled = None\<rparr>"

lemma sample_prepared:
  "\<exists>db1 d1. addAccount sample_env settled_account empty_db = (Inr (), db1) \<and>
     prepare_switch (sample_desk_env f) ''a'' (sample_desk db1) = (Inr (as_stored settled_account), d1) \<and> same_active (sample_desk db1) d1 \<and>
     de_hardening d1 = new_hardening"
proof -
  have "CloudAccountSchema settled_account" "sa_quota settled_account = None" by (simp_all add: CloudAccountSchema_def
      settled_account_def sample_account_def CloudTokenDataSchema_def object_with_def required_def optional_def)
  from add_on_empty [OF this] obtain db1 where db1: "addAccount sample_env settled_account empty_db = (Inr (), db1)"
    "map_option snd (va_cached (cd_vault db1)) = Some FromSafeStorage" by blast
  have laws: "aead_laws (re_cipher sample_env)" "platform_laws (re_platform sample_env)"
    "repo_reachable (re_cipher sample_env) (re_platform sample_env) empty_db"
    using sample_cipher_laws sample_platform_laws sample_start by (simp_all add: sample_env_def)
  have ok: "account_ok settled_account"
    by (simp add: account_ok_def settled_account_def sample_account_def map_keys_ok_def profile_ok_def sample_profile_def)
  have i: "sa_id settled_account = ''a''" by (simp add: settled_account_def sample_account_def)
  have "fst (getAccount sample_env ''a'' db1) = Inr (Some (as_stored settled_account))"
    using add_account_reads [OF laws db1(1) ok, unfolded i] db1(2) by simp
  then obtain db2 where g: "getAccount sample_env ''a'' db1 = (Inr (Some (as_stored settled_account)), db2)" by (metis prod.collapse)
  let ?a = "as_stored settled_account"
  have a: "sa_device_profile ?a = Some sample_profile" "token_str (sa_token ?a) ''refresh_token'' = []"
    "token_opt (sa_token ?a) ''oauth_client_key'' = None"
    by (simp_all add: as_stored_def settled_account_def sample_account_def token_str_def token_opt_def)
  have e: "se_manager (sample_desk_env f) = refusing_manager_env" "me_repo refusing_manager_env = sample_env"
    by (simp_all add: sample_desk_env_def refusing_manager_env_def)
  let ?mg = "\<lparr>mg_db = db2, mg_sent = []\<rparr>"
  let ?d = "(sample_desk db1)\<lparr>de_manager := ?mg, de_disk := ensureGlobalOriginalFromCurrentStorage sample_disk\<rparr>"
  have one: "on_manager (on_store (getAccount sample_env ''a'')) (sample_desk db1) = (Inr (Some ?a), (sample_desk db1)\<lparr>de_manager := ?mg\<rparr>)"
    by (simp add: on_manager_def on_store_def sample_desk_def g)
  have two: "set_up_profile (sample_desk_env f) ?a ((sample_desk db1)\<lparr>de_manager := ?mg\<rparr>) = (Inr ?a, ?d)"
    by (simp add: set_up_profile_def a sample_desk_def)
  have three: "on_manager (refresh_before_switch refusing_manager_env ?a) ?d = (Inr ?a, ?d)"
    "on_manager (ensureEnterpriseProjectReady refusing_manager_env ?a) ?d = (Inr ?a, ?d)"
    by (simp_all add: on_manager_def refresh_before_switch_def ensureEnterpriseProjectReady_def a isEnterpriseClient_def
        js_trim_def trim_left_def str_truthy_def)
  have p: "prepare_switch (sample_desk_env f) ''a'' (sample_desk db1) = (Inr ?a, ?d)"
    by (simp add: prepare_switch_def e one two three)
  with prepare_active(1) [OF p] db1(1) show ?thesis by (auto simp: sample_desk_def)
qed

lemma sample_flow:
  assumes "de_hardening d = new_hardening"
  shows "fst (switch_flow (sample_desk_env f) (Some Classic) a d) = (case f of None \<Rightarrow> Inr () | Some m \<Rightarrow> Inl m)"
proof -
  have "isIdentityProfileApplyEnabled (Some ''off'') None now new_hardening = (False, new_hardening)" for now
  proof -
    have "js_lower (js_trim ''off'') = ''off''" by code_simp
    then show ?thesis by (simp add: isIdentityProfileApplyEnabled_def str_truthy_def)
  qed
  then show ?thesis using assms
    by (cases f) (simp_all add: switch_flow_def sample_desk_env_def Let_def executeSwitchFlow_def flow_plan_def switch_outcome_def
        performSwitch_def on_manager_def mark_switched_def injectCloudTokenWithStorageStrategy_def shouldInjectTokenIntoCredentialStore_def resolveAntigravityAppTarget_def)
qed

lemma sample_switch:
  "\<exists>db1 d'. addAccount sample_env settled_account empty_db = (Inr (), db1) \<and>
     switchCloudAccount (sample_desk_env f) ''a'' (Some Classic) (sample_desk db1) =
       (case f of None \<Rightarrow> Inr () | Some m \<Rightarrow> Inl (''Switch failed: '' @ (if m = [] then ''Unknown error'' else m)), d')"
proof -
  obtain db1 d1 where d1: "addAccount sample_env settled_account empty_db = (Inr (), db1)"
    "prepare_switch (sample_desk_env f) ''a'' (sample_desk db1) = (Inr (as_stored settled_account), d1)" "de_hardening d1 = new_hardening"
    using sample_prepared by blast
  obtain r d2 where r: "switch_flow (sample_desk_env f) (Some Classic) (as_stored settled_account) d1 = (r, d2)" by fastforce
  with sample_flow [OF d1(3), of f "as_stored settled_account"] have "r = (case f of None \<Rightarrow> Inr () | Some m \<Rightarrow> Inl m)" by simp
  with d1 r show ?thesis by (cases f) (auto simp: switchCloudAccount_def)
qed

lemma switched_account_is_in_force_witness:
  "\<exists>db1 d'. addAccount sample_env settled_account empty_db = (Inr (), db1) \<and>
     switchCloudAccount (sample_desk_env None) ''a'' (Some Classic) (sample_desk db1) = (Inr (), d') \<and>
     getActiveAccountIdForTarget (Some Classic) (mg_db (de_manager d')) = JStr ''a'' \<and> switchSuccess (de_metrics d' CloudScope) = 1"
proof -
  obtain db1 d' where r: "addAccount sample_env settled_account empty_db = (Inr (), db1)"
    "switchCloudAccount (sample_desk_env None) ''a'' (Some Classic) (sample_desk db1) = (Inr (), d')"
    using sample_switch [of None] by auto
  note done_switch = switched_account_is_in_force [OF r(2)]
  then have "de_metrics d' = recordSwitchSuccess CloudScope (de_metrics (sample_desk db1))" by blast
  then have "switchSuccess (de_metrics d' CloudScope) = 1" by (simp add: recordSwitchSuccess_def sample_desk_def new_switch_metrics_def)
  with r done_switch show ?thesis by blast
qed

lemma failed_switch_changes_no_active_account_witness:
  "\<exists>db1 d'. addAccount sample_env settled_account empty_db = (Inr (), db1) \<and>
     switchCloudAccount (sample_desk_env (Some ''locked'')) ''a'' (Some Classic) (sample_desk db1) = (Inl ''Switch failed: locked'', d') \<and>
     cd_settings (mg_db (de_manager d')) = cd_settings db1 \<and> de_credential d' = None"
proof -
  obtain db1 d' where r: "addAccount sample_env settled_account empty_db = (Inr (), db1)"
    "switchCloudAccount (sample_desk_env (Some ''locked'')) ''a'' (Some Classic) (sample_desk db1) = (Inl ''Switch failed: locked'', d')"
    using sample_switch [of "Some ''locked''"] by auto
  have "se_process (sample_desk_env (Some ''locked'')) StartApp = None" "se_mark_fault (sample_desk_env (Some ''locked'')) step = None" for step
    by (simp_all add: sample_desk_env_def)
  with failed_switch_changes_no_active_account [OF r(2)] r show ?thesis by (auto simp: sample_desk_def)
qed

end
