(* ===== verification/CloudMonitor.thy ===== *)
theory CloudMonitor
  imports CloudSwitch
begin

section \<open>The background monitor and the automatic switch\<close>

text \<open>
  \<open>CloudMonitorService.ts\<close> and \<open>AutoSwitchService.ts\<close>: a poll refreshes the token and the quota of every stored account, tells of low
  quotas and switches each application away from an account that is used up. Quotas are as their schema has them, each
  model with a percentage. The pause of a second before each request has no effect and is left out.
\<close>

subsection \<open>One account\<close>

definition set_status_from_error :: "string \<Rightarrow> string \<Rightarrow> account_manager \<Rightarrow> account_manager" where
  "set_status_from_error m i mg =
     (case classifyAccountStatusFromError m of
        None \<Rightarrow> mg
      | Some (status, reason) \<Rightarrow> store_do (setAccountStatus i (Some status) (Some reason)) mg)"

text \<open>The access token to ask with, None when refreshing failed.\<close>

definition poll_token :: "manager_env \<Rightarrow> stored_account \<Rightarrow> account_manager \<Rightarrow> string option \<times> stored_account \<times> account_manager" where
  "poll_token env a mg =
     (if \<not> expires_before (seconds_now env + 600) (sa_token a) then (Some (token_str (sa_token a) ''access_token''), a, mg)
      else (case refresh_token_of env a mg of
              (Inl m, mg1) \<Rightarrow> (None, a, set_status_from_error m (sa_id a) mg1)
            | (Inr r, mg1) \<Rightarrow>
                (let a1 = a\<lparr>sa_token := monitor_mergeRefreshedToken (sa_token a) r (seconds_now env)\<rparr>
                 in (case on_store (updateToken (me_repo env) (sa_id a) (sa_token a1)) mg1 of
                       (Inl m, mg2) \<Rightarrow> (None, a1, set_status_from_error m (sa_id a) mg2)
                     | (Inr _, mg2) \<Rightarrow> (Some (token_str r ''access_token''), a1, mg2)))))"

definition poll_quota :: "manager_env \<Rightarrow> string \<Rightarrow> stored_account \<Rightarrow> account_manager \<Rightarrow> account_manager" where
  "poll_quota env accessToken a mg =
     (case quota_with_credits env accessToken (sa_proxy_url a) (jget_opt (sa_quota a) ''ai_credits'') mg of
        (Inl m, mg1) \<Rightarrow> set_status_from_error m (sa_id a) mg1
      | (Inr q, mg1) \<Rightarrow>
          (case on_store (updateQuota (me_repo env) (sa_id a) (quota_json q)) mg1 of
             (Inl m, mg2) \<Rightarrow> set_status_from_error m (sa_id a) mg2
           | (Inr _, mg2) \<Rightarrow>
               store_do (setAccountStatus (sa_id a) (Some ''active'') None) (store_do (updateLastUsed (me_repo env) (sa_id a)) mg2)))"

definition poll_account :: "manager_env \<Rightarrow> stored_account \<Rightarrow> account_manager \<Rightarrow> stored_account \<times> account_manager" where
  "poll_account env a mg =
     (case poll_token env a mg of
        (None, a1, mg1) \<Rightarrow> (a1, mg1)
      | (Some accessToken, a1, mg1) \<Rightarrow> (a1, poll_quota env accessToken a1 mg1))"

fun poll_accounts :: "manager_env \<Rightarrow> stored_account list \<Rightarrow> account_manager \<Rightarrow> stored_account list \<times> account_manager" where
  "poll_accounts env [] mg = ([], mg)"
| "poll_accounts env (a # as) mg =
     (let (a1, mg1) = poll_account env a mg; (as1, mg2) = poll_accounts env as mg1 in (a1 # as1, mg2))"

subsection \<open>Low quotas\<close>

datatype monitor_language = En | ZhCN | Ru | Vi | Fr

definition getCloudMonitorLanguage :: "json \<Rightarrow> monitor_language" where
  "getCloudMonitorLanguage language =
     (let l = (case language of JStr s \<Rightarrow> js_lower s | _ \<Rightarrow> ''en'')
      in if starts_with l ''zh'' then ZhCN else if starts_with l ''ru'' then Ru
         else if starts_with l ''vi'' then Vi else if starts_with l ''fr'' then Fr else En)"

text \<open>\<open>text.replace('models/', '')\<close>, the first one only\<close>

fun drop_models :: "string \<Rightarrow> string" where
  "drop_models [] = []"
| "drop_models (c # cs) = (if starts_with (c # cs) ''models/'' then drop 7 (c # cs) else c # drop_models cs)"

definition shown_model :: "string \<Rightarrow> json \<Rightarrow> string" where
  "shown_model name info =
     (case jget info ''display_name'' of
        Some (JStr (c # cs)) \<Rightarrow> c # cs
      | _ \<Rightarrow> map (\<lambda>c. if c = CHR ''-'' then CHR '' '' else c) (drop_models name))"

definition model_percentage :: "json \<Rightarrow> rat option" where
  "model_percentage info = (case jget info ''percentage'' of Some (JNum p) \<Rightarrow> Some p | _ \<Rightarrow> None)"

definition lowQuotaModels :: "json \<Rightarrow> stored_account \<Rightarrow> string list" where
  "lowQuotaModels threshold a =
     map (\<lambda>(name, info). shown_model name info)
       (filter (\<lambda>(name, info). (case (model_percentage info, threshold) of
            (Some p, JNum t) \<Rightarrow> p \<le> t \<and> 0 < p | _ \<Rightarrow> False)) (object_entries (jget_opt (sa_quota a) ''models'')))"

record notice =
  no_language :: monitor_language
  no_email :: string
  no_models :: "string list"

definition quota_notices :: "cloud_db \<Rightarrow> stored_account list \<Rightarrow> notice list" where
  "quota_notices db accounts =
     (if \<not> truthy (getSetting ''quota_alert_enabled'' (JBool False) db) then []
      else map (\<lambda>a. \<lparr>no_language = getCloudMonitorLanguage (getSetting ''language'' (JStr ''en'') db), no_email = sa_email a,
               no_models = lowQuotaModels (getSetting ''quota_alert_threshold'' (JNum 20) db) a\<rparr>)
             (filter (\<lambda>a. lowQuotaModels (getSetting ''quota_alert_threshold'' (JNum 20) db) a \<noteq> []) accounts))"

subsection \<open>Choosing another account\<close>

definition quota_percentages :: "stored_account \<Rightarrow> rat list" where
  "quota_percentages a = List.map_filter (\<lambda>(_, info). model_percentage info) (object_entries (jget_opt (sa_quota a) ''models''))"

definition isAccountDepleted :: "stored_account \<Rightarrow> bool" where
  "isAccountDepleted a \<longleftrightarrow> truthy_opt (sa_quota a) \<and> list_ex (\<lambda>p. p < 5) (quota_percentages a)"

definition calculateAverageQuota :: "stored_account \<Rightarrow> rat" where
  "calculateAverageQuota a =
     (if \<not> truthy_opt (sa_quota a) \<or> quota_percentages a = [] then 0
      else sum_list (quota_percentages a) / of_nat (length (quota_percentages a)))"

definition is_candidate :: "string \<Rightarrow> stored_account \<Rightarrow> bool" where
  "is_candidate currentAccountId a \<longleftrightarrow> sa_id a \<noteq> currentAccountId \<and> sa_status a = Some ''active'' \<and> truthy_opt (sa_quota a) \<and>
     \<not> list_ex (\<lambda>p. p < 5) (quota_percentages a)"

definition best_account :: "string \<Rightarrow> stored_account list \<Rightarrow> stored_account option" where
  "best_account currentAccountId accounts =
     (case sort_key (\<lambda>a. - calculateAverageQuota a) (filter (is_candidate currentAccountId) accounts) of
        [] \<Rightarrow> None
      | a # _ \<Rightarrow> Some a)"

definition all_accounts :: "'v desk_env \<Rightarrow> desk \<Rightarrow> (string + stored_account list) \<times> desk" where
  "all_accounts env = on_manager (on_store (getAccounts (me_repo (se_manager env))))"

definition findBestAccount :: "'v desk_env \<Rightarrow> string \<Rightarrow> desk \<Rightarrow> (string + stored_account option) \<times> desk" where
  "findBestAccount env currentAccountId d =
     (case all_accounts env d of
        (Inl m, d1) \<Rightarrow> (Inl m, d1)
      | (Inr accounts, d1) \<Rightarrow> (Inr (best_account currentAccountId accounts), d1))"

definition current_account :: "app_target option \<Rightarrow> cloud_db \<Rightarrow> stored_account list \<Rightarrow> stored_account option" where
  "current_account target db accounts =
     (let v = getActiveAccountIdForTarget target db
      in if truthy v then find (\<lambda>a. JStr (sa_id a) = v) accounts else find sa_is_active accounts)"

definition must_leave :: "stored_account \<Rightarrow> bool" where
  "must_leave a \<longleftrightarrow> isAccountDepleted a \<or> sa_status a = Some ''rate_limited''"

definition checkAndSwitchIfNeeded :: "'v desk_env \<Rightarrow> app_target option \<Rightarrow> desk \<Rightarrow> (string + bool) \<times> desk" where
  "checkAndSwitchIfNeeded env target d =
     (if \<not> truthy (getSetting ''auto_switch_enabled'' (JBool False) (mg_db (de_manager d))) then (Inr False, d)
      else (case all_accounts env d of
              (Inl m, d1) \<Rightarrow> (Inl m, d1)
            | (Inr accounts, d1) \<Rightarrow>
                (case current_account target (mg_db (de_manager d1)) accounts of
                   None \<Rightarrow> (Inr False, d1)
                 | Some current \<Rightarrow>
                     if \<not> must_leave current then (Inr False, d1)
                     else (case findBestAccount env (sa_id current) d1 of
                             (Inl m, d2) \<Rightarrow> (Inl m, d2)
                           | (Inr None, d2) \<Rightarrow> (Inr False, d2)
                           | (Inr (Some best), d2) \<Rightarrow>
                               (case switchCloudAccount env (sa_id best) target d2 of
                                  (Inl m, d3) \<Rightarrow> (Inl m, d3)
                                | (Inr _, d3) \<Rightarrow> (Inr True, d3))))))"

subsection \<open>A poll\<close>

definition monitor_poll :: "'v desk_env \<Rightarrow> desk \<Rightarrow> (string + unit) \<times> notice list \<times> desk" where
  "monitor_poll env d =
     (case all_accounts env d of
        (Inl m, d1) \<Rightarrow> (Inl m, [], d1)
      | (Inr accounts, d1) \<Rightarrow>
          (case on_manager (poll_accounts (se_manager env) accounts) d1 of
             (polled, d2) \<Rightarrow>
               (case checkAndSwitchIfNeeded env (Some Classic) d2 of
                  (Inl m, d3) \<Rightarrow> (Inl m, quota_notices (mg_db (de_manager d2)) polled, d3)
                | (Inr _, d3) \<Rightarrow>
                    (case checkAndSwitchIfNeeded env (Some Ide) d3 of
                       (r, d4) \<Rightarrow> (map_sum id (\<lambda>_. ()) r, quota_notices (mg_db (de_manager d2)) polled, d4)))))"

subsection \<open>When polls begin\<close>

text \<open>\<open>mo_interval\<close>: the timer runs. An event tells whether a poll begins; a poll runs until it ends.\<close>

record monitor =
  mo_interval :: bool
  mo_lastFocusTime :: rat
  mo_isPolling :: bool

definition new_monitor :: monitor where
  "new_monitor = \<lparr>mo_interval = False, mo_lastFocusTime = 0, mo_isPolling = False\<rparr>"

definition DEBOUNCE_TIME :: rat where "DEBOUNCE_TIME = 10000"

datatype monitor_event = StartMonitor rat | StopMonitor | AppFocus rat | IntervalTick | PollEnds

definition begin_poll :: "monitor \<Rightarrow> bool \<times> monitor" where
  "begin_poll s = (if mo_isPolling s then (False, s) else (True, s\<lparr>mo_isPolling := True\<rparr>))"

fun monitor_step :: "monitor_event \<Rightarrow> monitor \<Rightarrow> bool \<times> monitor" where
  "monitor_step (StartMonitor now) s =
     (if mo_interval s then (False, s)
      else (let (began, s1) = begin_poll (s\<lparr>mo_lastFocusTime := now\<rparr>) in (began, s1\<lparr>mo_interval := True\<rparr>)))"
| "monitor_step StopMonitor s = (False, s\<lparr>mo_interval := False\<rparr>)"
| "monitor_step (AppFocus now) s =
     (if mo_isPolling s \<or> now - mo_lastFocusTime s < DEBOUNCE_TIME then (False, s)
      else begin_poll (s\<lparr>mo_lastFocusTime := now\<rparr>))"
| "monitor_step IntervalTick s = (if mo_interval s then begin_poll s else (False, s))"
| "monitor_step PollEnds s = (False, s\<lparr>mo_isPolling := False\<rparr>)"

subsection \<open>What a poll leaves alone\<close>

definition all_kept :: "cloud_db \<Rightarrow> cloud_db \<Rightarrow> bool" where
  "all_kept db db' \<longleftrightarrow> cd_settings db' = cd_settings db \<and> list_all2 kept_row (cd_accounts db) (cd_accounts db')"

lemma all_kept_refl [simp]: "all_kept db db"
  by (simp add: all_kept_def list_all2_refl)

lemma kept_row_trans: "kept_row a b \<Longrightarrow> kept_row b c \<Longrightarrow> kept_row a c"
  by (auto simp: kept_row_def)

lemma all_kept_trans: "all_kept d1 d2 \<Longrightarrow> all_kept d2 d3 \<Longrightarrow> all_kept d1 d3"
proof -
  assume a: "all_kept d1 d2" "all_kept d2 d3"
  have "kept_row (cd_accounts d1 ! n) (cd_accounts d3 ! n)" if "n < length (cd_accounts d1)" for n
    by (rule kept_row_trans [of _ "cd_accounts d2 ! n"]) (use a that in \<open>simp_all add: all_kept_def list_all2_conv_all_nth\<close>)
  with a show ?thesis by (simp add: all_kept_def list_all2_conv_all_nth)
qed

lemma touches_kept: "touches_only i db db' \<Longrightarrow> all_kept db db'"
  unfolding touches_only_def all_kept_def by (auto simp: list_all2_conv_all_nth)

lemma set_status_tends: "tends i mg (set_status_from_error m i mg)"
  by (auto simp: set_status_from_error_def intro: do_tends split: option.split)

lemma poll_token_minds:
  assumes "poll_token env a mg = (r, a', mg')"
  shows "minds a mg a' mg'" "sa_quota a' = sa_quota a"
proof -
  obtain x mg1 where x: "refresh_token_of env a mg = (x, mg1)" by fastforce
  note one = refresh_token_tends [OF x, of "sa_id a"]
  have marked: "tends (sa_id a) mg (set_status_from_error m (sa_id a) mg2)" if "tends (sa_id a) mg mg2" for m mg2
    using tends_trans [OF that set_status_tends] .
  have "minds a mg a' mg' \<and> sa_quota a' = sa_quota a"
  proof (cases "expires_before (seconds_now env + 600) (sa_token a)")
    case True
    show ?thesis
    proof (cases x)
      case (Inl m)
      have "poll_token env a mg = (None, a, set_status_from_error m (sa_id a) mg1)" by (simp add: poll_token_def True x Inl)
      with assms marked [OF one] show ?thesis by (auto simp: minds_def)
    next
      case (Inr t)
      let ?a = "a\<lparr>sa_token := monitor_mergeRefreshedToken (sa_token a) t (seconds_now env)\<rparr>"
      obtain y mg2 where y: "on_store (updateToken (me_repo env) (sa_id a) (sa_token ?a)) mg1 = (y, mg2)" by fastforce
      have two: "tends (sa_id a) mg mg2" by (rule tends_trans [OF one store_tends [OF updateToken_touches y]])
      have "a' = ?a \<and> (mg' = mg2 \<or> (\<exists>m. mg' = set_status_from_error m (sa_id a) mg2))"
        using assms y by (cases y) (auto simp: poll_token_def True x Inr)
      with two marked [OF two] show ?thesis by (auto simp: minds_def)
    qed
  qed (use assms in \<open>simp add: poll_token_def minds_def\<close>)
  then show "minds a mg a' mg'" "sa_quota a' = sa_quota a" by blast+
qed

lemma poll_quota_tends: "tends (sa_id a) mg (poll_quota env t a mg)"
proof -
  obtain x mg1 where x: "quota_with_credits env t (sa_proxy_url a) (jget_opt (sa_quota a) ''ai_credits'') mg = (x, mg1)" by fastforce
  note one = quota_credits_tends [OF x, of "sa_id a"]
  show ?thesis
  proof (cases x)
    case (Inl m)
    with x tends_trans [OF one set_status_tends] show ?thesis by (simp add: poll_quota_def)
  next
    case (Inr q)
    obtain y mg2 where y: "on_store (updateQuota (me_repo env) (sa_id a) (quota_json q)) mg1 = (y, mg2)" by fastforce
    have two: "tends (sa_id a) mg mg2" by (rule tends_trans [OF one store_tends [OF updateQuota_touches y]])
    let ?mg3 = "store_do (updateLastUsed (me_repo env) (sa_id a)) mg2"
    have "tends (sa_id a) mg2 ?mg3" by (rule do_tends) (rule status_touches)
    moreover have "tends (sa_id a) ?mg3 (store_do (setAccountStatus (sa_id a) (Some ''active'') None) ?mg3)" by (rule do_tends) (rule status_touches)
    ultimately have "tends (sa_id a) mg2 (store_do (setAccountStatus (sa_id a) (Some ''active'') None) ?mg3)" by (rule tends_trans)
    with x y Inr tends_trans [OF two this] tends_trans [OF two set_status_tends] show ?thesis
      by (cases y) (simp_all add: poll_quota_def)
  qed
qed

lemma poll_account_minds:
  assumes "poll_account env a mg = (a', mg')"
  shows "tends (sa_id a) mg mg'" "sa_quota a' = sa_quota a" "sa_email a' = sa_email a"
proof -
  obtain r a1 mg1 where t: "poll_token env a mg = (r, a1, mg1)" by (metis prod_cases3)
  note one = poll_token_minds [OF t]
  have "sa_email a1 = sa_email a" using t by (auto simp: poll_token_def Let_def split: if_splits prod.splits sum.splits)
  then have "tends (sa_id a) mg mg' \<and> sa_quota a' = sa_quota a \<and> sa_email a' = sa_email a"
  proof (cases r)
    case (Some tok)
    have "poll_account env a mg = (a1, poll_quota env tok a1 mg1)" using t Some by (simp add: poll_account_def)
    with assms have "a' = a1" "mg' = poll_quota env tok a1 mg1" by auto
    with one \<open>sa_email a1 = sa_email a\<close> poll_quota_tends [of a1 mg1 env tok] show ?thesis
      by (auto simp: minds_def intro: tends_trans)
  qed (use assms t one in \<open>auto simp: poll_account_def minds_def\<close>)
  then show "tends (sa_id a) mg mg'" "sa_quota a' = sa_quota a" "sa_email a' = sa_email a" by blast+
qed

text \<open>The managers between the visits: each account is polled once, in order, by a visit that touches its row only.\<close>

definition visited_once ::
    "manager_env \<Rightarrow> stored_account list \<Rightarrow> account_manager \<Rightarrow> stored_account list \<Rightarrow> account_manager \<Rightarrow> bool" where
  "visited_once env accounts mg polled mg' \<longleftrightarrow>
     (\<exists>mgs. length mgs = Suc (length accounts) \<and> mgs ! 0 = mg \<and> mgs ! length accounts = mg' \<and> length polled = length accounts \<and>
        (\<forall>k<length accounts. poll_account env (accounts ! k) (mgs ! k) = (polled ! k, mgs ! Suc k) \<and>
           sa_quota (polled ! k) = sa_quota (accounts ! k) \<and> sa_email (polled ! k) = sa_email (accounts ! k) \<and>
           touches_only (sa_id (accounts ! k)) (mg_db (mgs ! k)) (mg_db (mgs ! Suc k))))"

lemma visited_Nil: "visited_once env [] mg [] mg"
  unfolding visited_once_def by (intro exI [of _ "[mg]"]) simp

lemma visited_Cons:
  assumes "poll_account env a mg = (a1, mg1)" "visited_once env as mg1 as1 mg2"
  shows "visited_once env (a # as) mg (a1 # as1) mg2"
proof -
  obtain mgs where m: "length mgs = Suc (length as)" "mgs ! 0 = mg1" "mgs ! length as = mg2" "length as1 = length as"
    "\<forall>k<length as. poll_account env (as ! k) (mgs ! k) = (as1 ! k, mgs ! Suc k) \<and> sa_quota (as1 ! k) = sa_quota (as ! k) \<and>
       sa_email (as1 ! k) = sa_email (as ! k) \<and> touches_only (sa_id (as ! k)) (mg_db (mgs ! k)) (mg_db (mgs ! Suc k))"
    using assms(2) by (auto simp: visited_once_def)
  show ?thesis
    unfolding visited_once_def
  proof (intro exI [of _ "mg # mgs"] conjI allI impI)
    fix k assume k: "k < length (a # as)"
    show "poll_account env ((a # as) ! k) ((mg # mgs) ! k) = ((a1 # as1) ! k, (mg # mgs) ! Suc k)"
      "sa_quota ((a1 # as1) ! k) = sa_quota ((a # as) ! k)" "sa_email ((a1 # as1) ! k) = sa_email ((a # as) ! k)"
      "touches_only (sa_id ((a # as) ! k)) (mg_db ((mg # mgs) ! k)) (mg_db ((mg # mgs) ! Suc k))"
      using k m assms(1) poll_account_minds [OF assms(1)] by (cases k; simp add: tends_def)+
  qed (use m in simp_all)
qed

text \<open>C34: The refreshing part of a poll visits every account once, in order, and each visit touches the row of its account only.
  Whatever Google answers, it changes nothing but tokens, quotas, statuses and times of use: the accounts are the same,
  with their identities, names, pictures, device columns, proxies and active marks, no stored quota is lost, the
  settings stay, and requests are only added.\<close>

theorem poll_keeps_the_store:
  "case poll_accounts env accounts mg of (polled, mg') \<Rightarrow>
     all_kept (mg_db mg) (mg_db mg') \<and> (\<exists>more. mg_sent mg' = mg_sent mg @ more) \<and> visited_once env accounts mg polled mg'"
proof (induction accounts arbitrary: mg)
  case Nil
  show ?case by (simp add: visited_Nil)
next
  case (Cons a as)
  obtain a1 mg1 where a: "poll_account env a mg = (a1, mg1)" by fastforce
  obtain as1 mg2 where as: "poll_accounts env as mg1 = (as1, mg2)" by fastforce
  from poll_account_minds [OF a] have one: "all_kept (mg_db mg) (mg_db mg1)" "\<exists>more. mg_sent mg1 = mg_sent mg @ more"
    by (auto simp: tends_def dest: touches_kept)
  have two: "all_kept (mg_db mg1) (mg_db mg2)" "\<exists>more. mg_sent mg2 = mg_sent mg1 @ more" "visited_once env as mg1 as1 mg2"
    using Cons.IH [of mg1] as by auto
  have "all_kept (mg_db mg) (mg_db mg2)" by (rule all_kept_trans [OF one(1) two(1)])
  moreover have "\<exists>more. mg_sent mg2 = mg_sent mg @ more" using one(2) two(2) by fastforce
  ultimately show ?case using a as visited_Cons [OF a two(3)] by simp
qed

subsection \<open>The choice\<close>

text \<open>
  What the choice promises, in words of its own. The comment on \<open>findBestAccount\<close> asks for more than 5 percent and names
  other criteria; the code takes 5 percent too and looks at the average alone.
\<close>

definition mean :: "rat list \<Rightarrow> rat" where
  "mean ps = (if ps = [] then 0 else sum_list ps / of_nat (length ps))"

definition healthy :: "string \<Rightarrow> stored_account \<Rightarrow> bool" where
  "healthy current a \<longleftrightarrow> sa_id a \<noteq> current \<and> sa_status a = Some ''active'' \<and> truthy_opt (sa_quota a) \<and>
     (\<forall>p\<in>set (quota_percentages a). 5 \<le> p)"

definition healthiest :: "string \<Rightarrow> stored_account list \<Rightarrow> stored_account \<Rightarrow> bool" where
  "healthiest current accounts b \<longleftrightarrow> b \<in> set accounts \<and> healthy current b \<and>
     (\<forall>a\<in>set accounts. healthy current a \<longrightarrow> mean (quota_percentages a) \<le> mean (quota_percentages b))"

definition in_use :: "app_target option \<Rightarrow> cloud_db \<Rightarrow> stored_account list \<Rightarrow> stored_account \<Rightarrow> bool" where
  "in_use target db accounts a \<longleftrightarrow> a \<in> set accounts \<and>
     (let v = getActiveAccountIdForTarget target db in if truthy v then v = JStr (sa_id a) else sa_is_active a)"

definition used_up :: "stored_account \<Rightarrow> bool" where
  "used_up a \<longleftrightarrow> (truthy_opt (sa_quota a) \<and> (\<exists>p\<in>set (quota_percentages a). p < 5)) \<or> sa_status a = Some ''rate_limited''"

lemma candidate_healthy: "is_candidate current a = healthy current a"
  by (auto simp: is_candidate_def healthy_def list_ex_iff not_less)

lemma must_leave_used_up: "must_leave a = used_up a"
  by (auto simp: must_leave_def isAccountDepleted_def used_up_def list_ex_iff)

lemma average_mean: "truthy_opt (sa_quota a) \<Longrightarrow> calculateAverageQuota a = mean (quota_percentages a)"
  by (simp add: calculateAverageQuota_def mean_def)

lemma current_in_use: "current_account t db accounts = Some a \<Longrightarrow> in_use t db accounts a"
  by (auto simp: current_account_def in_use_def Let_def find_Some_iff split: if_splits)

lemma no_current: "current_account t db accounts = None \<Longrightarrow> \<not> in_use t db accounts a"
  by (auto simp: current_account_def in_use_def Let_def find_None_iff split: if_splits)

lemma best_is_healthiest: "best_account current accounts = Some b \<Longrightarrow> healthiest current accounts b"
proof -
  assume b: "best_account current accounts = Some b"
  let ?f = "\<lambda>a. - calculateAverageQuota a" and ?c = "filter (is_candidate current) accounts"
  obtain rest where s: "sort_key ?f ?c = b # rest" using b by (auto simp: best_account_def split: list.splits)
  have all: "set (sort_key ?f ?c) = set ?c" by (rule set_sort)
  have "sorted (map ?f (b # rest))" using sorted_sort_key [of ?f ?c] s by simp
  then have "\<forall>a\<in>set (b # rest). ?f b \<le> ?f a" by simp
  moreover have m: "set (b # rest) = set ?c" using all s by simp
  ultimately have "\<forall>a\<in>set ?c. calculateAverageQuota a \<le> calculateAverageQuota b" unfolding m by simp
  moreover have "b \<in> set ?c" unfolding m [symmetric] by simp
  ultimately show ?thesis using average_mean by (auto simp: healthiest_def candidate_healthy healthy_def)
qed

lemma none_healthy: "best_account current accounts = None \<Longrightarrow> a \<in> set accounts \<Longrightarrow> \<not> healthy current a"
proof -
  assume b: "best_account current accounts = None" and a: "a \<in> set accounts"
  then have "sort_key (\<lambda>a. - calculateAverageQuota a) (filter (is_candidate current) accounts) = []"
    by (simp add: best_account_def split: list.splits)
  then have "set (filter (is_candidate current) accounts) = {}" by (metis list.set(1) set_sort)
  with a show ?thesis by (auto simp: candidate_healthy)
qed

lemma load_rows_kept: "load_rows env rows db = (r, db') \<Longrightarrow> all_kept db db'"
proof (induction rows arbitrary: db r db')
  case (Cons row rows)
  obtain x db1 where x: "load_secrets env row db = (x, db1)" by fastforce
  obtain y db2 where y: "load_rows env rows db1 = (y, db2)" by fastforce
  have one: "all_kept db db1" by (rule touches_kept [OF load_touches [OF x refl]])
  have "db' = db1 \<or> db' = db2" using Cons.prems x y by (auto split: sum.splits option.splits prod.splits)
  with one all_kept_trans [OF one Cons.IH [OF y]] show ?case by blast
qed simp

lemma all_accounts_active: "all_accounts env d = (r, d') \<Longrightarrow> same_active d d'"
proof -
  assume a: "all_accounts env d = (r, d')"
  obtain x db where x: "getAccounts (me_repo (se_manager env)) (mg_db (de_manager d)) = (x, db)" by fastforce
  have "all_kept (mg_db (de_manager d)) db" using x unfolding getAccounts_def by (rule load_rows_kept)
  then have "map (\<lambda>r. (ar_id r, ar_isActive r)) (cd_accounts db) = map (\<lambda>r. (ar_id r, ar_isActive r)) (cd_accounts (mg_db (de_manager d)))"
    unfolding all_kept_def by (intro nth_equalityI) (auto simp: list_all2_conv_all_nth kept_row_def fixed_columns_def)
  with a x \<open>all_kept _ db\<close> show ?thesis by (auto simp: all_accounts_def on_manager_def on_store_def same_active_def all_kept_def)
qed

definition switching_on :: "desk \<Rightarrow> bool" where
  "switching_on d \<longleftrightarrow> truthy (getSetting ''auto_switch_enabled'' (JBool False) (mg_db (de_manager d)))"

text \<open>There is reason to switch to \<open>best\<close>: the account in use, as the first reading has it, is used up, and \<open>best\<close> is the healthiest
  of the second reading.\<close>

definition chosen :: "'v desk_env \<Rightarrow> app_target option \<Rightarrow> desk \<Rightarrow> desk \<Rightarrow> stored_account \<Rightarrow> bool" where
  "chosen env t d d2 best \<longleftrightarrow> switching_on d \<and>
     (\<exists>accounts d1 current accounts2. all_accounts env d = (Inr accounts, d1) \<and>
       in_use t (mg_db (de_manager d1)) accounts current \<and> used_up current \<and>
       all_accounts env d1 = (Inr accounts2, d2) \<and> healthiest (sa_id current) accounts2 best)"

text \<open>There is none: it is off, no account is in use, the one in use is not used up, or no other is healthy.\<close>

definition no_reason :: "'v desk_env \<Rightarrow> app_target option \<Rightarrow> desk \<Rightarrow> bool" where
  "no_reason env t d \<longleftrightarrow> \<not> switching_on d \<or>
     (\<exists>accounts d1. all_accounts env d = (Inr accounts, d1) \<and>
       ((\<forall>c. \<not> in_use t (mg_db (de_manager d1)) accounts c) \<or>
        (\<exists>c. in_use t (mg_db (de_manager d1)) accounts c \<and>
           (\<not> used_up c \<or> (\<exists>accounts2 d2. all_accounts env d1 = (Inr accounts2, d2) \<and> (\<forall>a\<in>set accounts2. \<not> healthy (sa_id c) a))))))"

text \<open>C19: An automatic switch is made only when it is enabled and the account in use has a model below 5 percent or is rate-limited;
  it is to another account that is active, has a quota and every model at 5 percent or more, none such with a higher
  average percentage, and that account is then the active one of the application. Without a switch there was no reason for
  one, and no account's mark and no setting changes; nor do they on an error, unless it is the failure of such a switch.\<close>

theorem automatic_switch_is_to_the_healthiest:
  "case checkAndSwitchIfNeeded env t d of
     (Inr True, d') \<Rightarrow> (\<exists>d2 best. chosen env t d d2 best \<and> switchCloudAccount env (sa_id best) t d2 = (Inr (), d') \<and>
       getActiveAccountIdForTarget t (mg_db (de_manager d')) = JStr (sa_id best))
   | (Inr False, d') \<Rightarrow> same_active d d' \<and> no_reason env t d
   | (Inl m, d') \<Rightarrow> same_active d d' \<or> (\<exists>d2 best. chosen env t d d2 best \<and> switchCloudAccount env (sa_id best) t d2 = (Inl m, d'))"
proof -
  obtain r d1 where a: "all_accounts env d = (r, d1)" by fastforce
  note one = all_accounts_active [OF a]
  consider (off) "\<not> switching_on d" | (failed) m where "switching_on d" "r = Inl m"
    | (none) accounts where "switching_on d" "r = Inr accounts" "current_account t (mg_db (de_manager d1)) accounts = None"
    | (fine) accounts c where "switching_on d" "r = Inr accounts" "current_account t (mg_db (de_manager d1)) accounts = Some c" "\<not> must_leave c"
    | (leave) accounts c where "switching_on d" "r = Inr accounts" "current_account t (mg_db (de_manager d1)) accounts = Some c" "must_leave c"
    by (cases r) (auto, metis option.exhaust)
  then show ?thesis
  proof cases
    case off
    then show ?thesis by (simp add: checkAndSwitchIfNeeded_def switching_on_def no_reason_def)
  next
    case failed
    then show ?thesis using a one by (simp add: checkAndSwitchIfNeeded_def switching_on_def)
  next
    case none
    then have "no_reason env t d" using a no_current unfolding no_reason_def by blast
    then show ?thesis using none a one by (simp add: checkAndSwitchIfNeeded_def switching_on_def)
  next
    case fine
    then have "no_reason env t d" using a current_in_use unfolding no_reason_def must_leave_used_up by blast
    then show ?thesis using fine a one by (simp add: checkAndSwitchIfNeeded_def switching_on_def)
  next
    case leave
    obtain r2 d2 where b: "all_accounts env d1 = (r2, d2)" by fastforce
    have two: "same_active d d2" by (rule same_active_trans [OF one all_accounts_active [OF b]])
    note use = current_in_use [OF leave(3)] leave(4) [unfolded must_leave_used_up]
    have check: "checkAndSwitchIfNeeded env t d =
        (case findBestAccount env (sa_id c) d1 of
           (Inl m, d2) \<Rightarrow> (Inl m, d2) | (Inr None, d2) \<Rightarrow> (Inr False, d2)
         | (Inr (Some best), d2) \<Rightarrow> (case switchCloudAccount env (sa_id best) t d2 of (Inl m, d3) \<Rightarrow> (Inl m, d3) | (Inr _, d3) \<Rightarrow> (Inr True, d3)))"
      using leave a by (simp add: checkAndSwitchIfNeeded_def switching_on_def)
    show ?thesis
    proof (cases r2)
      case (Inl m)
      with two show ?thesis unfolding check by (simp add: findBestAccount_def b)
    next
      case (Inr accounts2)
      show ?thesis
      proof (cases "best_account (sa_id c) accounts2")
        case None
        have "no_reason env t d"
          using a b leave(2) use(1) none_healthy [OF None] Inr unfolding no_reason_def by blast
        with two show ?thesis unfolding check by (simp add: findBestAccount_def b Inr None)
      next
        case (Some best)
        obtain x d3 where x: "switchCloudAccount env (sa_id best) t d2 = (x, d3)" by fastforce
        have "chosen env t d d2 best"
          using leave(1,2) a b Inr use best_is_healthiest [OF Some] unfolding chosen_def by blast
        moreover have "getActiveAccountIdForTarget t (mg_db (de_manager d3)) = JStr (sa_id best)" if "x = Inr ()"
          by (rule switch_effect(1) [OF x [unfolded that]])
        ultimately show ?thesis unfolding check using x by (cases x) (auto simp: findBestAccount_def b Inr Some)
      qed
    qed
  qed
qed

text \<open>A choice on two accounts: the one in use is left for the one with the higher average.\<close>

definition with_quota :: "string \<Rightarrow> rat list \<Rightarrow> stored_account" where
  "with_quota i ps = sample_account\<lparr>sa_id := i, sa_status := Some ''active'',
     sa_quota := Some (JObj [(''models'', JObj (map (\<lambda>p. (''m'', JObj [(''percentage'', JNum p)])) ps))])\<rparr>"

lemma chosen_sample:
  "map_option sa_id (best_account ''a'' [with_quota ''a'' [90], with_quota ''b'' [100, 4], with_quota ''c'' [20, 30], with_quota ''d'' [60, 10]]) = Some ''d''"
  by code_simp

subsection \<open>Polls are one at a time and focus polls apart\<close>

text \<open>The events that began a poll.\<close>

fun begun :: "monitor_event list \<Rightarrow> monitor \<Rightarrow> monitor_event list" where
  "begun [] s = []"
| "begun (e # es) s = (let (b, s') = monitor_step e s in (if b then [e] else []) @ begun es s')"

definition focus_times :: "monitor_event list \<Rightarrow> rat list" where
  "focus_times es = List.map_filter (\<lambda>e. case e of AppFocus t \<Rightarrow> Some t | _ \<Rightarrow> None) es"

definition is_start :: "monitor_event \<Rightarrow> bool" where
  "is_start e = (case e of StartMonitor _ \<Rightarrow> True | _ \<Rightarrow> False)"

lemma one_poll_at_a_time: "length (begun es s) \<le> count_list es PollEnds + (if mo_isPolling s then 0 else 1)"
proof (induction es arbitrary: s)
  case (Cons e es)
  obtain b s' where step: "monitor_step e s = (b, s')" by fastforce
  have "b \<Longrightarrow> \<not> mo_isPolling s \<and> mo_isPolling s'" "e \<noteq> PollEnds \<Longrightarrow> mo_isPolling s \<Longrightarrow> mo_isPolling s'" "e = PollEnds \<Longrightarrow> \<not> b"
    using step by (cases e; auto simp: begin_poll_def Let_def split: if_splits)+
  with Cons.IH [of s'] step show ?case by (auto split: if_splits)
qed simp

lemma focus_apart:
  assumes "\<not> list_ex is_start es"
  shows "sorted_wrt (\<lambda>x y. x + DEBOUNCE_TIME \<le> y) (mo_lastFocusTime s # focus_times (begun es s))"
  using assms
proof (induction es arbitrary: s)
  case (Cons e es)
  obtain b s' where step: "monitor_step e s = (b, s')" by fastforce
  note ih = Cons.IH [of s']
  show ?case
  proof (cases "b \<and> (\<exists>t. e = AppFocus t)")
    case True
    then obtain t where t: "e = AppFocus t" "b" by blast
    with step have "mo_lastFocusTime s' = t" "mo_lastFocusTime s + DEBOUNCE_TIME \<le> t"
      by (auto simp: begin_poll_def split: if_splits)
    with ih Cons.prems t step show ?thesis
      by (force simp: focus_times_def map_filter_simps DEBOUNCE_TIME_def)
  next
    case False
    then have "mo_lastFocusTime s' = mo_lastFocusTime s" "focus_times (begun (e # es) s) = focus_times (begun es s')"
      using step Cons.prems by (cases e; auto simp: begin_poll_def focus_times_def map_filter_simps is_start_def split: if_splits)+
    with ih Cons.prems show ?thesis by simp
  qed
qed (simp add: focus_times_def map_filter_simps)

text \<open>C40: However the events of the window, the timer and the polls interleave, no poll begins while another runs, so that at most one
  more has begun than has ended, and the polls that gaining the focus begins are ten seconds or more apart, and from the
  start of the monitor.\<close>

theorem polls_are_paced:
  assumes "\<not> list_ex is_start es"
  shows "length (begun (StartMonitor t # es) new_monitor) \<le> Suc (count_list es PollEnds) \<and>
    sorted_wrt (\<lambda>x y. x + DEBOUNCE_TIME \<le> y) (t # focus_times (begun es (snd (monitor_step (StartMonitor t) new_monitor))))"
  using one_poll_at_a_time [of "StartMonitor t # es" new_monitor]
    focus_apart [OF assms, of "snd (monitor_step (StartMonitor t) new_monitor)"]
  by (simp_all add: new_monitor_def begin_poll_def)

lemma polls_are_paced_witness:
  "let es = [PollEnds, AppFocus 5000, AppFocus 12000, IntervalTick, AppFocus 50000, PollEnds, AppFocus 51000]
   in begun (StartMonitor 0 # es) new_monitor = [StartMonitor 0, AppFocus 12000, AppFocus 51000] \<and>
      sorted_wrt (\<lambda>x y. x + DEBOUNCE_TIME \<le> y) (0 # focus_times (begun es (snd (monitor_step (StartMonitor 0) new_monitor))))"
proof -
  let ?es = "[PollEnds, AppFocus 5000, AppFocus 12000, IntervalTick, AppFocus 50000, PollEnds, AppFocus 51000]"
  have "\<not> list_ex is_start ?es" by (simp add: is_start_def)
  from polls_are_paced [OF this, of 0]
  show ?thesis by (simp add: new_monitor_def begin_poll_def DEBOUNCE_TIME_def)
qed

end
