(* ===== verification/AccountActions.thy ===== *)
theory AccountActions
  imports CloudMonitor
begin

section \<open>Adding, listing, exporting and importing accounts\<close>

text \<open>
  The remaining operations of \<open>cloud-account/ipc/handler.ts\<close>: the active OAuth client and its setting, adding an account, filling
  in missing client keys, the list of accounts with their marks, and the export file. JSON text is without indentation,
  and members that are undefined are absent.
\<close>

record office =
  of_registry :: oauth_registry
  of_manager :: account_manager

subsection \<open>The active OAuth client\<close>

definition ACTIVE_OAUTH_CLIENT_KEY_SETTING :: string where
  "ACTIVE_OAUTH_CLIENT_KEY_SETTING = ''active_oauth_client_key''"

definition save_setting :: "string \<Rightarrow> json \<Rightarrow> office \<Rightarrow> office" where
  "save_setting k v o1 = o1\<lparr>of_manager := store_do (setSetting k v) (of_manager o1)\<rparr>"

definition read_setting :: "string \<Rightarrow> json \<Rightarrow> office \<Rightarrow> json" where
  "read_setting k v o1 = getSetting k v (mg_db (of_manager o1))"

definition hydrateActiveOAuthClientFromSettings :: "office \<Rightarrow> office" where
  "hydrateActiveOAuthClientFromSettings o1 =
     (case read_setting ACTIVE_OAUTH_CLIENT_KEY_SETTING (JStr []) o1 of
        JStr preferred \<Rightarrow>
          if js_trim preferred = [] then o1
          else (case setActiveOAuthClientKey preferred (of_registry o1) of
                  Inr reg \<Rightarrow> o1\<lparr>of_registry := reg\<rparr>
                | Inl _ \<Rightarrow> save_setting ACTIVE_OAUTH_CLIENT_KEY_SETTING (JStr []) o1)
      | _ \<Rightarrow> o1)"

definition setActiveOAuthClient :: "string \<Rightarrow> office \<Rightarrow> (string + unit) \<times> office" where
  "setActiveOAuthClient clientKey o1 =
     (case setActiveOAuthClientKey clientKey (of_registry o1) of
        Inl m \<Rightarrow> (Inl m, o1)
      | Inr reg \<Rightarrow> (Inr (), save_setting ACTIVE_OAUTH_CLIENT_KEY_SETTING (JStr (rg_activeKey reg)) (o1\<lparr>of_registry := reg\<rparr>)))"

definition getActiveOAuthClient :: "office \<Rightarrow> string \<times> office" where
  "getActiveOAuthClient o1 = (let o2 = hydrateActiveOAuthClientFromSettings o1 in (rg_activeKey (of_registry o2), o2))"

definition list_oauth_clients :: "office \<Rightarrow> client_descriptor list \<times> office" where
  "list_oauth_clients o1 = (let o2 = hydrateActiveOAuthClientFromSettings o1 in (listOAuthClients (of_registry o2), o2))"

definition choose_client :: "string option \<Rightarrow> office \<Rightarrow> (string + unit) \<times> office" where
  "choose_client clientKey o1 =
     (case clientKey of
        Some k \<Rightarrow> if js_trim k \<noteq> [] then setActiveOAuthClient k o1 else (Inr (), hydrateActiveOAuthClientFromSettings o1)
      | None \<Rightarrow> (Inr (), hydrateActiveOAuthClientFromSettings o1))"

subsection \<open>Adding an account\<close>

definition on_office :: "(account_manager \<Rightarrow> 'a \<times> account_manager) \<Rightarrow> office \<Rightarrow> 'a \<times> office" where
  "on_office f o1 = (let (r, mg) = f (of_manager o1) in (r, o1\<lparr>of_manager := mg\<rparr>))"

definition given_member :: "string \<Rightarrow> json option \<Rightarrow> members" where
  "given_member k v = (case v of None \<Rightarrow> [] | Some j \<Rightarrow> [(k, j)])"

definition new_google_account :: "repo_env \<Rightarrow> json \<Rightarrow> google_user \<Rightarrow> stored_account" where
  "new_google_account env t u =
     (let now = of_int \<lfloor>re_now env / 1000\<rfloor>
      in \<lparr>sa_id = re_uuid env, sa_provider = ''google'', sa_email = gu_email u,
          sa_name = Some (if gu_name u = [] then gu_email u else gu_name u), sa_avatar_url = gu_picture u,
          sa_token = JObj (given_member ''access_token'' (jget t ''access_token'') @ [(''refresh_token'', JStr (token_str t ''refresh_token''))] @
            given_member ''expires_in'' (jget t ''expires_in'') @
            [(''expiry_timestamp'', case jget t ''expires_in'' of Some (JNum n) \<Rightarrow> JNum (now + n) | _ \<Rightarrow> JNull)] @
            given_member ''token_type'' (jget t ''token_type'') @ [(''email'', JStr (gu_email u))] @
            given_member ''oauth_client_key'' (jget t ''oauth_client_key'') @ [(''is_gcp_tos'', JBool False)] @
            given_member ''id_token'' (jget t ''id_token'')),
          sa_quota = None, sa_device_profile = None, sa_device_history = None, sa_created_at = now, sa_last_used = now,
          sa_status = None, sa_status_reason = None, sa_is_active = False, sa_proxy_url = None\<rparr>)"

text \<open>The first quota; a failure is only logged, and the account keeps the quota that could not be stored.\<close>

definition first_quota :: "manager_env \<Rightarrow> stored_account \<Rightarrow> account_manager \<Rightarrow> stored_account \<times> account_manager" where
  "first_quota env a mg =
     (case quota_with_credits env (token_str (sa_token a) ''access_token'') None None mg of
        (Inl _, mg1) \<Rightarrow> (a, mg1)
      | (Inr q, mg1) \<Rightarrow>
          (a\<lparr>sa_quota := Some (quota_json q)\<rparr>, snd (on_store (updateQuota (me_repo env) (sa_id a) (quota_json q)) mg1)))"

definition store_google_account :: "manager_env \<Rightarrow> json \<Rightarrow> google_user \<Rightarrow> account_manager \<Rightarrow> (string + stored_account) \<times> account_manager" where
  "store_google_account env t u mg =
     (case on_store (getAccountByEmail (me_repo env) (gu_email u)) mg of
        (Inl m, mg1) \<Rightarrow> (Inl m, mg1)
      | (Inr (Some _), mg1) \<Rightarrow> (Inl (''Account with email '' @ gu_email u @ '' already exists.''), mg1)
      | (Inr None, mg1) \<Rightarrow>
          (let a = new_google_account (me_repo env) t u
           in (case on_store (addAccount (me_repo env) a) mg1 of
                 (Inl m, mg2) \<Rightarrow> (Inl m, mg2)
               | (Inr _, mg2) \<Rightarrow> (case first_quota env a mg2 of (a', mg3) \<Rightarrow> (Inr a', mg3)))))"

definition sign_in :: "manager_env \<Rightarrow> oauth_registry \<Rightarrow> string \<Rightarrow> string option \<Rightarrow> account_manager \<Rightarrow> (string + stored_account) \<times> account_manager" where
  "sign_in env reg code clientKey mg =
     (case on_net (exchangeCode (me_net env) (me_google env) reg code None clientKey) mg of
        (Inl m, mg1) \<Rightarrow> (Inl m, mg1)
      | (Inr t, mg1) \<Rightarrow>
          (case on_net (getUserInfo (me_net env) (me_google env) (token_str t ''access_token'') None) mg1 of
             (Inl m, mg2) \<Rightarrow> (Inl m, mg2)
           | (Inr u, mg2) \<Rightarrow> store_google_account env t u mg2))"

definition addGoogleAccount :: "manager_env \<Rightarrow> string \<Rightarrow> string option \<Rightarrow> office \<Rightarrow> (string + stored_account) \<times> office" where
  "addGoogleAccount env code clientKey o1 =
     (case choose_client clientKey o1 of
        (Inl m, o2) \<Rightarrow> (Inl m, o2)
      | (Inr _, o2) \<Rightarrow> on_office (sign_in env (of_registry o2) code clientKey) o2)"

subsection \<open>Filling in client keys\<close>

definition OAUTH_CLIENT_KEY_BACKFILL_DONE_SETTING :: string where
  "OAUTH_CLIENT_KEY_BACKFILL_DONE_SETTING = ''oauth_client_key_backfill_v1_done''"

definition lacks_key :: "stored_account \<Rightarrow> bool" where
  "lacks_key a \<longleftrightarrow> sa_provider a = ''google'' \<and> js_trim (token_str (sa_token a) ''oauth_client_key'') = [] \<and>
     js_trim (token_str (sa_token a) ''refresh_token'') \<noteq> []"

definition may_take_key :: "string \<Rightarrow> stored_account \<Rightarrow> bool" where
  "may_take_key activeKey a \<longleftrightarrow> \<not> (activeKey = DEFAULT_OAUTH_CLIENT_KEY \<and> js_trim (token_str (sa_token a) ''project_id'') = [])"

text \<open>How many were updated, and whether one failed.\<close>

fun backfill_accounts :: "repo_env \<Rightarrow> string \<Rightarrow> stored_account list \<Rightarrow> account_manager \<Rightarrow> (nat \<times> bool) \<times> account_manager" where
  "backfill_accounts env key [] mg = ((0, False), mg)"
| "backfill_accounts env key (a # as) mg =
     (if lacks_key a \<and> may_take_key key a
      then (case on_store (updateToken env (sa_id a) (JObj (AList.update ''oauth_client_key'' (JStr key) (case sa_token a of JObj m \<Rightarrow> m | _ \<Rightarrow> [])))) mg of
              (r, mg1) \<Rightarrow>
                (let ((n, failed), mg2) = backfill_accounts env key as mg1
                 in ((if isl r then n else Suc n, failed \<or> isl r), mg2)))
      else backfill_accounts env key as mg)"

definition backfillMissingOAuthClientKeyForLegacyAccounts :: "repo_env \<Rightarrow> stored_account list \<Rightarrow> office \<Rightarrow> bool \<times> office" where
  "backfillMissingOAuthClientKeyForLegacyAccounts env accounts o1 =
     (if truthy (read_setting OAUTH_CLIENT_KEY_BACKFILL_DONE_SETTING (JBool False) o1) then (False, o1)
      else (let o2 = hydrateActiveOAuthClientFromSettings o1; key = js_lower (js_trim (rg_activeKey (of_registry o2)))
            in if key = [] then (False, o2)
               else (case on_office (backfill_accounts env key accounts) o2 of
                       ((n, failed), o3) \<Rightarrow>
                         (0 < n, if failed then o3 else save_setting OAUTH_CLIENT_KEY_BACKFILL_DONE_SETTING (JBool True) o3))))"

subsection \<open>Listing\<close>

text \<open>The marks of an account: active, active in the classic application, active in the editor. The current e-mails are empty when
  nobody is signed in there; \<open>credentialStore\<close> tells whether the classic application takes its token from the system.\<close>

definition account_marks :: "cloud_db \<Rightarrow> bool \<Rightarrow> string option \<Rightarrow> string option \<Rightarrow> stored_account \<Rightarrow> bool \<times> bool \<times> bool" where
  "account_marks db credentialStore classicEmail ideEmail a =
     (let email = normalizeAccountEmail (Some (sa_email a)); classic = normalizeAccountEmail classicEmail; ide = normalizeAccountEmail ideEmail;
          classicId = (if credentialStore then getActiveAccountIdForTarget (Some Classic) db else JStr []);
          ideId = (if ide \<noteq> [] then JStr [] else getActiveAccountIdForTarget (Some Ide) db);
          isClassic = (if credentialStore \<and> truthy classicId then classicId = JStr (sa_id a) else classic = email);
          isIde = (ide = email \<or> (truthy ideId \<and> ideId = JStr (sa_id a)))
      in (isClassic \<or> isIde, isClassic, isIde))"

definition listCloudAccounts ::
    "repo_env \<Rightarrow> bool \<Rightarrow> string option \<Rightarrow> string option \<Rightarrow> office \<Rightarrow> (string + (stored_account \<times> bool \<times> bool \<times> bool) list) \<times> office" where
  "listCloudAccounts env credentialStore classicEmail ideEmail o1 =
     (case on_office (on_store (getAccounts env)) o1 of
        (Inl m, o2) \<Rightarrow> (Inl m, o2)
      | (Inr accounts, o2) \<Rightarrow>
          (case backfillMissingOAuthClientKeyForLegacyAccounts env accounts o2 of
             (backfilled, o3) \<Rightarrow>
               (case (if backfilled then on_office (on_store (getAccounts env)) o3 else (Inr accounts, o3)) of
                  (Inl m, o4) \<Rightarrow> (Inl m, o4)
                | (Inr accounts', o4) \<Rightarrow>
                    (Inr (map (\<lambda>a. (a, account_marks (mg_db (of_manager o4)) credentialStore classicEmail ideEmail a)) accounts'), o4))))"

subsection \<open>Exporting\<close>

definition exported_version :: "device_version \<Rightarrow> json" where
  "exported_version v = JObj [(''id'', JStr (dv_id v)), (''createdAt'', JNum (dv_createdAt v)), (''label'', JStr (dv_label v)),
     (''profile'', profile_json (dv_profile v)), (''isCurrent'', JBool (dv_isCurrent v))]"

definition exported_account :: "bool \<Rightarrow> stored_account \<Rightarrow> json" where
  "exported_account stripTokens a =
     JObj ([(''provider'', JStr (sa_provider a)), (''email'', JStr (sa_email a))] @
       given_member ''name'' (map_option JStr (sa_name a)) @ given_member ''avatar_url'' (map_option JStr (sa_avatar_url a)) @
       (if stripTokens then [] else [(''token'', sa_token a)]) @ given_member ''quota'' (sa_quota a) @
       given_member ''device_profile'' (map_option profile_json (sa_device_profile a)) @
       given_member ''device_history'' (map_option (\<lambda>vs. JArr (map exported_version vs)) (sa_device_history a)) @
       [(''proxy_url'', case sa_proxy_url a of None \<Rightarrow> JNull | Some p \<Rightarrow> JStr p)] @
       given_member ''status'' (map_option JStr (sa_status a)) @ given_member ''status_reason'' (map_option JStr (sa_status_reason a)))"

definition null_or_str :: "json \<Rightarrow> bool" where
  "null_or_str v = (v = JNull \<or> is_str v)"

definition exported_account_ok :: "json \<Rightarrow> bool" where
  "exported_account_ok = object_with (\<lambda>m.
     (case map_of m ''provider'' of Some (JStr p) \<Rightarrow> p \<in> {''google'', ''anthropic''} | _ \<Rightarrow> False) \<and> required is_str m ''email'' \<and>
     list_all (optional null_or_str m) [''name'', ''avatar_url'', ''proxy_url''] \<and>
     required CloudTokenDataSchema m ''token'' \<and> optional CloudQuotaDataSchema m ''quota'' \<and>
     (case map_of m ''status'' of None \<Rightarrow> True | Some (JStr s) \<Rightarrow> s \<in> {''active'', ''rate_limited'', ''expired''} | _ \<Rightarrow> False) \<and>
     optional is_str m ''status_reason'')"

definition CloudAccountExportSchema :: "json \<Rightarrow> bool" where
  "CloudAccountExportSchema v \<longleftrightarrow> jget v ''version'' = Some (JStr ''1.0'') \<and>
     (case jget v ''exportedAt'' of Some (JNum _) \<Rightarrow> True | _ \<Rightarrow> False) \<and>
     (case jget v ''accounts'' of Some (JArr as) \<Rightarrow> list_all exported_account_ok as | _ \<Rightarrow> False)"

definition export_file :: "bool \<Rightarrow> rat \<Rightarrow> stored_account list \<Rightarrow> json" where
  "export_file stripTokens now accounts =
     JObj [(''version'', JStr ''1.0''), (''exportedAt'', JNum now), (''accounts'', JArr (map (exported_account stripTokens) accounts))]"

definition exportCloudAccounts :: "manager_env \<Rightarrow> bool \<Rightarrow> account_manager \<Rightarrow> (string + string) \<times> account_manager" where
  "exportCloudAccounts env stripTokens mg =
     (case on_store (getAccounts (me_repo env)) mg of
        (Inl m, mg1) \<Rightarrow> (Inl m, mg1)
      | (Inr accounts, mg1) \<Rightarrow>
          (let file = export_file stripTokens (seconds_now env) accounts
           in (if CloudAccountExportSchema file then Inr (json_stringify file) else Inl ''ZodError'', mg1)))"

subsection \<open>Importing\<close>

datatype import_strategy = Merge | Overwrite | SkipExisting

record import_result =
  ir_imported :: nat
  ir_skipped :: nat
  ir_updated :: nat
  ir_errors :: "string list"

definition text_of_member :: "json \<Rightarrow> string \<Rightarrow> string option" where
  "text_of_member v k = (case jget v k of Some (JStr s) \<Rightarrow> Some s | _ \<Rightarrow> None)"

text \<open>The members of a token that the schema knows; the others are dropped.\<close>

definition token_members :: "string list" where
  "token_members = [''access_token'', ''refresh_token'', ''expires_in'', ''expiry_timestamp'', ''token_type'', ''email'', ''project_id'',
     ''oauth_client_key'', ''session_id'', ''id_token'', ''upstream_proxy_url'', ''is_gcp_tos'']"

definition known_token :: "json \<Rightarrow> json" where
  "known_token v = (case v of JObj m \<Rightarrow> JObj (filter (\<lambda>kv. fst kv \<in> set token_members) m) | _ \<Rightarrow> v)"

text \<open>\<open>DeviceProfileSchema\<close> and \<open>DeviceProfileVersionSchema\<close>, checked when the account is stored; None is an error.\<close>

definition typed_profile :: "json \<Rightarrow> device_profile option" where
  "typed_profile v =
     (case (text_of_member v ''machineId'', text_of_member v ''macMachineId'', text_of_member v ''devDeviceId'', text_of_member v ''sqmId'') of
        (Some a, Some b, Some c, Some d) \<Rightarrow> Some \<lparr>machineId = a, macMachineId = b, devDeviceId = c, sqmId = d\<rparr>
      | _ \<Rightarrow> None)"

definition typed_version :: "json \<Rightarrow> device_version option" where
  "typed_version v =
     (case (text_of_member v ''id'', jget v ''createdAt'', text_of_member v ''label'', Option.bind (jget v ''profile'') typed_profile, jget v ''isCurrent'') of
        (Some i, Some (JNum n), Some l, Some p, Some (JBool b)) \<Rightarrow>
          Some \<lparr>dv_id = i, dv_createdAt = n, dv_label = l, dv_profile = p, dv_isCurrent = b\<rparr>
      | _ \<Rightarrow> None)"

definition typed_history :: "json \<Rightarrow> device_version list option" where
  "typed_history v =
     (case v of JArr xs \<Rightarrow> if list_all (\<lambda>x. typed_version x \<noteq> None) xs then Some (map (the \<circ> typed_version) xs) else None | _ \<Rightarrow> None)"

text \<open>A member of any type that replaces what the account has unless it is null or undefined.\<close>

definition replacing :: "(json \<Rightarrow> 'a option) \<Rightarrow> json option \<Rightarrow> 'a option \<Rightarrow> 'a option option" where
  "replacing typed v current = (if nullish v then Some current else map_option Some (typed (the v)))"

definition given :: "(json \<Rightarrow> 'a option) \<Rightarrow> json option \<Rightarrow> 'a option option" where
  "given typed v = (case v of None \<Rightarrow> Some None | Some j \<Rightarrow> map_option Some (typed j))"

definition or_keep :: "'a option \<Rightarrow> 'a option \<Rightarrow> 'a option" where
  "or_keep a b = (if a = None then b else a)"

definition updated_account :: "rat \<Rightarrow> json \<Rightarrow> stored_account \<Rightarrow> stored_account option" where
  "updated_account now v old =
     (case (replacing typed_profile (jget v ''device_profile'') (sa_device_profile old),
            replacing typed_history (jget v ''device_history'') (sa_device_history old)) of
        (Some p, Some h) \<Rightarrow>
          Some (old\<lparr>sa_provider := token_str v ''provider'', sa_name := or_keep (text_of_member v ''name'') (sa_name old),
            sa_avatar_url := or_keep (text_of_member v ''avatar_url'') (sa_avatar_url old),
            sa_token := known_token (the (jget v ''token'')), sa_quota := or_keep (jget v ''quota'') (sa_quota old),
            sa_device_profile := p, sa_device_history := h, sa_proxy_url := or_keep (text_of_member v ''proxy_url'') (sa_proxy_url old),
            sa_status := or_keep (text_of_member v ''status'') (sa_status old),
            sa_status_reason := or_keep (text_of_member v ''status_reason'') (sa_status_reason old), sa_last_used := now\<rparr>)
      | _ \<Rightarrow> None)"

definition created_account :: "string \<Rightarrow> rat \<Rightarrow> json \<Rightarrow> stored_account option" where
  "created_account uuid now v =
     (case (given typed_profile (jget v ''device_profile''), given typed_history (jget v ''device_history'')) of
        (Some p, Some h) \<Rightarrow>
          Some \<lparr>sa_id = uuid, sa_provider = token_str v ''provider'', sa_email = token_str v ''email'', sa_name = text_of_member v ''name'',
            sa_avatar_url = text_of_member v ''avatar_url'', sa_token = known_token (the (jget v ''token'')), sa_quota = jget v ''quota'',
            sa_device_profile = p, sa_device_history = h, sa_created_at = now, sa_last_used = now,
            sa_status = or_keep (text_of_member v ''status'') (Some ''active''), sa_status_reason = text_of_member v ''status_reason'',
            sa_is_active = False, sa_proxy_url = text_of_member v ''proxy_url''\<rparr>
      | _ \<Rightarrow> None)"

text \<open>Storing an account that may not have its type.\<close>

definition try_add :: "repo_env \<Rightarrow> stored_account option \<Rightarrow> cloud_db \<Rightarrow> string option \<times> cloud_db" where
  "try_add env account db =
     (case account of
        None \<Rightarrow> (Some ''ZodError'', db)
      | Some a \<Rightarrow> (case addAccount env a db of (Inl e, db1) \<Rightarrow> (Some (error_message e), db1) | (Inr _, db1) \<Rightarrow> (None, db1)))"

definition same_email :: "json \<Rightarrow> stored_account \<Rightarrow> bool" where
  "same_email v a \<longleftrightarrow> js_lower (sa_email a) = js_lower (token_str v ''email'')"

definition import_one ::
    "repo_env \<Rightarrow> import_strategy \<Rightarrow> stored_account list \<Rightarrow> string \<Rightarrow> json \<Rightarrow> import_result \<times> cloud_db \<Rightarrow> import_result \<times> cloud_db" where
  "import_one env strategy existing uuid v rd =
     (let (res, db) = rd; now = of_int \<lfloor>re_now env / 1000\<rfloor>;
          failed = (\<lambda>m. res\<lparr>ir_errors := ir_errors res @ [''Failed to import '' @ token_str v ''email'' @ '': '' @ m]\<rparr>)
      in (case find (same_email v) (rev existing) of
            Some old \<Rightarrow>
              if strategy = SkipExisting then (res\<lparr>ir_skipped := ir_skipped res + 1\<rparr>, db)
              else (case try_add env (updated_account now v old) db of
                      (Some m, db1) \<Rightarrow> (failed m, db1)
                    | (None, db1) \<Rightarrow> (res\<lparr>ir_updated := ir_updated res + 1\<rparr>, db1))
          | None \<Rightarrow>
              (case try_add env (created_account uuid now v) db of
                 (Some m, db1) \<Rightarrow> (failed m, db1)
               | (None, db1) \<Rightarrow> (res\<lparr>ir_imported := ir_imported res + 1\<rparr>, db1))))"

fun import_all ::
    "repo_env \<Rightarrow> import_strategy \<Rightarrow> stored_account list \<Rightarrow> (nat \<Rightarrow> string) \<Rightarrow> nat \<Rightarrow> json list \<Rightarrow> import_result \<times> cloud_db \<Rightarrow> import_result \<times> cloud_db" where
  "import_all env strategy existing uuids n [] rd = rd"
| "import_all env strategy existing uuids n (v # vs) rd =
     import_all env strategy existing uuids (Suc n) vs (import_one env strategy existing (uuids n) v rd)"

fun first_duplicate :: "string list \<Rightarrow> json list \<Rightarrow> string option" where
  "first_duplicate seen [] = None"
| "first_duplicate seen (v # vs) =
     (let email = js_lower (token_str v ''email'')
      in if email \<in> set seen then Some (token_str v ''email'') else first_duplicate (email # seen) vs)"

definition file_accounts :: "json \<Rightarrow> json list" where
  "file_accounts v = (case jget v ''accounts'' of Some (JArr as) \<Rightarrow> as | _ \<Rightarrow> [])"

definition no_imports :: import_result where
  "no_imports = \<lparr>ir_imported = 0, ir_skipped = 0, ir_updated = 0, ir_errors = []\<rparr>"

definition importCloudAccounts ::
    "repo_env \<Rightarrow> (nat \<Rightarrow> string) \<Rightarrow> string \<Rightarrow> import_strategy \<Rightarrow> cloud_db \<Rightarrow> (string + import_result) \<times> cloud_db" where
  "importCloudAccounts env uuids jsonContent strategy db =
     (case json_parse jsonContent of
        None \<Rightarrow> (Inl ''Invalid JSON format'', db)
      | Some v \<Rightarrow>
          if \<not> CloudAccountExportSchema v then (Inl ''Invalid export file'', db)
          else (case first_duplicate [] (file_accounts v) of
                  Some email \<Rightarrow> (Inl (''Duplicate email found in import file: '' @ email), db)
                | None \<Rightarrow>
                    (case getAccounts env db of
                       (Inl e, db1) \<Rightarrow> (Inl (error_message e), db1)
                     | (Inr existing, db1) \<Rightarrow>
                         (case import_all env strategy existing uuids 0 (file_accounts v) (no_imports, db1) of (res, db2) \<Rightarrow> (Inr res, db2)))))"

subsection \<open>What adding changes\<close>

definition ids_of :: "cloud_db \<Rightarrow> string list" where
  "ids_of db = map ar_id (cd_accounts db)"

definition with_id :: "string \<Rightarrow> string list \<Rightarrow> string list" where
  "with_id i ids = (if i \<in> set ids then ids else ids @ [i])"

lemma encrypt_frame: "encrypt_db env t db = (r, db') \<Longrightarrow> cd_accounts db' = cd_accounts db \<and> cd_settings db' = cd_settings db"
  by (auto simp: encrypt_db_def apsnd_def map_prod_def split: prod.splits)

lemma store_row_ids: "ids_of (store_row active row db) = with_id (ar_id row) (ids_of db)" "cd_settings (store_row active row db) = cd_settings db"
  by (simp_all add: ids_of_def with_id_def store_row_def upsert_ids deactivate_all_def image_iff image_image)

lemma add_ids:
  assumes "addAccount env a db = (r, db')"
  shows "r = Inr () \<Longrightarrow> ids_of db' = with_id (sa_id a) (ids_of db)" "r = Inl e \<Longrightarrow> ids_of db' = ids_of db" "cd_settings db' = cd_settings db"
proof -
  obtain x db1 where x: "encrypt_db env (json_stringify (sa_token a)) db = (x, db1)" by fastforce
  obtain y db2 where y: "encrypt_db env (json_stringify (the (sa_quota a))) db1 = (y, db2)" by fastforce
  have f: "ids_of db1 = ids_of db" "cd_settings db1 = cd_settings db" "ids_of db2 = ids_of db" "cd_settings db2 = cd_settings db"
    using encrypt_frame [OF x] encrypt_frame [OF y] by (simp_all add: ids_of_def)
  have id: "ar_id (row_of a tok quo) = sa_id a" for tok quo by (simp add: row_of_def)
  have "(r = Inr () \<longrightarrow> ids_of db' = with_id (sa_id a) (ids_of db)) \<and> (\<forall>e. r = Inl e \<longrightarrow> ids_of db' = ids_of db) \<and> cd_settings db' = cd_settings db"
    using assms x y f by (cases x; cases y; cases "sa_quota a")
      (auto simp: addAccount_def store_row_ids id split: if_splits)
  then show "r = Inr () \<Longrightarrow> ids_of db' = with_id (sa_id a) (ids_of db)" "r = Inl e \<Longrightarrow> ids_of db' = ids_of db" "cd_settings db' = cd_settings db"
    by blast+
qed

lemma kept_ids: "all_kept db db' \<Longrightarrow> ids_of db' = ids_of db \<and> cd_settings db' = cd_settings db"
  unfolding all_kept_def ids_of_def by (auto simp: list_all2_conv_all_nth kept_row_def intro: nth_equalityI)

lemma tends_ids: "tends i mg mg' \<Longrightarrow> ids_of (mg_db mg') = ids_of (mg_db mg)"
  using kept_ids touches_kept by (auto simp: tends_def)

lemma getAccounts_kept: "getAccounts env db = (r, db') \<Longrightarrow> all_kept db db'"
  unfolding getAccounts_def by (rule load_rows_kept)

lemma first_quota_kept: "first_quota env a mg = (a', mg') \<Longrightarrow>
    all_kept (mg_db mg) (mg_db mg') \<and> sa_id a' = sa_id a \<and> sa_email a' = sa_email a"
proof -
  assume q: "first_quota env a mg = (a', mg')"
  obtain x mg1 where x: "quota_with_credits env (token_str (sa_token a) ''access_token'') None None mg = (x, mg1)" by fastforce
  have one: "all_kept (mg_db mg) (mg_db mg1)" using quota_credits_tends [OF x, of "sa_id a"] unfolding tends_def by (blast dest: touches_kept)
  show ?thesis
  proof (cases x)
    case (Inl m)
    with q x one show ?thesis by (auto simp: first_quota_def)
  next
    case (Inr d)
    obtain y mg2 where y: "on_store (updateQuota (me_repo env) (sa_id a) (quota_json d)) mg1 = (y, mg2)" by fastforce
    have "tends (sa_id a) mg1 mg2" by (rule store_tends [OF updateQuota_touches y])
    then have "all_kept (mg_db mg1) (mg_db mg2)" unfolding tends_def by (blast dest: touches_kept)
    with q x y Inr all_kept_trans [OF one] show ?thesis by (auto simp: first_quota_def)
  qed
qed

text \<open>A success: no account that can be read in the store has the address, whatever the case of its letters, and when the new
  identifier is new, exactly one row is added and the others are kept. A failure keeps all rows.\<close>

definition adding_result :: "manager_env \<Rightarrow> cloud_db \<Rightarrow> (string + stored_account) \<times> cloud_db \<Rightarrow> bool" where
  "adding_result env db out \<longleftrightarrow>
     (case out of
        (Inl _, db') \<Rightarrow> list_all2 kept_row (cd_accounts db) (cd_accounts db')
      | (Inr a, db') \<Rightarrow> sa_id a = re_uuid (me_repo env) \<and>
          (\<exists>accounts. fst (getAccounts (me_repo env) db) = Inr accounts \<and>
             (\<forall>b\<in>set accounts. js_lower (sa_email b) \<noteq> js_lower (sa_email a))) \<and>
          (sa_id a \<notin> set (ids_of db) \<longrightarrow>
             (\<exists>rows row. cd_accounts db' = rows @ [row] \<and> list_all2 kept_row (cd_accounts db) rows \<and>
                ar_id row = sa_id a \<and> ar_email row = sa_email a)))"

lemma add_rows:
  assumes "addAccount env a db = (r, db')"
  shows "r = Inl e \<Longrightarrow> cd_accounts db' = cd_accounts db"
    "r = Inr () \<Longrightarrow> \<not> sa_is_active a \<Longrightarrow> sa_id a \<notin> set (ids_of db) \<Longrightarrow>
       \<exists>row. cd_accounts db' = cd_accounts db @ [row] \<and> ar_id row = sa_id a \<and> ar_email row = sa_email a"
proof -
  obtain x db1 where x: "encrypt_db env (json_stringify (sa_token a)) db = (x, db1)" by fastforce
  obtain y db2 where y: "encrypt_db env (json_stringify (the (sa_quota a))) db1 = (y, db2)" by fastforce
  have f: "cd_accounts db1 = cd_accounts db" "cd_accounts db2 = cd_accounts db"
    using encrypt_frame [OF x] encrypt_frame [OF y] by simp_all
  have up: "upsert_row (row_of a tok quo) (cd_accounts db) = cd_accounts db @ [row_of a tok quo]" if "sa_id a \<notin> set (ids_of db)" for tok quo
    using that by (force simp: upsert_row_def ids_of_def list_ex_iff row_of_def)
  have row: "ar_id (row_of a tok quo) = sa_id a" "ar_email (row_of a tok quo) = sa_email a" for tok quo by (simp_all add: row_of_def)
  show "r = Inl e \<Longrightarrow> cd_accounts db' = cd_accounts db"
    using assms x y f by (cases x; cases y; cases "sa_quota a") (auto simp: addAccount_def split: if_splits)
  show "r = Inr () \<Longrightarrow> \<not> sa_is_active a \<Longrightarrow> sa_id a \<notin> set (ids_of db) \<Longrightarrow>
       \<exists>row. cd_accounts db' = cd_accounts db @ [row] \<and> ar_id row = sa_id a \<and> ar_email row = sa_email a"
    using assms x y f up row by (cases x; cases y; cases "sa_quota a") (auto simp: addAccount_def store_row_def split: if_splits)
qed

lemma kept_rows_same: "all_kept db db1 \<Longrightarrow> cd_accounts db2 = cd_accounts db1 \<Longrightarrow> list_all2 kept_row (cd_accounts db) (cd_accounts db2)"
  by (simp add: all_kept_def)

lemma kept_rows_more:
  assumes "all_kept db db1" "cd_accounts db2 = cd_accounts db1 @ [row]" "all_kept db2 db3"
  shows "\<exists>rows row'. cd_accounts db3 = rows @ [row'] \<and> list_all2 kept_row (cd_accounts db) rows \<and> ar_id row' = ar_id row \<and> ar_email row' = ar_email row"
proof -
  from assms(2,3) obtain rows row' where r: "cd_accounts db3 = rows @ [row']" "list_all2 kept_row (cd_accounts db1) rows" "kept_row row row'"
    by (auto simp: all_kept_def list_all2_append1 list_all2_Cons1)
  have "list_all2 kept_row (cd_accounts db) rows"
    using list_all2_trans [of kept_row kept_row kept_row] kept_row_trans assms(1) r(2) unfolding all_kept_def by blast
  with r show ?thesis by (auto simp: kept_row_def fixed_columns_def)
qed

lemma store_google_result: "case store_google_account env t u mg of (r, mg') \<Rightarrow> adding_result env (mg_db mg) (r, mg_db mg')"
proof -
  let ?a = "new_google_account (me_repo env) t u"
  obtain x db1 where x: "getAccounts (me_repo env) (mg_db mg) = (x, db1)" by fastforce
  let ?found = "map_sum id (find (\<lambda>a. js_lower (sa_email a) = js_lower (gu_email u))) x"
  have g: "getAccountByEmail (me_repo env) (gu_email u) (mg_db mg) = (?found, db1)" by (simp add: getAccountByEmail_def x)
  obtain y db2 where y: "addAccount (me_repo env) ?a db1 = (y, db2)" by fastforce
  obtain a' mg3 where z: "first_quota env ?a (mg\<lparr>mg_db := db2\<rparr>) = (a', mg3)" by fastforce
  note one = getAccounts_kept [OF x]
  have id: "sa_id ?a = re_uuid (me_repo env)" "sa_email ?a = gu_email u" "\<not> sa_is_active ?a" by (simp_all add: new_google_account_def Let_def)
  from first_quota_kept [OF z] have three: "all_kept db2 (mg_db mg3)" "sa_id a' = re_uuid (me_repo env)" "sa_email a' = gu_email u"
    using id by simp_all
  show ?thesis
  proof (cases "\<exists>accounts. x = Inr accounts \<and> find (\<lambda>a. js_lower (sa_email a) = js_lower (gu_email u)) accounts = None \<and> y = Inr ()")
    case True
    then obtain accounts where acc: "x = Inr accounts" "find (\<lambda>a. js_lower (sa_email a) = js_lower (gu_email u)) accounts = None" "y = Inr ()"
      by blast
    have "store_google_account env t u mg = (Inr a', mg3)"
      using g y z acc by (simp add: store_google_account_def on_store_def Let_def)
    moreover have "\<forall>b\<in>set accounts. js_lower (sa_email b) \<noteq> js_lower (sa_email a')" using acc(2) three(3) by (auto simp: find_None_iff)
    moreover have "\<exists>rows row. cd_accounts (mg_db mg3) = rows @ [row] \<and> list_all2 kept_row (cd_accounts (mg_db mg)) rows \<and>
        ar_id row = sa_id a' \<and> ar_email row = sa_email a'" if n: "sa_id a' \<notin> set (ids_of (mg_db mg))"
    proof -
      have "sa_id ?a \<notin> set (ids_of db1)" using n three(2) id(1) kept_ids [OF one] by simp
      from add_rows(2) [OF y acc(3) id(3) this] obtain row where "cd_accounts db2 = cd_accounts db1 @ [row]" "ar_id row = sa_id ?a" "ar_email row = sa_email ?a"
        by blast
      with kept_rows_more [OF one _ three(1)] three(2,3) id(1,2) show ?thesis by auto
    qed
    ultimately show ?thesis using x acc(1) three(2) by (simp add: adding_result_def)
  next
    case False
    have "\<exists>m db'. store_google_account env t u mg = (Inl m, mg\<lparr>mg_db := db'\<rparr>) \<and> cd_accounts db' = cd_accounts db1"
    proof (cases "\<exists>accounts. x = Inr accounts \<and> find (\<lambda>a. js_lower (sa_email a) = js_lower (gu_email u)) accounts = None")
      case True
      with False obtain e where "y = Inl e" by (cases y) auto
      with True g y add_rows(1) [OF y] show ?thesis by (auto simp: store_google_account_def on_store_def Let_def)
    next
      case False
      with g show ?thesis by (cases x) (auto simp: store_google_account_def on_store_def Let_def split: option.split)
    qed
    moreover have "list_all2 kept_row (cd_accounts (mg_db mg)) (cd_accounts db1)" by (rule kept_rows_same [OF one refl])
    ultimately show ?thesis by (auto simp: adding_result_def)
  qed
qed

lemma on_net_db: "on_net f mg = (r, mg') \<Longrightarrow> mg_db mg' = mg_db mg"
  by (auto simp: on_net_def split: prod.splits)

lemma sign_in_result: "case sign_in env reg code k mg of (r, mg') \<Rightarrow> adding_result env (mg_db mg) (r, mg_db mg')"
proof -
  obtain x mg1 where x: "on_net (exchangeCode (me_net env) (me_google env) reg code None k) mg = (x, mg1)" by fastforce
  show ?thesis
  proof (cases x)
    case (Inl m)
    with x on_net_db [OF x] show ?thesis by (simp add: sign_in_def adding_result_def list_all2_refl)
  next
    case (Inr t)
    obtain y mg2 where y: "on_net (getUserInfo (me_net env) (me_google env) (token_str t ''access_token'') None) mg1 = (y, mg2)" by fastforce
    have db: "mg_db mg2 = mg_db mg" using on_net_db [OF x] on_net_db [OF y] by simp
    show ?thesis
    proof (cases y)
      case (Inl m)
      with x y Inr db show ?thesis by (simp add: sign_in_def adding_result_def list_all2_refl)
    next
      case u: (Inr u)
      have "sign_in env reg code k mg = store_google_account env t u mg2" using x y Inr u by (simp add: sign_in_def)
      with store_google_result [where env = env and mg = mg2 and t = t and u = u] db show ?thesis by simp
    qed
  qed
qed

lemma choose_client_settings: "choose_client k o1 = (r, o2) \<Longrightarrow> \<exists>s. mg_db (of_manager o2) = (mg_db (of_manager o1))\<lparr>cd_settings := s\<rparr>"
proof -
  have same: "\<exists>s. db = db\<lparr>cd_settings := s\<rparr>" for db by (rule exI [of _ "cd_settings db"]) simp
  show "choose_client k o1 = (r, o2) \<Longrightarrow> ?thesis"
    using same [of "mg_db (of_manager o1)"]
    by (auto simp: choose_client_def setActiveOAuthClient_def hydrateActiveOAuthClientFromSettings_def save_setting_def store_do_def
      setSetting_def split: option.splits if_splits sum.splits json.splits)
qed

text \<open>The settings have no part in reading the accounts.\<close>

lemma field_settings: "decryptAndMigrateField env i col v (db\<lparr>cd_settings := s\<rparr>) =
    apsnd (\<lambda>d. d\<lparr>cd_settings := s\<rparr>) (decryptAndMigrateField env i col v db)"
  by (simp add: decryptAndMigrateField_def Let_def update_where_def split: sum.split prod.split)

lemma secrets_settings: "load_secrets env row (db\<lparr>cd_settings := s\<rparr>) = apsnd (\<lambda>d. d\<lparr>cd_settings := s\<rparr>) (load_secrets env row db)"
proof -
  obtain x db1 where x: "decryptAndMigrateField env (ar_id row) TokenColumn (Some (ar_tokenJson row)) db = (x, db1)" by fastforce
  obtain y db2 where y: "decryptAndMigrateField env (ar_id row) QuotaColumn (ar_quotaJson row) db1 = (y, db2)" by fastforce
  show ?thesis
    by (simp add: load_secrets_def field_settings x y split: sum.split sec_error.split)
qed

lemma rows_settings: "load_rows env rows (db\<lparr>cd_settings := s\<rparr>) = apsnd (\<lambda>d. d\<lparr>cd_settings := s\<rparr>) (load_rows env rows db)"
proof (induction rows arbitrary: db)
  case (Cons row rows)
  obtain x db1 where x: "load_secrets env row db = (x, db1)" by fastforce
  obtain y db2 where y: "load_rows env rows db1 = (y, db2)" by fastforce
  show ?case by (simp add: secrets_settings x Cons.IH y split: sum.split option.split prod.split)
qed simp

lemma accounts_settings: "fst (getAccounts env (db\<lparr>cd_settings := s\<rparr>)) = fst (getAccounts env db)"
  by (simp add: getAccounts_def rows_settings)

text \<open>C39: Adding an account signs in and then either stores one new account, or fails and keeps every stored account. It succeeds
  only when no account that can be read in the store has its e-mail address, whatever the case of the letters; then its
  identifier is the one drawn, and if that is new to the store, exactly one row is added, with the address, and all others
  are kept. A quota that cannot be read or stored does not undo it. (An account that cannot be read does not count as
  having its address.)\<close>

theorem adding_stores_one_account:
  "case addGoogleAccount env code k o1 of (r, o2) \<Rightarrow> adding_result env (mg_db (of_manager o1)) (r, mg_db (of_manager o2))"
proof -
  obtain c o2 where c: "choose_client k o1 = (c, o2)" by fastforce
  obtain s where s: "mg_db (of_manager o2) = (mg_db (of_manager o1))\<lparr>cd_settings := s\<rparr>" using choose_client_settings [OF c] by blast
  have rows: "cd_accounts (mg_db (of_manager o2)) = cd_accounts (mg_db (of_manager o1))" by (simp add: s)
  have base: "adding_result env (mg_db (of_manager o1)) out \<longleftrightarrow> adding_result env (mg_db (of_manager o2)) out" for out
    unfolding adding_result_def ids_of_def rows unfolding s accounts_settings ..
  show ?thesis
  proof (cases c)
    case (Inl m)
    with c show ?thesis by (simp add: addGoogleAccount_def base) (simp add: adding_result_def list_all2_refl)
  next
    case (Inr _)
    with c sign_in_result [where env = env and mg = "of_manager o2" and reg = "of_registry o2" and code = code and k = k] show ?thesis
      by (auto simp: addGoogleAccount_def on_office_def base split: prod.splits)
  qed
qed

subsection \<open>What an import changes\<close>

definition counted :: "import_result \<Rightarrow> nat" where
  "counted res = ir_imported res + ir_skipped res + ir_updated res + length (ir_errors res)"

lemma load_rows_ids: "load_rows env rows db = (Inr as, db') \<Longrightarrow> sa_id ` set as \<subseteq> ar_id ` set rows"
proof (induction rows arbitrary: db as db')
  case (Cons row rows)
  obtain x db1 where x: "load_secrets env row db = (x, db1)" by fastforce
  obtain y db2 where y: "load_rows env rows db1 = (y, db2)" by fastforce
  have p: "parse_account env row t q = Inr a \<Longrightarrow> sa_id a = ar_id row" for t q a
    by (auto simp: parse_account_def split: option.splits sum.splits)
  have "\<exists>as1. y = Inr as1 \<and> (as = as1 \<or> (\<exists>a. as = a # as1 \<and> sa_id a = ar_id row))"
  proof (cases x)
    case (Inr found)
    show ?thesis
    proof (cases found)
      case None
      with Cons.prems x y Inr show ?thesis by simp
    next
      case (Some tq)
      obtain t q where tq: "tq = (t, q)" by fastforce
      from Cons.prems x y Inr Some tq show ?thesis
        by (cases "parse_account env row t q"; cases y) (auto dest: p)
    qed
  qed (use Cons.prems x in simp)
  then obtain as1 where as1: "y = Inr as1" "as = as1 \<or> (\<exists>a. as = a # as1 \<and> sa_id a = ar_id row)" by blast
  from Cons.IH [of db1 as1 db2] y as1(1) have "sa_id ` set as1 \<subseteq> ar_id ` set rows" by simp
  moreover have "sa_id ` set as \<subseteq> insert (ar_id row) (sa_id ` set as1)" using as1(2) by auto
  ultimately show ?case by (simp only: list.set image_insert) blast
qed simp

lemma getAccounts_ids: "getAccounts env db = (Inr as, db') \<Longrightarrow> sa_id ` set as \<subseteq> set (ids_of db)"
  unfolding getAccounts_def by (drule load_rows_ids) (simp add: ids_of_def)

definition grows :: "nat \<Rightarrow> cloud_db \<Rightarrow> cloud_db \<Rightarrow> bool" where
  "grows n db db' \<longleftrightarrow> (\<exists>new. ids_of db' = ids_of db @ new \<and> length new \<le> n) \<and> cd_settings db' = cd_settings db"

lemma grows_refl [simp]: "grows n db db"
  by (simp add: grows_def)

lemma grows_trans: "grows m d1 d2 \<Longrightarrow> grows n d2 d3 \<Longrightarrow> grows (m + n) d1 d3"
proof -
  assume g: "grows m d1 d2" "grows n d2 d3"
  then obtain x y where "ids_of d2 = ids_of d1 @ x" "length x \<le> m" "ids_of d3 = ids_of d2 @ y" "length y \<le> n"
    by (auto simp: grows_def)
  then have "ids_of d3 = ids_of d1 @ (x @ y)" "length (x @ y) \<le> m + n" by simp_all
  with g show ?thesis unfolding grows_def by metis
qed

lemma try_add_grows:
  assumes "try_add env account db = (r, db')"
  shows "grows (if r = None then 1 else 0) db db'" "account = Some a \<Longrightarrow> sa_id a \<in> set (ids_of db) \<Longrightarrow> grows 0 db db'"
proof -
  have "(grows (if r = None then 1 else 0) db db') \<and> (\<forall>a. account = Some a \<longrightarrow> sa_id a \<in> set (ids_of db) \<longrightarrow> grows 0 db db')"
  proof (cases account)
    case (Some b)
    obtain x db1 where x: "addAccount env b db = (x, db1)" by fastforce
    with assms Some add_ids [OF x] show ?thesis
      by (cases x) (auto simp: try_add_def grows_def with_id_def)
  qed (use assms in \<open>simp add: try_add_def\<close>)
  then show "grows (if r = None then 1 else 0) db db'" "account = Some a \<Longrightarrow> sa_id a \<in> set (ids_of db) \<Longrightarrow> grows 0 db db'" by blast+
qed

lemma updated_id: "updated_account now v old = Some a \<Longrightarrow> sa_id a = sa_id old"
  by (auto simp: updated_account_def split: option.splits)

lemma import_one_grows:
  assumes "import_one env strategy existing uuid v (res, db) = (res', db')" "sa_id ` set existing \<subseteq> set (ids_of db)"
  shows "counted res' = Suc (counted res)" "grows (ir_imported res' - ir_imported res) db db'" "ir_imported res \<le> ir_imported res'"
proof -
  let ?now = "of_int \<lfloor>re_now env / 1000\<rfloor> :: rat"
  have "counted res' = Suc (counted res) \<and> grows (ir_imported res' - ir_imported res) db db' \<and> ir_imported res \<le> ir_imported res'"
  proof (cases "find (same_email v) (rev existing)")
    case None
    obtain r db1 where r: "try_add env (created_account uuid ?now v) db = (r, db1)" by fastforce
    from try_add_grows(1) [OF r] assms(1) None r show ?thesis
      by (cases r) (auto simp: import_one_def counted_def Let_def)
  next
    case (Some old)
    then have old: "sa_id old \<in> set (ids_of db)" using assms(2) by (auto simp: find_Some_iff) (metis (no_types, lifting) image_subset_iff length_rev nth_mem set_rev)
    obtain r db1 where r: "try_add env (updated_account ?now v old) db = (r, db1)" by fastforce
    have g: "grows 0 db db1"
    proof (cases "updated_account ?now v old")
      case (Some a)
      from try_add_grows(2) [OF r Some] updated_id [OF Some] old show ?thesis by simp
    qed (use r in \<open>simp add: try_add_def\<close>)
    with assms(1) Some r show ?thesis
      by (cases r) (auto simp: import_one_def counted_def Let_def split: if_splits)
  qed
  then show "counted res' = Suc (counted res)" "grows (ir_imported res' - ir_imported res) db db'" "ir_imported res \<le> ir_imported res'" by blast+
qed

lemma grows_ids: "grows n db db' \<Longrightarrow> set (ids_of db) \<subseteq> set (ids_of db')"
  by (auto simp: grows_def)

lemma import_all_grows:
  assumes "import_all env strategy existing uuids n vs (res, db) = (res', db')" "sa_id ` set existing \<subseteq> set (ids_of db)"
  shows "counted res' = counted res + length vs \<and> grows (ir_imported res' - ir_imported res) db db' \<and> ir_imported res \<le> ir_imported res'"
  using assms
proof (induction vs arbitrary: n res db)
  case (Cons v vs)
  obtain res1 db1 where one: "import_one env strategy existing (uuids n) v (res, db) = (res1, db1)" by fastforce
  note o = import_one_grows [OF one Cons.prems(2)]
  have "sa_id ` set existing \<subseteq> set (ids_of db1)" using grows_ids [OF o(2)] Cons.prems(2) by blast
  from Cons.IH [OF _ this, of "Suc n" res1] Cons.prems(1) one
  have i: "counted res' = counted res1 + length vs" "grows (ir_imported res' - ir_imported res1) db1 db'" "ir_imported res1 \<le> ir_imported res'"
    by simp_all
  from grows_trans [OF o(2) i(2)] o(1,3) i(1,3) show ?case by simp
qed simp

text \<open>C38: An import that is carried out accounts for every account of the file: each is counted once, as imported, skipped, updated or
  failed; no stored account disappears, at most as many appear as are counted as imported, and the settings stay.\<close>

theorem import_accounts_for_every_account:
  assumes "importCloudAccounts env uuids content strategy db = (Inr res, db')"
  shows "\<exists>v new. json_parse content = Some v \<and> counted res = length (file_accounts v) \<and> ids_of db' = ids_of db @ new \<and>
    length new \<le> ir_imported res \<and> cd_settings db' = cd_settings db"
proof -
  obtain v where v: "json_parse content = Some v" using assms by (auto simp: importCloudAccounts_def split: option.splits)
  obtain x db1 where x: "getAccounts env db = (x, db1)" by fastforce
  obtain existing where e: "x = Inr existing" "import_all env strategy existing uuids 0 (file_accounts v) (no_imports, db1) = (res, db')"
    using assms v x by (auto simp: importCloudAccounts_def split: if_splits option.splits sum.splits prod.splits)
  have k: "ids_of db1 = ids_of db" "cd_settings db1 = cd_settings db" using kept_ids [OF getAccounts_kept [OF x]] by simp_all
  have "sa_id ` set existing \<subseteq> set (ids_of db1)" using getAccounts_ids x e(1) k(1) by simp
  from import_all_grows [OF e(2) this] k show ?thesis using v
    by (auto simp: grows_def counted_def no_imports_def)
qed

definition sample_file :: json where
  "sample_file = export_file False 5 [sample_account]"

lemma import_accounts_for_every_account_witness:
  "\<exists>res db'. importCloudAccounts sample_env (\<lambda>_. ''n'') (json_stringify sample_file) Merge empty_db = (Inr res, db') \<and>
     ir_imported res = 1 \<and> length (ids_of db') \<le> 1 \<and> cd_settings db' = cd_settings empty_db"
proof -
  have parse: "json_parse (json_stringify sample_file) = Some sample_file"
    by (rule json_parse_stringify) code_simp
  have ok: "CloudAccountExportSchema sample_file" "first_duplicate [] (file_accounts sample_file) = None"
    "file_accounts sample_file = [exported_account False sample_account]" by code_simp+
  have "case created_account ''n'' 5 (exported_account False sample_account) of Some a \<Rightarrow> CloudAccountSchema a \<and> sa_quota a = None | None \<Rightarrow> False"
    by code_simp
  then obtain a where a: "created_account ''n'' 5 (exported_account False sample_account) = Some a" "CloudAccountSchema a" "sa_quota a = None"
    by (auto split: option.splits)
  obtain db1 where db1: "addAccount sample_env a empty_db = (Inr (), db1)" using add_on_empty [OF a(2,3)] by blast
  have g: "getAccounts sample_env empty_db = (Inr [], empty_db)" by (simp add: getAccounts_def empty_db_def)
  have now: "of_int \<lfloor>re_now sample_env / 1000\<rfloor> = (5 :: rat)" by (simp add: sample_env_def)
  have r: "importCloudAccounts sample_env (\<lambda>_. ''n'') (json_stringify sample_file) Merge empty_db = (Inr (no_imports\<lparr>ir_imported := 1\<rparr>), db1)"
    by (simp add: importCloudAccounts_def parse ok g import_one_def now a try_add_def db1) (simp add: no_imports_def)
  from import_accounts_for_every_account [OF r] parse ok(3) show ?thesis
    unfolding r by (auto simp: no_imports_def ids_of_def empty_db_def)
qed

subsection \<open>Identity profiles of an account\<close>

text \<open>The baseline counts as none when it does not have the form of a profile.\<close>

definition baseline_profile :: "desk \<Rightarrow> device_profile option" where
  "baseline_profile d = Option.bind (loadGlobalOriginalProfile (de_disk d)) typed_profile"

definition captured_profile :: "disk \<Rightarrow> string + device_profile" where
  "captured_profile d = (case dk_storage d of None \<Rightarrow> Inl ''storage_json_not_found'' | Some content \<Rightarrow> readCurrentDeviceProfile content)"

definition with_account :: "'v desk_env \<Rightarrow> string \<Rightarrow> (stored_account \<Rightarrow> desk \<Rightarrow> (string + 'a) \<times> desk) \<Rightarrow> desk \<Rightarrow> (string + 'a) \<times> desk" where
  "with_account env i f d =
     (case on_manager (on_store (getAccount (me_repo (se_manager env)) i)) d of
        (Inl m, d1) \<Rightarrow> (Inl m, d1)
      | (Inr None, d1) \<Rightarrow> (Inl (account_missing i), d1)
      | (Inr (Some a), d1) \<Rightarrow> f a d1)"

definition bind_profile_to :: "'v desk_env \<Rightarrow> string \<Rightarrow> device_profile \<Rightarrow> stored_account \<Rightarrow> desk \<Rightarrow> (string + device_profile) \<times> desk" where
  "bind_profile_to env label p a d =
     (let d1 = d\<lparr>de_disk := saveGlobalOriginalProfile p (ensureGlobalOriginalFromCurrentStorage (de_disk d))\<rparr>
      in (case on_manager (on_store (setDeviceBinding (me_repo (se_manager env)) (sa_id a) p label)) d1 of
            (Inl m, d2) \<Rightarrow> (Inl m, d2)
          | (Inr _, d2) \<Rightarrow> (Inr p, d2)))"

definition bindCloudIdentityProfile :: "'v desk_env \<Rightarrow> string \<Rightarrow> bool \<Rightarrow> desk \<Rightarrow> (string + device_profile) \<times> desk" where
  "bindCloudIdentityProfile env i capture =
     with_account env i (\<lambda>a d.
       case (if capture then captured_profile (de_disk d) else generateDeviceProfile (se_sha256 env) (se_random env)) of
         Inl m \<Rightarrow> (Inl m, d)
       | Inr p \<Rightarrow> bind_profile_to env (if capture then ''capture'' else ''generate'') p a d)"

definition bindCloudIdentityProfileWithPayload :: "'v desk_env \<Rightarrow> string \<Rightarrow> device_profile \<Rightarrow> desk \<Rightarrow> (string + device_profile) \<times> desk" where
  "bindCloudIdentityProfileWithPayload env i p = with_account env i (bind_profile_to env ''generated'' p)"

definition restoreCloudIdentityProfileRevision :: "'v desk_env \<Rightarrow> string \<Rightarrow> string \<Rightarrow> desk \<Rightarrow> (string + device_profile option) \<times> desk" where
  "restoreCloudIdentityProfileRevision env i versionId d =
     on_manager (on_store (restoreDeviceVersion (me_repo (se_manager env)) i versionId (baseline_profile d))) d"

definition restoreCloudBaselineProfile :: "'v desk_env \<Rightarrow> string \<Rightarrow> desk \<Rightarrow> (string + device_profile option) \<times> desk" where
  "restoreCloudBaselineProfile env i d =
     (if baseline_profile d = None then (Inl ''Global original profile not found'', d)
      else restoreCloudIdentityProfileRevision env i ''baseline'' d)"

definition setAutoSwitchEnabled :: "'v desk_env \<Rightarrow> bool \<Rightarrow> desk \<Rightarrow> notice list \<times> desk" where
  "setAutoSwitchEnabled env enabled d =
     (let d1 = d\<lparr>de_manager := store_do (setSetting ''auto_switch_enabled'' (JBool enabled)) (de_manager d)\<rparr>
      in if enabled then snd (monitor_poll env d1) else ([], d1))"

text \<open>The first profile that is bound becomes the baseline, unless there is one in the storage file, and stays it.\<close>

lemma baseline_is_kept: "dk_baseline d \<noteq> None \<Longrightarrow> dk_baseline (saveGlobalOriginalProfile p (ensureGlobalOriginalFromCurrentStorage d)) = dk_baseline d"
  by (auto simp: saveGlobalOriginalProfile_def ensureGlobalOriginalFromCurrentStorage_def split: option.split sum.split)

subsection \<open>What surprises\<close>

text \<open>An export without tokens fails its own check as soon as there is an account, and merging is overwriting.\<close>

lemma given_member_other [simp]: "k \<noteq> k' \<Longrightarrow> map_of (given_member k v) k' = None"
  by (simp add: given_member_def split: option.split)

lemma stripped_account_is_refused: "\<not> exported_account_ok (exported_account True a)"
proof -
  have "\<exists>m. exported_account True a = JObj m \<and> map_of m ''token'' = None"
    by (simp add: exported_account_def map_add_None)
  then show ?thesis by (auto simp: exported_account_ok_def object_with_def required_def)
qed

lemma stripped_export_fails:
  assumes "on_store (getAccounts (me_repo env)) mg = (Inr (a # as), mg1)"
  shows "exportCloudAccounts env True mg = (Inl ''ZodError'', mg1)"
  using assms stripped_account_is_refused [of a]
  by (simp add: exportCloudAccounts_def Let_def CloudAccountExportSchema_def export_file_def jget_def)

lemma merge_is_overwrite: "import_one env Merge existing uuid v rd = import_one env Overwrite existing uuid v rd"
  by (cases rd; cases "find (same_email v) (rev existing)") (simp_all add: import_one_def)

end
