(* ===== verification/Endpoints.thy ===== *)
theory Endpoints
  imports OpenAiRequest OpenAiStream JsonText
begin

section \<open>The endpoints of the gateway\<close>

text \<open>
  What \<open>proxy-gateway/server/proxy.controller.ts\<close>, \<open>gemini.controller.ts\<close> and the guards do around the handlers: the check of
  the client's key, the requests of the other endpoints turned into chat or Gemini requests, and answers and errors turned
  into replies. The handlers' results are arguments; headers have lower-case names, as the server gives them.
\<close>

subsection \<open>The client's key\<close>

datatype header_value = OneValue string | Values "string list"

type_synonym headers = "header_value js_map"

definition hasConfiguredApiKey :: "string option \<Rightarrow> bool" where
  "hasConfiguredApiKey apiKey = (case apiKey of None \<Rightarrow> False | Some k \<Rightarrow> js_trim k \<noteq> [])"

definition readHeaderValue :: "header_value option \<Rightarrow> string option" where
  "readHeaderValue v =
     (case v of
        None \<Rightarrow> None
      | Some (OneValue s) \<Rightarrow> if js_trim s = [] then None else Some (js_trim s)
      | Some (Values ss) \<Rightarrow> find (\<lambda>s. s \<noteq> []) (map js_trim ss))"

text \<open>\<open>text.split(/\s+/)\<close> on a trimmed text\<close>

fun ws_words :: "string \<Rightarrow> string \<Rightarrow> string list" where
  "ws_words word [] = [rev word]"
| "ws_words word (c # cs) =
     (if is_ws c then (if word = [] then ws_words [] cs else rev word # ws_words [] cs) else ws_words (c # word) cs)"

definition bearer_token :: "string \<Rightarrow> string option" where
  "bearer_token header =
     (case ws_words [] (js_trim header) of
        [scheme, token] \<Rightarrow> if token \<noteq> [] \<and> js_lower scheme = ''bearer'' then Some token else None
      | _ \<Rightarrow> None)"

definition extractApiKeyToken :: "headers \<Rightarrow> string option" where
  "extractApiKeyToken hs =
     (case Option.bind (readHeaderValue (map_of hs ''authorization'')) bearer_token of
        Some token \<Rightarrow> Some token
      | None \<Rightarrow>
          (case readHeaderValue (map_of hs ''x-api-key'') of
             Some k \<Rightarrow> Some k
           | None \<Rightarrow> readHeaderValue (map_of hs ''x-goog-api-key'')))"

definition proxy_guard :: "string option \<Rightarrow> headers \<Rightarrow> bool" where
  "proxy_guard apiKey hs = (\<not> hasConfiguredApiKey apiKey \<or> extractApiKeyToken hs = apiKey)"

definition admin_guard :: "string option \<Rightarrow> headers \<Rightarrow> bool" where
  "admin_guard apiKey hs =
     (if \<not> hasConfiguredApiKey apiKey then True
      else (case extractApiKeyToken hs of None \<Rightarrow> False | Some t \<Rightarrow> t \<noteq> [] \<and> Some t = apiKey))"

subsection \<open>Reading untyped values\<close>

definition toRecord :: "json option \<Rightarrow> members option" where
  "toRecord v = (case v of Some (JObj m) \<Rightarrow> Some m | _ \<Rightarrow> None)"

definition asString :: "json option \<Rightarrow> string option" where
  "asString v = (case v of Some (JStr s) \<Rightarrow> Some s | _ \<Rightarrow> None)"

definition field_of :: "members option \<Rightarrow> string \<Rightarrow> json option" where
  "field_of m k = Option.bind m (\<lambda>m. map_of m k)"

definition given_string :: "json option \<Rightarrow> string option" where
  "given_string v = (case asString v of Some (c # cs) \<Rightarrow> Some (c # cs) | _ \<Rightarrow> None)"

definition str_or :: "string option \<Rightarrow> string \<Rightarrow> string" where
  "str_or s d = (case s of Some t \<Rightarrow> t | None \<Rightarrow> d)"

subsection \<open>Legacy completions\<close>

definition normalizeCompletionPrompt :: "(string + string list) option \<Rightarrow> string" where
  "normalizeCompletionPrompt prompt =
     (case prompt of None \<Rightarrow> [] | Some (Inl s) \<Rightarrow> s | Some (Inr ss) \<Rightarrow> join newline ss)"

definition user_message :: "openai_content \<Rightarrow> openai_message" where
  "user_message content = \<lparr>om_role = ''user'', om_content = content, om_name = None, om_tool_calls = None, om_tool_call_id = None\<rparr>"

record completions_body =
  pb_model :: "string option"
  pb_prompt :: "(string + string list) option"
  pb_max_tokens :: "rat option"
  pb_temperature :: "rat option"
  pb_top_p :: "rat option"

definition completions_request :: "completions_body \<Rightarrow> openai_request" where
  "completions_request b =
     \<lparr>oq_model = str_or (pb_model b) ''gemini-3-flash'', oq_messages = [user_message (OText (normalizeCompletionPrompt (pb_prompt b)))],
      oq_temperature = pb_temperature b, oq_top_p = pb_top_p b, oq_max_tokens = pb_max_tokens b, oq_tools = None, oq_extra = None\<rparr>"

definition toLegacyTextCompletionsResponse :: "openai_response \<Rightarrow> json" where
  "toLegacyTextCompletionsResponse r =
     JObj [(''id'', JStr (op_id r)), (''object'', JStr ''text_completion''), (''created'', JNum (op_created r)), (''model'', JStr (op_model r)),
       (''choices'', JArr [JObj [(''text'', JStr (case op_content r of Some t \<Rightarrow> t | None \<Rightarrow> [])), (''index'', JNum 0), (''logprobs'', JNull),
          (''finish_reason'', case op_finish r of None \<Rightarrow> JNull | Some f \<Rightarrow> JStr f)]]),
       (''usage'', op_usage r)]"

subsection \<open>Responses\<close>

record responses_body =
  rb_model :: "string option"
  rb_instructions :: "json option"
  rb_input :: "json option"
  rb_tools :: "openai_tool option list option"
  rb_max_output_tokens :: "rat option"
  rb_temperature :: "rat option"
  rb_top_p :: "rat option"

definition input_item_text :: "json \<Rightarrow> string" where
  "input_item_text item =
     (case item of
        JStr s \<Rightarrow> s
      | _ \<Rightarrow> (case given_string (field_of (toRecord (Some item)) ''content'') of Some c \<Rightarrow> c | None \<Rightarrow> json_stringify item))"

definition normalizeResponsesInput :: "json option \<Rightarrow> string" where
  "normalizeResponsesInput input =
     (case input of
        None \<Rightarrow> [] | Some JNull \<Rightarrow> [] | Some (JStr s) \<Rightarrow> s
      | Some (JArr items) \<Rightarrow> join newline (map input_item_text items)
      | Some v \<Rightarrow> json_stringify v)"

definition resolveImageUrl :: "members \<Rightarrow> string option" where
  "resolveImageUrl block =
     (case map_of block ''image_url'' of
        Some (JStr s) \<Rightarrow> Some s
      | raw \<Rightarrow> given_string (field_of (toRecord raw) ''url''))"

definition content_text :: "members \<Rightarrow> string option" where
  "content_text b = (if asString (map_of b ''type'') \<in> {Some ''input_text'', Some ''text'', Some ''output_text''} then given_string (map_of b ''text'') else None)"

definition content_image :: "members \<Rightarrow> string option" where
  "content_image b =
     (if asString (map_of b ''type'') \<in> {Some ''input_image'', Some ''image_url''}
      then (case resolveImageUrl b of Some (c # cs) \<Rightarrow> Some (c # cs) | _ \<Rightarrow> None) else None)"

definition normalizeResponsesMessageContent :: "json option \<Rightarrow> openai_content" where
  "normalizeResponsesMessageContent content =
     (case content of
        Some (JStr s) \<Rightarrow> OText s
      | Some (JArr items) \<Rightarrow>
          (let blocks = List.map_filter (\<lambda>i. toRecord (Some i)) items; texts = List.map_filter content_text blocks;
               images = List.map_filter content_image blocks
           in if images = [] then OText (join newline texts)
              else OParts ((if texts = [] then [] else [OTextPart (Some (join newline texts))]) @ map (\<lambda>u. OImagePart (Some u)) images))
      | _ \<Rightarrow> OText (normalizeResponsesInput content))"

definition resolveToolArguments :: "string \<Rightarrow> members \<Rightarrow> json" where
  "resolveToolArguments kind item =
     (let action = toRecord (map_of item ''action'')
      in if kind = ''local_shell_call''
         then JObj [(''command'', JArr (case given_string (field_of (toRecord (field_of action ''exec'')) ''command'') of Some c \<Rightarrow> [JStr c] | None \<Rightarrow> []))]
         else if kind = ''web_search_call'' then JObj [(''query'', JStr (str_or (asString (field_of action ''query'')) []))]
         else (case map_of item ''arguments'' of
                 Some (JStr raw) \<Rightarrow>
                   (case json_parse raw of
                      Some (JObj m) \<Rightarrow> JObj m
                    | Some v \<Rightarrow> JObj [(''value'', v)]
                    | None \<Rightarrow> JObj [(''raw'', JStr raw)])
               | Some (JObj m) \<Rightarrow> JObj m
               | _ \<Rightarrow> JObj []))"

definition normalizeResponsesOutput :: "json option \<Rightarrow> string" where
  "normalizeResponsesOutput output =
     (case output of
        Some (JStr s) \<Rightarrow> s
      | _ \<Rightarrow>
          (case given_string (field_of (toRecord output) ''content'') of
             Some c \<Rightarrow> c
           | None \<Rightarrow> (case output of None \<Rightarrow> [] | Some JNull \<Rightarrow> [] | Some v \<Rightarrow> json_stringify v)))"

definition call_kinds :: "string list" where
  "call_kinds = [''function_call'', ''local_shell_call'', ''web_search_call'']"

definition item_kind :: "members \<Rightarrow> string option" where
  "item_kind item = given_string (map_of item ''type'')"

text \<open>\<open>stamp\<close> is the identifier made from the time, which stands still.\<close>

definition item_call_id :: "string \<Rightarrow> members \<Rightarrow> string" where
  "item_call_id fallback item =
     (case asString (map_of item ''call_id'') of Some s \<Rightarrow> s | None \<Rightarrow> str_or (asString (map_of item ''id'')) fallback)"

definition call_name :: "string \<Rightarrow> members \<Rightarrow> string" where
  "call_name kind item =
     (if kind = ''local_shell_call'' then ''shell'' else if kind = ''web_search_call'' then ''builtin_web_search''
      else str_or (asString (map_of item ''name'')) ''unknown'')"

definition note_call :: "string \<Rightarrow> members \<Rightarrow> string js_map \<Rightarrow> string js_map" where
  "note_call stamp item m =
     (case item_kind item of
        Some kind \<Rightarrow> if kind \<in> set call_kinds then AList.update (item_call_id stamp item) (call_name kind item) m else m
      | None \<Rightarrow> m)"

definition callIdToToolName :: "string \<Rightarrow> members list \<Rightarrow> string js_map" where
  "callIdToToolName stamp items = fold (note_call stamp) items []"

definition item_message :: "string \<Rightarrow> string js_map \<Rightarrow> members \<Rightarrow> openai_message option" where
  "item_message stamp names item =
     (case item_kind item of
        None \<Rightarrow> None
      | Some kind \<Rightarrow>
          if kind = ''message''
          then Some \<lparr>om_role = str_or (asString (map_of item ''role'')) ''user'',
                 om_content = normalizeResponsesMessageContent (map_of item ''content''), om_name = None, om_tool_calls = None, om_tool_call_id = None\<rparr>
          else if kind \<in> set call_kinds
          then (let callId = item_call_id stamp item
                in Some \<lparr>om_role = ''assistant'', om_content = OText [], om_name = None,
                     om_tool_calls = Some [\<lparr>otc_id = callId, otc_name = str_or (map_of names callId) ''unknown'',
                        otc_arguments = json_stringify (resolveToolArguments kind item)\<rparr>], om_tool_call_id = None\<rparr>)
          else if kind \<in> {''function_call_output'', ''custom_tool_call_output''}
          then (let callId = item_call_id ''unknown'' item
                in Some \<lparr>om_role = ''tool'', om_content = OText (normalizeResponsesOutput (map_of item ''output'')),
                     om_name = Some (str_or (map_of names callId) ''unknown''), om_tool_calls = None, om_tool_call_id = Some callId\<rparr>)
          else None)"

definition input_messages :: "string \<Rightarrow> json option \<Rightarrow> openai_message list" where
  "input_messages stamp input =
     (case input of
        Some (JArr items) \<Rightarrow>
          (let records = List.map_filter (\<lambda>i. toRecord (Some i)) items
           in List.map_filter (item_message stamp (callIdToToolName stamp records)) records)
      | Some (JStr s) \<Rightarrow> [user_message (OText s)]
      | None \<Rightarrow> [] | Some JNull \<Rightarrow> []
      | Some v \<Rightarrow> [user_message (OText (normalizeResponsesInput (Some v)))])"

definition instruction_messages :: "json option \<Rightarrow> openai_message list" where
  "instruction_messages instructions =
     (case instructions of
        Some (JStr s) \<Rightarrow>
          if js_trim s = [] then []
          else [\<lparr>om_role = ''system'', om_content = OText s, om_name = None, om_tool_calls = None, om_tool_call_id = None\<rparr>]
      | _ \<Rightarrow> [])"

definition buildResponsesChatRequest :: "string \<Rightarrow> responses_body \<Rightarrow> openai_request" where
  "buildResponsesChatRequest stamp b =
     (let messages = instruction_messages (rb_instructions b) @ input_messages stamp (rb_input b)
      in \<lparr>oq_model = str_or (rb_model b) ''gemini-3-flash'',
          oq_messages = (if messages = [] then [user_message (OText [])] else messages),
          oq_temperature = rb_temperature b, oq_top_p = rb_top_p b, oq_max_tokens = rb_max_output_tokens b, oq_tools = rb_tools b,
          oq_extra = None\<rparr>)"

subsection \<open>Inline data\<close>

definition data_char :: "char \<Rightarrow> bool" where
  "data_char c \<longleftrightarrow> CHR ''A'' \<le> c \<and> c \<le> CHR ''Z'' \<or> CHR ''a'' \<le> c \<and> c \<le> CHR ''z'' \<or> CHR ''0'' \<le> c \<and> c \<le> CHR ''9'' \<or> c \<in> {CHR ''+'', CHR ''/'', CHR ''=''}"

definition data_url :: "string \<times> string \<Rightarrow> string" where
  "data_url = (\<lambda>(mime, data). ''data:'' @ mime @ '';base64,'' @ data)"

definition whole_data_url :: "string \<Rightarrow> (string \<times> string) option" where
  "whole_data_url s =
     (let r = drop 5 s; mime = takeWhile (\<lambda>c. c \<noteq> CHR '';'') r; rest = dropWhile (\<lambda>c. c \<noteq> CHR '';'') r; data = drop 8 rest
      in if starts_with s ''data:'' \<and> mime \<noteq> [] \<and> starts_with rest '';base64,'' \<and> data \<noteq> [] \<and> list_all data_char data
         then Some (mime, data) else None)"

definition inline_text :: "string \<Rightarrow> (string \<times> string) option" where
  "inline_text s =
     (case whole_data_url s of
        Some md \<Rightarrow> Some md
      | None \<Rightarrow> (let cleaned = filter (\<lambda>c. \<not> is_ws c) s in if cleaned = [] then None else Some (''audio/mpeg'', cleaned)))"

definition resolveInlineData :: "json option \<Rightarrow> (string \<times> string) option" where
  "resolveInlineData input =
     (case input of
        Some (JStr s) \<Rightarrow> inline_text s
      | Some (JObj m) \<Rightarrow>
          (case given_string (map_of m ''data'') of
             None \<Rightarrow> None
           | Some data \<Rightarrow> Some (str_or (asString (map_of m ''mimeType'')) ''audio/mpeg'', data))
      | _ \<Rightarrow> None)"

definition collectImageContentParts :: "json option list \<Rightarrow> openai_part list" where
  "collectImageContentParts entries = map (\<lambda>md. OImagePart (Some (data_url md))) (List.map_filter resolveInlineData entries)"

definition mime_char :: "char \<Rightarrow> bool" where
  "mime_char c \<longleftrightarrow> CHR ''A'' \<le> c \<and> c \<le> CHR ''Z'' \<or> CHR ''a'' \<le> c \<and> c \<le> CHR ''z'' \<or> CHR ''0'' \<le> c \<and> c \<le> CHR ''9'' \<or>
     c \<in> {CHR ''_'', CHR ''/'', CHR ''+'', CHR ''.'', CHR ''-''}"

definition image_here :: "string \<Rightarrow> (string \<times> string) option" where
  "image_here s =
     (let r = drop 5 s; mime = takeWhile mime_char r; rest = dropWhile mime_char r; data = takeWhile data_char (drop 8 rest)
      in if starts_with s ''data:'' \<and> mime \<noteq> [] \<and> starts_with rest '';base64,'' \<and> data \<noteq> [] then Some (mime, data) else None)"

fun extractInlineBase64Image :: "string \<Rightarrow> (string \<times> string) option" where
  "extractInlineBase64Image [] = None"
| "extractInlineBase64Image (c # cs) =
     (case image_here (c # cs) of Some md \<Rightarrow> Some md | None \<Rightarrow> extractInlineBase64Image cs)"

definition response_parts :: "json \<Rightarrow> json list" where
  "response_parts response =
     (case jget response ''candidates'' of
        Some (JArr (c # _)) \<Rightarrow> (case jget_opt (jget c ''content'') ''parts'' of Some (JArr ps) \<Rightarrow> ps | _ \<Rightarrow> [])
      | _ \<Rightarrow> [])"

definition part_image :: "json \<Rightarrow> (string \<times> string) option" where
  "part_image p =
     (case given_string (jget_opt (jget p ''inlineData'') ''data'') of
        Some data \<Rightarrow> Some (str_or (asString (jget_opt (jget p ''inlineData'') ''mimeType'')) ''image/jpeg'', data)
      | None \<Rightarrow> (case given_string (jget p ''text'') of None \<Rightarrow> None | Some t \<Rightarrow> extractInlineBase64Image t))"

definition extractInlineBase64ImageFromGeminiResponse :: "json \<Rightarrow> (string \<times> string) option" where
  "extractInlineBase64ImageFromGeminiResponse response =
     (case List.map_filter part_image (response_parts response) of [] \<Rightarrow> None | md # _ \<Rightarrow> Some md)"

subsection \<open>Images and transcriptions\<close>

definition edit_prompt :: string where
  "edit_prompt = ''Please edit this image based on the provided instruction.''"

definition image_prompt :: string where
  "image_prompt = ''Please generate an image based on this request.''"

definition image_request :: "string option \<Rightarrow> openai_content \<Rightarrow> openai_request" where
  "image_request model content =
     \<lparr>oq_model = str_or model ''gemini-3-pro-image'', oq_messages = [user_message content], oq_temperature = None, oq_top_p = None,
      oq_max_tokens = None, oq_tools = None, oq_extra = None\<rparr>"

definition generation_request :: "string option \<Rightarrow> string option \<Rightarrow> openai_request" where
  "generation_request model prompt = image_request model (OText (str_or prompt []))"

definition edit_request :: "string option \<Rightarrow> string option \<Rightarrow> json option list \<Rightarrow> openai_request" where
  "edit_request model prompt entries =
     (let images = collectImageContentParts entries
      in image_request model (if images = [] then OText (str_or prompt edit_prompt) else OParts (OTextPart (Some (str_or prompt edit_prompt)) # images)))"

definition hasMultipartBoundary :: "json option \<Rightarrow> bool" where
  "hasMultipartBoundary contentType =
     (case contentType of
        Some (JStr s) \<Rightarrow> str_contains (js_lower s) ''multipart/form-data'' \<and> str_contains (js_lower s) ''boundary=''
      | _ \<Rightarrow> False)"

definition isProjectContextErrorMessage :: "string \<Rightarrow> bool" where
  "isProjectContextErrorMessage message =
     (let has = str_contains (js_lower message)
      in has ''#3501'' \<or> (has ''google cloud project'' \<and> has ''code assist license'') \<or>
         (has ''resource projects/'' \<and> has ''could not be found'') \<or> (has ''project'' \<and> has ''not found''))"

definition text_json :: "string \<Rightarrow> json" where
  "text_json t = JObj [(''text'', JStr t)]"

definition inline_json :: "string \<times> string \<Rightarrow> json" where
  "inline_json = (\<lambda>(mime, data). JObj [(''inlineData'', JObj [(''mimeType'', JStr mime), (''data'', JStr data)])])"

definition user_contents :: "json list \<Rightarrow> json" where
  "user_contents parts = JObj [(''contents'', JArr [JObj [(''role'', JStr ''user''), (''parts'', JArr parts)]])]"

definition nonblank_part :: "openai_part \<Rightarrow> string option" where
  "nonblank_part p = (case p of OTextPart (Some t) \<Rightarrow> if js_trim t = [] then None else Some t | _ \<Rightarrow> None)"

definition inline_part :: "openai_part \<Rightarrow> json option" where
  "inline_part p = (case p of OImagePart (Some (c # cs)) \<Rightarrow> map_option inline_json (inline_text (c # cs)) | _ \<Rightarrow> None)"

definition some_prompt :: "string \<Rightarrow> string" where
  "some_prompt fallback = (if fallback = [] then image_prompt else fallback)"

definition buildGeminiImageRequest :: "openai_request \<Rightarrow> string \<Rightarrow> json" where
  "buildGeminiImageRequest q fallback =
     user_contents
       (case find (\<lambda>m. om_role m = ''user'') (oq_messages q) of
          None \<Rightarrow> [text_json (some_prompt fallback)]
        | Some m \<Rightarrow>
            (case om_content m of
               OText t \<Rightarrow> [text_json (if t = [] then some_prompt fallback else t)]
             | OParts ps \<Rightarrow>
                 (let texts = List.map_filter nonblank_part ps;
                      parts = (if texts = [] then [] else [text_json (join newline texts)]) @ List.map_filter inline_part ps
                  in if parts = [] then [text_json (some_prompt fallback)] else parts)
             | OMissing \<Rightarrow> [text_json (some_prompt fallback)]))"

definition transcription_request :: "string option \<Rightarrow> string \<times> string \<Rightarrow> json" where
  "transcription_request prompt audio =
     user_contents [text_json (str_or prompt ''Please transcribe the provided speech audio accurately.''), inline_json audio]"

definition transcription_text :: "json \<Rightarrow> string" where
  "transcription_text result = js_trim (concat (map (\<lambda>p. str_or (asString (jget p ''text'')) []) (response_parts result)))"

subsection \<open>Replies\<close>

datatype endpoint_reply = Answer nat json | PlainAnswer nat string

definition error_status :: "string \<Rightarrow> nat" where
  "error_status message =
     (let has = list_ex (str_contains (js_lower message))
      in if has [''all accounts failed or unhealthy''] then 503
         else if has [''all accounts exhausted'', ''no available accounts''] then 429
         else if has [''network socket disconnected'', ''secure tls connection was established'', ''socket hang up'', ''econnreset'', ''eai_again''] then 503
         else if has [''401'', ''unauthorized''] then 401
         else if has [''403'', ''forbidden''] then 403
         else if has [''429'', ''rate limit'', ''quota''] then 429
         else if has [''503'', ''service unavailable''] then 503
         else if has [''502'', ''bad gateway''] then 502
         else if has [''504'', ''timeout''] then 504
         else 500)"

definition openai_error :: "string \<Rightarrow> string \<Rightarrow> json" where
  "openai_error kind message = JObj [(''error'', JObj [(''message'', JStr message), (''type'', JStr kind)])]"

definition sendOpenAIErrorResponse :: "string \<Rightarrow> endpoint_reply" where
  "sendOpenAIErrorResponse message = Answer (error_status message) (openai_error ''server_error'' message)"

definition sendAnthropicErrorResponse :: "string \<Rightarrow> endpoint_reply" where
  "sendAnthropicErrorResponse message =
     Answer (error_status message) (JObj [(''type'', JStr ''error''), (''error'', JObj [(''type'', JStr ''api_error''), (''message'', JStr message)])])"

text \<open>\<open>chat\<close> is what the chat handler gives, None a stream; \<open>gemini\<close> what the Gemini handler gives for the fallback request.\<close>

definition image_reply :: "rat \<Rightarrow> string \<times> string \<Rightarrow> endpoint_reply" where
  "image_reply now md = Answer 200 (JObj [(''created'', JNum (of_int \<lfloor>now / 1000\<rfloor>)), (''data'', JArr [JObj [(''b64_json'', JStr (snd md))]])])"

definition no_image_message :: string where
  "no_image_message = ''Upstream did not return inline image data''"

definition sendOpenAIImageGenerationResponse ::
    "rat \<Rightarrow> string + openai_response option \<Rightarrow> (json \<Rightarrow> string + json) \<Rightarrow> openai_request \<Rightarrow> string \<Rightarrow> endpoint_reply" where
  "sendOpenAIImageGenerationResponse now chat gemini q prompt =
     (case chat of
        Inr None \<Rightarrow> Answer 500 (openai_error ''invalid_request_error'' ''Streaming image generation is not supported by this endpoint'')
      | Inr (Some r) \<Rightarrow>
          (case extractInlineBase64Image (str_or (op_content r) []) of
             None \<Rightarrow> Answer 502 (openai_error ''invalid_response_error'' no_image_message)
           | Some md \<Rightarrow> image_reply now md)
      | Inl message \<Rightarrow>
          if \<not> isProjectContextErrorMessage message then sendOpenAIErrorResponse message
          else (case gemini (buildGeminiImageRequest q prompt) of
                  Inl message' \<Rightarrow> sendOpenAIErrorResponse message'
                | Inr result \<Rightarrow>
                    (case extractInlineBase64ImageFromGeminiResponse result of
                       Some md \<Rightarrow> image_reply now md
                     | None \<Rightarrow> sendOpenAIErrorResponse no_image_message)))"

definition bad_boundary :: endpoint_reply where
  "bad_boundary = PlainAnswer 400 ''Invalid `boundary` for `multipart/form-data` request''"

definition audioTranscriptions ::
    "(string \<Rightarrow> json \<Rightarrow> string + json) \<Rightarrow> json option \<Rightarrow> string option \<Rightarrow> string option \<Rightarrow> json option \<Rightarrow> endpoint_reply" where
  "audioTranscriptions gemini contentType model prompt file =
     (if \<not> hasMultipartBoundary contentType then bad_boundary
      else (case resolveInlineData file of
              None \<Rightarrow> Answer 400 (openai_error ''invalid_request_error''
                (''Missing '' @ [CHR 0x27] @ ''file'' @ [CHR 0x27] @ '' or '' @ [CHR 0x27] @ ''audio'' @ [CHR 0x27] @ '' input. Provide base64 content or a data URL.''))
            | Some audio \<Rightarrow>
                (case gemini (str_or model ''gemini-3-flash'') (transcription_request prompt audio) of
                   Inl message \<Rightarrow> sendOpenAIErrorResponse message
                 | Inr result \<Rightarrow> Answer 200 (text_json (transcription_text result)))))"

text \<open>The endpoints themselves: \<open>handler\<close> is the handler behind them, with None for a stream, which is written as it comes.\<close>

definition endpoint_answer :: "('a \<Rightarrow> json) \<Rightarrow> (string \<Rightarrow> endpoint_reply) \<Rightarrow> string + 'a option \<Rightarrow> endpoint_reply option" where
  "endpoint_answer shown failed r = (case r of Inl m \<Rightarrow> Some (failed m) | Inr None \<Rightarrow> None | Inr (Some a) \<Rightarrow> Some (Answer 200 (shown a)))"

definition respondOpenAIChatCompletions :: "(openai_request \<Rightarrow> string + json option) \<Rightarrow> openai_request \<Rightarrow> endpoint_reply option" where
  "respondOpenAIChatCompletions handler q = endpoint_answer id sendOpenAIErrorResponse (handler q)"

definition anthropicMessages :: "('q \<Rightarrow> string + json option) \<Rightarrow> 'q \<Rightarrow> endpoint_reply option" where
  "anthropicMessages handler q = endpoint_answer id sendAnthropicErrorResponse (handler q)"

definition completions :: "(openai_request \<Rightarrow> string + openai_response option) \<Rightarrow> completions_body \<Rightarrow> endpoint_reply option" where
  "completions handler b = endpoint_answer toLegacyTextCompletionsResponse sendOpenAIErrorResponse (handler (completions_request b))"

definition responses :: "(openai_request \<Rightarrow> string + openai_response option) \<Rightarrow> string \<Rightarrow> responses_body \<Rightarrow> endpoint_reply option" where
  "responses handler stamp b = endpoint_answer toLegacyTextCompletionsResponse sendOpenAIErrorResponse (handler (buildResponsesChatRequest stamp b))"

definition imageGenerations ::
    "rat \<Rightarrow> (openai_request \<Rightarrow> string + openai_response option) \<Rightarrow> (string \<Rightarrow> json \<Rightarrow> string + json) \<Rightarrow> string option \<Rightarrow> string option \<Rightarrow>
     endpoint_reply" where
  "imageGenerations now handler gemini model prompt =
     (let q = generation_request model prompt
      in sendOpenAIImageGenerationResponse now (handler q) (gemini (oq_model q)) q (str_or prompt []))"

definition imageEdits ::
    "rat \<Rightarrow> (openai_request \<Rightarrow> string + openai_response option) \<Rightarrow> (string \<Rightarrow> json \<Rightarrow> string + json) \<Rightarrow> json option \<Rightarrow> string option \<Rightarrow>
     string option \<Rightarrow> json option list \<Rightarrow> endpoint_reply" where
  "imageEdits now handler gemini contentType model prompt entries =
     (if \<not> hasMultipartBoundary contentType then bad_boundary
      else (let q = edit_request model prompt entries
            in sendOpenAIImageGenerationResponse now (handler q) (gemini (oq_model q)) q (str_or prompt [])))"

text \<open>What is written to the client of a stream: its chunks until it ends, and its error, if any; nothing once the client is gone.\<close>

definition sse_error_text :: "string \<Rightarrow> string" where
  "sse_error_text message = ''data: '' @ json_stringify (openai_error ''server_error'' message) @ [CHR 0x0A, CHR 0x0A]"

definition writeSseResponse :: "string list \<Rightarrow> string option \<Rightarrow> string list" where
  "writeSseResponse chunks failure = chunks @ (case failure of None \<Rightarrow> [] | Some m \<Rightarrow> [sse_error_text m])"

subsection \<open>The Gemini endpoints\<close>

definition strip_models :: "string \<Rightarrow> string" where
  "strip_models name = (if starts_with name ''models/'' then drop 7 name else name)"

definition prefixed_model :: "string \<Rightarrow> string" where
  "prefixed_model model = (if starts_with model ''models/'' then model else ''models/'' @ model)"

definition after_colon :: "string \<Rightarrow> string" where
  "after_colon s = rev (takeWhile (\<lambda>c. c \<noteq> CHR '':'') (rev s))"

definition parseModelActionToken :: "string \<Rightarrow> (string \<times> string) option" where
  "parseModelActionToken s =
     (if CHR '':'' \<notin> set s then None
      else (let before = take (length s - length (after_colon s) - 1) s; model = js_trim before; action = js_trim (after_colon s)
            in if before = [] \<or> model = [] \<or> action = [] then None else Some (prefixed_model model, action)))"

definition usage_names :: "string list" where
  "usage_names = [''promptTokenCount'', ''candidatesTokenCount'', ''totalTokenCount'', ''thoughtsTokenCount'', ''promptTokensDetails'',
     ''candidatesTokensDetails'', ''trafficType'']"

definition normalizeGeminiUsageMetadata :: "json \<Rightarrow> members" where
  "normalizeGeminiUsageMetadata usage = List.map_filter (\<lambda>k. map_option (Pair k) (jget usage k)) usage_names"

definition normal_candidate :: "nat \<times> json \<Rightarrow> json" where
  "normal_candidate = (\<lambda>(i, c). JObj ((case jget c ''content'' of None \<Rightarrow> [] | Some v \<Rightarrow> [(''content'', v)]) @
     (case jget c ''finishReason'' of None \<Rightarrow> [] | Some v \<Rightarrow> [(''finishReason'', v)]) @
     [(''index'', case jget c ''index'' of Some (JNum n) \<Rightarrow> JNum n | _ \<Rightarrow> JNum (of_nat i))]))"

definition buildNormalizedGeminiGenerateResponse :: "json \<Rightarrow> json" where
  "buildNormalizedGeminiGenerateResponse response =
     (let candidates = (case jget response ''candidates'' of Some (JArr cs) \<Rightarrow> cs | _ \<Rightarrow> []);
          usage = (case jget response ''usageMetadata'' of Some u \<Rightarrow> if truthy u then normalizeGeminiUsageMetadata u else [] | None \<Rightarrow> [])
      in JObj ([(''candidates'', JArr (map normal_candidate (enumerate 0 candidates)))] @
           (if usage = [] then [] else [(''usageMetadata'', JObj usage)])))"

definition toGeminiModelMetadata :: "string \<Rightarrow> json" where
  "toGeminiModelMetadata name =
     JObj [(''name'', JStr name), (''displayName'', JStr (strip_models name)), (''description'', JStr []), (''inputTokenLimit'', JNum 128000),
       (''outputTokenLimit'', JNum 8192), (''supportedGenerationMethods'', JArr [JStr ''generateContent'', JStr ''countTokens'']),
       (''temperature'', JNum 1), (''topK'', JNum 64), (''topP'', JNum (95 / 100)), (''version'', JStr ''001'')]"

definition gemini_error :: "nat \<Rightarrow> string \<Rightarrow> string \<Rightarrow> endpoint_reply" where
  "gemini_error code status message =
     Answer code (JObj [(''error'', JObj [(''code'', JNum (of_nat code)), (''message'', JStr message), (''status'', JStr status)])])"

text \<open>None is the reply to a stream, which is written as it comes.\<close>

definition handleModelActionDispatch :: "(string \<Rightarrow> string + json) \<Rightarrow> (string \<Rightarrow> string + unit) \<Rightarrow> string \<Rightarrow> string \<Rightarrow> endpoint_reply option" where
  "handleModelActionDispatch generate stream model action =
     (if action = ''countTokens'' then Some (Answer 200 (JObj [(''totalTokens'', JNum 0)]))
      else if action = ''streamGenerateContent''
      then (case stream model of Inl m \<Rightarrow> Some (gemini_error 500 ''INTERNAL'' m) | Inr _ \<Rightarrow> None)
      else if action = ''generateContent''
      then (case generate model of Inl m \<Rightarrow> Some (gemini_error 500 ''INTERNAL'' m) | Inr r \<Rightarrow> Some (Answer 200 (buildNormalizedGeminiGenerateResponse r)))
      else Some (gemini_error 400 ''INVALID_ARGUMENT'' (''Unsupported model action: '' @ action)))"

definition modelAction :: "(string \<Rightarrow> string + json) \<Rightarrow> (string \<Rightarrow> string + unit) \<Rightarrow> string \<Rightarrow> endpoint_reply option" where
  "modelAction generate stream token =
     (case parseModelActionToken token of
        None \<Rightarrow> Some (gemini_error 400 ''INVALID_ARGUMENT'' ''Model action format is invalid'')
      | Some (model, action) \<Rightarrow> handleModelActionDispatch generate stream model action)"

text \<open>A model that is in the list and one that is not have the same description.\<close>

definition getModel :: "string \<Rightarrow> json" where
  "getModel model = JObj [(''name'', JStr (prefixed_model model)), (''displayName'', JStr (strip_models (prefixed_model model)))]"

subsection \<open>Only the key is admitted\<close>

definition header_texts :: "header_value \<Rightarrow> string list" where
  "header_texts v = (case v of OneValue s \<Rightarrow> [s] | Values ss \<Rightarrow> ss)"

lemma trim_infix: "\<exists>a b. s = a @ js_trim s @ b"
proof -
  have l: "\<exists>a. s = a @ trim_left s" for s by (metis takeWhile_dropWhile_id trim_left_def)
  obtain a where a: "s = a @ trim_left s" using l by blast
  obtain b where "rev (trim_left s) = b @ trim_left (rev (trim_left s))" using l by blast
  then have "trim_left s = js_trim s @ rev b" by (metis js_trim_def rev_append rev_rev_ident)
  with a show ?thesis by metis
qed

lemma header_value_text:
  assumes "readHeaderValue v = Some t"
  shows "\<exists>w s. v = Some w \<and> s \<in> set (header_texts w) \<and> t = js_trim s"
proof (cases v)
  case None
  with assms show ?thesis by (simp add: readHeaderValue_def)
next
  case (Some w)
  show ?thesis
  proof (cases w)
    case (OneValue s)
    with Some assms show ?thesis by (simp add: readHeaderValue_def header_texts_def split: if_splits)
  next
    case (Values ss)
    with Some assms have "find (\<lambda>s. s \<noteq> []) (map js_trim ss) = Some t" by (simp add: readHeaderValue_def)
    then have "t \<in> set (map js_trim ss)" by (auto simp: find_Some_iff)
    with Some Values show ?thesis by (auto simp: header_texts_def)
  qed
qed

lemma words_infix: "w \<in> set (ws_words acc s) \<Longrightarrow> \<exists>a b. rev acc @ s = a @ w @ b"
proof (induction acc s rule: ws_words.induct)
  case (2 word c cs)
  have later: "\<exists>a b. rev word @ c # cs = a @ w @ b" if "\<exists>a b. rev [] @ cs = a @ w @ b"
  proof -
    from that obtain a b where "cs = a @ w @ b" by auto
    then have "rev word @ c # cs = (rev word @ c # a) @ w @ b" by simp
    then show ?thesis by blast
  qed
  show ?case
  proof (cases "is_ws c")
    case False
    with 2(3) [OF False] 2(4) show ?thesis by simp
  next
    case True
    show ?thesis
    proof (cases "word = []")
      case word: True
      with 2(4) True have "w \<in> set (ws_words [] cs)" by simp
      from later [OF 2(1) [OF True word this]] show ?thesis .
    next
      case word: False
      with 2(4) True consider "w = rev word" | "w \<in> set (ws_words [] cs)" by auto
      then show ?thesis
      proof cases
        case 1
        then show ?thesis by (metis append_Nil)
      next
        case 2
        from later [OF "2.IH"(2) [OF True word 2]] show ?thesis .
      qed
    qed
  qed
qed (auto intro: exI [of _ "[]"])

lemma bearer_infix: "bearer_token h = Some t \<Longrightarrow> \<exists>a b. h = a @ t @ b"
proof -
  assume "bearer_token h = Some t"
  then have "t \<in> set (ws_words [] (js_trim h))"
    by (auto simp: bearer_token_def split: list.splits if_splits)
  from words_infix [OF this] obtain a b where "js_trim h = a @ t @ b" by auto
  moreover obtain a' b' where "h = a' @ js_trim h @ b'" using trim_infix by blast
  ultimately have "h = (a' @ a) @ t @ (b @ b')" by simp
  then show ?thesis by blast
qed

definition key_headers :: "string list" where
  "key_headers = [''authorization'', ''x-api-key'', ''x-goog-api-key'']"

lemma token_text:
  assumes "extractApiKeyToken hs = Some t"
  shows "\<exists>k \<in> set key_headers. \<exists>w s a b. map_of hs k = Some w \<and> s \<in> set (header_texts w) \<and> s = a @ t @ b"
proof -
  have carried: "\<exists>w s a b. map_of hs k = Some w \<and> s \<in> set (header_texts w) \<and> s = a @ t @ b"
    if read: "readHeaderValue (map_of hs k) = Some h" and inside: "\<exists>a b. h = a @ t @ b" for k h
  proof -
    from header_value_text [OF read] obtain w s where ws: "map_of hs k = Some w" "s \<in> set (header_texts w)" "h = js_trim s"
      by blast
    obtain a b where "s = a @ js_trim s @ b" using trim_infix by blast
    moreover obtain a' b' where "h = a' @ t @ b'" using inside by blast
    ultimately have "s = (a @ a') @ t @ (b' @ b)" using ws by simp
    with ws show ?thesis by blast
  qed
  have self: "\<exists>a b. t = a @ t @ b" by (intro exI [of _ "[]"]) simp
  consider h where "readHeaderValue (map_of hs ''authorization'') = Some h" "bearer_token h = Some t"
    | "readHeaderValue (map_of hs ''x-api-key'') = Some t" | "readHeaderValue (map_of hs ''x-goog-api-key'') = Some t"
    using assms by (auto simp: extractApiKeyToken_def bind_eq_Some_conv split: option.splits)
  then show ?thesis
  proof cases
    case 1
    from carried [OF 1(1) bearer_infix [OF 1(2)]] show ?thesis unfolding key_headers_def by (metis list.set_intros(1))
  next
    case 2
    from carried [OF 2 self] show ?thesis unfolding key_headers_def by (metis list.set_intros)
  next
    case 3
    from carried [OF 3 self] show ?thesis unfolding key_headers_def by (metis list.set_intros)
  qed
qed

lemma words_plain: "w \<in> set (ws_words acc s) \<Longrightarrow> \<forall>c\<in>set acc. \<not> is_ws c \<Longrightarrow> \<forall>c\<in>set w. \<not> is_ws c"
proof (induction acc s rule: ws_words.induct)
  case (2 word c cs)
  show ?case
  proof (cases "is_ws c")
    case False
    with 2(3) [OF False] 2(4,5) show ?thesis by simp
  next
    case True
    show ?thesis
    proof (cases "word = []")
      case word: True
      with 2(1) [OF True word] 2(4) True show ?thesis by simp
    next
      case word: False
      with 2(4) True consider "w = rev word" | "w \<in> set (ws_words [] cs)" by auto
      then show ?thesis
        by cases (use 2(5) 2(2) [OF True word] in simp_all)
    qed
  qed
qed simp

lemma token_trimmed:
  assumes "extractApiKeyToken hs = Some t"
  shows "js_trim t = t"
proof -
  have read: "js_trim t = t" if "readHeaderValue v = Some t" for v
    using header_value_text [OF that] by auto
  have bearer: "js_trim t = t" if "bearer_token h = Some t" for h
  proof (rule js_trim_clean, rule words_plain)
    from that show "t \<in> set (ws_words [] (js_trim h))" by (auto simp: bearer_token_def split: list.splits if_splits)
  qed simp
  show ?thesis
    using assms read bearer by (auto simp: extractApiKeyToken_def bind_eq_Some_conv split: option.splits)
qed

text \<open>C17: When a key is configured (not blank), the guards of the gateway and of the admin page let a request in only if the key has no
  blanks around it and one of the three key headers carries the key itself.\<close>

theorem only_the_key_is_admitted:
  assumes "js_trim key \<noteq> []" and "proxy_guard (Some key) hs \<or> admin_guard (Some key) hs"
  shows "js_trim key = key \<and> (\<exists>k \<in> set key_headers. \<exists>w s a b. map_of hs k = Some w \<and> s \<in> set (header_texts w) \<and> s = a @ key @ b)"
proof -
  from assms have "extractApiKeyToken hs = Some key"
    by (auto simp: proxy_guard_def admin_guard_def hasConfiguredApiKey_def split: option.splits)
  from token_trimmed [OF this] token_text [OF this] show ?thesis by blast
qed

definition sample_headers :: headers where
  "sample_headers = [(''accept'', OneValue ''text/plain''), (''authorization'', Values ['' '', ''Bearer  sk-1 '']), (''x-api-key'', OneValue ''other'')]"

lemma only_the_key_is_admitted_witness:
  "proxy_guard (Some ''sk-1'') sample_headers \<and> \<not> proxy_guard (Some ''other'') sample_headers \<and>
   (\<exists>k \<in> set key_headers. \<exists>w s a b. map_of sample_headers k = Some w \<and> s \<in> set (header_texts w) \<and> s = a @ ''sk-1'' @ b)"
proof -
  have "proxy_guard (Some ''sk-1'') sample_headers" "\<not> proxy_guard (Some ''other'') sample_headers" "js_trim ''sk-1'' \<noteq> []" by code_simp+
  with only_the_key_is_admitted [of "''sk-1''" sample_headers] show ?thesis by blast
qed

subsection \<open>Answers of tools carry the name of their call\<close>

definition is_call :: "string \<Rightarrow> string \<Rightarrow> members \<Rightarrow> bool" where
  "is_call stamp c item \<longleftrightarrow> (\<exists>kind \<in> set call_kinds. item_kind item = Some kind) \<and> item_call_id stamp item = c"

lemma noted: "map_of (note_call stamp item m) c =
    (if is_call stamp c item then Some (call_name (the (item_kind item)) item) else map_of m c)"
  by (auto simp: note_call_def is_call_def update_conv' split: option.splits)

lemma named_call:
  "map_of (fold (note_call stamp) items m) c = Some n \<Longrightarrow>
     map_of m c = Some n \<or> (\<exists>item\<in>set items. is_call stamp c item \<and> n = call_name (the (item_kind item)) item)"
  by (induction items arbitrary: m) (fastforce simp: noted split: if_splits)+

lemma call_is_named:
  "(\<exists>item\<in>set items. is_call stamp c item) \<or> map_of m c \<noteq> None \<Longrightarrow> map_of (fold (note_call stamp) items m) c \<noteq> None"
  by (induction items arbitrary: m) (auto simp: noted)

lemma arguments_object: "\<exists>members. resolveToolArguments kind item = JObj members"
  by (simp add: resolveToolArguments_def Let_def split: option.split json.split)

lemma item_answer:
  "item_message stamp names item = Some msg \<Longrightarrow> om_tool_call_id msg = Some c \<Longrightarrow> om_name msg = Some (str_or (map_of names c) ''unknown'')"
  by (auto simp: item_message_def Let_def split: option.splits if_splits)

lemma item_call:
  "item_message stamp names item = Some msg \<Longrightarrow> om_tool_calls msg = Some tcs \<Longrightarrow>
     \<exists>tc. tcs = [tc] \<and> is_call stamp (otc_id tc) item \<and> otc_name tc = str_or (map_of names (otc_id tc)) ''unknown'' \<and>
       (\<exists>members. otc_arguments tc = json_stringify (JObj members))"
  using arguments_object [of "the (item_kind item)" item]
  by (auto simp: item_message_def is_call_def Let_def simp del: json_stringify.simps split: option.splits if_splits) blast

lemma set_kept: "set (List.map_filter f xs) = {y. \<exists>x\<in>set xs. f x = Some y}"
  by (force simp: List.map_filter_def)

lemma record_items: "item \<in> set (List.map_filter (\<lambda>i. toRecord (Some i)) items) \<longleftrightarrow> JObj item \<in> set items"
proof -
  have "toRecord (Some i) = Some item \<longleftrightarrow> i = JObj item" for i by (cases i) (auto simp: toRecord_def)
  then show ?thesis by (auto simp: set_kept)
qed

text \<open>C36: In a converted responses request every call of a tool has an object as arguments and the name of a call item with its
  identifier, and the answer to it has the same name.\<close>

theorem answers_name_their_call:
  assumes "call \<in> set (input_messages stamp (Some (JArr items)))" "om_tool_calls call = Some tcs"
  shows "\<exists>tc item members. tcs = [tc] \<and> JObj item \<in> set items \<and> is_call stamp (otc_id tc) item \<and>
     otc_name tc = call_name (the (item_kind item)) item \<and> otc_arguments tc = json_stringify (JObj members) \<and>
     (\<forall>answer \<in> set (input_messages stamp (Some (JArr items))). om_tool_call_id answer = Some (otc_id tc) \<longrightarrow>
        om_name answer = Some (otc_name tc))"
proof -
  define records names where "records = List.map_filter (\<lambda>i. toRecord (Some i)) items" and "names = callIdToToolName stamp records"
  have made: "set (input_messages stamp (Some (JArr items))) = {msg. \<exists>item\<in>set records. item_message stamp names item = Some msg}"
    by (simp add: input_messages_def Let_def set_kept flip: records_def names_def)
  from assms(1) made obtain item where item: "item \<in> set records" "item_message stamp names item = Some call" by auto
  from item_call [OF item(2) assms(2)] obtain tc members where tc: "tcs = [tc]" "is_call stamp (otc_id tc) item"
    "otc_name tc = str_or (map_of names (otc_id tc)) ''unknown''" "otc_arguments tc = json_stringify (JObj members)" by blast
  from call_is_named [of records stamp "otc_id tc" "[]"] tc(2) item(1) obtain n where n: "map_of names (otc_id tc) = Some n"
    by (auto simp: names_def callIdToToolName_def)
  from named_call [OF n [unfolded names_def callIdToToolName_def]] obtain item' where
    "item' \<in> set records" "is_call stamp (otc_id tc) item'" "n = call_name (the (item_kind item')) item'" by auto
  moreover have "otc_name tc = n" using tc(3) n by (simp add: str_or_def)
  moreover have "\<forall>answer\<in>set (input_messages stamp (Some (JArr items))). om_tool_call_id answer = Some (otc_id tc) \<longrightarrow>
      om_name answer = Some (otc_name tc)"
    unfolding made using item_answer [where names = names and c = "otc_id tc"] tc(3) by fastforce
  ultimately show ?thesis using tc(1,4) by (auto simp: records_def record_items)
qed

definition sample_items :: "json list" where
  "sample_items =
     [JObj [(''type'', JStr ''function_call_output''), (''call_id'', JStr ''c1''), (''output'', JStr ''42'')],
      JObj [(''type'', JStr ''function_call''), (''call_id'', JStr ''c1''), (''name'', JStr ''add''), (''arguments'', JStr ''no json'')]]"

lemma answers_name_their_call_witness:
  "\<exists>answer call tc members. input_messages ''call_1'' (Some (JArr sample_items)) = [answer, call] \<and> om_tool_calls call = Some [tc] \<and>
     otc_name tc = ''add'' \<and> otc_arguments tc = json_stringify (JObj members) \<and> om_name answer = Some ''add''"
proof -
  obtain answer call where m: "input_messages ''call_1'' (Some (JArr sample_items)) = [answer, call]"
    "om_tool_call_id answer = Some ''c1''" "om_tool_calls call \<noteq> None"
    by (simp add: input_messages_def sample_items_def toRecord_def map_filter_simps item_message_def item_kind_def given_string_def
        asString_def call_kinds_def item_call_id_def Let_def)
  then obtain tcs where tcs: "call \<in> set (input_messages ''call_1'' (Some (JArr sample_items)))" "om_tool_calls call = Some tcs" by auto
  from answers_name_their_call [OF tcs] obtain tc item members where tc: "tcs = [tc]" "JObj item \<in> set sample_items"
    "is_call ''call_1'' (otc_id tc) item" "otc_name tc = call_name (the (item_kind item)) item"
    "otc_arguments tc = json_stringify (JObj members)" "om_tool_call_id answer = Some (otc_id tc) \<longrightarrow> om_name answer = Some (otc_name tc)"
    using m(1) by auto
  then have "otc_name tc = ''add'' \<and> otc_id tc = ''c1''"
    by (auto simp: sample_items_def is_call_def call_name_def item_call_id_def item_kind_def given_string_def asString_def call_kinds_def str_or_def)
  with tc tcs(2) m show ?thesis by auto
qed

subsection \<open>What modelling showed\<close>

lemma padded_key_admits_nobody:
  assumes "js_trim key \<noteq> []" "js_trim key \<noteq> key"
  shows "\<not> proxy_guard (Some key) hs"
proof
  assume "proxy_guard (Some key) hs"
  with assms(1) have "extractApiKeyToken hs = Some key" by (simp add: proxy_guard_def hasConfiguredApiKey_def)
  with token_trimmed assms(2) show False by blast
qed

lemma tool_calls_are_not_shown:
  "toLegacyTextCompletionsResponse (r\<lparr>op_tool_calls := tcs\<rparr>) = toLegacyTextCompletionsResponse r"
  by (simp add: toLegacyTextCompletionsResponse_def)

lemma untyped_items_are_dropped:
  "input_messages stamp (Some (JArr [JObj [(''role'', JStr ''user''), (''content'', JStr ''Hi'')], JStr ''Hi''])) = []"
  by (simp add: input_messages_def toRecord_def map_filter_simps item_message_def item_kind_def given_string_def asString_def Let_def)

lemma raw_images_become_audio:
  "inline_text ''https://example.org/a.png'' = Some (''audio/mpeg'', ''https://example.org/a.png'')"
  by code_simp

end
