(* ===== verification/Spec2Isabelle.thy ===== *)
theory Spec2Isabelle
  imports AccountLock RetryLoop OpenAiRequest OpenAiStream HandlerFacts IdeSync AccountActions Endpoints
begin

text \<open>
  Verification of the TypeScript core of this repository: \<open>antigravity-manager\<close>, an application that keeps Google accounts,
  switches an editor between them and runs a gateway that serves the OpenAI, Anthropic and Gemini interfaces from them. File names
  below are under \<open>src/antigravity-manager/src\<close>; names of functions are those of the source, with a suffix or a prefix where they
  would clash.

  \<^bold>\<open>The program and its model.\<close> A request to the gateway passes a guard and an endpoint (\<open>Endpoints\<close>), becomes a Claude request
  (\<open>OpenAiRequest\<close>, \<open>ClaudeRequest\<close>) and is handled by one of four handlers (\<open>Handlers\<close>), each a body of one retry loop
  (\<open>RetryLoop\<close>): an attempt takes an account from the token manager (\<open>TokenManager\<close>), sends the converted request through the client
  of the upstream (\<open>GeminiClient\<close>) and turns the answer, a value or a stream, into the client's format (\<open>ClaudeResponse\<close>,
  \<open>AnthropicStream\<close>, \<open>OpenAiStream\<close>, \<open>SseLines\<close>). Errors are classified (\<open>UpstreamErrors\<close>) and lock accounts and models
  (\<open>Tracker\<close>). Accounts live in an encrypted store (\<open>AccountRepo\<close>, \<open>Security\<close>), are filled by Google's interfaces
  (\<open>GoogleClients\<close>, \<open>GoogleQuota\<close>), refreshed (\<open>AccountHealth\<close>, \<open>CloudMonitor\<close>) and put in force in the editor
  (\<open>CloudSwitch\<close>, \<open>IdeState\<close>, \<open>DeviceStorage\<close>). The state of each part is a record, an operation is a function from the state to an
  outcome and the new state, an error is the left value of a sum, and the operations are composed the way the sources call each other.

  \<^bold>\<open>Shared foundations.\<close>
  \<^item> \<open>JsPrelude\<close>: strings, numbers and maps of the language, and the interface \<open>keyed_store\<close> of what a map promises.
  \<^item> \<open>Json\<close>, \<open>JsonText\<close>: untyped values; \<open>JSON.parse\<close> and \<open>JSON.stringify\<close> with their round trip.
  \<^item> \<open>Doubles\<close>: rounding of doubles where a truncation makes it matter. Everywhere else numbers are exact rationals.

  \<^bold>\<open>Token manager\<close> (\<open>modules/proxy-gateway/server/token-manager.service.ts\<close>, \<open>rate-limit-tracker.ts\<close>).
  \<^item> \<open>RateLimit\<close>, \<open>Tracker\<close>: retry hints read from upstream errors; the lockouts of accounts and models, as the interface
    \<open>rate_limiter\<close> (locked until, forgotten when over) and its implementation.
  \<^item> \<open>Accounts\<close>, \<open>Scheduler\<close>, \<open>TokenManager\<close>, \<open>TokenManagerFacts\<close>: token records and quota snapshots, the two schedulers and their
    shadow comparison, every operation of the service; an invariant of its reachable states, scope and exclusion, fairness of the round
    robin.
  \<^item> \<open>AccountModels\<close>, \<open>ModelMapping\<close>: which models an account can serve and how names are rewritten.
  \<^item> \<open>AccountLock\<close>: the lock of one account as a step relation over promises; one flight at a time.

  \<^bold>\<open>Requests and answers\<close> (\<open>modules/proxy-gateway/antigravity\<close>, \<open>server/proxy.service.ts\<close>, \<open>server/clients\<close>).
  \<^item> \<open>JsonSchema\<close>: tool schemas cleaned for Gemini; what the comment on the cleaning promises holds of the result, in particular no reference
    to a definition is left, and the recursion ends when references do not go in circles (a schema that refers to itself exhausts the
    stack: the depth is an argument). The arguments of tool calls pass the same cleaning, which changes arguments that have members with
    the names of schema keywords; what is kept of them is stated over the raw arguments (\<open>arguments_kept\<close>).
  \<^item> \<open>ClaudeRequest\<close>, \<open>ClaudeRequestFacts\<close>, \<open>OpenAiRequest\<close>, \<open>Generation\<close>: conversion of requests keeps the texts, the images given
    in base64 and the tool calls of the conversation, up to the cleaning of the arguments; tools are compatible, limits hold.
  \<^item> \<open>GeminiParts\<close>, \<open>ClaudeStreaming\<close>, \<open>ClaudeProtocol\<close>, \<open>SseLines\<close>, \<open>AnthropicStream\<close>, \<open>ClaudeResponse\<close>, \<open>OpenAiStream\<close>: the
    interface \<open>line_reader\<close> of the four consumers of a stream, interpreted for each; the stream follows the protocol and shows the
    content however it is cut, and a stream and the collected response agree.
  \<^item> \<open>UpstreamErrors\<close>, \<open>GeminiClient\<close>, \<open>RetryLoop\<close>, \<open>Handlers\<close>, \<open>HandlerFacts\<close>: at most three attempts with at most two calls each,
    waits bounded (the handler's own and those of the token manager for the account of a session), posts bounded, and an answer is the upstream's answer to the client's own conversation.
  \<^item> \<open>Endpoints\<close>: keys of clients, requests of the remaining endpoints, statuses of errors.

  \<^bold>\<open>Accounts and the editor\<close> (\<open>modules/cloud-account\<close>, \<open>modules/identity-profile\<close>, \<open>modules/antigravity-runtime\<close>, \<open>shared\<close>).
  \<^item> \<open>Protobuf\<close> (\<open>shared/serialization/protobuf.ts\<close>): variable-length numbers on words, fields, the messages of the editor; round trips.
  \<^item> \<open>Security\<close> (\<open>shared/security/security.ts\<close>): the master key and its fallbacks; stored data survives restarts
    at which the key store or the key file still answers.
  \<^item> \<open>DeviceProfiles\<close>, \<open>AccountRepo\<close>, \<open>AccountRepoFacts\<close>, \<open>IdeState\<close>, \<open>IdeSync\<close> (\<open>cloudHandler.ts\<close>): the store of accounts, its
    invariant, and the state database of the editor; what is injected is read back.
  \<^item> \<open>RequestUserAgent\<close>, \<open>GoogleClients\<close>, \<open>GoogleQuota\<close> (\<open>GoogleAPIService.ts\<close>): tokens, projects, quotas. A query of the quota
    makes at most 17 requests.
  \<^item> \<open>DeviceStorage\<close>: the device profile written to the editor's files with backups; a failed application is undone.
  \<^item> \<open>Switching\<close>: the guard that runs one switch at a time, as a step relation, and the flow of a switch.
  \<^item> \<open>AccountHealth\<close>, \<open>CloudSwitch\<close>, \<open>CloudMonitor\<close>, \<open>AccountActions\<close>: refresh, switch, background monitor with automatic switch,
    sign-in, import and export, composed from all of the above.

  \<^bold>\<open>Bounds and fuel.\<close> The retry loop makes three attempts (\<open>maxRetries\<close>); a busy database of the editor is tried three times; an upstream call
  passes at most five times over the endpoints, each time with fewer optional headers; the monitor waits ten seconds between polls begun by the focus. The JSON parser takes the length of
  its text as fuel, which is enough because every step consumes a character. The stack for schemas is an argument; theorems say
  when it is enough. Other recursions are structural or have a termination proof.

  \<^bold>\<open>Abstractions.\<close> Characters are code units below 256 and case mapping is that of ASCII; numbers are exact rationals, in JSON texts
  with at most 30 decimals; members of the wrong type count as absent where the sources only test for presence; streams are lists of
  chunks; requests are handled one after the other, with the lock of an account and the guard of switches as the two places whose interleavings
  are modelled; the clock stands still within an operation; files are given by their parsed contents; the editor has one state
  database (several for \<open>syncFromIde\<close>); ties in a query without an order come in the order of insertion. The database
  of the accounts fails only where a switch marks the account and otherwise answers; the removal of the backups of a device profile succeeds; an
  expiry with a fraction, which the encoding of the editor's message refuses, is floored. What is
  not code of the repository is an argument: the cipher and the key stores of the system, with the laws they are documented to have (decrypting what was encrypted
  gives it back), the network, the answers of Google, the comparison of versions, random numbers, the start and stop of the editor. Laws that
  are hypotheses of a theorem are shown to hold for a concrete instance in its witness.

  \<^bold>\<open>Not modelled.\<close> User interface (components, hooks, translations), the shell of the application (windows, tray, update notices,
  logging, telemetry), paths and processes of the platforms, local backups of whole editor databases, bindings that pass
  arguments on, and the \<open>new-api\<close> tree, whose server is written in Go and whose TypeScript is its administration interface. The reasons
  stand beside each component in the manifest: these parts are input and output, glue, or calls of libraries the sources only use.
\<close>

end
